(* ===== verification/Prelude.thy ===== *)
theory Prelude
  imports Main "HOL-Library.Word" "HOL-Library.Char_ord" "HOL-Library.List_Lexorder"
    "HOL-Library.Product_Lexorder" "HOL-Library.Sublist"
begin

text \<open>
  Shared notions of the development: the outcome of a fallible Rust operation, checked and
  saturating arithmetic on machine words, \<open>std::time::Duration\<close>, the blank-text test
  \<open>str::trim().is_empty()\<close>, and \<open>BTreeMap\<close> as an association list in key order, with
  the lemmas the component theories use.
\<close>

section \<open>Outcomes\<close>

text \<open>
  A call returns \<open>Ok\<close> a value, returns \<open>Err\<close> an error, or panics (an \<open>expect\<close> on an
  absent value, or \<open>Duration\<close> arithmetic outside its range).
\<close>

datatype ('a, 'e) outcome = Ok 'a | Err 'e | Panic

fun and_then :: "('a, 'e) outcome \<Rightarrow> ('a \<Rightarrow> ('b, 'e) outcome) \<Rightarrow> ('b, 'e) outcome" where
  "and_then (Ok a) f = f a"
| "and_then (Err e) f = Err e"
| "and_then Panic f = Panic"

fun map_err :: "('e \<Rightarrow> 'f) \<Rightarrow> ('a, 'e) outcome \<Rightarrow> ('a, 'f) outcome" where
  "map_err g (Ok a) = Ok a"
| "map_err g (Err e) = Err (g e)"
| "map_err g Panic = Panic"

fun ok_or :: "'a option \<Rightarrow> 'e \<Rightarrow> ('a, 'e) outcome" where
  "ok_or None e = Err e"
| "ok_or (Some a) e = Ok a"

fun is_ok :: "('a, 'e) outcome \<Rightarrow> bool" where
  "is_ok (Ok a) = True"
| "is_ok (Err e) = False"
| "is_ok Panic = False"

fun is_panic :: "('a, 'e) outcome \<Rightarrow> bool" where
  "is_panic (Ok a) = False"
| "is_panic (Err e) = False"
| "is_panic Panic = True"

text \<open>A \<open>for\<close> loop whose body may leave the function with an error.\<close>

fun for_each :: "('x \<Rightarrow> 's \<Rightarrow> ('s, 'e) outcome) \<Rightarrow> 'x list \<Rightarrow> 's \<Rightarrow> ('s, 'e) outcome" where
  "for_each f [] s = Ok s"
| "for_each f (x # xs) s = and_then (f x s) (for_each f xs)"

lemma and_then_eq_Ok [simp]: "and_then m f = Ok b \<longleftrightarrow> (\<exists>a. m = Ok a \<and> f a = Ok b)"
  by (cases m) auto

lemma and_then_eq_Err: "and_then m f = Err e \<longleftrightarrow> m = Err e \<or> (\<exists>a. m = Ok a \<and> f a = Err e)"
  by (cases m) auto

lemma and_then_eq_Panic: "and_then m f = Panic \<longleftrightarrow> m = Panic \<or> (\<exists>a. m = Ok a \<and> f a = Panic)"
  by (cases m) auto

lemma map_err_eq_Ok [simp]: "map_err g m = Ok a \<longleftrightarrow> m = Ok a"
  by (cases m) auto

lemma map_err_eq_Panic [simp]: "map_err g m = Panic \<longleftrightarrow> m = Panic"
  by (cases m) auto

lemma ok_or_eq_Ok [simp]: "ok_or m e = Ok a \<longleftrightarrow> m = Some a"
  by (cases m) auto

lemma ok_or_eq_Err [simp]: "ok_or m e = Err e' \<longleftrightarrow> m = None \<and> e' = e"
  by (cases m) auto

lemma ok_or_neq_Panic [simp]: "ok_or m e \<noteq> Panic"
  by (cases m) auto

lemma is_ok_iff: "is_ok m \<longleftrightarrow> (\<exists>a. m = Ok a)"
  by (cases m) auto

lemma is_panic_iff [simp]: "is_panic m \<longleftrightarrow> m = Panic"
  by (cases m) auto

lemma for_each_append:
  "for_each f (xs @ ys) s = and_then (for_each f xs s) (for_each f ys)"
proof (induction xs arbitrary: s)
  case (Cons x xs)
  then show ?case by (cases "f x s") auto
qed simp

lemma for_each_cong [fundef_cong]:
  assumes "xs = ys" and "s = t" and "\<And>x u. x \<in> set ys \<Longrightarrow> f x u = g x u"
  shows "for_each f xs s = for_each g ys t"
proof -
  have "for_each f ys s = for_each g ys s"
    using assms(3)
  proof (induction ys arbitrary: s)
    case (Cons y ys)
    then show ?case by (cases "g y s") auto
  qed simp
  with assms(1,2) show ?thesis by simp
qed

text \<open>A loop whose every iteration keeps an invariant keeps it.\<close>

lemma for_each_inv:
  assumes "for_each f xs s = Ok t" and "P s"
    and "\<And>x u v. x \<in> set xs \<Longrightarrow> P u \<Longrightarrow> f x u = Ok v \<Longrightarrow> P v"
  shows "P t"
  using assms
proof (induction xs arbitrary: s)
  case (Cons x xs)
  then obtain u where "f x s = Ok u" "for_each f xs u = Ok t" by auto
  with Cons show ?case by (metis list.set_intros)
qed simp

lemma for_each_no_panic:
  assumes "\<And>x u. x \<in> set xs \<Longrightarrow> f x u \<noteq> Panic"
  shows "for_each f xs s \<noteq> Panic"
  using assms
proof (induction xs arbitrary: s)
  case (Cons x xs)
  have "f x s \<noteq> Panic" using Cons.prems by simp
  moreover have "for_each f xs u \<noteq> Panic" for u using Cons by simp
  ultimately show ?case by (auto simp: and_then_eq_Panic)
qed simp

section \<open>Machine integers\<close>

type_synonym u16 = "16 word"
type_synonym u32 = "32 word"
type_synonym u64 = "64 word"

definition checked_add :: "'l::len word \<Rightarrow> 'l word \<Rightarrow> 'l word option" where
  "checked_add a b = (if unat a + unat b < 2 ^ LENGTH('l) then Some (a + b) else None)"

definition checked_sub :: "'l::len word \<Rightarrow> 'l word \<Rightarrow> 'l word option" where
  "checked_sub a b = (if b \<le> a then Some (a - b) else None)"

definition saturating_add :: "'l::len word \<Rightarrow> 'l word \<Rightarrow> 'l word" where
  "saturating_add a b = (if unat a + unat b < 2 ^ LENGTH('l) then a + b else - 1)"

lemma unat_add_fits: "unat a + unat (b :: 'l::len word) < 2 ^ LENGTH('l) \<Longrightarrow> unat (a + b) = unat a + unat b"
  by (simp add: unat_word_ariths)

lemma unat_sub_le: "unat b \<le> unat (a :: 'l::len word) \<Longrightarrow> unat (a - b) = unat a - unat b"
  by (simp add: unat_sub word_le_nat_alt)

lemma checked_add_Some_iff:
  "checked_add a b = Some c \<longleftrightarrow> unat c = unat a + unat (b :: 'l::len word)"
proof
  assume "checked_add a b = Some c"
  then show "unat c = unat a + unat b"
    by (auto simp: checked_add_def unat_add_fits split: if_splits)
next
  assume c: "unat c = unat a + unat b"
  then have "unat a + unat b < 2 ^ LENGTH('l)" using c unsigned_less [of c, where ?'a = nat] by linarith
  then show "checked_add a b = Some c"
    using c by (simp add: checked_add_def word_unat_eq_iff unat_add_fits)
qed

lemma checked_add_None_iff:
  "checked_add a b = None \<longleftrightarrow> 2 ^ LENGTH('l) \<le> unat a + unat (b :: 'l::len word)"
  by (auto simp: checked_add_def)

section \<open>Durations\<close>

text \<open>
  \<open>std::time::Duration\<close> is a number of nanoseconds, at most \<open>u64::MAX\<close> seconds and
  999999999 nanoseconds. Subtraction below zero and addition above the maximum panic
  unless the checked or saturating form is used.
\<close>

type_synonym duration = nat

definition dur_max :: duration where
  "dur_max = 2 ^ 64 * 10 ^ 9 - 1"

definition dur_checked_add :: "duration \<Rightarrow> duration \<Rightarrow> duration option" where
  "dur_checked_add a b = (if a + b \<le> dur_max then Some (a + b) else None)"

definition dur_saturating_add :: "duration \<Rightarrow> duration \<Rightarrow> duration" where
  "dur_saturating_add a b = min dur_max (a + b)"

definition dur_sub :: "duration \<Rightarrow> duration \<Rightarrow> (duration, 'e) outcome" where
  "dur_sub a b = (if b \<le> a then Ok (a - b) else Panic)"

lemma dur_sub_eq_Ok [simp]: "dur_sub a b = Ok d \<longleftrightarrow> b \<le> a \<and> d = a - b"
  by (auto simp: dur_sub_def)

lemma dur_sub_neq_Err [simp]: "dur_sub a b \<noteq> Err e"
  by (simp add: dur_sub_def)

lemma dur_sub_eq_Panic [simp]: "dur_sub a b = Panic \<longleftrightarrow> a < b"
  by (simp add: dur_sub_def)

section \<open>Blank text\<close>

text \<open>
  A Rust \<open>String\<close> is its UTF-8 bytes, one \<open>char\<close> per byte, so \<open>len()\<close> is \<open>length\<close>.
  \<open>s.trim().is_empty()\<close> holds when every character has the Unicode property
  \<open>White_Space\<close>; the property's characters are listed by their UTF-8 encodings.
\<close>

definition is_white_space3 :: "nat \<Rightarrow> nat \<Rightarrow> nat \<Rightarrow> bool" where
  "is_white_space3 a b c \<longleftrightarrow>
     a = 225 \<and> b = 154 \<and> c = 128
   \<or> a = 226 \<and> b = 128 \<and> (128 \<le> c \<and> c \<le> 138 \<or> c = 168 \<or> c = 169 \<or> c = 175)
   \<or> a = 226 \<and> b = 129 \<and> c = 159
   \<or> a = 227 \<and> b = 128 \<and> c = 128"

fun blank_bytes :: "nat list \<Rightarrow> bool" where
  "blank_bytes [] = True"
| "blank_bytes [a] = (9 \<le> a \<and> a \<le> 13 \<or> a = 32)"
| "blank_bytes [a, b] =
     (if 9 \<le> a \<and> a \<le> 13 \<or> a = 32 then blank_bytes [b]
      else a = 194 \<and> (b = 133 \<or> b = 160))"
| "blank_bytes (a # b # c # bs) =
     (if 9 \<le> a \<and> a \<le> 13 \<or> a = 32 then blank_bytes (b # c # bs)
      else if a = 194 \<and> (b = 133 \<or> b = 160) then blank_bytes (c # bs)
      else is_white_space3 a b c \<and> blank_bytes bs)"

definition is_blank :: "string \<Rightarrow> bool" where
  "is_blank s = blank_bytes (map of_char s)"

lemma is_blank_Nil [simp]: "is_blank []"
  by (simp add: is_blank_def)

section \<open>Ordered maps\<close>

text \<open>
  \<open>std::collections::BTreeMap\<close> as the list of its entries in increasing key order; looking
  up is the library's \<open>map_of\<close>.
\<close>

type_synonym ('k, 'v) btree_map = "('k \<times> 'v) list"

definition bt_wf :: "('k::linorder, 'v) btree_map \<Rightarrow> bool" where
  "bt_wf m \<longleftrightarrow> sorted_wrt (<) (map fst m)"

fun bt_insert :: "'k::linorder \<Rightarrow> 'v \<Rightarrow> ('k, 'v) btree_map \<Rightarrow> ('k, 'v) btree_map" where
  "bt_insert k v [] = [(k, v)]"
| "bt_insert k v ((k', v') # m) =
     (if k < k' then (k, v) # (k', v') # m
      else if k = k' then (k, v) # m
      else (k', v') # bt_insert k v m)"

definition bt_remove :: "'k \<Rightarrow> ('k, 'v) btree_map \<Rightarrow> ('k, 'v) btree_map" where
  "bt_remove k m = filter (\<lambda>e. fst e \<noteq> k) m"

definition bt_modify :: "'k \<Rightarrow> ('v \<Rightarrow> 'v) \<Rightarrow> ('k, 'v) btree_map \<Rightarrow> ('k, 'v) btree_map" where
  "bt_modify k f m = map (\<lambda>e. if fst e = k then (k, f (snd e)) else e) m"

abbreviation bt_keys :: "('k, 'v) btree_map \<Rightarrow> 'k list" where
  "bt_keys m \<equiv> map fst m"

abbreviation bt_values :: "('k, 'v) btree_map \<Rightarrow> 'v list" where
  "bt_values m \<equiv> map snd m"

lemma bt_wf_Nil [simp]: "bt_wf []"
  by (simp add: bt_wf_def)

lemma bt_wf_Cons: "bt_wf ((k, v) # m) \<longleftrightarrow> (\<forall>k' \<in> fst ` set m. k < k') \<and> bt_wf m"
  by (simp add: bt_wf_def)

lemma bt_wf_distinct: "bt_wf m \<Longrightarrow> distinct (bt_keys m)"
  unfolding bt_wf_def by (induction m) auto

lemma keys_bt_insert [simp]: "fst ` set (bt_insert k v m) = insert k (fst ` set m)"
  by (induction k v m rule: bt_insert.induct) auto

lemma map_of_bt_insert [simp]: "map_of (bt_insert k v m) = (map_of m)(k \<mapsto> v)"
  by (induction k v m rule: bt_insert.induct) auto

lemma bt_wf_insert [simp]: "bt_wf m \<Longrightarrow> bt_wf (bt_insert k v m)"
  by (induction k v m rule: bt_insert.induct) (auto simp: bt_wf_Cons)

lemma keys_bt_remove [simp]: "fst ` set (bt_remove k m) = fst ` set m - {k}"
  by (auto simp: bt_remove_def)

lemma set_bt_remove [simp]: "set (bt_remove k m) = {e \<in> set m. fst e \<noteq> k}"
  by (auto simp: bt_remove_def)

lemma map_of_bt_remove [simp]: "map_of (bt_remove k m) = (map_of m)(k := None)"
  by (induction m) (auto simp: bt_remove_def)

lemma bt_wf_remove [simp]: "bt_wf m \<Longrightarrow> bt_wf (bt_remove k m)"
  by (induction m) (auto simp: bt_remove_def bt_wf_Cons)

lemma keys_bt_modify [simp]: "bt_keys (bt_modify k f m) = bt_keys m"
  by (induction m) (auto simp: bt_modify_def)

lemma keys_set_bt_modify [simp]: "fst ` set (bt_modify k f m) = fst ` set m"
  by (metis keys_bt_modify list.set_map)

lemma map_of_bt_modify [simp]:
  "map_of (bt_modify k f m) = (\<lambda>k'. if k' = k then map_option f (map_of m k) else map_of m k')"
  by (induction m) (auto simp: bt_modify_def fun_eq_iff)

lemma bt_wf_modify [simp]: "bt_wf (bt_modify k f m) = bt_wf m"
  by (simp add: bt_wf_def)

lemma bt_modify_eq_Nil [simp]: "bt_modify k f m = [] \<longleftrightarrow> m = []"
  by (simp add: bt_modify_def)

lemma set_bt_insert_fresh:
  "k \<notin> fst ` set m \<Longrightarrow> set (bt_insert k v m) = insert (k, v) (set m)"
  by (induction k v m rule: bt_insert.induct) auto

lemma length_bt_insert_fresh: "k \<notin> fst ` set m \<Longrightarrow> length (bt_insert k v m) = Suc (length m)"
  by (induction k v m rule: bt_insert.induct) auto

lemma sum_bt_insert_fresh:
  fixes f :: "'v \<Rightarrow> nat"
  shows "k \<notin> fst ` set m \<Longrightarrow>
    sum_list (map f (bt_values (bt_insert k v m))) = f v + sum_list (map f (bt_values m))"
  by (induction k v m rule: bt_insert.induct) auto

lemma bt_remove_absent: "k \<notin> fst ` set m \<Longrightarrow> bt_remove k m = m"
  unfolding bt_remove_def by (rule filter_True) auto

lemma sum_bt_remove:
  fixes f :: "'v \<Rightarrow> nat"
  shows "distinct (bt_keys m) \<Longrightarrow> map_of m k = Some v \<Longrightarrow>
    sum_list (map f (bt_values m)) = f v + sum_list (map f (bt_values (bt_remove k m)))"
proof (induction m)
  case (Cons e m)
  obtain k' v' where e: "e = (k', v')" by (cases e)
  show ?case
  proof (cases "k' = k")
    case True
    with Cons.prems e have "k \<notin> fst ` set m" "v' = v" by auto
    then show ?thesis using True e bt_remove_absent [of k m] by (simp add: bt_remove_def)
  next
    case False
    with Cons e show ?thesis by (simp add: bt_remove_def)
  qed
qed simp

lemma sum_bt_modify:
  assumes "\<And>v. g (f v) = g v"
  shows "map g (bt_values (bt_modify k f m)) = map g (bt_values m)"
  using assms by (induction m) (auto simp: bt_modify_def)

lemma sum_list_ge_elem:
  fixes f :: "'v \<Rightarrow> nat"
  shows "v \<in> set vs \<Longrightarrow> f v \<le> sum_list (map f vs)"
  by (induction vs) auto

text \<open>The contract of an ordered map, and its interpretation on the entry lists.\<close>

locale ordered_map =
  fixes empty :: 'm
    and get :: "'m \<Rightarrow> 'k \<Rightarrow> 'v option"
    and ins :: "'k \<Rightarrow> 'v \<Rightarrow> 'm \<Rightarrow> 'm"
    and del :: "'k \<Rightarrow> 'm \<Rightarrow> 'm"
    and wf :: "'m \<Rightarrow> bool"
  assumes get_empty: "get empty k = None"
    and get_ins: "wf m \<Longrightarrow> get (ins k v m) k' = (if k' = k then Some v else get m k')"
    and get_del: "wf m \<Longrightarrow> get (del k m) k' = (if k' = k then None else get m k')"
    and wf_empty: "wf empty"
    and wf_ins: "wf m \<Longrightarrow> wf (ins k v m)"
    and wf_del: "wf m \<Longrightarrow> wf (del k m)"
begin

lemma ins_then_del: "wf m \<Longrightarrow> get m k = None \<Longrightarrow> get (del k (ins k v m)) = get m"
  by (rule ext) (simp add: get_del get_ins wf_ins)

lemma ins_ins: "wf m \<Longrightarrow> get (ins k v (ins k w m)) = get (ins k v m)"
  by (rule ext) (simp add: get_ins wf_ins)

end

interpretation btree: ordered_map "[]" map_of bt_insert bt_remove bt_wf
  by unfold_locales auto

end
