(* ===== verification/BudgetVocab.thy ===== *)
theory BudgetVocab
  imports Prelude
begin

text \<open>
  The budget vocabulary of \<open>crates/core/core/src/budget.rs\<close>: resources and their amounts,
  limits and their tightening, requests, usage evidence, stop reasons and reports; and the
  identifiers of \<open>crates/core/core/src/id.rs\<close>, which are strings.
\<close>

section \<open>Identifiers\<close>

type_synonym session_id = string
type_synonym turn_id = string
type_synonym generation_id = string
type_synonym model_call_id = string
type_synonym message_id = string
type_synonym event_id = string
type_synonym task_id = string
type_synonym step_id = string
type_synonym budget_execution_id = string
type_synonym budget_operation_id = string

section \<open>Resources and amounts\<close>

datatype budget_resource =
    Steps
  | ModelRequests
  | ToolCalls
  | Corrections
  | InputTokens
  | OutputTokens
  | ToolOutputBytes

definition all_resources :: "budget_resource list" where
  "all_resources =
     [Steps, ModelRequests, ToolCalls, Corrections, InputTokens, OutputTokens, ToolOutputBytes]"

fun is_attempt :: "budget_resource \<Rightarrow> bool" where
  "is_attempt Steps = True"
| "is_attempt ModelRequests = True"
| "is_attempt ToolCalls = True"
| "is_attempt Corrections = True"
| "is_attempt _ = False"

record budget_amounts =
  steps :: u64
  model_requests :: u64
  tool_calls :: u64
  corrections :: u64
  input_tokens :: u64
  output_tokens :: u64
  tool_output_bytes :: u64

definition default_amounts :: budget_amounts where
  "default_amounts = \<lparr>steps = 0, model_requests = 0, tool_calls = 0, corrections = 0,
     input_tokens = 0, output_tokens = 0, tool_output_bytes = 0\<rparr>"

fun amount :: "budget_amounts \<Rightarrow> budget_resource \<Rightarrow> u64" where
  "amount a Steps = steps a"
| "amount a ModelRequests = model_requests a"
| "amount a ToolCalls = tool_calls a"
| "amount a Corrections = corrections a"
| "amount a InputTokens = input_tokens a"
| "amount a OutputTokens = output_tokens a"
| "amount a ToolOutputBytes = tool_output_bytes a"

fun set_amount :: "budget_resource \<Rightarrow> u64 \<Rightarrow> budget_amounts \<Rightarrow> budget_amounts" where
  "set_amount Steps v a = a\<lparr>steps := v\<rparr>"
| "set_amount ModelRequests v a = a\<lparr>model_requests := v\<rparr>"
| "set_amount ToolCalls v a = a\<lparr>tool_calls := v\<rparr>"
| "set_amount Corrections v a = a\<lparr>corrections := v\<rparr>"
| "set_amount InputTokens v a = a\<lparr>input_tokens := v\<rparr>"
| "set_amount OutputTokens v a = a\<lparr>output_tokens := v\<rparr>"
| "set_amount ToolOutputBytes v a = a\<lparr>tool_output_bytes := v\<rparr>"

lemma all_resources_complete [simp]: "r \<in> set all_resources"
  by (cases r) (simp_all add: all_resources_def)

lemma set_all_resources: "set all_resources = UNIV"
  by auto

lemma distinct_all_resources [simp]: "distinct all_resources"
  by (simp add: all_resources_def)

lemma amount_set_amount [simp]: "amount (set_amount r v a) r' = (if r' = r then v else amount a r')"
  by (cases r; cases r') simp_all

lemma amount_default [simp]: "amount default_amounts r = 0"
  by (cases r) (simp_all add: default_amounts_def)

text \<open>The resources are a finite type listed by \<open>BudgetResource::ALL\<close>.\<close>

instantiation budget_resource :: enum
begin

definition enum_budget_resource :: "budget_resource list" where
  "enum_budget_resource = all_resources"

definition enum_all_budget_resource :: "(budget_resource \<Rightarrow> bool) \<Rightarrow> bool" where
  "enum_all_budget_resource P \<longleftrightarrow> list_all P all_resources"

definition enum_ex_budget_resource :: "(budget_resource \<Rightarrow> bool) \<Rightarrow> bool" where
  "enum_ex_budget_resource P \<longleftrightarrow> list_ex P all_resources"

instance
  by standard (auto simp: enum_budget_resource_def enum_all_budget_resource_def
    enum_ex_budget_resource_def list_all_iff list_ex_iff set_all_resources)

end

lemma budget_amounts_eqI: "(\<And>r. amount a r = amount b r) \<Longrightarrow> a = b" for a b :: budget_amounts
proof (rule budget_amounts.equality)
  assume eq: "\<And>r. amount a r = amount b r"
  show "steps a = steps b" using eq [of Steps] by simp
  show "model_requests a = model_requests b" using eq [of ModelRequests] by simp
  show "tool_calls a = tool_calls b" using eq [of ToolCalls] by simp
  show "corrections a = corrections b" using eq [of Corrections] by simp
  show "input_tokens a = input_tokens b" using eq [of InputTokens] by simp
  show "output_tokens a = output_tokens b" using eq [of OutputTokens] by simp
  show "tool_output_bytes a = tool_output_bytes b" using eq [of ToolOutputBytes] by simp
qed simp

lemma budget_amounts_eq_iff: "a = b \<longleftrightarrow> (\<forall>r. amount a r = amount b r)" for a b :: budget_amounts
  by (metis budget_amounts_eqI)

section \<open>Limits\<close>

record budget_limits =
  lim_resources :: budget_amounts
  lim_active_time :: duration

definition tightened_by :: "budget_limits \<Rightarrow> budget_limits \<Rightarrow> budget_limits" where
  "tightened_by self other =
     \<lparr>lim_resources =
        fold (\<lambda>r res. set_amount r (min (amount res r) (amount (lim_resources other) r)) res)
          all_resources (lim_resources self),
      lim_active_time = min (lim_active_time self) (lim_active_time other)\<rparr>"

definition default_limits :: budget_limits where
  "default_limits =
     \<lparr>lim_resources = \<lparr>steps = 128, model_requests = 128, tool_calls = 128, corrections = 32,
        input_tokens = 4000000, output_tokens = 1000000, tool_output_bytes = 16 * 1024 * 1024\<rparr>,
      lim_active_time = 600 * 10 ^ 9\<rparr>"

abbreviation limit :: "budget_limits \<Rightarrow> budget_resource \<Rightarrow> u64" where
  "limit l r \<equiv> amount (lim_resources l) r"

lemma limit_tightened_by [simp]: "limit (tightened_by a b) r = min (limit a r) (limit b r)"
  by (cases r) (simp_all add: tightened_by_def all_resources_def)

lemma active_time_tightened_by [simp]:
  "lim_active_time (tightened_by a b) = min (lim_active_time a) (lim_active_time b)"
  by (simp add: tightened_by_def)

lemma budget_limits_eq_iff:
  "a = b \<longleftrightarrow> (\<forall>r. limit a r = limit b r) \<and> lim_active_time a = lim_active_time b"
  for a b :: budget_limits
proof
  assume "(\<forall>r. limit a r = limit b r) \<and> lim_active_time a = lim_active_time b"
  then show "a = b" by (intro budget_limits.equality) (auto intro: budget_amounts_eqI)
qed simp

lemma tightened_by_idem [simp]: "tightened_by a a = a"
  by (simp add: budget_limits_eq_iff)

lemma tightened_by_commute: "tightened_by a b = tightened_by b a"
  by (simp add: budget_limits_eq_iff min.commute)

lemma tightened_by_assoc: "tightened_by (tightened_by a b) c = tightened_by a (tightened_by b c)"
  by (simp add: budget_limits_eq_iff min.assoc)

text \<open>\<open>a\<close> is within \<open>b\<close>: no resource nor the time of \<open>a\<close> is larger.\<close>

definition limits_le :: "budget_limits \<Rightarrow> budget_limits \<Rightarrow> bool" where
  "limits_le a b \<longleftrightarrow>
     list_all (\<lambda>r. limit a r \<le> limit b r) all_resources \<and> lim_active_time a \<le> lim_active_time b"

lemma limits_le_iff:
  "limits_le a b \<longleftrightarrow> (\<forall>r. limit a r \<le> limit b r) \<and> lim_active_time a \<le> lim_active_time b"
  by (simp add: limits_le_def list_all_iff set_all_resources)

lemma tightened_by_eq_iff: "tightened_by a b = a \<longleftrightarrow> limits_le a b"
  by (auto simp: budget_limits_eq_iff limits_le_iff min_def)

lemma limits_le_refl [simp]: "limits_le a a"
  by (simp add: limits_le_iff)

lemma limits_le_trans [trans]: "limits_le a b \<Longrightarrow> limits_le b c \<Longrightarrow> limits_le a c"
  unfolding limits_le_iff by (meson order_trans)

lemma tightened_by_le [simp]: "limits_le (tightened_by a b) a" "limits_le (tightened_by a b) b"
  by (simp_all add: limits_le_iff)

section \<open>Identity, requests and usage\<close>

record budget_identity =
  id_task_id :: task_id
  id_session_id :: session_id
  id_agent_key :: string

datatype token_budget_mode = Hard | Soft

datatype token_bound_evidence = VerifiedUpperBound | Estimate

record budget_request =
  req_amounts :: budget_amounts
  req_input_tokens :: token_bound_evidence
  req_output_tokens :: token_bound_evidence

definition new_request :: "budget_amounts \<Rightarrow> budget_request" where
  "new_request a = \<lparr>req_amounts = a, req_input_tokens = Estimate, req_output_tokens = Estimate\<rparr>"

definition with_token_evidence ::
    "budget_request \<Rightarrow> token_bound_evidence \<Rightarrow> token_bound_evidence \<Rightarrow> budget_request" where
  "with_token_evidence r input output = r\<lparr>req_input_tokens := input, req_output_tokens := output\<rparr>"

datatype usage_value = Actual u64 | Estimated u64 | Unknown

record budget_usage =
  usg_input_tokens :: usage_value
  usg_output_tokens :: usage_value
  usg_tool_output_bytes :: usage_value

definition actual_usage :: "u64 \<Rightarrow> u64 \<Rightarrow> u64 \<Rightarrow> budget_usage" where
  "actual_usage i out b = \<lparr>usg_input_tokens = Actual i, usg_output_tokens = Actual out,
     usg_tool_output_bytes = Actual b\<rparr>"

record usage_totals =
  tot_actual :: u64
  tot_estimated :: u64
  tot_unknown :: u64

definition default_totals :: usage_totals where
  "default_totals = \<lparr>tot_actual = 0, tot_estimated = 0, tot_unknown = 0\<rparr>"

record budget_usage_report =
  ur_input_tokens :: usage_totals
  ur_output_tokens :: usage_totals
  ur_tool_output_bytes :: usage_totals

definition default_usage_report :: budget_usage_report where
  "default_usage_report = \<lparr>ur_input_tokens = default_totals, ur_output_tokens = default_totals,
     ur_tool_output_bytes = default_totals\<rparr>"

section \<open>Stops and reports\<close>

datatype budget_stop_reason =
    RecoveryRequired
  | ResourceLimit budget_resource
  | ActiveTime
  | UsageExceededReservation budget_resource
  | AbandonedReservation
  | RunAbandoned
  | ClockMovedBackwards
  | AccountingOverflow
  | StopIdentityMismatch
  | InvalidRequest

datatype budget_event_kind = EkModelRequest | EkModelResult | EkToolCall | EkToolResult

record budget_event_counts =
  ct_model_requests :: u64
  ct_model_results :: u64
  ct_tool_calls :: u64
  ct_tool_results :: u64

definition default_counts :: budget_event_counts where
  "default_counts = \<lparr>ct_model_requests = 0, ct_model_results = 0, ct_tool_calls = 0,
     ct_tool_results = 0\<rparr>"

record budget_execution_metrics =
  mt_session_wait :: duration
  mt_model_queue :: duration
  mt_model_execution :: duration
  mt_tool_execution :: duration
  mt_confirmed :: budget_event_counts
  mt_unconfirmed :: budget_event_counts

definition default_metrics :: budget_execution_metrics where
  "default_metrics = \<lparr>mt_session_wait = 0, mt_model_queue = 0, mt_model_execution = 0,
     mt_tool_execution = 0, mt_confirmed = default_counts, mt_unconfirmed = default_counts\<rparr>"

record budget_run_report =
  rr_turn_id :: "turn_id option"
  rr_metrics :: budget_execution_metrics
  rr_limits :: budget_limits
  rr_charged :: budget_amounts
  rr_reserved :: budget_amounts
  rr_active_time :: duration
  rr_cleanup_time :: duration
  rr_open :: bool
  rr_stop :: "budget_stop_reason option"

record budget_pending_report =
  pd_id :: u64
  pd_request :: budget_request
  pd_started :: bool
  pd_abandoned :: bool
  pd_failed_usage :: "budget_usage option"

record budget_report =
  br_identity :: budget_identity
  br_limits :: budget_limits
  br_token_mode :: token_budget_mode
  br_charged :: budget_amounts
  br_reserved :: budget_amounts
  br_active_time :: duration
  br_cleanup_time :: duration
  br_stop :: "budget_stop_reason option"
  br_usage :: budget_usage_report
  br_run :: "budget_run_report option"
  br_pending :: "budget_pending_report list"

section \<open>Task run reports\<close>

datatype task_run_report_version = ReportV1

fun task_run_report_version_try_from :: "u16 \<Rightarrow> (task_run_report_version, string) outcome" where
  "task_run_report_version_try_from value =
     (if value = 1 then Ok ReportV1 else Err ''unsupported task run report version'')"

fun task_run_report_version_into :: "task_run_report_version \<Rightarrow> u16" where
  "task_run_report_version_into _ = 1"

datatype task_run_stop =
    TsCompleted
  | TsWaitingForInput
  | TsCheckpointed
  | TsCallerCancelled
  | TsRuntimeStopping
  | TsBudget budget_stop_reason
  | TsFailed

record task_run_report =
  tr_version :: task_run_report_version
  tr_budget :: budget_report
  tr_stop :: task_run_stop
  tr_capabilities_drained :: bool

lemma task_run_report_version_roundtrip:
  "task_run_report_version_try_from (task_run_report_version_into v) = Ok v"
  by (cases v) simp

end
