(* ===== verification/BudgetRecords.thy ===== *)
theory BudgetRecords
  imports BudgetVocab
begin

text \<open>
  The audit records a ledger and its checkpoints retain: log cursors
  (\<open>crates/core/budget/src/checkpoint.rs\<close>), grant records (\<open>grant.rs\<close>) and recovery
  records (\<open>recovery.rs\<close>), and the ledger's error type (\<open>lib.rs\<close>).
\<close>

datatype budget_error =
    CheckpointSealed
  | InvalidIdentity
  | IdentityMismatch
  | RunActive
  | RunClosed
  | Stopped budget_stop_reason
  | EmptyRequest
  | UnverifiedTokenBound budget_resource
  | ZeroTokenEstimate budget_resource
  | AlreadyStarted
  | NotStarted
  | ReservationMissing
  | PendingReservations
  | Poisoned

record budget_event_cursor =
  cur_session_id :: session_id
  cur_turn_id :: turn_id
  cur_event_id :: event_id
  cur_seq :: u64

record budget_grant_request =
  gq_operation_id :: budget_operation_id
  gq_actor :: string
  gq_source :: string
  gq_reason :: string
  gq_new_limits :: budget_limits

record budget_grant_record =
  gr_request :: budget_grant_request
  gr_source_revision :: u64
  gr_confirmed_anchor :: "budget_event_cursor option"
  gr_old_limits :: budget_limits
  gr_old_stop :: "budget_stop_reason option"

record budget_recovery_request =
  rq_operation_id :: budget_operation_id
  rq_execution_id :: budget_execution_id
  rq_source_revision :: u64
  rq_actor :: string
  rq_source :: string
  rq_reason :: string

record budget_recovery_record =
  rc_request :: budget_recovery_request
  rc_ownership_id :: string
  rc_confirmed_anchor :: "budget_event_cursor option"
  rc_candidate_report :: budget_report
  rc_candidate_next_id :: u64

end
