(* ===== verification/Ledger.thy ===== *)
theory Ledger
  imports BudgetRecords
begin

text \<open>
  The in-memory task ledger of \<open>crates/core/budget/src/lib.rs\<close>. \<open>ledger_state\<close> is the
  struct \<open>State\<close> behind the mutex and \<open>task_budget\<close> the struct \<open>Inner\<close> with it.
  Every operation locks the mutex (an error once a panic has poisoned it), runs its body on the
  state and stores the new state, also when the body returns an error. The clock is a
  parameter: an operation takes the readings it makes, in order. The handles of the code
  (\<open>BudgetRun\<close>, \<open>BudgetScope\<close>, \<open>BudgetReservation\<close>) are the run and reservation numbers
  they hold, and their \<open>Drop\<close> implementations are the operations \<open>drop_run\<close> and
  \<open>drop_reservation\<close>.
\<close>

section \<open>State\<close>

record run_state =
  rs_id :: u64
  rs_report :: budget_run_report
  rs_cleaning :: bool

record ledger_state =
  st_sealed :: bool
  st_recovery_frozen :: bool
  st_checkpoint_revision :: u64
  st_grants :: "budget_grant_record list"
  st_recoveries :: "budget_recovery_record list"
  st_charged :: budget_amounts
  st_reserved :: budget_amounts
  st_usage :: budget_usage_report
  st_active_time :: duration
  st_cleanup_time :: duration
  st_stop :: "budget_stop_reason option"
  st_run :: "run_state option"
  st_pending :: "(u64, budget_pending_report) btree_map"
  st_next_id :: u64
  st_last_clock :: duration

record task_budget =
  tb_identity :: budget_identity
  tb_limits :: budget_limits
  tb_token_mode :: token_budget_mode
  tb_state :: ledger_state
  tb_poisoned :: bool

type_synonym 'a ledger_result = "('a, budget_error) outcome \<times> ledger_state"

definition default_state :: "duration \<Rightarrow> ledger_state" where
  "default_state last_clock = \<lparr>st_sealed = False, st_recovery_frozen = False,
     st_checkpoint_revision = 0, st_grants = [], st_recoveries = [],
     st_charged = default_amounts, st_reserved = default_amounts,
     st_usage = default_usage_report, st_active_time = 0, st_cleanup_time = 0,
     st_stop = None, st_run = None, st_pending = [], st_next_id = 0, st_last_clock = last_clock\<rparr>"

text \<open>\<open>state.stop.get_or_insert(reason)\<close>, and an update of the active run's report.\<close>

definition insert_stop :: "budget_stop_reason \<Rightarrow> ledger_state \<Rightarrow> ledger_state" where
  "insert_stop reason st =
     (case st_stop st of None \<Rightarrow> st\<lparr>st_stop := Some reason\<rparr> | Some _ \<Rightarrow> st)"

definition update_report ::
    "(budget_run_report \<Rightarrow> budget_run_report) \<Rightarrow> ledger_state \<Rightarrow> ledger_state" where
  "update_report f st =
     st\<lparr>st_run := map_option (\<lambda>run. run\<lparr>rs_report := f (rs_report run)\<rparr>) (st_run st)\<rparr>"

section \<open>Checks\<close>

definition check_writable :: "ledger_state \<Rightarrow> (unit, budget_error) outcome" where
  "check_writable st =
     (if st_sealed st then Err CheckpointSealed
      else if st_recovery_frozen st then Err (Stopped RecoveryRequired)
      else Ok ())"

definition check_run :: "u64 \<Rightarrow> ledger_state \<Rightarrow> (unit, budget_error) outcome" where
  "check_run run_id st =
     and_then (check_writable st) (\<lambda>_.
       (case st_run st of
          Some run \<Rightarrow> if rs_id run = run_id \<and> rr_open (rs_report run) then Ok () else Err RunClosed
        | None \<Rightarrow> Err RunClosed))"

definition run_stop :: "ledger_state \<Rightarrow> budget_stop_reason option" where
  "run_stop st = (case st_run st of Some run \<Rightarrow> rr_stop (rs_report run) | None \<Rightarrow> None)"

definition check_stop :: "ledger_state \<Rightarrow> (unit, budget_error) outcome" where
  "check_stop st =
     and_then (check_writable st) (\<lambda>_.
       (case (case st_stop st of Some reason \<Rightarrow> Some reason | None \<Rightarrow> run_stop st) of
          Some reason \<Rightarrow> Err (Stopped reason)
        | None \<Rightarrow> Ok ()))"

definition overflow :: budget_error where
  "overflow = Stopped AccountingOverflow"

definition allocate_id :: "ledger_state \<Rightarrow> u64 ledger_result" where
  "allocate_id st =
     (case checked_add (st_next_id st) 1 of
        Some run_id \<Rightarrow> (Ok run_id, st\<lparr>st_next_id := run_id\<rparr>)
      | None \<Rightarrow> (Err overflow, insert_stop AccountingOverflow st))"

definition fits :: "u64 \<Rightarrow> u64 \<Rightarrow> u64 \<Rightarrow> u64 \<Rightarrow> bool" where
  "fits charged reserved requested lim =
     (case checked_add charged reserved of
        None \<Rightarrow> False
      | Some value \<Rightarrow>
          (case checked_add value requested of None \<Rightarrow> False | Some value \<Rightarrow> value \<le> lim))"

definition validate_token_bound ::
    "budget_request \<Rightarrow> token_budget_mode \<Rightarrow> budget_resource \<times> token_bound_evidence \<Rightarrow> unit
       \<Rightarrow> (unit, budget_error) outcome" where
  "validate_token_bound request mode =
     (\<lambda>(resource, evidence) _.
        let a = amount (req_amounts request) resource in
        if (model_requests (req_amounts request) > 0 \<or> a > 0) \<and> evidence \<noteq> VerifiedUpperBound
        then (if mode = Hard then Err (UnverifiedTokenBound resource)
              else if a = 0 then Err (ZeroTokenEstimate resource)
              else Ok ())
        else Ok ())"

definition validate_request ::
    "budget_request \<Rightarrow> token_budget_mode \<Rightarrow> (unit, budget_error) outcome" where
  "validate_request request mode =
     (if \<not> list_ex (\<lambda>r. is_attempt r \<and> amount (req_amounts request) r > 0) all_resources
      then Err EmptyRequest
      else for_each (validate_token_bound request mode)
        [(InputTokens, req_input_tokens request), (OutputTokens, req_output_tokens request)] ())"

section \<open>Time\<close>

text \<open>
  \<open>Inner::tick\<close>: charge the time since the last reading. \<open>tick_run\<close> is its second half, for
  a run that is open or still owns reservations.
\<close>

definition tick_run :: "budget_limits \<Rightarrow> duration \<Rightarrow> run_state \<Rightarrow> ledger_state \<Rightarrow> ledger_state" where
  "tick_run limits elapsed run st =
     (let cleaning = rs_cleaning run;
          report = rs_report run;
          stopped = (st_stop st \<noteq> None \<or> rr_stop report \<noteq> None);
          task_remaining = lim_active_time limits - st_active_time st;
          run_remaining = lim_active_time (rr_limits report) - rr_active_time report;
          remaining = min task_remaining run_remaining;
          active = (if stopped \<or> cleaning then 0 else min elapsed remaining);
          cleanup = elapsed - active;
          st = st\<lparr>st_active_time := st_active_time st + active\<rparr>;
          st = update_report (\<lambda>r. r\<lparr>rr_active_time := rr_active_time r + active\<rparr>) st;
          st = (if \<not> stopped \<and> \<not> cleaning \<and> remaining \<le> elapsed
                then (if task_remaining \<le> run_remaining then st\<lparr>st_stop := Some ActiveTime\<rparr>
                      else update_report (\<lambda>r. r\<lparr>rr_stop := Some ActiveTime\<rparr>) st)
                else st)
      in (case (dur_checked_add (st_cleanup_time st) cleanup,
                dur_checked_add (rr_cleanup_time report) cleanup) of
            (Some task_time, Some run_time) \<Rightarrow>
              update_report (\<lambda>r. r\<lparr>rr_cleanup_time := run_time\<rparr>)
                (st\<lparr>st_cleanup_time := task_time\<rparr>)
          | _ \<Rightarrow> insert_stop AccountingOverflow st))"

definition tick :: "budget_limits \<Rightarrow> duration \<Rightarrow> ledger_state \<Rightarrow> ledger_state" where
  "tick limits now st =
     (if st_sealed st \<or> st_recovery_frozen st then st
      else if now < st_last_clock st then insert_stop ClockMovedBackwards st
      else
        let elapsed = now - st_last_clock st;
            st = st\<lparr>st_last_clock := now\<rparr>
        in (case st_run st of
              None \<Rightarrow> st
            | Some run \<Rightarrow>
                if rr_open (rs_report run) \<or> st_pending st \<noteq> []
                then tick_run limits elapsed run st
                else st))"

section \<open>Snapshots and locking\<close>

definition snapshot :: "task_budget \<Rightarrow> ledger_state \<Rightarrow> budget_report" where
  "snapshot tb st = \<lparr>br_identity = tb_identity tb, br_limits = tb_limits tb,
     br_token_mode = tb_token_mode tb, br_charged = st_charged st, br_reserved = st_reserved st,
     br_active_time = st_active_time st, br_cleanup_time = st_cleanup_time st,
     br_stop = st_stop st, br_usage = st_usage st,
     br_run = map_option rs_report (st_run st), br_pending = bt_values (st_pending st)\<rparr>"

text \<open>Whether dropping the state guard wakes the waiters of \<open>BudgetScope::stopped\<close>.\<close>

definition guard_notifies :: "ledger_state \<Rightarrow> bool" where
  "guard_notifies st \<longleftrightarrow>
     st_sealed st \<or> st_recovery_frozen st \<or> st_stop st \<noteq> None \<or>
     (case st_run st of None \<Rightarrow> True
      | Some run \<Rightarrow> rr_stop (rs_report run) \<noteq> None \<or> \<not> rr_open (rs_report run))"

text \<open>Lock, run a body, and store the state it leaves; a panic poisons the mutex.\<close>

definition locked ::
    "(ledger_state \<Rightarrow> 'a ledger_result) \<Rightarrow> task_budget \<Rightarrow> ('a, budget_error) outcome \<times> task_budget" where
  "locked body tb =
     (if tb_poisoned tb then (Err Poisoned, tb)
      else let (r, st) = body (tb_state tb)
           in (r, tb\<lparr>tb_state := st, tb_poisoned := is_panic r\<rparr>))"

section \<open>\<open>TaskBudget\<close>\<close>

definition identity_blank :: "budget_identity \<Rightarrow> bool" where
  "identity_blank i \<longleftrightarrow>
     is_blank (id_task_id i) \<or> is_blank (id_session_id i) \<or> is_blank (id_agent_key i)"

definition task_budget_new ::
    "budget_identity \<Rightarrow> budget_limits \<Rightarrow> budget_limits \<Rightarrow> token_budget_mode \<Rightarrow> duration
       \<Rightarrow> (task_budget, budget_error) outcome" where
  "task_budget_new identity host_limits task_limits token_mode now =
     (if identity_blank identity then Err InvalidIdentity
      else Ok \<lparr>tb_identity = identity, tb_limits = tightened_by host_limits task_limits,
               tb_token_mode = token_mode, tb_state = default_state now, tb_poisoned = False\<rparr>)"

definition begin_run_inner ::
    "budget_limits \<Rightarrow> duration \<Rightarrow> duration \<Rightarrow> turn_id option \<Rightarrow> budget_limits \<Rightarrow> ledger_state
       \<Rightarrow> u64 ledger_result" where
  "begin_run_inner task_limits now now' turn limits st =
     (case check_writable st of
        Ok _ \<Rightarrow>
          let st = tick task_limits now st in
          if st_run st \<noteq> None then (Err RunActive, st)
          else (case check_stop st of
                  Ok _ \<Rightarrow>
                    (case allocate_id st of
                       (Ok run_id, st) \<Rightarrow>
                         let st = st\<lparr>st_run := Some \<lparr>rs_id = run_id,
                               rs_report = \<lparr>rr_turn_id = turn, rr_metrics = default_metrics,
                                 rr_limits = tightened_by task_limits limits,
                                 rr_charged = default_amounts, rr_reserved = default_amounts,
                                 rr_active_time = 0, rr_cleanup_time = 0, rr_open = True,
                                 rr_stop = None\<rparr>,
                               rs_cleaning = False\<rparr>\<rparr>
                         in (Ok run_id, tick task_limits now' st)
                     | (Err e, st) \<Rightarrow> (Err e, st)
                     | (Panic, st) \<Rightarrow> (Panic, st))
                | Err e \<Rightarrow> (Err e, st)
                | Panic \<Rightarrow> (Panic, st))
      | Err e \<Rightarrow> (Err e, st)
      | Panic \<Rightarrow> (Panic, st))"

definition report_op :: "task_budget \<Rightarrow> duration \<Rightarrow> ledger_state \<Rightarrow> budget_report ledger_result" where
  "report_op tb now st =
     (if st_sealed st then (Err CheckpointSealed, st)
      else let st = tick (tb_limits tb) now st in (Ok (snapshot tb st), st))"

section \<open>\<open>BudgetRun\<close>\<close>

text \<open>The frame most operations share: tick, check the run, and go on from there.\<close>

definition on_run ::
    "budget_limits \<Rightarrow> duration \<Rightarrow> u64 \<Rightarrow> (ledger_state \<Rightarrow> 'a ledger_result) \<Rightarrow> ledger_state
       \<Rightarrow> 'a ledger_result" where
  "on_run limits now run_id body st =
     (let st = tick limits now st in
      case check_run run_id st of
        Ok _ \<Rightarrow> body st
      | Err e \<Rightarrow> (Err e, st)
      | Panic \<Rightarrow> (Panic, st))"

definition bind_turn ::
    "budget_limits \<Rightarrow> duration \<Rightarrow> u64 \<Rightarrow> turn_id \<Rightarrow> ledger_state \<Rightarrow> unit ledger_result" where
  "bind_turn limits now run_id turn =
     on_run limits now run_id (\<lambda>st.
       case st_run st of
         None \<Rightarrow> (Err RunClosed, st)
       | Some run \<Rightarrow>
           if rr_turn_id (rs_report run) \<noteq> None then (Err IdentityMismatch, st)
           else (Ok (), update_report (\<lambda>r. r\<lparr>rr_turn_id := Some turn\<rparr>) st))"

definition prepare_report ::
    "task_budget \<Rightarrow> duration \<Rightarrow> u64 \<Rightarrow> ledger_state \<Rightarrow> budget_report ledger_result" where
  "prepare_report tb now run_id =
     on_run (tb_limits tb) now run_id (\<lambda>st.
       if st_pending st \<noteq> [] then (Err PendingReservations, st)
       else let st = update_report (\<lambda>r. r\<lparr>rr_open := False\<rparr>) st in (Ok (snapshot tb st), st))"

definition finish ::
    "task_budget \<Rightarrow> duration \<Rightarrow> u64 \<Rightarrow> ledger_state \<Rightarrow> budget_report ledger_result" where
  "finish tb now run_id st =
     (case check_writable st of
        Ok _ \<Rightarrow>
          let st = tick (tb_limits tb) now st in
          (case st_run st of
             None \<Rightarrow> (Err RunClosed, st)
           | Some run \<Rightarrow>
               if rs_id run \<noteq> run_id then (Err RunClosed, st)
               else if st_pending st \<noteq> [] then (Err PendingReservations, st)
               else let st = update_report (\<lambda>r. r\<lparr>rr_open := False\<rparr>) st
                    in (Ok (snapshot tb st), st\<lparr>st_run := None\<rparr>))
      | Err e \<Rightarrow> (Err e, st)
      | Panic \<Rightarrow> (Panic, st))"

text \<open>\<open>Drop for BudgetRun\<close> (of a lease that has not finished).\<close>

definition drop_run :: "budget_limits \<Rightarrow> duration \<Rightarrow> u64 \<Rightarrow> ledger_state \<Rightarrow> unit ledger_result" where
  "drop_run limits now run_id st =
     (if check_writable st \<noteq> Ok () then (Ok (), st)
      else
        let st = tick limits now st in
        (case st_run st of
           None \<Rightarrow> (Ok (), st)
         | Some run \<Rightarrow>
             if rs_id run \<noteq> run_id then (Ok (), st)
             else (Ok (), insert_stop RunAbandoned
                            (update_report (\<lambda>r. r\<lparr>rr_open := False\<rparr>) st))))"

section \<open>\<open>BudgetScope\<close>\<close>

definition turn_id_op :: "u64 \<Rightarrow> ledger_state \<Rightarrow> turn_id option ledger_result" where
  "turn_id_op run_id st =
     (and_then (check_run run_id st) (\<lambda>_.
        case st_run st of None \<Rightarrow> Err RunClosed | Some run \<Rightarrow> Ok (rr_turn_id (rs_report run))), st)"

definition check_active ::
    "budget_limits \<Rightarrow> duration \<Rightarrow> u64 \<Rightarrow> ledger_state \<Rightarrow> unit ledger_result" where
  "check_active limits now run_id = on_run limits now run_id (\<lambda>st. (check_stop st, st))"

definition remaining_time ::
    "budget_limits \<Rightarrow> duration \<Rightarrow> u64 \<Rightarrow> ledger_state \<Rightarrow> duration ledger_result" where
  "remaining_time limits now run_id =
     on_run limits now run_id (\<lambda>st.
       (and_then (check_stop st) (\<lambda>_.
          case st_run st of
            None \<Rightarrow> Err RunClosed
          | Some run \<Rightarrow>
              and_then (dur_sub (lim_active_time limits) (st_active_time st)) (\<lambda>a.
              and_then (dur_sub (lim_active_time (rr_limits (rs_report run)))
                                (rr_active_time (rs_report run))) (\<lambda>b.
              Ok (min a b)))), st))"

definition expire ::
    "budget_limits \<Rightarrow> duration \<Rightarrow> u64 \<Rightarrow> ledger_state \<Rightarrow> unit ledger_result" where
  "expire limits now run_id =
     on_run limits now run_id (\<lambda>st.
       if is_ok (check_stop st) then
         (case dur_sub (lim_active_time limits) (st_active_time st) of
            Ok task_remaining \<Rightarrow>
              (case st_run st of
                 None \<Rightarrow> (Err RunClosed, st)
               | Some run \<Rightarrow>
                   (case dur_sub (lim_active_time (rr_limits (rs_report run)))
                                 (rr_active_time (rs_report run)) of
                      Ok run_remaining \<Rightarrow>
                        if task_remaining \<le> run_remaining
                        then (Ok (), st\<lparr>st_stop := Some ActiveTime\<rparr>)
                        else (Ok (), update_report (\<lambda>r. r\<lparr>rr_stop := Some ActiveTime\<rparr>) st)
                    | Err e \<Rightarrow> (Err e, st)
                    | Panic \<Rightarrow> (Panic, st)))
          | Err e \<Rightarrow> (Err e, st)
          | Panic \<Rightarrow> (Panic, st))
       else (Ok (), st))"

definition stop_with ::
    "budget_limits \<Rightarrow> duration \<Rightarrow> u64 \<Rightarrow> budget_stop_reason \<Rightarrow> ledger_state \<Rightarrow> unit ledger_result" where
  "stop_with limits now run_id reason =
     on_run limits now run_id (\<lambda>st.
       case st_run st of
         None \<Rightarrow> (Err RunClosed, st)
       | Some _ \<Rightarrow>
           (Ok (), update_report (\<lambda>r. case rr_stop r of None \<Rightarrow> r\<lparr>rr_stop := Some reason\<rparr>
                                                     | Some _ \<Rightarrow> r) st))"

definition begin_cleanup ::
    "budget_limits \<Rightarrow> duration \<Rightarrow> u64 \<Rightarrow> ledger_state \<Rightarrow> unit ledger_result" where
  "begin_cleanup limits now run_id =
     on_run limits now run_id (\<lambda>st.
       case st_run st of
         None \<Rightarrow> (Err RunClosed, st)
       | Some run \<Rightarrow> (Ok (), st\<lparr>st_run := Some (run\<lparr>rs_cleaning := True\<rparr>)\<rparr>))"

definition metrics_op ::
    "u64 \<Rightarrow> (budget_execution_metrics \<Rightarrow> budget_execution_metrics) \<Rightarrow> ledger_state
       \<Rightarrow> unit ledger_result" where
  "metrics_op run_id f st =
     (if is_ok (check_writable st) then
        (case st_run st of
           None \<Rightarrow> (Ok (), st)
         | Some run \<Rightarrow>
             if rs_id run = run_id
             then (Ok (), update_report (\<lambda>r. r\<lparr>rr_metrics := f (rr_metrics r)\<rparr>) st)
             else (Ok (), st))
      else (Ok (), st))"

definition record_session_wait :: "duration \<Rightarrow> budget_execution_metrics \<Rightarrow> budget_execution_metrics" where
  "record_session_wait elapsed m = m\<lparr>mt_session_wait := elapsed\<rparr>"

definition record_model_timing ::
    "duration \<Rightarrow> duration \<Rightarrow> budget_execution_metrics \<Rightarrow> budget_execution_metrics" where
  "record_model_timing queue execution m =
     m\<lparr>mt_model_queue := dur_saturating_add (mt_model_queue m) queue,
       mt_model_execution := dur_saturating_add (mt_model_execution m) execution\<rparr>"

definition record_tool_time :: "duration \<Rightarrow> budget_execution_metrics \<Rightarrow> budget_execution_metrics" where
  "record_tool_time execution m =
     m\<lparr>mt_tool_execution := dur_saturating_add (mt_tool_execution m) execution\<rparr>"

fun bump_count :: "budget_event_kind \<Rightarrow> budget_event_counts \<Rightarrow> budget_event_counts" where
  "bump_count EkModelRequest c = c\<lparr>ct_model_requests := saturating_add (ct_model_requests c) 1\<rparr>"
| "bump_count EkModelResult c = c\<lparr>ct_model_results := saturating_add (ct_model_results c) 1\<rparr>"
| "bump_count EkToolCall c = c\<lparr>ct_tool_calls := saturating_add (ct_tool_calls c) 1\<rparr>"
| "bump_count EkToolResult c = c\<lparr>ct_tool_results := saturating_add (ct_tool_results c) 1\<rparr>"

definition record_evidence ::
    "budget_event_kind \<Rightarrow> bool \<Rightarrow> budget_execution_metrics \<Rightarrow> budget_execution_metrics" where
  "record_evidence kind confirmed m =
     (if confirmed then m\<lparr>mt_confirmed := bump_count kind (mt_confirmed m)\<rparr>
      else m\<lparr>mt_unconfirmed := bump_count kind (mt_unconfirmed m)\<rparr>)"

text \<open>One poll of the future \<open>BudgetScope::stopped\<close>: pending while the run is active.\<close>

definition stopped_poll ::
    "budget_limits \<Rightarrow> duration \<Rightarrow> u64 \<Rightarrow> ledger_state \<Rightarrow> budget_error option ledger_result" where
  "stopped_poll limits now run_id st =
     (case check_active limits now run_id st of
        (Ok _, st) \<Rightarrow> (Ok None, st)
      | (Err e, st) \<Rightarrow> (Ok (Some e), st)
      | (Panic, st) \<Rightarrow> (Panic, st))"

section \<open>Reserving\<close>

text \<open>The first loop of \<open>BudgetScope::reserve\<close>: every resource must fit the task and the run.\<close>

fun reserve_fit ::
    "budget_limits \<Rightarrow> budget_request \<Rightarrow> budget_resource list \<Rightarrow> ledger_state \<Rightarrow> unit ledger_result" where
  "reserve_fit limits request [] st = (Ok (), st)"
| "reserve_fit limits request (resource # rest) st =
     (let a = amount (req_amounts request) resource; reason = ResourceLimit resource in
      if \<not> fits (amount (st_charged st) resource) (amount (st_reserved st) resource) a
             (limit limits resource)
      then (Err (Stopped reason), st\<lparr>st_stop := Some reason\<rparr>)
      else (case st_run st of
              None \<Rightarrow> (Err RunClosed, st)
            | Some run \<Rightarrow>
                if \<not> fits (amount (rr_charged (rs_report run)) resource)
                       (amount (rr_reserved (rs_report run)) resource) a
                       (limit (rr_limits (rs_report run)) resource)
                then (Err (Stopped reason), update_report (\<lambda>r. r\<lparr>rr_stop := Some reason\<rparr>) st)
                else reserve_fit limits request rest st))"

definition add_amount :: "budget_resource \<Rightarrow> u64 \<Rightarrow> budget_amounts \<Rightarrow> budget_amounts" where
  "add_amount resource a totals = set_amount resource (amount totals resource + a) totals"

text \<open>The second loop: attempts are charged at acceptance, variable resources reserved.\<close>

definition reserve_one :: "budget_request \<Rightarrow> budget_resource \<Rightarrow> ledger_state \<Rightarrow> ledger_state" where
  "reserve_one request resource st =
     (let a = amount (req_amounts request) resource in
      if is_attempt resource
      then update_report (\<lambda>r. r\<lparr>rr_charged := add_amount resource a (rr_charged r)\<rparr>)
             (st\<lparr>st_charged := add_amount resource a (st_charged st)\<rparr>)
      else update_report (\<lambda>r. r\<lparr>rr_reserved := add_amount resource a (rr_reserved r)\<rparr>)
             (st\<lparr>st_reserved := add_amount resource a (st_reserved st)\<rparr>))"

definition reserve ::
    "budget_limits \<Rightarrow> token_budget_mode \<Rightarrow> duration \<Rightarrow> u64 \<Rightarrow> budget_request \<Rightarrow> ledger_state
       \<Rightarrow> u64 ledger_result" where
  "reserve limits mode now run_id request =
     on_run limits now run_id (\<lambda>st.
       case and_then (check_stop st) (\<lambda>_. validate_request request mode) of
         Ok _ \<Rightarrow>
           (case reserve_fit limits request all_resources st of
              (Ok _, st) \<Rightarrow>
                (case allocate_id st of
                   (Ok res_id, st) \<Rightarrow>
                     let st = fold (reserve_one request) all_resources st;
                         entry = \<lparr>pd_id = res_id, pd_request = request, pd_started = False,
                                  pd_abandoned = False, pd_failed_usage = None\<rparr>
                     in (Ok res_id, st\<lparr>st_pending := bt_insert res_id entry (st_pending st)\<rparr>)
                 | (Err e, st) \<Rightarrow> (Err e, st)
                 | (Panic, st) \<Rightarrow> (Panic, st))
            | (Err e, st) \<Rightarrow> (Err e, st)
            | (Panic, st) \<Rightarrow> (Panic, st))
       | Err e \<Rightarrow> (Err e, st)
       | Panic \<Rightarrow> (Panic, st))"

section \<open>\<open>BudgetReservation\<close>\<close>

definition mark_started ::
    "budget_limits \<Rightarrow> duration \<Rightarrow> u64 \<Rightarrow> u64 \<Rightarrow> ledger_state \<Rightarrow> unit ledger_result" where
  "mark_started limits now run_id res_id =
     on_run limits now run_id (\<lambda>st.
       case check_stop st of
         Ok _ \<Rightarrow>
           (case map_of (st_pending st) res_id of
              None \<Rightarrow> (Err ReservationMissing, st)
            | Some pending \<Rightarrow>
                if pd_started pending then (Err AlreadyStarted, st)
                else (Ok (), st\<lparr>st_pending :=
                        bt_modify res_id (\<lambda>p. p\<lparr>pd_started := True\<rparr>) (st_pending st)\<rparr>))
       | Err e \<Rightarrow> (Err e, st)
       | Panic \<Rightarrow> (Panic, st))"

definition release_one :: "budget_amounts \<Rightarrow> budget_resource \<Rightarrow> ledger_state \<Rightarrow> ledger_state" where
  "release_one amounts resource st =
     update_report
       (\<lambda>r. r\<lparr>rr_reserved :=
          set_amount resource (amount (rr_reserved r) resource - amount amounts resource)
            (rr_reserved r)\<rparr>)
       (st\<lparr>st_reserved :=
          set_amount resource (amount (st_reserved st) resource - amount amounts resource)
            (st_reserved st)\<rparr>)"

definition release :: "budget_amounts \<Rightarrow> ledger_state \<Rightarrow> unit ledger_result" where
  "release amounts st =
     (case st_run st of
        None \<Rightarrow> (Err RunClosed, st)
      | Some _ \<Rightarrow>
          (Ok (), fold (release_one amounts) (filter (\<lambda>r. \<not> is_attempt r) all_resources) st))"

definition cancel_body ::
    "budget_limits \<Rightarrow> duration \<Rightarrow> u64 \<Rightarrow> ledger_state \<Rightarrow> unit ledger_result" where
  "cancel_body limits now res_id st =
     (case check_writable st of
        Ok _ \<Rightarrow>
          let st = tick limits now st in
          (case map_of (st_pending st) res_id of
             None \<Rightarrow> (Err ReservationMissing, st)
           | Some pending \<Rightarrow>
               if pd_started pending then (Err AlreadyStarted, st)
               else (case release (req_amounts (pd_request pending)) st of
                       (Ok _, st) \<Rightarrow> (Ok (), st\<lparr>st_pending := bt_remove res_id (st_pending st)\<rparr>)
                     | (Err e, st) \<Rightarrow> (Err e, st)
                     | (Panic, st) \<Rightarrow> (Panic, st)))
      | Err e \<Rightarrow> (Err e, st)
      | Panic \<Rightarrow> (Panic, st))"

text \<open>
  \<open>settlement\<close>: what settling a reservation charges. Its state is the task's charges, the
  run's charges, the usage evidence and the first resource whose debit exceeds its
  reservation.
\<close>

type_synonym settlement =
  "budget_amounts \<times> budget_amounts \<times> budget_usage_report \<times> budget_resource option"

fun usage_get :: "budget_usage_report \<Rightarrow> budget_resource \<Rightarrow> usage_totals" where
  "usage_get u InputTokens = ur_input_tokens u"
| "usage_get u OutputTokens = ur_output_tokens u"
| "usage_get u ToolOutputBytes = ur_tool_output_bytes u"
| "usage_get u _ = default_totals"

fun usage_set :: "budget_resource \<Rightarrow> usage_totals \<Rightarrow> budget_usage_report \<Rightarrow> budget_usage_report" where
  "usage_set InputTokens t u = u\<lparr>ur_input_tokens := t\<rparr>"
| "usage_set OutputTokens t u = u\<lparr>ur_output_tokens := t\<rparr>"
| "usage_set ToolOutputBytes t u = u\<lparr>ur_tool_output_bytes := t\<rparr>"
| "usage_set _ t u = u"

definition settle_debit ::
    "usage_value \<Rightarrow> bool \<Rightarrow> u64 \<Rightarrow> usage_totals \<Rightarrow> (u64 \<times> usage_totals, budget_error) outcome" where
  "settle_debit value applicable reserved totals =
     (case value of
        Actual n \<Rightarrow>
          and_then (ok_or (checked_add (tot_actual totals) n) overflow)
            (\<lambda>t. Ok (n, totals\<lparr>tot_actual := t\<rparr>))
      | Estimated n \<Rightarrow>
          and_then (ok_or (checked_add (tot_estimated totals) n) overflow)
            (\<lambda>t. Ok (max n reserved, totals\<lparr>tot_estimated := t\<rparr>))
      | Unknown \<Rightarrow>
          if applicable \<or> reserved > 0
          then and_then (ok_or (checked_add (tot_unknown totals) 1) overflow)
                 (\<lambda>t. Ok (reserved, totals\<lparr>tot_unknown := t\<rparr>))
          else Ok (reserved, totals))"

definition settlement_step ::
    "budget_request \<Rightarrow> budget_resource \<times> usage_value \<times> bool \<Rightarrow> settlement
       \<Rightarrow> (settlement, budget_error) outcome" where
  "settlement_step request =
     (\<lambda>(resource, value, applicable) (charged, run_charged, evidence, breach).
        let reserved = amount (req_amounts request) resource in
        and_then (settle_debit value applicable reserved (usage_get evidence resource))
          (\<lambda>(debit, totals).
             and_then (ok_or (checked_add (amount charged resource) debit) overflow) (\<lambda>c.
             and_then (ok_or (checked_add (amount run_charged resource) debit) overflow) (\<lambda>rc.
             Ok (set_amount resource c charged, set_amount resource rc run_charged,
                 usage_set resource totals evidence,
                 (if reserved < debit
                  then (case breach of None \<Rightarrow> Some resource | Some b \<Rightarrow> Some b)
                  else breach))))))"

definition settlement_of ::
    "ledger_state \<Rightarrow> budget_request \<Rightarrow> budget_usage \<Rightarrow> (settlement, budget_error) outcome" where
  "settlement_of st request usage =
     (case st_run st of
        None \<Rightarrow> Err RunClosed
      | Some run \<Rightarrow>
          for_each (settlement_step request)
            [(InputTokens, usg_input_tokens usage, model_requests (req_amounts request) > 0),
             (OutputTokens, usg_output_tokens usage, model_requests (req_amounts request) > 0),
             (ToolOutputBytes, usg_tool_output_bytes usage, tool_calls (req_amounts request) > 0)]
            (st_charged st, rr_charged (rs_report run), st_usage st, None))"

text \<open>
  The body of \<open>settle\<close>. \<open>Ok breach\<close> means the reservation was resolved; the caller gets an
  error when there is a breach.
\<close>

definition settle_body ::
    "budget_limits \<Rightarrow> duration \<Rightarrow> u64 \<Rightarrow> budget_usage \<Rightarrow> ledger_state
       \<Rightarrow> budget_resource option ledger_result" where
  "settle_body limits now res_id usage st =
     (case check_writable st of
        Ok _ \<Rightarrow>
          let st = tick limits now st in
          (case map_of (st_pending st) res_id of
             None \<Rightarrow> (Err ReservationMissing, st)
           | Some pending \<Rightarrow>
               if \<not> pd_started pending then (Err NotStarted, st)
               else
                 let request = pd_request pending in
                 (case settlement_of st request usage of
                    Ok (charged, run_charged, evidence, breach) \<Rightarrow>
                      (case release (req_amounts request) st of
                         (Ok _, st) \<Rightarrow>
                           let st = update_report (\<lambda>r. r\<lparr>rr_charged := run_charged\<rparr>)
                                      (st\<lparr>st_charged := charged\<rparr>);
                               st = st\<lparr>st_usage := evidence,
                                       st_pending := bt_remove res_id (st_pending st)\<rparr>
                           in (case breach of
                                 None \<Rightarrow> (Ok None, st)
                               | Some resource \<Rightarrow>
                                   (Ok breach, insert_stop (UsageExceededReservation resource) st))
                       | (Err e, st) \<Rightarrow> (Err e, st)
                       | (Panic, st) \<Rightarrow> (Panic, st))
                  | Err e \<Rightarrow>
                      (Err e, (insert_stop AccountingOverflow st)\<lparr>st_pending :=
                         bt_modify res_id (\<lambda>p. p\<lparr>pd_failed_usage := Some usage\<rparr>) (st_pending st)\<rparr>)
                  | Panic \<Rightarrow> (Panic, st)))
      | Err e \<Rightarrow> (Err e, st)
      | Panic \<Rightarrow> (Panic, st))"

text \<open>\<open>Drop for BudgetReservation\<close> (of a reservation that was not resolved).\<close>

definition drop_reservation ::
    "budget_limits \<Rightarrow> duration \<Rightarrow> u64 \<Rightarrow> ledger_state \<Rightarrow> unit ledger_result" where
  "drop_reservation limits now res_id st =
     (if check_writable st \<noteq> Ok () then (Ok (), st)
      else
        let st = tick limits now st in
        (case map_of (st_pending st) res_id of
           None \<Rightarrow> (Ok (), st)
         | Some _ \<Rightarrow>
             (Ok (), insert_stop AbandonedReservation
                (st\<lparr>st_pending := bt_modify res_id (\<lambda>p. p\<lparr>pd_abandoned := True\<rparr>)
                                    (st_pending st)\<rparr>))))"

text \<open>
  \<open>cancel_before_start\<close> and \<open>settle\<close> consume the reservation: when the body leaves it
  unresolved, the handle is dropped, at a second clock reading.
\<close>

definition cancel_before_start ::
    "budget_limits \<Rightarrow> duration \<Rightarrow> duration \<Rightarrow> u64 \<Rightarrow> ledger_state \<Rightarrow> unit ledger_result" where
  "cancel_before_start limits now now' res_id st =
     (case cancel_body limits now res_id st of
        (Ok _, st) \<Rightarrow> (Ok (), st)
      | (Err e, st) \<Rightarrow> (Err e, snd (drop_reservation limits now' res_id st))
      | (Panic, st) \<Rightarrow> (Panic, st))"

definition settle ::
    "budget_limits \<Rightarrow> duration \<Rightarrow> duration \<Rightarrow> u64 \<Rightarrow> budget_usage \<Rightarrow> ledger_state
       \<Rightarrow> unit ledger_result" where
  "settle limits now now' res_id usage st =
     (case settle_body limits now res_id usage st of
        (Ok None, st) \<Rightarrow> (Ok (), st)
      | (Ok (Some resource), st) \<Rightarrow> (Err (Stopped (UsageExceededReservation resource)), st)
      | (Err e, st) \<Rightarrow> (Err e, snd (drop_reservation limits now' res_id st))
      | (Panic, st) \<Rightarrow> (Panic, st))"

text \<open>
  \<open>AgentBudget\<close> of \<open>crates/core/agent/src/lib.rs\<close>: an agent consumes a step or a correction
  by reserving one and cancelling the reservation, which keeps the attempt's charge.
\<close>

definition consume_attempt ::
    "budget_limits \<Rightarrow> token_budget_mode \<Rightarrow> duration \<Rightarrow> duration \<Rightarrow> duration \<Rightarrow> u64 \<Rightarrow> budget_amounts
       \<Rightarrow> ledger_state \<Rightarrow> unit ledger_result" where
  "consume_attempt limits mode now now' now'' run_id amounts st =
     (case reserve limits mode now run_id (new_request amounts) st of
        (Ok res_id, st) \<Rightarrow> cancel_before_start limits now' now'' res_id st
      | (Err e, st) \<Rightarrow> (Err e, st)
      | (Panic, st) \<Rightarrow> (Panic, st))"

definition consume_step ::
    "budget_limits \<Rightarrow> token_budget_mode \<Rightarrow> duration \<Rightarrow> duration \<Rightarrow> duration \<Rightarrow> u64 \<Rightarrow> ledger_state
       \<Rightarrow> unit ledger_result" where
  "consume_step limits mode now now' now'' run_id =
     consume_attempt limits mode now now' now'' run_id (default_amounts\<lparr>steps := 1\<rparr>)"

definition consume_correction ::
    "budget_limits \<Rightarrow> token_budget_mode \<Rightarrow> duration \<Rightarrow> duration \<Rightarrow> duration \<Rightarrow> u64 \<Rightarrow> ledger_state
       \<Rightarrow> unit ledger_result" where
  "consume_correction limits mode now now' now'' run_id =
     consume_attempt limits mode now now' now'' run_id (default_amounts\<lparr>corrections := 1\<rparr>)"

end
