(* ===== verification/Checkpoint.thy ===== *)
theory Checkpoint
  imports Ledger
begin

text \<open>
  Checkpoints of a task ledger: the image and its structural validation
  (\<open>crates/core/budget/src/checkpoint.rs\<close>), the audited limit increases of \<open>grant.rs\<close> and
  the recovery records of \<open>recovery.rs\<close> as far as they validate images and transitions between
  images, and the two transfers \<open>seal_checkpoint\<close> and \<open>restore_checkpoint\<close>. A new execution
  number (\<open>BudgetExecutionId::new()\<close>) is a parameter.
\<close>

section \<open>Images\<close>

datatype checkpoint_version = V1 | V2 | V3 | V4

fun checkpoint_version_try_from :: "u16 \<Rightarrow> (checkpoint_version, string) outcome" where
  "checkpoint_version_try_from value =
     (if value = 1 then Ok V1 else if value = 2 then Ok V2 else if value = 3 then Ok V3
      else if value = 4 then Ok V4 else Err ''unsupported budget checkpoint version'')"

fun checkpoint_version_into :: "checkpoint_version \<Rightarrow> u16" where
  "checkpoint_version_into V1 = 1"
| "checkpoint_version_into V2 = 2"
| "checkpoint_version_into V3 = 3"
| "checkpoint_version_into V4 = 4"

record budget_checkpoint =
  cp_version :: checkpoint_version
  cp_revision :: u64
  cp_next_id :: u64
  cp_anchor :: "budget_event_cursor option"
  cp_report :: budget_report
  cp_run_id :: "u64 option"
  cp_recovery_frozen :: bool
  cp_execution_id :: "budget_execution_id option"
  cp_grants :: "budget_grant_record list"
  cp_recoveries :: "budget_recovery_record list"

record budget_restore_context =
  cx_identity :: budget_identity
  cx_revision :: u64
  cx_confirmed_anchor :: "budget_event_cursor option"
  cx_host_limits :: budget_limits

datatype checkpoint_error =
    CpBudget budget_error
  | CpInvalid string
  | CpIdentityMismatch
  | CpRevisionMismatch u64 u64
  | CpAnchorMismatch
  | CpRevisionExhausted

type_synonym 'a checkpoint_result = "('a, checkpoint_error) outcome"

text \<open>\<open>if condition { return Err(error) }\<close>.\<close>

definition reject_if :: "bool \<Rightarrow> 'e \<Rightarrow> (unit, 'e) outcome" where
  "reject_if condition error = (if condition then Err error else Ok ())"

lemma reject_if_eq_Ok [simp]: "reject_if c e = Ok u \<longleftrightarrow> \<not> c"
  by (simp add: reject_if_def)

lemma reject_if_neq_Panic [simp]: "reject_if c e \<noteq> Panic"
  by (simp add: reject_if_def)

definition is_quiescent :: "budget_checkpoint \<Rightarrow> bool" where
  "is_quiescent cp \<longleftrightarrow>
     cp_execution_id cp = None \<and> \<not> cp_recovery_frozen cp \<and> cp_run_id cp = None \<and>
     br_pending (cp_report cp) = []"

definition requires_recovery :: "budget_checkpoint \<Rightarrow> bool" where
  "requires_recovery cp \<longleftrightarrow> \<not> is_quiescent cp"

section \<open>Grants (\<open>grant.rs\<close>)\<close>

definition MAX_BUDGET_GRANTS :: nat where
  "MAX_BUDGET_GRANTS = 64"

definition MAX_BUDGET_AUDIT_TEXT_BYTES :: nat where
  "MAX_BUDGET_AUDIT_TEXT_BYTES = 1024"

definition validate_grant_request_text :: "budget_grant_request \<Rightarrow> (unit, string) outcome" where
  "validate_grant_request_text request =
     for_each (\<lambda>text _.
         reject_if (is_blank text \<or> length text > MAX_BUDGET_AUDIT_TEXT_BYTES)
           ''empty or oversized audit text'')
       [gq_operation_id request, gq_actor request, gq_source request, gq_reason request] ()"

definition validate_increase ::
    "budget_limits \<Rightarrow> budget_limits \<Rightarrow> budget_stop_reason option \<Rightarrow> (unit, string) outcome" where
  "validate_increase old new stop =
     (if old = new \<or> tightened_by new old \<noteq> old
      then Err ''grant must increase at least one limit and decrease none''
      else (case stop of
              None \<Rightarrow> Ok ()
            | Some (ResourceLimit resource) \<Rightarrow>
                if limit new resource > limit old resource then Ok ()
                else Err ''grant cannot clear this stop or does not increase the stopped resource''
            | Some ActiveTime \<Rightarrow>
                if lim_active_time new > lim_active_time old then Ok ()
                else Err ''grant cannot clear this stop or does not increase the stopped resource''
            | Some _ \<Rightarrow> Err ''grant cannot clear this stop or does not increase the stopped resource''))"

text \<open>
  The state of the loop of \<open>validate_grants\<close>: the operation ids seen, the last source revision
  and the last anchor.
\<close>

type_synonym grant_scan = "budget_operation_id list \<times> u64 \<times> budget_event_cursor option"

definition cursor_after :: "budget_event_cursor \<Rightarrow> budget_event_cursor \<Rightarrow> bool" where
  "cursor_after anchor tail \<longleftrightarrow>
     cur_seq anchor > cur_seq tail \<or> (cur_seq anchor = cur_seq tail \<and> anchor \<noteq> tail)"

definition grant_step ::
    "budget_checkpoint \<Rightarrow> budget_grant_record \<Rightarrow> grant_scan \<Rightarrow> grant_scan checkpoint_result" where
  "grant_step cp gr = (\<lambda>(ids, previous_revision, previous_anchor).
     and_then (map_err CpInvalid (validate_grant_request_text (gr_request gr))) (\<lambda>_.
     and_then (map_err CpInvalid
         (validate_increase (gr_old_limits gr) (gq_new_limits (gr_request gr)) (gr_old_stop gr))) (\<lambda>_.
     and_then (reject_if
         (gr_source_revision gr \<le> previous_revision \<or> gr_source_revision gr \<ge> cp_revision cp \<or>
          gq_operation_id (gr_request gr) \<in> set ids)
         (CpInvalid ''invalid grant revision or duplicate operation ID'')) (\<lambda>_.
     and_then (case gr_confirmed_anchor gr of
         Some anchor \<Rightarrow>
           reject_if
             (cur_session_id anchor \<noteq> id_session_id (br_identity (cp_report cp)) \<or>
              is_blank (cur_event_id anchor) \<or> is_blank (cur_turn_id anchor) \<or>
              (case cp_anchor cp of None \<Rightarrow> True | Some tail \<Rightarrow> cursor_after anchor tail) \<or>
              (case previous_anchor of None \<Rightarrow> False | Some old \<Rightarrow>
                 cur_seq anchor < cur_seq old \<or> (cur_seq anchor = cur_seq old \<and> anchor \<noteq> old)))
             (CpInvalid ''invalid grant log anchor'')
       | None \<Rightarrow>
           reject_if (previous_anchor \<noteq> None) (CpInvalid ''grant log anchor moved backwards'')) (\<lambda>_.
     Ok (gq_operation_id (gr_request gr) # ids, gr_source_revision gr, gr_confirmed_anchor gr))))))"

text \<open>The check of each pair of consecutive grants (\<open>windows(2)\<close>).\<close>

fun windows2 :: "'a list \<Rightarrow> ('a \<times> 'a) list" where
  "windows2 (x # y # zs) = (x, y) # windows2 (y # zs)"
| "windows2 _ = []"

definition grant_pair_ok :: "budget_grant_record \<times> budget_grant_record \<Rightarrow> unit \<Rightarrow> unit checkpoint_result" where
  "grant_pair_ok = (\<lambda>(a, b) _.
     reject_if (gr_confirmed_anchor a = gr_confirmed_anchor b \<and>
         (gq_new_limits (gr_request a) \<noteq> gr_old_limits b \<or> gr_old_stop b \<noteq> None))
       (CpInvalid ''discontinuous grants at the same boundary''))"

definition validate_grants :: "budget_checkpoint \<Rightarrow> unit checkpoint_result" where
  "validate_grants cp =
     and_then (reject_if
         (cp_grants cp \<noteq> [] \<and> cp_version cp \<noteq> V3 \<and> cp_version cp \<noteq> V4 \<or>
          length (cp_grants cp) > MAX_BUDGET_GRANTS)
         (CpInvalid ''invalid grant version or count'')) (\<lambda>_.
     and_then (for_each (grant_step cp) (cp_grants cp) ([], 0, None)) (\<lambda>_.
     for_each grant_pair_ok (windows2 (cp_grants cp)) ()))"

text \<open>
  \<open>boundary_report\<close>: undo the grants made at the checkpoint's own anchor, newest first.
\<close>

definition boundary_report :: "budget_checkpoint \<Rightarrow> budget_report checkpoint_result" where
  "boundary_report cp =
     for_each (\<lambda>gr report.
         if br_limits report \<noteq> gq_new_limits (gr_request gr) \<or> br_stop report \<noteq> None
         then Err (CpInvalid ''grant chain differs from boundary limits/stop'')
         else Ok (report\<lparr>br_limits := gr_old_limits gr, br_stop := gr_old_stop gr\<rparr>))
       (takeWhile (\<lambda>gr. gr_confirmed_anchor gr = cp_anchor cp) (rev (cp_grants cp)))
       (cp_report cp)"

section \<open>Validation of an image\<close>

text \<open>The check of an execution claim, and the checks after the audits.\<close>

definition validate_claim :: "budget_checkpoint \<Rightarrow> unit checkpoint_result" where
  "validate_claim cp =
     (case cp_execution_id cp of
        None \<Rightarrow> Ok ()
      | Some i \<Rightarrow>
          reject_if (cp_version cp = V1 \<or> is_blank i \<or> \<not> cp_recovery_frozen cp \<or>
              cp_run_id cp \<noteq> None \<or> br_pending (cp_report cp) \<noteq> [])
            (CpInvalid ''invalid durable execution claim''))"

type_synonym pending_scan = "u64 list \<times> budget_amounts \<times> budget_amounts"

definition pending_resource_step ::
    "budget_pending_report \<Rightarrow> budget_resource \<Rightarrow> budget_amounts \<times> budget_amounts
       \<Rightarrow> (budget_amounts \<times> budget_amounts) checkpoint_result" where
  "pending_resource_step pending resource = (\<lambda>(reserved, attempts).
     let q = amount (req_amounts (pd_request pending)) resource in
     if is_attempt resource
     then and_then (ok_or (checked_add (amount attempts resource) q) (CpInvalid ''pending totals overflow''))
            (\<lambda>v. Ok (reserved, set_amount resource v attempts))
     else and_then (ok_or (checked_add (amount reserved resource) q) (CpInvalid ''pending totals overflow''))
            (\<lambda>v. Ok (set_amount resource v reserved, attempts)))"

definition pending_step ::
    "u64 \<Rightarrow> token_budget_mode \<Rightarrow> budget_pending_report \<Rightarrow> pending_scan \<Rightarrow> pending_scan checkpoint_result" where
  "pending_step next_id mode pending = (\<lambda>(ids, reserved, attempts).
     and_then (reject_if (pd_id pending = 0 \<or> pd_id pending > next_id \<or> pd_id pending \<in> set ids)
         (CpInvalid ''invalid or duplicate reservation ID'')) (\<lambda>_.
     and_then (reject_if (pd_failed_usage pending \<noteq> None \<and> \<not> pd_started pending)
         (CpInvalid ''usage evidence on an unstarted reservation'')) (\<lambda>_.
     and_then (map_err (\<lambda>_. CpInvalid ''invalid pending resource request'')
         (validate_request (pd_request pending) mode)) (\<lambda>_.
     and_then (for_each (pending_resource_step pending) all_resources (reserved, attempts))
       (\<lambda>(reserved, attempts). Ok (pd_id pending # ids, reserved, attempts))))))"

definition validate_task_resource ::
    "budget_report \<Rightarrow> budget_amounts \<Rightarrow> budget_resource \<Rightarrow> unit \<Rightarrow> unit checkpoint_result" where
  "validate_task_resource report attempts resource _ =
     and_then (reject_if (amount attempts resource > amount (br_charged report) resource)
         (CpInvalid ''pending attempts exceed task charges'')) (\<lambda>_.
     reject_if
         (\<not> fits (amount (br_charged report) resource) (amount (br_reserved report) resource) 0
              (limit (br_limits report) resource) \<and> br_stop report = None)
         (CpInvalid ''over-limit task without stop evidence''))"

definition validate_usage ::
    "budget_report \<Rightarrow> budget_resource \<times> usage_totals \<Rightarrow> unit \<Rightarrow> unit checkpoint_result" where
  "validate_usage report = (\<lambda>(resource, usage) _.
     reject_if
       (case checked_add (tot_actual usage) (tot_estimated usage) of
          None \<Rightarrow> True
        | Some tot \<Rightarrow> tot > amount (br_charged report) resource)
       (CpInvalid ''usage evidence exceeds conservative charges''))"

definition stop_or :: "budget_stop_reason option \<Rightarrow> budget_stop_reason option \<Rightarrow> budget_stop_reason option" where
  "stop_or a b = (case a of Some x \<Rightarrow> Some x | None \<Rightarrow> b)"

definition validate_run_resource ::
    "budget_report \<Rightarrow> budget_run_report \<Rightarrow> budget_amounts \<Rightarrow> budget_resource \<Rightarrow> unit \<Rightarrow> unit checkpoint_result" where
  "validate_run_resource report run attempts resource _ =
     and_then (reject_if
         (amount (rr_charged run) resource > amount (br_charged report) resource \<or>
          amount attempts resource > amount (rr_charged run) resource \<or>
          limit (rr_limits run) resource > limit (br_limits report) resource)
         (CpInvalid ''run resource totals or limits exceed task values'')) (\<lambda>_.
     reject_if
         (\<not> fits (amount (rr_charged run) resource) (amount (rr_reserved run) resource) 0
              (limit (rr_limits run) resource) \<and> stop_or (rr_stop run) (br_stop report) = None)
         (CpInvalid ''over-limit run without stop evidence''))"

definition validate_run :: "budget_report \<Rightarrow> budget_amounts \<Rightarrow> budget_run_report \<Rightarrow> unit checkpoint_result" where
  "validate_run report attempts run =
     and_then (reject_if (case rr_turn_id run of None \<Rightarrow> False | Some i \<Rightarrow> is_blank i)
         (CpInvalid ''empty run TurnId'')) (\<lambda>_.
     and_then (reject_if
         (rr_reserved run \<noteq> br_reserved report \<or> rr_active_time run > br_active_time report \<or>
          rr_cleanup_time run > br_cleanup_time report)
         (CpInvalid ''run totals disagree with task totals'')) (\<lambda>_.
     and_then (for_each (validate_run_resource report run attempts) all_resources ()) (\<lambda>_.
     reject_if
         (lim_active_time (rr_limits run) > lim_active_time (br_limits report) \<or>
          (rr_active_time run > lim_active_time (rr_limits run) \<and>
           stop_or (rr_stop run) (br_stop report) = None))
         (CpInvalid ''invalid run time limit''))))"

definition validate_image :: "budget_checkpoint \<Rightarrow> unit checkpoint_result" where
  "validate_image cp =
     (let report = cp_report cp; identity = br_identity report in
      and_then (reject_if (cp_revision cp = 0)
          (CpInvalid ''revision zero is reserved for absent storage'')) (\<lambda>_.
      and_then (reject_if (identity_blank identity) (CpInvalid ''empty identity'')) (\<lambda>_.
      and_then (reject_if
          (case cp_anchor cp of
             None \<Rightarrow> False
           | Some anchor \<Rightarrow> cur_session_id anchor \<noteq> id_session_id identity \<or>
               is_blank (cur_turn_id anchor) \<or> is_blank (cur_event_id anchor))
          (CpInvalid ''invalid event cursor identity'')) (\<lambda>_.
      and_then (reject_if ((cp_run_id cp \<noteq> None) \<noteq> (br_run report \<noteq> None))
          (CpInvalid ''run identity and run evidence disagree'')) (\<lambda>_.
      and_then (reject_if (br_run report = None \<and> br_pending report \<noteq> [])
          (CpInvalid ''pending reservations without a run'')) (\<lambda>_.
      and_then (case cp_run_id cp of
            None \<Rightarrow> Ok []
          | Some i \<Rightarrow> if i = 0 \<or> i > cp_next_id cp then Err (CpInvalid ''invalid run ID watermark'')
                      else Ok [i]) (\<lambda>ids.
      and_then (for_each (pending_step (cp_next_id cp) (br_token_mode report)) (br_pending report)
          (ids, default_amounts, default_amounts)) (\<lambda>(_, reserved, attempts).
      and_then (reject_if (reserved \<noteq> br_reserved report)
          (CpInvalid ''reserved totals do not equal pending variable resources'')) (\<lambda>_.
      and_then (reject_if
          (cp_next_id cp = 0 \<and> (br_charged report \<noteq> default_amounts \<or> br_active_time report \<noteq> 0))
          (CpInvalid ''consumption without an allocated run'')) (\<lambda>_.
      and_then (for_each (validate_task_resource report attempts) all_resources ()) (\<lambda>_.
      and_then (reject_if
          (br_active_time report > lim_active_time (br_limits report) \<and> br_stop report = None)
          (CpInvalid ''over-limit task time without stop evidence'')) (\<lambda>_.
      and_then (for_each (validate_usage report)
          [(InputTokens, ur_input_tokens (br_usage report)),
           (OutputTokens, ur_output_tokens (br_usage report)),
           (ToolOutputBytes, ur_tool_output_bytes (br_usage report))] ()) (\<lambda>_.
      (case br_run report of None \<Rightarrow> Ok () | Some run \<Rightarrow> validate_run report attempts run))))))))))))))"

section \<open>Recovery records (\<open>recovery.rs\<close>) and \<open>validate\<close>\<close>

definition MAX_BUDGET_RECOVERIES :: nat where
  "MAX_BUDGET_RECOVERIES = 16"

definition validate_recovery_request :: "budget_recovery_request \<Rightarrow> (unit, string) outcome" where
  "validate_recovery_request request =
     and_then (for_each (\<lambda>text _.
         reject_if (is_blank text \<or> length text > MAX_BUDGET_AUDIT_TEXT_BYTES)
           ''empty or oversized recovery audit'')
       [rq_operation_id request, rq_execution_id request, rq_actor request, rq_source request,
        rq_reason request] ()) (\<lambda>_.
     reject_if (rq_source_revision request = 0) ''zero recovery revision'')"

text \<open>\<open>validate_recovery_evidence\<close> validates the retained candidate as an image of its own.\<close>

definition recovery_evidence :: "budget_recovery_record \<Rightarrow> u64 \<Rightarrow> budget_checkpoint" where
  "recovery_evidence rc revision =
     \<lparr>cp_version = V3, cp_revision = revision, cp_next_id = rc_candidate_next_id rc,
      cp_anchor = rc_confirmed_anchor rc, cp_report = rc_candidate_report rc, cp_run_id = None,
      cp_recovery_frozen = False, cp_execution_id = None, cp_grants = [], cp_recoveries = []\<rparr>"

type_synonym recovery_scan = "budget_operation_id list \<times> u64"

definition recovery_record_check ::
    "budget_checkpoint \<Rightarrow> budget_recovery_record \<Rightarrow> recovery_scan \<Rightarrow> unit checkpoint_result" where
  "recovery_record_check cp rc = (\<lambda>(ids, revision).
     and_then (map_err CpInvalid (validate_recovery_request (rc_request rc))) (\<lambda>_.
     reject_if
       (rq_operation_id (rc_request rc) \<in> set ids \<or>
        rq_source_revision (rc_request rc) \<le> revision \<or>
        rq_source_revision (rc_request rc) \<ge> cp_revision cp \<or>
        is_blank (rc_ownership_id rc) \<or>
        length (rc_ownership_id rc) > MAX_BUDGET_AUDIT_TEXT_BYTES \<or>
        br_identity (rc_candidate_report rc) \<noteq> br_identity (cp_report cp) \<or>
        br_run (rc_candidate_report rc) \<noteq> None \<or>
        br_pending (rc_candidate_report rc) \<noteq> [] \<or>
        rc_candidate_next_id rc > cp_next_id cp)
       (CpInvalid ''invalid recovery evidence'')))"

text \<open>
  \<open>validate\<close> calls itself on the images of the recovery records, which have no recovery
  records themselves.
\<close>

function (sequential) validate :: "budget_checkpoint \<Rightarrow> unit checkpoint_result" where
  "validate cp =
     and_then (validate_claim cp) (\<lambda>_.
     and_then (validate_grants cp) (\<lambda>_.
     and_then (reject_if
         (length (cp_recoveries cp) > MAX_BUDGET_RECOVERIES \<or>
          (cp_recoveries cp \<noteq> [] \<and> cp_version cp \<noteq> V4))
         (CpInvalid ''invalid recovery version/count'')) (\<lambda>_.
     and_then (for_each (\<lambda>rc scan.
           and_then (recovery_record_check cp rc scan) (\<lambda>_.
           and_then (case checked_add (rq_source_revision (rc_request rc)) 1 of
               None \<Rightarrow> Err CpRevisionExhausted
             | Some revision \<Rightarrow> validate (recovery_evidence rc revision)) (\<lambda>_.
           Ok (rq_operation_id (rc_request rc) # fst scan, rq_source_revision (rc_request rc)))))
         (cp_recoveries cp) ([], 0)) (\<lambda>_.
     validate_image cp))))"
  by pat_completeness auto

lemma evidence_smaller:
  "rc \<in> set (cp_recoveries cp) \<Longrightarrow>
     (recovery_evidence rc revision, cp) \<in> measure (\<lambda>cp. length (cp_recoveries cp))"
  by (auto simp: recovery_evidence_def)

termination validate
  by (relation "measure (\<lambda>cp. length (cp_recoveries cp))") (rule wf_measure, erule evidence_smaller)

definition validate_recovery_evidence :: "budget_recovery_record \<Rightarrow> unit checkpoint_result" where
  "validate_recovery_evidence rc =
     (case checked_add (rq_source_revision (rc_request rc)) 1 of
        None \<Rightarrow> Err CpRevisionExhausted
      | Some revision \<Rightarrow> validate (recovery_evidence rc revision))"

definition validate_recoveries :: "budget_checkpoint \<Rightarrow> unit checkpoint_result" where
  "validate_recoveries cp =
     and_then (reject_if
         (length (cp_recoveries cp) > MAX_BUDGET_RECOVERIES \<or>
          (cp_recoveries cp \<noteq> [] \<and> cp_version cp \<noteq> V4))
         (CpInvalid ''invalid recovery version/count'')) (\<lambda>_.
     and_then (for_each (\<lambda>rc scan.
           and_then (recovery_record_check cp rc scan) (\<lambda>_.
           and_then (validate_recovery_evidence rc) (\<lambda>_.
           Ok (rq_operation_id (rc_request rc) # fst scan, rq_source_revision (rc_request rc)))))
         (cp_recoveries cp) ([], 0)) (\<lambda>_. Ok ()))"

declare validate.simps [simp del]

lemma and_then_assoc: "and_then (and_then m f) g = and_then m (\<lambda>x. and_then (f x) g)"
  by (cases m) simp_all

lemma validate_eq:
  "validate cp =
     and_then (validate_claim cp) (\<lambda>_. and_then (validate_grants cp) (\<lambda>_.
     and_then (validate_recoveries cp) (\<lambda>_. validate_image cp)))"
  by (subst validate.simps)
    (simp add: validate_recoveries_def validate_recovery_evidence_def and_then_assoc)

section \<open>Transitions between images\<close>

definition validate_successor :: "budget_checkpoint \<Rightarrow> u64 \<Rightarrow> unit checkpoint_result" where
  "validate_successor cp expected_revision =
     and_then (validate cp) (\<lambda>_.
     and_then (ok_or (checked_add expected_revision 1) CpRevisionExhausted) (\<lambda>expected.
     reject_if (cp_revision cp \<noteq> expected) (CpRevisionMismatch expected (cp_revision cp))))"

definition audit_version :: "budget_checkpoint \<Rightarrow> checkpoint_version" where
  "audit_version cp = (if cp_recoveries cp = [] then V3 else V4)"

definition execution_claim ::
    "budget_execution_id \<Rightarrow> budget_checkpoint \<Rightarrow> budget_checkpoint checkpoint_result" where
  "execution_claim new_id cp =
     and_then (reject_if (\<not> is_quiescent cp) (CpInvalid ''checkpoint requires recovery'')) (\<lambda>_.
     and_then (ok_or (checked_add (cp_revision cp) 1) CpRevisionExhausted) (\<lambda>revision.
     let claim = cp\<lparr>cp_version := audit_version cp, cp_revision := revision,
                    cp_recovery_frozen := True, cp_execution_id := Some new_id\<rparr> in
     and_then (validate claim) (\<lambda>_. Ok claim)))"

definition usage_list :: "budget_usage_report \<Rightarrow> usage_totals list" where
  "usage_list u = [ur_input_tokens u, ur_output_tokens u, ur_tool_output_bytes u]"

definition validate_recovery_record ::
    "budget_checkpoint \<Rightarrow> budget_checkpoint \<Rightarrow> budget_recovery_record \<Rightarrow> unit checkpoint_result" where
  "validate_recovery_record cp previous rc =
     and_then (reject_if
         (cp_execution_id previous \<noteq> Some (rq_execution_id (rc_request rc)) \<or>
          cp_revision previous \<noteq> rq_source_revision (rc_request rc) \<or>
          \<not> is_quiescent cp \<or>
          cp_grants cp \<noteq> cp_grants previous \<or>
          cp_report cp \<noteq> rc_candidate_report rc \<or>
          cp_next_id cp \<noteq> rc_candidate_next_id rc \<or>
          cp_anchor cp \<noteq> rc_confirmed_anchor rc \<or>
          cp_next_id cp < cp_next_id previous \<or>
          br_limits (cp_report cp) \<noteq> br_limits (cp_report previous) \<or>
          br_token_mode (cp_report cp) \<noteq> br_token_mode (cp_report previous) \<or>
          br_active_time (cp_report cp) < br_active_time (cp_report previous) \<or>
          br_cleanup_time (cp_report cp) < br_cleanup_time (cp_report previous) \<or>
          br_reserved (cp_report cp) \<noteq> default_amounts)
         (CpInvalid ''recovery does not preserve original claim and candidate'')) (\<lambda>_.
     and_then (for_each (\<lambda>resource _.
         reject_if (amount (br_charged (cp_report cp)) resource < amount (br_charged (cp_report previous)) resource)
           (CpInvalid ''recovery refunds consumed resources'')) all_resources ()) (\<lambda>_.
     for_each (\<lambda>(new, old) _.
         reject_if (tot_actual new < tot_actual old \<or> tot_estimated new < tot_estimated old \<or>
             tot_unknown new < tot_unknown old)
           (CpInvalid ''recovery erases usage evidence''))
       (zip (usage_list (br_usage (cp_report cp))) (usage_list (br_usage (cp_report previous)))) ()))"

definition validate_recovery_transition ::
    "budget_checkpoint \<Rightarrow> budget_checkpoint option \<Rightarrow> unit checkpoint_result" where
  "validate_recovery_transition cp previous =
     (case previous of
        None \<Rightarrow> reject_if (cp_recoveries cp \<noteq> []) (CpInvalid ''initial recovery audit'')
      | Some previous \<Rightarrow>
          and_then (reject_if (\<not> prefix (cp_recoveries previous) (cp_recoveries cp))
              (CpInvalid ''recovery audit rewritten'')) (\<lambda>_.
          (case drop (length (cp_recoveries previous)) (cp_recoveries cp) of
             [] \<Rightarrow> Ok ()
           | [rc] \<Rightarrow> validate_recovery_record cp previous rc
           | _ \<Rightarrow> Err (CpInvalid ''multiple recoveries in one transition''))))"

text \<open>The image a grant makes of its predecessor.\<close>

definition granted :: "budget_checkpoint \<Rightarrow> u64 \<Rightarrow> budget_grant_record \<Rightarrow> budget_checkpoint" where
  "granted previous revision gr = previous\<lparr>cp_version := audit_version previous, cp_revision := revision,
     cp_report := (cp_report previous)\<lparr>br_limits := gq_new_limits (gr_request gr), br_stop := None\<rparr>,
     cp_grants := cp_grants previous @ [gr]\<rparr>"

definition validate_transition ::
    "budget_checkpoint \<Rightarrow> budget_checkpoint option \<Rightarrow> unit checkpoint_result" where
  "validate_transition cp previous =
     and_then (validate_successor cp (case previous of None \<Rightarrow> 0 | Some p \<Rightarrow> cp_revision p)) (\<lambda>_.
     and_then (validate_recovery_transition cp previous) (\<lambda>_.
     (case previous of
        None \<Rightarrow> reject_if (cp_grants cp \<noteq> []) (CpInvalid ''initial image contains grants'')
      | Some previous \<Rightarrow>
          and_then (validate previous) (\<lambda>_.
          and_then (reject_if (br_identity (cp_report previous) \<noteq> br_identity (cp_report cp)) CpIdentityMismatch) (\<lambda>_.
          and_then (reject_if (\<not> prefix (cp_grants previous) (cp_grants cp))
              (CpInvalid ''grant audit removed or rewritten'')) (\<lambda>_.
          (case drop (length (cp_grants previous)) (cp_grants cp) of
             [] \<Rightarrow>
               reject_if (tightened_by (br_limits (cp_report cp)) (br_limits (cp_report previous)) \<noteq>
                   br_limits (cp_report cp))
                 (CpInvalid ''limits increased without an atomic grant record'')
           | [gr] \<Rightarrow>
               and_then (reject_if
                   (\<not> is_quiescent previous \<or> gr_source_revision gr \<noteq> cp_revision previous \<or>
                    gr_confirmed_anchor gr \<noteq> cp_anchor previous \<or>
                    gr_old_limits gr \<noteq> br_limits (cp_report previous) \<or>
                    gr_old_stop gr \<noteq> br_stop (cp_report previous))
                   (CpInvalid ''grant does not describe the quiescent predecessor'')) (\<lambda>_.
               reject_if (cp \<noteq> granted previous (cp_revision cp) gr)
                 (CpInvalid ''grant altered state other than limits and budget stop''))
           | _ \<Rightarrow> Err (CpInvalid ''multiple grants in one transition''))))))))"

section \<open>Sealing and restoring\<close>

definition ledger_image :: "task_budget \<Rightarrow> budget_event_cursor option \<Rightarrow> u64 \<Rightarrow> ledger_state \<Rightarrow> budget_checkpoint" where
  "ledger_image tb anchor revision st =
     \<lparr>cp_version = (if st_recoveries st = [] then V3 else V4), cp_revision = revision,
      cp_next_id = st_next_id st, cp_anchor = anchor, cp_report = snapshot tb st,
      cp_run_id = map_option rs_id (st_run st), cp_recovery_frozen = st_recovery_frozen st,
      cp_execution_id = None, cp_grants = st_grants st, cp_recoveries = st_recoveries st\<rparr>"

definition seal_checkpoint ::
    "task_budget \<Rightarrow> duration \<Rightarrow> budget_event_cursor option \<Rightarrow> budget_checkpoint checkpoint_result \<times> task_budget" where
  "seal_checkpoint tb now anchor =
     (if tb_poisoned tb then (Err (CpBudget Poisoned), tb)
      else if st_sealed (tb_state tb) then (Err (CpBudget CheckpointSealed), tb)
      else
        let st = tick (tb_limits tb) now (tb_state tb) in
        (case checked_add (st_checkpoint_revision st) 1 of
           None \<Rightarrow> (Err CpRevisionExhausted, tb\<lparr>tb_state := st\<rparr>)
         | Some revision \<Rightarrow>
             let cp = ledger_image tb anchor revision st in
             (case validate cp of
                Ok _ \<Rightarrow> (Ok cp, tb\<lparr>tb_state := st\<lparr>st_sealed := True\<rparr>\<rparr>)
              | Err e \<Rightarrow> (Err e, tb\<lparr>tb_state := st\<rparr>)
              | Panic \<Rightarrow> (Panic, tb\<lparr>tb_state := st, tb_poisoned := True\<rparr>))))"

definition restored_stop :: "bool \<Rightarrow> budget_report \<Rightarrow> budget_limits \<Rightarrow> budget_stop_reason option" where
  "restored_stop frozen report limits =
     fold (\<lambda>resource stop.
         if \<not> fits (amount (br_charged report) resource) (amount (br_reserved report) resource) 0
              (limit limits resource)
         then stop_or stop (Some (ResourceLimit resource)) else stop)
       all_resources
       (if frozen then stop_or (br_stop report) (Some RecoveryRequired)
        else if br_active_time report \<ge> lim_active_time limits
        then stop_or (br_stop report) (Some ActiveTime)
        else br_stop report)"

definition restore_checkpoint ::
    "budget_checkpoint \<Rightarrow> budget_restore_context \<Rightarrow> duration \<Rightarrow> task_budget checkpoint_result" where
  "restore_checkpoint cp context now =
     and_then (validate cp) (\<lambda>_.
     and_then (reject_if (br_identity (cp_report cp) \<noteq> cx_identity context) CpIdentityMismatch) (\<lambda>_.
     and_then (reject_if (cp_revision cp \<noteq> cx_revision context)
         (CpRevisionMismatch (cx_revision context) (cp_revision cp))) (\<lambda>_.
     and_then (reject_if (cp_anchor cp \<noteq> cx_confirmed_anchor context) CpAnchorMismatch) (\<lambda>_.
     let report = cp_report cp;
         limits = tightened_by (br_limits report) (cx_host_limits context);
         frozen = (cp_recovery_frozen cp \<or> br_run report \<noteq> None \<or> br_pending report \<noteq> []);
         run = (case (br_run report, cp_run_id cp) of
                  (Some r, Some i) \<Rightarrow>
                    Some \<lparr>rs_id = i,
                      rs_report = r\<lparr>rr_open := False, rr_limits := tightened_by (rr_limits r) limits\<rparr>,
                      rs_cleaning = True\<rparr>
                | _ \<Rightarrow> None)
     in Ok \<lparr>tb_identity = br_identity report, tb_limits = limits, tb_token_mode = br_token_mode report,
         tb_state =
           \<lparr>st_sealed = False, st_recovery_frozen = frozen, st_checkpoint_revision = cp_revision cp,
            st_grants = cp_grants cp, st_recoveries = cp_recoveries cp, st_charged = br_charged report,
            st_reserved = br_reserved report, st_usage = br_usage report,
            st_active_time = br_active_time report, st_cleanup_time = br_cleanup_time report,
            st_stop = restored_stop frozen report limits, st_run = run,
            st_pending = fold (\<lambda>p m. bt_insert (pd_id p) p m) (br_pending report) [],
            st_next_id = cp_next_id cp, st_last_clock = now\<rparr>,
         tb_poisoned = False\<rparr>))))"

end
