(* ===== verification/ModelProtocol.thy ===== *)
theory ModelProtocol
  imports BudgetVocab "HOL-Library.Multiset"
begin

text \<open>
  The model vocabulary and its deterministic checks, \<open>crates/core/core/src/model.rs\<close>:
  messages, tool definitions and constraints, responses, the shape checks of requests and
  responses, and the accumulator of streamed fragments. The functions of \<open>serde_json\<close> the code
  calls are the record \<open>json_ops\<close>, a parameter; \<open>usize\<close> is 64 bits wide.
\<close>

section \<open>Parameters and machine sizes\<close>

record 'v json_ops =
  js_is_object :: "'v \<Rightarrow> bool"
  js_is_boolean :: "'v \<Rightarrow> bool"
  js_from_str :: "string \<Rightarrow> 'v option"

type_synonym usize = nat

definition usize_max :: usize where
  "usize_max = 2 ^ 64 - 1"

definition usize_checked_add :: "usize \<Rightarrow> usize \<Rightarrow> usize option" where
  "usize_checked_add a b = (if a + b \<le> usize_max then Some (a + b) else None)"

definition usize_saturating_add :: "usize \<Rightarrow> usize \<Rightarrow> usize" where
  "usize_saturating_add a b = min usize_max (a + b)"

section \<open>Messages, requests and responses\<close>

type_synonym provider_tool_call_id = string

datatype model_call_mode = Complete | Stream

datatype model_protocol_error =
    EmptyToolCallId
  | EmptyMessages
  | MissingAssistantContent
  | EmptyName
  | ArgumentsNotObject
  | DuplicateToolCallId
  | UnmatchedToolResult usize
  | InterruptedToolGroup usize
  | MissingToolResults
  | InvalidSchemaShape
  | EmptyToolSet
  | DuplicateToolName
  | ToolNotVisible
  | UnsupportedCapability
  | UnknownCapability
  | IncompleteResponse
  | InconsistentFinishReason
  | UnexpectedToolCalls
  | InvalidJsonOutput
  | RequiredToolCallMissing
  | WrongToolChoice
  | OutputLimitExceeded
  | MissingStreamTerminal
  | StreamTerminalMismatch
  | SchemaValidation

definition provider_tool_call_id_new :: "string \<Rightarrow> (provider_tool_call_id, model_protocol_error) outcome" where
  "provider_tool_call_id_new value = (if is_blank value then Err EmptyToolCallId else Ok value)"

record 'v model_tool_call =
  tc_id :: provider_tool_call_id
  tc_name :: string
  tc_arguments :: 'v

datatype 'v model_message =
    System string
  | User string
  | Assistant "string option" "'v model_tool_call list"
  | Tool provider_tool_call_id string

record 'v model_tool_definition =
  td_name :: string
  td_description :: string
  td_parameters :: 'v

datatype tool_choice = Auto | Required | Named string

datatype 'v generation_constraint =
    TextOutput
  | NativeTools "'v model_tool_definition list" tool_choice
  | JsonSchema string 'v

datatype capability_support = Supported | Unsupported | UnknownSupport

record generation_support =
  gs_complete :: capability_support
  gs_stream :: capability_support

definition for_mode :: "generation_support \<Rightarrow> model_call_mode \<Rightarrow> capability_support" where
  "for_mode s mode = (case mode of Complete \<Rightarrow> gs_complete s | Stream \<Rightarrow> gs_stream s)"

record model_capabilities =
  mc_text :: generation_support
  mc_native_tools :: generation_support
  mc_json_schema :: generation_support
  mc_token_usage :: capability_support
  mc_token_counting :: capability_support

definition text_only :: model_capabilities where
  "text_only =
     (let unsupported = \<lparr>gs_complete = Unsupported, gs_stream = Unsupported\<rparr> in
      \<lparr>mc_text = \<lparr>gs_complete = Supported, gs_stream = Supported\<rparr>, mc_native_tools = unsupported,
       mc_json_schema = unsupported, mc_token_usage = Unsupported, mc_token_counting = Unsupported\<rparr>)"

record 'v generation_request =
  rg_messages :: "'v model_message list"
  rg_constraint :: "'v generation_constraint"

datatype finish_reason = Stop | ToolCalls | Length | ContentFiltered | UnknownFinish | Other string

record token_usage =
  tk_input_tokens :: "u64 option"
  tk_output_tokens :: "u64 option"
  tk_total_tokens :: "u64 option"

record tool_call_fragment =
  fr_index :: u32
  fr_id :: string
  fr_name :: string
  fr_arguments :: string

record 'v generation_response =
  rs_content :: "string option"
  rs_tool_calls :: "'v model_tool_call list"
  rs_incomplete_tool_calls :: "tool_call_fragment list"
  rs_finish_reason :: finish_reason
  rs_usage :: token_usage

record generation_limits =
  gl_max_output_bytes :: usize
  gl_max_tool_calls :: usize

definition default_generation_limits :: generation_limits where
  "default_generation_limits = \<lparr>gl_max_output_bytes = 8 * 1024 * 1024, gl_max_tool_calls = 32\<rparr>"

datatype generation_delta =
    TextDelta string
  | ToolCallDelta u32 "string option" "string option" string

record generation_partial =
  gp_content :: "string option"
  gp_tool_calls :: "tool_call_fragment list"

datatype model_record_version = RecordV1

fun model_record_version_try_from :: "u16 \<Rightarrow> (model_record_version, string) outcome" where
  "model_record_version_try_from value =
     (if value = 1 then Ok RecordV1 else Err ''unsupported model record version'')"

fun model_record_version_into :: "model_record_version \<Rightarrow> u16" where
  "model_record_version_into _ = 1"

section \<open>Shape checks\<close>

type_synonym protocol_check = "(unit, model_protocol_error) outcome"

definition validate_name :: "string \<Rightarrow> protocol_check" where
  "validate_name name = (if is_blank name then Err EmptyName else Ok ())"

definition validate_schema_shape :: "'v json_ops \<Rightarrow> 'v \<Rightarrow> protocol_check" where
  "validate_schema_shape js schema =
     (if js_is_object js schema \<or> js_is_boolean js schema then Ok () else Err InvalidSchemaShape)"

definition assistant_call_step ::
    "'v json_ops \<Rightarrow> 'v model_tool_call \<Rightarrow> string list \<Rightarrow> (string list, model_protocol_error) outcome" where
  "assistant_call_step js call ids =
     and_then (validate_name (tc_name call)) (\<lambda>_.
     if \<not> js_is_object js (tc_arguments call) then Err ArgumentsNotObject
     else if tc_id call \<in> set ids then Err DuplicateToolCallId
     else Ok (tc_id call # ids))"

definition validate_assistant ::
    "'v json_ops \<Rightarrow> string option \<Rightarrow> 'v model_tool_call list \<Rightarrow> protocol_check" where
  "validate_assistant js content calls =
     (if content = None \<and> calls = [] then Err MissingAssistantContent
      else and_then (for_each (assistant_call_step js) calls []) (\<lambda>_. Ok ()))"

text \<open>The loop of \<open>validate_messages\<close>: its state is the set of calls whose result is missing.\<close>

definition message_step ::
    "'v json_ops \<Rightarrow> usize \<times> 'v model_message \<Rightarrow> string list
       \<Rightarrow> (string list, model_protocol_error) outcome" where
  "message_step js = (\<lambda>(index, message) pending.
     (case message of
        Tool call_id _ \<Rightarrow>
          if call_id \<in> set pending then Ok (removeAll call_id pending)
          else Err (UnmatchedToolResult index)
      | Assistant content calls \<Rightarrow>
          if pending \<noteq> [] then Err (InterruptedToolGroup index)
          else and_then (validate_assistant js content calls) (\<lambda>_. Ok (map tc_id calls))
      | _ \<Rightarrow> if pending \<noteq> [] then Err (InterruptedToolGroup index) else Ok pending))"

definition validate_messages :: "'v json_ops \<Rightarrow> 'v model_message list \<Rightarrow> protocol_check" where
  "validate_messages js messages =
     (if messages = [] then Err EmptyMessages
      else and_then (for_each (message_step js) (enumerate 0 messages) []) (\<lambda>pending.
        if pending = [] then Ok () else Err MissingToolResults))"

definition tool_definition_step ::
    "'v json_ops \<Rightarrow> 'v model_tool_definition \<Rightarrow> string list \<Rightarrow> (string list, model_protocol_error) outcome" where
  "tool_definition_step js tool names =
     and_then (validate_name (td_name tool)) (\<lambda>_.
     and_then (validate_schema_shape js (td_parameters tool)) (\<lambda>_.
     if td_name tool \<in> set names then Err DuplicateToolName else Ok (td_name tool # names)))"

definition validate_shape :: "'v json_ops \<Rightarrow> 'v generation_request \<Rightarrow> protocol_check" where
  "validate_shape js request =
     and_then (validate_messages js (rg_messages request)) (\<lambda>_.
     (case rg_constraint request of
        TextOutput \<Rightarrow> Ok ()
      | JsonSchema name schema \<Rightarrow> and_then (validate_name name) (\<lambda>_. validate_schema_shape js schema)
      | NativeTools tools choice \<Rightarrow>
          if tools = [] then Err EmptyToolSet
          else and_then (for_each (tool_definition_step js) tools []) (\<lambda>names.
            (case choice of
               Named name \<Rightarrow> if name \<notin> set names then Err ToolNotVisible else Ok ()
             | _ \<Rightarrow> Ok ()))))"

definition preflight ::
    "'v json_ops \<Rightarrow> 'v generation_request \<Rightarrow> model_capabilities \<Rightarrow> model_call_mode \<Rightarrow> protocol_check" where
  "preflight js request capabilities mode =
     and_then (validate_shape js request) (\<lambda>_.
     let support = (case rg_constraint request of
                      TextOutput \<Rightarrow> mc_text capabilities
                    | NativeTools _ _ \<Rightarrow> mc_native_tools capabilities
                    | JsonSchema _ _ \<Rightarrow> mc_json_schema capabilities) in
     (case for_mode support mode of
        Supported \<Rightarrow> Ok ()
      | Unsupported \<Rightarrow> Err UnsupportedCapability
      | UnknownSupport \<Rightarrow> Err UnknownCapability))"

definition validate_complete :: "'v json_ops \<Rightarrow> 'v generation_response \<Rightarrow> protocol_check" where
  "validate_complete js response =
     (if rs_incomplete_tool_calls response \<noteq> [] then Err IncompleteResponse
      else if rs_finish_reason response = Stop \<and> rs_tool_calls response = [] \<or>
              rs_finish_reason response = ToolCalls \<and> rs_tool_calls response \<noteq> []
      then validate_assistant js (rs_content response) (rs_tool_calls response)
      else if rs_finish_reason response = Stop \<or> rs_finish_reason response = ToolCalls
      then Err InconsistentFinishReason
      else Err IncompleteResponse)"

definition offered_call_step ::
    "'v model_tool_definition list \<Rightarrow> tool_choice \<Rightarrow> 'v model_tool_call \<Rightarrow> unit \<Rightarrow> protocol_check" where
  "offered_call_step tools choice call _ =
     (if \<not> list_ex (\<lambda>tool. td_name tool = tc_name call) tools then Err ToolNotVisible
      else (case choice of
              Named name \<Rightarrow> if tc_name call \<noteq> name then Err WrongToolChoice else Ok ()
            | _ \<Rightarrow> Ok ()))"

definition validate_shape_for ::
    "'v json_ops \<Rightarrow> 'v generation_request \<Rightarrow> 'v generation_response \<Rightarrow> protocol_check" where
  "validate_shape_for js request response =
     and_then (validate_shape js request) (\<lambda>_.
     and_then (validate_complete js response) (\<lambda>_.
     (case rg_constraint request of
        TextOutput \<Rightarrow> if rs_tool_calls response \<noteq> [] then Err UnexpectedToolCalls else Ok ()
      | JsonSchema _ _ \<Rightarrow>
          if rs_tool_calls response \<noteq> [] then Err UnexpectedToolCalls
          else (case js_from_str js (case rs_content response of None \<Rightarrow> [] | Some s \<Rightarrow> s) of
                  None \<Rightarrow> Err InvalidJsonOutput | Some _ \<Rightarrow> Ok ())
      | NativeTools tools choice \<Rightarrow>
          if choice \<noteq> Auto \<and> rs_tool_calls response = [] then Err RequiredToolCallMissing
          else for_each (offered_call_step tools choice) (rs_tool_calls response) ())))"

definition into_message ::
    "'v json_ops \<Rightarrow> 'v generation_response \<Rightarrow> ('v model_message, model_protocol_error) outcome" where
  "into_message js response =
     and_then (validate_complete js response) (\<lambda>_.
       Ok (Assistant (rs_content response) (rs_tool_calls response)))"

section \<open>The stream accumulator\<close>

record generation_accumulator =
  ac_partial :: generation_partial
  ac_limits :: generation_limits
  ac_bytes :: usize

definition accumulator_new :: "generation_limits \<Rightarrow> generation_accumulator" where
  "accumulator_new limits =
     \<lparr>ac_partial = \<lparr>gp_content = None, gp_tool_calls = []\<rparr>, ac_limits = limits, ac_bytes = 0\<rparr>"

definition unwrap_or_empty :: "string option \<Rightarrow> string" where
  "unwrap_or_empty s = (case s of None \<Rightarrow> [] | Some t \<Rightarrow> t)"

fun delta_bytes :: "generation_delta \<Rightarrow> usize" where
  "delta_bytes (TextDelta text) = length text"
| "delta_bytes (ToolCallDelta _ i n arguments) =
     usize_saturating_add (usize_saturating_add (length (unwrap_or_empty i)) (length (unwrap_or_empty n)))
       (length arguments)"

text \<open>The first fragment with an index, extended, or a new one at the end.\<close>

definition extend_fragment :: "string option \<Rightarrow> string option \<Rightarrow> string \<Rightarrow> tool_call_fragment \<Rightarrow> tool_call_fragment" where
  "extend_fragment i n arguments call =
     call\<lparr>fr_id := fr_id call @ unwrap_or_empty i, fr_name := fr_name call @ unwrap_or_empty n,
          fr_arguments := fr_arguments call @ arguments\<rparr>"

fun extend_first ::
    "u32 \<Rightarrow> (tool_call_fragment \<Rightarrow> tool_call_fragment) \<Rightarrow> tool_call_fragment list \<Rightarrow> tool_call_fragment list" where
  "extend_first index f [] = []"
| "extend_first index f (call # calls) =
     (if fr_index call = index then f call # calls else call # extend_first index f calls)"

definition push_tool_call ::
    "usize \<Rightarrow> u32 \<Rightarrow> string option \<Rightarrow> string option \<Rightarrow> string \<Rightarrow> tool_call_fragment list
       \<Rightarrow> (tool_call_fragment list, model_protocol_error) outcome" where
  "push_tool_call max_calls index i n arguments calls =
     and_then (if list_ex (\<lambda>call. fr_index call = index) calls then Ok calls
               else if length calls \<ge> max_calls then Err OutputLimitExceeded
               else Ok (calls @ [\<lparr>fr_index = index, fr_id = [], fr_name = [], fr_arguments = []\<rparr>]))
       (\<lambda>calls. Ok (extend_first index (extend_fragment i n arguments) calls))"

definition push ::
    "generation_delta \<Rightarrow> generation_accumulator \<Rightarrow> (generation_accumulator, model_protocol_error) outcome" where
  "push delta acc =
     and_then (ok_or (usize_checked_add (ac_bytes acc) (delta_bytes delta)) OutputLimitExceeded) (\<lambda>tot.
     if tot > gl_max_output_bytes (ac_limits acc) then Err OutputLimitExceeded
     else
       (case delta of
          TextDelta text \<Rightarrow>
            Ok (acc\<lparr>ac_partial := (ac_partial acc)
                 \<lparr>gp_content := Some (unwrap_or_empty (gp_content (ac_partial acc)) @ text)\<rparr>,
               ac_bytes := tot\<rparr>)
        | ToolCallDelta index i n arguments \<Rightarrow>
            and_then (push_tool_call (gl_max_tool_calls (ac_limits acc)) index i n arguments
                (gp_tool_calls (ac_partial acc))) (\<lambda>calls.
            Ok (acc\<lparr>ac_partial := (ac_partial acc)\<lparr>gp_tool_calls := calls\<rparr>, ac_bytes := tot\<rparr>))))"

definition fragment_step ::
    "'v json_ops \<Rightarrow> tool_call_fragment \<Rightarrow> 'v model_tool_call list
       \<Rightarrow> ('v model_tool_call list, model_protocol_error) outcome" where
  "fragment_step js fragment calls =
     and_then (provider_tool_call_id_new (fr_id fragment)) (\<lambda>i.
     and_then (ok_or (js_from_str js (fr_arguments fragment)) InvalidJsonOutput) (\<lambda>arguments.
     Ok (calls @ [\<lparr>tc_id = i, tc_name = fr_name fragment, tc_arguments = arguments\<rparr>])))"

definition accumulator_response ::
    "'v json_ops \<Rightarrow> generation_accumulator \<Rightarrow> finish_reason \<Rightarrow> token_usage
       \<Rightarrow> ('v generation_response, model_protocol_error) outcome" where
  "accumulator_response js acc reason usage =
     (let fragments = sort_key fr_index (gp_tool_calls (ac_partial acc)) in
      and_then (if reason = Stop \<or> reason = ToolCalls
                then and_then (for_each (fragment_step js) fragments []) (\<lambda>calls. Ok (calls, []))
                else Ok ([], fragments)) (\<lambda>(calls, incomplete).
      Ok \<lparr>rs_content = gp_content (ac_partial acc), rs_tool_calls = calls,
          rs_incomplete_tool_calls = incomplete, rs_finish_reason = reason, rs_usage = usage\<rparr>))"

definition verify_terminal ::
    "'v json_ops \<Rightarrow> generation_accumulator \<Rightarrow> 'v generation_response \<Rightarrow> protocol_check" where
  "verify_terminal js acc response =
     and_then (accumulator_response js acc (rs_finish_reason response) (rs_usage response)) (\<lambda>r.
       if r \<noteq> response then Err StreamTerminalMismatch else Ok ())"

end
