(* ===== verification/EventVocab.thy ===== *)
theory EventVocab
  imports ModelProtocol
begin

text \<open>
  The event envelope of \<open>crates/core/core/src/event.rs\<close> with the decision context of
  \<open>decision.rs\<close> and the tool operations of \<open>tool_operation.rs\<close>: the records of model and tool
  calls, and the events of the canonical session log. JSON values are the type parameter.
\<close>

section \<open>Decisions and tool operations\<close>

record decision_context =
  dx_task_id :: task_id
  dx_step_id :: step_id

record action_context =
  ax_decision :: decision_context
  ax_action_index :: u32
  ax_provider_call_id :: "provider_tool_call_id option"

datatype tool_effect = UnknownEffect | ReadOnly | Idempotent | NonIdempotent

record tool_effect_contract =
  ec_effect :: tool_effect
  ec_revision :: string

definition default_effect_contract :: tool_effect_contract where
  "default_effect_contract = \<lparr>ec_effect = UnknownEffect, ec_revision = ''unspecified''\<rparr>"

datatype tool_review_outcome = NotExecuted | ReviewCompleted | Uncertain

record tool_retry_review =
  rv_actor :: string
  rv_evidence :: string
  rv_outcome :: tool_review_outcome

record tool_retry_audit =
  ra_call_id :: string
  ra_event_id :: event_id
  ra_review :: "tool_retry_review option"

record tool_operation =
  op_task_id :: task_id
  op_key :: string
  op_contract :: tool_effect_contract
  op_retry :: "tool_retry_audit option"

section \<open>Model and tool records\<close>

datatype stage_status = StageStarted | StageCompleted | StageFailed

datatype done_status = DoneCompleted | DoneWaitingForInput | DoneCheckpointed | DoneCancelled

datatype model_timeout_error = NanosecondsOutOfRange u32

record model_timeout =
  mto_secs :: u64
  mto_nanos :: u32

definition model_timeout_try_new :: "u64 \<Rightarrow> u32 \<Rightarrow> (model_timeout, model_timeout_error) outcome" where
  "model_timeout_try_new secs nanos =
     (if nanos \<ge> 1000000000 then Err (NanosecondsOutOfRange nanos)
      else Ok \<lparr>mto_secs = secs, mto_nanos = nanos\<rparr>)"

definition model_timeout_from_duration :: "duration \<Rightarrow> model_timeout" where
  "model_timeout_from_duration d =
     \<lparr>mto_secs = of_nat (d div 1000000000), mto_nanos = of_nat (d mod 1000000000)\<rparr>"

record model_request_options =
  mo_context :: "decision_context option"
  mo_max_tokens :: "u32 option"
  mo_timeout :: "model_timeout option"
  mo_limits :: generation_limits

record 'v model_request =
  mq_version :: model_record_version
  mq_call_id :: model_call_id
  mq_mode :: model_call_mode
  mq_input :: "'v generation_request"
  mq_options :: model_request_options

datatype model_failure_category =
    McUpstream | McTimeout | McStreamParse | McProtocol | McCancelled | McAdapter | McInternal | McBudget

datatype 'v model_recorded_outcome =
    ModelSucceeded "'v generation_response"
  | ModelFailed model_failure_category string string bool "u16 option" generation_partial

record 'v model_result =
  ms_version :: model_record_version
  ms_call_id :: model_call_id
  ms_outcome :: "'v model_recorded_outcome"

record 'v tool_call =
  tl_operation :: "tool_operation option"
  tl_action :: "action_context option"
  tl_id :: string
  tl_name :: string
  tl_arguments :: 'v

datatype tool_failure_category =
    TcUnavailable | TcInvalidArguments | TcDenied | TcGuardFault | TcApprovalUnavailable
  | TcApprovalDenied | TcApprovalFault | TcTimeout | TcCancelled | TcBodyFailure | TcBodyPanic
  | TcOutputLimit | TcBudget

datatype tool_recorded_outcome =
    ToolSucceeded string
  | ToolFailed tool_failure_category string string bool

record tool_result =
  tres_call_id :: string
  tres_outcome :: tool_recorded_outcome

section \<open>Session events\<close>

datatype assistant_message_version = AssistantV1

fun assistant_message_version_try_from :: "u16 \<Rightarrow> (assistant_message_version, string) outcome" where
  "assistant_message_version_try_from value =
     (if value = 1 then Ok AssistantV1 else Err ''unsupported assistant message version'')"

fun assistant_message_version_into :: "assistant_message_version \<Rightarrow> u16" where
  "assistant_message_version_into _ = 1"

datatype 'v session_event_kind =
    UserMessage string
  | AssistantDelta string
  | AssistantMessage assistant_message_version string
  | ModelRequestEvent "'v model_request"
  | ModelResultEvent "'v model_result"
  | ToolCallEvent "'v tool_call"
  | ToolResultEvent tool_result
  | TaskRunReportEvent task_run_report
  | StageProgress string stage_status "string option"
  | ModeEvent string string string
  | PlanReady 'v
  | Done done_status "'v option"
  | ErrorEvent string string bool
  | Custom string string 'v

record 'v session_event =
  se_event_id :: event_id
  se_session_id :: session_id
  se_turn_id :: turn_id
  se_generation_id :: "generation_id option"
  se_message_id :: "message_id option"
  se_seq :: u64
  se_kind :: "'v session_event_kind"

lemma model_timeout_from_duration_valid:
  assumes "d \<le> dur_max"
  shows "model_timeout_try_new (of_nat (d div 1000000000)) (of_nat (d mod 1000000000)) =
      Ok (model_timeout_from_duration d)"
    and "unat (mto_secs (model_timeout_from_duration d)) * 1000000000 +
      unat (mto_nanos (model_timeout_from_duration d)) = d"
proof -
  have "d div 1000000000 < 2 ^ 64" using assms by (auto simp: dur_max_def div_less_iff_less_mult)
  moreover have n: "d mod 1000000000 < 1000000000" by simp
  ultimately have s: "unat (of_nat (d div 1000000000) :: u64) = d div 1000000000"
    and m: "unat (of_nat (d mod 1000000000) :: u32) = d mod 1000000000"
    by (simp_all add: unat_of_nat)
  have "\<not> (of_nat (d mod 1000000000) :: u32) \<ge> 1000000000"
    using n m by (simp add: word_le_nat_alt)
  then show "model_timeout_try_new (of_nat (d div 1000000000)) (of_nat (d mod 1000000000)) =
      Ok (model_timeout_from_duration d)"
    by (simp add: model_timeout_try_new_def model_timeout_from_duration_def)
  show "unat (mto_secs (model_timeout_from_duration d)) * 1000000000 +
      unat (mto_nanos (model_timeout_from_duration d)) = d"
    by (simp add: model_timeout_from_duration_def s m)
qed

end
