(* ===== verification/SessionLog.thy ===== *)
theory SessionLog
  imports EventVocab
begin

text \<open>
  The public contracts of the canonical session log, \<open>crates/session/session/src/lib.rs\<close>:
  drafts, admissions and settlement summaries, the error types, and \<open>validate_physical_log\<close>.
  A new event number (\<open>EventId::new()\<close>) is a parameter.
\<close>

datatype commit_certainty = DefinitelyNotCommitted | Indeterminate

datatype persist_append_outcome = Appended | ReplayedExact

datatype physical_log_error =
    WrongSession usize session_id session_id
  | WrongSequence usize u64 u64
  | DuplicateEventId usize event_id

datatype session_persistence_error =
    PeIo string string commit_certainty
  | PeSerialization string
  | PeCorruptLog usize string
  | PeInvalidHistory physical_log_error
  | PeConflict u64 event_id string

datatype 'v session_runtime_error =
    InvalidMessageSettlement turn_id "'v session_event" "'v session_event list"
  | RtPersistence session_persistence_error
  | RtInvalidHistory physical_log_error
  | RtStopped
  | TurnNotActive session_id turn_id
  | TurnClosed session_id turn_id u64
  | SequenceExhausted

record 'v session_event_draft =
  dr_event_id :: event_id
  dr_generation_id :: "generation_id option"
  dr_message_id :: "message_id option"
  dr_kind :: "'v session_event_kind"

definition draft_new :: "event_id \<Rightarrow> 'v session_event_kind \<Rightarrow> 'v session_event_draft" where
  "draft_new new_id kind = \<lparr>dr_event_id = new_id, dr_generation_id = None, dr_message_id = None, dr_kind = kind\<rparr>"

definition with_generation_id :: "generation_id \<Rightarrow> 'v session_event_draft \<Rightarrow> 'v session_event_draft" where
  "with_generation_id i d = d\<lparr>dr_generation_id := Some i\<rparr>"

definition with_message_id :: "message_id \<Rightarrow> 'v session_event_draft \<Rightarrow> 'v session_event_draft" where
  "with_message_id i d = d\<lparr>dr_message_id := Some i\<rparr>"

record 'v turn_admission =
  ta_session_id :: session_id
  ta_turn_id :: turn_id
  ta_history :: "'v session_event list"

record 'v turn_commit_summary =
  ts_turn_id :: turn_id
  ts_events :: "'v session_event list"

section \<open>The physical log\<close>

definition physical_step ::
    "session_id \<Rightarrow> nat \<times> 'v session_event \<Rightarrow> event_id list \<Rightarrow> (event_id list, physical_log_error) outcome" where
  "physical_step session = (\<lambda>(physical_index, event) ids.
     if se_session_id event \<noteq> session
     then Err (WrongSession physical_index session (se_session_id event))
     else let expected = of_nat physical_index in
       if se_seq event \<noteq> expected then Err (WrongSequence physical_index expected (se_seq event))
       else if se_event_id event \<in> set ids then Err (DuplicateEventId physical_index (se_event_id event))
       else Ok (se_event_id event # ids))"

definition validate_physical_log ::
    "session_id \<Rightarrow> 'v session_event list \<Rightarrow> (unit, physical_log_error) outcome" where
  "validate_physical_log session events =
     and_then (for_each (physical_step session) (enumerate 0 events) []) (\<lambda>_. Ok ())"

lemma indexed_Cons:
  "(\<forall>i < length (x # xs). P ((x # xs) ! i) (n + i)) \<longleftrightarrow> P x n \<and> (\<forall>i < length xs. P (xs ! i) (Suc n + i))"
  by (simp add: All_less_Suc2)

lemma physical_scan_iff:
  "for_each (physical_step session) (enumerate n events) ids = Ok ids' \<longleftrightarrow>
     ids' = rev (map se_event_id events) @ ids \<and> distinct (map se_event_id events) \<and>
     set (map se_event_id events) \<inter> set ids = {} \<and>
     (\<forall>i < length events. se_session_id (events ! i) = session \<and> se_seq (events ! i) = of_nat (n + i))"
proof (induction events arbitrary: n ids)
  case (Cons e events)
  have "for_each (physical_step session) (enumerate n (e # events)) ids = Ok ids' \<longleftrightarrow>
      se_session_id e = session \<and> se_seq e = of_nat n \<and> se_event_id e \<notin> set ids \<and>
      for_each (physical_step session) (enumerate (Suc n) events) (se_event_id e # ids) = Ok ids'"
    by (auto simp: physical_step_def Let_def)
  also have "\<dots> \<longleftrightarrow> se_session_id e = session \<and> se_seq e = of_nat n \<and> se_event_id e \<notin> set ids \<and>
      ids' = rev (map se_event_id events) @ se_event_id e # ids \<and> distinct (map se_event_id events) \<and>
      set (map se_event_id events) \<inter> set (se_event_id e # ids) = {} \<and>
      (\<forall>i < length events. se_session_id (events ! i) = session \<and> se_seq (events ! i) = of_nat (Suc n + i))"
    by (simp only: Cons.IH)
  also have "\<dots> \<longleftrightarrow> ids' = rev (map se_event_id (e # events)) @ ids \<and> distinct (map se_event_id (e # events)) \<and>
     set (map se_event_id (e # events)) \<inter> set ids = {} \<and>
     (\<forall>i < length (e # events). se_session_id ((e # events) ! i) = session \<and> se_seq ((e # events) ! i) = of_nat (n + i))"
    using indexed_Cons [of e events "\<lambda>x k. se_session_id x = session \<and> se_seq x = of_nat k" n] by auto
  finally show ?case .
qed auto

text \<open>Which logs are physical: the addresses of a Session's events in order.\<close>

definition physical_log :: "session_id \<Rightarrow> 'v session_event list \<Rightarrow> bool" where
  "physical_log session events \<longleftrightarrow>
     distinct (map se_event_id events) \<and>
     (\<forall>i < length events. se_session_id (events ! i) = session \<and> se_seq (events ! i) = of_nat i)"

lemma validate_physical_log_Ok: "validate_physical_log session events = Ok u \<longleftrightarrow> physical_log session events"
  by (simp add: validate_physical_log_def physical_scan_iff physical_log_def)

lemma validate_physical_log_neq_Panic [simp]: "validate_physical_log session events \<noteq> Panic"
proof -
  have "for_each (physical_step session) xs ids \<noteq> Panic" for xs and ids :: "event_id list"
    by (rule for_each_no_panic) (auto simp: physical_step_def Let_def split: if_splits)
  then show ?thesis by (simp add: validate_physical_log_def and_then_eq_Panic)
qed

lemma physical_log_Nil [simp]: "physical_log session []"
  by (simp add: physical_log_def)

lemma physical_log_snoc:
  "physical_log session (events @ [e]) \<longleftrightarrow>
     physical_log session events \<and> se_session_id e = session \<and> se_seq e = of_nat (length events) \<and>
     se_event_id e \<notin> se_event_id ` set events"
  by (auto simp: physical_log_def nth_append less_Suc_eq)

end
