(* ===== verification/Execution.thy ===== *)
theory Execution
  imports Checkpoint SessionLog
begin

text \<open>
  Durable execution claims over checkpoint storage: \<open>crates/core/budget/src/execution.rs\<close>, and
  the operations that load, check and commit an image: \<open>grant_budget\<close> of \<open>grant.rs\<close>,
  \<open>recover_budget_candidate\<close> and \<open>inspect_budget_recovery\<close> of \<open>recovery.rs\<close>. The store is a
  parameter, a record of the operations of the trait \<open>BudgetCheckpointStore\<close> of
  \<open>checkpoint.rs\<close> over a state; a Session's recovery ownership is the record of the trait
  \<open>SessionRecoveryOwnership\<close>. An operation that awaits the store returns the store's new state.
\<close>

section \<open>The store\<close>

datatype checkpoint_commit = Committed | CommitReplayed

datatype checkpoint_commit_certainty = CkDefinitelyNotCommitted | CkIndeterminate

datatype checkpoint_store_error =
    StBusy
  | StClosed
  | StCorrupt u64 string
  | StLimitExceeded string u64
  | StConflict u64 u64
  | StInvalid checkpoint_error
  | StStorage checkpoint_commit_certainty string

record 's checkpoint_store =
  cs_load :: "budget_identity \<Rightarrow> 's \<Rightarrow> (budget_checkpoint option, checkpoint_store_error) outcome \<times> 's"
  cs_compare_exchange :: "u64 \<Rightarrow> budget_checkpoint \<Rightarrow> 's \<Rightarrow> (checkpoint_commit, checkpoint_store_error) outcome \<times> 's"
  cs_compare_exchange_guarded :: "u64 \<Rightarrow> budget_checkpoint \<Rightarrow> 's \<Rightarrow> (checkpoint_commit, checkpoint_store_error) outcome \<times> 's"

text \<open>The default \<open>compare_exchange_guarded\<close> of the trait refuses.\<close>

definition default_guarded :: "u64 \<Rightarrow> budget_checkpoint \<Rightarrow> 's \<Rightarrow> (checkpoint_commit, checkpoint_store_error) outcome \<times> 's" where
  "default_guarded expected cp s =
     (Err (StInvalid (CpInvalid ''store does not support owned recovery commits'')), s)"

text \<open>Continue after an awaited operation, passing errors on.\<close>

fun await :: "('a, 'e) outcome \<times> 's \<Rightarrow> ('e \<Rightarrow> 'f) \<Rightarrow> ('a \<Rightarrow> 's \<Rightarrow> ('b, 'f) outcome \<times> 's) \<Rightarrow> ('b, 'f) outcome \<times> 's" where
  "await (Ok a, s) g k = k a s"
| "await (Err e, s) g k = (Err (g e), s)"
| "await (Panic, s) g k = (Panic, s)"

lemma await_eq_Ok [simp]: "await m g k = (Ok b, s) \<longleftrightarrow> (\<exists>a t. m = (Ok a, t) \<and> k a t = (Ok b, s))"
  by (cases m; cases "fst m") auto

section \<open>Log boundaries\<close>

datatype execution_error =
    ExCheckpoint checkpoint_error
  | ExStore checkpoint_store_error
  | ExCommit u64 budget_checkpoint checkpoint_store_error
  | ExBudget budget_error
  | ExMissing
  | ExRecoveryRequired
  | ExBoundary string
  | ExIncompleteTurn

definition cursor_of :: "'v session_event \<Rightarrow> budget_event_cursor" where
  "cursor_of event = \<lparr>cur_session_id = se_session_id event, cur_turn_id = se_turn_id event,
     cur_event_id = se_event_id event, cur_seq = se_seq event\<rparr>"

definition address_step ::
    "budget_identity \<Rightarrow> u64 \<Rightarrow> nat \<times> 'v session_event \<Rightarrow> event_id list \<Rightarrow> (event_id list, execution_error) outcome" where
  "address_step identity first = (\<lambda>(index, event) ids.
     if se_session_id event \<noteq> id_session_id identity \<or>
        checked_add first (of_nat index) \<noteq> Some (se_seq event) \<or>
        is_blank (se_event_id event) \<or> is_blank (se_turn_id event) \<or> se_event_id event \<in> set ids
     then Err (ExBoundary ''invalid physical event address'')
     else Ok (se_event_id event # ids))"

definition validate_addresses ::
    "'v session_event list \<Rightarrow> budget_identity \<Rightarrow> u64 \<Rightarrow> (unit, execution_error) outcome" where
  "validate_addresses events identity first =
     and_then (for_each (address_step identity first) (enumerate 0 events) []) (\<lambda>_. Ok ())"

definition is_terminal :: "'v session_event \<Rightarrow> bool" where
  "is_terminal event = (case se_kind event of Done _ _ \<Rightarrow> True | ErrorEvent _ _ _ \<Rightarrow> True | _ \<Rightarrow> False)"

definition is_report :: "'v session_event \<Rightarrow> bool" where
  "is_report event = (case se_kind event of TaskRunReportEvent _ \<Rightarrow> True | _ \<Rightarrow> False)"

text \<open>\<open>[.., report_event, terminal]\<close>: the last two of a list.\<close>

definition last_two :: "'a list \<Rightarrow> ('a \<times> 'a) option" where
  "last_two xs = (case rev xs of t # r # _ \<Rightarrow> Some (r, t) | _ \<Rightarrow> None)"

definition dispositions_agree :: "task_run_stop \<Rightarrow> 'v session_event_kind \<Rightarrow> bool" where
  "dispositions_agree stop kind =
     (case kind of
        Done DoneCompleted _ \<Rightarrow> stop = TsCompleted
      | Done DoneWaitingForInput _ \<Rightarrow> stop = TsWaitingForInput
      | Done DoneCheckpointed _ \<Rightarrow> stop = TsCheckpointed
      | Done DoneCancelled _ \<Rightarrow> stop = TsCallerCancelled \<or> stop = TsRuntimeStopping
      | ErrorEvent _ _ _ \<Rightarrow> (case stop of TsBudget _ \<Rightarrow> True | TsFailed \<Rightarrow> True | _ \<Rightarrow> False)
      | _ \<Rightarrow> False)"

definition validate_closed_tail ::
    "'v session_event list \<Rightarrow> budget_report \<Rightarrow> (unit, execution_error) outcome" where
  "validate_closed_tail events budget =
     (case last_two events of
        None \<Rightarrow> Err ExIncompleteTurn
      | Some (report_event, terminal) \<Rightarrow>
          (case se_kind report_event of
             TaskRunReportEvent report \<Rightarrow>
               (case br_run (tr_budget report) of
                  None \<Rightarrow> Err ExIncompleteTurn
                | Some run \<Rightarrow>
                    let rb = tr_budget report; confirmed = mt_confirmed (rr_metrics run) in
                    and_then (reject_if
                      (\<not> tr_capabilities_drained report \<or>
                       mt_unconfirmed (rr_metrics run) \<noteq> default_counts \<or>
                       ct_model_requests confirmed \<noteq> ct_model_results confirmed \<or>
                       ct_tool_calls confirmed \<noteq> ct_tool_results confirmed \<or>
                       \<not> is_terminal terminal \<or>
                       se_turn_id report_event \<noteq> se_turn_id terminal \<or>
                       rr_turn_id run \<noteq> Some (se_turn_id terminal) \<or>
                       rr_open run \<or> br_run budget \<noteq> None \<or>
                       br_pending budget \<noteq> [] \<or> br_pending rb \<noteq> [] \<or>
                       br_identity rb \<noteq> br_identity budget \<or>
                       br_limits rb \<noteq> br_limits budget \<or>
                       br_token_mode rb \<noteq> br_token_mode budget \<or>
                       br_charged rb \<noteq> br_charged budget \<or>
                       br_reserved rb \<noteq> br_reserved budget \<or>
                       br_usage rb \<noteq> br_usage budget \<or>
                       br_active_time rb \<noteq> br_active_time budget \<or>
                       br_cleanup_time rb > br_cleanup_time budget \<or>
                       br_stop rb \<noteq> br_stop budget)
                      (ExBoundary ''budget report does not confirm checkpoint'')) (\<lambda>_.
                    reject_if (\<not> dispositions_agree (tr_stop report) (se_kind terminal))
                      (ExBoundary ''report and terminal dispositions disagree'')))
           | _ \<Rightarrow> Err ExIncompleteTurn))"

definition verify_checkpoint_history ::
    "budget_checkpoint \<Rightarrow> 'v session_event list \<Rightarrow> (unit, execution_error) outcome" where
  "verify_checkpoint_history cp history =
     and_then (map_err ExCheckpoint (validate cp)) (\<lambda>_.
     and_then (validate_addresses history (br_identity (cp_report cp)) 0) (\<lambda>_.
     and_then (map_err ExCheckpoint (boundary_report cp)) (\<lambda>report.
     (case (cp_anchor cp, if history = [] then None else Some (last history)) of
        (None, None) \<Rightarrow>
          reject_if (br_charged report \<noteq> default_amounts \<or> br_reserved report \<noteq> default_amounts \<or>
              br_active_time report \<noteq> 0 \<or> br_cleanup_time report \<noteq> 0 \<or>
              br_usage report \<noteq> default_usage_report)
            (ExBoundary ''nonempty budget without a log anchor'')
      | (Some anchor, Some event) \<Rightarrow>
          if anchor = cursor_of event then validate_closed_tail history report
          else Err (ExBoundary ''checkpoint is not at the confirmed log tail'')
      | _ \<Rightarrow> Err (ExBoundary ''checkpoint is not at the confirmed log tail'')))))"

section \<open>Leases\<close>

record execution_lease =
  le_task :: task_budget
  le_base :: budget_checkpoint
  le_claim :: budget_checkpoint

definition acquire ::
    "'s checkpoint_store \<Rightarrow> budget_restore_context \<Rightarrow> duration \<Rightarrow> duration \<Rightarrow> budget_execution_id \<Rightarrow> 's
       \<Rightarrow> (execution_lease, execution_error) outcome \<times> 's" where
  "acquire store context now now' new_id s =
     await (cs_load store (cx_identity context) s) ExStore (\<lambda>loaded s.
       (case loaded of
          None \<Rightarrow> (Err ExMissing, s)
        | Some base \<Rightarrow>
            await (map_err ExCheckpoint (validate base), s) id (\<lambda>_ s.
            if \<not> is_quiescent base then (Err ExRecoveryRequired, s)
            else
            await (map_err ExCheckpoint (restore_checkpoint base context now), s) id (\<lambda>task s.
            let (report, task) = locked (report_op task now') task in
            await (map_err ExBudget report, s) id (\<lambda>report s.
            (case br_stop report of
               Some reason \<Rightarrow> (Err (ExBudget (Stopped reason)), s)
             | None \<Rightarrow>
                 await (map_err ExCheckpoint (execution_claim new_id base), s) id (\<lambda>claim s.
                 await (cs_compare_exchange store (cp_revision base) claim s)
                   (ExCommit (cp_revision base) claim) (\<lambda>_ s.
                 (Ok \<lparr>le_task = task\<lparr>tb_state := (tb_state task)
                        \<lparr>st_checkpoint_revision := cp_revision claim\<rparr>\<rparr>,
                      le_base = base, le_claim = claim\<rparr>, s)))))))))"

definition verify_history :: "execution_lease \<Rightarrow> 'v session_event list \<Rightarrow> (unit, execution_error) outcome" where
  "verify_history lease history = verify_checkpoint_history (le_base lease) history"

text \<open>\<open>Drop for BudgetExecutionLease\<close>: seal the ledger, ignoring the image.\<close>

definition drop_lease :: "execution_lease \<Rightarrow> duration \<Rightarrow> task_budget" where
  "drop_lease lease now = snd (seal_checkpoint (le_task lease) now (cp_anchor (le_base lease)))"

text \<open>The checks of a closed turn before the ledger is sealed; the result is the last event.\<close>

definition closed_turn :: "execution_lease \<Rightarrow> 'v session_event list \<Rightarrow> ('v session_event, execution_error) outcome" where
  "closed_turn lease events =
     and_then (case cp_anchor (le_base lease) of
         Some anchor \<Rightarrow> ok_or (checked_add (cur_seq anchor) 1) (ExBoundary ''sequence exhausted'')
       | None \<Rightarrow> Ok 0) (\<lambda>first_seq.
     and_then (validate_addresses events (br_identity (cp_report (le_base lease))) first_seq) (\<lambda>_.
     if events = [] then Err ExIncompleteTurn
     else
       let final = last events in
       and_then (reject_if
           (list_ex (\<lambda>e. se_turn_id e \<noteq> se_turn_id final) events \<or>
            length (filter is_terminal events) \<noteq> 1 \<or> length (filter is_report events) \<noteq> 1)
           (ExBoundary ''turn boundary or report cardinality differs'')) (\<lambda>_. Ok final)))"

definition commit_sealed ::
    "'s checkpoint_store \<Rightarrow> execution_lease \<Rightarrow> duration \<Rightarrow> 'v session_event list \<Rightarrow> 's
       \<Rightarrow> ((budget_checkpoint, execution_error) outcome \<times> 's) \<times> task_budget" where
  "commit_sealed store lease now events s =
     (case closed_turn lease events of
        Err e \<Rightarrow> ((Err e, s), le_task lease)
      | Panic \<Rightarrow> ((Panic, s), le_task lease)
      | Ok final \<Rightarrow>
          let (sealed, task) = seal_checkpoint (le_task lease) now (Some (cursor_of final)) in
          (await (map_err ExCheckpoint sealed, s) id (\<lambda>cp s.
             if \<not> is_quiescent cp then (Err ExRecoveryRequired, s)
             else
               await (validate_closed_tail events (cp_report cp), s) id (\<lambda>_ s.
               await (cs_compare_exchange store (cp_revision (le_claim lease)) cp s)
                 (ExCommit (cp_revision (le_claim lease)) cp) (\<lambda>_ s. (Ok cp, s)))),
           task))"

text \<open>\<open>commit_closed\<close> consumes the lease, so its drop follows at a second reading.\<close>

definition commit_closed ::
    "'s checkpoint_store \<Rightarrow> execution_lease \<Rightarrow> duration \<Rightarrow> duration \<Rightarrow> 'v session_event list \<Rightarrow> 's
       \<Rightarrow> ((budget_checkpoint, execution_error) outcome \<times> 's) \<times> task_budget" where
  "commit_closed store lease now now' events s =
     (let (result, task) = commit_sealed store lease now events s in
      (result, drop_lease (lease\<lparr>le_task := task\<rparr>) now'))"

section \<open>Grants\<close>

datatype grant_error =
    GeCheckpoint checkpoint_error
  | GeBoundary execution_error
  | GeStore checkpoint_store_error
  | GeMissing
  | GeRecoveryRequired
  | GeInvalid string
  | GeOperationConflict
  | GeAuditFull
  | GeCommit u64 budget_checkpoint checkpoint_store_error

datatype grant_outcome =
    GrantApplied budget_checkpoint checkpoint_commit
  | GrantAlreadyApplied budget_grant_record

text \<open>The checks and the candidate of a new grant on the loaded image.\<close>

definition grant_candidate ::
    "budget_restore_context \<Rightarrow> 'v session_event list \<Rightarrow> budget_grant_request \<Rightarrow> budget_checkpoint
       \<Rightarrow> (budget_checkpoint, grant_error) outcome" where
  "grant_candidate context history request base =
     and_then (reject_if (cp_revision base \<noteq> cx_revision context)
         (GeCheckpoint (CpRevisionMismatch (cx_revision context) (cp_revision base)))) (\<lambda>_.
     and_then (reject_if (cp_anchor base \<noteq> cx_confirmed_anchor context) (GeCheckpoint CpAnchorMismatch)) (\<lambda>_.
     and_then (reject_if (\<not> is_quiescent base) GeRecoveryRequired) (\<lambda>_.
     and_then (map_err GeBoundary (verify_checkpoint_history base history)) (\<lambda>_.
     and_then (reject_if (length (cp_grants base) = MAX_BUDGET_GRANTS) GeAuditFull) (\<lambda>_.
     and_then (map_err GeInvalid (validate_increase (br_limits (cp_report base)) (gq_new_limits request)
         (br_stop (cp_report base)))) (\<lambda>_.
     and_then (reject_if (tightened_by (gq_new_limits request) (cx_host_limits context) \<noteq> gq_new_limits request)
         (GeInvalid ''new limits exceed the host ceiling'')) (\<lambda>_.
     and_then (reject_if
         (br_active_time (cp_report base) \<ge> lim_active_time (gq_new_limits request) \<or>
          list_ex (\<lambda>r. amount (br_charged (cp_report base)) r > limit (gq_new_limits request) r) all_resources)
         (GeInvalid ''new limits do not cover retained consumption/time'')) (\<lambda>_.
     and_then (ok_or (checked_add (cp_revision base) 1) (GeCheckpoint CpRevisionExhausted)) (\<lambda>revision.
     let cp = granted base revision
                \<lparr>gr_request = request, gr_source_revision = cp_revision base,
                 gr_confirmed_anchor = cp_anchor base, gr_old_limits = br_limits (cp_report base),
                 gr_old_stop = br_stop (cp_report base)\<rparr> in
     and_then (map_err GeCheckpoint (validate_transition cp (Some base))) (\<lambda>_. Ok cp))))))))))"

definition grant_budget ::
    "'s checkpoint_store \<Rightarrow> budget_restore_context \<Rightarrow> 'v session_event list \<Rightarrow> budget_grant_request \<Rightarrow> 's
       \<Rightarrow> (grant_outcome, grant_error) outcome \<times> 's" where
  "grant_budget store context history request s =
     await (cs_load store (cx_identity context) s) GeStore (\<lambda>loaded s.
       (case loaded of
          None \<Rightarrow> (Err GeMissing, s)
        | Some base \<Rightarrow>
            await (map_err GeCheckpoint (validate base), s) id (\<lambda>_ s.
            if br_identity (cp_report base) \<noteq> cx_identity context
            then (Err (GeCheckpoint CpIdentityMismatch), s)
            else
            await (map_err GeInvalid (validate_grant_request_text request), s) id (\<lambda>_ s.
            (case find (\<lambda>gr. gq_operation_id (gr_request gr) = gq_operation_id request) (cp_grants base) of
               Some gr \<Rightarrow>
                 if gr_request gr \<noteq> request \<or> gr_source_revision gr \<noteq> cx_revision context \<or>
                    gr_confirmed_anchor gr \<noteq> cx_confirmed_anchor context
                 then (Err GeOperationConflict, s)
                 else (Ok (GrantAlreadyApplied gr), s)
             | None \<Rightarrow>
                 await (grant_candidate context history request base, s) id (\<lambda>cp s.
                 await (cs_compare_exchange store (cp_revision base) cp s) (GeCommit (cp_revision base) cp) (\<lambda>commit s.
                 (Ok (GrantApplied cp commit), s))))))))"

section \<open>Recovery\<close>

record 'v recovery_ownership =
  ow_session_id :: session_id
  ow_ownership_id :: string
  ow_history :: "('v session_event list, session_persistence_error) outcome"

datatype recovery_error =
    ReCheckpoint checkpoint_error
  | ReStore checkpoint_store_error
  | ReHistory session_persistence_error
  | ReBoundary execution_error
  | ReRefused string
  | ReCommit budget_checkpoint checkpoint_store_error

datatype recovery_outcome =
    RecoveryApplied budget_checkpoint
  | RecoveryAlreadyApplied budget_recovery_record
  | OriginalCommitted budget_checkpoint

definition recovered ::
    "'v recovery_ownership \<Rightarrow> budget_recovery_request \<Rightarrow> budget_checkpoint \<Rightarrow> budget_checkpoint" where
  "recovered ownership request candidate = candidate\<lparr>cp_version := V4,
     cp_recoveries := cp_recoveries candidate @
       [\<lparr>rc_request = request, rc_ownership_id = ow_ownership_id ownership,
         rc_confirmed_anchor = cp_anchor candidate, rc_candidate_report = cp_report candidate,
         rc_candidate_next_id = cp_next_id candidate\<rparr>]\<rparr>"

definition same_recovery :: "budget_recovery_request \<Rightarrow> budget_checkpoint \<Rightarrow> budget_checkpoint \<Rightarrow> nat \<Rightarrow> budget_recovery_record \<Rightarrow> bool" where
  "same_recovery request candidate current index rc \<longleftrightarrow>
     rc_request rc = request \<and> rc_candidate_report rc = cp_report candidate \<and>
     rc_candidate_next_id rc = cp_next_id candidate \<and> rc_confirmed_anchor rc = cp_anchor candidate \<and>
     cp_recoveries candidate = take index (cp_recoveries current) \<and>
     takeWhile (\<lambda>gr. gr_source_revision gr < cp_revision candidate) (cp_grants current) = cp_grants candidate"

definition recover_loaded ::
    "'s checkpoint_store \<Rightarrow> 'v recovery_ownership \<Rightarrow> budget_recovery_request \<Rightarrow> budget_checkpoint
       \<Rightarrow> budget_checkpoint \<Rightarrow> 's \<Rightarrow> (recovery_outcome, recovery_error) outcome \<times> 's" where
  "recover_loaded store ownership request candidate current s =
     (case find (\<lambda>(_, rc). rq_operation_id (rc_request rc) = rq_operation_id request)
             (enumerate 0 (cp_recoveries current)) of
        Some (index, rc) \<Rightarrow>
          if \<not> same_recovery request candidate current index rc
          then (Err (ReRefused ''operation ID reused with different evidence''), s)
          else (Ok (RecoveryAlreadyApplied rc), s)
      | None \<Rightarrow>
          await (map_err ReHistory (ow_history ownership), s) id (\<lambda>history s.
          await (map_err ReBoundary (verify_checkpoint_history candidate history), s) id (\<lambda>_ s.
          if current = candidate then (Ok (OriginalCommitted current), s)
          else if cp_revision current \<noteq> rq_source_revision request \<or>
                  cp_execution_id current \<noteq> Some (rq_execution_id request)
          then (Err (ReRefused ''execution claim changed''), s)
          else if length (cp_recoveries current) \<ge> MAX_BUDGET_RECOVERIES
          then (Err (ReRefused ''recovery audit full''), s)
          else
            let cp = recovered ownership request candidate in
            await (map_err ReCheckpoint (validate_transition cp (Some current)), s) id (\<lambda>_ s.
            await (cs_compare_exchange_guarded store (cp_revision current) cp s) (ReCommit cp) (\<lambda>_ s.
            (Ok (RecoveryApplied cp), s))))))"

definition recover_budget_candidate ::
    "'s checkpoint_store \<Rightarrow> 'v recovery_ownership \<Rightarrow> budget_recovery_request \<Rightarrow> budget_checkpoint \<Rightarrow> 's
       \<Rightarrow> (recovery_outcome, recovery_error) outcome \<times> 's" where
  "recover_budget_candidate store ownership request candidate s =
     await (map_err ReRefused (validate_recovery_request request), s) id (\<lambda>_ s.
     await (map_err ReCheckpoint (validate candidate), s) id (\<lambda>_ s.
     if ow_session_id ownership \<noteq> id_session_id (br_identity (cp_report candidate)) \<or>
        is_blank (ow_ownership_id ownership) \<or>
        length (ow_ownership_id ownership) > MAX_BUDGET_AUDIT_TEXT_BYTES
     then (Err (ReRefused ''ownership identity differs''), s)
     else if \<not> is_quiescent candidate \<or>
             checked_add (rq_source_revision request) 1 \<noteq> Some (cp_revision candidate)
     then (Err (ReRefused ''candidate is not the exact ready successor''), s)
     else
       await (cs_load store (br_identity (cp_report candidate)) s) ReStore (\<lambda>loaded s.
       (case loaded of
          None \<Rightarrow> (Err (ReRefused ''checkpoint missing''), s)
        | Some current \<Rightarrow>
            await (map_err ReCheckpoint (validate current), s) id (\<lambda>_ s.
              recover_loaded store ownership request candidate current s)))))"

datatype recovery_assessment =
    Ready
  | FrozenNoNewEvents
  | FrozenUnconfirmedWork
  | FrozenClosedTailNeedsCandidate

definition inspect_budget_recovery ::
    "budget_checkpoint \<Rightarrow> 'v recovery_ownership \<Rightarrow> (recovery_assessment, recovery_error) outcome" where
  "inspect_budget_recovery cp ownership =
     and_then (map_err ReCheckpoint (validate cp)) (\<lambda>_.
     and_then (reject_if (ow_session_id ownership \<noteq> id_session_id (br_identity (cp_report cp)))
         (ReRefused ''ownership identity differs'')) (\<lambda>_.
     and_then (map_err ReHistory (ow_history ownership)) (\<lambda>history.
     and_then (map_err (\<lambda>_. ReRefused ''invalid physical history'')
         (validate_physical_log (ow_session_id ownership) history)) (\<lambda>_.
     if is_quiescent cp
     then and_then (map_err ReBoundary (verify_checkpoint_history cp history)) (\<lambda>_. Ok Ready)
     else if (if history = [] then None else Some (cursor_of (last history))) = cp_anchor cp
     then Ok FrozenNoNewEvents
     else (case last_two history of
             Some (report_event, terminal) \<Rightarrow>
               if is_report report_event \<and> is_terminal terminal then Ok FrozenClosedTailNeedsCandidate
               else Ok FrozenUnconfirmedWork
           | None \<Rightarrow> Ok FrozenUnconfirmedWork)))))"

end
