(* ===== verification/FileStore.thy ===== *)
theory FileStore
  imports Execution
begin

text \<open>
  Checkpoint storage in a local file, \<open>crates/budget/file/src/lib.rs\<close>. The file is its bytes.
  Each operation meets the outcomes of the operating system and of the runtime in an
  \<open>io_plan\<close>, the head of the state's list of plans (a plan without faults when the list has
  run out), so a theorem over all states covers every fault. \<open>serde_json\<close> and the texts of
  errors are the record \<open>record_codec\<close>, a parameter.
\<close>

section \<open>Configuration and environment\<close>

record file_config =
  fc_max_record_bytes :: nat
  fc_max_log_bytes :: nat
  fc_max_io_jobs :: nat

definition default_file_config :: file_config where
  "default_file_config = \<lparr>fc_max_record_bytes = 8 * 1024 * 1024, fc_max_log_bytes = 64 * 1024 * 1024,
     fc_max_io_jobs = 4\<rparr>"

record file_status =
  fz_accepting :: bool
  fz_in_flight :: nat
  fz_max_io_jobs :: nat

record log_record =
  lr_version :: u16
  lr_expected_revision :: u64
  lr_checkpoint :: budget_checkpoint

record record_codec =
  cd_encode :: "log_record \<Rightarrow> string"
  cd_decode :: "string \<Rightarrow> (log_record, string) outcome"
  cd_display :: "checkpoint_error \<Rightarrow> string"

datatype lock_outcome = Locked | WouldBlock | LockError string

text \<open>
  A plan: an error of each system call, how many bytes a failing write leaves in the file, and
  whether the worker is lost (\<open>JoinError\<close>) before or after it ran.
\<close>

datatype worker = Joined | LostBefore string | LostAfter string

record io_plan =
  io_runtime :: "string option"
  io_worker :: worker
  io_open :: "string option"
  io_file_type :: "string option"
  io_is_file :: bool
  io_lock :: lock_outcome
  io_metadata :: "string option"
  io_read :: "string option"
  io_seek :: "string option"
  io_write :: "(nat \<times> string) option"
  io_sync :: "string option"

definition fault_free :: io_plan where
  "fault_free = \<lparr>io_runtime = None, io_worker = Joined, io_open = None, io_file_type = None, io_is_file = True,
     io_lock = Locked, io_metadata = None, io_read = None, io_seek = None, io_write = None, io_sync = None\<rparr>"

record file_state =
  fs_bytes :: string
  fs_accepting :: bool
  fs_in_flight :: nat
  fs_plans :: "io_plan list"

type_synonym 'a store_result = "('a, checkpoint_store_error) outcome"

section \<open>Errors\<close>

definition exceeded :: "string \<Rightarrow> nat \<Rightarrow> checkpoint_store_error" where
  "exceeded resource max_bytes = StLimitExceeded resource (of_nat max_bytes)"

definition corrupt :: "u64 \<Rightarrow> string \<Rightarrow> checkpoint_store_error" where
  "corrupt line message = StCorrupt line message"

definition not_committed :: "string \<Rightarrow> checkpoint_store_error" where
  "not_committed message = StStorage CkDefinitelyNotCommitted message"

definition indeterminate :: "string \<Rightarrow> checkpoint_store_error" where
  "indeterminate message = StStorage CkIndeterminate message"

text \<open>A call that may fail.\<close>

definition try_io :: "(string \<Rightarrow> checkpoint_store_error) \<Rightarrow> string option \<Rightarrow> unit store_result" where
  "try_io error e = (case e of None \<Rightarrow> Ok () | Some message \<Rightarrow> Err (error message))"

lemma try_io_eq_Ok [simp]: "try_io error e = Ok u \<longleftrightarrow> e = None"
  by (simp add: try_io_def split: option.splits)

lemma try_io_None [simp]: "try_io error None = Ok ()"
  by (simp add: try_io_def)

section \<open>Reading the log\<close>

definition newline :: char where
  "newline = CHR 0x0A"

text \<open>\<open>split_inclusive\<close> at newlines.\<close>

fun split_lines :: "string \<Rightarrow> string list" where
  "split_lines [] = []"
| "split_lines (c # cs) =
     (if c = newline then [c] # split_lines cs
      else (case split_lines cs of [] \<Rightarrow> [[c]] | line # ls \<Rightarrow> (c # line) # ls))"

definition terminated :: "string \<Rightarrow> bool" where
  "terminated line \<longleftrightarrow> line \<noteq> [] \<and> last line = newline"

text \<open>What a terminated line does to the latest image.\<close>

definition replay_line ::
    "record_codec \<Rightarrow> nat \<times> string \<Rightarrow> budget_checkpoint option \<Rightarrow> budget_checkpoint option store_result" where
  "replay_line codec = (\<lambda>(index, line) latest.
     let number = of_nat index + 1 in
     and_then (map_err (corrupt number) (cd_decode codec line)) (\<lambda>entry.
     and_then (if lr_version entry \<noteq> 1
               then Err (corrupt number ''unsupported checkpoint log version'') else Ok ()) (\<lambda>_.
     and_then (map_err (\<lambda>e. corrupt number (cd_display codec e))
         (validate_successor (lr_checkpoint entry) (lr_expected_revision entry))) (\<lambda>_.
     and_then (if lr_expected_revision entry \<noteq> (case latest of None \<Rightarrow> 0 | Some cp \<Rightarrow> cp_revision cp)
               then Err (corrupt number ''non-contiguous revision chain'') else Ok ()) (\<lambda>_.
     and_then (case latest of
         Some previous \<Rightarrow>
           if br_identity (cp_report previous) \<noteq> br_identity (cp_report (lr_checkpoint entry))
           then Err (corrupt number ''task binding changed inside log'') else Ok ()
       | None \<Rightarrow> Ok ()) (\<lambda>_.
     and_then (map_err (\<lambda>e. corrupt number (cd_display codec e))
         (validate_transition (lr_checkpoint entry) latest)) (\<lambda>_.
     Ok (Some (lr_checkpoint entry)))))))))"

definition read_line ::
    "file_config \<Rightarrow> record_codec \<Rightarrow> nat \<times> string \<Rightarrow> budget_checkpoint option \<Rightarrow> budget_checkpoint option store_result" where
  "read_line config codec = (\<lambda>(index, line) latest.
     if length line > fc_max_record_bytes config
     then Err (exceeded ''record bytes'' (fc_max_record_bytes config))
     else if \<not> terminated line
     then Err (corrupt (of_nat index + 1) ''unterminated record; reconciliation required'')
     else replay_line codec (index, line) latest)"

definition read_latest ::
    "file_config \<Rightarrow> record_codec \<Rightarrow> io_plan \<Rightarrow> budget_identity \<Rightarrow> string
       \<Rightarrow> (budget_checkpoint option \<times> nat) store_result" where
  "read_latest config codec io identity file =
     and_then (try_io not_committed (io_metadata io)) (\<lambda>_.
     if length file > fc_max_log_bytes config then Err (exceeded ''log bytes'' (fc_max_log_bytes config))
     else
       and_then (try_io not_committed (io_read io)) (\<lambda>_.
       let bytes = take (fc_max_log_bytes config + 1) file in
       if length bytes > fc_max_log_bytes config then Err (exceeded ''log bytes'' (fc_max_log_bytes config))
       else
         and_then (for_each (read_line config codec) (enumerate 0 (split_lines bytes)) None) (\<lambda>latest.
         if (case latest of Some cp \<Rightarrow> br_identity (cp_report cp) \<noteq> identity | None \<Rightarrow> False)
         then Err (StInvalid CpIdentityMismatch)
         else Ok (latest, length bytes))))"

definition locked_file :: "io_plan \<Rightarrow> unit store_result" where
  "locked_file io =
     and_then (try_io not_committed (io_open io)) (\<lambda>_.
     and_then (try_io not_committed (io_file_type io)) (\<lambda>_.
     and_then (if \<not> io_is_file io then Err (not_committed ''checkpoint path is not a regular file'') else Ok ()) (\<lambda>_.
     (case io_lock io of
        Locked \<Rightarrow> Ok ()
      | WouldBlock \<Rightarrow> Err StBusy
      | LockError message \<Rightarrow> Err (not_committed message)))))"

section \<open>Jobs\<close>

definition open_store :: "file_config \<Rightarrow> io_plan \<Rightarrow> string \<Rightarrow> io_plan list \<Rightarrow> file_state store_result" where
  "open_store config io file plans =
     and_then (if fc_max_record_bytes config = 0 \<or> fc_max_log_bytes config < fc_max_record_bytes config \<or>
                  fc_max_log_bytes config = 2 ^ 64 - 1 \<or> fc_max_io_jobs config = 0
               then Err (not_committed ''invalid file checkpoint limits'') else Ok ()) (\<lambda>_.
     and_then (try_io not_committed (io_open io)) (\<lambda>_.
     and_then (try_io not_committed (io_file_type io)) (\<lambda>_.
     if \<not> io_is_file io then Err (not_committed ''checkpoint path is not a regular file'')
     else Ok \<lparr>fs_bytes = file, fs_accepting = True, fs_in_flight = 0, fs_plans = plans\<rparr>)))"

definition admit :: "file_config \<Rightarrow> file_state \<Rightarrow> unit store_result \<times> file_state" where
  "admit config s =
     (if \<not> fs_accepting s then (Err StClosed, s)
      else if fs_in_flight s \<ge> fc_max_io_jobs config then (Err StBusy, s)
      else (Ok (), s\<lparr>fs_in_flight := fs_in_flight s + 1\<rparr>))"

text \<open>\<open>Drop for Permit\<close>; the flag is the wake-up of \<open>close\<close>.\<close>

definition release_permit :: "file_state \<Rightarrow> file_state \<times> bool" where
  "release_permit s =
     (let s = s\<lparr>fs_in_flight := fs_in_flight s - 1\<rparr> in (s, fs_in_flight s = 0))"

definition file_status_op :: "file_config \<Rightarrow> file_state \<Rightarrow> file_status" where
  "file_status_op config s = \<lparr>fz_accepting = fs_accepting s, fz_in_flight = fs_in_flight s,
     fz_max_io_jobs = fc_max_io_jobs config\<rparr>"

text \<open>The first poll of \<open>close\<close> stops admission; every poll is ready when nothing is in flight.\<close>

definition close_begin :: "file_state \<Rightarrow> file_state" where
  "close_begin s = s\<lparr>fs_accepting := False\<rparr>"

definition close_ready :: "file_state \<Rightarrow> bool" where
  "close_ready s \<longleftrightarrow> fs_in_flight s = 0"

definition next_plan :: "file_state \<Rightarrow> io_plan \<times> file_state" where
  "next_plan s =
     (case fs_plans s of [] \<Rightarrow> (fault_free, s) | io # plans \<Rightarrow> (io, s\<lparr>fs_plans := plans\<rparr>))"

text \<open>
  A job runs on a worker with the permit. A worker that is lost or panics is a \<open>JoinError\<close>.
\<close>

definition run_job ::
    "file_config \<Rightarrow> (io_plan \<Rightarrow> string \<Rightarrow> 'a store_result \<times> string) \<Rightarrow> file_state \<Rightarrow> 'a store_result \<times> file_state" where
  "run_job config work s =
     (let (io, s) = next_plan s in
      (case io_runtime io of
         Some message \<Rightarrow> (Err (not_committed message), s)
       | None \<Rightarrow>
           (case admit config s of
              (Err e, s) \<Rightarrow> (Err e, s)
            | (Panic, s) \<Rightarrow> (Panic, s)
            | (Ok _, s) \<Rightarrow>
                (case io_worker io of
                   LostBefore message \<Rightarrow> (Err (indeterminate message), fst (release_permit s))
                 | worker \<Rightarrow>
                     let (r, bytes) = work io (fs_bytes s);
                         s = fst (release_permit (s\<lparr>fs_bytes := bytes\<rparr>)) in
                     (case (worker, r) of
                        (LostAfter message, _) \<Rightarrow> (Err (indeterminate message), s)
                      | (_, Panic) \<Rightarrow> (Err (indeterminate ''task panicked''), s)
                      | _ \<Rightarrow> (r, s))))))"

section \<open>The operations of the trait\<close>

definition load_work ::
    "file_config \<Rightarrow> record_codec \<Rightarrow> budget_identity \<Rightarrow> io_plan \<Rightarrow> string
       \<Rightarrow> budget_checkpoint option store_result \<times> string" where
  "load_work config codec identity io file =
     (and_then (locked_file io) (\<lambda>_.
      and_then (read_latest config codec io identity file) (\<lambda>(latest, _).
      and_then (try_io indeterminate (io_sync io)) (\<lambda>_. Ok latest))), file)"

definition file_load ::
    "file_config \<Rightarrow> record_codec \<Rightarrow> budget_identity \<Rightarrow> file_state \<Rightarrow> budget_checkpoint option store_result \<times> file_state" where
  "file_load config codec identity = run_job config (load_work config codec identity)"

text \<open>\<open>BoundedBytes::write\<close>.\<close>

definition bounded_write :: "nat \<Rightarrow> string \<Rightarrow> string \<Rightarrow> string option" where
  "bounded_write max_bytes bytes added =
     (if length bytes + length added > max_bytes then None else Some (bytes @ added))"

text \<open>
  Encode the record. \<open>to_writer\<close> writes the encoding in pieces; one of them fails exactly when
  the whole does not fit.
\<close>

definition encode_record ::
    "file_config \<Rightarrow> record_codec \<Rightarrow> u64 \<Rightarrow> budget_checkpoint \<Rightarrow> string store_result" where
  "encode_record config codec expected cp =
     (let max_bytes = fc_max_record_bytes config in
      and_then (ok_or (bounded_write max_bytes [] (cd_encode codec
          \<lparr>lr_version = 1, lr_expected_revision = expected, lr_checkpoint = cp\<rparr>)) (exceeded ''record bytes'' max_bytes)) (\<lambda>bytes.
      ok_or (bounded_write max_bytes bytes [newline]) (exceeded ''record bytes'' max_bytes)))"

text \<open>\<open>write_all\<close> at the end of the file: the result and the bytes the file then has.\<close>

definition append_bytes :: "io_plan \<Rightarrow> string \<Rightarrow> string \<Rightarrow> unit store_result \<times> string" where
  "append_bytes io bytes file =
     (case io_write io of
        None \<Rightarrow> (Ok (), file @ bytes)
      | Some (n, message) \<Rightarrow> (Err (indeterminate message), file @ take n bytes))"

definition exchange_checks ::
    "file_config \<Rightarrow> record_codec \<Rightarrow> u64 \<Rightarrow> budget_checkpoint \<Rightarrow> io_plan \<Rightarrow> string \<Rightarrow> string option store_result" where
  "exchange_checks config codec expected cp io file =
     and_then (map_err StInvalid (validate_successor cp expected)) (\<lambda>_.
     and_then (locked_file io) (\<lambda>_.
     and_then (read_latest config codec io (br_identity (cp_report cp)) file) (\<lambda>(latest, log_bytes).
     if latest = Some cp
     then and_then (try_io indeterminate (io_sync io)) (\<lambda>_. Ok None)
     else
       let actual = (case latest of None \<Rightarrow> 0 | Some old \<Rightarrow> cp_revision old) in
       and_then (if actual \<noteq> expected then Err (StConflict expected actual) else Ok ()) (\<lambda>_.
       and_then (map_err StInvalid (validate_transition cp latest)) (\<lambda>_.
       and_then (encode_record config codec expected cp) (\<lambda>bytes.
       and_then (if log_bytes + length bytes > fc_max_log_bytes config
                 then Err (exceeded ''log bytes'' (fc_max_log_bytes config)) else Ok ()) (\<lambda>_.
       and_then (try_io not_committed (io_seek io)) (\<lambda>_. Ok (Some bytes)))))))))"

definition exchange_work ::
    "file_config \<Rightarrow> record_codec \<Rightarrow> u64 \<Rightarrow> budget_checkpoint \<Rightarrow> io_plan \<Rightarrow> string
       \<Rightarrow> checkpoint_commit store_result \<times> string" where
  "exchange_work config codec expected cp io file =
     (case exchange_checks config codec expected cp io file of
        Err e \<Rightarrow> (Err e, file)
      | Panic \<Rightarrow> (Panic, file)
      | Ok None \<Rightarrow> (Ok CommitReplayed, file)
      | Ok (Some bytes) \<Rightarrow>
          let (r, file) = append_bytes io bytes file in
          (and_then r (\<lambda>_. and_then (try_io indeterminate (io_sync io)) (\<lambda>_. Ok Committed)), file))"

definition file_compare_exchange_guarded ::
    "file_config \<Rightarrow> record_codec \<Rightarrow> u64 \<Rightarrow> budget_checkpoint \<Rightarrow> file_state \<Rightarrow> checkpoint_commit store_result \<times> file_state" where
  "file_compare_exchange_guarded config codec expected cp = run_job config (exchange_work config codec expected cp)"

definition file_compare_exchange ::
    "file_config \<Rightarrow> record_codec \<Rightarrow> u64 \<Rightarrow> budget_checkpoint \<Rightarrow> file_state \<Rightarrow> checkpoint_commit store_result \<times> file_state" where
  "file_compare_exchange = file_compare_exchange_guarded"

definition file_store :: "file_config \<Rightarrow> record_codec \<Rightarrow> file_state checkpoint_store" where
  "file_store config codec = \<lparr>cs_load = file_load config codec,
     cs_compare_exchange = file_compare_exchange config codec,
     cs_compare_exchange_guarded = file_compare_exchange_guarded config codec\<rparr>"

end
