(* ===== verification/LedgerInv.thy ===== *)
theory LedgerInv
  imports Ledger
begin

text \<open>
  The ledger invariant: reservations and charges agree with the pending entries, usage
  evidence is covered by charges, runs stay within the task, limits hold unless a stop is
  recorded, and numbers are allocated from a watermark. Every operation keeps it.
\<close>

section \<open>The invariant\<close>

definition pend_sum :: "ledger_state \<Rightarrow> budget_resource \<Rightarrow> nat" where
  "pend_sum st r =
     sum_list (map (\<lambda>p. unat (amount (req_amounts (pd_request p)) r)) (bt_values (st_pending st)))"

definition totals_inv :: "ledger_state \<Rightarrow> bool" where
  "totals_inv st \<longleftrightarrow>
     (\<forall>r. if is_attempt r
          then amount (st_reserved st) r = 0 \<and> pend_sum st r \<le> unat (amount (st_charged st) r)
          else unat (amount (st_reserved st) r) = pend_sum st r)"

definition usage_inv :: "ledger_state \<Rightarrow> bool" where
  "usage_inv st \<longleftrightarrow>
     (\<forall>r. \<not> is_attempt r \<longrightarrow>
        unat (tot_actual (usage_get (st_usage st) r)) + unat (tot_estimated (usage_get (st_usage st) r))
          \<le> unat (amount (st_charged st) r))"

definition run_inv :: "budget_limits \<Rightarrow> ledger_state \<Rightarrow> bool" where
  "run_inv limits st \<longleftrightarrow>
     (case st_run st of
        None \<Rightarrow> st_pending st = []
      | Some run \<Rightarrow>
          rr_reserved (rs_report run) = st_reserved st \<and>
          (\<forall>r. amount (rr_charged (rs_report run)) r \<le> amount (st_charged st) r) \<and>
          (\<forall>r. is_attempt r \<longrightarrow> pend_sum st r \<le> unat (amount (rr_charged (rs_report run)) r)) \<and>
          limits_le (rr_limits (rs_report run)) limits \<and>
          rr_active_time (rs_report run) \<le> st_active_time st \<and>
          rr_cleanup_time (rs_report run) \<le> st_cleanup_time st)"

definition within :: "budget_amounts \<Rightarrow> budget_amounts \<Rightarrow> budget_limits \<Rightarrow> bool" where
  "within charged reserved limits \<longleftrightarrow>
     (\<forall>r. unat (amount charged r) + unat (amount reserved r) \<le> unat (limit limits r))"

definition limit_inv :: "budget_limits \<Rightarrow> ledger_state \<Rightarrow> bool" where
  "limit_inv limits st \<longleftrightarrow>
     (st_stop st = None \<longrightarrow>
        within (st_charged st) (st_reserved st) limits \<and> st_active_time st \<le> lim_active_time limits) \<and>
     (\<forall>run. st_stop st = None \<and> st_run st = Some run \<and> rr_stop (rs_report run) = None \<longrightarrow>
        within (rr_charged (rs_report run)) (rr_reserved (rs_report run)) (rr_limits (rs_report run)) \<and>
        rr_active_time (rs_report run) \<le> lim_active_time (rr_limits (rs_report run)))"

definition pending_ok :: "token_budget_mode \<Rightarrow> u64 \<Rightarrow> u64 \<times> budget_pending_report \<Rightarrow> bool" where
  "pending_ok mode next_id e \<longleftrightarrow>
     pd_id (snd e) = fst e \<and> 0 < fst e \<and> fst e \<le> next_id \<and>
     validate_request (pd_request (snd e)) mode = Ok () \<and>
     (pd_failed_usage (snd e) \<noteq> None \<longrightarrow> pd_started (snd e))"

definition id_inv :: "token_budget_mode \<Rightarrow> ledger_state \<Rightarrow> bool" where
  "id_inv mode st \<longleftrightarrow>
     bt_wf (st_pending st) \<and> list_all (pending_ok mode (st_next_id st)) (st_pending st) \<and>
     (\<forall>run. st_run st = Some run \<longrightarrow>
        0 < rs_id run \<and> rs_id run \<le> st_next_id st \<and> rs_id run \<notin> fst ` set (st_pending st)) \<and>
     (st_next_id st = 0 \<longrightarrow> st_charged st = default_amounts \<and> st_active_time st = 0)"

definition ledger_inv :: "budget_limits \<Rightarrow> token_budget_mode \<Rightarrow> ledger_state \<Rightarrow> bool" where
  "ledger_inv limits mode st \<longleftrightarrow>
     totals_inv st \<and> usage_inv st \<and> run_inv limits st \<and> limit_inv limits st \<and> id_inv mode st"

lemmas ledger_inv_defs = ledger_inv_def totals_inv_def usage_inv_def run_inv_def limit_inv_def id_inv_def

lemma ledger_inv_default: "ledger_inv limits mode (default_state now)"
  by (auto simp: ledger_inv_defs default_state_def pend_sum_def within_def default_usage_report_def
      default_totals_def elim!: is_attempt.elims split: option.splits)

section \<open>Stops, reports and time\<close>

lemma insert_stop_simps [simp]:
  "st_sealed (insert_stop x st) = st_sealed st"
  "st_recovery_frozen (insert_stop x st) = st_recovery_frozen st"
  "st_checkpoint_revision (insert_stop x st) = st_checkpoint_revision st"
  "st_grants (insert_stop x st) = st_grants st"
  "st_recoveries (insert_stop x st) = st_recoveries st"
  "st_charged (insert_stop x st) = st_charged st"
  "st_reserved (insert_stop x st) = st_reserved st"
  "st_usage (insert_stop x st) = st_usage st"
  "st_active_time (insert_stop x st) = st_active_time st"
  "st_cleanup_time (insert_stop x st) = st_cleanup_time st"
  "st_run (insert_stop x st) = st_run st"
  "st_pending (insert_stop x st) = st_pending st"
  "st_next_id (insert_stop x st) = st_next_id st"
  "st_last_clock (insert_stop x st) = st_last_clock st"
  "st_stop (insert_stop x st) = (case st_stop st of None \<Rightarrow> Some x | Some y \<Rightarrow> Some y)"
  by (simp_all add: insert_stop_def split: option.splits)

lemma update_report_simps [simp]:
  "st_sealed (update_report f st) = st_sealed st"
  "st_recovery_frozen (update_report f st) = st_recovery_frozen st"
  "st_checkpoint_revision (update_report f st) = st_checkpoint_revision st"
  "st_grants (update_report f st) = st_grants st"
  "st_recoveries (update_report f st) = st_recoveries st"
  "st_charged (update_report f st) = st_charged st"
  "st_reserved (update_report f st) = st_reserved st"
  "st_usage (update_report f st) = st_usage st"
  "st_active_time (update_report f st) = st_active_time st"
  "st_cleanup_time (update_report f st) = st_cleanup_time st"
  "st_stop (update_report f st) = st_stop st"
  "st_pending (update_report f st) = st_pending st"
  "st_next_id (update_report f st) = st_next_id st"
  "st_last_clock (update_report f st) = st_last_clock st"
  "st_run (update_report f st) =
     map_option (\<lambda>run. run\<lparr>rs_report := f (rs_report run)\<rparr>) (st_run st)"
  by (simp_all add: update_report_def)

lemma pend_sum_cong: "st_pending s = st_pending t \<Longrightarrow> pend_sum s = pend_sum t"
  by (simp add: pend_sum_def fun_eq_iff)

lemma pend_sum_updates [simp]:
  "pend_sum (insert_stop x st) = pend_sum st"
  "pend_sum (update_report f st) = pend_sum st"
  "pend_sum (st\<lparr>st_stop := y\<rparr>) = pend_sum st"
  "pend_sum (st\<lparr>st_run := z\<rparr>) = pend_sum st"
  "pend_sum (st\<lparr>st_last_clock := c\<rparr>) = pend_sum st"
  "pend_sum (st\<lparr>st_next_id := i\<rparr>) = pend_sum st"
  "pend_sum (st\<lparr>st_charged := am\<rparr>) = pend_sum st"
  "pend_sum (st\<lparr>st_reserved := am\<rparr>) = pend_sum st"
  "pend_sum (st\<lparr>st_usage := u\<rparr>) = pend_sum st"
  "pend_sum (st\<lparr>st_active_time := d\<rparr>) = pend_sum st"
  "pend_sum (st\<lparr>st_cleanup_time := d\<rparr>) = pend_sum st"
  by (rule pend_sum_cong, simp)+

lemma inv_set_stop: "ledger_inv limits mode st \<Longrightarrow> ledger_inv limits mode (st\<lparr>st_stop := Some x\<rparr>)"
  by (cases "st_run st") (auto simp: ledger_inv_defs)

lemma inv_insert_stop: "ledger_inv limits mode st \<Longrightarrow> ledger_inv limits mode (insert_stop x st)"
  by (simp add: insert_stop_def inv_set_stop split: option.splits)

lemma inv_clock: "ledger_inv limits mode st \<Longrightarrow> ledger_inv limits mode (st\<lparr>st_last_clock := c\<rparr>)"
  by (cases "st_run st") (auto simp: ledger_inv_defs)

text \<open>An update of the active run's report that leaves its accounts alone.\<close>

definition report_frame :: "(budget_run_report \<Rightarrow> budget_run_report) \<Rightarrow> bool" where
  "report_frame f \<longleftrightarrow> (\<forall>r.
     rr_limits (f r) = rr_limits r \<and> rr_charged (f r) = rr_charged r \<and>
     rr_reserved (f r) = rr_reserved r \<and> rr_active_time (f r) = rr_active_time r \<and>
     rr_cleanup_time (f r) = rr_cleanup_time r \<and>
     (rr_stop (f r) = None \<longrightarrow> rr_stop r = None))"

lemma inv_update_report:
  assumes "ledger_inv limits mode st" and "report_frame f"
  shows "ledger_inv limits mode (update_report f st)"
proof (cases "st_run st")
  case None
  then have "update_report f st = st" by (cases st) (simp add: update_report_def)
  with assms(1) show ?thesis by simp
next
  case (Some run)
  let ?r = "rs_report run"
  from assms(2) have fr: "rr_limits (f ?r) = rr_limits ?r" "rr_charged (f ?r) = rr_charged ?r"
    "rr_reserved (f ?r) = rr_reserved ?r" "rr_active_time (f ?r) = rr_active_time ?r"
    "rr_cleanup_time (f ?r) = rr_cleanup_time ?r"
    "rr_stop (f ?r) = None \<Longrightarrow> rr_stop ?r = None"
    unfolding report_frame_def by blast+
  show ?thesis using assms(1) Some
    by (auto simp: ledger_inv_defs fr(1-5) dest: fr(6))
qed

text \<open>What \<open>tick_run\<close> changes.\<close>

lemma tick_run_cases:
  assumes "st_run st = Some run"
  obtains active ct cr s sr where
    "tick_run limits elapsed run st = st\<lparr>st_active_time := st_active_time st + active,
       st_cleanup_time := ct, st_stop := s,
       st_run := Some (run\<lparr>rs_report := (rs_report run)\<lparr>
         rr_active_time := rr_active_time (rs_report run) + active,
         rr_cleanup_time := cr, rr_stop := sr\<rparr>\<rparr>)\<rparr>"
    "st_cleanup_time st \<le> ct"
    "rr_cleanup_time (rs_report run) \<le> st_cleanup_time st \<Longrightarrow> cr \<le> ct"
    "active \<le> lim_active_time limits - st_active_time st"
    "active \<le> lim_active_time (rr_limits (rs_report run)) - rr_active_time (rs_report run)"
    "\<And>x. st_stop st = Some x \<Longrightarrow> s = Some x"
    "\<And>x. rr_stop (rs_report run) = Some x \<Longrightarrow> sr = Some x"
    "s = None \<Longrightarrow> st_stop st = None" "sr = None \<Longrightarrow> rr_stop (rs_report run) = None"
proof -
  let ?rep = "rs_report run"
  define tr where "tr = lim_active_time limits - st_active_time st"
  define rr where "rr = lim_active_time (rr_limits ?rep) - rr_active_time ?rep"
  define stopped where "stopped \<longleftrightarrow> st_stop st \<noteq> None \<or> rr_stop ?rep \<noteq> None"
  define a where "a = (if stopped \<or> rs_cleaning run then 0 else min elapsed (min tr rr))"
  define hit where "hit \<longleftrightarrow> \<not> stopped \<and> \<not> rs_cleaning run \<and> min tr rr \<le> elapsed"
  define ok where "ok \<longleftrightarrow> st_cleanup_time st + (elapsed - a) \<le> dur_max \<and>
    rr_cleanup_time ?rep + (elapsed - a) \<le> dur_max"
  define ct where "ct = (if ok then st_cleanup_time st + (elapsed - a) else st_cleanup_time st)"
  define cr where "cr = (if ok then rr_cleanup_time ?rep + (elapsed - a) else rr_cleanup_time ?rep)"
  define s1 where "s1 = (if hit \<and> tr \<le> rr then Some ActiveTime else st_stop st)"
  define s where "s = (if ok then s1 else case s1 of None \<Rightarrow> Some AccountingOverflow | Some y \<Rightarrow> Some y)"
  define sr where "sr = (if hit \<and> \<not> tr \<le> rr then Some ActiveTime else rr_stop ?rep)"
  have eq: "tick_run limits elapsed run st = st\<lparr>st_active_time := st_active_time st + a,
       st_cleanup_time := ct, st_stop := s,
       st_run := Some (run\<lparr>rs_report := ?rep\<lparr>rr_active_time := rr_active_time ?rep + a,
         rr_cleanup_time := cr, rr_stop := sr\<rparr>\<rparr>)\<rparr>"
    unfolding tick_run_def Let_def
      tr_def [symmetric] rr_def [symmetric] stopped_def [symmetric] a_def [symmetric]
    using assms
    by (auto simp: update_report_def insert_stop_def dur_checked_add_def ct_def cr_def s_def s1_def
        sr_def hit_def ok_def split: option.splits)
  show thesis
  proof (rule that [OF eq])
    show "st_cleanup_time st \<le> ct" by (simp add: ct_def)
    show "cr \<le> ct" if "rr_cleanup_time ?rep \<le> st_cleanup_time st"
      using that by (simp add: ct_def cr_def)
    show "a \<le> lim_active_time limits - st_active_time st" by (auto simp: a_def tr_def min_def)
    show "a \<le> lim_active_time (rr_limits ?rep) - rr_active_time ?rep" by (auto simp: a_def rr_def min_def)
    show "s = Some x" if "st_stop st = Some x" for x
      using that by (simp add: s_def s1_def hit_def stopped_def)
    show "sr = Some x" if "rr_stop ?rep = Some x" for x
      using that by (simp add: sr_def hit_def stopped_def)
    show "st_stop st = None" if "s = None"
      using that by (auto simp: s_def s1_def split: if_splits option.splits)
    show "rr_stop ?rep = None" if "sr = None"
      using that by (simp add: sr_def split: if_splits)
  qed
qed

lemma inv_tick_run:
  assumes inv: "ledger_inv limits mode st" and run: "st_run st = Some run"
  shows "ledger_inv limits mode (tick_run limits elapsed run st)"
  using run
proof (rule tick_run_cases [where limits = limits and elapsed = elapsed], goal_cases)
  case (1 active ct cr s sr)
  let ?t = "tick_run limits elapsed run st"
  have "st_next_id st \<noteq> 0" using inv run by (auto simp: ledger_inv_def id_inv_def)
  then have "id_inv mode ?t" using inv run by (simp add: ledger_inv_def id_inv_def 1)
  moreover have "limit_inv limits ?t"
    using inv run 1 by (auto simp: ledger_inv_def limit_inv_def)
  moreover have "run_inv limits ?t"
    using inv run 1 by (auto simp: ledger_inv_def run_inv_def)
  moreover have "totals_inv ?t" "usage_inv ?t"
    using inv by (simp_all add: ledger_inv_def totals_inv_def usage_inv_def 1)
  ultimately show ?case by (simp add: ledger_inv_def)
qed

lemma inv_tick: "ledger_inv limits mode st \<Longrightarrow> ledger_inv limits mode (tick limits now st)"
  by (auto simp: tick_def Let_def split: option.splits
      intro: inv_insert_stop inv_tick_run inv_clock)

section \<open>Run operations\<close>

lemma check_writable_Ok [simp]:
  "check_writable st = Ok () \<longleftrightarrow> \<not> st_sealed st \<and> \<not> st_recovery_frozen st"
  by (simp add: check_writable_def)

lemma check_writable_OkI [simp]: "\<not> st_sealed st \<Longrightarrow> \<not> st_recovery_frozen st \<Longrightarrow> check_writable st = Ok ()"
  by (simp add: check_writable_def)

lemma check_writable_neq_Panic [simp]: "check_writable st \<noteq> Panic"
  by (simp add: check_writable_def)

lemma check_run_Ok:
  "check_run run_id st = Ok u \<longleftrightarrow>
     \<not> st_sealed st \<and> \<not> st_recovery_frozen st \<and>
     (\<exists>run. st_run st = Some run \<and> rs_id run = run_id \<and> rr_open (rs_report run))"
  by (cases u) (auto simp: check_run_def split: option.splits)

lemma check_run_neq_Panic [simp]: "check_run run_id st \<noteq> Panic"
  by (auto simp: check_run_def and_then_eq_Panic split: option.splits)

lemma check_stop_Ok:
  "check_stop st = Ok u \<longleftrightarrow>
     \<not> st_sealed st \<and> \<not> st_recovery_frozen st \<and> st_stop st = None \<and> run_stop st = None"
  by (cases u) (auto simp: check_stop_def split: option.splits)

lemma check_stop_neq_Panic [simp]: "check_stop st \<noteq> Panic"
  by (auto simp: check_stop_def and_then_eq_Panic split: option.splits)

lemma inv_on_run:
  assumes "ledger_inv limits mode st"
    and "\<And>t. ledger_inv limits mode t \<Longrightarrow> check_run run_id t = Ok () \<Longrightarrow>
           ledger_inv limits mode (snd (body t))"
  shows "ledger_inv limits mode (snd (on_run limits now run_id body st))"
  using assms inv_tick [OF assms(1), of now]
  by (auto simp: on_run_def Let_def split: outcome.splits)

lemma report_frame_simps [simp]:
  "report_frame (\<lambda>r. r\<lparr>rr_open := b\<rparr>)"
  "report_frame (\<lambda>r. r\<lparr>rr_stop := Some x\<rparr>)"
  "report_frame (\<lambda>r. r\<lparr>rr_metrics := g (rr_metrics r)\<rparr>)"
  "report_frame (\<lambda>r. r\<lparr>rr_turn_id := t\<rparr>)"
  "report_frame (\<lambda>r. case rr_stop r of None \<Rightarrow> r\<lparr>rr_stop := Some x\<rparr> | Some y \<Rightarrow> r)"
  by (auto simp: report_frame_def split: option.splits)

lemma inv_allocate_id:
  assumes "ledger_inv limits mode st"
  shows "ledger_inv limits mode (snd (allocate_id st))"
proof (cases "checked_add (st_next_id st) 1")
  case None
  with assms show ?thesis by (simp add: allocate_id_def inv_insert_stop)
next
  case (Some i)
  then have i: "unat i = unat (st_next_id st) + 1" by (simp add: checked_add_Some_iff)
  then have le: "st_next_id st \<le> i" and pos: "i \<noteq> 0" by (auto simp: word_le_nat_alt)
  have "list_all (pending_ok mode i) (st_pending st)"
    using assms le by (auto simp: ledger_inv_def id_inv_def list_all_iff pending_ok_def)
  with assms le pos show ?thesis
    by (cases "st_run st") (auto simp: allocate_id_def Some ledger_inv_defs)
qed

lemma allocate_id_Ok:
  "allocate_id st = (Ok i, t) \<longleftrightarrow>
     unat i = unat (st_next_id st) + 1 \<and> t = st\<lparr>st_next_id := i\<rparr>"
proof -
  have "unat i = unat (st_next_id st) + 1 \<longleftrightarrow> checked_add (st_next_id st) 1 = Some i"
    by (simp add: checked_add_Some_iff)
  then show ?thesis by (auto simp: allocate_id_def split: option.splits)
qed

lemma inv_begin_run:
  assumes inv: "ledger_inv limits mode st"
  shows "ledger_inv limits mode (snd (begin_run_inner limits now now' turn run_limits st))"
proof -
  let ?s = "tick limits now st"
  have inv1: "ledger_inv limits mode ?s" by (rule inv_tick [OF inv])
  have "ledger_inv limits mode (tick limits now' (?s\<lparr>st_next_id := i, st_run := Some
      \<lparr>rs_id = i, rs_report = \<lparr>rr_turn_id = turn, rr_metrics = default_metrics,
         rr_limits = tightened_by limits run_limits, rr_charged = default_amounts,
         rr_reserved = default_amounts, rr_active_time = 0, rr_cleanup_time = 0, rr_open = True,
         rr_stop = None\<rparr>, rs_cleaning = False\<rparr>\<rparr>))"
    if none: "st_run ?s = None" and alloc: "allocate_id ?s = (Ok i, ?s\<lparr>st_next_id := i\<rparr>)" for i
  proof (rule inv_tick)
    have i: "i \<noteq> 0" "0 < i" using alloc by (auto simp: allocate_id_Ok word_gt_0)
    have inv2: "ledger_inv limits mode (?s\<lparr>st_next_id := i\<rparr>)"
      using inv_allocate_id [OF inv1] alloc by simp
    have res: "st_reserved ?s = default_amounts"
      using inv1 none by (intro budget_amounts_eqI)
        (auto simp: ledger_inv_defs pend_sum_def unat_eq_0 split: if_splits)
    show "ledger_inv limits mode (?s\<lparr>st_next_id := i, st_run := Some
      \<lparr>rs_id = i, rs_report = \<lparr>rr_turn_id = turn, rr_metrics = default_metrics,
         rr_limits = tightened_by limits run_limits, rr_charged = default_amounts,
         rr_reserved = default_amounts, rr_active_time = 0, rr_cleanup_time = 0, rr_open = True,
         rr_stop = None\<rparr>, rs_cleaning = False\<rparr>\<rparr>)"
      using inv2 none i res
      by (auto simp: ledger_inv_defs pend_sum_def within_def)
  qed
  with inv inv1 inv_allocate_id [OF inv1] show ?thesis
    by (auto simp: begin_run_inner_def Let_def allocate_id_Ok split: outcome.splits prod.splits)
qed

lemma inv_finish:
  assumes "ledger_inv (tb_limits tb) mode st"
  shows "ledger_inv (tb_limits tb) mode (snd (finish tb now run_id st))"
proof -
  let ?s = "tick (tb_limits tb) now st"
  have inv: "ledger_inv (tb_limits tb) mode ?s" by (rule inv_tick [OF assms])
  have "ledger_inv (tb_limits tb) mode (update_report f ?s\<lparr>st_run := None\<rparr>)"
    if "st_pending ?s = []" for f
    using inv that by (auto simp: ledger_inv_defs pend_sum_def split: option.splits)
  with assms inv show ?thesis
    by (auto simp: finish_def Let_def split: outcome.splits option.splits)
qed

lemma inv_run_operations:
  assumes inv: "ledger_inv limits mode st"
  shows "ledger_inv limits mode (snd (bind_turn limits now run_id turn st))"
    and "ledger_inv limits mode (snd (drop_run limits now run_id st))"
    and "ledger_inv limits mode (snd (check_active limits now run_id st))"
    and "ledger_inv limits mode (snd (remaining_time limits now run_id st))"
    and "ledger_inv limits mode (snd (expire limits now run_id st))"
    and "ledger_inv limits mode (snd (stop_with limits now run_id x st))"
    and "ledger_inv limits mode (snd (begin_cleanup limits now run_id st))"
    and "ledger_inv limits mode (snd (metrics_op run_id f st))"
proof -
  show "ledger_inv limits mode (snd (bind_turn limits now run_id turn st))"
    using inv unfolding bind_turn_def
    by (intro inv_on_run) (auto split: option.splits intro: inv_update_report)
  show "ledger_inv limits mode (snd (drop_run limits now run_id st))"
    using inv inv_tick [OF inv]
    by (auto simp: drop_run_def Let_def split: option.splits intro!: inv_insert_stop inv_update_report)
  show "ledger_inv limits mode (snd (check_active limits now run_id st))"
    using inv unfolding check_active_def by (intro inv_on_run) auto
  show "ledger_inv limits mode (snd (remaining_time limits now run_id st))"
    using inv unfolding remaining_time_def by (intro inv_on_run) auto
  show "ledger_inv limits mode (snd (expire limits now run_id st))"
    using inv unfolding expire_def
    by (intro inv_on_run) (auto split: option.splits outcome.splits intro: inv_set_stop inv_update_report)
  show "ledger_inv limits mode (snd (stop_with limits now run_id x st))"
    using inv unfolding stop_with_def
    by (intro inv_on_run) (auto split: option.splits intro: inv_update_report)
  show "ledger_inv limits mode (snd (begin_cleanup limits now run_id st))"
    using inv unfolding begin_cleanup_def
    by (intro inv_on_run) (auto simp: ledger_inv_defs split: option.splits)
  show "ledger_inv limits mode (snd (metrics_op run_id f st))"
    using inv by (auto simp: metrics_op_def split: option.splits intro!: inv_update_report)
qed

lemma inv_reports:
  assumes "ledger_inv (tb_limits tb) mode st"
  shows "ledger_inv (tb_limits tb) mode (snd (report_op tb now st))"
    and "ledger_inv (tb_limits tb) mode (snd (prepare_report tb now run_id st))"
proof -
  show "ledger_inv (tb_limits tb) mode (snd (report_op tb now st))"
    using assms by (simp add: report_op_def Let_def inv_tick)
  show "ledger_inv (tb_limits tb) mode (snd (prepare_report tb now run_id st))"
    using assms unfolding prepare_report_def
    by (intro inv_on_run) (auto simp: Let_def intro: inv_update_report)
qed

end
