(* ===== verification/LedgerOps.thy ===== *)
theory LedgerOps
  imports LedgerInv
begin

text \<open>
  Reserving, releasing and settling keep the ledger invariant: the two loops of
  \<open>BudgetScope::reserve\<close> in closed form, the arithmetic of a settlement, and the invariant of
  every operation on a reservation.
\<close>

section \<open>Reserving\<close>

lemma fits_iff: "fits c r q l \<longleftrightarrow> unat c + unat r + unat q \<le> unat l"
proof (cases "checked_add c r")
  case None
  then have "unat l < unat c + unat r"
    using unsigned_less [of l, where ?'a = nat] unfolding checked_add_None_iff by linarith
  with None show ?thesis by (simp add: fits_def)
next
  case (Some v)
  then have v: "unat v = unat c + unat r" by (simp add: checked_add_Some_iff)
  show ?thesis
  proof (cases "checked_add v q")
    case None
    then have "unat l < unat v + unat q"
      using unsigned_less [of l, where ?'a = nat] unfolding checked_add_None_iff by linarith
    with None Some v show ?thesis by (simp add: fits_def)
  next
    case (Some w)
    then have "unat w = unat v + unat q" by (simp add: checked_add_Some_iff)
    with Some \<open>checked_add c r = Some v\<close> v show ?thesis by (simp add: fits_def word_le_nat_alt)
  qed
qed

lemma reserve_fit_Ok:
  assumes "reserve_fit limits request rs st = (Ok u, t)"
  shows "t = st"
    and "r \<in> set rs \<Longrightarrow> unat (amount (st_charged st) r) + unat (amount (st_reserved st) r) +
           unat (amount (req_amounts request) r) \<le> unat (limit limits r)"
    and "r \<in> set rs \<Longrightarrow> st_run st = Some run \<Longrightarrow>
           unat (amount (rr_charged (rs_report run)) r) + unat (amount (rr_reserved (rs_report run)) r) +
           unat (amount (req_amounts request) r) \<le> unat (limit (rr_limits (rs_report run)) r)"
  using assms
  by (induction rs) (auto simp: Let_def fits_iff split: if_splits option.splits)

lemma reserve_fit_neq_Panic [simp]: "reserve_fit limits request rs st \<noteq> (Panic, t)"
  by (induction rs) (auto simp: Let_def split: option.splits)

lemma reserve_fit_fst_neq_Panic [simp]: "fst (reserve_fit limits request rs st) \<noteq> Panic"
  by (metis reserve_fit_neq_Panic prod.collapse)

lemma inv_reserve_fit:
  assumes "ledger_inv limits mode st"
  shows "ledger_inv limits mode (snd (reserve_fit task_limits request rs st))"
  using assms
  by (induction rs) (auto simp: Let_def split: option.splits intro: inv_set_stop inv_update_report)

text \<open>Both accounts after the second loop.\<close>

definition add_attempts :: "budget_amounts \<Rightarrow> budget_resource list \<Rightarrow> budget_amounts \<Rightarrow> budget_amounts" where
  "add_attempts q rs a = fold (\<lambda>r a. if is_attempt r then add_amount r (amount q r) a else a) rs a"

definition add_variables :: "budget_amounts \<Rightarrow> budget_resource list \<Rightarrow> budget_amounts \<Rightarrow> budget_amounts" where
  "add_variables q rs a = fold (\<lambda>r a. if is_attempt r then a else add_amount r (amount q r) a) rs a"

lemma fold_reserve_one:
  "fold (reserve_one request) rs st =
     update_report (\<lambda>r. r\<lparr>rr_charged := add_attempts (req_amounts request) rs (rr_charged r),
         rr_reserved := add_variables (req_amounts request) rs (rr_reserved r)\<rparr>)
       (st\<lparr>st_charged := add_attempts (req_amounts request) rs (st_charged st),
           st_reserved := add_variables (req_amounts request) rs (st_reserved st)\<rparr>)"
proof (induction rs arbitrary: st)
  case Nil
  show ?case by (cases st; cases "st_run st") (auto simp: add_attempts_def add_variables_def update_report_def)
next
  case (Cons r rs)
  have "fold (reserve_one request) (r # rs) st = fold (reserve_one request) rs (reserve_one request r st)"
    by simp
  also have "\<dots> = update_report (\<lambda>r. r\<lparr>rr_charged := add_attempts (req_amounts request) rs (rr_charged r),
         rr_reserved := add_variables (req_amounts request) rs (rr_reserved r)\<rparr>)
       ((reserve_one request r st)
         \<lparr>st_charged := add_attempts (req_amounts request) rs (st_charged (reserve_one request r st)),
           st_reserved := add_variables (req_amounts request) rs (st_reserved (reserve_one request r st))\<rparr>)"
    by (rule Cons.IH)
  also have "\<dots> = update_report (\<lambda>ra. ra\<lparr>rr_charged := add_attempts (req_amounts request) (r # rs) (rr_charged ra),
         rr_reserved := add_variables (req_amounts request) (r # rs) (rr_reserved ra)\<rparr>)
       (st\<lparr>st_charged := add_attempts (req_amounts request) (r # rs) (st_charged st),
           st_reserved := add_variables (req_amounts request) (r # rs) (st_reserved st)\<rparr>)"
    by (cases "st_run st")
      (simp_all add: reserve_one_def Let_def update_report_def add_attempts_def add_variables_def)
  finally show ?case .
qed

lemma amount_add_attempts [simp]:
  "amount (add_attempts q all_resources a) r = amount a r + (if is_attempt r then amount q r else 0)"
  by (cases r) (simp_all add: add_attempts_def all_resources_def add_amount_def)

lemma amount_add_variables [simp]:
  "amount (add_variables q all_resources a) r = amount a r + (if is_attempt r then 0 else amount q r)"
  by (cases r) (simp_all add: add_variables_def all_resources_def add_amount_def)

lemma pend_sum_insert:
  assumes "i \<notin> fst ` set (st_pending st)"
  shows "pend_sum (st\<lparr>st_pending := bt_insert i p (st_pending st)\<rparr>) r =
    unat (amount (req_amounts (pd_request p)) r) + pend_sum st r"
  using sum_bt_insert_fresh [OF assms, of "\<lambda>p. unat (amount (req_amounts (pd_request p)) r)"]
  by (simp add: pend_sum_def)

lemma unat_add_le: "unat a + unat b \<le> unat c \<Longrightarrow> unat (a + b) = unat a + unat b"
  for a b c :: "'l::len word"
  using unsigned_less [of c, where ?'a = nat] by (intro unat_add_fits) linarith

text \<open>The state \<open>reserve\<close> leaves when it accepts: charges, reservations and the new entry.\<close>

lemma inv_reserve_commit:
  assumes inv: "ledger_inv limits mode st"
    and run: "st_run st = Some run"
    and valid: "validate_request request mode = Ok ()"
    and task: "\<And>r. unat (amount (st_charged st) r) + unat (amount (st_reserved st) r) +
           unat (amount (req_amounts request) r) \<le> unat (limit limits r)"
    and own: "\<And>r. unat (amount (rr_charged (rs_report run)) r) +
           unat (amount (rr_reserved (rs_report run)) r) + unat (amount (req_amounts request) r)
             \<le> unat (limit (rr_limits (rs_report run)) r)"
    and i: "unat i = unat (st_next_id st) + 1"
    and p: "pd_id p = i" "pd_request p = request" "\<not> pd_started p" "pd_failed_usage p = None"
  shows "ledger_inv limits mode
    ((fold (reserve_one request) all_resources (st\<lparr>st_next_id := i\<rparr>))
       \<lparr>st_pending := bt_insert i p (st_pending st)\<rparr>)" (is "ledger_inv limits mode ?t")
proof -
  let ?q = "req_amounts request"
  have res: "rr_reserved (rs_report run) = st_reserved st"
    and le: "\<And>r. unat (amount (rr_charged (rs_report run)) r) \<le> unat (amount (st_charged st) r)"
    using inv run by (auto simp: ledger_inv_def run_inv_def word_le_nat_alt)
  have c: "unat (amount (st_charged st) r + amount ?q r) = unat (amount (st_charged st) r) + unat (amount ?q r)"
    and v: "unat (amount (st_reserved st) r + amount ?q r) = unat (amount (st_reserved st) r) + unat (amount ?q r)"
    for r using task [of r] by (auto intro!: unat_add_le [where c = "limit limits r"])
  have rc: "unat (amount (rr_charged (rs_report run)) r + amount ?q r) =
               unat (amount (rr_charged (rs_report run)) r) + unat (amount ?q r)" for r
    using own [of r] by (intro unat_add_le [where c = "limit (rr_limits (rs_report run)) r"]) simp
  have keys: "k \<le> st_next_id st" if "k \<in> fst ` set (st_pending st)" for k
    using that inv by (auto simp: ledger_inv_def id_inv_def list_all_iff pending_ok_def)
  have lt: "st_next_id st < i" using i by (simp add: word_less_nat_alt)
  then have fresh: "i \<notin> fst ` set (st_pending st)" using keys by force
  have ps: "pend_sum ?t r = unat (amount ?q r) + pend_sum st r" for r
    using pend_sum_insert [of i "fold (reserve_one request) all_resources (st\<lparr>st_next_id := i\<rparr>)" p r] fresh p
    by (simp add: fold_reserve_one pend_sum_def)
  have runt: "st_run ?t = Some (run\<lparr>rs_report := (rs_report run)
      \<lparr>rr_charged := add_attempts ?q all_resources (rr_charged (rs_report run)),
       rr_reserved := add_variables ?q all_resources (st_reserved st)\<rparr>\<rparr>)"
    by (simp add: fold_reserve_one run res)
  have acc: "st_charged ?t = add_attempts ?q all_resources (st_charged st)"
    "st_reserved ?t = add_variables ?q all_resources (st_reserved st)"
    "st_usage ?t = st_usage st" "st_next_id ?t = i" "st_stop ?t = st_stop st"
    "st_active_time ?t = st_active_time st" "st_cleanup_time ?t = st_cleanup_time st"
    "st_pending ?t = bt_insert i p (st_pending st)"
    by (simp_all add: fold_reserve_one)
  have "totals_inv ?t"
    using inv by (auto simp: totals_inv_def acc ps c v ledger_inv_def)
  moreover have "usage_inv ?t"
    using inv by (auto simp: usage_inv_def acc ledger_inv_def)
  moreover have "run_inv limits ?t"
    using inv run by (auto simp: run_inv_def runt acc ps c rc ledger_inv_def word_le_nat_alt)
  moreover have "limit_inv limits ?t"
  proof -
    have "within (st_charged ?t) (st_reserved ?t) limits"
      unfolding within_def
    proof
      fix r
      show "unat (amount (st_charged ?t) r) + unat (amount (st_reserved ?t) r) \<le> unat (limit limits r)"
        using task [of r] by (auto simp: acc c v)
    qed
    moreover have "within (rr_charged (rs_report (the (st_run ?t)))) (rr_reserved (rs_report (the (st_run ?t))))
        (rr_limits (rs_report run))"
      unfolding within_def
    proof
      fix r
      show "unat (amount (rr_charged (rs_report (the (st_run ?t)))) r) +
          unat (amount (rr_reserved (rs_report (the (st_run ?t)))) r) \<le> unat (limit (rr_limits (rs_report run)) r)"
        using own [of r] by (auto simp: runt rc v res)
    qed
    ultimately show ?thesis
      using inv run by (auto simp: limit_inv_def runt acc(5,6) ledger_inv_def)
  qed
  moreover have "id_inv mode ?t"
  proof -
    have "pending_ok mode i e" if e: "e \<in> set (st_pending st)" for e
      using inv e lt order_trans [of "fst e" "st_next_id st" i]
      by (auto simp: list_all_iff pending_ok_def ledger_inv_def id_inv_def)
    moreover have "pending_ok mode i (i, p)"
      using p valid lt by (auto simp: pending_ok_def word_gt_0)
    ultimately have "list_all (pending_ok mode i) (bt_insert i p (st_pending st))"
      by (auto simp: list_all_iff set_bt_insert_fresh [OF fresh])
    moreover have "rs_id run \<noteq> i" "rs_id run \<le> i"
      using inv run lt by (auto simp: ledger_inv_def id_inv_def)
    ultimately show ?thesis
      using inv run lt by (auto simp: id_inv_def runt acc ledger_inv_def)
  qed
  ultimately show ?thesis by (simp add: ledger_inv_def)
qed

lemma inv_reserve:
  assumes "ledger_inv limits mode st"
  shows "ledger_inv limits mode (snd (reserve limits mode now run_id request st))"
  unfolding reserve_def
proof (rule inv_on_run [OF assms])
  fix t
  assume inv: "ledger_inv limits mode t" and "check_run run_id t = Ok ()"
  then obtain run where run: "st_run t = Some run" by (auto simp: check_run_Ok)
  show "ledger_inv limits mode (snd
    (case and_then (check_stop t) (\<lambda>_. validate_request request mode) of
         Ok _ \<Rightarrow>
           (case reserve_fit limits request all_resources t of
              (Ok _, st) \<Rightarrow>
                (case allocate_id st of
                   (Ok res_id, st) \<Rightarrow>
                     let st = fold (reserve_one request) all_resources st;
                         entry = \<lparr>pd_id = res_id, pd_request = request, pd_started = False,
                                  pd_abandoned = False, pd_failed_usage = None\<rparr>
                     in (Ok res_id, st\<lparr>st_pending := bt_insert res_id entry (st_pending st)\<rparr>)
                 | (Err e, st) \<Rightarrow> (Err e, st)
                 | (Panic, st) \<Rightarrow> (Panic, st))
            | (Err e, st) \<Rightarrow> (Err e, st)
            | (Panic, st) \<Rightarrow> (Panic, st))
       | Err e \<Rightarrow> (Err e, t)
       | Panic \<Rightarrow> (Panic, t)))"
  proof (cases "and_then (check_stop t) (\<lambda>_. validate_request request mode)")
    case (Ok u)
    then have valid: "validate_request request mode = Ok ()" by (cases u) auto
    obtain x s where f: "reserve_fit limits request all_resources t = (x, s)" by fastforce
    show ?thesis
    proof (cases x)
      case ok: (Ok v)
      note fit = reserve_fit_Ok [OF f [unfolded ok]]
      obtain y w where al: "allocate_id s = (y, w)" by fastforce
      show ?thesis
      proof (cases y)
        case y: (Ok i)
        note al = al [unfolded y allocate_id_Ok]
        have al_eq: "allocate_id t = (Ok i, t\<lparr>st_next_id := i\<rparr>)"
          using al fit(1) by (simp add: allocate_id_Ok)
        have "st_pending (fold (reserve_one request) all_resources (t\<lparr>st_next_id := i\<rparr>)) = st_pending t"
          by (simp add: fold_reserve_one)
        with Ok f ok fit(1) al_eq show ?thesis
          using inv_reserve_commit [OF inv run valid fit(2) fit(3) [OF _ run], of i] al
          by (simp add: Let_def)
      qed (use Ok f ok al fit(1) inv_allocate_id [OF inv] in \<open>auto simp: Let_def\<close>)
    qed (use Ok f inv_reserve_fit [OF inv, of limits request all_resources] in auto)
  qed (use inv in auto)
qed

section \<open>Releasing and settling\<close>

definition sub_variables :: "budget_amounts \<Rightarrow> budget_resource list \<Rightarrow> budget_amounts \<Rightarrow> budget_amounts" where
  "sub_variables q rs a = fold (\<lambda>r a. set_amount r (amount a r - amount q r) a) rs a"

lemma fold_release_one:
  "fold (release_one q) rs st =
     update_report (\<lambda>r. r\<lparr>rr_reserved := sub_variables q rs (rr_reserved r)\<rparr>)
       (st\<lparr>st_reserved := sub_variables q rs (st_reserved st)\<rparr>)"
proof (induction rs arbitrary: st)
  case Nil
  show ?case by (cases st; cases "st_run st") (auto simp: sub_variables_def update_report_def)
next
  case (Cons r rs)
  have "fold (release_one q) (r # rs) st = fold (release_one q) rs (release_one q r st)" by simp
  also have "\<dots> = update_report (\<lambda>r. r\<lparr>rr_reserved := sub_variables q rs (rr_reserved r)\<rparr>)
       ((release_one q r st)\<lparr>st_reserved := sub_variables q rs (st_reserved (release_one q r st))\<rparr>)"
    by (rule Cons.IH)
  also have "\<dots> = update_report (\<lambda>ra. ra\<lparr>rr_reserved := sub_variables q (r # rs) (rr_reserved ra)\<rparr>)
       (st\<lparr>st_reserved := sub_variables q (r # rs) (st_reserved st)\<rparr>)"
    by (cases "st_run st") (simp_all add: release_one_def update_report_def sub_variables_def)
  finally show ?case .
qed

abbreviation released :: "budget_amounts \<Rightarrow> budget_amounts \<Rightarrow> budget_amounts" where
  "released q a \<equiv> sub_variables q (filter (\<lambda>r. \<not> is_attempt r) all_resources) a"

lemma amount_released [simp]:
  "amount (released q a) r = amount a r - (if is_attempt r then 0 else amount q r)"
  by (cases r) (simp_all add: sub_variables_def all_resources_def)

lemma release_eq:
  "release q st = (case st_run st of
     None \<Rightarrow> (Err RunClosed, st)
   | Some run \<Rightarrow> (Ok (), st\<lparr>st_reserved := released q (st_reserved st),
       st_run := Some (run\<lparr>rs_report := (rs_report run)
         \<lparr>rr_reserved := released q (rr_reserved (rs_report run))\<rparr>\<rparr>)\<rparr>))"
  by (auto simp: release_def fold_release_one update_report_def split: option.splits)

lemma pend_sum_remove:
  assumes "bt_wf (st_pending st)" and "map_of (st_pending st) k = Some p"
  shows "pend_sum st r = unat (amount (req_amounts (pd_request p)) r) +
    pend_sum (st\<lparr>st_pending := bt_remove k (st_pending st)\<rparr>) r"
  using sum_bt_remove [OF bt_wf_distinct [OF assms(1)] assms(2),
      of "\<lambda>p. unat (amount (req_amounts (pd_request p)) r)"]
  by (simp add: pend_sum_def)

text \<open>
  Resolving a pending entry: its reservation is released, and the task and the run are
  charged the same debit, which stays within the reservation unless a stop is recorded.
\<close>

lemma inv_resolve:
  assumes inv: "ledger_inv limits mode st"
    and p: "map_of (st_pending st) k = Some p" and run: "st_run st = Some run"
    and c: "\<And>r. unat (amount c r) = unat (amount (st_charged st) r) + d r"
    and rc: "\<And>r. unat (amount rc r) = unat (amount (rr_charged (rs_report run)) r) + d r"
    and att: "\<And>r. is_attempt r \<Longrightarrow> d r = 0"
    and u: "\<And>r. \<not> is_attempt r \<Longrightarrow>
      unat (tot_actual (usage_get u r)) + unat (tot_estimated (usage_get u r)) \<le>
      unat (tot_actual (usage_get (st_usage st) r)) + unat (tot_estimated (usage_get (st_usage st) r)) + d r"
    and stop: "s = None \<Longrightarrow> st_stop st = None \<and> (\<forall>r. d r \<le> unat (amount (req_amounts (pd_request p)) r))"
  shows "ledger_inv limits mode (st\<lparr>st_charged := c,
      st_reserved := released (req_amounts (pd_request p)) (st_reserved st),
      st_usage := u, st_stop := s,
      st_run := Some (run\<lparr>rs_report := (rs_report run)\<lparr>rr_charged := rc,
        rr_reserved := released (req_amounts (pd_request p)) (rr_reserved (rs_report run))\<rparr>\<rparr>),
      st_pending := bt_remove k (st_pending st)\<rparr>)" (is "ledger_inv limits mode ?t")
proof -
  let ?q = "req_amounts (pd_request p)"
  have wf: "bt_wf (st_pending st)" using inv by (simp add: ledger_inv_def id_inv_def)
  have ps: "pend_sum st r = unat (amount ?q r) + pend_sum ?t r" for r
    using pend_sum_remove [OF wf p, of r] by (simp add: pend_sum_def)
  have rr: "rr_reserved (rs_report run) = st_reserved st"
    using inv run by (simp add: ledger_inv_def run_inv_def)
  have sub: "unat (amount (st_reserved st) r - amount ?q r) = pend_sum ?t r" if "\<not> is_attempt r" for r
    using inv that ps [of r] by (auto simp: ledger_inv_def totals_inv_def unat_sub_le split: if_splits)
  have sum: "unat (amount (st_reserved st) r) = unat (amount ?q r) + pend_sum ?t r" if "\<not> is_attempt r" for r
    using inv that ps [of r] by (auto simp: ledger_inv_def totals_inv_def split: if_splits)
  have ares: "amount (st_reserved st) r = 0" if "is_attempt r" for r
    using inv that by (auto simp: ledger_inv_def totals_inv_def split: if_splits)
  have att_le: "pend_sum st r \<le> unat (amount (st_charged st) r)" if "is_attempt r" for r
    using inv that by (auto simp: ledger_inv_def totals_inv_def split: if_splits)
  have next0: "st_next_id st \<noteq> 0" using inv run by (auto simp: ledger_inv_def id_inv_def)
  have "totals_inv ?t"
    unfolding totals_inv_def
  proof
    fix r
    show "if is_attempt r then amount (st_reserved ?t) r = 0 \<and> pend_sum ?t r \<le> unat (amount (st_charged ?t) r)
      else unat (amount (st_reserved ?t) r) = pend_sum ?t r"
      using ps [of r] c [of r] sub [of r] ares [of r] att_le [of r] by (cases "is_attempt r") simp_all
  qed
  moreover have "usage_inv ?t"
    using inv unfolding usage_inv_def ledger_inv_def
    by (auto simp: c intro: order_trans [OF u])
  moreover have "run_inv limits ?t"
  proof -
    have "amount rc r \<le> amount c r" for r
      using inv run by (simp add: ledger_inv_def run_inv_def word_le_nat_alt c rc)
    moreover have "pend_sum ?t r \<le> unat (amount rc r)" if "is_attempt r" for r
      using inv run that ps [of r] rc [of r] by (auto simp: ledger_inv_def run_inv_def)
    ultimately show ?thesis
      using inv run by (auto simp: ledger_inv_def run_inv_def rr)
  qed
  moreover have "limit_inv limits ?t"
  proof -
    have *: "unat (amount x r) + d r + unat (amount (released ?q (st_reserved st)) r) \<le> unat (amount y r)"
      if "s = None" and "unat (amount x r) + unat (amount (st_reserved st) r) \<le> unat (amount y r)" for x y r
    proof (cases "is_attempt r")
      case True
      with that att [of r] show ?thesis by simp
    next
      case False
      have d: "d r \<le> unat (amount ?q r)" using stop [OF \<open>s = None\<close>] by simp
      have "unat (amount (released ?q (st_reserved st)) r) = pend_sum ?t r" using False sub [of r] by simp
      with that(2) sum [OF False] d show ?thesis by linarith
    qed
    have "within c (released ?q (st_reserved st)) limits" if "s = None"
      using inv stop [OF that] * [OF that] unfolding within_def c
      by (auto simp: ledger_inv_def limit_inv_def within_def)
    moreover have "within rc (released ?q (st_reserved st)) (rr_limits (rs_report run))"
      if "s = None" "rr_stop (rs_report run) = None"
      using inv run stop [OF that(1)] that(2) * [OF that(1)] unfolding within_def rc
      by (auto simp: ledger_inv_def limit_inv_def within_def rr)
    ultimately show ?thesis
      using inv run stop by (auto simp: ledger_inv_def limit_inv_def rr)
  qed
  moreover have "id_inv mode ?t"
    using inv run next0 by (auto simp: ledger_inv_def id_inv_def list_all_iff)
  ultimately show ?thesis by (simp add: ledger_inv_def)
qed

lemma settle_debit_Ok:
  assumes "settle_debit value applicable reserved totals = Ok (debit, t)"
  shows "unat (tot_actual t) + unat (tot_estimated t) \<le>
    unat (tot_actual totals) + unat (tot_estimated totals) + unat debit"
  using assms
  by (cases "value") (auto simp: settle_debit_def checked_add_Some_iff max_def word_le_nat_alt
      not_le split: if_splits)

lemma settle_debit_neq_Panic [simp]: "settle_debit value applicable reserved totals \<noteq> Panic"
  by (auto simp: settle_debit_def and_then_eq_Panic split: usage_value.splits)

lemma usage_get_set [simp]:
  "usage_get (usage_set r t u) r' = (if r' = r \<and> \<not> is_attempt r then t else usage_get u r')"
  by (cases r; cases r') simp_all

lemma settlement_step_Ok:
  assumes "settlement_step request (r, v, applicable) (c, rc, e, b) = Ok x" and "\<not> is_attempt r"
  obtains D c' rc' e' b' where "x = (c', rc', e', b')"
    "\<And>r'. unat (amount c' r') = unat (amount c r') + (if r' = r then D else 0)"
    "\<And>r'. unat (amount rc' r') = unat (amount rc r') + (if r' = r then D else 0)"
    "\<And>r'. unat (tot_actual (usage_get e' r')) + unat (tot_estimated (usage_get e' r')) \<le>
       unat (tot_actual (usage_get e r')) + unat (tot_estimated (usage_get e r')) + (if r' = r then D else 0)"
    "b' = None \<Longrightarrow> b = None \<and> D \<le> unat (amount (req_amounts request) r)"
proof -
  obtain debit tot c1 rc1 where
    d: "settle_debit v applicable (amount (req_amounts request) r) (usage_get e r) = Ok (debit, tot)"
    and c1: "unat c1 = unat (amount c r) + unat debit" and rc1: "unat rc1 = unat (amount rc r) + unat debit"
    and x: "x = (set_amount r c1 c, set_amount r rc1 rc, usage_set r tot e,
        if amount (req_amounts request) r < debit then (case b of None \<Rightarrow> Some r | Some b \<Rightarrow> Some b) else b)"
    using assms(1) by (auto simp: settlement_step_def Let_def checked_add_Some_iff split: prod.splits)
  show thesis
    by (rule that [OF x, of "unat debit"])
      (use c1 rc1 settle_debit_Ok [OF d] assms(2) in
        \<open>auto simp: word_le_nat_alt not_less split: if_splits option.splits\<close>)
qed

lemma settlement_step_neq_Panic [simp]: "settlement_step request x s \<noteq> Panic"
  by (cases x; cases s) (auto simp: settlement_step_def Let_def and_then_eq_Panic)

lemma settlement_of_neq_Panic [simp]: "settlement_of st request usage \<noteq> Panic"
  by (cases "st_run st") (simp_all add: settlement_of_def for_each_no_panic del: for_each.simps)

lemma settlement_of_Ok:
  assumes "settlement_of st request usage = Ok (c, rc, u, breach)" and run: "st_run st = Some run"
  obtains d where
    "\<And>r. unat (amount c r) = unat (amount (st_charged st) r) + d r"
    "\<And>r. unat (amount rc r) = unat (amount (rr_charged (rs_report run)) r) + d r"
    "\<And>r. is_attempt r \<Longrightarrow> d r = 0"
    "\<And>r. \<not> is_attempt r \<Longrightarrow>
      unat (tot_actual (usage_get u r)) + unat (tot_estimated (usage_get u r)) \<le>
      unat (tot_actual (usage_get (st_usage st) r)) + unat (tot_estimated (usage_get (st_usage st) r)) + d r"
    "breach = None \<Longrightarrow> \<forall>r. d r \<le> unat (amount (req_amounts request) r)"
proof -
  let ?req = "model_requests (req_amounts request) > 0" and ?calls = "tool_calls (req_amounts request) > 0"
  obtain x y where
    x: "settlement_step request (InputTokens, usg_input_tokens usage, ?req)
        (st_charged st, rr_charged (rs_report run), st_usage st, None) = Ok x"
    and y: "settlement_step request (OutputTokens, usg_output_tokens usage, ?req) x = Ok y"
    and z: "settlement_step request (ToolOutputBytes, usg_tool_output_bytes usage, ?calls) y = Ok (c, rc, u, breach)"
    using assms by (auto simp: settlement_of_def)
  let ?q = "\<lambda>r. unat (amount (req_amounts request) r)"
  let ?e = "\<lambda>u r. unat (tot_actual (usage_get u r)) + unat (tot_estimated (usage_get u r))"
  obtain d1 c1 rc1 e1 b1 where 1: "x = (c1, rc1, e1, b1)"
    "\<And>r. unat (amount c1 r) = unat (amount (st_charged st) r) + (if r = InputTokens then d1 else 0)"
    "\<And>r. unat (amount rc1 r) = unat (amount (rr_charged (rs_report run)) r) + (if r = InputTokens then d1 else 0)"
    "\<And>r. ?e e1 r \<le> ?e (st_usage st) r + (if r = InputTokens then d1 else 0)"
    "b1 = None \<Longrightarrow> d1 \<le> ?q InputTokens"
    by (rule settlement_step_Ok [OF x]) auto
  obtain d2 c2 rc2 e2 b2 where 2: "y = (c2, rc2, e2, b2)"
    "\<And>r. unat (amount c2 r) = unat (amount c1 r) + (if r = OutputTokens then d2 else 0)"
    "\<And>r. unat (amount rc2 r) = unat (amount rc1 r) + (if r = OutputTokens then d2 else 0)"
    "\<And>r. ?e e2 r \<le> ?e e1 r + (if r = OutputTokens then d2 else 0)"
    "b2 = None \<Longrightarrow> b1 = None \<and> d2 \<le> ?q OutputTokens"
    by (rule settlement_step_Ok [OF y [unfolded 1(1)]]) auto
  obtain d3 where 3:
    "\<And>r. unat (amount c r) = unat (amount c2 r) + (if r = ToolOutputBytes then d3 else 0)"
    "\<And>r. unat (amount rc r) = unat (amount rc2 r) + (if r = ToolOutputBytes then d3 else 0)"
    "\<And>r. ?e u r \<le> ?e e2 r + (if r = ToolOutputBytes then d3 else 0)"
    "breach = None \<Longrightarrow> b2 = None \<and> d3 \<le> ?q ToolOutputBytes"
    by (rule settlement_step_Ok [OF z [unfolded 2(1)]]) auto
  define d where "d r = (case r of InputTokens \<Rightarrow> d1 | OutputTokens \<Rightarrow> d2 | ToolOutputBytes \<Rightarrow> d3 | _ \<Rightarrow> 0)" for r
  show thesis
  proof (rule that [of d])
    fix r
    show "unat (amount c r) = unat (amount (st_charged st) r) + d r"
      using 1(2) [of r] 2(2) [of r] 3(1) [of r] by (cases r) (simp_all add: d_def)
    show "unat (amount rc r) = unat (amount (rr_charged (rs_report run)) r) + d r"
      using 1(3) [of r] 2(3) [of r] 3(2) [of r] by (cases r) (simp_all add: d_def)
    show "d r = 0" if "is_attempt r" using that by (cases r) (simp_all add: d_def)
    show "?e u r \<le> ?e (st_usage st) r + d r"
      using 1(4) [of r] 2(4) [of r] 3(3) [of r] by (cases r) (simp_all add: d_def)
    show "\<forall>r. d r \<le> ?q r" if "breach = None"
      using that 1(5) 2(5) 3(4) by (auto simp: d_def split: budget_resource.splits)
  qed
qed

section \<open>The invariant of every operation on a reservation\<close>

lemma set_bt_modify: "e \<in> set (bt_modify k f m) \<Longrightarrow> \<exists>e' \<in> set m. e = (if fst e' = k then (k, f (snd e')) else e')"
  by (auto simp: bt_modify_def)

lemma inv_modify_pending:
  assumes inv: "ledger_inv limits mode st"
    and f: "\<And>p. pd_id (f p) = pd_id p" "\<And>p. pd_request (f p) = pd_request p"
      "\<And>p. map_of (st_pending st) k = Some p \<Longrightarrow> (pd_failed_usage p \<noteq> None \<longrightarrow> pd_started p) \<Longrightarrow>
         pd_failed_usage (f p) \<noteq> None \<Longrightarrow> pd_started (f p)"
  shows "ledger_inv limits mode (st\<lparr>st_pending := bt_modify k f (st_pending st)\<rparr>)" (is "ledger_inv _ _ ?t")
proof -
  have ps: "pend_sum ?t = pend_sum st"
  proof (rule ext)
    fix r
    show "pend_sum ?t r = pend_sum st r"
      using arg_cong [where f = sum_list,
          OF sum_bt_modify [of "\<lambda>p. unat (amount (req_amounts (pd_request p)) r)" f k "st_pending st"]]
      by (simp add: pend_sum_def f)
  qed
  have wf: "bt_wf (st_pending st)" using inv by (simp add: ledger_inv_def id_inv_def)
  have "list_all (pending_ok mode (st_next_id st)) (bt_modify k f (st_pending st))"
    unfolding list_all_iff
  proof
    fix e assume "e \<in> set (bt_modify k f (st_pending st))"
    then obtain e' where e': "e' \<in> set (st_pending st)" and e: "e = (if fst e' = k then (k, f (snd e')) else e')"
      using set_bt_modify [of e k f] by blast
    have ok: "pending_ok mode (st_next_id st) e'"
      using inv e' by (simp add: ledger_inv_def id_inv_def list_all_iff)
    show "pending_ok mode (st_next_id st) e"
    proof (cases "fst e' = k")
      case True
      then have "map_of (st_pending st) k = Some (snd e')"
        using e' wf by (auto intro!: map_of_is_SomeI bt_wf_distinct simp: prod_eq_iff [symmetric])
      with True ok e f(3) show ?thesis by (auto simp: pending_ok_def f)
    qed (use ok e in simp)
  qed
  with inv ps show ?thesis
    by (cases "st_run st") (auto simp: ledger_inv_defs)
qed

lemma run_of_pending: "ledger_inv limits mode st \<Longrightarrow> map_of (st_pending st) k = Some p \<Longrightarrow> \<exists>run. st_run st = Some run"
  by (cases "st_run st") (auto simp: ledger_inv_def run_inv_def)

lemma inv_mark_started:
  assumes "ledger_inv limits mode st"
  shows "ledger_inv limits mode (snd (mark_started limits now run_id res_id st))"
  using assms unfolding mark_started_def
  by (intro inv_on_run) (auto split: outcome.splits option.splits intro!: inv_modify_pending)

lemma cancel_body_eq:
  assumes inv: "ledger_inv limits mode st" and "check_writable st = Ok ()"
  shows "cancel_body limits now res_id st =
    (let st = tick limits now st in
       case map_of (st_pending st) res_id of
         None \<Rightarrow> (Err ReservationMissing, st)
       | Some p \<Rightarrow>
           if pd_started p then (Err AlreadyStarted, st)
           else (Ok (), (snd (release (req_amounts (pd_request p)) st))
                   \<lparr>st_pending := bt_remove res_id (st_pending st)\<rparr>))"
proof (cases "map_of (st_pending (tick limits now st)) res_id")
  case (Some p)
  then obtain run where "st_run (tick limits now st) = Some run"
    using run_of_pending [OF inv_tick [OF inv]] by blast
  with Some assms(2) show ?thesis by (simp add: cancel_body_def release_eq Let_def)
qed (use assms(2) in \<open>simp add: cancel_body_def Let_def\<close>)

lemma inv_cancel_body:
  assumes inv: "ledger_inv limits mode st"
  shows "ledger_inv limits mode (snd (cancel_body limits now res_id st))"
proof -
  let ?s = "tick limits now st"
  have inv': "ledger_inv limits mode ?s" by (rule inv_tick [OF inv])
  have "ledger_inv limits mode ((snd (release (req_amounts (pd_request p)) ?s))
      \<lparr>st_pending := bt_remove res_id (st_pending ?s)\<rparr>)"
    if p: "map_of (st_pending ?s) res_id = Some p" for p
  proof -
    obtain run where run: "st_run ?s = Some run" using run_of_pending [OF inv' p] by blast
    show ?thesis
      using inv_resolve [OF inv' p run, of "st_charged ?s" "\<lambda>_. 0" "rr_charged (rs_report run)" "st_usage ?s" "st_stop ?s"]
      by (simp add: release_eq run)
  qed
  note this [simp]
  show ?thesis
  proof (cases "check_writable st")
    case (Ok u)
    with inv' show ?thesis by (auto simp: cancel_body_eq [OF inv] Let_def split: option.splits)
  qed (use inv in \<open>auto simp: cancel_body_def\<close>)
qed

text \<open>The updates of a settlement in the order of \<open>inv_resolve\<close>.\<close>

lemma settle_update_order:
  "s\<lparr>st_reserved := a, st_charged := c, st_run := x, st_usage := u, st_pending := p\<rparr> =
     s\<lparr>st_charged := c, st_reserved := a, st_usage := u, st_run := x, st_pending := p\<rparr>"
  "s\<lparr>st_charged := c, st_reserved := a, st_usage := u, st_run := x, st_pending := p, st_stop := y\<rparr> =
     s\<lparr>st_charged := c, st_reserved := a, st_usage := u, st_stop := y, st_run := x, st_pending := p\<rparr>"
  "r\<lparr>rr_reserved := a, rr_charged := c\<rparr> = r\<lparr>rr_charged := c, rr_reserved := a\<rparr>"
  by (cases s; cases r; simp)+

lemma settle_update_same_stop:
  "st_stop s = y \<Longrightarrow> s\<lparr>st_charged := c, st_reserved := a, st_usage := u, st_stop := y, st_run := x, st_pending := p\<rparr> =
     s\<lparr>st_charged := c, st_reserved := a, st_usage := u, st_run := x, st_pending := p\<rparr>"
  by (cases s) simp

lemma inv_settle_body:
  assumes inv: "ledger_inv limits mode st"
  shows "ledger_inv limits mode (snd (settle_body limits now res_id usage st))"
proof -
  let ?s = "tick limits now st"
  have inv': "ledger_inv limits mode ?s" by (rule inv_tick [OF inv])
  have failed: "ledger_inv limits mode ((insert_stop AccountingOverflow ?s)\<lparr>st_pending :=
      bt_modify res_id (\<lambda>p. p\<lparr>pd_failed_usage := Some usage\<rparr>) (st_pending ?s)\<rparr>)"
    if "map_of (st_pending ?s) res_id = Some p" "pd_started p" for p
    using inv_modify_pending [OF inv_insert_stop [OF inv', of AccountingOverflow],
        of "\<lambda>p. p\<lparr>pd_failed_usage := Some usage\<rparr>" res_id] that by simp
  have settled: "ledger_inv limits mode (?s\<lparr>st_charged := c,
      st_reserved := released (req_amounts (pd_request p)) (st_reserved ?s),
      st_usage := u, st_stop := s,
      st_run := Some (run\<lparr>rs_report := (rs_report run)\<lparr>rr_charged := rc,
        rr_reserved := released (req_amounts (pd_request p)) (rr_reserved (rs_report run))\<rparr>\<rparr>),
      st_pending := bt_remove res_id (st_pending ?s)\<rparr>)"
    if p: "map_of (st_pending ?s) res_id = Some p" and run: "st_run ?s = Some run"
      and ok: "settlement_of ?s (pd_request p) usage = Ok (c, rc, u, breach)"
      and s: "s = None \<Longrightarrow> breach = None \<and> st_stop ?s = None" for p run c rc u breach s
    by (rule settlement_of_Ok [OF ok run], rule inv_resolve [OF inv' p run]) (use s in blast)+
  show ?thesis
  proof (cases "check_writable st")
    case (Ok x)
    show ?thesis
    proof (cases "map_of (st_pending ?s) res_id")
      case (Some p)
      obtain run where run: "st_run ?s = Some run" using run_of_pending [OF inv' Some] by blast
      show ?thesis
      proof (cases "settlement_of ?s (pd_request p) usage")
        case ok: (Ok q)
        obtain c rc u b where q: "q = (c, rc, u, b)" by (cases q)
        let ?stop = "case b of None \<Rightarrow> st_stop ?s | Some r \<Rightarrow>
            (case st_stop ?s of None \<Rightarrow> Some (UsageExceededReservation r) | Some y \<Rightarrow> Some y)"
        note settled = settled [OF Some run ok [unfolded q], of ?stop]
        show ?thesis
        proof (cases b)
          case None
          with settled Ok Some run ok q inv' show ?thesis
            by (auto simp: settle_body_def Let_def release_eq update_report_def settle_update_order
                settle_update_same_stop)
        next
          case (Some r)
          with settled Ok \<open>map_of (st_pending ?s) res_id = Some p\<close> run ok q inv' show ?thesis
            by (cases "st_stop ?s")
              (auto simp: settle_body_def Let_def release_eq update_report_def insert_stop_def
                settle_update_order settle_update_same_stop)
        qed
      qed (use Ok Some inv' failed in \<open>auto simp: settle_body_def Let_def\<close>)
    qed (use Ok inv' in \<open>simp add: settle_body_def Let_def\<close>)
  qed (use inv in \<open>auto simp: settle_body_def\<close>)
qed

lemma inv_drop_reservation:
  assumes inv: "ledger_inv limits mode st"
  shows "ledger_inv limits mode (snd (drop_reservation limits now res_id st))"
  using inv inv_tick [OF inv, of now]
  by (auto simp: drop_reservation_def Let_def split: option.splits intro!: inv_insert_stop inv_modify_pending)

lemma inv_cancel_before_start:
  assumes "ledger_inv limits mode st"
  shows "ledger_inv limits mode (snd (cancel_before_start limits now now' res_id st))"
  using inv_cancel_body [OF assms, of now res_id]
  by (auto simp: cancel_before_start_def split: prod.splits outcome.splits intro: inv_drop_reservation)

lemma inv_settle:
  assumes "ledger_inv limits mode st"
  shows "ledger_inv limits mode (snd (settle limits now now' res_id usage st))"
  using inv_settle_body [OF assms, of now res_id usage]
  by (auto simp: settle_def split: prod.splits outcome.splits option.splits intro: inv_drop_reservation)

lemma inv_consume_attempt:
  assumes "ledger_inv limits mode st"
  shows "ledger_inv limits mode (snd (consume_attempt limits mode now now' now'' run_id amounts st))"
  using inv_reserve [OF assms, of now run_id "new_request amounts"]
  by (auto simp: consume_attempt_def split: prod.splits outcome.splits intro: inv_cancel_before_start)

end
