(* ===== verification/LedgerSteps.thy ===== *)
theory LedgerSteps
  imports LedgerOps Checkpoint
begin

text \<open>
  What holds across operations of the ledger: every operation keeps the invariant, only moves
  forward, never panics and does nothing once the ledger is sealed or frozen. The contract is
  the locale \<open>ledger_op\<close>, interpreted for each operation, and the reachable states are those
  of the step relation \<open>ledger_step\<close>, which has sealing as a step too.
\<close>

section \<open>Progress\<close>

text \<open>
  Charges, numbers and times only grow, a task stop is never replaced, attempt charges pass
  their limit only if they already had, and the audit records stay.
\<close>

definition progress :: "budget_limits \<Rightarrow> ledger_state \<Rightarrow> ledger_state \<Rightarrow> bool" where
  "progress limits s t \<longleftrightarrow>
     (\<forall>r. amount (st_charged s) r \<le> amount (st_charged t) r) \<and>
     (\<forall>r. is_attempt r \<longrightarrow>
        amount (st_charged t) r \<le> max (amount (st_charged s) r) (limit limits r)) \<and>
     st_next_id s \<le> st_next_id t \<and>
     st_active_time s \<le> st_active_time t \<and>
     st_cleanup_time s \<le> st_cleanup_time t \<and>
     (\<forall>x. st_stop s = Some x \<longrightarrow> st_stop t = Some x) \<and>
     st_sealed t = st_sealed s \<and> st_recovery_frozen t = st_recovery_frozen s \<and>
     st_checkpoint_revision t = st_checkpoint_revision s \<and>
     st_grants t = st_grants s \<and> st_recoveries t = st_recoveries s"

lemma progress_refl [simp]: "progress limits s s"
  by (auto simp: progress_def)

lemma progress_trans:
  assumes st: "progress limits s t" and tu: "progress limits t u"
  shows "progress limits s u"
proof -
  have "amount (st_charged s) r \<le> amount (st_charged u) r" for r
    by (rule order_trans [of _ "amount (st_charged t) r"]) (use st tu in \<open>simp_all add: progress_def\<close>)
  moreover have "amount (st_charged u) r \<le> max (amount (st_charged s) r) (limit limits r)"
    if "is_attempt r" for r
  proof (rule order_trans [of _ "max (amount (st_charged t) r) (limit limits r)"])
    show "amount (st_charged u) r \<le> max (amount (st_charged t) r) (limit limits r)"
      using tu that by (simp add: progress_def)
    show "max (amount (st_charged t) r) (limit limits r) \<le> max (amount (st_charged s) r) (limit limits r)"
      using st that by (simp add: progress_def)
  qed
  moreover have "st_next_id s \<le> st_next_id u" "st_active_time s \<le> st_active_time u"
    "st_cleanup_time s \<le> st_cleanup_time u"
    using st tu unfolding progress_def by (blast intro: order_trans)+
  ultimately show ?thesis using st tu by (simp add: progress_def)
qed

text \<open>Updates that keep charges, times and records.\<close>

lemma progress_frame:
  assumes "st_charged t = st_charged s" "st_next_id s \<le> st_next_id t" "st_active_time s \<le> st_active_time t"
    "st_cleanup_time s \<le> st_cleanup_time t" "\<And>x. st_stop s = Some x \<Longrightarrow> st_stop t = Some x"
    "st_sealed t = st_sealed s" "st_recovery_frozen t = st_recovery_frozen s"
    "st_checkpoint_revision t = st_checkpoint_revision s" "st_grants t = st_grants s"
    "st_recoveries t = st_recoveries s"
  shows "progress limits s t"
  using assms by (auto simp: progress_def)

lemma progress_insert_stop [simp]: "progress limits s (insert_stop x s)"
  by (rule progress_frame) auto

lemma progress_update_report [simp]: "progress limits s (update_report f s)"
  by (rule progress_frame) auto

lemma progress_tick_run: "st_run s = Some run \<Longrightarrow> progress limits' s (tick_run limits elapsed run s)"
  by (erule tick_run_cases [where limits = limits and elapsed = elapsed])
    (auto intro!: progress_frame)

lemma progress_tick [simp]: "progress limits' s (tick limits now s)"
proof -
  have c: "progress limits' s (s\<lparr>st_last_clock := now\<rparr>)" by (rule progress_frame) auto
  then show ?thesis
    by (auto simp: tick_def Let_def split: option.splits
        intro!: progress_trans [OF c] progress_tick_run)
qed

lemma tick_frozen [simp]: "st_sealed s \<or> st_recovery_frozen s \<Longrightarrow> tick limits now s = s"
  by (auto simp: tick_def)

lemma check_writable_frozen: "st_sealed s \<or> st_recovery_frozen s \<Longrightarrow> \<exists>e. check_writable s = Err e"
  by (auto simp: check_writable_def)

lemma check_run_frozen: "st_sealed s \<or> st_recovery_frozen s \<Longrightarrow> \<exists>e. check_run i s = Err e"
  using check_writable_frozen [of s] by (auto simp: check_run_def)

lemma on_run_frozen [simp]:
  "st_sealed s \<or> st_recovery_frozen s \<Longrightarrow> snd (on_run limits now i body s) = s"
  using check_run_frozen [of s i] by (auto simp: on_run_def Let_def)

lemma progress_on_run:
  assumes "\<And>t. ledger_inv limits mode s \<Longrightarrow> ledger_inv limits mode t \<Longrightarrow> check_run i t = Ok () \<Longrightarrow>
      progress limits' t (snd (body t))"
    and "ledger_inv limits mode s"
  shows "progress limits' s (snd (on_run limits now i body s))"
  using assms inv_tick [OF assms(2), of now]
  by (auto simp: on_run_def Let_def split: outcome.splits
      intro!: progress_trans [OF progress_tick [of limits' s limits now]])

lemma on_run_no_panic:
  assumes "ledger_inv limits mode s"
    and "\<And>t. ledger_inv limits mode t \<Longrightarrow> check_run i t = Ok () \<Longrightarrow> fst (body t) \<noteq> Panic"
  shows "fst (on_run limits now i body s) \<noteq> Panic"
  using assms inv_tick [OF assms(1), of now]
  by (auto simp: on_run_def Let_def split: outcome.splits)

section \<open>The contract of an operation\<close>

locale ledger_op =
  fixes limits :: budget_limits
    and mode :: token_budget_mode
    and op :: "ledger_state \<Rightarrow> 'a ledger_result"
  assumes op_inv: "ledger_inv limits mode s \<Longrightarrow> ledger_inv limits mode (snd (op s))"
    and op_progress: "ledger_inv limits mode s \<Longrightarrow> progress limits s (snd (op s))"
    and op_no_panic: "ledger_inv limits mode s \<Longrightarrow> fst (op s) \<noteq> Panic"
    and op_frozen: "st_sealed s \<or> st_recovery_frozen s \<Longrightarrow> snd (op s) = s"
begin

text \<open>What a caller who holds the lock sees of the operation.\<close>

lemma locked_op:
  assumes "ledger_inv limits mode (tb_state tb)" and "\<not> tb_poisoned tb"
  shows "\<not> tb_poisoned (snd (locked op tb))" "ledger_inv limits mode (tb_state (snd (locked op tb)))"
    "progress limits (tb_state tb) (tb_state (snd (locked op tb)))"
  using assms op_inv [OF assms(1)] op_progress [OF assms(1)] op_no_panic [OF assms(1)]
  by (auto simp: locked_def split: prod.splits)

lemma op_step:
  assumes "ledger_inv limits mode s"
  shows "ledger_inv limits mode (snd (op s)) \<and> progress limits s (snd (op s)) \<and>
    (st_sealed s \<or> st_recovery_frozen s \<longrightarrow> snd (op s) = s)"
  using assms op_inv op_progress op_frozen by blast

end

section \<open>Every operation meets the contract\<close>

lemma progress_reserve_fit:
  "st_stop s = None \<Longrightarrow> progress limits s (snd (reserve_fit task_limits request rs s))"
  by (induction rs) (auto simp: Let_def split: option.splits intro: progress_frame)

lemma progress_allocate_id: "progress limits s (snd (allocate_id s))"
proof (cases "checked_add (st_next_id s) 1")
  case (Some i)
  then have "st_next_id s \<le> i" by (simp add: checked_add_Some_iff word_le_nat_alt)
  with Some show ?thesis by (auto simp: allocate_id_def intro!: progress_frame)
qed (simp add: allocate_id_def)

lemma allocate_id_neq_Panic [simp]: "fst (allocate_id s) \<noteq> Panic" "allocate_id s \<noteq> (Panic, t)"
  by (auto simp: allocate_id_def split: option.splits)

lemma validate_request_neq_Panic [simp]: "validate_request request mode \<noteq> Panic"
  unfolding validate_request_def
  by (auto simp: validate_token_bound_def Let_def simp del: for_each.simps split: if_splits
      dest!: for_each_no_panic [THEN notE, rotated])

lemma release_neq_Panic [simp]: "release q s \<noteq> (Panic, t)"
  by (auto simp: release_eq split: option.splits)

lemma progress_reserve_commit:
  assumes "\<And>r. unat (amount (st_charged s) r) + unat (amount (st_reserved s) r) +
      unat (amount (req_amounts request) r) \<le> unat (limit limits r)"
    and "st_next_id s \<le> i"
  shows "progress limits s ((fold (reserve_one request) all_resources (s\<lparr>st_next_id := i\<rparr>))
      \<lparr>st_pending := m\<rparr>)"
proof -
  have c: "unat (amount (st_charged s) r + amount (req_amounts request) r) =
      unat (amount (st_charged s) r) + unat (amount (req_amounts request) r)" for r
    using assms(1) [of r] by (intro unat_add_le [where c = "limit limits r"]) simp
  have "amount (st_charged s) r + amount (req_amounts request) r \<le> limit limits r"
    and "amount (st_charged s) r \<le> amount (st_charged s) r + amount (req_amounts request) r" for r
    using assms(1) [of r] by (simp_all add: word_le_nat_alt c)
  then show ?thesis
    using assms(2) by (auto simp: progress_def fold_reserve_one le_max_iff_disj)
qed

lemma reserve_cases:
  assumes "check_run run_id t = Ok ()"
    and "reserve limits mode now run_id request s = (r, u)" "t = tick limits now s"
  obtains (rejected) e where "r = Err e" "u = t"
  | (stopped) e where "r = Err e" "u = snd (reserve_fit limits request all_resources t)" "st_stop t = None"
  | (exhausted) e where "r = Err e" "u = snd (allocate_id t)"
  | (accepted) i p where "r = Ok i" "validate_request request mode = Ok ()" "check_stop t = Ok ()"
      "reserve_fit limits request all_resources t = (Ok (), t)" "allocate_id t = (Ok i, t\<lparr>st_next_id := i\<rparr>)"
      "p = \<lparr>pd_id = i, pd_request = request, pd_started = False, pd_abandoned = False, pd_failed_usage = None\<rparr>"
      "u = (fold (reserve_one request) all_resources (t\<lparr>st_next_id := i\<rparr>))
         \<lparr>st_pending := bt_insert i p (st_pending t)\<rparr>"
proof -
  note eq = assms(2) [unfolded reserve_def on_run_def, folded assms(3)]
  show thesis
  proof (cases "and_then (check_stop t) (\<lambda>_. validate_request request mode)")
    case (Err e)
    with eq assms(1) show thesis by (intro rejected) (auto simp: Let_def assms(3))
  next
    case Panic
    then show thesis by (simp add: and_then_eq_Panic)
  next
    case (Ok v)
    then have valid: "check_stop t = Ok ()" "validate_request request mode = Ok ()" by (cases v; auto)+
    obtain x w where f: "reserve_fit limits request all_resources t = (x, w)" by fastforce
    show thesis
    proof (cases x)
      case (Err e)
      with eq assms(1) Ok f valid show thesis
        by (intro stopped) (auto simp: Let_def assms(3) [symmetric] check_stop_Ok)
    next
      case x: (Ok z)
      have w: "w = t" using reserve_fit_Ok(1) f x by metis
      obtain y v where al: "allocate_id t = (y, v)" by fastforce
      show thesis
      proof (cases y)
        case (Err e)
        with eq assms(1) Ok f w x al show thesis
          by (intro exhausted) (auto simp: Let_def assms(3) [symmetric])
      next
        case y: (Ok i)
        with al have v: "v = t\<lparr>st_next_id := i\<rparr>" by (simp add: allocate_id_Ok)
        have "st_pending (fold (reserve_one request) all_resources (t\<lparr>st_next_id := i\<rparr>)) = st_pending t"
          by (simp add: fold_reserve_one)
        with eq assms(1) Ok valid f w x al y v show thesis
          by (intro accepted) (auto simp: Let_def assms(3) [symmetric])
      qed (use al in auto)
    qed (use f in auto)
  qed
qed

lemma reserve_progress:
  assumes inv: "ledger_inv limits mode s"
  shows "progress limits s (snd (reserve limits mode now run_id request s))"
    and "fst (reserve limits mode now run_id request s) \<noteq> Panic"
proof -
  let ?t = "tick limits now s"
  obtain r u where eq: "reserve limits mode now run_id request s = (r, u)" by fastforce
  have "progress limits ?t u \<and> r \<noteq> Panic"
  proof (cases "check_run run_id ?t")
    case (Ok x)
    then have "check_run run_id ?t = Ok ()" by simp
    then show ?thesis using eq refl
    proof (cases rule: reserve_cases)
      case stopped
      then show ?thesis using progress_reserve_fit [of ?t limits limits request all_resources] by simp
    next
      case exhausted
      then show ?thesis using progress_allocate_id [of limits ?t] by simp
    next
      case (accepted i p)
      then have "st_next_id ?t \<le> i" by (simp add: allocate_id_Ok word_le_nat_alt)
      with accepted show ?thesis
        using progress_reserve_commit [OF reserve_fit_Ok(2) [OF accepted(4)], of i] by simp
    qed auto
  next
    case (Err e)
    with eq show ?thesis by (auto simp: reserve_def on_run_def Let_def)
  qed simp
  with eq show "progress limits s (snd (reserve limits mode now run_id request s))"
    "fst (reserve limits mode now run_id request s) \<noteq> Panic"
    by (auto intro: progress_trans [OF progress_tick [of limits s limits now]])
qed

lemma cancel_body_progress:
  assumes inv: "ledger_inv limits mode s"
  shows "progress limits s (snd (cancel_body limits now res_id s))"
    and "fst (cancel_body limits now res_id s) \<noteq> Panic"
proof -
  have "progress limits (tick limits now s) ((snd (release q (tick limits now s)))\<lparr>st_pending := m\<rparr>)" for q m
    by (rule progress_frame) (auto simp: release_eq split: option.splits)
  note p = progress_trans [OF progress_tick [of limits s limits now] this]
  have "progress limits s (snd (cancel_body limits now res_id s)) \<and>
    fst (cancel_body limits now res_id s) \<noteq> Panic"
  proof (cases "check_writable s")
    case (Ok u)
    then have w: "check_writable s = Ok ()" by simp
    show ?thesis using p by (auto simp: cancel_body_eq [OF inv w] Let_def split: option.splits)
  qed (auto simp: cancel_body_def)
  then show "progress limits s (snd (cancel_body limits now res_id s))"
    "fst (cancel_body limits now res_id s) \<noteq> Panic" by auto
qed

text \<open>A settlement in one equation, on a started entry of an invariant ledger.\<close>

lemma settle_body_eq:
  assumes inv: "ledger_inv limits mode s" and "check_writable s = Ok ()"
    and t: "t = tick limits now s"
    and p: "map_of (st_pending t) res_id = Some p" and started: "pd_started p"
    and run: "st_run t = Some run" and ok: "settlement_of t (pd_request p) usage = Ok (c, rc, u, breach)"
  shows "settle_body limits now res_id usage s = (Ok breach, t\<lparr>st_charged := c,
      st_reserved := released (req_amounts (pd_request p)) (st_reserved t), st_usage := u,
      st_stop := (case breach of None \<Rightarrow> st_stop t
        | Some r \<Rightarrow> st_stop (insert_stop (UsageExceededReservation r) t)),
      st_run := Some (run\<lparr>rs_report := (rs_report run)\<lparr>rr_charged := rc,
        rr_reserved := released (req_amounts (pd_request p)) (rr_reserved (rs_report run))\<rparr>\<rparr>),
      st_pending := bt_remove res_id (st_pending t)\<rparr>)"
  using assms(2) p started run ok unfolding t [symmetric]
  by (cases "st_stop t"; cases breach)
    (auto simp: settle_body_def Let_def t [symmetric] release_eq update_report_def insert_stop_def
      settle_update_order settle_update_same_stop)

lemma settle_body_progress:
  assumes inv: "ledger_inv limits mode s"
  shows "progress limits s (snd (settle_body limits now res_id usage s))"
    and "fst (settle_body limits now res_id usage s) \<noteq> Panic"
proof -
  let ?t = "tick limits now s"
  have "progress limits ?t (snd (settle_body limits now res_id usage s)) \<and>
      fst (settle_body limits now res_id usage s) \<noteq> Panic"
    if w: "check_writable s = Ok ()"
  proof (cases "map_of (st_pending ?t) res_id")
    case (Some p)
    obtain run where run: "st_run ?t = Some run" using run_of_pending [OF inv_tick [OF inv] Some] by blast
    show ?thesis
    proof (cases "pd_started p")
      case started: True
      show ?thesis
      proof (cases "settlement_of ?t (pd_request p) usage")
        case (Ok q)
        obtain c rc u b where q: "q = (c, rc, u, b)" by (cases q)
        note ok = Ok [unfolded q]
        obtain d where d: "\<And>r. unat (amount c r) = unat (amount (st_charged ?t) r) + d r"
          "\<And>r. is_attempt r \<Longrightarrow> d r = 0"
          by (rule settlement_of_Ok [OF ok run]) blast
        have "amount (st_charged ?t) r \<le> amount c r" for r
          by (simp add: word_le_nat_alt d)
        moreover have "amount c r = amount (st_charged ?t) r" if "is_attempt r" for r
          using that by (simp add: word_unat_eq_iff d)
        ultimately show ?thesis
          using settle_body_eq [OF inv w refl Some started run ok]
          by (auto simp: progress_def split: option.splits)
      next
        case (Err e)
        with w Some started show ?thesis
          by (auto simp: settle_body_def Let_def intro!: progress_frame)
      qed simp
    qed (use w Some in \<open>simp add: settle_body_def Let_def\<close>)
  qed (use w in \<open>simp add: settle_body_def Let_def\<close>)
  then show "progress limits s (snd (settle_body limits now res_id usage s))"
    "fst (settle_body limits now res_id usage s) \<noteq> Panic"
    by (cases "check_writable s"; auto simp: settle_body_def intro: progress_trans [OF progress_tick])+
qed

lemma drop_reservation_progress:
  "progress limits' s (snd (drop_reservation limits now res_id s))"
  by (auto simp: drop_reservation_def Let_def split: option.splits
      intro!: progress_trans [OF progress_tick [of limits' s limits now]] progress_frame)

lemma drop_reservation_Ok [simp]: "fst (drop_reservation limits now res_id s) = Ok ()"
  by (auto simp: drop_reservation_def Let_def split: option.splits)

text \<open>The operations of \<open>TaskBudget\<close> and \<open>BudgetRun\<close>.\<close>

lemma progress_set_stop: "st_stop s = None \<Longrightarrow> progress limits s (s\<lparr>st_stop := Some x\<rparr>)"
  by (rule progress_frame) auto

lemma progress_run: "progress limits s (s\<lparr>st_run := r\<rparr>)"
  by (rule progress_frame) auto

lemma begin_run_progress:
  "progress limits s (snd (begin_run_inner limits now now' turn run_limits s))"
  "fst (begin_run_inner limits now now' turn run_limits s) \<noteq> Panic"
proof -
  let ?t = "tick limits now s"
  have a: "progress limits ?t (tick limits now' (u\<lparr>st_run := r\<rparr>))" if "allocate_id ?t = (x, u)" for x u r
    using progress_allocate_id [of limits ?t] that
    by (auto intro: progress_trans [OF progress_trans [OF _ progress_run] progress_tick])
  have b: "progress limits ?t u" if "allocate_id ?t = (x, u)" for x u
    using progress_allocate_id [of limits ?t] that by simp
  have c: "check_writable s \<noteq> Panic" by simp
  have "progress limits ?t (snd (begin_run_inner limits now now' turn run_limits s)) \<and>
      fst (begin_run_inner limits now now' turn run_limits s) \<noteq> Panic" if "check_writable s = Ok ()"
    using that
    by (auto simp: begin_run_inner_def Let_def split: outcome.splits prod.splits
      intro: a b)
  then show "progress limits s (snd (begin_run_inner limits now now' turn run_limits s))"
    "fst (begin_run_inner limits now now' turn run_limits s) \<noteq> Panic"
    by (cases "check_writable s"; auto simp: begin_run_inner_def intro: progress_trans [OF progress_tick])+
qed

lemma finish_progress:
  "progress limits' s (snd (finish tb now run_id s))" "fst (finish tb now run_id s) \<noteq> Panic"
  by (auto simp: finish_def Let_def split: outcome.splits option.splits
      intro!: progress_trans [OF progress_tick [of limits' s "tb_limits tb" now]] progress_frame)

lemma report_progress:
  "progress limits' s (snd (report_op tb now s))" "fst (report_op tb now s) \<noteq> Panic"
  by (simp_all add: report_op_def Let_def)

lemma drop_run_progress:
  "progress limits' s (snd (drop_run limits now run_id s))" "fst (drop_run limits now run_id s) \<noteq> Panic"
  by (auto simp: drop_run_def Let_def split: option.splits
      intro!: progress_trans [OF progress_tick [of limits' s limits now]] progress_frame)

lemma metrics_progress:
  "progress limits' s (snd (metrics_op run_id f s))" "fst (metrics_op run_id f s) \<noteq> Panic"
  by (auto simp: metrics_op_def split: option.splits)

text \<open>Active time never passes its limits while nothing has stopped, so no subtraction underflows.\<close>

lemma time_within:
  assumes "ledger_inv limits mode t" "check_stop t = Ok ()" "st_run t = Some run"
  shows "st_active_time t \<le> lim_active_time limits"
    "rr_active_time (rs_report run) \<le> lim_active_time (rr_limits (rs_report run))"
  using assms by (auto simp: ledger_inv_def limit_inv_def check_stop_Ok run_stop_def)

text \<open>The contract of each operation.\<close>

lemma op_frozen_simps [simp]:
  assumes "st_sealed s \<or> st_recovery_frozen s"
  shows "snd (begin_run_inner limits now now' turn run_limits s) = s"
    and "snd (finish tb now run_id s) = s"
    and "snd (report_op tb now s) = s"
    and "snd (drop_run limits now run_id s) = s"
    and "snd (metrics_op run_id f s) = s"
    and "snd (cancel_body limits now res_id s) = s"
    and "snd (settle_body limits now res_id usage s) = s"
    and "snd (drop_reservation limits now res_id s) = s"
    and "snd (reserve limits mode now run_id request s) = s"
  using check_writable_frozen [OF assms] assms
  by (auto simp: begin_run_inner_def finish_def report_op_def drop_run_def metrics_op_def cancel_body_def
      settle_body_def drop_reservation_def reserve_def Let_def)

lemma contract_on_run:
  assumes "\<And>t. ledger_inv limits mode t \<Longrightarrow> check_run i t = Ok () \<Longrightarrow>
      progress limits t (snd (body t)) \<and> ledger_inv limits mode (snd (body t)) \<and> fst (body t) \<noteq> Panic"
  shows "ledger_op limits mode (on_run limits now i body)"
proof
  fix s assume inv: "ledger_inv limits mode s"
  show "ledger_inv limits mode (snd (on_run limits now i body s))"
    by (rule inv_on_run [OF inv]) (use assms in blast)
  show "progress limits s (snd (on_run limits now i body s))"
    by (rule progress_on_run [OF _ inv]) (use assms in blast)
  show "fst (on_run limits now i body s) \<noteq> Panic"
    by (rule on_run_no_panic [OF inv]) (use assms in blast)
qed simp

interpretation begin_op: ledger_op limits mode "begin_run_inner limits now now' turn run_limits"
  for limits mode now now' turn run_limits
  by unfold_locales (simp_all add: begin_run_progress inv_begin_run)

interpretation bind_op: ledger_op limits mode "bind_turn limits now run_id turn"
  for limits mode now run_id turn
  unfolding bind_turn_def
  by (rule contract_on_run) (auto split: option.splits intro: inv_update_report)

interpretation finish_op: ledger_op "tb_limits tb" mode "finish tb now run_id" for tb mode now run_id
  by unfold_locales (simp_all add: finish_progress inv_finish)

interpretation report_op: ledger_op "tb_limits tb" mode "report_op tb now" for tb mode now
  by unfold_locales (simp_all add: report_progress inv_reports)

interpretation prepare_op: ledger_op "tb_limits tb" mode "prepare_report tb now run_id" for tb mode now run_id
  unfolding prepare_report_def
  by (rule contract_on_run) (auto simp: Let_def intro: inv_update_report)

interpretation drop_run_op: ledger_op limits mode "drop_run limits now run_id" for limits mode now run_id
  by unfold_locales (simp_all add: drop_run_progress inv_run_operations)

interpretation check_op: ledger_op limits mode "check_active limits now run_id" for limits mode now run_id
  unfolding check_active_def by (rule contract_on_run) simp

interpretation remaining_op: ledger_op limits mode "remaining_time limits now run_id" for limits mode now run_id
  unfolding remaining_time_def
  by (rule contract_on_run)
    (auto simp: and_then_eq_Panic not_less split: option.splits dest: time_within)

interpretation expire_op: ledger_op limits mode "expire limits now run_id" for limits mode now run_id
  unfolding expire_def
  by (rule contract_on_run)
    (auto simp: is_ok_iff check_stop_Ok check_run_Ok split: option.splits outcome.splits
      intro: inv_set_stop inv_update_report progress_set_stop dest: time_within)

interpretation stop_op: ledger_op limits mode "stop_with limits now run_id reason"
  for limits mode now run_id reason
  unfolding stop_with_def
  by (rule contract_on_run) (auto split: option.splits intro: inv_update_report)

interpretation cleanup_op: ledger_op limits mode "begin_cleanup limits now run_id"
  for limits mode now run_id
  unfolding begin_cleanup_def
  by (rule contract_on_run) (auto simp: ledger_inv_defs progress_run split: option.splits)

interpretation metrics_op: ledger_op limits mode "metrics_op run_id f" for limits mode run_id f
  by unfold_locales (simp_all add: metrics_progress inv_run_operations)

interpretation reserve_op: ledger_op limits mode "reserve limits mode now run_id request"
  for limits mode now run_id request
  by unfold_locales (simp_all add: reserve_progress inv_reserve)

interpretation started_op: ledger_op limits mode "mark_started limits now run_id res_id"
  for limits mode now run_id res_id
  unfolding mark_started_def
  by (rule contract_on_run)
    (auto split: outcome.splits option.splits intro!: inv_modify_pending progress_frame)

interpretation cancel_body_op: ledger_op limits mode "cancel_body limits now res_id" for limits mode now res_id
  by unfold_locales (simp_all add: cancel_body_progress inv_cancel_body)

interpretation settle_body_op: ledger_op limits mode "settle_body limits now res_id usage"
  for limits mode now res_id usage
  by unfold_locales (simp_all add: settle_body_progress inv_settle_body)

interpretation drop_op: ledger_op limits mode "drop_reservation limits now res_id" for limits mode now res_id
  by unfold_locales (simp_all add: drop_reservation_progress inv_drop_reservation)

text \<open>Running one operation and, depending on its result, another.\<close>

lemma contract_return: "r \<noteq> Panic \<Longrightarrow> ledger_op limits mode (\<lambda>s. (r, s))"
  by unfold_locales auto

lemma contract_bind:
  fixes f :: "ledger_state \<Rightarrow> 'a ledger_result" and g :: "('a, budget_error) outcome \<Rightarrow> ledger_state \<Rightarrow> 'b ledger_result"
    and h :: "ledger_state \<Rightarrow> 'c ledger_result"
  assumes f: "ledger_op limits mode f" and g: "\<And>r. r \<noteq> Panic \<Longrightarrow> ledger_op limits mode (g r)"
    and h: "\<And>s. fst (f s) \<noteq> Panic \<Longrightarrow> snd (h s) = snd (g (fst (f s)) (snd (f s)))"
      "\<And>s. fst (f s) \<noteq> Panic \<Longrightarrow> fst (g (fst (f s)) (snd (f s))) \<noteq> Panic \<Longrightarrow> fst (h s) \<noteq> Panic"
      "\<And>s. fst (f s) = Panic \<Longrightarrow> snd (h s) = snd (f s)"
  shows "ledger_op limits mode h"
proof
  fix s :: ledger_state
  assume inv: "ledger_inv limits mode s"
  note fs = ledger_op.op_inv [OF f inv] ledger_op.op_progress [OF f inv] ledger_op.op_no_panic [OF f inv]
  note gs = ledger_op.op_inv [OF g [OF fs(3)] fs(1)] ledger_op.op_progress [OF g [OF fs(3)] fs(1)]
    ledger_op.op_no_panic [OF g [OF fs(3)] fs(1)]
  show "ledger_inv limits mode (snd (h s))" using gs(1) h(1) [OF fs(3)] by simp
  show "progress limits s (snd (h s))" using progress_trans [OF fs(2) gs(2)] h(1) [OF fs(3)] by simp
  show "fst (h s) \<noteq> Panic" using gs(3) h(2) fs(3) by blast
next
  fix s :: ledger_state
  assume z: "st_sealed s \<or> st_recovery_frozen s"
  then have "snd (f s) = s" by (rule ledger_op.op_frozen [OF f])
  then show "snd (h s) = s"
    using ledger_op.op_frozen [OF g, OF _ z, of "fst (f s)"] h(1,3) [of s] by (cases "fst (f s) = Panic") auto
qed

interpretation cancel_op: ledger_op limits mode "cancel_before_start limits now now' res_id"
  for limits mode now now' res_id
  by (rule contract_bind [where f = "cancel_body limits now res_id" and
        g = "\<lambda>r. if is_ok r then (\<lambda>s. (Ok (), s)) else drop_reservation limits now' res_id"])
    (auto simp: cancel_before_start_def drop_op.ledger_op_axioms cancel_body_op.ledger_op_axioms
      intro: contract_return split: prod.splits outcome.splits)

interpretation settle_op: ledger_op limits mode "settle limits now now' res_id usage"
  for limits mode now now' res_id usage
  by (rule contract_bind [where f = "settle_body limits now res_id usage" and
        g = "\<lambda>r. if is_ok r then (\<lambda>s. (Ok (), s)) else drop_reservation limits now' res_id"])
    (auto simp: settle_def drop_op.ledger_op_axioms settle_body_op.ledger_op_axioms
      intro: contract_return split: prod.splits outcome.splits option.splits)

interpretation consume_op: ledger_op limits mode "consume_attempt limits mode now now' now'' run_id amounts"
  for limits mode now now' now'' run_id amounts
  by (rule contract_bind [where f = "reserve limits mode now run_id (new_request amounts)" and
        g = "\<lambda>r. case r of Ok i \<Rightarrow> cancel_before_start limits now' now'' i | _ \<Rightarrow> (\<lambda>s. (Ok (), s))"])
    (auto simp: consume_attempt_def reserve_op.ledger_op_axioms cancel_op.ledger_op_axioms
      intro: contract_return split: prod.splits outcome.splits)

section \<open>Reachable ledgers\<close>

text \<open>
  A step of a shared ledger: one locked operation of any of its handles, or its sealing. The
  numbers in the handles, the turn ids and the clock readings are arbitrary.
\<close>

inductive ledger_step :: "task_budget \<Rightarrow> ledger_state \<Rightarrow> ledger_state \<Rightarrow> bool" for tb where
  step_begin: "ledger_step tb s (snd (begin_run_inner (tb_limits tb) now now' turn run_limits s))"
| step_bind: "ledger_step tb s (snd (bind_turn (tb_limits tb) now i turn s))"
| step_prepare: "ledger_step tb s (snd (prepare_report tb now i s))"
| step_finish: "ledger_step tb s (snd (finish tb now i s))"
| step_report: "ledger_step tb s (snd (report_op tb now s))"
| step_drop_run: "ledger_step tb s (snd (drop_run (tb_limits tb) now i s))"
| step_check: "ledger_step tb s (snd (check_active (tb_limits tb) now i s))"
| step_remaining: "ledger_step tb s (snd (remaining_time (tb_limits tb) now i s))"
| step_expire: "ledger_step tb s (snd (expire (tb_limits tb) now i s))"
| step_stop: "ledger_step tb s (snd (stop_with (tb_limits tb) now i x s))"
| step_cleanup: "ledger_step tb s (snd (begin_cleanup (tb_limits tb) now i s))"
| step_metrics: "ledger_step tb s (snd (metrics_op i f s))"
| step_reserve: "ledger_step tb s (snd (reserve (tb_limits tb) (tb_token_mode tb) now i q s))"
| step_started: "ledger_step tb s (snd (mark_started (tb_limits tb) now i k s))"
| step_cancel: "ledger_step tb s (snd (cancel_before_start (tb_limits tb) now now' k s))"
| step_settle: "ledger_step tb s (snd (settle (tb_limits tb) now now' k u s))"
| step_drop: "ledger_step tb s (snd (drop_reservation (tb_limits tb) now k s))"
| step_seal: "ledger_step tb s (tb_state (snd (seal_checkpoint (tb\<lparr>tb_state := s\<rparr>) now anchor)))"

inductive ledger_reaches :: "task_budget \<Rightarrow> ledger_state \<Rightarrow> ledger_state \<Rightarrow> bool" for tb where
  reaches_refl: "ledger_reaches tb s s"
| reaches_step: "ledger_reaches tb s t \<Longrightarrow> ledger_step tb t u \<Longrightarrow> ledger_reaches tb s u"

lemmas op_steps =
  begin_op.op_step bind_op.op_step
  prepare_op.op_step finish_op.op_step report_op.op_step drop_run_op.op_step check_op.op_step
  remaining_op.op_step expire_op.op_step stop_op.op_step cleanup_op.op_step metrics_op.op_step
  reserve_op.op_step started_op.op_step cancel_op.op_step settle_op.op_step drop_op.op_step

lemma seal_state:
  "tb_state (snd (seal_checkpoint tb now anchor)) \<in> {tb_state tb, tick (tb_limits tb) now (tb_state tb),
     (tick (tb_limits tb) now (tb_state tb))\<lparr>st_sealed := True\<rparr>}"
  "st_sealed (tb_state tb) \<Longrightarrow> tb_state (snd (seal_checkpoint tb now anchor)) = tb_state tb"
  by (auto simp: seal_checkpoint_def Let_def split: option.splits outcome.splits)

lemma inv_sealed [simp]: "ledger_inv limits mode (s\<lparr>st_sealed := b\<rparr>) = ledger_inv limits mode s"
  by (cases "st_run s") (simp_all add: ledger_inv_defs pend_sum_def)

text \<open>Progress over a possible sealing.\<close>

definition ledger_later :: "budget_limits \<Rightarrow> ledger_state \<Rightarrow> ledger_state \<Rightarrow> bool" where
  "ledger_later limits s t \<longleftrightarrow> (st_sealed s \<longrightarrow> st_sealed t) \<and> progress limits s (t\<lparr>st_sealed := st_sealed s\<rparr>)"

lemma ledger_later_progress: "progress limits s t \<Longrightarrow> ledger_later limits s t"
  by (simp add: ledger_later_def progress_def)

lemma ledger_later_sealed: "progress limits s t \<Longrightarrow> ledger_later limits s (t\<lparr>st_sealed := True\<rparr>)"
  by (simp add: ledger_later_def progress_def)

lemma ledger_later_trans:
  assumes "ledger_later limits s t" and "ledger_later limits t u"
  shows "ledger_later limits s u"
proof -
  have "progress limits (t\<lparr>st_sealed := st_sealed s\<rparr>) (u\<lparr>st_sealed := st_sealed s\<rparr>)"
    using assms(2) by (simp add: ledger_later_def progress_def)
  then show ?thesis using assms progress_trans unfolding ledger_later_def by blast
qed

lemma seal_step:
  assumes "ledger_inv (tb_limits tb) mode s"
  shows "ledger_inv (tb_limits tb) mode (tb_state (snd (seal_checkpoint (tb\<lparr>tb_state := s\<rparr>) now anchor))) \<and>
    ledger_later (tb_limits tb) s (tb_state (snd (seal_checkpoint (tb\<lparr>tb_state := s\<rparr>) now anchor)))"
  using seal_state(1) [of "tb\<lparr>tb_state := s\<rparr>" now anchor] assms inv_tick [OF assms, of now]
    ledger_later_progress [OF progress_tick [of "tb_limits tb" s "tb_limits tb" now]] ledger_later_progress [OF progress_refl]
    ledger_later_sealed [OF progress_tick [of "tb_limits tb" s "tb_limits tb" now]]
  by auto

text \<open>A sealed ledger never changes; a ledger frozen for recovery can only be sealed.\<close>

lemma ledger_step_contract:
  assumes "ledger_step tb s t" and inv: "ledger_inv (tb_limits tb) (tb_token_mode tb) s"
  shows "ledger_inv (tb_limits tb) (tb_token_mode tb) t \<and> ledger_later (tb_limits tb) s t \<and>
    (st_sealed s \<longrightarrow> t = s) \<and> (st_recovery_frozen s \<longrightarrow> t = s \<or> t = s\<lparr>st_sealed := True\<rparr>)"
  using assms(1)
proof cases
  case (step_seal now anchor)
  then show ?thesis
    using seal_step [OF inv, of now anchor] seal_state [of "tb\<lparr>tb_state := s\<rparr>" now anchor] by auto
qed (use inv op_steps ledger_later_progress in metis)+

lemma ledger_reaches_contract:
  assumes "ledger_reaches tb s t" and "ledger_inv (tb_limits tb) (tb_token_mode tb) s"
  shows "ledger_inv (tb_limits tb) (tb_token_mode tb) t \<and> ledger_later (tb_limits tb) s t \<and>
    (st_sealed s \<longrightarrow> t = s) \<and> (st_recovery_frozen s \<longrightarrow> t = s \<or> t = s\<lparr>st_sealed := True\<rparr>)"
  using assms
proof induction
  case (reaches_step s t u)
  then have t: "ledger_inv (tb_limits tb) (tb_token_mode tb) t" "ledger_later (tb_limits tb) s t"
    "st_sealed s \<Longrightarrow> t = s" "st_recovery_frozen s \<Longrightarrow> t = s \<or> t = s\<lparr>st_sealed := True\<rparr>" by auto
  note u = ledger_step_contract [OF reaches_step.hyps(2) t(1)]
  then have "ledger_later (tb_limits tb) s u" using t(2) by (blast intro: ledger_later_trans)
  moreover have "u = s \<or> u = s\<lparr>st_sealed := True\<rparr>" if "st_recovery_frozen s"
    using t(4) [OF that] u that by auto
  ultimately show ?case using t u by metis
qed (simp add: ledger_later_progress)

end
