(* ===== verification/CheckpointInv.thy ===== *)
theory CheckpointInv
  imports Checkpoint LedgerSteps
begin

text \<open>
  What the validation of an image decides: \<open>validate_image\<close> accepts exactly the images that
  satisfy \<open>image_inv\<close>, the ledger invariant read off a report. So sealing an invariant ledger
  gives a valid image, and restoring a valid image gives an invariant ledger.
\<close>

section \<open>The scan of the pending entries\<close>

abbreviation pending_total :: "budget_pending_report list \<Rightarrow> budget_resource \<Rightarrow> nat" where
  "pending_total ps r \<equiv> sum_list (map (\<lambda>p. unat (amount (req_amounts (pd_request p)) r)) ps)"

lemma pending_resources_iff:
  assumes "distinct rs"
  shows "for_each (pending_resource_step p) rs (res, att) = Ok (res', att') \<longleftrightarrow>
    (\<forall>r. if r \<in> set rs
         then (if is_attempt r
               then unat (amount att' r) = unat (amount att r) + unat (amount (req_amounts (pd_request p)) r) \<and>
                    amount res' r = amount res r
               else unat (amount res' r) = unat (amount res r) + unat (amount (req_amounts (pd_request p)) r) \<and>
                    amount att' r = amount att r)
         else amount res' r = amount res r \<and> amount att' r = amount att r)"
  using assms
proof (induction rs arbitrary: res att)
  case Nil
  show ?case by (auto simp: budget_amounts_eq_iff)
next
  case (Cons r rs)
  show ?case
  proof (cases "is_attempt r")
    case True
    then have "for_each (pending_resource_step p) (r # rs) (res, att) = Ok (res', att') \<longleftrightarrow>
      (\<exists>v. unat v = unat (amount att r) + unat (amount (req_amounts (pd_request p)) r) \<and>
           for_each (pending_resource_step p) rs (res, set_amount r v att) = Ok (res', att'))"
      by (auto simp: pending_resource_step_def Let_def checked_add_Some_iff)
    also have "\<dots> \<longleftrightarrow> unat (amount att' r) = unat (amount att r) + unat (amount (req_amounts (pd_request p)) r) \<and>
           for_each (pending_resource_step p) rs (res, set_amount r (amount att' r) att) = Ok (res', att')"
      using Cons by (auto split: if_splits)
    finally show ?thesis using True Cons by (auto split: if_splits)
  next
    case False
    then have "for_each (pending_resource_step p) (r # rs) (res, att) = Ok (res', att') \<longleftrightarrow>
      (\<exists>v. unat v = unat (amount res r) + unat (amount (req_amounts (pd_request p)) r) \<and>
           for_each (pending_resource_step p) rs (set_amount r v res, att) = Ok (res', att'))"
      by (auto simp: pending_resource_step_def Let_def checked_add_Some_iff)
    also have "\<dots> \<longleftrightarrow> unat (amount res' r) = unat (amount res r) + unat (amount (req_amounts (pd_request p)) r) \<and>
           for_each (pending_resource_step p) rs (set_amount r (amount res' r) res, att) = Ok (res', att')"
      using Cons by (auto split: if_splits)
    finally show ?thesis using False Cons by (auto split: if_splits)
  qed
qed

text \<open>The two totals after scanning all entries, for given starting totals.\<close>

definition pending_ok_in :: "u64 \<Rightarrow> token_budget_mode \<Rightarrow> budget_pending_report \<Rightarrow> bool" where
  "pending_ok_in next_id mode p \<longleftrightarrow>
     0 < pd_id p \<and> pd_id p \<le> next_id \<and> validate_request (pd_request p) mode = Ok () \<and>
     (pd_failed_usage p \<noteq> None \<longrightarrow> pd_started p)"

definition totals_after ::
    "budget_pending_report list \<Rightarrow> budget_amounts \<Rightarrow> budget_amounts \<Rightarrow> budget_amounts \<Rightarrow> budget_amounts \<Rightarrow> bool" where
  "totals_after ps res att res' att' \<longleftrightarrow>
     (\<forall>r. if is_attempt r
          then unat (amount att' r) = unat (amount att r) + pending_total ps r \<and> amount res' r = amount res r
          else unat (amount res' r) = unat (amount res r) + pending_total ps r \<and> amount att' r = amount att r)"

lemma totals_after_Nil [simp]: "totals_after [] res att res' att' \<longleftrightarrow> res' = res \<and> att' = att"
  by (auto simp: totals_after_def budget_amounts_eq_iff word_unat_eq_iff split: if_splits)

text \<open>Machine amounts below given bounds exist for every family of naturals below them.\<close>

lemma amounts_exist:
  assumes "\<And>r. f r \<le> unat (amount b r)"
  shows "\<exists>a. \<forall>r. unat (amount a r) = f r"
proof -
  let ?a = "fold (\<lambda>r. set_amount r (of_nat (f r))) all_resources default_amounts"
  have "f r < 2 ^ 64" for r
    using assms [of r] unsigned_less [of "amount b r", where ?'a = nat] by simp
  then have "unat (amount ?a r) = f r" for r
    by (cases r) (simp_all add: all_resources_def unat_of_nat)
  then show ?thesis by blast
qed

lemma totals_after_Cons:
  "totals_after (p # ps) res att res' att' \<longleftrightarrow>
     (\<exists>res1 att1. totals_after [p] res att res1 att1 \<and> totals_after ps res1 att1 res' att')" (is "?L \<longleftrightarrow> ?R")
proof
  assume ?R
  then show ?L unfolding totals_after_def by (fastforce split: if_splits)
next
  assume L: ?L
  let ?q = "\<lambda>r. unat (amount (req_amounts (pd_request p)) r)"
  obtain res1 where res1: "\<And>r. unat (amount res1 r) = unat (amount res r) + (if is_attempt r then 0 else ?q r)"
    using L amounts_exist [of "\<lambda>r. unat (amount res r) + (if is_attempt r then 0 else ?q r)" res']
    by (fastforce simp: totals_after_def split: if_splits)
  obtain att1 where att1: "\<And>r. unat (amount att1 r) = unat (amount att r) + (if is_attempt r then ?q r else 0)"
    using L amounts_exist [of "\<lambda>r. unat (amount att r) + (if is_attempt r then ?q r else 0)" att']
    by (fastforce simp: totals_after_def split: if_splits)
  have "totals_after [p] res att res1 att1 \<and> totals_after ps res1 att1 res' att'"
    using L unfolding totals_after_def
    by (auto simp: res1 att1 word_unat_eq_iff split: if_splits)
  then show ?R by blast
qed

lemma pending_step_iff:
  "pending_step n m p (ids, res, att) = Ok x \<longleftrightarrow>
     pending_ok_in n m p \<and> pd_id p \<notin> set ids \<and>
     (\<exists>res1 att1. x = (pd_id p # ids, res1, att1) \<and> totals_after [p] res att res1 att1)"
proof -
  have step: "for_each (pending_resource_step p) all_resources (res, att) = Ok (res', att') \<longleftrightarrow>
      totals_after [p] res att res' att'" for res' att'
    by (simp add: pending_resources_iff totals_after_def)
  have "map_err (\<lambda>_. CpInvalid ''invalid pending resource request'') (validate_request (pd_request p) m) = Ok u
      \<longleftrightarrow> validate_request (pd_request p) m = Ok ()" for u
    by simp
  then show ?thesis
    by (auto simp: pending_step_def pending_ok_in_def step not_le word_gt_0 simp del: for_each.simps)
qed

lemma pending_scan_iff:
  "for_each (pending_step n m) ps (ids, res, att) = Ok (ids', res', att') \<longleftrightarrow>
     ids' = rev (map pd_id ps) @ ids \<and> list_all (pending_ok_in n m) ps \<and>
     distinct (map pd_id ps) \<and> set (map pd_id ps) \<inter> set ids = {} \<and>
     totals_after ps res att res' att'"
proof (induction ps arbitrary: ids res att)
  case (Cons p ps)
  have "for_each (pending_step n m) (p # ps) (ids, res, att) = Ok (ids', res', att') \<longleftrightarrow>
     pending_ok_in n m p \<and> pd_id p \<notin> set ids \<and>
     (\<exists>res1 att1. totals_after [p] res att res1 att1 \<and>
        for_each (pending_step n m) ps (pd_id p # ids, res1, att1) = Ok (ids', res', att'))"
    by (auto simp: pending_step_iff)
  then show ?case by (auto simp: Cons.IH totals_after_Cons [of p ps])
qed auto

section \<open>What \<open>validate_image\<close> decides\<close>

lemma for_each_unit:
  "for_each (\<lambda>x _. f x) xs () = Ok () \<longleftrightarrow> (\<forall>x \<in> set xs. f x = Ok ())"
  by (induction xs) auto

lemma for_each_unit':
  "for_each f xs () = Ok u \<longleftrightarrow> (\<forall>x \<in> set xs. f x () = Ok ())" for f :: "'x \<Rightarrow> unit \<Rightarrow> (unit, 'e) outcome"
  by (induction xs) auto

definition anchor_ok :: "budget_identity \<Rightarrow> budget_event_cursor option \<Rightarrow> bool" where
  "anchor_ok identity anchor \<longleftrightarrow>
     (case anchor of None \<Rightarrow> True
      | Some a \<Rightarrow> cur_session_id a = id_session_id identity \<and> \<not> is_blank (cur_turn_id a) \<and>
          \<not> is_blank (cur_event_id a))"

definition run_image_inv :: "budget_report \<Rightarrow> budget_run_report \<Rightarrow> bool" where
  "run_image_inv rep run \<longleftrightarrow>
     (\<forall>t. rr_turn_id run = Some t \<longrightarrow> \<not> is_blank t) \<and>
     rr_reserved run = br_reserved rep \<and> rr_active_time run \<le> br_active_time rep \<and>
     rr_cleanup_time run \<le> br_cleanup_time rep \<and>
     (\<forall>r. amount (rr_charged run) r \<le> amount (br_charged rep) r) \<and>
     (\<forall>r. is_attempt r \<longrightarrow> pending_total (br_pending rep) r \<le> unat (amount (rr_charged run) r)) \<and>
     limits_le (rr_limits run) (br_limits rep) \<and>
     (rr_stop run = None \<and> br_stop rep = None \<longrightarrow>
        within (rr_charged run) (rr_reserved run) (rr_limits run) \<and>
        rr_active_time run \<le> lim_active_time (rr_limits run))"

definition image_inv :: "budget_checkpoint \<Rightarrow> bool" where
  "image_inv cp \<longleftrightarrow>
     (let rep = cp_report cp in
      cp_revision cp \<noteq> 0 \<and> \<not> identity_blank (br_identity rep) \<and>
      anchor_ok (br_identity rep) (cp_anchor cp) \<and>
      (cp_run_id cp = None \<longleftrightarrow> br_run rep = None) \<and>
      (br_run rep = None \<longrightarrow> br_pending rep = []) \<and>
      (\<forall>i. cp_run_id cp = Some i \<longrightarrow> 0 < i \<and> i \<le> cp_next_id cp \<and> i \<notin> set (map pd_id (br_pending rep))) \<and>
      list_all (pending_ok_in (cp_next_id cp) (br_token_mode rep)) (br_pending rep) \<and>
      distinct (map pd_id (br_pending rep)) \<and>
      (\<forall>r. if is_attempt r
           then amount (br_reserved rep) r = 0 \<and> pending_total (br_pending rep) r \<le> unat (amount (br_charged rep) r)
           else unat (amount (br_reserved rep) r) = pending_total (br_pending rep) r) \<and>
      (cp_next_id cp = 0 \<longrightarrow> br_charged rep = default_amounts \<and> br_active_time rep = 0) \<and>
      (br_stop rep = None \<longrightarrow> within (br_charged rep) (br_reserved rep) (br_limits rep) \<and>
         br_active_time rep \<le> lim_active_time (br_limits rep)) \<and>
      (\<forall>r. \<not> is_attempt r \<longrightarrow>
         unat (tot_actual (usage_get (br_usage rep) r)) + unat (tot_estimated (usage_get (br_usage rep) r))
           \<le> unat (amount (br_charged rep) r)) \<and>
      (\<forall>run. br_run rep = Some run \<longrightarrow> run_image_inv rep run))"

lemma validate_usage_iff:
  "validate_usage rep (r, u) x = Ok () \<longleftrightarrow>
     unat (tot_actual u) + unat (tot_estimated u) \<le> unat (amount (br_charged rep) r)"
proof (cases "checked_add (tot_actual u) (tot_estimated u)")
  case None
  then have "unat (amount (br_charged rep) r) < unat (tot_actual u) + unat (tot_estimated u)"
    using unsigned_less [of "amount (br_charged rep) r", where ?'a = nat]
    unfolding checked_add_None_iff by linarith
  with None show ?thesis by (simp add: validate_usage_def)
next
  case (Some v)
  then have "unat v = unat (tot_actual u) + unat (tot_estimated u)" by (simp add: checked_add_Some_iff)
  with Some show ?thesis by (simp add: validate_usage_def not_less word_le_nat_alt)
qed

lemma validate_usages_iff:
  "for_each (validate_usage rep)
      [(InputTokens, ur_input_tokens (br_usage rep)), (OutputTokens, ur_output_tokens (br_usage rep)),
       (ToolOutputBytes, ur_tool_output_bytes (br_usage rep))] () = Ok u \<longleftrightarrow>
   (\<forall>r. \<not> is_attempt r \<longrightarrow>
      unat (tot_actual (usage_get (br_usage rep) r)) + unat (tot_estimated (usage_get (br_usage rep) r))
        \<le> unat (amount (br_charged rep) r))" (is "?L \<longleftrightarrow> ?R")
proof
  assume ?L
  then have *: "unat (tot_actual (ur_input_tokens (br_usage rep))) + unat (tot_estimated (ur_input_tokens (br_usage rep)))
      \<le> unat (amount (br_charged rep) InputTokens)"
    "unat (tot_actual (ur_output_tokens (br_usage rep))) + unat (tot_estimated (ur_output_tokens (br_usage rep)))
      \<le> unat (amount (br_charged rep) OutputTokens)"
    "unat (tot_actual (ur_tool_output_bytes (br_usage rep))) + unat (tot_estimated (ur_tool_output_bytes (br_usage rep)))
      \<le> unat (amount (br_charged rep) ToolOutputBytes)"
    unfolding for_each_unit' by (simp_all add: validate_usage_iff del: amount.simps)
  show ?R
  proof (intro allI impI)
    fix r assume "\<not> is_attempt r"
    then show "unat (tot_actual (usage_get (br_usage rep) r)) + unat (tot_estimated (usage_get (br_usage rep) r))
        \<le> unat (amount (br_charged rep) r)"
      using * by (cases r) simp_all
  qed
next
  assume R: ?R
  show ?L
    unfolding for_each_unit'
    using R [rule_format, of InputTokens] R [rule_format, of OutputTokens] R [rule_format, of ToolOutputBytes]
    by (simp add: validate_usage_iff del: amount.simps)
qed

lemma validate_run_iff:
  assumes "\<And>r. unat (amount att r) = (if is_attempt r then pending_total (br_pending rep) r else 0)"
  shows "validate_run rep att run = Ok u \<longleftrightarrow> run_image_inv rep run"
proof -
  have att: "amount att r > amount (rr_charged run) r \<longleftrightarrow>
      is_attempt r \<and> unat (amount (rr_charged run) r) < pending_total (br_pending rep) r" for r
    using assms [of r] by (simp add: word_less_nat_alt)
  have res: "(\<forall>r. validate_run_resource rep run att r () = Ok ()) \<longleftrightarrow>
      (\<forall>r. amount (rr_charged run) r \<le> amount (br_charged rep) r) \<and>
      (\<forall>r. is_attempt r \<longrightarrow> pending_total (br_pending rep) r \<le> unat (amount (rr_charged run) r)) \<and>
      (\<forall>r. limit (rr_limits run) r \<le> limit (br_limits rep) r) \<and>
      (rr_stop run = None \<and> br_stop rep = None \<longrightarrow> within (rr_charged run) (rr_reserved run) (rr_limits run))"
    by (auto simp: validate_run_resource_def att fits_iff within_def stop_or_def not_less not_le
        split: option.splits)
  have "validate_run rep att run = Ok u \<longleftrightarrow>
      \<not> (case rr_turn_id run of None \<Rightarrow> False | Some i \<Rightarrow> is_blank i) \<and>
      \<not> (rr_reserved run \<noteq> br_reserved rep \<or> rr_active_time run > br_active_time rep \<or>
          rr_cleanup_time run > br_cleanup_time rep) \<and>
      (\<forall>r. validate_run_resource rep run att r () = Ok ()) \<and>
      \<not> (lim_active_time (rr_limits run) > lim_active_time (br_limits rep) \<or>
          (rr_active_time run > lim_active_time (rr_limits run) \<and> stop_or (rr_stop run) (br_stop rep) = None))"
    by (simp add: validate_run_def for_each_unit' set_all_resources del: for_each.simps)
  also have "\<dots> \<longleftrightarrow> run_image_inv rep run"
    unfolding res run_image_inv_def limits_le_iff
    by (auto simp: stop_or_def not_less split: option.splits)
  finally show ?thesis .
qed

lemma validate_task_iff:
  assumes "\<And>r. unat (amount att r) = (if is_attempt r then pending_total (br_pending rep) r else 0)"
  shows "for_each (validate_task_resource rep att) all_resources () = Ok u \<longleftrightarrow>
    (\<forall>r. is_attempt r \<longrightarrow> pending_total (br_pending rep) r \<le> unat (amount (br_charged rep) r)) \<and>
    (br_stop rep = None \<longrightarrow> within (br_charged rep) (br_reserved rep) (br_limits rep))"
proof -
  have att: "amount att r > amount (br_charged rep) r \<longleftrightarrow>
      is_attempt r \<and> unat (amount (br_charged rep) r) < pending_total (br_pending rep) r" for r
    using assms [of r] by (simp add: word_less_nat_alt)
  show ?thesis
    unfolding for_each_unit' set_all_resources
    by (auto simp: validate_task_resource_def att fits_iff within_def not_less not_le)
qed

lemma validate_image_iff: "validate_image cp = Ok u \<longleftrightarrow> image_inv cp"
proof -
  let ?rep = "cp_report cp"
  let ?ids = "case cp_run_id cp of None \<Rightarrow> [] | Some i \<Rightarrow> [i]"
  have ids: "(case cp_run_id cp of None \<Rightarrow> Ok []
      | Some i \<Rightarrow> if i = 0 \<or> i > cp_next_id cp then Err (CpInvalid ''invalid run ID watermark'') else Ok [i]) = Ok ids \<longleftrightarrow>
      (\<forall>i. cp_run_id cp = Some i \<longrightarrow> 0 < i \<and> i \<le> cp_next_id cp) \<and> ids = ?ids" for ids
    by (auto simp: word_gt_0 split: option.splits)
  have anchor: "\<not> (case cp_anchor cp of None \<Rightarrow> False
      | Some anchor \<Rightarrow> cur_session_id anchor \<noteq> id_session_id (br_identity ?rep) \<or>
          is_blank (cur_turn_id anchor) \<or> is_blank (cur_event_id anchor)) \<longleftrightarrow> anchor_ok (br_identity ?rep) (cp_anchor cp)"
    by (auto simp: anchor_ok_def split: option.splits)
  define rest where "rest att \<longleftrightarrow>
      \<not> (cp_next_id cp = 0 \<and> (br_charged ?rep \<noteq> default_amounts \<or> br_active_time ?rep \<noteq> 0)) \<and>
      for_each (validate_task_resource ?rep att) all_resources () = Ok () \<and>
      \<not> (br_active_time ?rep > lim_active_time (br_limits ?rep) \<and> br_stop ?rep = None) \<and>
      (\<forall>r. \<not> is_attempt r \<longrightarrow>
         unat (tot_actual (usage_get (br_usage ?rep) r)) + unat (tot_estimated (usage_get (br_usage ?rep) r))
           \<le> unat (amount (br_charged ?rep) r)) \<and>
      (case br_run ?rep of None \<Rightarrow> Ok () | Some run \<Rightarrow> validate_run ?rep att run) = Ok ()" for att
  have "validate_image cp = Ok u \<longleftrightarrow>
      cp_revision cp \<noteq> 0 \<and> \<not> identity_blank (br_identity ?rep) \<and> anchor_ok (br_identity ?rep) (cp_anchor cp) \<and>
      (cp_run_id cp = None \<longleftrightarrow> br_run ?rep = None) \<and> (br_run ?rep = None \<longrightarrow> br_pending ?rep = []) \<and>
      (\<forall>i. cp_run_id cp = Some i \<longrightarrow> 0 < i \<and> i \<le> cp_next_id cp) \<and>
      (\<exists>ids res att. for_each (pending_step (cp_next_id cp) (br_token_mode ?rep)) (br_pending ?rep)
          (?ids, default_amounts, default_amounts) = Ok (ids, res, att) \<and> res = br_reserved ?rep \<and> rest att)"
    unfolding validate_image_def Let_def rest_def
    by (auto simp: ids anchor validate_usages_iff split: prod.splits simp del: for_each.simps)
  also have "\<dots> \<longleftrightarrow>
      cp_revision cp \<noteq> 0 \<and> \<not> identity_blank (br_identity ?rep) \<and> anchor_ok (br_identity ?rep) (cp_anchor cp) \<and>
      (cp_run_id cp = None \<longleftrightarrow> br_run ?rep = None) \<and> (br_run ?rep = None \<longrightarrow> br_pending ?rep = []) \<and>
      (\<forall>i. cp_run_id cp = Some i \<longrightarrow> 0 < i \<and> i \<le> cp_next_id cp \<and> i \<notin> set (map pd_id (br_pending ?rep))) \<and>
      list_all (pending_ok_in (cp_next_id cp) (br_token_mode ?rep)) (br_pending ?rep) \<and>
      distinct (map pd_id (br_pending ?rep)) \<and>
      (\<exists>att. totals_after (br_pending ?rep) default_amounts default_amounts (br_reserved ?rep) att \<and> rest att)"
    by (auto simp: pending_scan_iff split: option.splits)
  also have "\<dots> \<longleftrightarrow> image_inv cp"
  proof -
    let ?A = "\<lambda>att. \<forall>r. unat (amount att r) = (if is_attempt r then pending_total (br_pending ?rep) r else 0)"
    have tot: "totals_after (br_pending ?rep) default_amounts default_amounts (br_reserved ?rep) att \<longleftrightarrow>
        (\<forall>r. if is_attempt r then amount (br_reserved ?rep) r = 0
             else unat (amount (br_reserved ?rep) r) = pending_total (br_pending ?rep) r) \<and> ?A att" for att
      by (auto simp: totals_after_def unat_eq_0 split: if_splits)
    define B where "B \<longleftrightarrow>
        (cp_next_id cp = 0 \<longrightarrow> br_charged ?rep = default_amounts \<and> br_active_time ?rep = 0) \<and>
        (\<forall>r. is_attempt r \<longrightarrow> pending_total (br_pending ?rep) r \<le> unat (amount (br_charged ?rep) r)) \<and>
        (br_stop ?rep = None \<longrightarrow> within (br_charged ?rep) (br_reserved ?rep) (br_limits ?rep) \<and>
           br_active_time ?rep \<le> lim_active_time (br_limits ?rep)) \<and>
        (\<forall>r. \<not> is_attempt r \<longrightarrow>
           unat (tot_actual (usage_get (br_usage ?rep) r)) + unat (tot_estimated (usage_get (br_usage ?rep) r))
             \<le> unat (amount (br_charged ?rep) r)) \<and>
        (\<forall>run. br_run ?rep = Some run \<longrightarrow> run_image_inv ?rep run)"
    have rest_iff: "rest att \<longleftrightarrow> B" if "?A att" for att
      using that unfolding rest_def B_def
      by (auto simp: validate_task_iff validate_run_iff not_less simp del: for_each.simps split: option.splits)
    have ex: "\<exists>att. ?A att" if B
      by (rule amounts_exist [where b = "br_charged ?rep"]) (use that in \<open>simp add: B_def\<close>)
    have E: "(\<exists>att. (T \<and> ?A att) \<and> rest att) \<longleftrightarrow> T \<and> B" for T
      using rest_iff ex by blast
    show ?thesis
      unfolding tot E B_def image_inv_def Let_def by (auto split: if_splits)
  qed
  finally show ?thesis .
qed

section \<open>Images of ledgers, and ledgers of images\<close>

lemma pend_sum_eq_total: "pend_sum st r = pending_total (bt_values (st_pending st)) r"
  by (simp add: pend_sum_def)

text \<open>
  A run may be begun with, or bound to, any turn id; only the image of a ledger asks that the
  id of its open run is not blank.
\<close>

definition turn_named :: "ledger_state \<Rightarrow> bool" where
  "turn_named st \<longleftrightarrow>
     (case st_run st of None \<Rightarrow> True
      | Some run \<Rightarrow> (case rr_turn_id (rs_report run) of None \<Rightarrow> True | Some t \<Rightarrow> \<not> is_blank t))"

lemma turn_named_no_run [simp]: "st_run st = None \<Longrightarrow> turn_named st"
  by (simp add: turn_named_def)

lemma turn_named_default [simp]:
  "turn_named (default_state now)" "turn_named ((default_state now)\<lparr>st_checkpoint_revision := r\<rparr>)"
  by (simp_all add: default_state_def)

lemma turn_named_tick [simp]: "turn_named (tick limits now st) = turn_named st"
proof -
  have "turn_named (tick_run limits e run u) = turn_named u" if "st_run u = Some run" for e run u
    by (rule tick_run_cases [OF that, where limits = limits and elapsed = e]) (simp add: turn_named_def that)
  then show ?thesis
    by (auto simp: tick_def Let_def split: option.splits) (simp_all add: turn_named_def)
qed

lemma image_of_unnamed: "\<not> turn_named st \<Longrightarrow> \<not> image_inv (ledger_image tb anchor revision st)"
  by (auto simp: turn_named_def image_inv_def run_image_inv_def ledger_image_def snapshot_def Let_def
      split: option.splits)

lemma image_of_ledger:
  assumes inv: "ledger_inv (tb_limits tb) (tb_token_mode tb) st" and id: "\<not> identity_blank (tb_identity tb)"
    and anchor: "anchor_ok (tb_identity tb) anchor" and rev: "revision \<noteq> 0" and named: "turn_named st"
  shows "image_inv (ledger_image tb anchor revision st)"
proof -
  have wf: "bt_wf (st_pending st)" and ok: "list_all (pending_ok (tb_token_mode tb) (st_next_id st)) (st_pending st)"
    using inv by (simp_all add: ledger_inv_def id_inv_def)
  have ids: "map pd_id (bt_values (st_pending st)) = bt_keys (st_pending st)"
    using ok by (auto simp: list_all_iff pending_ok_def)
  have "list_all (pending_ok_in (st_next_id st) (tb_token_mode tb)) (bt_values (st_pending st))"
    using ok by (auto simp: list_all_iff pending_ok_def pending_ok_in_def)
  moreover have "distinct (map pd_id (bt_values (st_pending st)))"
    unfolding ids by (rule bt_wf_distinct [OF wf])
  moreover have "run_image_inv (snapshot tb st) (rs_report run)" if "st_run st = Some run" for run
    using inv named that
    by (auto simp: run_image_inv_def snapshot_def ledger_inv_def run_inv_def limit_inv_def pend_sum_eq_total
        turn_named_def)
  moreover have "rs_id run \<notin> set (map pd_id (bt_values (st_pending st)))" if "st_run st = Some run" for run
    unfolding ids using inv that by (simp add: ledger_inv_def id_inv_def)
  moreover have "\<forall>r. if is_attempt r
      then amount (st_reserved st) r = 0 \<and> pending_total (bt_values (st_pending st)) r \<le> unat (amount (st_charged st) r)
      else unat (amount (st_reserved st) r) = pending_total (bt_values (st_pending st)) r"
    using inv unfolding pend_sum_eq_total [symmetric] by (simp add: ledger_inv_def totals_inv_def)
  ultimately show ?thesis
    using inv id anchor rev
    by (cases "st_run st")
      (simp_all add: image_inv_def ledger_image_def snapshot_def Let_def ledger_inv_def usage_inv_def
        run_inv_def limit_inv_def id_inv_def del: list.map_comp map_map)
qed

lemma pending_fold:
  assumes "bt_wf m" and "distinct (map pd_id ps)" and "set (map pd_id ps) \<inter> fst ` set m = {}"
  shows "bt_wf (fold (\<lambda>p. bt_insert (pd_id p) p) ps m) \<and>
    set (fold (\<lambda>p. bt_insert (pd_id p) p) ps m) = set m \<union> (\<lambda>p. (pd_id p, p)) ` set ps \<and>
    sum_list (map f (bt_values (fold (\<lambda>p. bt_insert (pd_id p) p) ps m))) =
      sum_list (map f ps) + (sum_list (map f (bt_values m)) :: nat)"
  using assms
proof (induction ps arbitrary: m)
  case (Cons p ps)
  then have fresh: "pd_id p \<notin> fst ` set m" by simp
  have "set (map pd_id ps) \<inter> fst ` set (bt_insert (pd_id p) p m) = {}"
    using Cons.prems by auto
  note IH = Cons.IH [OF bt_wf_insert [OF Cons.prems(1)] _ this]
  show ?case
    using IH Cons.prems fresh sum_bt_insert_fresh [OF fresh, of f p]
    by (auto simp: set_bt_insert_fresh)
qed simp

lemma restored_stop_None:
  "restored_stop frozen rep limits = None \<longleftrightarrow>
     br_stop rep = None \<and> \<not> frozen \<and> br_active_time rep < lim_active_time limits \<and>
     within (br_charged rep) (br_reserved rep) limits"
proof -
  let ?f = "\<lambda>r stop. if \<not> fits (amount (br_charged rep) r) (amount (br_reserved rep) r) 0 (limit limits r)
    then stop_or stop (Some (ResourceLimit r)) else stop"
  have "fold ?f rs s = None \<longleftrightarrow> s = None \<and>
      (\<forall>r \<in> set rs. fits (amount (br_charged rep) r) (amount (br_reserved rep) r) 0 (limit limits r))" for rs s
    by (induction rs arbitrary: s) (auto simp: stop_or_def split: option.splits)
  then show ?thesis
    by (auto simp: restored_stop_def set_all_resources fits_iff within_def stop_or_def not_le split: option.splits)
qed

lemma restored_stop_within:
  assumes "within (br_charged rep) (br_reserved rep) limits"
  shows "restored_stop frozen rep limits =
    (if frozen then stop_or (br_stop rep) (Some RecoveryRequired)
     else if br_active_time rep \<ge> lim_active_time limits then stop_or (br_stop rep) (Some ActiveTime)
     else br_stop rep)"
proof -
  let ?f = "\<lambda>r stop. if \<not> fits (amount (br_charged rep) r) (amount (br_reserved rep) r) 0 (limit limits r)
    then stop_or stop (Some (ResourceLimit r)) else stop"
  have "fold ?f rs s = s" for rs s
    using assms by (induction rs) (simp_all add: fits_iff within_def)
  then show ?thesis by (simp add: restored_stop_def)
qed

lemma restored_stop_Some: "br_stop rep = Some x \<Longrightarrow> restored_stop frozen rep limits = Some x"
proof -
  let ?f = "\<lambda>r stop. if \<not> fits (amount (br_charged rep) r) (amount (br_reserved rep) r) 0 (limit limits r)
    then stop_or stop (Some (ResourceLimit r)) else stop"
  have "fold ?f rs (Some x) = Some x" for rs
    by (induction rs) (auto simp: stop_or_def)
  then show "br_stop rep = Some x \<Longrightarrow> restored_stop frozen rep limits = Some x"
    by (simp add: restored_stop_def stop_or_def)
qed

lemma restore_inv:
  assumes "restore_checkpoint cp context now = Ok tb"
  shows "ledger_inv (tb_limits tb) (tb_token_mode tb) (tb_state tb)"
proof -
  let ?rep = "cp_report cp" and ?st = "tb_state tb"
  have "validate cp = Ok ()" using assms by (auto simp: restore_checkpoint_def)
  then have "validate_image cp = Ok ()" by (simp add: validate_eq)
  then have img: "image_inv cp" by (simp add: validate_image_iff)
  have st: "st_charged ?st = br_charged ?rep" "st_reserved ?st = br_reserved ?rep" "st_usage ?st = br_usage ?rep"
    "st_active_time ?st = br_active_time ?rep" "st_cleanup_time ?st = br_cleanup_time ?rep"
    "st_pending ?st = fold (\<lambda>p. bt_insert (pd_id p) p) (br_pending ?rep) []" "st_next_id ?st = cp_next_id cp"
    "tb_limits tb = tightened_by (br_limits ?rep) (cx_host_limits context)" "tb_token_mode tb = br_token_mode ?rep"
    and stop: "st_stop ?st = restored_stop (cp_recovery_frozen cp \<or> br_run ?rep \<noteq> None \<or> br_pending ?rep \<noteq> []) ?rep (tb_limits tb)"
    and run: "st_run ?st = (case (br_run ?rep, cp_run_id cp) of
      (Some r, Some i) \<Rightarrow> Some \<lparr>rs_id = i, rs_report = r\<lparr>rr_open := False, rr_limits := tightened_by (rr_limits r) (tb_limits tb)\<rparr>,
        rs_cleaning = True\<rparr> | _ \<Rightarrow> None)"
    using assms by (auto simp: restore_checkpoint_def Let_def split: option.splits)
  have dist: "distinct (map pd_id (br_pending ?rep))" using img by (simp add: image_inv_def Let_def)
  have sum: "pend_sum ?st r = pending_total (br_pending ?rep) r" for r
    using pending_fold [of "[]" "br_pending ?rep" "\<lambda>p. unat (amount (req_amounts (pd_request p)) r)"] dist
    by (simp add: pend_sum_def st)
  have set: "set (st_pending ?st) = (\<lambda>p. (pd_id p, p)) ` set (br_pending ?rep)" and wf: "bt_wf (st_pending ?st)"
    using pending_fold [of "[]" "br_pending ?rep"] dist by (simp_all add: st)
  have "totals_inv ?st" "usage_inv ?st"
    using img unfolding totals_inv_def usage_inv_def image_inv_def Let_def sum st by blast+
  moreover have "limit_inv (tb_limits tb) ?st"
    unfolding limit_inv_def stop restored_stop_None
    by (auto simp: st run split: option.splits)
  moreover have "run_inv (tb_limits tb) ?st"
  proof (cases "br_run ?rep")
    case None
    with img have "br_pending ?rep = []" by (simp add: image_inv_def Let_def)
    with None show ?thesis by (simp add: run_inv_def run st)
  next
    case (Some r)
    then obtain i where "cp_run_id cp = Some i" using img by (auto simp: image_inv_def Let_def)
    with Some img show ?thesis by (auto simp: run_inv_def run st sum image_inv_def Let_def run_image_inv_def)
  qed
  moreover have "id_inv (tb_token_mode tb) ?st"
  proof -
    have ok: "list_all (pending_ok_in (cp_next_id cp) (br_token_mode ?rep)) (br_pending ?rep)"
      and ids: "\<forall>i. cp_run_id cp = Some i \<longrightarrow> 0 < i \<and> i \<le> cp_next_id cp \<and> i \<notin> set (map pd_id (br_pending ?rep))"
      and zero: "cp_next_id cp = 0 \<longrightarrow> br_charged ?rep = default_amounts \<and> br_active_time ?rep = 0"
      using img unfolding image_inv_def Let_def by blast+
    have "list_all (pending_ok (br_token_mode ?rep) (cp_next_id cp)) (st_pending ?st)"
      using ok by (auto simp: list_all_iff set pending_ok_def pending_ok_in_def)
    moreover have "fst ` set (st_pending ?st) = set (map pd_id (br_pending ?rep))"
      by (force simp: set)
    ultimately show ?thesis
      using ids zero wf unfolding id_inv_def st(1,4,7,9) run
      by (simp split: option.split)
  qed
  ultimately show ?thesis by (simp add: ledger_inv_def)
qed

end
