(* ===== verification/LedgerProps.thy ===== *)
theory LedgerProps
  imports LedgerSteps
begin

text \<open>The properties of the task ledger, with their witnesses on a small sample ledger.\<close>

section \<open>A sample ledger\<close>

definition sample_limits :: budget_limits where
  "sample_limits = \<lparr>lim_resources = \<lparr>steps = 9, model_requests = 9, tool_calls = 9, corrections = 9,
     input_tokens = 900, output_tokens = 900, tool_output_bytes = 900\<rparr>, lim_active_time = 100\<rparr>"

definition sample_identity :: budget_identity where
  "sample_identity = \<lparr>id_task_id = ''task'', id_session_id = ''session'', id_agent_key = ''agent''\<rparr>"

definition sample_request :: budget_request where
  "sample_request = new_request (default_amounts\<lparr>steps := 1, model_requests := 2,
     input_tokens := 100, output_tokens := 7\<rparr>)"

definition sample_budget :: task_budget where
  "sample_budget = \<lparr>tb_identity = sample_identity, tb_limits = sample_limits, tb_token_mode = Soft,
     tb_state = default_state 5, tb_poisoned = False\<rparr>"

definition sample_running :: ledger_state where
  "sample_running = snd (begin_run_inner sample_limits 6 7 None sample_limits (default_state 5))"

definition sample_reserved :: ledger_state where
  "sample_reserved = snd (reserve sample_limits Soft 8 1 sample_request sample_running)"

definition sample_started :: ledger_state where
  "sample_started = snd (mark_started sample_limits 9 1 2 sample_reserved)"

lemmas sample_eval = sample_limits_def sample_identity_def sample_request_def sample_budget_def
  begin_run_inner_def tick_def default_state_def tick_run_def insert_stop_def update_report_def
  check_stop_def allocate_id_def run_stop_def Let_def checked_add_def dur_checked_add_def dur_max_def
  reserve_def on_run_def check_run_def new_request_def validate_request_def all_resources_def
  validate_token_bound_def default_amounts_def tightened_by_def fits_def reserve_one_def
  add_amount_def mark_started_def bt_modify_def

lemma sample_running_eq: "sample_running = (default_state 7)\<lparr>st_next_id := 1, st_run := Some
   \<lparr>rs_id = 1, rs_report = \<lparr>rr_turn_id = None, rr_metrics = default_metrics, rr_limits = sample_limits,
      rr_charged = default_amounts, rr_reserved = default_amounts, rr_active_time = 1, rr_cleanup_time = 0,
      rr_open = True, rr_stop = None\<rparr>, rs_cleaning = False\<rparr>, st_active_time := 1\<rparr>"
  by (simp add: sample_running_def sample_eval)

lemma sample_reserve: "reserve sample_limits Soft 8 1 sample_request sample_running = (Ok 2, sample_reserved)"
  by (simp add: sample_reserved_def prod_eq_iff) (simp add: sample_running_eq sample_eval)

lemma sample_reserved_eq: "sample_reserved = sample_running\<lparr>
   st_charged := default_amounts\<lparr>steps := 1, model_requests := 2\<rparr>,
   st_reserved := default_amounts\<lparr>input_tokens := 100, output_tokens := 7\<rparr>,
   st_active_time := 2, st_last_clock := 8, st_next_id := 2,
   st_pending := [(2, \<lparr>pd_id = 2, pd_request = sample_request, pd_started = False, pd_abandoned = False,
     pd_failed_usage = None\<rparr>)],
   st_run := Some \<lparr>rs_id = 1, rs_report = \<lparr>rr_turn_id = None, rr_metrics = default_metrics,
      rr_limits = sample_limits, rr_charged = default_amounts\<lparr>steps := 1, model_requests := 2\<rparr>,
      rr_reserved = default_amounts\<lparr>input_tokens := 100, output_tokens := 7\<rparr>, rr_active_time = 2,
      rr_cleanup_time = 0, rr_open = True, rr_stop = None\<rparr>, rs_cleaning = False\<rparr>\<rparr>"
  by (simp add: sample_reserved_def sample_running_eq sample_eval)

lemma sample_started_eq: "sample_started = sample_reserved\<lparr>st_active_time := 3, st_last_clock := 9,
   st_pending := [(2, \<lparr>pd_id = 2, pd_request = sample_request, pd_started = True, pd_abandoned = False,
     pd_failed_usage = None\<rparr>)],
   st_run := Some \<lparr>rs_id = 1, rs_report = \<lparr>rr_turn_id = None, rr_metrics = default_metrics,
      rr_limits = sample_limits, rr_charged = default_amounts\<lparr>steps := 1, model_requests := 2\<rparr>,
      rr_reserved = default_amounts\<lparr>input_tokens := 100, output_tokens := 7\<rparr>, rr_active_time = 3,
      rr_cleanup_time = 0, rr_open = True, rr_stop = None\<rparr>, rs_cleaning = False\<rparr>\<rparr>"
  by (simp add: sample_started_def sample_reserved_eq sample_running_eq sample_eval)

lemma sample_reaches:
  "ledger_reaches sample_budget (default_state 5) sample_running"
  "ledger_reaches sample_budget (default_state 5) sample_reserved"
  "ledger_reaches sample_budget (default_state 5) sample_started"
proof -
  have "ledger_step sample_budget (default_state 5) sample_running"
    using step_begin [of sample_budget "default_state 5" 6 7 None sample_limits]
    by (simp add: sample_running_def sample_budget_def)
  then show r: "ledger_reaches sample_budget (default_state 5) sample_running"
    by (blast intro: reaches_refl reaches_step)
  have "ledger_step sample_budget sample_running sample_reserved"
    using step_reserve [of sample_budget sample_running 8 1 sample_request]
    by (simp add: sample_reserved_def sample_budget_def)
  with r show s: "ledger_reaches sample_budget (default_state 5) sample_reserved"
    by (rule reaches_step)
  have "ledger_step sample_budget sample_reserved sample_started"
    using step_started [of sample_budget sample_reserved 9 1 2]
    by (simp add: sample_started_def sample_budget_def)
  with s show "ledger_reaches sample_budget (default_state 5) sample_started" by (rule reaches_step)
qed

lemma sample_new: "task_budget_new sample_identity sample_limits sample_limits Soft 5 = Ok sample_budget"
  by (simp add: task_budget_new_def sample_budget_def identity_blank_def sample_identity_def
      is_blank_def)

lemma sample_inv:
  "ledger_inv sample_limits Soft sample_running" "ledger_inv sample_limits Soft sample_reserved"
  "ledger_inv sample_limits Soft sample_started"
  using sample_reaches [THEN ledger_reaches_contract] ledger_inv_default
  by (simp_all add: sample_budget_def)

section \<open>Reachable ledgers\<close>

text \<open>C1: From a new task ledger, every sequence of operations of its handles and of sealings, at
  any clock readings and with any turn ids, run and reservation numbers, keeps the ledger invariant: reservations
  are exactly those of the pending entries, the run's accounts stay within the task's, usage
  evidence is covered by charges, and without a stop all spending is within the limits.\<close>

theorem reachable_ledger_inv:
  assumes "task_budget_new identity host task mode now = Ok tb" and "ledger_reaches tb (tb_state tb) s"
  shows "ledger_inv (tightened_by host task) mode s"
  using ledger_reaches_contract [OF assms(2)] ledger_inv_default assms(1)
  by (auto simp: task_budget_new_def split: if_splits)

theorem reachable_ledger_inv_witness: "ledger_inv sample_limits Soft sample_started"
  using reachable_ledger_inv [OF sample_new, of sample_started] sample_reaches(3)
  by (simp add: sample_budget_def)

text \<open>C2: Attempts (steps, model requests, tool calls, corrections) charged by a task never
  exceed the smaller of the host's and the task's limit, in any reachable ledger, stopped or
  not.\<close>

theorem attempts_never_exceed_limits:
  assumes "task_budget_new identity host task mode now = Ok tb" and "ledger_reaches tb (tb_state tb) s"
    and "is_attempt r"
  shows "amount (st_charged s) r \<le> min (limit host r) (limit task r)"
proof -
  have tb: "tb_limits tb = tightened_by host task" "tb_state tb = default_state now"
    using assms(1) by (auto simp: task_budget_new_def split: if_splits)
  then have "ledger_later (tb_limits tb) (default_state now) s"
    using ledger_reaches_contract [OF assms(2)] ledger_inv_default by auto
  with assms(3) tb show ?thesis by (auto simp: ledger_later_def progress_def default_state_def)
qed

theorem attempts_never_exceed_limits_witness:
  "amount (st_charged sample_started) ModelRequests \<le> min (limit sample_limits ModelRequests) (limit sample_limits ModelRequests)"
  by (rule attempts_never_exceed_limits [OF sample_new])
    (use sample_reaches(3) in \<open>simp_all add: sample_budget_def\<close>)

text \<open>While a reachable ledger has no stop, charges and reservations together are within
  the task's limits, active time is within its limit, and the same holds of the active run
  against the run's limits while the run has no stop.\<close>

theorem unstopped_spending_within_limits:
  assumes "task_budget_new identity host task mode now = Ok tb" and "ledger_reaches tb (tb_state tb) s"
    and "st_stop s = None"
  shows "unat (amount (st_charged s) r) + unat (amount (st_reserved s) r) \<le> unat (limit (tb_limits tb) r) \<and>
    st_active_time s \<le> lim_active_time (tb_limits tb) \<and>
    (\<forall>run. st_run s = Some run \<and> rr_stop (rs_report run) = None \<longrightarrow>
      unat (amount (rr_charged (rs_report run)) r) + unat (amount (rr_reserved (rs_report run)) r)
        \<le> unat (limit (rr_limits (rs_report run)) r) \<and>
      rr_active_time (rs_report run) \<le> lim_active_time (rr_limits (rs_report run)) \<and>
      limits_le (rr_limits (rs_report run)) (tb_limits tb))"
proof -
  have inv: "ledger_inv (tb_limits tb) (tb_token_mode tb) s"
    using ledger_reaches_contract [OF assms(2)] ledger_inv_default assms(1)
    by (auto simp: task_budget_new_def split: if_splits)
  then have "limit_inv (tb_limits tb) s" "run_inv (tb_limits tb) s" by (simp_all add: ledger_inv_def)
  then show ?thesis
    using assms(3) unfolding limit_inv_def run_inv_def within_def by auto
qed

theorem unstopped_spending_within_limits_witness:
  "unat (amount (st_charged sample_started) InputTokens) + unat (amount (st_reserved sample_started) InputTokens)
     \<le> unat (limit (tb_limits sample_budget) InputTokens)"
  by (rule unstopped_spending_within_limits [OF sample_new, THEN conjunct1])
    (use sample_reaches(3) in \<open>simp_all add: sample_budget_def sample_started_eq sample_reserved_eq
      sample_running_eq default_state_def\<close>)

text \<open>Charges are never refunded, reservation and run numbers are never reused, times only
  grow, and a stop that is set is never cleared or replaced, whatever operations follow; once
  the ledger is sealed nothing changes at all, and a ledger frozen for recovery can only be
  sealed.\<close>

theorem ledger_moves_forward:
  assumes "ledger_inv (tb_limits tb) (tb_token_mode tb) s" and "ledger_reaches tb s t"
  shows "amount (st_charged s) r \<le> amount (st_charged t) r \<and> st_next_id s \<le> st_next_id t \<and>
    st_active_time s \<le> st_active_time t \<and> st_cleanup_time s \<le> st_cleanup_time t \<and>
    (\<forall>x. st_stop s = Some x \<longrightarrow> st_stop t = Some x) \<and>
    (st_sealed s \<longrightarrow> t = s) \<and> (st_recovery_frozen s \<longrightarrow> t = s \<or> t = s\<lparr>st_sealed := True\<rparr>)"
  using ledger_reaches_contract [OF assms(2,1)] by (auto simp: ledger_later_def progress_def)

theorem ledger_moves_forward_witness:
  "amount (st_charged (default_state 5)) Steps \<le> amount (st_charged sample_started) Steps"
  using ledger_moves_forward [of sample_budget "default_state 5" sample_started Steps]
    sample_reaches(3) ledger_inv_default by simp

text \<open>On a ledger that meets its invariant, \<open>remaining_time\<close> and \<open>expire\<close> never panic in
  their \<open>Duration\<close> subtractions, so the mutex is not poisoned; the time returned is within what
  is left of both limits, and an expired run or task is stopped.\<close>

theorem time_operations_never_panic:
  assumes "ledger_inv (tb_limits tb) (tb_token_mode tb) (tb_state tb)" and "\<not> tb_poisoned tb"
    and "locked (remaining_time (tb_limits tb) now i) tb = (r, tb1)"
    and "locked (expire (tb_limits tb) now i) tb = (e, tb2)"
  shows "\<not> tb_poisoned tb1 \<and> \<not> tb_poisoned tb2 \<and>
    (\<forall>d. r = Ok d \<longrightarrow> d + st_active_time (tb_state tb1) \<le> lim_active_time (tb_limits tb)) \<and>
    (e = Ok () \<longrightarrow> st_stop (tb_state tb2) \<noteq> None \<or> run_stop (tb_state tb2) \<noteq> None)"
proof -
  have "\<not> tb_poisoned tb1" "\<not> tb_poisoned tb2"
    using remaining_op.locked_op(1) [OF assms(1,2), of now i] expire_op.locked_op(1) [OF assms(1,2), of now i]
      assms(3,4) by simp_all
  moreover have "d + st_active_time (tb_state tb1) \<le> lim_active_time (tb_limits tb)" if "r = Ok d" for d
    using that assms(2,3)
    by (auto simp: locked_def remaining_time_def on_run_def Let_def split: prod.splits outcome.splits option.splits)
  moreover have "st_stop (tb_state tb2) \<noteq> None \<or> run_stop (tb_state tb2) \<noteq> None" if "e = Ok ()"
  proof (cases "check_run i (tick (tb_limits tb) now (tb_state tb))")
    case (Ok u)
    with that assms(2,4) show ?thesis
      by (auto simp: locked_def expire_def on_run_def Let_def is_ok_iff check_stop_Ok check_run_Ok run_stop_def
          split: outcome.splits option.splits if_splits)
  qed (use that assms(2,4) in \<open>auto simp: locked_def expire_def on_run_def Let_def\<close>)
  ultimately show ?thesis by blast
qed

theorem time_operations_never_panic_witness:
  "\<not> tb_poisoned (snd (locked (remaining_time sample_limits 12 1) (sample_budget\<lparr>tb_state := sample_started\<rparr>)))"
  using time_operations_never_panic [of "sample_budget\<lparr>tb_state := sample_started\<rparr>" 12 1] sample_inv(3)
  by (simp add: sample_budget_def prod_eq_iff)

section \<open>Reserving, settling and cancelling\<close>

lemma reserve_fit_Ok_iff:
  assumes "st_run st = Some run"
  shows "reserve_fit limits request rs st = (Ok (), st) \<longleftrightarrow> (\<forall>r \<in> set rs.
    fits (amount (st_charged st) r) (amount (st_reserved st) r) (amount (req_amounts request) r) (limit limits r) \<and>
    fits (amount (rr_charged (rs_report run)) r) (amount (rr_reserved (rs_report run)) r)
      (amount (req_amounts request) r) (limit (rr_limits (rs_report run)) r))"
  using assms by (induction rs) (auto simp: Let_def)

lemma tick_accounts [simp]:
  "st_charged (tick limits now s) = st_charged s" "st_reserved (tick limits now s) = st_reserved s"
  "st_pending (tick limits now s) = st_pending s" "st_usage (tick limits now s) = st_usage s"
proof -
  have run: "st_charged (tick_run limits e run u) = st_charged u" "st_reserved (tick_run limits e run u) = st_reserved u"
    "st_pending (tick_run limits e run u) = st_pending u" "st_usage (tick_run limits e run u) = st_usage u"
    if "st_run u = Some run" for e run u
    by (rule tick_run_cases [OF that, where limits = limits and elapsed = e], simp)+
  show "st_charged (tick limits now s) = st_charged s" "st_reserved (tick limits now s) = st_reserved s"
    "st_pending (tick limits now s) = st_pending s" "st_usage (tick limits now s) = st_usage s"
    by (auto simp: tick_def Let_def run split: option.splits)
qed

lemma reserve_fit_accounts [simp]:
  "st_charged (snd (reserve_fit limits request rs s)) = st_charged s"
  "st_reserved (snd (reserve_fit limits request rs s)) = st_reserved s"
  "st_pending (snd (reserve_fit limits request rs s)) = st_pending s"
  by (induction rs; auto simp: Let_def split: option.splits)+

lemma allocate_id_accounts [simp]:
  "st_charged (snd (allocate_id s)) = st_charged s" "st_reserved (snd (allocate_id s)) = st_reserved s"
  "st_pending (snd (allocate_id s)) = st_pending s"
  by (auto simp: allocate_id_def split: option.splits)

text \<open>A reservation is accepted exactly when the run is open, nothing has stopped, the
  request is valid for the token mode, every resource fits both the task's and the run's
  limit on top of what is charged and reserved, and a number is left.\<close>

theorem reserve_accepts_iff:
  assumes "t = tick limits now s" and "check_run i t = Ok ()" and "st_run t = Some run"
  shows "is_ok (fst (reserve limits mode now i request s)) \<longleftrightarrow>
    st_stop t = None \<and> rr_stop (rs_report run) = None \<and>
    validate_request request mode = Ok () \<and>
    (\<forall>r. unat (amount (st_charged t) r) + unat (amount (st_reserved t) r) +
         unat (amount (req_amounts request) r) \<le> unat (limit limits r) \<and>
       unat (amount (rr_charged (rs_report run)) r) + unat (amount (rr_reserved (rs_report run)) r) +
         unat (amount (req_amounts request) r) \<le> unat (limit (rr_limits (rs_report run)) r)) \<and>
    st_next_id t \<noteq> - 1" (is "?L \<longleftrightarrow> ?R")
proof
  obtain x u where eq: "reserve limits mode now i request s = (x, u)" by fastforce
  assume ?L
  then show ?R
    using reserve_cases [OF assms(2) eq assms(1)]
  proof (cases rule: reserve_cases [OF assms(2) eq assms(1), consumes 0])
    case (4 k p)
    have "st_next_id t \<noteq> - 1"
      using 4(5) unsigned_less [of k, where ?'a = nat] by (auto simp: allocate_id_Ok unsigned_minus_1_eq_mask mask_eq_exp_minus_1)
    moreover have "\<forall>r. fits (amount (st_charged t) r) (amount (st_reserved t) r) (amount (req_amounts request) r) (limit limits r) \<and>
        fits (amount (rr_charged (rs_report run)) r) (amount (rr_reserved (rs_report run)) r)
        (amount (req_amounts request) r) (limit (rr_limits (rs_report run)) r)"
      using 4(4) assms(3) by (simp add: reserve_fit_Ok_iff)
    ultimately show ?R
      using 4 assms(3) by (auto simp: check_stop_Ok run_stop_def fits_iff)
  qed (use eq in auto)
next
  assume R: ?R
  then have "reserve_fit limits request all_resources t = (Ok (), t)" "check_stop t = Ok ()"
    using assms(2,3) by (auto simp: reserve_fit_Ok_iff fits_iff check_stop_Ok run_stop_def check_run_Ok)
  moreover have "allocate_id t = (Ok (st_next_id t + 1), t\<lparr>st_next_id := st_next_id t + 1\<rparr>)"
  proof -
    have "1 + st_next_id t \<noteq> 0" using R unfolding add_eq_0_iff by blast
    then show ?thesis using unatSuc [of "st_next_id t"] by (simp add: allocate_id_Ok add.commute)
  qed
  ultimately show ?L
    using R assms by (simp add: reserve_def on_run_def Let_def)
qed

theorem reserve_accepts_iff_witness:
  "is_ok (fst (reserve sample_limits Soft 8 1 sample_request sample_running)) \<and>
     validate_request sample_request Soft = Ok ()"
proof -
  have "is_ok (fst (reserve sample_limits Soft 8 1 sample_request sample_running))"
    by (simp add: sample_reserve)
  moreover have "check_run 1 (tick sample_limits 8 sample_running) = Ok ()"
    "st_run (tick sample_limits 8 sample_running) \<noteq> None"
    by (simp_all add: sample_running_eq sample_eval)
  ultimately show ?thesis using reserve_accepts_iff [OF refl, of 1 sample_limits 8 sample_running _ Soft sample_request] by auto
qed

text \<open>An accepted reservation charges the requested attempts to the task and the run at
  once, reserves the requested tokens and bytes, and records the entry under a new number; a
  rejected one leaves charges, reservations and entries as they were.\<close>

theorem reserve_effect:
  assumes "ledger_inv limits mode s" and "reserve limits mode now i request s = (x, u)"
    and "st_run s = Some run"
  shows "case x of
      Ok k \<Rightarrow>
        (\<forall>r. amount (st_charged u) r = amount (st_charged s) r + (if is_attempt r then amount (req_amounts request) r else 0)) \<and>
        (\<forall>r. amount (st_reserved u) r = amount (st_reserved s) r + (if is_attempt r then 0 else amount (req_amounts request) r)) \<and>
        map_of (st_pending s) k = None \<and>
        map_of (st_pending u) = (map_of (st_pending s))(k \<mapsto> \<lparr>pd_id = k, pd_request = request,
          pd_started = False, pd_abandoned = False, pd_failed_usage = None\<rparr>)
    | Err e \<Rightarrow> st_charged u = st_charged s \<and> st_reserved u = st_reserved s \<and> st_pending u = st_pending s
    | Panic \<Rightarrow> False"
proof -
  let ?t = "tick limits now s"
  show ?thesis
  proof (cases "check_run i ?t")
    case (Ok v)
    then have "check_run i ?t = Ok ()" by simp
    then show ?thesis using assms(2) refl
    proof (cases rule: reserve_cases)
      case (accepted k p)
      have "unat k = unat (st_next_id ?t) + 1" using accepted(5) by (simp add: allocate_id_Ok)
      moreover have "j \<le> st_next_id ?t" if "j \<in> fst ` set (st_pending s)" for j
        using that inv_tick [OF assms(1), of now]
        by (auto simp: ledger_inv_def id_inv_def list_all_iff pending_ok_def)
      ultimately have "k \<notin> fst ` set (st_pending s)" by (force simp: word_le_nat_alt)
      then have "map_of (st_pending s) k = None" by (simp add: map_of_eq_None_iff)
      with accepted show ?thesis by (simp add: fold_reserve_one)
    qed simp_all
  next
    case (Err e)
    with assms(2) show ?thesis by (auto simp: reserve_def on_run_def Let_def)
  qed simp
qed

theorem reserve_effect_witness:
  "amount (st_charged sample_reserved) ModelRequests = amount (st_charged sample_running) ModelRequests + 2 \<and>
   amount (st_reserved sample_reserved) InputTokens = amount (st_reserved sample_running) InputTokens + 100"
proof -
  obtain run where "st_run sample_running = Some run" by (simp add: sample_running_eq)
  note c = reserve_effect [OF sample_inv(1) sample_reserve this, simplified]
  show ?thesis using c [THEN conjunct1, rule_format, of ModelRequests] c [THEN conjunct2, THEN conjunct1, rule_format, of InputTokens]
    by (simp add: sample_request_def new_request_def default_amounts_def)
qed

text \<open>What a settlement of measured usage charges.\<close>

abbreviation measured :: "u64 \<Rightarrow> u64 \<Rightarrow> u64 \<Rightarrow> budget_resource \<Rightarrow> nat" where
  "measured inp out bytes r \<equiv> (if r = InputTokens then unat inp else if r = OutputTokens then unat out
     else if r = ToolOutputBytes then unat bytes else 0)"

lemma settlement_actual_step:
  assumes "settlement_step request (r, Actual n, applicable) (c, rc, e, b) = Ok x" and "\<not> is_attempt r"
  obtains c' rc' e' b' where "x = (c', rc', e', b')"
    "\<And>r'. unat (amount c' r') = unat (amount c r') + (if r' = r then unat n else 0)"
    "b' = None \<Longrightarrow> b = None \<and> unat n \<le> unat (amount (req_amounts request) r)"
  using assms
  by (auto simp: settlement_step_def settle_debit_def Let_def checked_add_Some_iff word_le_nat_alt not_less
      split: if_splits option.splits)

lemma settlement_actual:
  assumes "settlement_of st request (actual_usage inp out bytes) = Ok (c, rc, u, None)"
  shows "unat (amount c r) = unat (amount (st_charged st) r) + measured inp out bytes r"
    and "measured inp out bytes r \<le> unat (amount (req_amounts request) r)"
proof -
  let ?req = "model_requests (req_amounts request) > 0" and ?calls = "tool_calls (req_amounts request) > 0"
  obtain run where run: "st_run st = Some run"
    using assms by (auto simp: settlement_of_def split: option.splits)
  obtain x y where
    x: "settlement_step request (InputTokens, Actual inp, ?req)
        (st_charged st, rr_charged (rs_report run), st_usage st, None) = Ok x"
    and y: "settlement_step request (OutputTokens, Actual out, ?req) x = Ok y"
    and z: "settlement_step request (ToolOutputBytes, Actual bytes, ?calls) y = Ok (c, rc, u, None)"
    using assms by (auto simp: settlement_of_def actual_usage_def run)
  obtain c1 rc1 e1 b1 where 1: "x = (c1, rc1, e1, b1)"
    "\<And>r. unat (amount c1 r) = unat (amount (st_charged st) r) + (if r = InputTokens then unat inp else 0)"
    "b1 = None \<Longrightarrow> unat inp \<le> unat (amount (req_amounts request) InputTokens)"
    by (rule settlement_actual_step [OF x]) auto
  obtain c2 rc2 e2 b2 where 2: "y = (c2, rc2, e2, b2)"
    "\<And>r. unat (amount c2 r) = unat (amount c1 r) + (if r = OutputTokens then unat out else 0)"
    "b2 = None \<Longrightarrow> b1 = None \<and> unat out \<le> unat (amount (req_amounts request) OutputTokens)"
    by (rule settlement_actual_step [OF y [unfolded 1(1)]]) auto
  have 3: "\<And>r. unat (amount c r) = unat (amount c2 r) + (if r = ToolOutputBytes then unat bytes else 0)"
    "b2 = None \<and> unat bytes \<le> unat (amount (req_amounts request) ToolOutputBytes)"
    by (rule settlement_actual_step [OF z [unfolded 2(1)]]; auto)+
  show "unat (amount c r) = unat (amount (st_charged st) r) + measured inp out bytes r"
    by (simp add: 1(2) 2(2) 3(1))
  show "measured inp out bytes r \<le> unat (amount (req_amounts request) r)"
    using 1(3) 2(3) 3(2) by auto
qed

text \<open>How a settlement that succeeds went.\<close>

lemma settle_Ok:
  assumes inv: "ledger_inv limits mode s" and t: "t = tick limits now s"
    and ok: "settle limits now now' k usage s = (Ok (), u)"
  obtains p run c rc e where "map_of (st_pending t) k = Some p" "pd_started p" "st_run t = Some run"
    "settlement_of t (pd_request p) usage = Ok (c, rc, e, None)"
    "u = t\<lparr>st_charged := c, st_reserved := released (req_amounts (pd_request p)) (st_reserved t), st_usage := e,
      st_run := Some (run\<lparr>rs_report := (rs_report run)\<lparr>rr_charged := rc,
        rr_reserved := released (req_amounts (pd_request p)) (rr_reserved (rs_report run))\<rparr>\<rparr>),
      st_pending := bt_remove k (st_pending t)\<rparr>"
proof -
  have body: "settle_body limits now k usage s = (Ok None, u)"
    using ok by (auto simp: settle_def split: prod.splits outcome.splits option.splits)
  have w: "check_writable s = Ok ()"
    using body by (cases "check_writable s") (auto simp: settle_body_def)
  obtain p where p: "map_of (st_pending t) k = Some p" and started: "pd_started p"
    using body w unfolding settle_body_def t
    by (cases "map_of (st_pending (tick limits now s)) k") (auto simp: Let_def split: if_splits)
  obtain run where run: "st_run t = Some run"
    using run_of_pending [OF inv_tick [OF inv]] p unfolding t by blast
  show thesis
  proof (cases "settlement_of t (pd_request p) usage")
    case (Ok x)
    obtain c rc e b where x: "x = (c, rc, e, b)" by (cases x)
    have "b = None \<and> u = t\<lparr>st_charged := c, st_reserved := released (req_amounts (pd_request p)) (st_reserved t),
      st_usage := e, st_run := Some (run\<lparr>rs_report := (rs_report run)\<lparr>rr_charged := rc,
        rr_reserved := released (req_amounts (pd_request p)) (rr_reserved (rs_report run))\<rparr>\<rparr>),
      st_pending := bt_remove k (st_pending t)\<rparr>"
      using settle_body_eq [OF inv w t p started run Ok [unfolded x]] body
      by (auto simp: settle_update_same_stop)
    with that p started run Ok x show thesis by blast
  next
    case (Err e)
    with body w p started show thesis by (auto simp: settle_body_def Let_def t [symmetric])
  qed simp
qed

text \<open>C3: A settlement that succeeds charges, for a request of a model or a tool whose usage was
  measured, exactly the measured tokens and bytes (no more than was reserved), charges no
  further attempts, releases the whole reservation and removes the entry, which had been
  started.\<close>

theorem settle_exact:
  assumes "ledger_inv limits mode s"
    and "settle limits now now' k (actual_usage inp out bytes) s = (Ok (), u)"
    and "map_of (st_pending s) k = Some p"
  shows "pd_started p \<and>
    (\<forall>r. measured inp out bytes r \<le> unat (amount (req_amounts (pd_request p)) r) \<and>
         unat (amount (st_charged u) r) = unat (amount (st_charged s) r) + measured inp out bytes r) \<and>
    (\<forall>r. amount (st_reserved u) r =
       amount (st_reserved s) r - (if is_attempt r then 0 else amount (req_amounts (pd_request p)) r)) \<and>
    map_of (st_pending u) = (map_of (st_pending s))(k := None)"
proof (rule settle_Ok [OF assms(1) refl assms(2)])
  fix p' run c rc e
  assume a: "map_of (st_pending (tick limits now s)) k = Some p'" "pd_started p'"
    and ok: "settlement_of (tick limits now s) (pd_request p') (actual_usage inp out bytes) = Ok (c, rc, e, None)"
    and u: "u = (tick limits now s)\<lparr>st_charged := c,
      st_reserved := released (req_amounts (pd_request p')) (st_reserved (tick limits now s)), st_usage := e,
      st_run := Some (run\<lparr>rs_report := (rs_report run)\<lparr>rr_charged := rc,
        rr_reserved := released (req_amounts (pd_request p')) (rr_reserved (rs_report run))\<rparr>\<rparr>),
      st_pending := bt_remove k (st_pending (tick limits now s))\<rparr>"
  have "p' = p" using a assms(3) by simp
  with a u settlement_actual [OF ok] show ?thesis by simp
qed

theorem settle_exact_witness:
  "is_ok (fst (settle sample_limits 10 11 2 (actual_usage 50 3 0) sample_started)) \<and>
   unat (amount (st_charged (snd (settle sample_limits 10 11 2 (actual_usage 50 3 0) sample_started))) InputTokens) = 50"
proof -
  have ok: "fst (settle sample_limits 10 11 2 (actual_usage 50 3 0) sample_started) = Ok ()"
    by (simp add: settle_def settle_body_def sample_started_eq sample_reserved_eq sample_running_eq sample_eval
        settlement_of_def settlement_step_def settle_debit_def actual_usage_def release_eq default_usage_report_def
        default_totals_def)
  have p: "map_of (st_pending sample_started) 2 = Some \<lparr>pd_id = 2, pd_request = sample_request, pd_started = True,
      pd_abandoned = False, pd_failed_usage = None\<rparr>"
    by (simp add: sample_started_eq)
  have c: "amount (st_charged sample_started) InputTokens = 0"
    by (simp add: sample_started_eq sample_reserved_eq default_amounts_def)
  obtain u where u: "settle sample_limits 10 11 2 (actual_usage 50 3 0) sample_started = (Ok (), u)"
    using ok by (metis prod.collapse)
  with settle_exact [OF sample_inv(3) u p, THEN conjunct2, THEN conjunct1, rule_format, of InputTokens] c
  show ?thesis by simp
qed

text \<open>A settlement or a cancellation that fails while its entry is pending in a writable
  ledger always leaves the task stopped, so nothing further can be reserved: the usage exceeded
  the reservation, the accounts would overflow, or the entry is kept and marked abandoned.\<close>

theorem failed_resolution_stops:
  assumes "ledger_inv limits mode s" and "check_writable s = Ok ()" and "map_of (st_pending s) k \<noteq> None"
    and "settle limits now now' k usage s = (Err e, u) \<or> cancel_before_start limits now now' k s = (Err e, u)"
  shows "st_stop u \<noteq> None \<and> \<not> is_ok (fst (reserve limits mode now'' i request u))"
proof -
  have drop: "st_stop (snd (drop_reservation limits now' k t)) \<noteq> None"
    if "check_writable t = Ok ()" "map_of (st_pending t) k \<noteq> None" for t
    using that by (auto simp: drop_reservation_def Let_def split: option.splits)
  have stop: "st_stop u \<noteq> None"
    using assms(4)
  proof
    assume a: "settle limits now now' k usage s = (Err e, u)"
    obtain r t where b: "settle_body limits now k usage s = (r, t)" by fastforce
    have w: "check_writable t = Ok ()"
      using settle_body_op.op_progress [OF assms(1), of now k usage] b assms(2) by (simp add: progress_def)
    show ?thesis
    proof (cases r)
      case (Ok x)
      with a b obtain res where x: "r = Ok (Some res)" by (auto simp: settle_def split: option.splits)
      then show ?thesis
        using a b assms(2)
        by (auto simp: settle_def settle_body_def Let_def release_eq
            split: option.splits outcome.splits prod.splits if_splits)
    next
      case (Err e')
      then have "map_of (st_pending t) k \<noteq> None"
        using b assms(2,3)
        by (auto simp: settle_body_def Let_def release_eq split: option.splits outcome.splits prod.splits if_splits)
      with drop [OF w] a b Err show ?thesis by (auto simp: settle_def)
    next
      case Panic
      with settle_body_op.op_no_panic [OF assms(1), of now k usage] b show ?thesis by simp
    qed
  next
    assume a: "cancel_before_start limits now now' k s = (Err e, u)"
    obtain r t where b: "cancel_body limits now k s = (r, t)" by fastforce
    have w: "check_writable t = Ok ()"
      using cancel_body_op.op_progress [OF assms(1), of now k] b assms(2) by (simp add: progress_def)
    show ?thesis
    proof (cases r)
      case (Err e')
      then have "map_of (st_pending t) k \<noteq> None"
        using b assms(2,3) by (auto simp: cancel_body_eq [OF assms(1,2)] Let_def split: option.splits if_splits)
      with drop [OF w] a b Err show ?thesis by (auto simp: cancel_before_start_def)
    qed (use a b in \<open>auto simp: cancel_before_start_def\<close>)
  qed
  moreover have "\<not> is_ok (fst (reserve limits mode now'' i request u))"
  proof -
    obtain y where y: "st_stop (tick limits now'' u) = Some y"
      using stop progress_tick [of limits u limits now''] by (auto simp: progress_def)
    then have "check_stop (tick limits now'' u) \<noteq> Ok ()" by (simp add: check_stop_Ok)
    then show ?thesis
      by (cases "check_run i (tick limits now'' u)"; cases "check_stop (tick limits now'' u)")
        (auto simp: reserve_def on_run_def Let_def)
  qed
  ultimately show ?thesis by blast
qed

theorem failed_resolution_stops_witness:
  "st_stop (snd (cancel_before_start sample_limits 10 11 2 sample_started)) \<noteq> None"
proof -
  have e: "fst (cancel_before_start sample_limits 10 11 2 sample_started) = Err AlreadyStarted"
    by (simp add: cancel_before_start_def cancel_body_def sample_started_eq sample_reserved_eq sample_running_eq sample_eval)
  have p: "check_writable sample_started = Ok ()" "map_of (st_pending sample_started) 2 \<noteq> None"
    by (simp_all add: sample_started_eq sample_reserved_eq sample_running_eq default_state_def)
  show ?thesis
    using failed_resolution_stops [OF sample_inv(3) p, of 10 11 _ AlreadyStarted
        "snd (cancel_before_start sample_limits 10 11 2 sample_started)"] e
    by (metis prod.collapse)
qed

text \<open>Cancelling a reservation before its work starts releases exactly its tokens and bytes
  and removes its entry, but keeps the attempts it was charged.\<close>

theorem cancel_keeps_attempts:
  assumes "ledger_inv limits mode s" and "cancel_before_start limits now now' k s = (Ok (), u)"
    and "map_of (st_pending s) k = Some p"
  shows "\<not> pd_started p \<and> st_charged u = st_charged s \<and> st_usage u = st_usage s \<and>
    (\<forall>r. amount (st_reserved u) r =
       amount (st_reserved s) r - (if is_attempt r then 0 else amount (req_amounts (pd_request p)) r)) \<and>
    map_of (st_pending u) = (map_of (st_pending s))(k := None)"
proof -
  have body: "cancel_body limits now k s = (Ok (), u)"
    using assms(2) by (auto simp: cancel_before_start_def split: prod.splits outcome.splits)
  have w: "check_writable s = Ok ()"
    using body by (cases "check_writable s") (auto simp: cancel_body_def)
  obtain run where "st_run (tick limits now s) = Some run"
    using run_of_pending [OF inv_tick [OF assms(1)], of now k p] assms(3) by auto
  then show ?thesis
    using body assms(3) by (auto simp: cancel_body_eq [OF assms(1) w] Let_def release_eq split: if_splits)
qed

theorem cancel_keeps_attempts_witness:
  "st_charged (snd (cancel_before_start sample_limits 9 10 2 sample_reserved)) = st_charged sample_reserved"
proof -
  have e: "fst (cancel_before_start sample_limits 9 10 2 sample_reserved) = Ok ()"
    by (simp add: cancel_before_start_def cancel_body_def release_eq sample_reserved_eq sample_running_eq sample_eval)
  have p: "map_of (st_pending sample_reserved) 2 = Some \<lparr>pd_id = 2, pd_request = sample_request, pd_started = False,
      pd_abandoned = False, pd_failed_usage = None\<rparr>"
    by (simp add: sample_reserved_eq)
  show ?thesis
    using cancel_keeps_attempts [OF sample_inv(2) _ p, of 9 10 "snd (cancel_before_start sample_limits 9 10 2 sample_reserved)"] e
    by (metis prod.collapse)
qed

lemma tick_keeps_run:
  assumes "st_run s = Some run"
  shows "\<exists>run'. st_run (tick limits now s) = Some run' \<and> rs_id run' = rs_id run"
proof -
  have "\<exists>run'. st_run (tick_run limits e run u) = Some run' \<and> rs_id run' = rs_id run" if "st_run u = Some run" for e u
    by (rule tick_run_cases [OF that, where limits = limits and elapsed = e]) simp
  with assms show ?thesis by (auto simp: tick_def Let_def)
qed

text \<open>Whenever a poll of the current run's \<open>stopped\<close> future is ready, the state it leaves
  makes the lock guard wake the other waiters: no waiter of a run that has stopped, closed,
  been sealed or frozen sleeps on.\<close>

theorem stopped_poll_notifies:
  assumes "st_run s = Some run" and "stopped_poll limits now (rs_id run) s = (Ok (Some e), u)"
  shows "guard_notifies u"
proof -
  let ?t = "tick limits now s"
  obtain run' where run': "st_run ?t = Some run'" "rs_id run' = rs_id run"
    using tick_keeps_run [OF assms(1)] by blast
  show ?thesis
  proof (cases "check_run (rs_id run) ?t")
    case (Ok v)
    with assms(2) run' show ?thesis
      by (auto simp: stopped_poll_def check_active_def on_run_def Let_def guard_notifies_def check_stop_def
          run_stop_def check_writable_def split: outcome.splits option.splits if_splits)
  next
    case (Err e)
    with assms(2) run' show ?thesis
      by (auto simp: stopped_poll_def check_active_def on_run_def Let_def guard_notifies_def check_run_def
          check_writable_def split: outcome.splits option.splits if_splits)
  qed simp
qed

theorem stopped_poll_notifies_witness:
  "guard_notifies (snd (stopped_poll sample_limits 500 1 sample_started))"
proof -
  obtain run where run: "st_run sample_started = Some run" "rs_id run = 1" by (simp add: sample_started_eq)
  have "fst (stopped_poll sample_limits 500 1 sample_started) = Ok (Some (Stopped ActiveTime))"
    by (simp add: stopped_poll_def check_active_def sample_started_eq sample_reserved_eq sample_running_eq sample_eval)
  then show ?thesis
    using stopped_poll_notifies [OF run(1), of sample_limits 500 "Stopped ActiveTime"] run(2) by (metis prod.collapse)
qed

text \<open>An agent step is charged once: when \<open>consume_step\<close> succeeds on a running ledger, the
  task's steps grew by one within the limit, and no other charge, reservation or entry
  changed.\<close>

theorem consume_step_charges_one:
  assumes "ledger_inv limits mode s" and "consume_step limits mode now now' now'' i s = (Ok (), u)"
  shows "unat (steps (st_charged u)) = unat (steps (st_charged s)) + 1 \<and>
    steps (st_charged u) \<le> steps (lim_resources limits) \<and>
    (\<forall>r. r \<noteq> Steps \<longrightarrow> amount (st_charged u) r = amount (st_charged s) r) \<and>
    st_reserved u = st_reserved s \<and> map_of (st_pending u) = map_of (st_pending s)"
proof -
  let ?q = "default_amounts\<lparr>steps := 1\<rparr>" and ?t = "tick limits now s"
  have q: "amount ?q r = (if r = Steps then 1 else 0)" for r
    by (cases r) (simp_all add: default_amounts_def)
  obtain x v where rv: "reserve limits mode now i (new_request ?q) s = (x, v)" by fastforce
  obtain k where x: "x = Ok k" and c: "cancel_before_start limits now' now'' k v = (Ok (), u)"
    using assms(2) rv by (auto simp: consume_step_def consume_attempt_def split: outcome.splits)
  have run: "check_run i ?t = Ok ()"
    using rv x by (cases "check_run i ?t") (auto simp: reserve_def on_run_def Let_def)
  from run rv refl show ?thesis
  proof (cases rule: reserve_cases)
    case (accepted j p)
    have v: "ledger_inv limits mode v" using inv_reserve [OF assms(1), of now i "new_request ?q"] rv by simp
    have keys: "map_of (st_pending ?t) k = None"
    proof -
      have "unat k = unat (st_next_id ?t) + 1" using accepted(1,5) x by (simp add: allocate_id_Ok)
      moreover have "j \<le> st_next_id ?t" if "j \<in> fst ` set (st_pending ?t)" for j
        using that inv_tick [OF assms(1), of now]
        by (auto simp: ledger_inv_def id_inv_def list_all_iff pending_ok_def)
      ultimately show ?thesis by (force simp: word_le_nat_alt map_of_eq_None_iff)
    qed
    have p: "map_of (st_pending v) k = Some p" using accepted x by simp
    obtain w where w: "st_run (tick limits now' v) = Some w"
      using run_of_pending [OF inv_tick [OF v], of now' k p] p by auto
    have body: "cancel_body limits now' k v = (Ok (), u)"
      using c by (auto simp: cancel_before_start_def split: prod.splits outcome.splits)
    then have "check_writable v = Ok ()"
      by (cases "check_writable v") (auto simp: cancel_body_def)
    with body p w have u: "st_charged u = st_charged v"
        "st_reserved u = released (req_amounts (pd_request p)) (st_reserved v)"
        "map_of (st_pending u) = (map_of (st_pending v))(k := None)"
      by (auto simp: cancel_body_eq [OF v] Let_def release_eq split: if_splits)
    have vc: "st_charged v = add_attempts ?q all_resources (st_charged s)"
      "st_reserved v = add_variables ?q all_resources (st_reserved s)"
      "st_pending v = bt_insert k p (st_pending s)" "pd_request p = new_request ?q"
      using accepted x by (simp_all add: fold_reserve_one new_request_def)
    have fit: "unat (amount (st_charged s) Steps) + unat (amount (st_reserved s) Steps) + 1 \<le> unat (limit limits Steps)"
      using reserve_fit_Ok(2) [OF accepted(4), of Steps] by (simp add: new_request_def)
    then have one: "unat (amount (st_charged s) Steps + 1) = unat (amount (st_charged s) Steps) + 1"
      using unat_add_le [of "amount (st_charged s) Steps" 1 "limit limits Steps"] by simp
    have st: "amount (st_charged u) Steps = amount (st_charged s) Steps + 1"
      by (simp only: u vc amount_add_attempts q) simp
    have "unat (steps (st_charged u)) = unat (steps (st_charged s)) + 1" using st one by simp
    moreover have "steps (st_charged u) \<le> steps (lim_resources limits)"
      using st one fit by (simp add: word_le_nat_alt)
    moreover have "amount (st_charged u) r = amount (st_charged s) r" if "r \<noteq> Steps" for r
      using that by (simp add: u vc q)
    moreover have "st_reserved u = st_reserved s"
      by (rule budget_amounts_eqI) (simp add: u vc q new_request_def)
    moreover have "map_of (st_pending u) = map_of (st_pending s)"
      using keys by (simp add: u vc fun_eq_iff)
    ultimately show ?thesis by blast
  qed (use x in simp_all)
qed

theorem consume_step_charges_one_witness:
  "unat (steps (st_charged (snd (consume_step sample_limits Soft 8 9 10 1 sample_running)))) = 1"
proof -
  have ok: "fst (consume_step sample_limits Soft 8 9 10 1 sample_running) = Ok ()"
    by (simp add: consume_step_def consume_attempt_def cancel_before_start_def cancel_body_def release_eq
        sample_running_eq sample_eval)
  have z: "steps (st_charged sample_running) = 0"
    by (simp add: sample_running_eq default_state_def default_amounts_def)
  show ?thesis
    using consume_step_charges_one [OF sample_inv(1), of 8 9 10 1 "snd (consume_step sample_limits Soft 8 9 10 1 sample_running)"] ok z
    by (metis prod.collapse add_0 unat_0)
qed

end
