(* ===== verification/CheckpointProps.thy ===== *)
theory CheckpointProps
  imports CheckpointInv LedgerProps
begin

text \<open>
  The properties of checkpoints: what sealing and restoring preserve, that sealed images are
  accepted as successors of the image they were restored from, and what a valid transition
  between images can change.
\<close>

section \<open>Audits under a later image\<close>

lemma for_each_weaken:
  assumes "for_each f xs s = Ok t" and "\<And>x u v. x \<in> set xs \<Longrightarrow> f x u = Ok v \<Longrightarrow> g x u = Ok v"
  shows "for_each g xs s = Ok t"
  using assms
proof (induction xs arbitrary: s)
  case (Cons x xs)
  then obtain u where "f x s = Ok u" "for_each f xs u = Ok t" by auto
  with Cons show ?case by auto
qed simp

text \<open>The anchor of a later image: it is absent only if the old one was, and does not go back.\<close>

definition anchor_le :: "budget_event_cursor option \<Rightarrow> budget_event_cursor option \<Rightarrow> bool" where
  "anchor_le old new \<longleftrightarrow>
     (case (old, new) of
        (None, _) \<Rightarrow> True
      | (Some a, None) \<Rightarrow> False
      | (Some a, Some b) \<Rightarrow> cur_seq a < cur_seq b \<or> a = b)"

lemma anchor_le_refl [simp]: "anchor_le a a"
  by (auto simp: anchor_le_def split: option.splits)

lemma validate_grants_later:
  assumes ok: "validate_grants cp = Ok ()" and grants: "cp_grants cp' = cp_grants cp"
    and id: "br_identity (cp_report cp') = br_identity (cp_report cp)"
    and version: "cp_version cp' = V3 \<or> cp_version cp' = V4"
    and rev: "cp_revision cp \<le> cp_revision cp'" and anchor: "anchor_le (cp_anchor cp) (cp_anchor cp')"
  shows "validate_grants cp' = Ok ()"
proof -
  have tail: "\<not> (case cp_anchor cp' of None \<Rightarrow> True | Some tail \<Rightarrow> cursor_after a tail)"
    if "\<not> (case cp_anchor cp of None \<Rightarrow> True | Some tail \<Rightarrow> cursor_after a tail)" for a
    using that anchor by (auto simp: anchor_le_def cursor_after_def not_less split: option.splits)
  have step: "grant_step cp' gr u = Ok v" if "grant_step cp gr u = Ok v" for gr u v
  proof -
    obtain ids pr pa where u: "u = (ids, pr, pa)" by (cases u)
    have "gr_source_revision gr < cp_revision cp \<Longrightarrow> gr_source_revision gr < cp_revision cp'"
      using rev by (rule less_le_trans [rotated])
    with that tail show ?thesis
      by (cases "gr_confirmed_anchor gr") (simp_all add: grant_step_def u id not_le)
  qed
  obtain t where t: "for_each (grant_step cp) (cp_grants cp) ([], 0, None) = Ok t"
    using ok by (auto simp: validate_grants_def)
  have "for_each (grant_step cp') (cp_grants cp) ([], 0, None) = Ok t"
    by (rule for_each_weaken [OF t step])
  with ok version show ?thesis by (auto simp: validate_grants_def grants)
qed

lemma validate_recoveries_later:
  assumes ok: "validate_recoveries cp = Ok ()" and recs: "cp_recoveries cp' = cp_recoveries cp"
    and id: "br_identity (cp_report cp') = br_identity (cp_report cp)"
    and version: "cp_recoveries cp \<noteq> [] \<Longrightarrow> cp_version cp' = V4"
    and rev: "cp_revision cp \<le> cp_revision cp'" and next_id: "cp_next_id cp \<le> cp_next_id cp'"
  shows "validate_recoveries cp' = Ok ()"
proof -
  have "recovery_record_check cp' rc u = Ok ()" if "recovery_record_check cp rc u = Ok ()" for rc u
    using that rev next_id
    by (cases u) (auto simp: recovery_record_check_def id not_le split: prod.splits intro: less_le_trans order_trans)
  then have step: "and_then (recovery_record_check cp' rc scan) (\<lambda>_. and_then (validate_recovery_evidence rc) (\<lambda>_.
        Ok (rq_operation_id (rc_request rc) # fst scan, rq_source_revision (rc_request rc)))) = Ok v"
    if "and_then (recovery_record_check cp rc scan) (\<lambda>_. and_then (validate_recovery_evidence rc) (\<lambda>_.
        Ok (rq_operation_id (rc_request rc) # fst scan, rq_source_revision (rc_request rc)))) = Ok v" for rc scan v
    using that by auto
  obtain t where t: "for_each (\<lambda>rc scan. and_then (recovery_record_check cp rc scan) (\<lambda>_. and_then (validate_recovery_evidence rc) (\<lambda>_.
        Ok (rq_operation_id (rc_request rc) # fst scan, rq_source_revision (rc_request rc)))))
      (cp_recoveries cp) ([], 0) = Ok t"
    using ok by (auto simp: validate_recoveries_def)
  have "for_each (\<lambda>rc scan. and_then (recovery_record_check cp' rc scan) (\<lambda>_. and_then (validate_recovery_evidence rc) (\<lambda>_.
        Ok (rq_operation_id (rc_request rc) # fst scan, rq_source_revision (rc_request rc)))))
      (cp_recoveries cp) ([], 0) = Ok t"
    by (rule for_each_weaken [OF t step])
  with ok version show ?thesis by (auto simp: validate_recoveries_def recs)
qed

lemma validate_later:
  assumes "validate cp = Ok ()" and "image_inv cp'" and "cp_execution_id cp' = None"
    and "cp_grants cp' = cp_grants cp" "cp_recoveries cp' = cp_recoveries cp"
    and "br_identity (cp_report cp') = br_identity (cp_report cp)"
    and "cp_version cp' = audit_version cp"
    and "cp_revision cp \<le> cp_revision cp'" "cp_next_id cp \<le> cp_next_id cp'"
    and "anchor_le (cp_anchor cp) (cp_anchor cp')"
  shows "validate cp' = Ok ()"
proof -
  have g: "validate_grants cp = Ok ()" and r: "validate_recoveries cp = Ok ()"
    using assms(1) by (simp_all add: validate_eq)
  have "validate_grants cp' = Ok ()"
    by (rule validate_grants_later [OF g assms(4,6) _ assms(8,10)]) (simp add: assms(7) audit_version_def)
  moreover have "validate_recoveries cp' = Ok ()"
    by (rule validate_recoveries_later [OF r assms(5,6) _ assms(8,9)]) (simp add: assms(7) audit_version_def)
  ultimately show ?thesis
    using assms(2,3) by (simp add: validate_eq validate_image_iff validate_claim_def)
qed

lemma validate_empty_audit:
  assumes "image_inv cp" and "cp_execution_id cp = None" and "cp_grants cp = []" "cp_recoveries cp = []"
  shows "validate cp = Ok ()"
  using assms
  by (simp add: validate_eq validate_image_iff validate_claim_def validate_grants_def validate_recoveries_def)

text \<open>Sealing an invariant, writable or frozen ledger whose next image validates.\<close>

lemma seal_Ok:
  assumes "\<not> tb_poisoned tb" "\<not> st_sealed (tb_state tb)"
    and "st = tick (tb_limits tb) now (tb_state tb)" "checked_add (st_checkpoint_revision st) 1 = Some n"
    and "validate (ledger_image tb anchor n st) = Ok ()"
  shows "seal_checkpoint tb now anchor = (Ok (ledger_image tb anchor n st), tb\<lparr>tb_state := st\<lparr>st_sealed := True\<rparr>\<rparr>)"
  using assms by (simp add: seal_checkpoint_def Let_def)

lemma restore_facts:
  assumes "restore_checkpoint cp context now = Ok tb"
  shows "validate cp = Ok ()" "tb_identity tb = br_identity (cp_report cp)" "\<not> tb_poisoned tb"
    "tb_limits tb = tightened_by (br_limits (cp_report cp)) (cx_host_limits context)"
    "tb_token_mode tb = br_token_mode (cp_report cp)"
    "\<not> st_sealed (tb_state tb)" "st_checkpoint_revision (tb_state tb) = cp_revision cp"
    "st_grants (tb_state tb) = cp_grants cp" "st_recoveries (tb_state tb) = cp_recoveries cp"
    "st_next_id (tb_state tb) = cp_next_id cp" "st_charged (tb_state tb) = br_charged (cp_report cp)"
    "st_reserved (tb_state tb) = br_reserved (cp_report cp)"
    "st_usage (tb_state tb) = br_usage (cp_report cp)"
    "st_active_time (tb_state tb) = br_active_time (cp_report cp)"
    "st_cleanup_time (tb_state tb) = br_cleanup_time (cp_report cp)"
    "st_recovery_frozen (tb_state tb) \<longleftrightarrow>
       cp_recovery_frozen cp \<or> br_run (cp_report cp) \<noteq> None \<or> br_pending (cp_report cp) \<noteq> []"
    "st_stop (tb_state tb) = restored_stop (st_recovery_frozen (tb_state tb)) (cp_report cp) (tb_limits tb)"
  using assms by (auto simp: restore_checkpoint_def Let_def)

text \<open>A sample image: the sample ledger after a finished run.\<close>

definition sample_done :: ledger_state where
  "sample_done = snd (finish sample_budget 9 1 sample_running)"

lemma sample_done_eq: "sample_done = (default_state 9)\<lparr>st_next_id := 1, st_active_time := 3\<rparr>"
  by (simp add: sample_done_def finish_def sample_running_eq sample_budget_def sample_eval snapshot_def)

lemma sample_done_named [simp]:
  "turn_named sample_done" "turn_named (sample_done\<lparr>st_checkpoint_revision := r, st_last_clock := c\<rparr>)"
  by (simp_all add: sample_done_eq default_state_def)

lemma sample_done_reaches: "ledger_reaches sample_budget (default_state 5) sample_done"
proof -
  have "ledger_step sample_budget sample_running sample_done"
    unfolding sample_done_def by (rule step_finish)
  with sample_reaches(1) show ?thesis by (rule reaches_step)
qed

lemma sample_done_inv: "ledger_inv sample_limits Soft sample_done"
  using ledger_reaches_contract [OF sample_done_reaches] ledger_inv_default by (simp add: sample_budget_def)

definition sample_checkpoint :: budget_checkpoint where
  "sample_checkpoint = ledger_image sample_budget None 1 sample_done"

lemma sample_checkpoint_valid: "validate sample_checkpoint = Ok ()"
proof (rule validate_empty_audit)
  have "\<not> identity_blank sample_identity"
    by (simp add: identity_blank_def sample_identity_def is_blank_def)
  then show "image_inv sample_checkpoint"
    unfolding sample_checkpoint_def
    by (intro image_of_ledger) (use sample_done_inv in \<open>simp_all add: sample_budget_def anchor_ok_def\<close>)
qed (simp_all add: sample_checkpoint_def ledger_image_def sample_done_eq default_state_def)

definition sample_context :: budget_restore_context where
  "sample_context = \<lparr>cx_identity = sample_identity, cx_revision = 1, cx_confirmed_anchor = None,
     cx_host_limits = sample_limits\<rparr>"

definition sample_restored :: task_budget where
  "sample_restored = sample_budget\<lparr>tb_state := sample_done\<lparr>st_checkpoint_revision := 1, st_last_clock := 20\<rparr>\<rparr>"

lemma sample_restore: "restore_checkpoint sample_checkpoint sample_context 20 = Ok sample_restored"
proof -
  have "restored_stop False (snapshot sample_budget sample_done) sample_limits = None"
    using sample_done_inv
    by (auto simp: restored_stop_None snapshot_def ledger_inv_def limit_inv_def sample_done_eq default_state_def
        sample_limits_def)
  then show ?thesis
    using sample_checkpoint_valid
    by (simp add: restore_checkpoint_def sample_checkpoint_def ledger_image_def snapshot_def sample_context_def
        sample_budget_def Let_def sample_restored_def sample_done_eq default_state_def)
qed

section \<open>Sealing and restoring\<close>

text \<open>C4: Restore a checkpoint that validates and is not of the last revision number, run any
  operations that do not seal the ledger yet, and seal with an anchor that belongs to the session
  and does not go back. If the ledger's open run, when it has one, is not bound to a blank turn
  id, sealing succeeds, the ledger is sealed, and the new image passes every check a store makes
  of it as the successor of the restored one. A run bound to a blank turn id, which \<open>begin_run\<close>
  and \<open>bind_turn\<close> accept, is the one state of the ledger that cannot be sealed: validation
  refuses its image and the ledger stays unsealed.\<close>

theorem sealed_image_is_valid_successor:
  assumes "restore_checkpoint cp context now = Ok tb" and "ledger_reaches tb (tb_state tb) s"
    and "anchor_ok (br_identity (cp_report cp)) anchor" and "anchor_le (cp_anchor cp) anchor"
    and "cp_revision cp \<noteq> - 1" and "\<not> st_sealed s"
  shows "if turn_named s
    then \<exists>cp'. seal_checkpoint (tb\<lparr>tb_state := s\<rparr>) now' anchor =
        (Ok cp', tb\<lparr>tb_state := (tick (tb_limits tb) now' s)\<lparr>st_sealed := True\<rparr>\<rparr>) \<and>
      validate_transition cp' (Some cp) = Ok ()
    else \<not> is_ok (fst (seal_checkpoint (tb\<lparr>tb_state := s\<rparr>) now' anchor)) \<and>
      tb_state (snd (seal_checkpoint (tb\<lparr>tb_state := s\<rparr>) now' anchor)) = tick (tb_limits tb) now' s"
proof -
  let ?tb = "tb\<lparr>tb_state := s\<rparr>" and ?t = "tick (tb_limits tb) now' s"
  note f = restore_facts [OF assms(1)]
  have inv0: "ledger_inv (tb_limits tb) (tb_token_mode tb) (tb_state tb)" by (rule restore_inv [OF assms(1)])
  have s: "ledger_inv (tb_limits tb) (tb_token_mode tb) ?t" and p: "ledger_later (tb_limits tb) (tb_state tb) ?t"
    using ledger_reaches_contract [OF assms(2) inv0]
    by (auto intro: inv_tick ledger_later_trans ledger_later_progress progress_tick)
  obtain n where n: "checked_add (cp_revision cp) 1 = Some n"
  proof (cases "checked_add (cp_revision cp) 1")
    case None
    have "1 + cp_revision cp \<noteq> 0" using assms(5) unfolding add_eq_0_iff by blast
    then have "unat (1 + cp_revision cp) = unat (cp_revision cp) + 1" using unatSuc by simp
    then have "checked_add (cp_revision cp) 1 = Some (1 + cp_revision cp)" by (simp add: checked_add_Some_iff)
    with None show ?thesis by simp
  qed blast
  then have le: "cp_revision cp \<le> n" and n0: "n \<noteq> 0"
    by (auto simp: checked_add_Some_iff word_le_nat_alt)
  let ?cp = "ledger_image ?tb anchor n ?t"
  have img0: "image_inv cp" using f(1) by (simp add: validate_eq validate_image_iff)
  have img: "image_inv ?cp" if "turn_named s"
    by (rule image_of_ledger) (use s img0 assms(3) n0 that in \<open>simp_all add: f(2) image_inv_def Let_def\<close>)
  have kept: "st_grants ?t = cp_grants cp" "st_recoveries ?t = cp_recoveries cp" "cp_next_id cp \<le> st_next_id ?t"
    "st_checkpoint_revision ?t = cp_revision cp"
    using p f by (auto simp: ledger_later_def progress_def)
  have valid: "validate ?cp = Ok ()" if "turn_named s"
    by (rule validate_later [OF f(1) img [OF that]])
      (use kept le assms(4) in \<open>simp_all add: ledger_image_def snapshot_def f(2) audit_version_def\<close>)
  have "validate_transition ?cp (Some cp) = Ok ()" if "turn_named s"
  proof -
    have "tightened_by (tb_limits tb) (br_limits (cp_report cp)) = tb_limits tb"
      by (simp add: f(4) tightened_by_eq_iff)
    with valid [OF that] n f(1) kept show ?thesis
      by (simp add: validate_transition_def validate_successor_def validate_recovery_transition_def)
        (simp add: ledger_image_def snapshot_def f(2))
  qed
  moreover have "seal_checkpoint ?tb now' anchor = (Ok ?cp, ?tb\<lparr>tb_state := ?t\<lparr>st_sealed := True\<rparr>\<rparr>)"
    if "turn_named s"
    by (rule seal_Ok) (use f(3) kept n valid [OF that] assms(6) in simp_all)
  moreover have "\<not> is_ok (fst (seal_checkpoint ?tb now' anchor)) \<and> tb_state (snd (seal_checkpoint ?tb now' anchor)) = ?t"
    if "\<not> turn_named s"
  proof -
    have "validate ?cp \<noteq> Ok ()"
      using image_of_unnamed [of ?t ?tb anchor n] that by (auto simp: validate_eq validate_image_iff)
    then show ?thesis
      using f(3) kept n assms(6)
      by (auto simp: seal_checkpoint_def Let_def is_ok_iff split: outcome.splits)
  qed
  ultimately show ?thesis by auto
qed

lemma sample_restored_facts:
  "tb_limits sample_restored = sample_limits" "tb_identity sample_restored = sample_identity"
  "\<not> st_sealed (tb_state sample_restored)" "turn_named (tb_state sample_restored)"
  "st_run (tb_state sample_restored) = None"
  by (simp_all add: sample_restored_def sample_budget_def sample_done_eq default_state_def)

text \<open>The restored sample ledger after a run was begun with an empty turn id.\<close>

definition sample_unnamed :: ledger_state where
  "sample_unnamed = snd (begin_run_inner sample_limits 21 22 (Some []) sample_limits (tb_state sample_restored))"

lemma sample_unnamed:
  "ledger_reaches sample_restored (tb_state sample_restored) sample_unnamed" "\<not> st_sealed sample_unnamed"
  "\<not> turn_named sample_unnamed"
proof -
  have "ledger_step sample_restored (tb_state sample_restored) sample_unnamed"
    using step_begin [of sample_restored "tb_state sample_restored" 21 22 "Some []" sample_limits]
    by (simp add: sample_unnamed_def sample_restored_facts)
  then show "ledger_reaches sample_restored (tb_state sample_restored) sample_unnamed"
    by (rule reaches_step [OF reaches_refl])
  show "\<not> st_sealed sample_unnamed" "\<not> turn_named sample_unnamed"
    by (simp_all add: sample_unnamed_def sample_restored_def sample_done_eq sample_eval turn_named_def is_blank_def
        check_writable_def)
qed

theorem sealed_image_is_valid_successor_witness:
  "(\<exists>cp'. fst (seal_checkpoint sample_restored 25 None) = Ok cp' \<and>
     validate_transition cp' (Some sample_checkpoint) = Ok ()) \<and>
   \<not> is_ok (fst (seal_checkpoint (sample_restored\<lparr>tb_state := sample_unnamed\<rparr>) 25 None))"
proof -
  have a: "anchor_ok (br_identity (cp_report sample_checkpoint)) None" "anchor_le (cp_anchor sample_checkpoint) None"
    "cp_revision sample_checkpoint \<noteq> - 1"
    by (simp_all add: anchor_ok_def sample_checkpoint_def ledger_image_def)
  show ?thesis
    using sealed_image_is_valid_successor [OF sample_restore reaches_refl a sample_restored_facts(3), of 25]
      sealed_image_is_valid_successor [OF sample_restore sample_unnamed(1) a sample_unnamed(2), of 25]
      sample_restored_facts(4) sample_unnamed(3) by auto
qed

text \<open>A ledger restored from a checkpoint meets the invariant, has the charges, usage, times
  and numbers of the image, is limited by the image and by the host, keeps a recorded stop, and
  when the image carries unfinished work no operation can change it: a reservation or a new run
  is refused.\<close>

theorem restore_preserves_accounts:
  assumes "restore_checkpoint cp context now = Ok tb"
  shows "ledger_inv (tb_limits tb) (tb_token_mode tb) (tb_state tb) \<and>
    limits_le (tb_limits tb) (cx_host_limits context) \<and> limits_le (tb_limits tb) (br_limits (cp_report cp)) \<and>
    tb_identity tb = cx_identity context \<and>
    st_charged (tb_state tb) = br_charged (cp_report cp) \<and> st_usage (tb_state tb) = br_usage (cp_report cp) \<and>
    st_active_time (tb_state tb) = br_active_time (cp_report cp) \<and>
    st_next_id (tb_state tb) = cp_next_id cp \<and>
    (\<forall>x. br_stop (cp_report cp) = Some x \<longrightarrow> st_stop (tb_state tb) = Some x) \<and>
    (cp_recovery_frozen cp \<or> br_run (cp_report cp) \<noteq> None \<longrightarrow>
       st_stop (tb_state tb) \<noteq> None \<and>
       (\<forall>now' i q. reserve (tb_limits tb) (tb_token_mode tb) now' i q (tb_state tb) =
          (Err (Stopped RecoveryRequired), tb_state tb)) \<and>
       (\<forall>now' now'' turn l. begin_run_inner (tb_limits tb) now' now'' turn l (tb_state tb) =
          (Err (Stopped RecoveryRequired), tb_state tb)))"
proof -
  note f = restore_facts [OF assms]
  have "br_identity (cp_report cp) = cx_identity context"
    using assms by (auto simp: restore_checkpoint_def)
  moreover have "st_stop (tb_state tb) \<noteq> None \<and>
       reserve (tb_limits tb) (tb_token_mode tb) now' i q (tb_state tb) = (Err (Stopped RecoveryRequired), tb_state tb) \<and>
       begin_run_inner (tb_limits tb) now' now'' turn l (tb_state tb) = (Err (Stopped RecoveryRequired), tb_state tb)"
    if "cp_recovery_frozen cp \<or> br_run (cp_report cp) \<noteq> None" for now' now'' i q turn l
  proof -
    have fz: "st_recovery_frozen (tb_state tb)" using that f(16) by blast
    then have "check_writable (tb_state tb) = Err (Stopped RecoveryRequired)"
      using f(6) by (simp add: check_writable_def)
    then show ?thesis
      using fz f(17) by (simp add: reserve_def on_run_def check_run_def begin_run_inner_def restored_stop_None)
  qed
  ultimately show ?thesis
    using restore_inv [OF assms] restored_stop_Some f by auto
qed

theorem restore_preserves_accounts_witness:
  "limits_le (tb_limits sample_restored) sample_limits \<and> st_next_id (tb_state sample_restored) = 1"
  using restore_preserves_accounts [OF sample_restore]
  by (simp add: sample_context_def sample_checkpoint_def ledger_image_def sample_done_eq)

text \<open>C5: Sealing a quiescent ledger that is not frozen and restoring the image under limits the
  host has not lowered gives back the ledger: the same limits, charges, usage, times, numbers and
  audits, one revision later, and the same stop. The one thing restoring can add is a stop for
  active time, in a ledger without a stop whose active time has used its whole limit.\<close>

theorem seal_restore_roundtrip:
  assumes "ledger_inv (tb_limits tb) (tb_token_mode tb) (tb_state tb)"
    and "st = tick (tb_limits tb) now (tb_state tb)" "st_run st = None" "\<not> st_recovery_frozen st"
    and "seal_checkpoint tb now anchor = (Ok cp, tb')"
    and "limits_le (tb_limits tb) host"
  shows "restore_checkpoint cp \<lparr>cx_identity = tb_identity tb, cx_revision = st_checkpoint_revision st + 1,
       cx_confirmed_anchor = anchor, cx_host_limits = host\<rparr> now' =
     Ok (tb\<lparr>tb_state := st\<lparr>st_checkpoint_revision := st_checkpoint_revision st + 1, st_last_clock := now',
       st_stop := (if st_stop st = None \<and> st_active_time st = lim_active_time (tb_limits tb)
         then Some ActiveTime else st_stop st)\<rparr>\<rparr>)"
proof -
  have inv: "ledger_inv (tb_limits tb) (tb_token_mode tb) st" using assms(1,2) by (simp add: inv_tick)
  have unsealed: "\<not> tb_poisoned tb" "\<not> st_sealed (tb_state tb)"
    using assms(5) by (auto simp: seal_checkpoint_def split: if_splits)
  then have st0: "\<not> st_sealed st" using assms(2) progress_tick by (auto simp: progress_def)
  obtain n where n: "checked_add (st_checkpoint_revision st) 1 = Some n" and v: "validate cp = Ok ()"
    and cp: "cp = ledger_image tb anchor n st"
    using assms(5) unsealed
    by (auto simp: seal_checkpoint_def Let_def assms(2) [symmetric] split: option.splits outcome.splits)
  have n_eq: "n = st_checkpoint_revision st + 1" using n by (auto simp: checked_add_def split: if_splits)
  have pend: "st_pending st = []" using inv assms(3) by (simp add: ledger_inv_def run_inv_def)
  have lim: "tightened_by (tb_limits tb) host = tb_limits tb" using assms(6) by (simp add: tightened_by_eq_iff)
  have stop: "restored_stop False (snapshot tb st) (tb_limits tb) =
      (if st_stop st = None \<and> st_active_time st = lim_active_time (tb_limits tb) then Some ActiveTime else st_stop st)"
  proof (cases "st_stop st")
    case None
    with inv have w: "within (st_charged st) (st_reserved st) (tb_limits tb)"
      "st_active_time st \<le> lim_active_time (tb_limits tb)"
      by (simp_all add: ledger_inv_def limit_inv_def)
    show ?thesis
    proof (cases "st_active_time st = lim_active_time (tb_limits tb)")
      case True
      with None w(1) show ?thesis by (simp add: restored_stop_within snapshot_def stop_or_def)
    next
      case False
      with None w show ?thesis by (auto simp: restored_stop_None snapshot_def)
    qed
  next
    case (Some x)
    then show ?thesis by (intro restored_stop_Some [THEN trans]) (simp_all add: snapshot_def)
  qed
  note stop' = stop [unfolded snapshot_def assms(3) pend, simplified]
  show ?thesis
    using v pend assms(3,4) st0 unsealed(1)
    by (simp add: restore_checkpoint_def cp n_eq [symmetric] ledger_image_def Let_def snapshot_def lim stop')
qed

theorem seal_restore_roundtrip_witness:
  "\<exists>cp. fst (seal_checkpoint sample_restored 25 None) = Ok cp \<and>
     is_ok (restore_checkpoint cp \<lparr>cx_identity = sample_identity, cx_revision = 2,
       cx_confirmed_anchor = None, cx_host_limits = sample_limits\<rparr> 30)"
proof -
  let ?t = "tick sample_limits 25 (tb_state sample_restored)"
  have img: "image_inv (ledger_image sample_restored None 2 ?t)"
    by (rule image_of_ledger)
      (use restore_inv [OF sample_restore] in \<open>simp_all add: sample_restored_def sample_budget_def anchor_ok_def
        inv_tick identity_blank_def sample_identity_def is_blank_def\<close>)
  have t: "?t = (tb_state sample_restored)\<lparr>st_last_clock := 25\<rparr>"
    by (simp add: sample_restored_def sample_done_eq tick_def default_state_def Let_def)
  have "st_grants ?t = []" "st_recoveries ?t = []"
    unfolding t by (simp_all add: sample_restored_def sample_done_eq default_state_def)
  then have "validate (ledger_image sample_restored None 2 ?t) = Ok ()"
    by (intro validate_empty_audit [OF img]) (simp_all add: ledger_image_def)
  then have seal: "seal_checkpoint sample_restored 25 None = (Ok (ledger_image sample_restored None 2 ?t),
      sample_restored\<lparr>tb_state := ?t\<lparr>st_sealed := True\<rparr>\<rparr>)"
    by (intro seal_Ok) (simp_all add: sample_restored_def sample_budget_def sample_done_eq default_state_def
        checked_add_def tick_def Let_def)
  note lim = sample_restored_facts(1,2)
  have h: "st_run ?t = None" "\<not> st_recovery_frozen ?t" "st_checkpoint_revision ?t = 1"
    unfolding t by (simp_all add: sample_restored_def sample_done_eq default_state_def sample_limits_def)
  have "is_ok (restore_checkpoint (ledger_image sample_restored None 2 ?t) \<lparr>cx_identity = sample_identity,
      cx_revision = 1 + 1, cx_confirmed_anchor = None, cx_host_limits = sample_limits\<rparr> 30)"
    using seal_restore_roundtrip [OF restore_inv [OF sample_restore] refl, of 25 None _ _ sample_limits 30,
        unfolded lim, OF h(1-2) seal limits_le_refl] by (simp add: h(3))
  with seal show ?thesis by simp
qed

section \<open>Transitions between images\<close>

text \<open>A sample grant: the host raises the step limit of the sample image.\<close>

definition sample_raised :: budget_limits where
  "sample_raised = sample_limits\<lparr>lim_resources := (lim_resources sample_limits)\<lparr>steps := 12\<rparr>\<rparr>"

definition sample_grant :: budget_grant_record where
  "sample_grant = \<lparr>gr_request = \<lparr>gq_operation_id = ''op'', gq_actor = ''host'', gq_source = ''cli'',
      gq_reason = ''more'', gq_new_limits = sample_raised\<rparr>, gr_source_revision = 1,
     gr_confirmed_anchor = None, gr_old_limits = sample_limits, gr_old_stop = None\<rparr>"

definition sample_granted :: budget_checkpoint where
  "sample_granted = granted sample_checkpoint 2 sample_grant"

lemma sample_granted_eq: "sample_granted =
   (ledger_image (sample_budget\<lparr>tb_limits := sample_raised\<rparr>) None 2 sample_done)\<lparr>cp_grants := [sample_grant]\<rparr>"
  by (simp add: sample_granted_def granted_def sample_checkpoint_def ledger_image_def snapshot_def audit_version_def
      sample_budget_def sample_grant_def sample_done_eq default_state_def)

lemma sample_increase: "validate_increase sample_limits sample_raised None = Ok ()"
proof -
  have "tightened_by sample_raised sample_limits = sample_limits"
    by (simp add: sample_raised_def sample_limits_def tightened_by_def all_resources_def)
  moreover have "sample_limits \<noteq> sample_raised" by (simp add: sample_raised_def sample_limits_def)
  ultimately show ?thesis by (simp add: validate_increase_def)
qed

lemma sample_granted_valid: "validate sample_granted = Ok ()"
proof -
  let ?tb = "sample_budget\<lparr>tb_limits := sample_raised\<rparr>"
  have "ledger_inv sample_raised Soft sample_done"
    by (auto simp: sample_done_eq ledger_inv_defs default_state_def pend_sum_def within_def
        default_usage_report_def default_totals_def sample_raised_def sample_limits_def elim!: is_attempt.elims)
  then have "image_inv (ledger_image ?tb None 2 sample_done)"
    by (intro image_of_ledger)
      (simp_all add: sample_budget_def anchor_ok_def identity_blank_def sample_identity_def is_blank_def)
  then have img: "image_inv sample_granted" by (simp add: sample_granted_eq image_inv_def)
  have "validate_grant_request_text (gr_request sample_grant) = Ok ()"
    by (simp add: validate_grant_request_text_def sample_grant_def is_blank_def is_white_space3_def
        MAX_BUDGET_AUDIT_TEXT_BYTES_def)
  then have "validate_grants sample_granted = Ok ()"
    using sample_increase
    by (simp add: validate_grants_def grant_step_def sample_granted_eq ledger_image_def MAX_BUDGET_GRANTS_def
        sample_done_eq default_state_def) (simp add: sample_grant_def word_le_nat_alt)
  moreover have "validate_recoveries sample_granted = Ok ()" "validate_claim sample_granted = Ok ()"
    by (simp_all add: validate_recoveries_def validate_claim_def sample_granted_eq ledger_image_def sample_done_eq
        default_state_def)
  ultimately show ?thesis using img by (simp add: validate_eq validate_image_iff)
qed

lemma sample_granted_transition: "validate_transition sample_granted (Some sample_checkpoint) = Ok ()"
proof -
  have c: "cp_revision sample_checkpoint = 1" "cp_grants sample_checkpoint = []" "cp_recoveries sample_checkpoint = []"
    "is_quiescent sample_checkpoint" "cp_anchor sample_checkpoint = None"
    "br_limits (cp_report sample_checkpoint) = sample_limits" "br_stop (cp_report sample_checkpoint) = None"
    by (simp_all add: sample_checkpoint_def ledger_image_def sample_done_eq default_state_def is_quiescent_def
        snapshot_def sample_budget_def)
  have g: "cp_revision sample_granted = 2" "cp_grants sample_granted = [sample_grant]" "cp_recoveries sample_granted = []"
    "br_identity (cp_report sample_granted) = br_identity (cp_report sample_checkpoint)"
    by (simp_all add: sample_granted_def granted_def c)
  have "checked_add 1 1 = Some (2 :: u64)" by (simp add: checked_add_def)
  then show ?thesis
    using sample_granted_valid sample_checkpoint_valid c g
    by (simp add: validate_transition_def validate_successor_def validate_recovery_transition_def)
      (simp add: sample_grant_def sample_granted_def)
qed

text \<open>C6: A transition a store accepts keeps the task's identity, advances the revision by one,
  only appends to the audits, by at most one grant and one recovery, and raises a limit only
  with exactly one appended grant that records the old limits and stop. Such a transition changes
  a quiescent predecessor in nothing but its limits, which become those of the grant, and its
  budget stop, which is cleared: every account, time and number, the anchor, the run, the
  frozen flag and the recoveries are the old ones.\<close>

theorem limits_increase_only_by_grant:
  assumes "validate_transition cp (Some old) = Ok ()"
  shows "unat (cp_revision cp) = unat (cp_revision old) + 1 \<and>
    br_identity (cp_report cp) = br_identity (cp_report old) \<and>
    (\<exists>gs. cp_grants cp = cp_grants old @ gs \<and> length gs \<le> 1) \<and>
    (\<exists>rs. cp_recoveries cp = cp_recoveries old @ rs \<and> length rs \<le> 1) \<and>
    (\<not> limits_le (br_limits (cp_report cp)) (br_limits (cp_report old)) \<longrightarrow>
       is_quiescent old \<and>
       cp_report cp = (cp_report old)\<lparr>br_limits := br_limits (cp_report cp), br_stop := None\<rparr> \<and>
       cp_next_id cp = cp_next_id old \<and> cp_anchor cp = cp_anchor old \<and> cp_run_id cp = cp_run_id old \<and>
       cp_recovery_frozen cp = cp_recovery_frozen old \<and> cp_execution_id cp = cp_execution_id old \<and>
       cp_recoveries cp = cp_recoveries old \<and>
       (\<exists>gr. cp_grants cp = cp_grants old @ [gr] \<and> gr_old_limits gr = br_limits (cp_report old) \<and>
          gr_old_stop gr = br_stop (cp_report old) \<and>
          gq_new_limits (gr_request gr) = br_limits (cp_report cp) \<and> gr_source_revision gr = cp_revision old))"
proof -
  have rev: "unat (cp_revision cp) = unat (cp_revision old) + 1"
    using assms by (auto simp: validate_transition_def validate_successor_def checked_add_Some_iff)
  have id: "br_identity (cp_report cp) = br_identity (cp_report old)"
    and pg: "prefix (cp_grants old) (cp_grants cp)" and pr: "prefix (cp_recoveries old) (cp_recoveries cp)"
    using assms by (auto simp: validate_transition_def validate_recovery_transition_def)
  obtain gs where gs: "cp_grants cp = cp_grants old @ gs" using pg by (auto simp: prefix_def)
  obtain rs where rs: "cp_recoveries cp = cp_recoveries old @ rs" using pr by (auto simp: prefix_def)
  have rs1: "length rs \<le> 1"
    using assms rs by (auto simp: validate_transition_def validate_recovery_transition_def split: list.splits)
  consider "gs = []" "limits_le (br_limits (cp_report cp)) (br_limits (cp_report old))"
    | gr where "gs = [gr]" "is_quiescent old" "gr_source_revision gr = cp_revision old"
        "gr_old_limits gr = br_limits (cp_report old)" "cp = granted old (cp_revision cp) gr"
        "gr_old_stop gr = br_stop (cp_report old)"
    using assms gs by (auto simp: validate_transition_def tightened_by_eq_iff split: list.splits)
  then show ?thesis
  proof cases
    case 1
    with rev id gs rs rs1 show ?thesis by auto
  next
    case (2 gr)
    have g: "cp_report cp = (cp_report old)\<lparr>br_limits := gq_new_limits (gr_request gr), br_stop := None\<rparr>"
      "cp_next_id cp = cp_next_id old" "cp_anchor cp = cp_anchor old" "cp_run_id cp = cp_run_id old"
      "cp_recovery_frozen cp = cp_recovery_frozen old" "cp_execution_id cp = cp_execution_id old"
      "cp_recoveries cp = cp_recoveries old"
      by (subst 2(5), simp add: granted_def)+
    then have "br_limits (cp_report cp) = gq_new_limits (gr_request gr)" by simp
    with 2(1-4,6) g rev id gs show ?thesis by simp
  qed
qed

lemma sample_steps_less: "(9 :: u64) < 12"
  by simp

theorem limits_increase_only_by_grant_witness:
  "unat (cp_revision sample_granted) = unat (cp_revision sample_checkpoint) + 1 \<and>
   \<not> limits_le (br_limits (cp_report sample_granted)) (br_limits (cp_report sample_checkpoint))"
proof -
  have "limit (br_limits (cp_report sample_granted)) Steps = 12"
    "limit (br_limits (cp_report sample_checkpoint)) Steps = 9"
    by (simp_all add: sample_granted_eq sample_checkpoint_def ledger_image_def snapshot_def sample_budget_def
        sample_raised_def sample_limits_def)
  then have "\<not> limits_le (br_limits (cp_report sample_granted)) (br_limits (cp_report sample_checkpoint))"
    unfolding limits_le_iff by (metis order.refl sample_steps_less not_le)
  with limits_increase_only_by_grant [OF sample_granted_transition] show ?thesis by blast
qed

text \<open>The boundary report undoes exactly the grants made at the image's own anchor: a grant
  accepted as a transition leaves the boundary report as it was, so raising limits never
  changes what the session log is checked against.\<close>

theorem grant_keeps_boundary_report:
  assumes "validate_transition cp (Some old) = Ok ()" and "cp_grants cp = cp_grants old @ [gr]"
  shows "boundary_report cp = boundary_report old"
proof -
  have gr: "gr_confirmed_anchor gr = cp_anchor old" "gr_old_limits gr = br_limits (cp_report old)"
    "gr_old_stop gr = br_stop (cp_report old)" "cp = granted old (cp_revision cp) gr"
    using assms by (auto simp: validate_transition_def)
  have "boundary_report (granted old n gr) = boundary_report old" for n
  proof -
    have "(cp_report old)\<lparr>br_limits := gq_new_limits (gr_request gr), br_stop := None,
        br_limits := br_limits (cp_report old), br_stop := br_stop (cp_report old)\<rparr> = cp_report old"
      by (intro budget_report.equality) simp_all
    then show ?thesis by (simp add: boundary_report_def granted_def gr)
  qed
  then show ?thesis by (subst gr(4)) simp
qed

theorem grant_keeps_boundary_report_witness:
  "boundary_report sample_granted = boundary_report sample_checkpoint"
  by (rule grant_keeps_boundary_report [OF sample_granted_transition])
    (simp add: sample_granted_def granted_def)

end
