(* ===== verification/ExecutionInv.thy ===== *)
theory ExecutionInv
  imports Execution CheckpointProps
begin

text \<open>
  Facts about leases and histories (\<open>execution.rs\<close>, \<open>grant.rs\<close>, \<open>recovery.rs\<close>): what a
  successful operation went through, the addresses of a verified history, and the contract of
  checkpoint storage as a locale, with the lemmas its clients need.
\<close>

section \<open>Addresses\<close>

definition addressed :: "budget_identity \<Rightarrow> u64 \<Rightarrow> nat \<Rightarrow> 'v session_event \<Rightarrow> bool" where
  "addressed identity first k event \<longleftrightarrow>
     se_session_id event = id_session_id identity \<and> checked_add first (of_nat k) = Some (se_seq event) \<and>
     \<not> is_blank (se_event_id event) \<and> \<not> is_blank (se_turn_id event)"

lemma address_scan_iff:
  "for_each (address_step identity first) (enumerate n events) ids = Ok ids' \<longleftrightarrow>
     ids' = rev (map se_event_id events) @ ids \<and> distinct (map se_event_id events) \<and>
     set (map se_event_id events) \<inter> set ids = {} \<and>
     (\<forall>i < length events. addressed identity first (n + i) (events ! i))"
proof (induction events arbitrary: n ids)
  case (Cons e events)
  have "for_each (address_step identity first) (enumerate n (e # events)) ids = Ok ids' \<longleftrightarrow>
      addressed identity first n e \<and> se_event_id e \<notin> set ids \<and>
      for_each (address_step identity first) (enumerate (Suc n) events) (se_event_id e # ids) = Ok ids'"
    by (auto simp: address_step_def addressed_def)
  also have "\<dots> \<longleftrightarrow> addressed identity first n e \<and> se_event_id e \<notin> set ids \<and>
      ids' = rev (map se_event_id events) @ se_event_id e # ids \<and> distinct (map se_event_id events) \<and>
      set (map se_event_id events) \<inter> set (se_event_id e # ids) = {} \<and>
      (\<forall>i < length events. addressed identity first (Suc n + i) (events ! i))"
    by (simp only: Cons.IH)
  also have "\<dots> \<longleftrightarrow> ids' = rev (map se_event_id (e # events)) @ ids \<and> distinct (map se_event_id (e # events)) \<and>
     set (map se_event_id (e # events)) \<inter> set ids = {} \<and>
     (\<forall>i < length (e # events). addressed identity first (n + i) ((e # events) ! i))"
    using indexed_Cons [of e events "\<lambda>x k. addressed identity first k x" n] by auto
  finally show ?case .
qed auto

lemma validate_addresses_Ok:
  "validate_addresses events identity first = Ok u \<longleftrightarrow>
     distinct (map se_event_id events) \<and> (\<forall>i < length events. addressed identity first i (events ! i))"
  by (auto simp: validate_addresses_def address_scan_iff)

lemma checked_add_shift:
  assumes "checked_add a 1 = Some b" and "a = of_nat n" and "checked_add b (of_nat k) = Some c"
  shows "checked_add 0 (of_nat (Suc n + k)) = Some c"
proof -
  have "b = a + 1" "c = b + of_nat k"
    using assms(1,3) by (auto simp: checked_add_def split: if_splits)
  then have "c = of_nat (Suc n + k)" using assms(2) by simp
  then show ?thesis by (simp add: checked_add_def unsigned_less)
qed

lemma addressed_seq: "addressed identity 0 k event \<Longrightarrow> se_seq event = of_nat k"
  by (auto simp: addressed_def checked_add_def split: if_splits)

lemma last_two_append: "last_two ys = Some p \<Longrightarrow> last_two (xs @ ys) = Some p"
  by (auto simp: last_two_def split: list.splits)

lemma closed_tail_append:
  "validate_closed_tail ys report = Ok u \<Longrightarrow> validate_closed_tail (xs @ ys) report = Ok u"
  by (cases "last_two ys") (auto simp: validate_closed_tail_def dest: last_two_append [where xs = xs])

section \<open>Successful operations\<close>

lemma execution_claim_Ok:
  "execution_claim new_id cp = Ok claim \<Longrightarrow>
     is_quiescent cp \<and> unat (cp_revision claim) = unat (cp_revision cp) + 1 \<and> validate claim = Ok () \<and>
     claim = cp\<lparr>cp_version := audit_version cp, cp_revision := cp_revision claim,
                cp_recovery_frozen := True, cp_execution_id := Some new_id\<rparr>"
  by (auto simp: execution_claim_def Let_def checked_add_Some_iff)

lemma acquire_Ok:
  assumes "acquire store context now now' new_id s = (Ok lease, s'')"
  obtains s' task c where
    "cs_load store (cx_identity context) s = (Ok (Some (le_base lease)), s')"
    "validate (le_base lease) = Ok ()" "is_quiescent (le_base lease)"
    "restore_checkpoint (le_base lease) context now = Ok task"
    "execution_claim new_id (le_base lease) = Ok (le_claim lease)"
    "cs_compare_exchange store (cp_revision (le_base lease)) (le_claim lease) s' = (Ok c, s'')"
    "le_task lease = (snd (locked (report_op task now') task))
       \<lparr>tb_state := (tb_state (snd (locked (report_op task now') task)))
          \<lparr>st_checkpoint_revision := cp_revision (le_claim lease)\<rparr>\<rparr>"
  using assms
  by (auto simp: acquire_def Let_def case_prod_beta split: option.split_asm if_split_asm)

lemma commit_sealed_Ok:
  assumes "commit_sealed store lease now events s = ((Ok cp, s'), task)"
  obtains final c where
    "closed_turn lease events = Ok final"
    "seal_checkpoint (le_task lease) now (Some (cursor_of final)) = (Ok cp, task)"
    "is_quiescent cp" "validate_closed_tail events (cp_report cp) = Ok ()"
    "cs_compare_exchange store (cp_revision (le_claim lease)) cp s = (Ok c, s')"
  using assms
  by (auto simp: commit_sealed_def Let_def split: outcome.splits if_splits prod.splits)

lemma commit_closed_Ok:
  "commit_closed store lease now now' events s = ((Ok cp, s'), tb) \<Longrightarrow>
     \<exists>task. commit_sealed store lease now events s = ((Ok cp, s'), task)"
  by (auto simp: commit_closed_def Let_def split: prod.splits)

lemma closed_turn_Ok:
  assumes "closed_turn lease events = Ok final"
  obtains first where
    "case cp_anchor (le_base lease) of
       Some anchor \<Rightarrow> checked_add (cur_seq anchor) 1 = Some first | None \<Rightarrow> first = 0"
    "validate_addresses events (br_identity (cp_report (le_base lease))) first = Ok ()"
    "events \<noteq> []" "final = last events" "\<forall>e \<in> set events. se_turn_id e = se_turn_id final"
    "length (filter is_terminal events) = 1" "length (filter is_report events) = 1"
  using assms
  by (auto simp: closed_turn_def Let_def list_ex_iff split: option.splits if_splits)

lemma seal_Ok_image:
  assumes "seal_checkpoint tb now anchor = (Ok cp, tb')"
  obtains n where "validate cp = Ok ()" "cp = ledger_image tb anchor n (tick (tb_limits tb) now (tb_state tb))"
    "checked_add (st_checkpoint_revision (tick (tb_limits tb) now (tb_state tb))) 1 = Some n"
  using assms
  by (auto simp: seal_checkpoint_def Let_def split: if_splits option.splits outcome.splits)

lemma locked_report:
  assumes "\<not> tb_poisoned task" and "ledger_inv (tb_limits task) (tb_token_mode task) (tb_state task)"
  shows "ledger_reaches task (tb_state task) (tb_state (snd (locked (report_op task now) task))) \<and>
     snd (locked (report_op task now) task) = task\<lparr>tb_state := tb_state (snd (locked (report_op task now) task))\<rparr>"
proof -
  have "ledger_reaches task (tb_state task) (snd (report_op task now (tb_state task)))"
    by (rule reaches_step [OF reaches_refl step_report])
  then show ?thesis
    using assms report_op.op_no_panic [OF assms(2), of now]
    by (auto simp: locked_def intro!: task_budget.equality split: prod.splits outcome.splits)
qed

lemma grant_candidate_Ok:
  assumes "grant_candidate context history request base = Ok cp"
  shows "verify_checkpoint_history base history = Ok () \<and> is_quiescent base \<and>
    validate_transition cp (Some base) = Ok () \<and> (\<exists>gr \<in> set (cp_grants cp). gr_request gr = request)"
  using assms by (auto simp: grant_candidate_def Let_def granted_def)

lemma grant_applied:
  assumes "grant_budget store context history request s = (Ok (GrantApplied cp c), s')"
  obtains base s1 where "cs_load store (cx_identity context) s = (Ok (Some base), s1)"
    "\<forall>gr \<in> set (cp_grants base). gq_operation_id (gr_request gr) \<noteq> gq_operation_id request"
    "grant_candidate context history request base = Ok cp"
    "cs_compare_exchange store (cp_revision base) cp s1 = (Ok c, s')"
proof -
  obtain v s1 where l: "cs_load store (cx_identity context) s = (Ok v, s1)"
    using assms by (auto simp: grant_budget_def)
  with assms obtain base where v: "v = Some base" by (cases v) (auto simp: grant_budget_def)
  let ?f = "find (\<lambda>gr. gq_operation_id (gr_request gr) = gq_operation_id request) (cp_grants base)"
  have f: "?f = None"
    using assms l v by (cases ?f) (auto simp: grant_budget_def split: if_split_asm)
  have "grant_candidate context history request base = Ok cp"
    "cs_compare_exchange store (cp_revision base) cp s1 = (Ok c, s')"
    using assms l v f by (auto simp: grant_budget_def split: if_split_asm)
  with that [of base s1] l v f show thesis by (auto simp: find_None_iff)
qed

lemma recovery_applied:
  assumes "recover_budget_candidate store ownership request candidate s = (Ok (RecoveryApplied cp), s')"
  obtains current s1 c history where
    "cs_load store (br_identity (cp_report candidate)) s = (Ok (Some current), s1)"
    "is_quiescent candidate" "cp = recovered ownership request candidate"
    "cp_execution_id current = Some (rq_execution_id request)" "cp_revision current = rq_source_revision request"
    "validate_transition cp (Some current) = Ok ()"
    "cs_compare_exchange_guarded store (cp_revision current) cp s1 = (Ok c, s')"
    "ow_history ownership = Ok history" "verify_checkpoint_history candidate history = Ok ()"
    "\<forall>rc \<in> set (cp_recoveries current). rq_operation_id (rc_request rc) \<noteq> rq_operation_id request"
proof -
  obtain v s1 where l: "cs_load store (br_identity (cp_report candidate)) s = (Ok v, s1)"
    using assms by (auto simp: recover_budget_candidate_def split: if_split_asm)
  with assms obtain current where v: "v = Some current"
    by (cases v) (auto simp: recover_budget_candidate_def split: if_split_asm)
  have r: "recover_loaded store ownership request candidate current s1 = (Ok (RecoveryApplied cp), s')"
    and q: "is_quiescent candidate"
    using assms l v by (auto simp: recover_budget_candidate_def split: if_split_asm)
  let ?f = "find (\<lambda>(_, rc). rq_operation_id (rc_request rc) = rq_operation_id request)
      (enumerate 0 (cp_recoveries current))"
  have f: "?f = None"
    using r by (cases ?f) (auto simp: recover_loaded_def split: if_split_asm)
  obtain history where h: "ow_history ownership = Ok history"
    using r by (auto simp: recover_loaded_def f split: if_split_asm)
  obtain c where "cs_compare_exchange_guarded store (cp_revision current) cp s1 = (Ok c, s')"
    using r by (auto simp: recover_loaded_def f h Let_def split: if_split_asm)
  moreover have "rq_operation_id (rc_request rc) \<noteq> rq_operation_id request"
    if mem: "rc \<in> set (cp_recoveries current)" for rc
  proof -
    obtain k where "k < length (cp_recoveries current)" "cp_recoveries current ! k = rc"
      using mem by (auto simp: in_set_conv_nth)
    then have "(k, rc) \<in> set (enumerate 0 (cp_recoveries current))" by (simp add: in_set_enumerate_eq)
    with f show ?thesis by (auto simp: find_None_iff)
  qed
  ultimately show thesis
    by (intro that [of current s1 c history])
      (use r l v q h in \<open>auto simp: recover_loaded_def f Let_def split: if_split_asm\<close>)
qed

text \<open>What a recovery record appended by a transition asserts of the claim it replaces.\<close>

lemma recovery_transition:
  assumes "validate_transition cp (Some old) = Ok ()" and "rc \<in> set (cp_recoveries cp)"
    and "rc \<notin> set (cp_recoveries old)"
  shows "validate_recovery_record cp old rc = Ok ()"
proof -
  have t: "validate_recovery_transition cp (Some old) = Ok ()"
    using assms(1) by (simp add: validate_transition_def)
  then obtain rs where rs: "cp_recoveries cp = cp_recoveries old @ rs"
    by (auto simp: validate_recovery_transition_def prefix_def)
  with assms(2,3) have "rc \<in> set rs" by auto
  with t rs show ?thesis
    by (auto simp: validate_recovery_transition_def split: list.splits)
qed

lemma recovery_record_facts:
  assumes "validate_recovery_record cp old rc = Ok ()"
  shows "amount (br_charged (cp_report old)) r \<le> amount (br_charged (cp_report cp)) r"
    "br_limits (cp_report cp) = br_limits (cp_report old)" "br_token_mode (cp_report cp) = br_token_mode (cp_report old)"
    "br_active_time (cp_report old) \<le> br_active_time (cp_report cp)"
    "br_cleanup_time (cp_report old) \<le> br_cleanup_time (cp_report cp)"
    "br_reserved (cp_report cp) = default_amounts"
    "cp_execution_id old = Some (rq_execution_id (rc_request rc))"
proof -
  have "\<forall>r \<in> set all_resources. amount (br_charged (cp_report old)) r \<le> amount (br_charged (cp_report cp)) r"
    using assms by (auto simp: validate_recovery_record_def for_each_unit not_less)
  then show "amount (br_charged (cp_report old)) r \<le> amount (br_charged (cp_report cp)) r" by simp
qed (use assms in \<open>auto simp: validate_recovery_record_def not_less\<close>)

section \<open>Extending a verified history\<close>

lemma for_each_step:
  assumes "for_each f xs s = Ok t" and "x \<in> set xs"
  shows "\<exists>u v. f x u = Ok v"
  using assms by (induction xs arbitrary: s) auto

lemma grant_anchor_within:
  assumes "validate_grants cp = Ok ()" and "gr \<in> set (cp_grants cp)" and "gr_confirmed_anchor gr = Some a"
  shows "\<exists>t. cp_anchor cp = Some t \<and> cur_seq a \<le> cur_seq t"
proof -
  obtain t where "for_each (grant_step cp) (cp_grants cp) ([], 0, None) = Ok t"
    using assms(1) by (auto simp: validate_grants_def)
  from for_each_step [OF this assms(2)] obtain u v where "grant_step cp gr u = Ok v" by blast
  moreover obtain ids pr pa where "u = (ids, pr, pa)" by (cases u)
  ultimately have "\<not> (case cp_anchor cp of None \<Rightarrow> True | Some tail \<Rightarrow> cursor_after a tail)"
    by (simp add: grant_step_def assms(3))
  then show ?thesis by (cases "cp_anchor cp") (simp_all add: cursor_after_def not_less)
qed

lemma boundary_report_later:
  assumes "\<And>gr. gr \<in> set (cp_grants cp) \<Longrightarrow> gr_confirmed_anchor gr \<noteq> cp_anchor cp"
  shows "boundary_report cp = Ok (cp_report cp)"
proof -
  have "takeWhile (\<lambda>gr. gr_confirmed_anchor gr = cp_anchor cp) (rev (cp_grants cp)) = []"
  proof (cases "rev (cp_grants cp)")
    case (Cons gr gs)
    then have "gr \<in> set (cp_grants cp)" by (metis list.set_intros(1) set_rev)
    then have "gr_confirmed_anchor gr \<noteq> cp_anchor cp" by (rule assms)
    with Cons show ?thesis by simp
  qed simp
  then show ?thesis by (simp add: boundary_report_def)
qed

lemma verify_history_Ok:
  assumes "verify_checkpoint_history cp history = Ok ()"
  shows "validate cp = Ok ()" "validate_addresses history (br_identity (cp_report cp)) 0 = Ok ()"
    "cp_anchor cp = (if history = [] then None else Some (cursor_of (last history)))"
  using assms by (auto simp: verify_checkpoint_history_def split: option.splits if_splits)

lemma first_after_anchor:
  assumes "verify_checkpoint_history base history = Ok ()"
    and "case cp_anchor base of Some anchor \<Rightarrow> checked_add (cur_seq anchor) 1 = Some first | None \<Rightarrow> first = 0"
    and "addressed (br_identity (cp_report base)) first k event"
  shows "addressed (br_identity (cp_report base)) 0 (length history + k) event"
proof (cases "history = []")
  case True
  with assms verify_history_Ok(3) [OF assms(1)] show ?thesis by simp
next
  case False
  then obtain n where n: "length history = Suc n" by (cases history) auto
  have "cp_anchor base = Some (cursor_of (last history))" using verify_history_Ok(3) [OF assms(1)] False by simp
  moreover have "se_seq (last history) = of_nat n"
    using verify_history_Ok(2) [OF assms(1)] n False
    by (auto simp: validate_addresses_Ok last_conv_nth dest: addressed_seq)
  ultimately show ?thesis
    using assms(2,3) checked_add_shift [of "of_nat n" first n k "se_seq event"] n
    by (auto simp: addressed_def cursor_of_def)
qed

lemma final_after_anchor:
  assumes "cp_anchor base = Some anchor" and "checked_add (cur_seq anchor) 1 = Some first"
    and "addressed identity first k event"
  shows "cur_seq anchor < se_seq event"
  using assms(2,3) by (auto simp: addressed_def checked_add_Some_iff word_less_nat_alt)

lemma closed_history:
  assumes hist: "verify_checkpoint_history (le_base lease) history = Ok ()"
    and turn: "closed_turn lease events = Ok final"
    and fresh: "se_event_id ` set history \<inter> se_event_id ` set events = {}"
    and valid: "validate cp = Ok ()" and anchor: "cp_anchor cp = Some (cursor_of final)"
    and id: "br_identity (cp_report cp) = br_identity (cp_report (le_base lease))"
    and grants: "cp_grants cp = cp_grants (le_base lease)"
    and closed: "validate_closed_tail events (cp_report cp) = Ok ()"
  shows "verify_checkpoint_history cp (history @ events) = Ok ()"
proof -
  obtain first where first: "case cp_anchor (le_base lease) of
       Some anchor \<Rightarrow> checked_add (cur_seq anchor) 1 = Some first | None \<Rightarrow> first = 0"
    and addr: "validate_addresses events (br_identity (cp_report (le_base lease))) first = Ok ()"
    and ne: "events \<noteq> []" and final: "final = last events"
    using turn by (rule closed_turn_Ok)
  have ev: "distinct (map se_event_id events)"
    "\<And>k. k < length events \<Longrightarrow> addressed (br_identity (cp_report (le_base lease))) first k (events ! k)"
    using addr by (auto simp: validate_addresses_Ok)
  have hs: "distinct (map se_event_id history)"
    "\<And>k. k < length history \<Longrightarrow> addressed (br_identity (cp_report (le_base lease))) 0 k (history ! k)"
    using verify_history_Ok(2) [OF hist] by (auto simp: validate_addresses_Ok)
  have "addressed (br_identity (cp_report cp)) 0 k ((history @ events) ! k)" if "k < length (history @ events)" for k
  proof (cases "k < length history")
    case True
    with hs(2) id show ?thesis by (simp add: nth_append)
  next
    case False
    with that have "k - length history < length events" by auto
    from first_after_anchor [OF hist first ev(2) [OF this]] False show ?thesis by (simp add: nth_append id)
  qed
  then have addr': "validate_addresses (history @ events) (br_identity (cp_report cp)) 0 = Ok ()"
    using ev(1) hs(1) fresh by (simp add: validate_addresses_Ok)
  have "boundary_report cp = Ok (cp_report cp)"
  proof (rule boundary_report_later)
    fix gr assume gr: "gr \<in> set (cp_grants cp)"
    show "gr_confirmed_anchor gr \<noteq> cp_anchor cp"
    proof
      assume "gr_confirmed_anchor gr = cp_anchor cp"
      moreover have "validate_grants (le_base lease) = Ok ()"
        using verify_history_Ok(1) [OF hist] by (simp add: validate_eq)
      ultimately obtain t where t: "cp_anchor (le_base lease) = Some t" "cur_seq (cursor_of final) \<le> cur_seq t"
        using grant_anchor_within gr anchor grants by fastforce
      have "addressed (br_identity (cp_report (le_base lease))) first (length events - 1) final"
        using ev(2) [of "length events - 1"] ne final by (simp add: last_conv_nth)
      with t first have "cur_seq t < se_seq final" by (intro final_after_anchor) auto
      with t(2) show False by (simp add: cursor_of_def)
    qed
  qed
  then show ?thesis
    using valid addr' anchor ne final closed_tail_append [OF closed]
    by (simp add: verify_checkpoint_history_def)
qed

end
