(* ===== verification/StoreLaws.thy ===== *)
theory StoreLaws
  imports ExecutionInv
begin

text \<open>
  The contract of checkpoint storage (the trait \<open>BudgetCheckpointStore\<close>) as a locale over the
  image a store holds, its view, and what leases, grants and recoveries may rely on. The images
  a run of operations shows form a chain of valid transitions.
\<close>

section \<open>Chains of images\<close>

inductive image_chain :: "budget_checkpoint option \<Rightarrow> budget_checkpoint option \<Rightarrow> bool" where
  chain_refl: "image_chain v v"
| chain_step: "image_chain v w \<Longrightarrow> validate_transition cp w = Ok () \<Longrightarrow> image_chain v (Some cp)"

lemma chain_trans:
  assumes "image_chain v w" and "image_chain u v"
  shows "image_chain u w"
  using assms by induction (auto intro: chain_step)

lemma transition_facts:
  assumes "validate_transition cp (Some old) = Ok ()"
  shows "unat (cp_revision cp) = unat (cp_revision old) + 1"
    "br_identity (cp_report cp) = br_identity (cp_report old)"
    "prefix (cp_grants old) (cp_grants cp)" "prefix (cp_recoveries old) (cp_recoveries cp)"
    "validate cp = Ok ()"
  using assms
  by (auto simp: validate_transition_def validate_successor_def validate_recovery_transition_def checked_add_Some_iff)

definition later_image :: "budget_checkpoint \<Rightarrow> budget_checkpoint \<Rightarrow> bool" where
  "later_image old cp \<longleftrightarrow>
     unat (cp_revision old) < unat (cp_revision cp) \<and>
     br_identity (cp_report cp) = br_identity (cp_report old) \<and>
     prefix (cp_grants old) (cp_grants cp) \<and> prefix (cp_recoveries old) (cp_recoveries cp)"

lemma chain_from:
  assumes "image_chain v w" and "v = Some old"
  shows "\<exists>cp. w = Some cp \<and> (cp = old \<or> later_image old cp)"
  using assms
proof (induction rule: image_chain.induct)
  case (chain_step v w cp)
  then obtain c where c: "w = Some c" "c = old \<or> later_image old c" by blast
  with transition_facts [of cp c] chain_step.hyps(2) show ?case
    by (auto simp: later_image_def intro: prefix_order.trans)
qed simp

section \<open>The contract\<close>

definition view_revision :: "budget_checkpoint option \<Rightarrow> u64" where
  "view_revision v = (case v of None \<Rightarrow> 0 | Some cp \<Rightarrow> cp_revision cp)"

definition certain :: "checkpoint_store_error \<Rightarrow> bool" where
  "certain e = (case e of StStorage CkIndeterminate _ \<Rightarrow> False | _ \<Rightarrow> True)"

locale cas_laws =
  fixes cas :: "u64 \<Rightarrow> budget_checkpoint \<Rightarrow> 's \<Rightarrow> (checkpoint_commit, checkpoint_store_error) outcome \<times> 's"
    and view :: "'s \<Rightarrow> budget_checkpoint option"
    and codes :: "budget_checkpoint \<Rightarrow> bool"
  assumes cas_Ok: "codes cp \<Longrightarrow> cas expected cp s = (Ok c, s') \<Longrightarrow>
      view s' = Some cp \<and>
      (view s = Some cp \<or> expected = view_revision (view s) \<and> validate_transition cp (view s) = Ok ())"
    and cas_any: "codes cp \<Longrightarrow> cas expected cp s = (r, s') \<Longrightarrow>
      view s' = view s \<or> view s' = Some cp \<and> validate_transition cp (view s) = Ok ()"
    and cas_certain: "cas expected cp s = (Err e, s') \<Longrightarrow> certain e \<Longrightarrow> view s' = view s"
begin

lemma cas_chain: "codes cp \<Longrightarrow> image_chain (view s) (view (snd (cas expected cp s)))"
  using cas_any [of cp expected s "fst (cas expected cp s)" "snd (cas expected cp s)"]
  by (auto intro: chain_refl chain_step [OF chain_refl])

text \<open>Two exchanges that expect the same revision cannot both commit different images.\<close>

lemma cas_once:
  assumes "codes cp" "cas expected cp s = (Ok c, s')" "image_chain (view s') (view t)"
    and "codes cp'" "cas expected cp' t = (Ok c', t')" and "cp \<noteq> cp'" and "validate_successor cp expected = Ok ()"
  shows "view t = Some cp'"
proof (rule ccontr)
  assume "view t \<noteq> Some cp'"
  then have e: "expected = view_revision (view t)" using cas_Ok [OF assms(4,5)] by simp
  have "view s' = Some cp" using cas_Ok [OF assms(1,2)] by simp
  with chain_from [OF assms(3)] obtain c where "view t = Some c" "c = cp \<or> later_image cp c" by blast
  with e have "unat (cp_revision cp) \<le> unat expected" by (auto simp: view_revision_def later_image_def)
  moreover have "unat (cp_revision cp) = unat expected + 1"
    using assms(7) by (auto simp: validate_successor_def checked_add_Some_iff)
  ultimately show False by simp
qed

end

locale checkpoint_laws = plain: cas_laws "cs_compare_exchange store" view codes +
    guarded: cas_laws "cs_compare_exchange_guarded store" view codes
  for store :: "'s checkpoint_store" and view codes +
  assumes load_view: "cs_load store identity s = (r, s') \<Longrightarrow> view s' = view s"
    and load_Ok: "cs_load store identity s = (Ok v, s') \<Longrightarrow>
      v = view s \<and> (\<forall>cp. v = Some cp \<longrightarrow> br_identity (cp_report cp) = identity)"

text \<open>A run of a store: any sequence of its operations by any of its clients.\<close>

inductive store_run :: "'s checkpoint_store \<Rightarrow> (budget_checkpoint \<Rightarrow> bool) \<Rightarrow> 's \<Rightarrow> 's \<Rightarrow> bool"
  for store codes where
  run_refl: "store_run store codes s s"
| run_load: "store_run store codes s t \<Longrightarrow> store_run store codes s (snd (cs_load store identity t))"
| run_cas: "store_run store codes s t \<Longrightarrow> codes cp \<Longrightarrow>
    store_run store codes s (snd (cs_compare_exchange store expected cp t))"
| run_guarded: "store_run store codes s t \<Longrightarrow> codes cp \<Longrightarrow>
    store_run store codes s (snd (cs_compare_exchange_guarded store expected cp t))"

context checkpoint_laws begin

lemma run_chain:
  assumes "store_run store codes s t"
  shows "image_chain (view s) (view t)"
  using assms
proof induction
  case (run_load s t identity)
  then show ?case using load_view [of identity t] by (metis prod.collapse)
next
  case (run_cas s t cp expected)
  then show ?case using plain.cas_chain chain_trans by blast
next
  case (run_guarded s t cp expected)
  then show ?case using guarded.cas_chain chain_trans by blast
qed (rule chain_refl)

text \<open>A lease holds the claim of the image the store held.\<close>

lemma acquire_view:
  assumes "acquire store context now now' new_id s = (Ok lease, s')" and "codes (le_claim lease)"
  shows "view s = Some (le_base lease) \<and> is_quiescent (le_base lease) \<and> view s' = Some (le_claim lease) \<and>
    br_identity (cp_report (le_base lease)) = cx_identity context"
proof -
  obtain s1 c where l: "cs_load store (cx_identity context) s = (Ok (Some (le_base lease)), s1)"
    and q: "is_quiescent (le_base lease)"
    and cas: "cs_compare_exchange store (cp_revision (le_base lease)) (le_claim lease) s1 = (Ok c, s')"
    using assms(1) by (rule acquire_Ok) blast
  show ?thesis using load_Ok [OF l] q plain.cas_Ok [OF assms(2) cas] by auto
qed

lemma acquire_refused:
  assumes "view s = Some cp" and "\<not> is_quiescent cp"
  shows "acquire store context now now' new_id s \<noteq> (Ok lease, s')"
proof
  assume a: "acquire store context now now' new_id s = (Ok lease, s')"
  obtain s1 where l: "cs_load store (cx_identity context) s = (Ok (Some (le_base lease)), s1)"
    and q: "is_quiescent (le_base lease)"
    using a by (rule acquire_Ok)
  show False using load_Ok [OF l] assms q by simp
qed

lemma claim_frozen:
  assumes "acquire store context now now' new_id s = (Ok lease, s')"
  shows "\<not> is_quiescent (le_claim lease)"
proof -
  have c: "execution_claim new_id (le_base lease) = Ok (le_claim lease)" using assms by (rule acquire_Ok)
  have "\<exists>x. le_claim lease = x\<lparr>cp_recovery_frozen := True, cp_execution_id := Some new_id\<rparr>"
    using execution_claim_Ok [OF c] by blast
  then show ?thesis by (auto simp: is_quiescent_def)
qed

lemma leases_apart:
  assumes a: "acquire store context now now' i s = (Ok lease, s1)" "codes (le_claim lease)"
    and run: "store_run store codes s1 s2"
    and b: "acquire store context' now2 now2' j s2 = (Ok lease', s3)"
  shows "image_chain (Some (le_claim lease)) (Some (le_base lease')) \<and> later_image (le_claim lease) (le_base lease')"
proof -
  obtain s4 where l: "cs_load store (cx_identity context') s2 = (Ok (Some (le_base lease')), s4)"
    and q: "is_quiescent (le_base lease')"
    using b by (rule acquire_Ok)
  have v: "view s1 = Some (le_claim lease)" "view s2 = Some (le_base lease')"
    using acquire_view [OF a] load_Ok [OF l] by auto
  with chain_from [OF run_chain [OF run]] claim_frozen [OF a(1)] q run_chain [OF run] show ?thesis by auto
qed

lemma commit_view:
  assumes "commit_closed store lease now now' events s = ((Ok cp, s'), tb)" and "codes cp"
    and "image_chain (Some (le_claim lease)) (view s)" and "view s \<noteq> Some cp"
  shows "view s = Some (le_claim lease) \<and> view s' = Some cp \<and> is_quiescent cp \<and>
    validate_transition cp (Some (le_claim lease)) = Ok ()"
proof -
  obtain task where "commit_sealed store lease now events s = ((Ok cp, s'), task)"
    using commit_closed_Ok [OF assms(1)] by blast
  then obtain c where q: "is_quiescent cp"
    and cas: "cs_compare_exchange store (cp_revision (le_claim lease)) cp s = (Ok c, s')"
    by (rule commit_sealed_Ok) blast
  note f = plain.cas_Ok [OF assms(2) cas]
  obtain w where w: "view s = Some w" "w = le_claim lease \<or> later_image (le_claim lease) w"
    using chain_from [OF assms(3)] by blast
  with f assms(4) have "w = le_claim lease"
    by (auto simp: view_revision_def later_image_def)
  with w f assms(4) q show ?thesis by auto
qed

text \<open>A grant is applied to the image the store held, and never a second time.\<close>

lemma grant_view:
  assumes "grant_budget store context history request s = (Ok (GrantApplied cp c), s')" and "codes cp"
  obtains base where "view s = Some base" "view s' = Some cp" "validate_transition cp (Some base) = Ok ()"
    "verify_checkpoint_history base history = Ok ()" "is_quiescent base"
    "\<forall>gr \<in> set (cp_grants base). gq_operation_id (gr_request gr) \<noteq> gq_operation_id request"
    "\<exists>gr \<in> set (cp_grants cp). gr_request gr = request"
proof -
  obtain base s1 where l: "cs_load store (cx_identity context) s = (Ok (Some base), s1)"
    and new: "\<forall>gr \<in> set (cp_grants base). gq_operation_id (gr_request gr) \<noteq> gq_operation_id request"
    and cand: "grant_candidate context history request base = Ok cp"
    and cas: "cs_compare_exchange store (cp_revision base) cp s1 = (Ok c, s')"
    using assms(1) by (rule grant_applied)
  note g = grant_candidate_Ok [OF cand]
  show thesis
    by (rule that [of base]) (use load_Ok [OF l] new g plain.cas_Ok [OF assms(2) cas] in auto)
qed

lemma grant_once:
  assumes "grant_budget store context history request s = (Ok (GrantApplied cp c), s1)" and "codes cp"
    and "store_run store codes s1 s2" and "gq_operation_id request' = gq_operation_id request"
  shows "grant_budget store context' history' request' s2 \<noteq> (Ok (GrantApplied cp' c'), s3)"
proof
  assume b: "grant_budget store context' history' request' s2 = (Ok (GrantApplied cp' c'), s3)"
  obtain base where "view s1 = Some cp" and gr: "\<exists>gr \<in> set (cp_grants cp). gr_request gr = request"
    using assms(1,2) by (rule grant_view)
  then obtain cp2 where cp2: "view s2 = Some cp2" "cp2 = cp \<or> later_image cp cp2"
    using chain_from [OF run_chain [OF assms(3)]] by blast
  obtain base' s4 where l: "cs_load store (cx_identity context') s2 = (Ok (Some base'), s4)"
    and new: "\<forall>gr \<in> set (cp_grants base'). gq_operation_id (gr_request gr) \<noteq> gq_operation_id request'"
    using b by (rule grant_applied)
  have "base' = cp2" using load_Ok [OF l] cp2(1) by simp
  with cp2 new have "\<forall>gr \<in> set (cp_grants cp). gq_operation_id (gr_request gr) \<noteq> gq_operation_id request"
    using assms(4) by (auto simp: later_image_def dest: set_mono_prefix)
  with gr show False by auto
qed

text \<open>A recovery replaces exactly the frozen claim it names.\<close>

lemma recovery_view:
  assumes "recover_budget_candidate store ownership request candidate s = (Ok (RecoveryApplied cp), s')"
    and "codes cp"
  shows "\<exists>claim rc. view s = Some claim \<and> cp_revision claim = rq_source_revision request \<and>
    view s' = Some cp \<and> is_quiescent cp \<and> cp_report cp = cp_report candidate \<and>
    validate_transition cp (Some claim) = Ok () \<and> rc_request rc = request \<and>
    validate_recovery_record cp claim rc = Ok ()"
proof -
  obtain claim s1 c history where l: "cs_load store (br_identity (cp_report candidate)) s = (Ok (Some claim), s1)"
    and q: "is_quiescent candidate" and cp: "cp = recovered ownership request candidate"
    and rev: "cp_revision claim = rq_source_revision request"
    and tr: "validate_transition cp (Some claim) = Ok ()"
    and cas: "cs_compare_exchange_guarded store (cp_revision claim) cp s1 = (Ok c, s')"
    and new: "\<forall>rc \<in> set (cp_recoveries claim). rq_operation_id (rc_request rc) \<noteq> rq_operation_id request"
    using assms(1) by (rule recovery_applied)
  have "\<exists>rc \<in> set (cp_recoveries cp). rc_request rc = request" by (simp add: cp recovered_def)
  then obtain rc where rc: "rc \<in> set (cp_recoveries cp)" "rc_request rc = request" by blast
  with new have "rc \<notin> set (cp_recoveries claim)" by auto
  from recovery_transition [OF tr rc(1) this] have rec: "validate_recovery_record cp claim rc = Ok ()" .
  have "is_quiescent cp" "cp_report cp = cp_report candidate" using q by (simp_all add: cp recovered_def is_quiescent_def)
  moreover have "view s = Some claim" using load_Ok [OF l] by simp
  moreover have "view s' = Some cp" using guarded.cas_Ok [OF assms(2) cas] by simp
  ultimately show ?thesis using rev tr rec rc(2) by blast
qed

end

end
