(* ===== verification/FileStoreInv.thy ===== *)
theory FileStoreInv
  imports FileStore StoreLaws
begin

text \<open>
  The file store keeps the contract of checkpoint storage under every fault: the image a file
  holds is what its terminated lines replay to, and the interpretation of \<open>checkpoint_laws\<close> on
  the operations of \<open>FileStore\<close>. An unterminated tail is not a record; reading refuses it.
\<close>

section \<open>Lines\<close>

lemma split_lines_ne [simp]: "[] \<notin> set (split_lines bytes)"
  by (induction bytes) (auto split: list.splits)

lemma split_lines_eq_Nil [simp]: "split_lines bytes = [] \<longleftrightarrow> bytes = []"
  by (cases bytes) (auto split: list.splits)

lemma concat_split_lines [simp]: "concat (split_lines bytes) = bytes"
  by (induction bytes) (auto split: list.splits)

lemma split_lines_append:
  assumes "list_all terminated (split_lines xs)"
  shows "split_lines (xs @ ys) = split_lines xs @ split_lines ys"
  using assms
proof (induction xs)
  case (Cons c xs)
  show ?case
  proof (cases "c = newline")
    case False
    with Cons.prems obtain line ls where l: "split_lines xs = line # ls"
      by (cases "split_lines xs") (auto simp: terminated_def)
    have "line \<noteq> []" using split_lines_ne [of xs] l by auto
    with Cons.prems False l have "list_all terminated (split_lines xs)" by (simp add: terminated_def [of line] terminated_def [of "c # line"])
    from Cons.IH [OF this] False l show ?thesis by simp
  qed (use Cons in auto)
qed simp

lemma split_lines_torn: "newline \<notin> set l \<Longrightarrow> split_lines l = (if l = [] then [] else [l])"
  by (induction l) auto

lemma split_lines_line: "newline \<notin> set l \<Longrightarrow> split_lines (l @ [newline]) = [l @ [newline]]"
  by (induction l) auto

section \<open>The image a file holds\<close>

definition log_view :: "record_codec \<Rightarrow> string \<Rightarrow> budget_checkpoint option" where
  "log_view codec file =
     (case for_each (replay_line codec) (enumerate 0 (filter terminated (split_lines file))) None of
        Ok latest \<Rightarrow> latest | _ \<Rightarrow> None)"

definition file_view :: "record_codec \<Rightarrow> file_state \<Rightarrow> budget_checkpoint option" where
  "file_view codec s = log_view codec (fs_bytes s)"

text \<open>
  The documented behaviour of \<open>serde_json\<close> on the record of an image (the only one that is ever
  written names the revision before it): what it writes has no raw newline and reads back as
  what was written.
\<close>

definition file_codes :: "record_codec \<Rightarrow> budget_checkpoint \<Rightarrow> bool" where
  "file_codes codec cp \<longleftrightarrow>
     (let entry = \<lparr>lr_version = 1, lr_expected_revision = cp_revision cp - 1, lr_checkpoint = cp\<rparr> in
        newline \<notin> set (cd_encode codec entry) \<and> cd_decode codec (cd_encode codec entry @ [newline]) = Ok entry)"

lemma read_lines_Ok:
  assumes "for_each (read_line config codec) (enumerate n ls) v = Ok w"
  shows "list_all terminated ls \<and> list_all (\<lambda>l. length l \<le> fc_max_record_bytes config) ls \<and>
    for_each (replay_line codec) (enumerate n ls) v = Ok w"
  using assms
proof (induction ls arbitrary: n v)
  case (Cons l ls)
  then obtain u where "read_line config codec (n, l) v = Ok u"
    and "for_each (read_line config codec) (enumerate (Suc n) ls) u = Ok w" by auto
  with Cons.IH show ?case by (auto simp: read_line_def split: if_splits)
qed simp

lemma read_lines_intro:
  assumes "list_all terminated ls" "list_all (\<lambda>l. length l \<le> fc_max_record_bytes config) ls"
    and "for_each (replay_line codec) (enumerate n ls) v = Ok w"
  shows "for_each (read_line config codec) (enumerate n ls) v = Ok w"
  using assms
proof (induction ls arbitrary: n v)
  case (Cons l ls)
  then show ?case by (auto simp: read_line_def)
qed simp

definition sound_log :: "file_config \<Rightarrow> record_codec \<Rightarrow> string \<Rightarrow> budget_checkpoint option \<Rightarrow> bool" where
  "sound_log config codec file v \<longleftrightarrow>
     list_all terminated (split_lines file) \<and>
     list_all (\<lambda>l. length l \<le> fc_max_record_bytes config) (split_lines file) \<and>
     length file \<le> fc_max_log_bytes config \<and>
     for_each (replay_line codec) (enumerate 0 (split_lines file)) None = Ok v"

lemma read_latest_Ok:
  assumes "read_latest config codec io identity file = Ok (v, n)"
  shows "sound_log config codec file v \<and> n = length file \<and>
    (\<forall>cp. v = Some cp \<longrightarrow> br_identity (cp_report cp) = identity)"
  using assms
  by (auto simp: read_latest_def sound_log_def Let_def dest!: read_lines_Ok split: if_splits option.splits)

lemma read_latest_eq:
  "length file \<le> fc_max_log_bytes config \<Longrightarrow> read_latest config codec fault_free identity file =
     and_then (for_each (read_line config codec) (enumerate 0 (split_lines file)) None) (\<lambda>latest.
       if (case latest of Some cp \<Rightarrow> br_identity (cp_report cp) \<noteq> identity | None \<Rightarrow> False)
       then Err (StInvalid CpIdentityMismatch)
       else Ok (latest, length file))"
  by (simp add: read_latest_def fault_free_def Let_def)

lemma read_latest_sound:
  assumes "sound_log config codec file v" and "\<And>cp. v = Some cp \<Longrightarrow> br_identity (cp_report cp) = identity"
  shows "read_latest config codec fault_free identity file = Ok (v, length file)"
proof -
  have "for_each (read_line config codec) (enumerate 0 (split_lines file)) None = Ok v"
    using assms(1) by (intro read_lines_intro) (auto simp: sound_log_def)
  with assms show ?thesis
    by (cases v) (auto simp: read_latest_def fault_free_def sound_log_def Let_def)
qed

lemma sound_log_view: "sound_log config codec file v \<Longrightarrow> log_view codec file = v"
  by (simp add: sound_log_def log_view_def list.pred_set filter_id_conv)

section \<open>Appending a record\<close>

lemma encode_record_Ok:
  "encode_record config codec expected cp = Ok bytes \<Longrightarrow>
     bytes = cd_encode codec \<lparr>lr_version = 1, lr_expected_revision = expected, lr_checkpoint = cp\<rparr> @ [newline] \<and>
     length bytes \<le> fc_max_record_bytes config"
  by (auto simp: encode_record_def Let_def bounded_write_def split: if_splits)

lemma transition_revision:
  assumes "validate_transition cp v = Ok ()"
  shows "view_revision v = cp_revision cp - 1"
proof -
  have "validate_successor cp (view_revision v) = Ok ()"
    using assms by (simp add: validate_transition_def view_revision_def)
  then have "cp_revision cp = view_revision v + 1"
    by (auto simp: validate_successor_def checked_add_def split: if_splits)
  then show ?thesis by simp
qed

lemma replay_new:
  assumes "file_codes codec cp" and "validate_transition cp v = Ok ()" and "expected = view_revision v"
    and "\<And>old. v = Some old \<Longrightarrow> br_identity (cp_report old) = br_identity (cp_report cp)"
  shows "replay_line codec (i, cd_encode codec
      \<lparr>lr_version = 1, lr_expected_revision = expected, lr_checkpoint = cp\<rparr> @ [newline]) v = Ok (Some cp)"
proof -
  have "validate_successor cp expected = Ok ()"
    using assms(2,3) by (auto simp: validate_transition_def view_revision_def)
  moreover have "expected = cp_revision cp - 1"
    using transition_revision [OF assms(2)] assms(3) by simp
  ultimately show ?thesis
    using assms by (cases v) (auto simp: replay_line_def file_codes_def Let_def view_revision_def)
qed

lemma append_record:
  assumes "sound_log config codec file v" and "file_codes codec cp"
    and "validate_transition cp v = Ok ()" and "expected = view_revision v"
    and "\<And>old. v = Some old \<Longrightarrow> br_identity (cp_report old) = br_identity (cp_report cp)"
    and "encode_record config codec expected cp = Ok bytes" "length file + length bytes \<le> fc_max_log_bytes config"
  shows "length bytes \<le> n \<Longrightarrow> sound_log config codec (file @ take n bytes) (Some cp)"
    and "n < length bytes \<Longrightarrow> log_view codec (file @ take n bytes) = v"
    and "n < length bytes \<Longrightarrow> 0 < n \<Longrightarrow>
      read_latest config codec fault_free identity (file @ take n bytes) =
        Err (corrupt (of_nat (length (split_lines file)) + 1) ''unterminated record; reconciliation required'')"
proof -
  let ?e = "cd_encode codec \<lparr>lr_version = 1, lr_expected_revision = expected, lr_checkpoint = cp\<rparr>"
  have b: "bytes = ?e @ [newline]" "length bytes \<le> fc_max_record_bytes config"
    using encode_record_Ok [OF assms(6)] by auto
  have nl: "newline \<notin> set ?e"
    using assms(2,4) transition_revision [OF assms(3)] by (simp add: file_codes_def Let_def)
  have f: "list_all terminated (split_lines file)"
    "for_each (replay_line codec) (enumerate 0 (split_lines file)) None = Ok v"
    "list_all (\<lambda>l. length l \<le> fc_max_record_bytes config) (split_lines file)"
    using assms(1) by (auto simp: sound_log_def)
  {
    assume "length bytes \<le> n"
    moreover have "terminated bytes" by (simp add: b terminated_def)
    moreover have "split_lines bytes = [bytes]" using split_lines_line [OF nl] b by simp
    moreover have "replay_line codec (length (split_lines file), bytes) v = Ok (Some cp)"
      unfolding b(1) by (rule replay_new) (use assms(2-5) in auto)
    ultimately show "sound_log config codec (file @ take n bytes) (Some cp)"
      using f assms(7) b by (simp add: sound_log_def split_lines_append enumerate_append_eq for_each_append)
  next
    assume n: "n < length bytes"
    then have t: "take n bytes = take n ?e" by (simp add: b)
    have nl': "newline \<notin> set (take n ?e)" using nl by (meson in_set_takeD)
    have s: "split_lines (file @ take n bytes) = split_lines file @ (if take n ?e = [] then [] else [take n ?e])"
      by (simp only: t split_lines_append [OF f(1)] split_lines_torn [OF nl'])
    have u: "\<not> terminated (take n ?e)"
      unfolding terminated_def using nl' last_in_set [of "take n ?e"] by metis
    have "filter terminated (split_lines file) = split_lines file" using f(1) by (simp add: list.pred_set filter_id_conv)
    with f(2) u s show "log_view codec (file @ take n bytes) = v" by (simp add: log_view_def)
    assume "0 < n"
    have ne: "take n ?e \<noteq> []" using n \<open>0 < n\<close> b by auto
    have short: "length (take n ?e) \<le> fc_max_record_bytes config" using b by simp
    have "for_each (read_line config codec) (enumerate 0 (split_lines file)) None = Ok v"
      using f by (intro read_lines_intro)
    then have "for_each (read_line config codec) (enumerate 0 (split_lines (file @ take n bytes))) None =
        Err (corrupt (of_nat (length (split_lines file)) + 1) ''unterminated record; reconciliation required'')"
    proof -
      have "read_line config codec (length (split_lines file), take n ?e) v =
          Err (corrupt (of_nat (length (split_lines file)) + 1) ''unterminated record; reconciliation required'')"
        using u short by (simp add: read_line_def not_less del: length_take)
      moreover have "enumerate 0 (split_lines (file @ take n bytes)) =
          enumerate 0 (split_lines file) @ [(length (split_lines file), take n ?e)]"
        using ne by (simp add: s enumerate_append_eq)
      ultimately show ?thesis
        using \<open>for_each (read_line config codec) (enumerate 0 (split_lines file)) None = Ok v\<close>
        by (simp add: for_each_append)
    qed
    then show "read_latest config codec fault_free identity (file @ take n bytes) =
        Err (corrupt (of_nat (length (split_lines file)) + 1) ''unterminated record; reconciliation required'')"
      using assms(7) by (subst read_latest_eq) simp_all
  }
qed

section \<open>The contract\<close>

lemma exchange_checks_write:
  assumes "exchange_checks config codec expected cp io file = Ok (Some bytes)"
  shows "\<exists>v. sound_log config codec file v \<and> validate_transition cp v = Ok () \<and> expected = view_revision v \<and>
    (\<forall>old. v = Some old \<longrightarrow> br_identity (cp_report old) = br_identity (cp_report cp)) \<and>
    encode_record config codec expected cp = Ok bytes \<and> length file + length bytes \<le> fc_max_log_bytes config"
proof -
  obtain v n where r: "read_latest config codec io (br_identity (cp_report cp)) file = Ok (v, n)"
    using assms by (auto simp: exchange_checks_def)
  have "view_revision v = expected \<and> validate_transition cp v = Ok () \<and>
      encode_record config codec expected cp = Ok bytes \<and> n + length bytes \<le> fc_max_log_bytes config"
    using assms r by (simp add: exchange_checks_def Let_def view_revision_def split: if_split_asm)
  with read_latest_Ok [OF r] show ?thesis by (intro exI [of _ v]) simp
qed

lemma exchange_checks_replay:
  assumes "exchange_checks config codec expected cp io file = Ok None"
  shows "sound_log config codec file (Some cp)"
proof -
  obtain v n where r: "read_latest config codec io (br_identity (cp_report cp)) file = Ok (v, n)"
    using assms by (auto simp: exchange_checks_def)
  with assms have "v = Some cp"
    by (simp add: exchange_checks_def Let_def split: if_split_asm)
  with read_latest_Ok [OF r] show ?thesis by simp
qed

text \<open>What one exchange may do to the file.\<close>

lemma exchange_work_cases:
  assumes "exchange_work config codec expected cp io file = (r, file')"
  obtains (refused) e where "r = Err e \<or> r = Panic" "file' = file"
    | (replayed) "r = Ok CommitReplayed" "file' = file" "sound_log config codec file (Some cp)"
    | (appended) v bytes n where "sound_log config codec file v" "validate_transition cp v = Ok ()"
        "expected = view_revision v"
        "\<forall>old. v = Some old \<longrightarrow> br_identity (cp_report old) = br_identity (cp_report cp)"
        "encode_record config codec expected cp = Ok bytes" "length file + length bytes \<le> fc_max_log_bytes config"
        "file' = file @ take n bytes" "r = Ok Committed \<and> length bytes \<le> n \<or> (\<exists>m. r = Err (indeterminate m))"
proof (cases "exchange_checks config codec expected cp io file")
  case (Ok written)
  show thesis
  proof (cases written)
    case None
    with Ok assms show thesis
      by (intro replayed) (auto simp: exchange_work_def dest: exchange_checks_replay)
  next
    case (Some bytes)
    obtain v where v: "sound_log config codec file v" "validate_transition cp v = Ok ()" "expected = view_revision v"
      "\<forall>old. v = Some old \<longrightarrow> br_identity (cp_report old) = br_identity (cp_report cp)"
      "encode_record config codec expected cp = Ok bytes" "length file + length bytes \<le> fc_max_log_bytes config"
      using exchange_checks_write [OF Ok [unfolded Some]] by blast
    let ?n = "case io_write io of None \<Rightarrow> length bytes | Some (n, _) \<Rightarrow> n"
    have "file' = file @ take ?n bytes"
      "r = Ok Committed \<and> length bytes \<le> ?n \<or> (\<exists>m. r = Err (indeterminate m))"
      using assms Ok Some
      by (auto simp: exchange_work_def append_bytes_def try_io_def Let_def split: option.splits)
    with v show thesis by (rule appended)
  qed
next
  case (Err e)
  with assms have "r = Err e" "file' = file" by (simp_all add: exchange_work_def)
  then show thesis using refused by blast
next
  case Panic
  with assms have "r = Panic" "file' = file" by (simp_all add: exchange_work_def)
  then show thesis using refused by blast
qed

text \<open>What a job adds to its work.\<close>

lemma run_job_cases:
  assumes "run_job config work s = (r, s')"
  obtains (idle) "fs_bytes s' = fs_bytes s" "\<And>a. r \<noteq> Ok a"
    | (ran) io r' where "work io (fs_bytes s) = (r', fs_bytes s')" "r = r' \<or> (\<exists>m. r = Err (indeterminate m))"
proof -
  obtain io s1 where p: "next_plan s = (io, s1)" "fs_bytes s1 = fs_bytes s"
    by (cases "fs_plans s") (auto simp: next_plan_def)
  obtain r0 after where w: "work io (fs_bytes s) = (r0, after)" by fastforce
  consider "fs_bytes s' = fs_bytes s \<and> (\<forall>a. r \<noteq> Ok a)"
    | "fs_bytes s' = after \<and> (r = r0 \<or> (\<exists>m. r = Err (indeterminate m)))"
    using assms p w
    by (auto simp: run_job_def admit_def release_permit_def Let_def
        split: option.splits if_splits worker.splits outcome.splits) blast+
  then show thesis using idle ran w by cases auto
qed

lemma load_work_Ok:
  "load_work config codec identity io file = (Ok v, file') \<Longrightarrow> \<exists>n. read_latest config codec io identity file = Ok (v, n)"
  by (auto simp: load_work_def)

lemma file_load_Ok:
  assumes "file_load config codec identity s = (r, s')"
  shows "fs_bytes s' = fs_bytes s \<and>
    (\<forall>v. r = Ok v \<longrightarrow> sound_log config codec (fs_bytes s) v \<and> (\<forall>cp. v = Some cp \<longrightarrow> br_identity (cp_report cp) = identity))"
  using assms unfolding file_load_def
proof (cases rule: run_job_cases)
  case (ran io r')
  have "fs_bytes s' = fs_bytes s" using ran(1) by (simp add: load_work_def)
  with ran show ?thesis by (auto dest!: load_work_Ok read_latest_Ok)
qed auto

lemma append_view:
  assumes "sound_log config codec file v" and "file_codes codec cp"
    and "validate_transition cp v = Ok ()" and "expected = view_revision v"
    and "\<forall>old. v = Some old \<longrightarrow> br_identity (cp_report old) = br_identity (cp_report cp)"
    and "encode_record config codec expected cp = Ok bytes" "length file + length bytes \<le> fc_max_log_bytes config"
  shows "log_view codec (file @ take n bytes) = (if length bytes \<le> n then Some cp else v)"
proof -
  note a = append_record [OF assms(1-4) _ assms(6,7), of n]
  show ?thesis
  proof (cases "length bytes \<le> n")
    case True
    with a(1) assms(5) have "sound_log config codec (file @ take n bytes) (Some cp)" by blast
    with True show ?thesis by (simp add: sound_log_view)
  next
    case False
    with a(2) assms(5) show ?thesis by simp
  qed
qed

lemma file_exchange_laws:
  assumes "file_compare_exchange_guarded config codec expected cp s = (r, s')"
  shows file_exchange_Ok: "file_codes codec cp \<Longrightarrow> r = Ok c \<Longrightarrow> file_view codec s' = Some cp \<and>
      (file_view codec s = Some cp \<or>
       expected = view_revision (file_view codec s) \<and> validate_transition cp (file_view codec s) = Ok ())"
    and file_exchange_any: "file_codes codec cp \<Longrightarrow> file_view codec s' = file_view codec s \<or>
      file_view codec s' = Some cp \<and> validate_transition cp (file_view codec s) = Ok ()"
    and file_exchange_certain: "r = Err e \<Longrightarrow> certain e \<Longrightarrow> file_view codec s' = file_view codec s"
proof -
  from assms [unfolded file_compare_exchange_guarded_def]
  consider "fs_bytes s' = fs_bytes s" "\<And>a. r \<noteq> Ok a"
    | "fs_bytes s' = fs_bytes s" "sound_log config codec (fs_bytes s) (Some cp)"
    | v bytes n where "sound_log config codec (fs_bytes s) v" "validate_transition cp v = Ok ()"
        "expected = view_revision v"
        "\<forall>old. v = Some old \<longrightarrow> br_identity (cp_report old) = br_identity (cp_report cp)"
        "encode_record config codec expected cp = Ok bytes" "length (fs_bytes s) + length bytes \<le> fc_max_log_bytes config"
        "fs_bytes s' = fs_bytes s @ take n bytes" "r = Ok Committed \<and> length bytes \<le> n \<or> (\<exists>m. r = Err (indeterminate m))"
  proof (cases rule: run_job_cases)
    case (ran io r')
    from ran(1) show thesis
    proof (cases rule: exchange_work_cases)
      case (refused e)
      with ran(2) that(1) show thesis by auto
    next
      case replayed
      then show thesis using that(2) by auto
    next
      case (appended v bytes n)
      then show thesis using that(3) ran(2) by blast
    qed
  qed (use that(1) in auto)
  note c = this
  {
    assume codes: "file_codes codec cp" and "r = Ok c"
    from c show "file_view codec s' = Some cp \<and>
      (file_view codec s = Some cp \<or>
       expected = view_revision (file_view codec s) \<and> validate_transition cp (file_view codec s) = Ok ())"
    proof cases
      case 3
      then have "length bytes \<le> n" using \<open>r = Ok c\<close> by auto
      with append_view [OF 3(1) codes 3(2-6), of n] 3(2,3,7) sound_log_view [OF 3(1)] show ?thesis
        by (simp add: file_view_def)
    next
      case 2
      then show ?thesis using sound_log_view [OF 2(2)] by (simp add: file_view_def)
    qed (use \<open>r = Ok c\<close> in blast)
  next
    assume codes: "file_codes codec cp"
    from c show "file_view codec s' = file_view codec s \<or>
      file_view codec s' = Some cp \<and> validate_transition cp (file_view codec s) = Ok ()"
    proof cases
      case 3
      with append_view [OF 3(1) codes 3(2-6), of n] sound_log_view [OF 3(1)] show ?thesis
        by (simp add: file_view_def)
    qed (simp_all add: file_view_def)
  next
    assume "r = Err e" "certain e"
    with c show "file_view codec s' = file_view codec s"
      by cases (auto simp: file_view_def certain_def indeterminate_def)
  }
qed

interpretation disk_cas: cas_laws "file_compare_exchange_guarded config codec" "file_view codec" "file_codes codec"
  for config codec
proof
  fix cp expected s c s'
  assume "file_codes codec cp" "file_compare_exchange_guarded config codec expected cp s = (Ok c, s')"
  then show "file_view codec s' = Some cp \<and>
      (file_view codec s = Some cp \<or>
       expected = view_revision (file_view codec s) \<and> validate_transition cp (file_view codec s) = Ok ())"
    using file_exchange_Ok by blast
next
  fix cp expected s r s'
  assume "file_codes codec cp" "file_compare_exchange_guarded config codec expected cp s = (r, s')"
  then show "file_view codec s' = file_view codec s \<or>
      file_view codec s' = Some cp \<and> validate_transition cp (file_view codec s) = Ok ()"
    using file_exchange_any by blast
next
  fix cp expected s e s'
  assume "file_compare_exchange_guarded config codec expected cp s = (Err e, s')" "certain e"
  then show "file_view codec s' = file_view codec s" using file_exchange_certain by blast
qed

interpretation disk: checkpoint_laws "file_store config codec" "file_view codec" "file_codes codec"
  for config codec
proof -
  have "cs_compare_exchange (file_store config codec) = file_compare_exchange_guarded config codec"
    "cs_compare_exchange_guarded (file_store config codec) = file_compare_exchange_guarded config codec"
    "cs_load (file_store config codec) = file_load config codec"
    by (simp_all add: file_store_def file_compare_exchange_def)
  moreover have "file_view codec s' = file_view codec s" if "file_load config codec identity s = (r, s')" for identity s r s'
    using file_load_Ok [OF that] by (simp add: file_view_def)
  moreover have "v = file_view codec s \<and> (\<forall>cp. v = Some cp \<longrightarrow> br_identity (cp_report cp) = identity)"
    if "file_load config codec identity s = (Ok v, s')" for identity s v s'
    using file_load_Ok [OF that] sound_log_view by (auto simp: file_view_def)
  ultimately show "checkpoint_laws (file_store config codec) (file_view codec) (file_codes codec)"
    using disk_cas.cas_laws_axioms by (simp add: checkpoint_laws_def checkpoint_laws_axioms_def)
qed

end
