(* ===== verification/ExecutionProps.thy ===== *)
theory ExecutionProps
  imports FileStoreInv
begin

text \<open>
  The properties of durable execution: leases, grants and recoveries over the file store, and
  the histories a closed turn extends, with their witnesses on a sample file.
\<close>

section \<open>A store without faults\<close>

lemma fault_free_simps:
  "io_runtime fault_free = None" "io_worker fault_free = Joined" "io_write fault_free = None"
  "io_sync fault_free = None" "io_seek fault_free = None" "locked_file fault_free = Ok ()"
  by (simp_all add: fault_free_def locked_file_def)

lemma run_job_fault_free:
  assumes "fs_plans s = []" "fs_accepting s" "fs_in_flight s < fc_max_io_jobs config"
    and "work fault_free (fs_bytes s) = (r, bytes)" and "r \<noteq> Panic"
  shows "run_job config work s = (r, s\<lparr>fs_bytes := bytes\<rparr>)"
proof -
  have "s\<lparr>fs_in_flight := fs_in_flight s, fs_bytes := bytes\<rparr> = s\<lparr>fs_bytes := bytes\<rparr>"
    by (intro file_state.equality) simp_all
  then show ?thesis
    using assms by (cases r) (simp_all add: run_job_def next_plan_def admit_def release_permit_def fault_free_simps)
qed

lemma fault_free_load:
  assumes "sound_log config codec (fs_bytes s) v" and "\<And>cp. v = Some cp \<Longrightarrow> br_identity (cp_report cp) = identity"
    and "fs_plans s = []" "fs_accepting s" "fs_in_flight s < fc_max_io_jobs config"
  shows "cs_load (file_store config codec) identity s = (Ok v, s)"
proof -
  have "load_work config codec identity fault_free (fs_bytes s) = (Ok v, fs_bytes s)"
    using read_latest_sound [OF assms(1,2)] by (simp add: load_work_def fault_free_simps)
  with assms(3-5) show ?thesis by (simp add: file_store_def file_load_def run_job_fault_free)
qed

lemma fault_free_commit:
  assumes "sound_log config codec (fs_bytes s) v" and "v \<noteq> Some cp"
    and "\<And>old. v = Some old \<Longrightarrow> br_identity (cp_report old) = br_identity (cp_report cp)"
    and "validate_transition cp v = Ok ()" "encode_record config codec (view_revision v) cp = Ok bytes"
    and "length (fs_bytes s) + length bytes \<le> fc_max_log_bytes config"
    and "fs_plans s = []" "fs_accepting s" "fs_in_flight s < fc_max_io_jobs config"
  shows "cs_compare_exchange (file_store config codec) (view_revision v) cp s =
    (Ok Committed, s\<lparr>fs_bytes := fs_bytes s @ bytes\<rparr>)"
proof -
  have "validate_successor cp (view_revision v) = Ok ()"
    using assms(4) by (simp add: validate_transition_def view_revision_def)
  moreover have "read_latest config codec fault_free (br_identity (cp_report cp)) (fs_bytes s) = Ok (v, length (fs_bytes s))"
    by (rule read_latest_sound [OF assms(1,3)])
  ultimately have "exchange_checks config codec (view_revision v) cp fault_free (fs_bytes s) = Ok (Some bytes)"
    using assms(2,4-6) by (simp add: exchange_checks_def view_revision_def [symmetric] fault_free_simps)
  then have "exchange_work config codec (view_revision v) cp fault_free (fs_bytes s) = (Ok Committed, fs_bytes s @ bytes)"
    by (simp add: exchange_work_def append_bytes_def fault_free_simps)
  with assms(7-9) show ?thesis
    by (simp add: file_store_def file_compare_exchange_def file_compare_exchange_guarded_def run_job_fault_free)
qed

section \<open>A sample store\<close>

text \<open>The image of a task that has not run, and the ledger restored from it.\<close>

definition sample_base :: budget_checkpoint where
  "sample_base = ledger_image sample_budget None 1 (default_state 5)"

definition sample_reopened :: task_budget where
  "sample_reopened = sample_budget\<lparr>tb_state := (default_state 20)\<lparr>st_checkpoint_revision := 1\<rparr>\<rparr>"

lemma sample_base_valid: "validate sample_base = Ok ()"
proof (rule validate_empty_audit)
  have "\<not> identity_blank sample_identity"
    by (simp add: identity_blank_def sample_identity_def is_blank_def)
  then show "image_inv sample_base"
    unfolding sample_base_def
    by (intro image_of_ledger) (use ledger_inv_default in \<open>simp_all add: sample_budget_def anchor_ok_def\<close>)
qed (simp_all add: sample_base_def ledger_image_def default_state_def)

lemma sample_reopen: "restore_checkpoint sample_base sample_context 20 = Ok sample_reopened"
proof -
  have "restored_stop False (snapshot sample_budget (default_state 5)) sample_limits = None"
    using ledger_inv_default [of sample_limits Soft 5]
    by (auto simp: restored_stop_None snapshot_def ledger_inv_def limit_inv_def default_state_def sample_limits_def)
  then show ?thesis
    using sample_base_valid
    by (simp add: restore_checkpoint_def sample_base_def ledger_image_def snapshot_def sample_context_def
        sample_budget_def Let_def sample_reopened_def default_state_def)
qed

definition sample_claim :: budget_checkpoint where
  "sample_claim = sample_base\<lparr>cp_version := V3, cp_revision := 2, cp_recovery_frozen := True,
     cp_execution_id := Some ''run''\<rparr>"

lemma sample_base_facts:
  "cp_revision sample_base = 1" "cp_grants sample_base = []" "cp_recoveries sample_base = []"
  "is_quiescent sample_base" "cp_anchor sample_base = None" "cp_run_id sample_base = None"
  "br_pending (cp_report sample_base) = []" "br_identity (cp_report sample_base) = sample_identity"
  "cp_version sample_base = V3"
  by (simp_all add: sample_base_def ledger_image_def default_state_def is_quiescent_def
      snapshot_def sample_budget_def)

lemma sample_claim_facts:
  "cp_revision sample_claim = 2" "sample_claim \<noteq> sample_base" "cp_report sample_claim = cp_report sample_base"
proof -
  show r: "cp_revision sample_claim = 2" and "cp_report sample_claim = cp_report sample_base"
    by (simp_all add: sample_claim_def)
  have "(2 :: u64) \<noteq> 1" by simp
  with r sample_base_facts(1) show "sample_claim \<noteq> sample_base" by metis
qed

lemma sample_claim_valid: "validate sample_claim = Ok ()"
proof -
  have "image_inv sample_base"
    using sample_base_valid by (simp add: validate_eq validate_image_iff)
  then have "image_inv sample_claim" by (simp add: image_inv_def sample_claim_def Let_def)
  then show ?thesis
    by (simp add: validate_eq validate_image_iff validate_claim_def validate_grants_def validate_recoveries_def
        sample_claim_def sample_base_facts is_blank_def is_white_space3_def)
qed

lemma sample_execution_claim: "execution_claim ''run'' sample_base = Ok sample_claim"
proof -
  have "checked_add 1 1 = Some (2 :: u64)" by (simp add: checked_add_def)
  moreover have "sample_base\<lparr>cp_version := audit_version sample_base, cp_revision := 2,
      cp_recovery_frozen := True, cp_execution_id := Some ''run''\<rparr> = sample_claim"
    by (simp add: sample_claim_def audit_version_def sample_base_facts)
  ultimately show ?thesis
    using sample_claim_valid by (simp add: execution_claim_def sample_base_facts)
qed

definition sample_record :: "budget_checkpoint \<Rightarrow> log_record" where
  "sample_record cp = \<lparr>lr_version = 1, lr_expected_revision = cp_revision cp - 1, lr_checkpoint = cp\<rparr>"

text \<open>A codec that writes one letter for each of the images a sample log has.\<close>

definition letter_codec :: "budget_checkpoint \<Rightarrow> record_codec" where
  "letter_codec final = \<lparr>
     cd_encode = (\<lambda>entry. if entry = sample_record sample_base then ''a''
        else if entry = sample_record sample_claim then ''b''
        else if entry = sample_record final then ''c'' else ''d''),
     cd_decode = (\<lambda>line. if line = ''a'' @ [newline] then Ok (sample_record sample_base)
        else if line = ''b'' @ [newline] then Ok (sample_record sample_claim)
        else if line = ''c'' @ [newline] then Ok (sample_record final) else Err ''unknown record''),
     cd_display = (\<lambda>_. ''invalid'')\<rparr>"

definition sample_config :: file_config where
  "sample_config = \<lparr>fc_max_record_bytes = 2, fc_max_log_bytes = 8, fc_max_io_jobs = 1\<rparr>"

definition sample_file :: "file_state" where
  "sample_file = \<lparr>fs_bytes = ''a'' @ [newline], fs_accepting = True, fs_in_flight = 0, fs_plans = []\<rparr>"

lemma sample_record_eq [simp]: "sample_record a = sample_record b \<longleftrightarrow> a = b"
  by (auto simp: sample_record_def)

lemma file_codes_record:
  "file_codes codec cp \<longleftrightarrow> newline \<notin> set (cd_encode codec (sample_record cp)) \<and>
     cd_decode codec (cd_encode codec (sample_record cp) @ [newline]) = Ok (sample_record cp)"
  by (simp add: file_codes_def sample_record_def Let_def)

lemma letter_codes:
  "file_codes (letter_codec final) sample_base" "file_codes (letter_codec final) sample_claim"
  "file_codes (letter_codec final) final"
  using sample_claim_facts
  by (auto simp: file_codes_record letter_codec_def newline_def)

lemma sample_initial: "validate_transition sample_base None = Ok ()"
  using sample_base_valid
  by (simp add: validate_transition_def validate_successor_def validate_recovery_transition_def
      sample_base_facts checked_add_def)

lemma sample_sound: "sound_log sample_config (letter_codec final) (fs_bytes sample_file) (Some sample_base)"
proof -
  have "replay_line (letter_codec final) (0, cd_encode (letter_codec final)
      \<lparr>lr_version = 1, lr_expected_revision = 0, lr_checkpoint = sample_base\<rparr> @ [newline]) None =
      Ok (Some sample_base)"
    by (rule replay_new [OF letter_codes(1) sample_initial]) (simp_all add: view_revision_def)
  moreover have "cd_encode (letter_codec final)
      \<lparr>lr_version = 1, lr_expected_revision = 0, lr_checkpoint = sample_base\<rparr> = ''a''"
    by (simp add: letter_codec_def sample_record_def sample_base_facts)
  ultimately show ?thesis
    by (simp add: sound_log_def sample_file_def sample_config_def terminated_def newline_def)
qed

lemma sample_claim_transition: "validate_transition sample_claim (Some sample_base) = Ok ()"
proof -
  have "checked_add 1 1 = Some (2 :: u64)" by (simp add: checked_add_def)
  then show ?thesis
    using sample_claim_valid sample_base_valid
    by (simp add: validate_transition_def validate_successor_def validate_recovery_transition_def
        sample_claim_def sample_base_facts tightened_by_eq_iff)
qed

definition sample_claimed :: file_state where
  "sample_claimed = sample_file\<lparr>fs_bytes := ''a'' @ [newline] @ ''b'' @ [newline]\<rparr>"

definition sample_lease :: execution_lease where
  "sample_lease = \<lparr>le_task = sample_reopened\<lparr>tb_state := (tb_state sample_reopened)
       \<lparr>st_last_clock := 21, st_checkpoint_revision := 2\<rparr>\<rparr>,
     le_base = sample_base, le_claim = sample_claim\<rparr>"

lemma sample_claim_commit:
  "cs_compare_exchange (file_store sample_config (letter_codec final)) 1 sample_claim sample_file =
     (Ok Committed, sample_claimed)"
proof -
  have e: "encode_record sample_config (letter_codec final) 1 sample_claim = Ok (''b'' @ [newline])"
    using sample_claim_facts
    by (simp add: encode_record_def bounded_write_def sample_config_def letter_codec_def sample_record_def)
  show ?thesis
    using fault_free_commit [OF sample_sound _ _ sample_claim_transition, of final "''b'' @ [newline]"] e
      sample_claim_facts
    by (simp add: view_revision_def sample_base_facts sample_claimed_def sample_file_def sample_config_def)
qed

lemma sample_acquire:
  "acquire (file_store sample_config (letter_codec final)) sample_context 20 21 ''run'' sample_file =
     (Ok sample_lease, sample_claimed)"
proof -
  have "cs_load (file_store sample_config (letter_codec final)) sample_identity sample_file =
      (Ok (Some sample_base), sample_file)"
    by (rule fault_free_load [OF sample_sound])
      (simp_all add: sample_base_facts sample_file_def sample_config_def)
  moreover have "locked (report_op sample_reopened 21) sample_reopened =
      (Ok (snapshot sample_reopened ((tb_state sample_reopened)\<lparr>st_last_clock := 21\<rparr>)),
       sample_reopened\<lparr>tb_state := (tb_state sample_reopened)\<lparr>st_last_clock := 21\<rparr>\<rparr>)"
    by (simp add: locked_def report_op_def tick_def sample_reopened_def sample_budget_def 
        default_state_def Let_def)
  moreover have "st_stop (tb_state sample_reopened) = None"
    by (simp add: sample_reopened_def default_state_def)
  ultimately show ?thesis
    using sample_base_valid sample_reopen sample_execution_claim sample_claim_commit [of final]
    by (simp add: acquire_def sample_context_def [symmetric] sample_base_facts sample_lease_def
        sample_claim_facts snapshot_def) (simp add: sample_context_def sample_base_facts sample_claim_facts)
qed

section \<open>A sample closed turn\<close>

lemma inv_revision [simp]:
  "ledger_inv limits mode (s\<lparr>st_checkpoint_revision := k\<rparr>) \<longleftrightarrow> ledger_inv limits mode s"
  by (cases "st_run s") (simp_all add: ledger_inv_defs pend_sum_def)

definition sample_settled :: ledger_state where
  "sample_settled = (tb_state (le_task sample_lease))\<lparr>st_last_clock := 25\<rparr>"

definition sample_turn_report :: task_run_report where
  "sample_turn_report = \<lparr>tr_version = ReportV1,
     tr_budget = (snapshot (le_task sample_lease) sample_settled)\<lparr>br_run := Some
       \<lparr>rr_turn_id = Some ''turn'', rr_metrics = default_metrics, rr_limits = sample_limits,
        rr_charged = default_amounts, rr_reserved = default_amounts, rr_active_time = 0, rr_cleanup_time = 0,
        rr_open = False, rr_stop = None\<rparr>\<rparr>,
     tr_stop = TsCompleted, tr_capabilities_drained = True\<rparr>"

definition sample_event :: "string \<Rightarrow> u64 \<Rightarrow> unit session_event_kind \<Rightarrow> unit session_event" where
  "sample_event i seq kind = \<lparr>se_event_id = i, se_session_id = ''session'', se_turn_id = ''turn'',
     se_generation_id = None, se_message_id = None, se_seq = seq, se_kind = kind\<rparr>"

definition sample_turn :: "unit session_event list" where
  "sample_turn = [sample_event ''x'' 0 (TaskRunReportEvent sample_turn_report),
     sample_event ''y'' 1 (Done DoneCompleted None)]"

definition sample_closed :: budget_checkpoint where
  "sample_closed = ledger_image (le_task sample_lease) (Some (cursor_of (last sample_turn))) 3 sample_settled"

lemma sample_settled_eq: "sample_settled = (default_state 25)\<lparr>st_checkpoint_revision := 2\<rparr>"
  by (simp add: sample_settled_def sample_lease_def sample_reopened_def default_state_def)

lemma sample_settled_named [simp]: "turn_named sample_settled"
  by (simp add: sample_settled_eq)

lemma sample_lease_task:
  "tb_identity (le_task sample_lease) = sample_identity" "tb_limits (le_task sample_lease) = sample_limits"
  "tb_token_mode (le_task sample_lease) = Soft" "\<not> tb_poisoned (le_task sample_lease)"
  "\<not> st_sealed (tb_state (le_task sample_lease))"
  "tick sample_limits 25 (tb_state (le_task sample_lease)) = sample_settled"
  by (simp_all add: sample_lease_def sample_reopened_def sample_budget_def default_state_def
      sample_settled_def tick_def Let_def)

lemma sample_closed_valid: "validate sample_closed = Ok ()"
proof (rule validate_empty_audit)
  have "ledger_inv sample_limits Soft sample_settled"
    using inv_tick [OF restore_inv [OF sample_reopen], of 25]
    by (simp add: sample_settled_eq sample_reopened_def sample_budget_def default_state_def
        tick_def Let_def ledger_inv_defs pend_sum_def)
  then show "image_inv sample_closed"
    unfolding sample_closed_def
    by (intro image_of_ledger)
      (simp_all add: sample_lease_task anchor_ok_def identity_blank_def sample_identity_def is_blank_def
        sample_turn_def sample_event_def cursor_of_def is_white_space3_def)
qed (simp_all add: sample_closed_def ledger_image_def sample_settled_eq default_state_def)

section \<open>A sample commit\<close>

lemma sample_claim_encoding:
  "encode_record sample_config (letter_codec final) 1 sample_claim = Ok (''b'' @ [newline])"
  using sample_claim_facts
  by (simp add: encode_record_def bounded_write_def sample_config_def letter_codec_def sample_record_def)

lemma sample_claimed_sound:
  "sound_log sample_config (letter_codec final) (fs_bytes sample_claimed) (Some sample_claim)"
  using append_record(1) [OF sample_sound letter_codes(2) sample_claim_transition _ _ sample_claim_encoding, where n = 2]
  by (simp add: view_revision_def sample_base_facts sample_claim_facts sample_config_def sample_file_def
      sample_claimed_def)

lemma sample_closed_facts:
  "cp_revision sample_closed = 3" "cp_grants sample_closed = []" "cp_recoveries sample_closed = []"
  "is_quiescent sample_closed" "br_identity (cp_report sample_closed) = sample_identity"
  "br_limits (cp_report sample_closed) = sample_limits"
  by (simp_all add: sample_closed_def ledger_image_def sample_settled_eq default_state_def is_quiescent_def
      snapshot_def sample_lease_task)

lemma sample_closed_transition: "validate_transition sample_closed (Some sample_claim) = Ok ()"
proof -
  have "checked_add 2 1 = Some (3 :: u64)" by (simp add: checked_add_def)
  moreover have "br_limits (cp_report sample_claim) = sample_limits"
    by (simp add: sample_claim_facts sample_base_def ledger_image_def snapshot_def sample_budget_def)
  ultimately show ?thesis
    using sample_closed_valid sample_claim_valid sample_claim_facts(3)
    by (simp add: validate_transition_def validate_successor_def validate_recovery_transition_def sample_closed_facts
        tightened_by_eq_iff) (simp add: sample_claim_def sample_base_facts)
qed

lemma sample_closed_commit:
  "\<exists>s. cs_compare_exchange (file_store sample_config (letter_codec sample_closed)) 2 sample_closed sample_claimed =
     (Ok Committed, s)"
proof -
  have ne: "sample_closed \<noteq> sample_claim" "sample_closed \<noteq> sample_base"
    using sample_closed_facts(1) sample_claim_facts(1) sample_base_facts(1) by auto
  have "encode_record sample_config (letter_codec sample_closed) 2 sample_closed = Ok (''c'' @ [newline])"
    using ne by (simp add: encode_record_def bounded_write_def sample_config_def letter_codec_def sample_record_def
        sample_closed_facts)
  then show ?thesis
    using fault_free_commit [OF sample_claimed_sound _ _ sample_closed_transition, of sample_closed "''c'' @ [newline]"] ne
    by (simp add: view_revision_def sample_claim_facts sample_base_facts sample_closed_facts sample_claimed_def
        sample_file_def sample_config_def)
qed

lemma sample_closed_turn: "closed_turn sample_lease sample_turn = Ok (last sample_turn)"
proof -
  have "validate_addresses sample_turn sample_identity 0 = Ok ()"
    by (simp add: validate_addresses_Ok addressed_def sample_turn_def sample_event_def sample_identity_def
        checked_add_def is_blank_def is_white_space3_def less_Suc_eq)
  then show ?thesis
    by (simp add: closed_turn_def sample_lease_def sample_base_facts)
      (simp add: sample_turn_def sample_event_def is_terminal_def is_report_def)
qed

lemma sample_closed_tail: "validate_closed_tail sample_turn (cp_report sample_closed) = Ok ()"
  by (simp add: validate_closed_tail_def last_two_def sample_turn_def sample_event_def sample_turn_report_def
      sample_closed_def ledger_image_def snapshot_def sample_settled_eq default_state_def default_metrics_def
      default_counts_def is_terminal_def dispositions_agree_def)

lemma sample_commit:
  obtains s tb where "commit_closed (file_store sample_config (letter_codec sample_closed)) sample_lease 25 26
    sample_turn sample_claimed = ((Ok sample_closed, s), tb)"
proof -
  obtain s where c: "cs_compare_exchange (file_store sample_config (letter_codec sample_closed)) 2 sample_closed
      sample_claimed = (Ok Committed, s)"
    using sample_closed_commit by blast
  have "checked_add (st_checkpoint_revision sample_settled) 1 = Some 3"
    by (simp add: sample_settled_eq default_state_def checked_add_def)
  then have "seal_checkpoint (le_task sample_lease) 25 (Some (cursor_of (last sample_turn))) =
      (Ok sample_closed, (le_task sample_lease)\<lparr>tb_state := sample_settled\<lparr>st_sealed := True\<rparr>\<rparr>)"
    using sample_closed_valid seal_Ok [of "le_task sample_lease" sample_settled 25 3 "Some (cursor_of (last sample_turn))"]
    by (simp add: sample_lease_task sample_closed_def [symmetric])
  moreover have "cp_revision (le_claim sample_lease) = 2" by (simp add: sample_lease_def sample_claim_facts)
  ultimately have "commit_sealed (file_store sample_config (letter_codec sample_closed)) sample_lease 25
      sample_turn sample_claimed = ((Ok sample_closed, s), (le_task sample_lease)\<lparr>tb_state := sample_settled\<lparr>st_sealed := True\<rparr>\<rparr>)"
    using c sample_closed_tail
    by (simp add: commit_sealed_def sample_closed_turn sample_closed_facts)
  then show thesis by (intro that) (simp add: commit_closed_def)
qed

lemma sample_verified: "verify_history sample_lease ([] :: unit session_event list) = Ok ()"
  using sample_base_valid
  by (simp add: verify_history_def verify_checkpoint_history_def validate_addresses_def boundary_report_def
      sample_lease_def sample_base_facts) (simp add: sample_base_def ledger_image_def snapshot_def
      default_state_def)

section \<open>Leases\<close>

text \<open>C7: A lease on the file store is exclusive: acquiring takes the ready image the file holds
  and leaves its frozen claim there, and after any further operations of any clients under any
  faults, another lease is only ever acquired on an image that a chain of validated transitions
  put in place of the claim, a later image with a higher revision of the same task.\<close>

theorem lease_is_exclusive:
  assumes "acquire (file_store config codec) context now now' i s = (Ok lease, s1)"
    and "file_codes codec (le_claim lease)" and "store_run (file_store config codec) (file_codes codec) s1 s2"
  shows "file_view codec s = Some (le_base lease) \<and> is_quiescent (le_base lease) \<and>
    file_view codec s1 = Some (le_claim lease) \<and> \<not> is_quiescent (le_claim lease) \<and>
    (\<forall>context' n n' j lease' s3.
       acquire (file_store config codec) context' n n' j s2 = (Ok lease', s3) \<longrightarrow>
       image_chain (Some (le_claim lease)) (Some (le_base lease')) \<and>
       later_image (le_claim lease) (le_base lease'))"
  using disk.acquire_view [OF assms(1,2)] disk.claim_frozen [OF assms(1)] disk.leases_apart [OF assms] by blast

theorem lease_is_exclusive_witness:
  "file_view (letter_codec sample_claim) sample_claimed = Some sample_claim \<and> \<not> is_quiescent sample_claim"
  using lease_is_exclusive [OF sample_acquire _ run_refl, of sample_claim] letter_codes(2) [of sample_claim]
  by (simp add: sample_lease_def)

text \<open>C8: A lease whose claim has been replaced cannot commit: when \<open>commit_closed\<close> succeeds after
  any further operations of any clients, with whatever ledger and events, the file held exactly
  the lease's own claim (or already the very image being committed), the committed image is
  ready and is a valid successor of the claim, and the file holds it.\<close>

theorem lost_lease_cannot_commit:
  assumes "acquire (file_store config codec) context now now' i s = (Ok lease, s1)"
    and "file_codes codec (le_claim lease)" and "store_run (file_store config codec) (file_codes codec) s1 s2"
    and "commit_closed (file_store config codec) (lease\<lparr>le_task := task\<rparr>) n n' events s2 = ((Ok cp, s3), tb)"
    and "file_codes codec cp"
  shows "file_view codec s3 = Some cp \<and> is_quiescent cp \<and>
    (file_view codec s2 = Some cp \<or>
     file_view codec s2 = Some (le_claim lease) \<and> validate_transition cp (Some (le_claim lease)) = Ok ())"
proof -
  have "file_view codec s1 = Some (le_claim lease)" using disk.acquire_view [OF assms(1,2)] by simp
  then have chain: "image_chain (Some (le_claim (lease\<lparr>le_task := task\<rparr>))) (file_view codec s2)"
    using disk.run_chain [OF assms(3)] by simp
  obtain task' where "commit_sealed (file_store config codec) (lease\<lparr>le_task := task\<rparr>) n events s2 = ((Ok cp, s3), task')"
    using commit_closed_Ok [OF assms(4)] by blast
  then obtain c where "is_quiescent cp" and cas:
    "cs_compare_exchange (file_store config codec) (cp_revision (le_claim lease)) cp s2 = (Ok c, s3)"
    by (rule commit_sealed_Ok) simp
  with disk.plain.cas_Ok [OF assms(5) cas] disk.commit_view [OF assms(4,5) chain] show ?thesis by auto
qed

theorem lost_lease_cannot_commit_witness:
  "\<exists>s. file_view (letter_codec sample_closed) s = Some sample_closed \<and> is_quiescent sample_closed"
proof -
  obtain s tb where c: "commit_closed (file_store sample_config (letter_codec sample_closed)) sample_lease 25 26
      sample_turn sample_claimed = ((Ok sample_closed, s), tb)"
    by (rule sample_commit)
  have codes: "file_codes (letter_codec sample_closed) (le_claim sample_lease)"
    using letter_codes(2) by (simp add: sample_lease_def)
  have "sample_lease\<lparr>le_task := le_task sample_lease\<rparr> = sample_lease" by simp
  from lost_lease_cannot_commit [OF sample_acquire codes run_refl, of "le_task sample_lease", unfolded this, OF c
      letter_codes(3)]
  show ?thesis by blast
qed

section \<open>Closed turns\<close>

text \<open>C9: Closing a turn extends the verified history: when the session's history matches the
  image a lease was acquired on, and after any operations of its ledger the turn's events commit
  as a closed turn, the history followed by exactly those events, whose ids are new, matches the
  committed image. The next acquisition can be verified against the log the turn leaves.\<close>

theorem closed_turn_extends_history:
  assumes "acquire store context now now' i s = (Ok lease, s1)"
    and "ledger_reaches (le_task lease) (tb_state (le_task lease)) t"
    and "verify_history lease history = Ok ()"
    and "commit_closed store (lease\<lparr>le_task := (le_task lease)\<lparr>tb_state := t\<rparr>\<rparr>) n n' events s2 = ((Ok cp, s3), tb)"
    and "se_event_id ` set history \<inter> se_event_id ` set events = {}"
  shows "verify_checkpoint_history cp (history @ events) = Ok ()"
proof -
  let ?lease = "lease\<lparr>le_task := (le_task lease)\<lparr>tb_state := t\<rparr>\<rparr>"
  obtain task where base: "restore_checkpoint (le_base lease) context now = Ok task"
    and le: "le_task lease = (snd (locked (report_op task now') task))
       \<lparr>tb_state := (tb_state (snd (locked (report_op task now') task)))
          \<lparr>st_checkpoint_revision := cp_revision (le_claim lease)\<rparr>\<rparr>"
    using assms(1) by (rule acquire_Ok)
  note f = restore_facts [OF base]
  note r = locked_report [OF f(3) restore_inv [OF base], of now']
  let ?u = "tb_state (snd (locked (report_op task now') task))"
  have u: "ledger_inv (tb_limits task) (tb_token_mode task) ?u" "st_grants ?u = cp_grants (le_base lease)"
    using ledger_reaches_contract [OF conjunct1 [OF r] restore_inv [OF base]] f(8) by (auto simp: ledger_later_def progress_def)
  have tb: "tb_limits (le_task lease) = tb_limits task" "tb_token_mode (le_task lease) = tb_token_mode task"
    "tb_identity (le_task lease) = br_identity (cp_report (le_base lease))"
    "tb_state (le_task lease) = ?u\<lparr>st_checkpoint_revision := cp_revision (le_claim lease)\<rparr>"
    using f(2) by (simp_all add: le) (subst conjunct2 [OF r], simp)+
  have "ledger_inv (tb_limits task) (tb_token_mode task) (tb_state (le_task lease))"
    using u(1) by (simp add: tb)
  then have t: "ledger_inv (tb_limits task) (tb_token_mode task) t" "st_grants t = cp_grants (le_base lease)"
    using ledger_reaches_contract [OF assms(2)] u(2) by (auto simp: tb ledger_later_def progress_def)
  obtain task' where "commit_sealed store ?lease n events s2 = ((Ok cp, s3), task')"
    using commit_closed_Ok [OF assms(4)] by blast
  then obtain final where turn: "closed_turn ?lease events = Ok final"
    and seal: "seal_checkpoint (le_task ?lease) n (Some (cursor_of final)) = (Ok cp, task')"
    and closed: "validate_closed_tail events (cp_report cp) = Ok ()"
    by (rule commit_sealed_Ok)
  from seal obtain k where v: "validate cp = Ok ()"
    and cp: "cp = ledger_image (le_task ?lease) (Some (cursor_of final)) k (tick (tb_limits (le_task ?lease)) n t)"
    by (rule seal_Ok_image) simp
  have "st_grants (tick (tb_limits (le_task lease)) n t) = st_grants t"
    using progress_tick by (metis progress_def)
  then show ?thesis
    using assms(3,5) turn closed v t(2)
    by (intro closed_history [of ?lease]) (simp_all add: verify_history_def cp ledger_image_def snapshot_def tb)
qed

theorem closed_turn_extends_history_witness:
  "verify_checkpoint_history sample_closed sample_turn = Ok ()"
proof -
  obtain s tb where c: "commit_closed (file_store sample_config (letter_codec sample_closed)) sample_lease 25 26
      sample_turn sample_claimed = ((Ok sample_closed, s), tb)"
    by (rule sample_commit)
  have "sample_lease\<lparr>le_task := (le_task sample_lease)\<lparr>tb_state := tb_state (le_task sample_lease)\<rparr>\<rparr> = sample_lease"
    by simp
  from closed_turn_extends_history [OF sample_acquire reaches_refl sample_verified, unfolded this, OF c]
  show ?thesis by simp
qed

end
