(* ===== verification/StoreProps.thy ===== *)
theory StoreProps
  imports ExecutionProps
begin

text \<open>
  The properties of the checkpoint file: what a crash leaves, the linear history of the images,
  and grants and recoveries on it, with their witnesses.
\<close>

section \<open>Crashes\<close>

text \<open>C10: From a readable log, one exchange under any faults (a lost worker, a failed system
  call, a write cut after any number of bytes) leaves a file from which a reader gets the old
  image, or the new one, or a corrupt-record error, never anything else. The old image remains
  whenever the error is certain; the file is unreadable only if the caller was told the outcome
  is indeterminate; and a success means the new image is what a reader gets.\<close>

theorem crash_leaves_old_or_new:
  assumes "read_latest config codec fault_free identity (fs_bytes s) = Ok (old, n)"
    and "file_codes codec cp" and "br_identity (cp_report cp) = identity"
    and "cs_compare_exchange (file_store config codec) expected cp s = (r, s')"
  shows "fs_bytes s' = fs_bytes s \<and> (\<forall>c. r = Ok c \<longrightarrow> old = Some cp) \<or>
    read_latest config codec fault_free identity (fs_bytes s') = Ok (Some cp, length (fs_bytes s')) \<and>
      validate_transition cp old = Ok () \<and> (\<forall>e. r = Err e \<longrightarrow> \<not> certain e) \<or>
    (\<exists>k m m'. read_latest config codec fault_free identity (fs_bytes s') = Err (StCorrupt k m) \<and>
      r = Err (StStorage CkIndeterminate m'))"
proof -
  have sound: "sound_log config codec (fs_bytes s) old"
    and ids: "\<And>cp. old = Some cp \<Longrightarrow> br_identity (cp_report cp) = identity"
    using read_latest_Ok [OF assms(1)] by auto
  have same: "v = old" if "sound_log config codec (fs_bytes s) v" for v
    using sound_log_view [OF that] sound_log_view [OF sound] by simp
  have "run_job config (exchange_work config codec expected cp) s = (r, s')"
    using assms(4) by (simp add: file_store_def file_compare_exchange_def file_compare_exchange_guarded_def)
  then show ?thesis
  proof (cases rule: run_job_cases)
    case (ran io r')
    from ran(1) show ?thesis
    proof (cases rule: exchange_work_cases)
      case (appended v bytes k)
      have v: "v = old" by (rule same [OF appended(1)])
      note rec = append_record [OF appended(1) assms(2) appended(2,3) _ appended(5,6), of k]
      have r: "r = Ok Committed \<and> length bytes \<le> k \<or> (\<exists>m. r = Err (indeterminate m))"
        using appended(8) ran(2) by auto
      consider "k = 0" | "0 < k" "k < length bytes" | "length bytes \<le> k" by linarith
      then show ?thesis
      proof cases
        case 1
        moreover have "bytes \<noteq> []" using encode_record_Ok [OF appended(5)] by simp
        ultimately show ?thesis using appended(7) r by auto
      next
        case 2
        then show ?thesis using rec(3) [of identity] appended(4,7) r by (auto simp: corrupt_def indeterminate_def)
      next
        case 3
        then have "sound_log config codec (fs_bytes s') (Some cp)" using rec(1) appended(4,7) by simp
        from read_latest_sound [OF this] assms(3) appended(2) v r show ?thesis
          by (auto simp: certain_def indeterminate_def)
      qed
    qed (use ran(2) same in \<open>auto simp: indeterminate_def\<close>)
  qed auto
qed

theorem crash_leaves_old_or_new_witness:
  "read_latest sample_config (letter_codec sample_claim) fault_free sample_identity (fs_bytes sample_claimed) =
     Ok (Some sample_claim, 4)"
proof -
  have r: "read_latest sample_config (letter_codec sample_claim) fault_free sample_identity (fs_bytes sample_file) =
      Ok (Some sample_base, length (fs_bytes sample_file))"
    by (rule read_latest_sound [OF sample_sound]) (simp add: sample_base_facts)
  have "br_identity (cp_report sample_claim) = sample_identity"
    by (simp add: sample_claim_facts sample_base_facts)
  from crash_leaves_old_or_new [OF r letter_codes(2) this sample_claim_commit] show ?thesis
    by (auto simp: sample_claimed_def sample_file_def)
qed

section \<open>Histories\<close>

text \<open>C11: The images of a checkpoint file form one line: after any operations of any clients
  under any faults the file holds the image it held or a later one, with the same identity, a
  higher revision and the audits extended, and a load that succeeds returns exactly the image
  the file holds.\<close>

theorem file_history_is_linear:
  assumes "store_run (file_store config codec) (file_codes codec) s t" and "file_view codec s = Some old"
  shows "\<exists>cp. file_view codec t = Some cp \<and> (cp = old \<or> later_image old cp) \<and>
    (\<forall>identity v u. cs_load (file_store config codec) identity t = (Ok v, u) \<longrightarrow>
       v = Some cp \<and> br_identity (cp_report cp) = identity)"
  using chain_from [OF disk.run_chain [OF assms(1)] assms(2)] disk.load_Ok by metis

theorem file_history_is_linear_witness:
  "\<exists>cp. file_view (letter_codec sample_claim) sample_claimed = Some cp \<and> (cp = sample_base \<or> later_image sample_base cp)"
proof -
  have "store_run (file_store sample_config (letter_codec sample_claim)) (file_codes (letter_codec sample_claim))
      sample_file sample_claimed"
    using run_cas [OF run_refl, of "file_codes (letter_codec sample_claim)" sample_claim
        "file_store sample_config (letter_codec sample_claim)" sample_file 1]
      sample_claim_commit [of sample_claim] letter_codes(2) [of sample_claim] by simp
  moreover have "file_view (letter_codec sample_claim) sample_file = Some sample_base"
    using sound_log_view [OF sample_sound] by (simp add: file_view_def)
  ultimately show ?thesis using file_history_is_linear by blast
qed

section \<open>Grants\<close>

text \<open>C12: A grant is applied at most once: when \<open>grant_budget\<close> applies a request, it was made to the
  ready image the file held, whose history was verified, and the file then holds the granted
  image; after any further operations of any clients under any faults, no request with the same
  operation id is ever applied again, whatever its context, history or other fields.\<close>

theorem grant_applied_at_most_once:
  assumes "grant_budget (file_store config codec) context history request s = (Ok (GrantApplied cp c), s1)"
    and "file_codes codec cp" and "store_run (file_store config codec) (file_codes codec) s1 s2"
  shows "(\<exists>base. file_view codec s = Some base \<and> is_quiescent base \<and>
      verify_checkpoint_history base history = Ok () \<and> validate_transition cp (Some base) = Ok ()) \<and>
    file_view codec s1 = Some cp \<and>
    (\<forall>request' context' history' cp' c' s3. gq_operation_id request' = gq_operation_id request \<longrightarrow>
       grant_budget (file_store config codec) context' history' request' s2 \<noteq> (Ok (GrantApplied cp' c'), s3))"
proof -
  obtain base where "file_view codec s = Some base" "file_view codec s1 = Some cp"
    "validate_transition cp (Some base) = Ok ()" "verify_checkpoint_history base history = Ok ()" "is_quiescent base"
    using assms(1,2) by (rule disk.grant_view)
  with disk.grant_once [OF assms] show ?thesis by blast
qed

definition sample_raise :: budget_grant_request where
  "sample_raise = gr_request sample_grant"

definition sample_raised_image :: budget_checkpoint where
  "sample_raised_image = granted sample_base 2 sample_grant"

lemma sample_raised_image_valid: "validate sample_raised_image = Ok ()"
proof -
  let ?tb = "sample_budget\<lparr>tb_limits := sample_raised\<rparr>"
  have eq: "sample_raised_image = (ledger_image ?tb None 2 (default_state 5))\<lparr>cp_grants := [sample_grant]\<rparr>"
    by (simp add: sample_raised_image_def granted_def sample_base_def ledger_image_def snapshot_def audit_version_def
        sample_budget_def sample_grant_def default_state_def)
  have "image_inv (ledger_image ?tb None 2 (default_state 5))"
    by (intro image_of_ledger)
      (use ledger_inv_default in \<open>simp_all add: sample_budget_def anchor_ok_def identity_blank_def sample_identity_def
        is_blank_def\<close>)
  then have img: "image_inv sample_raised_image" by (simp add: eq image_inv_def)
  have "validate_grant_request_text (gr_request sample_grant) = Ok ()"
    by (simp add: validate_grant_request_text_def sample_grant_def is_blank_def is_white_space3_def
        MAX_BUDGET_AUDIT_TEXT_BYTES_def)
  then have "validate_grants sample_raised_image = Ok ()"
    using sample_increase
    by (simp add: validate_grants_def grant_step_def eq ledger_image_def MAX_BUDGET_GRANTS_def
        default_state_def) (simp add: sample_grant_def word_le_nat_alt)
  moreover have "validate_recoveries sample_raised_image = Ok ()" "validate_claim sample_raised_image = Ok ()"
    by (simp_all add: validate_recoveries_def validate_claim_def eq ledger_image_def default_state_def)
  ultimately show ?thesis using img by (simp add: validate_eq validate_image_iff)
qed

lemma sample_base_report:
  "br_limits (cp_report sample_base) = sample_limits" "br_stop (cp_report sample_base) = None"
  "br_charged (cp_report sample_base) = default_amounts" "br_active_time (cp_report sample_base) = 0"
  by (simp_all add: sample_base_def ledger_image_def default_state_def snapshot_def sample_budget_def)

lemma sample_raised_transition: "validate_transition sample_raised_image (Some sample_base) = Ok ()"
proof -
  have g: "cp_revision sample_raised_image = 2" "cp_grants sample_raised_image = [sample_grant]"
    "cp_recoveries sample_raised_image = []"
    "br_identity (cp_report sample_raised_image) = br_identity (cp_report sample_base)"
    by (simp_all add: sample_raised_image_def granted_def sample_base_facts)
  have "checked_add 1 1 = Some (2 :: u64)" by (simp add: checked_add_def)
  then show ?thesis
    using sample_raised_image_valid sample_base_valid g
    by (simp add: validate_transition_def validate_successor_def validate_recovery_transition_def sample_base_facts
        sample_base_report) (simp add: sample_grant_def sample_raised_image_def)
qed

definition sample_grant_context :: budget_restore_context where
  "sample_grant_context = sample_context\<lparr>cx_host_limits := sample_raised\<rparr>"

lemma sample_candidate:
  "grant_candidate sample_grant_context ([] :: unit session_event list) sample_raise sample_base = Ok sample_raised_image"
proof -
  have new: "gq_new_limits sample_raise = sample_raised" by (simp add: sample_raise_def sample_grant_def)
  have "tightened_by sample_raised sample_raised = sample_raised" by (simp add: tightened_by_eq_iff)
  moreover have "verify_checkpoint_history sample_base ([] :: unit session_event list) = Ok ()"
    using sample_verified by (simp add: verify_history_def sample_lease_def)
  moreover have "\<not> list_ex (\<lambda>r. limit sample_raised r < amount default_amounts r) all_resources"
    by (simp add: all_resources_def default_amounts_def)
  moreover have "lim_active_time sample_raised \<noteq> 0" by (simp add: sample_raised_def sample_limits_def)
  moreover have "checked_add 1 1 = Some (2 :: u64)" by (simp add: checked_add_def)
  moreover have "\<lparr>gr_request = sample_raise, gr_source_revision = 1, gr_confirmed_anchor = None,
      gr_old_limits = sample_limits, gr_old_stop = None\<rparr> = sample_grant"
    by (simp add: sample_raise_def sample_grant_def)
  ultimately show ?thesis
    using sample_increase sample_raised_transition
    by (simp add: grant_candidate_def sample_base_facts sample_base_report sample_grant_context_def sample_context_def
        new MAX_BUDGET_GRANTS_def sample_raised_image_def [symmetric])
qed

lemma sample_grant_applied:
  "\<exists>s. grant_budget (file_store sample_config (letter_codec sample_raised_image)) sample_grant_context
     ([] :: unit session_event list) sample_raise sample_file = (Ok (GrantApplied sample_raised_image Committed), s)"
proof -
  have rev: "cp_revision sample_raised_image = 2" and id: "br_identity (cp_report sample_raised_image) = sample_identity"
    by (simp_all add: sample_raised_image_def granted_def sample_base_facts)
  have "cp_grants sample_raised_image \<noteq> []" "cp_grants sample_claim = []"
    by (simp_all add: sample_raised_image_def granted_def sample_claim_def sample_base_facts)
  then have ne: "sample_raised_image \<noteq> sample_base" "sample_raised_image \<noteq> sample_claim"
    using sample_base_facts(2) by auto
  have e: "encode_record sample_config (letter_codec sample_raised_image) 1 sample_raised_image = Ok (''c'' @ [newline])"
    using ne by (simp add: encode_record_def bounded_write_def sample_config_def letter_codec_def sample_record_def rev)
  obtain s where "cs_compare_exchange (file_store sample_config (letter_codec sample_raised_image)) 1
      sample_raised_image sample_file = (Ok Committed, s)"
    using fault_free_commit [OF sample_sound _ _ sample_raised_transition, of sample_raised_image "''c'' @ [newline]"] ne e
    by (simp add: view_revision_def sample_base_facts id sample_file_def sample_config_def)
  moreover have "cs_load (file_store sample_config (letter_codec sample_raised_image)) sample_identity sample_file =
      (Ok (Some sample_base), sample_file)"
    by (rule fault_free_load [OF sample_sound])
      (simp_all add: sample_base_facts sample_file_def sample_config_def)
  moreover have "validate_grant_request_text sample_raise = Ok ()"
    by (simp add: validate_grant_request_text_def sample_raise_def sample_grant_def is_blank_def is_white_space3_def
        MAX_BUDGET_AUDIT_TEXT_BYTES_def)
  moreover have "cx_identity sample_grant_context = sample_identity"
    by (simp add: sample_grant_context_def sample_context_def)
  ultimately show ?thesis
    using sample_candidate sample_base_valid
    by (simp add: grant_budget_def sample_base_facts)
qed

theorem grant_applied_at_most_once_witness:
  "\<exists>s. file_view (letter_codec sample_raised_image) s = Some sample_raised_image"
proof -
  obtain s where "grant_budget (file_store sample_config (letter_codec sample_raised_image)) sample_grant_context
     ([] :: unit session_event list) sample_raise sample_file = (Ok (GrantApplied sample_raised_image Committed), s)"
    using sample_grant_applied by blast
  from grant_applied_at_most_once [OF this letter_codes(3) run_refl] show ?thesis by blast
qed

section \<open>Recovery\<close>

text \<open>A recovery replaces exactly the frozen claim it names: when \<open>recover_budget_candidate\<close>
  applies a candidate, the file held the claim with the requested execution id and revision,
  the candidate was checked against the session's own history, and the file then holds a ready
  image with the candidate's report that refunds nothing: no charge or time is below the
  claim's, limits and token mode are the claim's, and nothing is left reserved.\<close>

theorem recovery_replaces_named_claim:
  assumes "recover_budget_candidate (file_store config codec) ownership request candidate s = (Ok (RecoveryApplied cp), s')"
    and "file_codes codec cp"
  shows "\<exists>claim history. file_view codec s = Some claim \<and> \<not> is_quiescent claim \<and>
    cp_execution_id claim = Some (rq_execution_id request) \<and> cp_revision claim = rq_source_revision request \<and>
    ow_history ownership = Ok history \<and> verify_checkpoint_history candidate history = Ok () \<and>
    file_view codec s' = Some cp \<and> is_quiescent cp \<and> cp_report cp = cp_report candidate \<and>
    (\<forall>r. amount (br_charged (cp_report claim)) r \<le> amount (br_charged (cp_report cp)) r) \<and>
    br_active_time (cp_report claim) \<le> br_active_time (cp_report cp) \<and>
    br_limits (cp_report cp) = br_limits (cp_report claim) \<and>
    br_token_mode (cp_report cp) = br_token_mode (cp_report claim) \<and> br_reserved (cp_report cp) = default_amounts"
proof -
  obtain claim rc where v: "file_view codec s = Some claim" "cp_revision claim = rq_source_revision request"
    "file_view codec s' = Some cp" "is_quiescent cp" "cp_report cp = cp_report candidate" "rc_request rc = request"
    and rec: "validate_recovery_record cp claim rc = Ok ()"
    using disk.recovery_view [OF assms] by blast
  obtain history where "ow_history ownership = Ok history" "verify_checkpoint_history candidate history = Ok ()"
    using assms(1) by (rule recovery_applied)
  moreover have "\<not> is_quiescent claim" using recovery_record_facts(7) [OF rec] by (simp add: is_quiescent_def)
  ultimately show ?thesis using v recovery_record_facts [OF rec] by metis
qed

definition sample_repair :: budget_recovery_request where
  "sample_repair = \<lparr>rq_operation_id = ''fix'', rq_execution_id = ''run'', rq_source_revision = 2,
     rq_actor = ''host'', rq_source = ''cli'', rq_reason = ''crash''\<rparr>"

definition sample_owner :: "unit recovery_ownership" where
  "sample_owner = \<lparr>ow_session_id = ''session'', ow_ownership_id = ''owner'', ow_history = Ok sample_turn\<rparr>"

definition sample_recovered :: budget_checkpoint where
  "sample_recovered = recovered sample_owner sample_repair sample_closed"

definition sample_recovery :: budget_recovery_record where
  "sample_recovery = \<lparr>rc_request = sample_repair, rc_ownership_id = ''owner'', rc_confirmed_anchor = cp_anchor sample_closed,
     rc_candidate_report = cp_report sample_closed, rc_candidate_next_id = cp_next_id sample_closed\<rparr>"

lemma sample_recovered_eq:
  "sample_recovered = sample_closed\<lparr>cp_version := V4, cp_recoveries := [sample_recovery]\<rparr>"
  by (simp add: sample_recovered_def recovered_def sample_closed_facts sample_recovery_def sample_owner_def)

lemma sample_repair_valid: "validate_recovery_request sample_repair = Ok ()"
  by (simp add: validate_recovery_request_def sample_repair_def is_blank_def is_white_space3_def
      MAX_BUDGET_AUDIT_TEXT_BYTES_def)

lemma sample_evidence: "recovery_evidence sample_recovery 3 = sample_closed"
  by (simp add: recovery_evidence_def sample_recovery_def sample_closed_def ledger_image_def sample_settled_eq
      default_state_def)

lemma sample_recovered_valid: "validate sample_recovered = Ok ()"
proof -
  have "image_inv sample_closed" using sample_closed_valid by (simp add: validate_eq validate_image_iff)
  then have "image_inv sample_recovered" by (simp add: image_inv_def sample_recovered_eq Let_def)
  moreover have "validate_recovery_evidence sample_recovery = Ok ()"
    using sample_evidence sample_closed_valid
    by (simp add: validate_recovery_evidence_def) (simp add: sample_recovery_def sample_repair_def checked_add_def)
  moreover have "recovery_record_check sample_recovered sample_recovery ([], 0) = Ok ()"
    using sample_repair_valid
    by (simp add: recovery_record_check_def sample_recovered_eq sample_closed_facts)
      (simp add: sample_recovery_def sample_repair_def is_blank_def is_white_space3_def
        MAX_BUDGET_AUDIT_TEXT_BYTES_def sample_closed_facts word_le_nat_alt, simp add: sample_closed_def
        ledger_image_def snapshot_def sample_settled_eq default_state_def)
  ultimately show ?thesis
    by (simp add: validate_eq validate_image_iff validate_claim_def validate_grants_def validate_recoveries_def
        sample_recovered_eq sample_closed_facts MAX_BUDGET_RECOVERIES_def)
      (simp add: sample_closed_def ledger_image_def)
qed

lemma sample_recovered_transition: "validate_transition sample_recovered (Some sample_claim) = Ok ()"
proof -
  have c: "cp_grants sample_claim = []" "cp_recoveries sample_claim = []" "cp_execution_id sample_claim = Some ''run''"
    "cp_next_id sample_claim = 0"
    "cp_report sample_claim = snapshot sample_budget (default_state 5)"
    by (simp_all add: sample_claim_def sample_base_facts) (simp_all add: sample_base_def ledger_image_def default_state_def)
  have r: "cp_report sample_closed = snapshot sample_budget (default_state 5)" "cp_next_id sample_closed = 0"
    by (simp_all add: sample_closed_def ledger_image_def snapshot_def sample_settled_eq default_state_def
        sample_lease_task) (simp_all add: sample_budget_def)
  have "is_quiescent sample_recovered" using sample_closed_facts(4) by (simp add: is_quiescent_def sample_recovered_eq)
  then have "validate_recovery_record sample_recovered sample_claim sample_recovery = Ok ()"
    by (simp add: validate_recovery_record_def for_each_unit c r sample_claim_facts sample_recovered_eq sample_closed_facts)
      (simp add: sample_recovery_def sample_repair_def r usage_list_def snapshot_def default_state_def)
  moreover have "checked_add 2 1 = Some (3 :: u64)" by (simp add: checked_add_def)
  ultimately show ?thesis
    using sample_recovered_valid sample_claim_valid
    by (simp add: validate_transition_def validate_successor_def validate_recovery_transition_def c sample_claim_facts
        sample_recovered_eq sample_closed_facts r tightened_by_eq_iff)
qed

lemma sample_recovered_ne: "sample_recovered \<noteq> sample_claim" "sample_recovered \<noteq> sample_base" "sample_claim \<noteq> sample_closed"
proof -
  have r: "cp_revision sample_recovered = 3" by (simp add: sample_recovered_eq sample_closed_facts)
  with sample_claim_facts(1) sample_base_facts(1) sample_closed_facts(1)
  show "sample_recovered \<noteq> sample_claim" "sample_recovered \<noteq> sample_base" "sample_claim \<noteq> sample_closed" by auto
qed

lemma sample_recovery_applied:
  "\<exists>s. recover_budget_candidate (file_store sample_config (letter_codec sample_recovered)) sample_owner sample_repair
     sample_closed sample_claimed = (Ok (RecoveryApplied sample_recovered), s)"
proof -
  note ne = sample_recovered_ne
  have id: "br_identity (cp_report sample_claim) = sample_identity"
    by (simp add: sample_claim_facts sample_base_facts)
  have e: "encode_record sample_config (letter_codec sample_recovered) 2 sample_recovered = Ok (''c'' @ [newline])"
    using ne by (simp add: encode_record_def bounded_write_def sample_config_def letter_codec_def sample_record_def
        sample_recovered_eq sample_closed_facts)
  obtain s where "cs_compare_exchange (file_store sample_config (letter_codec sample_recovered)) 2 sample_recovered
      sample_claimed = (Ok Committed, s)"
    using fault_free_commit [OF sample_claimed_sound _ _ sample_recovered_transition, of sample_recovered "''c'' @ [newline]"]
      ne e id
    by (simp add: view_revision_def sample_claim_facts sample_claimed_def sample_file_def sample_config_def
        sample_recovered_eq sample_closed_facts)
  then have "cs_compare_exchange_guarded (file_store sample_config (letter_codec sample_recovered)) 2 sample_recovered
      sample_claimed = (Ok Committed, s)"
    by (simp add: file_store_def file_compare_exchange_def)
  moreover have "cs_load (file_store sample_config (letter_codec sample_recovered)) sample_identity sample_claimed =
      (Ok (Some sample_claim), sample_claimed)"
    by (rule fault_free_load [OF sample_claimed_sound])
      (simp_all add: id sample_claimed_def sample_file_def sample_config_def)
  moreover have "verify_checkpoint_history sample_closed sample_turn = Ok ()"
  proof -
    have "verify_checkpoint_history (le_base sample_lease) ([] :: unit session_event list) = Ok ()"
      using sample_verified by (simp add: verify_history_def)
    from closed_history [OF this sample_closed_turn _ sample_closed_valid _ _ _ sample_closed_tail] show ?thesis
      by (simp add: sample_closed_facts sample_lease_def sample_base_facts) (simp add: sample_closed_def ledger_image_def)
  qed
  moreover have "recover_loaded (file_store sample_config (letter_codec sample_recovered)) sample_owner sample_repair
      sample_closed sample_claim sample_claimed = (Ok (RecoveryApplied sample_recovered), s)"
    if "verify_checkpoint_history sample_closed sample_turn = Ok ()"
      "cs_compare_exchange_guarded (file_store sample_config (letter_codec sample_recovered)) 2 sample_recovered
      sample_claimed = (Ok Committed, s)"
  proof -
    have "cp_recoveries sample_claim = []" "cp_execution_id sample_claim = Some ''run''"
      by (simp_all add: sample_claim_def sample_base_facts)
    with that ne(3) sample_recovered_transition show ?thesis
      by (simp add: recover_loaded_def sample_claim_facts sample_recovered_def [symmetric] MAX_BUDGET_RECOVERIES_def)
        (simp add: sample_owner_def sample_repair_def)
  qed
  moreover have "checked_add 2 1 = Some (3 :: u64)" by (simp add: checked_add_def)
  ultimately show ?thesis
    using sample_repair_valid sample_closed_valid sample_claim_valid
    by (simp add: recover_budget_candidate_def sample_closed_facts)
      (simp add: sample_owner_def sample_repair_def sample_identity_def is_blank_def is_white_space3_def
        MAX_BUDGET_AUDIT_TEXT_BYTES_def)
qed

theorem recovery_replaces_named_claim_witness:
  "\<exists>s. file_view (letter_codec sample_recovered) s = Some sample_recovered \<and> is_quiescent sample_recovered"
proof -
  obtain s where "recover_budget_candidate (file_store sample_config (letter_codec sample_recovered)) sample_owner
     sample_repair sample_closed sample_claimed = (Ok (RecoveryApplied sample_recovered), s)"
    using sample_recovery_applied by blast
  from recovery_replaces_named_claim [OF this letter_codes(3)] show ?thesis by blast
qed

end
