(* ===== verification/SessionCoordinator.thy ===== *)
theory SessionCoordinator
  imports SessionLog
begin

text \<open>
  The Session runtime, \<open>crates/session/runtime/src/coordinator.rs\<close>: one coordinator per
  Session owns the turn lease and the event log and serves a mailbox of commands in order.
  \<open>SessionPersistence\<close> is a record of its operations over the state \<open>'w\<close> of the world; the
  other things a coordinator reads from the world (the stopping flag, whether a waiter has gone,
  whether its handle is alive, a new turn id) and the observers are the record \<open>coordinator_env\<close>.
  A waiter (\<open>oneshot\<close>) is a number, and a handler returns the replies that reach one. A panic of
  the provider unwinds the coordinator's task, which then serves nothing.
\<close>

section \<open>Vocabulary\<close>

text \<open>A number that an unsigned integer of that width can hold.\<close>

definition in_width :: "nat \<Rightarrow> nat \<Rightarrow> bool" where
  "in_width width n \<longleftrightarrow> n < 2 ^ width"

lemma in_width_0 [simp]: "in_width width 0"
  by (simp add: in_width_def)

lemma in_width_code [code]: "in_width width n \<longleftrightarrow> int n < 2 ^ width"
  unfolding in_width_def by (metis of_nat_less_iff of_nat_numeral of_nat_power)

lemma checked_add_code [code]: "checked_add a b = (if a \<le> a + b then Some (a + b) else None)"
  by (simp add: checked_add_def no_olen_add_nat)

record ('v, 'w) session_persistence =
  sp_load :: "session_id \<Rightarrow> 'w \<Rightarrow> ('v session_event list, session_persistence_error) outcome \<times> 'w"
  sp_commit :: "'v session_event \<Rightarrow> 'w \<Rightarrow> (persist_append_outcome, session_persistence_error) outcome \<times> 'w"

record ('v, 'w) coordinator_env =
  ce_stopping :: "'w \<Rightarrow> bool"
  ce_is_closed :: "nat \<Rightarrow> 'w \<Rightarrow> bool"
  ce_handle_alive :: "'w \<Rightarrow> bool"
  ce_new_turn_id :: "'w \<Rightarrow> turn_id"
  ce_observers :: "('v session_event \<Rightarrow> 'w \<Rightarrow> (unit, string) outcome \<times> 'w) list"

datatype poisoned_failure =
    PoisonPersistence session_persistence_error
  | PoisonHistory physical_log_error

fun poisoned_runtime_error :: "poisoned_failure \<Rightarrow> 'v session_runtime_error" where
  "poisoned_runtime_error (PoisonPersistence e) = RtPersistence e"
| "poisoned_runtime_error (PoisonHistory e) = RtInvalidHistory e"

record active_turn =
  at_token :: u64
  at_turn_id :: turn_id
  at_start_seq :: usize
  at_terminal_seq :: "u64 option"

record 'v coordinator_state =
  co_loaded :: bool
  co_events :: "'v session_event list"
  co_active :: "active_turn option"
  co_next_token :: u64
  co_pending :: "nat list"
  co_poisoned :: "poisoned_failure option"
  co_unwound :: bool

definition coordinator_default :: "'v coordinator_state" where
  "coordinator_default = \<lparr>co_loaded = False, co_events = [], co_active = None, co_next_token = 1,
     co_pending = [], co_poisoned = None, co_unwound = False\<rparr>"

record 'v admission_grant =
  ag_admission :: "'v turn_admission"
  ag_token :: u64

record 'v append_command =
  ac_token :: u64
  ac_turn_id :: turn_id
  ac_draft :: "'v session_event_draft"
  ac_response :: nat

datatype 'v command =
    CmdBegin nat
  | CmdAppend "'v append_command"
  | CmdSettle u64 turn_id nat
  | CmdAbandon u64
  | CmdShutdown nat

datatype 'v reply =
    ReplyBegin nat "('v admission_grant, 'v session_runtime_error) outcome"
  | ReplyAppend nat "('v session_event, 'v session_runtime_error) outcome"
  | ReplySettle nat "('v turn_commit_summary, 'v session_runtime_error) outcome"
  | ReplyShutdown nat

type_synonym ('v, 'w) handled = "'v reply list \<times> 'v coordinator_state \<times> 'w"

text \<open>\<open>response.send\<close>: what reaches a waiter that is still there.\<close>

definition send :: "('v, 'w) coordinator_env \<Rightarrow> 'w \<Rightarrow> nat \<Rightarrow> 'v reply \<Rightarrow> 'v reply list" where
  "send env w response reply = (if ce_is_closed env response w then [] else [reply])"

section \<open>Admission\<close>

definition unwind :: "'v coordinator_state \<Rightarrow> 'v coordinator_state" where
  "unwind st = st\<lparr>co_unwound := True\<rparr>"

text \<open>The log is loaded once, by the first admission that succeeds in it.\<close>

definition ensure_loaded ::
    "session_id \<Rightarrow> ('v, 'w) session_persistence \<Rightarrow> 'v coordinator_state \<Rightarrow> 'w
       \<Rightarrow> (unit, 'v session_runtime_error) outcome \<times> 'v coordinator_state \<times> 'w" where
  "ensure_loaded session p st w =
     (if co_loaded st then (Ok (), st, w)
      else (case sp_load p session w of
          (Err e, w) \<Rightarrow> (Err (RtPersistence e), st, w)
        | (Panic, w) \<Rightarrow> (Panic, st, w)
        | (Ok events, w) \<Rightarrow>
            (case validate_physical_log session events of
               Ok _ \<Rightarrow> (Ok (), st\<lparr>co_events := events, co_loaded := True\<rparr>, w)
             | Err e \<Rightarrow> (Err (RtInvalidHistory e), st, w)
             | Panic \<Rightarrow> (Panic, st, w))))"

text \<open>The lease itself. A grant that cannot be delivered is withdrawn.\<close>

definition grant_turn ::
    "session_id \<Rightarrow> ('v, 'w) coordinator_env \<Rightarrow> 'v coordinator_state \<Rightarrow> nat \<Rightarrow> 'w
       \<Rightarrow> bool \<times> ('v, 'w) handled" where
  "grant_turn session env st response w =
     (if ce_stopping env w then (False, send env w response (ReplyBegin response (Err RtStopped)), st, w)
      else if \<not> ce_handle_alive env w
      then (False, send env w response (ReplyBegin response (Err RtStopped)), st, w)
      else
        let token = co_next_token st in
        (case checked_add token 1 of
           None \<Rightarrow> (False, send env w response (ReplyBegin response (Err SequenceExhausted)), st, w)
         | Some next_token \<Rightarrow>
             let st = st\<lparr>co_next_token := next_token\<rparr>;
                 turn_id = ce_new_turn_id env w;
                 admission = \<lparr>ta_session_id = session, ta_turn_id = turn_id, ta_history = co_events st\<rparr>;
                 st = st\<lparr>co_active := Some \<lparr>at_token = token, at_turn_id = turn_id,
                   at_start_seq = length (co_events st), at_terminal_seq = None\<rparr>\<rparr>;
                 grant = \<lparr>ag_admission = admission, ag_token = token\<rparr> in
             if ce_is_closed env response w then (False, [], st\<lparr>co_active := None\<rparr>, w)
             else (True, [ReplyBegin response (Ok grant)], st, w)))"

definition admit_turn ::
    "session_id \<Rightarrow> ('v, 'w) session_persistence \<Rightarrow> ('v, 'w) coordinator_env \<Rightarrow> 'v coordinator_state \<Rightarrow> nat \<Rightarrow> 'w
       \<Rightarrow> bool \<times> ('v, 'w) handled" where
  "admit_turn session p env st response w =
     (if ce_is_closed env response w then (False, [], st, w)
      else if ce_stopping env w then (False, send env w response (ReplyBegin response (Err RtStopped)), st, w)
      else (case co_poisoned st of
          Some failure \<Rightarrow>
            (False, send env w response (ReplyBegin response (Err (poisoned_runtime_error failure))), st, w)
        | None \<Rightarrow>
            (case ensure_loaded session p st w of
               (Err e, st, w) \<Rightarrow> (False, send env w response (ReplyBegin response (Err e)), st, w)
             | (Panic, st, w) \<Rightarrow> (False, [], unwind st, w)
             | (Ok _, st, w) \<Rightarrow> grant_turn session env st response w)))"

definition reject_pending ::
    "('v, 'w) coordinator_env \<Rightarrow> 'v coordinator_state \<Rightarrow> 'w \<Rightarrow> ('v, 'w) handled" where
  "reject_pending env st w =
     (concat (map (\<lambda>response. send env w response (ReplyBegin response (Err RtStopped))) (co_pending st)),
      st\<lparr>co_pending := []\<rparr>, w)"

text \<open>
  The loop of \<open>grant_pending\<close>, over the queue it pops. It leaves when a turn is active, when the
  queue is empty and when the task unwinds.
\<close>

fun grant_loop ::
    "session_id \<Rightarrow> ('v, 'w) session_persistence \<Rightarrow> ('v, 'w) coordinator_env \<Rightarrow> 'v coordinator_state
       \<Rightarrow> nat list \<Rightarrow> 'w \<Rightarrow> ('v, 'w) handled" where
  "grant_loop session p env st [] w = ([], st\<lparr>co_pending := []\<rparr>, w)"
| "grant_loop session p env st (response # pending) w =
     (if co_active st \<noteq> None \<or> co_unwound st then ([], st\<lparr>co_pending := response # pending\<rparr>, w)
      else if ce_is_closed env response w then grant_loop session p env st pending w
      else
        (case admit_turn session p env (st\<lparr>co_pending := pending\<rparr>) response w of
           (True, replies, st, w) \<Rightarrow> (replies, st\<lparr>co_pending := pending\<rparr>, w)
         | (False, replies, st, w) \<Rightarrow>
             let (replies', st, w) = grant_loop session p env st pending w in (replies @ replies', st, w)))"

definition grant_pending ::
    "session_id \<Rightarrow> ('v, 'w) session_persistence \<Rightarrow> ('v, 'w) coordinator_env \<Rightarrow> 'v coordinator_state \<Rightarrow> 'w
       \<Rightarrow> ('v, 'w) handled" where
  "grant_pending session p env st w =
     (if ce_stopping env w then reject_pending env st w
      else grant_loop session p env st (co_pending st) w)"

section \<open>Appending\<close>

text \<open>The active turn a token and turn id name.\<close>

definition named_turn :: "u64 \<Rightarrow> turn_id \<Rightarrow> 'v coordinator_state \<Rightarrow> active_turn option" where
  "named_turn token turn_id st =
     (case co_active st of
        None \<Rightarrow> None
      | Some active \<Rightarrow> if at_token active = token \<and> at_turn_id active = turn_id then Some active else None)"

definition terminal_kind :: "'v session_event_kind \<Rightarrow> bool" where
  "terminal_kind kind \<longleftrightarrow> (case kind of Done _ _ \<Rightarrow> True | ErrorEvent _ _ _ \<Rightarrow> True | _ \<Rightarrow> False)"

definition mark_terminal :: "'v coordinator_state \<Rightarrow> 'v session_event \<Rightarrow> 'v coordinator_state" where
  "mark_terminal st event =
     (case co_active st of
        None \<Rightarrow> st
      | Some active \<Rightarrow>
          if terminal_kind (se_kind event) \<and> at_turn_id active = se_turn_id event
          then st\<lparr>co_active := Some (active\<lparr>at_terminal_seq := Some (se_seq event)\<rparr>)\<rparr> else st)"

definition observe_all :: "('v, 'w) coordinator_env \<Rightarrow> 'v session_event \<Rightarrow> 'w \<Rightarrow> 'w" where
  "observe_all env event w = fold (\<lambda>observe w. snd (observe event w)) (ce_observers env) w"

definition divergence :: "'v session_event \<Rightarrow> session_persistence_error" where
  "divergence candidate = PeConflict (se_seq candidate) (se_event_id candidate)
     ''durable log diverged while reconciling an indeterminate commit''"

definition proven_absent :: "session_persistence_error \<Rightarrow> session_persistence_error" where
  "proven_absent e =
     (case e of
        PeIo operation message _ \<Rightarrow>
          PeIo operation (message @ ''; physical reconciliation proved the candidate was not committed'')
            DefinitelyNotCommitted
      | e \<Rightarrow> e)"

text \<open>What a handler does, before its reply: the value of the reply, the state and the world.\<close>

type_synonym ('v, 'w) append_result =
  "('v session_event, 'v session_runtime_error) outcome \<times> 'v coordinator_state \<times> 'w"

definition reconcile_indeterminate ::
    "session_id \<Rightarrow> ('v, 'w) session_persistence \<Rightarrow> ('v, 'w) coordinator_env \<Rightarrow> 'v coordinator_state
       \<Rightarrow> 'v session_event \<Rightarrow> session_persistence_error \<Rightarrow> 'w \<Rightarrow> ('v, 'w) append_result" where
  "reconcile_indeterminate session p env st candidate original_error w =
     (case sp_load p session w of
        (Panic, w) \<Rightarrow> (Panic, unwind st, w)
      | (Err e, w) \<Rightarrow> (Err (RtPersistence e), st\<lparr>co_poisoned := Some (PoisonPersistence e)\<rparr>, w)
      | (Ok restored, w) \<Rightarrow>
          (case validate_physical_log session restored of
             Panic \<Rightarrow> (Panic, unwind st, w)
           | Err e \<Rightarrow> (Err (RtInvalidHistory e), st\<lparr>co_poisoned := Some (PoisonHistory e)\<rparr>, w)
           | Ok _ \<Rightarrow>
               let head = length (co_events st) in
               if restored = co_events st then (Err (RtPersistence (proven_absent original_error)), st, w)
               else if length restored = head + 1 \<and> take head restored = co_events st \<and> restored ! head = candidate
               then
                 let committed = restored ! head;
                     st = mark_terminal (st\<lparr>co_events := restored\<rparr>) committed;
                     w = observe_all env committed w in
                 (Ok committed, st, w)
               else
                 (Err (RtPersistence (divergence candidate)),
                  st\<lparr>co_poisoned := Some (PoisonPersistence (divergence candidate))\<rparr>, w)))"

text \<open>The event of a draft, at the head of the log.\<close>

definition canonical_event ::
    "session_id \<Rightarrow> turn_id \<Rightarrow> 'v coordinator_state \<Rightarrow> 'v session_event_draft \<Rightarrow> 'v session_event" where
  "canonical_event session turn_id st draft =
     \<lparr>se_event_id = dr_event_id draft, se_session_id = session, se_turn_id = turn_id,
      se_generation_id = dr_generation_id draft, se_message_id = dr_message_id draft,
      se_seq = of_nat (length (co_events st)), se_kind = dr_kind draft\<rparr>"

definition commit_event ::
    "session_id \<Rightarrow> ('v, 'w) session_persistence \<Rightarrow> ('v, 'w) coordinator_env \<Rightarrow> 'v coordinator_state
       \<Rightarrow> 'v session_event \<Rightarrow> 'w \<Rightarrow> ('v, 'w) append_result" where
  "commit_event session p env st event w =
     (case sp_commit p event w of
        (Panic, w) \<Rightarrow> (Panic, unwind st, w)
      | (Ok Appended, w) \<Rightarrow>
          let st = mark_terminal (st\<lparr>co_events := co_events st @ [event]\<rparr>) event;
              w = observe_all env event w in
          (Ok event, st, w)
      | (Ok ReplayedExact, w) \<Rightarrow>
          (Ok event, mark_terminal (st\<lparr>co_events := co_events st @ [event]\<rparr>) event, w)
      | (Err e, w) \<Rightarrow>
          (case e of
             PeIo _ _ Indeterminate \<Rightarrow> reconcile_indeterminate session p env st event e w
           | PeConflict _ _ _ \<Rightarrow> (Err (RtPersistence e), st\<lparr>co_poisoned := Some (PoisonPersistence e)\<rparr>, w)
           | PeCorruptLog _ _ \<Rightarrow> (Err (RtPersistence e), st\<lparr>co_poisoned := Some (PoisonPersistence e)\<rparr>, w)
           | PeInvalidHistory _ \<Rightarrow> (Err (RtPersistence e), st\<lparr>co_poisoned := Some (PoisonPersistence e)\<rparr>, w)
           | _ \<Rightarrow> (Err (RtPersistence e), st, w)))"

text \<open>A draft whose event is in the log already: an exact retry, or a conflict.\<close>

definition replay_event ::
    "turn_id \<Rightarrow> 'v session_event_draft \<Rightarrow> 'v session_event \<Rightarrow> ('v session_event, 'v session_runtime_error) outcome" where
  "replay_event turn_id draft existing =
     (if se_turn_id existing = turn_id \<and> se_generation_id existing = dr_generation_id draft \<and>
         se_message_id existing = dr_message_id draft \<and> se_kind existing = dr_kind draft
      then Ok existing
      else Err (RtPersistence (PeConflict (se_seq existing) (dr_event_id draft)
        (''event ID '' @ dr_event_id draft @ '' was reused with different content''))))"

definition append_event ::
    "session_id \<Rightarrow> ('v, 'w) session_persistence \<Rightarrow> ('v, 'w) coordinator_env \<Rightarrow> 'v coordinator_state
       \<Rightarrow> u64 \<Rightarrow> turn_id \<Rightarrow> 'v session_event_draft \<Rightarrow> 'w \<Rightarrow> ('v, 'w) append_result" where
  "append_event session p env st token turn_id draft w =
     (case named_turn token turn_id st of
        None \<Rightarrow> (Err (TurnNotActive session turn_id), st, w)
      | Some active \<Rightarrow>
          let canonical_turn_id = at_turn_id active in
          (case co_poisoned st of
             Some failure \<Rightarrow> (Err (poisoned_runtime_error failure), st, w)
           | None \<Rightarrow>
               (case find (\<lambda>event. se_event_id event = dr_event_id draft) (co_events st) of
                  Some existing \<Rightarrow> (replay_event canonical_turn_id draft existing, st, w)
                | None \<Rightarrow>
                    (case at_terminal_seq active of
                       Some terminal_seq \<Rightarrow> (Err (TurnClosed session canonical_turn_id terminal_seq), st, w)
                     | None \<Rightarrow>
                         if \<not> in_width 64 (length (co_events st)) then (Err SequenceExhausted, st, w)
                         else commit_event session p env st (canonical_event session canonical_turn_id st draft) w))))"

definition append_turn ::
    "session_id \<Rightarrow> ('v, 'w) session_persistence \<Rightarrow> ('v, 'w) coordinator_env \<Rightarrow> 'v coordinator_state
       \<Rightarrow> 'v append_command \<Rightarrow> 'w \<Rightarrow> ('v, 'w) handled" where
  "append_turn session p env st c w =
     (case append_event session p env st (ac_token c) (ac_turn_id c) (ac_draft c) w of
        (Panic, st, w) \<Rightarrow> ([], st, w)
      | (r, st, w) \<Rightarrow> (send env w (ac_response c) (ReplyAppend (ac_response c) r), st, w))"

section \<open>Settlement and the mailbox\<close>

definition settle_turn ::
    "session_id \<Rightarrow> 'v coordinator_state \<Rightarrow> u64 \<Rightarrow> turn_id
       \<Rightarrow> ('v turn_commit_summary, 'v session_runtime_error) outcome \<times> 'v coordinator_state" where
  "settle_turn session st token turn_id =
     (case named_turn token turn_id st of
        None \<Rightarrow> (Err (TurnNotActive session turn_id), st)
      | Some active \<Rightarrow>
          (case co_poisoned st of
             Some failure \<Rightarrow> (Err (poisoned_runtime_error failure), st\<lparr>co_active := None\<rparr>)
           | None \<Rightarrow>
               if length (co_events st) < at_start_seq active then (Panic, unwind st)
               else
                 (Ok \<lparr>ts_turn_id = at_turn_id active, ts_events = drop (at_start_seq active) (co_events st)\<rparr>,
                  st\<lparr>co_active := None\<rparr>)))"

text \<open>
  One iteration of \<open>run_coordinator\<close>. \<open>receiver.close()\<close> and the responses kept until the mailbox
  is drained are the caller's.
\<close>

fun handle_command ::
    "session_id \<Rightarrow> ('v, 'w) session_persistence \<Rightarrow> ('v, 'w) coordinator_env \<Rightarrow> 'v coordinator_state
       \<Rightarrow> 'v command \<Rightarrow> 'w \<Rightarrow> ('v, 'w) handled" where
  "handle_command session p env st (CmdBegin response) w =
     (if ce_stopping env w then (send env w response (ReplyBegin response (Err RtStopped)), st, w)
      else if ce_is_closed env response w then ([], st, w)
      else if co_active st \<noteq> None then ([], st\<lparr>co_pending := co_pending st @ [response]\<rparr>, w)
      else snd (admit_turn session p env st response w))"
| "handle_command session p env st (CmdAppend c) w = append_turn session p env st c w"
| "handle_command session p env st (CmdSettle token turn_id response) w =
     (case settle_turn session st token turn_id of
        (Panic, st) \<Rightarrow> ([], st, w)
      | (r, st) \<Rightarrow>
          let replies = send env w response (ReplySettle response r);
              (replies', st, w) = grant_pending session p env st w in
          (replies @ replies', st, w))"
| "handle_command session p env st (CmdAbandon token) w =
     (case co_active st of
        Some active \<Rightarrow>
          if at_token active = token then grant_pending session p env (st\<lparr>co_active := None\<rparr>) w
          else ([], st, w)
      | None \<Rightarrow> ([], st, w))"
| "handle_command session p env st (CmdShutdown response) w = reject_pending env st w"

text \<open>The loop of \<open>run_coordinator\<close> over the commands it receives; a task that unwound receives none.\<close>

fun serve_commands ::
    "session_id \<Rightarrow> ('v, 'w) session_persistence \<Rightarrow> ('v, 'w) coordinator_env
       \<Rightarrow> ('v command \<times> 'v reply list) list \<times> 'v coordinator_state \<times> 'w \<Rightarrow> 'v command list
       \<Rightarrow> ('v command \<times> 'v reply list) list \<times> 'v coordinator_state \<times> 'w" where
  "serve_commands session p env (tr, st, w) [] = (tr, st, w)"
| "serve_commands session p env (tr, st, w) (c # cs) =
     (if co_unwound st then (tr, st, w)
      else
        let (replies, st', w') = handle_command session p env st c w in
        serve_commands session p env (tr @ [(c, replies)], st', w') cs)"

text \<open>The end of the loop: the receiver is closed and drained.\<close>

definition finish_coordinator ::
    "('v, 'w) coordinator_env \<Rightarrow> 'v coordinator_state \<Rightarrow> nat list \<Rightarrow> 'w \<Rightarrow> ('v, 'w) handled" where
  "finish_coordinator env st shutdown_responses w =
     (let (replies, st, w) = reject_pending env (st\<lparr>co_active := None\<rparr>) w in
      (replies @ concat (map (\<lambda>response. send env w response (ReplyShutdown response)) shutdown_responses), st, w))"

section \<open>Turns and the runtime\<close>

text \<open>A lease \<open>MailboxTurn\<close> with its release guard.\<close>

record 'v mailbox_turn =
  mt_admission :: "'v turn_admission"
  mt_token :: u64
  mt_armed :: bool

definition into_turn :: "'v admission_grant \<Rightarrow> 'v mailbox_turn" where
  "into_turn grant = \<lparr>mt_admission = ag_admission grant, mt_token = ag_token grant, mt_armed = True\<rparr>"

definition turn_append :: "'v mailbox_turn \<Rightarrow> 'v session_event_draft \<Rightarrow> nat \<Rightarrow> 'v command" where
  "turn_append turn draft response =
     CmdAppend \<lparr>ac_token = mt_token turn, ac_turn_id = ta_turn_id (mt_admission turn), ac_draft = draft,
       ac_response = response\<rparr>"

definition turn_settle :: "'v mailbox_turn \<Rightarrow> nat \<Rightarrow> 'v command" where
  "turn_settle turn response = CmdSettle (mt_token turn) (ta_turn_id (mt_admission turn)) response"

definition turn_settled ::
    "'v mailbox_turn \<Rightarrow> ('v turn_commit_summary, 'v session_runtime_error) outcome \<Rightarrow> 'v mailbox_turn" where
  "turn_settled turn result = (if is_ok result then turn\<lparr>mt_armed := False\<rparr> else turn)"

definition turn_drop :: "'v mailbox_turn \<Rightarrow> 'v command list" where
  "turn_drop turn = (if mt_armed turn then [CmdAbandon (mt_token turn)] else [])"

text \<open>
  \<open>RuntimeControl\<close>: the coordinators by Session. A handle is the number of the task it feeds; the
  mailbox accepts a command while its receiver is open.
\<close>

record mailbox_runtime =
  mr_coordinators :: "(session_id, nat) btree_map"
  mr_stopping :: bool
  mr_spawned :: nat

definition mailbox_runtime_new :: mailbox_runtime where
  "mailbox_runtime_new = \<lparr>mr_coordinators = [], mr_stopping = False, mr_spawned = 0\<rparr>"

definition runtime_coordinator ::
    "session_id \<Rightarrow> mailbox_runtime \<Rightarrow> (nat, 'v session_runtime_error) outcome \<times> mailbox_runtime" where
  "runtime_coordinator session r =
     (if mr_stopping r then (Err RtStopped, r)
      else (case map_of (mr_coordinators r) session of
          Some coordinator \<Rightarrow> (Ok coordinator, r)
        | None \<Rightarrow>
            (Ok (mr_spawned r),
             r\<lparr>mr_spawned := mr_spawned r + 1,
               mr_coordinators := bt_insert session (mr_spawned r) (mr_coordinators r)\<rparr>)))"

text \<open>
  \<open>begin_turn\<close> up to the wait for its reply: the coordinator the command \<open>Begin\<close> goes to. The flag
  may be set between the two reads; the argument says whether it is then, and whether the mailbox
  takes the command.
\<close>

definition runtime_begin_turn ::
    "session_id \<Rightarrow> bool \<Rightarrow> bool \<Rightarrow> mailbox_runtime \<Rightarrow> (nat, 'v session_runtime_error) outcome \<times> mailbox_runtime" where
  "runtime_begin_turn session stopping_now mailbox_open r =
     (if mr_stopping r then (Err RtStopped, r)
      else (case runtime_coordinator session r of
          (Err e, r) \<Rightarrow> (Err e, r)
        | (Panic, r) \<Rightarrow> (Panic, r)
        | (Ok coordinator, r) \<Rightarrow>
            if stopping_now \<or> \<not> mailbox_open then (Err RtStopped, r) else (Ok coordinator, r)))"

text \<open>\<open>shutdown\<close>: the flag, the coordinators that are told, and the first task that failed.\<close>

definition runtime_shutdown :: "mailbox_runtime \<Rightarrow> nat list \<times> mailbox_runtime" where
  "runtime_shutdown r = (map snd (mr_coordinators r), r\<lparr>mr_stopping := True\<rparr>)"

definition shutdown_result :: "string option list \<Rightarrow> (unit, string) outcome" where
  "shutdown_result joins =
     (case filter (\<lambda>j. j \<noteq> None) joins of
        Some message # _ \<Rightarrow> Err (''Session coordinator failed during shutdown: '' @ message)
      | _ \<Rightarrow> Ok ())"

end
