(* ===== verification/Jsonl.thy ===== *)
theory Jsonl
  imports SessionCoordinator FileStore
begin

text \<open>
  Session persistence in append-only JSONL files, \<open>crates/session/jsonl/src/lib.rs\<close>. A file is its
  bytes and how many of them a successful \<open>sync_data\<close> has made durable. Each operation meets the
  outcomes of the operating system and of its worker in a \<open>jsonl_plan\<close>, the head of the state's
  list of plans (without faults when the list has run out). \<open>serde_json\<close> is the record
  \<open>event_codec\<close>. Further fields of the state are the host's.
\<close>

section \<open>File names\<close>

definition hex_digit :: "nat \<Rightarrow> char" where
  "hex_digit n = ''0123456789abcdef'' ! n"

definition encode_session_id :: "session_id \<Rightarrow> string" where
  "encode_session_id session =
     concat (map (\<lambda>byte. [hex_digit (of_char byte div 16), hex_digit (of_char byte mod 16)]) session)"

definition decode_hex_nibble :: "char \<Rightarrow> nat option" where
  "decode_hex_nibble byte =
     (let n = of_char byte :: nat in
      if of_char CHR ''0'' \<le> n \<and> n \<le> of_char CHR ''9'' then Some (n - of_char CHR ''0'')
      else if of_char CHR ''a'' \<le> n \<and> n \<le> of_char CHR ''f'' then Some (n - of_char CHR ''a'' + 10)
      else None)"

text \<open>\<open>String::from_utf8\<close>: the well-formed sequences of bytes.\<close>

definition continuation :: "nat \<Rightarrow> bool" where
  "continuation b \<longleftrightarrow> 128 \<le> b \<and> b \<le> 191"

fun utf8_bytes :: "nat list \<Rightarrow> bool" where
  "utf8_bytes [] = True"
| "utf8_bytes (a # bs) =
     (if a < 128 then utf8_bytes bs
      else if 194 \<le> a \<and> a \<le> 223
      then (case bs of b # bs' \<Rightarrow> continuation b \<and> utf8_bytes bs' | [] \<Rightarrow> False)
      else if 224 \<le> a \<and> a \<le> 239
      then (case bs of b # c # bs' \<Rightarrow>
          continuation b \<and> (a = 224 \<longrightarrow> 160 \<le> b) \<and> (a = 237 \<longrightarrow> b \<le> 159) \<and> continuation c \<and> utf8_bytes bs'
        | _ \<Rightarrow> False)
      else if 240 \<le> a \<and> a \<le> 244
      then (case bs of b # c # d # bs' \<Rightarrow>
          continuation b \<and> (a = 240 \<longrightarrow> 144 \<le> b) \<and> (a = 244 \<longrightarrow> b \<le> 143) \<and> continuation c \<and> continuation d \<and>
          utf8_bytes bs'
        | _ \<Rightarrow> False)
      else False)"

definition valid_utf8 :: "string \<Rightarrow> bool" where
  "valid_utf8 s \<longleftrightarrow> utf8_bytes (map of_char s)"

text \<open>The loop of \<open>decode_session_id\<close> over pairs of characters.\<close>

fun decode_pairs :: "string \<Rightarrow> string option" where
  "decode_pairs (c # d # encoded) =
     (case decode_hex_nibble c of
        None \<Rightarrow> None
      | Some high \<Rightarrow>
          (case decode_hex_nibble d of
             None \<Rightarrow> None
           | Some low \<Rightarrow> map_option ((#) (char_of (high * 16 + low))) (decode_pairs encoded)))"
| "decode_pairs _ = Some []"

definition decode_session_id :: "string \<Rightarrow> session_id option" where
  "decode_session_id encoded =
     (if length encoded mod 2 \<noteq> 0 then None
      else (case decode_pairs encoded of
          None \<Rightarrow> None
        | Some bytes \<Rightarrow> if valid_utf8 bytes then Some bytes else None))"

definition strip_prefix :: "string \<Rightarrow> string \<Rightarrow> string option" where
  "strip_prefix pre s = (if take (length pre) s = pre then Some (drop (length pre) s) else None)"

definition strip_suffix :: "string \<Rightarrow> string \<Rightarrow> string option" where
  "strip_suffix suf s = map_option List.rev (strip_prefix (List.rev suf) (List.rev s))"

text \<open>The last component of \<open>session_file_path\<close>, and its inverse.\<close>

definition session_file_name :: "session_id \<Rightarrow> string" where
  "session_file_name session = ''session-'' @ encode_session_id session @ ''.jsonl''"

definition session_id_from_file_name :: "string \<Rightarrow> session_id option" where
  "session_id_from_file_name name =
     Option.bind (strip_prefix ''session-'' name) (\<lambda>rest.
     Option.bind (strip_suffix ''.jsonl'' rest) decode_session_id)"

section \<open>State\<close>

record jsonl_file =
  jx_content :: string
  jx_synced :: nat

record jsonl_gate =
  gt_uncertain :: "session_persistence_error option"
  gt_writer :: bool

definition gate_default :: jsonl_gate where
  "gate_default = \<lparr>gt_uncertain = None, gt_writer = False\<rparr>"

record jsonl_plan =
  jp_stopping_now :: bool
  jp_worker :: worker
  jp_writer_directory :: "string option"
  jp_writer_open :: "string option"
  jp_lock :: lock_outcome
  jp_read :: "string option"
  jp_open :: "string option"
  jp_create_dir :: "string option"
  jp_open_append :: "string option"
  jp_write :: "(nat \<times> string) option"
  jp_flush :: "string option"
  jp_sync :: "string option"

definition jsonl_fault_free :: jsonl_plan where
  "jsonl_fault_free = \<lparr>jp_stopping_now = False, jp_worker = Joined, jp_writer_directory = None, jp_writer_open = None,
     jp_lock = Locked, jp_read = None, jp_open = None, jp_create_dir = None, jp_open_append = None, jp_write = None,
     jp_flush = None, jp_sync = None\<rparr>"

record jsonl_state =
  js_files :: "string \<Rightarrow> jsonl_file option"
  js_gates :: "session_id \<Rightarrow> jsonl_gate option"
  js_stopping :: bool
  js_inflight :: nat
  js_plans :: "jsonl_plan list"

record 'v event_codec =
  jc_encode :: "'v session_event \<Rightarrow> (string, string) outcome"
  jc_decode :: "string \<Rightarrow> ('v session_event, string) outcome"

type_synonym 'a persisted = "('a, session_persistence_error) outcome"

definition io_error :: "string \<Rightarrow> string \<Rightarrow> commit_certainty \<Rightarrow> session_persistence_error" where
  "io_error operation message certainty = PeIo operation message certainty"

text \<open>A call that may fail with nothing committed.\<close>

definition try_call :: "string \<Rightarrow> string option \<Rightarrow> unit persisted" where
  "try_call operation e =
     (case e of None \<Rightarrow> Ok () | Some message \<Rightarrow> Err (io_error operation message DefinitelyNotCommitted))"

lemma try_call_eq_Ok [simp]: "try_call operation e = Ok u \<longleftrightarrow> e = None"
  by (simp add: try_call_def split: option.splits)

lemma try_call_eq_Err: "try_call operation e = Err er \<longleftrightarrow>
    (\<exists>message. e = Some message \<and> er = io_error operation message DefinitelyNotCommitted)"
  by (auto simp: try_call_def split: option.splits)

lemma try_call_neq_Panic [simp]: "try_call operation e \<noteq> Panic"
  by (simp add: try_call_def split: option.splits)

section \<open>Admission of operations\<close>

definition persistence_stopping :: session_persistence_error where
  "persistence_stopping = PeIo ''admit_operation'' ''JSONL persistence is stopping'' DefinitelyNotCommitted"

text \<open>\<open>release\<close>; the flag is the wake-up of \<open>stop\<close>.\<close>

definition jsonl_release :: "'z jsonl_state_scheme \<Rightarrow> 'z jsonl_state_scheme \<times> bool" where
  "jsonl_release s = (s\<lparr>js_inflight := js_inflight s - 1\<rparr>, js_inflight s = 1)"

definition jsonl_admit :: "jsonl_plan \<Rightarrow> 'z jsonl_state_scheme \<Rightarrow> unit persisted \<times> 'z jsonl_state_scheme" where
  "jsonl_admit io s =
     (if js_stopping s then (Err persistence_stopping, s)
      else
        let s = s\<lparr>js_inflight := js_inflight s + 1\<rparr> in
        if jp_stopping_now io then (Err persistence_stopping, fst (jsonl_release (s\<lparr>js_stopping := True\<rparr>)))
        else (Ok (), s))"

text \<open>\<open>stop\<close> sets the flag and is ready when nothing is in flight.\<close>

definition jsonl_stop_begin :: "'z jsonl_state_scheme \<Rightarrow> 'z jsonl_state_scheme" where
  "jsonl_stop_begin s = s\<lparr>js_stopping := True\<rparr>"

definition jsonl_stop_ready :: "'z jsonl_state_scheme \<Rightarrow> bool" where
  "jsonl_stop_ready s \<longleftrightarrow> js_inflight s = 0"

section \<open>Reading a log\<close>

text \<open>\<open>split\<close> at newlines.\<close>

fun split_newlines :: "string \<Rightarrow> string list" where
  "split_newlines [] = [[]]"
| "split_newlines (c # cs) =
     (if c = newline then [] # split_newlines cs
      else (case split_newlines cs of [] \<Rightarrow> [[c]] | line # ls \<Rightarrow> (c # line) # ls))"

definition decode_record ::
    "'v event_codec \<Rightarrow> nat \<times> string \<Rightarrow> 'v session_event list \<Rightarrow> 'v session_event list persisted" where
  "decode_record codec = (\<lambda>(physical_index, rec) events.
     and_then (map_err (\<lambda>e. PeCorruptLog physical_index (''JSON record cannot be decoded: '' @ e))
       (jc_decode codec rec)) (\<lambda>event. Ok (events @ [event])))"

text \<open>\<open>fs::read\<close> fails on a file longer than a vector can be.\<close>

definition read_physical_log ::
    "'v event_codec \<Rightarrow> jsonl_plan \<Rightarrow> session_id \<Rightarrow> jsonl_file option \<Rightarrow> 'v session_event list persisted" where
  "read_physical_log codec io session f =
     and_then (try_call ''read'' (jp_read io)) (\<lambda>_.
     (case f of
        None \<Rightarrow> Ok []
      | Some file \<Rightarrow>
          let bytes = jx_content file in
          if \<not> in_width 63 (length bytes) then Err (io_error ''read'' ''out of memory'' DefinitelyNotCommitted)
          else if bytes = [] then Ok []
          else if last bytes \<noteq> newline
          then Err (PeCorruptLog (length (filter (\<lambda>byte. byte = newline) bytes))
            ''physical JSONL tail is not terminated by a newline'')
          else
            and_then (for_each (decode_record codec) (enumerate 0 (split_newlines (butlast bytes))) []) (\<lambda>events.
            and_then (map_err PeInvalidHistory (validate_physical_log session events)) (\<lambda>_. Ok events))))"

definition ensure_writer :: "jsonl_plan \<Rightarrow> jsonl_gate \<Rightarrow> unit persisted \<times> jsonl_gate" where
  "ensure_writer io g =
     (if gt_writer g then (Ok (), g)
      else
        (case and_then (try_call ''writer_directory'' (jp_writer_directory io)) (\<lambda>_.
              and_then (try_call ''writer_open'' (jp_writer_open io)) (\<lambda>_.
              (case jp_lock io of
                 Locked \<Rightarrow> Ok ()
               | WouldBlock \<Rightarrow> Err (PeIo ''session_writer_lock'' ''Session has a live writer or recovery owner''
                   DefinitelyNotCommitted)
               | LockError message \<Rightarrow> Err (PeIo ''session_writer_lock'' message DefinitelyNotCommitted)))) of
           Ok _ \<Rightarrow> (Ok (), g\<lparr>gt_writer := True\<rparr>)
         | r \<Rightarrow> (r, g)))"

section \<open>Jobs\<close>

text \<open>A job works on the Session's file and gate.\<close>

type_synonym 'a session_job = "jsonl_file option \<times> jsonl_gate \<Rightarrow> 'a persisted \<times> jsonl_file option \<times> jsonl_gate"

definition sync_file :: "jsonl_file option \<Rightarrow> jsonl_file option" where
  "sync_file f = map_option (\<lambda>file. file\<lparr>jx_synced := length (jx_content file)\<rparr>) f"

definition latch_indeterminate :: "jsonl_gate \<Rightarrow> string \<Rightarrow> string \<Rightarrow> session_persistence_error \<times> jsonl_gate" where
  "latch_indeterminate g operation message =
     (let failure = io_error operation message Indeterminate in (failure, g\<lparr>gt_uncertain := Some failure\<rparr>))"

text \<open>\<open>sync_data\<close> on the open file; a failure is latched.\<close>

definition sync_job :: "jsonl_plan \<Rightarrow> string \<Rightarrow> 'a \<Rightarrow> jsonl_file option \<times> jsonl_gate
    \<Rightarrow> 'a persisted \<times> jsonl_file option \<times> jsonl_gate" where
  "sync_job io operation a = (\<lambda>(f, g).
     (case jp_sync io of
        Some message \<Rightarrow> let (failure, g) = latch_indeterminate g operation message in (Err failure, f, g)
      | None \<Rightarrow> (Ok a, sync_file f, g)))"

text \<open>The part both jobs begin with: the writer lock, the latch and the log.\<close>

definition guarded_log ::
    "'v event_codec \<Rightarrow> jsonl_plan \<Rightarrow> session_id \<Rightarrow> jsonl_file option \<times> jsonl_gate
       \<Rightarrow> 'v session_event list persisted \<times> jsonl_gate" where
  "guarded_log codec io session = (\<lambda>(f, g).
     (case ensure_writer io g of
        (Ok _, g) \<Rightarrow>
          (case gt_uncertain g of
             Some e \<Rightarrow> (Err e, g)
           | None \<Rightarrow> (read_physical_log codec io session f, g))
      | (Err e, g) \<Rightarrow> (Err e, g)
      | (Panic, g) \<Rightarrow> (Panic, g)))"

definition load_job :: "'v event_codec \<Rightarrow> jsonl_plan \<Rightarrow> session_id \<Rightarrow> 'v session_event list session_job" where
  "load_job codec io session = (\<lambda>(f, g).
     (case guarded_log codec io session (f, g) of
        (Ok events, g) \<Rightarrow>
          if events = [] then (Ok events, f, g)
          else
            (case try_call ''load_open'' (jp_open io) of
               Ok _ \<Rightarrow> sync_job io ''load_sync_data'' events (f, g)
             | Err e \<Rightarrow> (Err e, f, g)
             | Panic \<Rightarrow> (Panic, f, g))
      | (Err e, g) \<Rightarrow> (Err e, f, g)
      | (Panic, g) \<Rightarrow> (Panic, f, g)))"

text \<open>\<open>write_all\<close>, \<open>flush\<close> and \<open>sync_data\<close> of the line, under the latch.\<close>

definition append_line :: "jsonl_plan \<Rightarrow> string \<Rightarrow> persist_append_outcome session_job" where
  "append_line io line = (\<lambda>(f, g).
     let file = (case f of None \<Rightarrow> \<lparr>jx_content = [], jx_synced = 0\<rparr> | Some file \<Rightarrow> file);
         g = g\<lparr>gt_uncertain := Some (PeIo ''commit_in_progress''
           ''durable outcome is unknown until sync_data succeeds'' Indeterminate)\<rparr> in
     (case jp_write io of
        Some (n, message) \<Rightarrow>
          let (failure, g) = latch_indeterminate g ''write_all'' message in
          (Err failure, Some (file\<lparr>jx_content := jx_content file @ take n line\<rparr>), g)
      | None \<Rightarrow>
          let file = file\<lparr>jx_content := jx_content file @ line\<rparr> in
          (case jp_flush io of
             Some message \<Rightarrow> let (failure, g) = latch_indeterminate g ''flush'' message in (Err failure, Some file, g)
           | None \<Rightarrow>
               (case sync_job io ''sync_data'' Appended (Some file, g) of
                  (Ok a, f, g) \<Rightarrow> (Ok a, f, g\<lparr>gt_uncertain := None\<rparr>)
                | r \<Rightarrow> r))))"

text \<open>Decimal digits, as \<open>Display\<close> writes a number.\<close>

fun decimal :: "nat \<Rightarrow> string" where
  "decimal n = (if n < 10 then [hex_digit n] else decimal (n div 10) @ [hex_digit (n mod 10)])"

declare decimal.simps [simp del]

definition commit_job :: "'v event_codec \<Rightarrow> jsonl_plan \<Rightarrow> 'v session_event \<Rightarrow> persist_append_outcome session_job" where
  "commit_job codec io event = (\<lambda>(f, g).
     (case map_err PeSerialization (jc_encode codec event) of
        Err e \<Rightarrow> (Err e, f, g)
      | Panic \<Rightarrow> (Panic, f, g)
      | Ok text \<Rightarrow>
          let line = text @ [newline] in
          (case guarded_log codec io (se_session_id event) (f, g) of
             (Err e, g) \<Rightarrow> (Err e, f, g)
           | (Panic, g) \<Rightarrow> (Panic, f, g)
           | (Ok events, g) \<Rightarrow>
               (case find (\<lambda>existing. se_event_id existing = se_event_id event) events of
                  Some existing \<Rightarrow>
                    if existing = event then
                      (case try_call ''replay_open'' (jp_open io) of
                         Ok _ \<Rightarrow> sync_job io ''replay_sync_data'' ReplayedExact (f, g)
                       | Err e \<Rightarrow> (Err e, f, g)
                       | Panic \<Rightarrow> (Panic, f, g))
                    else
                      (Err (PeConflict (se_seq event) (se_event_id event)
                        (''event ID is already durable at sequence '' @ decimal (unat (se_seq existing)) @
                         '' with different content'')), f, g)
                | None \<Rightarrow>
                    let requested_index = unat (se_seq event) in
                    if requested_index \<noteq> length events then
                      (Err (PeConflict (se_seq event) (se_event_id event)
                        (if requested_index < length events
                         then ''durable sequence '' @ decimal (unat (se_seq event)) @ '' is occupied by event '' @
                           se_event_id (events ! requested_index)
                         else ''sequence is not the expected durable head '' @ decimal (length events))), f, g)
                    else
                      (case and_then (try_call ''create_dir_all'' (jp_create_dir io)) (\<lambda>_.
                            try_call ''open_append'' (jp_open_append io)) of
                         Ok _ \<Rightarrow> append_line io line (f, g)
                       | Err e \<Rightarrow> (Err e, f, g)
                       | Panic \<Rightarrow> (Panic, f, g))))))"

section \<open>The operations of the trait\<close>

definition next_jsonl_plan :: "'z jsonl_state_scheme \<Rightarrow> jsonl_plan \<times> 'z jsonl_state_scheme" where
  "next_jsonl_plan s =
     (case js_plans s of [] \<Rightarrow> (jsonl_fault_free, s) | io # plans \<Rightarrow> (io, s\<lparr>js_plans := plans\<rparr>))"

definition gate_for :: "session_id \<Rightarrow> 'z jsonl_state_scheme \<Rightarrow> jsonl_gate" where
  "gate_for session s = (case js_gates s session of None \<Rightarrow> gate_default | Some g \<Rightarrow> g)"

definition set_gate :: "session_id \<Rightarrow> jsonl_gate \<Rightarrow> 'z jsonl_state_scheme \<Rightarrow> 'z jsonl_state_scheme" where
  "set_gate session g s = s\<lparr>js_gates := (js_gates s)(session \<mapsto> g)\<rparr>"

text \<open>
  A job runs on a blocking worker with the permit. A worker that is lost or panics is a
  \<open>JoinError\<close>; \<open>lost\<close> says what the caller makes of it.
\<close>

definition run_session_job ::
    "session_id \<Rightarrow> (string \<Rightarrow> session_persistence_error) \<Rightarrow> (jsonl_plan \<Rightarrow> 'a session_job) \<Rightarrow> 'z jsonl_state_scheme
       \<Rightarrow> ('a persisted \<times> bool) \<times> 'z jsonl_state_scheme" where
  "run_session_job session lost job s =
     (let (io, s) = next_jsonl_plan s in
      (case jsonl_admit io s of
         (Err e, s) \<Rightarrow> ((Err e, False), s)
       | (Panic, s) \<Rightarrow> ((Panic, False), s)
       | (Ok _, s) \<Rightarrow>
           let s = set_gate session (gate_for session s) s in
           (case jp_worker io of
              LostBefore message \<Rightarrow> ((Err (lost message), True), fst (jsonl_release s))
            | worker \<Rightarrow>
                let (r, f, g) = job io (js_files s (session_file_name session), gate_for session s);
                    s = set_gate session g (s\<lparr>js_files := (js_files s)(session_file_name session := f)\<rparr>);
                    s = fst (jsonl_release s) in
                (case (worker, r) of
                   (LostAfter message, _) \<Rightarrow> ((Err (lost message), True), s)
                 | (_, Panic) \<Rightarrow> ((Err (lost ''task panicked''), True), s)
                 | _ \<Rightarrow> ((r, False), s)))))"

definition jsonl_load ::
    "'v event_codec \<Rightarrow> session_id \<Rightarrow> 'z jsonl_state_scheme \<Rightarrow> 'v session_event list persisted \<times> 'z jsonl_state_scheme" where
  "jsonl_load codec session s =
     (let ((r, _), s) = run_session_job session
        (\<lambda>message. PeIo ''load_blocking_task'' message DefinitelyNotCommitted) (\<lambda>io. load_job codec io session) s in (r, s))"

definition jsonl_commit ::
    "'v event_codec \<Rightarrow> 'v session_event \<Rightarrow> 'z jsonl_state_scheme \<Rightarrow> persist_append_outcome persisted \<times> 'z jsonl_state_scheme" where
  "jsonl_commit codec event s =
     (let session = se_session_id event;
          ((r, lost), s) = run_session_job session
            (\<lambda>message. PeIo ''commit_blocking_task'' message Indeterminate) (\<lambda>io. commit_job codec io event) s in
      (r, if lost
          then set_gate session ((gate_for session s)\<lparr>gt_uncertain := (case r of Err e \<Rightarrow> Some e | _ \<Rightarrow> None)\<rparr>) s
          else s))"

definition jsonl_persistence :: "'v event_codec \<Rightarrow> ('v, 'z jsonl_state_scheme) session_persistence" where
  "jsonl_persistence codec = \<lparr>sp_load = jsonl_load codec, sp_commit = jsonl_commit codec\<rparr>"

text \<open>
  \<open>JsonlRecoveryOwnership::acquire\<close>: a provider of its own, with no gates, loads the log and keeps
  the writer lock. The new owner id is an argument.
\<close>

definition acquire_recovery ::
    "'v event_codec \<Rightarrow> session_id \<Rightarrow> string \<Rightarrow> 'z jsonl_state_scheme
       \<Rightarrow> (session_id \<times> string) persisted \<times> 'z jsonl_state_scheme" where
  "acquire_recovery codec session new_id s =
     (let s = s\<lparr>js_gates := (\<lambda>_. None), js_stopping := False, js_inflight := 0\<rparr> in
      (case jsonl_load codec session s of
         (Ok _, s) \<Rightarrow> (Ok (session, new_id), s)
       | (Err e, s) \<Rightarrow> (Err e, s)
       | (Panic, s) \<Rightarrow> (Panic, s)))"

end
