(* ===== verification/SessionCoordinatorInv.thy ===== *)
theory SessionCoordinatorInv
  imports SessionCoordinator
begin

text \<open>
  Runs of a Session coordinator and their invariant: the log is physical, the lease belongs to the
  last turn granted, and what was recorded since that turn's admission is its own. Nothing is
  assumed here of the provider or of what the world does between two commands.
\<close>

section \<open>Runs\<close>

text \<open>
  A run serves commands and records each with its replies; between two commands the world may
  change in any way \<open>rely\<close> allows.
\<close>

inductive session_run ::
    "session_id \<Rightarrow> ('v, 'w) session_persistence \<Rightarrow> ('v, 'w) coordinator_env \<Rightarrow> ('w \<Rightarrow> 'w \<Rightarrow> bool)
       \<Rightarrow> 'w \<Rightarrow> ('v command \<times> 'v reply list) list \<Rightarrow> 'v coordinator_state \<Rightarrow> 'w \<Rightarrow> bool"
  for session p env rely w0 where
  run_start: "session_run session p env rely w0 [] coordinator_default w0"
| run_world: "session_run session p env rely w0 tr st w \<Longrightarrow> rely w w' \<Longrightarrow>
    session_run session p env rely w0 tr st w'"
| run_command: "session_run session p env rely w0 tr st w \<Longrightarrow> \<not> co_unwound st \<Longrightarrow>
    handle_command session p env st c w = (replies, st', w') \<Longrightarrow>
    session_run session p env rely w0 (tr @ [(c, replies)]) st' w'"

lemma serve_commands_run:
  "session_run session p env rely w0 tr st w \<Longrightarrow> serve_commands session p env (tr, st, w) cs = (tr', st', w') \<Longrightarrow>
     session_run session p env rely w0 tr' st' w'"
proof (induction cs arbitrary: tr st w)
  case (Cons c cs)
  then show ?case by (auto split: if_splits prod.splits intro: run_command)
qed simp

fun reply_grants :: "'v reply list \<Rightarrow> 'v admission_grant list" where
  "reply_grants [] = []"
| "reply_grants (ReplyBegin _ (Ok g) # replies) = g # reply_grants replies"
| "reply_grants (_ # replies) = reply_grants replies"

text \<open>The turns granted in a run, in order.\<close>

definition turns_granted :: "('v command \<times> 'v reply list) list \<Rightarrow> 'v admission_grant list" where
  "turns_granted tr = concat (map (reply_grants \<circ> snd) tr)"

text \<open>The events a run acknowledged.\<close>

definition acknowledged :: "('v command \<times> 'v reply list) list \<Rightarrow> 'v session_event set" where
  "acknowledged tr = {e. \<exists>(c, replies) \<in> set tr. \<exists>n. ReplyAppend n (Ok e) \<in> set replies}"

lemma turns_granted_Nil [simp]: "turns_granted [] = []"
  by (simp add: turns_granted_def)

lemma turns_granted_snoc [simp]: "turns_granted (tr @ [(c, replies)]) = turns_granted tr @ reply_grants replies"
  by (simp add: turns_granted_def)

lemma acknowledged_Nil [simp]: "acknowledged [] = {}"
  by (simp add: acknowledged_def)

lemma acknowledged_snoc [simp]:
  "acknowledged (tr @ [(c, replies)]) = acknowledged tr \<union> {e. \<exists>n. ReplyAppend n (Ok e) \<in> set replies}"
  by (auto simp: acknowledged_def)

lemma reply_grants_append [simp]: "reply_grants (xs @ ys) = reply_grants xs @ reply_grants ys"
  by (induction xs rule: reply_grants.induct) auto

lemma reply_grants_send [simp]:
  "reply_grants (send env w n (ReplyBegin n (Err e))) = []"
  "reply_grants (send env w n (ReplyAppend n r)) = []"
  "reply_grants (send env w n (ReplySettle n s)) = []"
  by (simp_all add: send_def)

lemma set_send: "x \<in> set (send env w n reply) \<Longrightarrow> x = reply"
  by (auto simp: send_def split: if_splits)

section \<open>The invariant\<close>

definition log_wf :: "session_id \<Rightarrow> 'v coordinator_state \<Rightarrow> bool" where
  "log_wf session st \<longleftrightarrow> physical_log session (co_events st) \<and>
     (co_loaded st \<or> co_events st = [] \<and> co_active st = None)"

text \<open>What a turn recorded: its own events, the last of them at most its terminal event.\<close>

definition turn_events_wf :: "active_turn \<Rightarrow> 'v session_event list \<Rightarrow> bool" where
  "turn_events_wf a events \<longleftrightarrow>
     (\<forall>e \<in> set events. se_turn_id e = at_turn_id a) \<and>
     (\<forall>e \<in> set (butlast events). \<not> terminal_kind (se_kind e)) \<and>
     at_terminal_seq a = (if events \<noteq> [] \<and> terminal_kind (se_kind (last events)) then Some (se_seq (last events)) else None)"

definition lease_of :: "'v admission_grant \<Rightarrow> active_turn \<Rightarrow> 'v session_event list \<Rightarrow> bool" where
  "lease_of g a log \<longleftrightarrow> at_token a = ag_token g \<and> at_turn_id a = ta_turn_id (ag_admission g) \<and>
     at_start_seq a = length (ta_history (ag_admission g)) \<and>
     prefix (ta_history (ag_admission g)) log \<and> turn_events_wf a (drop (at_start_seq a) log)"

definition session_inv :: "session_id \<Rightarrow> 'v admission_grant list \<Rightarrow> 'v coordinator_state \<Rightarrow> bool" where
  "session_inv session gs st \<longleftrightarrow> log_wf session st \<and>
     sorted_wrt (<) (map ag_token gs) \<and> (\<forall>g \<in> set gs. ag_token g < co_next_token st) \<and>
     (\<forall>a. co_active st = Some a \<longrightarrow> gs \<noteq> [] \<and> lease_of (last gs) a (co_events st))"

lemma session_inv_default [simp]: "session_inv session [] coordinator_default"
  by (simp add: session_inv_def log_wf_def coordinator_default_def)

text \<open>The parts of the state the invariant does not read.\<close>

lemma session_inv_update [simp]:
  "session_inv session gs (st\<lparr>co_pending := q\<rparr>) \<longleftrightarrow> session_inv session gs st"
  "session_inv session gs (st\<lparr>co_poisoned := x\<rparr>) \<longleftrightarrow> session_inv session gs st"
  "session_inv session gs (unwind st) \<longleftrightarrow> session_inv session gs st"
  by (simp_all add: session_inv_def log_wf_def unwind_def)

lemma unwind_simps [simp]:
  "co_active (unwind st) = co_active st" "co_events (unwind st) = co_events st"
  "co_poisoned (unwind st) = co_poisoned st" "co_next_token (unwind st) = co_next_token st"
  by (simp_all add: unwind_def)

lemma session_inv_release: "session_inv session gs st \<Longrightarrow> session_inv session gs (st\<lparr>co_active := None\<rparr>)"
  by (auto simp: session_inv_def log_wf_def)

section \<open>Admission keeps it\<close>

lemma ensure_loaded_cases:
  assumes "ensure_loaded session p st w = (r, st', w')"
  obtains "st' = st" | events where "\<not> co_loaded st" "physical_log session events"
    "sp_load p session w = (Ok events, w')" "r = Ok ()" "st' = st\<lparr>co_events := events, co_loaded := True\<rparr>"
  using assms
  by (auto simp: ensure_loaded_def validate_physical_log_Ok split: if_splits prod.splits outcome.splits)

lemma ensure_loaded_inv:
  assumes "ensure_loaded session p st w = (r, st', w')" and "session_inv session gs st"
  shows "session_inv session gs st' \<and> (co_active st = None \<longrightarrow> co_active st' = None) \<and> (r = Ok () \<longrightarrow> co_loaded st')"
proof -
  have loaded: "r = Ok () \<longrightarrow> co_loaded st'"
    using assms(1) by (auto simp: ensure_loaded_def split: if_splits prod.splits outcome.splits)
  show ?thesis
    using assms(1)
  proof (cases rule: ensure_loaded_cases)
    case 1
    with assms(2) loaded show ?thesis by simp
  next
    case (2 events)
    with assms(2) show ?thesis by (auto simp: session_inv_def log_wf_def)
  qed
qed

lemma checked_add_one: "checked_add (t :: u64) 1 = Some n \<Longrightarrow> t < n"
  by (simp add: checked_add_Some_iff word_less_nat_alt)

lemma grant_turn_inv:
  assumes "grant_turn session env st response w = (b, replies, st', w')"
    and "session_inv session gs st" and "co_active st = None" and "co_loaded st"
  shows "session_inv session (gs @ reply_grants replies) st' \<and> (\<not> b \<longrightarrow> reply_grants replies = [] \<and> co_active st' = None) \<and>
    w' = w \<and> co_events st' = co_events st"
proof -
  have burn: "session_inv session gs (st\<lparr>co_next_token := n\<rparr>)"
    if "checked_add (co_next_token st) 1 = Some n" for n
    using assms(2,3) checked_add_one [OF that] by (auto simp: session_inv_def log_wf_def intro: less_trans)
  have fresh: "session_inv session
      (gs @ [\<lparr>ag_admission = \<lparr>ta_session_id = session, ta_turn_id = t, ta_history = co_events st\<rparr>, ag_token = co_next_token st\<rparr>])
      (st\<lparr>co_next_token := n, co_active := Some \<lparr>at_token = co_next_token st, at_turn_id = t,
         at_start_seq = length (co_events st), at_terminal_seq = None\<rparr>\<rparr>)"
    if "checked_add (co_next_token st) 1 = Some n" for n t
    using assms(2,4) checked_add_one [OF that]
    by (auto simp: session_inv_def log_wf_def sorted_wrt_append lease_of_def turn_events_wf_def intro: less_trans)
  show ?thesis
  proof (cases "ce_stopping env w \<or> \<not> ce_handle_alive env w \<or> checked_add (co_next_token st) 1 = None")
    case True
    then show ?thesis using assms(1-3) by (auto simp: grant_turn_def split: if_splits)
  next
    case False
    then obtain n where n: "checked_add (co_next_token st) 1 = Some n" by auto
    show ?thesis
      using assms(1) False n fresh [OF n] session_inv_release [OF burn [OF n]]
      by (auto simp: grant_turn_def Let_def split: if_splits)
  qed
qed

lemma admit_turn_cases:
  assumes "admit_turn session p env st response w = (b, replies, st', w')"
  obtains (refused) "st' = st" "w' = w" "\<not> b" "reply_grants replies = []"
  | (failed) r st1 where "ensure_loaded session p st w = (r, st1, w')" "st' = st1 \<or> st' = unwind st1" "\<not> b"
      "reply_grants replies = []"
  | (loaded) st1 w1 where "ensure_loaded session p st w = (Ok (), st1, w1)"
      "grant_turn session env st1 response w1 = (b, replies, st', w')"
proof (cases "ce_is_closed env response w \<or> ce_stopping env w \<or> co_poisoned st \<noteq> None")
  case True
  then show thesis using assms refused by (auto simp: admit_turn_def split: if_splits)
next
  case False
  obtain r st1 w1 where e: "ensure_loaded session p st w = (r, st1, w1)" by (cases "ensure_loaded session p st w") auto
  show thesis
    using assms False e failed [of r st1] loaded [of st1 w1] by (cases r) (auto simp: admit_turn_def)
qed

lemma admit_turn_inv:
  assumes "admit_turn session p env st response w = (b, replies, st', w')"
    and "session_inv session gs st" and "co_active st = None"
  shows "session_inv session (gs @ reply_grants replies) st' \<and> (\<not> b \<longrightarrow> reply_grants replies = [] \<and> co_active st' = None)"
  using assms(1)
proof (cases rule: admit_turn_cases)
  case refused
  then show ?thesis using assms(2,3) by simp
next
  case (failed r st1)
  from ensure_loaded_inv [OF failed(1) assms(2)] failed(2-4) assms(3) show ?thesis by auto
next
  case (loaded st1 w1)
  from ensure_loaded_inv [OF loaded(1) assms(2)] assms(3)
  have "session_inv session gs st1" "co_active st1 = None" "co_loaded st1" by auto
  from grant_turn_inv [OF loaded(2) this] show ?thesis by blast
qed

lemma reject_pending_inv:
  assumes "reject_pending env st w = (replies, st', w')" and "session_inv session gs st"
  shows "session_inv session (gs @ reply_grants replies) st' \<and> reply_grants replies = [] \<and> w' = w \<and>
    co_events st' = co_events st"
proof -
  have "reply_grants (concat (map (\<lambda>n. send env w n (ReplyBegin n (Err RtStopped))) ns)) = []" for ns :: "nat list"
    by (induction ns) auto
  then show ?thesis using assms by (auto simp: reject_pending_def)
qed

lemma grant_loop_inv:
  assumes "grant_loop session p env st pending w = (replies, st', w')" and "session_inv session gs st"
  shows "session_inv session (gs @ reply_grants replies) st'"
  using assms
proof (induction session p env st pending w arbitrary: replies st' w' rule: grant_loop.induct)
  case (2 session p env st response pending w)
  show ?case
  proof (cases "co_active st \<noteq> None \<or> co_unwound st")
    case True
    then show ?thesis using 2(3,4) by auto
  next
    case open': False
    show ?thesis
    proof (cases "ce_is_closed env response w")
      case True
      then show ?thesis using open' 2(1) 2(3,4) by simp
    next
      case False
      obtain b rs st1 w1 where a: "admit_turn session p env (st\<lparr>co_pending := pending\<rparr>) response w = (b, rs, st1, w1)"
        by (cases "admit_turn session p env (st\<lparr>co_pending := pending\<rparr>) response w") auto
      have k: "session_inv session (gs @ reply_grants rs) st1 \<and> (\<not> b \<longrightarrow> reply_grants rs = [] \<and> co_active st1 = None)"
        using admit_turn_inv [OF a] 2(4) open' by auto
      show ?thesis
      proof (cases b)
        case True
        then show ?thesis using 2(3) open' False a k by auto
      next
        case neg: False
        obtain rs2 st2 w2 where l: "grant_loop session p env st1 pending w1 = (rs2, st2, w2)"
          by (cases "grant_loop session p env st1 pending w1") auto
        have "session_inv session (gs @ reply_grants rs2) st2"
          using 2(2) [OF open' False a [symmetric] _ _ _ l] neg k by auto
        then show ?thesis using 2(3) open' False a l k neg by auto
      qed
    qed
  qed
qed auto

text \<open>What every admission keeps, the loop keeps.\<close>

lemma grant_loop_keeps:
  assumes "grant_loop session p env st pending w = (replies, st', w')" and "Q st w"
    and "\<And>st w q. Q st w \<Longrightarrow> Q (st\<lparr>co_pending := q\<rparr>) w"
    and "\<And>st w n b rs st' w'. Q st w \<Longrightarrow> admit_turn session p env st n w = (b, rs, st', w') \<Longrightarrow> Q st' w'"
  shows "Q st' w'"
  using assms
proof (induction session p env st pending w arbitrary: replies st' w' rule: grant_loop.induct)
  case (1 session p env st w)
  then show ?case by auto
next
  case (2 session p env st response pending w)
  obtain b rs st1 w1 where a: "admit_turn session p env (st\<lparr>co_pending := pending\<rparr>) response w = (b, rs, st1, w1)"
    by (cases "admit_turn session p env (st\<lparr>co_pending := pending\<rparr>) response w") auto
  have q: "Q st1 w1" using 2(6) [OF 2(5) [OF 2(4)] a] .
  obtain rs2 st2 w2 where l: "grant_loop session p env st1 pending w1 = (rs2, st2, w2)"
    by (cases "grant_loop session p env st1 pending w1") auto
  show ?case
  proof (cases "co_active st \<noteq> None \<or> co_unwound st")
    case True
    then show ?thesis using 2(3) 2(5) [OF 2(4)] by auto
  next
    case idle: False
    show ?thesis
    proof (cases "ce_is_closed env response w")
      case True
      then have "grant_loop session p env st pending w = (replies, st', w')" using idle 2(3) by simp
      from 2(1) [OF idle True this 2(4-6)] show ?thesis .
    next
      case False
      show ?thesis
      proof (cases b)
        case True
        then show ?thesis using 2(3) idle False a 2(5) [OF q] by auto
      next
        case neg: False
        have "Q st2 w2"
          by (rule 2(2) [OF idle False a [symmetric] _ _ _ l q 2(5,6)]) (use neg in simp_all)
        then show ?thesis using 2(3) idle False a l neg by auto
      qed
    qed
  qed
qed

lemma grant_pending_inv:
  assumes "grant_pending session p env st w = (replies, st', w')" and "session_inv session gs st"
  shows "session_inv session (gs @ reply_grants replies) st'"
  using assms reject_pending_inv [of env st w replies st' w' session gs] grant_loop_inv
  by (auto simp: grant_pending_def split: if_splits)

section \<open>Appends keep it\<close>

lemma named_turn_Some:
  "named_turn token turn_id st = Some a \<longleftrightarrow> co_active st = Some a \<and> at_token a = token \<and> at_turn_id a = turn_id"
  by (auto simp: named_turn_def split: option.splits)

text \<open>The next event of the active turn, before its terminal event.\<close>

definition next_event :: "session_id \<Rightarrow> 'v coordinator_state \<Rightarrow> 'v session_event \<Rightarrow> bool" where
  "next_event session st e \<longleftrightarrow>
     (\<exists>a. co_active st = Some a \<and> at_terminal_seq a = None \<and> se_turn_id e = at_turn_id a) \<and>
     se_session_id e = session \<and> se_seq e = of_nat (length (co_events st)) \<and>
     se_event_id e \<notin> se_event_id ` set (co_events st)"

definition record_event :: "'v coordinator_state \<Rightarrow> 'v session_event \<Rightarrow> 'v coordinator_state" where
  "record_event st e = mark_terminal (st\<lparr>co_events := co_events st @ [e]\<rparr>) e"

lemma record_event_events [simp]: "co_events (record_event st e) = co_events st @ [e]"
  by (auto simp: record_event_def mark_terminal_def split: option.splits)

lemma turn_events_wf_snoc:
  assumes "turn_events_wf a events" and "at_terminal_seq a = None" and "se_turn_id e = at_turn_id a"
  shows "turn_events_wf (if terminal_kind (se_kind e) then a\<lparr>at_terminal_seq := Some (se_seq e)\<rparr> else a) (events @ [e])"
proof -
  have "\<not> terminal_kind (se_kind e')" if "e' \<in> set events" for e'
  proof (cases events rule: rev_cases)
    case (snoc es x)
    then show ?thesis using assms(1,2) that by (auto simp: turn_events_wf_def split: if_splits)
  qed (use that in simp)
  then show ?thesis using assms by (auto simp: turn_events_wf_def)
qed

lemma record_event_inv:
  assumes inv: "session_inv session gs st" and e: "next_event session st e"
  shows "session_inv session gs (record_event st e)"
proof -
  from e obtain a where a: "co_active st = Some a" "at_terminal_seq a = None" "se_turn_id e = at_turn_id a"
    by (auto simp: next_event_def)
  have l: "lease_of (last gs) a (co_events st)" and gs: "gs \<noteq> []" using inv a(1) by (auto simp: session_inv_def)
  define a' where "a' = (if terminal_kind (se_kind e) then a\<lparr>at_terminal_seq := Some (se_seq e)\<rparr> else a)"
  have act: "co_active (record_event st e) = Some a'" "co_loaded (record_event st e) = co_loaded st"
    "co_next_token (record_event st e) = co_next_token st"
    using a by (auto simp: record_event_def mark_terminal_def a'_def)
  have start: "at_start_seq a \<le> length (co_events st)"
    using l by (auto simp: lease_of_def dest: prefix_length_le)
  have "turn_events_wf a (drop (at_start_seq a) (co_events st))" using l unfolding lease_of_def by blast
  from turn_events_wf_snoc [OF this a(2,3)] start
  have t: "turn_events_wf a' (drop (at_start_seq a) (co_events st @ [e]))"
    by (simp add: a'_def del: if_split)
  have keep: "at_start_seq a' = at_start_seq a" "at_token a' = at_token a" "at_turn_id a' = at_turn_id a"
    by (simp_all add: a'_def)
  have "lease_of (last gs) a' (co_events st @ [e])"
    using l t unfolding lease_of_def keep by (auto intro: prefix_order.trans)
  moreover have "physical_log session (co_events st @ [e])"
    using inv e by (simp add: physical_log_snoc session_inv_def log_wf_def next_event_def)
  ultimately show ?thesis
    using inv gs act a by (auto simp: session_inv_def log_wf_def)
qed

text \<open>What reconciling and committing can do to the state.\<close>

lemma reconcile_cases:
  assumes "reconcile_indeterminate session p env st e e0 w = (r, st', w')"
  obtains (recorded) w1 where "r = Ok e" "st' = record_event st e"
      "sp_load p session w = (Ok (co_events st @ [e]), w1)" "w' = observe_all env e w1"
  | (absent) "r = Err (RtPersistence (proven_absent e0))" "st' = st" "sp_load p session w = (Ok (co_events st), w')"
  | (poisoned) f where "\<not> is_ok r" "st' = st\<lparr>co_poisoned := Some f\<rparr>" "w' = snd (sp_load p session w)"
  | (unwound) "r = Panic" "st' = unwind st" "w' = snd (sp_load p session w)"
proof (cases "sp_load p session w")
  case (Pair l w1)
  show thesis
  proof (cases "\<exists>u restored. l = Ok restored \<and> validate_physical_log session restored = Ok u \<and>
      restored \<noteq> co_events st \<and> length restored = length (co_events st) + 1 \<and>
      take (length (co_events st)) restored = co_events st \<and> restored ! length (co_events st) = e")
    case True
    then obtain restored where r: "l = Ok restored" "validate_physical_log session restored = Ok ()"
      "restored \<noteq> co_events st" "length restored = length (co_events st) + 1"
      "take (length (co_events st)) restored = co_events st" "restored ! length (co_events st) = e" by auto
    then have eq: "restored = co_events st @ [e]"
      by (metis Suc_eq_plus1 lessI take_Suc_conv_app_nth take_all_iff order_refl)
    show thesis
      by (rule recorded [of w1]) (use assms Pair r eq in \<open>auto simp: reconcile_indeterminate_def record_event_def\<close>)
  next
    case False
    then show thesis
      using assms Pair absent poisoned unwound
      by (cases l) (auto simp: reconcile_indeterminate_def Let_def split: if_splits outcome.splits)
  qed
qed

lemma commit_cases:
  assumes "commit_event session p env st e w = (r, st', w')"
  obtains (recorded) o' w1 where "r = Ok e" "st' = record_event st e" "sp_commit p e w = (Ok o', w1)"
      "w' = (if o' = Appended then observe_all env e w1 else w1)"
  | (reconciled) op msg w1 where "sp_commit p e w = (Err (PeIo op msg Indeterminate), w1)"
      "reconcile_indeterminate session p env st e (PeIo op msg Indeterminate) w1 = (r, st', w')"
  | (refused) er x where "sp_commit p e w = (Err er, w')" "\<And>op msg. er \<noteq> PeIo op msg Indeterminate"
      "r = Err (RtPersistence er)" "st' = st\<lparr>co_poisoned := x\<rparr>" "co_poisoned st \<noteq> None \<longrightarrow> x \<noteq> None"
  | (unwound) "r = Panic" "st' = unwind st" "w' = snd (sp_commit p e w)"
proof (cases "sp_commit p e w")
  case (Pair l w1)
  have same: "st = st\<lparr>co_poisoned := co_poisoned st\<rparr>" by simp
  show thesis
  proof (cases l)
    case (Ok o')
    show thesis
      by (rule recorded [of o' w1]) (use assms Pair Ok in
        \<open>auto simp: commit_event_def record_event_def split: persist_append_outcome.splits\<close>)
  next
    case (Err er)
    show thesis
    proof (cases er)
      case (PeIo op msg c)
      show thesis
      proof (cases c)
        case Indeterminate
        then show thesis using reconciled [of op msg w1] assms Pair Err PeIo by (simp add: commit_event_def)
      next
        case DefinitelyNotCommitted
        then show thesis using refused [of er "co_poisoned st"] assms Pair Err PeIo by (simp add: commit_event_def)
      qed
    next
      case (PeSerialization m)
      then show thesis using refused [of er "co_poisoned st"] assms Pair Err by (simp add: commit_event_def)
    qed (use refused [of er "Some (PoisonPersistence er)"] assms Pair Err in \<open>simp_all add: commit_event_def\<close>)
  next
    case Panic
    then show thesis using unwound assms Pair by (simp add: commit_event_def)
  qed
qed

lemma commit_event_inv:
  assumes "commit_event session p env st e w = (r, st', w')"
    and "session_inv session gs st" and "next_event session st e"
  shows "session_inv session gs st'"
  using assms(1)
proof (cases rule: commit_cases)
  case (reconciled op msg w1)
  from this(2) show ?thesis
    by (cases rule: reconcile_cases) (use assms(2,3) record_event_inv in auto)
qed (use assms(2,3) record_event_inv in auto)

text \<open>An append is answered from the log, commits the next event, or is refused with no effect.\<close>

lemma append_event_cases:
  assumes "append_event session p env st token turn_id draft w = (r, st', w')" and "session_inv session gs st"
  obtains (replayed) e where "r = Ok e" "st' = st" "w' = w" "e \<in> set (co_events st)" "co_poisoned st = None"
  | (committed) e where "next_event session st e" "co_poisoned st = None" "in_width 64 (length (co_events st))"
      "commit_event session p env st e w = (r, st', w')"
  | (rejected) "\<not> is_ok r" "st' = st" "w' = w"
proof (cases "named_turn token turn_id st")
  case None
  then show thesis using rejected assms by (auto simp: append_event_def)
next
  case (Some a)
  then have a: "co_active st = Some a" "at_turn_id a = turn_id" by (auto simp: named_turn_Some)
  show thesis
  proof (cases "co_poisoned st")
    case None
    show thesis
    proof (cases "find (\<lambda>event. se_event_id event = dr_event_id draft) (co_events st)")
      case (Some existing)
      then have m: "existing \<in> set (co_events st)" by (auto simp: find_Some_iff)
      show thesis
        using assms(1) \<open>named_turn token turn_id st = Some a\<close> None Some m replayed [of existing] rejected
        by (auto simp: append_event_def replay_event_def split: if_splits)
    next
      case fresh: None
      show thesis
      proof (cases "at_terminal_seq a = None \<and> in_width 64 (length (co_events st))")
        case True
        have "next_event session st (canonical_event session (at_turn_id a) st draft)"
          using a True fresh by (auto simp: next_event_def canonical_event_def find_None_iff)
        then show thesis
          using committed assms(1) \<open>named_turn token turn_id st = Some a\<close> None fresh True
          by (auto simp: append_event_def)
      next
        case False
        then show thesis
          using rejected assms(1) \<open>named_turn token turn_id st = Some a\<close> None fresh
          by (auto simp: append_event_def Let_def split: option.splits if_splits)
      qed
    qed
  qed (use Some assms rejected in \<open>auto simp: append_event_def\<close>)
qed

lemma append_event_inv:
  assumes "append_event session p env st token turn_id draft w = (r, st', w')" and "session_inv session gs st"
  shows "session_inv session gs st'"
  using assms
proof (cases rule: append_event_cases)
  case (committed e)
  show ?thesis by (rule commit_event_inv [OF committed(4) assms(2) committed(1)])
qed (use assms(2) in auto)

section \<open>Settlement and commands keep it\<close>

lemma settle_turn_cases:
  assumes "settle_turn session st token turn_id = (r, st')" and "session_inv session gs st"
  obtains (settled) a where "named_turn token turn_id st = Some a"
      "r = Ok \<lparr>ts_turn_id = turn_id, ts_events = drop (at_start_seq a) (co_events st)\<rparr>"
      "st' = st\<lparr>co_active := None\<rparr>" "co_poisoned st = None"
  | (failed) failure where "r = Err (poisoned_runtime_error failure)" "st' = st\<lparr>co_active := None\<rparr>"
      "co_poisoned st = Some failure"
  | (refused) "r = Err (TurnNotActive session turn_id)" "st' = st" "named_turn token turn_id st = None"
proof (cases "named_turn token turn_id st")
  case (Some a)
  have "at_start_seq a \<le> length (co_events st)"
    using assms(2) Some by (auto simp: session_inv_def named_turn_Some lease_of_def dest: prefix_length_le)
  then show thesis
    using assms(1) Some settled failed named_turn_Some [of token turn_id st a]
    by (auto simp: settle_turn_def split: option.splits)
qed (use assms refused in \<open>auto simp: settle_turn_def\<close>)

lemma settle_turn_inv:
  assumes "settle_turn session st token turn_id = (r, st')" and "session_inv session gs st"
  shows "session_inv session gs st' \<and> r \<noteq> Panic"
  using assms by (cases rule: settle_turn_cases) (use assms(2) in \<open>auto intro: session_inv_release\<close>)

lemma handle_command_inv:
  assumes "handle_command session p env st c w = (replies, st', w')" and "session_inv session gs st"
  shows "session_inv session (gs @ reply_grants replies) st'"
proof (cases c)
  case (CmdBegin n)
  obtain b rs st1 w1 where a: "admit_turn session p env st n w = (b, rs, st1, w1)"
    by (cases "admit_turn session p env st n w") auto
  show ?thesis
    using assms CmdBegin a admit_turn_inv [OF a assms(2)]
    by (auto split: if_splits)
next
  case (CmdAppend ac)
  obtain r st1 w1 where a: "append_event session p env st (ac_token ac) (ac_turn_id ac) (ac_draft ac) w = (r, st1, w1)"
    by (cases "append_event session p env st (ac_token ac) (ac_turn_id ac) (ac_draft ac) w") auto
  show ?thesis
    using assms(1) CmdAppend a append_event_inv [OF a assms(2)]
    by (cases r) (auto simp: append_turn_def)
next
  case (CmdSettle token turn_id n)
  obtain r st1 where s: "settle_turn session st token turn_id = (r, st1)"
    by (cases "settle_turn session st token turn_id") auto
  note k = settle_turn_inv [OF s assms(2)]
  obtain rs st2 w2 where g: "grant_pending session p env st1 w = (rs, st2, w2)"
    by (cases "grant_pending session p env st1 w") auto
  show ?thesis
    using assms(1) CmdSettle s g k grant_pending_inv [OF g, of gs] by (cases r) auto
next
  case (CmdAbandon token)
  show ?thesis
    using assms CmdAbandon grant_pending_inv [of session p env "st\<lparr>co_active := None\<rparr>" w replies st' w' gs]
      session_inv_release [OF assms(2)]
    by (auto split: option.splits if_splits)
next
  case (CmdShutdown n)
  then have "reject_pending env st w = (replies, st', w')" using assms(1) by simp
  from reject_pending_inv [OF this assms(2)] show ?thesis by auto
qed

lemma session_run_inv:
  assumes "session_run session p env rely w0 tr st w"
  shows "session_inv session (turns_granted tr) st"
  using assms by induction (auto dest: handle_command_inv)

end
