(* ===== verification/SessionLaws.thy ===== *)
theory SessionLaws
  imports SessionCoordinatorInv
begin

text \<open>
  The contract of Session persistence, as the locale \<open>session_persistence_laws\<close>, and what a
  coordinator derives from it: its log is stable in the provider, whatever else happens there.
\<close>

section \<open>Logs only grow\<close>

lemma grant_turn_frame:
  assumes "grant_turn session env st response w = (b, replies, st', w')"
  shows "co_events st' = co_events st \<and> co_loaded st' = co_loaded st \<and> w' = w"
  using assms by (auto simp: grant_turn_def Let_def split: if_splits option.splits)

lemma ensure_loaded_grows:
  assumes "ensure_loaded session p st w = (r, st', w')" and "log_wf session st"
  shows "log_wf session st' \<and> prefix (co_events st) (co_events st')"
  using assms(1) by (cases rule: ensure_loaded_cases) (use assms(2) in \<open>auto simp: log_wf_def\<close>)

lemma log_wf_update [simp]:
  "log_wf session (st\<lparr>co_pending := q\<rparr>) \<longleftrightarrow> log_wf session st"
  "log_wf session (st\<lparr>co_poisoned := x\<rparr>) \<longleftrightarrow> log_wf session st"
  "log_wf session (unwind st) \<longleftrightarrow> log_wf session st"
  by (simp_all add: log_wf_def unwind_def)

lemma inv_log_wf: "session_inv session gs st \<Longrightarrow> log_wf session st"
  by (simp add: session_inv_def)

lemma admit_turn_grows:
  assumes "admit_turn session p env st response w = (b, replies, st', w')" and "log_wf session st"
  shows "log_wf session st' \<and> prefix (co_events st) (co_events st')"
  using assms(1)
proof (cases rule: admit_turn_cases)
  case (failed r st1)
  from ensure_loaded_grows [OF failed(1) assms(2)] failed(2) show ?thesis by auto
next
  case (loaded st1 w1)
  have "co_loaded st1"
    using loaded(1) by (auto simp: ensure_loaded_def split: if_splits prod.splits outcome.splits)
  with ensure_loaded_grows [OF loaded(1) assms(2)] grant_turn_frame [OF loaded(2)]
  show ?thesis by (simp add: log_wf_def)
qed (use assms(2) in simp)

lemma reject_pending_frame:
  "reject_pending env st w = (replies, st', w') \<Longrightarrow> co_events st' = co_events st \<and> co_loaded st' = co_loaded st \<and> w' = w"
  by (auto simp: reject_pending_def)

lemma grant_loop_grows:
  assumes "grant_loop session p env st pending w = (replies, st', w')" and "log_wf session st"
  shows "prefix (co_events st) (co_events st')"
proof -
  define Q where "Q = (\<lambda>s (_ :: 'b). log_wf session s \<and> prefix (co_events st) (co_events s))"
  have "Q st' w'"
  proof (rule grant_loop_keeps [OF assms(1), where Q = Q])
    show "Q st w" using assms(2) by (simp add: Q_def)
  next
    fix s w q assume "Q s w"
    then show "Q (s\<lparr>co_pending := q\<rparr>) w" by (simp add: Q_def)
  next
    fix s w n b rs s' w' assume "Q s w" and a: "admit_turn session p env s n w = (b, rs, s', w')"
    then show "Q s' w'" using admit_turn_grows [OF a] by (auto simp: Q_def intro: prefix_order.trans)
  qed
  then show ?thesis by (simp add: Q_def)
qed

lemma grant_pending_grows:
  assumes "grant_pending session p env st w = (replies, st', w')" and "session_inv session gs st"
  shows "prefix (co_events st) (co_events st')"
  using assms reject_pending_frame [of env st w replies st' w'] grant_loop_grows [OF _ inv_log_wf [OF assms(2)]]
  by (auto simp: grant_pending_def split: if_splits)

lemma commit_event_grows:
  assumes "commit_event session p env st e w = (r, st', w')"
  shows "prefix (co_events st) (co_events st') \<and> (\<forall>a. r = Ok a \<longrightarrow> a \<in> set (co_events st'))"
  using assms
proof (cases rule: commit_cases)
  case (reconciled op msg w1)
  from this(2) show ?thesis by (cases rule: reconcile_cases) auto
qed auto

lemma append_event_grows:
  assumes "append_event session p env st token turn_id draft w = (r, st', w')" and "session_inv session gs st"
  shows "prefix (co_events st) (co_events st') \<and> (\<forall>a. r = Ok a \<longrightarrow> a \<in> set (co_events st'))"
  using assms
proof (cases rule: append_event_cases)
  case (committed e)
  show ?thesis by (rule commit_event_grows [OF committed(4)])
qed auto

text \<open>No command but an append answers an append.\<close>

definition no_appends :: "'v reply list \<Rightarrow> bool" where
  "no_appends replies \<longleftrightarrow> (\<forall>n r. ReplyAppend n r \<notin> set replies)"

lemma no_appends_simps [simp]:
  "no_appends []" "no_appends (xs @ ys) \<longleftrightarrow> no_appends xs \<and> no_appends ys"
  "no_appends (send env w n (ReplyBegin n b))" "no_appends (send env w n (ReplySettle n s))"
  "no_appends [ReplyBegin n b]"
  by (auto simp: no_appends_def send_def)

lemma admit_turn_no_appends: "admit_turn session p env st n w = (b, replies, st', w') \<Longrightarrow> no_appends replies"
  by (auto simp: admit_turn_def grant_turn_def Let_def split: if_splits option.splits prod.splits outcome.splits)

lemma reject_pending_no_appends: "reject_pending env st w = (replies, st', w') \<Longrightarrow> no_appends replies"
proof -
  have "no_appends (concat (map (\<lambda>n. send env w n (ReplyBegin n (Err RtStopped))) ns))" for ns :: "nat list"
    by (induction ns) auto
  then show "reject_pending env st w = (replies, st', w') \<Longrightarrow> no_appends replies" by (auto simp: reject_pending_def)
qed

lemma grant_loop_no_appends: "grant_loop session p env st pending w = (replies, st', w') \<Longrightarrow> no_appends replies"
proof (induction session p env st pending w arbitrary: replies st' w' rule: grant_loop.induct)
  case (2 session p env st response pending w)
  then show ?case
    by (auto simp del: grant_loop.simps simp: grant_loop.simps(2) split: if_splits prod.splits bool.splits
      dest: admit_turn_no_appends)
qed auto

lemma grant_pending_no_appends: "grant_pending session p env st w = (replies, st', w') \<Longrightarrow> no_appends replies"
  by (auto simp: grant_pending_def split: if_splits dest: reject_pending_no_appends grant_loop_no_appends)

lemma append_turn_acknowledges:
  assumes "append_turn session p env st c w = (replies, st', w')" and "session_inv session gs st"
    and "ReplyAppend n (Ok e) \<in> set replies"
  shows "e \<in> set (co_events st')"
proof -
  obtain r st1 w1 where a: "append_event session p env st (ac_token c) (ac_turn_id c) (ac_draft c) w = (r, st1, w1)"
    by (cases "append_event session p env st (ac_token c) (ac_turn_id c) (ac_draft c) w") auto
  show ?thesis
    using assms(1,3) a append_event_grows [OF a assms(2)]
    by (cases r) (auto simp: append_turn_def dest: set_send)
qed

lemma append_turn_state:
  "append_turn session p env st c w = (replies, st', w') \<Longrightarrow>
     \<exists>r. append_event session p env st (ac_token c) (ac_turn_id c) (ac_draft c) w = (r, st', w')"
  by (auto simp: append_turn_def split: prod.splits outcome.splits)

lemma handle_command_grows:
  assumes "handle_command session p env st c w = (replies, st', w')" and inv: "session_inv session gs st"
  shows "prefix (co_events st) (co_events st') \<and>
    (\<forall>n e. ReplyAppend n (Ok e) \<in> set replies \<longrightarrow> e \<in> set (co_events st'))"
proof (cases c)
  case (CmdBegin n)
  obtain b rs st1 w1 where a: "admit_turn session p env st n w = (b, rs, st1, w1)"
    by (cases "admit_turn session p env st n w") auto
  have "no_appends replies"
    using assms(1) CmdBegin a admit_turn_no_appends [OF a] by (auto split: if_splits)
  moreover have "prefix (co_events st) (co_events st')"
    using assms(1) CmdBegin a admit_turn_grows [OF a inv_log_wf [OF inv]] by (auto split: if_splits)
  ultimately show ?thesis by (auto simp: no_appends_def)
next
  case (CmdAppend ac)
  then have a: "append_turn session p env st ac w = (replies, st', w')" using assms(1) by simp
  obtain r where "append_event session p env st (ac_token ac) (ac_turn_id ac) (ac_draft ac) w = (r, st', w')"
    using append_turn_state [OF a] by blast
  from append_event_grows [OF this inv] append_turn_acknowledges [OF a inv] show ?thesis by simp
next
  case (CmdSettle token turn_id n)
  obtain r st1 where s: "settle_turn session st token turn_id = (r, st1)"
    by (cases "settle_turn session st token turn_id") auto
  have k: "session_inv session gs st1" "r \<noteq> Panic" using settle_turn_inv [OF s inv] by auto
  have e: "co_events st1 = co_events st" using s inv by (cases rule: settle_turn_cases) auto
  obtain rs st2 w2 where g: "grant_pending session p env st1 w = (rs, st2, w2)"
    by (cases "grant_pending session p env st1 w") auto
  have "replies = send env w n (ReplySettle n r) @ rs" "st' = st2"
    using assms(1) CmdSettle s g k(2) by (cases r; simp)+
  then show ?thesis
    using grant_pending_grows [OF g k(1)] grant_pending_no_appends [OF g] e by (auto simp: no_appends_def dest: set_send)
next
  case (CmdAbandon token)
  show ?thesis
  proof (cases "grant_pending session p env (st\<lparr>co_active := None\<rparr>) w = (replies, st', w')")
    case True
    from grant_pending_grows [OF True session_inv_release [OF inv]] grant_pending_no_appends [OF True]
    show ?thesis by (simp add: no_appends_def)
  next
    case False
    then show ?thesis using assms(1) CmdAbandon by (auto split: option.splits if_splits)
  qed
next
  case (CmdShutdown n)
  then have "reject_pending env st w = (replies, st', w')" using assms(1) by simp
  from reject_pending_frame [OF this] reject_pending_no_appends [OF this] show ?thesis by (simp add: no_appends_def)
qed

lemma acknowledged_in_log:
  assumes "session_run session p env rely w0 tr st w"
  shows "acknowledged tr \<subseteq> set (co_events st)"
  using assms
proof induction
  case (run_command tr st w c replies st' w')
  from handle_command_grows [OF run_command.hyps(3) session_run_inv [OF run_command.hyps(1)]] run_command.IH
  show ?case by (auto dest: set_mono_prefix)
qed auto

section \<open>Poison\<close>

text \<open>A poisoned coordinator refuses everything.\<close>

lemma admit_poisoned:
  "co_poisoned st = Some failure \<Longrightarrow> admit_turn session p env st n w = (b, replies, st', w') \<Longrightarrow>
     \<not> b \<and> st' = st \<and> w' = w \<and> reply_grants replies = [] \<and> (\<forall>n s. ReplySettle n (Ok s) \<notin> set replies)"
  by (auto simp: admit_turn_def dest: set_send split: if_splits)

definition stopped_by :: "poisoned_failure \<Rightarrow> 'v session_event list \<Rightarrow> 'w \<Rightarrow> 'v coordinator_state \<Rightarrow> 'w \<Rightarrow> bool" where
  "stopped_by failure events w st' w' \<longleftrightarrow> co_poisoned st' = Some failure \<and> co_events st' = events \<and> w' = w"

lemma grant_loop_poisoned:
  "grant_loop session p env st pending w = (replies, st', w') \<Longrightarrow> co_poisoned st = Some failure \<Longrightarrow>
     stopped_by failure (co_events st) w st' w' \<and> reply_grants replies = [] \<and> (\<forall>n s. ReplySettle n (Ok s) \<notin> set replies)"
proof (induction session p env st pending w arbitrary: replies st' w' rule: grant_loop.induct)
  case (2 session p env st response pending w)
  obtain b rs st1 w1 where a: "admit_turn session p env (st\<lparr>co_pending := pending\<rparr>) response w = (b, rs, st1, w1)"
    by (cases "admit_turn session p env (st\<lparr>co_pending := pending\<rparr>) response w") auto
  have k: "\<not> b" "st1 = st\<lparr>co_pending := pending\<rparr>" "w1 = w" "reply_grants rs = []" "\<forall>n s. ReplySettle n (Ok s) \<notin> set rs"
    using admit_poisoned [OF _ a] 2(4) by auto
  obtain rs2 st2 w2 where l: "grant_loop session p env st1 pending w1 = (rs2, st2, w2)"
    by (cases "grant_loop session p env st1 pending w1") auto
  show ?case
  proof (cases "co_active st \<noteq> None \<or> co_unwound st")
    case True
    then show ?thesis using 2(3,4) by (auto simp: stopped_by_def)
  next
    case idle: False
    show ?thesis
    proof (cases "ce_is_closed env response w")
      case True
      then show ?thesis using idle 2(1) [OF idle True] 2(3,4) by simp
    next
      case False
      have "stopped_by failure (co_events st1) w1 st2 w2 \<and> reply_grants rs2 = [] \<and> (\<forall>n s. ReplySettle n (Ok s) \<notin> set rs2)"
        by (rule 2(2) [OF idle False a [symmetric] _ _ _ l]) (use k 2(4) in simp_all)
      then show ?thesis using 2(3) idle False a l k by auto
    qed
  qed
qed (auto simp: stopped_by_def)

lemma reject_pending_poisoned:
  assumes "reject_pending env st w = (replies, st', w')" and "co_poisoned st = Some failure"
  shows "stopped_by failure (co_events st) w st' w' \<and> reply_grants replies = [] \<and> (\<forall>n s. ReplySettle n (Ok s) \<notin> set replies)"
proof -
  have "reply_grants (concat (map (\<lambda>n. send env w n (ReplyBegin n (Err RtStopped))) ns)) = []" for ns :: "nat list"
    by (induction ns) auto
  then show ?thesis using assms by (auto simp: reject_pending_def stopped_by_def dest: set_send)
qed

lemma grant_pending_poisoned:
  "grant_pending session p env st w = (replies, st', w') \<Longrightarrow> co_poisoned st = Some failure \<Longrightarrow>
     stopped_by failure (co_events st) w st' w' \<and> reply_grants replies = [] \<and> (\<forall>n s. ReplySettle n (Ok s) \<notin> set replies)"
  using grant_loop_poisoned [of session p env st "co_pending st" w replies st' w' failure]
    reject_pending_poisoned [of env st w replies st' w' failure]
  by (cases "ce_stopping env w") (simp_all add: grant_pending_def)

lemma append_event_poisoned:
  assumes "append_event session p env st token turn_id draft w = (r, st', w')" and "co_poisoned st = Some failure"
  shows "st' = st \<and> w' = w \<and> \<not> is_ok r"
  using assms by (auto simp: append_event_def Let_def split: option.splits)

lemma poisoned_command:
  assumes inv: "session_inv session gs st" and po: "co_poisoned st = Some failure"
    and h: "handle_command session p env st c w = (replies, st', w')"
  shows "co_poisoned st' = Some failure \<and> co_events st' = co_events st \<and> w' = w \<and>
    reply_grants replies = [] \<and> (\<forall>n e s. ReplyAppend n (Ok e) \<notin> set replies \<and> ReplySettle n (Ok s) \<notin> set replies)"
proof (cases c)
  case (CmdBegin n)
  obtain b rs st1 w1 where a: "admit_turn session p env st n w = (b, rs, st1, w1)"
    by (cases "admit_turn session p env st n w") auto
  show ?thesis
    using h po CmdBegin a admit_poisoned [OF po a] admit_turn_no_appends [OF a]
    by (auto simp: no_appends_def dest: set_send split: if_splits)
next
  case (CmdAppend ac)
  obtain r st1 w1 where a: "append_event session p env st (ac_token ac) (ac_turn_id ac) (ac_draft ac) w = (r, st1, w1)"
    by (cases "append_event session p env st (ac_token ac) (ac_turn_id ac) (ac_draft ac) w") auto
  show ?thesis
    using h po CmdAppend a append_event_poisoned [OF a po] by (cases r) (auto simp: append_turn_def dest: set_send)
next
  case (CmdSettle token turn_id n)
  obtain r st1 where s: "settle_turn session st token turn_id = (r, st1)"
    by (cases "settle_turn session st token turn_id") auto
  have k: "co_poisoned st1 = Some failure" "co_events st1 = co_events st" "\<not> is_ok r" "r \<noteq> Panic"
    using s inv by (cases rule: settle_turn_cases; use po in auto)+
  obtain rs st2 w2 where g: "grant_pending session p env st1 w = (rs, st2, w2)"
    by (cases "grant_pending session p env st1 w") auto
  have "replies = send env w n (ReplySettle n r) @ rs" "st' = st2" "w' = w2"
    using h CmdSettle s g k(4) by (cases r; simp)+
  then show ?thesis
    using grant_pending_poisoned [OF g k(1)] grant_pending_no_appends [OF g] k
    by (auto simp: no_appends_def stopped_by_def dest: set_send)
next
  case (CmdAbandon token)
  show ?thesis
  proof (cases "grant_pending session p env (st\<lparr>co_active := None\<rparr>) w = (replies, st', w')")
    case True
    from grant_pending_poisoned [OF True, of failure] po grant_pending_no_appends [OF True]
    show ?thesis by (auto simp: no_appends_def stopped_by_def)
  next
    case False
    then show ?thesis using h po CmdAbandon by (auto split: option.splits if_splits)
  qed
next
  case (CmdShutdown n)
  then have "reject_pending env st w = (replies, st', w')" using h by simp
  from reject_pending_poisoned [OF this po] reject_pending_no_appends [OF this]
  show ?thesis by (auto simp: no_appends_def stopped_by_def)
qed

section \<open>The contract\<close>

text \<open>
  \<open>stable session es w\<close> says that the provider keeps the events \<open>es\<close> at the head of the Session's
  log for good. A load that succeeds and a commit that succeeds leave the log stable, and no
  operation takes a stable log back. The law of commits is for events whose encoding the
  provider can read, \<open>codable\<close>.
\<close>

locale session_persistence_laws =
  fixes p :: "('v, 'w) session_persistence"
    and stable :: "session_id \<Rightarrow> 'v session_event list \<Rightarrow> 'w \<Rightarrow> bool"
    and codable :: "'v session_event \<Rightarrow> bool"
  assumes load_stable: "sp_load p session w = (Ok es, w') \<Longrightarrow> stable session es w'"
    and commit_stable: "codable e \<Longrightarrow> stable (se_session_id e) es w \<Longrightarrow> unat (se_seq e) = length es \<Longrightarrow>
      sp_commit p e w = (Ok c, w') \<Longrightarrow> stable (se_session_id e) (es @ [e]) w'"
    and load_grows: "stable session es w \<Longrightarrow> stable session es (snd (sp_load p session' w))"
    and commit_grows: "stable session es w \<Longrightarrow> stable session es (snd (sp_commit p e w))"

text \<open>The observers and the world do not take a stable log back.\<close>

definition steady ::
    "('v session_event list \<Rightarrow> 'w \<Rightarrow> bool) \<Rightarrow> ('v, 'w) coordinator_env \<Rightarrow> ('w \<Rightarrow> 'w \<Rightarrow> bool) \<Rightarrow> bool" where
  "steady keeps env rely \<longleftrightarrow>
     (\<forall>observe \<in> set (ce_observers env). \<forall>e es w. keeps es w \<longrightarrow> keeps es (snd (observe e w))) \<and>
     (\<forall>w w' es. rely w w' \<longrightarrow> keeps es w \<longrightarrow> keeps es w')"

lemma observe_all_keeps:
  assumes "steady keeps env rely" and "keeps es w"
  shows "keeps es (observe_all env e w)"
proof -
  have "keeps es (fold (\<lambda>observe w. snd (observe e w)) obs w)" if "set obs \<subseteq> set (ce_observers env)" for obs
    using that assms(2)
  proof (induction obs arbitrary: w)
    case (Cons x obs)
    then show ?case using assms(1) by (auto simp: steady_def)
  qed simp
  then show ?thesis by (simp add: observe_all_def)
qed

context session_persistence_laws
begin

text \<open>The coordinator's log is stable, as far as its events can be encoded.\<close>

definition secured :: "session_id \<Rightarrow> 'v coordinator_state \<Rightarrow> 'w \<Rightarrow> bool" where
  "secured session st w \<longleftrightarrow> ((\<forall>e \<in> set (co_events st). codable e) \<longrightarrow> co_loaded st \<longrightarrow> stable session (co_events st) w)"

lemma secured_cong:
  "co_events st' = co_events st \<Longrightarrow> co_loaded st' = co_loaded st \<Longrightarrow> secured session st' w \<longleftrightarrow> secured session st w"
  by (simp add: secured_def)

lemma secured_update [simp]:
  "secured session (st\<lparr>co_pending := q\<rparr>) w \<longleftrightarrow> secured session st w"
  "secured session (st\<lparr>co_poisoned := x\<rparr>) w \<longleftrightarrow> secured session st w"
  "secured session (st\<lparr>co_active := a\<rparr>) w \<longleftrightarrow> secured session st w"
  "secured session (unwind st) w \<longleftrightarrow> secured session st w"
  by (simp_all add: secured_def unwind_def)

lemma secured_load: "secured session st w \<Longrightarrow> secured session st (snd (sp_load p session' w))"
  by (auto simp: secured_def intro: load_grows)

lemma ensure_loaded_secured:
  assumes "ensure_loaded session p st w = (r, st', w')" and "secured session st w"
  shows "secured session st' w'"
  using assms secured_load [OF assms(2), of session]
  by (auto simp: ensure_loaded_def secured_def load_stable split: if_splits prod.splits outcome.splits)

lemma admit_turn_secured:
  assumes "admit_turn session p env st response w = (b, replies, st', w')" and "secured session st w"
  shows "secured session st' w'"
  using assms(1)
proof (cases rule: admit_turn_cases)
  case (failed r st1)
  from ensure_loaded_secured [OF failed(1) assms(2)] failed(2) show ?thesis by auto
next
  case (loaded st1 w1)
  from ensure_loaded_secured [OF loaded(1) assms(2)] grant_turn_frame [OF loaded(2)] secured_cong [of st' st1]
  show ?thesis by simp
qed (use assms(2) in simp)

lemma grant_loop_secured:
  assumes "grant_loop session p env st pending w = (replies, st', w')" and "secured session st w"
  shows "secured session st' w'"
  by (rule grant_loop_keeps [OF assms(1), where Q = "secured session"]) (use assms(2) admit_turn_secured in simp_all)

lemma grant_pending_secured:
  "grant_pending session p env st w = (replies, st', w') \<Longrightarrow> secured session st w \<Longrightarrow> secured session st' w'"
  using grant_loop_secured
  by (auto simp: grant_pending_def reject_pending_def split: if_splits)

lemma record_event_loaded: "co_loaded (record_event st e) = co_loaded st"
  by (auto simp: record_event_def mark_terminal_def split: option.splits)

lemma commit_event_secured:
  assumes "commit_event session p env st e w = (r, st', w')" and sec: "secured session st w"
    and inv: "session_inv session gs st" and e: "next_event session st e" and bound: "in_width 64 (length (co_events st))"
    and steady: "steady (stable session) env rely"
  shows "secured session st' w'"
  using assms(1)
proof (cases rule: commit_cases)
  case (recorded c w1)
  have seq: "unat (se_seq e) = length (co_events st)" "se_session_id e = session"
    using e bound by (auto simp: next_event_def unat_of_nat in_width_def)
  have "stable session (co_events st @ [e]) w1"
    if "\<forall>e \<in> set (co_events st @ [e]). codable e" "co_loaded st"
    using commit_stable [OF _ _ _ recorded(3), of "co_events st"] sec seq that by (auto simp: secured_def)
  then show ?thesis
    using recorded observe_all_keeps [OF steady] by (auto simp: secured_def record_event_loaded)
next
  case (reconciled op msg w1)
  have w1: "secured session st w1"
    using sec reconciled(1) commit_grows [of session "co_events st" w e] by (auto simp: secured_def)
  from reconciled(2) show ?thesis
  proof (cases rule: reconcile_cases)
    case (recorded w2)
    then show ?thesis
      using load_stable [OF recorded(3)] observe_all_keeps [OF steady] by (auto simp: secured_def record_event_loaded)
  qed (use w1 secured_load [OF w1, of session] in auto)
next
  case (refused er x)
  then show ?thesis using sec commit_grows [of session "co_events st" w e] by (auto simp: secured_def)
next
  case unwound
  then show ?thesis using sec commit_grows [of session "co_events st" w e] by (auto simp: secured_def unwind_def)
qed

lemma append_event_secured:
  assumes "append_event session p env st token turn_id draft w = (r, st', w')" and "secured session st w"
    and "session_inv session gs st" and "steady (stable session) env rely"
  shows "secured session st' w'"
  using assms(1,3)
proof (cases rule: append_event_cases)
  case (committed e)
  show ?thesis by (rule commit_event_secured [OF committed(4) assms(2,3) committed(1,3) assms(4)])
qed (use assms(2) in auto)

lemma handle_command_secured:
  assumes "handle_command session p env st c w = (replies, st', w')" and sec: "secured session st w"
    and inv: "session_inv session gs st" and "steady (stable session) env rely"
  shows "secured session st' w'"
proof (cases c)
  case (CmdBegin n)
  obtain b rs st1 w1 where a: "admit_turn session p env st n w = (b, rs, st1, w1)"
    by (cases "admit_turn session p env st n w") auto
  show ?thesis
    using assms(1) sec CmdBegin a admit_turn_secured [OF a] by (auto split: if_splits)
next
  case (CmdAppend ac)
  then have "append_turn session p env st ac w = (replies, st', w')" using assms(1) by simp
  from append_turn_state [OF this] append_event_secured sec inv assms(4) show ?thesis by blast
next
  case (CmdSettle token turn_id n)
  obtain r st1 where s: "settle_turn session st token turn_id = (r, st1)"
    by (cases "settle_turn session st token turn_id") auto
  have k: "r \<noteq> Panic" using settle_turn_inv [OF s inv] by auto
  have e: "secured session st1 w" using s inv by (cases rule: settle_turn_cases) (use sec in auto)
  obtain rs st2 w2 where g: "grant_pending session p env st1 w = (rs, st2, w2)"
    by (cases "grant_pending session p env st1 w") auto
  have "st' = st2 \<and> w' = w2"
    using assms(1) CmdSettle s g k by (cases r) auto
  then show ?thesis using grant_pending_secured [OF g e] by simp
next
  case (CmdAbandon token)
  then show ?thesis
    using assms(1) sec grant_pending_secured [of session env "st\<lparr>co_active := None\<rparr>" w replies st' w']
    by (auto split: option.splits if_splits)
next
  case (CmdShutdown n)
  then show ?thesis using assms(1) sec by (auto simp: reject_pending_def)
qed

theorem run_secured:
  assumes "session_run session p env rely w0 tr st w" and "steady (stable session) env rely"
  shows "secured session st w"
  using assms(1)
proof induction
  case run_start
  show ?case by (simp add: secured_def coordinator_default_def)
next
  case (run_world tr st w w')
  then show ?case using assms(2) by (auto simp: secured_def steady_def)
next
  case (run_command tr st w c replies st' w')
  show ?case
    by (rule handle_command_secured [OF run_command.hyps(3) run_command.IH session_run_inv [OF run_command.hyps(1)] assms(2)])
qed

end

end
