(* ===== verification/JsonlInv.thy ===== *)
theory JsonlInv
  imports Jsonl SessionLaws
begin

text \<open>
  JSONL files: the file names are reversible, reading a file gives the events its lines decode to,
  and the operations of \<open>Jsonl\<close> keep the contract \<open>session_persistence_laws\<close> under every fault.
\<close>

section \<open>File names\<close>

lemma nibble_roundtrip: "n < 16 \<Longrightarrow> decode_hex_nibble (hex_digit n) = Some n"
proof -
  have "\<forall>n < 16. decode_hex_nibble (hex_digit n) = Some n"
    by (simp add: All_less_Suc2 numeral_nat decode_hex_nibble_def hex_digit_def Let_def)
  then show "n < 16 \<Longrightarrow> ?thesis" by blast
qed

lemma encode_session_id_simps [simp]:
  "encode_session_id [] = []"
  "encode_session_id (c # cs) = hex_digit (of_char c div 16) # hex_digit (of_char c mod 16) # encode_session_id cs"
  by (simp_all add: encode_session_id_def)

lemma decode_pairs_encode: "decode_pairs (encode_session_id session) = Some session"
proof (induction session)
  case (Cons c cs)
  have "(of_char c :: nat) < 256" using of_char_mod_256 [of c, where ?'a = nat] by (metis mod_less_divisor zero_less_numeral)
  then have "(of_char c :: nat) div 16 < 16" "(of_char c :: nat) mod 16 < 16" by (simp_all add: less_mult_imp_div_less)
  moreover have "char_of ((of_char c :: nat) div 16 * 16 + of_char c mod 16) = c" by simp
  ultimately show ?case using Cons by (simp add: nibble_roundtrip)
qed simp

lemma length_encode_session_id: "length (encode_session_id session) = 2 * length session"
  by (induction session) auto

lemma decode_session_id_encode:
  "decode_session_id (encode_session_id session) = (if valid_utf8 session then Some session else None)"
  by (simp add: decode_session_id_def decode_pairs_encode length_encode_session_id)

lemma strip_prefix_append [simp]: "strip_prefix a (a @ b) = Some b"
  by (simp add: strip_prefix_def)

lemma strip_suffix_append [simp]: "strip_suffix b (a @ b) = Some a"
  by (simp add: strip_suffix_def)

lemma session_id_from_session_file_name:
  "session_id_from_file_name (session_file_name session) = (if valid_utf8 session then Some session else None)"
proof -
  have pre: "strip_prefix ''session-'' (session_file_name session) = Some (encode_session_id session @ ''.jsonl'')"
    unfolding session_file_name_def by (rule strip_prefix_append)
  have suf: "strip_suffix ''.jsonl'' (encode_session_id session @ ''.jsonl'') = Some (encode_session_id session)"
    by (rule strip_suffix_append)
  show ?thesis
    unfolding session_id_from_file_name_def pre Option.bind.bind_lunit suf by (rule decode_session_id_encode)
qed

lemma session_file_name_inj [simp]: "session_file_name s = session_file_name t \<longleftrightarrow> s = t"
proof
  assume "session_file_name s = session_file_name t"
  then have "encode_session_id s = encode_session_id t" by (simp add: session_file_name_def)
  then have "Some s = Some t" using decode_pairs_encode [of s] decode_pairs_encode [of t] by metis
  then show "s = t" by simp
qed (rule arg_cong)

section \<open>Bytes and events\<close>

text \<open>The events that complete lines hold.\<close>

inductive is_log :: "'v event_codec \<Rightarrow> string \<Rightarrow> 'v session_event list \<Rightarrow> bool" for codec where
  is_log_Nil: "is_log codec [] []"
| is_log_Cons: "newline \<notin> set line \<Longrightarrow> jc_decode codec line = Ok e \<Longrightarrow> is_log codec bytes es \<Longrightarrow>
    is_log codec (line @ newline # bytes) (e # es)"

lemma is_log_snoc:
  "is_log codec bytes es \<Longrightarrow> newline \<notin> set line \<Longrightarrow> jc_decode codec line = Ok e \<Longrightarrow>
     is_log codec (bytes @ line @ [newline]) (es @ [e])"
proof (induction rule: is_log.induct)
  case is_log_Nil
  then show ?case using is_log.is_log_Cons [of line codec e "[]" "[]"] is_log.is_log_Nil by auto
next
  case (is_log_Cons l e' bs es)
  then show ?case using is_log.is_log_Cons [of l codec e' "bs @ line @ [newline]" "es @ [e]"] by simp
qed

lemma is_log_length: "is_log codec bytes es \<Longrightarrow> length es \<le> length bytes"
  by (induction rule: is_log.induct) auto

lemma first_line:
  assumes "newline \<notin> set l" "newline \<notin> set l'" "prefix (l @ newline # bs) (l' @ newline # bs')"
  shows "l = l' \<and> prefix bs bs'"
  using assms
proof (induction l arbitrary: l')
  case Nil
  then show ?case by (cases l') auto
next
  case (Cons c l)
  then show ?case by (cases l') auto
qed

lemma is_log_prefix:
  "is_log codec a es \<Longrightarrow> is_log codec b es' \<Longrightarrow> prefix a b \<Longrightarrow> prefix es es'"
proof (induction arbitrary: b es' rule: is_log.induct)
  case (is_log_Cons line e bytes es)
  from is_log_Cons.prems(1) show ?case
  proof cases
    case is_log_Nil
    then show ?thesis using is_log_Cons.prems(2) by simp
  next
    case (is_log_Cons line' e' bytes' es2)
    with first_line [of line line' bytes bytes'] is_log_Cons.prems is_log_Cons.hyps
    have "line = line'" "prefix bytes bytes'" using \<open>prefix (line @ newline # bytes) b\<close> \<open>newline \<notin> set line\<close> by auto
    with is_log_Cons \<open>\<And>b es'. is_log codec b es' \<Longrightarrow> prefix bytes b \<Longrightarrow> prefix es es'\<close> \<open>jc_decode codec line = Ok e\<close>
    show ?thesis by auto
  qed
qed simp

lemma is_log_take: "is_log codec bytes es \<Longrightarrow> prefix es' es \<Longrightarrow> \<exists>b. is_log codec b es' \<and> prefix b bytes"
proof (induction arbitrary: es' rule: is_log.induct)
  case is_log_Nil
  then show ?case by (auto intro: is_log.is_log_Nil)
next
  case (is_log_Cons line e bytes es)
  show ?case
  proof (cases es')
    case Nil
    then show ?thesis using is_log.is_log_Nil by (intro exI [of _ "[]"]) simp
  next
    case (Cons e' es2)
    then have "e' = e" "prefix es2 es" using is_log_Cons.prems by auto
    with is_log_Cons.IH obtain b where "is_log codec b es2" "prefix b bytes" by blast
    with Cons \<open>e' = e\<close> is_log.is_log_Cons [OF is_log_Cons.hyps(1,2)] show ?thesis
      by (intro exI [of _ "line @ newline # b"]) auto
  qed
qed

lemma split_newlines_neq_Nil [simp]: "split_newlines bytes \<noteq> []"
  by (induction bytes) (auto split: list.splits)

lemma split_newlines_lines:
  "concat (map (\<lambda>line. line @ [newline]) (split_newlines bytes)) = bytes @ [newline] \<and>
     (\<forall>line \<in> set (split_newlines bytes). newline \<notin> set line)"
proof (induction bytes)
  case (Cons c cs)
  then show ?case by (cases "split_newlines cs") auto
qed simp

lemma decode_records:
  assumes "for_each (decode_record codec) (enumerate n ls) es0 = Ok es'" and "\<forall>line \<in> set ls. newline \<notin> set line"
  shows "\<exists>es. es' = es0 @ es \<and> is_log codec (concat (map (\<lambda>line. line @ [newline]) ls)) es"
  using assms
proof (induction ls arbitrary: n es0)
  case Nil
  then show ?case by (auto intro: is_log.intros)
next
  case (Cons l ls)
  then obtain e where e: "jc_decode codec l = Ok e"
    and rest: "for_each (decode_record codec) (enumerate (Suc n) ls) (es0 @ [e]) = Ok es'"
    by (auto simp: decode_record_def)
  from Cons.IH [OF rest] Cons.prems(2) obtain es where
    "es' = (es0 @ [e]) @ es" "is_log codec (concat (map (\<lambda>line. line @ [newline]) ls)) es" by auto
  with e Cons.prems(2) is_log_Cons [of l codec e] show ?case by auto
qed

fun content_bytes :: "jsonl_file option \<Rightarrow> string" where
  "content_bytes None = []"
| "content_bytes (Some fl) = jx_content fl"

fun synced_bytes :: "jsonl_file option \<Rightarrow> string" where
  "synced_bytes None = []"
| "synced_bytes (Some fl) = take (jx_synced fl) (jx_content fl)"

lemma synced_prefix_content: "prefix (synced_bytes f) (content_bytes f)"
  by (cases f) (auto simp: take_is_prefix)

lemma synced_sync_file [simp]: "synced_bytes (sync_file f) = content_bytes f"
  by (cases f) (auto simp: sync_file_def)

lemma content_sync_file [simp]: "content_bytes (sync_file f) = content_bytes f"
  by (cases f) (auto simp: sync_file_def)

lemma read_physical_log_Ok:
  assumes "read_physical_log codec io session f = Ok es"
  shows "is_log codec (content_bytes f) es \<and> physical_log session es \<and> in_width 63 (length es)"
proof (cases f)
  case None
  then show ?thesis using assms by (auto simp: read_physical_log_def intro: is_log_Nil)
next
  case (Some fl)
  show ?thesis
  proof (cases "jx_content fl = []")
    case True
    then show ?thesis using assms Some by (auto simp: read_physical_log_def intro: is_log_Nil)
  next
    case False
    define bytes where "bytes = butlast (jx_content fl)"
    have last: "last (jx_content fl) = newline" and short: "in_width 63 (length (jx_content fl))"
      and scan: "for_each (decode_record codec) (enumerate 0 (split_newlines bytes)) [] = Ok es"
      and phys: "physical_log session es"
      using assms Some False
      by (auto simp: read_physical_log_def Let_def bytes_def validate_physical_log_Ok split: if_splits)
    have eq: "jx_content fl = bytes @ [newline]"
      using append_butlast_last_id [OF False] last by (simp only: bytes_def)
    have "is_log codec (jx_content fl) es"
      using decode_records [OF scan] split_newlines_lines [of bytes] eq by auto
    with phys short is_log_length [OF this] Some show ?thesis by (simp add: in_width_def)
  qed
qed

section \<open>Jobs\<close>

lemma guarded_log_Ok:
  "guarded_log codec io session (f, g) = (Ok es, g') \<Longrightarrow>
     is_log codec (content_bytes f) es \<and> physical_log session es \<and> in_width 63 (length es)"
  by (auto simp del: One_nat_def simp: guarded_log_def split: prod.splits outcome.splits option.splits
    dest: read_physical_log_Ok)

lemma sync_job_cases:
  assumes "sync_job io operation a (f, g) = (r, f', g')"
  shows "r = Ok a \<and> f' = sync_file f \<or> (\<exists>e. r = Err e) \<and> f' = f"
  using assms by (auto simp: sync_job_def latch_indeterminate_def Let_def split: option.splits)

text \<open>What a load leaves, and that the durable bytes only grow.\<close>

lemma load_job_result:
  assumes "load_job codec io session (f, g) = (r, f', g')"
  shows "prefix (synced_bytes f) (synced_bytes f') \<and> content_bytes f' = content_bytes f \<and>
    (\<forall>es. r = Ok es \<longrightarrow> is_log codec (content_bytes f) es \<and> in_width 63 (length es) \<and>
      (es = [] \<or> synced_bytes f' = content_bytes f))"
proof -
  obtain l g1 where l: "guarded_log codec io session (f, g) = (l, g1)" by (cases "guarded_log codec io session (f, g)") auto
  show ?thesis
  proof (cases "\<exists>es. l = Ok es \<and> es \<noteq> [] \<and> jp_open io = None")
    case True
    then obtain es where es: "l = Ok es" "es \<noteq> []" "jp_open io = None" by blast
    then have s: "sync_job io ''load_sync_data'' es (f, g1) = (r, f', g')"
      using assms l by (simp add: load_job_def try_call_def)
    have g: "is_log codec (content_bytes f) es" "in_width 63 (length es)" using guarded_log_Ok [of codec io session f g es g1] l es(1) by simp_all
    from sync_job_cases [OF s] g synced_prefix_content [of f] show ?thesis by fastforce
  next
    case False
    then have "f' = f \<and> (\<forall>es. r = Ok es \<longrightarrow> l = Ok es \<and> es = [])"
      using assms l by (auto simp: load_job_def try_call_def split: outcome.splits if_splits option.splits)
    then have fr: "f' = f" and nil: "\<And>es. r = Ok es \<Longrightarrow> l = Ok [] \<and> es = []" by auto
    have "is_log codec (content_bytes f) es \<and> in_width 63 (length es)" if "r = Ok es" for es
      using guarded_log_Ok [of codec io session f g "[]" g1] l nil [OF that] by simp
    with fr nil show ?thesis by simp
  qed
qed

text \<open>An event whose encoding is one line that decodes to it.\<close>

definition event_codes :: "'v event_codec \<Rightarrow> 'v session_event \<Rightarrow> bool" where
  "event_codes codec e \<longleftrightarrow>
     (\<exists>text. jc_encode codec e = Ok text \<and> newline \<notin> set text \<and> jc_decode codec text = Ok e)"

lemma prefix_take_append: "prefix (take n xs) (take n (xs @ ys))"
  by (simp add: take_is_prefix)

lemma append_line_result:
  assumes "append_line io line (f, g) = (r, f', g')"
  shows "prefix (synced_bytes f) (synced_bytes f') \<and>
    (\<forall>c. r = Ok c \<longrightarrow> synced_bytes f' = content_bytes f @ line)"
proof -
  define fl where "fl = (case f of None \<Rightarrow> \<lparr>jx_content = [], jx_synced = 0\<rparr> | Some fl \<Rightarrow> fl)"
  have fl: "content_bytes f = jx_content fl" "synced_bytes f = take (jx_synced fl) (jx_content fl)"
    by (cases f; simp add: fl_def)+
  have "(\<exists>ys. f' = Some (fl\<lparr>jx_content := jx_content fl @ ys\<rparr>)) \<and> (\<forall>c. r \<noteq> Ok c) \<or>
      f' = sync_file (Some (fl\<lparr>jx_content := jx_content fl @ line\<rparr>)) \<and> r = Ok Appended"
    using assms
    by (auto simp: append_line_def Let_def fl_def [symmetric] latch_indeterminate_def sync_job_def split: option.splits)
  then show ?thesis
  proof (elim disjE conjE exE)
    fix ys assume "f' = Some (fl\<lparr>jx_content := jx_content fl @ ys\<rparr>)" "\<forall>c. r \<noteq> Ok c"
    then show ?thesis by (simp add: fl take_is_prefix)
  next
    assume "f' = sync_file (Some (fl\<lparr>jx_content := jx_content fl @ line\<rparr>))" "r = Ok Appended"
    moreover have "prefix (take (jx_synced fl) (jx_content fl)) (jx_content fl @ line)"
      by (meson take_is_prefix prefix_order.trans prefixI)
    ultimately show ?thesis by (simp add: fl)
  qed
qed

text \<open>An error of unknown outcome. A commit that ends in one has latched its gate.\<close>

definition doubtful :: "session_persistence_error \<Rightarrow> bool" where
  "doubtful e \<longleftrightarrow> (\<exists>operation message. e = PeIo operation message Indeterminate)"

lemma decode_records_sure: "for_each (decode_record codec) xs es = Err e \<Longrightarrow> \<not> doubtful e"
proof (induction xs arbitrary: es)
  case (Cons x xs)
  show ?case
  proof (cases "decode_record codec x es")
    case (Err e')
    then have "e' = e" using Cons.prems by simp
    with Err show ?thesis
      by (cases x; cases "jc_decode codec (snd x)") (auto simp: decode_record_def doubtful_def)
  qed (use Cons in auto)
qed simp

lemma read_physical_log_sure:
  assumes "read_physical_log codec io session f = Err e"
  shows "\<not> doubtful e"
proof (cases "for_each (decode_record codec) (enumerate 0 (split_newlines (butlast (content_bytes f)))) []")
  case (Err e')
  with assms decode_records_sure [OF Err] show ?thesis
    by (auto simp: read_physical_log_def and_then_eq_Err try_call_eq_Err io_error_def doubtful_def Let_def
      split: option.splits if_splits)
next
  case (Ok es)
  with assms show ?thesis
    by (cases "validate_physical_log session es")
      (auto simp: read_physical_log_def and_then_eq_Err try_call_eq_Err io_error_def doubtful_def Let_def
        split: option.splits if_splits)
next
  case Panic
  with assms show ?thesis
    by (auto simp: read_physical_log_def and_then_eq_Err try_call_eq_Err io_error_def doubtful_def Let_def
      split: option.splits if_splits)
qed

lemma ensure_writer_gate:
  assumes "ensure_writer io g = (r, g')"
  shows "gt_uncertain g' = gt_uncertain g \<and> (\<forall>e. r = Err e \<longrightarrow> \<not> doubtful e)"
  using assms
  by (auto simp: ensure_writer_def try_call_def io_error_def doubtful_def
    split: if_splits option.splits outcome.splits lock_outcome.splits)

lemma guarded_log_gate:
  assumes "guarded_log codec io session (f, g) = (r, g')"
  shows "gt_uncertain g' = gt_uncertain g" and "\<And>e. gt_uncertain g = None \<Longrightarrow> r = Err e \<Longrightarrow> \<not> doubtful e"
    and "gt_uncertain g \<noteq> None \<Longrightarrow> r \<noteq> Ok es"
proof -
  obtain wr g1 where e: "ensure_writer io g = (wr, g1)" by (cases "ensure_writer io g") auto
  note k = ensure_writer_gate [OF e]
  show "gt_uncertain g' = gt_uncertain g"
    using assms e k by (auto simp: guarded_log_def split: outcome.splits option.splits)
  show "\<not> doubtful er" if "gt_uncertain g = None" "r = Err er" for er
    using assms e k that read_physical_log_sure [of codec io session f]
    by (cases wr) (auto simp: guarded_log_def)
  show "r \<noteq> Ok es" if "gt_uncertain g \<noteq> None"
    using assms e k that by (cases wr) (auto simp: guarded_log_def)
qed

lemma append_line_Err:
  assumes "append_line io line (f, g) = (Err e, f', g')"
  shows "doubtful e \<and> gt_uncertain g' \<noteq> None"
  using assms
  by (auto simp: append_line_def Let_def latch_indeterminate_def io_error_def doubtful_def sync_job_def
    split: option.splits)

lemma sync_job_Err:
  assumes "sync_job io operation a (f, g) = (Err e, f', g')"
  shows "doubtful e \<and> gt_uncertain g' \<noteq> None"
  using assms
  by (auto simp: sync_job_def Let_def latch_indeterminate_def io_error_def doubtful_def split: option.splits)

text \<open>The ways a commit ends: it refuses, it confirms an event of the log, or it appends at the head.\<close>

lemma commit_job_cases:
  assumes "commit_job codec io event (f, g) = (r, f', g')"
  obtains (refused) e where "r = Err e" "f' = f" "doubtful e \<longrightarrow> gt_uncertain g' \<noteq> None"
  | (panicked) "r = Panic" "f' = f"
  | (replayed) es g1 where "guarded_log codec io (se_session_id event) (f, g) = (Ok es, g1)" "event \<in> set es"
      "sync_job io ''replay_sync_data'' ReplayedExact (f, g1) = (r, f', g')"
  | (appended) tx es g1 where "jc_encode codec event = Ok tx"
      "guarded_log codec io (se_session_id event) (f, g) = (Ok es, g1)" "unat (se_seq event) = length es"
      "append_line io (tx @ [newline]) (f, g1) = (r, f', g')"
proof (cases "jc_encode codec event")
  case (Ok tx)
  obtain l g1 where l: "guarded_log codec io (se_session_id event) (f, g) = (l, g1)"
    by (cases "guarded_log codec io (se_session_id event) (f, g)") auto
  show thesis
  proof (cases l)
    case es: (Ok es)
    show thesis
    proof (cases "find (\<lambda>existing. se_event_id existing = se_event_id event) es")
      case (Some existing)
      then have m: "existing \<in> set es" by (auto simp: find_Some_iff)
      show thesis
      proof (cases "existing = event \<and> jp_open io = None")
        case True
        then have eq: "existing = event" and opened: "jp_open io = None" by auto
        have "sync_job io ''replay_sync_data'' ReplayedExact (f, g1) = (r, f', g')"
          using assms Some unfolding eq by (simp add: commit_job_def try_call_def Ok l es opened)
        with l es m eq show thesis by (intro replayed [of es g1]) simp_all
      next
        case False
        have "(\<exists>e. r = Err e \<and> \<not> doubtful e) \<and> f' = f"
        proof (cases "existing = event")
          case True
          with False obtain m where "jp_open io = Some m" by auto
          with assms Some True show ?thesis by (auto simp: commit_job_def try_call_def io_error_def doubtful_def Ok l es)
        next
          case False
          with assms Some show ?thesis by (auto simp: commit_job_def doubtful_def Ok l es)
        qed
        then show thesis using refused by blast
      qed
    next
      case None
      show thesis
      proof (cases "unat (se_seq event) = length es \<and> jp_create_dir io = None \<and> jp_open_append io = None")
        case True
        show thesis
          by (rule appended [of tx es g1])
            (use assms None True in \<open>simp_all add: commit_job_def try_call_def Let_def Ok l es\<close>)
      next
        case False
        then have "(\<exists>e. r = Err e \<and> \<not> doubtful e) \<and> f' = f"
          using assms None
          by (cases "jp_create_dir io"; cases "jp_open_append io")
            (auto simp: commit_job_def try_call_def io_error_def doubtful_def Let_def Ok l es split: if_splits)
        then show thesis using refused by blast
      qed
    qed
  next
    case (Err e)
    have "r = Err e" "f' = f" "g' = g1" using assms Err by (simp_all add: commit_job_def Ok l)
    moreover have "doubtful e \<longrightarrow> gt_uncertain g1 \<noteq> None"
      using guarded_log_gate [OF l] Err by metis
    ultimately show thesis using refused by blast
  qed (use assms panicked in \<open>auto simp: commit_job_def Ok l\<close>)
next
  case (Err e)
  then show thesis using assms refused [of "PeSerialization e"] by (auto simp: commit_job_def doubtful_def)
qed (use assms panicked in \<open>auto simp: commit_job_def\<close>)

lemma commit_job_Err:
  assumes "commit_job codec io event (f, g) = (Err e, f', g')"
  shows "if doubtful e then gt_uncertain g' \<noteq> None else f' = f"
  using assms
proof (cases rule: commit_job_cases)
  case (replayed es g1)
  from sync_job_Err [OF replayed(3)] show ?thesis by simp
next
  case (appended tx es g1)
  from append_line_Err [OF appended(4)] show ?thesis by simp
qed auto

lemma commit_job_grows:
  assumes "commit_job codec io event (f, g) = (r, f', g')"
  shows "prefix (synced_bytes f) (synced_bytes f')"
  using assms
proof (cases rule: commit_job_cases)
  case (replayed es g1)
  from sync_job_cases [OF replayed(3)] synced_prefix_content [of f] show ?thesis by auto
next
  case (appended tx es g1)
  from append_line_result [OF appended(4)] show ?thesis by simp
qed auto

lemma commit_job_Ok:
  assumes "commit_job codec io event (f, g) = (Ok c, f', g')" and codes: "event_codes codec event"
    and b: "is_log codec b es0" "prefix b (synced_bytes f)" and seq: "unat (se_seq event) = length es0"
  shows "\<exists>b'. is_log codec b' (es0 @ [event]) \<and> prefix b' (synced_bytes f')"
  using assms(1)
proof (cases rule: commit_job_cases)
  case (replayed es g1)
  have es: "is_log codec (content_bytes f) es" "physical_log (se_session_id event) es" "in_width 63 (length es)"
    using guarded_log_Ok [OF replayed(1)] by auto
  have pre: "prefix es0 es"
    by (rule is_log_prefix [OF b(1) es(1)]) (meson b(2) synced_prefix_content prefix_order.trans)
  obtain i where i: "i < length es" "es ! i = event" using replayed(2) by (auto simp: in_set_conv_nth)
  then have "se_seq event = of_nat i" using es(2) by (auto simp: physical_log_def)
  then have "i = length es0" using seq i es(3) by (simp add: unat_of_nat in_width_def)
  then have "prefix (es0 @ [event]) es"
    using pre i by (metis prefix_def take_Suc_conv_app_nth append_eq_conv_conj take_is_prefix)
  then obtain b' where "is_log codec b' (es0 @ [event])" "prefix b' (content_bytes f)"
    using is_log_take [OF es(1)] by blast
  moreover have "synced_bytes f' = content_bytes f" using sync_job_cases [OF replayed(3)] by auto
  ultimately show ?thesis by auto
next
  case (appended tx es g1)
  have es: "is_log codec (content_bytes f) es" using guarded_log_Ok [OF appended(2)] by simp
  have "prefix es0 es"
    by (rule is_log_prefix [OF b(1) es]) (meson b(2) synced_prefix_content prefix_order.trans)
  then have "es = es0" using appended(3) seq by (auto simp: prefix_def)
  moreover have "newline \<notin> set tx" "jc_decode codec tx = Ok event"
    using codes appended(1) by (auto simp: event_codes_def)
  ultimately have "is_log codec (content_bytes f @ tx @ [newline]) (es0 @ [event])"
    using is_log_snoc [OF es] by simp
  moreover have "synced_bytes f' = content_bytes f @ tx @ [newline]"
    using append_line_result [OF appended(4)] by simp
  ultimately show ?thesis by auto
qed auto

section \<open>The contract\<close>

lemma next_plan_files [simp]: "js_files (snd (next_jsonl_plan s)) = js_files s"
  by (auto simp: next_jsonl_plan_def split: list.splits)

lemma files_simps [simp]:
  "js_files (set_gate session g s) = js_files s"
  "js_files (fst (jsonl_release s)) = js_files s"
  by (simp_all add: set_gate_def jsonl_release_def)

lemma gate_for_simps [simp]:
  "gate_for session (set_gate session g s) = g"
  "gate_for session (fst (jsonl_release s)) = gate_for session s"
  by (simp_all add: gate_for_def set_gate_def jsonl_release_def)

lemma jsonl_admit_cases:
  assumes "jsonl_admit io s = (r, s')"
  obtains "r = Ok ()" "js_files s' = js_files s" | e where "r = Err e" "js_files s' = js_files s" "\<not> doubtful e"
  using assms by (auto simp: doubtful_def persistence_stopping_def jsonl_admit_def jsonl_release_def Let_def split: if_splits)

lemma next_plan_gate [simp]: "gate_for session (snd (next_jsonl_plan s)) = gate_for session s"
  by (auto simp: next_jsonl_plan_def gate_for_def split: list.splits)

lemma jsonl_admit_gate: "jsonl_admit io s = (r, s') \<Longrightarrow> gate_for session s' = gate_for session s"
  by (auto simp: jsonl_admit_def jsonl_release_def gate_for_def Let_def split: if_splits)

text \<open>An operation leaves the files alone, or runs its job on the file of its Session.\<close>

lemma run_session_job_cases:
  assumes "run_session_job session lost job s = ((r, b), s')"
  obtains (idle) e where "r = Err e" "js_files s' = js_files s" "b \<or> \<not> doubtful e"
  | (ran) io r' f' g' where "job io (js_files s (session_file_name session), gate_for session s) = (r', f', g')"
      "js_files s' = (js_files s)(session_file_name session := f')" "b \<and> (\<exists>m. r = Err (lost m)) \<or> \<not> b \<and> r = r' \<and> gate_for session s' = g'"
proof -
  obtain io s1 where p: "next_jsonl_plan s = (io, s1)" by (cases "next_jsonl_plan s") auto
  then have f1: "js_files s1 = js_files s" using next_plan_files [of s] by simp
  obtain a s2 where a: "jsonl_admit io s1 = (a, s2)" by (cases "jsonl_admit io s1") auto
  show thesis
  proof (cases rule: jsonl_admit_cases [OF a])
    case 1
    define s3 where "s3 = set_gate session (gate_for session s2) s2"
    have g3: "gate_for session s3 = gate_for session s"
      using next_plan_gate [of session s] p jsonl_admit_gate [OF a, of session] by (simp add: s3_def)
    have f3: "js_files s3 = js_files s" using 1 f1 by (simp add: s3_def)
    obtain r' f' g' where j: "job io (js_files s (session_file_name session), gate_for session s) = (r', f', g')"
      by (cases "job io (js_files s (session_file_name session), gate_for session s)") auto
    have run: "run_session_job session lost job s = (case jp_worker io of
        LostBefore m \<Rightarrow> ((Err (lost m), True), fst (jsonl_release s3))
      | worker \<Rightarrow>
          let s4 = fst (jsonl_release (set_gate session g' (s3\<lparr>js_files := (js_files s3)(session_file_name session := f')\<rparr>))) in
          (case (worker, r') of
             (LostAfter m, _) \<Rightarrow> ((Err (lost m), True), s4)
           | (_, Panic) \<Rightarrow> ((Err (lost ''task panicked''), True), s4)
           | _ \<Rightarrow> ((r', False), s4)))"
      using p a 1 j f3 g3 by (simp add: run_session_job_def s3_def [symmetric] split: worker.splits)
    show thesis
    proof (cases "jp_worker io")
      case (LostBefore m)
      then show thesis using assms idle f3 unfolding run by auto
    next
      case Joined
      show thesis
        by (rule ran [OF j]; use assms f3 in \<open>unfold run Joined, cases r'; auto\<close>)
    next
      case (LostAfter m)
      show thesis
        by (rule ran [OF j]; use assms f3 in \<open>unfold run LostAfter, cases r'; auto\<close>)
    qed
  next
    case (2 e)
    then show thesis using assms p a f1 idle by (auto simp: run_session_job_def)
  qed
qed

text \<open>The durable bytes of a Session's file, and the events they begin with.\<close>

definition durable_bytes :: "session_id \<Rightarrow> 'z jsonl_state_scheme \<Rightarrow> string" where
  "durable_bytes session s = synced_bytes (js_files s (session_file_name session))"

definition stable_log :: "'v event_codec \<Rightarrow> session_id \<Rightarrow> 'v session_event list \<Rightarrow> 'z jsonl_state_scheme \<Rightarrow> bool" where
  "stable_log codec session es s \<longleftrightarrow> (\<exists>b. is_log codec b es \<and> prefix b (durable_bytes session s))"

lemma stable_log_mono:
  "stable_log codec session es s \<Longrightarrow> prefix (durable_bytes session s) (durable_bytes session s') \<Longrightarrow>
     stable_log codec session es s'"
  unfolding stable_log_def by (meson prefix_order.trans)

lemma jsonl_load_result:
  assumes "jsonl_load codec session s = (r, s')"
  shows "(\<forall>t. prefix (durable_bytes t s) (durable_bytes t s')) \<and>
    (\<forall>t. content_bytes (js_files s' (session_file_name t)) = content_bytes (js_files s (session_file_name t))) \<and>
    (\<forall>es. r = Ok es \<longrightarrow> in_width 63 (length es) \<and>
      is_log codec (content_bytes (js_files s (session_file_name session))) es \<and>
      (es = [] \<or> durable_bytes session s' = content_bytes (js_files s (session_file_name session))))"
proof -
  obtain b where "run_session_job session (\<lambda>m. PeIo ''load_blocking_task'' m DefinitelyNotCommitted)
      (\<lambda>io. load_job codec io session) s = ((r, b), s')"
    using assms by (auto simp: jsonl_load_def split: prod.splits)
  then show ?thesis
  proof (cases rule: run_session_job_cases)
    case (ran io r' f' g')
    from load_job_result [OF ran(1)] ran(2)
    have grow: "\<forall>t. prefix (durable_bytes t s) (durable_bytes t s')"
      and content: "\<forall>t. content_bytes (js_files s' (session_file_name t)) = content_bytes (js_files s (session_file_name t))"
      and dur: "durable_bytes session s' = synced_bytes f'"
      by (auto simp: durable_bytes_def)
    have "r' = Ok es" if "r = Ok es" for es using ran(3) that by auto
    with load_job_result [OF ran(1)] grow content dur show ?thesis by simp
  qed (auto simp: durable_bytes_def)
qed

lemma jsonl_load_short: "jsonl_load codec session s = (Ok es, s') \<Longrightarrow> in_width 63 (length es)"
  using jsonl_load_result [of codec session s "Ok es" s'] by simp

lemma jsonl_commit_result:
  assumes "jsonl_commit codec e s = (r, s')"
  shows "(\<forall>t. prefix (durable_bytes t s) (durable_bytes t s')) \<and>
    (\<forall>t. t \<noteq> se_session_id e \<longrightarrow> js_files s' (session_file_name t) = js_files s (session_file_name t))"
    and "r = Ok c \<Longrightarrow> event_codes codec e \<Longrightarrow> stable_log codec (se_session_id e) es s \<Longrightarrow>
      unat (se_seq e) = length es \<Longrightarrow> stable_log codec (se_session_id e) (es @ [e]) s'"
proof -
  obtain b s1 where j: "run_session_job (se_session_id e) (\<lambda>m. PeIo ''commit_blocking_task'' m Indeterminate)
      (\<lambda>io. commit_job codec io e) s = ((r, b), s1)" and f: "js_files s' = js_files s1"
    using assms by (auto simp: jsonl_commit_def set_gate_def Let_def split: prod.splits if_splits)
  show "(\<forall>t. prefix (durable_bytes t s) (durable_bytes t s')) \<and>
    (\<forall>t. t \<noteq> se_session_id e \<longrightarrow> js_files s' (session_file_name t) = js_files s (session_file_name t))"
    using j
  proof (cases rule: run_session_job_cases)
    case (ran io r' f' g')
    from commit_job_grows [OF ran(1)] ran(2) f show ?thesis by (auto simp: durable_bytes_def)
  qed (use f in \<open>auto simp: durable_bytes_def\<close>)
  show "stable_log codec (se_session_id e) (es @ [e]) s'"
    if ok: "r = Ok c" "event_codes codec e" "stable_log codec (se_session_id e) es s" "unat (se_seq e) = length es"
    using j
  proof (cases rule: run_session_job_cases)
    case (ran io r' f' g')
    from ok(3) obtain b0 where b0: "is_log codec b0 es" "prefix b0 (synced_bytes (js_files s (session_file_name (se_session_id e))))"
      by (auto simp: stable_log_def durable_bytes_def)
    have "r' = Ok c" using ran(3) ok(1) by auto
    with ran(1) have "commit_job codec io e (js_files s (session_file_name (se_session_id e)), gate_for (se_session_id e) s) = (Ok c, f', g')" by simp
    from commit_job_Ok [OF this ok(2) b0 ok(4)] ran(2) f show ?thesis
      by (simp add: stable_log_def durable_bytes_def)
  qed (use ok(1) in auto)
qed

text \<open>A commit that fails changed nothing, or it latched the gate of its Session.\<close>

lemma jsonl_commit_Err:
  assumes "jsonl_commit codec e s = (Err er, s')"
  shows "if doubtful er then gt_uncertain (gate_for (se_session_id e) s') \<noteq> None else js_files s' = js_files s"
proof -
  obtain b s1 where j: "run_session_job (se_session_id e) (\<lambda>m. PeIo ''commit_blocking_task'' m Indeterminate)
      (\<lambda>io. commit_job codec io e) s = ((Err er, b), s1)"
    and s': "s' = (if b then set_gate (se_session_id e)
        ((gate_for (se_session_id e) s1)\<lparr>gt_uncertain := Some er\<rparr>) s1 else s1)"
    using assms by (auto simp: jsonl_commit_def Let_def split: prod.splits if_splits)
  show ?thesis
  proof (cases b)
    case True
    from j have "doubtful er \<or> js_files s1 = js_files s"
    proof (cases rule: run_session_job_cases)
      case (ran io r' f' g')
      with True show ?thesis by (auto simp: doubtful_def)
    qed simp
    with True s' show ?thesis by auto
  next
    case False
    from j show ?thesis
    proof (cases rule: run_session_job_cases)
      case (idle e')
      with False s' show ?thesis by auto
    next
      case (ran io r' f' g')
      with False have "commit_job codec io e (js_files s (session_file_name (se_session_id e)), gate_for (se_session_id e) s) = (Err er, f', g')"
        and "gate_for (se_session_id e) s1 = g'" by auto
      with commit_job_Err [OF this(1)] ran(2) s' False show ?thesis by auto
    qed
  qed
qed

text \<open>A latched gate lets no load through.\<close>

lemma load_job_latched:
  assumes "gt_uncertain g \<noteq> None"
  shows "load_job codec io session (f, g) \<noteq> (Ok es, f', g')"
proof -
  obtain l g1 where l: "guarded_log codec io session (f, g) = (l, g1)" by (cases "guarded_log codec io session (f, g)") auto
  show ?thesis using guarded_log_gate(3) [OF l assms] l by (cases l) (auto simp: load_job_def)
qed

lemma jsonl_load_latched:
  assumes "gt_uncertain (gate_for session s) \<noteq> None"
  shows "jsonl_load codec session s \<noteq> (Ok es, s')"
proof
  assume "jsonl_load codec session s = (Ok es, s')"
  then obtain b where j: "run_session_job session (\<lambda>m. PeIo ''load_blocking_task'' m DefinitelyNotCommitted)
      (\<lambda>io. load_job codec io session) s = ((Ok es, b), s')"
    by (auto simp: jsonl_load_def split: prod.splits)
  then show False
  proof (cases rule: run_session_job_cases)
    case (ran io r' f' g')
    then show False using load_job_latched [OF assms, of codec io] by auto
  qed simp
qed

interpretation jsonl: session_persistence_laws "jsonl_persistence codec" "stable_log codec" "event_codes codec"
  for codec
proof
  fix session s es s'
  assume "sp_load (jsonl_persistence codec) session s = (Ok es, s')"
  then have "jsonl_load codec session s = (Ok es, s')" by (simp add: jsonl_persistence_def)
  from jsonl_load_result [OF this]
  have "is_log codec (content_bytes (js_files s (session_file_name session))) es"
    "es = [] \<or> durable_bytes session s' = content_bytes (js_files s (session_file_name session))" by auto
  then show "stable_log codec session es s'"
    using is_log_Nil [of codec] by (auto simp: stable_log_def)
next
  fix e es s c s'
  assume "event_codes codec e" "stable_log codec (se_session_id e) es s" "unat (se_seq e) = length es"
    and "sp_commit (jsonl_persistence codec) e s = (Ok c, s')"
  then show "stable_log codec (se_session_id e) (es @ [e]) s'"
    by (auto simp: jsonl_persistence_def intro: jsonl_commit_result(2))
next
  fix session es s session'
  assume "stable_log codec session es s"
  moreover obtain r s' where "jsonl_load codec session' s = (r, s')" by (cases "jsonl_load codec session' s") auto
  ultimately show "stable_log codec session es (snd (sp_load (jsonl_persistence codec) session' s))"
    using jsonl_load_result [of codec session' s r s'] by (auto simp: jsonl_persistence_def intro: stable_log_mono)
next
  fix session es s e
  assume "stable_log codec session es s"
  moreover obtain r s' where "jsonl_commit codec e s = (r, s')" by (cases "jsonl_commit codec e s") auto
  ultimately show "stable_log codec session es (snd (sp_commit (jsonl_persistence codec) e s))"
    using jsonl_commit_result(1) [of codec e s r s'] by (auto simp: jsonl_persistence_def intro: stable_log_mono)
qed

section \<open>Loss of power\<close>

text \<open>
  A crash keeps the durable bytes of a file; what follows them is arbitrary, and so is everything
  the process held.
\<close>

definition survives :: "session_id \<Rightarrow> 'z jsonl_state_scheme \<Rightarrow> 'y jsonl_state_scheme \<Rightarrow> bool" where
  "survives session s s' \<longleftrightarrow>
     prefix (durable_bytes session s) (content_bytes (js_files s' (session_file_name session)))"

lemma stable_log_survives:
  assumes "stable_log codec session es s" and "survives session s s'"
    and "jsonl_load codec session s' = (Ok es', s'')"
  shows "prefix es es'"
proof -
  obtain b where "is_log codec b es" "prefix b (durable_bytes session s)" using assms(1) by (auto simp: stable_log_def)
  moreover have "is_log codec (content_bytes (js_files s' (session_file_name session))) es'"
    using jsonl_load_result [OF assms(3)] by simp
  ultimately show ?thesis
    using assms(2) unfolding survives_def by (meson is_log_prefix prefix_order.trans)
qed

end
