(* ===== verification/SessionProps.thy ===== *)
theory SessionProps
  imports JsonlInv
begin

text \<open>
  Properties of Sessions: leases, settlements, durability of acknowledged events over the JSONL
  files, the failure of a coordinator whose log is in doubt, and the file names.
\<close>

section \<open>A run\<close>

text \<open>A coordinator over a JSONL directory that starts empty, and the runs it makes.\<close>

definition sample_event :: "unit session_event" where
  "sample_event = \<lparr>se_event_id = ''e1'', se_session_id = ''s'', se_turn_id = ''t'', se_generation_id = None,
     se_message_id = None, se_seq = 0, se_kind = UserMessage ''hello''\<rparr>"

definition sample_event_codec :: "unit event_codec" where
  "sample_event_codec = \<lparr>jc_encode = \<lambda>e. Ok (se_event_id e),
     jc_decode = \<lambda>line. if line = ''e1'' then Ok sample_event else Err ''unknown''\<rparr>"

definition sample_env :: "(unit, jsonl_state) coordinator_env" where
  "sample_env = \<lparr>ce_stopping = \<lambda>_. False, ce_is_closed = \<lambda>_ _. False, ce_handle_alive = \<lambda>_. True,
     ce_new_turn_id = \<lambda>_. ''t'', ce_observers = []\<rparr>"

definition empty_directory :: "jsonl_plan list \<Rightarrow> jsonl_state" where
  "empty_directory plans = \<lparr>js_files = \<lambda>_. None, js_gates = \<lambda>_. None, js_stopping = False, js_inflight = 0,
     js_plans = plans\<rparr>"

definition sample_draft :: "unit session_event_draft" where
  "sample_draft = \<lparr>dr_event_id = ''e1'', dr_generation_id = None, dr_message_id = None, dr_kind = UserMessage ''hello''\<rparr>"

definition sample_append :: "unit command" where
  "sample_append = CmdAppend \<lparr>ac_token = 1, ac_turn_id = ''t'', ac_draft = sample_draft, ac_response = 1\<rparr>"

definition sample_serve :: "jsonl_plan list \<Rightarrow> unit command list
    \<Rightarrow> (unit command \<times> unit reply list) list \<times> unit coordinator_state \<times> jsonl_state" where
  "sample_serve plans = serve_commands ''s'' (jsonl_persistence sample_event_codec) sample_env
     ([], coordinator_default, empty_directory plans)"

text \<open>Some run of that coordinator.\<close>

definition sample_reach :: "(unit command \<times> unit reply list) list \<Rightarrow> unit coordinator_state \<Rightarrow> jsonl_state \<Rightarrow> bool" where
  "sample_reach tr st s \<longleftrightarrow>
     (\<exists>s0. session_run ''s'' (jsonl_persistence sample_event_codec) sample_env (=) s0 tr st s)"

lemma sample_serve_runs:
  "session_run ''s'' (jsonl_persistence sample_event_codec) sample_env (=) (empty_directory plans)
     (fst (sample_serve plans cs)) (fst (snd (sample_serve plans cs))) (snd (snd (sample_serve plans cs)))"
  by (rule serve_commands_run [OF run_start, where cs = cs]) (simp add: sample_serve_def)

text \<open>A plan whose \<open>sync_data\<close> fails, and one that cannot read.\<close>

definition failing_sync :: jsonl_plan where
  "failing_sync = jsonl_fault_free\<lparr>jp_sync := Some ''injected failure''\<rparr>"

definition failing_read :: jsonl_plan where
  "failing_read = jsonl_fault_free\<lparr>jp_read := Some ''injected failure''\<rparr>"

definition sample_grant :: "unit admission_grant" where
  "sample_grant = \<lparr>ag_admission = \<lparr>ta_session_id = ''s'', ta_turn_id = ''t'', ta_history = []\<rparr>, ag_token = 1\<rparr>"

section \<open>Leases\<close>

lemma turns_granted_inj:
  assumes "session_inv session gs st" and "g \<in> set gs" and "h \<in> set gs" and "ag_token g = ag_token h"
  shows "g = h"
proof -
  have "distinct (map ag_token gs)"
    using assms(1) by (metis session_inv_def strict_sorted_iff)
  with assms(2-4) show ?thesis by (auto simp: distinct_map dest: inj_onD)
qed

lemma active_is_last:
  assumes "session_inv session gs st" and "co_active st = Some a" and "g \<in> set gs" and "at_token a = ag_token g"
  shows "g = last gs \<and> lease_of g a (co_events st)"
proof -
  have "gs \<noteq> []" and l: "lease_of (last gs) a (co_events st)" using assms(1,2) by (auto simp: session_inv_def)
  then have "g = last gs" using turns_granted_inj [OF assms(1,3), of "last gs"] assms(4) by (simp add: lease_of_def)
  with l show ?thesis by simp
qed

text \<open>One lease at a time: the tokens of the turns a coordinator grants increase strictly, and an
  append under any turn but the last one granted is refused with no effect on the log, the state
  or the world, whatever the provider, the observers and the world do.
\<close>

theorem stale_turns_append_nothing:
  assumes "session_run session p env rely w0 tr st w" and "g \<in> set (turns_granted tr)" and "g \<noteq> last (turns_granted tr)"
  shows "sorted_wrt (<) (map ag_token (turns_granted tr)) \<and>
    append_event session p env st (ag_token g) (ta_turn_id (ag_admission g)) draft w =
      (Err (TurnNotActive session (ta_turn_id (ag_admission g))), st, w)"
proof -
  note inv = session_run_inv [OF assms(1)]
  have "named_turn (ag_token g) (ta_turn_id (ag_admission g)) st = None"
    using active_is_last [OF inv _ assms(2)] assms(3) by (auto simp: named_turn_def split: option.splits)
  moreover have "sorted_wrt (<) (map ag_token (turns_granted tr))" using inv by (simp add: session_inv_def)
  ultimately show ?thesis by (simp add: append_event_def)
qed

theorem stale_turns_append_nothing_witness:
  "\<exists>tr st w. sample_reach tr st w \<and> co_active st \<noteq> None \<and>
     append_event ''s'' (jsonl_persistence sample_event_codec) sample_env st 1 ''t'' sample_draft w =
       (Err (TurnNotActive ''s'' ''t''), st, w)"
proof -
  define r where "r = sample_serve [] [CmdBegin 0, CmdAbandon 1, CmdBegin 2]"
  note run = sample_serve_runs [of "[]" "[CmdBegin 0, CmdAbandon 1, CmdBegin 2]", folded r_def]
  have "sample_grant \<in> set (turns_granted (fst r))" "sample_grant \<noteq> last (turns_granted (fst r))"
    and act: "co_active (fst (snd r)) \<noteq> None"
    unfolding r_def by code_simp+
  from stale_turns_append_nothing [OF run this(1,2), of sample_draft]
  have "append_event ''s'' (jsonl_persistence sample_event_codec) sample_env (fst (snd r)) 1 ''t'' sample_draft (snd (snd r)) =
      (Err (TurnNotActive ''s'' ''t''), fst (snd r), snd (snd r))"
    by (simp add: sample_grant_def)
  with run act show ?thesis unfolding sample_reach_def by blast
qed

text \<open>C14: A settlement is the turn: when a turn granted in a run settles, the Session's log is the
  history of the turn's admission followed by the events of the summary, it is physical, every
  event of the summary is of the turn, and none but the last is a terminal event.
\<close>

theorem settlement_is_the_turn:
  assumes "session_run session p env rely w0 tr st w" and "g \<in> set (turns_granted tr)"
    and "settle_turn session st (ag_token g) (ta_turn_id (ag_admission g)) = (Ok summary, st')"
  shows "co_events st = ta_history (ag_admission g) @ ts_events summary \<and> physical_log session (co_events st) \<and>
    (\<forall>e \<in> set (ts_events summary). se_turn_id e = ta_turn_id (ag_admission g)) \<and>
    (\<forall>e \<in> set (butlast (ts_events summary)). \<not> terminal_kind (se_kind e))"
proof -
  note inv = session_run_inv [OF assms(1)]
  from assms(3) inv show ?thesis
  proof (cases rule: settle_turn_cases)
    case (settled a)
    then have a: "co_active st = Some a" "at_token a = ag_token g" by (simp_all add: named_turn_Some)
    have l: "lease_of g a (co_events st)" using active_is_last [OF inv a(1) assms(2) a(2)] by blast
    then obtain es where es: "co_events st = ta_history (ag_admission g) @ es"
      by (auto simp: lease_of_def prefix_def)
    have "ts_events summary = es" "at_turn_id a = ta_turn_id (ag_admission g)"
      using settled(2) l es by (simp_all add: lease_of_def)
    with es l inv show ?thesis
      by (simp add: lease_of_def turn_events_wf_def session_inv_def log_wf_def)
  qed auto
qed

theorem settlement_is_the_turn_witness:
  "\<exists>tr st w. sample_reach tr st w \<and> co_events st = [sample_event] \<and> physical_log ''s'' (co_events st)"
proof -
  define r where "r = sample_serve [] [CmdBegin 0, sample_append]"
  note run = sample_serve_runs [of "[]" "[CmdBegin 0, sample_append]", folded r_def]
  define q where "q = settle_turn ''s'' (fst (snd r)) (ag_token sample_grant) (ta_turn_id (ag_admission sample_grant))"
  have g: "sample_grant \<in> set (turns_granted (fst r))" and "fst q = Ok \<lparr>ts_turn_id = ''t'', ts_events = [sample_event]\<rparr>"
    unfolding r_def q_def by code_simp+
  then have "settle_turn ''s'' (fst (snd r)) (ag_token sample_grant) (ta_turn_id (ag_admission sample_grant)) =
      (Ok \<lparr>ts_turn_id = ''t'', ts_events = [sample_event]\<rparr>, snd q)"
    by (metis q_def prod.collapse)
  from settlement_is_the_turn [OF run g this]
  have "co_events (fst (snd r)) = [sample_event] \<and> physical_log ''s'' (co_events (fst (snd r)))"
    by (auto simp: sample_grant_def)
  with run show ?thesis unfolding sample_reach_def by blast
qed

section \<open>Durability\<close>

text \<open>The observers and the surroundings only add to the durable bytes of the Session's file.\<close>

definition surroundings_keep ::
    "session_id \<Rightarrow> ('v, 'z jsonl_state_scheme) coordinator_env \<Rightarrow> ('z jsonl_state_scheme \<Rightarrow> 'z jsonl_state_scheme \<Rightarrow> bool)
       \<Rightarrow> bool" where
  "surroundings_keep session env rely \<longleftrightarrow>
     (\<forall>observe \<in> set (ce_observers env). \<forall>e s. prefix (durable_bytes session s) (durable_bytes session (snd (observe e s)))) \<and>
     (\<forall>s s'. rely s s' \<longrightarrow> prefix (durable_bytes session s) (durable_bytes session s'))"

lemma run_stable:
  assumes "session_run session (jsonl_persistence codec) env rely w0 tr st w"
    and "\<forall>e \<in> set (co_events st). event_codes codec e" and "surroundings_keep session env rely"
  shows "stable_log codec session (co_events st) w"
proof (cases "co_loaded st")
  case True
  have "steady (stable_log codec session) env rely"
    using assms(3) stable_log_mono unfolding steady_def surroundings_keep_def by blast
  from jsonl.run_secured [OF assms(1) this] assms(2) True show ?thesis by (simp add: jsonl.secured_def)
next
  case False
  then have "co_events st = []" using session_run_inv [OF assms(1)] by (simp add: session_inv_def log_wf_def)
  then show ?thesis using is_log_Nil [of codec] by (auto simp: stable_log_def)
qed

text \<open>C13: What a turn was told is committed survives: take any run of a coordinator over the JSONL
  files, whatever faults its files met, whose observers and surroundings only add to the durable
  bytes of the Session's file. After a loss of power that keeps those bytes, a load that succeeds
  returns a log that begins with the coordinator's, and every event an append acknowledged is in
  it at its sequence number.
\<close>

theorem acknowledged_events_survive:
  assumes "session_run session (jsonl_persistence codec) env rely w0 tr st w"
    and "\<forall>e \<in> set (co_events st). event_codes codec e" and "surroundings_keep session env rely"
    and "survives session w w1" and "jsonl_load codec session w1 = (Ok es, w2)" and "e \<in> acknowledged tr"
  shows "prefix (co_events st) es \<and> unat (se_seq e) < length es \<and> es ! unat (se_seq e) = e"
proof -
  have "stable_log codec session (co_events st) w" by (rule run_stable [OF assms(1-3)])
  then have pre: "prefix (co_events st) es" using assms(4,5) by (rule stable_log_survives)
  have phys: "physical_log session (co_events st)"
    using session_run_inv [OF assms(1)] by (simp add: session_inv_def log_wf_def)
  obtain i where i: "i < length (co_events st)" "co_events st ! i = e"
    using subsetD [OF acknowledged_in_log [OF assms(1)] assms(6)] by (auto simp: in_set_conv_nth)
  have "in_width 63 (length es)" by (rule jsonl_load_short [OF assms(5)])
  moreover have "length (co_events st) \<le> length es" using pre by (rule prefix_length_le)
  ultimately have "unat (se_seq e) = i" using phys i by (auto simp: physical_log_def unat_of_nat in_width_def)
  with pre i show ?thesis by (auto simp: prefix_def nth_append)
qed

theorem acknowledged_events_survive_witness:
  "\<exists>tr st w es. sample_reach tr st w \<and> sample_event \<in> acknowledged tr \<and>
     fst (jsonl_load sample_event_codec ''s'' w) = Ok es \<and> es ! 0 = sample_event"
proof -
  define r where "r = sample_serve [] [CmdBegin 0, sample_append]"
  note run = sample_serve_runs [of "[]" "[CmdBegin 0, sample_append]", folded r_def]
  define q where "q = jsonl_load sample_event_codec ''s'' (snd (snd r))"
  have log: "co_events (fst (snd r)) = [sample_event]" and load: "fst q = Ok [sample_event]"
    and reply: "snd (fst r ! 1) = [ReplyAppend 1 (Ok sample_event)]" "length (fst r) = 2"
    unfolding r_def q_def by code_simp+
  have codes: "\<forall>e \<in> set (co_events (fst (snd r))). event_codes sample_event_codec e"
    unfolding log by (simp add: event_codes_def sample_event_codec_def sample_event_def newline_def)
  have keep: "surroundings_keep ''s'' sample_env (=)" by (simp add: surroundings_keep_def sample_env_def)
  have surv: "survives ''s'' (snd (snd r)) (snd (snd r))"
    by (simp add: survives_def durable_bytes_def synced_prefix_content)
  have "fst r ! 1 \<in> set (fst r)" using reply(2) by simp
  then have ack: "sample_event \<in> acknowledged (fst r)"
    using reply(1) unfolding acknowledged_def mem_Collect_eq
    by (intro bexI [of _ "fst r ! 1"]) (auto simp: case_prod_beta)
  have "jsonl_load sample_event_codec ''s'' (snd (snd r)) = (Ok [sample_event], snd q)"
    using load by (metis q_def prod.collapse)
  from acknowledged_events_survive [OF run codes keep surv this ack]
  have "[sample_event] ! unat (se_seq sample_event) = sample_event" by simp
  then have "[sample_event] ! 0 = sample_event" by (simp add: sample_event_def)
  with run ack load show ?thesis unfolding sample_reach_def q_def by blast
qed

section \<open>Doubt\<close>

text \<open>A coordinator in doubt stops: once its log is poisoned, no command changes the log or clears
  the poison, and no append, settlement or admission succeeds.
\<close>

theorem poisoned_coordinators_stop:
  assumes "session_run session p env rely w0 tr st w" and "co_poisoned st = Some failure"
    and "handle_command session p env st c w = (replies, st', w')"
  shows "co_poisoned st' = Some failure \<and> co_events st' = co_events st \<and> w' = w \<and>
    reply_grants replies = [] \<and> (\<forall>n e s. ReplyAppend n (Ok e) \<notin> set replies \<and> ReplySettle n (Ok s) \<notin> set replies)"
  using poisoned_command [OF session_run_inv [OF assms(1)] assms(2,3)] .

theorem poisoned_coordinators_stop_witness:
  "\<exists>tr st w. sample_reach tr st w \<and>
     co_poisoned (fst (snd (handle_command ''s'' (jsonl_persistence sample_event_codec) sample_env st sample_append w))) =
       Some (PoisonPersistence (PeIo ''sync_data'' ''injected failure'' Indeterminate))"
proof -
  define r where "r = sample_serve [jsonl_fault_free, failing_sync] [CmdBegin 0, sample_append]"
  note run = sample_serve_runs [of "[jsonl_fault_free, failing_sync]" "[CmdBegin 0, sample_append]", folded r_def]
  define q where "q = handle_command ''s'' (jsonl_persistence sample_event_codec) sample_env (fst (snd r)) sample_append (snd (snd r))"
  have po: "co_poisoned (fst (snd r)) = Some (PoisonPersistence (PeIo ''sync_data'' ''injected failure'' Indeterminate))"
    unfolding r_def by code_simp
  have q: "handle_command ''s'' (jsonl_persistence sample_event_codec) sample_env (fst (snd r)) sample_append (snd (snd r)) =
      (fst q, fst (snd q), snd (snd q))"
    by (simp add: q_def)
  from poisoned_coordinators_stop [OF run po q]
  have "co_poisoned (fst (snd q)) = Some (PoisonPersistence (PeIo ''sync_data'' ''injected failure'' Indeterminate))"
    by blast
  with run show ?thesis unfolding sample_reach_def q_def by blast
qed

text \<open>Doubt is never passed over: when an append fails and leaves the coordinator unpoisoned, the
  bytes of every Session's file are what they were.
\<close>

theorem unpoisoned_failures_wrote_nothing:
  assumes "session_run session (jsonl_persistence codec) env rely w0 tr st s"
    and "append_event session (jsonl_persistence codec) env st token turn_id draft s = (Err er, st', s')"
    and "co_poisoned st' = None"
  shows "content_bytes (js_files s' (session_file_name t)) = content_bytes (js_files s (session_file_name t))"
  using assms(2) session_run_inv [OF assms(1)]
proof (cases rule: append_event_cases)
  case (committed e)
  from committed(4) show ?thesis
  proof (cases rule: commit_cases)
    case (reconciled operation message s1)
    have "jsonl_commit codec e s = (Err (PeIo operation message Indeterminate), s1)"
      using reconciled(1) by (simp add: jsonl_persistence_def)
    then have "gt_uncertain (gate_for session s1) \<noteq> None"
      using jsonl_commit_Err [of codec e s] committed(1) by (auto simp: doubtful_def next_event_def)
    from jsonl_load_latched [OF this]
    have "sp_load (jsonl_persistence codec) session s1 \<noteq> (Ok es, s2)" for es s2
      by (simp add: jsonl_persistence_def)
    with reconciled(2) assms(3) show ?thesis by (cases rule: reconcile_cases) auto
  next
    case (refused er' x)
    then have "jsonl_commit codec e s = (Err er', s')" "\<not> doubtful er'"
      by (auto simp: jsonl_persistence_def doubtful_def)
    with jsonl_commit_Err [of codec e s er' s'] show ?thesis by simp
  qed auto
qed auto

theorem unpoisoned_failures_wrote_nothing_witness:
  "\<exists>tr st w. sample_reach tr st w \<and>
     fst (append_event ''s'' (jsonl_persistence sample_event_codec) sample_env st 1 ''t'' sample_draft w) =
       Err (RtPersistence (PeIo ''read'' ''injected failure'' DefinitelyNotCommitted)) \<and>
     content_bytes (js_files (snd (snd (append_event ''s'' (jsonl_persistence sample_event_codec) sample_env st 1 ''t''
       sample_draft w))) (session_file_name ''s'')) = content_bytes (js_files w (session_file_name ''s''))"
proof -
  define r where "r = sample_serve [jsonl_fault_free, failing_read] [CmdBegin 0]"
  note run = sample_serve_runs [of "[jsonl_fault_free, failing_read]" "[CmdBegin 0]", folded r_def]
  define q where "q = append_event ''s'' (jsonl_persistence sample_event_codec) sample_env (fst (snd r)) 1 ''t'' sample_draft (snd (snd r))"
  have er: "fst q = Err (RtPersistence (PeIo ''read'' ''injected failure'' DefinitelyNotCommitted))"
    and po: "co_poisoned (fst (snd q)) = None"
    unfolding r_def q_def by code_simp+
  then have "append_event ''s'' (jsonl_persistence sample_event_codec) sample_env (fst (snd r)) 1 ''t'' sample_draft (snd (snd r)) =
      (Err (RtPersistence (PeIo ''read'' ''injected failure'' DefinitelyNotCommitted)), fst (snd q), snd (snd q))"
    by (metis q_def prod.collapse)
  from unpoisoned_failures_wrote_nothing [OF run this po, of "''s''"] run er
  show ?thesis unfolding sample_reach_def q_def by blast
qed

text \<open>File names are reversible: the name of a Session's file, decoded, is the Session's id, and two
  Sessions never share a file.
\<close>

theorem file_names_reversible:
  assumes "valid_utf8 session"
  shows "session_id_from_file_name (session_file_name session) = Some session \<and>
    (\<forall>t. session_file_name t = session_file_name session \<longrightarrow> t = session)"
  using assms by (simp add: session_id_from_session_file_name)

theorem file_names_reversible_witness:
  "session_file_name ''s/1'' = ''session-732f31.jsonl'' \<and> session_id_from_file_name ''session-732f31.jsonl'' = Some ''s/1''"
proof -
  have "valid_utf8 ''s/1''" and eq: "session_file_name ''s/1'' = ''session-732f31.jsonl''" by code_simp+
  from file_names_reversible [OF this(1)] show ?thesis unfolding eq by simp
qed

end
