(* ===== verification/ModelProps.thy ===== *)
theory ModelProps
  imports ModelProtocol
begin

text \<open>
  The properties of the model protocol: what conversations \<open>validate_messages\<close> accepts, that a
  complete response extends a valid conversation, and that the stream accumulator computes a
  function of the concatenated fragments.
\<close>

section \<open>Conversations\<close>

lemma assistant_scan:
  "for_each (assistant_call_step js) calls ids = Ok ids' \<longleftrightarrow>
     ids' = rev (map tc_id calls) @ ids \<and> distinct (map tc_id calls) \<and>
     set (map tc_id calls) \<inter> set ids = {} \<and>
     (\<forall>c \<in> set calls. \<not> is_blank (tc_name c) \<and> js_is_object js (tc_arguments c))"
proof (induction calls arbitrary: ids)
  case (Cons c calls)
  have "for_each (assistant_call_step js) (c # calls) ids = Ok ids' \<longleftrightarrow>
      \<not> is_blank (tc_name c) \<and> js_is_object js (tc_arguments c) \<and> tc_id c \<notin> set ids \<and>
      for_each (assistant_call_step js) calls (tc_id c # ids) = Ok ids'"
    by (auto simp: assistant_call_step_def validate_name_def)
  then show ?case by (auto simp: Cons.IH)
qed auto

lemma validate_assistant_iff:
  "validate_assistant js content calls = Ok u \<longleftrightarrow>
     (content \<noteq> None \<or> calls \<noteq> []) \<and> distinct (map tc_id calls) \<and>
     (\<forall>c \<in> set calls. \<not> is_blank (tc_name c) \<and> js_is_object js (tc_arguments c))"
  by (auto simp: validate_assistant_def assistant_scan simp del: for_each.simps)

text \<open>
  A group of a conversation: a system or user message, or an assistant message followed by the
  results of exactly its calls, in any order.
\<close>

definition message_group :: "'v json_ops \<Rightarrow> 'v model_message list \<Rightarrow> bool" where
  "message_group js g \<longleftrightarrow>
     (\<exists>s. g = [System s]) \<or> (\<exists>s. g = [User s]) \<or>
     (\<exists>content calls results. g = Assistant content calls # map (\<lambda>(i, t). Tool i t) results \<and>
        validate_assistant js content calls = Ok () \<and> mset (map fst results) = mset (map tc_id calls))"

definition conversation :: "'v json_ops \<Rightarrow> 'v model_message list \<Rightarrow> bool" where
  "conversation js ms \<longleftrightarrow> (\<exists>gs. ms = concat gs \<and> (\<forall>g \<in> set gs. message_group js g))"

lemma conversation_Nil [simp]: "conversation js []"
  by (auto simp: conversation_def intro: exI [of _ "[]"])

lemma conversation_append: "conversation js a \<Longrightarrow> conversation js b \<Longrightarrow> conversation js (a @ b)"
  unfolding conversation_def by (metis concat_append set_append UnE)

lemma conversation_group: "message_group js g \<Longrightarrow> conversation js g"
  unfolding conversation_def by (rule exI [of _ "[g]"]) simp

lemma conversation_Cons:
  assumes "conversation js (m # ms)"
  obtains g rest where "message_group js g" "m # ms = g @ rest" "conversation js rest"
proof -
  obtain gs where gs: "m # ms = concat gs" "\<forall>g \<in> set gs. message_group js g"
    using assms by (auto simp: conversation_def)
  then obtain g gs' where "gs = g # gs'" by (cases gs) auto
  with gs show thesis by (intro that [of g "concat gs'"]) (auto simp: conversation_def)
qed

lemma conversation_head:
  "\<not> conversation js (Tool i t # ms)"
  "conversation js (System s # ms) \<longleftrightarrow> conversation js ms"
  "conversation js (User s # ms) \<longleftrightarrow> conversation js ms"
proof -
  show "\<not> conversation js (Tool i t # ms)"
    by (auto elim!: conversation_Cons simp: message_group_def)
  show "conversation js (System s # ms) \<longleftrightarrow> conversation js ms"
    using conversation_append [of js "[System s]" ms] conversation_group [of js "[System s]"]
    by (auto elim!: conversation_Cons simp: message_group_def)
  show "conversation js (User s # ms) \<longleftrightarrow> conversation js ms"
    using conversation_append [of js "[User s]" ms] conversation_group [of js "[User s]"]
    by (auto elim!: conversation_Cons simp: message_group_def)
qed

text \<open>Open results: the results of the calls still pending, then a conversation.\<close>

definition resumes :: "'v json_ops \<Rightarrow> string list \<Rightarrow> 'v model_message list \<Rightarrow> bool" where
  "resumes js pending ms \<longleftrightarrow>
     (\<exists>results rest. ms = map (\<lambda>(i, t). Tool i t) results @ rest \<and>
        mset (map fst results) = mset pending \<and> conversation js rest)"

lemma resumes_none: "resumes js [] ms \<longleftrightarrow> conversation js ms"
  by (auto simp: resumes_def)

lemma resumes_Nil: "resumes js pending [] \<longleftrightarrow> pending = []"
  by (auto simp: resumes_def)

lemma resumes_Tool:
  assumes "distinct pending"
  shows "resumes js pending (Tool i t # ms) \<longleftrightarrow> i \<in> set pending \<and> resumes js (removeAll i pending) ms"
proof -
  have rm: "mset (removeAll i pending) = mset pending - {#i#}" if "i \<in> set pending"
    using assms by (metis distinct_remove1_removeAll mset_remove1)
  show ?thesis
  proof
    assume "resumes js pending (Tool i t # ms)"
    then obtain results rest where r: "Tool i t # ms = map (\<lambda>(i, t). Tool i t) results @ rest"
      "mset (map fst results) = mset pending" "conversation js rest"
      by (auto simp: resumes_def)
    then obtain results' where "results = (i, t) # results'" "ms = map (\<lambda>(i, t). Tool i t) results' @ rest"
      using conversation_head(1) by (cases results) auto
    moreover from this have "i \<in> set pending"
      using r(2) by (metis list.set_intros(1) list.simps(9) fst_conv set_mset_mset)
    ultimately show "i \<in> set pending \<and> resumes js (removeAll i pending) ms"
      using r rm unfolding resumes_def by (metis add_mset_remove_trivial fst_conv list.simps(9) mset.simps(2))
  next
    assume a: "i \<in> set pending \<and> resumes js (removeAll i pending) ms"
    then obtain results rest where r: "ms = map (\<lambda>(i, t). Tool i t) results @ rest"
      "mset (map fst results) = mset pending - {#i#}" "conversation js rest"
      by (auto simp: resumes_def rm)
    then have "mset (map fst ((i, t) # results)) = mset pending" using a by simp
    with r show "resumes js pending (Tool i t # ms)"
      unfolding resumes_def by (intro exI [of _ "(i, t) # results"] exI [of _ rest]) simp
  qed
qed

lemma resumes_other:
  assumes "\<And>i t. m \<noteq> Tool i t"
  shows "resumes js pending (m # ms) \<longleftrightarrow> pending = [] \<and> conversation js (m # ms)"
  using assms by (auto simp: resumes_def Cons_eq_append_conv split: prod.splits)

lemma conversation_Assistant:
  "conversation js (Assistant content calls # ms) \<longleftrightarrow>
     validate_assistant js content calls = Ok () \<and> resumes js (map tc_id calls) ms"
proof
  assume "conversation js (Assistant content calls # ms)"
  then obtain g rest where g: "message_group js g" and ms: "Assistant content calls # ms = g @ rest"
    and rest: "conversation js rest"
    by (rule conversation_Cons)
  obtain results where "g = Assistant content calls # map (\<lambda>(i, t). Tool i t) results"
    "validate_assistant js content calls = Ok ()" "mset (map fst results) = mset (map tc_id calls)"
    using g ms by (auto simp: message_group_def)
  with ms rest show "validate_assistant js content calls = Ok () \<and> resumes js (map tc_id calls) ms"
    unfolding resumes_def by (metis append_Cons list.inject)
next
  assume a: "validate_assistant js content calls = Ok () \<and> resumes js (map tc_id calls) ms"
  then obtain results rest where r: "ms = map (\<lambda>(i, t). Tool i t) results @ rest"
    "mset (map fst results) = mset (map tc_id calls)" "conversation js rest"
    by (auto simp: resumes_def)
  then have "message_group js (Assistant content calls # map (\<lambda>(i, t). Tool i t) results)"
    using a unfolding message_group_def by blast
  with r show "conversation js (Assistant content calls # ms)"
    using conversation_append conversation_group by fastforce
qed

lemma message_scan_iff:
  assumes "distinct pending"
  shows "for_each (message_step js) (enumerate n ms) pending = Ok [] \<longleftrightarrow> resumes js pending ms"
  using assms
proof (induction ms arbitrary: pending n)
  case Nil
  show ?case by (simp add: resumes_Nil)
next
  case (Cons m ms)
  show ?case
  proof (cases m)
    case (System s)
    with Cons.IH [of "[]"] show ?thesis
      by (auto simp: message_step_def resumes_other conversation_head resumes_none)
  next
    case (User s)
    with Cons.IH [of "[]"] show ?thesis
      by (auto simp: message_step_def resumes_other conversation_head resumes_none)
  next
    case (Assistant content calls)
    have "validate_assistant js content calls = Ok () \<Longrightarrow> distinct (map tc_id calls)"
      by (simp add: validate_assistant_iff)
    with Assistant Cons.IH [of "map tc_id calls"] show ?thesis
      by (auto simp: message_step_def resumes_other conversation_Assistant)
  next
    case (Tool i t)
    with Cons.IH [of "removeAll i pending"] Cons.prems show ?thesis
      by (auto simp: message_step_def resumes_Tool distinct_removeAll)
  qed
qed

lemma validate_messages_Ok:
  "validate_messages js ms = Ok () \<longleftrightarrow>
     ms \<noteq> [] \<and> for_each (message_step js) (enumerate 0 ms) [] = Ok []"
  by (auto simp: validate_messages_def split: if_splits)

text \<open>A sample of JSON operations: the values are strings, objects start with a brace.\<close>

definition sample_json :: "string json_ops" where
  "sample_json = \<lparr>js_is_object = (\<lambda>v. v \<noteq> [] \<and> hd v = CHR ''{''), js_is_boolean = (\<lambda>v. v = ''true'' \<or> v = ''false''),
     js_from_str = Some\<rparr>"

definition sample_call :: "string model_tool_call" where
  "sample_call = \<lparr>tc_id = ''a'', tc_name = ''b'', tc_arguments = ''{''\<rparr>"

text \<open>\<open>validate_messages\<close> accepts exactly the nonempty conversations in which every
  assistant message has content or calls, its calls have distinct ids, names and object
  arguments, and is followed, before any other message, by the results of exactly its calls in
  any order; every tool result belongs to such a group.\<close>

theorem validate_messages_iff:
  "validate_messages js ms = Ok () \<longleftrightarrow> ms \<noteq> [] \<and> conversation js ms"
  by (simp add: validate_messages_Ok message_scan_iff resumes_none)

text \<open>A complete response turned into a message, followed by one result for each of its
  calls, extends every valid conversation to a valid conversation; so a response that passed
  \<open>validate_shape_for\<close> can always be put back into the model context.\<close>

theorem response_extends_conversation:
  assumes "validate_messages js ms = Ok ()" and "validate_shape_for js request response = Ok ()"
    and "mset (map fst results) = mset (map tc_id (rs_tool_calls response))"
  shows "\<exists>m. into_message js response = Ok m \<and>
    validate_messages js (ms @ m # map (\<lambda>(i, t). Tool i t) results) = Ok ()"
proof -
  have complete: "validate_complete js response = Ok ()"
    using assms(2) by (auto simp: validate_shape_for_def)
  then have "validate_assistant js (rs_content response) (rs_tool_calls response) = Ok ()"
    by (auto simp: validate_complete_def split: if_splits)
  then have "message_group js (Assistant (rs_content response) (rs_tool_calls response) # map (\<lambda>(i, t). Tool i t) results)"
    using assms(3) unfolding message_group_def by blast
  then have "conversation js (ms @ Assistant (rs_content response) (rs_tool_calls response) # map (\<lambda>(i, t). Tool i t) results)"
    using assms(1) by (intro conversation_append [OF _ conversation_group])
      (simp_all add: validate_messages_Ok message_scan_iff resumes_none)
  then show ?thesis
    using complete by (simp add: into_message_def validate_messages_Ok message_scan_iff resumes_none)
qed

definition sample_model_request :: "string generation_request" where
  "sample_model_request = \<lparr>rg_messages = [User ''hi''],
     rg_constraint = NativeTools [\<lparr>td_name = ''b'', td_description = [], td_parameters = ''{''\<rparr>] Auto\<rparr>"

definition sample_response :: "string generation_response" where
  "sample_response = \<lparr>rs_content = None, rs_tool_calls = [sample_call], rs_incomplete_tool_calls = [],
     rs_finish_reason = ToolCalls, rs_usage = \<lparr>tk_input_tokens = None, tk_output_tokens = None, tk_total_tokens = None\<rparr>\<rparr>"

theorem response_extends_conversation_witness:
  "\<exists>m. into_message sample_json sample_response = Ok m \<and>
     validate_messages sample_json ([User ''hi''] @ m # map (\<lambda>(i, t). Tool i t) [(''a'', ''done'')]) = Ok ()"
proof (rule response_extends_conversation)
  show "validate_messages sample_json [User ''hi''] = Ok ()"
    by (simp add: validate_messages_def message_step_def)
  show "validate_shape_for sample_json sample_model_request sample_response = Ok ()"
    by (simp add: validate_shape_for_def validate_shape_def validate_messages_def message_step_def
        sample_model_request_def sample_response_def sample_call_def tool_definition_step_def validate_name_def
        validate_schema_shape_def sample_json_def is_blank_def validate_complete_def validate_assistant_def
        assistant_call_step_def offered_call_step_def)
qed (simp add: sample_response_def sample_call_def)

section \<open>The accumulator\<close>

text \<open>What a list of deltas says: the whole text, the indexes that occur, and for an index the
  concatenation of its fragments.\<close>

definition text_of :: "generation_delta list \<Rightarrow> string option" where
  "text_of ds =
     (if list_ex (\<lambda>d. case d of TextDelta _ \<Rightarrow> True | _ \<Rightarrow> False) ds
      then Some (concat (map (\<lambda>d. case d of TextDelta t \<Rightarrow> t | _ \<Rightarrow> []) ds)) else None)"

definition indexes_of :: "generation_delta list \<Rightarrow> u32 set" where
  "indexes_of ds = {i. \<exists>a b c. ToolCallDelta i a b c \<in> set ds}"

definition part_of :: "(generation_delta \<Rightarrow> string) \<Rightarrow> u32 \<Rightarrow> generation_delta list \<Rightarrow> string" where
  "part_of f i ds = concat (map f (filter (\<lambda>d. case d of ToolCallDelta j _ _ _ \<Rightarrow> j = i | _ \<Rightarrow> False) ds))"

definition fragment_of :: "generation_delta list \<Rightarrow> u32 \<Rightarrow> tool_call_fragment" where
  "fragment_of ds i = \<lparr>fr_index = i,
     fr_id = part_of (\<lambda>d. case d of ToolCallDelta _ a _ _ \<Rightarrow> unwrap_or_empty a | _ \<Rightarrow> []) i ds,
     fr_name = part_of (\<lambda>d. case d of ToolCallDelta _ _ b _ \<Rightarrow> unwrap_or_empty b | _ \<Rightarrow> []) i ds,
     fr_arguments = part_of (\<lambda>d. case d of ToolCallDelta _ _ _ c \<Rightarrow> c | _ \<Rightarrow> []) i ds\<rparr>"

definition represents :: "generation_limits \<Rightarrow> generation_delta list \<Rightarrow> generation_accumulator \<Rightarrow> bool" where
  "represents limits ds acc \<longleftrightarrow>
     ac_limits acc = limits \<and> ac_bytes acc = sum_list (map delta_bytes ds) \<and>
     ac_bytes acc \<le> gl_max_output_bytes limits \<and>
     gp_content (ac_partial acc) = text_of ds \<and>
     length (gp_tool_calls (ac_partial acc)) \<le> gl_max_tool_calls limits \<and>
     distinct (map fr_index (gp_tool_calls (ac_partial acc))) \<and>
     set (gp_tool_calls (ac_partial acc)) = fragment_of ds ` indexes_of ds"

lemma extend_first_set:
  "distinct (map fr_index cs) \<Longrightarrow> set (extend_first i f cs) = (\<lambda>c. if fr_index c = i then f c else c) ` set cs"
proof (induction cs)
  case (Cons c cs)
  then show ?case
  proof (cases "fr_index c = i")
    case True
    have "fr_index x \<noteq> i" if "x \<in> set cs" for x
      using Cons.prems True that by (metis distinct.simps(2) image_eqI list.set_map list.simps(9))
    then have "(\<lambda>c. if fr_index c = i then f c else c) ` set cs = (\<lambda>c. c) ` set cs"
      by (intro image_cong) auto
    with True show ?thesis by simp
  qed auto
qed simp

lemma extend_first_index:
  "(\<And>c. fr_index (f c) = fr_index c) \<Longrightarrow> map fr_index (extend_first i f cs) = map fr_index cs"
  by (induction cs) auto

lemma length_extend_first [simp]: "length (extend_first i f cs) = length cs"
  by (induction cs) auto

lemma part_of_append: "part_of f i (ds @ es) = part_of f i ds @ part_of f i es"
  by (simp add: part_of_def)

lemma fragment_of_other:
  "(\<And>a b c. d \<noteq> ToolCallDelta i a b c) \<Longrightarrow> fragment_of (ds @ [d]) i = fragment_of ds i"
  by (cases d) (auto simp: fragment_of_def part_of_def)

lemma fragment_of_snoc:
  "fragment_of (ds @ [ToolCallDelta i a b c]) i = extend_fragment a b c (fragment_of ds i)"
  by (simp add: fragment_of_def extend_fragment_def part_of_def)

lemma fragment_of_fresh:
  "i \<notin> indexes_of ds \<Longrightarrow> fragment_of ds i = \<lparr>fr_index = i, fr_id = [], fr_name = [], fr_arguments = []\<rparr>"
  by (auto simp: fragment_of_def part_of_def indexes_of_def split: generation_delta.splits)

lemma index_fragment [simp]: "fr_index (fragment_of ds i) = i"
  by (simp add: fragment_of_def)

lemma index_extend [simp]: "fr_index (extend_fragment a b c x) = fr_index x"
  by (simp add: extend_fragment_def)

lemma represents_push:
  assumes "represents limits ds acc" and "push d acc = Ok acc'"
  shows "represents limits (ds @ [d]) acc'"
proof (cases d)
  case (TextDelta t)
  have idx: "indexes_of (ds @ [d]) = indexes_of ds" by (auto simp: indexes_of_def TextDelta)
  have frag: "fragment_of (ds @ [d]) = fragment_of ds"
    by (rule ext) (simp add: fragment_of_other TextDelta)
  have "text_of (ds @ [d]) = Some (unwrap_or_empty (text_of ds) @ t)"
  proof -
    have "list_all (\<lambda>d. \<not> (case d of TextDelta _ \<Rightarrow> True | _ \<Rightarrow> False)) ds \<Longrightarrow>
        concat (map (\<lambda>d. case d of TextDelta t \<Rightarrow> t | _ \<Rightarrow> []) ds) = []"
      by (induction ds) (auto split: generation_delta.splits)
    then show ?thesis
      by (auto simp: text_of_def TextDelta unwrap_or_empty_def list_ex_iff list_all_iff)
  qed
  then show ?thesis
    using assms by (auto simp: represents_def push_def TextDelta idx [unfolded TextDelta] frag [unfolded TextDelta]
        usize_checked_add_def split: if_splits)
next
  case (ToolCallDelta i a b c)
  let ?cs = "gp_tool_calls (ac_partial acc)"
  have content: "text_of (ds @ [d]) = text_of ds" by (auto simp: text_of_def ToolCallDelta)
  have idx: "indexes_of (ds @ [d]) = insert i (indexes_of ds)" by (auto simp: indexes_of_def ToolCallDelta)
  have known: "list_ex (\<lambda>call. fr_index call = i) ?cs \<longleftrightarrow> i \<in> indexes_of ds"
    using assms(1) by (auto simp: represents_def list_ex_iff)
  let ?cs1 = "if i \<in> indexes_of ds then ?cs else ?cs @ [fragment_of ds i]"
  have cs1: "distinct (map fr_index ?cs1)" "set ?cs1 = fragment_of ds ` insert i (indexes_of ds)"
    using assms(1) by (auto simp: represents_def)
  have acc': "acc' = acc\<lparr>ac_partial := (ac_partial acc)\<lparr>gp_tool_calls := extend_first i (extend_fragment a b c) ?cs1\<rparr>,
        ac_bytes := ac_bytes acc + delta_bytes d\<rparr>"
    and bytes: "ac_bytes acc + delta_bytes d \<le> gl_max_output_bytes (ac_limits acc)"
    and len: "length ?cs1 \<le> gl_max_tool_calls (ac_limits acc)"
    using assms known
    by (auto simp: push_def push_tool_call_def ToolCallDelta usize_checked_add_def fragment_of_fresh represents_def
        split: if_splits)
  have "set (extend_first i (extend_fragment a b c) ?cs1) = fragment_of (ds @ [d]) ` insert i (indexes_of ds)"
    unfolding extend_first_set [OF cs1(1)] cs1(2) image_image
    by (intro image_cong refl) (auto simp: ToolCallDelta fragment_of_snoc fragment_of_other)
  then show ?thesis
    using assms(1) cs1(1) bytes len content idx
    by (auto simp: represents_def acc' extend_first_index simp del: delta_bytes.simps)
qed

lemma represents_stream:
  "for_each push ds (accumulator_new limits) = Ok acc \<Longrightarrow> represents limits ds acc"
proof (induction ds arbitrary: acc rule: rev_induct)
  case Nil
  then show ?case
    by (auto simp: represents_def accumulator_new_def text_of_def indexes_of_def)
next
  case (snoc d ds)
  then obtain acc1 where "for_each push ds (accumulator_new limits) = Ok acc1" "push d acc1 = Ok acc"
    by (auto simp: for_each_append)
  with snoc.IH represents_push show ?case by blast
qed

lemma card_indexes:
  assumes "represents limits ds acc"
  shows "card (indexes_of ds) = length (gp_tool_calls (ac_partial acc))"
proof -
  have "indexes_of ds = fr_index ` set (gp_tool_calls (ac_partial acc))"
    using assms by (auto simp: represents_def image_image)
  then show ?thesis
    using assms by (simp add: represents_def card_image distinct_map distinct_card)
qed

lemma finite_indexes [simp]: "finite (indexes_of ds)"
proof -
  have "indexes_of ds \<subseteq> (\<lambda>d. case d of ToolCallDelta i _ _ _ \<Rightarrow> i | _ \<Rightarrow> 0) ` set ds"
    by (force simp: indexes_of_def)
  then show ?thesis by (rule finite_subset) simp
qed

lemma push_Ok_iff:
  assumes "represents limits ds acc"
  shows "is_ok (push d acc) \<longleftrightarrow>
    sum_list (map delta_bytes (ds @ [d])) \<le> min usize_max (gl_max_output_bytes limits) \<and>
    card (indexes_of (ds @ [d])) \<le> gl_max_tool_calls limits"
proof (cases d)
  case (TextDelta t)
  have "indexes_of (ds @ [d]) = indexes_of ds" by (auto simp: indexes_of_def TextDelta)
  with assms card_indexes [OF assms] TextDelta show ?thesis
    by (auto simp: push_def represents_def usize_checked_add_def is_ok_iff split: if_splits)
next
  case (ToolCallDelta i a b c)
  have idx: "indexes_of (ds @ [d]) = insert i (indexes_of ds)" by (auto simp: indexes_of_def ToolCallDelta)
  have known: "list_ex (\<lambda>call. fr_index call = i) (gp_tool_calls (ac_partial acc)) \<longleftrightarrow> i \<in> indexes_of ds"
    using assms by (auto simp: represents_def list_ex_iff)
  show ?thesis
    using assms card_indexes [OF assms] known
    by (auto simp: idx [unfolded ToolCallDelta] push_def represents_def ToolCallDelta usize_checked_add_def push_tool_call_def is_ok_iff
        card_insert_if not_le Suc_le_eq simp del: delta_bytes.simps split: if_splits)
qed

text \<open>A stream of deltas is accepted exactly when its bytes are within the byte limit (and
  the machine's) and its tool calls within the call limit; the accumulator then holds the
  concatenated text and, for each index that occurred, one fragment with the concatenated ids,
  names and arguments of that index, however the stream interleaved them.\<close>

theorem stream_accumulates:
  "(case for_each push ds (accumulator_new limits) of
      Ok acc \<Rightarrow>
        gp_content (ac_partial acc) = text_of ds \<and>
        distinct (map fr_index (gp_tool_calls (ac_partial acc))) \<and>
        set (gp_tool_calls (ac_partial acc)) = fragment_of ds ` indexes_of ds \<and>
        ac_bytes acc = sum_list (map delta_bytes ds)
    | Err e \<Rightarrow> e = OutputLimitExceeded
    | Panic \<Rightarrow> False) \<and>
   (is_ok (for_each push ds (accumulator_new limits)) \<longleftrightarrow>
      sum_list (map delta_bytes ds) \<le> min usize_max (gl_max_output_bytes limits) \<and>
      card (indexes_of ds) \<le> gl_max_tool_calls limits)"
proof -
  have err: "push d acc \<noteq> Panic" "push d acc = Err e \<Longrightarrow> e = OutputLimitExceeded" for d acc e
    by (cases d; auto simp: push_def push_tool_call_def and_then_eq_Err and_then_eq_Panic simp del: delta_bytes.simps
        split: if_splits)+
  have "for_each push ds acc \<noteq> Panic" for acc by (rule for_each_no_panic) (simp add: err)
  moreover have "for_each push ds acc = Err e \<Longrightarrow> e = OutputLimitExceeded" for acc e
    by (induction ds arbitrary: acc) (auto simp: and_then_eq_Err err)
  moreover have "is_ok (for_each push ds (accumulator_new limits)) \<longleftrightarrow>
      sum_list (map delta_bytes ds) \<le> min usize_max (gl_max_output_bytes limits) \<and>
      card (indexes_of ds) \<le> gl_max_tool_calls limits"
  proof (induction ds rule: rev_induct)
    case Nil
    show ?case by (simp add: indexes_of_def)
  next
    case (snoc d ds)
    have mono: "indexes_of ds \<subseteq> indexes_of (ds @ [d])" by (auto simp: indexes_of_def)
    show ?case
    proof (cases "for_each push ds (accumulator_new limits)")
      case (Ok acc)
      then show ?thesis using push_Ok_iff [OF represents_stream [OF Ok], of d]
        by (cases "push d acc") (simp_all add: for_each_append)
    next
      case (Err e)
      with snoc card_mono [OF _ mono] show ?thesis by (auto simp: for_each_append)
    next
      case Panic
      then show ?thesis using for_each_no_panic [of ds push] err by blast
    qed
  qed
  ultimately show ?thesis
    using represents_stream [of ds limits]
    by (auto simp: represents_def split: outcome.splits)
qed

text \<open>The response depends only on what was streamed, not on how it was cut: two accepted
  streams with the same text and the same fragments per index give the same response for every
  finish reason, with the calls in index order.\<close>

theorem chunking_is_irrelevant:
  assumes "for_each push ds (accumulator_new limits) = Ok acc"
    and "for_each push es (accumulator_new limits) = Ok acc'"
    and "text_of ds = text_of es" and "indexes_of ds = indexes_of es"
    and "\<And>i. i \<in> indexes_of ds \<Longrightarrow> fragment_of ds i = fragment_of es i"
  shows "accumulator_response js acc reason usage = accumulator_response js acc' reason usage"
proof -
  let ?c = "gp_tool_calls (ac_partial acc)" and ?c' = "gp_tool_calls (ac_partial acc')"
  note r = represents_stream [OF assms(1), unfolded represents_def] represents_stream [OF assms(2), unfolded represents_def]
  have set: "set ?c = set ?c'" using r assms(4,5) by auto
  have dist: "distinct (map fr_index ?c)" "distinct (map fr_index ?c')" using r by blast+
  then have "distinct ?c" "distinct ?c'" by (simp_all add: distinct_map)
  with set have "mset ?c = mset ?c'" by (simp add: set_eq_iff_mset_eq_distinct)
  moreover have "inj_on fr_index (set ?c)" using dist by (simp add: distinct_map)
  ultimately have "sort_key fr_index ?c = sort_key fr_index ?c'" by (rule sort_key_eq_sort_key)
  then show ?thesis using r assms(3) by (simp add: accumulator_response_def)
qed

definition sample_stream :: "generation_delta list" where
  "sample_stream = [TextDelta ''he'', ToolCallDelta 1 (Some ''a'') (Some ''b'') ''{'', TextDelta ''y'', ToolCallDelta 1 None None ''}'']"

definition sample_stream' :: "generation_delta list" where
  "sample_stream' = [ToolCallDelta 1 (Some ''a'') (Some ''b'') ''{}'', TextDelta ''hey'']"

theorem chunking_is_irrelevant_witness:
  "\<exists>acc acc'. for_each push sample_stream (accumulator_new default_generation_limits) = Ok acc \<and>
     for_each push sample_stream' (accumulator_new default_generation_limits) = Ok acc' \<and>
     (\<forall>u. accumulator_response sample_json acc ToolCalls u = accumulator_response sample_json acc' ToolCalls u)"
proof -
  obtain acc where a: "for_each push sample_stream (accumulator_new default_generation_limits) = Ok acc"
    by (simp add: sample_stream_def push_def accumulator_new_def usize_checked_add_def usize_saturating_add_def
        usize_max_def default_generation_limits_def unwrap_or_empty_def push_tool_call_def)
  obtain acc' where b: "for_each push sample_stream' (accumulator_new default_generation_limits) = Ok acc'"
    by (simp add: sample_stream'_def push_def accumulator_new_def usize_checked_add_def usize_saturating_add_def
        usize_max_def default_generation_limits_def unwrap_or_empty_def push_tool_call_def)
  have t: "text_of sample_stream = text_of sample_stream'"
    by (simp add: text_of_def sample_stream_def sample_stream'_def)
  have i: "indexes_of sample_stream = indexes_of sample_stream'" "indexes_of sample_stream = {1}"
    by (auto simp: indexes_of_def sample_stream_def sample_stream'_def)
  have f: "fragment_of sample_stream 1 = fragment_of sample_stream' 1"
    by (simp add: fragment_of_def part_of_def sample_stream_def sample_stream'_def unwrap_or_empty_def)
  have "accumulator_response sample_json acc ToolCalls u = accumulator_response sample_json acc' ToolCalls u" for u
    by (rule chunking_is_irrelevant [OF a b t i(1)]) (use f in \<open>simp add: i(2)\<close>)
  with a b show ?thesis by blast
qed

end
