(* ===== verification/LlmContracts.thy ===== *)
theory LlmContracts
  imports SessionLog BudgetRecords
begin

text \<open>
  The contracts of controlled model access, \<open>crates/llm/llm/src/lib.rs\<close>, \<open>scheduling.rs\<close> and
  \<open>budget.rs\<close>: call options, errors, the records of a call, the failures that close a turn, and the
  scheduler's configuration and observations. Traits are the parameters of the theories that call
  them.
\<close>

section \<open>Calls\<close>

record generation_options =
  go_context :: "decision_context option"
  go_max_tokens :: "u32 option"
  go_timeout :: "duration option"
  go_limits :: generation_limits

datatype llm_error =
    LeUpstream u16 string
  | LeTimeout
  | LeStreamParse string
  | LeProtocol model_protocol_error
  | LeCancelled
  | LeAdapter string

datatype 'v model_record =
    RecRequest "'v model_request"
  | RecResult "'v model_result"

fun into_session_event_kind :: "'v model_record \<Rightarrow> 'v session_event_kind" where
  "into_session_event_kind (RecRequest request) = ModelRequestEvent request"
| "into_session_event_kind (RecResult result) = ModelResultEvent result"

datatype model_finish_mode = FinishGraceful | FinishCancel

datatype model_record_stage = StageRequest | StageResult

datatype 'v model_record_failure =
    MfSession "'v session_runtime_error"
  | MfRecorderPanicked
  | MfBudget budget_error

fun source_error :: "'v model_record_failure \<Rightarrow> 'v session_runtime_error option" where
  "source_error (MfSession source) = Some source"
| "source_error MfRecorderPanicked = None"
| "source_error (MfBudget _) = None"

record 'v model_closure_failure =
  cf_request :: "'v model_request"
  cf_result :: "'v model_result option"
  cf_stage :: model_record_stage
  cf_source :: "'v model_record_failure"

definition request_failure :: "'v model_request \<Rightarrow> 'v model_record_failure \<Rightarrow> 'v model_closure_failure" where
  "request_failure request source =
     \<lparr>cf_request = request, cf_result = None, cf_stage = StageRequest, cf_source = source\<rparr>"

definition result_failure ::
    "'v model_request \<Rightarrow> 'v model_result \<Rightarrow> 'v model_record_failure \<Rightarrow> 'v model_closure_failure" where
  "result_failure request result source =
     \<lparr>cf_request = request, cf_result = Some result, cf_stage = StageResult, cf_source = source\<rparr>"

section \<open>Scheduling vocabulary\<close>

record model_scheduler_config =
  sc_max_concurrency :: usize
  sc_max_queued :: usize
  sc_max_inflight :: usize
  sc_max_request_bytes :: usize

definition default_scheduler_config :: model_scheduler_config where
  "default_scheduler_config = \<lparr>sc_max_concurrency = 4, sc_max_queued = 32, sc_max_inflight = 64,
     sc_max_request_bytes = 8 * 1024 * 1024\<rparr>"

datatype model_overload_kind = QueueFull | InflightFull

datatype model_job_phase = JobQueued | JobPreparing | JobExecuting | JobCleaning

datatype model_job_stop_reason =
    StopBudget | StopCancelled | StopQueueTimeout | StopTimeout | StopConsumerDropped | StopFailed

record model_job_report =
  jr_call_id :: model_call_id
  jr_phase :: model_job_phase
  jr_recording :: "model_record_stage option"
  jr_request_recorded :: bool
  jr_result_recorded :: bool
  jr_stop_reason :: "model_job_stop_reason option"
  jr_timeout :: duration
  jr_remaining_time :: duration
  jr_queue_time :: duration
  jr_preparation_time :: duration
  jr_execution_time :: duration
  jr_cleanup_time :: duration

record model_scheduler_snapshot =
  ss_config :: model_scheduler_config
  ss_accepting :: bool
  ss_inflight :: usize
  ss_queued :: usize
  ss_preparing :: usize
  ss_executing :: usize
  ss_cleaning :: usize
  ss_jobs :: "model_job_report list"

record model_token_estimate =
  te_input_tokens :: u64
  te_output_tokens :: u64
  te_input_evidence :: token_bound_evidence
  te_output_evidence :: token_bound_evidence

section \<open>Errors\<close>

datatype model_runtime_error =
    MrBudget budget_error
  | MrStopped
  | MrTurnClosed
  | MrOverloaded model_overload_kind
  | MrRequestTooLarge usize
  | MrQueueTimeout
  | MrInvalidTimeout
  | MrInternal string string

datatype 'v model_gateway_error =
    GwSchemaRejected "'v generation_response"
  | GwModel llm_error
  | GwRuntime model_runtime_error
  | GwRecording "'v model_closure_failure"
  | GwInternal string string

definition MAX_MODEL_TURN_FAILURES :: usize where
  "MAX_MODEL_TURN_FAILURES = 16"

record 'v model_turn_failure =
  tf_failures :: "'v model_gateway_error list"
  tf_omitted :: usize

definition is_closure_failure :: "'v model_gateway_error \<Rightarrow> bool" where
  "is_closure_failure error \<longleftrightarrow> (case error of GwRecording _ \<Rightarrow> True | GwInternal _ _ \<Rightarrow> True | _ \<Rightarrow> False)"

text \<open>The error of \<open>from_bounded_failures\<close> is the unit type \<open>InvalidModelTurnFailure\<close>.\<close>

definition from_bounded_failures ::
    "'v model_gateway_error list \<Rightarrow> usize \<Rightarrow> ('v model_turn_failure option, unit) outcome" where
  "from_bounded_failures failures omitted =
     (if list_ex (\<lambda>failure. \<not> is_closure_failure failure) failures then Err ()
      else if failures = [] then (if omitted = 0 then Ok None else Err ())
      else Ok (Some \<lparr>tf_failures = take MAX_MODEL_TURN_FAILURES failures,
        tf_omitted = usize_saturating_add omitted (length failures - MAX_MODEL_TURN_FAILURES)\<rparr>))"

definition turn_failure_count :: "'v model_turn_failure \<Rightarrow> usize" where
  "turn_failure_count f = usize_saturating_add (length (tf_failures f)) (tf_omitted f)"

text \<open>Nothing is lost in a bounded failure but the failures it counts.\<close>

lemma from_bounded_failures_count:
  assumes "from_bounded_failures failures omitted = Ok (Some f)"
  shows "turn_failure_count f = usize_saturating_add (length failures) omitted"
  using assms
  by (auto simp: from_bounded_failures_def turn_failure_count_def usize_saturating_add_def
    MAX_MODEL_TURN_FAILURES_def split: if_splits)

end
