(* ===== verification/ModelScheduler.thy ===== *)
theory ModelScheduler
  imports LlmContracts
begin

text \<open>
  Admission order and execution capacity of the model runtime, \<open>crates/llm/runtime/src/scheduling.rs\<close>
  and the admission, completion and lifecycle of \<open>lib.rs\<close>. The state \<open>runtime_control\<close> is what its
  mutex protects; a definition is one section under that lock. A turn's budget is a scope \<open>'b\<close> and
  a charged attempt a reservation \<open>'r\<close>; the operations on them and the clock are functions over the
  state \<open>'w\<close> of the world, the record \<open>model_env\<close>.
\<close>

section \<open>Environment and state\<close>

record ('b, 'r, 'w) model_env =
  me_now :: "'w \<Rightarrow> duration"
  me_instant_max :: duration
  me_check_active :: "'b \<Rightarrow> 'w \<Rightarrow> (unit, budget_error) outcome \<times> 'w"
  me_remaining_time :: "'b \<Rightarrow> 'w \<Rightarrow> (duration, budget_error) outcome \<times> 'w"
  me_expire :: "'b \<Rightarrow> 'w \<Rightarrow> 'w"
  me_stop_with :: "'b \<Rightarrow> budget_stop_reason \<Rightarrow> 'w \<Rightarrow> 'w"
  me_record_model_timing :: "'b \<Rightarrow> duration \<Rightarrow> duration \<Rightarrow> 'w \<Rightarrow> 'w"
  me_record_evidence :: "'b \<Rightarrow> budget_event_kind \<Rightarrow> bool \<Rightarrow> 'w \<Rightarrow> 'w"
  me_reserve :: "'b \<Rightarrow> budget_request \<Rightarrow> 'w \<Rightarrow> ('r, budget_error) outcome \<times> 'w"
  me_mark_started :: "'r \<Rightarrow> 'w \<Rightarrow> (unit, budget_error) outcome \<times> 'w"
  me_settle :: "'r \<Rightarrow> budget_usage \<Rightarrow> 'w \<Rightarrow> (unit, budget_error) outcome \<times> 'w"
  me_cancel_before_start :: "'r \<Rightarrow> 'w \<Rightarrow> (unit, budget_error) outcome \<times> 'w"

text \<open>\<open>Instant::checked_add\<close>, within the range of the clock.\<close>

definition instant_add :: "('b, 'r, 'w) model_env \<Rightarrow> duration \<Rightarrow> duration \<Rightarrow> duration option" where
  "instant_add env at d = (if at + d \<le> me_instant_max env then Some (at + d) else None)"

record 'b scheduled_job =
  sj_cancelled :: bool
  sj_call_id :: model_call_id
  sj_phase :: model_job_phase
  sj_admitted_at :: duration
  sj_slot_at :: "duration option"
  sj_started_at :: "duration option"
  sj_closed_at :: "duration option"
  sj_deadline :: duration
  sj_budget_deadline :: "duration option"
  sj_budget :: 'b
  sj_timeout :: duration
  sj_recording :: "model_record_stage option"
  sj_request_recorded :: bool
  sj_result_recorded :: bool
  sj_stop_reason :: "model_job_stop_reason option"

definition scheduled_job_new ::
    "model_call_id \<Rightarrow> duration \<Rightarrow> duration \<Rightarrow> duration option \<Rightarrow> 'b \<Rightarrow> duration \<Rightarrow> bool \<Rightarrow> 'b scheduled_job" where
  "scheduled_job_new call_id now deadline budget_deadline budget timeout dispatched =
     \<lparr>sj_cancelled = False, sj_call_id = call_id, sj_phase = (if dispatched then JobPreparing else JobQueued),
      sj_admitted_at = now, sj_slot_at = (if dispatched then Some now else None), sj_started_at = None,
      sj_closed_at = None, sj_deadline = deadline, sj_budget_deadline = budget_deadline, sj_budget = budget,
      sj_timeout = timeout, sj_recording = None, sj_request_recorded = False, sj_result_recorded = False,
      sj_stop_reason = None\<rparr>"

text \<open>\<open>duration_since\<close> is zero for a later instant, like subtraction here.\<close>

definition job_report :: "'b scheduled_job \<Rightarrow> duration \<Rightarrow> model_job_report" where
  "job_report job now =
     (let end_at = (case sj_closed_at job of Some at \<Rightarrow> at | None \<Rightarrow> now) in
      \<lparr>jr_call_id = sj_call_id job, jr_phase = sj_phase job, jr_recording = sj_recording job,
       jr_request_recorded = sj_request_recorded job, jr_result_recorded = sj_result_recorded job,
       jr_stop_reason = sj_stop_reason job, jr_timeout = sj_timeout job,
       jr_remaining_time = sj_deadline job - now,
       jr_queue_time = (case sj_slot_at job of Some at \<Rightarrow> at | None \<Rightarrow> end_at) - sj_admitted_at job,
       jr_preparation_time = (case sj_slot_at job of None \<Rightarrow> 0
         | Some at \<Rightarrow> (case sj_started_at job of Some started \<Rightarrow> started | None \<Rightarrow> end_at) - at),
       jr_execution_time = (case sj_started_at job of None \<Rightarrow> 0 | Some at \<Rightarrow> end_at - at),
       jr_cleanup_time = (case sj_closed_at job of None \<Rightarrow> 0 | Some at \<Rightarrow> now - at)\<rparr>)"

datatype lifecycle_state = Constructed | Running | Stopping | StoppedState

record 'v failure_ledger =
  fl_failures :: "'v model_gateway_error list"
  fl_omitted :: usize

definition failure_ledger_default :: "'v failure_ledger" where
  "failure_ledger_default = \<lparr>fl_failures = [], fl_omitted = 0\<rparr>"

definition MAX_LIFECYCLE_FAILURES :: usize where
  "MAX_LIFECYCLE_FAILURES = 32"

definition ledger_record :: "'v model_gateway_error \<Rightarrow> 'v failure_ledger \<Rightarrow> 'v failure_ledger" where
  "ledger_record failure l =
     (if length (fl_failures l) < MAX_LIFECYCLE_FAILURES then l\<lparr>fl_failures := fl_failures l @ [failure]\<rparr>
      else l\<lparr>fl_omitted := usize_saturating_add (fl_omitted l) 1\<rparr>)"

definition ledger_is_empty :: "'v failure_ledger \<Rightarrow> bool" where
  "ledger_is_empty l \<longleftrightarrow> fl_failures l = [] \<and> fl_omitted l = 0"

definition ledger_total_count :: "'v failure_ledger \<Rightarrow> usize" where
  "ledger_total_count l = usize_saturating_add (length (fl_failures l)) (fl_omitted l)"

text \<open>The count of slots is a \<open>usize\<close>, which wraps.\<close>

record ('b, 'v) runtime_control =
  rt_lifecycle :: lifecycle_state
  rt_next_turn_id :: u64
  rt_next_job_id :: u64
  rt_jobs :: "(u64, 'b scheduled_job) btree_map"
  rt_queue :: "u64 list"
  rt_occupied :: u64
  rt_unacknowledged_failures :: "(u64, 'v failure_ledger) btree_map"

definition runtime_control_new :: "('b, 'v) runtime_control" where
  "runtime_control_new = \<lparr>rt_lifecycle = Constructed, rt_next_turn_id = 0, rt_next_job_id = 0, rt_jobs = [],
     rt_queue = [], rt_occupied = 0, rt_unacknowledged_failures = []\<rparr>"

text \<open>What the factory asks of its configuration; a \<open>usize\<close> is below \<open>2 ^ 64\<close>.\<close>

definition scheduler_config_accepted :: "model_scheduler_config \<Rightarrow> bool" where
  "scheduler_config_accepted config \<longleftrightarrow>
     \<not> (sc_max_concurrency config = 0 \<or> sc_max_inflight config < sc_max_concurrency config
        \<or> sc_max_request_bytes config = 0)"

text \<open>A turn keeps the cancellations of its jobs, which the runtime's jobs share.\<close>

record 'v turn_control =
  tu_open :: bool
  tu_jobs :: "u64 list"
  tu_failures :: "'v failure_ledger"

definition turn_control_new :: "'v turn_control" where
  "turn_control_new = \<lparr>tu_open = True, tu_jobs = [], tu_failures = failure_ledger_default\<rparr>"

section \<open>Dispatch\<close>

definition close_job ::
    "('b, 'r, 'w) model_env \<Rightarrow> 'b scheduled_job \<Rightarrow> duration \<Rightarrow> 'w \<Rightarrow> 'b scheduled_job \<times> 'w" where
  "close_job env job now w =
     (let job = job\<lparr>sj_phase := JobCleaning, sj_closed_at := Some now\<rparr>;
          report = job_report job now in
      (job, me_record_model_timing env (sj_budget job) (jr_queue_time report) (jr_execution_time report) w))"

text \<open>Why a waiting job must not get a slot.\<close>

definition waiter_stop ::
    "('b, 'r, 'w) model_env \<Rightarrow> 'b scheduled_job \<Rightarrow> duration \<Rightarrow> 'w \<Rightarrow> model_job_stop_reason option \<times> 'w" where
  "waiter_stop env job now w =
     (if (case sj_budget_deadline job of Some deadline \<Rightarrow> now \<ge> deadline | None \<Rightarrow> False)
      then (Some StopBudget, me_expire env (sj_budget job) w)
      else
        (case me_check_active env (sj_budget job) w of
           (Ok _, w) \<Rightarrow>
             (if sj_cancelled job then Some StopCancelled
              else if now \<ge> sj_deadline job then Some StopQueueTimeout else None, w)
         | (_, w) \<Rightarrow> (Some StopBudget, w)))"

definition dispatch_job ::
    "('b, 'r, 'w) model_env \<Rightarrow> u64 \<Rightarrow> 'b scheduled_job \<Rightarrow> ('b, 'v) runtime_control \<Rightarrow> 'w
       \<Rightarrow> ('b, 'v) runtime_control \<times> 'w" where
  "dispatch_job env i job c w =
     (let now = me_now env w;
          (stop, w) = waiter_stop env job now w in
      (case stop of
         Some reason \<Rightarrow>
           let (job, w) = close_job env (job\<lparr>sj_stop_reason := Some reason\<rparr>) now w in
           (c\<lparr>rt_jobs := bt_modify i (\<lambda>_. job) (rt_jobs c)\<rparr>, w)
       | None \<Rightarrow>
           (c\<lparr>rt_jobs := bt_modify i (\<lambda>_. job\<lparr>sj_phase := JobPreparing, sj_slot_at := Some now\<rparr>) (rt_jobs c),
              rt_occupied := rt_occupied c + 1\<rparr>, w)))"

text \<open>The loop of \<open>dispatch_waiters\<close> over the queue it pops.\<close>

fun dispatch_loop ::
    "('b, 'r, 'w) model_env \<Rightarrow> model_scheduler_config \<Rightarrow> u64 list \<Rightarrow> ('b, 'v) runtime_control \<Rightarrow> 'w
       \<Rightarrow> ('b, 'v) runtime_control \<times> 'w" where
  "dispatch_loop env config [] c w = (c\<lparr>rt_queue := []\<rparr>, w)"
| "dispatch_loop env config (i # queue) c w =
     (if rt_lifecycle c = Running \<and> unat (rt_occupied c) < sc_max_concurrency config
      then
        (case map_of (rt_jobs c) i of
           None \<Rightarrow> dispatch_loop env config queue c w
         | Some job \<Rightarrow>
             let (c, w) = dispatch_job env i job c w in dispatch_loop env config queue c w)
      else (c\<lparr>rt_queue := i # queue\<rparr>, w))"

definition dispatch_waiters ::
    "('b, 'r, 'w) model_env \<Rightarrow> model_scheduler_config \<Rightarrow> ('b, 'v) runtime_control \<Rightarrow> 'w
       \<Rightarrow> ('b, 'v) runtime_control \<times> 'w" where
  "dispatch_waiters env config c w = dispatch_loop env config (rt_queue c) c w"

definition release_execution ::
    "('b, 'r, 'w) model_env \<Rightarrow> model_scheduler_config \<Rightarrow> u64 \<Rightarrow> model_job_stop_reason option
       \<Rightarrow> ('b, 'v) runtime_control \<Rightarrow> 'w \<Rightarrow> ('b, 'v) runtime_control \<times> 'w" where
  "release_execution env config i reason c w =
     (case map_of (rt_jobs c) i of
        None \<Rightarrow> (c, w)
      | Some job \<Rightarrow>
          let job = (if sj_stop_reason job = None then job\<lparr>sj_stop_reason := reason\<rparr> else job) in
          if sj_phase job = JobCleaning then (c\<lparr>rt_jobs := bt_modify i (\<lambda>_. job) (rt_jobs c)\<rparr>, w)
          else
            let queued = (sj_phase job = JobQueued);
                (job, w) = close_job env job (me_now env w) w;
                c = c\<lparr>rt_jobs := bt_modify i (\<lambda>_. job) (rt_jobs c)\<rparr>;
                c = (if queued then c\<lparr>rt_queue := filter (\<lambda>j. j \<noteq> i) (rt_queue c)\<rparr>
                     else c\<lparr>rt_occupied := rt_occupied c - 1\<rparr>) in
            dispatch_waiters env config c w)"

section \<open>Admission and completion\<close>

record 'r admission =
  am_job_id :: u64
  am_deadline :: duration
  am_budget_deadline :: "duration option"
  am_reservation :: 'r

text \<open>A token estimate the ledger cannot accept stops the whole budget.\<close>

definition reserve_attempt ::
    "('b, 'r, 'w) model_env \<Rightarrow> 'b \<Rightarrow> budget_request \<Rightarrow> 'w \<Rightarrow> ('r, model_runtime_error) outcome \<times> 'w" where
  "reserve_attempt env scope request w =
     (case me_reserve env scope request w of
        (Ok reservation, w) \<Rightarrow> (Ok reservation, w)
      | (Panic, w) \<Rightarrow> (Panic, w)
      | (Err e, w) \<Rightarrow>
          (Err (MrBudget e),
           (case e of
              UnverifiedTokenBound _ \<Rightarrow> me_stop_with env scope InvalidRequest w
            | ZeroTokenEstimate _ \<Rightarrow> me_stop_with env scope InvalidRequest w
            | _ \<Rightarrow> w)))"

definition admission_deadline ::
    "('b, 'r, 'w) model_env \<Rightarrow> 'b \<Rightarrow> duration \<Rightarrow> duration \<Rightarrow> 'w
       \<Rightarrow> (duration \<times> duration option, model_runtime_error) outcome \<times> 'w" where
  "admission_deadline env scope now timeout w =
     (case instant_add env now timeout of
        None \<Rightarrow> (Err MrInvalidTimeout, w)
      | Some call_deadline \<Rightarrow>
          (case me_remaining_time env scope w of
             (Err e, w) \<Rightarrow> (Err (MrBudget e), w)
           | (Panic, w) \<Rightarrow> (Panic, w)
           | (Ok remaining, w) \<Rightarrow>
               if remaining \<le> timeout then
                 (case instant_add env now remaining of
                    None \<Rightarrow> (Err MrInvalidTimeout, w)
                  | Some deadline \<Rightarrow> (Ok (deadline, Some deadline), w))
               else (Ok (call_deadline, None), w)))"

definition admit_job ::
    "('b, 'r, 'w) model_env \<Rightarrow> model_scheduler_config \<Rightarrow> 'b \<Rightarrow> model_call_id \<Rightarrow> duration \<Rightarrow> budget_request
       \<Rightarrow> ('b, 'v) runtime_control \<Rightarrow> 'v turn_control \<Rightarrow> 'w
       \<Rightarrow> ('r admission, model_runtime_error) outcome \<times> ('b, 'v) runtime_control \<times> 'v turn_control \<times> 'w" where
  "admit_job env config scope call_id timeout request c t w =
     (if rt_lifecycle c \<noteq> Running then (Err MrStopped, c, t, w)
      else if \<not> tu_open t then (Err MrTurnClosed, c, t, w)
      else
        let now = me_now env w in
        (case admission_deadline env scope now timeout w of
           (Err e, w) \<Rightarrow> (Err e, c, t, w)
         | (Panic, w) \<Rightarrow> (Panic, c, t, w)
         | (Ok (deadline, budget_deadline), w) \<Rightarrow>
             if length (rt_jobs c) \<ge> sc_max_inflight config then (Err (MrOverloaded InflightFull), c, t, w)
             else
               let dispatched = (unat (rt_occupied c) < sc_max_concurrency config \<and> rt_queue c = []) in
               if \<not> dispatched \<and> length (rt_queue c) \<ge> sc_max_queued config
               then (Err (MrOverloaded QueueFull), c, t, w)
               else
                 let job_id = rt_next_job_id c in
                 (case checked_add job_id 1 of
                    None \<Rightarrow> (Err (MrInternal ''model_job_id_exhausted'' ''Model operation ID space is exhausted''), c, t, w)
                  | Some next_job_id \<Rightarrow>
                      let c = c\<lparr>rt_next_job_id := next_job_id\<rparr> in
                      (case reserve_attempt env scope request w of
                         (Err e, w) \<Rightarrow> (Err e, c, t, w)
                       | (Panic, w) \<Rightarrow> (Panic, c, t, w)
                       | (Ok reservation, w) \<Rightarrow>
                           let job = scheduled_job_new call_id now deadline budget_deadline scope timeout dispatched;
                               c = c\<lparr>rt_jobs := bt_insert job_id job (rt_jobs c)\<rparr>;
                               c = (if dispatched then c\<lparr>rt_occupied := rt_occupied c + 1\<rparr>
                                    else c\<lparr>rt_queue := rt_queue c @ [job_id]\<rparr>);
                               t = t\<lparr>tu_jobs := tu_jobs t @ [job_id]\<rparr> in
                           (Ok \<lparr>am_job_id = job_id, am_deadline = deadline, am_budget_deadline = budget_deadline,
                              am_reservation = reservation\<rparr>, c, t, w)))))"

definition record_closure_failure ::
    "u64 \<Rightarrow> 'v model_gateway_error option \<Rightarrow> ('b, 'v) runtime_control \<Rightarrow> 'v turn_control
       \<Rightarrow> ('b, 'v) runtime_control \<times> 'v turn_control" where
  "record_closure_failure turn_id failure c t =
     (case failure of
        None \<Rightarrow> (c, t)
      | Some failure \<Rightarrow>
          let ledger = (case map_of (rt_unacknowledged_failures c) turn_id of
                          None \<Rightarrow> failure_ledger_default | Some l \<Rightarrow> l) in
          (c\<lparr>rt_unacknowledged_failures :=
               bt_insert turn_id (ledger_record failure ledger) (rt_unacknowledged_failures c)\<rparr>,
           t\<lparr>tu_failures := ledger_record failure (tu_failures t)\<rparr>))"

text \<open>\<open>complete_job\<close>; the flags say which of the two drains becomes ready.\<close>

definition complete_job ::
    "('b, 'r, 'w) model_env \<Rightarrow> model_scheduler_config \<Rightarrow> u64 \<Rightarrow> u64 \<Rightarrow> 'v model_gateway_error option
       \<Rightarrow> ('b, 'v) runtime_control \<Rightarrow> 'v turn_control \<Rightarrow> 'w
       \<Rightarrow> (bool \<times> bool) \<times> ('b, 'v) runtime_control \<times> 'v turn_control \<times> 'w" where
  "complete_job env config turn_id job_id failure c t w =
     (let (c, w) = release_execution env config job_id None c w;
          (c, t) = record_closure_failure turn_id failure c t;
          c = c\<lparr>rt_jobs := bt_remove job_id (rt_jobs c)\<rparr>;
          t = t\<lparr>tu_jobs := removeAll job_id (tu_jobs t)\<rparr> in
      ((rt_jobs c = [], tu_jobs t = []), c, t, w))"

section \<open>Ends of a driver\<close>

text \<open>\<open>JobBudget\<close>: the reservation a driver owns.\<close>

record 'r job_budget =
  jb_reservation :: "'r option"
  jb_started :: bool
  jb_usage :: budget_usage

definition job_budget_new :: "'r \<Rightarrow> 'r job_budget" where
  "job_budget_new reservation = \<lparr>jb_reservation = Some reservation, jb_started = False,
     jb_usage = \<lparr>usg_input_tokens = Unknown, usg_output_tokens = Unknown, usg_tool_output_bytes = Actual 0\<rparr>\<rparr>"

definition job_budget_start ::
    "('b, 'r, 'w) model_env \<Rightarrow> 'r job_budget \<Rightarrow> 'w \<Rightarrow> (unit, budget_error) outcome \<times> 'r job_budget \<times> 'w" where
  "job_budget_start env jb w =
     (case jb_reservation jb of
        None \<Rightarrow> (Err ReservationMissing, jb, w)
      | Some reservation \<Rightarrow>
          (case me_mark_started env reservation w of
             (Ok _, w) \<Rightarrow> (Ok (), jb\<lparr>jb_started := True\<rparr>, w)
           | (r, w) \<Rightarrow> (r, jb, w)))"

definition usage_of :: "u64 option \<Rightarrow> usage_value" where
  "usage_of tokens = (case tokens of None \<Rightarrow> Unknown | Some n \<Rightarrow> Actual n)"

definition job_budget_observe :: "token_usage \<Rightarrow> 'r job_budget \<Rightarrow> 'r job_budget" where
  "job_budget_observe usage jb =
     jb\<lparr>jb_usage := (jb_usage jb)\<lparr>usg_input_tokens := usage_of (tk_input_tokens usage),
       usg_output_tokens := usage_of (tk_output_tokens usage)\<rparr>\<rparr>"

definition job_budget_settle ::
    "('b, 'r, 'w) model_env \<Rightarrow> 'r job_budget \<Rightarrow> 'w \<Rightarrow> (unit, budget_error) outcome \<times> 'r job_budget \<times> 'w" where
  "job_budget_settle env jb w =
     (case jb_reservation jb of
        None \<Rightarrow> (Ok (), jb, w)
      | Some reservation \<Rightarrow>
          let (r, w) = (if jb_started jb then me_settle env reservation (jb_usage jb) w
                        else me_cancel_before_start env reservation w) in
          (r, jb\<lparr>jb_reservation := None\<rparr>, w))"

text \<open>\<open>JobGuard::complete\<close>, and its drop when the driver unwound.\<close>

definition guard_complete ::
    "('b, 'r, 'w) model_env \<Rightarrow> model_scheduler_config \<Rightarrow> u64 \<Rightarrow> u64 \<Rightarrow> 'r job_budget
       \<Rightarrow> ('a, 'v model_gateway_error) outcome \<Rightarrow> ('b, 'v) runtime_control \<Rightarrow> 'v turn_control \<Rightarrow> 'w
       \<Rightarrow> (bool \<times> bool) \<times> ('b, 'v) runtime_control \<times> 'v turn_control \<times> 'w" where
  "guard_complete env config turn_id job_id jb result c t w =
     (let (_, jb, w) = job_budget_settle env jb w;
          failure = (case result of Err e \<Rightarrow> if is_closure_failure e then Some e else None | _ \<Rightarrow> None) in
      complete_job env config turn_id job_id failure c t w)"

definition guard_drop ::
    "('b, 'r, 'w) model_env \<Rightarrow> model_scheduler_config \<Rightarrow> u64 \<Rightarrow> u64 \<Rightarrow> 'r job_budget
       \<Rightarrow> ('b, 'v) runtime_control \<Rightarrow> 'v turn_control \<Rightarrow> 'w
       \<Rightarrow> (bool \<times> bool) \<times> ('b, 'v) runtime_control \<times> 'v turn_control \<times> 'w" where
  "guard_drop env config turn_id job_id jb c t w =
     (let (_, jb, w) = job_budget_settle env jb w in
      complete_job env config turn_id job_id
        (Some (GwInternal ''model_driver_unwound'' ''Model operation driver unwound before canonical closure''))
        c t w)"

section \<open>Lifecycle\<close>

definition runtime_start :: "('b, 'v) runtime_control \<Rightarrow> (unit, string) outcome \<times> ('b, 'v) runtime_control" where
  "runtime_start c =
     (if rt_lifecycle c \<noteq> Constructed then (Err ''LlmRuntime lifecycle start was repeated'', c)
      else (Ok (), c\<lparr>rt_lifecycle := Running\<rparr>))"

definition cancel_job :: "'b scheduled_job \<Rightarrow> 'b scheduled_job" where
  "cancel_job job = job\<lparr>sj_cancelled := True\<rparr>"

text \<open>The three parts of \<open>stop\<close>: the first returns whether it has to wait.\<close>

definition runtime_stop_begin :: "('b, 'v) runtime_control \<Rightarrow> bool \<times> ('b, 'v) runtime_control" where
  "runtime_stop_begin c =
     (if rt_lifecycle c = StoppedState then (False, c)
      else (True, c\<lparr>rt_lifecycle := Stopping, rt_jobs := map (\<lambda>(i, job). (i, cancel_job job)) (rt_jobs c)\<rparr>))"

definition runtime_stop_ready :: "('b, 'v) runtime_control \<Rightarrow> bool" where
  "runtime_stop_ready c \<longleftrightarrow> rt_jobs c = []"

definition runtime_stop_end :: "('b, 'v) runtime_control \<Rightarrow> (unit, usize) outcome \<times> ('b, 'v) runtime_control" where
  "runtime_stop_end c =
     (let failures = rt_unacknowledged_failures c;
          c = c\<lparr>rt_lifecycle := StoppedState, rt_unacknowledged_failures := []\<rparr> in
      (if failures = [] then Ok ()
       else Err (fold (\<lambda>(_, l) count. usize_saturating_add count (ledger_total_count l)) failures 0), c))"

definition bind_turn_id :: "('b, 'v) runtime_control \<Rightarrow> (u64, model_runtime_error) outcome \<times> ('b, 'v) runtime_control" where
  "bind_turn_id c =
     (if rt_lifecycle c \<noteq> Running then (Err MrStopped, c)
      else (case checked_add (rt_next_turn_id c) 1 of
          None \<Rightarrow> (Err (MrInternal ''model_turn_id_exhausted'' ''Model turn ID space is exhausted''), c)
        | Some next \<Rightarrow> (Ok (rt_next_turn_id c), c\<lparr>rt_next_turn_id := next\<rparr>)))"

definition acknowledge_turn :: "u64 \<Rightarrow> ('b, 'v) runtime_control \<Rightarrow> ('b, 'v) runtime_control" where
  "acknowledge_turn turn_id c =
     c\<lparr>rt_unacknowledged_failures := bt_remove turn_id (rt_unacknowledged_failures c)\<rparr>"

text \<open>\<open>TurnState::finish\<close>: closing admission, and what it returns once the turn's jobs are gone.\<close>

definition turn_finish_begin ::
    "model_finish_mode \<Rightarrow> ('b, 'v) runtime_control \<Rightarrow> 'v turn_control \<Rightarrow> ('b, 'v) runtime_control \<times> 'v turn_control" where
  "turn_finish_begin mode c t =
     (c\<lparr>rt_jobs := (if mode = FinishCancel
          then map (\<lambda>(i, job). (i, if i \<in> set (tu_jobs t) then cancel_job job else job)) (rt_jobs c)
          else rt_jobs c)\<rparr>, t\<lparr>tu_open := False\<rparr>)"

definition turn_finish_ready :: "'v turn_control \<Rightarrow> bool" where
  "turn_finish_ready t \<longleftrightarrow> tu_jobs t = []"

text \<open>
  The two \<open>expect\<close>s panic when the ledger holds another error than a closure failure. The argument
  is the error of \<open>finish_owned\<close>, displayed.
\<close>

definition turn_failure ::
    "string option \<Rightarrow> 'v failure_ledger \<Rightarrow> (unit, 'v model_turn_failure) outcome" where
  "turn_failure budget_error l =
     (let closing = (case from_bounded_failures
            (fl_failures l @ (case budget_error of None \<Rightarrow> []
               | Some message \<Rightarrow> [GwInternal ''model_budget_closure''
                   (''Owned model budget did not settle: '' @ message)])) (fl_omitted l) of
          Ok (Some f) \<Rightarrow> Err f
        | _ \<Rightarrow> Panic) in
      if budget_error \<noteq> None then closing
      else if ledger_is_empty l then Ok () else closing)"

definition turn_finish_end ::
    "u64 \<Rightarrow> string option \<Rightarrow> ('b, 'v) runtime_control \<Rightarrow> 'v turn_control
       \<Rightarrow> (unit, 'v model_turn_failure) outcome \<times> ('b, 'v) runtime_control \<times> 'v turn_control" where
  "turn_finish_end turn_id budget_error c t =
     (turn_failure budget_error (tu_failures t), acknowledge_turn turn_id c,
      t\<lparr>tu_failures := failure_ledger_default\<rparr>)"

definition count_phase :: "model_job_phase \<Rightarrow> model_job_report list \<Rightarrow> usize" where
  "count_phase phase jobs = length (filter (\<lambda>job. jr_phase job = phase) jobs)"

definition scheduler_snapshot ::
    "model_scheduler_config \<Rightarrow> ('b, 'v) runtime_control \<Rightarrow> duration \<Rightarrow> model_scheduler_snapshot" where
  "scheduler_snapshot config c now =
     (let jobs = map (\<lambda>job. job_report job now) (bt_values (rt_jobs c)) in
      \<lparr>ss_config = config, ss_accepting = (rt_lifecycle c = Running), ss_inflight = length jobs,
       ss_queued = count_phase JobQueued jobs, ss_preparing = count_phase JobPreparing jobs,
       ss_executing = count_phase JobExecuting jobs, ss_cleaning = count_phase JobCleaning jobs,
       ss_jobs = jobs\<rparr>)"

section \<open>A running job\<close>

text \<open>
  \<open>start_provider\<close> after its check for an interruption, under the lock. A driver has its job until
  \<open>complete_job\<close>; the \<open>expect\<close> panics without it.
\<close>

definition start_execution ::
    "('b, 'r, 'w) model_env \<Rightarrow> 'b \<Rightarrow> u64 \<Rightarrow> 'r job_budget \<Rightarrow> ('b, 'v) runtime_control \<Rightarrow> 'w
       \<Rightarrow> (unit, model_job_stop_reason) outcome \<times> 'r job_budget \<times> ('b, 'v) runtime_control \<times> 'w" where
  "start_execution env scope i jb c w =
     (case map_of (rt_jobs c) i of
        None \<Rightarrow> (if rt_lifecycle c \<noteq> Running then Err StopCancelled else Panic, jb, c, w)
      | Some job \<Rightarrow>
          if rt_lifecycle c \<noteq> Running \<or> sj_cancelled job then (Err StopCancelled, jb, c, w)
          else if sj_phase job \<noteq> JobPreparing
          then (Err (case sj_stop_reason job of Some reason \<Rightarrow> reason | None \<Rightarrow> StopFailed), jb, c, w)
          else
            let now = me_now env w in
            if now \<ge> sj_deadline job then
              (if sj_budget_deadline job \<noteq> None then (Err StopBudget, jb, c, me_expire env scope w)
               else (Err StopTimeout, jb, c, w))
            else
              (case job_budget_start env jb w of
                 (Ok _, jb, w) \<Rightarrow>
                   (Ok (), jb, c\<lparr>rt_jobs := bt_modify i (\<lambda>job. job\<lparr>sj_phase := JobExecuting, sj_started_at := Some now\<rparr>)
                      (rt_jobs c)\<rparr>, w)
               | (Err _, jb, w) \<Rightarrow> (Err StopBudget, jb, c, w)
               | (Panic, jb, w) \<Rightarrow> (Panic, jb, c, w)))"

text \<open>\<open>recording\<close>: the stage being recorded, and whether the last one was confirmed.\<close>

definition set_recording :: "model_record_stage option \<Rightarrow> bool \<Rightarrow> 'b scheduled_job \<Rightarrow> 'b scheduled_job" where
  "set_recording stage confirmed job =
     (let job = (if \<not> confirmed then job
                 else (case sj_recording job of
                     Some StageRequest \<Rightarrow> job\<lparr>sj_request_recorded := True\<rparr>
                   | Some StageResult \<Rightarrow> job\<lparr>sj_result_recorded := True\<rparr>
                   | None \<Rightarrow> job)) in
      job\<lparr>sj_recording := stage\<rparr>)"

definition recording ::
    "u64 \<Rightarrow> model_record_stage option \<Rightarrow> bool \<Rightarrow> ('b, 'v) runtime_control \<Rightarrow> ('b, 'v) runtime_control" where
  "recording i stage confirmed c = c\<lparr>rt_jobs := bt_modify i (set_recording stage confirmed) (rt_jobs c)\<rparr>"

end
