(* ===== verification/ModelSchedulerInv.thy ===== *)
theory ModelSchedulerInv
  imports ModelScheduler
begin

text \<open>
  Invariants of the scheduler: the slots it counts are the jobs that hold one, the queue is the
  queued jobs in order of admission, and no slot is idle while a job waits. Then the runtime with its
  turns as a system of steps, one per section under the locks.
\<close>

section \<open>Counting slots\<close>

definition holds_slot :: "'b scheduled_job \<Rightarrow> bool" where
  "holds_slot job \<longleftrightarrow> sj_phase job = JobPreparing \<or> sj_phase job = JobExecuting"

definition slots_taken :: "(u64, 'b scheduled_job) btree_map \<Rightarrow> nat" where
  "slots_taken jobs = sum_list (map (\<lambda>job. if holds_slot job then 1 else 0) (bt_values jobs))"

definition queue_ok :: "(u64, 'b scheduled_job) btree_map \<Rightarrow> u64 list \<Rightarrow> bool" where
  "queue_ok jobs q \<longleftrightarrow> sorted_wrt (<) q \<and>
     (\<forall>i. i \<in> set q \<longleftrightarrow> (\<exists>job. map_of jobs i = Some job \<and> sj_phase job = JobQueued))"

definition slots_ok :: "model_scheduler_config \<Rightarrow> u64 list \<Rightarrow> ('b, 'v) runtime_control \<Rightarrow> bool" where
  "slots_ok config q c \<longleftrightarrow>
     bt_wf (rt_jobs c) \<and> (\<forall>i \<in> fst ` set (rt_jobs c). i < rt_next_job_id c) \<and> queue_ok (rt_jobs c) q \<and>
     unat (rt_occupied c) = slots_taken (rt_jobs c) \<and> unat (rt_occupied c) \<le> sc_max_concurrency config \<and>
     length (rt_jobs c) \<le> sc_max_inflight config \<and> length q \<le> sc_max_queued config"

definition work_conserving :: "model_scheduler_config \<Rightarrow> ('b, 'v) runtime_control \<Rightarrow> bool" where
  "work_conserving config c \<longleftrightarrow>
     (rt_lifecycle c = Running \<and> rt_queue c \<noteq> [] \<longrightarrow> unat (rt_occupied c) = sc_max_concurrency config)"

definition sched_inv :: "model_scheduler_config \<Rightarrow> ('b, 'v) runtime_control \<Rightarrow> bool" where
  "sched_inv config c \<longleftrightarrow> slots_ok config (rt_queue c) c \<and> work_conserving config c \<and>
     (rt_lifecycle c = Constructed \<or> rt_lifecycle c = StoppedState \<longrightarrow> rt_jobs c = [])"

lemma length_bt_modify [simp]: "length (bt_modify k f m) = length m"
  by (simp add: bt_modify_def)

lemma length_bt_remove_le: "length (bt_remove k m) \<le> length m"
  by (simp add: bt_remove_def)

lemma slots_taken_modify:
  assumes "distinct (bt_keys m)" "map_of m i = Some job"
  shows "slots_taken (bt_modify i (\<lambda>_. job') m) + (if holds_slot job then 1 else 0)
    = slots_taken m + (if holds_slot job' then 1 else 0)"
  using assms
proof (induction m)
  case (Cons e m)
  obtain k v where e: "e = (k, v)" by (cases e)
  show ?case
  proof (cases "k = i")
    case True
    with Cons.prems e have "i \<notin> fst ` set m" "v = job" by auto
    moreover from this have "bt_modify i (\<lambda>_. job') m = m"
      by (force simp: bt_modify_def intro!: map_idI)
    ultimately show ?thesis using True e by (simp add: slots_taken_def bt_modify_def)
  next
    case False
    with Cons e show ?thesis by (simp add: slots_taken_def bt_modify_def)
  qed
qed simp

lemma slots_taken_insert:
  "i \<notin> fst ` set m \<Longrightarrow> slots_taken (bt_insert i job m) = (if holds_slot job then 1 else 0) + slots_taken m"
  unfolding slots_taken_def by (rule sum_bt_insert_fresh)

lemma slots_taken_remove:
  assumes "distinct (bt_keys m)" "map_of m i = Some job"
  shows "slots_taken m = (if holds_slot job then 1 else 0) + slots_taken (bt_remove i m)"
  using sum_bt_remove [OF assms] by (simp add: slots_taken_def)

lemma slots_taken_positive:
  assumes "distinct (bt_keys m)" "map_of m i = Some job" "holds_slot job"
  shows "0 < slots_taken m"
  using slots_taken_remove [OF assms(1,2)] assms(3) by simp

lemma map_of_map_values: "map_of (map (\<lambda>(i, job). (i, g i job)) m) i = map_option (g i) (map_of m i)"
  by (induction m) auto

lemma map_of_Some_key: "map_of m i = Some v \<Longrightarrow> i \<in> fst ` set m"
  by (force dest: map_of_SomeD)

lemma slots_ok_relabel:
  assumes inv: "slots_ok config q c"
    and jobs: "rt_jobs c' = map (\<lambda>(i, job). (i, g i job)) (rt_jobs c)"
    and same: "rt_next_job_id c' = rt_next_job_id c" "rt_occupied c' = rt_occupied c"
    and slot: "\<And>i job. map_of (rt_jobs c) i = Some job \<Longrightarrow> holds_slot (g i job) = holds_slot job"
    and queued: "\<And>i job. map_of (rt_jobs c) i = Some job \<Longrightarrow>
      sj_phase (g i job) = JobQueued \<longleftrightarrow> sj_phase job = JobQueued"
  shows "slots_ok config q c'"
proof -
  have d: "distinct (bt_keys (rt_jobs c))" using inv by (simp add: slots_ok_def bt_wf_distinct)
  have keys: "bt_keys (rt_jobs c') = bt_keys (rt_jobs c)" by (auto simp: jobs)
  have "map (\<lambda>job. if holds_slot job then 1 else 0) (bt_values (rt_jobs c')) =
      map (\<lambda>job. if holds_slot job then 1::nat else 0) (bt_values (rt_jobs c))"
    using slot d by (auto simp: jobs)
  then have "slots_taken (rt_jobs c') = slots_taken (rt_jobs c)" by (simp add: slots_taken_def)
  moreover have "queue_ok (rt_jobs c') q"
    using inv queued by (auto simp: slots_ok_def queue_ok_def jobs map_of_map_values)
  moreover have "fst ` set (rt_jobs c') = fst ` set (rt_jobs c)" by (metis keys list.set_map)
  moreover have "length (rt_jobs c') = length (rt_jobs c)" by (simp add: jobs)
  ultimately show ?thesis using inv keys by (simp add: slots_ok_def same bt_wf_def)
qed

lemma bt_modify_as_map: "bt_modify k f m = map (\<lambda>(i, job). (i, if i = k then f job else job)) m"
  by (auto simp: bt_modify_def)

section \<open>Dispatch\<close>

lemma queue_ok_Cons:
  assumes "queue_ok jobs (i # q)"
  shows "\<exists>job. map_of jobs i = Some job \<and> sj_phase job = JobQueued"
  using assms by (auto simp: queue_ok_def)

lemma queue_ok_leave:
  assumes "queue_ok jobs q" "map_of jobs i = Some job" "sj_phase job' \<noteq> JobQueued"
  shows "queue_ok (bt_modify i (\<lambda>_. job') jobs) (filter (\<lambda>j. j \<noteq> i) q)"
  using assms by (auto simp: queue_ok_def sorted_wrt_filter)

lemma filter_fresh_head:
  assumes "sorted_wrt (<) (i # q)"
  shows "filter (\<lambda>j. j \<noteq> (i::u64)) (i # q) = q"
  using assms by (auto intro!: filter_True)

lemma close_job_fields:
  assumes "close_job env job now w = (job', w')"
  shows "job' = job\<lparr>sj_phase := JobCleaning, sj_closed_at := Some now\<rparr>"
  using assms by (auto simp: close_job_def Let_def)

text \<open>What a popped job becomes: a slot only for a live one.\<close>

definition dispatched_from :: "'b scheduled_job \<Rightarrow> 'b scheduled_job \<Rightarrow> bool" where
  "dispatched_from job job' \<longleftrightarrow>
     (\<exists>now. \<not> sj_cancelled job \<and> now < sj_deadline job \<and>
        (\<forall>deadline. sj_budget_deadline job = Some deadline \<longrightarrow> now < deadline) \<and>
        job' = job\<lparr>sj_phase := JobPreparing, sj_slot_at := Some now\<rparr>) \<or>
     (\<exists>now reason. job' = job\<lparr>sj_stop_reason := Some reason, sj_phase := JobCleaning, sj_closed_at := Some now\<rparr>)"

lemma dispatch_job_cases:
  assumes "dispatch_job env i job c w = (c', w')"
  obtains job' where "dispatched_from job job'"
    "c' = c\<lparr>rt_jobs := bt_modify i (\<lambda>_. job') (rt_jobs c),
       rt_occupied := (if holds_slot job' then rt_occupied c + 1 else rt_occupied c)\<rparr>"
    "sj_phase job' \<noteq> JobQueued"
proof -
  obtain stop w1 where s: "waiter_stop env job (me_now env w) w = (stop, w1)" by fastforce
  show ?thesis
  proof (cases stop)
    case None
    with s have live: "\<not> sj_cancelled job" "me_now env w < sj_deadline job"
      "\<forall>deadline. sj_budget_deadline job = Some deadline \<longrightarrow> me_now env w < deadline"
      by (auto simp: waiter_stop_def split: if_splits prod.splits outcome.splits)
    let ?job = "job\<lparr>sj_phase := JobPreparing, sj_slot_at := Some (me_now env w)\<rparr>"
    have "dispatched_from job ?job" using live by (auto simp: dispatched_from_def)
    then show ?thesis
      using that [of ?job] assms s None by (auto simp: dispatch_job_def Let_def holds_slot_def)
  next
    case (Some reason)
    obtain closed w2 where cl: "close_job env (job\<lparr>sj_stop_reason := Some reason\<rparr>) (me_now env w) w1 = (closed, w2)"
      by fastforce
    note f = close_job_fields [OF cl]
    then have "dispatched_from job closed" by (auto simp: dispatched_from_def)
    then show ?thesis
      using that [of closed] assms s Some cl f by (auto simp: dispatch_job_def Let_def holds_slot_def)
  qed
qed

lemma dispatch_job_slots:
  assumes ok: "slots_ok config (i # q) c" and job: "map_of (rt_jobs c) i = Some job"
    and free: "unat (rt_occupied c) < sc_max_concurrency config" and fits: "sc_max_concurrency config < 2 ^ 64"
    and d: "dispatch_job env i job c w = (c', w')"
  shows "slots_ok config q c'"
proof -
  obtain job' where c': "c' = c\<lparr>rt_jobs := bt_modify i (\<lambda>_. job') (rt_jobs c),
       rt_occupied := (if holds_slot job' then rt_occupied c + 1 else rt_occupied c)\<rparr>"
    and left: "sj_phase job' \<noteq> JobQueued" by (rule dispatch_job_cases [OF d])
  have q: "queue_ok (rt_jobs c) (i # q)" and wf: "bt_wf (rt_jobs c)" using ok by (auto simp: slots_ok_def)
  obtain j where "map_of (rt_jobs c) i = Some j" "sj_phase j = JobQueued" using queue_ok_Cons [OF q] by blast
  with job have waiting: "\<not> holds_slot job" by (simp add: holds_slot_def)
  have "sorted_wrt (<) (i # q)" using q by (simp add: queue_ok_def)
  then have "queue_ok (rt_jobs c') q"
    using queue_ok_leave [OF q job left] c' filter_fresh_head [of i q] by simp
  moreover have "slots_taken (rt_jobs c') = slots_taken (rt_jobs c) + (if holds_slot job' then 1 else 0)"
    using slots_taken_modify [OF bt_wf_distinct [OF wf] job, of job'] waiting c' by simp
  moreover have "unat (rt_occupied c + 1) = unat (rt_occupied c) + 1"
    using free fits by (subst unat_add_fits) auto
  ultimately show ?thesis using ok free c' by (auto simp: slots_ok_def)
qed

text \<open>What one run of the dispatch loop does to the state.\<close>

definition dispatched :: "u64 list \<Rightarrow> ('b, 'v) runtime_control \<Rightarrow> ('b, 'v) runtime_control \<Rightarrow> bool" where
  "dispatched popped c c' \<longleftrightarrow>
     rt_lifecycle c' = rt_lifecycle c \<and> rt_next_job_id c' = rt_next_job_id c \<and>
     rt_next_turn_id c' = rt_next_turn_id c \<and>
     rt_unacknowledged_failures c' = rt_unacknowledged_failures c \<and> bt_keys (rt_jobs c') = bt_keys (rt_jobs c) \<and>
     (\<forall>j. j \<notin> set popped \<longrightarrow> map_of (rt_jobs c') j = map_of (rt_jobs c) j) \<and>
     (\<forall>j \<in> set popped. \<exists>job job'. map_of (rt_jobs c) j = Some job \<and> map_of (rt_jobs c') j = Some job' \<and>
        dispatched_from job job')"

lemma dispatched_refl [simp]: "dispatched [] c (c\<lparr>rt_queue := q\<rparr>)"
  by (simp add: dispatched_def)

lemma dispatch_job_dispatched:
  assumes d: "dispatch_job env i job c w = (c1, w1)" and job: "map_of (rt_jobs c) i = Some job"
    and rest: "dispatched popped c1 c'" and fresh: "i \<notin> set popped"
  shows "dispatched (i # popped) c c'"
proof -
  obtain job' where df: "dispatched_from job job'"
    and c1: "c1 = c\<lparr>rt_jobs := bt_modify i (\<lambda>_. job') (rt_jobs c),
       rt_occupied := (if holds_slot job' then rt_occupied c + 1 else rt_occupied c)\<rparr>"
    by (rule dispatch_job_cases [OF d])
  have "map_of (rt_jobs c') i = Some job'" using rest fresh job c1 by (simp add: dispatched_def)
  moreover have "\<forall>j \<in> set popped. map_of (rt_jobs c1) j = map_of (rt_jobs c) j" using fresh c1 by auto
  ultimately show ?thesis using rest df job c1 by (auto simp: dispatched_def)
qed

lemma dispatch_loop_ok:
  assumes "slots_ok config q c" "sc_max_concurrency config < 2 ^ 64"
    and "dispatch_loop env config q c w = (c', w')"
  shows "slots_ok config (rt_queue c') c' \<and> work_conserving config c' \<and>
    (\<exists>popped. q = popped @ rt_queue c' \<and> dispatched popped c c')"
  using assms
proof (induction env config q c w rule: dispatch_loop.induct)
  case (1 env config c w)
  then show ?case by (force simp: slots_ok_def work_conserving_def intro!: exI [of _ "[]"])
next
  case (2 env config i queue c w)
  have sorted: "sorted_wrt (<) (i # queue)" and q: "queue_ok (rt_jobs c) (i # queue)"
    using "2.prems"(1) by (auto simp: slots_ok_def queue_ok_def)
  show ?case
  proof (cases "rt_lifecycle c = Running \<and> unat (rt_occupied c) < sc_max_concurrency config")
    case True
    obtain job where job: "map_of (rt_jobs c) i = Some job" using queue_ok_Cons [OF q] by blast
    obtain c1 w1 where d: "dispatch_job env i job c w = (c1, w1)" by fastforce
    have rest: "dispatch_loop env config queue c1 w1 = (c', w')" using "2.prems"(3) True job d by simp
    have ok: "slots_ok config queue c1" using dispatch_job_slots [OF "2.prems"(1) job _ "2.prems"(2) d] True by blast
    obtain popped where p: "slots_ok config (rt_queue c') c'" "work_conserving config c'"
      "queue = popped @ rt_queue c'" "dispatched popped c1 c'"
      using "2.IH"(2) [OF True job d [symmetric] refl ok "2.prems"(2) rest] by blast
    have "i \<notin> set popped" using sorted p(3) by auto
    then have "dispatched (i # popped) c c'" using dispatch_job_dispatched [OF d job p(4)] by blast
    with p show ?thesis by (auto intro!: exI [of _ "i # popped"])
  next
    case False
    then have c': "c' = c\<lparr>rt_queue := i # queue\<rparr>" using "2.prems"(3) by auto
    have "unat (rt_occupied c) \<le> sc_max_concurrency config" using "2.prems"(1) by (simp add: slots_ok_def)
    with False have "work_conserving config c'" by (auto simp: c' work_conserving_def)
    moreover have "slots_ok config (i # queue) c'" using "2.prems"(1) by (simp add: c' slots_ok_def)
    ultimately show ?thesis by (auto simp: c' intro!: exI [of _ "[]"])
  qed
qed

section \<open>Release\<close>

definition kept :: "('b, 'v) runtime_control \<Rightarrow> ('b, 'v) runtime_control \<Rightarrow> bool" where
  "kept c c' \<longleftrightarrow>
     rt_lifecycle c' = rt_lifecycle c \<and> rt_next_job_id c' = rt_next_job_id c \<and>
     rt_next_turn_id c' = rt_next_turn_id c \<and>
     rt_unacknowledged_failures c' = rt_unacknowledged_failures c \<and> bt_keys (rt_jobs c') = bt_keys (rt_jobs c)"

lemma kept_refl [simp]: "kept c c"
  by (simp add: kept_def)

lemma kept_trans: "kept a b \<Longrightarrow> kept b c \<Longrightarrow> kept a c"
  by (simp add: kept_def)

lemma kept_keys: "kept c c' \<Longrightarrow> fst ` set (rt_jobs c') = fst ` set (rt_jobs c)"
  unfolding kept_def by (metis list.set_map)

lemma kept_Nil: "kept c c' \<Longrightarrow> rt_jobs c' = [] \<longleftrightarrow> rt_jobs c = []"
  unfolding kept_def by (metis map_is_Nil_conv)

lemma dispatched_kept: "dispatched popped c c' \<Longrightarrow> kept c c'"
  by (simp add: dispatched_def kept_def)

abbreviation config_fits :: "model_scheduler_config \<Rightarrow> bool" where
  "config_fits config \<equiv> sc_max_concurrency config < 2 ^ 64"

text \<open>Taking the slot of a job, or its place in the queue, before the next dispatch.\<close>

lemma release_slots:
  assumes ok: "slots_ok config (rt_queue c) c" and job: "map_of (rt_jobs c) i = Some job"
    and live: "sj_phase job \<noteq> JobCleaning" and closed: "sj_phase job' = JobCleaning"
    and q: "q = (if sj_phase job = JobQueued then filter (\<lambda>j. j \<noteq> i) (rt_queue c) else rt_queue c)"
    and c': "c' = c\<lparr>rt_jobs := bt_modify i (\<lambda>_. job') (rt_jobs c), rt_queue := q,
      rt_occupied := (if sj_phase job = JobQueued then rt_occupied c else rt_occupied c - 1)\<rparr>"
  shows "slots_ok config q c'"
proof -
  have qc: "queue_ok (rt_jobs c) (rt_queue c)" and wf: "bt_wf (rt_jobs c)"
    and occ: "unat (rt_occupied c) = slots_taken (rt_jobs c)" using ok by (auto simp: slots_ok_def)
  note d = bt_wf_distinct [OF wf]
  have out: "\<not> holds_slot job'" using closed by (simp add: holds_slot_def)
  have holds: "holds_slot job \<longleftrightarrow> sj_phase job \<noteq> JobQueued"
    using live by (cases "sj_phase job") (auto simp: holds_slot_def)
  have "filter (\<lambda>j. j \<noteq> i) (rt_queue c) = rt_queue c" if "sj_phase job \<noteq> JobQueued"
    using qc that job by (intro filter_True) (auto simp: queue_ok_def)
  then have "q = filter (\<lambda>j. j \<noteq> i) (rt_queue c)" using q by auto
  then have "queue_ok (rt_jobs c') q" using queue_ok_leave [OF qc job, of job'] closed c' by simp
  moreover have "unat (rt_occupied c') = slots_taken (rt_jobs c')"
  proof (cases "sj_phase job = JobQueued")
    case True
    then show ?thesis using slots_taken_modify [OF d job, of job'] out holds occ c' by simp
  next
    case False
    with slots_taken_positive [OF d job] holds occ have "1 \<le> unat (rt_occupied c)" by simp
    then have "unat (rt_occupied c - 1) = unat (rt_occupied c) - 1" by (subst unat_sub_le) auto
    then show ?thesis using False slots_taken_modify [OF d job, of job'] out holds occ c' by simp
  qed
  moreover have "slots_taken (rt_jobs c') \<le> slots_taken (rt_jobs c)"
    using slots_taken_modify [OF d job, of job'] out c' by (simp split: if_splits)
  moreover have "length q \<le> length (rt_queue c)" using q by simp
  ultimately show ?thesis using ok c' by (auto simp: slots_ok_def)
qed

lemma release_execution_ok:
  assumes inv: "sched_inv config c" and fits: "config_fits config"
    and r: "release_execution env config i reason c w = (c', w')"
  shows "sched_inv config c' \<and> kept c c' \<and>
    (\<forall>job. map_of (rt_jobs c') i = Some job \<longrightarrow> sj_phase job = JobCleaning)"
proof (cases "map_of (rt_jobs c) i")
  case None
  with inv r show ?thesis by (simp add: release_execution_def)
next
  case (Some job)
  let ?job = "if sj_stop_reason job = None then job\<lparr>sj_stop_reason := reason\<rparr> else job"
  have ok: "slots_ok config (rt_queue c) c" using inv by (simp add: sched_inv_def)
  have present: "rt_jobs c \<noteq> []" using Some by auto
  show ?thesis
  proof (cases "sj_phase job = JobCleaning")
    case True
    have c': "c' = c\<lparr>rt_jobs := bt_modify i (\<lambda>_. ?job) (rt_jobs c)\<rparr>"
      using r Some True by (auto simp: release_execution_def Let_def split: if_splits)
    have "slots_ok config (rt_queue c) c'"
      by (rule slots_ok_relabel [OF ok, where g = "\<lambda>j old. if j = i then ?job else old"])
        (use Some True in \<open>auto simp: c' bt_modify_as_map holds_slot_def\<close>)
    then show ?thesis using inv True Some by (auto simp: c' sched_inv_def work_conserving_def kept_def)
  next
    case False
    let ?q = "if sj_phase job = JobQueued then filter (\<lambda>j. j \<noteq> i) (rt_queue c) else rt_queue c"
    obtain closed w1 where cl: "close_job env ?job (me_now env w) w = (closed, w1)" by fastforce
    let ?c = "c\<lparr>rt_jobs := bt_modify i (\<lambda>_. closed) (rt_jobs c), rt_queue := ?q,
      rt_occupied := (if sj_phase job = JobQueued then rt_occupied c else rt_occupied c - 1)\<rparr>"
    have loop: "dispatch_loop env config ?q ?c w1 = (c', w')"
      using r Some False cl
      by (auto simp: release_execution_def Let_def dispatch_waiters_def split: if_splits prod.splits)
    have closed: "sj_phase closed = JobCleaning" using close_job_fields [OF cl] by simp
    have ok': "slots_ok config ?q ?c" by (rule release_slots [OF ok Some False closed refl refl])
    obtain popped where p: "slots_ok config (rt_queue c') c'" "work_conserving config c'"
      "?q = popped @ rt_queue c'" "dispatched popped ?c c'"
      using dispatch_loop_ok [OF ok' fits loop] by blast
    have "i \<notin> set ?q" using ok' Some closed by (auto simp: slots_ok_def queue_ok_def)
    then have "i \<notin> set popped" using p(3) by auto
    then have "map_of (rt_jobs c') i = Some closed" using p(4) Some by (simp add: dispatched_def)
    moreover have k: "kept c c'" using dispatched_kept [OF p(4)] by (simp add: kept_def)
    moreover have "sched_inv config c'" using inv p(1,2) k present by (auto simp: sched_inv_def kept_def)
    ultimately show ?thesis using closed by simp
  qed
qed

section \<open>The other operations\<close>

lemma slots_ok_remove:
  assumes ok: "slots_ok config q c" and out: "\<And>job. map_of (rt_jobs c) i = Some job \<Longrightarrow> sj_phase job = JobCleaning"
    and c': "rt_jobs c' = bt_remove i (rt_jobs c)"
    "rt_next_job_id c' = rt_next_job_id c" "rt_occupied c' = rt_occupied c"
  shows "slots_ok config q c'"
proof (cases "map_of (rt_jobs c) i")
  case None
  then have "bt_remove i (rt_jobs c) = rt_jobs c" by (simp add: bt_remove_absent map_of_eq_None_iff)
  then show ?thesis using ok by (simp add: slots_ok_def c')
next
  case (Some job)
  have wf: "bt_wf (rt_jobs c)" using ok by (simp add: slots_ok_def)
  have "slots_taken (bt_remove i (rt_jobs c)) = slots_taken (rt_jobs c)"
    using slots_taken_remove [OF bt_wf_distinct [OF wf] Some] out [OF Some] by (simp add: holds_slot_def)
  moreover have "queue_ok (bt_remove i (rt_jobs c)) q" using ok Some out [OF Some] by (auto simp: slots_ok_def queue_ok_def)
  moreover have "length (bt_remove i (rt_jobs c)) \<le> length (rt_jobs c)" by (rule length_bt_remove_le)
  ultimately show ?thesis using ok by (auto simp: slots_ok_def c')
qed

text \<open>The whole effect of a completion.\<close>

lemma complete_job_ok:
  assumes inv: "sched_inv config c" and fits: "config_fits config"
    and r: "complete_job env config turn_id i failure c t w = (d, c', t', w')"
  shows "sched_inv config c' \<and> rt_lifecycle c' = rt_lifecycle c \<and> rt_next_turn_id c' = rt_next_turn_id c \<and>
    fst ` set (rt_jobs c') = fst ` set (rt_jobs c) - {i} \<and> tu_open t' = tu_open t \<and>
    tu_jobs t' = removeAll i (tu_jobs t) \<and>
    rt_unacknowledged_failures c' = rt_unacknowledged_failures (fst (record_closure_failure turn_id failure c t)) \<and>
    tu_failures t' = tu_failures (snd (record_closure_failure turn_id failure c t))"
proof -
  obtain c1 w1 where rel: "release_execution env config i None c w = (c1, w1)" by fastforce
  obtain c2 t2 where rec: "record_closure_failure turn_id failure c1 t = (c2, t2)" by fastforce
  note R = release_execution_ok [OF inv fits rel]
  have c2: "rt_jobs c2 = rt_jobs c1" "rt_queue c2 = rt_queue c1" "rt_next_job_id c2 = rt_next_job_id c1"
    "rt_occupied c2 = rt_occupied c1" "rt_lifecycle c2 = rt_lifecycle c1" "rt_next_turn_id c2 = rt_next_turn_id c1"
    "tu_open t2 = tu_open t" "tu_jobs t2 = tu_jobs t"
    using rec by (auto simp: record_closure_failure_def Let_def split: option.splits)
  have c': "c' = c2\<lparr>rt_jobs := bt_remove i (rt_jobs c2)\<rparr>" "t' = t2\<lparr>tu_jobs := removeAll i (tu_jobs t2)\<rparr>"
    using r rel rec by (auto simp: complete_job_def Let_def)
  have "slots_ok config (rt_queue c1) c'"
    by (rule slots_ok_remove [of _ _ c1]) (use R in \<open>auto simp: sched_inv_def c' c2\<close>)
  then have "sched_inv config c'"
    using R by (auto simp: sched_inv_def work_conserving_def c' c2 bt_remove_def)
  moreover have "fst ` set (rt_jobs c') = fst ` set (rt_jobs c) - {i}"
    using kept_keys [of c c1] R by (simp add: c' c2 del: set_bt_remove)
  moreover have "rt_unacknowledged_failures c2 = rt_unacknowledged_failures (fst (record_closure_failure turn_id failure c t))"
    "tu_failures t2 = tu_failures (snd (record_closure_failure turn_id failure c t))"
    using rec R by (auto simp: record_closure_failure_def Let_def kept_def split: option.splits)
  ultimately show ?thesis using R by (auto simp: c' c2 kept_def)
qed

lemma slots_ok_admit:
  assumes ok: "slots_ok config (rt_queue c) c" and fits: "config_fits config"
    and room: "length (rt_jobs c) < sc_max_inflight config" and new: "sj_phase job = (if direct then JobPreparing else JobQueued)"
    and slot: "direct \<Longrightarrow> unat (rt_occupied c) < sc_max_concurrency config"
    and place: "\<not> direct \<Longrightarrow> length (rt_queue c) < sc_max_queued config"
    and "next": "checked_add (rt_next_job_id c) 1 = Some n"
    and q: "q = (if direct then rt_queue c else rt_queue c @ [rt_next_job_id c])"
    and c': "rt_jobs c' = bt_insert (rt_next_job_id c) job (rt_jobs c)" "rt_next_job_id c' = n"
      "rt_occupied c' = (if direct then rt_occupied c + 1 else rt_occupied c)"
  shows "slots_ok config q c'"
proof -
  let ?i = "rt_next_job_id c"
  have fresh: "?i \<notin> fst ` set (rt_jobs c)" using ok by (auto simp: slots_ok_def)
  then have none: "map_of (rt_jobs c) ?i = None" by (simp add: map_of_eq_None_iff)
  have up: "unat n = unat ?i + 1" using "next" by (simp add: checked_add_Some_iff)
  then have lt: "?i < n" by (simp add: word_less_nat_alt)
  have old: "\<forall>i \<in> fst ` set (rt_jobs c). i < ?i" using ok by (simp add: slots_ok_def)
  then have "\<forall>i \<in> fst ` set (rt_jobs c'). i < n" using lt by (simp add: c') (meson less_trans)
  moreover have "queue_ok (rt_jobs c') q"
  proof -
    have qo: "queue_ok (rt_jobs c) (rt_queue c)" using ok by (simp add: slots_ok_def)
    have "i \<in> fst ` set (rt_jobs c)" if "i \<in> set (rt_queue c)" for i
      using that qo by (auto simp: queue_ok_def intro: map_of_Some_key)
    then have "\<forall>i \<in> set (rt_queue c). i < ?i" using old by blast
    then have "sorted_wrt (<) q" using qo by (auto simp: queue_ok_def q sorted_wrt_append)
    then show ?thesis using qo none new by (auto simp: queue_ok_def q c')
  qed
  moreover have "slots_taken (rt_jobs c') = slots_taken (rt_jobs c) + (if direct then 1 else 0)"
    using slots_taken_insert [OF fresh, of job] new by (simp add: c' holds_slot_def)
  moreover have "unat (rt_occupied c + 1) = unat (rt_occupied c) + 1" if direct
    using slot [OF that] fits by (subst unat_add_fits) auto
  moreover have "length (rt_jobs c') = Suc (length (rt_jobs c))" using fresh by (simp add: c' length_bt_insert_fresh)
  ultimately show ?thesis using ok room slot place by (auto simp: slots_ok_def q c')
qed

text \<open>The cases of an admission that change the state.\<close>

lemma admit_job_cases:
  assumes "admit_job env config scope call_id timeout request c t w = (r, c', t', w')"
  shows "(c' = c \<and> t' = t \<and> (\<forall>a. r \<noteq> Ok a)) \<or>
    (\<exists>n. checked_add (rt_next_job_id c) 1 = Some n \<and> c' = c\<lparr>rt_next_job_id := n\<rparr> \<and> t' = t \<and> (\<forall>a. r \<noteq> Ok a)) \<or>
    (\<exists>n direct job a. checked_add (rt_next_job_id c) 1 = Some n \<and> r = Ok a \<and> am_job_id a = rt_next_job_id c \<and>
      rt_lifecycle c = Running \<and> tu_open t \<and> length (rt_jobs c) < sc_max_inflight config \<and>
      direct = (unat (rt_occupied c) < sc_max_concurrency config \<and> rt_queue c = []) \<and>
      (\<not> direct \<longrightarrow> length (rt_queue c) < sc_max_queued config) \<and>
      sj_phase job = (if direct then JobPreparing else JobQueued) \<and>
      c' = c\<lparr>rt_next_job_id := n, rt_jobs := bt_insert (rt_next_job_id c) job (rt_jobs c),
        rt_occupied := (if direct then rt_occupied c + 1 else rt_occupied c),
        rt_queue := (if direct then rt_queue c else rt_queue c @ [rt_next_job_id c])\<rparr> \<and>
      t' = t\<lparr>tu_jobs := tu_jobs t @ [rt_next_job_id c]\<rparr>)"
proof -
  let ?d = "unat (rt_occupied c) < sc_max_concurrency config \<and> rt_queue c = []"
  show ?thesis
  proof (cases "\<exists>a. r = Ok a")
    case True
    then obtain deadline bd w1 n reservation w2 where
      g: "rt_lifecycle c = Running" "tu_open t" "length (rt_jobs c) < sc_max_inflight config"
        "\<not> ?d \<longrightarrow> length (rt_queue c) < sc_max_queued config"
        "checked_add (rt_next_job_id c) 1 = Some n" and
      s: "admission_deadline env scope (me_now env w) timeout w = (Ok (deadline, bd), w1)"
        "reserve_attempt env scope request w1 = (Ok reservation, w2)"
      using assms
      by (auto simp: admit_job_def Let_def not_le split: if_splits prod.splits outcome.splits option.splits)
    let ?job = "scheduled_job_new call_id (me_now env w) deadline bd scope timeout ?d"
    have c': "c' = c\<lparr>rt_next_job_id := n, rt_jobs := bt_insert (rt_next_job_id c) ?job (rt_jobs c),
        rt_occupied := (if ?d then rt_occupied c + 1 else rt_occupied c),
        rt_queue := (if ?d then rt_queue c else rt_queue c @ [rt_next_job_id c])\<rparr> \<and>
      t' = t\<lparr>tu_jobs := tu_jobs t @ [rt_next_job_id c]\<rparr> \<and> (\<exists>a. r = Ok a \<and> am_job_id a = rt_next_job_id c)"
      using assms g s by (cases ?d) (simp_all add: admit_job_def Let_def not_le, auto)
    moreover have "sj_phase ?job = (if ?d then JobPreparing else JobQueued)" by (simp add: scheduled_job_new_def)
    ultimately show ?thesis using g by blast
  next
    case False
    then show ?thesis
      using assms
      by (auto simp: admit_job_def Let_def split: if_splits prod.splits outcome.splits option.splits)
  qed
qed

end
