(* ===== verification/ModelTurns.thy ===== *)
theory ModelTurns
  imports ModelSchedulerInv
begin

text \<open>
  The model runtime and its turns as one system: every section under the locks is a step, and the
  world may change between two of them. The invariant ties each job to the turn that admitted it and
  the failures the runtime keeps to those its turns have not returned.
\<close>

section \<open>Steps\<close>

type_synonym ('b, 'v, 'w) model_system =
  "('b, 'v) runtime_control \<times> (u64 \<Rightarrow> 'v turn_control option) \<times> 'w"

inductive model_step ::
    "('b, 'r, 'w) model_env \<Rightarrow> model_scheduler_config \<Rightarrow> ('b, 'v, 'w) model_system \<Rightarrow> ('b, 'v, 'w) model_system \<Rightarrow> bool"
  for env :: "('b, 'r, 'w) model_env" and config :: model_scheduler_config where
  start: "runtime_start c = (r, c') \<Longrightarrow> model_step env config (c, T, w) (c', T, w)"
| bind: "bind_turn_id c = (Ok i, c') \<Longrightarrow> model_step env config (c, T, w) (c', T(i \<mapsto> turn_control_new), w)"
| admit: "T i = Some t \<Longrightarrow>
    admit_job env config scope call_id timeout request c t w = (r, c', t', w') \<Longrightarrow>
    model_step env config (c, T, w) (c', T(i \<mapsto> t'), w')"
| release: "release_execution env config j reason c w = (c', w') \<Longrightarrow>
    model_step env config (c, T, w) (c', T, w')"
| enter: "start_execution env scope j jb c w = (r, jb', c', w') \<Longrightarrow>
    model_step env config (c, T, w) (c', T, w')"
| note_record: "model_step env config (c, T, w) (recording j stage confirmed c, T, w)"
| complete: "T i = Some t \<Longrightarrow> j \<in> set (tu_jobs t) \<Longrightarrow>
    guard_complete env config i j jb (result :: ('v generation_response, 'v model_gateway_error) outcome) c t w
      = (d, c', t', w') \<Longrightarrow>
    model_step env config (c, T, w) (c', T(i \<mapsto> t'), w')"
| unwind: "T i = Some t \<Longrightarrow> j \<in> set (tu_jobs t) \<Longrightarrow>
    guard_drop env config i j jb c t w = (d, c', t', w') \<Longrightarrow>
    model_step env config (c, T, w) (c', T(i \<mapsto> t'), w')"
| finish_begin: "T i = Some t \<Longrightarrow> turn_finish_begin mode c t = (c', t') \<Longrightarrow>
    model_step env config (c, T, w) (c', T(i \<mapsto> t'), w)"
| finish_end: "T i = Some t \<Longrightarrow> \<not> tu_open t \<Longrightarrow> turn_finish_ready t \<Longrightarrow>
    turn_finish_end i budget_error c t = (f, c', t') \<Longrightarrow>
    model_step env config (c, T, w) (c', T(i \<mapsto> t'), w)"
| stop_begin: "runtime_stop_begin c = (b, c') \<Longrightarrow> model_step env config (c, T, w) (c', T, w)"
| stop_end: "rt_lifecycle c = Stopping \<Longrightarrow> runtime_stop_ready c \<Longrightarrow> runtime_stop_end c = (e, c') \<Longrightarrow>
    model_step env config (c, T, w) (c', T, w)"
| world: "model_step env config (c, T, w) (c, T, w')"

inductive_cases model_stepE: "model_step env config (c, T, w) s"

inductive model_reach ::
    "('b, 'r, 'w) model_env \<Rightarrow> model_scheduler_config \<Rightarrow> ('b, 'v, 'w) model_system \<Rightarrow> bool"
  for env :: "('b, 'r, 'w) model_env" and config :: model_scheduler_config where
  initial: "model_reach env config (runtime_control_new, Map.empty, w)"
| step: "model_reach env config s \<Longrightarrow> model_step env config s s' \<Longrightarrow> model_reach env config s'"

section \<open>Invariant\<close>

text \<open>Every job belongs to exactly one turn.\<close>

definition owned :: "('b, 'v) runtime_control \<Rightarrow> (u64 \<Rightarrow> 'v turn_control option) \<Rightarrow> bool" where
  "owned c T \<longleftrightarrow>
     (\<forall>i t. T i = Some t \<longrightarrow> i < rt_next_turn_id c \<and> set (tu_jobs t) \<subseteq> fst ` set (rt_jobs c)) \<and>
     (\<forall>i j t u. T i = Some t \<longrightarrow> T j = Some u \<longrightarrow> i \<noteq> j \<longrightarrow> set (tu_jobs t) \<inter> set (tu_jobs u) = {}) \<and>
     (\<forall>k \<in> fst ` set (rt_jobs c). \<exists>i t. T i = Some t \<and> k \<in> set (tu_jobs t))"

text \<open>A ledger of closure failures, within its bound.\<close>

definition ledger_ok :: "'v failure_ledger \<Rightarrow> bool" where
  "ledger_ok l \<longleftrightarrow> list_all is_closure_failure (fl_failures l) \<and>
     length (fl_failures l) \<le> MAX_LIFECYCLE_FAILURES \<and>
     (fl_omitted l \<noteq> 0 \<longrightarrow> length (fl_failures l) = MAX_LIFECYCLE_FAILURES)"

definition accounted :: "('b, 'v) runtime_control \<Rightarrow> (u64 \<Rightarrow> 'v turn_control option) \<Rightarrow> bool" where
  "accounted c T \<longleftrightarrow>
     (\<forall>i t. T i = Some t \<longrightarrow> ledger_ok (tu_failures t)) \<and>
     (rt_lifecycle c \<noteq> StoppedState \<longrightarrow>
       (\<forall>i. map_of (rt_unacknowledged_failures c) i =
          (case T i of None \<Rightarrow> None
           | Some t \<Rightarrow> if ledger_is_empty (tu_failures t) then None else Some (tu_failures t))))"

definition system_inv :: "model_scheduler_config \<Rightarrow> ('b, 'v, 'w) model_system \<Rightarrow> bool" where
  "system_inv config s \<longleftrightarrow> (case s of (c, T, w) \<Rightarrow>
     sched_inv config c \<and> owned c T \<and> accounted c T \<and> (rt_lifecycle c = Constructed \<longrightarrow> (\<forall>i. T i = None)))"

lemma ledger_ok_default [simp]: "ledger_ok failure_ledger_default"
  by (simp add: ledger_ok_def failure_ledger_default_def)

lemma ledger_empty_default [simp]: "ledger_is_empty failure_ledger_default"
  by (simp add: ledger_is_empty_def failure_ledger_default_def)

lemma ledger_empty_iff: "ledger_is_empty l \<longleftrightarrow> l = failure_ledger_default"
  by (cases l) (auto simp: ledger_is_empty_def failure_ledger_default_def)

lemma ledger_record_ok: "ledger_ok l \<Longrightarrow> is_closure_failure e \<Longrightarrow> ledger_ok (ledger_record e l)"
  by (auto simp: ledger_ok_def ledger_record_def)

lemma ledger_record_not_empty [simp]: "\<not> ledger_is_empty (ledger_record e l)"
  by (auto simp: ledger_is_empty_def ledger_record_def usize_saturating_add_def MAX_LIFECYCLE_FAILURES_def
    usize_max_def)

section \<open>Preservation\<close>

lemma owned_owner:
  assumes "owned c T" "k \<in> fst ` set (rt_jobs c)"
  obtains i t where "T i = Some t" "k \<in> set (tu_jobs t)"
  using assms unfolding owned_def by blast

text \<open>Changing what one turn owns, apart from what the others own.\<close>

lemma owned_update:
  assumes o: "owned c T" and t: "T i = Some t" and "next": "rt_next_turn_id c' = rt_next_turn_id c"
    and keys: "fst ` set (rt_jobs c') = (fst ` set (rt_jobs c) - set (tu_jobs t)) \<union> set (tu_jobs t')"
    and apart: "set (tu_jobs t') \<inter> (fst ` set (rt_jobs c) - set (tu_jobs t)) = {}"
  shows "owned c' (T(i \<mapsto> t'))"
proof -
  let ?rest = "fst ` set (rt_jobs c) - set (tu_jobs t)"
  have others: "set (tu_jobs u) \<subseteq> ?rest" if "T a = Some u" "a \<noteq> i" for a u
    using o t that unfolding owned_def by blast
  show ?thesis
    unfolding owned_def keys "next"
  proof (intro conjI allI impI ballI)
    fix a u assume u: "(T(i \<mapsto> t')) a = Some u"
    show "a < rt_next_turn_id c" using o t u by (cases "a = i") (auto simp: owned_def)
    show "set (tu_jobs u) \<subseteq> ?rest \<union> set (tu_jobs t')" using others [of a u] u by (cases "a = i") auto
  next
    fix a b u v assume uv: "(T(i \<mapsto> t')) a = Some u" "(T(i \<mapsto> t')) b = Some v" "a \<noteq> b"
    consider "a = i" | "b = i" | "a \<noteq> i" "b \<noteq> i" by blast
    then show "set (tu_jobs u) \<inter> set (tu_jobs v) = {}"
    proof cases
      case 1
      then show ?thesis using uv others [of b v] apart by auto
    next
      case 2
      then show ?thesis using uv others [of a u] apart by auto
    next
      case 3
      then have "T a = Some u" "T b = Some v" using uv by auto
      then show ?thesis using o uv(3) unfolding owned_def by blast
    qed
  next
    fix k assume k: "k \<in> ?rest \<union> set (tu_jobs t')"
    show "\<exists>a u. (T(i \<mapsto> t')) a = Some u \<and> k \<in> set (tu_jobs u)"
    proof (cases "k \<in> set (tu_jobs t')")
      case True
      then show ?thesis by (intro exI [of _ i] exI [of _ t']) simp
    next
      case False
      with k have r: "k \<in> fst ` set (rt_jobs c)" "k \<notin> set (tu_jobs t)" by blast+
      obtain a u where au: "T a = Some u" "k \<in> set (tu_jobs u)" by (rule owned_owner [OF o r(1)])
      with r t have "a \<noteq> i" by auto
      with au show ?thesis by (intro exI [of _ a] exI [of _ u]) simp
    qed
  qed
qed

lemma owned_keys:
  assumes "owned c T" "fst ` set (rt_jobs c') = fst ` set (rt_jobs c)" "rt_next_turn_id c' = rt_next_turn_id c"
  shows "owned c' T"
  using assms by (simp only: owned_def)

lemma owned_subset: "owned c T \<Longrightarrow> T i = Some t \<Longrightarrow> set (tu_jobs t) \<subseteq> fst ` set (rt_jobs c)"
  unfolding owned_def by blast

lemma owned_same:
  assumes "owned c T" "fst ` set (rt_jobs c') = fst ` set (rt_jobs c)" "rt_next_turn_id c' = rt_next_turn_id c"
    "T i = Some t" "tu_jobs t' = tu_jobs t"
  shows "owned c' (T(i \<mapsto> t'))"
  by (rule owned_update [OF assms(1,4,3)]) (use owned_subset [OF assms(1,4)] assms in auto)

lemma owned_admit:
  assumes "owned c T" "k \<notin> fst ` set (rt_jobs c)" "fst ` set (rt_jobs c') = insert k (fst ` set (rt_jobs c))"
    "rt_next_turn_id c' = rt_next_turn_id c" "T i = Some t" "tu_jobs t' = tu_jobs t @ [k]"
  shows "owned c' (T(i \<mapsto> t'))"
  by (rule owned_update [OF assms(1,5,4)]) (use owned_subset [OF assms(1,5)] assms(2,3,6) in auto)

lemma owned_remove:
  assumes "owned c T" "k \<in> set (tu_jobs t)" "fst ` set (rt_jobs c') = fst ` set (rt_jobs c) - {k}"
    "rt_next_turn_id c' = rt_next_turn_id c" "T i = Some t" "tu_jobs t' = removeAll k (tu_jobs t)"
  shows "owned c' (T(i \<mapsto> t'))"
  by (rule owned_update [OF assms(1,5,4)]) (use owned_subset [OF assms(1,5)] assms(2,3,6) in auto)

text \<open>A completion records its failure in both ledgers.\<close>

lemma accounted_complete:
  assumes acc: "accounted c T" and t: "T i = Some t"
    and closure: "\<And>e. failure = Some e \<Longrightarrow> is_closure_failure e"
    and c': "rt_lifecycle c' = rt_lifecycle c"
      "rt_unacknowledged_failures c' = rt_unacknowledged_failures (fst (record_closure_failure i failure c t))"
      "tu_failures t' = tu_failures (snd (record_closure_failure i failure c t))"
  shows "accounted c' (T(i \<mapsto> t'))"
proof (cases failure)
  case None
  then show ?thesis using acc t c' by (auto simp: accounted_def record_closure_failure_def)
next
  case (Some e)
  have "ledger_ok (tu_failures t)" using acc t by (simp add: accounted_def)
  then have "ledger_ok (ledger_record e (tu_failures t))" using closure [OF Some] by (rule ledger_record_ok)
  moreover have "(case map_of (rt_unacknowledged_failures c) i of None \<Rightarrow> failure_ledger_default | Some l \<Rightarrow> l)
      = tu_failures t" if "rt_lifecycle c \<noteq> StoppedState"
    using acc t that by (auto simp: accounted_def ledger_empty_iff)
  ultimately show ?thesis
    using acc t c' Some by (auto simp: accounted_def record_closure_failure_def Let_def)
qed

lemma sched_inv_same:
  assumes "sched_inv config c" "rt_jobs c' = rt_jobs c" "rt_queue c' = rt_queue c" "rt_occupied c' = rt_occupied c"
    "rt_next_job_id c' = rt_next_job_id c" "rt_lifecycle c' = rt_lifecycle c"
  shows "sched_inv config c'"
  using assms(1) unfolding sched_inv_def slots_ok_def work_conserving_def assms(2-6) .

lemma kept_system:
  assumes "system_inv config (c, T, w)" "sched_inv config c'" "kept c c'"
  shows "system_inv config (c', T, w')"
proof -
  have "owned c' T"
    by (rule owned_keys [of c]) (use assms kept_keys [OF assms(3)] in \<open>auto simp: system_inv_def kept_def\<close>)
  then show ?thesis using assms by (simp add: system_inv_def kept_def accounted_def)
qed

text \<open>Steps that only change jobs, each in its own place.\<close>

lemma relabel_system:
  assumes inv: "system_inv config (c, T, w)" and c': "c' = c\<lparr>rt_jobs := map (\<lambda>(i, job). (i, g i job)) (rt_jobs c)\<rparr>"
    and slot: "\<And>i job. map_of (rt_jobs c) i = Some job \<Longrightarrow> holds_slot (g i job) = holds_slot job"
    and queued: "\<And>i job. map_of (rt_jobs c) i = Some job \<Longrightarrow>
      sj_phase (g i job) = JobQueued \<longleftrightarrow> sj_phase job = JobQueued"
  shows "system_inv config (c', T, w')"
proof -
  have ok: "slots_ok config (rt_queue c) c" using inv by (simp add: system_inv_def sched_inv_def)
  have "slots_ok config (rt_queue c') c'"
    using slots_ok_relabel [OF ok, where c' = c' and g = g] slot queued by (simp add: c')
  then have "sched_inv config c'" using inv by (auto simp: system_inv_def sched_inv_def work_conserving_def c')
  moreover have "kept c c'" by (auto simp: kept_def c')
  ultimately show ?thesis by (rule kept_system [OF inv])
qed

lemma system_admit:
  assumes inv: "system_inv config (c, T, w)" and fits: "config_fits config" and t: "T i = Some t"
    and a: "admit_job env config scope call_id timeout request c t w = (r, c', t', w')"
  shows "system_inv config (c', T(i \<mapsto> t'), w')"
  using admit_job_cases [OF a]
proof (elim disjE exE conjE)
  assume "c' = c" "t' = t"
  with inv t show ?thesis by (simp add: system_inv_def fun_upd_idem)
next
  fix n assume n: "checked_add (rt_next_job_id c) 1 = Some n" and c': "c' = c\<lparr>rt_next_job_id := n\<rparr>" "t' = t"
  have "rt_next_job_id c < n" using n by (simp add: checked_add_Some_iff word_less_nat_alt)
  then have "sched_inv config c'"
    using inv by (fastforce simp: system_inv_def sched_inv_def slots_ok_def work_conserving_def c')
  moreover have "owned c' T" using inv by (simp add: system_inv_def owned_def c')
  ultimately show ?thesis using inv t c' by (simp add: system_inv_def accounted_def fun_upd_idem)
next
  fix n direct job a'
  assume n: "checked_add (rt_next_job_id c) 1 = Some n" and run: "rt_lifecycle c = Running"
    and room: "length (rt_jobs c) < sc_max_inflight config"
    and d: "direct = (unat (rt_occupied c) < sc_max_concurrency config \<and> rt_queue c = [])"
    and place: "\<not> direct \<longrightarrow> length (rt_queue c) < sc_max_queued config"
    and ph: "sj_phase job = (if direct then JobPreparing else JobQueued)"
    and c': "c' = c\<lparr>rt_next_job_id := n, rt_jobs := bt_insert (rt_next_job_id c) job (rt_jobs c),
        rt_occupied := (if direct then rt_occupied c + 1 else rt_occupied c),
        rt_queue := (if direct then rt_queue c else rt_queue c @ [rt_next_job_id c])\<rparr>"
    and t': "t' = t\<lparr>tu_jobs := tu_jobs t @ [rt_next_job_id c]\<rparr>"
  have s: "sched_inv config c" and o: "owned c T" and acc: "accounted c T" using inv by (auto simp: system_inv_def)
  have ok: "slots_ok config (rt_queue c) c" using s by (simp add: sched_inv_def)
  have "slots_ok config (rt_queue c') c'"
    by (rule slots_ok_admit [OF ok fits room ph _ _ n]) (use d place in \<open>auto simp: c'\<close>)
  moreover have "work_conserving config c'"
    using s ok d by (auto simp: sched_inv_def slots_ok_def work_conserving_def c')
  ultimately have "sched_inv config c'" using run by (simp add: sched_inv_def c')
  moreover have "owned c' (T(i \<mapsto> t'))"
    by (rule owned_admit [OF o, of "rt_next_job_id c"]) (use ok t in \<open>auto simp: slots_ok_def c' t'\<close>)
  moreover have "accounted c' (T(i \<mapsto> t'))" using acc t by (auto simp: accounted_def c' t')
  ultimately show ?thesis using run by (simp add: system_inv_def c')
qed

lemma system_complete:
  assumes inv: "system_inv config (c, T, w)" and fits: "config_fits config" and t: "T i = Some t"
    and j: "j \<in> set (tu_jobs t)" and closure: "\<And>e. failure = Some e \<Longrightarrow> is_closure_failure e"
    and r: "complete_job env config i j failure c t w1 = (d, c', t', w')"
  shows "system_inv config (c', T(i \<mapsto> t'), w'')"
proof -
  have s: "sched_inv config c" and o: "owned c T" and acc: "accounted c T"
    and cons: "rt_lifecycle c = Constructed \<longrightarrow> (\<forall>i. T i = None)" using inv by (auto simp: system_inv_def)
  note C = complete_job_ok [OF s fits r]
  have "owned c' (T(i \<mapsto> t'))" by (rule owned_remove [OF o j _ _ t]) (use C in auto)
  moreover have "accounted c' (T(i \<mapsto> t'))" by (rule accounted_complete [OF acc t closure]) (use C in auto)
  ultimately show ?thesis using C cons t by (auto simp: system_inv_def)
qed

lemma system_finish_end:
  assumes inv: "system_inv config (c, T, w)" and t: "T i = Some t"
    and r: "turn_finish_end i budget_error c t = (f, c', t')"
  shows "system_inv config (c', T(i \<mapsto> t'), w)"
proof -
  have c': "c' = c\<lparr>rt_unacknowledged_failures := bt_remove i (rt_unacknowledged_failures c)\<rparr>"
    "t' = t\<lparr>tu_failures := failure_ledger_default\<rparr>"
    using r by (auto simp: turn_finish_end_def acknowledge_turn_def)
  have "sched_inv config c'" by (rule sched_inv_same [of _ c]) (use inv in \<open>auto simp: system_inv_def c'\<close>)
  moreover have "owned c' (T(i \<mapsto> t'))" by (rule owned_same [of c T _ i t]) (use inv t in \<open>auto simp: system_inv_def c'\<close>)
  moreover have "accounted c' (T(i \<mapsto> t'))" using inv by (auto simp: system_inv_def accounted_def c')
  ultimately show ?thesis using inv t by (auto simp: system_inv_def c')
qed

lemma system_finish_begin:
  assumes inv: "system_inv config (c, T, w)" and t: "T i = Some t"
    and r: "turn_finish_begin mode c t = (c', t')"
  shows "system_inv config (c', T(i \<mapsto> t'), w)"
proof -
  let ?g = "\<lambda>j job. if mode = FinishCancel \<and> j \<in> set (tu_jobs t) then cancel_job job else job"
  have c': "c' = c\<lparr>rt_jobs := map (\<lambda>(j, job). (j, ?g j job)) (rt_jobs c)\<rparr>" "t' = t\<lparr>tu_open := False\<rparr>"
    using r by (auto simp: turn_finish_begin_def)
  have i: "system_inv config (c', T, w)"
    by (rule relabel_system [OF inv c'(1)]) (auto simp: cancel_job_def holds_slot_def)
  then have "owned c' (T(i \<mapsto> t'))" using t by (intro owned_same [of c' T c' i t]) (auto simp: system_inv_def c'(2))
  moreover have "accounted c' (T(i \<mapsto> t'))" using i t by (auto simp: system_inv_def accounted_def c'(2))
  ultimately show ?thesis using i t by (auto simp: system_inv_def)
qed

lemma system_bind:
  assumes inv: "system_inv config (c, T, w)" and r: "bind_turn_id c = (Ok i, c')"
  shows "system_inv config (c', T(i \<mapsto> turn_control_new), w)"
proof -
  obtain n where n: "rt_lifecycle c = Running" "checked_add (rt_next_turn_id c) 1 = Some n" "i = rt_next_turn_id c"
    and c': "c' = c\<lparr>rt_next_turn_id := n\<rparr>"
    using r by (auto simp: bind_turn_id_def split: if_splits option.splits)
  have lt: "i < n" using n(2,3) by (simp add: checked_add_Some_iff word_less_nat_alt)
  have o: "owned c T" using inv by (simp add: system_inv_def)
  then have none: "T i = None" using n(3) by (cases "T i") (auto simp: owned_def)
  have "owned c' (T(i \<mapsto> turn_control_new))"
    unfolding owned_def
  proof (intro conjI allI impI ballI)
    fix a u assume u: "(T(i \<mapsto> turn_control_new)) a = Some u"
    show "a < rt_next_turn_id c'"
      using o u lt n(3) c' unfolding owned_def by (cases "a = i") (auto dest: less_trans)
    show "set (tu_jobs u) \<subseteq> fst ` set (rt_jobs c')"
      using owned_subset [OF o, of a u] u by (cases "a = i") (auto simp: turn_control_new_def c')
  next
    fix a b u v assume uv: "(T(i \<mapsto> turn_control_new)) a = Some u" "(T(i \<mapsto> turn_control_new)) b = Some v" "a \<noteq> b"
    show "set (tu_jobs u) \<inter> set (tu_jobs v) = {}"
    proof (cases "a = i \<or> b = i")
      case False
      then have "T a = Some u" "T b = Some v" using uv by auto
      then show ?thesis using o uv(3) unfolding owned_def by blast
    qed (use uv in \<open>auto simp: turn_control_new_def\<close>)
  next
    fix k assume "k \<in> fst ` set (rt_jobs c')"
    then have "k \<in> fst ` set (rt_jobs c)" by (simp add: c')
    then obtain a u where au: "T a = Some u" "k \<in> set (tu_jobs u)" by (rule owned_owner [OF o])
    with none have "a \<noteq> i" by auto
    with au show "\<exists>a u. (T(i \<mapsto> turn_control_new)) a = Some u \<and> k \<in> set (tu_jobs u)"
      by (intro exI [of _ a] exI [of _ u]) simp
  qed
  moreover have "accounted c' (T(i \<mapsto> turn_control_new))"
    using inv none by (auto simp: system_inv_def accounted_def c' turn_control_new_def)
  moreover have "sched_inv config c'" by (rule sched_inv_same [of _ c]) (use inv in \<open>auto simp: system_inv_def c'\<close>)
  ultimately show ?thesis using n(1) by (simp add: system_inv_def c')
qed

lemma system_stop_begin:
  assumes inv: "system_inv config (c, T, w)" and r: "runtime_stop_begin c = (b, c')"
  shows "system_inv config (c', T, w)"
proof (cases "rt_lifecycle c = StoppedState")
  case False
  let ?c = "c\<lparr>rt_jobs := map (\<lambda>(i, job). (i, cancel_job job)) (rt_jobs c)\<rparr>"
  have c': "c' = ?c\<lparr>rt_lifecycle := Stopping\<rparr>" using r False by (auto simp: runtime_stop_begin_def)
  have "system_inv config (?c, T, w)"
    by (rule relabel_system [OF inv refl]) (auto simp: cancel_job_def holds_slot_def)
  with False show ?thesis
    by (auto simp: system_inv_def sched_inv_def slots_ok_def work_conserving_def owned_def accounted_def c')
qed (use inv r in \<open>simp add: runtime_stop_begin_def\<close>)

lemma system_stop_end:
  assumes inv: "system_inv config (c, T, w)" and ready: "runtime_stop_ready c" and r: "runtime_stop_end c = (e, c')"
  shows "system_inv config (c', T, w)"
proof -
  have c': "c' = c\<lparr>rt_lifecycle := StoppedState, rt_unacknowledged_failures := []\<rparr>"
    using r by (simp add: runtime_stop_end_def Let_def)
  then show ?thesis
    using inv ready
    by (auto simp: system_inv_def sched_inv_def slots_ok_def work_conserving_def owned_def accounted_def
      runtime_stop_ready_def)
qed

lemma system_enter:
  assumes inv: "system_inv config (c, T, w)" and r: "start_execution env scope j jb c w = (r, jb', c', w')"
  shows "system_inv config (c', T, w')"
proof (cases "c' = c")
  case True
  then show ?thesis using inv by (simp add: system_inv_def)
next
  case False
  with r obtain job at where job: "map_of (rt_jobs c) j = Some job" "sj_phase job = JobPreparing"
    and c': "c' = c\<lparr>rt_jobs := bt_modify j (\<lambda>job. job\<lparr>sj_phase := JobExecuting, sj_started_at := Some at\<rparr>) (rt_jobs c)\<rparr>"
    by (auto simp: start_execution_def Let_def split: option.splits if_splits outcome.splits prod.splits)
  show ?thesis
    by (rule relabel_system [OF inv c' [unfolded bt_modify_as_map]]) (use job in \<open>auto simp: holds_slot_def\<close>)
qed

lemma system_record:
  assumes inv: "system_inv config (c, T, w)"
  shows "system_inv config (recording j stage confirmed c, T, w)"
  by (rule relabel_system [OF inv recording_def [unfolded bt_modify_as_map]])
    (auto simp: set_recording_def Let_def holds_slot_def split: option.splits model_record_stage.splits)

lemma model_step_inv:
  assumes "model_step env config s s'" "system_inv config s" "config_fits config"
  shows "system_inv config s'"
  using assms
proof (induction rule: model_step.induct)
  case (start c r c' T w)
  then show ?case
    by (auto simp: runtime_start_def system_inv_def sched_inv_def slots_ok_def work_conserving_def queue_ok_def
      owned_def accounted_def split: if_splits)
next
  case (bind c i c' T w)
  then show ?case by (blast intro: system_bind)
next
  case (admit T i t scope call_id timeout request c w r c' t' w')
  then show ?case by (blast intro: system_admit)
next
  case (release j reason c w c' w' T)
  then show ?case using release_execution_ok [OF _ _ release.hyps] kept_system [of config c T w c']
    by (auto simp: system_inv_def)
next
  case (enter scope j jb c w r jb' c' w' T)
  then show ?case by (blast intro: system_enter)
next
  case (note_record c T w j stage confirmed)
  then show ?case by (blast intro: system_record)
next
  case (complete T i t j jb result c w d c' t' w')
  obtain r1 jb1 w1 where b: "job_budget_settle env jb w = (r1, jb1, w1)" by (cases "job_budget_settle env jb w") auto
  let ?f = "case result of Err e \<Rightarrow> if is_closure_failure e then Some e else None | _ \<Rightarrow> None"
  have "complete_job env config i j ?f c t w1 = (d, c', t', w')"
    using complete.hyps(3) b by (simp add: guard_complete_def Let_def)
  then show ?case
    by (rule system_complete [OF complete.prems complete.hyps(1,2), rotated])
      (auto split: outcome.splits if_splits)
next
  case (unwind T i t j jb c w d c' t' w')
  obtain r1 jb1 w1 where b: "job_budget_settle env jb w = (r1, jb1, w1)" by (cases "job_budget_settle env jb w") auto
  have "complete_job env config i j (Some (GwInternal ''model_driver_unwound''
      ''Model operation driver unwound before canonical closure'')) c t w1 = (d, c', t', w')"
    using unwind.hyps(3) b by (simp add: guard_drop_def Let_def)
  then show ?case
    by (rule system_complete [OF unwind.prems unwind.hyps(1,2), rotated]) (simp add: is_closure_failure_def)
next
  case (finish_begin T i t mode c c' t' w)
  then show ?case by (blast intro: system_finish_begin)
next
  case (finish_end T i t budget_error c f c' t' w)
  then show ?case by (blast intro: system_finish_end)
next
  case (stop_begin c b c' T w)
  then show ?case by (blast intro: system_stop_begin)
next
  case (stop_end c e c' T w)
  then show ?case by (blast intro: system_stop_end)
next
  case (world c T w w')
  then show ?case by (simp add: system_inv_def)
qed

lemma system_inv_initial: "system_inv config (runtime_control_new, Map.empty, w)"
  by (simp add: system_inv_def sched_inv_def slots_ok_def work_conserving_def queue_ok_def slots_taken_def
    owned_def accounted_def runtime_control_new_def)

lemma reachable_system_inv:
  assumes "model_reach env config s" "config_fits config"
  shows "system_inv config s"
  using assms by (induction rule: model_reach.induct) (auto simp: system_inv_initial intro: model_step_inv)

end
