(* ===== verification/ModelRuntime.thy ===== *)
theory ModelRuntime
  imports ModelScheduler
begin

text \<open>
  The driver of one model call, \<open>crates/llm/runtime/src/lib.rs\<close>, \<open>scheduling.rs\<close>, \<open>budget.rs\<close> and
  \<open>validation.rs\<close>: the checks before admission, the recording of the request, the wait for a slot,
  the provider's answer, the settlement of the budget and the recording of the result.

  A driver runs between the steps of others: where it waits, \<open>dv_others\<close> is what they do, and the
  branch of a \<open>select!\<close> that becomes ready first is the next entry of a schedule. A driver whose
  schedule ends before its last wait is still waiting, which is the value \<open>None\<close>. The provider, the
  recorder and the estimator are functions of the world, and a panic of theirs is the outcome \<open>Panic\<close>.
  No branch of a \<open>select!\<close> drops an append the recorder has accepted, so an append that never answers,
  the value \<open>None\<close> of \<open>dv_append\<close>, holds its driver for good.
\<close>

section \<open>Texts of budget errors\<close>

fun resource_debug :: "budget_resource \<Rightarrow> string" where
  "resource_debug Steps = ''Steps''"
| "resource_debug ModelRequests = ''ModelRequests''"
| "resource_debug BudgetVocab.ToolCalls = ''ToolCalls''"
| "resource_debug Corrections = ''Corrections''"
| "resource_debug InputTokens = ''InputTokens''"
| "resource_debug OutputTokens = ''OutputTokens''"
| "resource_debug ToolOutputBytes = ''ToolOutputBytes''"

fun stop_debug :: "budget_stop_reason \<Rightarrow> string" where
  "stop_debug RecoveryRequired = ''RecoveryRequired''"
| "stop_debug (ResourceLimit r) = ''ResourceLimit('' @ resource_debug r @ '')''"
| "stop_debug ActiveTime = ''ActiveTime''"
| "stop_debug (UsageExceededReservation r) = ''UsageExceededReservation('' @ resource_debug r @ '')''"
| "stop_debug AbandonedReservation = ''AbandonedReservation''"
| "stop_debug RunAbandoned = ''RunAbandoned''"
| "stop_debug ClockMovedBackwards = ''ClockMovedBackwards''"
| "stop_debug AccountingOverflow = ''AccountingOverflow''"
| "stop_debug StopIdentityMismatch = ''IdentityMismatch''"
| "stop_debug InvalidRequest = ''InvalidRequest''"

fun budget_error_text :: "budget_error \<Rightarrow> string" where
  "budget_error_text CheckpointSealed = ''this ledger has been sealed for checkpoint transfer''"
| "budget_error_text InvalidIdentity = ''task, session and agent identity must be nonempty''"
| "budget_error_text IdentityMismatch = ''budget binding identity does not match the request or recorded event''"
| "budget_error_text RunActive = ''a task run is already active''"
| "budget_error_text RunClosed = ''this run is closed''"
| "budget_error_text (Stopped r) = ''budget stopped: '' @ stop_debug r"
| "budget_error_text EmptyRequest = ''a reservation must consume at least one attempt''"
| "budget_error_text (UnverifiedTokenBound r) = ''missing verified token bound: '' @ resource_debug r"
| "budget_error_text (ZeroTokenEstimate r) = ''an unknown token estimate cannot be zero: '' @ resource_debug r"
| "budget_error_text AlreadyStarted = ''reservation has already started''"
| "budget_error_text NotStarted = ''reservation has not started''"
| "budget_error_text ReservationMissing = ''reservation is unavailable''"
| "budget_error_text PendingReservations = ''pending reservations must be settled before finishing''"
| "budget_error_text Poisoned = ''budget lock was poisoned''"

section \<open>Validation\<close>

text \<open>
  What the code uses of \<open>serde_json\<close> and \<open>jsonschema\<close>: the length of a value's text (none when it cannot
  be written), the text itself, and a schema's compiled validator, with external references disabled.
\<close>

record 'v schema_ops =
  so_json :: "'v json_ops"
  so_compile :: "'v \<Rightarrow> ('v \<Rightarrow> bool) option"
  so_value_text :: "'v \<Rightarrow> string"
  so_response_length :: "'v generation_response \<Rightarrow> usize option"
  so_request_length :: "'v generation_request \<Rightarrow> usize option"
  so_options_length :: "model_request_options \<Rightarrow> usize option"

definition compile_schema :: "'v schema_ops \<Rightarrow> 'v \<Rightarrow> ('v \<Rightarrow> bool, llm_error) outcome" where
  "compile_schema so schema = ok_or (so_compile so schema) (LeProtocol SchemaValidation)"

definition compile_step :: "'v schema_ops \<Rightarrow> 'v model_tool_definition \<Rightarrow> unit \<Rightarrow> (unit, llm_error) outcome" where
  "compile_step so tool _ = and_then (compile_schema so (td_parameters tool)) (\<lambda>_. Ok ())"

definition protocol_result :: "(unit, model_protocol_error) outcome \<Rightarrow> (unit, llm_error) outcome" where
  "protocol_result r = (case r of Ok u \<Rightarrow> Ok u | Err e \<Rightarrow> Err (LeProtocol e) | Panic \<Rightarrow> Panic)"

definition prepare_call ::
    "'v schema_ops \<Rightarrow> 'v generation_request \<Rightarrow> model_capabilities \<Rightarrow> model_call_mode
       \<Rightarrow> (unit, llm_error) outcome" where
  "prepare_call so request capabilities mode =
     and_then (protocol_result (preflight (so_json so) request capabilities mode)) (\<lambda>_.
     (case rg_constraint request of
        TextOutput \<Rightarrow> Ok ()
      | JsonSchema _ schema \<Rightarrow> and_then (compile_schema so schema) (\<lambda>_. Ok ())
      | NativeTools tools _ \<Rightarrow> for_each (compile_step so) tools ()))"

text \<open>A bounded writer fails exactly when the text is longer than its limit.\<close>

definition written_within :: "usize option \<Rightarrow> usize \<Rightarrow> bool" where
  "written_within len bound \<longleftrightarrow> (case len of None \<Rightarrow> False | Some n \<Rightarrow> n \<le> bound)"

definition call_valid_step ::
    "'v schema_ops \<Rightarrow> 'v model_tool_definition list \<Rightarrow> 'v model_tool_call \<Rightarrow> unit \<Rightarrow> (unit, llm_error) outcome" where
  "call_valid_step so tools call _ =
     (case find (\<lambda>tool. td_name tool = tc_name call) tools of
        None \<Rightarrow> Err (LeProtocol ToolNotVisible)
      | Some tool \<Rightarrow>
          and_then (compile_schema so (td_parameters tool)) (\<lambda>valid.
          if valid (tc_arguments call) then Ok () else Err (LeProtocol SchemaValidation)))"

definition validate_response ::
    "'v schema_ops \<Rightarrow> 'v generation_request \<Rightarrow> 'v generation_response \<Rightarrow> generation_limits
       \<Rightarrow> (unit, llm_error) outcome" where
  "validate_response so request response limits =
     (if \<not> written_within (so_response_length so response) (gl_max_output_bytes limits)
      then Err (LeProtocol OutputLimitExceeded)
      else if usize_saturating_add (length (rs_tool_calls response)) (length (rs_incomplete_tool_calls response))
                > gl_max_tool_calls limits
      then Err (LeProtocol OutputLimitExceeded)
      else if rs_finish_reason response \<noteq> Stop \<and> rs_finish_reason response \<noteq> finish_reason.ToolCalls then Ok ()
      else
        and_then (protocol_result (validate_shape_for (so_json so) request response)) (\<lambda>_.
        (case rg_constraint request of
           TextOutput \<Rightarrow> Ok ()
         | JsonSchema _ schema \<Rightarrow>
             and_then (ok_or (js_from_str (so_json so) (unwrap_or_empty (rs_content response)))
               (LeProtocol InvalidJsonOutput)) (\<lambda>v.
             and_then (compile_schema so schema) (\<lambda>valid.
             if valid v then Ok () else Err (LeProtocol SchemaValidation)))
         | NativeTools tools _ \<Rightarrow> for_each (call_valid_step so tools) (rs_tool_calls response) ())))"

section \<open>Results\<close>

definition empty_partial :: generation_partial where
  "empty_partial = \<lparr>gp_content = None, gp_tool_calls = []\<rparr>"

definition failed_outcome ::
    "'v model_request \<Rightarrow> model_failure_category \<Rightarrow> string \<Rightarrow> string \<Rightarrow> bool \<Rightarrow> u16 option \<Rightarrow> generation_partial
       \<Rightarrow> 'v model_result" where
  "failed_outcome request category code message retryable status part =
     \<lparr>ms_version = RecordV1, ms_call_id = mq_call_id request,
      ms_outcome = ModelFailed category code message retryable status part\<rparr>"

definition successful_result :: "'v model_request \<Rightarrow> 'v generation_response \<Rightarrow> 'v model_result" where
  "successful_result request response =
     \<lparr>ms_version = RecordV1, ms_call_id = mq_call_id request, ms_outcome = ModelSucceeded response\<rparr>"

text \<open>\<open>u32::try_from(index).unwrap_or(u32::MAX)\<close>\<close>

definition fragment_index :: "nat \<Rightarrow> u32" where
  "fragment_index n = (if n < 2 ^ 32 then of_nat n else - 1)"

definition response_partial :: "'v schema_ops \<Rightarrow> 'v generation_response \<Rightarrow> generation_partial" where
  "response_partial so response =
     \<lparr>gp_content = rs_content response,
      gp_tool_calls = rs_incomplete_tool_calls response @
        map (\<lambda>(index, call). \<lparr>fr_index = fragment_index index, fr_id = tc_id call, fr_name = tc_name call,
          fr_arguments = so_value_text so (tc_arguments call)\<rparr>) (enumerate 0 (rs_tool_calls response))\<rparr>"

definition failed_result :: "'v model_request \<Rightarrow> llm_error \<Rightarrow> generation_partial \<Rightarrow> 'v model_result" where
  "failed_result request error part =
     (case error of
        LeUpstream status _ \<Rightarrow> failed_outcome request McUpstream ''model_upstream''
          ''Model provider rejected the request'' (status = 408 \<or> status = 429 \<or> status \<ge> 500) (Some status) part
      | LeTimeout \<Rightarrow> failed_outcome request McTimeout ''model_timeout''
          ''Model operation exceeded its deadline'' True None part
      | LeStreamParse _ \<Rightarrow> failed_outcome request McStreamParse ''model_stream_parse''
          ''Model stream could not be decoded'' False None part
      | LeProtocol _ \<Rightarrow> failed_outcome request McProtocol ''model_protocol''
          ''Model request or response violated its protocol'' False None part
      | LeCancelled \<Rightarrow> failed_outcome request McCancelled ''model_cancelled''
          ''Model operation was cancelled'' False None part
      | LeAdapter _ \<Rightarrow> failed_outcome request McAdapter ''model_adapter'' ''Model adapter failed'' True None part)"

definition budget_failed_result :: "'v model_request \<Rightarrow> budget_error \<Rightarrow> generation_partial \<Rightarrow> 'v model_result" where
  "budget_failed_result request error part =
     failed_outcome request McBudget ''model_budget'' (budget_error_text error) False None part"

definition consumer_dropped_result :: "'v model_request \<Rightarrow> generation_partial \<Rightarrow> 'v model_result" where
  "consumer_dropped_result request part =
     failed_outcome request McCancelled ''model_stream_consumer_dropped'' ''Model stream consumer dropped'' False None part"

definition internal_result :: "'v model_request \<Rightarrow> string \<Rightarrow> string \<Rightarrow> generation_partial \<Rightarrow> 'v model_result" where
  "internal_result request code message part = failed_outcome request McInternal code message False None part"

definition result_stop_reason :: "'v model_result \<Rightarrow> model_job_stop_reason option" where
  "result_stop_reason result =
     (case ms_outcome result of
        ModelSucceeded _ \<Rightarrow> None
      | ModelFailed category code _ _ _ _ \<Rightarrow>
          Some (if category = McBudget then StopBudget
                else if code = ''model_queue_timeout'' then StopQueueTimeout
                else if code = ''model_stream_consumer_dropped'' then StopConsumerDropped
                else if category = McTimeout then StopTimeout
                else if category = McCancelled then StopCancelled
                else StopFailed))"

text \<open>The error is the one \<open>stopped_result\<close> takes from the job for an exhausted budget.\<close>

definition stopped_result ::
    "budget_error \<Rightarrow> 'v model_request \<Rightarrow> model_job_stop_reason \<Rightarrow> 'v model_result \<times> 'v model_gateway_error" where
  "stopped_result error request reason =
     (case reason of
        StopBudget \<Rightarrow> (budget_failed_result request error empty_partial, GwRuntime (MrBudget error))
      | StopQueueTimeout \<Rightarrow>
          (failed_outcome request McTimeout ''model_queue_timeout''
             ''Model operation exceeded its deadline while queued'' True None empty_partial, GwRuntime MrQueueTimeout)
      | StopTimeout \<Rightarrow> (failed_result request LeTimeout empty_partial, GwModel LeTimeout)
      | StopCancelled \<Rightarrow> (failed_result request LeCancelled empty_partial, GwModel LeCancelled)
      | StopConsumerDropped \<Rightarrow> (consumer_dropped_result request empty_partial, GwModel LeCancelled)
      | StopFailed \<Rightarrow>
          (internal_result request ''model_scheduler_state'' ''Model job lost its execution state'' empty_partial,
           GwInternal ''model_scheduler_state'' ''Model job lost its execution state''))"

section \<open>The turn's budget\<close>

record 'b turn_budget =
  tg_scope :: 'b
  tg_explicit :: bool
  tg_expected_turn :: "turn_id option"
  tg_identity :: budget_identity

definition mismatch :: "('b, 'r, 'w) model_env \<Rightarrow> 'b turn_budget \<Rightarrow> 'w \<Rightarrow> (unit, budget_error) outcome \<times> 'w" where
  "mismatch env b w = (Err IdentityMismatch, me_stop_with env (tg_scope b) StopIdentityMismatch w)"

text \<open>
  \<open>TurnBudget::new\<close>: the scope a binding brings, which must name its turn, or a run of its own. The
  scope's identity and turn and the owned run are arguments.
\<close>

definition turn_budget_new ::
    "('b, 'r, 'w) model_env \<Rightarrow> ('b \<Rightarrow> budget_identity) \<Rightarrow> ('b \<Rightarrow> 'w \<Rightarrow> (turn_id option, budget_error) outcome \<times> 'w)
       \<Rightarrow> ('w \<Rightarrow> ('b, budget_error) outcome \<times> 'w) \<Rightarrow> 'b option \<Rightarrow> 'w
       \<Rightarrow> ('b turn_budget, budget_error) outcome \<times> 'w" where
  "turn_budget_new env identity turn_of own_run scope w =
     (case scope of
        Some b \<Rightarrow>
          (case me_check_active env b w of
             (Err e, w) \<Rightarrow> (Err e, w)
           | (Panic, w) \<Rightarrow> (Panic, w)
           | (Ok _, w) \<Rightarrow>
               (case turn_of b w of
                  (Err e, w) \<Rightarrow> (Err e, w)
                | (Panic, w) \<Rightarrow> (Panic, w)
                | (Ok None, w) \<Rightarrow> (Err IdentityMismatch, me_stop_with env b StopIdentityMismatch w)
                | (Ok (Some turn), w) \<Rightarrow>
                    (Ok \<lparr>tg_scope = b, tg_explicit = True, tg_expected_turn = Some turn, tg_identity = identity b\<rparr>, w)))
      | None \<Rightarrow>
          (case own_run w of
             (Err e, w) \<Rightarrow> (Err e, w)
           | (Panic, w) \<Rightarrow> (Panic, w)
           | (Ok b, w) \<Rightarrow>
               (Ok \<lparr>tg_scope = b, tg_explicit = False, tg_expected_turn = None, tg_identity = identity b\<rparr>, w)))"

definition runtime_bind_turn ::
    "('b, 'r, 'w) model_env \<Rightarrow> ('b \<Rightarrow> budget_identity) \<Rightarrow> ('b \<Rightarrow> 'w \<Rightarrow> (turn_id option, budget_error) outcome \<times> 'w)
       \<Rightarrow> ('w \<Rightarrow> ('b, budget_error) outcome \<times> 'w) \<Rightarrow> bool \<Rightarrow> 'b option \<Rightarrow> ('b, 'v) runtime_control \<Rightarrow> 'w
       \<Rightarrow> (u64 \<times> 'b turn_budget \<times> 'v turn_control, model_runtime_error) outcome \<times> ('b, 'v) runtime_control \<times> 'w" where
  "runtime_bind_turn env identity turn_of own_run cancelled scope c w =
     (if cancelled then (Err MrTurnClosed, c, w)
      else
        (case turn_budget_new env identity turn_of own_run scope w of
           (Err e, w) \<Rightarrow> (Err (MrBudget e), c, w)
         | (Panic, w) \<Rightarrow> (Panic, c, w)
         | (Ok budget, w) \<Rightarrow>
             (case bind_turn_id c of
                (Err e, c) \<Rightarrow> (Err e, c, w)
              | (Panic, c) \<Rightarrow> (Panic, c, w)
              | (Ok turn_id, c) \<Rightarrow> (Ok (turn_id, budget, turn_control_new), c, w))))"

definition check_context ::
    "('b, 'r, 'w) model_env \<Rightarrow> 'b turn_budget \<Rightarrow> generation_options \<Rightarrow> 'w
       \<Rightarrow> (unit, budget_error) outcome \<times> 'w" where
  "check_context env b options w =
     (case me_check_active env (tg_scope b) w of
        (Ok _, w) \<Rightarrow>
          if tg_explicit b \<and> (case go_context options of None \<Rightarrow> False
              | Some context \<Rightarrow> dx_task_id context \<noteq> id_task_id (tg_identity b))
          then mismatch env b w else (Ok (), w)
      | (r, w) \<Rightarrow> (r, w))"

definition check_event ::
    "('b, 'r, 'w) model_env \<Rightarrow> 'b turn_budget \<Rightarrow> 'v session_event \<Rightarrow> 'w
       \<Rightarrow> (unit, budget_error) outcome \<times> 'w" where
  "check_event env b event w =
     (if tg_explicit b \<and> (se_session_id event \<noteq> id_session_id (tg_identity b)
          \<or> tg_expected_turn b \<noteq> Some (se_turn_id event))
      then mismatch env b w else (Ok (), w))"

text \<open>\<open>SoftModelBudgetEstimator\<close>: the length of the request's text is its counter.\<close>

definition soft_estimate ::
    "'v schema_ops \<Rightarrow> 'v generation_request \<Rightarrow> generation_options \<Rightarrow> (model_token_estimate, budget_error) outcome" where
  "soft_estimate so request options =
     (case so_request_length so request of
        None \<Rightarrow> Err (Stopped AccountingOverflow)
      | Some n \<Rightarrow>
          if n > usize_max then Err (Stopped AccountingOverflow)
          else (case checked_add (of_nat n :: u64) 1024 of
              None \<Rightarrow> Err (Stopped AccountingOverflow)
            | Some input \<Rightarrow>
                Ok \<lparr>te_input_tokens = input,
                    te_output_tokens = max (ucast (case go_max_tokens options of None \<Rightarrow> 4096 | Some t \<Rightarrow> t)) 1,
                    te_input_evidence = Estimate, te_output_evidence = Estimate\<rparr>))"

section \<open>Admission of a call\<close>

definition effective_timeout :: "duration option \<Rightarrow> duration \<Rightarrow> duration" where
  "effective_timeout call runtime = (case call of None \<Rightarrow> runtime | Some d \<Rightarrow> min d runtime)"

definition request_options :: "generation_options \<Rightarrow> model_request_options" where
  "request_options options =
     \<lparr>mo_context = go_context options, mo_max_tokens = go_max_tokens options,
      mo_timeout = map_option model_timeout_from_duration (go_timeout options), mo_limits = go_limits options\<rparr>"

definition model_request_of ::
    "model_call_id \<Rightarrow> model_call_mode \<Rightarrow> 'v generation_request \<Rightarrow> generation_options \<Rightarrow> 'v model_request" where
  "model_request_of call_id mode input options =
     \<lparr>mq_version = RecordV1, mq_call_id = call_id, mq_mode = mode, mq_input = input,
      mq_options = request_options options\<rparr>"

text \<open>One writer counts the request and then the options.\<close>

definition validate_request_size ::
    "'v schema_ops \<Rightarrow> 'v generation_request \<Rightarrow> generation_options \<Rightarrow> usize
       \<Rightarrow> (unit, 'v model_gateway_error) outcome" where
  "validate_request_size so request options limit_bytes =
     (case (so_request_length so request, so_options_length so (request_options options)) of
        (Some n, Some m) \<Rightarrow> if n + m \<le> limit_bytes then Ok () else Err (GwRuntime (MrRequestTooLarge limit_bytes))
      | _ \<Rightarrow> Err (GwRuntime (MrRequestTooLarge limit_bytes)))"

type_synonym ('v, 'w) estimator =
  "'v generation_request \<Rightarrow> generation_options \<Rightarrow> 'w \<Rightarrow> (model_token_estimate, budget_error) outcome \<times> 'w"

definition estimate_request :: "model_token_estimate \<Rightarrow> budget_request" where
  "estimate_request estimate =
     with_token_evidence
       (new_request (default_amounts\<lparr>steps := 1, model_requests := 1,
          input_tokens := te_input_tokens estimate, output_tokens := te_output_tokens estimate\<rparr>))
       (te_input_evidence estimate) (te_output_evidence estimate)"

definition request_estimate ::
    "('b, 'r, 'w) model_env \<Rightarrow> 'b turn_budget \<Rightarrow> ('v, 'w) estimator \<Rightarrow> 'v generation_request
       \<Rightarrow> generation_options \<Rightarrow> 'w \<Rightarrow> (budget_request, 'v model_gateway_error) outcome \<times> 'w" where
  "request_estimate env b estimator input options w =
     (case check_context env b options w of
        (Err e, w) \<Rightarrow> (Err (GwRuntime (MrBudget e)), w)
      | (Panic, w) \<Rightarrow> (Panic, w)
      | (Ok _, w) \<Rightarrow>
          (case estimator input options w of
             (Ok estimate, w) \<Rightarrow> (Ok (estimate_request estimate), w)
           | (Err e, w) \<Rightarrow>
               (Err (GwRuntime (MrBudget e)), me_stop_with env (tg_scope b) InvalidRequest w)
           | (Panic, w) \<Rightarrow>
               (Err (GwInternal ''model_budget_estimator_panicked'' ''Trusted model budget estimator panicked''),
                me_stop_with env (tg_scope b) InvalidRequest w)))"

text \<open>What \<open>generate\<close> and \<open>generate_stream\<close> do before they hand a call to its driver.\<close>

definition generate_admit ::
    "('b, 'r, 'w) model_env \<Rightarrow> model_scheduler_config \<Rightarrow> 'v schema_ops \<Rightarrow> 'b turn_budget \<Rightarrow> ('v, 'w) estimator
       \<Rightarrow> duration \<Rightarrow> model_call_id \<Rightarrow> model_call_mode \<Rightarrow> 'v generation_request \<Rightarrow> generation_options
       \<Rightarrow> ('b, 'v) runtime_control \<Rightarrow> 'v turn_control \<Rightarrow> 'w
       \<Rightarrow> ('r admission \<times> 'v model_request \<times> generation_options, 'v model_gateway_error) outcome
           \<times> ('b, 'v) runtime_control \<times> 'v turn_control \<times> 'w" where
  "generate_admit env config so b estimator default_timeout call_id mode input options c t w =
     (let timeout = effective_timeout (go_timeout options) default_timeout;
          options = options\<lparr>go_timeout := Some timeout\<rparr> in
      (case validate_request_size so input options (sc_max_request_bytes config) of
         Err e \<Rightarrow> (Err e, c, t, w)
       | Panic \<Rightarrow> (Panic, c, t, w)
       | Ok _ \<Rightarrow>
           (case request_estimate env b estimator input options w of
              (Err e, w) \<Rightarrow> (Err e, c, t, w)
            | (Panic, w) \<Rightarrow> (Panic, c, t, w)
            | (Ok request, w) \<Rightarrow>
                (case admit_job env config (tg_scope b) call_id timeout request c t w of
                   (Err e, c, t, w) \<Rightarrow> (Err (GwRuntime e), c, t, w)
                 | (Panic, c, t, w) \<Rightarrow> (Panic, c, t, w)
                 | (Ok a, c, t, w) \<Rightarrow> (Ok (a, model_request_of call_id mode input options, options), c, t, w)))))"

section \<open>A driver and its state\<close>

datatype wake = WakeReady | WakeBudget | WakeCancelled | WakeDeadline | WakeConsumer

datatype 'v generation_stream_event = StreamDelta generation_delta | StreamFinished "'v generation_response"

record ('b, 'v, 'r, 'w) driver =
  dv_env :: "('b, 'r, 'w) model_env"
  dv_config :: model_scheduler_config
  dv_schema :: "'v schema_ops"
  dv_budget :: "'b turn_budget"
  dv_job_id :: u64
  dv_deadline :: duration
  dv_budget_deadline :: "duration option"
  dv_others :: "('b, 'v) runtime_control \<Rightarrow> 'w \<Rightarrow> ('b, 'v) runtime_control \<times> 'w"
  dv_append :: "'v model_record \<Rightarrow> 'w \<Rightarrow> (('v session_event, 'v session_runtime_error) outcome \<times> 'w) option"
  dv_cancelled :: "'w \<Rightarrow> bool"
  dv_closed :: "'w \<Rightarrow> bool"
  dv_capabilities :: "'w \<Rightarrow> (model_capabilities, unit) outcome \<times> 'w"
  dv_generate :: "'v generation_request \<Rightarrow> generation_options \<Rightarrow> 'w \<Rightarrow> ('v generation_response, llm_error) outcome \<times> 'w"
  dv_open_stream :: "'v generation_request \<Rightarrow> generation_options \<Rightarrow> 'w \<Rightarrow> (unit, unit) outcome \<times> 'w"
  dv_next :: "'w \<Rightarrow> ('v generation_stream_event, llm_error) outcome option \<times> 'w"
  dv_send :: "generation_delta \<Rightarrow> 'w \<Rightarrow> bool \<times> 'w"

text \<open>
  The history of a driver is kept beside its state: what it asked the recorder and what the recorder
  answered, its entries of the provider, and the deltas its consumer took.
\<close>

datatype 'v driver_event =
    Recorded "'v model_record" "('v session_event, 'v session_runtime_error) outcome"
  | Entered
  | Forwarded generation_delta

record ('b, 'v, 'r, 'w) driver_state =
  ds_control :: "('b, 'v) runtime_control"
  ds_budget :: "'r job_budget"
  ds_world :: 'w
  ds_history :: "'v driver_event list"

definition scope_of :: "('b, 'v, 'r, 'w) driver \<Rightarrow> 'b" where
  "scope_of d = tg_scope (dv_budget d)"

text \<open>A wait: the other drivers and callers run.\<close>

definition pause :: "('b, 'v, 'r, 'w) driver \<Rightarrow> ('b, 'v, 'r, 'w) driver_state \<Rightarrow> ('b, 'v, 'r, 'w) driver_state" where
  "pause d s = (let (c, w) = dv_others d (ds_control s) (ds_world s) in s\<lparr>ds_control := c, ds_world := w\<rparr>)"

definition interruption_now ::
    "('b, 'v, 'r, 'w) driver \<Rightarrow> bool \<Rightarrow> ('b, 'v, 'r, 'w) driver_state
       \<Rightarrow> model_job_stop_reason option \<times> ('b, 'v, 'r, 'w) driver_state" where
  "interruption_now d deltas s =
     (let env = dv_env d;
          w = (case dv_budget_deadline d of
                 None \<Rightarrow> ds_world s
               | Some deadline \<Rightarrow> if me_now env (ds_world s) \<ge> deadline then me_expire env (scope_of d) (ds_world s)
                   else ds_world s);
          (active, w) = me_check_active env (scope_of d) w;
          s = s\<lparr>ds_world := w\<rparr>;
          job = map_of (rt_jobs (ds_control s)) (dv_job_id d) in
      (if active \<noteq> Ok () then Some StopBudget
       else (case Option.bind job sj_stop_reason of
           Some reason \<Rightarrow> Some reason
         | None \<Rightarrow>
             if dv_cancelled d w then Some StopCancelled
             else if me_now env w \<ge> dv_deadline d then
               Some (if (case job of Some job \<Rightarrow> sj_phase job = JobQueued | None \<Rightarrow> False)
                     then StopQueueTimeout else StopTimeout)
             else if deltas \<and> dv_closed d w then Some StopConsumerDropped
             else None), s))"

text \<open>\<open>interrupted\<close>, by the branch of its \<open>select!\<close> that is ready first.\<close>

definition interrupted ::
    "('b, 'v, 'r, 'w) driver \<Rightarrow> bool \<Rightarrow> wake \<Rightarrow> ('b, 'v, 'r, 'w) driver_state
       \<Rightarrow> model_job_stop_reason \<times> ('b, 'v, 'r, 'w) driver_state" where
  "interrupted d deltas wake s =
     (case wake of
        WakeBudget \<Rightarrow> (StopBudget, s)
      | WakeCancelled \<Rightarrow> (StopCancelled, s)
      | WakeConsumer \<Rightarrow> (StopConsumerDropped, s)
      | _ \<Rightarrow>
          let (reason, s) = interruption_now d deltas s in
          (case reason of Some r \<Rightarrow> r | None \<Rightarrow> StopTimeout, s))"

definition release_job ::
    "('b, 'v, 'r, 'w) driver \<Rightarrow> model_job_stop_reason option \<Rightarrow> ('b, 'v, 'r, 'w) driver_state
       \<Rightarrow> ('b, 'v, 'r, 'w) driver_state" where
  "release_job d reason s =
     (let (c, w) = release_execution (dv_env d) (dv_config d) (dv_job_id d) reason (ds_control s) (ds_world s) in
      s\<lparr>ds_control := c, ds_world := w\<rparr>)"

definition job_recording ::
    "('b, 'v, 'r, 'w) driver \<Rightarrow> model_record_stage option \<Rightarrow> bool \<Rightarrow> ('b, 'v, 'r, 'w) driver_state
       \<Rightarrow> ('b, 'v, 'r, 'w) driver_state" where
  "job_recording d stage confirmed s = s\<lparr>ds_control := recording (dv_job_id d) stage confirmed (ds_control s)\<rparr>"

text \<open>The scope's own error, or a fixed one.\<close>

definition budget_error_now ::
    "('b, 'v, 'r, 'w) driver \<Rightarrow> ('b, 'v, 'r, 'w) driver_state \<Rightarrow> budget_error \<times> ('b, 'v, 'r, 'w) driver_state" where
  "budget_error_now d s =
     (let (r, w) = me_check_active (dv_env d) (scope_of d) (ds_world s) in
      (case r of Err e \<Rightarrow> e | _ \<Rightarrow> Stopped InvalidRequest, s\<lparr>ds_world := w\<rparr>))"

definition deadline_stop ::
    "('b, 'v, 'r, 'w) driver \<Rightarrow> ('b, 'v, 'r, 'w) driver_state
       \<Rightarrow> model_job_stop_reason \<times> ('b, 'v, 'r, 'w) driver_state" where
  "deadline_stop d s =
     (if dv_budget_deadline d \<noteq> None
      then (StopBudget, s\<lparr>ds_world := me_expire (dv_env d) (scope_of d) (ds_world s)\<rparr>)
      else (StopTimeout, s))"

definition settle_budget ::
    "('b, 'v, 'r, 'w) driver \<Rightarrow> ('b, 'v, 'r, 'w) driver_state
       \<Rightarrow> (unit, budget_error) outcome \<times> ('b, 'v, 'r, 'w) driver_state" where
  "settle_budget d s =
     (let (r, jb, w) = job_budget_settle (dv_env d) (ds_budget s) (ds_world s) in
      (r, s\<lparr>ds_budget := jb, ds_world := w\<rparr>))"

definition observe_usage :: "token_usage \<Rightarrow> ('b, 'v, 'r, 'w) driver_state \<Rightarrow> ('b, 'v, 'r, 'w) driver_state" where
  "observe_usage usage s = s\<lparr>ds_budget := job_budget_observe usage (ds_budget s)\<rparr>"

definition start_provider ::
    "('b, 'v, 'r, 'w) driver \<Rightarrow> bool \<Rightarrow> ('b, 'v, 'r, 'w) driver_state
       \<Rightarrow> (unit, model_job_stop_reason) outcome \<times> ('b, 'v, 'r, 'w) driver_state" where
  "start_provider d deltas s =
     (case interruption_now d deltas s of
        (Some stop, s) \<Rightarrow> (Err stop, s)
      | (None, s) \<Rightarrow>
          let (r, jb, c, w) = start_execution (dv_env d) (scope_of d) (dv_job_id d) (ds_budget s) (ds_control s) (ds_world s) in
          (r, s\<lparr>ds_control := c, ds_budget := jb, ds_world := w\<rparr>))"

section \<open>Recording\<close>

text \<open>\<open>append_request\<close> and \<open>append_result\<close> differ in the failure they build.\<close>

definition append_record ::
    "('b, 'v, 'r, 'w) driver \<Rightarrow> ('v model_record_failure \<Rightarrow> 'v model_closure_failure) \<Rightarrow> 'v model_record
       \<Rightarrow> ('b, 'v, 'r, 'w) driver_state
       \<Rightarrow> ((unit, 'v model_gateway_error) outcome \<times> ('b, 'v, 'r, 'w) driver_state) option" where
  "append_record d failure record s =
     (case dv_append d record (ds_world s) of
        None \<Rightarrow> None
      | Some (answer, w) \<Rightarrow>
          let (r, w) = (case answer of
              Ok event \<Rightarrow>
                (case check_event (dv_env d) (dv_budget d) event w of
                   (Ok _, w) \<Rightarrow> (Ok (), w)
                 | (Err e, w) \<Rightarrow> (Err (GwRecording (failure (MfBudget e))), w)
                 | (Panic, w) \<Rightarrow> (Panic, w))
            | Err source \<Rightarrow> (Err (GwRecording (failure (MfSession source))), w)
            | Panic \<Rightarrow> (Err (GwRecording (failure MfRecorderPanicked)), w)) in
          Some (r, s\<lparr>ds_world := w, ds_history := ds_history s @ [Recorded record answer]\<rparr>))"

definition recorded_evidence ::
    "('b, 'v, 'r, 'w) driver \<Rightarrow> budget_event_kind \<Rightarrow> bool \<Rightarrow> ('b, 'v, 'r, 'w) driver_state
       \<Rightarrow> ('b, 'v, 'r, 'w) driver_state" where
  "recorded_evidence d kind confirmed s =
     (let s = job_recording d None confirmed s in
      s\<lparr>ds_world := me_record_evidence (dv_env d) (scope_of d) kind confirmed (ds_world s)\<rparr>)"

definition record_request ::
    "('b, 'v, 'r, 'w) driver \<Rightarrow> 'v model_request \<Rightarrow> bool \<Rightarrow> wake \<Rightarrow> ('b, 'v, 'r, 'w) driver_state
       \<Rightarrow> ((model_job_stop_reason option, 'v model_gateway_error) outcome \<times> ('b, 'v, 'r, 'w) driver_state) option" where
  "record_request d request deltas wake s =
     (let s = pause d (job_recording d (Some StageRequest) False s);
          (stop, s) = (if wake = WakeReady then (None, s)
            else let (stop, s) = interrupted d deltas wake s in
              (Some stop, pause d (release_job d (Some stop) s))) in
      (case append_record d (request_failure request) (RecRequest request) s of
         None \<Rightarrow> None
       | Some (result, s) \<Rightarrow>
           let s = recorded_evidence d EkModelRequest (result = Ok ()) s in
           Some (case result of
               Err e \<Rightarrow> (Err e, s)
             | Panic \<Rightarrow> (Panic, s)
             | Ok _ \<Rightarrow>
                 (case stop of
                    Some reason \<Rightarrow> (Ok (Some reason), s)
                  | None \<Rightarrow> let (stop, s) = interruption_now d deltas s in (Ok stop, s)))))"

definition record_result ::
    "('b, 'v, 'r, 'w) driver \<Rightarrow> 'v model_request \<Rightarrow> 'v model_result \<Rightarrow> ('b, 'v, 'r, 'w) driver_state
       \<Rightarrow> ((unit, 'v model_gateway_error) outcome \<times> ('b, 'v, 'r, 'w) driver_state) option" where
  "record_result d request result s =
     (let s = pause d (job_recording d (Some StageResult) False s) in
      (case append_record d (result_failure request result) (RecResult result) s of
         None \<Rightarrow> None
       | Some (r, s) \<Rightarrow> Some (r, recorded_evidence d EkModelResult (r = Ok ()) s)))"

section \<open>Waiting for a slot\<close>

definition is_preparing :: "('b, 'v, 'r, 'w) driver \<Rightarrow> ('b, 'v, 'r, 'w) driver_state \<Rightarrow> bool" where
  "is_preparing d s \<longleftrightarrow>
     (case map_of (rt_jobs (ds_control s)) (dv_job_id d) of Some job \<Rightarrow> sj_phase job = JobPreparing | None \<Rightarrow> False)"

fun wait_for_slot ::
    "('b, 'v, 'r, 'w) driver \<Rightarrow> bool \<Rightarrow> wake list \<Rightarrow> ('b, 'v, 'r, 'w) driver_state
       \<Rightarrow> ((unit, model_job_stop_reason) outcome \<times> wake list \<times> ('b, 'v, 'r, 'w) driver_state) option" where
  "wait_for_slot d deltas wakes s =
     (case interruption_now d deltas s of
        (Some stop, s) \<Rightarrow> Some (Err stop, wakes, release_job d (Some stop) s)
      | (None, s) \<Rightarrow>
          if is_preparing d s then Some (Ok (), wakes, s)
          else
            (case wakes of
               [] \<Rightarrow> None
             | wake # wakes \<Rightarrow>
                 let s = pause d s in
                 if wake = WakeReady then wait_for_slot d deltas wakes s
                 else let (stop, s) = interrupted d deltas wake s in
                   Some (Err stop, wakes, release_job d (Some stop) s)))"

declare wait_for_slot.simps [simp del]

section \<open>Complete calls\<close>

datatype 'v complete_resolution =
    CrSchemaRejected "'v generation_response"
  | CrSucceeded "'v generation_response"
  | CrModelFailed llm_error
  | CrStopped model_job_stop_reason
  | CrInternal string string

definition PANICKED :: string where
  "PANICKED = ''model_runtime_panicked''"

definition operation_panicked :: string where
  "operation_panicked = ''Model runtime operation panicked''"

text \<open>A panic outside \<open>catch_unwind\<close> unwinds the driver: the outcome \<open>Panic\<close> of a resolution.\<close>

type_synonym 'a resolved = "('a, unit) outcome"

text \<open>The preflight, with its panic caught: nothing when the call may go on.\<close>

definition preflight_call ::
    "('b, 'v, 'r, 'w) driver \<Rightarrow> 'v model_request \<Rightarrow> model_call_mode \<Rightarrow> ('b, 'v, 'r, 'w) driver_state
       \<Rightarrow> (unit, llm_error) outcome \<times> ('b, 'v, 'r, 'w) driver_state" where
  "preflight_call d request mode s =
     (let (capabilities, w) = dv_capabilities d (ds_world s) in
      ((case capabilities of
          Ok capabilities \<Rightarrow> prepare_call (dv_schema d) (mq_input request) capabilities mode
        | _ \<Rightarrow> Panic), s\<lparr>ds_world := w\<rparr>))"

definition complete_answer ::
    "('b, 'v, 'r, 'w) driver \<Rightarrow> 'v model_request \<Rightarrow> ('v generation_response, llm_error) outcome
       \<Rightarrow> ('b, 'v, 'r, 'w) driver_state \<Rightarrow> 'v complete_resolution resolved \<times> ('b, 'v, 'r, 'w) driver_state" where
  "complete_answer d request output s =
     (case output of
        Ok completion \<Rightarrow>
          (case validate_response (dv_schema d) (mq_input request) completion (mo_limits (mq_options request)) of
             Ok _ \<Rightarrow> Ok (CrSucceeded completion)
           | Err e \<Rightarrow> Ok (if e = LeProtocol SchemaValidation then CrSchemaRejected completion else CrModelFailed e)
           | Panic \<Rightarrow> Panic, observe_usage (rs_usage completion) s)
      | Err e \<Rightarrow> (Ok (CrModelFailed e), s)
      | Panic \<Rightarrow> (Ok (CrInternal PANICKED operation_panicked), s))"

text \<open>A branch that a \<open>select!\<close> does not have stands for its last branch.\<close>

definition resolve_complete ::
    "('b, 'v, 'r, 'w) driver \<Rightarrow> 'v model_request \<Rightarrow> generation_options \<Rightarrow> wake list \<Rightarrow> ('b, 'v, 'r, 'w) driver_state
       \<Rightarrow> ('v complete_resolution resolved \<times> ('b, 'v, 'r, 'w) driver_state) option" where
  "resolve_complete d request options wakes s =
     (case preflight_call d request Complete s of
        (Err e, s) \<Rightarrow> Some (Ok (CrModelFailed e), s)
      | (Panic, s) \<Rightarrow> Some (Ok (CrInternal PANICKED ''Model runtime preflight panicked''), s)
      | (Ok _, s) \<Rightarrow>
          (case start_provider d False s of
             (Err stop, s) \<Rightarrow> Some (Ok (CrStopped stop), s)
           | (Panic, s) \<Rightarrow> Some (Panic, s)
           | (Ok _, s) \<Rightarrow>
               let s = s\<lparr>ds_history := ds_history s @ [Entered]\<rparr> in
               (case wakes of
                  [] \<Rightarrow> None
                | wake # wakes \<Rightarrow>
                    let s = pause d s in
                    (case wake of
                       WakeBudget \<Rightarrow> Some (Ok (CrStopped StopBudget), s)
                     | WakeCancelled \<Rightarrow> Some (Ok (CrModelFailed LeCancelled), s)
                     | WakeDeadline \<Rightarrow> let (stop, s) = deadline_stop d s in Some (Ok (CrStopped stop), s)
                     | _ \<Rightarrow>
                         let (output, w) = dv_generate d (mq_input request) options (ds_world s) in
                         Some (complete_answer d request output (s\<lparr>ds_world := w\<rparr>))))))"

text \<open>What is recorded and returned for a resolution.\<close>

definition complete_output ::
    "('b, 'v, 'r, 'w) driver \<Rightarrow> 'v model_request \<Rightarrow> 'v complete_resolution \<Rightarrow> ('b, 'v, 'r, 'w) driver_state
       \<Rightarrow> 'v model_result \<times> ('v generation_response, 'v model_gateway_error) outcome \<times> ('b, 'v, 'r, 'w) driver_state" where
  "complete_output d request resolution s =
     (case resolution of
        CrSucceeded completion \<Rightarrow> (successful_result request completion, Ok completion, s)
      | CrSchemaRejected response \<Rightarrow>
          (failed_result request (LeProtocol SchemaValidation) empty_partial, Err (GwSchemaRejected response), s)
      | CrModelFailed e \<Rightarrow> (failed_result request e empty_partial, Err (GwModel e), s)
      | CrStopped reason \<Rightarrow>
          let (e, s) = (if reason = StopBudget then budget_error_now d s else (Stopped InvalidRequest, s));
              (result, error) = stopped_result e request reason in
          (result, Err error, s)
      | CrInternal code message \<Rightarrow>
          (internal_result request code message empty_partial, Err (GwInternal code message), s))"

text \<open>The settlement, the release of the slot and the recording that end both kinds of call.\<close>

definition close_call ::
    "('b, 'v, 'r, 'w) driver \<Rightarrow> 'v model_request \<Rightarrow> generation_partial \<Rightarrow> 'v model_result
       \<Rightarrow> ('v generation_response, 'v model_gateway_error) outcome \<Rightarrow> ('b, 'v, 'r, 'w) driver_state
       \<Rightarrow> (('v generation_response, 'v model_gateway_error) outcome \<times> ('b, 'v, 'r, 'w) driver_state) option" where
  "close_call d request observed result output s =
     (case settle_budget d s of
        (Panic, s) \<Rightarrow> Some (Panic, s)
      | (settled, s) \<Rightarrow>
          let (result, output) = (case settled of
                  Err e \<Rightarrow> (budget_failed_result request e observed, Err (GwRuntime (MrBudget e)))
                | _ \<Rightarrow> (result, output));
              s = release_job d (result_stop_reason result) s in
          (case record_result d request result s of
             None \<Rightarrow> None
           | Some (Ok _, s) \<Rightarrow> Some (output, s)
           | Some (Err e, s) \<Rightarrow> Some (Err e, s)
           | Some (Panic, s) \<Rightarrow> Some (Panic, s)))"

text \<open>The request is recorded, a slot awaited and the call resolved; the resolution may be a stop.\<close>

definition run_resolution ::
    "('b, 'v, 'r, 'w) driver \<Rightarrow> 'v model_request \<Rightarrow> bool \<Rightarrow> (model_job_stop_reason \<Rightarrow> 'a)
       \<Rightarrow> (wake list \<Rightarrow> ('b, 'v, 'r, 'w) driver_state \<Rightarrow> ('a resolved \<times> ('b, 'v, 'r, 'w) driver_state) option)
       \<Rightarrow> wake list \<Rightarrow> ('b, 'v, 'r, 'w) driver_state
       \<Rightarrow> (('a, 'v model_gateway_error) outcome \<times> ('b, 'v, 'r, 'w) driver_state) option" where
  "run_resolution d request deltas stopped resolve wakes s =
     (case wakes of
        [] \<Rightarrow> None
      | wake # wakes \<Rightarrow>
          (case record_request d request deltas wake s of
             None \<Rightarrow> None
           | Some (Err e, s) \<Rightarrow> Some (Err e, s)
           | Some (Panic, s) \<Rightarrow> Some (Panic, s)
           | Some (Ok (Some stop), s) \<Rightarrow> Some (Ok (stopped stop), s)
           | Some (Ok None, s) \<Rightarrow>
               (case wait_for_slot d deltas wakes s of
                  None \<Rightarrow> None
                | Some (Err stop, _, s) \<Rightarrow> Some (Ok (stopped stop), s)
                | Some (Panic, _, s) \<Rightarrow> Some (Panic, s)
                | Some (Ok _, wakes, s) \<Rightarrow>
                    (case resolve wakes s of
                       None \<Rightarrow> None
                     | Some (Ok resolution, s) \<Rightarrow> Some (Ok resolution, s)
                     | Some (_, s) \<Rightarrow> Some (Panic, s)))))"

definition run_complete ::
    "('b, 'v, 'r, 'w) driver \<Rightarrow> 'v model_request \<Rightarrow> generation_options \<Rightarrow> wake list \<Rightarrow> ('b, 'v, 'r, 'w) driver_state
       \<Rightarrow> (('v generation_response, 'v model_gateway_error) outcome \<times> ('b, 'v, 'r, 'w) driver_state) option" where
  "run_complete d request options wakes s =
     (case run_resolution d request False CrStopped (resolve_complete d request options) wakes s of
        None \<Rightarrow> None
      | Some (Err e, s) \<Rightarrow> Some (Err e, s)
      | Some (Panic, s) \<Rightarrow> Some (Panic, s)
      | Some (Ok resolution, s) \<Rightarrow>
          let observed = (case resolution of CrSucceeded r \<Rightarrow> response_partial (dv_schema d) r | _ \<Rightarrow> empty_partial);
              (result, output, s) = complete_output d request resolution s in
          close_call d request observed result output s)"

section \<open>Streamed calls\<close>

datatype 'v stream_resolution =
    SrSucceeded "'v generation_response" generation_partial
  | SrModelFailed llm_error generation_partial
  | SrConsumerDropped generation_partial
  | SrStopped model_job_stop_reason
  | SrBudget generation_partial
  | SrInternal string string generation_partial

text \<open>The two \<open>select!\<close>s of the loop: the branches that end it, the last one the consumer's.\<close>

definition stream_interrupted ::
    "('b, 'v, 'r, 'w) driver \<Rightarrow> bool \<Rightarrow> wake \<Rightarrow> generation_partial \<Rightarrow> ('b, 'v, 'r, 'w) driver_state
       \<Rightarrow> 'v stream_resolution option \<times> ('b, 'v, 'r, 'w) driver_state" where
  "stream_interrupted d consumer wake part s =
     (case wake of
        WakeBudget \<Rightarrow> (Some (SrBudget part), s)
      | WakeCancelled \<Rightarrow> (Some (SrModelFailed LeCancelled part), s)
      | WakeDeadline \<Rightarrow>
          let (stop, s) = deadline_stop d s in
          (Some (if stop = StopBudget then SrBudget part else SrModelFailed LeTimeout part), s)
      | WakeConsumer \<Rightarrow> (if consumer then Some (SrConsumerDropped part) else None, s)
      | WakeReady \<Rightarrow> (None, s))"

definition stream_terminal ::
    "('b, 'v, 'r, 'w) driver \<Rightarrow> 'v model_request \<Rightarrow> generation_accumulator \<Rightarrow> 'v generation_response
       \<Rightarrow> 'v stream_resolution resolved" where
  "stream_terminal d request acc response =
     (case and_then (protocol_result (verify_terminal (so_json (dv_schema d)) acc response)) (\<lambda>_.
              validate_response (dv_schema d) (mq_input request) response (mo_limits (mq_options request))) of
        Ok _ \<Rightarrow> Ok (SrSucceeded response (ac_partial acc))
      | Err e \<Rightarrow> Ok (SrModelFailed e (ac_partial acc))
      | Panic \<Rightarrow> Panic)"

text \<open>One item of the provider: the resolution it ends with, or the delta to forward.\<close>

definition stream_item ::
    "('b, 'v, 'r, 'w) driver \<Rightarrow> 'v model_request \<Rightarrow> generation_accumulator
       \<Rightarrow> ('v generation_stream_event, llm_error) outcome option \<Rightarrow> ('b, 'v, 'r, 'w) driver_state
       \<Rightarrow> ('v stream_resolution resolved, generation_delta) sum \<times> ('b, 'v, 'r, 'w) driver_state" where
  "stream_item d request acc item s =
     (case item of
        Some Panic \<Rightarrow> (Inl (Ok (SrInternal PANICKED operation_panicked (ac_partial acc))), s)
      | Some (Err e) \<Rightarrow> (Inl (Ok (SrModelFailed e (ac_partial acc))), s)
      | None \<Rightarrow> (Inl (Ok (SrModelFailed (LeProtocol MissingStreamTerminal) (ac_partial acc))), s)
      | Some (Ok (StreamFinished response)) \<Rightarrow>
          (Inl (stream_terminal d request acc response), observe_usage (rs_usage response) s)
      | Some (Ok (StreamDelta delta)) \<Rightarrow> (Inr delta, s))"

definition forward_delta ::
    "('b, 'v, 'r, 'w) driver \<Rightarrow> generation_delta \<Rightarrow> ('b, 'v, 'r, 'w) driver_state
       \<Rightarrow> bool \<times> ('b, 'v, 'r, 'w) driver_state" where
  "forward_delta d delta s =
     (let (sent, w) = dv_send d delta (ds_world s) in
      (sent, s\<lparr>ds_world := w, ds_history := (if sent then ds_history s @ [Forwarded delta] else ds_history s)\<rparr>))"

fun stream_loop ::
    "('b, 'v, 'r, 'w) driver \<Rightarrow> 'v model_request \<Rightarrow> generation_accumulator \<Rightarrow> wake list \<Rightarrow> ('b, 'v, 'r, 'w) driver_state
       \<Rightarrow> ('v stream_resolution resolved \<times> ('b, 'v, 'r, 'w) driver_state) option" where
  "stream_loop d request acc (wake # wakes) s =
     (case stream_interrupted d True wake (ac_partial acc) (pause d s) of
        (Some resolution, s) \<Rightarrow> Some (Ok resolution, s)
      | (None, s) \<Rightarrow>
          let (item, w) = dv_next d (ds_world s) in
          (case stream_item d request acc item (s\<lparr>ds_world := w\<rparr>) of
             (Inl resolution, s) \<Rightarrow> Some (resolution, s)
           | (Inr delta, s) \<Rightarrow>
               (case push delta acc of
                  Err e \<Rightarrow> Some (Ok (SrModelFailed (LeProtocol e) (ac_partial acc)), s)
                | Panic \<Rightarrow> Some (Panic, s)
                | Ok acc \<Rightarrow>
                    (case wakes of
                       [] \<Rightarrow> None
                     | wake # wakes \<Rightarrow>
                         (case stream_interrupted d False wake (ac_partial acc) (pause d s) of
                            (Some resolution, s) \<Rightarrow> Some (Ok resolution, s)
                          | (None, s) \<Rightarrow>
                              let (sent, s) = forward_delta d delta s in
                              if sent then stream_loop d request acc wakes s
                              else Some (Ok (SrConsumerDropped (ac_partial acc)), s))))))"
| "stream_loop d request acc [] s = None"

definition resolve_stream ::
    "('b, 'v, 'r, 'w) driver \<Rightarrow> 'v model_request \<Rightarrow> generation_options \<Rightarrow> wake list \<Rightarrow> ('b, 'v, 'r, 'w) driver_state
       \<Rightarrow> ('v stream_resolution resolved \<times> ('b, 'v, 'r, 'w) driver_state) option" where
  "resolve_stream d request options wakes s =
     (case preflight_call d request Stream s of
        (Err e, s) \<Rightarrow> Some (Ok (SrModelFailed e empty_partial), s)
      | (Panic, s) \<Rightarrow> Some (Ok (SrInternal PANICKED ''Model runtime preflight panicked'' empty_partial), s)
      | (Ok _, s) \<Rightarrow>
          (case start_provider d True s of
             (Err stop, s) \<Rightarrow> Some (Ok (SrStopped stop), s)
           | (Panic, s) \<Rightarrow> Some (Panic, s)
           | (Ok _, s) \<Rightarrow>
               let s = s\<lparr>ds_history := ds_history s @ [Entered]\<rparr>;
                   (opened, w) = dv_open_stream d (mq_input request) options (ds_world s);
                   s = s\<lparr>ds_world := w\<rparr> in
               if opened = Panic then Some (Ok (SrInternal PANICKED operation_panicked empty_partial), s)
               else stream_loop d request (accumulator_new (go_limits options)) wakes s))"

definition stream_output ::
    "('b, 'v, 'r, 'w) driver \<Rightarrow> 'v model_request \<Rightarrow> 'v stream_resolution \<Rightarrow> ('b, 'v, 'r, 'w) driver_state
       \<Rightarrow> 'v model_result \<times> ('v generation_response, 'v model_gateway_error) outcome \<times> ('b, 'v, 'r, 'w) driver_state" where
  "stream_output d request resolution s =
     (case resolution of
        SrSucceeded response _ \<Rightarrow> (successful_result request response, Ok response, s)
      | SrModelFailed e part \<Rightarrow> (failed_result request e part, Err (GwModel e), s)
      | SrConsumerDropped part \<Rightarrow> (consumer_dropped_result request part, Err (GwModel LeCancelled), s)
      | SrStopped reason \<Rightarrow>
          let (e, s) = (if reason = StopBudget then budget_error_now d s else (Stopped InvalidRequest, s));
              (result, error) = stopped_result e request reason in
          (result, Err error, s)
      | SrBudget part \<Rightarrow>
          let (e, s) = budget_error_now d s in
          (budget_failed_result request e part, Err (GwRuntime (MrBudget e)), s)
      | SrInternal code message part \<Rightarrow> (internal_result request code message part, Err (GwInternal code message), s))"

text \<open>The partial evidence kept when the budget cannot be settled.\<close>

definition stream_observed :: "'v stream_resolution \<Rightarrow> 'v model_result \<Rightarrow> generation_partial" where
  "stream_observed resolution result =
     (case ms_outcome result of
        ModelFailed _ _ _ _ _ part \<Rightarrow> part
      | ModelSucceeded _ \<Rightarrow> (case resolution of SrSucceeded _ part \<Rightarrow> part | _ \<Rightarrow> empty_partial))"

definition run_stream ::
    "('b, 'v, 'r, 'w) driver \<Rightarrow> 'v model_request \<Rightarrow> generation_options \<Rightarrow> wake list \<Rightarrow> ('b, 'v, 'r, 'w) driver_state
       \<Rightarrow> (('v generation_response, 'v model_gateway_error) outcome \<times> ('b, 'v, 'r, 'w) driver_state) option" where
  "run_stream d request options wakes s =
     (case run_resolution d request True SrStopped (resolve_stream d request options) wakes s of
        None \<Rightarrow> None
      | Some (Err e, s) \<Rightarrow> Some (Err e, s)
      | Some (Panic, s) \<Rightarrow> Some (Panic, s)
      | Some (Ok resolution, s) \<Rightarrow>
          let (result, output, s) = stream_output d request resolution s in
          close_call d request (stream_observed resolution result) result output s)"

text \<open>What the caller of a stream sees: the deltas its consumer took, and the outcome.\<close>

definition stream_projection ::
    "generation_delta list \<Rightarrow> ('v generation_response, 'v model_gateway_error) outcome \<Rightarrow> string
       \<Rightarrow> ('v generation_stream_event, 'v model_gateway_error) outcome list" where
  "stream_projection deltas terminal job_text =
     map (\<lambda>delta. Ok (StreamDelta delta)) deltas @
     [case terminal of
        Ok response \<Rightarrow> Ok (StreamFinished response)
      | Err e \<Rightarrow> Err e
      | Panic \<Rightarrow> Err (GwInternal ''model_driver_lost''
          (''Model stream operation '' @ job_text @ '' ended without a terminal report''))]"

section \<open>The end of a driver\<close>

text \<open>
  The guard completes with the driver's outcome, or is dropped by its unwinding, and the caller of a
  complete call then finds its channel closed.
\<close>

definition driver_end ::
    "('b, 'v, 'r, 'w) driver \<Rightarrow> u64 \<Rightarrow> string \<Rightarrow> ('v generation_response, 'v model_gateway_error) outcome
       \<Rightarrow> ('b, 'v, 'r, 'w) driver_state \<Rightarrow> 'v turn_control
       \<Rightarrow> ('v generation_response, 'v model_gateway_error) outcome
           \<times> (bool \<times> bool) \<times> ('b, 'v) runtime_control \<times> 'v turn_control \<times> 'w" where
  "driver_end d turn_id job_text r s t =
     (if r = Panic
      then (Err (GwInternal ''model_driver_lost''
              (''Model operation '' @ job_text @ '' ended without a completion report'')),
            guard_drop (dv_env d) (dv_config d) turn_id (dv_job_id d) (ds_budget s) (ds_control s) t (ds_world s))
      else (r, guard_complete (dv_env d) (dv_config d) turn_id (dv_job_id d) (ds_budget s) r (ds_control s) t (ds_world s)))"

end
