(* ===== verification/ModelDriverInv.thy ===== *)
theory ModelDriverInv
  imports ModelRuntime
begin

text \<open>
  What the steps of a driver leave in its history, and that a driver whose schedule holds an
  interruption ends.
\<close>

section \<open>Steps that leave no trace\<close>

abbreviation quiet :: "('b, 'v, 'r, 'w) driver_state \<Rightarrow> ('b, 'v, 'r, 'w) driver_state \<Rightarrow> bool" where
  "quiet s s' \<equiv> ds_history s' = ds_history s"

lemma quiet_pause [simp]: "ds_history (pause d s) = ds_history s"
  by (simp add: pause_def split: prod.splits)

lemma quiet_interruption [simp]: "ds_history (snd (interruption_now d deltas s)) = ds_history s"
  by (simp add: interruption_now_def Let_def split: prod.splits)

lemma quiet_interrupted [simp]: "ds_history (snd (interrupted d deltas wake s)) = ds_history s"
  using quiet_interruption [of d deltas s]
  by (auto simp del: quiet_interruption simp: interrupted_def Let_def split: wake.splits prod.splits)

lemma quiet_release [simp]: "ds_history (release_job d reason s) = ds_history s"
  by (simp add: release_job_def split: prod.splits)

lemma quiet_recording [simp]: "ds_history (job_recording d stage confirmed s) = ds_history s"
  by (simp add: job_recording_def)

lemma quiet_evidence [simp]: "ds_history (recorded_evidence d kind confirmed s) = ds_history s"
  by (simp add: recorded_evidence_def Let_def)

lemma quiet_budget_error [simp]: "ds_history (snd (budget_error_now d s)) = ds_history s"
  by (simp add: budget_error_now_def split: prod.splits)

lemma quiet_deadline [simp]: "ds_history (snd (deadline_stop d s)) = ds_history s"
  by (simp add: deadline_stop_def)

lemma quiet_settle [simp]: "ds_history (snd (settle_budget d s)) = ds_history s"
  by (simp add: settle_budget_def split: prod.splits)

lemma quiet_observe [simp]: "ds_history (observe_usage usage s) = ds_history s"
  by (simp add: observe_usage_def)

lemma quiet_start [simp]: "ds_history (snd (start_provider d deltas s)) = ds_history s"
  using quiet_interruption [of d deltas s]
  by (auto simp del: quiet_interruption simp: start_provider_def Let_def split: prod.splits option.splits)

lemma quiet_preflight [simp]: "ds_history (snd (preflight_call d request mode s)) = ds_history s"
  by (simp add: preflight_call_def split: prod.splits)

lemma quiet_stream_interrupted [simp]: "ds_history (snd (stream_interrupted d consumer wake part s)) = ds_history s"
  using quiet_deadline [of d s]
  by (auto simp del: quiet_deadline simp: stream_interrupted_def Let_def split: wake.splits prod.splits)

lemma quiet_stream_item [simp]: "ds_history (snd (stream_item d request acc item s)) = ds_history s"
  by (auto simp: stream_item_def split: option.splits outcome.splits generation_stream_event.splits)

lemmas quiet_eqs =
  quiet_interruption quiet_interrupted quiet_budget_error quiet_deadline quiet_settle quiet_start
  quiet_preflight quiet_stream_interrupted quiet_stream_item

lemma quiet_complete_answer: "complete_answer d request output s = (r, s') \<Longrightarrow> quiet s s'"
  by (auto simp: complete_answer_def split: outcome.splits)

lemma quiet_complete_output: "complete_output d request resolution s = (result, output, s') \<Longrightarrow> quiet s s'"
  using quiet_budget_error [of d s]
  by (auto simp del: quiet_budget_error simp: complete_output_def Let_def split: complete_resolution.splits prod.splits if_splits)

lemma quiet_stream_output: "stream_output d request resolution s = (result, output, s') \<Longrightarrow> quiet s s'"
  using quiet_budget_error [of d s]
  by (auto simp del: quiet_budget_error simp: stream_output_def Let_def split: stream_resolution.splits prod.splits if_splits)

lemma quiet_wait:
  "wait_for_slot d deltas wakes s = Some (r, rest, s') \<Longrightarrow> quiet s s'"
proof (induction d deltas wakes s rule: wait_for_slot.induct)
  case (1 d deltas wakes s)
  obtain stop s1 where i: "interruption_now d deltas s = (stop, s1)" by fastforce
  have q1: "quiet s s1" using quiet_interruption [of d deltas s] i by simp
  show ?case
  proof (cases stop)
    case (Some reason)
    with "1.prems" i q1 show ?thesis by (auto simp: wait_for_slot.simps [of d deltas wakes s])
  next
    case None
    show ?thesis
    proof (cases "is_preparing d s1 \<or> wakes = []")
      case True
      with "1.prems" i None q1 show ?thesis
        by (auto simp: wait_for_slot.simps [of d deltas wakes s] split: if_splits)
    next
      case False
      then obtain wake rest' where w: "wakes = wake # rest'" by (cases wakes) auto
      show ?thesis
      proof (cases "wake = WakeReady")
        case True
        then have "wait_for_slot d deltas rest' (pause d s1) = Some (r, rest, s')"
          using "1.prems" [unfolded w wait_for_slot.simps [of d deltas "wake # rest'" s]] i None False by simp
        from "1.IH" [OF i [symmetric] None _ w refl True this] False have "quiet (pause d s1) s'" by simp
        then show ?thesis using q1 by simp
      next
        case False2: False
        obtain stop2 s2 where j: "interrupted d deltas wake (pause d s1) = (stop2, s2)" by fastforce
        have "quiet s s2" using quiet_interrupted [of d deltas wake "pause d s1"] j q1 by simp
        then show ?thesis
          using "1.prems" [unfolded w wait_for_slot.simps [of d deltas "wake # rest'" s]] i None False False2 j by auto
      qed
    qed
  qed
qed

section \<open>Records\<close>

text \<open>
  What an answer of the recorder means for a call: the append is confirmed when the recorder returned
  an event of the bound session and turn, and every other answer is a failure of its own.
\<close>

definition own_event :: "('b, 'v, 'r, 'w) driver \<Rightarrow> 'v session_event \<Rightarrow> bool" where
  "own_event d event \<longleftrightarrow> \<not> tg_explicit (dv_budget d) \<or>
     se_session_id event = id_session_id (tg_identity (dv_budget d)) \<and>
     tg_expected_turn (dv_budget d) = Some (se_turn_id event)"

definition append_confirmed ::
    "('b, 'v, 'r, 'w) driver \<Rightarrow> ('v session_event, 'v session_runtime_error) outcome \<Rightarrow> bool" where
  "append_confirmed d answer \<longleftrightarrow> (\<exists>event. answer = Ok event \<and> own_event d event)"

definition append_refusal ::
    "('b, 'v, 'r, 'w) driver \<Rightarrow> ('v session_event, 'v session_runtime_error) outcome \<Rightarrow> 'v model_record_failure \<Rightarrow> bool" where
  "append_refusal d answer source \<longleftrightarrow>
     (case answer of
        Ok event \<Rightarrow> \<not> own_event d event \<and> source = MfBudget IdentityMismatch
      | Err e \<Rightarrow> source = MfSession e
      | Panic \<Rightarrow> source = MfRecorderPanicked)"

lemma append_record_cases:
  assumes "append_record d failure rec s = Some (r, s')"
  shows "\<exists>answer. ds_history s' = ds_history s @ [Recorded rec answer] \<and>
    (r = Ok () \<and> append_confirmed d answer \<or>
     (\<exists>source. r = Err (GwRecording (failure source)) \<and> \<not> append_confirmed d answer \<and> append_refusal d answer source))"
  using assms
  by (auto simp: append_record_def check_event_def mismatch_def Let_def append_confirmed_def append_refusal_def own_event_def
      split: prod.splits outcome.splits if_splits option.splits)

lemma record_request_cases:
  assumes "record_request d request deltas wake s = Some (r, s')"
  shows "\<exists>answer. ds_history s' = ds_history s @ [Recorded (RecRequest request) answer] \<and>
    (append_confirmed d answer \<and> (\<exists>stop. r = Ok stop) \<or>
     \<not> append_confirmed d answer \<and> (\<exists>source. r = Err (GwRecording (request_failure request source)) \<and> append_refusal d answer source))"
proof -
  let ?s0 = "pause d (job_recording d (Some StageRequest) False s)"
  obtain stop s1 where s1: "(if wake = WakeReady then (None, ?s0)
            else let (stop, s) = interrupted d deltas wake ?s0 in
              (Some stop, pause d (release_job d (Some stop) s))) = (stop, s1)" by fastforce
  have q1: "quiet s s1"
    using s1 quiet_interrupted [of d deltas wake ?s0] by (auto simp del: quiet_interrupted simp: Let_def split: if_splits prod.splits)
  obtain res s2 where s2: "append_record d (request_failure request) (RecRequest request) s1 = Some (res, s2)"
    using assms s1 by (auto simp: record_request_def Let_def split: option.splits)
  obtain answer where h: "ds_history s2 = ds_history s1 @ [Recorded (RecRequest request) answer]"
    and A: "res = Ok () \<and> append_confirmed d answer \<or>
     (\<exists>source. res = Err (GwRecording (request_failure request source)) \<and> \<not> append_confirmed d answer \<and> append_refusal d answer source)"
    using append_record_cases [OF s2] by blast
  let ?s3 = "recorded_evidence d EkModelRequest (res = Ok ()) s2"
  show ?thesis
  proof (cases "res = Ok ()")
    case True
    then have "quiet ?s3 s' \<and> (\<exists>stop. r = Ok stop)"
      using assms s1 s2 quiet_interruption [of d deltas ?s3]
      by (auto simp del: quiet_interruption simp: record_request_def Let_def split: option.splits prod.splits)
    then show ?thesis using A True q1 h by (intro exI [of _ answer]) auto
  next
    case False
    then obtain source where e: "res = Err (GwRecording (request_failure request source))" "\<not> append_confirmed d answer"
      "append_refusal d answer source" using A by blast
    then have "r = Err (GwRecording (request_failure request source)) \<and> s' = ?s3"
      using assms s1 s2 by (auto simp: record_request_def Let_def split: option.splits prod.splits)
    then show ?thesis using e q1 h by (intro exI [of _ answer]) auto
  qed
qed

lemma record_result_cases:
  assumes "record_result d request result s = Some (r, s')"
  shows "\<exists>answer. ds_history s' = ds_history s @ [Recorded (RecResult result) answer] \<and>
    (r = Ok () \<and> append_confirmed d answer \<or>
     (\<exists>source. r = Err (GwRecording (result_failure request result source)) \<and> \<not> append_confirmed d answer \<and>
        append_refusal d answer source))"
proof -
  obtain r1 s1 where a: "append_record d (result_failure request result) (RecResult result)
      (pause d (job_recording d (Some StageResult) False s)) = Some (r1, s1)"
    using assms by (auto simp: record_result_def Let_def split: option.splits)
  with assms have "r1 = r" "s' = recorded_evidence d EkModelResult (r = Ok ()) s1"
    by (auto simp: record_result_def Let_def)
  with append_record_cases [OF a] show ?thesis by simp
qed

text \<open>The end of a call: one result record, and the output it supports.\<close>

lemma close_call_cases:
  assumes "close_call d request observed result output s = Some (r, s')"
  shows "(r = Panic \<and> quiet s s') \<or>
    (\<exists>result' output' answer. ds_history s' = ds_history s @ [Recorded (RecResult result') answer] \<and>
      (result' = result \<and> output' = output \<or>
       (\<exists>e. result' = budget_failed_result request e observed \<and> output' = Err (GwRuntime (MrBudget e)))) \<and>
      (append_confirmed d answer \<longrightarrow> r = output') \<and>
      (\<not> append_confirmed d answer \<longrightarrow>
        (\<exists>source. r = Err (GwRecording (result_failure request result' source)) \<and> append_refusal d answer source)))"
proof -
  obtain settled s1 where st: "settle_budget d s = (settled, s1)" by fastforce
  have q1: "quiet s s1" using quiet_settle [of d s] st by simp
  show ?thesis
  proof (cases "settled = Panic")
    case True
    then show ?thesis using assms st q1 by (simp add: close_call_def)
  next
    case False
    obtain result' output' where ro: "(case settled of
        Err e \<Rightarrow> (budget_failed_result request e observed, Err (GwRuntime (MrBudget e)))
      | _ \<Rightarrow> (result, output)) = (result', output')" by fastforce
    obtain rr s2 where rec: "record_result d request result' (release_job d (result_stop_reason result') s1) = Some (rr, s2)"
      using assms st False ro by (auto simp: close_call_def Let_def split: outcome.splits option.splits)
    obtain answer where h: "ds_history s2 = ds_history s @ [Recorded (RecResult result') answer]"
      and A: "rr = Ok () \<and> append_confirmed d answer \<or>
       (\<exists>source. rr = Err (GwRecording (result_failure request result' source)) \<and> \<not> append_confirmed d answer \<and>
          append_refusal d answer source)"
      using record_result_cases [OF rec] q1 by auto
    have alt: "result' = result \<and> output' = output \<or>
       (\<exists>e. result' = budget_failed_result request e observed \<and> output' = Err (GwRuntime (MrBudget e)))"
      using ro False by (auto split: outcome.splits)
    have "s' = s2" "r = (case rr of Ok _ \<Rightarrow> output' | Err e \<Rightarrow> Err e | Panic \<Rightarrow> Panic)"
      using assms st False ro rec by (auto simp: close_call_def Let_def split: outcome.splits)
    then show ?thesis
      using h A alt by (intro disjI2 exI [of _ result'] exI [of _ output'] exI [of _ answer]) auto
  qed
qed

section \<open>Resolutions\<close>

lemma resolve_complete_history:
  assumes "resolve_complete d request options wakes s = Some (r, s')"
  shows "ds_history s' = ds_history s \<or> ds_history s' = ds_history s @ [Entered]"
proof -
  obtain pre s1 where p: "preflight_call d request Complete s = (pre, s1)" by fastforce
  have q1: "quiet s s1" using quiet_preflight [of d request Complete s] p by simp
  show ?thesis
  proof (cases "\<exists>u. pre = Ok u")
    case False
    then show ?thesis using assms p q1 by (cases pre) (auto simp: resolve_complete_def)
  next
    case True
    obtain st s2 where b: "start_provider d False s1 = (st, s2)" by fastforce
    have q2: "quiet s s2" using quiet_start [of d False s1] b q1 by simp
    let ?e = "s2\<lparr>ds_history := ds_history s2 @ [Entered]\<rparr>"
    show ?thesis
    proof (cases "\<exists>u. st = Ok u")
      case False
      then show ?thesis using assms p True b q2 by (cases st) (auto simp: resolve_complete_def)
    next
      case True2: True
      then obtain wake rest where w: "wakes = wake # rest"
        using assms p True b by (cases wakes) (auto simp: resolve_complete_def)
      have "quiet (pause d ?e) s'"
        using assms p True b True2 w quiet_deadline [of d "pause d ?e"]
        by (auto simp del: quiet_deadline simp: resolve_complete_def Let_def split: wake.splits prod.splits
          dest!: quiet_complete_answer)
      then show ?thesis using q2 by simp
    qed
  qed
qed

text \<open>A validated response is the only success.\<close>

lemma resolve_complete_validated:
  assumes "resolve_complete d request options wakes s = Some (Ok (CrSucceeded response), s')"
  shows "validate_response (dv_schema d) (mq_input request) response (mo_limits (mq_options request)) = Ok () \<and>
    ds_history s' = ds_history s @ [Entered]"
proof -
  obtain pre s1 where p: "preflight_call d request Complete s = (Ok pre, s1)"
    using assms by (auto simp: resolve_complete_def split: prod.splits outcome.splits)
  obtain st s2 where b: "start_provider d False s1 = (Ok st, s2)"
    using assms p by (auto simp: resolve_complete_def split: prod.splits outcome.splits)
  obtain wake rest where w: "wakes = wake # rest" using assms p b by (cases wakes) (auto simp: resolve_complete_def)
  let ?e = "pause d (s2\<lparr>ds_history := ds_history s2 @ [Entered]\<rparr>)"
  obtain answer w2 where g: "dv_generate d (mq_input request) options (ds_world ?e) = (answer, w2)" by fastforce
  have a: "complete_answer d request answer (?e\<lparr>ds_world := w2\<rparr>) = (Ok (CrSucceeded response), s')"
    using assms p b w g by (auto simp: resolve_complete_def Let_def split: wake.splits prod.splits)
  have "ds_history s2 = ds_history s"
    using quiet_start [of d False s1] quiet_preflight [of d request Complete s] b p by simp
  then show ?thesis
    using quiet_complete_answer [OF a] a
    by (auto simp: complete_answer_def split: outcome.splits if_splits)
qed

text \<open>The deltas a consumer took, and the accumulator they build.\<close>

lemma stream_loop_history:
  assumes "stream_loop d request acc wakes s = Some (r, s')"
  shows "\<exists>deltas. ds_history s' = ds_history s @ map Forwarded deltas \<and>
    (\<forall>response part. r = Ok (SrSucceeded response part) \<longrightarrow>
      (\<exists>acc'. for_each push deltas acc = Ok acc' \<and> part = ac_partial acc' \<and>
        verify_terminal (so_json (dv_schema d)) acc' response = Ok () \<and>
        validate_response (dv_schema d) (mq_input request) response (mo_limits (mq_options request)) = Ok ()))"
  using assms
proof (induction d request acc wakes s rule: stream_loop.induct)
  case (1 d request acc wake wakes s)
  let ?P = "\<lambda>s r s' acc. \<exists>deltas. ds_history s' = ds_history s @ map Forwarded deltas \<and>
    (\<forall>response part. r = Ok (SrSucceeded response part) \<longrightarrow>
      (\<exists>acc'. for_each push deltas acc = Ok acc' \<and> part = ac_partial acc' \<and>
        verify_terminal (so_json (dv_schema d)) acc' response = Ok () \<and>
        validate_response (dv_schema d) (mq_input request) response (mo_limits (mq_options request)) = Ok ()))"
  have none: "?P s r s' acc" if "quiet s s'" "\<And>response part. r \<noteq> Ok (SrSucceeded response part)"
    using that by (intro exI [of _ "[]"]) simp
  obtain i1 s1 where i1: "stream_interrupted d True wake (ac_partial acc) (pause d s) = (i1, s1)" by fastforce
  have q1: "quiet s s1" using quiet_stream_interrupted [of d True wake "ac_partial acc" "pause d s"] i1 by simp
  have i1s: "i1 \<noteq> Some (SrSucceeded response part)" for response part
    using i1 by (auto simp: stream_interrupted_def Let_def split: wake.splits prod.splits if_splits)
  show ?case
  proof (cases i1)
    case (Some resolution)
    then show ?thesis using "1.prems" i1 q1 i1s none by (simp) blast
  next
    case None
    obtain item w where n: "dv_next d (ds_world s1) = (item, w)" by fastforce
    obtain it s2 where it: "stream_item d request acc item (s1\<lparr>ds_world := w\<rparr>) = (it, s2)" by fastforce
    have q2: "quiet s s2" using quiet_stream_item [of d request acc item "s1\<lparr>ds_world := w\<rparr>"] it q1 by simp
    show ?thesis
    proof (cases it)
      case (Inl resolution)
      then have rs: "r = resolution" "s' = s2" using "1.prems" i1 None n it by auto
      have "verify_terminal (so_json (dv_schema d)) acc response = Ok () \<and> part = ac_partial acc \<and>
          validate_response (dv_schema d) (mq_input request) response (mo_limits (mq_options request)) = Ok ()"
        if "r = Ok (SrSucceeded response part)" for response part
        using it Inl rs that
        by (auto simp: stream_item_def stream_terminal_def protocol_result_def
          split: option.splits outcome.splits generation_stream_event.splits)
      then show ?thesis using q2 rs by (intro exI [of _ "[]"]) auto
    next
      case (Inr delta)
      show ?thesis
      proof (cases "push delta acc")
        case (Ok acc1)
        show ?thesis
        proof (cases wakes)
          case Nil
          then show ?thesis using "1.prems" i1 None n it Inr Ok by simp
        next
          case (Cons wake2 rest)
          obtain i2 s3 where i2: "stream_interrupted d False wake2 (ac_partial acc1) (pause d s2) = (i2, s3)" by fastforce
          have q3: "quiet s s3"
            using quiet_stream_interrupted [of d False wake2 "ac_partial acc1" "pause d s2"] i2 q2 by simp
          have i2s: "i2 \<noteq> Some (SrSucceeded response part)" for response part
            using i2 by (auto simp: stream_interrupted_def Let_def split: wake.splits prod.splits if_splits)
          show ?thesis
          proof (cases i2)
            case (Some resolution)
            then show ?thesis using "1.prems" i1 None n it Inr Ok Cons i2 q3 i2s none by simp blast
          next
            case None2: None
            obtain sent s4 where f: "forward_delta d delta s3 = (sent, s4)" by fastforce
            show ?thesis
            proof (cases sent)
              case False
              then have "quiet s s4" using f q3 by (auto simp: forward_delta_def split: prod.splits)
              then show ?thesis using "1.prems" i1 None n it Inr Ok Cons i2 None2 f False none by auto
            next
              case True
              have h4: "ds_history s4 = ds_history s @ [Forwarded delta]"
                using f True q3 by (auto simp: forward_delta_def split: prod.splits)
              have loop: "stream_loop d request acc1 rest s4 = Some (r, s')"
                using "1.prems" i1 None n it Inr Ok Cons i2 None2 f True by simp
              have "?P s4 r s' acc1"
                using "1.IH" [OF i1 [symmetric] None refl n [symmetric] it [symmetric] Inr Ok Cons
                  i2 [symmetric] None2 refl f [symmetric] True loop] .
              then obtain deltas where d: "ds_history s' = ds_history s4 @ map Forwarded deltas"
                "\<forall>response part. r = Ok (SrSucceeded response part) \<longrightarrow>
                  (\<exists>acc'. for_each push deltas acc1 = Ok acc' \<and> part = ac_partial acc' \<and>
                    verify_terminal (so_json (dv_schema d)) acc' response = Ok () \<and>
                    validate_response (dv_schema d) (mq_input request) response (mo_limits (mq_options request)) = Ok ())"
                by blast
              then show ?thesis using h4 Ok by (intro exI [of _ "delta # deltas"]) simp
            qed
          qed
        qed
      qed (use "1.prems" i1 None n it Inr q2 none in auto)
    qed
  qed
qed simp

lemma resolve_stream_history:
  assumes "resolve_stream d request options wakes s = Some (r, s')"
  shows "(quiet s s' \<and> (\<forall>response part. r \<noteq> Ok (SrSucceeded response part))) \<or>
    (\<exists>deltas. ds_history s' = ds_history s @ Entered # map Forwarded deltas \<and>
      (\<forall>response part. r = Ok (SrSucceeded response part) \<longrightarrow>
        (\<exists>acc. for_each push deltas (accumulator_new (go_limits options)) = Ok acc \<and>
          verify_terminal (so_json (dv_schema d)) acc response = Ok () \<and>
          validate_response (dv_schema d) (mq_input request) response (mo_limits (mq_options request)) = Ok ())))"
proof -
  obtain pre s1 where p: "preflight_call d request Stream s = (pre, s1)" by fastforce
  have q1: "quiet s s1" using quiet_preflight [of d request Stream s] p by simp
  show ?thesis
  proof (cases "\<exists>u. pre = Ok u")
    case False
    then show ?thesis using assms p q1 by (cases pre) (auto simp: resolve_stream_def)
  next
    case True
    obtain st s2 where b: "start_provider d True s1 = (st, s2)" by fastforce
    have q2: "quiet s s2" using quiet_start [of d True s1] b q1 by simp
    show ?thesis
    proof (cases "\<exists>u. st = Ok u")
      case False
      then show ?thesis using assms p True b q2 by (cases st) (auto simp: resolve_stream_def)
    next
      case True2: True
      let ?e = "s2\<lparr>ds_history := ds_history s2 @ [Entered]\<rparr>"
      obtain opened w where w: "dv_open_stream d (mq_input request) options (ds_world ?e) = (opened, w)" by fastforce
      show ?thesis
      proof (cases "opened = Panic")
        case True3: True
        then have "r \<noteq> Ok (SrSucceeded response part)" "s' = ?e\<lparr>ds_world := w\<rparr>" for response part
          using assms p True b True2 w by (auto simp: resolve_stream_def Let_def)
        then show ?thesis using q2 by (intro disjI2 exI [of _ "[]"]) auto
      next
        case False
        then have "stream_loop d request (accumulator_new (go_limits options)) wakes (?e\<lparr>ds_world := w\<rparr>) = Some (r, s')"
          using assms p True b True2 w by (auto simp: resolve_stream_def Let_def)
        from stream_loop_history [OF this] obtain deltas where
          h: "ds_history s' = ds_history s @ Entered # map Forwarded deltas" and
          ok: "\<forall>response part. r = Ok (SrSucceeded response part) \<longrightarrow>
            (\<exists>acc'. for_each push deltas (accumulator_new (go_limits options)) = Ok acc' \<and> part = ac_partial acc' \<and>
              verify_terminal (so_json (dv_schema d)) acc' response = Ok () \<and>
              validate_response (dv_schema d) (mq_input request) response (mo_limits (mq_options request)) = Ok ())"
          using q2 by auto
        show ?thesis
        proof (intro disjI2 exI [of _ deltas] conjI allI impI)
          show "ds_history s' = ds_history s @ Entered # map Forwarded deltas" by (rule h)
        next
          fix response part
          assume "r = Ok (SrSucceeded response part)"
          with ok show "\<exists>acc. for_each push deltas (accumulator_new (go_limits options)) = Ok acc \<and>
              verify_terminal (so_json (dv_schema d)) acc response = Ok () \<and>
              validate_response (dv_schema d) (mq_input request) response (mo_limits (mq_options request)) = Ok ()"
            by blast
        qed
      qed
    qed
  qed
qed

text \<open>How a call gets to its resolution.\<close>

lemma run_resolution_cases:
  assumes "run_resolution d request deltas stopped resolve wakes s = Some (r, s')"
  obtains (request) source answer where "r = Err (GwRecording (request_failure request source))"
      "ds_history s' = ds_history s @ [Recorded (RecRequest request) answer]" "\<not> append_confirmed d answer"
      "append_refusal d answer source"
  | (stop) reason answer where "r = Ok (stopped reason)"
      "ds_history s' = ds_history s @ [Recorded (RecRequest request) answer]" "append_confirmed d answer"
  | (panic) "r = Panic"
  | (resolved) rest s1 resolution answer where "resolve rest s1 = Some (Ok resolution, s')" "r = Ok resolution"
      "ds_history s1 = ds_history s @ [Recorded (RecRequest request) answer]" "append_confirmed d answer"
proof -
  obtain wake rest where w: "wakes = wake # rest" using assms by (cases wakes) (auto simp: run_resolution_def)
  obtain rr s1 where rec: "record_request d request deltas wake s = Some (rr, s1)"
    using assms w by (auto simp: run_resolution_def split: option.splits)
  from record_request_cases [OF rec] show thesis
  proof (elim disjE conjE exE)
    fix answer source
    assume h: "ds_history s1 = ds_history s @ [Recorded (RecRequest request) answer]"
      and e: "rr = Err (GwRecording (request_failure request source))" "\<not> append_confirmed d answer" "append_refusal d answer source"
    show thesis
      by (rule request [of source answer]) (use assms w rec e h in \<open>auto simp: run_resolution_def\<close>)
  next
    fix answer st
    assume h: "ds_history s1 = ds_history s @ [Recorded (RecRequest request) answer]" and ok: "rr = Ok st"
      and c: "append_confirmed d answer"
    show thesis
    proof (cases st)
      case (Some reason)
      show thesis by (rule stop [of reason answer]) (use assms w rec ok h c Some in \<open>auto simp: run_resolution_def\<close>)
    next
      case None
      obtain wr rest' s2 where wait: "wait_for_slot d deltas rest s1 = Some (wr, rest', s2)"
        using assms w rec ok None by (auto simp: run_resolution_def split: option.splits)
      have h2: "ds_history s2 = ds_history s @ [Recorded (RecRequest request) answer]" using quiet_wait [OF wait] h by simp
      show thesis
      proof (cases wr)
        case (Err reason)
        show thesis
          by (rule stop [of reason answer]) (use assms w rec ok None wait h2 c Err in \<open>auto simp: run_resolution_def\<close>)
      next
        case Panic
        show thesis by (rule panic) (use assms w rec ok None wait Panic in \<open>auto simp: run_resolution_def\<close>)
      next
        case (Ok u)
        obtain q s3 where q: "resolve rest' s2 = Some (q, s3)"
          using assms w rec ok None wait Ok by (auto simp: run_resolution_def split: option.splits)
        show thesis
        proof (cases q)
          case OkR: (Ok resolution)
          show thesis
            by (rule resolved [of rest' s2 resolution answer])
              (use assms w rec ok None wait Ok q OkR h2 c in \<open>auto simp: run_resolution_def\<close>)
        qed (rule panic, use assms w rec ok None wait Ok q in \<open>auto simp: run_resolution_def\<close>)+
      qed
    qed
  qed
qed

section \<open>Interrupted drivers end\<close>

lemma wait_for_slot_ends:
  assumes "\<exists>wake \<in> set wakes. wake \<noteq> WakeReady"
  shows "\<exists>r rest s'. wait_for_slot d deltas wakes s = Some (r, rest, s') \<and>
    (\<forall>u. r = Ok u \<longrightarrow> {wake \<in> set wakes. wake \<noteq> WakeReady} \<subseteq> set rest)"
  using assms
proof (induction wakes arbitrary: s)
  case (Cons wake rest)
  obtain stop s1 where i: "interruption_now d deltas s = (stop, s1)" by fastforce
  note simps = wait_for_slot.simps [of d deltas "wake # rest" s]
  show ?case
  proof (cases "stop = None \<and> \<not> is_preparing d s1 \<and> wake = WakeReady")
    case True
    with Cons.prems have "\<exists>wake \<in> set rest. wake \<noteq> WakeReady" by auto
    moreover have "wait_for_slot d deltas (wake # rest) s = wait_for_slot d deltas rest (pause d s1)"
      unfolding simps using True i by simp
    ultimately show ?thesis using Cons.IH [of "pause d s1"] True by auto
  next
    case False
    then show ?thesis
      using i by (cases stop; cases "is_preparing d s1") (auto simp: simps Let_def split: prod.splits)
  qed
qed simp

definition stops_stream :: "wake \<Rightarrow> bool" where
  "stops_stream wake \<longleftrightarrow> wake = WakeBudget \<or> wake = WakeCancelled \<or> wake = WakeDeadline"

lemma stream_interrupted_stops:
  "stops_stream wake \<Longrightarrow> \<exists>r s'. stream_interrupted d consumer wake part s = (Some r, s')"
  by (auto simp: stops_stream_def stream_interrupted_def Let_def split: prod.splits)

lemma stream_loop_ends:
  "\<exists>wake \<in> set wakes. stops_stream wake \<Longrightarrow> stream_loop d request acc wakes s \<noteq> None"
proof (induction d request acc wakes s rule: stream_loop.induct)
  case (1 d request acc wake wakes s)
  obtain i1 s1 where i1: "stream_interrupted d True wake (ac_partial acc) (pause d s) = (i1, s1)" by fastforce
  show ?case
  proof (cases i1)
    case (Some resolution)
    then show ?thesis using i1 by simp
  next
    case None
    then have later: "\<exists>wake \<in> set wakes. stops_stream wake"
      using "1.prems" i1 stream_interrupted_stops [of wake d True "ac_partial acc" "pause d s"] by auto
    obtain item w where n: "dv_next d (ds_world s1) = (item, w)" by fastforce
    obtain it s2 where it: "stream_item d request acc item (s1\<lparr>ds_world := w\<rparr>) = (it, s2)" by fastforce
    show ?thesis
    proof (cases it)
      case (Inl resolution)
      then show ?thesis using i1 None n it by simp
    next
      case (Inr delta)
      show ?thesis
      proof (cases "push delta acc")
        case (Ok acc1)
        obtain wake2 rest where w2: "wakes = wake2 # rest" using later by (cases wakes) auto
        obtain i2 s3 where i2: "stream_interrupted d False wake2 (ac_partial acc1) (pause d s2) = (i2, s3)" by fastforce
        show ?thesis
        proof (cases i2)
          case (Some resolution)
          then show ?thesis using i1 None n it Inr Ok w2 i2 by simp
        next
          case None2: None
          then have later2: "\<exists>wake \<in> set rest. stops_stream wake"
            using later w2 i2 stream_interrupted_stops [of wake2 d False "ac_partial acc1" "pause d s2"] by auto
          obtain sent s4 where f: "forward_delta d delta s3 = (sent, s4)" by fastforce
          show ?thesis
          proof (cases sent)
            case True
            have "stream_loop d request acc1 rest s4 \<noteq> None"
              using "1.IH" [OF i1 [symmetric] None refl n [symmetric] it [symmetric] Inr Ok w2
                i2 [symmetric] None2 refl f [symmetric] True later2] .
            then show ?thesis using i1 None n it Inr Ok w2 i2 None2 f True by simp
          qed (use i1 None n it Inr Ok w2 i2 None2 f in simp)
        qed
      qed (use i1 None n it Inr in auto)
    qed
  qed
qed simp

definition answering :: "('b, 'v, 'r, 'w) driver \<Rightarrow> bool" where
  "answering d \<longleftrightarrow> (\<forall>record w. dv_append d record w \<noteq> None)"

lemma append_record_answers: "answering d \<Longrightarrow> append_record d failure record s \<noteq> None"
  unfolding append_record_def answering_def Let_def
  by (metis (no_types, lifting) case_prod_conv not_None_eq option.simps(3,5) surj_pair)

lemma record_request_answers:
  assumes "answering d"
  shows "record_request d request deltas wake s \<noteq> None"
proof -
  note answers [simp] = append_record_answers [OF assms]
  show ?thesis by (simp add: record_request_def Let_def split: option.split prod.split)
qed

lemma close_call_answers:
  assumes "answering d"
  shows "close_call d request observed result answer s \<noteq> None"
proof -
  note answers [simp] = append_record_answers [OF assms]
  have results [simp]: "record_result d request result s \<noteq> None" for result s
    by (simp add: record_result_def Let_def split: option.split)
  show ?thesis
    by (simp add: close_call_def Let_def split: prod.split outcome.split option.split)
qed

lemma run_resolution_ends:
  assumes stops: "\<exists>wake \<in> set wakes. stops_stream wake" and "answering d"
    and resolve: "\<And>rest s. \<exists>wake \<in> set rest. stops_stream wake \<Longrightarrow> resolve rest s \<noteq> None"
  shows "run_resolution d request deltas stopped resolve wakes s \<noteq> None"
proof -
  obtain wake rest where w: "wakes = wake # rest" using stops by (cases wakes) auto
  obtain rr s1 where rec: "record_request d request deltas wake s = Some (rr, s1)"
    using record_request_answers [OF assms(2), of request deltas wake s] by auto
  show ?thesis
  proof (cases "rr = Ok None")
    case True
    have "wake = WakeReady"
    proof (rule ccontr)
      assume "wake \<noteq> WakeReady"
      then have "rr \<noteq> Ok None"
        using rec by (auto simp: record_request_def Let_def split: prod.splits outcome.splits option.splits)
      with True show False by simp
    qed
    with stops w have later: "\<exists>wake \<in> set rest. stops_stream wake" by (auto simp: stops_stream_def)
    then obtain r rest' s2 where wait: "wait_for_slot d deltas rest s1 = Some (r, rest', s2)"
      and keep: "\<forall>u. r = Ok u \<longrightarrow> {wake \<in> set rest. wake \<noteq> WakeReady} \<subseteq> set rest'"
      using wait_for_slot_ends [of rest d deltas s1] by (auto simp: stops_stream_def)
    show ?thesis
    proof (cases r)
      case (Ok u)
      with keep later have "\<exists>wake \<in> set rest'. stops_stream wake" by (auto simp: stops_stream_def)
      from resolve [OF this, of s2] obtain q s3 where "resolve rest' s2 = Some (q, s3)" by auto
      then show ?thesis using w rec True wait Ok by (cases q) (auto simp: run_resolution_def)
    qed (use w rec True wait in \<open>auto simp: run_resolution_def\<close>)
  next
    case False
    then show ?thesis using w rec by (cases rr) (auto simp: run_resolution_def split: option.splits)
  qed
qed

lemma resolve_complete_ends:
  assumes "wakes \<noteq> []" shows "resolve_complete d request options wakes s \<noteq> None"
proof -
  obtain wake rest where "wakes = wake # rest" using assms by (cases wakes) auto
  then show ?thesis
    by (auto simp: resolve_complete_def Let_def split: prod.splits outcome.splits wake.splits)
qed

lemma resolve_stream_ends:
  assumes "\<exists>wake \<in> set wakes. stops_stream wake"
  shows "resolve_stream d request options wakes s \<noteq> None"
  using stream_loop_ends [OF assms]
  by (auto simp: resolve_stream_def Let_def split: prod.splits outcome.splits)

end
