(* ===== verification/ModelLaws.thy ===== *)
theory ModelLaws
  imports ModelTurns ModelDriverInv LedgerProps
begin

text \<open>
  The contract between the model runtime and a budget, as a locale: what its operations do to the
  count of charged model requests. The runtime's side is proved inside it; the ledger's operations
  on one run are its interpretation.
\<close>

locale model_budget_laws =
  fixes env :: "('b, 'r, 'w) model_env" and attempts :: "'w \<Rightarrow> u64"
  assumes check_keeps: "me_check_active env scope w = (u, w') \<Longrightarrow> attempts w' = attempts w"
    and remaining_keeps: "me_remaining_time env scope w = (d, w') \<Longrightarrow> attempts w' = attempts w"
    and stop_keeps: "attempts (me_stop_with env scope reason w) = attempts w"
    and reserve_counts: "me_reserve env scope request w = (r, w') \<Longrightarrow>
      attempts w' = attempts w + (if is_ok r then model_requests (req_amounts request) else 0)"
begin

lemma reserve_attempt_counts:
  "reserve_attempt env scope request w = (r, w') \<Longrightarrow>
   attempts w' = attempts w + (if is_ok r then model_requests (req_amounts request) else 0)"
  using reserve_counts [of scope request w]
  by (auto simp: reserve_attempt_def stop_keeps split: prod.splits outcome.splits budget_error.splits)

lemma admission_deadline_keeps:
  "admission_deadline env scope now timeout w = (r, w') \<Longrightarrow> attempts w' = attempts w"
  by (auto simp: admission_deadline_def split: prod.splits outcome.splits option.splits if_splits
    dest: remaining_keeps)

lemma admit_job_counts:
  assumes "admit_job env config scope call_id timeout request c t w = (r, c', t', w')"
  shows "attempts w' = attempts w + (if is_ok r then model_requests (req_amounts request) else 0)"
proof -
  obtain ad w1 where ad: "admission_deadline env scope (me_now env w) timeout w = (ad, w1)" by fastforce
  note k1 = admission_deadline_keeps [OF ad]
  obtain rr w2 where rs: "reserve_attempt env scope request w1 = (rr, w2)" by fastforce
  note k2 = reserve_attempt_counts [OF rs]
  show ?thesis
    using assms ad k1 rs k2
    by (auto simp: admit_job_def Let_def split: if_splits outcome.splits option.splits prod.splits)
qed

lemma check_context_keeps:
  "check_context env b options w = (r, w') \<Longrightarrow> attempts w' = attempts w"
  by (auto simp: check_context_def mismatch_def stop_keeps split: prod.splits outcome.splits if_splits
    dest: check_keeps)

lemma request_estimate_keeps:
  assumes "\<And>w. attempts (snd (estimator input options w)) = attempts w"
    and r: "request_estimate env b estimator input options w = (r, w')"
  shows "attempts w' = attempts w \<and> (\<forall>request. r = Ok request \<longrightarrow> model_requests (req_amounts request) = 1)"
proof -
  obtain cc w1 where cc: "check_context env b options w = (cc, w1)" by fastforce
  obtain e w2 where e: "estimator input options w1 = (e, w2)" by fastforce
  have "attempts w2 = attempts w1" using assms(1) [of w1] e by simp
  then show ?thesis
    using r cc check_context_keeps [OF cc] e
    by (auto simp: request_estimate_def stop_keeps estimate_request_def with_token_evidence_def new_request_def
      split: outcome.splits)
qed

text \<open>A call is charged exactly when it is admitted.\<close>

lemma generate_admit_counts:
  assumes est: "\<And>options w. attempts (snd (estimator input options w)) = attempts w"
    and g: "generate_admit env config so b estimator default_timeout call_id mode input options c t w = (r, c', t', w')"
  shows "attempts w' = attempts w + (if is_ok r then 1 else 0)"
proof -
  let ?timeout = "effective_timeout (go_timeout options) default_timeout"
  let ?options = "options\<lparr>go_timeout := Some ?timeout\<rparr>"
  obtain re w1 where re: "request_estimate env b estimator input ?options w = (re, w1)" by fastforce
  note k1 = request_estimate_keeps [of estimator input ?options, OF est re]
  show ?thesis
  proof (cases re)
    case (Ok request)
    obtain ar c1 t1 w2 where a: "admit_job env config (tg_scope b) call_id ?timeout request c t w1 = (ar, c1, t1, w2)"
      by (metis prod_cases4)
    note k2 = admit_job_counts [OF a]
    show ?thesis
      using g re Ok a k1 k2 by (auto simp: generate_admit_def Let_def split: outcome.splits)
  qed (use g re k1 in \<open>auto simp: generate_admit_def Let_def split: outcome.splits\<close>)
qed

end

section \<open>The ledger as a budget\<close>

text \<open>One run of a task's ledger: a scope is the run's identifier, the world a clock and the ledger.\<close>

definition on_ledger :: "(duration \<Rightarrow> ledger_state \<Rightarrow> 'a ledger_result) \<Rightarrow> duration \<times> ledger_state
    \<Rightarrow> ('a, budget_error) outcome \<times> duration \<times> ledger_state" where
  "on_ledger f w = (let (r, st) = f (fst w) (snd w) in (r, fst w, st))"

definition ledger_env ::
    "budget_limits \<Rightarrow> token_budget_mode \<Rightarrow> duration \<Rightarrow> (u64, u64 \<times> u64, duration \<times> ledger_state) model_env" where
  "ledger_env limits mode instant_max =
     \<lparr>me_now = fst, me_instant_max = instant_max,
      me_check_active = (\<lambda>i. on_ledger (\<lambda>now. check_active limits now i)),
      me_remaining_time = (\<lambda>i. on_ledger (\<lambda>now. remaining_time limits now i)),
      me_expire = (\<lambda>i w. snd (on_ledger (\<lambda>now. expire limits now i) w)),
      me_stop_with = (\<lambda>i reason w. snd (on_ledger (\<lambda>now. stop_with limits now i reason) w)),
      me_record_model_timing = (\<lambda>i queue execution w.
        snd (on_ledger (\<lambda>_. metrics_op i (record_model_timing queue execution)) w)),
      me_record_evidence = (\<lambda>i kind confirmed w. snd (on_ledger (\<lambda>_. metrics_op i (record_evidence kind confirmed)) w)),
      me_reserve = (\<lambda>i request w.
        let (r, w) = on_ledger (\<lambda>now. reserve limits mode now i request) w in
        (case r of Ok k \<Rightarrow> Ok (i, k) | Err e \<Rightarrow> Err e | Panic \<Rightarrow> Panic, w)),
      me_mark_started = (\<lambda>(i, k). on_ledger (\<lambda>now. mark_started limits now i k)),
      me_settle = (\<lambda>(_, k) usage. on_ledger (\<lambda>now. settle limits now now k usage)),
      me_cancel_before_start = (\<lambda>(_, k). on_ledger (\<lambda>now. cancel_before_start limits now now k))\<rparr>"

definition model_attempts :: "duration \<times> ledger_state \<Rightarrow> u64" where
  "model_attempts w = model_requests (st_charged (snd w))"

lemma update_report_charged [simp]: "st_charged (update_report f st) = st_charged st"
  by (simp add: update_report_def)

lemma on_run_charged:
  assumes "on_run limits now i f st = (r, st')" and "\<And>s r s'. f s = (r, s') \<Longrightarrow> st_charged s' = st_charged s"
  shows "st_charged st' = st_charged st"
  using assms(1) assms(2) [of "tick limits now st" r st'] by (auto simp: on_run_def Let_def split: outcome.splits)

lemma check_active_charged: "check_active limits now i st = (r, st') \<Longrightarrow> st_charged st' = st_charged st"
  unfolding check_active_def by (erule on_run_charged) simp

lemma remaining_time_charged: "remaining_time limits now i st = (r, st') \<Longrightarrow> st_charged st' = st_charged st"
  unfolding remaining_time_def by (erule on_run_charged) simp

lemma stop_with_charged: "stop_with limits now i reason st = (r, st') \<Longrightarrow> st_charged st' = st_charged st"
  unfolding stop_with_def by (erule on_run_charged) (auto split: option.splits)

lemma reserve_fit_charged:
  "st_charged (snd (reserve_fit limits request rs st)) = st_charged st"
  by (induction rs) (auto simp: Let_def insert_stop_def split: option.splits)

lemma model_requests_add_attempts:
  "model_requests (add_attempts q all_resources a) = model_requests a + model_requests q"
  using amount_add_attempts [of q a ModelRequests] by simp

lemma reserve_charged:
  assumes "reserve limits mode now i request st = (r, st')"
  shows "model_requests (st_charged st') =
    model_requests (st_charged st) + (if is_ok r then model_requests (req_amounts request) else 0)"
proof -
  let ?t = "tick limits now st"
  have fit: "st_charged u = st_charged ?t" if "reserve_fit limits request all_resources ?t = (x, u)" for x u
    using reserve_fit_charged [of limits request all_resources ?t] that by simp
  have alloc: "st_charged v = st_charged u" if "allocate_id u = (x, v)" for x u v
    using that by (auto simp: allocate_id_def insert_stop_def split: option.splits)
  show ?thesis
    using assms
    by (auto simp: reserve_def on_run_def Let_def fold_reserve_one model_requests_add_attempts
      split: outcome.splits prod.splits dest!: fit alloc)
qed

interpretation ledger_budget: model_budget_laws "ledger_env limits mode instant_max" model_attempts
proof
  fix scope w u w'
  assume "me_check_active (ledger_env limits mode instant_max) scope w = (u, w')"
  then show "model_attempts w' = model_attempts w"
    by (auto simp: ledger_env_def on_ledger_def model_attempts_def split: prod.splits dest: check_active_charged)
next
  fix scope w d w'
  assume "me_remaining_time (ledger_env limits mode instant_max) scope w = (d, w')"
  then show "model_attempts w' = model_attempts w"
    by (auto simp: ledger_env_def on_ledger_def model_attempts_def split: prod.splits dest: remaining_time_charged)
next
  fix scope reason w
  show "model_attempts (me_stop_with (ledger_env limits mode instant_max) scope reason w) = model_attempts w"
    by (auto simp: ledger_env_def on_ledger_def model_attempts_def split: prod.splits dest: stop_with_charged)
next
  fix scope request w r w'
  assume "me_reserve (ledger_env limits mode instant_max) scope request w = (r, w')"
  then show "model_attempts w' = model_attempts w + (if is_ok r then model_requests (req_amounts request) else 0)"
    by (auto simp: ledger_env_def on_ledger_def model_attempts_def split: prod.splits outcome.splits
      dest!: reserve_charged)
qed

end
