(* ===== verification/CallProps.thy ===== *)
theory CallProps
  imports ModelLaws SessionCoordinator
begin

text \<open>The properties of the model runtime, with their witnesses on small runs.\<close>

section \<open>Helper lemmas\<close>

lemma dispatch_loop_pops_head:
  assumes ok: "slots_ok config (i # q) c" and fits: "config_fits config" and run: "rt_lifecycle c = Running"
    and free: "unat (rt_occupied c) < sc_max_concurrency config"
    and d: "dispatch_loop env config (i # q) c w = (c', w')"
  shows "i \<notin> set (rt_queue c')"
proof -
  have q: "queue_ok (rt_jobs c) (i # q)" and sorted: "sorted_wrt (<) (i # q)" using ok by (auto simp: slots_ok_def queue_ok_def)
  obtain job where job: "map_of (rt_jobs c) i = Some job" using queue_ok_Cons [OF q] by blast
  obtain c1 w1 where j: "dispatch_job env i job c w = (c1, w1)" by fastforce
  have rest: "dispatch_loop env config q c1 w1 = (c', w')" using d run free job j by simp
  obtain popped where "q = popped @ rt_queue c'"
    using dispatch_loop_ok [OF dispatch_job_slots [OF ok job free fits j] fits rest] by blast
  then show ?thesis using sorted by auto
qed

text \<open>A job that holds a slot gives it to the waiting ones, in order.\<close>

lemma release_dispatches:
  assumes inv: "sched_inv config c" and fits: "config_fits config" and job: "map_of (rt_jobs c) i = Some job"
    and holds: "holds_slot job" and r: "release_execution env config i reason c w = (c', w')"
  shows "\<exists>popped. rt_queue c = popped @ rt_queue c' \<and>
    (\<forall>k \<in> set popped. \<exists>waiting served. map_of (rt_jobs c) k = Some waiting \<and>
       map_of (rt_jobs c') k = Some served \<and> dispatched_from waiting served) \<and>
    (rt_lifecycle c = Running \<longrightarrow> (\<forall>k q. rt_queue c = k # q \<longrightarrow> k \<in> set popped))"
proof -
  let ?job = "if sj_stop_reason job = None then job\<lparr>sj_stop_reason := reason\<rparr> else job"
  have ok: "slots_ok config (rt_queue c) c" using inv by (simp add: sched_inv_def)
  have ph: "sj_phase job \<noteq> JobCleaning" "sj_phase job \<noteq> JobQueued" using holds by (auto simp: holds_slot_def)
  obtain closed w1 where cl: "close_job env ?job (me_now env w) w = (closed, w1)" by fastforce
  have closed: "sj_phase closed = JobCleaning" using close_job_fields [OF cl] by simp
  let ?c = "c\<lparr>rt_jobs := bt_modify i (\<lambda>_. closed) (rt_jobs c), rt_queue := rt_queue c,
      rt_occupied := rt_occupied c - 1\<rparr>"
  have loop: "dispatch_loop env config (rt_queue c) ?c w1 = (c', w')"
    using r job ph cl by (auto simp: release_execution_def Let_def dispatch_waiters_def split: if_splits prod.splits)
  have ok': "slots_ok config (rt_queue c) ?c" by (rule release_slots [OF ok job ph(1) closed]) (use ph in auto)
  obtain popped where p: "rt_queue c = popped @ rt_queue c'" "dispatched popped ?c c'"
    using dispatch_loop_ok [OF ok' fits loop] by blast
  have "i \<notin> set (rt_queue c)" using ok job ph by (auto simp: slots_ok_def queue_ok_def)
  then have "map_of (rt_jobs ?c) k = map_of (rt_jobs c) k" if "k \<in> set popped" for k using p(1) that by auto
  then have served: "\<exists>waiting served. map_of (rt_jobs c) k = Some waiting \<and>
       map_of (rt_jobs c') k = Some served \<and> dispatched_from waiting served" if "k \<in> set popped" for k
    using p(2) that unfolding dispatched_def by (metis (no_types, lifting))
  have "k \<in> set popped" if run: "rt_lifecycle c = Running" and q: "rt_queue c = k # q" for k q
  proof -
    have wf: "bt_wf (rt_jobs c)" and occ: "unat (rt_occupied c) = slots_taken (rt_jobs c)"
      and le: "unat (rt_occupied c) \<le> sc_max_concurrency config" using ok by (auto simp: slots_ok_def)
    have "0 < unat (rt_occupied c)" using slots_taken_positive [OF bt_wf_distinct [OF wf] job holds] occ by simp
    then have "unat (rt_occupied c - 1) = unat (rt_occupied c) - 1" by (subst unat_sub_le) auto
    then have "unat (rt_occupied ?c) < sc_max_concurrency config" using \<open>0 < unat (rt_occupied c)\<close> le by simp
    from dispatch_loop_pops_head [of config k q ?c env w1 c' w', OF _ fits _ this] ok' run loop q
    have "k \<notin> set (rt_queue c')" by simp
    moreover have "k \<in> set (popped @ rt_queue c')" using p(1) q by (metis list.set_intros(1))
    ultimately show ?thesis by simp
  qed
  then show ?thesis using p(1) served by blast
qed

text \<open>The history of a call that got to its end, and what its caller received.\<close>

definition answers :: "('v generation_response, 'v model_gateway_error) outcome \<Rightarrow> 'v model_result \<Rightarrow> bool" where
  "answers r result \<longleftrightarrow>
     (case ms_outcome result of
        ModelSucceeded response \<Rightarrow> r = Ok response
      | ModelFailed _ _ _ _ _ _ \<Rightarrow> \<exists>e. r = Err e)"

lemma failed_result_answers [simp]: "answers (Err e') (failed_result request e part)"
  by (cases e) (simp_all add: answers_def failed_result_def failed_outcome_def)

lemma failed_outcome_answers [simp]: "answers (Err e) (failed_outcome request c code m b st part)"
  by (simp add: answers_def failed_outcome_def)

lemma result_answers [simp]:
  "answers (Ok response) (successful_result request response)"
  "answers (Err e) (budget_failed_result request be part)"
  "answers (Err e) (consumer_dropped_result request part)"
  "answers (Err e) (internal_result request code message part)"
  by (simp_all add: answers_def successful_result_def budget_failed_result_def consumer_dropped_result_def
    internal_result_def failed_outcome_def)

lemma stopped_result_answers:
  "stopped_result be request reason = (result, e) \<Longrightarrow> answers (Err e) result"
  by (cases reason) (auto simp: stopped_result_def)

lemma complete_output_answers:
  "complete_output d request resolution s = (result, answer, s') \<Longrightarrow> answers answer result \<and>
    (\<forall>response. answer = Ok response \<longrightarrow> resolution = CrSucceeded response)"
  by (auto simp: complete_output_def Let_def split: complete_resolution.splits prod.splits if_splits
    dest: stopped_result_answers)

lemma stream_output_answers:
  "stream_output d request resolution s = (result, answer, s') \<Longrightarrow> answers answer result \<and>
    (\<forall>response. answer = Ok response \<longrightarrow> (\<exists>part. resolution = SrSucceeded response part))"
  by (auto simp: stream_output_def Let_def split: stream_resolution.splits prod.splits if_splits
    dest: stopped_result_answers)

definition recorded_call ::
    "('b, 'v, 'r, 'w) driver \<Rightarrow> 'v model_request \<Rightarrow> ('v generation_response, 'v model_gateway_error) outcome
       \<Rightarrow> 'v driver_event list \<Rightarrow> 'v driver_event list \<Rightarrow> bool" where
  "recorded_call d request r before after \<longleftrightarrow>
     (\<exists>asked source. after = before @ [Recorded (RecRequest request) asked] \<and> \<not> append_confirmed d asked \<and>
        append_refusal d asked source \<and> r = Err (GwRecording (request_failure request source))) \<or>
     (\<exists>asked called deltas result answer.
        after = before @ [Recorded (RecRequest request) asked] @ called @ map Forwarded deltas @
          [Recorded (RecResult result) answer] \<and>
        append_confirmed d asked \<and> (called = [] \<and> deltas = [] \<or> called = [Entered]) \<and>
        (if append_confirmed d answer then answers r result
         else \<exists>source. append_refusal d answer source \<and> r = Err (GwRecording (result_failure request result source))))"

lemma close_call_recorded:
  assumes c: "close_call d request observed result output s = Some (r, s')" and a: "answers output result"
    and h: "ds_history s = before @ [Recorded (RecRequest request) asked] @ called @ map Forwarded deltas"
    and asked: "append_confirmed d asked"
    and called: "called = [] \<and> deltas = [] \<or> called = [Entered]" and r: "r \<noteq> Panic"
  shows "recorded_call d request r before (ds_history s')"
proof -
  obtain result' output' answer where e: "ds_history s' = ds_history s @ [Recorded (RecResult result') answer]"
    and alt: "result' = result \<and> output' = output \<or>
       (\<exists>e. result' = budget_failed_result request e observed \<and> output' = Err (GwRuntime (MrBudget e)))"
    and ok: "append_confirmed d answer \<longrightarrow> r = output'"
    and fail: "\<not> append_confirmed d answer \<longrightarrow>
      (\<exists>source. r = Err (GwRecording (result_failure request result' source)) \<and> append_refusal d answer source)"
    using close_call_cases [OF c] r by blast
  have "answers output' result'" using alt a by auto
  then show ?thesis
    unfolding recorded_call_def e h using called asked ok fail
    by (intro disjI2 exI [of _ asked] exI [of _ called] exI [of _ deltas] exI [of _ result'] exI [of _ answer]) auto
qed

lemma run_complete_recorded:
  assumes c: "run_complete d request options wakes s = Some (r, s')" and r: "r \<noteq> Panic"
  shows "recorded_call d request r (ds_history s) (ds_history s') \<and>
    (\<forall>response. r = Ok response \<longrightarrow>
       validate_response (dv_schema d) (mq_input request) response (mo_limits (mq_options request)) = Ok ())"
proof -
  obtain rr s1 where run: "run_resolution d request False CrStopped (resolve_complete d request options) wakes s = Some (rr, s1)"
    using c by (auto simp: run_complete_def split: option.splits)
  have finish: "recorded_call d request r (ds_history s) (ds_history s') \<and>
      (\<forall>response. r = Ok response \<longrightarrow> resolution = CrSucceeded response)"
    if res: "rr = Ok resolution" and h: "ds_history s1 = ds_history s @ [Recorded (RecRequest request) asked] @ called"
      and asked: "append_confirmed d asked" and called: "called = [] \<or> called = [Entered]" for resolution asked called
  proof -
    obtain result answer s2 where out: "complete_output d request resolution s1 = (result, answer, s2)"
      by (metis prod_cases3)
    obtain observed where cl: "close_call d request observed result answer s2 = Some (r, s')"
      using c run res out by (auto simp: run_complete_def Let_def)
    note A = complete_output_answers [OF out]
    have h2: "ds_history s2 = ds_history s @ [Recorded (RecRequest request) asked] @ called @ map Forwarded []"
      using quiet_complete_output [OF out] h by simp
    have "recorded_call d request r (ds_history s) (ds_history s')"
      by (rule close_call_recorded [OF cl _ h2 asked _ r]) (use A called in auto)
    moreover have "answer = Ok response" if "r = Ok response" for response
      using close_call_cases [OF cl] that by auto
    ultimately show ?thesis using A by blast
  qed
  show ?thesis
  proof (cases rule: run_resolution_cases [OF run])
    case (1 source asked)
    then show ?thesis using c run by (auto simp: run_complete_def recorded_call_def)
  next
    case (2 reason asked)
    have "ds_history s1 = ds_history s @ [Recorded (RecRequest request) asked] @ []" using 2 by simp
    from finish [OF 2(1) this 2(3)] show ?thesis by auto
  next
    case 3
    then show ?thesis using c run r by (auto simp: run_complete_def)
  next
    case (4 rest s0 resolution asked)
    obtain called where h: "ds_history s1 = ds_history s @ [Recorded (RecRequest request) asked] @ called"
      "called = [] \<or> called = [Entered]"
      using resolve_complete_history [OF 4(1)] 4(3) by auto
    note F = finish [OF 4(2) h(1) 4(4) h(2)]
    have "validate_response (dv_schema d) (mq_input request) response (mo_limits (mq_options request)) = Ok ()"
      if "r = Ok response" for response
      using F that resolve_complete_validated [of d request options rest s0 response s1] 4(1) by auto
    with F show ?thesis by blast
  qed
qed

lemma run_stream_recorded:
  assumes c: "run_stream d request options wakes s = Some (r, s')" and r: "r \<noteq> Panic"
  shows "recorded_call d request r (ds_history s) (ds_history s') \<and>
    (\<forall>response. r = Ok response \<longrightarrow>
       (\<exists>asked deltas answer acc. ds_history s' = ds_history s @ [Recorded (RecRequest request) asked, Entered] @
            map Forwarded deltas @ [Recorded (RecResult (successful_result request response)) answer] \<and>
          append_confirmed d asked \<and> append_confirmed d answer \<and>
          for_each push deltas (accumulator_new (go_limits options)) = Ok acc \<and>
          verify_terminal (so_json (dv_schema d)) acc response = Ok () \<and>
          validate_response (dv_schema d) (mq_input request) response (mo_limits (mq_options request)) = Ok ()))"
proof -
  obtain rr s1 where run: "run_resolution d request True SrStopped (resolve_stream d request options) wakes s = Some (rr, s1)"
    using c by (auto simp: run_stream_def split: option.splits)
  have finish: "recorded_call d request r (ds_history s) (ds_history s') \<and>
      (\<forall>response. r = Ok response \<longrightarrow> (\<exists>part. resolution = SrSucceeded response part) \<and>
         (\<exists>answer. append_confirmed d answer \<and>
            ds_history s' = ds_history s1 @ [Recorded (RecResult (successful_result request response)) answer]))"
    if res: "rr = Ok resolution"
      and h: "ds_history s1 = ds_history s @ [Recorded (RecRequest request) asked] @ called @ map Forwarded deltas"
      and asked: "append_confirmed d asked"
      and called: "called = [] \<and> deltas = [] \<or> called = [Entered]" for resolution asked called deltas
  proof -
    obtain result answer s2 where out: "stream_output d request resolution s1 = (result, answer, s2)"
      by (metis prod_cases3)
    obtain observed where cl: "close_call d request observed result answer s2 = Some (r, s')"
      using c run res out by (auto simp: run_stream_def Let_def)
    note A = stream_output_answers [OF out]
    have h2: "ds_history s2 = ds_history s @ [Recorded (RecRequest request) asked] @ called @ map Forwarded deltas"
      using quiet_stream_output [OF out] h by simp
    have "recorded_call d request r (ds_history s) (ds_history s')"
      by (rule close_call_recorded [OF cl _ h2 asked called r]) (use A in auto)
    moreover have "(\<exists>kept. append_confirmed d kept \<and>
        ds_history s' = ds_history s1 @ [Recorded (RecResult (successful_result request response)) kept]) \<and>
        answer = Ok response" if ok: "r = Ok response" for response
    proof -
      from close_call_cases [OF cl] ok
      obtain kept where e: "answer = Ok response" "ds_history s' = ds_history s2 @ [Recorded (RecResult result) kept]"
        "append_confirmed d kept" by auto
      with A obtain part where "resolution = SrSucceeded response part" by auto
      then have "result = successful_result request response" using out by (simp add: stream_output_def)
      with e quiet_stream_output [OF out] show ?thesis by simp
    qed
    ultimately show ?thesis using A by blast
  qed
  show ?thesis
  proof (cases rule: run_resolution_cases [OF run])
    case (1 source asked)
    then show ?thesis using c run by (auto simp: run_stream_def recorded_call_def)
  next
    case (2 reason asked)
    have "ds_history s1 = ds_history s @ [Recorded (RecRequest request) asked] @ [] @ map Forwarded []" using 2 by simp
    from finish [OF 2(1) this 2(3)] show ?thesis by auto
  next
    case 3
    then show ?thesis using c run r by (auto simp: run_stream_def)
  next
    case (4 rest s0 resolution asked)
    from resolve_stream_history [OF 4(1)] show ?thesis
    proof (elim disjE conjE exE)
      assume "quiet s0 s1" and no: "\<forall>response part. Ok resolution \<noteq> (Ok (SrSucceeded response part) :: _ resolved)"
      then have "ds_history s1 = ds_history s @ [Recorded (RecRequest request) asked] @ [] @ map Forwarded []"
        using 4(3) by simp
      from finish [OF 4(2) this 4(4)] no show ?thesis by auto
    next
      fix deltas
      assume h0: "ds_history s1 = ds_history s0 @ Entered # map Forwarded deltas"
        and ok: "\<forall>response part. (Ok resolution :: _ resolved) = Ok (SrSucceeded response part) \<longrightarrow>
        (\<exists>acc. for_each push deltas (accumulator_new (go_limits options)) = Ok acc \<and>
          verify_terminal (so_json (dv_schema d)) acc response = Ok () \<and>
          validate_response (dv_schema d) (mq_input request) response (mo_limits (mq_options request)) = Ok ())"
      have h: "ds_history s1 = ds_history s @ [Recorded (RecRequest request) asked] @ [Entered] @ map Forwarded deltas"
        using h0 4(3) by simp
      note F = finish [OF 4(2) h 4(4)]
      show ?thesis
      proof (intro conjI allI impI)
        show "recorded_call d request r (ds_history s) (ds_history s')" using F by simp
      next
        fix response
        assume "r = Ok response"
        with F obtain part answer where p: "resolution = SrSucceeded response part" and k: "append_confirmed d answer"
          and e: "ds_history s' = ds_history s1 @ [Recorded (RecResult (successful_result request response)) answer]" by auto
        from ok p obtain acc where a: "for_each push deltas (accumulator_new (go_limits options)) = Ok acc"
          "verify_terminal (so_json (dv_schema d)) acc response = Ok ()"
          "validate_response (dv_schema d) (mq_input request) response (mo_limits (mq_options request)) = Ok ()" by auto
        show "\<exists>asked deltas answer acc. ds_history s' = ds_history s @ [Recorded (RecRequest request) asked, Entered] @
            map Forwarded deltas @ [Recorded (RecResult (successful_result request response)) answer] \<and>
          append_confirmed d asked \<and> append_confirmed d answer \<and>
          for_each push deltas (accumulator_new (go_limits options)) = Ok acc \<and>
          verify_terminal (so_json (dv_schema d)) acc response = Ok () \<and>
          validate_response (dv_schema d) (mq_input request) response (mo_limits (mq_options request)) = Ok ()"
          using e h a k 4(4)
          by (intro exI [of _ asked] exI [of _ deltas] exI [of _ answer] exI [of _ acc]) simp
      qed
    qed
  qed
qed

text \<open>What a validated response of a finished call looks like.\<close>

lemma for_each_all:
  assumes "for_each f xs () = Ok u" and "x \<in> set xs" shows "f x () = Ok ()"
  using assms by (induction xs) (auto simp: and_then_eq_Ok)

lemma validate_response_shape:
  assumes v: "validate_response so request response limits = Ok ()"
    and fin: "rs_finish_reason response = Stop \<or> rs_finish_reason response = finish_reason.ToolCalls"
  shows "case rg_constraint request of
      TextOutput \<Rightarrow> rs_tool_calls response = []
    | JsonSchema _ schema \<Rightarrow> (\<exists>parsed valid. js_from_str (so_json so) (unwrap_or_empty (rs_content response)) = Some parsed \<and>
        so_compile so schema = Some valid \<and> valid parsed)
    | NativeTools tools _ \<Rightarrow> (\<forall>call \<in> set (rs_tool_calls response). \<exists>tool valid. tool \<in> set tools \<and>
        td_name tool = tc_name call \<and> so_compile so (td_parameters tool) = Some valid \<and> valid (tc_arguments call))"
proof -
  have shape: "validate_shape_for (so_json so) request response = Ok ()"
    using v fin by (auto simp: validate_response_def protocol_result_def and_then_eq_Ok split: if_splits outcome.splits)
  show ?thesis
  proof (cases "rg_constraint request")
    case TextOutput
    then show ?thesis using shape by (auto simp: validate_shape_for_def and_then_eq_Ok split: if_splits)
  next
    case (JsonSchema name schema)
    then show ?thesis using v fin shape
      by (auto simp: validate_response_def protocol_result_def compile_schema_def and_then_eq_Ok split: if_splits
        elim!: ok_or.elims)
  next
    case (NativeTools tools choice)
    have each: "for_each (call_valid_step so tools) (rs_tool_calls response) () = Ok ()"
      using v fin shape NativeTools by (auto simp: validate_response_def protocol_result_def split: if_splits)
    have "\<exists>tool valid. tool \<in> set tools \<and> td_name tool = tc_name call \<and>
        so_compile so (td_parameters tool) = Some valid \<and> valid (tc_arguments call)"
      if "call \<in> set (rs_tool_calls response)" for call
      using for_each_all [OF each that]
      by (auto simp: call_valid_step_def compile_schema_def and_then_eq_Ok find_Some_iff split: option.splits if_splits
        elim!: ok_or.elims) (metis nth_mem)
    then show ?thesis using NativeTools by simp
  qed
qed

section \<open>A sample runtime\<close>

definition call_config :: model_scheduler_config where
  "call_config = \<lparr>sc_max_concurrency = 1, sc_max_queued = 2, sc_max_inflight = 4, sc_max_request_bytes = 1000\<rparr>"

text \<open>A budget that never ends, and a clock that is the world.\<close>

definition call_env :: "(unit, unit, nat) model_env" where
  "call_env = \<lparr>me_now = (\<lambda>w. w), me_instant_max = 1000, me_check_active = (\<lambda>_ w. (Ok (), w)),
     me_remaining_time = (\<lambda>_ w. (Ok 500, w)), me_expire = (\<lambda>_ w. w), me_stop_with = (\<lambda>_ _ w. w),
     me_record_model_timing = (\<lambda>_ _ _ w. w), me_record_evidence = (\<lambda>_ _ _ w. w), me_reserve = (\<lambda>_ _ w. (Ok (), w)),
     me_mark_started = (\<lambda>_ w. (Ok (), w)), me_settle = (\<lambda>_ _ w. (Ok (), w)),
     me_cancel_before_start = (\<lambda>_ w. (Ok (), w))\<rparr>"

definition call_bound :: "(unit, nat) runtime_control" where
  "call_bound = snd (bind_turn_id (snd (runtime_start runtime_control_new)))"

definition call_first :: "(unit, nat) runtime_control \<times> nat turn_control" where
  "call_first = (case admit_job call_env call_config () ''a'' 10 sample_request call_bound turn_control_new 1 of
     (_, c, t, _) \<Rightarrow> (c, t))"

definition call_second :: "(unit, nat) runtime_control \<times> nat turn_control" where
  "call_second = (case admit_job call_env call_config () ''b'' 10 sample_request (fst call_first) (snd call_first) 2 of
     (_, c, t, _) \<Rightarrow> (c, t))"

lemma call_start_steps:
  "runtime_start (runtime_control_new :: (unit, nat) runtime_control) =
     (Ok (), snd (runtime_start runtime_control_new))"
  "bind_turn_id (snd (runtime_start (runtime_control_new :: (unit, nat) runtime_control))) = (Ok 0, call_bound)"
  "admit_job call_env call_config () ''a'' 10 sample_request call_bound turn_control_new 1 =
     (Ok \<lparr>am_job_id = 0, am_deadline = 11, am_budget_deadline = None, am_reservation = ()\<rparr>, fst call_first, snd call_first, 1)"
  "admit_job call_env call_config () ''b'' 10 sample_request (fst call_first) (snd call_first) 2 =
     (Ok \<lparr>am_job_id = 1, am_deadline = 12, am_budget_deadline = None, am_reservation = ()\<rparr>, fst call_second, snd call_second, 2)"
  by code_simp+

definition call_turns :: "u64 \<Rightarrow> nat turn_control option" where
  "call_turns = Map.empty(0 \<mapsto> turn_control_new, 0 \<mapsto> snd call_first, 0 \<mapsto> snd call_second)"

lemma call_reach: "model_reach call_env call_config (fst call_second, call_turns, 2)"
proof -
  have "model_reach call_env call_config (snd (runtime_start (runtime_control_new :: (unit, nat) runtime_control)), Map.empty, 1)"
    by (rule model_reach.step [OF model_reach.initial model_step.start [OF call_start_steps(1)]])
  then have "model_reach call_env call_config (call_bound, Map.empty(0 \<mapsto> turn_control_new), 1)"
    by (rule model_reach.step) (rule model_step.bind [OF call_start_steps(2)])
  then have "model_reach call_env call_config (fst call_first, Map.empty(0 \<mapsto> turn_control_new, 0 \<mapsto> snd call_first), 1)"
    by (rule model_reach.step) (rule model_step.admit [OF _ call_start_steps(3)], simp)
  then have "model_reach call_env call_config (fst call_first, Map.empty(0 \<mapsto> turn_control_new, 0 \<mapsto> snd call_first), 2)"
    by (rule model_reach.step) (rule model_step.world)
  then show ?thesis unfolding call_turns_def
    by (rule model_reach.step) (rule model_step.admit [OF _ call_start_steps(4)], simp)
qed

lemma call_fits: "config_fits call_config"
  by (simp add: call_config_def)

section \<open>Scheduling\<close>

lemma slots_taken_length: "slots_taken jobs = length (filter holds_slot (bt_values jobs))"
  unfolding slots_taken_def by (induction jobs) auto

text \<open>C15: in every state the runtime can reach, its count of occupied slots is the number of jobs that are preparing or
  executing and never above the configured concurrency, so that the decrement of a release does not
  wrap. The queue is exactly the queued jobs, in the order of their admission. The two capacities
  hold, and while the runtime runs no slot is free while a job waits.
\<close>

theorem slots_match_jobs:
  assumes "model_reach env config (c, T, w)" and "sc_max_concurrency config < 2 ^ 64"
  shows "unat (rt_occupied c) = length (filter holds_slot (bt_values (rt_jobs c))) \<and>
    unat (rt_occupied c) \<le> sc_max_concurrency config \<and>
    length (rt_jobs c) \<le> sc_max_inflight config \<and> length (rt_queue c) \<le> sc_max_queued config \<and>
    sorted_wrt (<) (rt_queue c) \<and>
    (\<forall>i. i \<in> set (rt_queue c) \<longleftrightarrow> (\<exists>job. map_of (rt_jobs c) i = Some job \<and> sj_phase job = JobQueued)) \<and>
    (rt_lifecycle c = Running \<and> rt_queue c \<noteq> [] \<longrightarrow> unat (rt_occupied c) = sc_max_concurrency config)"
proof -
  have inv: "sched_inv config c" using reachable_system_inv [OF assms] by (simp add: system_inv_def)
  then have "slots_ok config (rt_queue c) c" "work_conserving config c" by (simp_all add: sched_inv_def)
  then show ?thesis
    unfolding slots_ok_def queue_ok_def work_conserving_def slots_taken_length by blast
qed

theorem slots_match_jobs_witness:
  "unat (rt_occupied (fst call_second)) = 1 \<and> rt_queue (fst call_second) = [1] \<and>
   length (filter holds_slot (bt_values (rt_jobs (fst call_second)))) = 1"
proof -
  note w = slots_match_jobs [OF call_reach call_fits]
  have "rt_queue (fst call_second) = [1]" "unat (rt_occupied (fst call_second)) = 1" by code_simp+
  with w show ?thesis by simp
qed

text \<open>C16: releasing a job that holds a slot serves the queue in its order: the jobs that leave it are a
  prefix of it, each either gets a slot while it is neither cancelled nor past a deadline, or is
  closed with a reason, and while the runtime runs the job at the head is among them.
\<close>

theorem released_slots_serve_the_queue:
  assumes "model_reach env config (c, T, w)" and "sc_max_concurrency config < 2 ^ 64"
    and "map_of (rt_jobs c) i = Some job" and "holds_slot job"
    and "release_execution env config i reason c w' = (c', w'')"
  shows "\<exists>popped. rt_queue c = popped @ rt_queue c' \<and>
    (\<forall>k \<in> set popped. \<exists>waiting served. map_of (rt_jobs c) k = Some waiting \<and>
       map_of (rt_jobs c') k = Some served \<and> dispatched_from waiting served) \<and>
    (rt_lifecycle c = Running \<longrightarrow> (\<forall>k q. rt_queue c = k # q \<longrightarrow> k \<in> set popped))"
  using release_dispatches [OF _ assms(2-5)] reachable_system_inv [OF assms(1,2)] by (simp add: system_inv_def)

theorem released_slots_serve_the_queue_witness:
  "\<exists>popped. rt_queue (fst call_second) = popped @
      rt_queue (fst (release_execution call_env call_config 0 None (fst call_second) 3)) \<and> (1 :: u64) \<in> set popped"
proof -
  have job: "map_of (rt_jobs (fst call_second)) 0 = Some (the (map_of (rt_jobs (fst call_second)) 0))" by code_simp
  have holds: "holds_slot (the (map_of (rt_jobs (fst call_second)) 0))" by code_simp
  have q: "rt_queue (fst call_second) = [1]" "rt_lifecycle (fst call_second) = Running" by code_simp+
  from released_slots_serve_the_queue [OF call_reach call_fits job holds prod.collapse [symmetric], of None 3]
  obtain popped where "rt_queue (fst call_second) = popped @
      rt_queue (fst (release_execution call_env call_config 0 None (fst call_second) 3))" "1 \<in> set popped"
    using q by blast
  then show ?thesis by blast
qed

section \<open>Closure of turns and of the runtime\<close>

lemma ledger_ok_empty: "ledger_ok l \<Longrightarrow> ledger_is_empty l \<longleftrightarrow> fl_failures l = []"
  by (auto simp: ledger_ok_def ledger_is_empty_def MAX_LIFECYCLE_FAILURES_def)

lemma from_bounded_failures_Some:
  assumes "\<not> list_ex (\<lambda>failure. \<not> is_closure_failure failure) failures" and "failures \<noteq> []"
  shows "\<exists>f. from_bounded_failures failures omitted = Ok (Some f) \<and> length (tf_failures f) \<le> MAX_MODEL_TURN_FAILURES"
  using assms by (auto simp: from_bounded_failures_def)

lemma turn_failure_cases:
  assumes "ledger_ok l"
  shows "(budget_error = None \<and> fl_failures l = [] \<and> turn_failure budget_error l = Ok ()) \<or>
    (\<not> (budget_error = None \<and> fl_failures l = []) \<and>
     (\<exists>f. turn_failure budget_error l = Err f \<and> length (tf_failures f) \<le> MAX_MODEL_TURN_FAILURES \<and>
      turn_failure_count f = usize_saturating_add
        (length (fl_failures l) + (if budget_error = None then 0 else 1)) (fl_omitted l)))"
proof -
  define extra :: "'a model_gateway_error list" where "extra = (case budget_error of None \<Rightarrow> []
      | Some message \<Rightarrow> [GwInternal ''model_budget_closure'' (''Owned model budget did not settle: '' @ message)])"
  have len: "length extra = (if budget_error = None then 0 else 1)" by (simp add: extra_def split: option.splits)
  have "list_all is_closure_failure extra" by (simp add: extra_def is_closure_failure_def split: option.splits)
  then have closure: "\<not> list_ex (\<lambda>failure. \<not> is_closure_failure failure) (fl_failures l @ extra)"
    using assms by (auto simp: ledger_ok_def list_all_iff list_ex_iff)
  have t: "turn_failure budget_error l =
    (let closing = (case from_bounded_failures (fl_failures l @ extra) (fl_omitted l) of Ok (Some f) \<Rightarrow> Err f | _ \<Rightarrow> Panic) in
      if budget_error \<noteq> None then closing else if ledger_is_empty l then Ok () else closing)"
    by (simp only: turn_failure_def extra_def)
  note empty = ledger_ok_empty [OF assms]
  show ?thesis
  proof (cases "budget_error = None \<and> fl_failures l = []")
    case True
    then show ?thesis using empty t by simp
  next
    case False
    then have "fl_failures l @ extra \<noteq> []" using len by auto
    then obtain f where f: "from_bounded_failures (fl_failures l @ extra) (fl_omitted l) = Ok (Some f)"
      "length (tf_failures f) \<le> MAX_MODEL_TURN_FAILURES"
      using from_bounded_failures_Some [OF closure] by blast
    have "turn_failure budget_error l = Err f" using t f(1) False empty by (auto simp: Let_def)
    moreover have "turn_failure_count f = usize_saturating_add
        (length (fl_failures l) + (if budget_error = None then 0 else 1)) (fl_omitted l)"
      using from_bounded_failures_count [OF f(1)] len by simp
    ultimately show ?thesis using False f(2) by blast
  qed
qed

text \<open>finishing a turn never panics at the two expectations of the code: the turn's ledger holds only
  failures of closure. It succeeds exactly when no call of the turn failed to close and the owned
  budget settled; otherwise the failure it returns counts every one of them and keeps at most sixteen.
\<close>

theorem turn_finish_reports_its_failures:
  assumes "model_reach env config (c, T, w)" and "sc_max_concurrency config < 2 ^ 64"
    and "T i = Some t" and "turn_finish_end i budget_error c t = (f, c', t')"
  shows "case f of
      Ok _ \<Rightarrow> budget_error = None \<and> fl_failures (tu_failures t) = []
    | Err e \<Rightarrow> \<not> (budget_error = None \<and> fl_failures (tu_failures t) = []) \<and>
        length (tf_failures e) \<le> MAX_MODEL_TURN_FAILURES \<and>
        turn_failure_count e = usize_saturating_add
          (length (fl_failures (tu_failures t)) + (if budget_error = None then 0 else 1)) (fl_omitted (tu_failures t))
    | Panic \<Rightarrow> False"
proof -
  have "ledger_ok (tu_failures t)"
    using reachable_system_inv [OF assms(1,2)] assms(3) by (simp add: system_inv_def accounted_def)
  moreover have "f = turn_failure budget_error (tu_failures t)" using assms(4) by (simp add: turn_finish_end_def)
  ultimately show ?thesis using turn_failure_cases [of "tu_failures t" budget_error] by auto
qed

theorem turn_finish_reports_its_failures_witness:
  "case fst (turn_finish_end 0 (Some ''late'') (fst call_second) (snd call_second)) of
     Err e \<Rightarrow> turn_failure_count e = 1 | _ \<Rightarrow> False"
proof -
  have t: "call_turns 0 = Some (snd call_second)" by (simp add: call_turns_def)
  have empty: "fl_failures (tu_failures (snd call_second)) = []" "fl_omitted (tu_failures (snd call_second)) = 0" by code_simp+
  obtain f c t' where f: "turn_finish_end 0 (Some ''late'') (fst call_second) (snd call_second) = (f, c, t')"
    by (metis prod_cases3)
  show ?thesis
    using turn_finish_reports_its_failures [OF call_reach call_fits t f] f empty
    by (auto simp: usize_saturating_add_def usize_max_def split: outcome.splits)
qed

text \<open>when the runtime has drained for its shutdown, no turn has a job left, and the shutdown succeeds
  exactly when every closure failure has been returned by the turn it belongs to.
\<close>

theorem shutdown_reports_unreturned_failures:
  assumes "model_reach env config (c, T, w)" and "sc_max_concurrency config < 2 ^ 64"
    and "rt_lifecycle c \<noteq> StoppedState" and "runtime_stop_ready c" and "runtime_stop_end c = (r, c')"
  shows "(r = Ok () \<longleftrightarrow> (\<forall>i t. T i = Some t \<longrightarrow> fl_failures (tu_failures t) = [])) \<and>
    (\<forall>i t. T i = Some t \<longrightarrow> tu_jobs t = [])"
proof -
  have inv: "owned c T" "accounted c T" using reachable_system_inv [OF assms(1,2)] by (simp_all add: system_inv_def)
  have none: "tu_jobs t = []" if "T i = Some t" for i t
    using owned_subset [OF inv(1) that] assms(4) by (simp add: runtime_stop_ready_def)
  have "r = Ok () \<longleftrightarrow> rt_unacknowledged_failures c = []" using assms(5) by (auto simp: runtime_stop_end_def Let_def split: if_splits)
  also have "\<dots> \<longleftrightarrow> (\<forall>i. map_of (rt_unacknowledged_failures c) i = None)"
    by (cases "rt_unacknowledged_failures c") (auto simp: map_of_eq_None_iff)
  also have "\<dots> \<longleftrightarrow> (\<forall>i t. T i = Some t \<longrightarrow> ledger_is_empty (tu_failures t))"
    using inv(2) assms(3) by (auto simp: accounted_def split: option.splits)
  also have "\<dots> \<longleftrightarrow> (\<forall>i t. T i = Some t \<longrightarrow> fl_failures (tu_failures t) = [])"
    using inv(2) ledger_ok_empty by (metis accounted_def)
  finally show ?thesis using none by blast
qed

theorem shutdown_reports_unreturned_failures_witness:
  "fst (runtime_stop_end (snd (runtime_stop_begin call_bound))) = Ok ()"
proof -
  have "model_reach call_env call_config (snd (runtime_start (runtime_control_new :: (unit, nat) runtime_control)), Map.empty, 1)"
    by (rule model_reach.step [OF model_reach.initial model_step.start [OF call_start_steps(1)]])
  then have "model_reach call_env call_config (call_bound, Map.empty(0 \<mapsto> turn_control_new), 1)"
    by (rule model_reach.step) (rule model_step.bind [OF call_start_steps(2)])
  then have reach: "model_reach call_env call_config (snd (runtime_stop_begin call_bound), Map.empty(0 \<mapsto> turn_control_new), 1)"
    by (rule model_reach.step) (rule model_step.stop_begin [OF prod.collapse [symmetric]])
  have s: "rt_lifecycle (snd (runtime_stop_begin call_bound)) \<noteq> StoppedState"
    "runtime_stop_ready (snd (runtime_stop_begin call_bound))" by code_simp+
  from shutdown_reports_unreturned_failures [OF reach call_fits s prod.collapse [symmetric]]
  show ?thesis by (simp add: turn_control_new_def failure_ledger_default_def)
qed

text \<open>over the task ledger, admitting a call charges the run one model request exactly when the call
  is admitted. A call rejected for its size, its context, the state of the runtime or of the turn, or
  a full queue is not charged.
\<close>

theorem admission_charges_one_attempt:
  assumes "\<And>options w. model_attempts (snd (estimator input options w)) = model_attempts w"
    and "generate_admit (ledger_env limits token_mode instant_max) config so b estimator default_timeout call_id call_mode input options
      c t w = (r, c', t', w')"
  shows "model_attempts w' = model_attempts w + (if is_ok r then 1 else 0)"
  using assms by (rule ledger_budget.generate_admit_counts)

definition call_schema :: "nat schema_ops" where
  "call_schema = \<lparr>so_json = \<lparr>js_is_object = (\<lambda>_. True), js_is_boolean = (\<lambda>_. False), js_from_str = (\<lambda>s. Some (length s))\<rparr>,
     so_compile = (\<lambda>schema. Some (\<lambda>v. v \<le> schema)), so_value_text = (\<lambda>_. ''{}''), so_response_length = (\<lambda>_. Some 9),
     so_request_length = (\<lambda>_. Some 9), so_options_length = (\<lambda>_. Some 9)\<rparr>"

definition call_turn_budget :: "'b \<Rightarrow> 'b turn_budget" where
  "call_turn_budget scope = \<lparr>tg_scope = scope, tg_explicit = False, tg_expected_turn = None, tg_identity = sample_identity\<rparr>"

definition call_input :: "nat generation_request" where
  "call_input = \<lparr>rg_messages = [User ''q''], rg_constraint = JsonSchema ''answer'' 3\<rparr>"

definition call_options :: generation_options where
  "call_options = \<lparr>go_context = None, go_max_tokens = Some 5, go_timeout = None, go_limits = \<lparr>gl_max_output_bytes = 20, gl_max_tool_calls = 2\<rparr>\<rparr>"

definition call_estimate :: "(nat, duration \<times> ledger_state) estimator" where
  "call_estimate request options w =
     (Ok \<lparr>te_input_tokens = 9, te_output_tokens = 5, te_input_evidence = Estimate, te_output_evidence = Estimate\<rparr>, w)"

theorem admission_charges_one_attempt_witness:
  "model_attempts (snd (snd (snd (generate_admit (ledger_env sample_limits Soft 1000) call_config call_schema
      (call_turn_budget 1) call_estimate 20 ''a'' Complete call_input call_options
      (snd (runtime_start (runtime_control_new :: (u64, nat) runtime_control))) turn_control_new (8, sample_running))))) =
   model_attempts (8, sample_running) + 1"
proof -
  let ?g = "generate_admit (ledger_env sample_limits Soft 1000) call_config call_schema
      (call_turn_budget 1) call_estimate 20 ''a'' Complete call_input call_options
      (snd (runtime_start (runtime_control_new :: (u64, nat) runtime_control))) turn_control_new (8, sample_running)"
  define request where "request = estimate_request \<lparr>te_input_tokens = 9, te_output_tokens = 5,
      te_input_evidence = Estimate, te_output_evidence = Estimate\<rparr>"
  define s where "s = sample_running\<lparr>st_active_time := 2, st_last_clock := 8,
      st_run := map_option (\<lambda>run. run\<lparr>rs_report := (rs_report run)\<lparr>rr_active_time := 2\<rparr>\<rparr>) (st_run sample_running)\<rparr>"
  have c: "check_active sample_limits 8 1 sample_running = (Ok (), s)"
    by (simp add: s_def sample_running_eq check_active_def sample_eval)
  have d: "remaining_time sample_limits 8 1 s = (Ok 98, s)"
    unfolding s_def by (simp add: sample_running_eq remaining_time_def dur_sub_def sample_eval)
  have "is_ok (fst (reserve sample_limits Soft 8 1 request s))"
    unfolding s_def request_def
    by (simp add: sample_running_eq estimate_request_def with_token_evidence_def sample_eval)
  then obtain k u where r: "reserve sample_limits Soft 8 1 request s = (Ok k, u)"
    by (cases "reserve sample_limits Soft 8 1 request s") (auto simp: is_ok_iff)
  have ok: "is_ok (fst ?g)"
    using c d r
    by (simp add: generate_admit_def validate_request_size_def call_schema_def call_config_def request_estimate_def
      check_context_def call_turn_budget_def ledger_env_def on_ledger_def call_estimate_def admit_job_def
      runtime_start_def runtime_control_new_def turn_control_new_def admission_deadline_def instant_add_def
      effective_timeout_def call_options_def reserve_attempt_def Let_def checked_add_def request_def [symmetric])
  have keeps: "model_attempts (snd (call_estimate call_input options w)) = model_attempts w" for options w
    by (simp add: call_estimate_def)
  obtain r c t w where g: "?g = (r, c, t, w)" by (metis prod_cases4)
  from admission_charges_one_attempt [OF keeps g] ok show ?thesis unfolding g by simp
qed

section \<open>Drivers\<close>

definition call_response :: "nat generation_response" where
  "call_response = \<lparr>rs_content = Some ''yes'', rs_tool_calls = [], rs_incomplete_tool_calls = [],
     rs_finish_reason = Stop, rs_usage = \<lparr>tk_input_tokens = Some 7, tk_output_tokens = None, tk_total_tokens = None\<rparr>\<rparr>"

definition call_event :: "nat session_event" where
  "call_event = \<lparr>se_event_id = ''e'', se_session_id = ''session'', se_turn_id = ''turn'', se_generation_id = None,
     se_message_id = None, se_seq = 0, se_kind = ModelRequestEvent (model_request_of ''a'' Stream call_input call_options)\<rparr>"

text \<open>The provider sends its text in one delta at time 5 and then finishes.\<close>

definition call_driver :: "(unit, nat, unit, nat) driver" where
  "call_driver = \<lparr>dv_env = call_env, dv_config = call_config, dv_schema = call_schema,
     dv_budget = call_turn_budget (), dv_job_id = 0, dv_deadline = 11, dv_budget_deadline = None,
     dv_others = (\<lambda>c w. (c, w)), dv_append = (\<lambda>_ w. Some (Ok call_event, w)), dv_cancelled = (\<lambda>_. False),
     dv_closed = (\<lambda>_. False),
     dv_capabilities = (\<lambda>w. (Ok (text_only\<lparr>mc_json_schema := \<lparr>gs_complete = Supported, gs_stream = Supported\<rparr>\<rparr>), w)),
     dv_generate = (\<lambda>_ _ w. (Ok call_response, w)), dv_open_stream = (\<lambda>_ _ w. (Ok (), w)),
     dv_next = (\<lambda>w. if w = 5 then (Some (Ok (StreamDelta (TextDelta ''yes''))), 6)
       else (Some (Ok (StreamFinished call_response)), w)),
     dv_send = (\<lambda>_ w. (True, w))\<rparr>"

definition call_state :: "(unit, nat, unit, nat) driver_state" where
  "call_state = \<lparr>ds_control = fst call_first, ds_budget = job_budget_new (), ds_world = 5, ds_history = []\<rparr>"

definition call_request :: "model_call_mode \<Rightarrow> nat model_request" where
  "call_request call_mode = model_request_of ''a'' call_mode call_input call_options"

lemma usize_saturating_add_code [code]:
  "usize_saturating_add a b = (if int a + int b \<le> 2 ^ 64 - 1 then a + b else usize_max)"
  by (simp add: usize_saturating_add_def usize_max_def min_def)

lemma usize_checked_add_code [code]:
  "usize_checked_add a b = (if int a + int b \<le> 2 ^ 64 - 1 then Some (a + b) else None)"
  by (simp add: usize_checked_add_def usize_max_def)

text \<open>The states of the two runs between their stages.\<close>

definition call_recorded :: "model_call_mode \<Rightarrow> (unit, nat, unit, nat) driver_state" where
  "call_recorded call_mode = snd (the (record_request call_driver (call_request call_mode) (call_mode = Stream) WakeReady call_state))"

definition call_resolved :: "(unit, nat, unit, nat) driver_state" where
  "call_resolved = snd (the (resolve_complete call_driver (call_request Complete) call_options [WakeReady] (call_recorded Complete)))"

definition call_streamed :: "(unit, nat, unit, nat) driver_state" where
  "call_streamed = snd (the (resolve_stream call_driver (call_request Stream) call_options
     [WakeReady, WakeReady, WakeReady] (call_recorded Stream)))"

lemma call_stages:
  "record_request call_driver (call_request Complete) False WakeReady call_state = Some (Ok None, call_recorded Complete)"
  "wait_for_slot call_driver False [WakeReady] (call_recorded Complete) = Some (Ok (), [WakeReady], call_recorded Complete)"
  "resolve_complete call_driver (call_request Complete) call_options [WakeReady] (call_recorded Complete) =
     Some (Ok (CrSucceeded call_response), call_resolved)"
  by code_simp+

lemma call_stream_stages:
  "record_request call_driver (call_request Stream) True WakeReady call_state = Some (Ok None, call_recorded Stream)"
  "wait_for_slot call_driver True [WakeReady, WakeReady, WakeReady] (call_recorded Stream) =
     Some (Ok (), [WakeReady, WakeReady, WakeReady], call_recorded Stream)"
  "resolve_stream call_driver (call_request Stream) call_options [WakeReady, WakeReady, WakeReady] (call_recorded Stream) =
     Some (Ok (SrSucceeded call_response \<lparr>gp_content = Some ''yes'', gp_tool_calls = []\<rparr>), call_streamed)"
  by code_simp+

lemma call_closed:
  "map_option fst (close_call call_driver (call_request Complete) part
     (successful_result (call_request Complete) call_response) (Ok call_response) call_resolved) = Some (Ok call_response)"
  "map_option fst (close_call call_driver (call_request Stream) part
     (successful_result (call_request Stream) call_response) (Ok call_response) call_streamed) = Some (Ok call_response)"
  by code_simp+

lemma call_complete_runs:
  "map_option fst (run_complete call_driver (call_request Complete) call_options [WakeReady, WakeReady] call_state)
     = Some (Ok call_response)"
  by (simp add: run_complete_def run_resolution_def call_stages complete_output_def call_closed Let_def)

lemma call_stream_runs:
  "map_option fst (run_stream call_driver (call_request Stream) call_options
     [WakeReady, WakeReady, WakeReady, WakeReady] call_state) = Some (Ok call_response)"
  by (simp add: run_stream_def run_resolution_def call_stream_stages stream_output_def call_closed Let_def)

text \<open>C17: unless its driver panics, what the caller of a complete or a streamed call receives is what the recorder confirmed, where
  an append is confirmed when the recorder itself answers it with an event, and, under a bound
  budget, one of the bound session and turn. Either the recorder did not confirm the request, and the
  caller receives that very refusal and the provider is never entered; or the request is confirmed,
  the provider is entered at most once and only after that, and exactly one result is appended: if the
  recorder confirms it, a response is returned exactly when the result is its success and an error
  otherwise, and if it does not, the caller receives that refusal with the result in it.
\<close>

theorem callers_receive_what_is_recorded:
  assumes "run_complete d request options wakes s = Some (r, s') \<or> run_stream d request options wakes s = Some (r, s')"
    and "r \<noteq> Panic"
  shows "(\<exists>asked source. ds_history s' = ds_history s @ [Recorded (RecRequest request) asked] \<and>
        \<not> append_confirmed d asked \<and> append_refusal d asked source \<and>
        r = Err (GwRecording (request_failure request source))) \<or>
     (\<exists>asked called deltas result answer.
        ds_history s' = ds_history s @ [Recorded (RecRequest request) asked] @ called @ map Forwarded deltas @
          [Recorded (RecResult result) answer] \<and>
        append_confirmed d asked \<and> (called = [] \<and> deltas = [] \<or> called = [Entered]) \<and>
        (if append_confirmed d answer then (case ms_outcome result of
             ModelSucceeded response \<Rightarrow> r = Ok response
           | ModelFailed _ _ _ _ _ _ \<Rightarrow> \<exists>e. r = Err e)
         else \<exists>source. append_refusal d answer source \<and>
           r = Err (GwRecording (result_failure request result source))))"
  using assms run_complete_recorded [of d request options wakes s r s'] run_stream_recorded [of d request options wakes s r s']
  unfolding recorded_call_def answers_def by blast

text \<open>A recorder that refuses every record: the call returns the refusal of its request.\<close>

definition call_refused :: "(unit, nat, unit, nat) driver" where
  "call_refused = call_driver\<lparr>dv_append := \<lambda>_ w. Some (Err RtStopped, w)\<rparr>"

theorem callers_receive_what_is_recorded_witness:
  "(case run_complete call_driver (call_request Complete) call_options [WakeReady, WakeReady] call_state of
     Some (r, s') \<Rightarrow> r = Ok call_response \<and> (\<exists>result answer. Recorded (RecResult result) answer \<in> set (ds_history s') \<and>
       append_confirmed call_driver answer \<and> ms_outcome result = ModelSucceeded call_response) | None \<Rightarrow> False) \<and>
   (case run_complete call_refused (call_request Complete) call_options [WakeReady, WakeReady] call_state of
     Some (r, s') \<Rightarrow> r = Err (GwRecording (request_failure (call_request Complete) (MfSession RtStopped))) \<and>
       Entered \<notin> set (ds_history s') | None \<Rightarrow> False)"
proof -
  obtain s' where c: "run_complete call_driver (call_request Complete) call_options [WakeReady, WakeReady] call_state =
      Some (Ok call_response, s')"
    using call_complete_runs by auto
  from callers_receive_what_is_recorded [OF disjI1 [OF c]] have
    "\<exists>result answer. Recorded (RecResult result) answer \<in> set (ds_history s') \<and> append_confirmed call_driver answer \<and>
       ms_outcome result = ModelSucceeded call_response"
    by (auto split: if_splits model_recorded_outcome.splits)
  moreover have "case run_complete call_refused (call_request Complete) call_options [WakeReady, WakeReady] call_state of
     Some (r, s') \<Rightarrow> r = Err (GwRecording (request_failure (call_request Complete) (MfSession RtStopped))) \<and>
       Entered \<notin> set (ds_history s') | None \<Rightarrow> False"
    by code_simp
  ultimately show ?thesis using c by auto
qed

text \<open>C18: a streamed call that succeeds forwarded its deltas to the consumer in the order the accumulator
  took them, nothing else between the entry of the provider and the recorded success, its request
  and its success are both confirmed by the recorder, and the final response is the one these deltas
  add up to.
\<close>

theorem streams_add_up:
  assumes "run_stream d request options wakes s = Some (Ok response, s')"
  shows "\<exists>asked deltas answer acc. ds_history s' = ds_history s @ [Recorded (RecRequest request) asked, Entered] @
      map Forwarded deltas @ [Recorded (RecResult (successful_result request response)) answer] \<and>
    append_confirmed d asked \<and> append_confirmed d answer \<and>
    for_each push deltas (accumulator_new (go_limits options)) = Ok acc \<and>
    accumulator_response (so_json (dv_schema d)) acc (rs_finish_reason response) (rs_usage response) = Ok response"
proof -
  obtain asked deltas answer acc where h: "ds_history s' = ds_history s @ [Recorded (RecRequest request) asked, Entered] @
      map Forwarded deltas @ [Recorded (RecResult (successful_result request response)) answer]"
    "append_confirmed d asked" "append_confirmed d answer"
    "for_each push deltas (accumulator_new (go_limits options)) = Ok acc"
    and v: "verify_terminal (so_json (dv_schema d)) acc response = Ok ()"
    using run_stream_recorded [OF assms] by auto
  from v have "accumulator_response (so_json (dv_schema d)) acc (rs_finish_reason response) (rs_usage response) = Ok response"
    by (auto simp: verify_terminal_def split: if_splits)
  with h show ?thesis by blast
qed

theorem streams_add_up_witness:
  "case run_stream call_driver (call_request Stream) call_options [WakeReady, WakeReady, WakeReady, WakeReady] call_state of
     Some (Ok response, s') \<Rightarrow> \<exists>deltas answer. Recorded (RecResult (successful_result (call_request Stream) response)) answer
       # map Forwarded deltas = last (ds_history s') # butlast (drop 2 (ds_history s')) | _ \<Rightarrow> False"
proof -
  obtain s' where c: "run_stream call_driver (call_request Stream) call_options [WakeReady, WakeReady, WakeReady, WakeReady]
      call_state = Some (Ok call_response, s')"
    using call_stream_runs by auto
  have empty: "ds_history call_state = []" by (simp add: call_state_def)
  from streams_add_up [OF c] show ?thesis unfolding c empty by (auto simp: butlast_append)
qed




text \<open>C20: the type of a finished response is the one its request asked for: plain text calls no tools, a
  response to a JSON schema parses to a value the compiled schema accepts, and every tool call names
  a tool of the request and carries arguments that tool's schema accepts.
\<close>

theorem responses_have_the_requested_type:
  assumes "run_complete d request options wakes s = Some (Ok response, s') \<or>
      run_stream d request options wakes s = Some (Ok response, s')"
    and "rs_finish_reason response = Stop \<or> rs_finish_reason response = finish_reason.ToolCalls"
  shows "case rg_constraint (mq_input request) of
      TextOutput \<Rightarrow> rs_tool_calls response = []
    | JsonSchema _ schema \<Rightarrow> (\<exists>parsed valid.
        js_from_str (so_json (dv_schema d)) (unwrap_or_empty (rs_content response)) = Some parsed \<and>
        so_compile (dv_schema d) schema = Some valid \<and> valid parsed)
    | NativeTools tools _ \<Rightarrow> (\<forall>call \<in> set (rs_tool_calls response). \<exists>tool valid. tool \<in> set tools \<and>
        td_name tool = tc_name call \<and> so_compile (dv_schema d) (td_parameters tool) = Some valid \<and>
        valid (tc_arguments call))"
proof -
  have "validate_response (dv_schema d) (mq_input request) response (mo_limits (mq_options request)) = Ok ()"
    using assms(1) run_complete_recorded [of d request options wakes s "Ok response" s']
      run_stream_recorded [of d request options wakes s "Ok response" s'] by auto
  from validate_response_shape [OF this assms(2)] show ?thesis .
qed

theorem responses_have_the_requested_type_witness:
  "\<exists>parsed valid. js_from_str (so_json call_schema) ''yes'' = Some parsed \<and> so_compile call_schema 3 = Some valid \<and> valid parsed"
proof -
  obtain s' where c: "run_complete call_driver (call_request Complete) call_options [WakeReady, WakeReady] call_state =
      Some (Ok call_response, s')"
    using call_complete_runs by auto
  have fin: "rs_finish_reason call_response = Stop \<or> rs_finish_reason call_response = finish_reason.ToolCalls"
    by (simp add: call_response_def)
  from responses_have_the_requested_type [OF disjI1 [OF c] fin] show ?thesis
    by (simp add: call_request_def model_request_of_def call_input_def call_driver_def call_response_def unwrap_or_empty_def)
qed

end
