(* ===== verification/OrderedSets.thy ===== *)
theory OrderedSets
  imports Prelude
begin

text \<open>
  \<open>std::collections::BTreeSet\<close> as the strictly increasing list of its elements, the
  \<open>collect\<close> calls that build ordered sets and maps from iterators, and the
  \<open>entry(k).or_default()\<close> update of an ordered map.
\<close>

type_synonym 'a btree_set = "'a list"

definition bs_wf :: "'a::linorder btree_set \<Rightarrow> bool" where
  "bs_wf s \<longleftrightarrow> sorted_wrt (<) s"

definition bs_insert :: "'a::linorder \<Rightarrow> 'a btree_set \<Rightarrow> 'a btree_set" where
  "bs_insert x s = (if x \<in> set s then s else insort x s)"

definition bs_collect :: "'a::linorder list \<Rightarrow> 'a btree_set" where
  "bs_collect xs = fold bs_insert xs []"

definition bt_collect :: "('k::linorder \<times> 'v) list \<Rightarrow> ('k, 'v) btree_map" where
  "bt_collect es = fold (\<lambda>(k, v). bt_insert k v) es []"

definition bt_entry :: "'k::linorder \<Rightarrow> 'v \<Rightarrow> ('v \<Rightarrow> 'v) \<Rightarrow> ('k, 'v) btree_map \<Rightarrow> ('k, 'v) btree_map" where
  "bt_entry k d f m = bt_insert k (f (case map_of m k of None \<Rightarrow> d | Some v \<Rightarrow> v)) m"

section \<open>Sets\<close>

lemma bs_wf_Nil [simp]: "bs_wf []"
  by (simp add: bs_wf_def)

lemma bs_wf_iff: "bs_wf s \<longleftrightarrow> sorted s \<and> distinct s"
  by (simp add: bs_wf_def strict_sorted_iff)

lemma bs_wf_distinct: "bs_wf s \<Longrightarrow> distinct s"
  by (simp add: bs_wf_iff)

lemma set_bs_insert [simp]: "set (bs_insert x s) = insert x (set s)"
  by (auto simp: bs_insert_def set_insort_key)

lemma bs_wf_insert [simp]: "bs_wf s \<Longrightarrow> bs_wf (bs_insert x s)"
  by (auto simp: bs_insert_def bs_wf_iff sorted_insort distinct_insort)

lemma length_bs_insert: "length (bs_insert x s) \<le> Suc (length s)"
  by (simp add: bs_insert_def)

lemma bs_wf_Cons: "bs_wf (x # s) \<longleftrightarrow> (\<forall>y \<in> set s. x < y) \<and> bs_wf s"
  by (simp add: bs_wf_def)

lemma set_bs_fold [simp]: "set (fold bs_insert xs s) = set xs \<union> set s"
  by (induction xs arbitrary: s) auto

lemma bs_wf_fold [simp]: "bs_wf s \<Longrightarrow> bs_wf (fold bs_insert xs s)"
  by (induction xs arbitrary: s) auto

lemma set_bs_collect [simp]: "set (bs_collect xs) = set xs"
  by (simp add: bs_collect_def)

lemma bs_wf_collect [simp]: "bs_wf (bs_collect xs)"
  by (simp add: bs_collect_def)

lemma bs_eq_iff: "bs_wf s \<Longrightarrow> bs_wf t \<Longrightarrow> s = t \<longleftrightarrow> set s = set t"
  by (auto simp: bs_wf_iff intro: sorted_distinct_set_unique)

section \<open>Maps\<close>

lemma map_of_bt_fold:
  "map_of (fold (\<lambda>(k, v). bt_insert k v) es m) = map_of m ++ map_of (rev es)"
  by (induction es arbitrary: m) (auto simp: map_add_def fun_eq_iff split: option.splits)

lemma bt_wf_fold: "bt_wf m \<Longrightarrow> bt_wf (fold (\<lambda>(k, v). bt_insert k v) es m)"
  by (induction es arbitrary: m) auto

lemma map_of_bt_collect: "map_of (bt_collect es) = map_of (rev es)"
  by (simp add: bt_collect_def map_of_bt_fold)

lemma bt_wf_collect [simp]: "bt_wf (bt_collect es)"
  by (simp add: bt_collect_def bt_wf_fold)

lemma keys_bt_fold: "fst ` set (fold (\<lambda>(k, v). bt_insert k v) es m) = fst ` set es \<union> fst ` set m"
  by (induction es arbitrary: m) (simp_all add: split_beta)

lemma keys_bt_collect [simp]: "fst ` set (bt_collect es) = fst ` set es"
  by (simp add: bt_collect_def keys_bt_fold)

lemma map_of_bt_collect_distinct:
  "distinct (map fst es) \<Longrightarrow> map_of (bt_collect es) = map_of es"
  by (simp add: map_of_bt_collect map_of_inject_set rev_map [symmetric])

lemma map_of_bt_entry [simp]:
  "map_of (bt_entry k d f m) = (map_of m)(k \<mapsto> f (case map_of m k of None \<Rightarrow> d | Some v \<Rightarrow> v))"
  by (simp add: bt_entry_def)

lemma keys_bt_entry [simp]: "fst ` set (bt_entry k d f m) = insert k (fst ` set m)"
  by (simp add: bt_entry_def)

lemma bt_wf_entry [simp]: "bt_wf m \<Longrightarrow> bt_wf (bt_entry k d f m)"
  by (simp add: bt_entry_def)

lemma bt_keys_bs: "bt_wf m \<longleftrightarrow> bs_wf (bt_keys m)"
  by (simp add: bt_wf_def bs_wf_def)

lemma in_map_filter: "y \<in> set (List.map_filter f xs) \<longleftrightarrow> (\<exists>x \<in> set xs. f x = Some y)"
  by (induction xs) (auto simp: List.map_filter_simps split: option.splits)

end
