(* ===== verification/PluginVocab.thy ===== *)
theory PluginVocab
  imports OrderedSets
begin

text \<open>
  The vocabulary of \<open>src/crates/plugin/plugin/src/lib.rs\<close>: plugin descriptors, provider
  candidates and bindings, and the composition errors. A \<open>PluginId\<close> and a \<open>CapabilityId\<close>
  wrap a static string and compare by its bytes, so they are strings here.
\<close>

type_synonym plugin_id = string
type_synonym capability_id = string

record provider_candidate =
  pc_capability :: capability_id
  pc_key :: string

record plugin_descriptor =
  pd_id :: plugin_id
  pd_dependencies :: "plugin_id list"
  pd_capability_dependencies :: "capability_id list"
  pd_optional_capability_dependencies :: "capability_id list"
  pd_provider :: "provider_candidate option"

definition descriptor_new :: "plugin_id \<Rightarrow> plugin_descriptor" where
  "descriptor_new i =
     \<lparr>pd_id = i, pd_dependencies = [], pd_capability_dependencies = [],
      pd_optional_capability_dependencies = [], pd_provider = None\<rparr>"

definition descriptor_provider :: "plugin_id \<Rightarrow> capability_id \<Rightarrow> string \<Rightarrow> plugin_descriptor" where
  "descriptor_provider i capability key =
     \<lparr>pd_id = i, pd_dependencies = [], pd_capability_dependencies = [],
      pd_optional_capability_dependencies = [],
      pd_provider = Some \<lparr>pc_capability = capability, pc_key = key\<rparr>\<rparr>"

definition requires_plugins :: "plugin_id list \<Rightarrow> plugin_descriptor \<Rightarrow> plugin_descriptor" where
  "requires_plugins deps d = d\<lparr>pd_dependencies := deps\<rparr>"

definition requires_capabilities :: "capability_id list \<Rightarrow> plugin_descriptor \<Rightarrow> plugin_descriptor" where
  "requires_capabilities deps d = d\<lparr>pd_capability_dependencies := deps\<rparr>"

definition uses_capabilities :: "capability_id list \<Rightarrow> plugin_descriptor \<Rightarrow> plugin_descriptor" where
  "uses_capabilities deps d = d\<lparr>pd_optional_capability_dependencies := deps\<rparr>"

text \<open>
  \<open>CapabilityRequirementSource\<close> derives its order: the composition root before every plugin,
  plugins by their ids.
\<close>

datatype capability_requirement_source = CompositionRoot | FromPlugin plugin_id

instantiation capability_requirement_source :: linorder
begin

fun less_eq_capability_requirement_source ::
    "capability_requirement_source \<Rightarrow> capability_requirement_source \<Rightarrow> bool" where
  "CompositionRoot \<le> s = True"
| "FromPlugin p \<le> CompositionRoot = False"
| "FromPlugin p \<le> FromPlugin q = (p \<le> q)"

definition less_capability_requirement_source ::
    "capability_requirement_source \<Rightarrow> capability_requirement_source \<Rightarrow> bool" where
  "s < t = (s \<le> t \<and> \<not> t \<le> (s :: capability_requirement_source))"

instance
proof
  fix a b c :: capability_requirement_source
  show "a < b \<longleftrightarrow> a \<le> b \<and> \<not> b \<le> a" by (rule less_capability_requirement_source_def)
  show "a \<le> a" by (cases a) auto
  show "a \<le> b \<Longrightarrow> b \<le> c \<Longrightarrow> a \<le> c" by (cases a; cases b; cases c) auto
  show "a \<le> b \<Longrightarrow> b \<le> a \<Longrightarrow> a = b" by (cases a; cases b) auto
  show "a \<le> b \<or> b \<le> a" by (cases a; cases b) auto
qed

end

text \<open>
  \<open>ProviderDiagnostic\<close> orders by its key, then by its owner: the pair of the two.
  \<open>ProviderBinding\<close> holds the same fields.
\<close>

type_synonym provider_diagnostic = "string \<times> plugin_id"

record provider_binding =
  pb_key :: string
  pb_owner :: plugin_id

datatype registry_kind = AgentRegistry | ToolRegistry | ToolAuthorizerRegistry | EventObserverRegistry

datatype lifecycle_phase = ConstructPhase | StartPhase | StopPhase

record lifecycle_failure =
  lf_capability :: capability_id
  lf_candidate :: string
  lf_plugin :: plugin_id
  lf_phase :: lifecycle_phase
  lf_message :: string

datatype plugin_error =
    DuplicatePlugin plugin_id
  | MissingDependency plugin_id plugin_id
  | DependencyCycle "plugin_id list"
  | MissingCapability capability_id "capability_requirement_source list"
  | AmbiguousCapability capability_id "provider_diagnostic list"
  | UnknownProvider capability_id string "provider_diagnostic list"
  | ConflictingSelection capability_id "string list"
  | DuplicateProviderCandidate capability_id string plugin_id plugin_id
  | ExactDependencyOnProvider plugin_id plugin_id capability_id
  | MissingProviderFactory capability_id plugin_id
  | DuplicateProviderFactory capability_id plugin_id
  | UnexpectedProviderFactory plugin_id "capability_id option" capability_id
  | MountFailed plugin_id string
  | DuplicateKey registry_kind string plugin_id plugin_id
  | ActivationFailed lifecycle_failure "lifecycle_failure list"

end
