(* ===== verification/PluginGraph.thy ===== *)
theory PluginGraph
  imports PluginVocab
begin

text \<open>
  Dependency resolution, \<open>src/crates/plugin/plugin/src/graph.rs\<close>: the identity checks, the
  ordered topological sort and the search for the smallest cyclic component. An \<open>expect\<close> on
  an absent entry and a \<open>usize\<close> that would go below zero are \<open>Panic\<close>. The two recursive
  searches carry fuel; running out of it is a \<open>Panic\<close> too, and \<open>PluginGraphInv\<close> shows that
  the fuel given, one more than the number of plugins, is never used up.
\<close>

type_synonym dependency_map = "(plugin_id, plugin_id btree_set) btree_map"

section \<open>Identity checks\<close>

definition validate_duplicate_plugins :: "plugin_descriptor list \<Rightarrow> (unit, plugin_error) outcome" where
  "validate_duplicate_plugins descriptors =
     (let occurrences = fold (\<lambda>d. bt_entry (pd_id d) 0 (\<lambda>n. n + (1 :: nat))) descriptors []
      in case List.find (\<lambda>(_, count). 1 < count) occurrences of
           Some (plugin, _) \<Rightarrow> Err (DuplicatePlugin plugin)
         | None \<Rightarrow> Ok ())"

definition validate_missing_dependencies :: "plugin_descriptor list \<Rightarrow> (unit, plugin_error) outcome" where
  "validate_missing_dependencies descriptors =
     (let known = bs_collect (map pd_id descriptors);
          missing = fold (\<lambda>d. fold (\<lambda>dependency missing.
              if dependency \<notin> set known then bs_insert (pd_id d, dependency) missing else missing)
            (pd_dependencies d)) descriptors []
      in case missing of
           (plugin, dependency) # _ \<Rightarrow> Err (MissingDependency plugin dependency)
         | [] \<Rightarrow> Ok ())"

section \<open>Topological order\<close>

type_synonym kahn_state = "(plugin_id, nat) btree_map \<times> plugin_id btree_set"

definition dependency_tables :: "dependency_map \<Rightarrow> (plugin_id, nat) btree_map \<times> dependency_map" where
  "dependency_tables dependencies_by_plugin =
     fold (\<lambda>(plugin, dependencies) (indegrees, dependents).
         (bt_insert plugin (length dependencies) indegrees,
          fold (\<lambda>dependency. bt_entry dependency [] (bs_insert plugin)) dependencies dependents))
       dependencies_by_plugin ([], [])"

definition release_dependent :: "plugin_id \<Rightarrow> kahn_state \<Rightarrow> (kahn_state, plugin_error) outcome" where
  "release_dependent dependent = (\<lambda>(indegrees, ready).
     case map_of indegrees dependent of
       None \<Rightarrow> Panic
     | Some indegree \<Rightarrow>
         if indegree = 0 then Panic
         else Ok (bt_modify dependent (\<lambda>n. n - 1) indegrees,
                  if indegree - 1 = 0 then bs_insert dependent ready else ready))"

definition kahn_size :: "kahn_state \<Rightarrow> nat" where
  "kahn_size = (\<lambda>(indegrees, ready). sum_list (bt_values indegrees) + length ready)"

lemma sum_bt_decrement_le: "sum_list (bt_values (bt_modify k (\<lambda>n. n - 1) m)) \<le> sum_list (bt_values m)"
  for m :: "('k, nat) btree_map"
  by (induction m) (auto simp: bt_modify_def)

lemma sum_bt_decrement:
  fixes m :: "('k, nat) btree_map"
  assumes "map_of m k = Some n" and "0 < n"
  shows "Suc (sum_list (bt_values (bt_modify k (\<lambda>n. n - 1) m))) \<le> sum_list (bt_values m)"
  using assms(1)
proof (induction m)
  case (Cons e m)
  show ?case
  proof (cases "fst e = k")
    case True
    with Cons.prems assms(2) have "0 < snd e" by (cases e) auto
    with True sum_bt_decrement_le [of k m] show ?thesis by (simp add: bt_modify_def)
  next
    case False
    with Cons show ?thesis by (cases e) (auto simp: bt_modify_def)
  qed
qed simp

lemma kahn_size_release: "release_dependent d s = Ok t \<Longrightarrow> kahn_size t \<le> kahn_size s"
  using sum_bt_decrement [of "fst s" d] length_bs_insert [of d "snd s"]
  by (cases s) (fastforce simp: release_dependent_def kahn_size_def split: option.splits if_splits)

lemma kahn_size_releases: "for_each release_dependent ds s = Ok t \<Longrightarrow> kahn_size t \<le> kahn_size s"
  using for_each_inv [of release_dependent ds s t "\<lambda>u. kahn_size u \<le> kahn_size s"] kahn_size_release
  by (metis order_refl order_trans)

text \<open>
  The \<open>while let Some(plugin) = ready.pop_first()\<close> loop. Every turn removes one plugin from
  \<open>ready\<close>, and a plugin enters \<open>ready\<close> only when its indegree falls by one, so the sum of the
  indegrees and the size of \<open>ready\<close> is a measure.
\<close>

function kahn_loop ::
    "(plugin_id, nat list) btree_map \<Rightarrow> dependency_map \<Rightarrow> kahn_state \<Rightarrow> nat list \<Rightarrow>
     (nat list, plugin_error) outcome" where
  "kahn_loop indices dependents (indegrees, []) order = Ok order"
| "kahn_loop indices dependents (indegrees, plugin # ready) order =
     (case map_of indices plugin of
        None \<Rightarrow> Panic
      | Some [] \<Rightarrow> Panic
      | Some (index # _) \<Rightarrow>
          (case for_each release_dependent
                  (case map_of dependents plugin of None \<Rightarrow> [] | Some entries \<Rightarrow> entries)
                  (indegrees, ready) of
             Ok s \<Rightarrow> kahn_loop indices dependents s (order @ [index])
           | Err e \<Rightarrow> Err e
           | Panic \<Rightarrow> Panic))"
  by pat_completeness auto

termination
proof (relation "measure (\<lambda>(_, _, s, _). kahn_size s)")
  fix indices :: "(plugin_id, nat list) btree_map" and dependents indegrees ready order
    and plugin :: plugin_id and entries index rest s
  assume "for_each release_dependent
      (case map_of dependents plugin of None \<Rightarrow> [] | Some entries \<Rightarrow> entries)
      (indegrees, ready) = Ok s"
  then have "kahn_size s \<le> kahn_size (indegrees, ready)" by (rule kahn_size_releases)
  then show "((indices, dependents, s, order @ [index]),
      (indices, dependents, (indegrees, plugin # ready), order))
    \<in> measure (\<lambda>(_, _, s, _). kahn_size s)"
    by (simp add: kahn_size_def split_beta)
qed simp

section \<open>The smallest cyclic component\<close>

text \<open>The pair is the visited set and the finish order.\<close>

type_synonym search_state = "plugin_id btree_set \<times> plugin_id list"

fun visit_dependencies ::
    "dependency_map \<Rightarrow> nat \<Rightarrow> plugin_id \<Rightarrow> search_state \<Rightarrow> (search_state, plugin_error) outcome" where
  "visit_dependencies dependencies fuel plugin (visited, finish_order) =
     (if plugin \<in> set visited then Ok (visited, finish_order)
      else case fuel of
        0 \<Rightarrow> Panic
      | Suc fuel' \<Rightarrow>
          and_then
            (for_each (visit_dependencies dependencies fuel')
               (case map_of dependencies plugin of None \<Rightarrow> [] | Some required \<Rightarrow> required)
               (bs_insert plugin visited, finish_order))
            (\<lambda>(visited', finish_order'). Ok (visited', finish_order' @ [plugin])))"

text \<open>The pair is the visited set and the component.\<close>

fun collect_component ::
    "dependency_map \<Rightarrow> nat \<Rightarrow> plugin_id \<Rightarrow> search_state \<Rightarrow> (search_state, plugin_error) outcome" where
  "collect_component reverse fuel plugin (visited, component) =
     (if plugin \<in> set visited then Ok (visited, component)
      else case fuel of
        0 \<Rightarrow> Panic
      | Suc fuel' \<Rightarrow>
          for_each (collect_component reverse fuel')
            (case map_of reverse plugin of None \<Rightarrow> [] | Some dependents \<Rightarrow> dependents)
            (bs_insert plugin visited, component @ [plugin]))"

definition reverse_edge ::
    "plugin_id \<Rightarrow> plugin_id \<Rightarrow> dependency_map \<Rightarrow> (dependency_map, plugin_error) outcome" where
  "reverse_edge plugin dependency reverse =
     (if dependency \<in> fst ` set reverse
      then Ok (bt_modify dependency (bs_insert plugin) reverse) else Panic)"

definition reverse_edges ::
    "plugin_id \<times> plugin_id list \<Rightarrow> dependency_map \<Rightarrow> (dependency_map, plugin_error) outcome" where
  "reverse_edges = (\<lambda>(plugin, required). for_each (reverse_edge plugin) required)"

definition reverse_dependencies :: "dependency_map \<Rightarrow> (dependency_map, plugin_error) outcome" where
  "reverse_dependencies dependencies =
     for_each reverse_edges dependencies (map (\<lambda>(plugin, _). (plugin, [])) dependencies)"

definition is_self_cycle :: "dependency_map \<Rightarrow> plugin_id list \<Rightarrow> bool" where
  "is_self_cycle dependencies component \<longleftrightarrow>
     length component = 1 \<and>
     (case map_of dependencies (component ! 0) of
        None \<Rightarrow> False
      | Some required \<Rightarrow> component ! 0 \<in> set required)"

definition component_step ::
    "dependency_map \<Rightarrow> dependency_map \<Rightarrow> plugin_id \<Rightarrow>
     plugin_id btree_set \<times> plugin_id list list \<Rightarrow>
     (plugin_id btree_set \<times> plugin_id list list, plugin_error) outcome" where
  "component_step dependencies reverse plugin = (\<lambda>(visited, cyclic_components).
     if plugin \<in> set visited then Ok (visited, cyclic_components)
     else and_then (collect_component reverse (Suc (length dependencies)) plugin (visited, []))
       (\<lambda>(visited', collected).
          let component = sort collected
          in Ok (visited',
                 if 1 < length component \<or> is_self_cycle dependencies component
                 then cyclic_components @ [component] else cyclic_components)))"

definition smallest_cyclic_component :: "dependency_map \<Rightarrow> (plugin_id list option, plugin_error) outcome" where
  "smallest_cyclic_component dependencies =
     and_then (for_each (visit_dependencies dependencies (Suc (length dependencies)))
                 (bt_keys dependencies) ([], []))
       (\<lambda>(_, finish_order).
          and_then (reverse_dependencies dependencies)
            (\<lambda>reverse.
               and_then (for_each (component_step dependencies reverse) (List.rev finish_order) ([], []))
                 (\<lambda>(_, cyclic_components).
                    Ok (case cyclic_components of
                          [] \<Rightarrow> None
                        | _ \<Rightarrow> Some (Min (set cyclic_components))))))"

section \<open>Resolution\<close>

definition resolve_order ::
    "nat \<Rightarrow> (plugin_id, nat list) btree_map \<Rightarrow> dependency_map \<Rightarrow> (nat list, plugin_error) outcome" where
  "resolve_order node_count indices dependencies_by_plugin =
     (let (indegrees, dependents) = dependency_tables dependencies_by_plugin;
          ready = bs_collect (map fst (filter (\<lambda>(_, indegree). indegree = 0) indegrees))
      in and_then (kahn_loop indices dependents (indegrees, ready) [])
           (\<lambda>order.
              if length order \<noteq> node_count
              then and_then (smallest_cyclic_component dependencies_by_plugin)
                     (\<lambda>found. case found of None \<Rightarrow> Panic | Some plugins \<Rightarrow> Err (DependencyCycle plugins))
              else Ok order))"

definition resolve_exact :: "plugin_descriptor list \<Rightarrow> (nat list, plugin_error) outcome" where
  "resolve_exact descriptors =
     resolve_order (length descriptors)
       (bt_collect (map (\<lambda>(index, d). (pd_id d, [index])) (enumerate 0 descriptors)))
       (bt_collect (map (\<lambda>d. (pd_id d, bs_collect (pd_dependencies d))) descriptors))"

definition active_dependencies ::
    "plugin_id btree_set \<Rightarrow> dependency_map \<Rightarrow> plugin_descriptor \<Rightarrow> plugin_id btree_set" where
  "active_dependencies active additional_dependencies d =
     (let dependencies = bs_collect (filter (\<lambda>p. p \<in> set active) (pd_dependencies d))
      in case map_of additional_dependencies (pd_id d) of
           None \<Rightarrow> dependencies
         | Some additional \<Rightarrow> fold bs_insert additional dependencies)"

definition resolve_active ::
    "plugin_descriptor list \<Rightarrow> plugin_id btree_set \<Rightarrow> dependency_map \<Rightarrow>
     (nat list, plugin_error) outcome" where
  "resolve_active descriptors active additional_dependencies =
     resolve_order (length active)
       (bt_collect (map (\<lambda>(index, d). (pd_id d, [index]))
          (filter (\<lambda>(_, d). pd_id d \<in> set active) (enumerate 0 descriptors))))
       (bt_collect (map (\<lambda>d. (pd_id d, active_dependencies active additional_dependencies d))
          (filter (\<lambda>d. pd_id d \<in> set active) descriptors)))"

end
