(* ===== verification/PluginCompose.thy ===== *)
theory PluginCompose
  imports PluginGraph
begin

text \<open>
  The resolution part of \<open>Registrar::finish\<close> in \<open>src/crates/plugin/plugin/src/lib.rs\<close>: the
  provider checks, the explicit selections, the fixpoint that binds every required capability
  to its only candidate, and the order of the active plugins. It is everything \<open>finish\<close> does
  before it mounts the first plugin.
\<close>

section \<open>Provider checks\<close>

definition provides :: "plugin_descriptor \<Rightarrow> capability_id \<Rightarrow> bool" where
  "provides d capability =
     (case pd_provider d of None \<Rightarrow> False | Some c \<Rightarrow> pc_capability c = capability)"

definition provider_diagnostics :: "plugin_descriptor list \<Rightarrow> capability_id \<Rightarrow> provider_diagnostic list" where
  "provider_diagnostics descriptors capability =
     bs_collect (List.map_filter (\<lambda>d. case pd_provider d of
         None \<Rightarrow> None
       | Some c \<Rightarrow> if pc_capability c = capability then Some (pc_key c, pd_id d) else None) descriptors)"

definition validate_provider_candidates :: "plugin_descriptor list \<Rightarrow> (unit, plugin_error) outcome" where
  "validate_provider_candidates descriptors =
     (let providers = fold (\<lambda>d providers. case pd_provider d of
              None \<Rightarrow> providers
            | Some c \<Rightarrow> bt_entry (pc_capability c, pc_key c) [] (bs_insert (pd_id d)) providers)
          descriptors []
      in case List.find (\<lambda>(_, owners). 1 < length owners) providers of
           None \<Rightarrow> Ok ()
         | Some ((capability, candidate), incumbent # challenger # _) \<Rightarrow>
             Err (DuplicateProviderCandidate capability candidate incumbent challenger)
         | Some _ \<Rightarrow> Panic)"

definition validate_exact_provider_dependencies :: "plugin_descriptor list \<Rightarrow> (unit, plugin_error) outcome" where
  "validate_exact_provider_dependencies descriptors =
     (let providers = bt_collect (List.map_filter (\<lambda>d. case pd_provider d of
              None \<Rightarrow> None | Some c \<Rightarrow> Some (pd_id d, pc_capability c)) descriptors);
          invalid = fold (\<lambda>d. fold (\<lambda>dependency invalid. case map_of providers dependency of
              None \<Rightarrow> invalid
            | Some capability \<Rightarrow> bs_insert (pd_id d, dependency, capability) invalid)
            (pd_dependencies d)) descriptors []
      in case invalid of
           [] \<Rightarrow> Ok ()
         | (plugin, dependency, capability) # _ \<Rightarrow>
             Err (ExactDependencyOnProvider plugin dependency capability))"

section \<open>Explicit selections\<close>

type_synonym bindings = "(capability_id, provider_binding) btree_map"
type_synonym selections = "(capability_id, string btree_set) btree_map"

definition explicit_selections :: "(capability_id \<times> string) list \<Rightarrow> selections" where
  "explicit_selections selections =
     fold (\<lambda>(capability, candidate). bt_entry capability [] (bs_insert candidate)) selections []"

definition validate_selections :: "selections \<Rightarrow> (unit, plugin_error) outcome" where
  "validate_selections explicit =
     (case List.find (\<lambda>(_, selections). 1 < length selections) explicit of
        Some (capability, selections) \<Rightarrow> Err (ConflictingSelection capability selections)
      | None \<Rightarrow> Ok ())"

definition bind_selection ::
    "plugin_descriptor list \<Rightarrow> capability_id \<times> string btree_set \<Rightarrow> bindings \<Rightarrow>
     (bindings, plugin_error) outcome" where
  "bind_selection descriptors = (\<lambda>(capability, selections) bindings.
     if length selections \<noteq> 1 then Ok bindings
     else case selections of
       [] \<Rightarrow> Panic
     | selected # _ \<Rightarrow>
         (case List.find (\<lambda>d. case pd_provider d of
                  None \<Rightarrow> False
                | Some c \<Rightarrow> pc_capability c = capability \<and> pc_key c = selected) descriptors of
            Some d \<Rightarrow>
              (case pd_provider d of
                 None \<Rightarrow> Panic
               | Some c \<Rightarrow> Ok (bt_insert capability \<lparr>pb_key = pc_key c, pb_owner = pd_id d\<rparr> bindings))
          | None \<Rightarrow>
              Err (UnknownProvider capability selected (provider_diagnostics descriptors capability))))"

section \<open>Required capabilities\<close>

type_synonym requirements = "(capability_id, capability_requirement_source btree_set) btree_map"

definition root_requirements :: "capability_id list \<Rightarrow> requirements" where
  "root_requirements capabilities =
     fold (\<lambda>capability. bt_entry capability [] (bs_insert CompositionRoot)) capabilities []"

definition is_active :: "bindings \<Rightarrow> plugin_descriptor \<Rightarrow> bool" where
  "is_active bindings d \<longleftrightarrow>
     pd_provider d = None \<or> (\<exists>b \<in> set (bt_values bindings). pb_owner b = pd_id d)"

definition sources_of :: "requirements \<Rightarrow> capability_id \<Rightarrow> capability_requirement_source list" where
  "sources_of required capability = (case map_of required capability of None \<Rightarrow> [] | Some s \<Rightarrow> s)"

definition require_capability ::
    "plugin_id \<Rightarrow> capability_id \<Rightarrow> bool \<times> requirements \<Rightarrow> bool \<times> requirements" where
  "require_capability plugin capability = (\<lambda>(changed, required).
     (changed \<or> FromPlugin plugin \<notin> set (sources_of required capability),
      bt_entry capability [] (bs_insert (FromPlugin plugin)) required))"

definition collect_requirements ::
    "plugin_descriptor list \<Rightarrow> bindings \<Rightarrow> requirements \<Rightarrow> bool \<times> requirements" where
  "collect_requirements descriptors bindings required =
     fold (\<lambda>d. fold (require_capability (pd_id d)) (pd_capability_dependencies d))
       (filter (is_active bindings) descriptors) (False, required)"

definition candidates_for :: "plugin_descriptor list \<Rightarrow> capability_id \<Rightarrow> (provider_candidate \<times> plugin_id) list" where
  "candidates_for descriptors capability =
     List.map_filter (\<lambda>d. case pd_provider d of
         None \<Rightarrow> None
       | Some c \<Rightarrow> if pc_capability c = capability then Some (c, pd_id d) else None) descriptors"

definition bind_capability ::
    "plugin_descriptor list \<Rightarrow> capability_id list \<Rightarrow> capability_id \<Rightarrow> bool \<times> bindings \<Rightarrow> bool \<times> bindings" where
  "bind_capability descriptors explicitly_selected capability = (\<lambda>(changed, bindings).
     if capability \<in> set explicitly_selected \<or> capability \<in> fst ` set bindings
     then (changed, bindings)
     else case candidates_for descriptors capability of
       [(c, owner)] \<Rightarrow> (True, bt_insert capability \<lparr>pb_key = pc_key c, pb_owner = owner\<rparr> bindings)
     | _ \<Rightarrow> (changed, bindings))"

text \<open>One turn of the loop; the boolean is the code's \<open>changed\<close>.\<close>

definition binding_round ::
    "plugin_descriptor list \<Rightarrow> capability_id list \<Rightarrow> requirements \<times> bindings \<Rightarrow>
     bool \<times> requirements \<times> bindings" where
  "binding_round descriptors explicitly_selected = (\<lambda>(required, bindings).
     (let (changed, required') = collect_requirements descriptors bindings required;
          (changed', bindings') =
            fold (bind_capability descriptors explicitly_selected) (bt_keys required') (changed, bindings)
      in (changed', required', bindings')))"

text \<open>
  What is left to do: the requirements of plugins not recorded yet, and the provided
  capabilities not bound yet. Every round that reports a change makes it smaller.
\<close>

definition missing_requirements :: "plugin_descriptor list \<Rightarrow> requirements \<Rightarrow> (plugin_id \<times> capability_id) set" where
  "missing_requirements descriptors required =
     {(p, c) \<in> (\<Union>d \<in> set descriptors. {pd_id d} \<times> set (pd_capability_dependencies d)).
        FromPlugin p \<notin> set (sources_of required c)}"

definition unbound_capabilities :: "plugin_descriptor list \<Rightarrow> bindings \<Rightarrow> capability_id set" where
  "unbound_capabilities descriptors bindings =
     {c \<in> (\<lambda>d. pc_capability (the (pd_provider d))) ` {d \<in> set descriptors. pd_provider d \<noteq> None}.
        c \<notin> fst ` set bindings}"

definition round_measure :: "plugin_descriptor list \<Rightarrow> requirements \<times> bindings \<Rightarrow> nat" where
  "round_measure descriptors = (\<lambda>(required, bindings).
     card (missing_requirements descriptors required) + card (unbound_capabilities descriptors bindings))"

lemma finite_missing [simp]: "finite (missing_requirements descriptors required)"
  by (rule finite_subset [of _ "\<Union>d \<in> set descriptors. {pd_id d} \<times> set (pd_capability_dependencies d)"])
    (auto simp: missing_requirements_def)

lemma finite_unbound [simp]: "finite (unbound_capabilities descriptors bindings)"
  by (simp add: unbound_capabilities_def)

lemma sources_require:
  "set (sources_of (snd (require_capability p c s)) c') =
     set (sources_of (snd s) c') \<union> (if c' = c then {FromPlugin p} else {})"
  by (cases s) (auto simp: require_capability_def sources_of_def split: option.splits)

lemma require_fold:
  fixes p :: plugin_id
  shows "set (sources_of (snd (fold (require_capability p) cs s)) c) =
     set (sources_of (snd s) c) \<union> (if c \<in> set cs then {FromPlugin p} else {})"
    and "fst (fold (require_capability p) cs s) \<longleftrightarrow>
     fst s \<or> (\<exists>c \<in> set cs. FromPlugin p \<notin> set (sources_of (snd s) c))"
proof (induction cs arbitrary: s)
  case (Cons a cs)
  { case 1 show ?case by (auto simp: Cons(1) sources_require) }
  { case 2
    have "fst (require_capability p a s) \<longleftrightarrow> fst s \<or> FromPlugin p \<notin> set (sources_of (snd s) a)"
      by (cases s) (simp add: require_capability_def)
    then show ?case by (auto simp: Cons(2) sources_require) }
qed simp_all

lemma collect_fold:
  shows "set (sources_of (snd (fold (\<lambda>d. fold (require_capability (pd_id d)) (pd_capability_dependencies d)) es s)) c) =
     set (sources_of (snd s) c) \<union> {FromPlugin (pd_id d) | d. d \<in> set es \<and> c \<in> set (pd_capability_dependencies d)}"
    and "fst (fold (\<lambda>d. fold (require_capability (pd_id d)) (pd_capability_dependencies d)) es s) \<longleftrightarrow>
     fst s \<or> (\<exists>d \<in> set es. \<exists>c \<in> set (pd_capability_dependencies d).
        FromPlugin (pd_id d) \<notin> set (sources_of (snd s) c))"
proof (induction es arbitrary: s)
  case (Cons e es)
  { case 1 show ?case by (auto simp: Cons(1) require_fold(1)) }
  { case 2
    let ?s = "fold (require_capability (pd_id e)) (pd_capability_dependencies e) s"
    show ?case
    proof (cases "\<exists>c \<in> set (pd_capability_dependencies e). FromPlugin (pd_id e) \<notin> set (sources_of (snd s) c)")
      case True
      then show ?thesis by (simp add: Cons(2) require_fold(2))
    next
      case False
      then have "set (sources_of (snd ?s) c) = set (sources_of (snd s) c)" for c
        by (auto simp: require_fold(1))
      then show ?thesis using False by (simp add: Cons(2) require_fold(2))
    qed }
qed simp_all

lemma collect_requirements_facts:
  assumes "collect_requirements ds b required = (changed, required')"
  shows "set (sources_of required' c) = set (sources_of required c) \<union>
      {FromPlugin (pd_id d) | d. d \<in> set ds \<and> is_active b d \<and> c \<in> set (pd_capability_dependencies d)}"
    and "changed \<longleftrightarrow> (\<exists>d \<in> set ds. is_active b d \<and> (\<exists>c \<in> set (pd_capability_dependencies d).
      FromPlugin (pd_id d) \<notin> set (sources_of required c)))"
  using collect_fold [of "filter (is_active b) ds" "(False, required)"] assms
  by (auto simp: collect_requirements_def)

lemma bind_capability_cases:
  assumes "bind_capability ds ex c (changed, b) = (changed', b')"
  obtains "changed' = changed" "b' = b"
    "c \<in> set ex \<or> c \<in> fst ` set b \<or> (\<forall>k p. candidates_for ds c \<noteq> [(k, p)])"
  | k p where "c \<notin> set ex" "c \<notin> fst ` set b" "candidates_for ds c = [(k, p)]" "changed'"
      "b' = bt_insert c \<lparr>pb_key = pc_key k, pb_owner = p\<rparr> b"
proof (cases "c \<in> set ex \<or> c \<in> fst ` set b")
  case True
  then show ?thesis using assms that(1) by (auto simp: bind_capability_def)
next
  case False
  then have eq: "(changed', b') = (case candidates_for ds c of
       [(k, p)] \<Rightarrow> (True, bt_insert c \<lparr>pb_key = pc_key k, pb_owner = p\<rparr> b)
     | _ \<Rightarrow> (changed, b))"
    using assms by (auto simp: bind_capability_def)
  show ?thesis
  proof (cases "\<exists>k p. candidates_for ds c = [(k, p)]")
    case True
    then obtain k p where "candidates_for ds c = [(k, p)]" by blast
    then show ?thesis using eq False that(2) by auto
  next
    case no: False
    then have "(changed', b') = (changed, b)"
      using eq by (auto split: list.splits prod.splits)
    then show ?thesis using no that(1) by blast
  qed
qed

lemma candidates_provide:
  "(k, p) \<in> set (candidates_for ds c) \<longleftrightarrow>
     (\<exists>d \<in> set ds. pd_provider d = Some k \<and> pc_capability k = c \<and> pd_id d = p)"
proof -
  have eq: "(case pd_provider d of None \<Rightarrow> None
       | Some k' \<Rightarrow> if pc_capability k' = c then Some (k', pd_id d) else None) = Some (k, p) \<longleftrightarrow>
     pd_provider d = Some k \<and> pc_capability k = c \<and> pd_id d = p" for d
    by (cases "pd_provider d") auto
  show ?thesis
    unfolding candidates_for_def in_map_filter by (rule bex_cong [OF refl]) (rule eq)
qed

lemma bind_grows:
  assumes "bind_capability ds ex c (changed, b) = (changed', b')"
  shows "fst ` set b \<subseteq> fst ` set b'" and "changed \<Longrightarrow> changed'"
    and "\<not> changed' \<Longrightarrow> b' = b"
    and "changed' \<Longrightarrow> \<not> changed \<Longrightarrow> unbound_capabilities ds b' \<subset> unbound_capabilities ds b"
proof -
  have "fst ` set b \<subseteq> fst ` set b' \<and> (changed \<longrightarrow> changed') \<and> (\<not> changed' \<longrightarrow> b' = b) \<and>
    (changed' \<and> \<not> changed \<longrightarrow> unbound_capabilities ds b' \<subset> unbound_capabilities ds b)"
    using assms
  proof (cases rule: bind_capability_cases)
    case (2 k p)
    then obtain d where d: "d \<in> set ds" "pd_provider d = Some k" "pc_capability k = c"
      using candidates_provide [of k p ds c] by auto
    have "c \<in> unbound_capabilities ds b"
      unfolding unbound_capabilities_def using d 2(2) by (auto intro!: rev_image_eqI [of d])
    moreover have "unbound_capabilities ds b' = unbound_capabilities ds b - {c}"
      unfolding unbound_capabilities_def 2(5) by auto
    ultimately show ?thesis using 2 by auto
  qed auto
  then show "fst ` set b \<subseteq> fst ` set b'" "changed \<Longrightarrow> changed'" "\<not> changed' \<Longrightarrow> b' = b"
    "changed' \<Longrightarrow> \<not> changed \<Longrightarrow> unbound_capabilities ds b' \<subset> unbound_capabilities ds b" by auto
qed

lemma unbound_mono: "fst ` set b \<subseteq> fst ` set b' \<Longrightarrow> unbound_capabilities ds b' \<subseteq> unbound_capabilities ds b"
  by (auto simp: unbound_capabilities_def)

lemma bind_fold_grows:
  assumes "fold (bind_capability ds ex) cs (changed, b) = (changed', b')"
  shows "fst ` set b \<subseteq> fst ` set b' \<and> (changed \<longrightarrow> changed') \<and> (\<not> changed' \<longrightarrow> b' = b) \<and>
    (changed' \<and> \<not> changed \<longrightarrow> unbound_capabilities ds b' \<subset> unbound_capabilities ds b)"
  using assms
proof (induction cs arbitrary: changed b)
  case (Cons c cs)
  obtain ch u where u: "bind_capability ds ex c (changed, b) = (ch, u)"
    by (cases "bind_capability ds ex c (changed, b)")
  have "fold (bind_capability ds ex) cs (ch, u) = (changed', b')" using Cons.prems u by simp
  note ih = Cons.IH [OF this] and step = bind_grows [OF u]
  have "unbound_capabilities ds b' \<subseteq> unbound_capabilities ds u" using ih by (simp add: unbound_mono)
  moreover have "fst ` set b \<subseteq> fst ` set b'" using order_trans [OF step(1)] ih by blast
  ultimately show ?case using ih step(2-4) by (cases ch) auto
qed simp

lemma round_decreases:
  assumes "binding_round ds ex s = (True, s')"
  shows "round_measure ds s' < round_measure ds s"
proof -
  obtain required b where s: "s = (required, b)" by (cases s)
  obtain ch required' where req: "collect_requirements ds b required = (ch, required')"
    by (cases "collect_requirements ds b required")
  obtain b' where bind: "fold (bind_capability ds ex) (bt_keys required') (ch, b) = (True, b')"
    and s': "s' = (required', b')"
    using assms s req by (auto simp: binding_round_def split: prod.splits)
  note grow = bind_fold_grows [OF bind] and facts = collect_requirements_facts [OF req]
  have sub: "missing_requirements ds required' \<subseteq> missing_requirements ds required"
    "unbound_capabilities ds b' \<subseteq> unbound_capabilities ds b"
    using facts(1) grow by (auto simp: missing_requirements_def unbound_mono)
  have strict: "missing_requirements ds required' \<subset> missing_requirements ds required \<or>
      unbound_capabilities ds b' \<subset> unbound_capabilities ds b"
  proof (cases ch)
    case True
    then obtain d c where d: "d \<in> set ds" "is_active b d" "c \<in> set (pd_capability_dependencies d)"
      "FromPlugin (pd_id d) \<notin> set (sources_of required c)" using facts(2) by blast
    then have "(pd_id d, c) \<in> missing_requirements ds required"
      by (auto simp: missing_requirements_def)
    moreover have "(pd_id d, c) \<notin> missing_requirements ds required'"
      using d by (auto simp: missing_requirements_def facts(1))
    ultimately show ?thesis using sub by blast
  next
    case False
    then show ?thesis using grow by simp
  qed
  have "card (missing_requirements ds required') \<le> card (missing_requirements ds required)"
    "card (unbound_capabilities ds b') \<le> card (unbound_capabilities ds b)"
    using sub by (simp_all add: card_mono)
  moreover have "card (missing_requirements ds required') < card (missing_requirements ds required) \<or>
      card (unbound_capabilities ds b') < card (unbound_capabilities ds b)"
    using strict by (auto intro: psubset_card_mono)
  ultimately show ?thesis by (auto simp: round_measure_def s s')
qed

function bind_required ::
    "plugin_descriptor list \<Rightarrow> capability_id list \<Rightarrow> requirements \<times> bindings \<Rightarrow> requirements \<times> bindings" where
  "bind_required descriptors explicitly_selected s =
     (let (changed, s') = binding_round descriptors explicitly_selected s
      in if changed then bind_required descriptors explicitly_selected s' else s')"
  by pat_completeness auto

termination
  by (relation "measure (\<lambda>(ds, _, s). round_measure ds s)") (auto dest: round_decreases [OF sym])

section \<open>Resolution\<close>

definition validate_missing_capability ::
    "plugin_descriptor list \<Rightarrow> capability_id list \<Rightarrow> bindings \<Rightarrow>
     capability_id \<times> capability_requirement_source list \<Rightarrow> unit \<Rightarrow> (unit, plugin_error) outcome" where
  "validate_missing_capability descriptors explicitly_selected bindings = (\<lambda>(capability, required_by) _.
     if capability \<in> set explicitly_selected \<or> capability \<in> fst ` set bindings then Ok ()
     else if \<exists>d \<in> set descriptors. provides d capability then Ok ()
     else Err (MissingCapability capability required_by))"

definition validate_ambiguous_capability ::
    "plugin_descriptor list \<Rightarrow> capability_id list \<Rightarrow> bindings \<Rightarrow> capability_id \<Rightarrow> unit \<Rightarrow>
     (unit, plugin_error) outcome" where
  "validate_ambiguous_capability descriptors explicitly_selected bindings = (\<lambda>capability _.
     if capability \<in> set explicitly_selected \<or> capability \<in> fst ` set bindings then Ok ()
     else let candidates = provider_diagnostics descriptors capability
          in if 1 < length candidates then Err (AmbiguousCapability capability candidates) else Ok ())"

definition capability_owners :: "bindings \<Rightarrow> plugin_descriptor \<Rightarrow> plugin_id btree_set" where
  "capability_owners bindings d =
     bs_collect (map pb_owner (List.map_filter (map_of bindings)
       (pd_capability_dependencies d @ pd_optional_capability_dependencies d)))"

definition validate_descriptors :: "plugin_descriptor list \<Rightarrow> (unit, plugin_error) outcome" where
  "validate_descriptors descriptors =
     and_then (validate_duplicate_plugins descriptors) (\<lambda>_.
     and_then (validate_provider_candidates descriptors) (\<lambda>_.
     and_then (validate_missing_dependencies descriptors) (\<lambda>_.
     and_then (validate_exact_provider_dependencies descriptors) (\<lambda>_.
     and_then (resolve_exact descriptors) (\<lambda>_. Ok ())))))"

definition bind_composition ::
    "plugin_descriptor list \<Rightarrow> capability_id list \<Rightarrow> (capability_id \<times> string) list \<Rightarrow>
     (bindings, plugin_error) outcome" where
  "bind_composition descriptors requirements selections =
     (let explicit = explicit_selections selections;
          explicitly_selected = bt_keys explicit
      in and_then (validate_selections explicit) (\<lambda>_.
         and_then (for_each (bind_selection descriptors) explicit []) (\<lambda>selected.
         (let s = bind_required descriptors explicitly_selected (root_requirements requirements, selected);
              required = fst s;
              bindings = snd s
          in and_then (for_each (validate_missing_capability descriptors explicitly_selected bindings)
                         required ()) (\<lambda>_.
             and_then (for_each (validate_ambiguous_capability descriptors explicitly_selected bindings)
                         (bt_keys required) ()) (\<lambda>_. Ok bindings))))))"

definition active_of :: "plugin_descriptor list \<Rightarrow> bindings \<Rightarrow> plugin_id btree_set" where
  "active_of descriptors bindings = bs_collect (map pd_id (filter (is_active bindings) descriptors))"

definition owners_of :: "plugin_descriptor list \<Rightarrow> bindings \<Rightarrow> dependency_map" where
  "owners_of descriptors bindings =
     bt_collect (map (\<lambda>d. (pd_id d, capability_owners bindings d))
       (filter (\<lambda>d. pd_id d \<in> set (active_of descriptors bindings)) descriptors))"

definition resolve_composition ::
    "plugin_descriptor list \<Rightarrow> capability_id list \<Rightarrow> (capability_id \<times> string) list \<Rightarrow>
     (bindings \<times> nat list, plugin_error) outcome" where
  "resolve_composition descriptors requirements selections =
     and_then (validate_descriptors descriptors) (\<lambda>_.
     and_then (bind_composition descriptors requirements selections) (\<lambda>bindings.
     and_then (resolve_active descriptors (active_of descriptors bindings) (owners_of descriptors bindings))
       (\<lambda>order. Ok (bindings, order))))"

end
