(* ===== verification/PluginKernel.thy ===== *)
theory PluginKernel
  imports PluginCompose
begin

text \<open>
  Mounting, activation and shutdown, \<open>src/crates/plugin/plugin/src/lib.rs\<close>: the registration
  plan of one plugin, its validation and commit into the registry, the construction and start
  of the selected services in dependency order, and the rollback and shutdown that stop them.

  An \<open>Arc\<close> to code outside the kernel (an agent, a tool, a service factory, a lifecycle) is a
  handle, a number. The six provider slots of the registry and of a plan have one shape and are
  a function of \<open>service_slot\<close>; so are the four keyed registries, a function of
  \<open>registry_kind\<close>. The plugins' \<open>mount\<close> is a script of calls on the mount context, the factories
  and lifecycles are a record of functions, and \<open>describe\<close> is the derived error text.
\<close>

section \<open>Slots and plans\<close>

type_synonym handle = nat

datatype service_slot =
  AgentRuntimeSlot | LlmSlot | LlmRuntimeSlot | ToolRuntimeSlot | SessionPersistenceSlot | SessionRuntimeSlot

definition AGENT_RUNTIME :: capability_id where "AGENT_RUNTIME = ''jingwei.agent.runtime''"
definition LLM_PROVIDER :: capability_id where "LLM_PROVIDER = ''jingwei.llm.provider''"
definition LLM_RUNTIME :: capability_id where "LLM_RUNTIME = ''jingwei.llm.runtime''"
definition TOOL_RUNTIME :: capability_id where "TOOL_RUNTIME = ''jingwei.tool.runtime''"
definition SESSION_PERSISTENCE :: capability_id where "SESSION_PERSISTENCE = ''jingwei.session.persistence''"
definition SESSION_RUNTIME :: capability_id where "SESSION_RUNTIME = ''jingwei.session.runtime''"

fun slot_capability :: "service_slot \<Rightarrow> capability_id" where
  "slot_capability AgentRuntimeSlot = AGENT_RUNTIME"
| "slot_capability LlmSlot = LLM_PROVIDER"
| "slot_capability LlmRuntimeSlot = LLM_RUNTIME"
| "slot_capability ToolRuntimeSlot = TOOL_RUNTIME"
| "slot_capability SessionPersistenceSlot = SESSION_PERSISTENCE"
| "slot_capability SessionRuntimeSlot = SESSION_RUNTIME"

definition service_slots :: "service_slot list" where
  "service_slots =
     [AgentRuntimeSlot, LlmSlot, LlmRuntimeSlot, ToolRuntimeSlot, SessionPersistenceSlot, SessionRuntimeSlot]"

definition slot_of :: "capability_id \<Rightarrow> service_slot option" where
  "slot_of capability = List.find (\<lambda>slot. slot_capability slot = capability) service_slots"

record registration_plan =
  rp_owner :: plugin_id
  rp_required_capabilities :: "capability_id list"
  rp_provider :: "provider_candidate option"
  rp_keyed :: "registry_kind \<Rightarrow> (string, handle) btree_map"
  rp_factories :: "service_slot \<Rightarrow> handle option"
  rp_tool_guards :: "handle list"
  rp_hooks :: "handle list"
  rp_declaration_error :: "plugin_error option"

definition plan_new :: "plugin_descriptor \<Rightarrow> registration_plan" where
  "plan_new d =
     \<lparr>rp_owner = pd_id d, rp_required_capabilities = pd_capability_dependencies d,
      rp_provider = pd_provider d, rp_keyed = (\<lambda>_. []), rp_factories = (\<lambda>_. None),
      rp_tool_guards = [], rp_hooks = [], rp_declaration_error = None\<rparr>"

text \<open>A call returns \<open>None\<close> for \<open>Ok(())\<close> and \<open>Some\<close> message for a \<open>MountError\<close>.\<close>

definition reject ::
    "(plugin_error \<Rightarrow> string) \<Rightarrow> plugin_error \<Rightarrow> registration_plan \<Rightarrow> registration_plan \<times> string option" where
  "reject describe error plan =
     (if rp_declaration_error plan = None then plan\<lparr>rp_declaration_error := Some error\<rparr> else plan,
      Some (describe error))"

definition register_keyed ::
    "(plugin_error \<Rightarrow> string) \<Rightarrow> registry_kind \<Rightarrow> string \<Rightarrow> handle \<Rightarrow> registration_plan \<Rightarrow>
     registration_plan \<times> string option" where
  "register_keyed describe kind key value plan =
     (if map_of (rp_keyed plan kind) key \<noteq> None
      then reject describe (DuplicateKey kind key (rp_owner plan) (rp_owner plan)) plan
      else (plan\<lparr>rp_keyed := (rp_keyed plan)(kind := bt_insert key value (rp_keyed plan kind))\<rparr>, None))"

definition provide_factory ::
    "(plugin_error \<Rightarrow> string) \<Rightarrow> service_slot \<Rightarrow> handle \<Rightarrow> registration_plan \<Rightarrow>
     registration_plan \<times> string option" where
  "provide_factory describe slot factory plan =
     (let declared = map_option pc_capability (rp_provider plan)
      in if declared \<noteq> Some (slot_capability slot)
         then reject describe (UnexpectedProviderFactory (rp_owner plan) declared (slot_capability slot)) plan
         else if rp_factories plan slot \<noteq> None
         then reject describe (DuplicateProviderFactory (slot_capability slot) (rp_owner plan)) plan
         else (plan\<lparr>rp_factories := (rp_factories plan)(slot := Some factory)\<rparr>, None))"

definition register_hook :: "handle \<Rightarrow> registration_plan \<Rightarrow> registration_plan" where
  "register_hook hook plan = plan\<lparr>rp_hooks := rp_hooks plan @ [hook]\<rparr>"

definition register_tool_guard :: "handle \<Rightarrow> registration_plan \<Rightarrow> registration_plan" where
  "register_tool_guard guard plan = plan\<lparr>rp_tool_guards := rp_tool_guards plan @ [guard]\<rparr>"

text \<open>The calls a plugin makes while it mounts; it may choose the next one by the last result.\<close>

datatype mount_call =
    RegisterKeyed registry_kind string handle
  | ProvideFactory service_slot handle
  | RegisterHook handle
  | RegisterToolGuard handle

datatype mount_script = Return "string option" | Call mount_call "string option \<Rightarrow> mount_script"

fun mount_step ::
    "(plugin_error \<Rightarrow> string) \<Rightarrow> mount_call \<Rightarrow> registration_plan \<Rightarrow> registration_plan \<times> string option" where
  "mount_step describe (RegisterKeyed kind key value) plan = register_keyed describe kind key value plan"
| "mount_step describe (ProvideFactory slot factory) plan = provide_factory describe slot factory plan"
| "mount_step describe (RegisterHook hook) plan = (register_hook hook plan, None)"
| "mount_step describe (RegisterToolGuard guard) plan = (register_tool_guard guard plan, None)"

primrec run_mount ::
    "(plugin_error \<Rightarrow> string) \<Rightarrow> mount_script \<Rightarrow> registration_plan \<Rightarrow> registration_plan \<times> string option" where
  "run_mount describe (Return result) plan = (plan, result)"
| "run_mount describe (Call call rest) plan =
     (case mount_step describe call plan of (plan', result) \<Rightarrow> run_mount describe (rest result) plan')"

section \<open>The registry\<close>

record owned =
  ow_owner :: plugin_id
  ow_value :: handle

record lifecycle_node =
  ln_capability :: capability_id
  ln_candidate :: string
  ln_plugin :: plugin_id
  ln_lifecycle :: handle

record plugin_registry =
  pr_bindings :: bindings
  pr_keyed :: "registry_kind \<Rightarrow> (string, owned) btree_map"
  pr_agent_requirements :: "(string, capability_id list) btree_map"
  pr_factories :: "service_slot \<Rightarrow> owned option"
  pr_services :: "service_slot \<Rightarrow> owned option"
  pr_tool_guards :: "owned list"
  pr_hooks :: "owned list"
  pr_lifecycles :: "lifecycle_node list"

definition registry_empty :: plugin_registry where
  "registry_empty =
     \<lparr>pr_bindings = [], pr_keyed = (\<lambda>_. []), pr_agent_requirements = [], pr_factories = (\<lambda>_. None),
      pr_services = (\<lambda>_. None), pr_tool_guards = [], pr_hooks = [], pr_lifecycles = []\<rparr>"

definition validate_keys ::
    "registry_kind \<Rightarrow> (string, owned) btree_map \<Rightarrow> (string, handle) btree_map \<Rightarrow> plugin_id \<Rightarrow>
     (unit, plugin_error) outcome" where
  "validate_keys kind committed staged challenger =
     for_each (\<lambda>key _. case map_of committed key of
         None \<Rightarrow> Ok ()
       | Some incumbent \<Rightarrow> Err (DuplicateKey kind key (ow_owner incumbent) challenger)) (bt_keys staged) ()"

definition validate_plan :: "plugin_registry \<Rightarrow> registration_plan \<Rightarrow> (unit, plugin_error) outcome" where
  "validate_plan registry plan =
     for_each (\<lambda>kind _. validate_keys kind (pr_keyed registry kind) (rp_keyed plan kind) (rp_owner plan))
       [AgentRegistry, ToolRegistry, ToolAuthorizerRegistry, EventObserverRegistry] ()"

text \<open>\<open>insert_owned\<close> and its debug assertion that nothing is replaced.\<close>

definition insert_owned ::
    "plugin_id \<Rightarrow> string \<times> handle \<Rightarrow> (string, owned) btree_map \<Rightarrow>
     ((string, owned) btree_map, plugin_error) outcome" where
  "insert_owned owner = (\<lambda>(key, value) entries.
     if map_of entries key \<noteq> None then Panic
     else Ok (bt_insert key \<lparr>ow_owner = owner, ow_value = value\<rparr> entries))"

definition commit_keyed ::
    "registration_plan \<Rightarrow> registry_kind \<Rightarrow> plugin_registry \<Rightarrow> (plugin_registry, plugin_error) outcome" where
  "commit_keyed plan kind registry =
     and_then (for_each (insert_owned (rp_owner plan)) (rp_keyed plan kind) (pr_keyed registry kind))
       (\<lambda>entries. Ok (registry\<lparr>pr_keyed := (pr_keyed registry)(kind := entries)\<rparr>))"

definition commit_agent_requirement ::
    "capability_id list \<Rightarrow> string \<Rightarrow> (string, capability_id list) btree_map \<Rightarrow>
     ((string, capability_id list) btree_map, plugin_error) outcome" where
  "commit_agent_requirement required key entries =
     (if map_of entries key \<noteq> None then Panic else Ok (bt_insert key required entries))"

definition commit_factory ::
    "registration_plan \<Rightarrow> service_slot \<Rightarrow> plugin_registry \<Rightarrow> (plugin_registry, plugin_error) outcome" where
  "commit_factory plan slot registry =
     (case rp_factories plan slot of
        None \<Rightarrow> Ok registry
      | Some value \<Rightarrow>
          if pr_factories registry slot \<noteq> None then Panic
          else Ok (registry\<lparr>pr_factories :=
                 (pr_factories registry)(slot := Some \<lparr>ow_owner = rp_owner plan, ow_value = value\<rparr>)\<rparr>))"

definition own :: "plugin_id \<Rightarrow> handle \<Rightarrow> owned" where
  "own owner value = \<lparr>ow_owner = owner, ow_value = value\<rparr>"

definition commit_plan :: "registration_plan \<Rightarrow> plugin_registry \<Rightarrow> (plugin_registry, plugin_error) outcome" where
  "commit_plan plan registry =
     and_then (for_each (commit_agent_requirement (rp_required_capabilities plan))
                 (bt_keys (rp_keyed plan AgentRegistry)) (pr_agent_requirements registry))
       (\<lambda>requirements.
     and_then (for_each (commit_keyed plan)
                 [AgentRegistry, ToolRegistry, ToolAuthorizerRegistry, EventObserverRegistry]
                 (registry\<lparr>pr_agent_requirements := requirements\<rparr>)) (\<lambda>registry'.
     and_then (for_each (commit_factory plan) service_slots registry') (\<lambda>registry''.
     Ok (registry''\<lparr>pr_tool_guards := pr_tool_guards registry'' @ map (own (rp_owner plan)) (rp_tool_guards plan),
                   pr_hooks := pr_hooks registry'' @ map (own (rp_owner plan)) (rp_hooks plan)\<rparr>))))"

definition validate_factory :: "registration_plan \<Rightarrow> service_slot \<Rightarrow> unit \<Rightarrow> (unit, plugin_error) outcome" where
  "validate_factory plan slot _ =
     (if map_option pc_capability (rp_provider plan) = Some (slot_capability slot) \<and>
         rp_factories plan slot = None
      then Err (MissingProviderFactory (slot_capability slot) (rp_owner plan)) else Ok ())"

definition mount_plugin ::
    "(plugin_error \<Rightarrow> string) \<Rightarrow> plugin_descriptor \<Rightarrow> mount_script \<Rightarrow> plugin_registry \<Rightarrow>
     (plugin_registry, plugin_error) outcome" where
  "mount_plugin describe d script registry =
     (case run_mount describe script (plan_new d) of (plan, mount_result) \<Rightarrow>
        (case rp_declaration_error plan of
           Some error \<Rightarrow> Err error
         | None \<Rightarrow>
             (case mount_result of
                Some message \<Rightarrow> Err (MountFailed (pd_id d) message)
              | None \<Rightarrow>
                  and_then (for_each (validate_factory plan) service_slots ()) (\<lambda>_.
                  and_then (validate_plan registry plan) (\<lambda>_. commit_plan plan registry)))))"

section \<open>What a factory may read\<close>

record agent_binding =
  ab_key :: string
  ab_owner :: plugin_id
  ab_required_capabilities :: "capability_id list"
  ab_agent :: handle

record keyed_binding =
  kb_key :: string
  kb_owner :: plugin_id
  kb_value :: handle

record ordinal_binding =
  ob_owner :: plugin_id
  ob_ordinal :: nat
  ob_value :: handle

definition keyed_bindings :: "plugin_registry \<Rightarrow> registry_kind \<Rightarrow> keyed_binding list" where
  "keyed_bindings registry kind =
     map (\<lambda>(key, entry). \<lparr>kb_key = key, kb_owner = ow_owner entry, kb_value = ow_value entry\<rparr>)
       (pr_keyed registry kind)"

definition ordinal_bindings :: "owned list \<Rightarrow> ordinal_binding list" where
  "ordinal_bindings entries =
     map (\<lambda>(ordinal, entry). \<lparr>ob_owner = ow_owner entry, ob_ordinal = ordinal, ob_value = ow_value entry\<rparr>)
       (enumerate 0 entries)"

text \<open>Indexing \<open>agent_requirements\<close> panics on an absent key.\<close>

definition agent_bindings :: "plugin_registry \<Rightarrow> (agent_binding list, plugin_error) outcome" where
  "agent_bindings registry =
     for_each (\<lambda>(key, entry) bindings. case map_of (pr_agent_requirements registry) key of
         None \<Rightarrow> Panic
       | Some required \<Rightarrow> Ok (bindings @
           [\<lparr>ab_key = key, ab_owner = ow_owner entry, ab_required_capabilities = required,
             ab_agent = ow_value entry\<rparr>]))
       (pr_keyed registry AgentRegistry) []"

definition service :: "plugin_registry \<Rightarrow> service_slot \<Rightarrow> handle option" where
  "service registry slot = map_option ow_value (pr_services registry slot)"

definition can_read :: "plugin_registry \<Rightarrow> plugin_descriptor \<Rightarrow> capability_id \<Rightarrow> bool" where
  "can_read registry d capability \<longleftrightarrow>
     capability \<in> set (pd_capability_dependencies d) \<or>
     capability \<in> set (pd_optional_capability_dependencies d) \<and>
     map_of (pr_bindings registry) capability \<noteq> None"

text \<open>The results of the accessors of \<open>FactoryContext\<close>.\<close>

record factory_view =
  fv_llm :: "handle option"
  fv_llm_runtime :: "handle option"
  fv_tool_runtime :: "handle option"
  fv_agent_bindings :: "agent_binding list option"
  fv_hook_bindings :: "ordinal_binding list option"
  fv_tool_bindings :: "keyed_binding list option"
  fv_tool_guard_bindings :: "ordinal_binding list option"
  fv_tool_authorizer_bindings :: "keyed_binding list option"
  fv_session_persistence :: "handle option"
  fv_session_runtime :: "handle option"
  fv_event_observers :: "keyed_binding list option"

definition allowed :: "bool \<Rightarrow> 'a \<Rightarrow> 'a option" where
  "allowed ok x = (if ok then Some x else None)"

definition visible :: "bool \<Rightarrow> 'a option \<Rightarrow> 'a option" where
  "visible ok x = (if ok then x else None)"

definition factory_context :: "plugin_registry \<Rightarrow> plugin_descriptor \<Rightarrow> (factory_view, plugin_error) outcome" where
  "factory_context registry d =
     (let provided = map_option pc_capability (pd_provider d)
      in and_then (if provided = Some AGENT_RUNTIME
                   then and_then (agent_bindings registry) (\<lambda>bindings. Ok (Some bindings)) else Ok None)
           (\<lambda>agents. Ok
              \<lparr>fv_llm = visible (provided = Some LLM_RUNTIME \<and> LLM_PROVIDER \<in> set (pd_capability_dependencies d))
                 (service registry LlmSlot),
               fv_llm_runtime = visible (can_read registry d LLM_RUNTIME) (service registry LlmRuntimeSlot),
               fv_tool_runtime = visible (provided = Some AGENT_RUNTIME \<and> can_read registry d TOOL_RUNTIME)
                 (service registry ToolRuntimeSlot),
               fv_agent_bindings = agents,
               fv_hook_bindings = allowed (provided = Some AGENT_RUNTIME) (ordinal_bindings (pr_hooks registry)),
               fv_tool_bindings = allowed (provided = Some TOOL_RUNTIME) (keyed_bindings registry ToolRegistry),
               fv_tool_guard_bindings =
                 allowed (provided = Some TOOL_RUNTIME) (ordinal_bindings (pr_tool_guards registry)),
               fv_tool_authorizer_bindings =
                 allowed (provided = Some TOOL_RUNTIME) (keyed_bindings registry ToolAuthorizerRegistry),
               fv_session_persistence = visible (can_read registry d SESSION_PERSISTENCE)
                 (service registry SessionPersistenceSlot),
               fv_session_runtime = visible (can_read registry d SESSION_RUNTIME)
                 (service registry SessionRuntimeSlot),
               fv_event_observers =
                 allowed (provided = Some SESSION_RUNTIME) (keyed_bindings registry EventObserverRegistry)\<rparr>))"

section \<open>Lifecycles\<close>

datatype stop_reason = ActivationRollback | RequestedShutdown

text \<open>
  Every call the kernel makes on a factory or a lifecycle, in the order it makes them;
  \<open>Constructed\<close> ends with the lifecycle the factory returned, if it did not fail.
\<close>

datatype kernel_event =
    Constructed plugin_id service_slot factory_view "handle option"
  | Started handle
  | Stopped handle stop_reason

type_synonym kernel_trace = "kernel_event list"

text \<open>
  The factories and lifecycles. \<open>construct\<close> returns the service and its lifecycle, or an error
  message; \<open>start\<close> and \<open>stop\<close> return a message when they fail. Each may depend on the calls
  made before.
\<close>

record service_host =
  sh_construct :: "handle \<Rightarrow> factory_view \<Rightarrow> kernel_trace \<Rightarrow> string + (handle \<times> handle)"
  sh_start :: "handle \<Rightarrow> kernel_trace \<Rightarrow> string option"
  sh_stop :: "handle \<Rightarrow> stop_reason \<Rightarrow> kernel_trace \<Rightarrow> string option"

definition lifecycle_failure_new ::
    "capability_id \<Rightarrow> string \<Rightarrow> plugin_id \<Rightarrow> lifecycle_phase \<Rightarrow> string \<Rightarrow> lifecycle_failure" where
  "lifecycle_failure_new capability candidate plugin phase message =
     \<lparr>lf_capability = capability, lf_candidate = candidate, lf_plugin = plugin, lf_phase = phase,
      lf_message = message\<rparr>"

definition stop_node ::
    "service_host \<Rightarrow> stop_reason \<Rightarrow> lifecycle_node \<Rightarrow> lifecycle_failure list \<times> kernel_trace \<Rightarrow>
     lifecycle_failure list \<times> kernel_trace" where
  "stop_node host reason node = (\<lambda>(failures, trace).
     (case sh_stop host (ln_lifecycle node) reason trace of
        None \<Rightarrow> failures
      | Some message \<Rightarrow> failures @
          [lifecycle_failure_new (ln_capability node) (ln_candidate node) (ln_plugin node) StopPhase message],
      trace @ [Stopped (ln_lifecycle node) reason]))"

definition stop_nodes ::
    "service_host \<Rightarrow> stop_reason \<Rightarrow> lifecycle_node list \<Rightarrow> kernel_trace \<Rightarrow>
     lifecycle_failure list \<times> kernel_trace" where
  "stop_nodes host reason nodes trace = fold (stop_node host reason) (List.rev nodes) ([], trace)"

text \<open>A failed activation returns its error and the calls made, rollback included.\<close>

type_synonym 'a activation = "('a, plugin_error \<times> kernel_trace) outcome"

definition rollback_activation ::
    "service_host \<Rightarrow> plugin_registry \<Rightarrow> lifecycle_failure \<Rightarrow> kernel_trace \<Rightarrow> plugin_error \<times> kernel_trace" where
  "rollback_activation host registry primary trace =
     (case stop_nodes host ActivationRollback (pr_lifecycles registry) trace of
        (rollback_failures, trace') \<Rightarrow> (ActivationFailed primary rollback_failures, trace'))"

definition construct_service ::
    "service_host \<Rightarrow> handle \<Rightarrow> service_slot \<Rightarrow> plugin_descriptor \<Rightarrow> provider_candidate \<Rightarrow>
     plugin_registry \<times> kernel_trace \<Rightarrow> (handle \<times> plugin_registry \<times> kernel_trace) activation" where
  "construct_service host factory slot d provider = (\<lambda>(registry, trace).
     case factory_context registry d of
       Ok view \<Rightarrow>
         (case sh_construct host factory view trace of
               Inl message \<Rightarrow>
                 Err (rollback_activation host registry
                   (lifecycle_failure_new (pc_capability provider) (pc_key provider) (pd_id d)
                      ConstructPhase message) (trace @ [Constructed (pd_id d) slot view None]))
             | Inr (value, lifecycle) \<Rightarrow>
                 Ok (value,
                   registry\<lparr>pr_lifecycles := pr_lifecycles registry @
                     [\<lparr>ln_capability = pc_capability provider, ln_candidate = pc_key provider,
                       ln_plugin = pd_id d, ln_lifecycle = lifecycle\<rparr>]\<rparr>,
                   trace @ [Constructed (pd_id d) slot view (Some lifecycle)]))
     | Err e \<Rightarrow> Err (e, trace)
     | Panic \<Rightarrow> Panic)"

definition activate_plugin ::
    "service_host \<Rightarrow> plugin_descriptor list \<Rightarrow> nat \<Rightarrow> plugin_registry \<times> kernel_trace \<Rightarrow>
     (plugin_registry \<times> kernel_trace) activation" where
  "activate_plugin host descriptors index = (\<lambda>(registry, trace).
     let d = descriptors ! index
     in case pd_provider d of
          None \<Rightarrow> Ok (registry, trace)
        | Some provider \<Rightarrow>
            (case slot_of (pc_capability provider) of
               None \<Rightarrow> Ok (registry, trace)
             | Some slot \<Rightarrow>
                 (case pr_factories registry slot of
                    None \<Rightarrow> Panic
                  | Some factory \<Rightarrow>
                      if ow_owner factory \<noteq> pd_id d then Panic
                      else and_then
                        (construct_service host (ow_value factory) slot d provider (registry, trace))
                        (\<lambda>(value, registry', trace'). Ok
                           (registry'\<lparr>pr_services :=
                              (pr_services registry')(slot := Some (own (pd_id d) value))\<rparr>, trace')))))"

definition start_lifecycle ::
    "service_host \<Rightarrow> lifecycle_node \<Rightarrow> plugin_registry \<times> kernel_trace \<Rightarrow>
     (plugin_registry \<times> kernel_trace) activation" where
  "start_lifecycle host node = (\<lambda>(registry, trace).
     let trace' = trace @ [Started (ln_lifecycle node)]
     in case sh_start host (ln_lifecycle node) trace of
          None \<Rightarrow> Ok (registry, trace')
        | Some message \<Rightarrow>
            Err (rollback_activation host registry
              (lifecycle_failure_new (ln_capability node) (ln_candidate node) (ln_plugin node)
                 StartPhase message) trace'))"

definition activate ::
    "service_host \<Rightarrow> plugin_descriptor list \<Rightarrow> nat list \<Rightarrow> plugin_registry \<times> kernel_trace \<Rightarrow>
     (plugin_registry \<times> kernel_trace) activation" where
  "activate host descriptors order s =
     and_then (for_each (activate_plugin host descriptors) order s)
       (\<lambda>(registry, trace).
          let registry' = registry\<lparr>pr_factories := (\<lambda>_. None)\<rparr>
          in for_each (start_lifecycle host) (pr_lifecycles registry') (registry', trace))"

text \<open>\<open>Err\<close> holds the failures of \<open>ShutdownError\<close>.\<close>

definition shutdown ::
    "service_host \<Rightarrow> plugin_registry \<times> kernel_trace \<Rightarrow>
     (plugin_registry \<times> kernel_trace) \<times> (unit, lifecycle_failure list) outcome" where
  "shutdown host = (\<lambda>(registry, trace).
     case stop_nodes host RequestedShutdown (pr_lifecycles registry) trace of (failures, trace') \<Rightarrow>
       ((registry\<lparr>pr_lifecycles := []\<rparr>, trace'), if failures = [] then Ok () else Err failures))"

section \<open>Composition\<close>

definition mount_all ::
    "(plugin_error \<Rightarrow> string) \<Rightarrow> (plugin_descriptor \<times> mount_script) list \<Rightarrow> nat list \<Rightarrow> plugin_registry \<Rightarrow>
     (plugin_registry, plugin_error) outcome" where
  "mount_all describe submitted order registry =
     for_each (\<lambda>index. case submitted ! index of (d, script) \<Rightarrow> mount_plugin describe d script) order registry"

definition registrar_finish ::
    "(plugin_error \<Rightarrow> string) \<Rightarrow> service_host \<Rightarrow> (plugin_descriptor \<times> mount_script) list \<Rightarrow>
     capability_id list \<Rightarrow> (capability_id \<times> string) list \<Rightarrow> (plugin_registry \<times> kernel_trace) activation" where
  "registrar_finish describe host submitted requirements selections =
     (let descriptors = map fst submitted
      in and_then (map_err (\<lambda>e. (e, [])) (resolve_composition descriptors requirements selections))
           (\<lambda>(bindings, order).
              and_then (map_err (\<lambda>e. (e, []))
                  (mount_all describe submitted order (registry_empty\<lparr>pr_bindings := bindings\<rparr>)))
                (\<lambda>registry. activate host descriptors order (registry, []))))"

end
