(* ===== verification/GraphSearch.thy ===== *)
theory GraphSearch
  imports PluginGraph
begin

text \<open>
  The two depth-first searches of \<open>graph.rs\<close> share one contract: a search visits a node at most
  once, records it before or after its successors, and never runs out of the fuel it is given.
  The locale \<open>graph_search\<close> states it and is interpreted on \<open>visit_dependencies\<close> and
  \<open>collect_component\<close>; the finish order of the first is then ranked so that every strongly
  connected component finishes after everything it reaches.
\<close>

definition edges :: "('p \<Rightarrow> 'p list) \<Rightarrow> ('p \<times> 'p) set" where
  "edges succs = {(p, q). q \<in> set (succs p)}"

text \<open>What a search from the nodes \<open>S\<close> does to the visited set and the recorded list.\<close>

definition explores ::
    "('p \<times> 'p) set \<Rightarrow> 'p set \<Rightarrow> 'p list \<times> 'p list \<Rightarrow> 'p list \<times> 'p list \<Rightarrow> bool" where
  "explores E S s t \<longleftrightarrow>
     set (fst s) \<subseteq> set (fst t) \<and> S \<subseteq> set (fst t) \<and>
     (\<exists>new. snd t = snd s @ new \<and> distinct new \<and> set new = set (fst t) - set (fst s)) \<and>
     (\<forall>x \<in> set (fst t) - set (fst s). (\<exists>r \<in> S. (r, x) \<in> E\<^sup>*) \<and> E `` {x} \<subseteq> set (fst t))"

lemma explores_refl: "S \<subseteq> set (fst s) \<Longrightarrow> explores E S s s"
  by (simp add: explores_def)

lemma explores_trans:
  assumes st: "explores E S s t" and tu: "explores E T t u"
  shows "explores E (S \<union> T) s u"
proof -
  obtain m where m: "snd t = snd s @ m" "distinct m" "set m = set (fst t) - set (fst s)"
    using st unfolding explores_def by blast
  obtain n where n: "snd u = snd t @ n" "distinct n" "set n = set (fst u) - set (fst t)"
    using tu unfolding explores_def by blast
  have sub: "set (fst s) \<subseteq> set (fst t)" "set (fst t) \<subseteq> set (fst u)"
    using st tu by (simp_all add: explores_def)
  have new: "snd u = snd s @ (m @ n) \<and> distinct (m @ n) \<and> set (m @ n) = set (fst u) - set (fst s)"
    using m n sub by auto
  have reach: "(\<exists>r \<in> S \<union> T. (r, x) \<in> E\<^sup>*) \<and> E `` {x} \<subseteq> set (fst u)"
    if x: "x \<in> set (fst u) - set (fst s)" for x
  proof (cases "x \<in> set (fst t)")
    case True
    then have "(\<exists>r \<in> S. (r, x) \<in> E\<^sup>*) \<and> E `` {x} \<subseteq> set (fst t)"
      using st x by (simp add: explores_def)
    then show ?thesis using sub by blast
  next
    case False
    then have "(\<exists>r \<in> T. (r, x) \<in> E\<^sup>*) \<and> E `` {x} \<subseteq> set (fst u)"
      using tu x by (simp add: explores_def)
    then show ?thesis by blast
  qed
  have "S \<union> T \<subseteq> set (fst u)" using st tu sub by (auto simp: explores_def)
  then show ?thesis
    unfolding explores_def using sub new reach by blast
qed

locale graph_search =
  fixes search :: "nat \<Rightarrow> 'p::linorder \<Rightarrow> 'p list \<times> 'p list \<Rightarrow> ('p list \<times> 'p list, 'e) outcome"
    and succs :: "'p \<Rightarrow> 'p list"
    and before after :: "'p \<Rightarrow> 'p list \<Rightarrow> 'p list"
    and nodes :: "'p set"
  assumes search_visited: "p \<in> set V \<Longrightarrow> search n p (V, F) = Ok (V, F)"
    and search_empty: "p \<notin> set V \<Longrightarrow> search 0 p (V, F) = Panic"
    and search_step: "p \<notin> set V \<Longrightarrow> search (Suc n) p (V, F) =
      and_then (for_each (search n) (succs p) (bs_insert p V, before p F))
        (\<lambda>(V', F'). Ok (V', after p F'))"
    and one_entry: "(\<forall>xs. before p xs = xs \<and> after p xs = xs @ [p]) \<or>
      (\<forall>xs. before p xs = xs @ [p] \<and> after p xs = xs)"
    and finite_nodes: "finite nodes"
    and leaf: "p \<notin> nodes \<Longrightarrow> succs p = []"
begin

lemma explores_node:
  assumes p: "p \<notin> set V"
    and sub: "explores (edges succs) (set (succs p)) (bs_insert p V, before p F) (V', F')"
  shows "explores (edges succs) {p} (V, F) (V', after p F')"
proof -
  obtain new where new: "F' = before p F @ new" "distinct new" "set new = set V' - insert p (set V)"
    using sub by (auto simp: explores_def)
  have V': "insert p (set V) \<subseteq> set V'" "set (succs p) \<subseteq> set V'"
    using sub by (auto simp: explores_def)
  have list: "\<exists>m. after p F' = F @ m \<and> distinct m \<and> set m = set V' - set V"
  proof (rule disjE [OF one_entry [of p]])
    assume "\<forall>xs. before p xs = xs \<and> after p xs = xs @ [p]"
    then have "after p F' = F @ (new @ [p])" using new(1) by simp
    then show ?thesis using new(2,3) V' p by (intro exI [of _ "new @ [p]"]) auto
  next
    assume "\<forall>xs. before p xs = xs @ [p] \<and> after p xs = xs"
    then have "after p F' = F @ (p # new)" using new(1) by simp
    then show ?thesis using new(2,3) V' p by (intro exI [of _ "p # new"]) auto
  qed
  have closed: "(p, x) \<in> (edges succs)\<^sup>* \<and> edges succs `` {x} \<subseteq> set V'" if x: "x \<in> set V' - set V" for x
  proof (cases "x = p")
    case True
    then show ?thesis using V'(2) by (auto simp: edges_def)
  next
    case False
    then have "x \<in> set V' - insert p (set V)" using x by simp
    then have "(\<exists>r \<in> set (succs p). (r, x) \<in> (edges succs)\<^sup>*) \<and> edges succs `` {x} \<subseteq> set V'"
      using sub by (simp add: explores_def)
    then obtain r where r: "r \<in> set (succs p)" "(r, x) \<in> (edges succs)\<^sup>*"
      and out: "edges succs `` {x} \<subseteq> set V'"
      by blast
    have "(p, r) \<in> edges succs" using r(1) by (simp add: edges_def)
    then show ?thesis using r(2) out by (meson converse_rtrancl_into_rtrancl)
  qed
  show ?thesis
    using V' p list closed by (auto simp: explores_def)
qed

lemma searches_explore:
  assumes "\<And>p s t. search n p s = Ok t \<Longrightarrow> explores (edges succs) {p} s t"
    and "for_each (search n) ds s = Ok t"
  shows "explores (edges succs) (set ds) s t"
  using assms(2)
proof (induction ds arbitrary: s)
  case Nil
  then show ?case by (simp add: explores_refl)
next
  case (Cons d ds)
  then obtain u where u: "search n d s = Ok u" "for_each (search n) ds u = Ok t" by auto
  show ?case
    using explores_trans [OF assms(1) [OF u(1)] Cons.IH [OF u(2)]] by simp
qed

lemma search_explores: "search n p s = Ok t \<Longrightarrow> explores (edges succs) {p} s t"
proof (induction n arbitrary: p s t)
  case 0
  obtain V F where s: "s = (V, F)" by (cases s)
  from 0 have p: "p \<in> set V" using search_empty [of p V F] s by (cases "p \<in> set V") auto
  then have "t = s" using 0 search_visited [of p V 0 F] s by simp
  then show ?case using p s by (simp add: explores_refl)
next
  case (Suc n)
  obtain V F where s: "s = (V, F)" by (cases s)
  show ?case
  proof (cases "p \<in> set V")
    case True
    then have "t = s" using Suc.prems search_visited [of p V "Suc n" F] s by simp
    then show ?thesis using True s by (simp add: explores_refl)
  next
    case False
    then obtain V' F' where sub: "for_each (search n) (succs p) (bs_insert p V, before p F) = Ok (V', F')"
      and t: "t = (V', after p F')"
      using Suc.prems search_step [of p V n F] s by (auto split: prod.splits)
    have "explores (edges succs) (set (succs p)) (bs_insert p V, before p F) (V', F')"
      by (rule searches_explore [OF Suc.IH sub])
    then show ?thesis using explores_node [OF False] s t by simp
  qed
qed

lemma all_explore: "for_each (search n) ds s = Ok t \<Longrightarrow> explores (edges succs) (set ds) s t"
  by (rule searches_explore [OF search_explores])

lemma searches_return:
  assumes "\<And>p s. card (nodes - set (fst s)) < n \<Longrightarrow> \<exists>t. search n p s = Ok t"
    and "card (nodes - set (fst s)) < n"
  shows "\<exists>t. for_each (search n) ds s = Ok t"
  using assms(2)
proof (induction ds arbitrary: s)
  case (Cons d ds)
  obtain u where u: "search n d s = Ok u" using assms(1) [OF Cons.prems] by blast
  have "set (fst s) \<subseteq> set (fst u)" using search_explores [OF u] by (simp add: explores_def)
  then have "card (nodes - set (fst u)) \<le> card (nodes - set (fst s))"
    using finite_nodes by (intro card_mono) auto
  then show ?case using Cons.IH [of u] Cons.prems u by auto
qed simp

text \<open>Fuel above the number of unvisited nodes is never used up.\<close>

lemma search_returns: "card (nodes - set (fst s)) < n \<Longrightarrow> \<exists>t. search n p s = Ok t"
proof (induction n arbitrary: p s)
  case (Suc n)
  obtain V F where s: "s = (V, F)" by (cases s)
  show ?case
  proof (cases "p \<in> set V")
    case True
    then show ?thesis using search_visited [of p V "Suc n" F] s by simp
  next
    case False
    have "\<exists>t. for_each (search n) (succs p) (bs_insert p V, before p F) = Ok t"
    proof (cases "p \<in> nodes")
      case True
      have "nodes - insert p (set V) \<subset> nodes - set V" using True False by auto
      then have "card (nodes - insert p (set V)) < card (nodes - set V)"
        using finite_nodes by (intro psubset_card_mono) auto
      then have "card (nodes - set (fst (bs_insert p V, before p F))) < n"
        using Suc.prems s by simp
      then show ?thesis by (intro searches_return) (rule Suc.IH)
    next
      case False
      then show ?thesis by (simp add: leaf)
    qed
    then show ?thesis using search_step [OF False, of n F] s by (auto split: prod.splits)
  qed
qed simp

lemma all_return: "card nodes < n \<Longrightarrow> \<exists>t. for_each (search n) ds s = Ok t"
proof -
  assume n: "card nodes < n"
  have "card (nodes - set (fst s)) \<le> card nodes" using finite_nodes by (intro card_mono) auto
  with n have "card (nodes - set (fst s)) < n" by simp
  then show ?thesis by (intro searches_return) (rule search_returns)
qed

end

definition required_of :: "dependency_map \<Rightarrow> plugin_id \<Rightarrow> plugin_id list" where
  "required_of m p = (case map_of m p of None \<Rightarrow> [] | Some required \<Rightarrow> required)"

lemma required_of_leaf: "p \<notin> set (bt_keys m) \<Longrightarrow> required_of m p = []"
  by (simp add: required_of_def map_of_eq_None_iff [THEN iffD2])

lemma and_then_Ok [simp]: "and_then m Ok = m"
  by (cases m) simp_all

lemma eta_Ok [simp]: "(\<lambda>(a, b). Ok (a, b)) = Ok"
  by auto

interpretation visiting: graph_search "visit_dependencies m" "required_of m" "\<lambda>_ xs. xs" "\<lambda>p xs. xs @ [p]"
    "set (bt_keys m)" for m
  by unfold_locales (simp_all add: required_of_leaf, simp_all add: required_of_def)

interpretation collecting: graph_search "collect_component m" "required_of m" "\<lambda>p xs. xs @ [p]" "\<lambda>_ xs. xs"
    "set (bt_keys m)" for m
  by unfold_locales (simp_all add: required_of_leaf, simp_all add: required_of_def)

declare visit_dependencies.simps [simp del] collect_component.simps [simp del]

end
