(* ===== verification/Components.thy ===== *)
theory Components
  imports GraphSearch
begin

text \<open>
  The search for the smallest cyclic component of \<open>graph.rs\<close>: the finish order of the first
  pass ranks the strongly connected components, so each component the second pass collects
  over the reversed edges is exactly one of them.
\<close>

section \<open>Finish order\<close>

definition mutual :: "('p \<times> 'p) set \<Rightarrow> 'p \<Rightarrow> 'p \<Rightarrow> bool" where
  "mutual E x y \<longleftrightarrow> (x, y) \<in> E\<^sup>* \<and> (y, x) \<in> E\<^sup>*"

definition not_after :: "'p list \<Rightarrow> 'p \<Rightarrow> 'p \<Rightarrow> bool" where
  "not_after F y w \<longleftrightarrow> (\<exists>us vs. F = us @ w # vs \<and> y \<in> set (us @ [w]))"

text \<open>
  \<open>V\<close> holds the visited nodes, \<open>F\<close> the finished ones in the order they finished. A visited
  node that has not finished is on the search's current path.
\<close>

definition ranked :: "('p \<times> 'p) set \<Rightarrow> 'p set \<Rightarrow> 'p list \<Rightarrow> bool" where
  "ranked E V F \<longleftrightarrow>
     distinct F \<and> set F \<subseteq> V \<and> (\<forall>x \<in> set F. E `` {x} \<subseteq> V) \<and>
     (\<forall>x \<in> set F. \<forall>y. (x, y) \<in> E\<^sup>* \<longrightarrow>
        (\<exists>w. mutual E w x \<and> not_after F y w) \<or> (\<exists>g \<in> V - set F. mutual E g x))"

lemma mutual_sym: "mutual E x y \<Longrightarrow> mutual E y x"
  by (simp add: mutual_def)

lemma mutual_trans: "mutual E x y \<Longrightarrow> mutual E y z \<Longrightarrow> mutual E x z"
  unfolding mutual_def by (meson rtrancl_trans)

lemma mutual_refl [simp]: "mutual E x x"
  by (simp add: mutual_def)

lemma not_after_append: "not_after F y w \<Longrightarrow> not_after (F @ zs) y w"
  unfolding not_after_def by (metis append.assoc append_Cons)

lemma not_after_last: "y \<in> set (F @ [w]) \<Longrightarrow> not_after (F @ [w]) y w"
  unfolding not_after_def by blast

lemma ranked_Nil [simp]: "ranked E V []"
  by (simp add: ranked_def)

lemma ranked_grey: "ranked E V F \<Longrightarrow> V \<subseteq> W \<Longrightarrow> ranked E W F"
  unfolding ranked_def by (meson Diff_mono in_mono order_refl order_trans)

text \<open>A path that leaves the visited nodes does so from a node on the current path.\<close>

lemma escape_from_grey:
  assumes "(p, y) \<in> E\<^sup>*" "p \<in> V" "y \<notin> V" "\<And>x. x \<in> V \<Longrightarrow> x \<notin> G \<Longrightarrow> E `` {x} \<subseteq> V"
  shows "\<exists>g \<in> V \<inter> G. (p, g) \<in> E\<^sup>*"
  using assms(1,3)
proof (induction rule: rtrancl_induct)
  case base
  then show ?case using assms(2) by simp
next
  case (step x y)
  show ?case
  proof (cases "x \<in> V")
    case True
    then have "x \<in> G" using assms(4) [of x] step by blast
    then show ?thesis using True step by blast
  next
    case False
    then show ?thesis by (rule step.IH)
  qed
qed

lemma ranked_finish:
  assumes r: "ranked E V F" and p: "p \<in> V" "p \<notin> set F" and succ: "E `` {p} \<subseteq> V"
    and grey: "\<And>g. g \<in> V - set F \<Longrightarrow> (g, p) \<in> E\<^sup>*"
  shows "ranked E V (F @ [p])"
proof -
  let ?ok = "\<lambda>x y. (\<exists>w. mutual E w x \<and> not_after (F @ [p]) y w) \<or>
                   (\<exists>g \<in> V - set (F @ [p]). mutual E g x)"
  have own: "?ok p y" if y: "(p, y) \<in> E\<^sup>*" for y
  proof (cases "y \<in> set (F @ [p])")
    case True
    then show ?thesis by (metis not_after_last mutual_refl)
  next
    case False
    have closed: "E `` {x} \<subseteq> V" if "x \<in> V" "x \<notin> V - set (F @ [p])" for x
      using that r succ by (auto simp: ranked_def)
    have "\<exists>g \<in> V - set (F @ [p]). (p, g) \<in> E\<^sup>*"
    proof (cases "y \<in> V")
      case True
      then show ?thesis using False y by blast
    next
      case outside: False
      show ?thesis
        using escape_from_grey [OF y p(1) outside, of "V - set (F @ [p])"] closed by blast
    qed
    then show ?thesis using grey by (auto simp: mutual_def)
  qed
  have "?ok x y" if x: "x \<in> set F" and y: "(x, y) \<in> E\<^sup>*" for x y
  proof -
    consider w where "mutual E w x" "not_after F y w" | g where "g \<in> V - set F" "mutual E g x"
      using r x y unfolding ranked_def by blast
    then show ?thesis
    proof cases
      case 1
      then show ?thesis by (metis not_after_append)
    next
      case 2
      show ?thesis
      proof (cases "g = p")
        case True
        then have px: "mutual E p x" using 2 by simp
        then have "(p, y) \<in> E\<^sup>*" using y by (auto simp: mutual_def)
        then consider w where "mutual E w p" "not_after (F @ [p]) y w"
          | h where "h \<in> V - set (F @ [p])" "mutual E h p"
          using own by blast
        then show ?thesis using px by cases (metis mutual_trans)+
      next
        case False
        then show ?thesis using 2 by auto
      qed
    qed
  qed
  with own have "\<forall>x \<in> set (F @ [p]). \<forall>y. (x, y) \<in> E\<^sup>* \<longrightarrow> ?ok x y" by auto
  moreover have "distinct (F @ [p])" "set (F @ [p]) \<subseteq> V" "\<forall>x \<in> set (F @ [p]). E `` {x} \<subseteq> V"
    using r p succ by (auto simp: ranked_def)
  ultimately show ?thesis unfolding ranked_def by blast
qed

abbreviation requires :: "dependency_map \<Rightarrow> (plugin_id \<times> plugin_id) set" where
  "requires m \<equiv> edges (required_of m)"

lemma visits_ranked:
  assumes step: "\<And>p s t. visit_dependencies m n p s = Ok t \<Longrightarrow> ranked (requires m) (set (fst s)) (snd s) \<Longrightarrow>
      \<forall>g \<in> set (fst s) - set (snd s). (g, p) \<in> (requires m)\<^sup>* \<Longrightarrow>
      ranked (requires m) (set (fst t)) (snd t) \<and> set (fst t) - set (snd t) = set (fst s) - set (snd s)"
    and "for_each (visit_dependencies m n) ds s = Ok t" "ranked (requires m) (set (fst s)) (snd s)"
    and "\<forall>g \<in> set (fst s) - set (snd s). \<forall>d \<in> set ds. (g, d) \<in> (requires m)\<^sup>*"
  shows "ranked (requires m) (set (fst t)) (snd t) \<and> set (fst t) - set (snd t) = set (fst s) - set (snd s)"
  using assms(2-)
proof (induction ds arbitrary: s)
  case (Cons d ds)
  then obtain u where u: "visit_dependencies m n d s = Ok u" "for_each (visit_dependencies m n) ds u = Ok t"
    by auto
  have su: "ranked (requires m) (set (fst u)) (snd u) \<and> set (fst u) - set (snd u) = set (fst s) - set (snd s)"
    by (rule step [OF u(1) Cons.prems(2)]) (use Cons.prems(3) in simp)
  have "ranked (requires m) (set (fst t)) (snd t) \<and> set (fst t) - set (snd t) = set (fst u) - set (snd u)"
    by (rule Cons.IH [OF u(2)]) (use su Cons.prems(3) in auto)
  with su show ?case by simp
qed simp

lemma visit_ranked:
  "visit_dependencies m n p s = Ok t \<Longrightarrow> ranked (requires m) (set (fst s)) (snd s) \<Longrightarrow>
   \<forall>g \<in> set (fst s) - set (snd s). (g, p) \<in> (requires m)\<^sup>* \<Longrightarrow>
   ranked (requires m) (set (fst t)) (snd t) \<and> set (fst t) - set (snd t) = set (fst s) - set (snd s)"
proof (induction n arbitrary: p s t)
  case 0
  then show ?case
    by (cases s) (auto simp: visit_dependencies.simps split: if_splits)
next
  case (Suc n)
  obtain V F where s: "s = (V, F)" by (cases s)
  show ?case
  proof (cases "p \<in> set V")
    case True
    then have "t = s" using Suc.prems(1) visiting.search_visited [of p V m "Suc n" F] s by simp
    then show ?thesis using Suc.prems(2) by simp
  next
    case False
    then obtain V' F' where sub: "for_each (visit_dependencies m n) (required_of m p) (bs_insert p V, F) = Ok (V', F')"
      and t: "t = (V', F' @ [p])"
      using Suc.prems(1) visiting.search_step [of p V m n F] s by (auto split: prod.splits)
    have F: "ranked (requires m) (set V) F" "p \<notin> set F" using Suc.prems(2) s False by (auto simp: ranked_def)
    have r: "ranked (requires m) (insert p (set V)) F" by (rule ranked_grey [OF F(1)]) auto
    have grey: "(g, p) \<in> (requires m)\<^sup>*" if "g \<in> insert p (set V) - set F" for g
      using that Suc.prems(3) s by auto
    have pd: "(p, d) \<in> requires m" if "d \<in> set (required_of m p)" for d
      using that by (simp add: edges_def)
    have fin: "ranked (requires m) (set V') F' \<and> set V' - set F' = insert p (set V) - set F"
    proof -
      have "\<forall>g \<in> insert p (set V) - set F. \<forall>d \<in> set (required_of m p). (g, d) \<in> (requires m)\<^sup>*"
        using grey pd by (meson rtrancl_into_rtrancl)
      then show ?thesis
        using visits_ranked [OF Suc.IH sub] r by simp
    qed
    have out: "explores (requires m) (set (required_of m p)) (bs_insert p V, F) (V', F')"
      by (rule visiting.all_explore [OF sub])
    have "p \<in> set V' - set F'" using fin F(2) by auto
    moreover have "requires m `` {p} \<subseteq> set V'" using out by (auto simp: explores_def edges_def)
    ultimately have "ranked (requires m) (set V') (F' @ [p])"
      using fin grey by (intro ranked_finish) auto
    moreover have "set V' - set (F' @ [p]) = set V - set F"
      using fin False F(2) by auto
    ultimately show ?thesis using t s by simp
  qed
qed

section \<open>Reversed edges\<close>

definition closed_map :: "dependency_map \<Rightarrow> bool" where
  "closed_map m \<longleftrightarrow> (\<forall>p q. (p, q) \<in> requires m \<longrightarrow> q \<in> set (bt_keys m))"

lemma requires_key: "(p, q) \<in> requires m \<Longrightarrow> p \<in> set (bt_keys m)"
  using required_of_leaf [of p m] by (fastforce simp: edges_def)

lemma required_of_modify:
  "set (required_of (bt_modify d (bs_insert p) r) q) =
     set (required_of r q) \<union> (if q = d \<and> d \<in> fst ` set r then {p} else {})"
proof (cases "map_of r d")
  case None
  then show ?thesis by (auto simp: required_of_def map_of_eq_None_iff [symmetric])
next
  case (Some v)
  then have "d \<in> fst ` set r" by (metis map_of_eq_None_iff option.distinct(1))
  with Some show ?thesis by (auto simp: required_of_def)
qed

lemma reverse_entry:
  assumes "\<forall>d \<in> set required. d \<in> fst ` set r"
  shows "\<exists>r'. for_each (reverse_edge p) required r = Ok r' \<and>
         bt_keys r' = bt_keys r \<and>
         (\<forall>q. set (required_of r' q) = set (required_of r q) \<union> (if q \<in> set required then {p} else {}))"
  using assms
proof (induction required arbitrary: r)
  case (Cons d required)
  let ?r = "bt_modify d (bs_insert p) r"
  have "\<forall>e \<in> set required. e \<in> fst ` set ?r" using Cons.prems by simp
  from Cons.IH [OF this] show ?case
    using Cons.prems by (auto simp: required_of_modify reverse_edge_def)
qed simp

lemma reverse_entries:
  assumes "\<forall>(p, required) \<in> set es. \<forall>d \<in> set required. d \<in> fst ` set r"
  shows "\<exists>r'. for_each reverse_edges es r = Ok r' \<and>
         bt_keys r' = bt_keys r \<and>
         (\<forall>q. set (required_of r' q) =
            set (required_of r q) \<union> {p. \<exists>required. (p, required) \<in> set es \<and> q \<in> set required})"
  using assms
proof (induction es arbitrary: r)
  case (Cons e es)
  obtain p required where e: "e = (p, required)" by (cases e)
  have "\<forall>d \<in> set required. d \<in> fst ` set r" using Cons.prems e by simp
  from reverse_entry [OF this, of p] obtain u where
    u: "for_each (reverse_edge p) required r = Ok u"
    and keys: "bt_keys u = bt_keys r"
    and req: "\<And>q. set (required_of u q) = set (required_of r q) \<union> (if q \<in> set required then {p} else {})"
    by blast
  have "fst ` set u = fst ` set r" using keys by (metis list.set_map)
  then have "\<forall>(p, required) \<in> set es. \<forall>d \<in> set required. d \<in> fst ` set u"
    using Cons.prems by auto
  from Cons.IH [OF this] obtain v where
    v: "for_each reverse_edges es u = Ok v"
    and kv: "bt_keys v = bt_keys u"
    and rv: "\<And>q. set (required_of v q) =
            set (required_of u q) \<union> {p. \<exists>required. (p, required) \<in> set es \<and> q \<in> set required}"
    by blast
  have "set (required_of v q) =
      set (required_of r q) \<union> {p. \<exists>required. (p, required) \<in> set (e # es) \<and> q \<in> set required}" for q
    unfolding rv req e by auto
  then show ?case using u v keys kv e by (simp add: reverse_edges_def)
qed simp

lemma reverse_dependencies_Ok:
  assumes wf: "bt_wf m" and closed: "closed_map m"
  shows "\<exists>r. reverse_dependencies m = Ok r \<and> bt_keys r = bt_keys m \<and> requires r = (requires m)\<inverse>"
proof -
  let ?r0 = "map (\<lambda>(plugin, _). (plugin, [])) m :: dependency_map"
  have keys0: "bt_keys ?r0 = bt_keys m" by (induction m) auto
  then have k0: "fst ` set ?r0 = set (bt_keys m)" by (metis list.set_map)
  have entry: "map_of m p = Some required \<longleftrightarrow> (p, required) \<in> set m" for p required
    using bt_wf_distinct [OF wf] by simp
  have req: "\<exists>required. (p, required) \<in> set m \<and> q \<in> set required" if "(p, q) \<in> requires m" for p q
    using that entry [of p]
    by (cases "map_of m p") (auto simp: edges_def required_of_def)
  have req': "(p, q) \<in> requires m" if "(p, required) \<in> set m" "q \<in> set required" for p q required
    using that entry [of p required] by (auto simp: edges_def required_of_def)
  have "\<forall>(p, required) \<in> set m. \<forall>d \<in> set required. d \<in> fst ` set ?r0"
    using closed req' k0 unfolding closed_map_def by blast
  from reverse_entries [OF this] obtain r where
    r: "reverse_dependencies m = Ok r" "bt_keys r = bt_keys ?r0"
    and rq: "\<And>q. set (required_of r q) =
       set (required_of ?r0 q) \<union> {p. \<exists>required. (p, required) \<in> set m \<and> q \<in> set required}"
    unfolding reverse_dependencies_def by blast
  have empty: "required_of ?r0 q = []" for q
    by (induction m) (auto simp: required_of_def split: option.splits)
  have "set (required_of r q) = {p. (p, q) \<in> requires m}" for q
    unfolding rq empty using req req' by auto
  then have "requires r = (requires m)\<inverse>" by (auto simp: edges_def)
  then show ?thesis using r keys0 by simp
qed

section \<open>Cyclic components\<close>

definition component_of :: "('p::linorder \<times> 'p) set \<Rightarrow> 'p \<Rightarrow> 'p list" where
  "component_of E p = sorted_list_of_set {q. mutual E p q}"

definition cyclic_components_in :: "('p::linorder \<times> 'p) set \<Rightarrow> 'p set \<Rightarrow> 'p list set" where
  "cyclic_components_in E U = component_of E ` {p \<in> U. (p, p) \<in> E\<^sup>+}"

lemma component_of_mutual: "mutual E p q \<Longrightarrow> component_of E q = component_of E p"
proof -
  assume pq: "mutual E p q"
  have "mutual E q x \<longleftrightarrow> mutual E p x" for x
    using mutual_trans [OF pq, of x] mutual_trans [OF mutual_sym [OF pq], of x] by blast
  then show ?thesis by (simp add: component_of_def)
qed

lemma cyclic_mutual: "mutual E p q \<Longrightarrow> (p, p) \<in> E\<^sup>+ \<Longrightarrow> (q, q) \<in> E\<^sup>+"
  unfolding mutual_def by (blast intro: rtrancl_trancl_trancl trancl_rtrancl_trancl)

lemma not_after_rev:
  assumes "distinct F" "List.rev F = xs @ p # ys" "not_after F p w"
  shows "w = p \<or> w \<in> set xs"
proof (cases "w = p")
  case False
  obtain us vs where F: "F = us @ w # vs" and p: "p \<in> set us"
    using assms(3) False unfolding not_after_def by auto
  obtain us1 us2 where us: "us = us1 @ p # us2" using p by (meson split_list)
  have F': "F = List.rev ys @ p # List.rev xs" using assms(2) by (simp add: rev_swap)
  have "us1 @ p # (us2 @ w # vs) = List.rev ys @ p # List.rev xs" using F F' us by simp
  moreover have "p \<notin> set us1" "p \<notin> set (us2 @ w # vs)" using assms(1) F us by auto
  moreover have "p \<notin> set (List.rev ys)" using assms(1) unfolding F' by auto
  ultimately have "us2 @ w # vs = List.rev xs"
    using append_Cons_eq_iff [of p us1 "us2 @ w # vs" "List.rev ys" "List.rev xs"] by blast
  then have "w \<in> set (List.rev xs)" by (metis in_set_conv_decomp)
  then show ?thesis by simp
qed simp

lemma preds_closed:
  assumes "(x, y) \<in> E\<^sup>*" "y \<in> U" "\<forall>b \<in> U. \<forall>a. (a, b) \<in> E \<longrightarrow> a \<in> U"
  shows "x \<in> U"
  using assms(1,2) by (induction rule: converse_rtrancl_induct) (use assms(3) in auto)

text \<open>
  The second pass. \<open>U\<close> is closed under predecessors, holds every node processed so far, and
  the components found are the cyclic ones of its nodes.
\<close>

definition second_pass_inv ::
    "(plugin_id \<times> plugin_id) set \<Rightarrow> plugin_id list \<Rightarrow> plugin_id list \<times> plugin_id list list \<Rightarrow> bool" where
  "second_pass_inv E processed s \<longleftrightarrow>
     (\<forall>y \<in> set (fst s). \<forall>x. (x, y) \<in> E \<longrightarrow> x \<in> set (fst s)) \<and>
     set processed \<subseteq> set (fst s) \<and>
     set (snd s) = cyclic_components_in E (set (fst s))"

lemma collected_component:
  assumes F: "distinct F" "List.rev F = xs @ p # ys"
    and ranked: "ranked E (set F) F" and dom: "\<And>x y. (x, y) \<in> E \<Longrightarrow> x \<in> set F"
    and inv: "\<forall>y \<in> set U. \<forall>x. (x, y) \<in> E \<longrightarrow> x \<in> set U" "set xs \<subseteq> set U" and p: "p \<notin> set U"
    and out: "explores (E\<inverse>) {p} (U, []) (U', coll)"
  shows "set U' = set U \<union> {q. mutual E p q}" "set coll = {q. mutual E p q}" "distinct coll"
    "\<forall>y \<in> set U'. \<forall>x. (x, y) \<in> E \<longrightarrow> x \<in> set U'"
proof -
  have coll: "distinct coll" "set coll = set U' - set U" "set U \<subseteq> set U'" "p \<in> set U'"
    and reach: "\<And>x. x \<in> set U' - set U \<Longrightarrow> (p, x) \<in> (E\<inverse>)\<^sup>* \<and> (E\<inverse>) `` {x} \<subseteq> set U'"
    using out by (auto simp: explores_def)
  have closed: "\<forall>y \<in> set U'. \<forall>x. (x, y) \<in> E \<longrightarrow> x \<in> set U'"
  proof (intro ballI allI impI)
    fix x y
    assume y: "y \<in> set U'" and xy: "(x, y) \<in> E"
    show "x \<in> set U'"
    proof (cases "y \<in> set U")
      case True
      then show ?thesis using inv(1) xy coll(3) by blast
    next
      case False
      then show ?thesis using reach [of y] y xy by blast
    qed
  qed
  have pF: "p \<in> set F"
  proof -
    have "p \<in> set (List.rev F)" unfolding F(2) by simp
    then show ?thesis by simp
  qed
  have "mutual E p x" if x: "x \<in> set U' - set U" for x
  proof -
    have xp: "(x, p) \<in> E\<^sup>*" using reach [OF x] by (simp add: rtrancl_converse)
    then have xF: "x \<in> set F" using pF dom by (metis converse_rtranclE)
    obtain w where w: "mutual E w x" "not_after F p w"
      using ranked xF xp unfolding ranked_def by blast
    have "w = p"
    proof (rule ccontr)
      assume "w \<noteq> p"
      then have "w \<in> set U" using not_after_rev [OF F w(2)] inv(2) by blast
      moreover have "(x, w) \<in> E\<^sup>*" using w(1) by (simp add: mutual_def)
      ultimately have "x \<in> set U" using inv(1) by (metis preds_closed)
      then show False using x by simp
    qed
    then show ?thesis using w(1) by simp
  qed
  moreover have "x \<in> set U' - set U" if x: "mutual E p x" for x
  proof -
    have "(x, p) \<in> E\<^sup>*" "(p, x) \<in> E\<^sup>*" using x by (simp_all add: mutual_def)
    then have "x \<in> set U'" "x \<in> set U \<Longrightarrow> p \<in> set U"
      using closed inv(1) coll(4) by (metis preds_closed)+
    then show ?thesis using p by blast
  qed
  ultimately have "set U' - set U = {q. mutual E p q}" by blast
  then show "set U' = set U \<union> {q. mutual E p q}" "set coll = {q. mutual E p q}" using coll by auto
  show "distinct coll" by (rule coll(1))
  show "\<forall>y \<in> set U'. \<forall>x. (x, y) \<in> E \<longrightarrow> x \<in> set U'" by (rule closed)
qed

lemma cyclic_in_union:
  "cyclic_components_in E (U \<union> {q. mutual E p q}) =
     cyclic_components_in E U \<union> (if (p, p) \<in> E\<^sup>+ then {component_of E p} else {})"
proof -
  have "component_of E ` {q. mutual E p q \<and> (q, q) \<in> E\<^sup>+} =
      (if (p, p) \<in> E\<^sup>+ then {component_of E p} else {})"
  proof (cases "(p, p) \<in> E\<^sup>+")
    case True
    then have "{q. mutual E p q \<and> (q, q) \<in> E\<^sup>+} = {q. mutual E p q}"
      using cyclic_mutual [of E p] by blast
    moreover have "component_of E ` {q. mutual E p q} = {component_of E p}"
    proof -
      have "component_of E ` {q. mutual E p q} \<subseteq> {component_of E p}"
        using component_of_mutual [of E p] by blast
      moreover have "component_of E p \<in> component_of E ` {q. mutual E p q}"
        using mutual_refl [of E p] by blast
      ultimately show ?thesis by blast
    qed
    ultimately show ?thesis using True by simp
  next
    case False
    then have "{q. mutual E p q \<and> (q, q) \<in> E\<^sup>+} = {}"
      using cyclic_mutual [of E _ p] mutual_sym [of E p] by blast
    then show ?thesis using False by simp
  qed
  moreover have "{q \<in> U \<union> {q. mutual E p q}. (q, q) \<in> E\<^sup>+} =
      {q \<in> U. (q, q) \<in> E\<^sup>+} \<union> {q. mutual E p q \<and> (q, q) \<in> E\<^sup>+}" by blast
  ultimately show ?thesis by (simp add: cyclic_components_in_def image_Un)
qed

lemma cyclic_iff_component:
  assumes c: "set c = {q. mutual (requires m) p q}" "distinct c"
  shows "(1 < length c \<or> is_self_cycle m c) \<longleftrightarrow> (p, p) \<in> (requires m)\<^sup>+"
proof -
  let ?E = "requires m"
  have len: "length c = card {q. mutual ?E p q}" using c distinct_card by metis
  have p: "p \<in> set c" using c by simp
  show ?thesis
  proof (cases "length c = 1")
    case True
    then obtain x where "c = [x]" by (metis One_nat_def length_0_conv length_Suc_conv)
    with p have cp: "c = [p]" by simp
    have "is_self_cycle m c \<longleftrightarrow> (p, p) \<in> ?E"
      unfolding cp is_self_cycle_def edges_def required_of_def by (cases "map_of m p") simp_all
    moreover have "(p, p) \<in> ?E" if pp: "(p, p) \<in> ?E\<^sup>+"
    proof -
      obtain q where q: "(p, q) \<in> ?E" "(q, p) \<in> ?E\<^sup>*" using pp by (meson tranclD)
      then have "q \<in> set c" using c(1) by (simp add: mutual_def r_into_rtrancl)
      then show ?thesis using cp q by simp
    qed
    ultimately show ?thesis using True by auto
  next
    case False
    have "length c \<noteq> 0" using p by auto
    then have gt: "1 < length c" using False by linarith
    have "\<exists>q \<in> set c. q \<noteq> p"
    proof (rule ccontr)
      assume "\<not> (\<exists>q \<in> set c. q \<noteq> p)"
      then have "set c \<subseteq> {p}" by blast
      then have "card (set c) \<le> card {p}" by (intro card_mono) simp_all
      then have "card (set c) \<le> 1" by simp
      then show False using gt distinct_card [OF c(2)] by simp
    qed
    then obtain q where "q \<noteq> p" "mutual ?E p q" using c(1) by blast
    then have "(p, q) \<in> ?E\<^sup>+" "(q, p) \<in> ?E\<^sup>+" by (auto simp: mutual_def dest: rtranclD)
    then have "(p, p) \<in> ?E\<^sup>+" by (rule trancl_trans)
    then show ?thesis using gt by simp
  qed
qed

lemma component_step_Ok:
  assumes m: "closed_map m" and r: "bt_keys r = bt_keys m" "requires r = (requires m)\<inverse>"
    and F: "distinct F" "List.rev F = xs @ p # ys" "set F = set (bt_keys m)"
    and ranked: "ranked (requires m) (set F) F"
    and inv: "second_pass_inv (requires m) xs s"
  shows "\<exists>t. component_step m r p s = Ok t \<and> second_pass_inv (requires m) (xs @ [p]) t"
proof -
  obtain U cs where s: "s = (U, cs)" by (cases s)
  show ?thesis
  proof (cases "p \<in> set U")
    case True
    then show ?thesis using inv s by (simp add: component_step_def second_pass_inv_def)
  next
    case False
    have "length r = length m" using r(1) by (metis length_map)
    then have "card (set (bt_keys r)) < Suc (length m)" using card_length [of "bt_keys r"] by simp
    then have "card (set (bt_keys r) - set (fst (U, []))) < Suc (length m)"
      by (meson Diff_subset List.finite_set card_mono le_less_trans)
    then obtain U' coll where coll: "collect_component r (Suc (length m)) p (U, []) = Ok (U', coll)"
      using collecting.search_returns [of r "(U, [])" "Suc (length m)" p] by auto
    have out: "explores ((requires m)\<inverse>) {p} (U, []) (U', coll)"
      using collecting.search_explores [OF coll] unfolding r(2) .
    have dom: "x \<in> set F" if "(x, y) \<in> requires m" for x y
      using requires_key [OF that] F(3) by simp
    have pre: "\<forall>y \<in> set U. \<forall>x. (x, y) \<in> requires m \<longrightarrow> x \<in> set U" "set xs \<subseteq> set U"
      "set cs = cyclic_components_in (requires m) (set U)"
      using inv s by (simp_all add: second_pass_inv_def)
    note c = collected_component [OF F(1,2) ranked dom pre(1,2) False out]
    have sorted: "sort coll = component_of (requires m) p"
      using c(2,3) by (simp add: component_of_def sorted_list_of_set_sort_remdups distinct_remdups_id
          flip: c(2))
    have cyc: "(1 < length coll \<or> is_self_cycle m (sort coll)) \<longleftrightarrow> (p, p) \<in> (requires m)\<^sup>+"
      using cyclic_iff_component [of "sort coll" m p] c by simp
    let ?cs = "if (p, p) \<in> (requires m)\<^sup>+ then cs @ [component_of (requires m) p] else cs"
    have "component_step m r p s = Ok (U', ?cs)"
      using False coll s cyc by (simp add: component_step_def Let_def sorted)
    moreover have "second_pass_inv (requires m) (xs @ [p]) (U', ?cs)"
      using c(4) pre(2,3) by (auto simp: second_pass_inv_def c(1) cyclic_in_union)
    ultimately show ?thesis by blast
  qed
qed

lemma component_steps_Ok:
  assumes m: "closed_map m" and r: "bt_keys r = bt_keys m" "requires r = (requires m)\<inverse>"
    and F: "distinct F" "List.rev F = xs @ ys" "set F = set (bt_keys m)"
    and ranked: "ranked (requires m) (set F) F"
    and inv: "second_pass_inv (requires m) xs s"
  shows "\<exists>t. for_each (component_step m r) ys s = Ok t \<and> second_pass_inv (requires m) (List.rev F) t"
  using F(2) inv
proof (induction ys arbitrary: xs s)
  case Nil
  then show ?case by simp
next
  case (Cons p ys)
  obtain t where t: "component_step m r p s = Ok t" "second_pass_inv (requires m) (xs @ [p]) t"
    using component_step_Ok [OF m r F(1) Cons.prems(1) F(3) ranked Cons.prems(2)] by blast
  obtain u where "for_each (component_step m r) ys t = Ok u" "second_pass_inv (requires m) (List.rev F) u"
    using Cons.IH [of "xs @ [p]" t] Cons.prems(1) t(2) by auto
  then show ?case using t(1) by simp
qed

lemma first_pass:
  assumes "closed_map m"
  shows "\<exists>V F. for_each (visit_dependencies m (Suc (length m))) (bt_keys m) ([], []) = Ok (V, F) \<and>
    distinct F \<and> set F = set (bt_keys m) \<and> ranked (requires m) (set F) F"
proof -
  let ?run = "for_each (visit_dependencies m (Suc (length m))) (bt_keys m) ([], [])"
  have "card (set (bt_keys m)) < Suc (length m)" using card_length [of "bt_keys m"] by simp
  then obtain t where run: "?run = Ok t" using visiting.all_return [of m] by blast
  obtain V F where t: "t = (V, F)" by (cases t)
  have ranked: "ranked (requires m) (set V) F \<and> set V - set F = {}"
    using visits_ranked [OF visit_ranked run] t by simp
  then have F: "distinct F" "set V = set F" by (auto simp: ranked_def)
  have out: "explores (requires m) (set (bt_keys m)) ([], []) (V, F)"
    using visiting.all_explore [OF run] t by simp
  then have sub: "set (bt_keys m) \<subseteq> set V"
    and reach: "\<And>x. x \<in> set V \<Longrightarrow> \<exists>k \<in> set (bt_keys m). (k, x) \<in> (requires m)\<^sup>*"
    by (simp_all add: explores_def)
  have "x \<in> set (bt_keys m)" if x: "x \<in> set V" for x
  proof -
    obtain k where "k \<in> set (bt_keys m)" "(k, x) \<in> (requires m)\<^sup>*" using reach [OF x] by blast
    then show ?thesis using assms by (metis closed_map_def rtranclE)
  qed
  then have "set F = set (bt_keys m)" using sub F(2) by blast
  then show ?thesis using run t F ranked by auto
qed

definition smallest_of :: "'p::linorder list set \<Rightarrow> 'p list option" where
  "smallest_of C = (if C = {} then None else Some (Min C))"

lemma smallest_cyclic_component_Ok:
  assumes wf: "bt_wf m" and m: "closed_map m"
  shows "smallest_cyclic_component m = Ok (smallest_of (cyclic_components_in (requires m) UNIV))"
proof -
  obtain V F where run: "for_each (visit_dependencies m (Suc (length m))) (bt_keys m) ([], []) = Ok (V, F)"
    and F: "distinct F" "set F = set (bt_keys m)" and ranked: "ranked (requires m) (set F) F"
    using first_pass [OF m] by blast
  obtain r where r: "reverse_dependencies m = Ok r" "bt_keys r = bt_keys m" "requires r = (requires m)\<inverse>"
    using reverse_dependencies_Ok [OF wf m] by blast
  have "second_pass_inv (requires m) [] ([], [])"
    by (simp add: second_pass_inv_def cyclic_components_in_def)
  then obtain U cs where second: "for_each (component_step m r) (List.rev F) ([], []) = Ok (U, cs)"
    "second_pass_inv (requires m) (List.rev F) (U, cs)"
    using component_steps_Ok [OF m r(2,3) F(1) _ F(2) ranked, of "[]" "List.rev F" "([], [])"] by auto
  have "{p \<in> set U. (p, p) \<in> (requires m)\<^sup>+} = {p. (p, p) \<in> (requires m)\<^sup>+}"
  proof -
    have "p \<in> set U" if pp: "(p, p) \<in> (requires m)\<^sup>+" for p
    proof -
      obtain q where "(p, q) \<in> requires m" using pp by (meson tranclD)
      then have "p \<in> set F" using requires_key F(2) by blast
      then show ?thesis using second(2) by (auto simp: second_pass_inv_def)
    qed
    then show ?thesis by blast
  qed
  then have cs: "set cs = cyclic_components_in (requires m) UNIV"
    using second(2) by (simp add: second_pass_inv_def cyclic_components_in_def)
  have "(case cs of [] \<Rightarrow> None | _ \<Rightarrow> Some (Min (set cs))) = smallest_of (set cs)"
    by (cases cs) (simp_all add: smallest_of_def)
  then show ?thesis
    using run r(1) second(1) cs by (simp add: smallest_cyclic_component_def)
qed

end
