(* ===== verification/TopologicalOrder.thy ===== *)
theory TopologicalOrder
  imports Components
begin

text \<open>
  The ordered topological sort of \<open>graph.rs\<close>: the indegree table counts the dependencies not
  yet emitted, a plugin is ready when none is left, and an incomplete order leaves a cycle.
\<close>

section \<open>Orders\<close>

definition topological :: "('p \<times> 'p) set \<Rightarrow> 'p list \<Rightarrow> bool" where
  "topological E D \<longleftrightarrow> (\<forall>xs p ys. D = xs @ p # ys \<longrightarrow> E `` {p} \<subseteq> set xs)"

lemma topological_Nil [simp]: "topological E []"
  by (simp add: topological_def)

lemma topological_snoc:
  assumes "topological E D" "E `` {p} \<subseteq> set D"
  shows "topological E (D @ [p])"
  unfolding topological_def
proof (intro allI impI)
  fix xs q ys
  assume eq: "D @ [p] = xs @ q # ys"
  show "E `` {q} \<subseteq> set xs"
  proof (cases ys rule: rev_cases)
    case Nil
    then show ?thesis using eq assms(2) by simp
  next
    case (snoc zs z)
    then have "D = xs @ q # zs" using eq by simp
    then show ?thesis using assms(1) by (simp add: topological_def)
  qed
qed

lemma topological_reach:
  assumes "topological E D" "(p, y) \<in> E\<^sup>+" "D = xs @ p # ys"
  shows "y \<in> set xs"
  using assms(2)
proof (induction rule: trancl_induct)
  case (base y)
  then show ?case using assms(1,3) unfolding topological_def by blast
next
  case (step y z)
  obtain as bs where xs: "xs = as @ y # bs" using step.IH by (meson split_list)
  then have "D = as @ y # (bs @ p # ys)" using assms(3) by simp
  then have "z \<in> set as" using assms(1) step.hyps(2) unfolding topological_def by blast
  then show ?case using xs by simp
qed

lemma topological_acyclic:
  assumes "topological E D" "distinct D" "(p, p) \<in> E\<^sup>+"
  shows "p \<notin> set D"
proof
  assume "p \<in> set D"
  then obtain xs ys where D: "D = xs @ p # ys" by (meson split_list)
  then have "p \<in> set xs" using topological_reach [OF assms(1,3)] by simp
  then show False using assms(2) D by simp
qed

section \<open>Tables\<close>

lemma fold_pair:
  "fold (\<lambda>(a, b) (s, t). (f a b s, g a b t)) es (s, t) =
     (fold (\<lambda>(a, b). f a b) es s, fold (\<lambda>(a, b). g a b) es t)"
  by (induction es arbitrary: s t) auto

lemma map_of_mapped: "map_of (map (\<lambda>(k, v). (k, f v)) es) k = map_option f (map_of es k)"
  by (induction es) auto

lemma keys_mapped: "map fst (map (\<lambda>(k, v). (k, f v)) es) = map fst es"
  by (induction es) auto

lemma bt_collect_sorted:
  assumes "bt_wf es"
  shows "map_of (bt_collect es) = map_of es" "bt_keys (bt_collect es) = bt_keys es"
proof -
  show "map_of (bt_collect es) = map_of es"
    using bt_wf_distinct [OF assms] by (rule map_of_bt_collect_distinct)
  have "bs_wf (bt_keys (bt_collect es))" "bs_wf (bt_keys es)"
    using assms by (simp_all add: bt_keys_bs [symmetric])
  then show "bt_keys (bt_collect es) = bt_keys es" by (simp add: bs_eq_iff)
qed

lemma fold_length:
  "fold (\<lambda>(p, required). bt_insert p (length required)) es t =
     fold (\<lambda>(p, n). bt_insert p n) (map (\<lambda>(p, required). (p, length required)) es) t"
  by (induction es arbitrary: t) auto

lemma indegree_table:
  assumes "bt_wf m"
  shows "map_of (fst (dependency_tables m)) p = map_option length (map_of m p)"
    "bt_keys (fst (dependency_tables m)) = bt_keys m"
proof -
  let ?es = "map (\<lambda>(p, required). (p, length required)) m"
  have eq: "fst (dependency_tables m) = bt_collect ?es"
    by (simp add: dependency_tables_def fold_pair bt_collect_def fold_length)
  have wf: "bt_wf ?es" using assms unfolding bt_wf_def keys_mapped .
  show "map_of (fst (dependency_tables m)) p = map_option length (map_of m p)"
    unfolding eq bt_collect_sorted(1) [OF wf] by (rule map_of_mapped)
  show "bt_keys (fst (dependency_tables m)) = bt_keys m"
    unfolding eq bt_collect_sorted(2) [OF wf] by (rule keys_mapped)
qed

lemma dependents_entry:
  "set (required_of (fold (\<lambda>dependency. bt_entry dependency [] (bs_insert p)) ds t) q) =
     set (required_of t q) \<union> (if q \<in> set ds then {p} else {})"
proof (induction ds arbitrary: t)
  case (Cons d ds)
  have "set (required_of (bt_entry d [] (bs_insert p) t) q) =
      set (required_of t q) \<union> (if q = d then {p} else {})"
    by (auto simp: required_of_def split: option.splits)
  with Cons show ?case by auto
qed simp

lemma dependents_entry_wf:
  "(\<And>q. bs_wf (required_of t q)) \<Longrightarrow>
     bs_wf (required_of (fold (\<lambda>dependency. bt_entry dependency [] (bs_insert p)) ds t) q)"
proof (induction ds arbitrary: t)
  case (Cons d ds)
  have "bs_wf (required_of (bt_entry d [] (bs_insert p) t) r)" for r
    using Cons.prems [of r] Cons.prems [of d] by (simp add: required_of_def)
  with Cons.IH show ?case by simp
qed simp

lemma dependents_table:
  assumes "bt_wf m"
  shows "set (required_of (snd (dependency_tables m)) q) = {p. (p, q) \<in> requires m}"
    "bs_wf (required_of (snd (dependency_tables m)) q)"
proof -
  let ?add = "\<lambda>(p, required). fold (\<lambda>dependency. bt_entry dependency [] (bs_insert p)) required"
  have eq: "snd (dependency_tables m) = fold ?add m []"
    by (simp add: dependency_tables_def fold_pair)
  have sets: "set (required_of (fold ?add es t) q) =
      set (required_of t q) \<union> {p. \<exists>required. (p, required) \<in> set es \<and> q \<in> set required}" for es t
    by (induction es arbitrary: t) (auto simp: dependents_entry split: if_splits)
  have "(\<exists>required. (p, required) \<in> set m \<and> q \<in> set required) \<longleftrightarrow> (p, q) \<in> requires m" for p
    using bt_wf_distinct [OF assms]
    by (auto simp: edges_def required_of_def split: option.splits dest: map_of_SomeD)
  then show "set (required_of (snd (dependency_tables m)) q) = {p. (p, q) \<in> requires m}"
    unfolding eq sets by (simp add: required_of_def)
  have "(\<And>q. bs_wf (required_of t q)) \<Longrightarrow> bs_wf (required_of (fold ?add es t) q)" for es t
  proof (induction es arbitrary: t)
    case (Cons e es)
    show ?case
    proof (cases e)
      case (Pair p required)
      then show ?thesis using Cons.IH [OF dependents_entry_wf [OF Cons.prems]] by simp
    qed
  qed simp
  then show "bs_wf (required_of (snd (dependency_tables m)) q)"
    unfolding eq by (simp add: required_of_def)
qed

section \<open>The loop\<close>

lemma releases_Ok:
  assumes "distinct ds" "\<forall>q \<in> set ds. \<exists>n. map_of ind q = Some (Suc n)"
  shows "\<exists>ind' ready'. for_each release_dependent ds (ind, ready) = Ok (ind', ready') \<and>
    bt_keys ind' = bt_keys ind \<and>
    (\<forall>q. map_of ind' q = (if q \<in> set ds then map_option (\<lambda>n. n - 1) (map_of ind q) else map_of ind q)) \<and>
    set ready' = set ready \<union> {q \<in> set ds. map_of ind q = Some 1} \<and>
    (bs_wf ready \<longrightarrow> bs_wf ready')"
  using assms
proof (induction ds arbitrary: ind ready)
  case Nil
  then show ?case by simp
next
  case (Cons d ds)
  obtain n where n: "map_of ind d = Some (Suc n)" using Cons.prems(2) by auto
  let ?ind = "bt_modify d (\<lambda>n. n - 1) ind" and ?ready = "if n = 0 then bs_insert d ready else ready"
  have step: "release_dependent d (ind, ready) = Ok (?ind, ?ready)"
    using n by (simp add: release_dependent_def)
  have "distinct ds" "d \<notin> set ds" using Cons.prems(1) by simp_all
  moreover have "\<forall>q \<in> set ds. \<exists>n. map_of ?ind q = Some (Suc n)"
    using Cons.prems by auto
  ultimately obtain ind' ready' where
    r: "for_each release_dependent ds (?ind, ?ready) = Ok (ind', ready')" "bt_keys ind' = bt_keys ?ind"
    and look: "\<And>q. map_of ind' q = (if q \<in> set ds then map_option (\<lambda>n. n - 1) (map_of ?ind q) else map_of ?ind q)"
    and ready: "set ready' = set ?ready \<union> {q \<in> set ds. map_of ?ind q = Some 1}"
    and wf: "bs_wf ?ready \<longrightarrow> bs_wf ready'"
    using Cons.IH [of ?ind ?ready] by blast
  have look': "map_of ind' q = (if q \<in> set (d # ds) then map_option (\<lambda>n. n - 1) (map_of ind q) else map_of ind q)" for q
    using look [of q] \<open>d \<notin> set ds\<close> by auto
  have same: "{q \<in> set ds. map_of ?ind q = Some 1} = {q \<in> set ds. map_of ind q = Some 1}"
    using \<open>d \<notin> set ds\<close> by auto
  have ready': "set ready' = set ready \<union> {q \<in> set (d # ds). map_of ind q = Some 1}"
    unfolding ready same using n by auto
  show ?case
  proof (intro exI conjI allI)
    show "for_each release_dependent (d # ds) (ind, ready) = Ok (ind', ready')" using step r(1) by simp
    show "bt_keys ind' = bt_keys ind" using r(2) by simp
    show "bs_wf ready \<longrightarrow> bs_wf ready'" using wf by simp
  qed (rule look' ready')+
qed

text \<open>\<open>D\<close> lists the plugins emitted so far.\<close>

definition pending :: "plugin_id list \<Rightarrow> plugin_id list \<Rightarrow> nat" where
  "pending D required = length (filter (\<lambda>q. q \<notin> set D) required)"

definition kahn_inv :: "dependency_map \<Rightarrow> plugin_id list \<Rightarrow> kahn_state \<Rightarrow> bool" where
  "kahn_inv m D s \<longleftrightarrow>
     bt_keys (fst s) = bt_keys m \<and>
     (\<forall>p. map_of (fst s) p = map_option (pending D) (map_of m p)) \<and>
     set (snd s) = {p \<in> set (bt_keys m). p \<notin> set D \<and> set (required_of m p) \<subseteq> set D} \<and>
     bs_wf (snd s) \<and> distinct D \<and> set D \<subseteq> set (bt_keys m) \<and> topological (requires m) D"

definition required_wf :: "dependency_map \<Rightarrow> bool" where
  "required_wf m \<longleftrightarrow> bt_wf m \<and> (\<forall>p required. map_of m p = Some required \<longrightarrow> distinct required)"

lemma pending_snoc:
  assumes "distinct required" "p \<notin> set D"
  shows "pending (D @ [p]) required = (if p \<in> set required then pending D required - 1 else pending D required)"
proof -
  have split: "length (filter (\<lambda>q. q \<notin> set D) required) =
      length (filter (\<lambda>q. q \<notin> set D \<and> q \<noteq> p) required) + (if p \<in> set required then 1 else 0)"
    using assms(1)
  proof (induction required)
    case (Cons r required)
    then show ?case using assms(2) by (cases "r = p") auto
  qed simp
  have "filter (\<lambda>q. q \<notin> set (D @ [p])) required = filter (\<lambda>q. q \<notin> set D \<and> q \<noteq> p) required"
    by (rule filter_cong) auto
  then show ?thesis using split by (simp add: pending_def)
qed

lemma pending_zero: "pending D required = 0 \<longleftrightarrow> set required \<subseteq> set D"
  by (auto simp: pending_def filter_empty_conv)

lemma pending_one:
  assumes "distinct required" "p \<in> set required" "p \<notin> set D"
  shows "pending D required = 1 \<longleftrightarrow> set required \<subseteq> insert p (set D)"
proof -
  have "0 < pending D required"
    using assms(2,3) pending_zero [of D required] by auto
  moreover have "pending (D @ [p]) required = 0 \<longleftrightarrow> set required \<subseteq> insert p (set D)"
    by (simp add: pending_zero)
  ultimately show ?thesis
    using pending_snoc [OF assms(1,3)] assms(2) by simp linarith
qed

lemma kahn_inv_start:
  assumes "bt_wf m"
  shows "kahn_inv m [] (fst (dependency_tables m),
    bs_collect (map fst (filter (\<lambda>(_, indegree). indegree = 0) (fst (dependency_tables m)))))"
proof -
  let ?ind = "fst (dependency_tables m)"
  have wf: "bt_wf ?ind" using assms by (simp add: bt_wf_def indegree_table(2))
  have count: "map_of ?ind p = map_option (pending []) (map_of m p)" for p
    by (cases "map_of m p") (simp_all add: indegree_table(1) [OF assms] pending_def)
  have "p \<in> fst ` {e \<in> set ?ind. (\<lambda>(_, indegree). indegree = 0) e} \<longleftrightarrow> map_of ?ind p = Some 0" for p
    using bt_wf_distinct [OF wf] by (force simp: image_iff)
  moreover have "map_of ?ind p = Some 0 \<longleftrightarrow> p \<in> set (bt_keys m) \<and> set (required_of m p) \<subseteq> {}" for p
  proof (cases "map_of m p")
    case None
    then have "map_of ?ind p = None" "p \<notin> set (bt_keys m)"
      using count [of p] by (simp, simp add: map_of_eq_None_iff)
    then show ?thesis by simp
  next
    case (Some required)
    then have "p \<in> set (bt_keys m)" by (metis list.set_map map_of_eq_None_iff option.distinct(1))
    then show ?thesis using Some count [of p] by (simp add: pending_def required_of_def)
  qed
  ultimately have "fst ` {e \<in> set ?ind. (\<lambda>(_, indegree). indegree = 0) e} =
      {p \<in> set (bt_keys m). set (required_of m p) \<subseteq> {}}" by blast
  then show ?thesis
    using count indegree_table(2) [OF assms] by (simp add: kahn_inv_def)
qed

lemma kahn_step:
  assumes m: "required_wf m" and inv: "kahn_inv m D (ind, p # ready)"
  shows "\<exists>s. for_each release_dependent (required_of (snd (dependency_tables m)) p) (ind, ready) = Ok s \<and>
    kahn_inv m (D @ [p]) s"
proof -
  let ?ds = "required_of (snd (dependency_tables m)) p"
  have wf: "bt_wf m" using m by (simp add: required_wf_def)
  have keys: "bt_keys ind = bt_keys m" and D: "distinct D" "set D \<subseteq> set (bt_keys m)"
    and top: "topological (requires m) D" and ready_wf: "bs_wf (p # ready)"
    and count: "\<And>q. map_of ind q = map_option (pending D) (map_of m q)"
    and ready: "set (p # ready) = {q \<in> set (bt_keys m). q \<notin> set D \<and> set (required_of m q) \<subseteq> set D}"
    using inv by (simp_all add: kahn_inv_def)
  have p: "p \<in> set (bt_keys m)" "p \<notin> set D" "set (required_of m p) \<subseteq> set D" "p \<notin> set ready" "bs_wf ready"
    using ready ready_wf by (auto simp: bs_wf_Cons)
  have ds: "set ?ds = {q. p \<in> set (required_of m q)}" "distinct ?ds"
    using dependents_table [OF wf] bs_wf_distinct by (auto simp: edges_def)
  have entry: "\<exists>required. map_of m q = Some required \<and> required_of m q = required \<and> distinct required"
    if "q \<in> set (bt_keys m)" for q
  proof (cases "map_of m q")
    case None
    with that show ?thesis by (simp add: map_of_eq_None_iff)
  next
    case (Some required)
    then have "distinct required" using m unfolding required_wf_def by blast
    then show ?thesis using Some by (simp add: required_of_def)
  qed
  have dkey: "q \<in> set (bt_keys m)" if "q \<in> set ?ds" for q
    using that ds(1) requires_key [of q p m] by (simp add: edges_def)
  have pos: "\<exists>n. map_of ind q = Some (Suc n)" if q: "q \<in> set ?ds" for q
  proof -
    obtain required where r: "map_of m q = Some required" "required_of m q = required"
      using entry [OF dkey [OF q]] by blast
    have "p \<in> set required" using q ds(1) r by simp
    then have "pending D required \<noteq> 0" using p(2) by (auto simp: pending_zero)
    then show ?thesis using count [of q] r by (simp add: not0_implies_Suc)
  qed
  then obtain ind' ready' where
    rel: "for_each release_dependent ?ds (ind, ready) = Ok (ind', ready')" "bt_keys ind' = bt_keys ind"
    and look: "\<And>q. map_of ind' q = (if q \<in> set ?ds then map_option (\<lambda>n. n - 1) (map_of ind q) else map_of ind q)"
    and ready': "set ready' = set ready \<union> {q \<in> set ?ds. map_of ind q = Some 1}"
    and wf': "bs_wf ready'"
    using releases_Ok [OF ds(2), of ind ready] p(5) by blast
  have count': "map_of ind' q = map_option (pending (D @ [p])) (map_of m q)" for q
  proof (cases "map_of m q")
    case None
    then show ?thesis using look [of q] count [of q] by simp
  next
    case (Some required)
    then have "distinct required" using m unfolding required_wf_def by blast
    moreover have "q \<in> set ?ds \<longleftrightarrow> p \<in> set required" using ds(1) Some by (simp add: required_of_def)
    ultimately show ?thesis
      using look [of q] count [of q] Some pending_snoc [OF _ p(2)] by simp
  qed
  have fresh: "q \<notin> set D" if q: "p \<in> set (required_of m q)" for q
  proof
    assume "q \<in> set D"
    then obtain xs ys where "D = xs @ q # ys" by (meson split_list)
    moreover have "(q, p) \<in> requires m" using q by (simp add: edges_def)
    ultimately have "p \<in> set xs" using top unfolding topological_def by blast
    then show False using p(2) \<open>D = xs @ q # ys\<close> by simp
  qed
  have "q \<in> set ready' \<longleftrightarrow>
      q \<in> set (bt_keys m) \<and> q \<notin> set (D @ [p]) \<and> set (required_of m q) \<subseteq> set (D @ [p])" for q
  proof (cases "q \<in> set ?ds")
    case True
    then have pq: "p \<in> set (required_of m q)" using ds(1) by simp
    obtain required where r: "map_of m q = Some required" "required_of m q = required" "distinct required"
      using entry [OF dkey [OF True]] by blast
    have "q \<noteq> p" using pq p(2,3) by auto
    moreover have "q \<notin> set ready" using pq p(2) ready by auto
    ultimately show ?thesis
      using ready' True r fresh [OF pq] dkey [OF True] count [of q] pq
        pending_one [of required p D] p(2) by simp
  next
    case False
    then have "p \<notin> set (required_of m q)" using ds(1) by simp
    then have "set (required_of m q) \<subseteq> set (D @ [p]) \<longleftrightarrow> set (required_of m q) \<subseteq> set D" by auto
    moreover have "q \<in> set ready' \<longleftrightarrow> q \<in> set ready" using ready' False by simp
    moreover have "q \<in> set ready \<longleftrightarrow> q \<in> set (p # ready) \<and> q \<noteq> p" using p(4) by auto
    ultimately show ?thesis unfolding ready by auto
  qed
  then have set': "set ready' =
      {q \<in> set (bt_keys m). q \<notin> set (D @ [p]) \<and> set (required_of m q) \<subseteq> set (D @ [p])}" by blast
  have "topological (requires m) (D @ [p])"
    using top p(3) by (intro topological_snoc) (auto simp: edges_def)
  then have "kahn_inv m (D @ [p]) (ind', ready')"
    unfolding kahn_inv_def using rel(2) keys count' set' wf' D p(1,2) by simp
  then show ?thesis using rel(1) by blast
qed

text \<open>The loop emits the first index of every plugin, in a topological order, until none is ready.\<close>

lemma kahn_loop_Ok:
  assumes m: "required_wf m"
    and ix: "\<And>p. p \<in> set (bt_keys m) \<Longrightarrow> map_of indices p = Some [ix p]"
  shows "kahn_inv m D s \<Longrightarrow>
    \<exists>D' ind. kahn_loop indices (snd (dependency_tables m)) s (map ix D) = Ok (map ix D') \<and>
      kahn_inv m D' (ind, [])"
proof (induction "kahn_size s" arbitrary: s D rule: less_induct)
  case less
  obtain ind ready where s: "s = (ind, ready)" by (cases s)
  show ?case
  proof (cases ready)
    case Nil
    then show ?thesis using less.prems s by auto
  next
    case (Cons p rest)
    obtain t where t: "for_each release_dependent (required_of (snd (dependency_tables m)) p) (ind, rest) = Ok t"
      "kahn_inv m (D @ [p]) t"
      using kahn_step [OF m, of D ind p rest] less.prems s Cons by blast
    have "p \<in> set (bt_keys m)" using less.prems s Cons by (auto simp: kahn_inv_def)
    then have i: "map_of indices p = Some [ix p]" by (rule ix)
    have "kahn_size t \<le> kahn_size (ind, rest)" by (rule kahn_size_releases [OF t(1)])
    then have "kahn_size t < kahn_size s" using s Cons by (simp add: kahn_size_def)
    from less.hyps [OF this t(2)] show ?thesis
      using t(1) i s Cons by (simp add: required_of_def)
  qed
qed

section \<open>The resolved order\<close>

lemma requires_finite: "finite (requires m)"
proof -
  have "requires m \<subseteq> (SIGMA p : set (bt_keys m). set (required_of m p))"
    using requires_key [of _ _ m] by (auto simp: edges_def)
  then show ?thesis by (rule finite_subset) simp
qed

lemma stuck_cycle:
  assumes closed: "closed_map m" and inv: "kahn_inv m D (ind, [])"
    and p: "p \<in> set (bt_keys m)" "p \<notin> set D"
  shows "\<not> acyclic (requires m)"
proof
  assume "acyclic (requires m)"
  then have "wf ((requires m)\<inverse>)" by (rule finite_acyclic_wf_converse [OF requires_finite])
  moreover have "p \<in> set (bt_keys m) - set D" using p by simp
  ultimately obtain z where z: "z \<in> set (bt_keys m) - set D"
    and min: "\<And>y. (y, z) \<in> (requires m)\<inverse> \<Longrightarrow> y \<notin> set (bt_keys m) - set D"
    by (rule wfE_min) blast
  have "q \<in> set D" if "(z, q) \<in> requires m" for q
    using min [of q] closed that unfolding closed_map_def by blast
  then have "set (required_of m z) \<subseteq> set D" by (auto simp: edges_def)
  then have "z \<in> set []" using inv z by (auto simp: kahn_inv_def)
  then show False by simp
qed

lemma cyclic_components_ne:
  "cyclic_components_in E UNIV = {} \<longleftrightarrow> acyclic E"
  by (simp add: cyclic_components_in_def acyclic_def)

lemma resolve_order_result:
  assumes m: "required_wf m" and closed: "closed_map m"
    and ix: "\<And>p. p \<in> set (bt_keys m) \<Longrightarrow> map_of indices p = Some [ix p]"
    and n: "n = length m"
  shows "\<not> acyclic (requires m) \<Longrightarrow> resolve_order n indices m =
      Err (DependencyCycle (Min (cyclic_components_in (requires m) UNIV)))"
    and "acyclic (requires m) \<Longrightarrow> \<exists>D. resolve_order n indices m = Ok (map ix D) \<and>
      distinct D \<and> set D = set (bt_keys m) \<and> topological (requires m) D"
proof -
  have wf: "bt_wf m" using m by (simp add: required_wf_def)
  obtain D ind where run: "kahn_loop indices (snd (dependency_tables m))
      (fst (dependency_tables m), bs_collect (map fst (filter (\<lambda>(_, indegree). indegree = 0)
         (fst (dependency_tables m))))) [] = Ok (map ix D)" and inv: "kahn_inv m D (ind, [])"
    using kahn_loop_Ok [OF m ix kahn_inv_start [OF wf]] by auto
  have D: "distinct D" "set D \<subseteq> set (bt_keys m)" "topological (requires m) D"
    using inv by (simp_all add: kahn_inv_def)
  have len: "length D = length m \<longleftrightarrow> set D = set (bt_keys m)"
  proof -
    have "length D = card (set D)" "length m = card (set (bt_keys m))"
      using distinct_card [OF D(1)] distinct_card [OF bt_wf_distinct [OF wf]] by simp_all
    then show ?thesis using card_subset_eq [OF _ D(2)] by auto
  qed
  have all: "set D = set (bt_keys m) \<longleftrightarrow> acyclic (requires m)"
  proof
    assume full: "set D = set (bt_keys m)"
    have "(p, p) \<notin> (requires m)\<^sup>+" for p
    proof
      assume pp: "(p, p) \<in> (requires m)\<^sup>+"
      then obtain q where "(p, q) \<in> requires m" by (meson tranclD)
      then have "p \<in> set D" using requires_key full by blast
      then show False using topological_acyclic [OF D(3,1) pp] by simp
    qed
    then show "acyclic (requires m)" by (simp add: acyclic_def)
  next
    assume "acyclic (requires m)"
    then show "set D = set (bt_keys m)" using stuck_cycle [OF closed inv] D(2) by blast
  qed
  have order: "resolve_order n indices m =
     (if acyclic (requires m) then Ok (map ix D)
      else and_then (smallest_cyclic_component m)
        (\<lambda>found. case found of None \<Rightarrow> Panic | Some plugins \<Rightarrow> Err (DependencyCycle plugins)))"
    using run len all n by (simp add: resolve_order_def split_beta)
  show "resolve_order n indices m =
      Err (DependencyCycle (Min (cyclic_components_in (requires m) UNIV)))"
    if "\<not> acyclic (requires m)"
    using that smallest_cyclic_component_Ok [OF wf closed] cyclic_components_ne [of "requires m"]
    unfolding order by (simp add: smallest_of_def)
  show "\<exists>D. resolve_order n indices m = Ok (map ix D) \<and>
      distinct D \<and> set D = set (bt_keys m) \<and> topological (requires m) D"
    if "acyclic (requires m)"
    using that order D all by auto
qed

end
