(* ===== verification/PluginResolve.thy ===== *)
theory PluginResolve
  imports TopologicalOrder PluginCompose
begin

text \<open>
  What the checks and the resolution of \<open>graph.rs\<close> decide, stated over the submitted
  descriptors: the first error of each identity check, and the order of \<open>resolve_order\<close> over any
  subset of the descriptors whose dependencies it contains.
\<close>

section \<open>First entries\<close>

lemma find_least:
  assumes "bt_wf m" "List.find P m = Some (k, v)"
  shows "(k, v) \<in> set m \<and> P (k, v) \<and> (\<forall>e \<in> set m. P e \<longrightarrow> k \<le> fst e)"
  using assms
proof (induction m)
  case (Cons e m)
  show ?case
  proof (cases "P e")
    case True
    then have e: "e = (k, v)" using Cons.prems(2) by simp
    then have "k \<le> fst a" if "a \<in> set m" for a
      using Cons.prems(1) that by (auto simp: bt_wf_Cons intro: less_imp_le)
    then show ?thesis using e True by auto
  next
    case False
    have "bt_wf m" using Cons.prems(1) by (cases e) (simp add: bt_wf_Cons)
    then show ?thesis using Cons False by auto
  qed
qed simp

lemma head_Min: "bs_wf (x # s) \<Longrightarrow> Min (set (x # s)) = x"
  by (intro Min_eqI) (auto simp: bs_wf_Cons intro: less_imp_le)

lemma Min_least: "finite A \<Longrightarrow> x \<in> A \<Longrightarrow> (\<And>y. y \<in> A \<Longrightarrow> x \<le> y) \<Longrightarrow> Min A = x"
  by (rule Min_eqI)

section \<open>Identity checks\<close>

abbreviation ids :: "plugin_descriptor list \<Rightarrow> plugin_id list" where
  "ids ds \<equiv> map pd_id ds"

lemma distinct_count: "distinct xs \<longleftrightarrow> (\<forall>x. count_list xs x \<le> 1)"
proof (induction xs)
  case (Cons a xs)
  have "(\<forall>x. count_list (a # xs) x \<le> 1) \<longleftrightarrow> a \<notin> set xs \<and> (\<forall>x. count_list xs x \<le> 1)"
  proof
    assume all: "\<forall>x. count_list (a # xs) x \<le> 1"
    have "count_list xs a = 0" using all [rule_format, of a] by simp
    moreover have "count_list xs x \<le> 1" for x
      using all [rule_format, of x] by (cases "a = x") simp_all
    ultimately show "a \<notin> set xs \<and> (\<forall>x. count_list xs x \<le> 1)" by (simp add: count_list_0_iff)
  next
    assume "a \<notin> set xs \<and> (\<forall>x. count_list xs x \<le> 1)"
    then show "\<forall>x. count_list (a # xs) x \<le> 1" by (simp add: count_list_0_iff)
  qed
  then show ?case using Cons.IH by simp
qed simp

definition tally :: "plugin_descriptor list \<Rightarrow> (plugin_id, nat) btree_map \<Rightarrow> (plugin_id, nat) btree_map" where
  "tally ds m = fold (\<lambda>d. bt_entry (pd_id d) 0 (\<lambda>n. n + 1)) ds m"

lemma tally_facts:
  "bt_wf m \<Longrightarrow> bt_wf (tally ds m)"
  "fst ` set (tally ds m) = set (ids ds) \<union> fst ` set m"
  "(case map_of (tally ds m) p of None \<Rightarrow> 0 | Some n \<Rightarrow> n) =
     count_list (ids ds) p + (case map_of m p of None \<Rightarrow> 0 | Some n \<Rightarrow> n)"
  unfolding tally_def
  by (induction ds arbitrary: m) (auto split: option.splits)

lemma tally_entry: "(p, n) \<in> set (tally ds []) \<longleftrightarrow> p \<in> set (ids ds) \<and> n = count_list (ids ds) p"
proof -
  have wf: "bt_wf (tally ds [])" by (simp add: tally_facts(1))
  have "(p, n) \<in> set (tally ds []) \<longleftrightarrow> map_of (tally ds []) p = Some n"
    using bt_wf_distinct [OF wf] by simp
  also have "\<dots> \<longleftrightarrow> p \<in> set (ids ds) \<and> n = count_list (ids ds) p"
  proof (cases "map_of (tally ds []) p")
    case None
    then have "p \<notin> fst ` set (tally ds [])" by (simp add: map_of_eq_None_iff)
    then show ?thesis using None by (simp add: tally_facts(2))
  next
    case (Some k)
    then have "p \<in> fst ` set (tally ds [])" by (metis map_of_eq_None_iff option.distinct(1))
    then show ?thesis using Some tally_facts(3) [of ds "[]" p] by (auto simp: tally_facts(2))
  qed
  finally show ?thesis .
qed

lemma validate_duplicate_plugins_eq:
  "validate_duplicate_plugins ds =
     (if distinct (ids ds) then Ok ()
      else Err (DuplicatePlugin (Min {p. 1 < count_list (ids ds) p})))"
proof (cases "List.find (\<lambda>(_, count). 1 < count) (tally ds [])")
  case None
  then have le: "\<not> 1 < count_list (ids ds) p" if "p \<in> set (ids ds)" for p
    using that tally_entry [of p "count_list (ids ds) p" ds] by (auto simp: find_None_iff)
  have "count_list (ids ds) p \<le> 1" for p
    using le [of p] by (cases "p \<in> set (ids ds)") (auto simp: not_less count_notin)
  then have "distinct (ids ds)" by (simp add: distinct_count)
  then show ?thesis using None by (simp add: validate_duplicate_plugins_def tally_def)
next
  case (Some e)
  obtain p n where e: "e = (p, n)" by (cases e)
  have "bt_wf (tally ds [])" by (simp add: tally_facts(1))
  from find_least [OF this Some [unfolded e]] have
    p: "(p, n) \<in> set (tally ds [])" "1 < n"
    and least: "\<And>q k. (q, k) \<in> set (tally ds []) \<Longrightarrow> 1 < k \<Longrightarrow> p \<le> q" by auto
  have dup: "1 < count_list (ids ds) p" using p by (simp add: tally_entry)
  have key: "q \<in> set (ids ds)" if "1 < count_list (ids ds) q" for q
    using that count_notin [of q "ids ds"] by (cases "q \<in> set (ids ds)") auto
  have "Min {p. 1 < count_list (ids ds) p} = p"
  proof (rule Min_least)
    show "finite {p. 1 < count_list (ids ds) p}"
      by (rule finite_subset [of _ "set (ids ds)"]) (use key in auto)
    show "p \<in> {p. 1 < count_list (ids ds) p}" using dup by simp
    show "p \<le> q" if "q \<in> {p. 1 < count_list (ids ds) p}" for q
      using that key least [of q "count_list (ids ds) q"] by (simp add: tally_entry)
  qed
  moreover have "\<not> distinct (ids ds)" using dup by (auto simp: distinct_count not_le)
  ultimately show ?thesis using Some e by (simp add: validate_duplicate_plugins_def tally_def)
qed

definition missing_pairs :: "plugin_descriptor list \<Rightarrow> (plugin_id \<times> plugin_id) set" where
  "missing_pairs ds = {(pd_id d, q) | d q. d \<in> set ds \<and> q \<in> set (pd_dependencies d) \<and> q \<notin> set (ids ds)}"

lemma insert_pairs:
  "set (fold (\<lambda>q s. if Q q then bs_insert (p, q) s else s) qs s) = {(p, q) | q. q \<in> set qs \<and> Q q} \<union> set s"
  "bs_wf s \<Longrightarrow> bs_wf (fold (\<lambda>q s. if Q q then bs_insert (p, q) s else s) qs s)"
  by (induction qs arbitrary: s) auto

lemma validate_missing_dependencies_eq:
  "validate_missing_dependencies ds =
     (if missing_pairs ds = {} then Ok ()
      else case Min (missing_pairs ds) of (p, q) \<Rightarrow> Err (MissingDependency p q))"
proof -
  let ?add = "\<lambda>d. fold (\<lambda>q s. if q \<notin> set (bs_collect (ids ds)) then bs_insert (pd_id d, q) s else s) (pd_dependencies d)"
  have fold: "set (fold ?add es s) =
      {(pd_id d, q) | d q. d \<in> set es \<and> q \<in> set (pd_dependencies d) \<and> q \<notin> set (ids ds)} \<union> set s"
    and wf: "bs_wf s \<Longrightarrow> bs_wf (fold ?add es s)" for es s
    by (induction es arbitrary: s) (auto simp: insert_pairs)
  have set: "set (fold ?add ds []) = missing_pairs ds" using fold [of ds "[]"] by (simp add: missing_pairs_def)
  have "bs_wf (fold ?add ds [])" by (rule wf) simp
  show ?thesis
  proof (cases "fold ?add ds []")
    case Nil
    then have "missing_pairs ds = {}" using set by simp
    then show ?thesis using Nil by (simp add: validate_missing_dependencies_def Let_def del: set_bs_collect)
  next
    case (Cons pq s)
    then have "Min (missing_pairs ds) = pq" "missing_pairs ds \<noteq> {}"
      using set head_Min [of pq s] \<open>bs_wf (fold ?add ds [])\<close> by auto
    then show ?thesis
      using Cons by (cases pq) (simp add: validate_missing_dependencies_def Let_def del: set_bs_collect)
  qed
qed

section \<open>The order over a subset of the descriptors\<close>

lemma in_requires: "(p, q) \<in> requires m \<longleftrightarrow> (\<exists>required. map_of m p = Some required \<and> q \<in> set required)"
  by (cases "map_of m p") (simp_all add: edges_def required_of_def)

definition depends :: "plugin_descriptor list \<Rightarrow> (plugin_descriptor \<Rightarrow> plugin_id list) \<Rightarrow> (plugin_id \<times> plugin_id) set" where
  "depends ks f = {(pd_id d, q) | d q. d \<in> set ks \<and> q \<in> set (f d)}"

text \<open>Every plugin the one at position \<open>i\<close> of the order depends on stands at an earlier position.\<close>

definition dependencies_first :: "plugin_descriptor list \<Rightarrow> (plugin_descriptor \<Rightarrow> plugin_id list) \<Rightarrow> nat list \<Rightarrow> bool" where
  "dependencies_first ds f order \<longleftrightarrow>
     (\<forall>i < length order. \<forall>q \<in> set (f (ds ! (order ! i))). \<exists>j < i. pd_id (ds ! (order ! j)) = q)"

lemma in_enumerate: "(i, d) \<in> set (enumerate 0 ds) \<longleftrightarrow> i < length ds \<and> d = ds ! i"
  by (auto simp: in_set_enumerate_eq)

lemma keep_enumerate: "map snd (filter (\<lambda>(i, d). P d) (enumerate n ds)) = filter P ds"
  by (induction ds arbitrary: n) auto

lemma resolve_order_descriptors:
  assumes ids: "distinct (ids ds)"
    and wf: "\<And>d. d \<in> set (filter P ds) \<Longrightarrow> bs_wf (f d)"
    and closed: "\<And>d q. d \<in> set (filter P ds) \<Longrightarrow> q \<in> set (f d) \<Longrightarrow> q \<in> set (ids (filter P ds))"
    and n: "n = length (filter P ds)"
    and run: "run = resolve_order n
      (bt_collect (map (\<lambda>(index, d). (pd_id d, [index])) (filter (\<lambda>(_, d). P d) (enumerate 0 ds))))
      (bt_collect (map (\<lambda>d. (pd_id d, f d)) (filter P ds)))"
  shows "\<not> acyclic (depends (filter P ds) f) \<Longrightarrow>
      run = Err (DependencyCycle (Min (cyclic_components_in (depends (filter P ds) f) UNIV)))"
    and "acyclic (depends (filter P ds) f) \<Longrightarrow> \<exists>order. run = Ok order \<and> distinct order \<and>
      set order = {i. i < length ds \<and> P (ds ! i)} \<and> dependencies_first ds f order"
proof -
  let ?ks = "filter P ds" and ?es = "filter (\<lambda>(_, d). P d) (enumerate 0 ds)"
  let ?m = "bt_collect (map (\<lambda>d. (pd_id d, f d)) ?ks)"
  let ?indices = "bt_collect (map (\<lambda>(index, d). (pd_id d, [index])) ?es)"
  have dk: "distinct (ids ?ks)" using ids by (simp add: distinct_map_filter)
  have mp: "map_of ?m p = Some required \<longleftrightarrow> (\<exists>d \<in> set ?ks. pd_id d = p \<and> f d = required)" for p required
  proof -
    have "distinct (map fst (map (\<lambda>d. (pd_id d, f d)) ?ks))" using dk by (simp add: comp_def)
    then show ?thesis
      by (simp add: map_of_bt_collect_distinct image_iff del: set_filter map_map) auto
  qed
  have keys: "set (bt_keys ?m) = set (ids ?ks)" by (simp add: image_image del: set_filter)
  have len: "length ?m = length ?ks"
  proof -
    have "card (set (bt_keys ?m)) = length (bt_keys ?m)"
      by (rule distinct_card [OF bt_wf_distinct [OF bt_wf_collect]])
    moreover have "card (set (ids ?ks)) = length (ids ?ks)" by (rule distinct_card [OF dk])
    ultimately show ?thesis unfolding keys length_map by simp
  qed
  have E: "requires ?m = depends ?ks f"
  proof (rule set_eqI)
    fix e :: "plugin_id \<times> plugin_id"
    obtain p q where e: "e = (p, q)" by (cases e)
    show "e \<in> requires ?m \<longleftrightarrow> e \<in> depends ?ks f"
      unfolding e in_requires mp depends_def by blast
  qed
  have m: "required_wf ?m"
    using wf mp by (auto simp: required_wf_def bs_wf_iff simp del: set_filter)
  have cl: "closed_map ?m"
    unfolding closed_map_def E keys depends_def using closed by blast
  have es: "distinct (map fst (map (\<lambda>(index, d). (pd_id d, [index])) ?es))"
  proof -
    have "map fst (map (\<lambda>(index, d). (pd_id d, [index])) ?es) = ids (map snd ?es)"
      by (simp add: split_beta)
    then show ?thesis using dk by (simp only: keep_enumerate)
  qed
  define ix where "ix p = hd (the (map_of ?indices p))" for p
  have ix: "map_of ?indices p = Some [ix p] \<and> ix p < length ds \<and> P (ds ! ix p) \<and> pd_id (ds ! ix p) = p"
    if p: "p \<in> set (ids ?ks)" for p
  proof -
    obtain i where i: "i < length ds" "P (ds ! i)" "pd_id (ds ! i) = p"
      using p by (auto simp: in_set_conv_nth)
    then have "(p, [i]) \<in> set (map (\<lambda>(index, d). (pd_id d, [index])) ?es)"
      by (auto simp: image_iff in_enumerate)
    then have "map_of ?indices p = Some [i]"
      using es by (simp only: map_of_bt_collect_distinct map_of_eq_Some_iff)
    then show ?thesis using i by (simp add: ix_def)
  qed
  have ix': "\<And>p. p \<in> set (bt_keys ?m) \<Longrightarrow> map_of ?indices p = Some [ix p]"
    using ix keys by blast
  have cyclic: "\<not> acyclic (requires ?m) \<Longrightarrow> resolve_order n ?indices ?m =
      Err (DependencyCycle (Min (cyclic_components_in (requires ?m) UNIV)))"
    by (rule resolve_order_result(1) [where ix = ix]) (use m cl ix' n len in auto)
  have ordered: "acyclic (requires ?m) \<Longrightarrow> \<exists>D. resolve_order n ?indices ?m = Ok (map ix D) \<and>
      distinct D \<and> set D = set (bt_keys ?m) \<and> topological (requires ?m) D"
    by (rule resolve_order_result(2)) (use m cl ix' n len in auto)
  show "run = Err (DependencyCycle (Min (cyclic_components_in (depends ?ks f) UNIV)))"
    if "\<not> acyclic (depends ?ks f)"
    unfolding run using cyclic that unfolding E by blast
  show "\<exists>order. run = Ok order \<and> distinct order \<and>
      set order = {i. i < length ds \<and> P (ds ! i)} \<and> dependencies_first ds f order"
    if acyclic: "acyclic (depends ?ks f)"
  proof -
    obtain D where D: "run = Ok (map ix D)" "distinct D" "set D = set (ids ?ks)"
      "topological (depends ?ks f) D"
      unfolding run using ordered acyclic unfolding E keys by blast
    have inv: "pd_id (ds ! ix p) = p" "ix p < length ds" "P (ds ! ix p)" if "p \<in> set D" for p
      using ix D(3) that by blast+
    have "inj_on ix (set D)" by (rule inj_on_inverseI [of _ "\<lambda>i. pd_id (ds ! i)"]) (rule inv)
    then have dist: "distinct (map ix D)" using D(2) by (simp add: distinct_map)
    have all: "set (map ix D) = {i. i < length ds \<and> P (ds ! i)}"
    proof (intro equalityI subsetI)
      fix i assume "i \<in> set (map ix D)"
      then show "i \<in> {i. i < length ds \<and> P (ds ! i)}" using inv by auto
    next
      fix i assume i: "i \<in> {i. i < length ds \<and> P (ds ! i)}"
      then have p: "pd_id (ds ! i) \<in> set D" unfolding D(3) by auto
      have "ids ds ! ix (pd_id (ds ! i)) = ids ds ! i" using inv [OF p] i by simp
      then have "ix (pd_id (ds ! i)) = i"
        using nth_eq_iff_index_eq [OF ids] inv(2) [OF p] i by simp
      then show "i \<in> set (map ix D)" using p by force
    qed
    have first: "dependencies_first ds f (map ix D)"
      unfolding dependencies_first_def
    proof (intro allI impI ballI)
      fix i q
      assume i: "i < length (map ix D)" and q: "q \<in> set (f (ds ! (map ix D ! i)))"
      have Di: "D ! i \<in> set D" "D = take i D @ D ! i # drop (Suc i) D"
        using i id_take_nth_drop [of i D] by simp_all
      have "ds ! ix (D ! i) \<in> set ?ks" using inv [OF Di(1)] by simp
      then have "(D ! i, q) \<in> depends ?ks f"
        using inv(1) [OF Di(1)] q i unfolding depends_def by force
      then have "q \<in> set (take i D)" using D(4) Di(2) unfolding topological_def by blast
      then obtain j where j: "j < i" "D ! j = q" using i by (auto simp: in_set_conv_nth)
      have "j < length D" using j(1) i by simp
      then have "D ! j \<in> set D" by (rule nth_mem)
      then show "\<exists>j < i. pd_id (ds ! (map ix D ! j)) = q"
        using j i inv(1) by (intro exI [of _ j]) simp
    qed
    show ?thesis using D(1) dist all first by blast
  qed
qed

lemma resolve_exact_result:
  assumes "distinct (ids ds)" and "missing_pairs ds = {}"
  shows "\<not> acyclic (depends ds pd_dependencies) \<Longrightarrow> resolve_exact ds =
      Err (DependencyCycle (Min (cyclic_components_in (depends ds pd_dependencies) UNIV)))"
    and "acyclic (depends ds pd_dependencies) \<Longrightarrow> \<exists>order. resolve_exact ds = Ok order \<and> distinct order \<and>
      set order = {..<length ds} \<and> dependencies_first ds pd_dependencies order"
proof -
  let ?f = "\<lambda>d. bs_collect (pd_dependencies d)"
  have run: "resolve_exact ds = resolve_order (length (filter (\<lambda>_. True) ds))
      (bt_collect (map (\<lambda>(index, d). (pd_id d, [index])) (filter (\<lambda>(_, d). True) (enumerate 0 ds))))
      (bt_collect (map (\<lambda>d. (pd_id d, ?f d)) (filter (\<lambda>_. True) ds)))"
    by (simp add: resolve_exact_def split_beta)
  have closed: "q \<in> set (ids (filter (\<lambda>_. True) ds))"
    if "d \<in> set (filter (\<lambda>_. True) ds)" "q \<in> set (?f d)" for d q
    using that assms(2) by (auto simp: missing_pairs_def)
  have wf: "\<And>d. d \<in> set (filter (\<lambda>_. True) ds) \<Longrightarrow> bs_wf (?f d)" by simp
  have E: "depends (filter (\<lambda>_. True) ds) ?f = depends ds pd_dependencies"
    by (simp add: depends_def)
  have first: "dependencies_first ds ?f = dependencies_first ds pd_dependencies"
    by (simp add: dependencies_first_def fun_eq_iff)
  note result = resolve_order_descriptors [OF assms(1) wf closed refl run, unfolded E first]
  show "\<not> acyclic (depends ds pd_dependencies) \<Longrightarrow> resolve_exact ds =
      Err (DependencyCycle (Min (cyclic_components_in (depends ds pd_dependencies) UNIV)))"
    using result(1) by simp
  show "acyclic (depends ds pd_dependencies) \<Longrightarrow> \<exists>order. resolve_exact ds = Ok order \<and> distinct order \<and>
      set order = {..<length ds} \<and> dependencies_first ds pd_dependencies order"
    using result(2) by (simp add: lessThan_def)
qed

lemma resolve_active_result:
  assumes ids: "distinct (ids ds)" and active: "bs_wf active" "set active \<subseteq> set (ids ds)"
    and additional: "\<And>d q. d \<in> set ds \<Longrightarrow> pd_id d \<in> set active \<Longrightarrow>
      q \<in> set (required_of additional_dependencies (pd_id d)) \<Longrightarrow> q \<in> set active"
  defines "f \<equiv> active_dependencies active additional_dependencies"
    and "ks \<equiv> filter (\<lambda>d. pd_id d \<in> set active) ds"
  shows "\<not> acyclic (depends ks f) \<Longrightarrow> resolve_active ds active additional_dependencies =
      Err (DependencyCycle (Min (cyclic_components_in (depends ks f) UNIV)))"
    and "acyclic (depends ks f) \<Longrightarrow>
      \<exists>order. resolve_active ds active additional_dependencies = Ok order \<and> distinct order \<and>
        set order = {i. i < length ds \<and> pd_id (ds ! i) \<in> set active} \<and> dependencies_first ds f order"
proof -
  have fset: "set (f d) = set (filter (\<lambda>p. p \<in> set active) (pd_dependencies d)) \<union>
      set (required_of additional_dependencies (pd_id d))" and fwf: "bs_wf (f d)" for d
    by (cases "map_of additional_dependencies (pd_id d)";
        auto simp: f_def active_dependencies_def required_of_def Let_def)+
  have idk: "set (ids ks) = set active" using active(2) by (auto simp: ks_def)
  have n: "length active = length ks"
  proof -
    have "distinct (ids ks)" using ids by (simp add: ks_def distinct_map_filter)
    then have "card (set (ids ks)) = length ks" using distinct_card by force
    then show ?thesis using idk distinct_card [OF bs_wf_distinct [OF active(1)]] by simp
  qed
  have run: "resolve_active ds active additional_dependencies = resolve_order (length active)
      (bt_collect (map (\<lambda>(index, d). (pd_id d, [index]))
         (filter (\<lambda>(_, d). pd_id d \<in> set active) (enumerate 0 ds))))
      (bt_collect (map (\<lambda>d. (pd_id d, f d)) (filter (\<lambda>d. pd_id d \<in> set active) ds)))"
    by (simp add: resolve_active_def f_def)
  have closed: "q \<in> set (ids ks)" if "d \<in> set ks" "q \<in> set (f d)" for d q
    unfolding idk using that additional [of d q] by (auto simp: fset ks_def)
  note result = resolve_order_descriptors [OF ids fwf closed [unfolded ks_def] n [unfolded ks_def] run,
      folded ks_def]
  show "\<not> acyclic (depends ks f) \<Longrightarrow> resolve_active ds active additional_dependencies =
      Err (DependencyCycle (Min (cyclic_components_in (depends ks f) UNIV)))"
    by (rule result(1))
  show "acyclic (depends ks f) \<Longrightarrow>
      \<exists>order. resolve_active ds active additional_dependencies = Ok order \<and> distinct order \<and>
        set order = {i. i < length ds \<and> pd_id (ds ! i) \<in> set active} \<and> dependencies_first ds f order"
    by (rule result(2))
qed

end
