(* ===== verification/PluginComposeInv.thy ===== *)
theory PluginComposeInv
  imports PluginResolve
begin

text \<open>
  The bindings that \<open>resolve_composition\<close> returns: each names a submitted provider, the explicit
  selections are among them, and the fixpoint leaves every required capability either bound or
  with no single candidate, which the two checks after it reject.
\<close>

declare bind_required.simps [simp del]

section \<open>Bindings\<close>

definition provided_by :: "plugin_descriptor list \<Rightarrow> capability_id \<Rightarrow> provider_binding \<Rightarrow> bool" where
  "provided_by ds c x \<longleftrightarrow>
     (\<exists>d \<in> set ds. pd_id d = pb_owner x \<and> pd_provider d = Some \<lparr>pc_capability = c, pc_key = pb_key x\<rparr>)"

definition sound_bindings :: "plugin_descriptor list \<Rightarrow> bindings \<Rightarrow> bool" where
  "sound_bindings ds b \<longleftrightarrow> bt_wf b \<and> (\<forall>c x. map_of b c = Some x \<longrightarrow> provided_by ds c x)"

lemma sound_bindings_Nil [simp]: "sound_bindings ds []"
  by (simp add: sound_bindings_def)

lemma sound_insert:
  assumes "sound_bindings ds b" "d \<in> set ds" "pd_provider d = Some k" "pc_capability k = c"
  shows "sound_bindings ds (bt_insert c \<lparr>pb_key = pc_key k, pb_owner = pd_id d\<rparr> b)"
proof -
  have "provided_by ds c \<lparr>pb_key = pc_key k, pb_owner = pd_id d\<rparr>"
    unfolding provided_by_def using assms by (intro bexI [of _ d]) auto
  then show ?thesis using assms(1) by (auto simp: sound_bindings_def)
qed

lemma key_iff: "c \<in> fst ` set b \<longleftrightarrow> (\<exists>x. map_of b c = Some x)"
  by (metis map_of_eq_None_iff not_Some_eq)

section \<open>Explicit selections\<close>

lemma explicit_entries:
  fixes acc :: selections
  assumes "bt_wf acc" "\<And>c s. map_of acc c = Some s \<Longrightarrow> bs_wf s"
  shows "bt_wf (fold (\<lambda>(c, k). bt_entry c [] (bs_insert k)) sels acc) \<and>
    (\<forall>c s. map_of (fold (\<lambda>(c, k). bt_entry c [] (bs_insert k)) sels acc) c = Some s \<longrightarrow>
       bs_wf s \<and> set s = {k. (c, k) \<in> set sels} \<union> (case map_of acc c of None \<Rightarrow> {} | Some t \<Rightarrow> set t)) \<and>
    fst ` set (fold (\<lambda>(c, k). bt_entry c [] (bs_insert k)) sels acc) = fst ` set sels \<union> fst ` set acc"
  using assms
proof (induction sels arbitrary: acc)
  case Nil
  then show ?case by simp
next
  case (Cons e sels)
  obtain c k where e: "e = (c, k)" by (cases e)
  let ?acc = "bt_entry c [] (bs_insert k) acc"
  have wf: "bt_wf ?acc" using Cons.prems(1) by simp
  have sets: "bs_wf s" if "map_of ?acc c' = Some s" for c' s
    using that Cons.prems(2) by (cases "map_of acc c") (auto split: if_splits)
  have look: "(case map_of ?acc c' of None \<Rightarrow> {} | Some t \<Rightarrow> set t) =
      (if c' = c then {k} else {}) \<union> (case map_of acc c' of None \<Rightarrow> {} | Some t \<Rightarrow> set t)" for c'
    by (cases "map_of acc c") auto
  have eqs: "{k'. (c', k') \<in> set (e # sels)} = (if c' = c then {k} else {}) \<union> {k'. (c', k') \<in> set sels}" for c'
    using e by auto
  note ih = Cons.IH [OF wf sets]
  have "fst ` set sels \<union> fst ` set ?acc = fst ` set (e # sels) \<union> fst ` set acc"
    using e by auto
  then show ?case using ih e unfolding eqs look by (auto simp: Un_assoc)
qed

lemma explicit_selections_facts:
  "bt_wf (explicit_selections sels)"
  "map_of (explicit_selections sels) c = Some s \<Longrightarrow> bs_wf s \<and> set s = {k. (c, k) \<in> set sels}"
  "fst ` set (explicit_selections sels) = fst ` set sels"
  using explicit_entries [of "[]" sels] unfolding explicit_selections_def by auto

lemma single_selection:
  assumes "validate_selections (explicit_selections sels) = Ok ()" "(c, k) \<in> set sels"
  shows "map_of (explicit_selections sels) c = Some [k]"
proof -
  have "c \<in> fst ` set (explicit_selections sels)"
    unfolding explicit_selections_facts(3) using assms(2) by force
  then obtain s where s: "map_of (explicit_selections sels) c = Some s" unfolding key_iff by blast
  have none: "List.find (\<lambda>(_, s). 1 < length s) (explicit_selections sels) = None"
    using assms(1) by (auto simp: validate_selections_def split: option.splits)
  have "(c, s) \<in> set (explicit_selections sels)" using s by (rule map_of_SomeD)
  then have "length s \<le> 1" using none by (auto simp: find_None_iff not_less)
  moreover have "k \<in> set s" using explicit_selections_facts(2) [OF s] assms(2) by simp
  ultimately have "s = [k]" by (cases s) auto
  then show ?thesis using s by simp
qed

lemma bind_selection_Ok:
  assumes "bind_selection ds (c, s) b = Ok b'" and "sound_bindings ds b"
  shows "sound_bindings ds b'" and "c' \<noteq> c \<Longrightarrow> map_of b' c' = map_of b c'"
    and "s = [k] \<Longrightarrow> \<exists>x. map_of b' c = Some x \<and> pb_key x = k"
proof -
  let ?match = "\<lambda>selected d. case pd_provider d of None \<Rightarrow> False
    | Some k \<Rightarrow> pc_capability k = c \<and> pc_key k = selected"
  have "sound_bindings ds b' \<and> (\<forall>c'. c' \<noteq> c \<longrightarrow> map_of b' c' = map_of b c') \<and>
    (\<forall>k. s = [k] \<longrightarrow> (\<exists>x. map_of b' c = Some x \<and> pb_key x = k))"
  proof (cases "length s = 1")
    case False
    then have "b' = b" using assms(1) by (simp add: bind_selection_def)
    then show ?thesis using False assms(2) by auto
  next
    case True
    then obtain k where s: "s = [k]" by (metis One_nat_def length_0_conv length_Suc_conv)
    obtain d where d: "List.find (?match k) ds = Some d"
      using assms(1) s by (cases "List.find (?match k) ds") (simp_all add: bind_selection_def)
    then have dm: "d \<in> set ds" "?match k d" by (auto simp: find_Some_iff)
    then obtain q where q: "pd_provider d = Some q" "pc_capability q = c" "pc_key q = k"
      by (cases "pd_provider d") auto
    have b': "b' = bt_insert c \<lparr>pb_key = pc_key q, pb_owner = pd_id d\<rparr> b"
      using assms(1) s d q by (simp add: bind_selection_def)
    show ?thesis using sound_insert [OF assms(2) dm(1) q(1,2)] s q(3) b' by simp
  qed
  then show "sound_bindings ds b'" "c' \<noteq> c \<Longrightarrow> map_of b' c' = map_of b c'"
    "s = [k] \<Longrightarrow> \<exists>x. map_of b' c = Some x \<and> pb_key x = k" by auto
qed

lemma bind_selections_Ok:
  assumes "for_each (bind_selection ds) es b = Ok b'" "sound_bindings ds b" "distinct (map fst es)"
  shows "sound_bindings ds b' \<and> (\<forall>c. c \<notin> fst ` set es \<longrightarrow> map_of b' c = map_of b c) \<and>
    (\<forall>c k. (c, [k]) \<in> set es \<longrightarrow> (\<exists>x. map_of b' c = Some x \<and> pb_key x = k))"
  using assms
proof (induction es arbitrary: b)
  case Nil
  then show ?case by simp
next
  case (Cons e es)
  obtain c s where e: "e = (c, s)" by (cases e)
  obtain u where u: "bind_selection ds (c, s) b = Ok u" "for_each (bind_selection ds) es u = Ok b'"
    using Cons.prems(1) e by auto
  have su: "sound_bindings ds u" by (rule bind_selection_Ok(1) [OF u(1) Cons.prems(2)])
  have fresh: "c \<notin> fst ` set es" "distinct (map fst es)" using Cons.prems(3) e by simp_all
  note ih = Cons.IH [OF u(2) su fresh(2)]
  have own: "\<exists>x. map_of b' c = Some x \<and> pb_key x = k" if "s = [k]" for k
    using bind_selection_Ok(3) [OF u(1) Cons.prems(2) that] ih fresh(1) by simp
  have others: "map_of b' c' = map_of b c'" if "c' \<notin> fst ` set (e # es)" for c'
    using bind_selection_Ok(2) [OF u(1) Cons.prems(2), of c'] ih that e by simp
  show ?case using ih own others e by auto
qed

section \<open>The fixpoint\<close>

lemma bind_required_rule:
  assumes "P s" and step: "\<And>u ch v. P u \<Longrightarrow> binding_round ds ex u = (ch, v) \<Longrightarrow> P v"
  shows "\<exists>u. P u \<and> binding_round ds ex u = (False, bind_required ds ex s)"
  using assms(1)
proof (induction "round_measure ds s" arbitrary: s rule: less_induct)
  case less
  obtain ch v where round: "binding_round ds ex s = (ch, v)" by (cases "binding_round ds ex s")
  show ?case
  proof (cases ch)
    case True
    then have "round_measure ds v < round_measure ds s" using round_decreases [of ds ex s v] round by simp
    moreover have "P v" by (rule step [OF less.prems round])
    ultimately have "\<exists>u. P u \<and> binding_round ds ex u = (False, bind_required ds ex v)" by (rule less.hyps)
    moreover have "bind_required ds ex s = bind_required ds ex v"
      using True round by (subst bind_required.simps) simp
    ultimately show ?thesis by simp
  next
    case False
    then have "bind_required ds ex s = v" using round by (subst bind_required.simps) simp
    then show ?thesis using False round less.prems by (intro exI [of _ s]) simp
  qed
qed

lemma bind_fold_sound:
  assumes "fold (bind_capability ds ex) cs (ch, b) = (ch', b')" "sound_bindings ds b"
  shows "sound_bindings ds b' \<and> (\<forall>c x. map_of b c = Some x \<longrightarrow> map_of b' c = Some x)"
  using assms
proof (induction cs arbitrary: ch b)
  case (Cons c cs)
  obtain h u where u: "bind_capability ds ex c (ch, b) = (h, u)" by (cases "bind_capability ds ex c (ch, b)")
  have rest: "fold (bind_capability ds ex) cs (h, u) = (ch', b')" using Cons.prems(1) u by simp
  have "sound_bindings ds u \<and> (\<forall>c x. map_of b c = Some x \<longrightarrow> map_of u c = Some x)"
    using u
  proof (cases rule: bind_capability_cases)
    case (2 k p)
    then obtain d where d: "d \<in> set ds" "pd_provider d = Some k" "pc_capability k = c" "pd_id d = p"
      using candidates_provide [of k p ds c] by auto
    have "sound_bindings ds u" using sound_insert [OF Cons.prems(2) d(1-3)] 2(5) d(4) by simp
    moreover have "map_of b c = None" using 2(2) by (simp add: map_of_eq_None_iff)
    ultimately show ?thesis using 2(5) by auto
  qed (use Cons.prems(2) in auto)
  then show ?case using Cons.IH [OF rest] by blast
qed simp

lemma bind_fold_still:
  assumes "fold (bind_capability ds ex) cs (ch, b) = (False, b')" "c \<in> set cs"
  shows "c \<in> set ex \<or> c \<in> fst ` set b \<or> (\<forall>k p. candidates_for ds c \<noteq> [(k, p)])"
  using assms
proof (induction cs arbitrary: ch b)
  case (Cons a cs)
  obtain h u where u: "bind_capability ds ex a (ch, b) = (h, u)" by (cases "bind_capability ds ex a (ch, b)")
  have rest: "fold (bind_capability ds ex) cs (h, u) = (False, b')" using Cons.prems(1) u by simp
  then have h: "\<not> h" using bind_fold_grows by blast
  then have ub: "u = b" using bind_grows(3) [OF u] by simp
  show ?case
  proof (cases "c = a")
    case True
    from u show ?thesis by (cases rule: bind_capability_cases) (use h True in auto)
  next
    case False
    then show ?thesis using Cons.IH [OF rest] Cons.prems(2) ub by simp
  qed
qed simp

lemma root_sources:
  "CompositionRoot \<in> set (sources_of (fold (\<lambda>c. bt_entry c [] (bs_insert CompositionRoot)) cs m) c)
     \<longleftrightarrow> c \<in> set cs \<or> CompositionRoot \<in> set (sources_of m c)"
proof (induction cs arbitrary: m)
  case (Cons a cs)
  have "CompositionRoot \<in> set (sources_of (bt_entry a [] (bs_insert CompositionRoot) m) c)
     \<longleftrightarrow> c = a \<or> CompositionRoot \<in> set (sources_of m c)"
    by (cases "map_of m c") (auto simp: sources_of_def)
  with Cons show ?case by auto
qed simp

lemma sources_key: "s \<in> set (sources_of m c) \<Longrightarrow> c \<in> fst ` set m"
  unfolding key_iff by (cases "map_of m c") (auto simp: sources_of_def)

text \<open>
  At the end every capability the root or an active plugin requires has been recorded, and
  every recorded one is selected, bound, or without a single candidate.
\<close>

definition settled ::
    "plugin_descriptor list \<Rightarrow> capability_id list \<Rightarrow> capability_id list \<Rightarrow> requirements \<times> bindings \<Rightarrow> bool" where
  "settled ds ex roots s \<longleftrightarrow>
     (\<forall>c \<in> set roots. c \<in> fst ` set (fst s)) \<and>
     (\<forall>d \<in> set ds. is_active (snd s) d \<longrightarrow> (\<forall>c \<in> set (pd_capability_dependencies d). c \<in> fst ` set (fst s))) \<and>
     (\<forall>c \<in> fst ` set (fst s). c \<in> set ex \<or> c \<in> fst ` set (snd s) \<or>
        (\<forall>k p. candidates_for ds c \<noteq> [(k, p)]))"

lemma bind_required_settled:
  assumes b: "sound_bindings ds b" and t: "bind_required ds ex (root_requirements roots, b) = t"
  shows "sound_bindings ds (snd t) \<and> (\<forall>c x. map_of b c = Some x \<longrightarrow> map_of (snd t) c = Some x) \<and>
    settled ds ex roots t"
proof -
  let ?P = "\<lambda>s. sound_bindings ds (snd s) \<and> (\<forall>c x. map_of b c = Some x \<longrightarrow> map_of (snd s) c = Some x) \<and>
    (\<forall>c \<in> set roots. CompositionRoot \<in> set (sources_of (fst s) c))"
  have start: "?P (root_requirements roots, b)"
    using b by (simp add: root_requirements_def root_sources)
  have step: "?P v" if u: "?P u" and round: "binding_round ds ex u = (ch, v)" for u ch v
  proof -
    obtain required bu where ub: "u = (required, bu)" by (cases u)
    obtain h required' where req: "collect_requirements ds bu required = (h, required')"
      by (cases "collect_requirements ds bu required")
    obtain b' where bind: "fold (bind_capability ds ex) (bt_keys required') (h, bu) = (ch, b')"
      and v: "v = (required', b')"
      using round ub req by (auto simp: binding_round_def split: prod.splits)
    have "sound_bindings ds b' \<and> (\<forall>c x. map_of bu c = Some x \<longrightarrow> map_of b' c = Some x)"
      using bind_fold_sound [OF bind] u ub by simp
    moreover have "CompositionRoot \<in> set (sources_of required' c)" if "c \<in> set roots" for c
      using u ub that by (simp add: collect_requirements_facts(1) [OF req])
    ultimately show ?thesis using u ub v by simp
  qed
  have "\<exists>u. ?P u \<and> binding_round ds ex u = (False, bind_required ds ex (root_requirements roots, b))"
    by (rule bind_required_rule [where P = ?P, OF start]) (rule step)
  then obtain u where u: "?P u" and round: "binding_round ds ex u = (False, t)"
    using t by blast
  have Pt: "?P t" by (rule step [OF u round])
  obtain required bu where ub: "u = (required, bu)" by (cases u)
  obtain h required' where req: "collect_requirements ds bu required = (h, required')"
    by (cases "collect_requirements ds bu required")
  obtain b' where bind: "fold (bind_capability ds ex) (bt_keys required') (h, bu) = (False, b')"
    and v: "t = (required', b')"
    using round ub req by (auto simp: binding_round_def split: prod.splits)
  have still: "\<not> h" "b' = bu" using bind_fold_grows [OF bind] by auto
  have "c \<in> fst ` set required'" if "d \<in> set ds" "is_active bu d" "c \<in> set (pd_capability_dependencies d)" for d c
  proof (rule sources_key)
    show "FromPlugin (pd_id d) \<in> set (sources_of required' c)"
      using that by (auto simp: collect_requirements_facts(1) [OF req])
  qed
  moreover have "c \<in> set ex \<or> c \<in> fst ` set bu \<or> (\<forall>k p. candidates_for ds c \<noteq> [(k, p)])"
    if "c \<in> fst ` set required'" for c
    using bind_fold_still [OF bind, of c] that by simp
  moreover have "c \<in> fst ` set required'" if "c \<in> set roots" for c
    using Pt v that sources_key by fastforce
  ultimately have "settled ds ex roots t" using v still(2) by (simp add: settled_def)
  then show ?thesis using Pt by blast
qed

section \<open>Stages\<close>

lemma set_insert_found:
  "set (fold (\<lambda>q s. case g q of None \<Rightarrow> s | Some c \<Rightarrow> bs_insert (h q c) s) qs s) =
     set s \<union> {h q c | q c. q \<in> set qs \<and> g q = Some c}"
proof (induction qs arbitrary: s)
  case (Cons x xs)
  show ?case
  proof (cases "g x")
    case None
    then have "{h q c | q c. q \<in> set (x # xs) \<and> g q = Some c} = {h q c | q c. q \<in> set xs \<and> g q = Some c}"
      by auto
    then show ?thesis using None Cons.IH by simp
  next
    case (Some c)
    then have "{h q c | q c. q \<in> set (x # xs) \<and> g q = Some c} =
        insert (h x c) {h q c | q c. q \<in> set xs \<and> g q = Some c}" by auto
    then show ?thesis using Some Cons.IH by simp
  qed
qed simp

lemma member_ne_Nil: "x \<in> set xs \<Longrightarrow> xs \<noteq> []"
  by auto

lemma exact_providers:
  assumes ids: "distinct (ids ds)" and ok: "validate_exact_provider_dependencies ds = Ok ()"
    and d: "d \<in> set ds" "q \<in> set (pd_dependencies d)" and e: "e \<in> set ds" "pd_id e = q"
  shows "pd_provider e = None"
proof (rule ccontr)
  assume "pd_provider e \<noteq> None"
  then obtain k where k: "pd_provider e = Some k" by blast
  let ?entry = "\<lambda>d. case pd_provider d of None \<Rightarrow> None | Some c \<Rightarrow> Some (pd_id d, pc_capability c)"
  let ?p = "bt_collect (List.map_filter ?entry ds)"
  let ?add = "\<lambda>d. fold (\<lambda>q s. case map_of ?p q of None \<Rightarrow> s | Some c \<Rightarrow> bs_insert (pd_id d, q, c) s) (pd_dependencies d)"
  have "?entry e = Some (q, pc_capability k)" using k e(2) by simp
  then have "(q, pc_capability k) \<in> set (List.map_filter ?entry ds)"
    unfolding in_map_filter using e(1) by blast
  then have "q \<in> fst ` set ?p" by (force simp: keys_bt_collect)
  then obtain c where c: "map_of ?p q = Some c" unfolding key_iff by blast
  have add: "set (?add x s) = set s \<union> {(pd_id x, q, c) | q c. q \<in> set (pd_dependencies x) \<and> map_of ?p q = Some c}" for x s
    by (rule set_insert_found)
  have all: "set (fold ?add es s) = set s \<union>
      {(pd_id x, q, c) | x q c. x \<in> set es \<and> q \<in> set (pd_dependencies x) \<and> map_of ?p q = Some c}" for es s
  proof (induction es arbitrary: s)
    case (Cons x xs)
    show ?case unfolding fold_simps(2) Cons.IH add by auto
  qed simp
  have "(pd_id d, q, c) \<in> set (fold ?add ds [])" unfolding all using d c by blast
  then have "fold ?add ds [] \<noteq> []" by (rule member_ne_Nil)
  then show False
    using ok by (auto simp: validate_exact_provider_dependencies_def Let_def split: list.splits)
qed

lemma bind_composition_stages:
  assumes "bind_composition ds reqs sels = Ok b"
  shows "validate_selections (explicit_selections sels) = Ok ()"
    "\<exists>selected required.
      for_each (bind_selection ds) (explicit_selections sels) [] = Ok selected \<and>
      bind_required ds (bt_keys (explicit_selections sels)) (root_requirements reqs, selected) = (required, b) \<and>
      for_each (validate_missing_capability ds (bt_keys (explicit_selections sels)) b) required () = Ok () \<and>
      for_each (validate_ambiguous_capability ds (bt_keys (explicit_selections sels)) b) (bt_keys required) () = Ok ()"
proof -
  obtain selected where sel: "validate_selections (explicit_selections sels) = Ok ()"
    "for_each (bind_selection ds) (explicit_selections sels) [] = Ok selected"
    using assms by (auto simp: bind_composition_def Let_def)
  then show "validate_selections (explicit_selections sels) = Ok ()" by simp
  obtain required c where fixp: "bind_required ds (bt_keys (explicit_selections sels))
      (root_requirements reqs, selected) = (required, c)" by fastforce
  then show "\<exists>selected required.
      for_each (bind_selection ds) (explicit_selections sels) [] = Ok selected \<and>
      bind_required ds (bt_keys (explicit_selections sels)) (root_requirements reqs, selected) = (required, b) \<and>
      for_each (validate_missing_capability ds (bt_keys (explicit_selections sels)) b) required () = Ok () \<and>
      for_each (validate_ambiguous_capability ds (bt_keys (explicit_selections sels)) b) (bt_keys required) () = Ok ()"
    using assms sel by (auto simp: bind_composition_def Let_def)
qed

lemma for_each_check: "for_each f xs () = Ok () \<Longrightarrow> x \<in> set xs \<Longrightarrow> f x () = Ok ()"
  by (induction xs) auto

lemma provides_candidate: "provides d c \<longleftrightarrow> (\<exists>k. pd_provider d = Some k \<and> pc_capability k = c)"
  by (cases "pd_provider d") (auto simp: provides_def)

lemma in_diagnostics:
  "set (provider_diagnostics ds c) = (\<lambda>(k, p). (pc_key k, p)) ` set (candidates_for ds c)"
proof -
  have "x \<in> set (provider_diagnostics ds c) \<longleftrightarrow>
      (\<exists>d \<in> set ds. \<exists>k. pd_provider d = Some k \<and> pc_capability k = c \<and> x = (pc_key k, pd_id d))" for x
  proof -
    have eq: "(case pd_provider d of None \<Rightarrow> None
       | Some k \<Rightarrow> if pc_capability k = c then Some (pc_key k, pd_id d) else None) = Some x \<longleftrightarrow>
      (\<exists>k. pd_provider d = Some k \<and> pc_capability k = c \<and> x = (pc_key k, pd_id d))" for d
      by (cases "pd_provider d") auto
    show ?thesis
      unfolding provider_diagnostics_def set_bs_collect in_map_filter by (rule bex_cong [OF refl]) (rule eq)
  qed
  moreover have "x \<in> (\<lambda>(k, p). (pc_key k, p)) ` set (candidates_for ds c) \<longleftrightarrow>
      (\<exists>d \<in> set ds. \<exists>k. pd_provider d = Some k \<and> pc_capability k = c \<and> x = (pc_key k, pd_id d))" for x
  proof -
    have "x \<in> (\<lambda>(k, p). (pc_key k, p)) ` set (candidates_for ds c) \<longleftrightarrow>
        (\<exists>k p. (k, p) \<in> set (candidates_for ds c) \<and> x = (pc_key k, p))" by force
    then show ?thesis unfolding candidates_provide by blast
  qed
  ultimately show ?thesis by blast
qed

lemma candidates_owners:
  assumes "distinct (ids ds)"
  shows "distinct (map snd (candidates_for ds c))"
  using assms
proof (induction ds)
  case (Cons d ds)
  have "set (map snd (candidates_for ds c)) \<subseteq> set (ids ds)"
    using candidates_provide [of _ _ ds c] by fastforce
  then show ?case using Cons
    by (cases "pd_provider d") (auto simp: candidates_for_def List.map_filter_simps)
qed (simp add: candidates_for_def List.map_filter_simps)

text \<open>A required capability without a single candidate fails one of the two checks.\<close>

lemma checked_capability:
  assumes ids: "distinct (ids ds)"
    and missing: "validate_missing_capability ds ex b (c, required_by) () = Ok ()"
    and ambiguous: "validate_ambiguous_capability ds ex b c () = Ok ()"
    and many: "\<forall>k p. candidates_for ds c \<noteq> [(k, p)]"
  shows "c \<in> set ex \<or> c \<in> fst ` set b"
proof (rule ccontr)
  assume no: "\<not> (c \<in> set ex \<or> c \<in> fst ` set b)"
  then have "\<exists>d \<in> set ds. provides d c"
    using missing by (auto simp: validate_missing_capability_def split: if_splits)
  then obtain d k where "d \<in> set ds" "pd_provider d = Some k" "pc_capability k = c"
    unfolding provides_candidate by blast
  then have "(k, pd_id d) \<in> set (candidates_for ds c)" unfolding candidates_provide by blast
  then obtain x y rest where cands: "candidates_for ds c = x # y # rest"
    using many by (cases "candidates_for ds c"; cases "tl (candidates_for ds c)") auto
  then have "snd x \<noteq> snd y" using candidates_owners [OF ids, of c] by auto
  moreover have "(pc_key (fst x), snd x) \<in> set (provider_diagnostics ds c)"
    "(pc_key (fst y), snd y) \<in> set (provider_diagnostics ds c)"
    unfolding in_diagnostics cands by (auto simp: split_beta)
  moreover have "length (provider_diagnostics ds c) \<le> 1"
    using ambiguous no by (auto simp: validate_ambiguous_capability_def Let_def split: if_splits)
  ultimately show False
    by (cases "provider_diagnostics ds c") auto
qed

lemma composition_bindings:
  assumes "resolve_composition ds reqs sels = Ok (b, order)"
  shows "distinct (ids ds)" "missing_pairs ds = {}" "sound_bindings ds b"
    "\<And>c k. (c, k) \<in> set sels \<Longrightarrow> \<exists>x. map_of b c = Some x \<and> pb_key x = k"
    "\<And>c. c \<in> set reqs \<Longrightarrow> c \<in> fst ` set b"
    "\<And>d c. d \<in> set ds \<Longrightarrow> is_active b d \<Longrightarrow> c \<in> set (pd_capability_dependencies d) \<Longrightarrow> c \<in> fst ` set b"
    "resolve_active ds (active_of ds b) (owners_of ds b) = Ok order"
    "\<And>d q e. d \<in> set ds \<Longrightarrow> q \<in> set (pd_dependencies d) \<Longrightarrow> e \<in> set ds \<Longrightarrow> pd_id e = q \<Longrightarrow> pd_provider e = None"
proof -
  have desc: "validate_duplicate_plugins ds = Ok ()" "validate_missing_dependencies ds = Ok ()"
    "validate_exact_provider_dependencies ds = Ok ()" "bind_composition ds reqs sels = Ok b"
    "resolve_active ds (active_of ds b) (owners_of ds b) = Ok order"
    using assms by (auto simp: resolve_composition_def validate_descriptors_def)
  obtain selected required where bind:
    "for_each (bind_selection ds) (explicit_selections sels) [] = Ok selected"
    "bind_required ds (bt_keys (explicit_selections sels)) (root_requirements reqs, selected) = (required, b)"
    "for_each (validate_missing_capability ds (bt_keys (explicit_selections sels)) b) required () = Ok ()"
    "for_each (validate_ambiguous_capability ds (bt_keys (explicit_selections sels)) b) (bt_keys required) () = Ok ()"
    using bind_composition_stages(2) [OF desc(4)] by blast
  note st = desc(1-3) bind_composition_stages(1) [OF desc(4)] bind desc(5)
  let ?ex = "bt_keys (explicit_selections sels)"
  show ids: "distinct (ids ds)" using st(1) by (simp add: validate_duplicate_plugins_eq split: if_splits)
  show "missing_pairs ds = {}"
    using st(2) by (simp add: validate_missing_dependencies_eq split: if_splits prod.splits)
  have dex: "distinct ?ex" by (rule bt_wf_distinct [OF explicit_selections_facts(1)])
  note sel = bind_selections_Ok [OF st(5) sound_bindings_Nil dex]
  have sound: "sound_bindings ds selected" using sel by blast
  have fin: "sound_bindings ds b" "\<forall>c x. map_of selected c = Some x \<longrightarrow> map_of b c = Some x"
    "settled ds ?ex reqs (required, b)"
    using bind_required_settled [OF sound st(6)] by simp_all
  show "sound_bindings ds b" by (rule fin(1))
  show chosen: "\<exists>x. map_of b c = Some x \<and> pb_key x = k" if "(c, k) \<in> set sels" for c k
  proof -
    have "(c, [k]) \<in> set (explicit_selections sels)"
      by (rule map_of_SomeD [OF single_selection [OF st(4) that]])
    then obtain x where "map_of selected c = Some x" "pb_key x = k" using sel by blast
    then show ?thesis using fin(2) by blast
  qed
  have exb: "c \<in> fst ` set b" if "c \<in> set ?ex" for c
  proof -
    have "c \<in> fst ` set sels" using that explicit_selections_facts(3) [of sels] by simp
    then obtain k where "(c, k) \<in> set sels" by force
    then show ?thesis using chosen unfolding key_iff by blast
  qed
  have bound: "c \<in> fst ` set b" if c: "c \<in> fst ` set required" for c
  proof -
    obtain s where s: "(c, s) \<in> set required" using c by force
    have "c \<in> set ?ex \<or> c \<in> fst ` set b \<or> (\<forall>k p. candidates_for ds c \<noteq> [(k, p)])"
      using fin(3) c unfolding settled_def fst_conv snd_conv by blast
    moreover have "validate_missing_capability ds ?ex b (c, s) () = Ok ()"
      by (rule for_each_check [OF st(7) s])
    moreover have "validate_ambiguous_capability ds ?ex b c () = Ok ()"
      by (rule for_each_check [OF st(8)]) (use c in simp)
    ultimately show ?thesis using checked_capability [OF ids] exb by blast
  qed
  show "c \<in> fst ` set b" if "c \<in> set reqs" for c
    using fin(3) that bound by (simp add: settled_def)
  show "c \<in> fst ` set b"
    if "d \<in> set ds" "is_active b d" "c \<in> set (pd_capability_dependencies d)" for d c
    using fin(3) that bound by (simp add: settled_def)
  show "resolve_active ds (active_of ds b) (owners_of ds b) = Ok order" by (rule st(9))
  show "pd_provider e = None"
    if "d \<in> set ds" "q \<in> set (pd_dependencies d)" "e \<in> set ds" "pd_id e = q" for d q e
    by (rule exact_providers [OF ids st(3) that])
qed

end
