(* ===== verification/PluginProps.thy ===== *)
theory PluginProps
  imports PluginComposeInv
begin

text \<open>
  The properties of plugin resolution: the order of the whole dependency graph and the cycle
  reported when there is none, the bindings and the order of a resolved composition, and the
  absence of panics.
\<close>

section \<open>The whole graph\<close>

text \<open>C28: For descriptors with distinct ids and no missing dependency, \<open>resolve_exact\<close> returns an
  order exactly when the dependency graph has no cycle; the order then lists every plugin once,
  each after all the plugins it depends on.\<close>

theorem resolve_exact_orders:
  assumes "validate_duplicate_plugins ds = Ok ()" and "validate_missing_dependencies ds = Ok ()"
  shows "((\<exists>order. resolve_exact ds = Ok order) = acyclic (depends ds pd_dependencies)) \<and>
    (\<forall>order. resolve_exact ds = Ok order \<longrightarrow>
       distinct order \<and> set order = {..<length ds} \<and> dependencies_first ds pd_dependencies order)"
proof -
  have ids: "distinct (ids ds)" using assms(1) by (simp add: validate_duplicate_plugins_eq split: if_splits)
  have closed: "missing_pairs ds = {}"
    using assms(2) by (simp add: validate_missing_dependencies_eq split: if_splits prod.splits)
  note result = resolve_exact_result [OF ids closed]
  show ?thesis
  proof (cases "acyclic (depends ds pd_dependencies)")
    case True
    from result(2) [OF True] obtain order where order: "resolve_exact ds = Ok order" "distinct order"
      "set order = {..<length ds}" "dependencies_first ds pd_dependencies order" by blast
    then show ?thesis unfolding order(1) outcome.inject using True by blast
  next
    case False
    show ?thesis unfolding result(1) [OF False] using False by blast
  qed
qed

definition sample_graph :: "plugin_descriptor list" where
  "sample_graph =
     [requires_plugins [''b''] (descriptor_new ''a''), descriptor_new ''b'',
      requires_plugins [''a'', ''b''] (descriptor_new ''c'')]"

theorem resolve_exact_orders_witness:
  "resolve_exact sample_graph = Ok [1, 0, 2] \<and> acyclic (depends sample_graph pd_dependencies) \<and>
   dependencies_first sample_graph pd_dependencies [1, 0, 2]"
proof -
  have "validate_duplicate_plugins sample_graph = Ok ()" "validate_missing_dependencies sample_graph = Ok ()"
    by code_simp+
  note order = resolve_exact_orders [OF this]
  have "resolve_exact sample_graph = Ok [1, 0, 2]" by code_simp
  with order show ?thesis by simp
qed

text \<open>For such descriptors an error of \<open>resolve_exact\<close> means that the graph has a cycle, and
  names, in increasing order, the plugins of the least of its cyclic strongly connected
  components, whichever order the plugins were submitted in.\<close>

theorem resolve_exact_reports_cycle:
  assumes "validate_duplicate_plugins ds = Ok ()" and "validate_missing_dependencies ds = Ok ()"
  shows "(resolve_exact ds = Err e) = (\<not> acyclic (depends ds pd_dependencies) \<and>
     e = DependencyCycle (Min {component_of (depends ds pd_dependencies) p | p.
       (p, p) \<in> (depends ds pd_dependencies)\<^sup>+}))"
proof -
  have ids: "distinct (ids ds)" using assms(1) by (simp add: validate_duplicate_plugins_eq split: if_splits)
  have closed: "missing_pairs ds = {}"
    using assms(2) by (simp add: validate_missing_dependencies_eq split: if_splits prod.splits)
  have components: "{component_of E p | p. (p, p) \<in> E\<^sup>+} = cyclic_components_in E UNIV"
    for E :: "(plugin_id \<times> plugin_id) set"
    by (auto simp: cyclic_components_in_def)
  note result = resolve_exact_result [OF ids closed]
  show ?thesis
    unfolding components
  proof (cases "acyclic (depends ds pd_dependencies)")
    case True
    from result(2) [OF True] obtain order where order: "resolve_exact ds = Ok order" by blast
    show "(resolve_exact ds = Err e) = (\<not> acyclic (depends ds pd_dependencies) \<and>
     e = DependencyCycle (Min (cyclic_components_in (depends ds pd_dependencies) UNIV)))"
      unfolding order using True by blast
  next
    case False
    show "(resolve_exact ds = Err e) = (\<not> acyclic (depends ds pd_dependencies) \<and>
     e = DependencyCycle (Min (cyclic_components_in (depends ds pd_dependencies) UNIV)))"
      unfolding result(1) [OF False] outcome.inject using False by blast
  qed
qed

definition sample_cycles :: "plugin_descriptor list" where
  "sample_cycles =
     [requires_plugins [''z''] (descriptor_new ''z''), requires_plugins [''c''] (descriptor_new ''b''),
      requires_plugins [''b'', ''d''] (descriptor_new ''c''), requires_plugins [''d''] (descriptor_new ''a''),
      descriptor_new ''d'']"

theorem resolve_exact_reports_cycle_witness:
  "resolve_exact sample_cycles = Err (DependencyCycle [''b'', ''c'']) \<and>
   \<not> acyclic (depends sample_cycles pd_dependencies) \<and>
   Min {component_of (depends sample_cycles pd_dependencies) p | p.
     (p, p) \<in> (depends sample_cycles pd_dependencies)\<^sup>+} = [''b'', ''c'']"
proof -
  have "validate_duplicate_plugins sample_cycles = Ok ()" "validate_missing_dependencies sample_cycles = Ok ()"
    by code_simp+
  note cycle = resolve_exact_reports_cycle [OF this, of "DependencyCycle [''b'', ''c'']"]
  have "resolve_exact sample_cycles = Err (DependencyCycle [''b'', ''c''])" by code_simp
  with cycle show ?thesis by simp
qed

section \<open>A resolved composition\<close>

text \<open>In a resolved composition every explicit selection, every capability the root requires
  and every capability an active plugin requires is bound, and a binding names a submitted
  plugin that declares itself provider of that capability under that key.\<close>

theorem composition_binds_requirements:
  assumes "resolve_composition ds requirements selections = Ok (bindings, order)"
  shows "list_all (\<lambda>(c, k). map_option pb_key (map_of bindings c) = Some k) selections \<and>
    list_all (\<lambda>c. c \<in> fst ` set bindings) requirements \<and>
    list_all (\<lambda>d. list_all (\<lambda>c. c \<in> fst ` set bindings) (pd_capability_dependencies d))
      (filter (is_active bindings) ds) \<and>
    list_all (\<lambda>(c, x). \<exists>d \<in> set ds. pd_id d = pb_owner x \<and>
      pd_provider d = Some \<lparr>pc_capability = c, pc_key = pb_key x\<rparr>) bindings"
proof -
  note facts = composition_bindings [OF assms]
  have "map_option pb_key (map_of bindings c) = Some k" if "(c, k) \<in> set selections" for c k
    using facts(4) [OF that] by auto
  moreover have "provided_by ds c x" if "(c, x) \<in> set bindings" for c x
  proof -
    have "map_of bindings c = Some x"
      using facts(3) that bt_wf_distinct [of bindings] by (simp add: sound_bindings_def)
    then show ?thesis using facts(3) by (simp add: sound_bindings_def)
  qed
  ultimately show ?thesis
    using facts(5,6) by (auto simp: list_all_iff provided_by_def)
qed

definition sample_plugins :: "plugin_descriptor list" where
  "sample_plugins =
     [requires_capabilities [''llm''] (descriptor_provider ''rt'' ''agent'' ''std''),
      requires_plugins [''base''] (requires_capabilities [''agent''] (descriptor_new ''app'')),
      descriptor_new ''base'', descriptor_provider ''oa'' ''llm'' ''openai'',
      descriptor_provider ''lm'' ''llm'' ''local'']"

definition sample_bindings :: bindings where
  "sample_bindings =
     [(''agent'', \<lparr>pb_key = ''std'', pb_owner = ''rt''\<rparr>), (''llm'', \<lparr>pb_key = ''local'', pb_owner = ''lm''\<rparr>)]"

theorem composition_binds_requirements_witness:
  "resolve_composition sample_plugins [''agent''] [(''llm'', ''local'')] = Ok (sample_bindings, [2, 4, 0, 1]) \<and>
   ''agent'' \<in> fst ` set sample_bindings \<and> map_option pb_key (map_of sample_bindings ''llm'') = Some ''local''"
proof -
  have run: "resolve_composition sample_plugins [''agent''] [(''llm'', ''local'')] =
      Ok (sample_bindings, [2, 4, 0, 1])" by code_simp
  then show ?thesis using composition_binds_requirements [OF run] by simp
qed

lemma capability_owner: "p \<in> set (capability_owners b d) \<longleftrightarrow>
  (\<exists>c \<in> set (pd_capability_dependencies d @ pd_optional_capability_dependencies d).
     \<exists>x. map_of b c = Some x \<and> pb_owner x = p)"
  unfolding capability_owners_def set_bs_collect set_map image_iff Bex_def in_map_filter by blast

lemma active_order:
  assumes ids: "distinct (ids ds)" and b: "sound_bindings ds b"
  defines "f \<equiv> active_dependencies (active_of ds b) (owners_of ds b)"
    and "ks \<equiv> filter (\<lambda>d. pd_id d \<in> set (active_of ds b)) ds"
  shows "\<not> acyclic (depends ks f) \<Longrightarrow> resolve_active ds (active_of ds b) (owners_of ds b) =
      Err (DependencyCycle (Min (cyclic_components_in (depends ks f) UNIV)))"
    and "acyclic (depends ks f) \<Longrightarrow>
      \<exists>order. resolve_active ds (active_of ds b) (owners_of ds b) = Ok order \<and> distinct order \<and>
        set order = {i. i < length ds \<and> pd_id (ds ! i) \<in> set (active_of ds b)} \<and> dependencies_first ds f order"
    and "d \<in> set ds \<Longrightarrow> pd_id d \<in> set (active_of ds b) \<longleftrightarrow> is_active b d"
    and "d \<in> set ds \<Longrightarrow> is_active b d \<Longrightarrow> set (f d) =
      {q \<in> set (pd_dependencies d). q \<in> set (active_of ds b)} \<union> set (capability_owners b d)"
proof -
  have active: "pd_id d \<in> set (active_of ds b) \<longleftrightarrow> is_active b d" if d: "d \<in> set ds" for d
  proof
    assume "pd_id d \<in> set (active_of ds b)"
    then obtain e where e: "e \<in> set ds" "is_active b e" "pd_id e = pd_id d" by (auto simp: active_of_def)
    then have "e = d" using ids d by (auto simp: distinct_map dest: inj_onD)
    then show "is_active b d" using e by simp
  qed (use d in \<open>auto simp: active_of_def\<close>)
  have owners: "required_of (owners_of ds b) (pd_id d) = capability_owners b d"
    if "d \<in> set ds" "pd_id d \<in> set (active_of ds b)" for d
  proof -
    let ?es = "map (\<lambda>d. (pd_id d, capability_owners b d)) (filter (\<lambda>d. pd_id d \<in> set (active_of ds b)) ds)"
    have dist: "distinct (map fst ?es)" using ids by (simp add: comp_def distinct_map_filter)
    have "(pd_id d, capability_owners b d) \<in> set ?es" using that by auto
    then have "map_of (owners_of ds b) (pd_id d) = Some (capability_owners b d)"
      unfolding owners_of_def map_of_bt_collect_distinct [OF dist] by (rule map_of_is_SomeI [OF dist])
    then show ?thesis by (simp add: required_of_def)
  qed
  have wf: "bs_wf (active_of ds b)" "set (active_of ds b) \<subseteq> set (ids ds)"
    by (auto simp: active_of_def)
  have closed: "q \<in> set (active_of ds b)"
    if d: "d \<in> set ds" "pd_id d \<in> set (active_of ds b)" "q \<in> set (required_of (owners_of ds b) (pd_id d))" for d q
  proof -
    obtain c x where x: "map_of b c = Some x" "pb_owner x = q"
      using d(3) unfolding owners [OF d(1,2)] capability_owner by blast
    then have "provided_by ds c x" using b by (simp add: sound_bindings_def)
    then obtain e where e: "e \<in> set ds" "pd_id e = q" unfolding provided_by_def using x(2) by blast
    have "x \<in> set (bt_values b)" using map_of_SomeD [OF x(1)] by force
    then have "is_active b e" using e(2) x(2) unfolding is_active_def by blast
    then show ?thesis using active [OF e(1)] e(2) by simp
  qed
  show "\<not> acyclic (depends ks f) \<Longrightarrow> resolve_active ds (active_of ds b) (owners_of ds b) =
      Err (DependencyCycle (Min (cyclic_components_in (depends ks f) UNIV)))"
    unfolding f_def ks_def by (rule resolve_active_result(1) [OF ids wf]) (use closed in blast)+
  show "acyclic (depends ks f) \<Longrightarrow>
      \<exists>order. resolve_active ds (active_of ds b) (owners_of ds b) = Ok order \<and> distinct order \<and>
        set order = {i. i < length ds \<and> pd_id (ds ! i) \<in> set (active_of ds b)} \<and> dependencies_first ds f order"
    unfolding f_def ks_def by (rule resolve_active_result(2) [OF ids wf]) (use closed in blast)+
  show "d \<in> set ds \<Longrightarrow> pd_id d \<in> set (active_of ds b) \<longleftrightarrow> is_active b d" by (rule active)
  show "set (f d) = {q \<in> set (pd_dependencies d). q \<in> set (active_of ds b)} \<union> set (capability_owners b d)"
    if d: "d \<in> set ds" "is_active b d"
  proof -
    have own: "required_of (owners_of ds b) (pd_id d) = capability_owners b d"
      using owners d active by blast
    have "set (f d) = set (filter (\<lambda>p. p \<in> set (active_of ds b)) (pd_dependencies d)) \<union>
        set (required_of (owners_of ds b) (pd_id d))"
      by (cases "map_of (owners_of ds b) (pd_id d)";
          auto simp: f_def active_dependencies_def required_of_def Let_def)
    then show ?thesis using own by auto
  qed
qed

text \<open>A resolved composition orders exactly the active plugins, each once, and every active
  plugin comes after all the plugins it names and after the owners of all the bound
  capabilities it requires or uses.\<close>

theorem composition_orders_active:
  assumes "resolve_composition ds requirements selections = Ok (bindings, order)"
  shows "distinct order \<and> set order = {i. i < length ds \<and> is_active bindings (ds ! i)} \<and>
    dependencies_first ds (\<lambda>d. pd_dependencies d @ capability_owners bindings d) order"
proof -
  note facts = composition_bindings [OF assms]
  note active = active_order [OF facts(1,3)]
  let ?f = "active_dependencies (active_of ds bindings) (owners_of ds bindings)"
  have order: "distinct order" "set order = {i. i < length ds \<and> pd_id (ds ! i) \<in> set (active_of ds bindings)}"
    "dependencies_first ds ?f order"
  proof -
    let ?ks = "filter (\<lambda>d. pd_id d \<in> set (active_of ds bindings)) ds"
    have "acyclic (depends ?ks ?f)"
    proof (rule ccontr)
      assume "\<not> acyclic (depends ?ks ?f)"
      then show False using active(1) facts(7) by simp
    qed
    from active(2) [OF this] facts(7) show "distinct order" "dependencies_first ds ?f order"
      "set order = {i. i < length ds \<and> pd_id (ds ! i) \<in> set (active_of ds bindings)}" by auto
  qed
  have set: "set order = {i. i < length ds \<and> is_active bindings (ds ! i)}"
    using order(2) active(3) by auto
  have "dependencies_first ds (\<lambda>d. pd_dependencies d @ capability_owners bindings d) order"
    unfolding dependencies_first_def
  proof (intro allI impI ballI)
    fix i q
    assume i: "i < length order"
      and q: "q \<in> set (pd_dependencies (ds ! (order ! i)) @ capability_owners bindings (ds ! (order ! i)))"
    let ?d = "ds ! (order ! i)"
    have "order ! i \<in> set order" using i by simp
    then have d: "?d \<in> set ds" "is_active bindings ?d" using set by auto
    have "q \<in> set (active_of ds bindings)" if dep: "q \<in> set (pd_dependencies ?d)"
    proof -
      have "q \<in> set (ids ds)" using facts(2) d(1) dep by (auto simp: missing_pairs_def)
      then obtain e where e: "e \<in> set ds" "pd_id e = q" by auto
      then have "is_active bindings e" using facts(8) [OF d(1) dep e] by (simp add: is_active_def)
      then show ?thesis using active(3) [OF e(1)] e(2) by simp
    qed
    then have "q \<in> set (?f ?d)" using q active(4) [OF d] by auto
    then show "\<exists>j < i. pd_id (ds ! (order ! j)) = q"
      using order(3) i unfolding dependencies_first_def by blast
  qed
  with order(1) set show ?thesis by blast
qed

theorem composition_orders_active_witness:
  "resolve_composition sample_plugins [] [(''llm'', ''local'')] = Ok (sample_bindings, [2, 4, 0, 1]) \<and>
   {i. i < length sample_plugins \<and> is_active sample_bindings (sample_plugins ! i)} = {0, 1, 2, 4} \<and>
   dependencies_first sample_plugins
     (\<lambda>d. pd_dependencies d @ capability_owners sample_bindings d) [2, 4, 0, 1]"
proof -
  have run: "resolve_composition sample_plugins [] [(''llm'', ''local'')] =
      Ok (sample_bindings, [2, 4, 0, 1])" by code_simp
  have "set [2, 4, 0, 1 :: nat] = {0, 1, 2, 4}" by auto
  then show ?thesis using run composition_orders_active [OF run] by simp
qed

section \<open>No panic\<close>

lemma bind_selection_no_panic: "bind_selection ds e b \<noteq> Panic"
proof -
  obtain c s where e: "e = (c, s)" by (cases e)
  show ?thesis
  proof (cases "length s = 1")
    case True
    then obtain k where s: "s = [k]" by (metis One_nat_def length_0_conv length_Suc_conv)
    let ?match = "\<lambda>d. case pd_provider d of None \<Rightarrow> False | Some p \<Rightarrow> pc_capability p = c \<and> pc_key p = k"
    show ?thesis
    proof (cases "List.find ?match ds")
      case None
      then show ?thesis by (simp add: bind_selection_def e s)
    next
      case (Some d)
      then have "?match d" by (auto simp: find_Some_iff)
      then show ?thesis using Some by (cases "pd_provider d") (simp_all add: bind_selection_def e s)
    qed
  qed (simp add: bind_selection_def e)
qed

lemma provider_candidates_no_panic: "validate_provider_candidates ds \<noteq> Panic"
proof -
  have "(case List.find (\<lambda>(_, owners). 1 < length owners) m of
      None \<Rightarrow> Ok ()
    | Some ((capability, candidate), incumbent # challenger # _) \<Rightarrow>
        Err (DuplicateProviderCandidate capability candidate incumbent challenger)
    | Some _ \<Rightarrow> Panic) \<noteq> Panic" for m :: "((capability_id \<times> string) \<times> plugin_id list) list"
  proof (cases "List.find (\<lambda>(_, owners). 1 < length owners) m")
    case (Some e)
    obtain c k owners where e: "e = ((c, k), owners)" by (metis surj_pair)
    have "1 < length owners" using Some e by (auto simp: find_Some_iff)
    then obtain x y zs where "owners = x # y # zs"
      by (cases owners; cases "tl owners") auto
    then show ?thesis using Some e by simp
  qed simp
  then show ?thesis unfolding validate_provider_candidates_def Let_def .
qed

text \<open>
  No \<open>expect\<close> of the resolution is reached on an absent value, no indegree goes below zero, and
  neither search runs out of fuel.
\<close>

lemma no_panic_composition: "resolve_composition ds requirements selections \<noteq> Panic"
proof
  assume panic: "resolve_composition ds requirements selections = Panic"
  have bind: "bind_composition ds requirements selections \<noteq> Panic"
  proof -
    have "validate_selections s \<noteq> Panic" for s
      by (auto simp: validate_selections_def split: option.splits)
    moreover have "for_each (bind_selection ds) s b \<noteq> Panic" for s b
      by (rule for_each_no_panic) (rule bind_selection_no_panic)
    moreover have "for_each (validate_missing_capability ds ex b) s () \<noteq> Panic" for ex b s
      by (rule for_each_no_panic) (auto simp: validate_missing_capability_def split: prod.splits if_splits)
    moreover have "for_each (validate_ambiguous_capability ds ex b) s () \<noteq> Panic" for ex b s
      by (rule for_each_no_panic) (auto simp: validate_ambiguous_capability_def Let_def split: if_splits)
    ultimately show ?thesis by (auto simp: bind_composition_def Let_def and_then_eq_Panic)
  qed
  have dup: "validate_duplicate_plugins ds \<noteq> Panic" by (simp add: validate_duplicate_plugins_eq)
  have mis: "validate_missing_dependencies ds \<noteq> Panic"
    by (simp add: validate_missing_dependencies_eq split: prod.splits)
  have exact: "validate_exact_provider_dependencies ds \<noteq> Panic"
    by (auto simp: validate_exact_provider_dependencies_def Let_def split: list.splits)
  have resolved: "resolve_exact ds \<noteq> Panic"
    if "validate_duplicate_plugins ds = Ok ()" "validate_missing_dependencies ds = Ok ()"
    using resolve_exact_result [of ds] that
    by (cases "acyclic (depends ds pd_dependencies)")
      (auto simp: validate_duplicate_plugins_eq validate_missing_dependencies_eq split: if_splits prod.splits)
  have desc: "validate_descriptors ds \<noteq> Panic"
    using dup mis exact resolved provider_candidates_no_panic
    by (auto simp: validate_descriptors_def and_then_eq_Panic)
  obtain b where ok: "validate_duplicate_plugins ds = Ok ()" "bind_composition ds requirements selections = Ok b"
    and last: "resolve_active ds (active_of ds b) (owners_of ds b) = Panic"
    using panic desc bind by (auto simp: resolve_composition_def and_then_eq_Panic validate_descriptors_def)
  have ids: "distinct (ids ds)" using ok(1) by (simp add: validate_duplicate_plugins_eq split: if_splits)
  obtain selected required where sel: "for_each (bind_selection ds) (explicit_selections selections) [] = Ok selected"
    "bind_required ds (bt_keys (explicit_selections selections)) (root_requirements requirements, selected) = (required, b)"
    using bind_composition_stages(2) [OF ok(2)] by blast
  have dex: "distinct (bt_keys (explicit_selections selections))"
    by (rule bt_wf_distinct [OF explicit_selections_facts(1)])
  have "sound_bindings ds selected" using bind_selections_Ok [OF sel(1) sound_bindings_Nil dex] by blast
  then have "sound_bindings ds b" using bind_required_settled [OF _ sel(2)] by simp
  note active = active_order(1,2) [OF ids this]
  show False
    using active last
    by (cases "acyclic (depends (filter (\<lambda>d. pd_id d \<in> set (active_of ds b)) ds)
        (active_dependencies (active_of ds b) (owners_of ds b)))") auto
qed

end
