(* ===== verification/PluginKernelInv.thy ===== *)
theory PluginKernelInv
  imports PluginKernel PluginProps
begin

text \<open>
  Invariants of mounting and activation: what a plan may hold, how the registry grows with each
  mounted plugin, and which services stand when a factory is called.
\<close>

section \<open>Slots\<close>

lemmas capability_names =
  AGENT_RUNTIME_def LLM_PROVIDER_def LLM_RUNTIME_def TOOL_RUNTIME_def SESSION_PERSISTENCE_def SESSION_RUNTIME_def

lemma capability_distinct [simp]:
  "AGENT_RUNTIME \<noteq> LLM_PROVIDER" "AGENT_RUNTIME \<noteq> LLM_RUNTIME" "AGENT_RUNTIME \<noteq> TOOL_RUNTIME" "AGENT_RUNTIME \<noteq> SESSION_PERSISTENCE" "AGENT_RUNTIME \<noteq> SESSION_RUNTIME"
  "LLM_PROVIDER \<noteq> AGENT_RUNTIME" "LLM_PROVIDER \<noteq> LLM_RUNTIME" "LLM_PROVIDER \<noteq> TOOL_RUNTIME" "LLM_PROVIDER \<noteq> SESSION_PERSISTENCE" "LLM_PROVIDER \<noteq> SESSION_RUNTIME"
  "LLM_RUNTIME \<noteq> AGENT_RUNTIME" "LLM_RUNTIME \<noteq> LLM_PROVIDER" "LLM_RUNTIME \<noteq> TOOL_RUNTIME" "LLM_RUNTIME \<noteq> SESSION_PERSISTENCE" "LLM_RUNTIME \<noteq> SESSION_RUNTIME"
  "TOOL_RUNTIME \<noteq> AGENT_RUNTIME" "TOOL_RUNTIME \<noteq> LLM_PROVIDER" "TOOL_RUNTIME \<noteq> LLM_RUNTIME" "TOOL_RUNTIME \<noteq> SESSION_PERSISTENCE" "TOOL_RUNTIME \<noteq> SESSION_RUNTIME"
  "SESSION_PERSISTENCE \<noteq> AGENT_RUNTIME" "SESSION_PERSISTENCE \<noteq> LLM_PROVIDER" "SESSION_PERSISTENCE \<noteq> LLM_RUNTIME" "SESSION_PERSISTENCE \<noteq> TOOL_RUNTIME" "SESSION_PERSISTENCE \<noteq> SESSION_RUNTIME"
  "SESSION_RUNTIME \<noteq> AGENT_RUNTIME" "SESSION_RUNTIME \<noteq> LLM_PROVIDER" "SESSION_RUNTIME \<noteq> LLM_RUNTIME" "SESSION_RUNTIME \<noteq> TOOL_RUNTIME" "SESSION_RUNTIME \<noteq> SESSION_PERSISTENCE"
  by (simp_all add: capability_names)

lemma slot_capability_inject [simp]: "slot_capability s = slot_capability t \<longleftrightarrow> s = t"
  by (cases s; cases t) (simp_all add: capability_names)

lemma all_slots [simp]: "s \<in> set service_slots"
  by (cases s) (simp_all add: service_slots_def)

lemma distinct_slots [simp]: "distinct service_slots"
  by (simp add: service_slots_def)

lemma slot_of_Some [simp]: "slot_of c = Some s \<longleftrightarrow> c = slot_capability s"
proof
  assume "slot_of c = Some s"
  then show "c = slot_capability s" by (auto simp: slot_of_def find_Some_iff)
next
  assume c: "c = slot_capability s"
  then obtain t where t: "slot_of c = Some t"
    by (cases "slot_of c") (auto simp: slot_of_def find_None_iff)
  then have "c = slot_capability t" by (auto simp: slot_of_def find_Some_iff)
  then show "slot_of c = Some s" using c t by simp
qed

lemma slot_of_capability [simp]: "slot_of (slot_capability s) = Some s"
  by simp

definition capability_of :: "plugin_descriptor \<Rightarrow> capability_id option" where
  "capability_of d = map_option pc_capability (pd_provider d)"

section \<open>Plans\<close>

definition plan_ok :: "plugin_descriptor \<Rightarrow> registration_plan \<Rightarrow> bool" where
  "plan_ok d plan \<longleftrightarrow>
     rp_owner plan = pd_id d \<and> rp_provider plan = pd_provider d \<and>
     (\<forall>kind. bt_wf (rp_keyed plan kind)) \<and>
     (\<forall>slot. rp_factories plan slot \<noteq> None \<longrightarrow> capability_of d = Some (slot_capability slot))"

lemma plan_new_ok: "plan_ok d (plan_new d)"
  by (simp add: plan_ok_def plan_new_def)

lemma mount_step_ok: "plan_ok d plan \<Longrightarrow> mount_step describe call plan = (plan', result) \<Longrightarrow> plan_ok d plan'"
  by (cases call)
    (auto simp: plan_ok_def capability_of_def register_keyed_def provide_factory_def reject_def
      register_hook_def register_tool_guard_def Let_def split: if_splits)

lemma run_mount_ok: "plan_ok d plan \<Longrightarrow> run_mount describe script plan = (plan', result) \<Longrightarrow> plan_ok d plan'"
proof (induction script arbitrary: plan)
  case (Return x)
  then show ?case by simp
next
  case (Call call rest)
  obtain p res where step: "mount_step describe call plan = (p, res)" by (cases "mount_step describe call plan")
  have "plan_ok d p" by (rule mount_step_ok [OF Call.prems(1) step])
  then show ?case using Call.IH [of "rest res" p] Call.prems(2) step by simp
qed

section \<open>Commit\<close>

lemma inserts_owned:
  assumes "distinct (map fst es)" "\<forall>k \<in> fst ` set es. map_of m k = None"
  shows "\<exists>m'. for_each (insert_owned p) es m = Ok m' \<and> fst ` set m' = fst ` set es \<union> fst ` set m \<and>
    (bt_wf m \<longrightarrow> bt_wf m')"
  using assms
proof (induction es arbitrary: m)
  case (Cons e es)
  obtain k v where e: "e = (k, v)" by (cases e)
  let ?m = "bt_insert k \<lparr>ow_owner = p, ow_value = v\<rparr> m"
  have "\<forall>k' \<in> fst ` set es. map_of ?m k' = None" using Cons.prems e by auto
  then obtain m' where "for_each (insert_owned p) es ?m = Ok m'"
    "fst ` set m' = fst ` set es \<union> fst ` set ?m" "bt_wf ?m \<longrightarrow> bt_wf m'"
    using Cons.IH [of ?m] Cons.prems(1) by auto
  then show ?case using e Cons.prems(2) by (simp add: insert_owned_def)
qed simp

lemma requirement_keys:
  assumes "distinct ks" "\<forall>k \<in> set ks. map_of m k = None"
  shows "\<exists>m'. for_each (commit_agent_requirement r) ks m = Ok m' \<and> fst ` set m' = set ks \<union> fst ` set m"
  using assms
proof (induction ks arbitrary: m)
  case (Cons k ks)
  have "\<forall>k' \<in> set ks. map_of (bt_insert k r m) k' = None" using Cons.prems by auto
  then obtain m' where "for_each (commit_agent_requirement r) ks (bt_insert k r m) = Ok m'"
    "fst ` set m' = set ks \<union> fst ` set (bt_insert k r m)"
    using Cons.IH [of "bt_insert k r m"] Cons.prems(1) by auto
  moreover have "commit_agent_requirement r k m = Ok (bt_insert k r m)"
    using Cons.prems(2) by (simp add: commit_agent_requirement_def)
  ultimately show ?case by simp
qed simp

text \<open>Registries that \<open>validate_plan\<close> found disjoint from the plan's.\<close>

definition keys_apart :: "registration_plan \<Rightarrow> registry_kind \<Rightarrow> plugin_registry \<Rightarrow> bool" where
  "keys_apart plan kind R \<longleftrightarrow>
     bt_wf (rp_keyed plan kind) \<and> (\<forall>k \<in> fst ` set (rp_keyed plan kind). map_of (pr_keyed R kind) k = None)"

lemma validate_keys_Ok:
  "validate_keys kind committed staged p = Ok () \<Longrightarrow> k \<in> fst ` set staged \<Longrightarrow> map_of committed k = None"
  unfolding validate_keys_def
  by (drule for_each_check [of _ _ k]) (auto split: option.splits)

lemma validate_keys_no_panic: "validate_keys kind committed staged p \<noteq> Panic"
  unfolding validate_keys_def by (rule for_each_no_panic) (auto split: option.splits)

lemma validate_plan_no_panic: "validate_plan R plan \<noteq> Panic"
  unfolding validate_plan_def by (rule for_each_no_panic) (rule validate_keys_no_panic)

lemma validate_plan_apart:
  assumes "validate_plan R plan = Ok ()" "\<forall>kind. bt_wf (rp_keyed plan kind)"
  shows "keys_apart plan kind R"
proof -
  have "kind \<in> set [AgentRegistry, ToolRegistry, ToolAuthorizerRegistry, EventObserverRegistry]"
    by (cases kind) auto
  then have "validate_keys kind (pr_keyed R kind) (rp_keyed plan kind) (rp_owner plan) = Ok ()"
    using for_each_check [OF assms(1) [unfolded validate_plan_def], of kind] by blast
  then show ?thesis using validate_keys_Ok assms(2) by (auto simp: keys_apart_def)
qed

lemma commits_keyed:
  assumes "distinct kinds" "\<forall>kind \<in> set kinds. keys_apart plan kind R"
  shows "\<exists>f. for_each (commit_keyed plan) kinds R = Ok (R\<lparr>pr_keyed := f\<rparr>) \<and>
    (\<forall>kind. kind \<notin> set kinds \<longrightarrow> f kind = pr_keyed R kind) \<and>
    (\<forall>kind \<in> set kinds. fst ` set (f kind) = fst ` set (rp_keyed plan kind) \<union> fst ` set (pr_keyed R kind) \<and>
       (bt_wf (pr_keyed R kind) \<longrightarrow> bt_wf (f kind)))"
  using assms
proof (induction kinds arbitrary: R)
  case Nil
  then show ?case by (intro exI [of _ "pr_keyed R"]) simp
next
  case (Cons kind kinds)
  have "keys_apart plan kind R" using Cons.prems(2) by simp
  then obtain m where m: "for_each (insert_owned (rp_owner plan)) (rp_keyed plan kind) (pr_keyed R kind) = Ok m"
    "fst ` set m = fst ` set (rp_keyed plan kind) \<union> fst ` set (pr_keyed R kind)"
    "bt_wf (pr_keyed R kind) \<longrightarrow> bt_wf m"
    using inserts_owned [of "rp_keyed plan kind" "pr_keyed R kind" "rp_owner plan"] bt_wf_distinct
    unfolding keys_apart_def by blast
  let ?R = "R\<lparr>pr_keyed := (pr_keyed R)(kind := m)\<rparr>"
  have "\<forall>k \<in> set kinds. keys_apart plan k ?R" using Cons.prems by (auto simp: keys_apart_def)
  then obtain f where f: "for_each (commit_keyed plan) kinds ?R = Ok (?R\<lparr>pr_keyed := f\<rparr>)"
    "\<forall>k. k \<notin> set kinds \<longrightarrow> f k = pr_keyed ?R k"
    "\<forall>k \<in> set kinds. fst ` set (f k) = fst ` set (rp_keyed plan k) \<union> fst ` set (pr_keyed ?R k) \<and>
       (bt_wf (pr_keyed ?R k) \<longrightarrow> bt_wf (f k))"
    using Cons.IH [of ?R] Cons.prems(1) by auto
  have fresh: "kind \<notin> set kinds" using Cons.prems(1) by simp
  have "commit_keyed plan kind R = Ok ?R" using m(1) by (simp add: commit_keyed_def)
  then have run: "for_each (commit_keyed plan) (kind # kinds) R = Ok (R\<lparr>pr_keyed := f\<rparr>)"
    using f(1) by simp
  have other: "\<forall>k. k \<notin> set (kind # kinds) \<longrightarrow> f k = pr_keyed R k" using f(2) by simp
  have "f kind = m" using f(2) fresh by simp
  moreover have "\<forall>k \<in> set kinds. pr_keyed ?R k = pr_keyed R k" using fresh by auto
  ultimately have "\<forall>k \<in> set (kind # kinds). fst ` set (f k) = fst ` set (rp_keyed plan k) \<union> fst ` set (pr_keyed R k) \<and>
       (bt_wf (pr_keyed R k) \<longrightarrow> bt_wf (f k))"
    using m(2,3) f(3) by simp
  with run other show ?case by blast
qed

lemma commits_factories:
  assumes "distinct slots" "\<forall>slot \<in> set slots. rp_factories plan slot \<noteq> None \<longrightarrow> pr_factories R slot = None"
  shows "for_each (commit_factory plan) slots R = Ok (R\<lparr>pr_factories := (\<lambda>slot.
    if slot \<in> set slots \<and> rp_factories plan slot \<noteq> None
    then map_option (own (rp_owner plan)) (rp_factories plan slot) else pr_factories R slot)\<rparr>)"
  using assms
proof (induction slots arbitrary: R)
  case (Cons slot slots)
  let ?g = "\<lambda>slots R slot. if slot \<in> set slots \<and> rp_factories plan slot \<noteq> None
    then map_option (own (rp_owner plan)) (rp_factories plan slot) else pr_factories R slot"
  show ?case
  proof (cases "rp_factories plan slot")
    case None
    then have "commit_factory plan slot R = Ok R" by (simp add: commit_factory_def)
    moreover have "?g (slot # slots) R = ?g slots R" using None by (auto simp: fun_eq_iff)
    moreover have "for_each (commit_factory plan) slots R = Ok (R\<lparr>pr_factories := ?g slots R\<rparr>)"
      by (rule Cons.IH) (use Cons.prems in auto)
    ultimately show ?thesis by simp
  next
    case (Some v)
    let ?R = "R\<lparr>pr_factories := (pr_factories R)(slot := Some (own (rp_owner plan) v))\<rparr>"
    have "commit_factory plan slot R = Ok ?R"
      using Cons.prems(2) Some by (simp add: commit_factory_def own_def)
    moreover have "for_each (commit_factory plan) slots ?R = Ok (?R\<lparr>pr_factories := ?g slots ?R\<rparr>)"
      by (rule Cons.IH) (use Cons.prems in auto)
    moreover have "?g slots ?R = ?g (slot # slots) R" using Some Cons.prems(1) by (auto simp: fun_eq_iff)
    ultimately show ?thesis by simp
  qed
qed simp

section \<open>Mounting\<close>

definition same_keys :: "plugin_registry \<Rightarrow> bool" where
  "same_keys R \<longleftrightarrow> fst ` set (pr_keyed R AgentRegistry) = fst ` set (pr_agent_requirements R)"

text \<open>The factories of the plugins mounted so far, \<open>P\<close>, fill exactly their slots.\<close>

definition mounted :: "plugin_descriptor list \<Rightarrow> bindings \<Rightarrow> nat list \<Rightarrow> plugin_registry \<Rightarrow> bool" where
  "mounted ds b P R \<longleftrightarrow>
     pr_bindings R = b \<and> pr_services R = (\<lambda>_. None) \<and> pr_lifecycles R = [] \<and> same_keys R \<and>
     (\<forall>slot. case pr_factories R slot of
        None \<Rightarrow> \<forall>i \<in> set P. capability_of (ds ! i) \<noteq> Some (slot_capability slot)
      | Some f \<Rightarrow> \<exists>i \<in> set P. ow_owner f = pd_id (ds ! i) \<and> capability_of (ds ! i) = Some (slot_capability slot))"

lemma commit_plan_Ok:
  assumes plan: "plan_ok d plan" and apart: "\<And>kind. keys_apart plan kind R" and R: "same_keys R"
    and free: "\<And>slot. capability_of d = Some (slot_capability slot) \<Longrightarrow> pr_factories R slot = None"
  shows "\<exists>R'. commit_plan plan R = Ok R' \<and> same_keys R' \<and> pr_bindings R' = pr_bindings R \<and>
    pr_services R' = pr_services R \<and> pr_lifecycles R' = pr_lifecycles R \<and>
    (\<forall>slot. pr_factories R' slot = (if rp_factories plan slot \<noteq> None
       then map_option (own (rp_owner plan)) (rp_factories plan slot) else pr_factories R slot))"
proof -
  let ?ks = "bt_keys (rp_keyed plan AgentRegistry)"
  have "distinct ?ks" using plan by (simp add: plan_ok_def bt_wf_distinct)
  moreover have "\<forall>k \<in> set ?ks. map_of (pr_agent_requirements R) k = None"
  proof
    fix k assume "k \<in> set ?ks"
    then have "map_of (pr_keyed R AgentRegistry) k = None"
      using apart [of AgentRegistry] by (auto simp: keys_apart_def)
    then show "map_of (pr_agent_requirements R) k = None"
      using R by (simp add: same_keys_def map_of_eq_None_iff)
  qed
  ultimately obtain reqs where reqs:
    "for_each (commit_agent_requirement (rp_required_capabilities plan)) ?ks (pr_agent_requirements R) = Ok reqs"
    "fst ` set reqs = set ?ks \<union> fst ` set (pr_agent_requirements R)"
    using requirement_keys by blast
  let ?kinds = "[AgentRegistry, ToolRegistry, ToolAuthorizerRegistry, EventObserverRegistry]"
  let ?R1 = "R\<lparr>pr_agent_requirements := reqs\<rparr>"
  have "\<forall>kind \<in> set ?kinds. keys_apart plan kind ?R1" using apart by (simp add: keys_apart_def)
  then obtain f where f: "for_each (commit_keyed plan) ?kinds ?R1 = Ok (?R1\<lparr>pr_keyed := f\<rparr>)"
    "fst ` set (f AgentRegistry) = fst ` set (rp_keyed plan AgentRegistry) \<union> fst ` set (pr_keyed R AgentRegistry)"
    using commits_keyed [of ?kinds plan ?R1] by auto
  let ?R2 = "?R1\<lparr>pr_keyed := f\<rparr>"
  let ?g = "\<lambda>slot. if slot \<in> set service_slots \<and> rp_factories plan slot \<noteq> None
    then map_option (own (rp_owner plan)) (rp_factories plan slot) else pr_factories ?R2 slot"
  have "\<forall>slot \<in> set service_slots. rp_factories plan slot \<noteq> None \<longrightarrow> pr_factories ?R2 slot = None"
    using plan free by (auto simp: plan_ok_def)
  then have fac: "for_each (commit_factory plan) service_slots ?R2 = Ok (?R2\<lparr>pr_factories := ?g\<rparr>)"
    by (rule commits_factories [OF distinct_slots])
  have "same_keys (?R2\<lparr>pr_factories := ?g\<rparr>)"
    using R reqs(2) f(2) by (simp add: same_keys_def)
  moreover have "commit_plan plan R = Ok ((?R2\<lparr>pr_factories := ?g\<rparr>)
      \<lparr>pr_tool_guards := pr_tool_guards (?R2\<lparr>pr_factories := ?g\<rparr>) @ map (own (rp_owner plan)) (rp_tool_guards plan),
       pr_hooks := pr_hooks (?R2\<lparr>pr_factories := ?g\<rparr>) @ map (own (rp_owner plan)) (rp_hooks plan)\<rparr>)"
    by (simp only: commit_plan_def reqs(1) and_then.simps f(1) fac)
  ultimately show ?thesis by (simp add: same_keys_def)
qed

lemma mount_plugin_result:
  assumes inv: "mounted ds b P R"
    and fresh: "\<And>j slot. j \<in> set P \<Longrightarrow> capability_of (ds ! j) = Some (slot_capability slot) \<Longrightarrow>
      capability_of (ds ! i) \<noteq> Some (slot_capability slot)"
  shows "mount_plugin describe (ds ! i) script R \<noteq> Panic"
    and "mount_plugin describe (ds ! i) script R = Ok R' \<Longrightarrow> mounted ds b (P @ [i]) R'"
proof -
  let ?d = "ds ! i"
  obtain plan res where run: "run_mount describe script (plan_new ?d) = (plan, res)"
    by (cases "run_mount describe script (plan_new ?d)")
  have plan: "plan_ok ?d plan" by (rule run_mount_ok [OF plan_new_ok run])
  have free: "pr_factories R slot = None" if c: "capability_of ?d = Some (slot_capability slot)" for slot
  proof (rule ccontr)
    assume "pr_factories R slot \<noteq> None"
    then obtain f where f: "pr_factories R slot = Some f" by blast
    have "case pr_factories R slot of
        None \<Rightarrow> \<forall>i \<in> set P. capability_of (ds ! i) \<noteq> Some (slot_capability slot)
      | Some f \<Rightarrow> \<exists>i \<in> set P. ow_owner f = pd_id (ds ! i) \<and> capability_of (ds ! i) = Some (slot_capability slot)"
      using inv by (simp add: mounted_def)
    then obtain j where "j \<in> set P" "capability_of (ds ! j) = Some (slot_capability slot)"
      unfolding f by auto
    then show False using fresh c by blast
  qed
  have checks: "for_each (validate_factory plan) service_slots () \<noteq> Panic"
    by (rule for_each_no_panic) (simp add: validate_factory_def)
  have commit: "\<exists>R'. commit_plan plan R = Ok R' \<and> same_keys R' \<and> pr_bindings R' = pr_bindings R \<and>
    pr_services R' = pr_services R \<and> pr_lifecycles R' = pr_lifecycles R \<and>
    (\<forall>slot. pr_factories R' slot = (if rp_factories plan slot \<noteq> None
       then map_option (own (rp_owner plan)) (rp_factories plan slot) else pr_factories R slot))"
    if "validate_plan R plan = Ok ()"
  proof (rule commit_plan_Ok [OF plan _ _ free])
    show "keys_apart plan kind R" for kind
      using validate_plan_apart [OF that] plan by (simp add: plan_ok_def)
    show "same_keys R" using inv by (simp add: mounted_def)
  qed
  show "mount_plugin describe ?d script R \<noteq> Panic"
    using checks validate_plan_no_panic [of R plan] commit
    by (auto simp: mount_plugin_def run and_then_eq_Panic split: option.splits)
  show "mounted ds b (P @ [i]) R'" if ok: "mount_plugin describe ?d script R = Ok R'"
  proof -
    have st: "for_each (validate_factory plan) service_slots () = Ok ()" "validate_plan R plan = Ok ()"
      "commit_plan plan R = Ok R'"
      using ok by (auto simp: mount_plugin_def run split: option.splits)
    obtain R'' where "commit_plan plan R = Ok R''" and keys: "same_keys R''"
      and same: "pr_bindings R'' = pr_bindings R" "pr_services R'' = pr_services R"
        "pr_lifecycles R'' = pr_lifecycles R"
      and fac: "\<And>slot. pr_factories R'' slot = (if rp_factories plan slot \<noteq> None
       then map_option (own (rp_owner plan)) (rp_factories plan slot) else pr_factories R slot)"
      using commit [OF st(2)] by blast
    then have R': "R'' = R'" using st(3) by simp
    have slots: "case pr_factories R' slot of
        None \<Rightarrow> \<forall>j \<in> set (P @ [i]). capability_of (ds ! j) \<noteq> Some (slot_capability slot)
      | Some f \<Rightarrow> \<exists>j \<in> set (P @ [i]). ow_owner f = pd_id (ds ! j) \<and>
          capability_of (ds ! j) = Some (slot_capability slot)" for slot
    proof (cases "rp_factories plan slot")
      case None
      have "validate_factory plan slot () = Ok ()" by (rule for_each_check [OF st(1) all_slots])
      then have "capability_of ?d \<noteq> Some (slot_capability slot)"
        using None plan by (auto simp: validate_factory_def plan_ok_def capability_of_def split: if_splits)
      moreover have "pr_factories R' slot = pr_factories R slot" using fac [of slot] None R' by simp
      moreover have "case pr_factories R slot of
          None \<Rightarrow> \<forall>j \<in> set P. capability_of (ds ! j) \<noteq> Some (slot_capability slot)
        | Some f \<Rightarrow> \<exists>j \<in> set P. ow_owner f = pd_id (ds ! j) \<and> capability_of (ds ! j) = Some (slot_capability slot)"
        using inv by (simp add: mounted_def)
      ultimately show ?thesis by (cases "pr_factories R slot") auto
    next
      case (Some v)
      then have "pr_factories R' slot = Some (own (pd_id ?d) v)"
        using fac [of slot] R' plan by (simp add: plan_ok_def)
      moreover have "capability_of ?d = Some (slot_capability slot)"
        using plan Some by (simp add: plan_ok_def)
      ultimately show ?thesis by (simp add: own_def)
    qed
    show ?thesis
      unfolding mounted_def
    proof (intro conjI allI)
      show "pr_bindings R' = b" "pr_services R' = (\<lambda>_. None)" "pr_lifecycles R' = []"
        using same R' inv by (simp_all add: mounted_def)
      show "same_keys R'" using keys R' by simp
    qed (rule slots)
  qed
qed

definition unique_slots :: "plugin_descriptor list \<Rightarrow> nat list \<Rightarrow> bool" where
  "unique_slots ds P \<longleftrightarrow> distinct P \<and> (\<forall>i \<in> set P. \<forall>j \<in> set P. \<forall>slot.
     capability_of (ds ! i) = Some (slot_capability slot) \<longrightarrow>
     capability_of (ds ! j) = Some (slot_capability slot) \<longrightarrow> i = j)"

lemma mount_all_result:
  assumes "mounted (map fst submitted) b P R" "unique_slots (map fst submitted) (P @ order)"
    and "\<And>i. i \<in> set order \<Longrightarrow> i < length submitted"
  shows "mount_all describe submitted order R \<noteq> Panic"
    and "mount_all describe submitted order R = Ok R' \<Longrightarrow> mounted (map fst submitted) b (P @ order) R'"
proof -
  have "mount_all describe submitted order R \<noteq> Panic \<and>
    (\<forall>R'. mount_all describe submitted order R = Ok R' \<longrightarrow> mounted (map fst submitted) b (P @ order) R')"
    using assms
  proof (induction order arbitrary: P R)
    case Nil
    then show ?case by (simp add: mount_all_def)
  next
    case (Cons i order)
    let ?ds = "map fst submitted"
    obtain d script where sub: "submitted ! i = (d, script)" by (cases "submitted ! i")
    have d: "?ds ! i = d" using sub Cons.prems(3) [of i] by simp
    have fresh: "capability_of (?ds ! i) \<noteq> Some (slot_capability slot)"
      if "j \<in> set P" "capability_of (?ds ! j) = Some (slot_capability slot)" for j slot
      using Cons.prems(2) that by (auto simp: unique_slots_def)
    have "mount_plugin describe (?ds ! i) script R \<noteq> Panic"
      by (rule mount_plugin_result(1) [OF Cons.prems(1)]) (use fresh in blast)
    moreover have "mounted ?ds b (P @ [i]) u" if "mount_plugin describe (?ds ! i) script R = Ok u" for u
      by (rule mount_plugin_result(2) [OF Cons.prems(1) _ that]) (use fresh in blast)
    ultimately have head: "mount_plugin describe d script R \<noteq> Panic"
      "\<And>u. mount_plugin describe d script R = Ok u \<Longrightarrow> mounted ?ds b (P @ [i]) u"
      unfolding d by blast+
    show ?case
    proof (cases "mount_plugin describe d script R")
      case (Ok u)
      have "mounted ?ds b (P @ [i]) u" by (rule head(2) [OF Ok])
      moreover have "unique_slots ?ds ((P @ [i]) @ order)" using Cons.prems(2) by simp
      ultimately have "mount_all describe submitted order u \<noteq> Panic \<and>
        (\<forall>R'. mount_all describe submitted order u = Ok R' \<longrightarrow> mounted ?ds b ((P @ [i]) @ order) R')"
        using Cons.IH [of "P @ [i]" u] Cons.prems(3) by simp
      then show ?thesis using Ok sub by (simp add: mount_all_def)
    next
      case (Err e)
      then show ?thesis using sub by (simp add: mount_all_def)
    next
      case Panic
      then show ?thesis using head(1) by simp
    qed
  qed
  then show "mount_all describe submitted order R \<noteq> Panic"
    "mount_all describe submitted order R = Ok R' \<Longrightarrow> mounted (map fst submitted) b (P @ order) R'" by auto
qed

end
