(* ===== verification/Activation.thy ===== *)
theory Activation
  imports PluginKernelInv
begin

text \<open>
  The trace of an activation: the services constructed in dependency order, the lifecycles
  started in the order of their construction, the rollback that stops them in reverse, and what
  each factory could read when it was called.
\<close>

section \<open>Traces\<close>

fun created :: "kernel_trace \<Rightarrow> handle list" where
  "created [] = []"
| "created (Constructed p slot view (Some l) # tr) = l # created tr"
| "created (e # tr) = created tr"

fun constructed_plugins :: "kernel_trace \<Rightarrow> plugin_id list" where
  "constructed_plugins [] = []"
| "constructed_plugins (Constructed p slot view l # tr) = p # constructed_plugins tr"
| "constructed_plugins (e # tr) = constructed_plugins tr"

fun started :: "kernel_trace \<Rightarrow> handle list" where
  "started [] = []"
| "started (Started l # tr) = l # started tr"
| "started (e # tr) = started tr"

fun stopped :: "kernel_trace \<Rightarrow> handle list" where
  "stopped [] = []"
| "stopped (Stopped l r # tr) = l # stopped tr"
| "stopped (e # tr) = stopped tr"

lemma created_append [simp]: "created (xs @ ys) = created xs @ created ys"
  by (induction xs rule: created.induct) auto

lemma constructed_append [simp]: "constructed_plugins (xs @ ys) = constructed_plugins xs @ constructed_plugins ys"
  by (induction xs rule: constructed_plugins.induct) auto

lemma started_append [simp]: "started (xs @ ys) = started xs @ started ys"
  by (induction xs rule: started.induct) auto

lemma stopped_append [simp]: "stopped (xs @ ys) = stopped xs @ stopped ys"
  by (induction xs rule: stopped.induct) auto

lemma started_only [simp]: "created (map Started ls) = []" "constructed_plugins (map Started ls) = []"
  "started (map Started ls) = ls" "stopped (map Started ls) = []"
  by (induction ls) auto

lemma stopped_only [simp]: "created (map (\<lambda>l. Stopped l r) ls) = []" "started (map (\<lambda>l. Stopped l r) ls) = []"
  "constructed_plugins (map (\<lambda>l. Stopped l r) ls) = []" "stopped (map (\<lambda>l. Stopped l r) ls) = ls"
  by (induction ls) auto

text \<open>A rollback stops every lifecycle created, in reverse order, after every other call.\<close>

definition rolled_back :: "kernel_trace \<Rightarrow> bool" where
  "rolled_back tr \<longleftrightarrow>
     (\<exists>us. stopped us = [] \<and> tr = us @ map (\<lambda>l. Stopped l ActivationRollback) (List.rev (created us)))"

lemma stop_nodes_trace:
  "snd (stop_nodes host reason nodes tr) = tr @ map (\<lambda>n. Stopped (ln_lifecycle n) reason) (List.rev nodes)"
proof -
  have "snd (fold (stop_node host reason) ns s) = snd s @ map (\<lambda>n. Stopped (ln_lifecycle n) reason) ns" for ns s
    by (induction ns arbitrary: s) (auto simp: stop_node_def split_beta)
  then show ?thesis by (simp add: stop_nodes_def)
qed

lemma rollback_rolled_back:
  assumes "stopped tr = []" "created tr = map ln_lifecycle (pr_lifecycles R)"
    and "rollback_activation host R primary tr = (e, tr')"
  shows "\<exists>failures. e = ActivationFailed primary failures" and "rolled_back tr'"
proof -
  obtain failures tr'' where st: "stop_nodes host ActivationRollback (pr_lifecycles R) tr = (failures, tr'')"
    by (cases "stop_nodes host ActivationRollback (pr_lifecycles R) tr")
  then have "tr'' = tr @ map (\<lambda>n. Stopped (ln_lifecycle n) ActivationRollback) (List.rev (pr_lifecycles R))"
    using stop_nodes_trace [of host ActivationRollback "pr_lifecycles R" tr] by simp
  also have "map (\<lambda>n. Stopped (ln_lifecycle n) ActivationRollback) (List.rev (pr_lifecycles R)) =
      map (\<lambda>l. Stopped l ActivationRollback) (List.rev (created tr))"
    by (simp add: assms(2) rev_map comp_def)
  finally have tr'': "tr'' = tr @ map (\<lambda>l. Stopped l ActivationRollback) (List.rev (created tr))" .
  have "e = ActivationFailed primary failures" "tr' = tr''"
    using assms(3) st by (simp_all add: rollback_activation_def)
  then show "\<exists>failures. e = ActivationFailed primary failures" "rolled_back tr'"
    using tr'' assms(1) by (auto simp: rolled_back_def)
qed

section \<open>What a factory reads\<close>

text \<open>
  A factory of plugin \<open>d\<close> reads every service its plugin requires and may read; the raw model,
  the tool runtime and the frozen contributions are visible to one kind of provider each.
\<close>

definition entitled :: "plugin_descriptor \<Rightarrow> service_slot \<Rightarrow> factory_view \<Rightarrow> bool" where
  "entitled d slot view \<longleftrightarrow>
     (let required = set (pd_capability_dependencies d)
      in (fv_llm view \<noteq> None) = (slot = LlmRuntimeSlot \<and> LLM_PROVIDER \<in> required) \<and>
         (LLM_RUNTIME \<in> required \<longrightarrow> fv_llm_runtime view \<noteq> None) \<and>
         (slot = AgentRuntimeSlot \<and> TOOL_RUNTIME \<in> required \<longrightarrow> fv_tool_runtime view \<noteq> None) \<and>
         (fv_tool_runtime view \<noteq> None \<longrightarrow> slot = AgentRuntimeSlot) \<and>
         (SESSION_PERSISTENCE \<in> required \<longrightarrow> fv_session_persistence view \<noteq> None) \<and>
         (SESSION_RUNTIME \<in> required \<longrightarrow> fv_session_runtime view \<noteq> None) \<and>
         (fv_agent_bindings view \<noteq> None) = (slot = AgentRuntimeSlot) \<and>
         (fv_hook_bindings view \<noteq> None) = (slot = AgentRuntimeSlot) \<and>
         (fv_tool_bindings view \<noteq> None) = (slot = ToolRuntimeSlot) \<and>
         (fv_tool_guard_bindings view \<noteq> None) = (slot = ToolRuntimeSlot) \<and>
         (fv_tool_authorizer_bindings view \<noteq> None) = (slot = ToolRuntimeSlot) \<and>
         (fv_event_observers view \<noteq> None) = (slot = SessionRuntimeSlot))"

fun event_entitled :: "plugin_descriptor list \<Rightarrow> kernel_event \<Rightarrow> bool" where
  "event_entitled ds (Constructed p slot view l) =
     (\<exists>d \<in> set ds. pd_id d = p \<and> capability_of d = Some (slot_capability slot) \<and> entitled d slot view)"
| "event_entitled ds e = True"

lemma agent_bindings_Ok:
  assumes "same_keys R"
  shows "\<exists>bindings. agent_bindings R = Ok bindings"
proof -
  have run: "\<exists>out. for_each (\<lambda>(key, entry) bindings. case map_of (pr_agent_requirements R) key of
         None \<Rightarrow> Panic
       | Some required \<Rightarrow> Ok (bindings @
           [\<lparr>ab_key = key, ab_owner = ow_owner entry, ab_required_capabilities = required,
             ab_agent = ow_value entry\<rparr>])) es acc = Ok out"
    if "fst ` set es \<subseteq> fst ` set (pr_agent_requirements R)" for es acc
    using that
  proof (induction es arbitrary: acc)
    case (Cons e es)
    obtain k v where e: "e = (k, v)" by (cases e)
    then have "k \<in> fst ` set (pr_agent_requirements R)" using Cons.prems by simp
    then obtain r where "map_of (pr_agent_requirements R) k = Some r" unfolding key_iff by blast
    then show ?case using Cons e by simp
  qed simp
  show ?thesis
    unfolding agent_bindings_def by (rule run) (use assms in \<open>simp add: same_keys_def\<close>)
qed

lemma factory_context_Ok:
  assumes R: "same_keys R" and d: "capability_of d = Some (slot_capability slot)"
    and standing: "\<And>s. slot_capability s \<in> set (pd_capability_dependencies d) \<Longrightarrow> pr_services R s \<noteq> None"
  shows "\<exists>view. factory_context R d = Ok view \<and> entitled d slot view"
proof -
  have provided: "map_option pc_capability (pd_provider d) = Some (slot_capability slot)"
    using d by (simp add: capability_of_def)
  obtain bindings where b: "agent_bindings R = Ok bindings" using agent_bindings_Ok [OF R] by blast
  have llm: "LLM_PROVIDER \<in> set (pd_capability_dependencies d) \<Longrightarrow> service R LlmSlot \<noteq> None"
    and runtime: "LLM_RUNTIME \<in> set (pd_capability_dependencies d) \<Longrightarrow> service R LlmRuntimeSlot \<noteq> None"
    and tool: "TOOL_RUNTIME \<in> set (pd_capability_dependencies d) \<Longrightarrow> service R ToolRuntimeSlot \<noteq> None"
    and persistence: "SESSION_PERSISTENCE \<in> set (pd_capability_dependencies d) \<Longrightarrow> service R SessionPersistenceSlot \<noteq> None"
    and session: "SESSION_RUNTIME \<in> set (pd_capability_dependencies d) \<Longrightarrow> service R SessionRuntimeSlot \<noteq> None"
    using standing [of LlmSlot] standing [of LlmRuntimeSlot] standing [of ToolRuntimeSlot]
      standing [of SessionPersistenceSlot] standing [of SessionRuntimeSlot]
    by (auto simp: service_def)
  show ?thesis
    using b llm runtime tool persistence session
    by (cases slot)
      (auto simp: factory_context_def Let_def provided entitled_def visible_def allowed_def can_read_def)
qed

section \<open>Construction\<close>

definition serves :: "plugin_descriptor \<Rightarrow> bool" where
  "serves d \<longleftrightarrow> (case capability_of d of None \<Rightarrow> False | Some c \<Rightarrow> slot_of c \<noteq> None)"

lemma serves_iff: "serves d \<longleftrightarrow> (\<exists>slot. capability_of d = Some (slot_capability slot))"
  by (cases "capability_of d") (auto simp: serves_def)

text \<open>\<open>P\<close> lists the positions activated so far and \<open>F\<close> is the factory table they started from.\<close>

definition activating ::
    "plugin_descriptor list \<Rightarrow> bindings \<Rightarrow> (service_slot \<Rightarrow> owned option) \<Rightarrow> nat list \<Rightarrow>
     plugin_registry \<times> kernel_trace \<Rightarrow> bool" where
  "activating ds b F P s \<longleftrightarrow>
     pr_bindings (fst s) = b \<and> same_keys (fst s) \<and> pr_factories (fst s) = F \<and>
     (\<forall>i \<in> set P. \<forall>slot. capability_of (ds ! i) = Some (slot_capability slot) \<longrightarrow> pr_services (fst s) slot \<noteq> None) \<and>
     created (snd s) = map ln_lifecycle (pr_lifecycles (fst s)) \<and> started (snd s) = [] \<and> stopped (snd s) = [] \<and>
     constructed_plugins (snd s) = map (\<lambda>i. pd_id (ds ! i)) (filter (\<lambda>i. serves (ds ! i)) P) \<and>
     list_all (event_entitled ds) (snd s)"

definition failed_cleanly :: "plugin_descriptor list \<Rightarrow> plugin_error \<times> kernel_trace \<Rightarrow> bool" where
  "failed_cleanly ds e \<longleftrightarrow>
     (\<exists>primary failures. fst e = ActivationFailed primary failures) \<and> rolled_back (snd e) \<and>
     list_all (event_entitled ds) (snd e)"

lemma rollback_fails_cleanly:
  assumes "stopped tr = []" "created tr = map ln_lifecycle (pr_lifecycles R)" "list_all (event_entitled ds) tr"
  shows "failed_cleanly ds (rollback_activation host R primary tr)"
proof -
  obtain e tr' where r: "rollback_activation host R primary tr = (e, tr')"
    by (cases "rollback_activation host R primary tr")
  note facts = rollback_rolled_back [OF assms(1,2) r]
  have "tr' = tr @ map (\<lambda>n. Stopped (ln_lifecycle n) ActivationRollback) (List.rev (pr_lifecycles R))"
    using r stop_nodes_trace [of host ActivationRollback "pr_lifecycles R" tr]
    by (auto simp: rollback_activation_def split: prod.splits)
  then have "list_all (event_entitled ds) tr'" using assms(3) by (auto simp: list_all_iff)
  then show ?thesis using facts r by (auto simp: failed_cleanly_def)
qed

lemma activate_plugin_result:
  assumes inv: "activating ds b F P (R, tr)" and i: "i < length ds"
    and factory: "\<And>slot. capability_of (ds ! i) = Some (slot_capability slot) \<Longrightarrow>
      \<exists>f. F slot = Some f \<and> ow_owner f = pd_id (ds ! i)"
    and standing: "\<And>s. slot_capability s \<in> set (pd_capability_dependencies (ds ! i)) \<Longrightarrow>
      \<exists>j \<in> set P. capability_of (ds ! j) = Some (slot_capability s)"
  shows "(\<exists>s. activate_plugin host ds i (R, tr) = Ok s \<and> activating ds b F (P @ [i]) s) \<or>
    (\<exists>e. activate_plugin host ds i (R, tr) = Err e \<and> failed_cleanly ds e)"
proof (cases "serves (ds ! i)")
  case False
  then have "activate_plugin host ds i (R, tr) = Ok (R, tr)"
    by (cases "pd_provider (ds ! i)"; cases "slot_of (pc_capability (the (pd_provider (ds ! i))))")
      (auto simp: serves_def capability_of_def activate_plugin_def Let_def)
  moreover have "activating ds b F (P @ [i]) (R, tr)"
    using inv False by (auto simp: activating_def serves_iff)
  ultimately show ?thesis by blast
next
  case True
  let ?d = "ds ! i"
  obtain slot where slot: "capability_of ?d = Some (slot_capability slot)" using True serves_iff by blast
  then obtain provider where prov: "pd_provider ?d = Some provider" "pc_capability provider = slot_capability slot"
    by (auto simp: capability_of_def)
  obtain f where f: "F slot = Some f" "ow_owner f = pd_id ?d" using factory [OF slot] by blast
  have R: "pr_factories R slot = Some f" "same_keys R" using inv f by (simp_all add: activating_def)
  have "pr_services R s \<noteq> None" if "slot_capability s \<in> set (pd_capability_dependencies ?d)" for s
    using inv standing [OF that] by (auto simp: activating_def)
  then obtain view where view: "factory_context R ?d = Ok view" "entitled ?d slot view"
    using factory_context_Ok [OF R(2) slot] by blast
  have ev: "event_entitled ds (Constructed (pd_id ?d) slot view l)" for l
    using view(2) slot i by auto
  have slot': "slot_of (pc_capability provider) = Some slot" using prov(2) by simp
  have step: "activate_plugin host ds i (R, tr) =
      and_then (construct_service host (ow_value f) slot ?d provider (R, tr))
        (\<lambda>(value, registry', trace'). Ok
           (registry'\<lparr>pr_services := (pr_services registry')(slot := Some (own (pd_id ?d) value))\<rparr>, trace'))"
    using prov(1) slot' R(1) f(2) by (simp add: activate_plugin_def Let_def)
  show ?thesis
  proof (cases "sh_construct host (ow_value f) view tr")
    case (Inl message)
    let ?e = "rollback_activation host R
      (lifecycle_failure_new (pc_capability provider) (pc_key provider) (pd_id ?d) ConstructPhase message)
      (tr @ [Constructed (pd_id ?d) slot view None])"
    have "activate_plugin host ds i (R, tr) = Err ?e"
      unfolding step using Inl view(1) by (simp add: construct_service_def)
    moreover have "failed_cleanly ds ?e"
      by (rule rollback_fails_cleanly) (use inv ev in \<open>simp_all add: activating_def\<close>)
    ultimately show ?thesis by blast
  next
    case (Inr vl)
    obtain v l where vl: "vl = (v, l)" by (cases vl)
    let ?R = "R\<lparr>pr_lifecycles := pr_lifecycles R @
        [\<lparr>ln_capability = pc_capability provider, ln_candidate = pc_key provider,
          ln_plugin = pd_id ?d, ln_lifecycle = l\<rparr>],
      pr_services := (pr_services R)(slot := Some (own (pd_id ?d) v))\<rparr>"
    let ?tr = "tr @ [Constructed (pd_id ?d) slot view (Some l)]"
    have "activate_plugin host ds i (R, tr) = Ok (?R, ?tr)"
      unfolding step using Inr vl view(1) by (simp add: construct_service_def)
    moreover have "activating ds b F (P @ [i]) (?R, ?tr)"
      using inv ev True slot by (auto simp: activating_def same_keys_def)
    ultimately show ?thesis by blast
  qed
qed

lemma activate_plugins_result:
  assumes "activating ds b F P s" and "\<And>i. i \<in> set order \<Longrightarrow> i < length ds"
    and "\<And>i slot. i \<in> set order \<Longrightarrow> capability_of (ds ! i) = Some (slot_capability slot) \<Longrightarrow>
      \<exists>f. F slot = Some f \<and> ow_owner f = pd_id (ds ! i)"
    and "\<And>xs i ys s. order = xs @ i # ys \<Longrightarrow> slot_capability s \<in> set (pd_capability_dependencies (ds ! i)) \<Longrightarrow>
      \<exists>j \<in> set (P @ xs). capability_of (ds ! j) = Some (slot_capability s)"
  shows "(\<exists>t. for_each (activate_plugin host ds) order s = Ok t \<and> activating ds b F (P @ order) t) \<or>
    (\<exists>e. for_each (activate_plugin host ds) order s = Err e \<and> failed_cleanly ds e)"
  using assms
proof (induction order arbitrary: P s)
  case Nil
  then show ?case by simp
next
  case (Cons i order)
  obtain R tr where s: "s = (R, tr)" by (cases s)
  have one: "(\<exists>s. activate_plugin host ds i (R, tr) = Ok s \<and> activating ds b F (P @ [i]) s) \<or>
    (\<exists>e. activate_plugin host ds i (R, tr) = Err e \<and> failed_cleanly ds e)"
  proof (rule activate_plugin_result)
    show "activating ds b F P (R, tr)" using Cons.prems(1) s by simp
    show "i < length ds" using Cons.prems(2) by simp
    show "\<exists>f. F slot = Some f \<and> ow_owner f = pd_id (ds ! i)"
      if "capability_of (ds ! i) = Some (slot_capability slot)" for slot
      using Cons.prems(3) that by simp
    show "\<exists>j \<in> set P. capability_of (ds ! j) = Some (slot_capability s)"
      if "slot_capability s \<in> set (pd_capability_dependencies (ds ! i))" for s
      using Cons.prems(4) [of "[]" i order s] that by simp
  qed
  show ?case
  proof (cases "activate_plugin host ds i (R, tr)")
    case (Ok u)
    then have u: "activating ds b F (P @ [i]) u" using one by simp
    have "(\<exists>t. for_each (activate_plugin host ds) order u = Ok t \<and> activating ds b F ((P @ [i]) @ order) t) \<or>
      (\<exists>e. for_each (activate_plugin host ds) order u = Err e \<and> failed_cleanly ds e)"
    proof (rule Cons.IH [OF u])
      show "k < length ds" if "k \<in> set order" for k using Cons.prems(2) that by simp
      show "\<exists>f. F slot = Some f \<and> ow_owner f = pd_id (ds ! k)"
        if "k \<in> set order" "capability_of (ds ! k) = Some (slot_capability slot)" for k slot
        using Cons.prems(3) that by simp
      show "\<exists>j \<in> set ((P @ [i]) @ xs). capability_of (ds ! j) = Some (slot_capability s)"
        if "order = xs @ k # ys" "slot_capability s \<in> set (pd_capability_dependencies (ds ! k))" for xs k ys s
        using Cons.prems(4) [of "i # xs" k ys s] that by simp
    qed
    then show ?thesis using Ok s by simp
  next
    case (Err e)
    then show ?thesis using one s by simp
  next
    case Panic
    then show ?thesis using one by simp
  qed
qed

section \<open>Start\<close>

lemma start_lifecycles_result:
  assumes "stopped tr = []" "created tr = map ln_lifecycle (pr_lifecycles R)" "list_all (event_entitled ds) tr"
  shows "for_each (start_lifecycle host) nodes (R, tr) = Ok (R, tr @ map Started (map ln_lifecycle nodes)) \<or>
    (\<exists>e. for_each (start_lifecycle host) nodes (R, tr) = Err e \<and> failed_cleanly ds e)"
  using assms
proof (induction nodes arbitrary: tr)
  case Nil
  then show ?case by simp
next
  case (Cons n nodes)
  let ?tr = "tr @ [Started (ln_lifecycle n)]"
  have tr: "stopped ?tr = []" "created ?tr = map ln_lifecycle (pr_lifecycles R)" "list_all (event_entitled ds) ?tr"
    using Cons.prems by simp_all
  show ?case
  proof (cases "sh_start host (ln_lifecycle n) tr")
    case None
    then have "start_lifecycle host n (R, tr) = Ok (R, ?tr)" by (simp add: start_lifecycle_def Let_def)
    then show ?thesis using Cons.IH [OF tr] by auto
  next
    case (Some message)
    let ?e = "rollback_activation host R
      (lifecycle_failure_new (ln_capability n) (ln_candidate n) (ln_plugin n) StartPhase message) ?tr"
    have "start_lifecycle host n (R, tr) = Err ?e" using Some by (simp add: start_lifecycle_def Let_def)
    moreover have "failed_cleanly ds ?e" by (rule rollback_fails_cleanly [OF tr])
    ultimately show ?thesis by simp
  qed
qed

end
