(* ===== verification/PluginKernelProps.thy ===== *)
theory PluginKernelProps
  imports Activation
begin

text \<open>
  The properties of \<open>Registrar::finish\<close> as a whole: no panic, the order of construction and
  start, the rollback of a failed activation, the shutdown, and what each factory may read.
\<close>

section \<open>From the composition to the activation\<close>

lemma same_id: "distinct (ids ds) \<Longrightarrow> d \<in> set ds \<Longrightarrow> e \<in> set ds \<Longrightarrow> pd_id d = pd_id e \<Longrightarrow> d = e"
  by (auto simp: distinct_map dest: inj_onD)

lemma active_provider:
  assumes "sound_bindings ds b" "distinct (ids ds)" "d \<in> set ds" "is_active b d" "capability_of d = Some c"
  shows "\<exists>x. map_of b c = Some x \<and> pb_owner x = pd_id d"
proof -
  obtain k where k: "pd_provider d = Some k" "pc_capability k = c" using assms(5) by (auto simp: capability_of_def)
  then obtain c' x where x: "(c', x) \<in> set b" "pb_owner x = pd_id d"
    using assms(4) by (auto simp: is_active_def)
  then have m: "map_of b c' = Some x"
    using assms(1) bt_wf_distinct [of b] by (simp add: sound_bindings_def)
  then have "provided_by ds c' x" using assms(1) by (simp add: sound_bindings_def)
  then obtain e where e: "e \<in> set ds" "pd_id e = pd_id d" "pd_provider e = Some \<lparr>pc_capability = c', pc_key = pb_key x\<rparr>"
    using x(2) by (auto simp: provided_by_def)
  then have "e = d" using assms(2,3) by (auto simp: distinct_map dest: inj_onD)
  then have "c' = c" using e(3) k by auto
  then show ?thesis using m x(2) by blast
qed

lemma composition_ready:
  assumes run: "resolve_composition ds reqs sels = Ok (b, order)"
  shows "unique_slots ds order"
    and "i \<in> set order \<Longrightarrow> i < length ds"
    and "order = xs @ i # ys \<Longrightarrow> slot_capability s \<in> set (pd_capability_dependencies (ds ! i)) \<Longrightarrow>
      \<exists>j \<in> set xs. capability_of (ds ! j) = Some (slot_capability s)"
proof -
  note facts = composition_bindings [OF run]
  note active = active_order [OF facts(1,3)]
  let ?f = "active_dependencies (active_of ds b) (owners_of ds b)"
  have "acyclic (depends (filter (\<lambda>d. pd_id d \<in> set (active_of ds b)) ds) ?f)"
  proof (rule ccontr)
    assume "\<not> acyclic (depends (filter (\<lambda>d. pd_id d \<in> set (active_of ds b)) ds) ?f)"
    then show False using active(1) facts(7) by simp
  qed
  from active(2) [OF this] facts(7) have order: "distinct order"
    "set order = {i. i < length ds \<and> pd_id (ds ! i) \<in> set (active_of ds b)}" "dependencies_first ds ?f order" by auto
  have set: "set order = {i. i < length ds \<and> is_active b (ds ! i)}"
    using order(2) active(3) by auto
  then show len: "i \<in> set order \<Longrightarrow> i < length ds" for i by auto
  have act: "is_active b (ds ! i)" if "i \<in> set order" for i using set that by auto
  have same: "i = j" if ij: "i < length ds" "j < length ds" "pd_id (ds ! i) = pd_id (ds ! j)" for i j
    using facts(1) ij nth_eq_iff_index_eq [of "ids ds" i j] by simp
  show "unique_slots ds order"
    unfolding unique_slots_def
  proof (intro conjI ballI allI impI)
    fix i j slot
    assume i: "i \<in> set order" and j: "j \<in> set order"
      and ci: "capability_of (ds ! i) = Some (slot_capability slot)"
      and cj: "capability_of (ds ! j) = Some (slot_capability slot)"
    obtain x where x: "map_of b (slot_capability slot) = Some x" "pb_owner x = pd_id (ds ! i)"
      using active_provider [OF facts(3,1) _ act [OF i] ci] len [OF i] by auto
    obtain y where y: "map_of b (slot_capability slot) = Some y" "pb_owner y = pd_id (ds ! j)"
      using active_provider [OF facts(3,1) _ act [OF j] cj] len [OF j] by auto
    show "i = j" using x y same [OF len [OF i] len [OF j]] by simp
  qed (rule order(1))
  show "\<exists>j \<in> set xs. capability_of (ds ! j) = Some (slot_capability s)"
    if o: "order = xs @ i # ys" and c: "slot_capability s \<in> set (pd_capability_dependencies (ds ! i))"
  proof -
    have i: "i \<in> set order" using o by simp
    have d: "ds ! i \<in> set ds" using len [OF i] by simp
    have "slot_capability s \<in> fst ` set b" using facts(6) [OF d act [OF i] c] .
    then obtain x where x: "map_of b (slot_capability s) = Some x" unfolding key_iff by blast
    then have "provided_by ds (slot_capability s) x" using facts(3) by (simp add: sound_bindings_def)
    then obtain e where e: "e \<in> set ds" "pd_id e = pb_owner x" "capability_of e = Some (slot_capability s)"
      by (auto simp: provided_by_def capability_of_def)
    have "pb_owner x \<in> set (capability_owners b (ds ! i))"
      unfolding capability_owner using c x by auto
    then have "pb_owner x \<in> set (?f (ds ! i))" using active(4) [OF d act [OF i]] by simp
    moreover have "order ! length xs = i" "length xs < length order" using o by simp_all
    ultimately obtain j where j: "j < length xs" "pd_id (ds ! (order ! j)) = pb_owner x"
      using order(3) unfolding dependencies_first_def by blast
    then have mem: "order ! j \<in> set xs" using o by (simp add: nth_append)
    then have "order ! j < length ds" using len o by auto
    then have "ds ! (order ! j) = e"
      by (intro same_id [OF facts(1)]) (use e j(2) in simp_all)
    then show ?thesis using mem e(3) by blast
  qed
qed

text \<open>Every result of \<open>finish\<close>: an error before activation, a clean failure, or a success.\<close>

lemma finish_cases:
  obtains e where "registrar_finish describe host submitted reqs sels = Err (e, [])"
  | e where "registrar_finish describe host submitted reqs sels = Err e" "failed_cleanly (map fst submitted) e"
  | b order R tr where "resolve_composition (map fst submitted) reqs sels = Ok (b, order)"
      "registrar_finish describe host submitted reqs sels = Ok (R, tr)"
      "created tr = map ln_lifecycle (pr_lifecycles R)" "started tr = created tr" "stopped tr = []"
      "constructed_plugins tr = map (\<lambda>i. pd_id (map fst submitted ! i))
         (filter (\<lambda>i. serves (map fst submitted ! i)) order)"
      "list_all (event_entitled (map fst submitted)) tr"
proof -
  let ?ds = "map fst submitted"
  let ?run = "registrar_finish describe host submitted reqs sels"
  have "(\<exists>e. ?run = Err (e, [])) \<or> (\<exists>e. ?run = Err e \<and> failed_cleanly ?ds e) \<or>
    (\<exists>b order R tr. resolve_composition ?ds reqs sels = Ok (b, order) \<and> ?run = Ok (R, tr) \<and>
      created tr = map ln_lifecycle (pr_lifecycles R) \<and> started tr = created tr \<and> stopped tr = [] \<and>
      constructed_plugins tr = map (\<lambda>i. pd_id (?ds ! i)) (filter (\<lambda>i. serves (?ds ! i)) order) \<and>
      list_all (event_entitled ?ds) tr)"
  proof (cases "resolve_composition ?ds reqs sels")
    case (Err e)
    then show ?thesis by (simp add: registrar_finish_def Let_def)
  next
    case Panic
    then show ?thesis using no_panic_composition by blast
  next
    case (Ok bo)
    obtain b order where bo: "bo = (b, order)" by (cases bo)
    note run = Ok [unfolded bo]
    note ready = composition_ready [OF run]
    let ?R0 = "registry_empty\<lparr>pr_bindings := b\<rparr>"
    have start: "mounted ?ds b [] ?R0" by (simp add: mounted_def registry_empty_def same_keys_def)
    have uniq: "unique_slots ?ds ([] @ order)" using ready(1) by simp
    have len: "i < length submitted" if "i \<in> set order" for i using ready(2) [OF that] by simp
    show ?thesis
    proof (cases "mount_all describe submitted order ?R0")
      case (Err e)
      then show ?thesis using run by (simp add: registrar_finish_def Let_def)
    next
      case Panic
      then show ?thesis using mount_all_result(1) [OF start uniq len] by blast
    next
      case (Ok R)
      have m: "mounted ?ds b order R" using mount_all_result(2) [OF start uniq len Ok] by simp
      have begun: "activating ?ds b (pr_factories R) [] (R, [])"
        using m by (simp add: activating_def mounted_def)
      have fac: "\<exists>f. pr_factories R slot = Some f \<and> ow_owner f = pd_id (?ds ! i)"
        if i: "i \<in> set order" and c: "capability_of (?ds ! i) = Some (slot_capability slot)" for i slot
      proof -
        have "case pr_factories R slot of
            None \<Rightarrow> \<forall>i \<in> set order. capability_of (?ds ! i) \<noteq> Some (slot_capability slot)
          | Some f \<Rightarrow> \<exists>i \<in> set order. ow_owner f = pd_id (?ds ! i) \<and> capability_of (?ds ! i) = Some (slot_capability slot)"
          using m unfolding mounted_def by blast
        then obtain f j where f: "pr_factories R slot = Some f" "j \<in> set order" "ow_owner f = pd_id (?ds ! j)"
          "capability_of (?ds ! j) = Some (slot_capability slot)"
          using i c by (cases "pr_factories R slot") auto
        then have "j = i" using ready(1) i c unfolding unique_slots_def by blast
        then show ?thesis using f by blast
      qed
      have stand: "\<exists>j \<in> set ([] @ xs). capability_of (?ds ! j) = Some (slot_capability s)"
        if "order = xs @ i # ys" "slot_capability s \<in> set (pd_capability_dependencies (?ds ! i))" for xs i ys s
        using ready(3) [OF that] by simp
      have act: "(\<exists>t. for_each (activate_plugin host ?ds) order (R, []) = Ok t \<and>
          activating ?ds b (pr_factories R) ([] @ order) t) \<or>
        (\<exists>e. for_each (activate_plugin host ?ds) order (R, []) = Err e \<and> failed_cleanly ?ds e)"
        by (rule activate_plugins_result [OF begun]) (use ready(2) fac stand in blast)+
      have fin: "?run = activate host ?ds order (R, [])"
        using run Ok by (simp add: registrar_finish_def Let_def)
      show ?thesis
      proof (cases "for_each (activate_plugin host ?ds) order (R, [])")
        case (Err e)
        then have "?run = Err e \<and> failed_cleanly ?ds e" using act fin by (simp add: activate_def)
        then show ?thesis by blast
      next
        case Panic
        then show ?thesis using act by simp
      next
        case (Ok t)
        obtain R1 tr where t: "t = (R1, tr)" by (cases t)
        have inv: "activating ?ds b (pr_factories R) order (R1, tr)" using act Ok t by simp
        let ?R2 = "R1\<lparr>pr_factories := (\<lambda>_. None)\<rparr>"
        have fin': "?run = for_each (start_lifecycle host) (pr_lifecycles ?R2) (?R2, tr)"
          using fin Ok t by (simp add: activate_def Let_def)
        have pre: "stopped tr = []" "created tr = map ln_lifecycle (pr_lifecycles ?R2)" "list_all (event_entitled ?ds) tr"
          using inv by (simp_all add: activating_def)
        from start_lifecycles_result [OF pre, of host "pr_lifecycles ?R2"]
        consider "?run = Ok (?R2, tr @ map Started (map ln_lifecycle (pr_lifecycles ?R2)))"
          | e where "?run = Err e" "failed_cleanly ?ds e"
          unfolding fin' by blast
        then show ?thesis
        proof cases
          case 1
          let ?tr = "tr @ map Started (map ln_lifecycle (pr_lifecycles ?R2))"
          have "list_all (event_entitled ?ds) ?tr" using pre(3) by (auto simp: list_all_iff)
          then have "created ?tr = map ln_lifecycle (pr_lifecycles ?R2) \<and> started ?tr = created ?tr \<and> stopped ?tr = [] \<and>
              constructed_plugins ?tr = map (\<lambda>i. pd_id (?ds ! i)) (filter (\<lambda>i. serves (?ds ! i)) order) \<and>
              list_all (event_entitled ?ds) ?tr"
            using inv by (simp add: activating_def del: map_map)
          then show ?thesis using run 1 by blast
        next
          case 2
          then show ?thesis by blast
        qed
      qed
    qed
  qed
  then show ?thesis using that by blast
qed

section \<open>Properties\<close>

text \<open>\<open>Registrar::finish\<close> never panics, whatever the plugins declare while they mount and
  whatever the factories and lifecycles return: no selected factory slot is overwritten or
  empty, no registered key is replaced, and the resolution has no missing entry.\<close>

theorem finish_never_panics: "registrar_finish describe host submitted requirements selections \<noteq> Panic"
  by (rule finish_cases [of describe host submitted requirements selections]) auto

text \<open>C29: When \<open>finish\<close> fails, every lifecycle created so far is stopped exactly once, in the
  reverse of the order of creation and after every other call, with the reason
  \<open>ActivationRollback\<close>.\<close>

theorem failed_finish_rolls_back:
  assumes "registrar_finish describe host submitted requirements selections = Err (e, tr)"
  shows "\<exists>us. stopped us = [] \<and>
    tr = us @ map (\<lambda>l. Stopped l ActivationRollback) (List.rev (created us))"
proof (rule finish_cases [of describe host submitted requirements selections])
  fix e' assume "registrar_finish describe host submitted requirements selections = Err (e', [])"
  then have "tr = []" using assms by simp
  then show ?thesis by (intro exI [of _ "[]"]) simp
next
  fix e' assume "registrar_finish describe host submitted requirements selections = Err e'"
    "failed_cleanly (map fst submitted) e'"
  then show ?thesis using assms by (auto simp: failed_cleanly_def rolled_back_def)
qed (use assms in simp)

definition sample_host :: "handle \<Rightarrow> service_host" where
  "sample_host broken =
     \<lparr>sh_construct = (\<lambda>h view tr. if h = broken then Inl ''broken'' else Inr (h, h + 100)),
      sh_start = (\<lambda>l tr. None), sh_stop = (\<lambda>l reason tr. None)\<rparr>"

definition sample_submission :: "(plugin_descriptor \<times> mount_script) list" where
  "sample_submission =
     [(requires_capabilities [LLM_RUNTIME] (descriptor_provider ''rt'' AGENT_RUNTIME ''std''),
       Call (ProvideFactory AgentRuntimeSlot 1) Return),
      (requires_capabilities [LLM_PROVIDER] (descriptor_provider ''lr'' LLM_RUNTIME ''std''),
       Call (ProvideFactory LlmRuntimeSlot 2) Return),
      (descriptor_provider ''oa'' LLM_PROVIDER ''openai'', Call (ProvideFactory LlmSlot 3) Return),
      (requires_capabilities [AGENT_RUNTIME] (descriptor_new ''app''),
       Call (RegisterKeyed AgentRegistry ''main'' 7) (\<lambda>_. Call (RegisterHook 8) Return))]"

theorem failed_finish_rolls_back_witness:
  "\<exists>e tr us. registrar_finish (\<lambda>_. []) (sample_host 1) sample_submission [] [] = Err (e, tr) \<and>
     stopped us = [] \<and> tr = us @ map (\<lambda>l. Stopped l ActivationRollback) (List.rev (created us)) \<and>
     created tr = [103, 102] \<and> stopped tr = [102, 103]"
proof -
  have "case registrar_finish (\<lambda>_. []) (sample_host 1) sample_submission [] [] of
      Ok s \<Rightarrow> False | Err (e, tr) \<Rightarrow> created tr = [103, 102] \<and> stopped tr = [102, 103] | Panic \<Rightarrow> False"
    by code_simp
  then obtain e tr where run: "registrar_finish (\<lambda>_. []) (sample_host 1) sample_submission [] [] = Err (e, tr)"
    "created tr = [103, 102]" "stopped tr = [102, 103]"
    by (auto split: outcome.splits prod.splits)
  then show ?thesis using failed_finish_rolls_back [OF run(1)] by blast
qed

text \<open>C30: When \<open>finish\<close> succeeds, it has constructed the service of every active provider of a
  kernel capability, in the dependency order of the composition, started every lifecycle
  exactly once in the order of creation, and stopped none.\<close>

theorem finish_starts_in_order:
  assumes "registrar_finish describe host submitted requirements selections = Ok (registry, tr)"
    and "resolve_composition (map fst submitted) requirements selections = Ok (bindings, order)"
  shows "constructed_plugins tr =
      map (\<lambda>i. pd_id (fst (submitted ! i))) (filter (\<lambda>i. serves (fst (submitted ! i))) order) \<and>
    started tr = created tr \<and> created tr = map ln_lifecycle (pr_lifecycles registry) \<and> stopped tr = []"
proof (rule finish_cases [of describe host submitted requirements selections])
  fix b o' R t
  assume comp: "resolve_composition (map fst submitted) requirements selections = Ok (b, o')"
    and run: "registrar_finish describe host submitted requirements selections = Ok (R, t)"
    and tr: "created t = map ln_lifecycle (pr_lifecycles R)" "started t = created t" "stopped t = []"
      "constructed_plugins t = map (\<lambda>i. pd_id (map fst submitted ! i))
         (filter (\<lambda>i. serves (map fst submitted ! i)) o')"
  have eq: "R = registry" "t = tr" "o' = order" using run comp assms by simp_all
  have len: "i < length submitted" if "i \<in> set order" for i
    using composition_ready(2) [OF assms(2) that] by simp
  then have "filter (\<lambda>i. serves (map fst submitted ! i)) order = filter (\<lambda>i. serves (fst (submitted ! i))) order"
    by (intro filter_cong) auto
  moreover have "map (\<lambda>i. pd_id (map fst submitted ! i)) (filter (\<lambda>i. serves (fst (submitted ! i))) order) =
      map (\<lambda>i. pd_id (fst (submitted ! i))) (filter (\<lambda>i. serves (fst (submitted ! i))) order)"
    using len by (intro map_cong) auto
  ultimately show ?thesis using tr eq by simp
qed (use assms in simp_all)

theorem finish_starts_in_order_witness:
  "\<exists>registry tr. registrar_finish (\<lambda>_. []) (sample_host 0) sample_submission [] [] = Ok (registry, tr) \<and>
     constructed_plugins tr = [''oa'', ''lr'', ''rt''] \<and> started tr = [103, 102, 101] \<and>
     map ln_lifecycle (pr_lifecycles registry) = [103, 102, 101] \<and> stopped tr = []"
proof -
  have "case registrar_finish (\<lambda>_. []) (sample_host 0) sample_submission [] [] of
      Ok (registry, tr) \<Rightarrow> created tr = [103, 102, 101] | Err e \<Rightarrow> False | Panic \<Rightarrow> False"
    by code_simp
  then obtain registry tr where run:
    "registrar_finish (\<lambda>_. []) (sample_host 0) sample_submission [] [] = Ok (registry, tr)" "created tr = [103, 102, 101]"
    by (auto split: outcome.splits prod.splits)
  have "case resolve_composition (map fst sample_submission) [] [] of
      Ok (b, order) \<Rightarrow> order = [2, 1, 0, 3] | Err e \<Rightarrow> False | Panic \<Rightarrow> False" by code_simp
  then obtain b where comp: "resolve_composition (map fst sample_submission) [] [] = Ok (b, [2, 1, 0, 3])"
    by (auto split: outcome.splits prod.splits)
  have "map (\<lambda>i. pd_id (fst (sample_submission ! i)))
      (filter (\<lambda>i. serves (fst (sample_submission ! i))) [2, 1, 0, 3]) = [''oa'', ''lr'', ''rt'']" by code_simp
  then show ?thesis using run finish_starts_in_order [OF run(1) comp] by auto
qed

text \<open>Shutdown stops the lifecycles of the registry exactly once each, in the reverse of the
  order of creation, with the reason \<open>RequestedShutdown\<close>, even when some of them fail; a second
  shutdown makes no call and succeeds.\<close>

theorem shutdown_stops_once:
  assumes "shutdown host (registry, tr) = ((registry', tr'), result)"
  shows "tr' = tr @ map (\<lambda>n. Stopped (ln_lifecycle n) RequestedShutdown) (List.rev (pr_lifecycles registry)) \<and>
    shutdown host (registry', tr') = ((registry', tr'), Ok ())"
proof -
  obtain failures t where st: "stop_nodes host RequestedShutdown (pr_lifecycles registry) tr = (failures, t)"
    by (cases "stop_nodes host RequestedShutdown (pr_lifecycles registry) tr")
  have t: "t = tr @ map (\<lambda>n. Stopped (ln_lifecycle n) RequestedShutdown) (List.rev (pr_lifecycles registry))"
    using stop_nodes_trace [of host RequestedShutdown "pr_lifecycles registry" tr] st by simp
  have eqs: "registry' = registry\<lparr>pr_lifecycles := []\<rparr>" "tr' = t"
    using assms st by (simp_all add: shutdown_def split: if_splits)
  then show ?thesis using t by (simp add: shutdown_def stop_nodes_def)
qed

theorem shutdown_stops_once_witness:
  "\<exists>registry' tr'. shutdown (sample_host 0)
       (registry_empty\<lparr>pr_lifecycles := map (\<lambda>l. \<lparr>ln_capability = LLM_PROVIDER, ln_candidate = ''a'',
          ln_plugin = ''p'', ln_lifecycle = l\<rparr>) [5, 6]\<rparr>, []) = ((registry', tr'), Ok ()) \<and>
     tr' = [Stopped 6 RequestedShutdown, Stopped 5 RequestedShutdown] \<and>
     shutdown (sample_host 0) (registry', tr') = ((registry', tr'), Ok ())"
proof -
  let ?R = "registry_empty\<lparr>pr_lifecycles := map (\<lambda>l. \<lparr>ln_capability = LLM_PROVIDER, ln_candidate = ''a'',
          ln_plugin = ''p'', ln_lifecycle = l\<rparr>) [5, 6]\<rparr>"
  have "snd (shutdown (sample_host 0) (?R, [])) = Ok ()" by code_simp
  then obtain registry' tr' where run: "shutdown (sample_host 0) (?R, []) = ((registry', tr'), Ok ())"
    by (metis prod.collapse)
  then show ?thesis using shutdown_stops_once [OF run] by auto
qed

text \<open>Whatever the outcome of \<open>finish\<close>, a factory is called only for the capability its
  plugin declares, reads every service its plugin requires and may read (each was constructed
  before it), and reads the raw model, the tool runtime and the frozen agents, hooks, tools,
  guards, authorizers and observers only if it provides the one capability they are meant for.\<close>

theorem factories_read_their_dependencies:
  "list_all (\<lambda>event. case event of
      Constructed plugin slot view lifecycle \<Rightarrow>
        \<exists>d \<in> fst ` set submitted. pd_id d = plugin \<and>
          map_option pc_capability (pd_provider d) = Some (slot_capability slot) \<and> entitled d slot view
    | _ \<Rightarrow> True)
    (case registrar_finish describe host submitted requirements selections of
       Ok (registry, tr) \<Rightarrow> tr | Err (e, tr) \<Rightarrow> tr | Panic \<Rightarrow> [])"
proof -
  let ?tr = "case registrar_finish describe host submitted requirements selections of
       Ok (registry, tr) \<Rightarrow> tr | Err (e, tr) \<Rightarrow> tr | Panic \<Rightarrow> []"
  have all: "list_all (event_entitled (map fst submitted)) ?tr"
    by (rule finish_cases [of describe host submitted requirements selections])
      (auto simp: failed_cleanly_def split: prod.splits)
  have "case event of
      Constructed plugin slot view lifecycle \<Rightarrow>
        \<exists>d \<in> fst ` set submitted. pd_id d = plugin \<and>
          map_option pc_capability (pd_provider d) = Some (slot_capability slot) \<and> entitled d slot view
    | _ \<Rightarrow> True" if "event_entitled (map fst submitted) event" for event
    using that by (cases event) (auto simp: capability_of_def)
  then show ?thesis using all by (auto simp: list_all_iff)
qed

end
