(* ===== verification/TaskHistory.thy ===== *)
theory TaskHistory
  imports Execution
begin

text \<open>
  The assessment of a Session's full history for a task, \<open>crates/task/state/src/history.rs\<close>:
  which calls have no result, which decision steps are settled, and whether the last turn is
  closed. The error type and \<open>valid_text\<close> are those of \<open>crates/task/state/src/lib.rs\<close>.
\<close>

definition MAX_TASK_HISTORY_EVENTS :: nat where
  "MAX_TASK_HISTORY_EVENTS = 100000"

definition MAX_TASK_STEPS :: nat where
  "MAX_TASK_STEPS = 4096"

datatype task_state_error =
    TeInvalid string
  | TeLimit
  | TeIdentityMismatch
  | TeIncompatible
  | TeRevisionMismatch u64 u64
  | TeRevisionExhausted
  | TeNeedsReview
  | TeEvidenceMismatch
  | TeBudget execution_error
  | TeEncoding

definition valid_text :: "string \<Rightarrow> (unit, task_state_error) outcome" where
  "valid_text text =
     reject_if (is_blank text \<or> length text > 4096) (TeInvalid ''empty or oversized identity/revision'')"

section \<open>The assessment\<close>

datatype task_operation_kind = ModelOperation | ToolOperation

record unresolved_operation =
  uo_kind :: task_operation_kind
  uo_call_id :: string
  uo_intent :: budget_event_cursor
  uo_step_id :: "step_id option"

datatype history_boundary = BoundaryEmpty | BoundaryClosed | BoundaryOpen turn_id

record history_assessment =
  ha_boundary :: history_boundary
  ha_settled_steps :: "step_id list"
  ha_unresolved :: "unresolved_operation list"

text \<open>The local variables of the loop; the sets are lists, newest first.\<close>

record history_scan =
  hs_event_ids :: "event_id list"
  hs_turn_ids :: "turn_id list"
  hs_current :: "turn_id option"
  hs_closed :: bool
  hs_models :: "(string, unresolved_operation) btree_map"
  hs_tools :: "(string, unresolved_operation) btree_map"
  hs_calls_seen :: "(bool \<times> string) list"
  hs_steps_seen :: "step_id list"
  hs_steps :: "step_id list"
  hs_counts :: budget_event_counts
  hs_report_seen :: bool

definition scan_start :: history_scan where
  "scan_start = \<lparr>hs_event_ids = [], hs_turn_ids = [], hs_current = None, hs_closed = True, hs_models = [],
     hs_tools = [], hs_calls_seen = [], hs_steps_seen = [], hs_steps = [], hs_counts = default_counts, hs_report_seen = False\<rparr>"

definition is_user :: "'v session_event \<Rightarrow> bool" where
  "is_user event = (case se_kind event of UserMessage _ \<Rightarrow> True | _ \<Rightarrow> False)"

definition finish_call ::
    "(string, unresolved_operation) btree_map \<Rightarrow> string \<Rightarrow> turn_id
       \<Rightarrow> ((string, unresolved_operation) btree_map, task_state_error) outcome" where
  "finish_call pending i turn =
     and_then (ok_or (map_of pending i) (TeInvalid ''unmatched or repeated result'')) (\<lambda>operation.
     and_then (reject_if (cur_turn_id (uo_intent operation) \<noteq> turn) (TeInvalid ''result crossed turn'')) (\<lambda>_.
     Ok (bt_remove i pending)))"

text \<open>The address of an event, and the turn it belongs to.\<close>

definition scan_address :: "budget_identity \<Rightarrow> nat \<times> 'v session_event \<Rightarrow> history_scan \<Rightarrow> (history_scan, task_state_error) outcome" where
  "scan_address identity = (\<lambda>(index, event) h.
     and_then (reject_if (se_session_id event \<noteq> id_session_id identity) TeIdentityMismatch) (\<lambda>_.
     and_then (valid_text (se_event_id event)) (\<lambda>_.
     and_then (valid_text (se_turn_id event)) (\<lambda>_.
     and_then (reject_if (se_seq event \<noteq> of_nat index \<or> se_event_id event \<in> set (hs_event_ids h))
         (TeInvalid ''physical event address'')) (\<lambda>_.
     Ok (h\<lparr>hs_event_ids := se_event_id event # hs_event_ids h\<rparr>))))))"

definition scan_turn :: "'v session_event \<Rightarrow> history_scan \<Rightarrow> (history_scan, task_state_error) outcome" where
  "scan_turn event h =
     (if hs_current h \<noteq> Some (se_turn_id event) then
        and_then (reject_if (\<not> hs_closed h \<or> se_turn_id event \<in> set (hs_turn_ids h))
            (TeInvalid ''interleaved or reopened turn'')) (\<lambda>_.
        and_then (reject_if (\<not> is_user event) (TeInvalid ''turn lacks user envelope'')) (\<lambda>_.
        Ok (h\<lparr>hs_turn_ids := se_turn_id event # hs_turn_ids h, hs_current := Some (se_turn_id event),
              hs_closed := False, hs_counts := default_counts, hs_report_seen := False\<rparr>)))
      else if is_user event then Err (TeInvalid ''duplicate user envelope'')
      else if hs_closed h then Err (TeInvalid ''event after terminal'')
      else Ok h)"

text \<open>The step a call decides, when the call belongs to the task.\<close>

definition model_step :: "budget_identity \<Rightarrow> 'v model_request \<Rightarrow> step_id option" where
  "model_step identity request =
     (case mo_context (mq_options request) of
        Some c \<Rightarrow> if dx_task_id c = id_task_id identity then Some (dx_step_id c) else None
      | None \<Rightarrow> None)"

definition tool_step :: "budget_identity \<Rightarrow> 'v tool_call \<Rightarrow> step_id option" where
  "tool_step identity call =
     (case tl_action call of
        Some c \<Rightarrow> if dx_task_id (ax_decision c) = id_task_id identity then Some (dx_step_id (ax_decision c)) else None
      | None \<Rightarrow> None)"

text \<open>What the kind of the event does; a call is the result, still to be recorded.\<close>

definition scan_kind ::
    "budget_identity \<Rightarrow> 'v session_event \<Rightarrow> history_scan
       \<Rightarrow> (history_scan \<times> (task_operation_kind \<times> string \<times> step_id option) option, task_state_error) outcome" where
  "scan_kind identity event h =
     (case se_kind event of
        ModelRequestEvent request \<Rightarrow>
          Ok (h\<lparr>hs_counts := (hs_counts h)\<lparr>ct_model_requests := ct_model_requests (hs_counts h) + 1\<rparr>\<rparr>,
              Some (ModelOperation, mq_call_id request, model_step identity request))
      | ToolCallEvent call \<Rightarrow>
          Ok (h\<lparr>hs_counts := (hs_counts h)\<lparr>ct_tool_calls := ct_tool_calls (hs_counts h) + 1\<rparr>\<rparr>,
              Some (ToolOperation, tl_id call, tool_step identity call))
      | ModelResultEvent result \<Rightarrow>
          and_then (finish_call (hs_models h) (ms_call_id result) (se_turn_id event)) (\<lambda>models.
          Ok (h\<lparr>hs_models := models,
                hs_counts := (hs_counts h)\<lparr>ct_model_results := ct_model_results (hs_counts h) + 1\<rparr>\<rparr>, None))
      | ToolResultEvent result \<Rightarrow>
          and_then (finish_call (hs_tools h) (tres_call_id result) (se_turn_id event)) (\<lambda>tools.
          Ok (h\<lparr>hs_tools := tools,
                hs_counts := (hs_counts h)\<lparr>ct_tool_results := ct_tool_results (hs_counts h) + 1\<rparr>\<rparr>, None))
      | TaskRunReportEvent report \<Rightarrow>
          and_then (reject_if (id_session_id (br_identity (tr_budget report)) \<noteq> id_session_id identity)
              TeIdentityMismatch) (\<lambda>_.
          and_then (reject_if (case br_run (tr_budget report) of None \<Rightarrow> True
                 | Some r \<Rightarrow> rr_turn_id r \<noteq> Some (se_turn_id event) \<or> mt_confirmed (rr_metrics r) \<noteq> hs_counts h)
              (TeInvalid ''report counts or turn mismatch'')) (\<lambda>_.
          Ok (h\<lparr>hs_report_seen := True\<rparr>, None)))
      | Done _ _ \<Rightarrow> Ok (h\<lparr>hs_closed := True\<rparr>, None)
      | ErrorEvent _ _ _ \<Rightarrow> Ok (h\<lparr>hs_closed := True\<rparr>, None)
      | _ \<Rightarrow> Ok (h, None))"

definition record_call ::
    "'v session_event \<Rightarrow> task_operation_kind \<times> string \<times> step_id option \<Rightarrow> history_scan
       \<Rightarrow> (history_scan, task_state_error) outcome" where
  "record_call event = (\<lambda>(kind, call_id, step) h.
     and_then (valid_text call_id) (\<lambda>_.
     and_then (reject_if ((kind = ToolOperation, call_id) \<in> set (hs_calls_seen h)) (TeInvalid ''duplicate call ID'')) (\<lambda>_.
     let h = h\<lparr>hs_calls_seen := (kind = ToolOperation, call_id) # hs_calls_seen h\<rparr> in
     and_then (case step of
         None \<Rightarrow> Ok h
       | Some s \<Rightarrow>
           and_then (valid_text s) (\<lambda>_.
           let h = (if s \<in> set (hs_steps_seen h) then h
                    else h\<lparr>hs_steps_seen := s # hs_steps_seen h, hs_steps := hs_steps h @ [s]\<rparr>) in
           and_then (reject_if (length (hs_steps h) > MAX_TASK_STEPS) TeLimit) (\<lambda>_. Ok h))) (\<lambda>h.
     let operation = \<lparr>uo_kind = kind, uo_call_id = call_id, uo_intent = cursor_of event, uo_step_id = step\<rparr> in
     Ok (case kind of
           ModelOperation \<Rightarrow> h\<lparr>hs_models := bt_insert call_id operation (hs_models h)\<rparr>
         | ToolOperation \<Rightarrow> h\<lparr>hs_tools := bt_insert call_id operation (hs_tools h)\<rparr>)))))"

definition scan_event :: "budget_identity \<Rightarrow> nat \<times> 'v session_event \<Rightarrow> history_scan \<Rightarrow> (history_scan, task_state_error) outcome" where
  "scan_event identity = (\<lambda>(index, event) h.
     and_then (scan_address identity (index, event) h) (\<lambda>h.
     and_then (scan_turn event h) (\<lambda>h.
     and_then (reject_if (hs_report_seen h \<and> \<not> is_terminal event) (TeInvalid ''event after final report'')) (\<lambda>_.
     and_then (scan_kind identity event h) (\<lambda>(h, pending).
     (case pending of None \<Rightarrow> Ok h | Some call \<Rightarrow> record_call event call h))))))"

definition assessment_of :: "history_scan \<Rightarrow> history_assessment" where
  "assessment_of h =
     (let unresolved = sort_key (\<lambda>p. cur_seq (uo_intent p)) (bt_values (hs_models h) @ bt_values (hs_tools h));
          pending_steps = List.map_filter uo_step_id unresolved in
      \<lparr>ha_boundary = (case hs_current h of None \<Rightarrow> BoundaryEmpty
         | Some turn \<Rightarrow> if hs_closed h then BoundaryClosed else BoundaryOpen turn),
       ha_settled_steps = filter (\<lambda>step. step \<notin> set pending_steps) (hs_steps h),
       ha_unresolved = unresolved\<rparr>)"

definition assess_task_history ::
    "budget_identity \<Rightarrow> 'v session_event list \<Rightarrow> (history_assessment, task_state_error) outcome" where
  "assess_task_history identity history =
     and_then (reject_if (length history > MAX_TASK_HISTORY_EVENTS) TeLimit) (\<lambda>_.
     and_then (valid_text (id_task_id identity)) (\<lambda>_.
     and_then (valid_text (id_session_id identity)) (\<lambda>_.
     and_then (valid_text (id_agent_key identity)) (\<lambda>_.
     and_then (for_each (scan_event identity) (enumerate 0 history) scan_start) (\<lambda>h.
     Ok (assessment_of h))))))"

end
