(* ===== verification/TaskState.thy ===== *)
theory TaskState
  imports TaskHistory
begin

text \<open>
  Task snapshots, \<open>crates/task/state/src/lib.rs\<close>: capturing a snapshot from a checkpoint and its
  history, its structural checks, the comparison with the evidence, and what a successor may
  change. A payload is a JSON value; the text of a number is a type parameter, and the encoding
  by \<open>serde_json\<close> is the record \<open>task_codec\<close>, a parameter.
\<close>

definition MAX_TASK_SNAPSHOT_BYTES :: nat where
  "MAX_TASK_SNAPSHOT_BYTES = 512 * 1024"

datatype 'n json =
    JNull
  | JBool bool
  | JNumber 'n
  | JString string
  | JArray "'n json list"
  | JObject "(string \<times> 'n json) list"

datatype task_snapshot_version = SnapshotV1

fun task_snapshot_version_try_from :: "u16 \<Rightarrow> (task_snapshot_version, string) outcome" where
  "task_snapshot_version_try_from value =
     (if value = 1 then Ok SnapshotV1 else Err ''unsupported task snapshot version'')"

fun task_snapshot_version_into :: "task_snapshot_version \<Rightarrow> u16" where
  "task_snapshot_version_into _ = 1"

record task_compatibility =
  tcm_agent_revision :: string
  tcm_policy_revision :: string
  tcm_tool_revisions :: "(string, string) btree_map"
  tcm_payload_schemas :: "(string, u32) btree_map"

datatype task_phase =
    PhCreated
  | PhCompleted
  | PhCheckpointed
  | PhWaitingForInput string
  | PhStopped task_run_stop

record task_budget_reference =
  tbr_revision :: u64
  tbr_charged :: budget_amounts

record 'n task_snapshot =
  sn_version :: task_snapshot_version
  sn_revision :: u64
  sn_identity :: budget_identity
  sn_compatibility :: task_compatibility
  sn_cursor :: "budget_event_cursor option"
  sn_budget :: task_budget_reference
  sn_phase :: task_phase
  sn_settled_steps :: "step_id list"
  sn_payloads :: "(string, 'n json) btree_map"

record 'n task_codec =
  tkc_encode :: "'n task_snapshot \<Rightarrow> string"
  tkc_decode :: "string \<Rightarrow> 'n task_snapshot option"

section \<open>Structural checks\<close>

text \<open>The traversal of the payloads with an explicit stack; the head of the list is its top.\<close>

definition children :: "'n json \<Rightarrow> 'n json list" where
  "children value = (case value of JArray values \<Rightarrow> values | JObject values \<Rightarrow> map snd values | _ \<Rightarrow> [])"

function scan_values :: "('n json \<times> nat) list \<Rightarrow> nat \<Rightarrow> (unit, task_state_error) outcome" where
  "scan_values [] nodes = Ok ()"
| "scan_values ((value, depth) # stack) nodes =
     (if depth > 64 \<or> nodes + 1 > 65536 then Err TeLimit
      else if length (children value) > 65536 then Err TeLimit
      else
        let stack = rev (map (\<lambda>v. (v, depth + 1)) (children value)) @ stack in
        if length stack > 65536 then Err TeLimit else scan_values stack (nodes + 1))"
  by pat_completeness auto
termination by (relation "measure (\<lambda>(_, nodes). 65536 - nodes)") auto

definition validate_schema :: "string \<times> u32 \<Rightarrow> unit \<Rightarrow> (unit, task_state_error) outcome" where
  "validate_schema = (\<lambda>(name, version) _.
     and_then (valid_text name) (\<lambda>_. reject_if (version = 0) (TeInvalid ''zero schema version'')))"

definition validate_step :: "step_id \<Rightarrow> step_id list \<Rightarrow> (step_id list, task_state_error) outcome" where
  "validate_step step seen =
     and_then (valid_text step) (\<lambda>_.
     if step \<in> set seen then Err (TeInvalid ''duplicate step'') else Ok (step # seen))"

definition inconsistent_stop :: "task_phase \<Rightarrow> bool" where
  "inconsistent_stop phase \<longleftrightarrow>
     (case phase of PhStopped reason \<Rightarrow> reason \<in> {TsCompleted, TsWaitingForInput, TsCheckpointed} | _ \<Rightarrow> False)"

definition bad_question :: "task_phase \<Rightarrow> bool" where
  "bad_question phase \<longleftrightarrow>
     (case phase of PhWaitingForInput question \<Rightarrow> is_blank question \<or> length question > 64 * 1024 | _ \<Rightarrow> False)"

definition validate_snapshot :: "'n task_codec \<Rightarrow> 'n task_snapshot \<Rightarrow> (unit, task_state_error) outcome" where
  "validate_snapshot codec s =
     (let compat = sn_compatibility s in
      and_then (reject_if (sn_revision s = 0 \<or> tbr_revision (sn_budget s) = 0) (TeInvalid ''zero revision'')) (\<lambda>_.
      and_then (for_each (\<lambda>text _. valid_text text)
          [id_task_id (sn_identity s), id_session_id (sn_identity s), id_agent_key (sn_identity s),
           tcm_agent_revision compat, tcm_policy_revision compat] ()) (\<lambda>_.
      and_then (reject_if (length (tcm_tool_revisions compat) > 1024 \<or> length (sn_payloads s) > 128 \<or>
          length (sn_settled_steps s) > MAX_TASK_STEPS) TeLimit) (\<lambda>_.
      and_then (for_each (\<lambda>(name, revision) _. and_then (valid_text name) (\<lambda>_. valid_text revision))
          (tcm_tool_revisions compat) ()) (\<lambda>_.
      and_then (reject_if (bt_keys (sn_payloads s) \<noteq> bt_keys (tcm_payload_schemas compat)) TeIncompatible) (\<lambda>_.
      and_then (for_each validate_schema (tcm_payload_schemas compat) ()) (\<lambda>_.
      and_then (case sn_cursor s of
          None \<Rightarrow> Ok ()
        | Some cursor \<Rightarrow>
            and_then (reject_if (cur_session_id cursor \<noteq> id_session_id (sn_identity s)) TeIdentityMismatch) (\<lambda>_.
            and_then (valid_text (cur_event_id cursor)) (\<lambda>_. valid_text (cur_turn_id cursor)))) (\<lambda>_.
      and_then (reject_if ((sn_phase s = PhCreated) \<noteq> (sn_cursor s = None)) (TeInvalid ''phase boundary'')) (\<lambda>_.
      and_then (reject_if (sn_phase s = PhCreated \<and>
          (tbr_charged (sn_budget s) \<noteq> default_amounts \<or> sn_settled_steps s \<noteq> []))
        (TeInvalid ''nonempty created state'')) (\<lambda>_.
      and_then (reject_if (inconsistent_stop (sn_phase s)) (TeInvalid ''inconsistent stopped phase'')) (\<lambda>_.
      and_then (reject_if (bad_question (sn_phase s)) (TeInvalid ''question'')) (\<lambda>_.
      and_then (for_each validate_step (sn_settled_steps s) []) (\<lambda>_.
      and_then (scan_values (rev (map (\<lambda>v. (v, 0)) (bt_values (sn_payloads s)))) 0) (\<lambda>_.
      reject_if (length (tkc_encode codec s) > MAX_TASK_SNAPSHOT_BYTES) TeLimit))))))))))))))"

definition snapshot_from_json :: "'n task_codec \<Rightarrow> string \<Rightarrow> ('n task_snapshot, task_state_error) outcome" where
  "snapshot_from_json codec bytes =
     and_then (reject_if (length bytes > MAX_TASK_SNAPSHOT_BYTES) TeLimit) (\<lambda>_.
     and_then (ok_or (tkc_decode codec bytes) TeEncoding) (\<lambda>value.
     and_then (validate_snapshot codec value) (\<lambda>_. Ok value)))"

section \<open>Capturing a snapshot\<close>

text \<open>The last complete assistant message of the turn that asks.\<close>

definition turn_question :: "'v session_event list \<Rightarrow> turn_id \<Rightarrow> string option" where
  "turn_question history turn =
     (case List.map_filter (\<lambda>e. case se_kind e of AssistantMessage _ text \<Rightarrow> Some text | _ \<Rightarrow> None)
         (takeWhile (\<lambda>e. se_turn_id e = turn) (rev history)) of
        [] \<Rightarrow> None
      | text # _ \<Rightarrow> Some text)"

definition history_phase :: "'v session_event list \<Rightarrow> (task_phase, task_state_error) outcome" where
  "history_phase history =
     (if history = [] then Ok PhCreated
      else
        let ending = last history in
        (case se_kind ending of
           Done DoneCompleted _ \<Rightarrow> Ok PhCompleted
         | Done DoneCheckpointed _ \<Rightarrow> Ok PhCheckpointed
         | Done DoneWaitingForInput _ \<Rightarrow>
             and_then (ok_or (turn_question history (se_turn_id ending))
                 (TeInvalid ''waiting turn has no complete question'')) (\<lambda>question.
             Ok (PhWaitingForInput question))
         | _ \<Rightarrow>
             (case se_kind (history ! (length history - 2)) of
                TaskRunReportEvent report \<Rightarrow> Ok (PhStopped (tr_stop report))
              | _ \<Rightarrow> Err TeEvidenceMismatch)))"

definition capture ::
    "'n task_codec \<Rightarrow> u64 \<Rightarrow> task_compatibility \<Rightarrow> (string, 'n json) btree_map \<Rightarrow> budget_checkpoint
       \<Rightarrow> 'v session_event list \<Rightarrow> ('n task_snapshot, task_state_error) outcome" where
  "capture codec expected_revision compatibility payloads budget history =
     (let identity = br_identity (cp_report budget) in
      and_then (assess_task_history identity history) (\<lambda>assessment.
      and_then (reject_if (ha_unresolved assessment \<noteq> [] \<or>
          (case ha_boundary assessment of BoundaryOpen _ \<Rightarrow> True | _ \<Rightarrow> False)) TeNeedsReview) (\<lambda>_.
      and_then (map_err TeBudget (verify_checkpoint_history budget history)) (\<lambda>_.
      and_then (reject_if (requires_recovery budget) TeNeedsReview) (\<lambda>_.
      and_then (history_phase history) (\<lambda>phase.
      and_then (ok_or (checked_add expected_revision 1) TeRevisionExhausted) (\<lambda>revision.
      let snapshot = \<lparr>sn_version = SnapshotV1, sn_revision = revision, sn_identity = identity,
            sn_compatibility = compatibility, sn_cursor = cp_anchor budget,
            sn_budget = \<lparr>tbr_revision = cp_revision budget, tbr_charged = br_charged (cp_report budget)\<rparr>,
            sn_phase = phase, sn_settled_steps = ha_settled_steps assessment, sn_payloads = payloads\<rparr> in
      and_then (validate_snapshot codec snapshot) (\<lambda>_. Ok snapshot))))))))"

section \<open>Evidence and successors\<close>

definition verify_evidence ::
    "'n task_codec \<Rightarrow> 'n task_snapshot \<Rightarrow> budget_identity \<Rightarrow> u64 \<Rightarrow> task_compatibility \<Rightarrow> budget_checkpoint
       \<Rightarrow> 'v session_event list \<Rightarrow> (unit, task_state_error) outcome" where
  "verify_evidence codec s identity revision compatibility budget history =
     and_then (validate_snapshot codec s) (\<lambda>_.
     and_then (reject_if (sn_identity s \<noteq> identity \<or> br_identity (cp_report budget) \<noteq> identity) TeIdentityMismatch) (\<lambda>_.
     and_then (reject_if (sn_revision s \<noteq> revision) (TeRevisionMismatch revision (sn_revision s))) (\<lambda>_.
     and_then (reject_if (sn_compatibility s \<noteq> compatibility) TeIncompatible) (\<lambda>_.
     and_then (capture codec (sn_revision s - 1) compatibility (sn_payloads s) budget history) (\<lambda>rebuilt.
     reject_if (rebuilt \<noteq> s) TeEvidenceMismatch)))))"

definition cursor_regresses :: "budget_event_cursor option \<Rightarrow> budget_event_cursor option \<Rightarrow> bool" where
  "cursor_regresses old new \<longleftrightarrow>
     (case (old, new) of
        (Some a, Some b) \<Rightarrow> cur_seq b < cur_seq a \<or> cur_seq b = cur_seq a \<and> b \<noteq> a
      | (Some _, None) \<Rightarrow> True
      | _ \<Rightarrow> False)"

definition validate_from ::
    "'n task_codec \<Rightarrow> 'n task_snapshot \<Rightarrow> 'n task_snapshot \<Rightarrow> (unit, task_state_error) outcome" where
  "validate_from codec s old =
     and_then (validate_snapshot codec old) (\<lambda>_.
     and_then (reject_if (sn_identity old \<noteq> sn_identity s) TeIdentityMismatch) (\<lambda>_.
     and_then (reject_if (sn_compatibility old \<noteq> sn_compatibility s) TeIncompatible) (\<lambda>_.
     and_then (reject_if
         (tbr_revision (sn_budget s) < tbr_revision (sn_budget old) \<or>
          list_ex (\<lambda>r. amount (tbr_charged (sn_budget s)) r < amount (tbr_charged (sn_budget old)) r) all_resources \<or>
          \<not> prefix (sn_settled_steps old) (sn_settled_steps s)) TeEvidenceMismatch) (\<lambda>_.
     and_then (reject_if (cursor_regresses (sn_cursor old) (sn_cursor s)) TeEvidenceMismatch) (\<lambda>_.
     and_then (reject_if (tbr_revision (sn_budget s) = tbr_revision (sn_budget old) \<and>
         (sn_cursor s \<noteq> sn_cursor old \<or> tbr_charged (sn_budget s) \<noteq> tbr_charged (sn_budget old))) TeEvidenceMismatch) (\<lambda>_.
     reject_if (sn_cursor old = sn_cursor s \<and>
         (sn_phase old \<noteq> sn_phase s \<or> sn_settled_steps old \<noteq> sn_settled_steps s \<or>
          tbr_charged (sn_budget old) \<noteq> tbr_charged (sn_budget s))) TeEvidenceMismatch))))))"

definition validate_snapshot_successor ::
    "'n task_codec \<Rightarrow> 'n task_snapshot \<Rightarrow> 'n task_snapshot option \<Rightarrow> (unit, task_state_error) outcome" where
  "validate_snapshot_successor codec s previous =
     and_then (validate_snapshot codec s) (\<lambda>_.
     and_then (ok_or (checked_add (case previous of None \<Rightarrow> 0 | Some p \<Rightarrow> sn_revision p) 1) TeRevisionExhausted) (\<lambda>expected.
     and_then (reject_if (sn_revision s \<noteq> expected) (TeRevisionMismatch expected (sn_revision s))) (\<lambda>_.
     (case previous of None \<Rightarrow> Ok () | Some old \<Rightarrow> validate_from codec s old))))"

end
