(* ===== verification/TaskStore.thy ===== *)
theory TaskStore
  imports TaskState
begin

text \<open>
  The store of task snapshots and its in-process implementation, \<open>crates/task/state/src/store.rs\<close>.
  The trait \<open>TaskStateStore\<close> is a record of its operations over a state. A poisoned lock is a flag
  of the state.
\<close>

datatype task_write_outcome = Applied | AlreadyPresent

datatype task_commit_certainty = TcDefinitelyNotCommitted | TcIndeterminate

datatype task_store_error =
    TsState task_state_error
  | TsConflict u64 u64
  | TsCapacity
  | TsPoisoned
  | TsBusy
  | TsClosed
  | TsLimitExceeded string u64
  | TsCorrupt u64 string
  | TsStorage task_commit_certainty string

record ('n, 's) task_store =
  tst_load :: "budget_identity \<Rightarrow> 's \<Rightarrow> ('n task_snapshot option, task_store_error) outcome \<times> 's"
  tst_compare_exchange :: "u64 \<Rightarrow> 'n task_snapshot \<Rightarrow> 's \<Rightarrow> (task_write_outcome, task_store_error) outcome \<times> 's"

record 'n memory_store =
  mst_max_tasks :: nat
  mst_values :: "(task_id, 'n task_snapshot) btree_map"
  mst_poisoned :: bool

definition memory_store_new :: "nat \<Rightarrow> ('n memory_store, task_state_error) outcome" where
  "memory_store_new max_tasks =
     (if max_tasks = 0 \<or> max_tasks > 65536 then Err TeLimit
      else Ok \<lparr>mst_max_tasks = max_tasks, mst_values = [], mst_poisoned = False\<rparr>)"

definition memory_load ::
    "budget_identity \<Rightarrow> 'n memory_store \<Rightarrow> ('n task_snapshot option, task_store_error) outcome \<times> 'n memory_store" where
  "memory_load identity m =
     (and_then (map_err TsState (valid_text (id_task_id identity))) (\<lambda>_.
      and_then (map_err TsState (valid_text (id_session_id identity))) (\<lambda>_.
      and_then (map_err TsState (valid_text (id_agent_key identity))) (\<lambda>_.
      and_then (reject_if (mst_poisoned m) TsPoisoned) (\<lambda>_.
      let found = map_of (mst_values m) (id_task_id identity) in
      and_then (reject_if (case found of Some s \<Rightarrow> sn_identity s \<noteq> identity | None \<Rightarrow> False)
          (TsState TeIdentityMismatch)) (\<lambda>_. Ok found))))), m)"

definition memory_checks ::
    "'n task_codec \<Rightarrow> u64 \<Rightarrow> 'n task_snapshot \<Rightarrow> 'n memory_store \<Rightarrow> (task_write_outcome, task_store_error) outcome" where
  "memory_checks codec expected candidate m =
     and_then (map_err TsState (validate_snapshot codec candidate)) (\<lambda>_.
     and_then (ok_or (checked_add expected 1) (TsState TeRevisionExhausted)) (\<lambda>next_revision.
     and_then (reject_if (sn_revision candidate \<noteq> next_revision)
         (TsState (TeRevisionMismatch next_revision (sn_revision candidate)))) (\<lambda>_.
     and_then (reject_if (mst_poisoned m) TsPoisoned) (\<lambda>_.
     let previous = map_of (mst_values m) (id_task_id (sn_identity candidate)) in
     if previous = Some candidate then Ok AlreadyPresent
     else
       let actual = (case previous of None \<Rightarrow> 0 | Some p \<Rightarrow> sn_revision p) in
       and_then (reject_if (actual \<noteq> expected) (TsConflict expected actual)) (\<lambda>_.
       and_then (map_err TsState (validate_snapshot_successor codec candidate previous)) (\<lambda>_.
       and_then (reject_if (previous = None \<and> length (mst_values m) \<ge> mst_max_tasks m) TsCapacity) (\<lambda>_.
       Ok Applied)))))))"

definition memory_compare_exchange ::
    "'n task_codec \<Rightarrow> u64 \<Rightarrow> 'n task_snapshot \<Rightarrow> 'n memory_store
       \<Rightarrow> (task_write_outcome, task_store_error) outcome \<times> 'n memory_store" where
  "memory_compare_exchange codec expected candidate m =
     (let r = memory_checks codec expected candidate m in
      (r, if r = Ok Applied
          then m\<lparr>mst_values := bt_insert (id_task_id (sn_identity candidate)) candidate (mst_values m)\<rparr>
          else m))"

definition memory_store :: "'n task_codec \<Rightarrow> ('n, 'n memory_store) task_store" where
  "memory_store codec = \<lparr>tst_load = memory_load, tst_compare_exchange = memory_compare_exchange codec\<rparr>"

end
