(* ===== verification/TaskHistoryInv.thy ===== *)
theory TaskHistoryInv
  imports TaskHistory ExecutionInv
begin

text \<open>
  What the assessment of a history says: a reference description of its calls and results by
  their positions, and the proof that the scan of \<open>TaskHistory\<close> computes it.
\<close>

section \<open>Calls and results by position\<close>

definition call_of :: "budget_identity \<Rightarrow> 'v session_event \<Rightarrow> (task_operation_kind \<times> string \<times> step_id option) option" where
  "call_of identity event =
     (case se_kind event of
        ModelRequestEvent request \<Rightarrow> Some (ModelOperation, mq_call_id request, model_step identity request)
      | ToolCallEvent call \<Rightarrow> Some (ToolOperation, tl_id call, tool_step identity call)
      | _ \<Rightarrow> None)"

definition result_of :: "'v session_event \<Rightarrow> (task_operation_kind \<times> string) option" where
  "result_of event =
     (case se_kind event of
        ModelResultEvent result \<Rightarrow> Some (ModelOperation, ms_call_id result)
      | ToolResultEvent result \<Rightarrow> Some (ToolOperation, tres_call_id result)
      | _ \<Rightarrow> None)"

definition call_at ::
    "budget_identity \<Rightarrow> 'v session_event list \<Rightarrow> nat \<Rightarrow> task_operation_kind \<Rightarrow> string \<Rightarrow> step_id option \<Rightarrow> bool" where
  "call_at identity history i kind c step \<longleftrightarrow>
     i < length history \<and> call_of identity (history ! i) = Some (kind, c, step)"

definition answered_by :: "'v session_event list \<Rightarrow> nat \<Rightarrow> nat \<Rightarrow> task_operation_kind \<Rightarrow> string \<Rightarrow> bool" where
  "answered_by history i j kind c \<longleftrightarrow> i < j \<and> j < length history \<and> result_of (history ! j) = Some (kind, c)"

definition operation_at :: "'v session_event \<Rightarrow> task_operation_kind \<times> string \<times> step_id option \<Rightarrow> unresolved_operation" where
  "operation_at event = (\<lambda>(kind, c, step).
     \<lparr>uo_kind = kind, uo_call_id = c, uo_intent = cursor_of event, uo_step_id = step\<rparr>)"

text \<open>A call that waits for its result at the end of the history.\<close>

definition open_call :: "budget_identity \<Rightarrow> 'v session_event list \<Rightarrow> nat \<Rightarrow> unresolved_operation \<Rightarrow> bool" where
  "open_call identity history i u \<longleftrightarrow>
     (\<exists>kind c step. call_at identity history i kind c step \<and> (\<forall>j. \<not> answered_by history i j kind c) \<and>
        u = operation_at (history ! i) (kind, c, step))"

fun first_seen :: "'a list \<Rightarrow> 'a list" where
  "first_seen [] = []"
| "first_seen (x # xs) = x # filter (\<lambda>y. y \<noteq> x) (first_seen xs)"

definition steps_of :: "budget_identity \<Rightarrow> 'v session_event list \<Rightarrow> step_id list" where
  "steps_of identity history =
     first_seen (List.map_filter (\<lambda>e. case call_of identity e of Some (_, _, step) \<Rightarrow> step | None \<Rightarrow> None) history)"

lemma set_first_seen [simp]: "set (first_seen xs) = set xs"
  by (induction xs) auto

lemma distinct_first_seen [simp]: "distinct (first_seen xs)"
  by (induction xs) auto

lemma first_seen_snoc: "first_seen (xs @ [x]) = (if x \<in> set xs then first_seen xs else first_seen xs @ [x])"
  by (induction xs) auto

lemma first_seen_prefix: "prefix (first_seen xs) (first_seen (xs @ ys))"
proof (induction ys rule: rev_induct)
  case (snoc y ys)
  have "prefix (first_seen (xs @ ys)) (first_seen ((xs @ ys) @ [y]))" by (subst first_seen_snoc) simp
  with snoc show ?case by (metis append.assoc prefix_order.trans)
qed simp

lemma call_at_snoc:
  "call_at identity (history @ [e]) i kind c step \<longleftrightarrow>
     call_at identity history i kind c step \<or> i = length history \<and> call_of identity e = Some (kind, c, step)"
  by (auto simp: call_at_def nth_append less_Suc_eq)

lemma call_at_less: "call_at identity history i kind c step \<Longrightarrow> i < length history"
  by (simp add: call_at_def)

lemma answered_by_snoc:
  "answered_by (history @ [e]) i j kind c \<longleftrightarrow>
     answered_by history i j kind c \<or> j = length history \<and> i < j \<and> result_of e = Some (kind, c)"
  by (auto simp: answered_by_def nth_append less_Suc_eq)

lemma answered_by_end [simp]: "\<not> answered_by history (length history) j kind c"
  by (simp add: answered_by_def)

section \<open>One event\<close>

definition pending_calls :: "task_operation_kind \<Rightarrow> history_scan \<Rightarrow> (string, unresolved_operation) btree_map" where
  "pending_calls kind h = (case kind of ModelOperation \<Rightarrow> hs_models h | ToolOperation \<Rightarrow> hs_tools h)"

text \<open>What an accepted event does to the scan.\<close>

definition scanned :: "budget_identity \<Rightarrow> 'v session_event \<Rightarrow> history_scan \<Rightarrow> history_scan \<Rightarrow> bool" where
  "scanned identity e h h' \<longleftrightarrow>
     hs_event_ids h' = se_event_id e # hs_event_ids h \<and> hs_current h' = Some (se_turn_id e) \<and>
     hs_closed h' = is_terminal e \<and>
     (case call_of identity e of
        Some (kind, c, step) \<Rightarrow>
          (kind = ToolOperation, c) \<notin> set (hs_calls_seen h) \<and>
          hs_calls_seen h' = (kind = ToolOperation, c) # hs_calls_seen h \<and>
          (\<forall>k. pending_calls k h' =
             (if k = kind then bt_insert c (operation_at e (kind, c, step)) (pending_calls k h) else pending_calls k h)) \<and>
          (case step of
             None \<Rightarrow> hs_steps h' = hs_steps h \<and> hs_steps_seen h' = hs_steps_seen h
           | Some s \<Rightarrow> hs_steps h' = (if s \<in> set (hs_steps_seen h) then hs_steps h else hs_steps h @ [s]) \<and>
               set (hs_steps_seen h') = insert s (set (hs_steps_seen h)))
      | None \<Rightarrow>
          hs_calls_seen h' = hs_calls_seen h \<and> hs_steps h' = hs_steps h \<and> hs_steps_seen h' = hs_steps_seen h \<and>
          (case result_of e of
             None \<Rightarrow> (\<forall>k. pending_calls k h' = pending_calls k h)
           | Some (kind, c) \<Rightarrow>
               (\<exists>u. map_of (pending_calls kind h) c = Some u \<and> cur_turn_id (uo_intent u) = se_turn_id e) \<and>
               (\<forall>k. pending_calls k h' = (if k = kind then bt_remove c (pending_calls k h) else pending_calls k h))))"

lemma scan_address_Ok:
  "scan_address identity (index, e) h = Ok h' \<longleftrightarrow>
     se_session_id e = id_session_id identity \<and> valid_text (se_event_id e) = Ok () \<and>
     valid_text (se_turn_id e) = Ok () \<and> se_seq e = of_nat index \<and> se_event_id e \<notin> set (hs_event_ids h) \<and>
     h' = h\<lparr>hs_event_ids := se_event_id e # hs_event_ids h\<rparr>"
  by (auto simp: scan_address_def)

definition turn_open :: "'v session_event \<Rightarrow> history_scan \<Rightarrow> bool" where
  "turn_open e h \<longleftrightarrow>
     (if hs_current h = Some (se_turn_id e) then \<not> hs_closed h \<and> \<not> is_user e
      else hs_closed h \<and> se_turn_id e \<notin> set (hs_turn_ids h) \<and> is_user e)"

lemma scan_turn_Ok:
  assumes "scan_turn e h = Ok h'"
  shows "turn_open e h \<and> hs_current h' = Some (se_turn_id e) \<and> \<not> hs_closed h' \<and>
    hs_event_ids h' = hs_event_ids h \<and> hs_models h' = hs_models h \<and> hs_tools h' = hs_tools h \<and>
    hs_calls_seen h' = hs_calls_seen h \<and> hs_steps h' = hs_steps h \<and> hs_steps_seen h' = hs_steps_seen h \<and>
    hs_turn_ids h' = (if hs_current h = Some (se_turn_id e) then hs_turn_ids h else se_turn_id e # hs_turn_ids h)"
  using assms by (auto simp: scan_turn_def turn_open_def split: if_splits)

lemma finish_call_Ok:
  "finish_call pending i turn = Ok m \<longleftrightarrow>
     (\<exists>u. map_of pending i = Some u \<and> cur_turn_id (uo_intent u) = turn) \<and> m = bt_remove i pending"
  by (auto simp: finish_call_def)

text \<open>A call is recorded.\<close>

lemma record_call_Ok:
  assumes "record_call e (kind, c, step) h = Ok h'"
  shows "(kind = ToolOperation, c) \<notin> set (hs_calls_seen h) \<and>
    hs_calls_seen h' = (kind = ToolOperation, c) # hs_calls_seen h \<and>
    (\<forall>k. pending_calls k h' =
       (if k = kind then bt_insert c (operation_at e (kind, c, step)) (pending_calls k h) else pending_calls k h)) \<and>
    (case step of
       None \<Rightarrow> hs_steps h' = hs_steps h \<and> hs_steps_seen h' = hs_steps_seen h
     | Some s \<Rightarrow> hs_steps h' = (if s \<in> set (hs_steps_seen h) then hs_steps h else hs_steps h @ [s]) \<and>
         set (hs_steps_seen h') = insert s (set (hs_steps_seen h))) \<and>
    hs_event_ids h' = hs_event_ids h \<and> hs_current h' = hs_current h \<and> hs_closed h' = hs_closed h \<and>
    hs_turn_ids h' = hs_turn_ids h"
  using assms
  by (cases step; cases kind)
    (auto simp: record_call_def pending_calls_def operation_at_def Let_def insert_absorb
      split: task_operation_kind.splits if_splits)

lemma scan_event_Ok:
  assumes "scan_event identity (index, e) h = Ok h'"
  shows "se_session_id e = id_session_id identity \<and> se_seq e = of_nat index \<and>
    se_event_id e \<notin> set (hs_event_ids h) \<and> turn_open e h \<and> scanned identity e h h' \<and>
    hs_turn_ids h' = (if hs_current h = Some (se_turn_id e) then hs_turn_ids h else se_turn_id e # hs_turn_ids h)"
proof -
  obtain h1 h2 h3 pending where a: "scan_address identity (index, e) h = Ok h1" and t: "scan_turn e h1 = Ok h2"
    and k: "scan_kind identity e h2 = Ok (h3, pending)"
    and r: "(case pending of None \<Rightarrow> Ok h3 | Some call \<Rightarrow> record_call e call h3) = Ok h'"
    using assms by (auto simp: scan_event_def)
  have a': "h1 = h\<lparr>hs_event_ids := se_event_id e # hs_event_ids h\<rparr>"
    "se_session_id e = id_session_id identity \<and> se_seq e = of_nat index \<and> se_event_id e \<notin> set (hs_event_ids h)"
    using a by (simp_all add: scan_address_Ok)
  note t' = scan_turn_Ok [OF t, unfolded a'(1)]
  have o: "turn_open e h" using t' by (auto simp: turn_open_def split: if_splits)
  have "scanned identity e h h' \<and>
    hs_turn_ids h' = (if hs_current h = Some (se_turn_id e) then hs_turn_ids h else se_turn_id e # hs_turn_ids h)"
  proof (cases pending)
    case None
    with r have "h' = h3" by simp
    with None k t' show ?thesis
      by (cases "se_kind e")
        (auto simp: scan_kind_def scanned_def call_of_def result_of_def is_terminal_def pending_calls_def finish_call_Ok
          split: task_operation_kind.splits)
  next
    case (Some call)
    obtain kind c step where call: "call = (kind, c, step)" by (cases call)
    have "record_call e (kind, c, step) h3 = Ok h'" using r Some call by simp
    note r' = record_call_Ok [OF this]
    have c: "call_of identity e = Some (kind, c, step)" and f: "\<not> is_terminal e"
      and h3: "hs_event_ids h3 = hs_event_ids h2" "hs_current h3 = hs_current h2" "hs_closed h3 = hs_closed h2"
        "hs_turn_ids h3 = hs_turn_ids h2" "hs_calls_seen h3 = hs_calls_seen h2" "hs_steps h3 = hs_steps h2"
        "hs_steps_seen h3 = hs_steps_seen h2" "\<And>k. pending_calls k h3 = pending_calls k h2"
      using k Some call
      by (cases "se_kind e"; auto simp: scan_kind_def call_of_def is_terminal_def pending_calls_def
          split: task_operation_kind.splits)+
    have p: "pending_calls k h2 = pending_calls k h" for k
      using t' by (cases k) (auto simp: pending_calls_def)
    show ?thesis
      using r' c f h3 t' p by (auto simp: scanned_def split: option.splits)
  qed
  with a' o show ?thesis by blast
qed

section \<open>The whole history\<close>

lemma call_result_exclusive: "call_of identity e = Some call \<Longrightarrow> result_of e = None"
  by (auto simp: call_of_def result_of_def split: session_event_kind.splits)

lemma open_call_snoc_call:
  assumes "call_of identity e = Some call"
  shows "open_call identity (history @ [e]) i u \<longleftrightarrow>
    open_call identity history i u \<or> i = length history \<and> u = operation_at e call"
proof (cases "i = length history")
  case True
  obtain kind c step where call: "call = (kind, c, step)" by (cases call)
  have "\<not> open_call identity history i u" using True by (auto simp: open_call_def dest: call_at_less)
  moreover have "call_at identity (history @ [e]) i k d s \<longleftrightarrow> (k, d, s) = call" for k d s
    using True assms by (auto simp: call_at_snoc call dest: call_at_less)
  ultimately show ?thesis using True by (auto simp: open_call_def call answered_by_def)
next
  case False
  then show ?thesis
    using call_result_exclusive [OF assms]
    by (auto simp: open_call_def call_at_snoc answered_by_snoc nth_append dest: call_at_less)
qed

lemma open_call_snoc_result:
  assumes "result_of e = Some (kind, c)"
  shows "open_call identity (history @ [e]) i u \<longleftrightarrow>
    open_call identity history i u \<and> \<not> (uo_kind u = kind \<and> uo_call_id u = c)"
proof -
  have "call_of identity e = None" using assms call_result_exclusive [of identity e] by (cases "call_of identity e") auto
  with assms show ?thesis
    by (auto simp: open_call_def call_at_snoc answered_by_snoc nth_append operation_at_def dest: call_at_less)
qed

lemma open_call_snoc_other:
  assumes "call_of identity e = None" and "result_of e = None"
  shows "open_call identity (history @ [e]) i u \<longleftrightarrow> open_call identity history i u"
  using assms by (auto simp: open_call_def call_at_snoc answered_by_snoc nth_append dest: call_at_less)

lemma steps_of_snoc:
  "steps_of identity (history @ [e]) =
     (case call_of identity e of
        Some (_, _, Some s) \<Rightarrow> if s \<in> set (steps_of identity history) then steps_of identity history
          else steps_of identity history @ [s]
      | _ \<Rightarrow> steps_of identity history)"
  by (auto simp: steps_of_def List.map_filter_def first_seen_snoc split: option.splits)

text \<open>Calls have different names, and a result answers one earlier call of its own turn.\<close>

definition calls_unique :: "budget_identity \<Rightarrow> 'v session_event list \<Rightarrow> bool" where
  "calls_unique identity history \<longleftrightarrow>
     (\<forall>i j kind c s s'. call_at identity history i kind c s \<longrightarrow> call_at identity history j kind c s' \<longrightarrow> i = j)"

definition results_answer :: "budget_identity \<Rightarrow> 'v session_event list \<Rightarrow> bool" where
  "results_answer identity history \<longleftrightarrow>
     (\<forall>j kind c. j < length history \<longrightarrow> result_of (history ! j) = Some (kind, c) \<longrightarrow>
        (\<exists>i step. call_at identity history i kind c step \<and> i < j \<and>
           se_turn_id (history ! i) = se_turn_id (history ! j) \<and>
           (\<forall>j'. answered_by history i j' kind c \<longrightarrow> j' = j)))"

definition scan_inv :: "budget_identity \<Rightarrow> 'v session_event list \<Rightarrow> history_scan \<Rightarrow> bool" where
  "scan_inv identity history h \<longleftrightarrow>
     hs_current h = (if history = [] then None else Some (se_turn_id (last history))) \<and>
     hs_closed h = (history = [] \<or> is_terminal (last history)) \<and>
     (\<forall>kind. bt_wf (pending_calls kind h)) \<and>
     (\<forall>kind c u. map_of (pending_calls kind h) c = Some u \<longleftrightarrow>
        (\<exists>i. open_call identity history i u) \<and> uo_kind u = kind \<and> uo_call_id u = c) \<and>
     (\<forall>kind c. (kind = ToolOperation, c) \<in> set (hs_calls_seen h) \<longleftrightarrow> (\<exists>i step. call_at identity history i kind c step)) \<and>
     calls_unique identity history \<and> results_answer identity history \<and>
     hs_steps h = steps_of identity history \<and> set (hs_steps_seen h) = set (steps_of identity history)"

lemma scan_inv_start: "scan_inv identity [] scan_start"
proof -
  have "steps_of identity [] = []" by (simp add: steps_of_def List.map_filter_def)
  then show ?thesis
    by (auto simp: scan_inv_def scan_start_def pending_calls_def open_call_def call_at_def calls_unique_def
        results_answer_def split: task_operation_kind.splits)
qed

lemma calls_unique_snoc:
  assumes "calls_unique identity history"
    and "\<And>kind c step i s. call_of identity e = Some (kind, c, step) \<Longrightarrow> \<not> call_at identity history i kind c s"
  shows "calls_unique identity (history @ [e])"
  using assms unfolding calls_unique_def call_at_snoc by (blast dest: call_at_less)

lemma results_answer_snoc:
  assumes "results_answer identity history" and "calls_unique identity history"
    and "\<And>kind c. result_of e = Some (kind, c) \<Longrightarrow>
      \<exists>i u. open_call identity history i u \<and> uo_kind u = kind \<and> uo_call_id u = c \<and> cur_turn_id (uo_intent u) = se_turn_id e"
  shows "results_answer identity (history @ [e])"
  unfolding results_answer_def
proof (intro allI impI)
  fix j kind c
  assume j: "j < length (history @ [e])" and r: "result_of ((history @ [e]) ! j) = Some (kind, c)"
  show "\<exists>i step. call_at identity (history @ [e]) i kind c step \<and> i < j \<and>
      se_turn_id ((history @ [e]) ! i) = se_turn_id ((history @ [e]) ! j) \<and>
      (\<forall>j'. answered_by (history @ [e]) i j' kind c \<longrightarrow> j' = j)"
  proof (cases "j < length history")
    case True
    with r have r: "result_of (history ! j) = Some (kind, c)" by (simp add: nth_append)
    from assms(1) [unfolded results_answer_def, rule_format, OF True r]
    obtain i step where i: "call_at identity history i kind c step" "i < j"
      "se_turn_id (history ! i) = se_turn_id (history ! j)" "\<forall>j'. answered_by history i j' kind c \<longrightarrow> j' = j"
      by blast
    have a: "answered_by history i j kind c" using i(2) True r by (simp add: answered_by_def)
    have "result_of e \<noteq> Some (kind, c)"
    proof
      assume "result_of e = Some (kind, c)"
      then obtain i' u where "open_call identity history i' u" "uo_kind u = kind" "uo_call_id u = c"
        using assms(3) by blast
      then obtain s where "call_at identity history i' kind c s" "\<not> answered_by history i' j kind c"
        by (auto simp: open_call_def operation_at_def)
      moreover from this(1) i(1) assms(2) have "i' = i" unfolding calls_unique_def by blast
      ultimately show False using a by simp
    qed
    with i True show ?thesis
      by (intro exI [of _ i] exI [of _ step]) (auto simp: call_at_snoc answered_by_snoc nth_append)
  next
    case False
    with j r have e: "j = length history" "result_of e = Some (kind, c)" by (auto simp: nth_append)
    with assms(3) obtain i u where "open_call identity history i u" "uo_kind u = kind" "uo_call_id u = c"
      "cur_turn_id (uo_intent u) = se_turn_id e" by blast
    then obtain step where "call_at identity history i kind c step" "\<forall>j. \<not> answered_by history i j kind c"
      "se_turn_id (history ! i) = se_turn_id e"
      by (auto simp: open_call_def operation_at_def cursor_of_def)
    with e show ?thesis
      by (intro exI [of _ i] exI [of _ step]) (auto simp: call_at_snoc answered_by_snoc nth_append dest: call_at_less)
  qed
qed

lemma scan_inv_step:
  assumes inv: "scan_inv identity history h" and e: "scanned identity e h h'"
  shows "scan_inv identity (history @ [e]) h'"
proof (cases "call_of identity e")
  case None
  show ?thesis
  proof (cases "result_of e")
    case None': None
    from inv e None None' show ?thesis
      using calls_unique_snoc [of identity history e] results_answer_snoc [of identity history e]
      by (simp add: scan_inv_def scanned_def call_at_snoc open_call_snoc_other steps_of_snoc)
  next
    case (Some r)
    obtain kind c where r: "result_of e = Some (kind, c)" using Some by (cases r) auto
    have p: "\<exists>u. map_of (pending_calls kind h) c = Some u \<and> cur_turn_id (uo_intent u) = se_turn_id e"
      "\<And>k. pending_calls k h' = (if k = kind then bt_remove c (pending_calls k h) else pending_calls k h)"
      using e None r by (auto simp: scanned_def)
    have "results_answer identity (history @ [e])"
      by (rule results_answer_snoc) (use inv p(1) r in \<open>auto simp: scan_inv_def\<close>)
    moreover have "map_of (pending_calls k h') d = Some u \<longleftrightarrow>
        (\<exists>i. open_call identity (history @ [e]) i u) \<and> uo_kind u = k \<and> uo_call_id u = d" for k d u
      using inv by (auto simp: scan_inv_def p(2) open_call_snoc_result [OF r])
    moreover have "bt_wf (pending_calls k h')" for k
      using inv by (simp add: scan_inv_def p(2))
    ultimately show ?thesis
      using inv e None calls_unique_snoc [of identity history e]
      by (simp add: scan_inv_def scanned_def call_at_snoc steps_of_snoc)
  qed
next
  case (Some call)
  obtain kind c step where c: "call_of identity e = Some (kind, c, step)" using Some by (cases call) auto
  have r: "result_of e = None" using call_result_exclusive [OF c] .
  have p: "(kind = ToolOperation, c) \<notin> set (hs_calls_seen h)"
      "hs_calls_seen h' = (kind = ToolOperation, c) # hs_calls_seen h"
      "\<And>k. pending_calls k h' =
         (if k = kind then bt_insert c (operation_at e (kind, c, step)) (pending_calls k h) else pending_calls k h)"
    using e c by (auto simp: scanned_def)
  have fresh: "\<not> call_at identity history i kind c s" for i s
    using p(1) inv by (auto simp: scan_inv_def)
  have "map_of (pending_calls k h') d = Some u \<longleftrightarrow>
        (\<exists>i. open_call identity (history @ [e]) i u) \<and> uo_kind u = k \<and> uo_call_id u = d" for k d u
  proof -
    have old: "map_of (pending_calls k h) d = Some u \<longleftrightarrow>
        (\<exists>i. open_call identity history i u) \<and> uo_kind u = k \<and> uo_call_id u = d"
      using inv by (simp add: scan_inv_def)
    have new: "(\<exists>i. open_call identity (history @ [e]) i u) \<longleftrightarrow>
        (\<exists>i. open_call identity history i u) \<or> u = operation_at e (kind, c, step)"
      by (auto simp: open_call_snoc_call [OF c])
    have "\<not> (\<exists>i. open_call identity history i u)" if "uo_kind u = kind" "uo_call_id u = c"
      using fresh that by (auto simp: open_call_def operation_at_def)
    with old new show ?thesis by (auto simp: p(3) operation_at_def)
  qed
  moreover have "bt_wf (pending_calls k h')" for k
    using inv by (simp add: scan_inv_def p(3))
  moreover have "(k = ToolOperation, d) \<in> set (hs_calls_seen h') \<longleftrightarrow>
      (\<exists>i step. call_at identity (history @ [e]) i k d step)" for k d
  proof -
    have "(k = ToolOperation) = (kind = ToolOperation) \<longleftrightarrow> k = kind" by (cases k; cases kind) auto
    with inv show ?thesis by (auto simp: scan_inv_def p(2) call_at_snoc c)
  qed
  moreover have "calls_unique identity (history @ [e])"
    by (rule calls_unique_snoc) (use inv fresh c in \<open>auto simp: scan_inv_def\<close>)
  moreover have "results_answer identity (history @ [e])"
    by (rule results_answer_snoc) (use inv r in \<open>auto simp: scan_inv_def\<close>)
  moreover have "hs_steps h' = steps_of identity (history @ [e]) \<and>
      set (hs_steps_seen h') = set (steps_of identity (history @ [e]))"
    using inv e c by (auto simp: scan_inv_def scanned_def steps_of_snoc split: option.splits)
  ultimately show ?thesis
    using e by (simp add: scan_inv_def scanned_def)
qed

lemma scan_history:
  assumes "for_each (scan_event identity) (enumerate 0 history) scan_start = Ok h"
  shows "scan_inv identity history h \<and> set (hs_event_ids h) = se_event_id ` set history \<and>
    physical_log (id_session_id identity) history"
  using assms
proof (induction history arbitrary: h rule: rev_induct)
  case (snoc e history)
  then obtain h1 where "for_each (scan_event identity) (enumerate 0 history) scan_start = Ok h1"
    and s: "scan_event identity (length history, e) h1 = Ok h"
    by (auto simp: enumerate_append_eq for_each_append)
  with snoc.IH have "scan_inv identity history h1" "set (hs_event_ids h1) = se_event_id ` set history"
    "physical_log (id_session_id identity) history" by blast+
  with scan_event_Ok [OF s] show ?case
    by (auto simp: physical_log_snoc scanned_def intro: scan_inv_step)
qed (simp add: scan_inv_start, simp add: scan_start_def)

section \<open>The assessment\<close>

definition open_at :: "budget_identity \<Rightarrow> 'v session_event list \<Rightarrow> nat \<Rightarrow> unresolved_operation option" where
  "open_at identity history i =
     (case call_of identity (history ! i) of
        None \<Rightarrow> None
      | Some (kind, c, step) \<Rightarrow>
          if \<exists>e \<in> set (drop (Suc i) history). result_of e = Some (kind, c) then None
          else Some (operation_at (history ! i) (kind, c, step)))"

definition open_calls :: "budget_identity \<Rightarrow> 'v session_event list \<Rightarrow> unresolved_operation list" where
  "open_calls identity history = List.map_filter (open_at identity history) [0..<length history]"

lemma answered_drop:
  "(\<exists>e \<in> set (drop (Suc i) history). result_of e = Some (kind, c)) \<longleftrightarrow> (\<exists>j. answered_by history i j kind c)"
proof
  assume "\<exists>e \<in> set (drop (Suc i) history). result_of e = Some (kind, c)"
  then obtain k where "k < length history - Suc i" "result_of (history ! (Suc i + k)) = Some (kind, c)"
    by (auto simp: in_set_conv_nth)
  then have "answered_by history i (Suc i + k) kind c" by (simp add: answered_by_def)
  then show "\<exists>j. answered_by history i j kind c" ..
next
  assume "\<exists>j. answered_by history i j kind c"
  then obtain j where j: "i < j" "j < length history" "result_of (history ! j) = Some (kind, c)"
    by (auto simp: answered_by_def)
  then have "history ! j = drop (Suc i) history ! (j - Suc i)" "j - Suc i < length (drop (Suc i) history)" by auto
  then have "history ! j \<in> set (drop (Suc i) history)" by (metis nth_mem)
  with j(3) show "\<exists>e \<in> set (drop (Suc i) history). result_of e = Some (kind, c)" by blast
qed

lemma open_call_at: "open_call identity history i u \<longleftrightarrow> i < length history \<and> open_at identity history i = Some u"
  by (auto simp: open_call_def open_at_def call_at_def answered_drop split: option.splits if_splits)

lemma set_open_calls: "u \<in> set (open_calls identity history) \<longleftrightarrow> (\<exists>i. open_call identity history i u)"
  by (auto simp: open_calls_def List.map_filter_def open_call_at image_iff)

lemma cursor_seqs:
  assumes "physical_log session history" and "length history \<le> 2 ^ 64"
  shows "inj_on (\<lambda>u. cur_seq (uo_intent u)) {u. \<exists>i. open_call identity history i u}"
    and "sorted_wrt (<) (map (\<lambda>u. cur_seq (uo_intent u)) (open_calls identity history))"
proof -
  have s: "cur_seq (uo_intent u) = of_nat i" if "open_call identity history i u" for i u
    using that assms(1) by (auto simp: open_call_def operation_at_def cursor_of_def physical_log_def dest: call_at_less)
  have lt: "(of_nat i :: u64) < of_nat j" if "i < j" "j < length history" for i j
    using that assms(2) by (simp add: of_nat_word_less_iff take_bit_nat_eq_self)
  show "inj_on (\<lambda>u. cur_seq (uo_intent u)) {u. \<exists>i. open_call identity history i u}"
  proof (rule inj_onI, clarsimp)
    fix u u' i j
    assume "cur_seq (uo_intent u) = cur_seq (uo_intent u')"
      and o: "open_call identity history i u" "open_call identity history j u'"
    then have "(of_nat i :: u64) = of_nat j" by (simp add: s)
    moreover have "i < length history" "j < length history" using o by (simp_all add: open_call_at)
    ultimately have "i = j" using lt [of i j] lt [of j i] by (cases i j rule: linorder_cases) auto
    with o show "u = u'" by (simp add: open_call_at)
  qed
  have "sorted_wrt (<) (map (\<lambda>u. cur_seq (uo_intent u)) (List.map_filter (open_at identity history) is))"
    if "sorted_wrt (<) is" "\<forall>i \<in> set is. i < length history" for "is"
    using that
  proof (induction "is")
    case (Cons i "is")
    have "cur_seq (uo_intent u) < cur_seq (uo_intent v)"
      if "open_at identity history i = Some u" "open_at identity history j = Some v" "j \<in> set is" for j u v
      using that Cons.prems lt s [of i u] s [of j v] by (simp add: open_call_at)
    with Cons show ?case by (auto simp: List.map_filter_def split: option.splits)
  qed (simp add: List.map_filter_def)
  from this [of "[0..<length history]"]
  show "sorted_wrt (<) (map (\<lambda>u. cur_seq (uo_intent u)) (open_calls identity history))"
    by (simp add: open_calls_def)
qed

lemma in_bt_values: "bt_wf m \<Longrightarrow> u \<in> set (bt_values m) \<longleftrightarrow> (\<exists>c. map_of m c = Some u)"
  by (simp add: map_of_eq_Some_iff bt_wf_distinct image_iff) (metis fst_conv snd_conv surj_pair)

lemma pending_values:
  assumes "scan_inv identity history h"
  shows "u \<in> set (bt_values (pending_calls k h)) \<longleftrightarrow> (\<exists>i. open_call identity history i u) \<and> uo_kind u = k"
proof -
  have "bt_wf (pending_calls k h)" using assms by (simp add: scan_inv_def)
  moreover have "map_of (pending_calls k h) c = Some u \<longleftrightarrow>
      (\<exists>i. open_call identity history i u) \<and> uo_kind u = k \<and> uo_call_id u = c" for c
    using assms by (simp add: scan_inv_def)
  ultimately show ?thesis by (simp only: in_bt_values) blast
qed

lemma pending_distinct:
  assumes "scan_inv identity history h"
  shows "distinct (bt_values (hs_models h) @ bt_values (hs_tools h))"
proof -
  have keys: "bt_keys (pending_calls k h) = map uo_call_id (bt_values (pending_calls k h))" for k
  proof -
    have "fst e = uo_call_id (snd e)" if "e \<in> set (pending_calls k h)" for e
    proof -
      have "distinct (bt_keys (pending_calls k h))" using assms by (simp add: scan_inv_def bt_wf_distinct)
      with that have "map_of (pending_calls k h) (fst e) = Some (snd e)" by (simp add: map_of_eq_Some_iff)
      with assms show ?thesis by (auto simp: scan_inv_def)
    qed
    then show ?thesis by (simp add: list.map_comp)
  qed
  have d: "distinct (bt_values (pending_calls k h))" for k
    using keys [of k] assms by (metis bt_wf_distinct distinct_map scan_inv_def)
  have "u \<notin> set (bt_values (hs_tools h))" if "u \<in> set (bt_values (hs_models h))" for u
    using that pending_values [OF assms, of u ModelOperation] pending_values [OF assms, of u ToolOperation]
    unfolding pending_calls_def task_operation_kind.case by simp
  then show ?thesis
    using d [of ModelOperation] d [of ToolOperation] unfolding pending_calls_def task_operation_kind.case
    by (subst distinct_append) blast
qed

lemma pending_set:
  assumes "scan_inv identity history h"
  shows "set (bt_values (hs_models h) @ bt_values (hs_tools h)) = {u. \<exists>i. open_call identity history i u}"
proof -
  have "u \<in> set (bt_values (hs_models h)) \<longleftrightarrow> (\<exists>i. open_call identity history i u) \<and> uo_kind u = ModelOperation"
    "u \<in> set (bt_values (hs_tools h)) \<longleftrightarrow> (\<exists>i. open_call identity history i u) \<and> uo_kind u = ToolOperation" for u
    using pending_values [OF assms, of u ModelOperation] pending_values [OF assms, of u ToolOperation]
    by (simp_all add: pending_calls_def)
  moreover have "uo_kind u = ModelOperation \<or> uo_kind u = ToolOperation" for u :: unresolved_operation
    by (cases "uo_kind u") auto
  ultimately show ?thesis by (auto simp del: set_map)
qed

lemma strict_sorted_map_unique:
  fixes f :: "'a \<Rightarrow> 'k::linorder"
  assumes "sorted_wrt (<) (map f ys)" and "sorted (map f xs)" and "distinct xs" and "set xs = set ys" and "inj_on f (set ys)"
  shows "xs = ys"
proof -
  have "distinct (map f xs)" using assms(3-5) by (simp add: distinct_map)
  moreover have "sorted (map f ys)" "distinct (map f ys)"
    using assms(1) by (simp_all add: strict_sorted_iff)
  ultimately show ?thesis
    using assms(2,4,5) by (intro map_sorted_distinct_set_unique [of f]) auto
qed

text \<open>The assessment as a function of the positions of calls and results.\<close>

definition assessment :: "budget_identity \<Rightarrow> 'v session_event list \<Rightarrow> history_assessment" where
  "assessment identity history =
     \<lparr>ha_boundary = (if history = [] then BoundaryEmpty else if is_terminal (last history) then BoundaryClosed
        else BoundaryOpen (se_turn_id (last history))),
      ha_settled_steps = filter (\<lambda>step. step \<notin> set (List.map_filter uo_step_id (open_calls identity history)))
        (steps_of identity history),
      ha_unresolved = open_calls identity history\<rparr>"

lemma assess_task_history_Ok:
  assumes "assess_task_history identity history = Ok a"
  shows "a = assessment identity history \<and> calls_unique identity history \<and> results_answer identity history \<and>
    physical_log (id_session_id identity) history \<and> length history \<le> MAX_TASK_HISTORY_EVENTS"
proof -
  obtain h where l: "length history \<le> MAX_TASK_HISTORY_EVENTS" and a: "a = assessment_of h"
    and h: "for_each (scan_event identity) (enumerate 0 history) scan_start = Ok h"
    using assms by (auto simp: assess_task_history_def)
  from scan_history [OF h] have inv: "scan_inv identity history h"
    and log: "physical_log (id_session_id identity) history" by blast+
  let ?f = "\<lambda>p. cur_seq (uo_intent p)" and ?us = "bt_values (hs_models h) @ bt_values (hs_tools h)"
  have "length history \<le> 2 ^ 64" using l by (simp add: MAX_TASK_HISTORY_EVENTS_def)
  note c = cursor_seqs [OF log this, of identity]
  have o: "set (open_calls identity history) = {u. \<exists>i. open_call identity history i u}"
    using set_open_calls by blast
  have "sort_key ?f ?us = open_calls identity history"
    by (rule strict_sorted_map_unique [of ?f])
      (use c o pending_set [OF inv] pending_distinct [OF inv] in simp_all)
  with inv have "a = assessment identity history"
    by (auto simp: a assessment_of_def assessment_def scan_inv_def Let_def)
  with inv log l show ?thesis by (simp add: scan_inv_def)
qed

end
