(* ===== verification/TaskStateInv.thy ===== *)
theory TaskStateInv
  imports TaskState TaskHistoryInv StoreLaws
begin

text \<open>
  Facts about snapshots: what the traversal of the payloads bounds, what a captured snapshot
  holds, and that captures along a growing history are successors of each other.
\<close>

section \<open>Payloads\<close>

lemma child_smaller: "v \<in> set (children jv) \<Longrightarrow> size v < size jv"
proof (cases jv)
  case (JArray vs)
  then show "v \<in> set (children jv) \<Longrightarrow> size v < size jv"
    by (auto simp: children_def dest: size_list_estimation' [where f = size, OF _ order_refl])
next
  case (JObject vs)
  {
    assume "v \<in> set (children jv)"
    then obtain k where "(k, v) \<in> set vs" using JObject by (auto simp: children_def)
    from size_list_estimation' [where f = "size_prod (\<lambda>_. 0) size", OF this order_refl]
    have "size v < size jv" using JObject by simp
  }
  then show "v \<in> set (children jv) \<Longrightarrow> size v < size jv" .
qed (simp_all add: children_def)

text \<open>How many values a payload has, and how deep they nest.\<close>

function node_count :: "'n json \<Rightarrow> nat" where
  "node_count jv = Suc (sum_list (map node_count (children jv)))"
  by pat_completeness auto
termination by (relation "measure size") (auto dest: child_smaller)

function nesting :: "'n json \<Rightarrow> nat" where
  "nesting jv = Max (set (0 # map (\<lambda>v. Suc (nesting v)) (children jv)))"
  by pat_completeness auto
termination by (relation "measure size") (auto dest: child_smaller)

declare node_count.simps [simp del] nesting.simps [simp del]

lemma node_count_pos: "0 < node_count jv"
  by (subst node_count.simps) simp

lemma length_le_nodes: "length vs \<le> sum_list (map node_count vs)"
proof (induction vs)
  case (Cons v vs)
  then show ?case using node_count_pos [of v] by simp
qed simp

lemma nesting_le: "nesting jv \<le> n \<longleftrightarrow> (\<forall>v \<in> set (children jv). Suc (nesting v) \<le> n)"
  by (subst nesting.simps) simp

lemma nesting_within:
  "d + nesting jv \<le> 64 \<longleftrightarrow> d \<le> 64 \<and> (\<forall>v \<in> set (children jv). d + 1 + nesting v \<le> 64)"
proof (cases "d \<le> 64")
  case True
  then have "d + nesting jv \<le> 64 \<longleftrightarrow> nesting jv \<le> 64 - d" by linarith
  also have "\<dots> \<longleftrightarrow> (\<forall>v \<in> set (children jv). Suc (nesting v) \<le> 64 - d)" by (rule nesting_le)
  also have "\<dots> \<longleftrightarrow> (\<forall>v \<in> set (children jv). d + 1 + nesting v \<le> 64)" using True by (intro ball_cong) auto
  finally show ?thesis using True by simp
qed simp

abbreviation stack_nodes :: "('n json \<times> nat) list \<Rightarrow> nat" where
  "stack_nodes stack \<equiv> sum_list (map (node_count \<circ> fst) stack)"

abbreviation stack_shallow :: "('n json \<times> nat) list \<Rightarrow> bool" where
  "stack_shallow stack \<equiv> \<forall>(v, d) \<in> set stack. d + nesting v \<le> 64"

lemma scan_values_iff:
  "nodes \<le> 65536 \<Longrightarrow> scan_values stack nodes = Ok () \<longleftrightarrow> nodes + stack_nodes stack \<le> 65536 \<and> stack_shallow stack"
proof (induction stack nodes rule: scan_values.induct)
  case (2 jv depth stack nodes)
  let ?push = "rev (map (\<lambda>v. (v, depth + 1)) (children jv)) @ stack"
  have n: "stack_nodes ?push + 1 = stack_nodes ((jv, depth) # stack)"
    using node_count.simps [of jv] by (simp add: rev_map [symmetric] comp_def sum_list_rev)
  have s: "stack_shallow ((jv, depth) # stack) \<longleftrightarrow> depth \<le> 64 \<and> stack_shallow ?push"
  proof -
    have "stack_shallow ?push \<longleftrightarrow> (\<forall>v \<in> set (children jv). depth + 1 + nesting v \<le> 64) \<and> stack_shallow stack"
      by (simp add: ball_Un)
    with nesting_within [of depth jv] show ?thesis by simp
  qed
  have l: "length ?push \<le> stack_nodes ?push"
    using length_le_nodes [of "map fst ?push"] by (simp add: comp_def)
  have c: "length (children jv) \<le> length ?push" by simp
  show ?case
  proof (cases "depth > 64 \<or> nodes + 1 > 65536 \<or> length (children jv) > 65536 \<or> length ?push > 65536")
    case True
    then have "scan_values ((jv, depth) # stack) nodes \<noteq> Ok ()" by (auto simp: Let_def)
    moreover have "\<not> (nodes + stack_nodes ((jv, depth) # stack) \<le> 65536 \<and> stack_shallow ((jv, depth) # stack))"
      using True n s l c by linarith
    ultimately show ?thesis by blast
  next
    case False
    then have step: "scan_values ((jv, depth) # stack) nodes = scan_values ?push (nodes + 1)" by (simp add: Let_def)
    have ih: "scan_values ?push (nodes + 1) = Ok () \<longleftrightarrow> nodes + 1 + stack_nodes ?push \<le> 65536 \<and> stack_shallow ?push"
      by (rule 2(1)) (use False in auto)
    have "nodes + 1 + stack_nodes ?push = nodes + stack_nodes ((jv, depth) # stack)" using n by linarith
    moreover have "(depth \<le> 64) = True" using False by simp
    ultimately show ?thesis using step ih s by (simp only: simp_thms)
  qed
qed simp

section \<open>Captured snapshots\<close>

lemma valid_snapshot_revision: "validate_snapshot codec s = Ok u \<Longrightarrow> sn_revision s \<noteq> 0"
  by (simp add: validate_snapshot_def Let_def)

lemma capture_Ok:
  assumes "capture codec expected compatibility payloads budget history = Ok s"
  shows "open_calls (br_identity (cp_report budget)) history = [] \<and> (history = [] \<or> is_terminal (last history)) \<and>
    physical_log (id_session_id (br_identity (cp_report budget))) history \<and> length history \<le> MAX_TASK_HISTORY_EVENTS \<and>
    verify_checkpoint_history budget history = Ok () \<and> is_quiescent budget \<and> validate_snapshot codec s = Ok () \<and>
    history_phase history = Ok (sn_phase s) \<and> checked_add expected 1 = Some (sn_revision s) \<and>
    sn_identity s = br_identity (cp_report budget) \<and> sn_compatibility s = compatibility \<and>
    sn_cursor s = cp_anchor budget \<and> tbr_revision (sn_budget s) = cp_revision budget \<and>
    tbr_charged (sn_budget s) = br_charged (cp_report budget) \<and>
    sn_settled_steps s = steps_of (br_identity (cp_report budget)) history \<and> sn_payloads s = payloads"
proof -
  let ?identity = "br_identity (cp_report budget)"
  obtain a phase revision where a: "assess_task_history ?identity history = Ok a" "ha_unresolved a = []"
      "\<not> (case ha_boundary a of BoundaryOpen _ \<Rightarrow> True | _ \<Rightarrow> False)"
    and v: "verify_checkpoint_history budget history = Ok ()" "is_quiescent budget"
      "history_phase history = Ok phase" "checked_add expected 1 = Some revision" "validate_snapshot codec s = Ok ()"
    and s: "s = \<lparr>sn_version = SnapshotV1, sn_revision = revision, sn_identity = ?identity,
            sn_compatibility = compatibility, sn_cursor = cp_anchor budget,
            sn_budget = \<lparr>tbr_revision = cp_revision budget, tbr_charged = br_charged (cp_report budget)\<rparr>,
            sn_phase = phase, sn_settled_steps = ha_settled_steps a, sn_payloads = payloads\<rparr>"
    using assms by (auto simp: capture_def Let_def requires_recovery_def)
  note f = assess_task_history_Ok [OF a(1)]
  then have o: "open_calls ?identity history = []" using a(2) by (simp add: assessment_def)
  have b: "history = [] \<or> is_terminal (last history)" using f a(3) by (auto simp: assessment_def split: if_splits)
  have "ha_settled_steps a = steps_of ?identity history"
    using f o by (simp add: assessment_def List.map_filter_def)
  with f o b v show ?thesis by (simp add: s)
qed

text \<open>The cursor of a captured snapshot is the end of its history.\<close>

lemma capture_cursor:
  assumes "capture codec expected compatibility payloads budget history = Ok s"
  shows "sn_cursor s = (if history = [] then None else Some (cursor_of (last history)))"
    and "history \<noteq> [] \<Longrightarrow> cur_seq (cursor_of (last history)) = of_nat (length history - 1)"
proof -
  from capture_Ok [OF assms] have v: "verify_checkpoint_history budget history = Ok ()"
    and p: "physical_log (id_session_id (br_identity (cp_report budget))) history" by blast+
  have "sn_cursor s = cp_anchor budget" using capture_Ok [OF assms] by blast
  then show "sn_cursor s = (if history = [] then None else Some (cursor_of (last history)))"
    using verify_history_Ok(3) [OF v] by simp
  show "cur_seq (cursor_of (last history)) = of_nat (length history - 1)" if "history \<noteq> []"
    using p that by (simp add: physical_log_def cursor_of_def last_conv_nth)
qed

section \<open>Successive captures\<close>

lemma scan_values_neq_Panic [simp]: "scan_values stack nodes \<noteq> Panic"
  by (induction stack nodes rule: scan_values.induct) (simp_all add: Let_def)

lemma boundary_charged:
  assumes "boundary_report cp = Ok report"
  shows "br_charged report = br_charged (cp_report cp)"
proof -
  have "br_charged report = br_charged (cp_report cp)"
    using assms [unfolded boundary_report_def]
    by (rule for_each_inv) (auto split: if_splits)
  then show ?thesis .
qed

text \<open>What a verified checkpoint has charged is what its history says.\<close>

lemma closed_tail_charged:
  assumes "validate_closed_tail events report = Ok ()" and "validate_closed_tail events report' = Ok ()"
  shows "br_charged report = br_charged report'"
  using assms
  by (auto simp: validate_closed_tail_def Let_def split: option.splits prod.splits session_event_kind.splits)

lemma verified_charged:
  assumes "verify_checkpoint_history cp history = Ok ()" and "verify_checkpoint_history cp' history = Ok ()"
  shows "br_charged (cp_report cp) = br_charged (cp_report cp')"
proof -
  obtain r r' where r: "boundary_report cp = Ok r" "boundary_report cp' = Ok r'"
    using assms by (auto simp: verify_checkpoint_history_def)
  have "br_charged r = br_charged r'"
  proof (cases "history = []")
    case True
    with assms r show ?thesis by (auto simp: verify_checkpoint_history_def split: option.splits)
  next
    case False
    with assms r have "validate_closed_tail history r = Ok ()" "validate_closed_tail history r' = Ok ()"
      by (auto simp: verify_checkpoint_history_def split: option.splits if_splits)
    then show ?thesis by (rule closed_tail_charged)
  qed
  with r show ?thesis by (simp add: boundary_charged)
qed

lemma chain_budgets:
  assumes "image_chain (Some b) (Some b')"
  shows "br_identity (cp_report b') = br_identity (cp_report b) \<and> cp_revision b \<le> cp_revision b' \<and>
    (cp_revision b' = cp_revision b \<longrightarrow> b' = b)"
  using chain_from [OF assms refl] by (auto simp: later_image_def word_le_nat_alt)

lemma steps_of_prefix: "prefix (steps_of identity history) (steps_of identity (history @ events))"
  by (simp add: steps_of_def List.map_filter_def first_seen_prefix)

lemma captures_succeed:
  assumes old: "capture codec expected compatibility payloads budget history = Ok s"
    and new: "capture codec (sn_revision s) compatibility payloads' budget' (history @ events) = Ok s'"
    and chain: "image_chain (Some budget) (Some budget')"
    and spent: "\<forall>r. amount (br_charged (cp_report budget)) r \<le> amount (br_charged (cp_report budget')) r"
  shows "validate_snapshot_successor codec s' (Some s) = Ok ()"
proof -
  note o = capture_Ok [OF old] and n = capture_Ok [OF new] and b = chain_budgets [OF chain]
  have cursor: "events = []" if "sn_cursor s = sn_cursor s'"
  proof (rule ccontr)
    assume e: "events \<noteq> []"
    with that capture_cursor(1) [OF old] capture_cursor(1) [OF new] have h: "history \<noteq> []"
      and "cursor_of (last history) = cursor_of (last (history @ events))" by (auto split: if_splits)
    with capture_cursor(2) [OF old] capture_cursor(2) [OF new]
    have "(of_nat (length history - 1) :: u64) = of_nat (length (history @ events) - 1)" by auto
    moreover have "length (history @ events) \<le> 100000" using n by (simp add: MAX_TASK_HISTORY_EVENTS_def)
    ultimately have "length history - 1 = length (history @ events) - 1"
      by (simp add: word_of_nat_eq_iff take_bit_nat_eq_self)
    with e h show False by (cases history) auto
  qed
  have regress: "\<not> cursor_regresses (sn_cursor s) (sn_cursor s')"
  proof (cases "history = [] \<or> events = []")
    case True
    with capture_cursor(1) [OF old] capture_cursor(1) [OF new] show ?thesis
      by (auto simp: cursor_regresses_def)
  next
    case False
    have "length (history @ events) \<le> 100000" using n by (simp add: MAX_TASK_HISTORY_EVENTS_def)
    moreover have "length history - 1 < length (history @ events) - 1" using False by (cases history; cases events) auto
    ultimately have "(of_nat (length history - 1) :: u64) < of_nat (length (history @ events) - 1)"
      by (simp only: of_nat_word_less_iff) (simp add: take_bit_nat_eq_self)
    then have "cur_seq (cursor_of (last history)) < cur_seq (cursor_of (last (history @ events)))"
      using capture_cursor(2) [OF old] capture_cursor(2) [OF new] False by simp
    with capture_cursor(1) [OF old] capture_cursor(1) [OF new] False show ?thesis
      by (auto simp: cursor_regresses_def)
  qed
  have same: "sn_phase s = sn_phase s' \<and> sn_settled_steps s = sn_settled_steps s' \<and>
      tbr_charged (sn_budget s) = tbr_charged (sn_budget s')" if "sn_cursor s = sn_cursor s'"
  proof -
    have e: "events = []" using cursor [OF that] .
    then have "br_charged (cp_report budget) = br_charged (cp_report budget')"
      using o n verified_charged [of budget history budget'] by simp
    moreover have "sn_phase s = sn_phase s'" using o n e by simp
    ultimately show ?thesis using o n b e by simp
  qed
  have eq: "sn_cursor s' = sn_cursor s \<and> tbr_charged (sn_budget s') = tbr_charged (sn_budget s)"
    if "tbr_revision (sn_budget s') = tbr_revision (sn_budget s)"
  proof -
    have "budget' = budget" using that o n b by simp
    with o n show ?thesis by simp
  qed
  have "validate_from codec s' s = Ok ()"
    using o n b spent steps_of_prefix [of "br_identity (cp_report budget)" history events] regress same eq
    by (auto simp: validate_from_def list_ex_iff not_less)
  with o n show ?thesis by (simp add: validate_snapshot_successor_def)
qed

text \<open>A snapshot is exactly what its evidence captures.\<close>

lemma verify_evidence_iff:
  "verify_evidence codec s identity revision compatibility budget history = Ok () \<longleftrightarrow>
     identity = br_identity (cp_report budget) \<and> revision \<noteq> 0 \<and>
     capture codec (revision - 1) compatibility (sn_payloads s) budget history = Ok s"
proof
  assume v: "verify_evidence codec s identity revision compatibility budget history = Ok ()"
  then have "validate_snapshot codec s = Ok ()" "sn_revision s = revision"
    by (auto simp: verify_evidence_def)
  with v show "identity = br_identity (cp_report budget) \<and> revision \<noteq> 0 \<and>
     capture codec (revision - 1) compatibility (sn_payloads s) budget history = Ok s"
    using valid_snapshot_revision [of codec s] by (auto simp: verify_evidence_def)
next
  assume a: "identity = br_identity (cp_report budget) \<and> revision \<noteq> 0 \<and>
     capture codec (revision - 1) compatibility (sn_payloads s) budget history = Ok s"
  then have c: "capture codec (revision - 1) compatibility (sn_payloads s) budget history = Ok s" by blast
  note f = capture_Ok [OF c]
  then have "sn_revision s = revision" by (auto simp: checked_add_def split: if_splits)
  with a f show "verify_evidence codec s identity revision compatibility budget history = Ok ()"
    by (simp add: verify_evidence_def)
qed

lemma capture_verifies:
  assumes "capture codec expected compatibility payloads budget history = Ok s"
  shows "verify_evidence codec s (br_identity (cp_report budget)) (sn_revision s) compatibility budget history = Ok ()"
proof -
  note f = capture_Ok [OF assms]
  then have "sn_revision s = expected + 1" by (auto simp: checked_add_def split: if_splits)
  moreover have "sn_revision s \<noteq> 0" "sn_payloads s = payloads" using f valid_snapshot_revision [of codec s] by auto
  ultimately show ?thesis using assms by (simp add: verify_evidence_iff)
qed

end
