(* ===== verification/TaskStoreLaws.thy ===== *)
theory TaskStoreLaws
  imports TaskStore TaskStateInv
begin

text \<open>
  The contract of a store of task snapshots (the trait \<open>TaskStateStore\<close>) as a locale over the
  snapshots a store shows for each task, and the interpretation on the in-process store. What a
  run of operations shows for a task is a chain of valid successors.
\<close>

section \<open>Chains of snapshots\<close>

inductive snapshot_chain :: "'n task_codec \<Rightarrow> 'n task_snapshot option \<Rightarrow> 'n task_snapshot option \<Rightarrow> bool" for codec where
  snapshots_refl: "snapshot_chain codec v v"
| snapshots_step: "snapshot_chain codec v w \<Longrightarrow> validate_snapshot_successor codec s w = Ok () \<Longrightarrow> snapshot_chain codec v (Some s)"

lemma snapshot_chain_trans:
  assumes "snapshot_chain codec v w" and "snapshot_chain codec u v"
  shows "snapshot_chain codec u w"
  using assms by induction (auto intro: snapshots_step)

text \<open>What a later snapshot of a task keeps.\<close>

definition later_snapshot :: "'n task_snapshot \<Rightarrow> 'n task_snapshot \<Rightarrow> bool" where
  "later_snapshot old s \<longleftrightarrow>
     unat (sn_revision old) < unat (sn_revision s) \<and> sn_identity s = sn_identity old \<and>
     sn_compatibility s = sn_compatibility old \<and> prefix (sn_settled_steps old) (sn_settled_steps s) \<and>
     (\<forall>r. amount (tbr_charged (sn_budget old)) r \<le> amount (tbr_charged (sn_budget s)) r) \<and>
     tbr_revision (sn_budget old) \<le> tbr_revision (sn_budget s) \<and>
     (\<forall>c. sn_cursor old = Some c \<longrightarrow> (\<exists>c'. sn_cursor s = Some c' \<and> cur_seq c \<le> cur_seq c'))"

lemma later_snapshot_trans: "later_snapshot a b \<Longrightarrow> later_snapshot b c \<Longrightarrow> later_snapshot a c"
  unfolding later_snapshot_def
  by (auto intro: prefix_order.trans order_trans less_trans) (meson order_trans)+

lemma successor_later:
  assumes "validate_snapshot_successor codec s (Some old) = Ok ()"
  shows "later_snapshot old s"
  using assms
  by (auto simp: validate_snapshot_successor_def validate_from_def later_snapshot_def checked_add_Some_iff
      cursor_regresses_def list_ex_iff not_less all_resources_complete split: option.splits)

lemma snapshot_chain_from:
  assumes "snapshot_chain codec v w" and "v = Some old"
  shows "\<exists>s. w = Some s \<and> (s = old \<or> later_snapshot old s)"
  using assms
proof (induction rule: snapshot_chain.induct)
  case (snapshots_step v w s)
  then show ?case using successor_later [of codec s] later_snapshot_trans by blast
qed simp

section \<open>The contract\<close>

definition snapshot_revision :: "'n task_snapshot option \<Rightarrow> u64" where
  "snapshot_revision v = (case v of None \<Rightarrow> 0 | Some s \<Rightarrow> sn_revision s)"

locale task_store_laws =
  fixes store :: "('n, 's) task_store"
    and codec :: "'n task_codec"
    and shows_task :: "'s \<Rightarrow> task_id \<Rightarrow> 'n task_snapshot option"
  assumes load_keeps: "tst_load store identity s = (r, s') \<Longrightarrow> shows_task s' = shows_task s"
    and load_Ok: "tst_load store identity s = (Ok v, s') \<Longrightarrow>
      v = shows_task s (id_task_id identity) \<and> (\<forall>sn. v = Some sn \<longrightarrow> sn_identity sn = identity)"
    and exchange_Ok: "tst_compare_exchange store expected sn s = (Ok c, s') \<Longrightarrow>
      shows_task s' = (shows_task s)(id_task_id (sn_identity sn) \<mapsto> sn) \<and>
      (shows_task s (id_task_id (sn_identity sn)) = Some sn \<or>
       expected = snapshot_revision (shows_task s (id_task_id (sn_identity sn))) \<and>
       validate_snapshot_successor codec sn (shows_task s (id_task_id (sn_identity sn))) = Ok ())"
    and exchange_any: "tst_compare_exchange store expected sn s = (w, s') \<Longrightarrow>
      shows_task s' = shows_task s \<or>
      shows_task s' = (shows_task s)(id_task_id (sn_identity sn) \<mapsto> sn) \<and>
      validate_snapshot_successor codec sn (shows_task s (id_task_id (sn_identity sn))) = Ok ()"

inductive task_store_run :: "('n, 's) task_store \<Rightarrow> 's \<Rightarrow> 's \<Rightarrow> bool" for store where
  tasks_refl: "task_store_run store s s"
| tasks_load: "task_store_run store s t \<Longrightarrow> task_store_run store s (snd (tst_load store identity t))"
| tasks_exchange: "task_store_run store s t \<Longrightarrow> task_store_run store s (snd (tst_compare_exchange store expected sn t))"

context task_store_laws begin

lemma exchange_chain:
  "snapshot_chain codec (shows_task s task) (shows_task (snd (tst_compare_exchange store expected sn s)) task)"
  using exchange_any [of expected sn s "fst (tst_compare_exchange store expected sn s)"
      "snd (tst_compare_exchange store expected sn s)"]
  by (auto intro: snapshots_refl snapshots_step [OF snapshots_refl])

lemma run_chain:
  assumes "task_store_run store s t"
  shows "snapshot_chain codec (shows_task s task) (shows_task t task)"
  using assms
proof induction
  case (tasks_load s t identity)
  then show ?case using load_keeps [of identity t] by (metis prod.collapse)
next
  case (tasks_exchange s t expected sn)
  then show ?case using exchange_chain snapshot_chain_trans by blast
qed (rule snapshots_refl)

text \<open>Of two writers that expect the same revision only one can be applied.\<close>

lemma writers_conflict:
  assumes a: "tst_compare_exchange store expected sn s = (Ok c, s1)" and "task_store_run store s1 s2"
    and b: "tst_compare_exchange store expected sn' s2 = (Ok c', s3)"
    and same: "id_task_id (sn_identity sn') = id_task_id (sn_identity sn)"
    and rev: "sn_revision sn' = sn_revision sn"
  shows "sn' = sn"
proof -
  let ?t = "id_task_id (sn_identity sn)"
  have v: "shows_task s1 ?t = Some sn" using exchange_Ok [OF a] by simp
  with snapshot_chain_from [OF run_chain [OF assms(2)]] obtain w where w: "shows_task s2 ?t = Some w"
    and l: "w = sn \<or> later_snapshot sn w" by blast
  from exchange_Ok [OF b] w same have "w = sn' \<or> validate_snapshot_successor codec sn' (Some w) = Ok ()" by auto
  then have "w = sn' \<or> later_snapshot w sn'" using successor_later by blast
  with l rev show ?thesis by (auto simp: later_snapshot_def)
qed

end

section \<open>The in-process store\<close>

definition memory_view :: "'n memory_store \<Rightarrow> task_id \<Rightarrow> 'n task_snapshot option" where
  "memory_view m = map_of (mst_values m)"

lemma memory_checks_cases:
  assumes "memory_checks codec expected sn m = Ok c"
  shows "(c = AlreadyPresent \<and> memory_view m (id_task_id (sn_identity sn)) = Some sn) \<or>
    (c = Applied \<and> expected = snapshot_revision (memory_view m (id_task_id (sn_identity sn))) \<and>
     validate_snapshot_successor codec sn (memory_view m (id_task_id (sn_identity sn))) = Ok () \<and>
     (memory_view m (id_task_id (sn_identity sn)) = None \<longrightarrow> length (mst_values m) < mst_max_tasks m))"
  using assms
  by (auto simp: memory_checks_def memory_view_def snapshot_revision_def Let_def split: if_splits)

interpretation memory: task_store_laws "memory_store codec" codec memory_view for codec
proof
  fix identity :: budget_identity and s s' :: "'a memory_store" and r
  assume "tst_load (memory_store codec) identity s = (r, s')"
  then show "memory_view s' = memory_view s" by (simp add: memory_store_def memory_load_def)
next
  fix identity :: budget_identity and s s' :: "'a memory_store" and v
  assume "tst_load (memory_store codec) identity s = (Ok v, s')"
  then show "v = memory_view s (id_task_id identity) \<and> (\<forall>sn. v = Some sn \<longrightarrow> sn_identity sn = identity)"
    by (auto simp: memory_store_def memory_load_def memory_view_def Let_def)
next
  fix expected and sn :: "'a task_snapshot" and s s' :: "'a memory_store" and c
  let ?t = "id_task_id (sn_identity sn)"
  assume "tst_compare_exchange (memory_store codec) expected sn s = (Ok c, s')"
  then have c: "memory_checks codec expected sn s = Ok c"
    and s': "s' = (if c = Applied then s\<lparr>mst_values := bt_insert ?t sn (mst_values s)\<rparr> else s)"
    by (auto simp: memory_store_def memory_compare_exchange_def Let_def split: if_splits)
  from memory_checks_cases [OF c] s'
  show "memory_view s' = (memory_view s)(?t \<mapsto> sn) \<and>
      (memory_view s ?t = Some sn \<or> expected = snapshot_revision (memory_view s ?t) \<and>
       validate_snapshot_successor codec sn (memory_view s ?t) = Ok ())"
    by (auto simp: memory_view_def fun_upd_idem_iff)
next
  fix expected and sn :: "'a task_snapshot" and s s' :: "'a memory_store" and r
  let ?t = "id_task_id (sn_identity sn)"
  assume "tst_compare_exchange (memory_store codec) expected sn s = (r, s')"
  then have r: "r = memory_checks codec expected sn s"
    and s': "s' = (if r = Ok Applied then s\<lparr>mst_values := bt_insert ?t sn (mst_values s)\<rparr> else s)"
    by (auto simp: memory_store_def memory_compare_exchange_def Let_def)
  show "memory_view s' = memory_view s \<or> memory_view s' = (memory_view s)(?t \<mapsto> sn) \<and>
      validate_snapshot_successor codec sn (memory_view s ?t) = Ok ()"
    using memory_checks_cases [of codec expected sn s Applied] r s' by (auto simp: memory_view_def)
qed

text \<open>The capacity, and the keys.\<close>

definition memory_ok :: "'n memory_store \<Rightarrow> bool" where
  "memory_ok m \<longleftrightarrow> bt_wf (mst_values m) \<and> length (mst_values m) \<le> mst_max_tasks m \<and>
     (\<forall>task sn. memory_view m task = Some sn \<longrightarrow> id_task_id (sn_identity sn) = task)"

lemma length_bt_insert:
  "bt_wf m \<Longrightarrow> length (bt_insert k v m) = (if map_of m k = None then Suc (length m) else length m)"
proof (induction k v m rule: bt_insert.induct)
  case (2 k v k' v' m)
  then show ?case by (auto simp: bt_wf_Cons map_of_eq_None_iff)
qed simp

lemma memory_ok_exchange:
  assumes "memory_ok m"
  shows "memory_ok (snd (memory_compare_exchange codec expected sn m))"
proof (cases "memory_checks codec expected sn m = Ok Applied")
  case True
  from memory_checks_cases [OF this] assms show ?thesis
    by (auto simp: memory_ok_def memory_compare_exchange_def Let_def memory_view_def length_bt_insert True)
qed (use assms in \<open>simp add: memory_compare_exchange_def Let_def\<close>)

lemma memory_ok_run:
  assumes "task_store_run (memory_store codec) s t" and "memory_ok s"
  shows "memory_ok t \<and> mst_max_tasks t = mst_max_tasks s"
  using assms
proof induction
  case (tasks_exchange s t expected sn)
  then show ?case using memory_ok_exchange [of t codec expected sn]
    by (simp add: memory_store_def) (simp add: memory_compare_exchange_def Let_def)
qed (simp_all add: memory_store_def memory_load_def)

lemma memory_exchange_revision:
  assumes "memory_compare_exchange codec expected sn s = (Ok c, s')"
  shows "sn_revision sn = expected + 1"
proof -
  have "memory_checks codec expected sn s = Ok c"
    using assms by (simp add: memory_compare_exchange_def Let_def)
  then show ?thesis by (auto simp: memory_checks_def checked_add_def split: if_splits)
qed

end
