(* ===== verification/TaskRuntime.thy ===== *)
theory TaskRuntime
  imports TaskStore
begin

text \<open>
  Host continuation of a task, \<open>crates/task/runtime/src/lib.rs\<close>: admission of one operation at a
  time, the checks before a turn may run, and the publication of the next snapshot. The host's
  services are a record of functions over the state \<open>'w\<close> of the world, so whatever happens while
  an operation awaits one of them (a cancellation, another client of a store) is covered; the
  texts \<open>json!\<close> renders are a parameter.
\<close>

section \<open>Requests and errors\<close>

datatype task_intent =
    IntentStart string
  | IntentContinue string
  | IntentReply turn_id string

record task_resume_request =
  trq_expected_revision :: u64
  trq_compatibility :: task_compatibility
  trq_host_limits :: budget_limits
  trq_run_limits :: budget_limits
  trq_intent :: task_intent

datatype coordinator_error =
    CeUnavailable
  | CeMissing
  | CeInvalidIntent
  | CeDenied string
  | CeCancelled
  | CeWorkerLost
  | CeRuntimeRequired
  | CeState task_state_error
  | CeStore task_store_error
  | CeBudget execution_error
  | CeSession session_persistence_error

datatype 'n publish_error =
    PuEvidence coordinator_error
  | PuPayload string
  | PuCommit "'n task_snapshot" task_store_error

record ('t, 'e, 'n) task_run_result =
  trr_turn :: "('t, 'e) outcome"
  trr_state :: "('n task_snapshot, 'n publish_error) outcome"

text \<open>The values of the two \<open>json!\<close> messages.\<close>

datatype continuation_message =
    TaskContinueV1 task_id "turn_id option" string
  | ReferenceReplyV1 task_id turn_id string

record turn_request =
  tq_session_id :: session_id
  tq_agent_key :: string
  tq_message :: string
  tq_lease :: execution_lease
  tq_run_limits :: budget_limits

record ('n, 'v, 'h, 't, 'e, 'w) coordinator_config =
  cc_identity :: budget_identity
  cc_start_turn :: "turn_request \<Rightarrow> 'w \<Rightarrow> ('h, 'e) outcome \<times> 'w"
  cc_cancel_turn :: "'h \<Rightarrow> 'w \<Rightarrow> 'w"
  cc_wait_turn :: "'h \<Rightarrow> 'w \<Rightarrow> ('t, 'e) outcome \<times> 'w"
  cc_session_load :: "session_id \<Rightarrow> 'w \<Rightarrow> ('v session_event list, session_persistence_error) outcome \<times> 'w"
  cc_budgets :: "'w checkpoint_store"
  cc_states :: "('n, 'w) task_store"
  cc_policy :: "'n task_snapshot \<Rightarrow> task_resume_request \<Rightarrow> 'w \<Rightarrow> (unit, string) outcome \<times> 'w"
  cc_reducer :: "'n task_snapshot \<Rightarrow> 'v session_event list \<Rightarrow> ((string, 'n json) btree_map, string) outcome"
  cc_codec :: "'n task_codec"
  cc_render :: "continuation_message \<Rightarrow> string"

text \<open>The flag and the turn handle of \<open>Cancellation\<close>, cells of the world.\<close>

record ('h, 'w) cancellation_cells =
  ca_requested :: "'w \<Rightarrow> bool"
  ca_turn :: "'w \<Rightarrow> 'h option"
  ca_request :: "'w \<Rightarrow> 'w"
  ca_set_turn :: "'h option \<Rightarrow> 'w \<Rightarrow> 'w"

definition cancel_task :: "('n, 'v, 'h, 't, 'e, 'w) coordinator_config \<Rightarrow> ('h, 'w) cancellation_cells \<Rightarrow> 'w \<Rightarrow> 'w" where
  "cancel_task config cells w =
     (let w = ca_request cells w in
      (case ca_turn cells w of None \<Rightarrow> w | Some canceller \<Rightarrow> cc_cancel_turn config canceller w))"

definition check_cancelled :: "('h, 'w) cancellation_cells \<Rightarrow> 'w \<Rightarrow> (unit, coordinator_error) outcome" where
  "check_cancelled cells w = reject_if (ca_requested cells w) CeCancelled"

section \<open>Admission\<close>

record coordinator_control =
  cn_accepting :: bool
  cn_active :: bool

definition coordinator_new :: coordinator_control where
  "coordinator_new = \<lparr>cn_accepting = True, cn_active = False\<rparr>"

text \<open>The synchronous part of \<open>start\<close>; the argument says whether a Tokio runtime is present.\<close>

definition coordinator_start ::
    "bool \<Rightarrow> coordinator_control \<Rightarrow> (unit, coordinator_error) outcome \<times> coordinator_control" where
  "coordinator_start has_runtime c =
     (if \<not> has_runtime then (Err CeRuntimeRequired, c)
      else if \<not> cn_accepting c \<or> cn_active c then (Err CeUnavailable, c)
      else (Ok (), c\<lparr>cn_active := True\<rparr>))"

text \<open>\<open>Drop for Active\<close>, and the two steps of \<open>close\<close>.\<close>

definition coordinator_done :: "coordinator_control \<Rightarrow> coordinator_control" where
  "coordinator_done c = c\<lparr>cn_active := False\<rparr>"

definition coordinator_close_begin :: "coordinator_control \<Rightarrow> coordinator_control" where
  "coordinator_close_begin c = c\<lparr>cn_accepting := False\<rparr>"

definition coordinator_close_ready :: "coordinator_control \<Rightarrow> bool" where
  "coordinator_close_ready c \<longleftrightarrow> \<not> cn_active c"

section \<open>Execution\<close>

definition task_message ::
    "(continuation_message \<Rightarrow> string) \<Rightarrow> 'n task_snapshot \<Rightarrow> task_intent \<Rightarrow> (string, coordinator_error) outcome" where
  "task_message render s intent =
     and_then (case (sn_phase s, intent) of
         (PhCreated, IntentStart text) \<Rightarrow> Ok text
       | (PhCheckpointed, IntentContinue instruction) \<Rightarrow> Ok instruction
       | (PhWaitingForInput _, IntentReply reply_to answer) \<Rightarrow>
           if map_option cur_turn_id (sn_cursor s) = Some reply_to then Ok answer else Err CeInvalidIntent
       | _ \<Rightarrow> Err CeInvalidIntent) (\<lambda>text.
     and_then (reject_if (is_blank text \<or> length text > 64 * 1024) CeInvalidIntent) (\<lambda>_.
     Ok (case intent of
           IntentStart text \<Rightarrow> text
         | IntentContinue instruction \<Rightarrow>
             render (TaskContinueV1 (id_task_id (sn_identity s)) (map_option cur_turn_id (sn_cursor s)) instruction)
         | IntentReply reply_to answer \<Rightarrow>
             render (ReferenceReplyV1 (id_task_id (sn_identity s)) reply_to answer))))"

text \<open>\<open>publish\<close>: first the evidence, then the reducer, the capture and the store.\<close>

definition publish_evidence ::
    "('n, 'v, 'h, 't, 'e, 'w) coordinator_config \<Rightarrow> 'w
       \<Rightarrow> (budget_checkpoint \<times> 'v session_event list, coordinator_error) outcome \<times> 'w" where
  "publish_evidence config w =
     await (cs_load (cc_budgets config) (cc_identity config) w) (CeBudget \<circ> ExStore) (\<lambda>loaded w.
     await (ok_or loaded (CeBudget ExMissing), w) id (\<lambda>budget w.
     await (cc_session_load config (id_session_id (cc_identity config)) w) CeSession (\<lambda>history w.
     await (map_err CeBudget (verify_checkpoint_history budget history), w) id (\<lambda>_ w.
     if requires_recovery budget then (Err (CeBudget ExRecoveryRequired), w)
     else (Ok (budget, history), w)))))"

definition publish ::
    "('n, 'v, 'h, 't, 'e, 'w) coordinator_config \<Rightarrow> 'n task_snapshot \<Rightarrow> 'w
       \<Rightarrow> ('n task_snapshot, 'n publish_error) outcome \<times> 'w" where
  "publish config previous w =
     await (publish_evidence config w) PuEvidence (\<lambda>(budget, history) w.
     await (map_err PuPayload (cc_reducer config previous history), w) id (\<lambda>payload w.
     await (map_err (PuEvidence \<circ> CeState)
         (capture (cc_codec config) (sn_revision previous) (sn_compatibility previous) payload budget history), w) id
       (\<lambda>candidate w.
     await (tst_compare_exchange (cc_states config) (sn_revision previous) candidate w) (PuCommit candidate) (\<lambda>_ w.
     (Ok candidate, w)))))"

text \<open>The turn itself, with the canceller installed while it runs.\<close>

definition drive_turn ::
    "('n, 'v, 'h, 't, 'e, 'w) coordinator_config \<Rightarrow> ('h, 'w) cancellation_cells \<Rightarrow> turn_request \<Rightarrow> 'w
       \<Rightarrow> ('t, 'e) outcome \<times> 'w" where
  "drive_turn config cells request w =
     (case cc_start_turn config request w of
        (Ok turn, w) \<Rightarrow>
          let w = ca_set_turn cells (Some turn) w;
              w = (if ca_requested cells w then cc_cancel_turn config turn w else w);
              (result, w) = cc_wait_turn config turn w in
          (result, ca_set_turn cells None w)
      | (Err e, w) \<Rightarrow> (Err e, w)
      | (Panic, w) \<Rightarrow> (Panic, w))"

text \<open>
  The part of \<open>execute\<close> before the turn: the snapshot, and the request of the turn. The instants of
  the clock and the new execution id are arguments.
\<close>

definition prepare_turn ::
    "('n, 'v, 'h, 't, 'e, 'w) coordinator_config \<Rightarrow> ('h, 'w) cancellation_cells \<Rightarrow> task_resume_request
       \<Rightarrow> duration \<Rightarrow> duration \<Rightarrow> budget_execution_id \<Rightarrow> 'w
       \<Rightarrow> ('n task_snapshot \<times> turn_request, coordinator_error) outcome \<times> 'w" where
  "prepare_turn config cells request now now' new_id w =
     (let identity = cc_identity config in
      await (check_cancelled cells w, w) id (\<lambda>_ w.
      await (tst_load (cc_states config) identity w) CeStore (\<lambda>loaded w.
      await (ok_or loaded CeMissing, w) id (\<lambda>snapshot w.
      await (task_message (cc_render config) snapshot (trq_intent request), w) id (\<lambda>text w.
      await (cs_load (cc_budgets config) identity w) (CeBudget \<circ> ExStore) (\<lambda>loaded w.
      await (ok_or loaded (CeBudget ExMissing), w) id (\<lambda>budget w.
      await (cc_session_load config (id_session_id identity) w) CeSession (\<lambda>history w.
      await (map_err CeState (verify_evidence (cc_codec config) snapshot identity (trq_expected_revision request)
          (trq_compatibility request) budget history), w) id (\<lambda>_ w.
      await (cc_policy config snapshot request w) CeDenied (\<lambda>_ w.
      await (check_cancelled cells w, w) id (\<lambda>_ w.
      await (acquire (cc_budgets config)
          \<lparr>cx_identity = identity, cx_revision = cp_revision budget, cx_confirmed_anchor = cp_anchor budget,
           cx_host_limits = trq_host_limits request\<rparr> now now' new_id w) CeBudget (\<lambda>lease w.
      await (cc_session_load config (id_session_id identity) w) CeSession (\<lambda>history w.
      await (map_err CeBudget (verify_history lease history), w) id (\<lambda>_ w.
      await (tst_load (cc_states config) identity w) CeStore (\<lambda>current w.
      await (reject_if (current \<noteq> Some snapshot) (CeState TeEvidenceMismatch), w) id (\<lambda>_ w.
      await (check_cancelled cells w, w) id (\<lambda>_ w.
      (Ok (snapshot, \<lparr>tq_session_id = id_session_id identity, tq_agent_key = id_agent_key identity,
         tq_message = text, tq_lease = lease, tq_run_limits = trq_run_limits request\<rparr>), w))))))))))))))))))"

definition execute_task ::
    "('n, 'v, 'h, 't, 'e, 'w) coordinator_config \<Rightarrow> ('h, 'w) cancellation_cells \<Rightarrow> task_resume_request
       \<Rightarrow> duration \<Rightarrow> duration \<Rightarrow> budget_execution_id \<Rightarrow> 'w
       \<Rightarrow> (('t, 'e, 'n) task_run_result, coordinator_error) outcome \<times> 'w" where
  "execute_task config cells request now now' new_id w =
     await (prepare_turn config cells request now now' new_id w) id (\<lambda>(snapshot, turn_request) w.
     let (turn, w) = drive_turn config cells turn_request w;
         (state, w) = publish config snapshot w in
     (Ok \<lparr>trr_turn = turn, trr_state = state\<rparr>, w))"

end
