(* ===== verification/TaskProps.thy ===== *)
theory TaskProps
  imports TaskStoreLaws TaskRuntime ExecutionProps
begin

text \<open>
  The properties of task state and of the coordinator that continues tasks, with their witnesses.
\<close>

section \<open>Assessment\<close>

text \<open>C31: The assessment of a history reports exactly the open calls: when a history is accepted,
  its unresolved operations are the model and tool calls without a later result, in the order of
  the log; the settled steps are the steps of calls in first-seen order without the steps that
  still wait; and the boundary is open exactly when the last event is not terminal. An accepted
  history has the Session's physical addresses, calls with different names, and results that
  each answer one earlier call of their own turn.\<close>

theorem assessment_reports_open_calls:
  assumes "assess_task_history identity history = Ok a"
  shows "ha_unresolved a = open_calls identity history \<and>
    ha_settled_steps a =
      filter (\<lambda>s. s \<notin> set (List.map_filter uo_step_id (open_calls identity history))) (steps_of identity history) \<and>
    ha_boundary a = (if history = [] then BoundaryEmpty else if is_terminal (last history) then BoundaryClosed
      else BoundaryOpen (se_turn_id (last history))) \<and>
    physical_log (id_session_id identity) history \<and> calls_unique identity history \<and> results_answer identity history"
  using assess_task_history_Ok [OF assms] by (simp add: assessment_def)

definition sample_tool_call :: "unit tool_call" where
  "sample_tool_call = \<lparr>tl_operation = None,
     tl_action = Some \<lparr>ax_decision = \<lparr>dx_task_id = ''task'', dx_step_id = ''step''\<rparr>, ax_action_index = 0,
       ax_provider_call_id = None\<rparr>,
     tl_id = ''call'', tl_name = ''tool'', tl_arguments = ()\<rparr>"

definition sample_open_turn :: "unit session_event list" where
  "sample_open_turn = [sample_event ''u'' 0 (UserMessage ''go''), sample_event ''x'' 1 (ToolCallEvent sample_tool_call)]"

lemma sample_texts:
  "valid_text ''u'' = Ok ()" "valid_text ''x'' = Ok ()" "valid_text ''y'' = Ok ()" "valid_text ''turn'' = Ok ()"
  "valid_text ''call'' = Ok ()" "valid_text ''step'' = Ok ()" "valid_text ''task'' = Ok ()"
  "valid_text ''session'' = Ok ()" "valid_text ''agent'' = Ok ()"
  by (simp_all add: valid_text_def is_blank_def is_white_space3_def)

definition sample_opened :: history_scan where
  "sample_opened = scan_start\<lparr>hs_event_ids := [''u''], hs_turn_ids := [''turn''], hs_current := Some ''turn'', hs_closed := False\<rparr>"

lemma sample_open_step: "scan_event sample_identity (0, sample_event ''u'' 0 (UserMessage ''go'')) scan_start = Ok sample_opened"
  by (simp add: scan_event_def scan_address_def scan_turn_def scan_kind_def sample_event_def sample_identity_def
      sample_texts is_user_def scan_start_def sample_opened_def)

lemma sample_call_step:
  "\<exists>h. scan_event sample_identity (1, sample_event ''x'' 1 (ToolCallEvent sample_tool_call)) sample_opened = Ok h"
proof -
  have "tool_step sample_identity sample_tool_call = Some ''step''"
    by (simp add: tool_step_def sample_identity_def sample_tool_call_def)
  then show ?thesis
    by (simp add: scan_event_def scan_address_def scan_turn_def scan_kind_def sample_event_def is_user_def
        sample_texts sample_opened_def scan_start_def record_call_def sample_tool_call_def MAX_TASK_STEPS_def)
      (simp add: sample_identity_def)
qed

theorem assessment_reports_open_calls_witness:
  "\<exists>a. assess_task_history sample_identity sample_open_turn = Ok a \<and> map uo_call_id (ha_unresolved a) = [''call''] \<and>
     ha_settled_steps a = [] \<and> ha_boundary a = BoundaryOpen ''turn''"
proof -
  obtain h where "scan_event sample_identity (1, sample_event ''x'' 1 (ToolCallEvent sample_tool_call)) sample_opened = Ok h"
    using sample_call_step ..
  with sample_open_step
  have "for_each (scan_event sample_identity) (enumerate 0 sample_open_turn) scan_start = Ok h"
    by (simp add: sample_open_turn_def)
  then have "\<exists>a. assess_task_history sample_identity sample_open_turn = Ok a"
    by (simp add: assess_task_history_def MAX_TASK_HISTORY_EVENTS_def sample_identity_def sample_texts)
      (simp add: sample_open_turn_def)
  then obtain a where a: "assess_task_history sample_identity sample_open_turn = Ok a" ..
  have "[0..<Suc (Suc 0)] = [0, 1]" by (simp add: upt_rec)
  then have o: "open_calls sample_identity sample_open_turn =
      [operation_at (sample_event ''x'' 1 (ToolCallEvent sample_tool_call)) (ToolOperation, ''call'', Some ''step'')]"
    by (simp add: open_calls_def sample_open_turn_def List.map_filter_def open_at_def call_of_def sample_event_def
        sample_tool_call_def tool_step_def sample_identity_def)
  have st: "steps_of sample_identity sample_open_turn = [''step'']"
    by (simp add: steps_of_def sample_open_turn_def List.map_filter_def call_of_def sample_event_def
        sample_tool_call_def tool_step_def sample_identity_def)
  from assessment_reports_open_calls [OF a] have p: "ha_unresolved a = open_calls sample_identity sample_open_turn"
    "ha_settled_steps a = filter (\<lambda>s. s \<notin> set (List.map_filter uo_step_id (open_calls sample_identity sample_open_turn)))
       (steps_of sample_identity sample_open_turn)"
    "ha_boundary a = (if sample_open_turn = [] then BoundaryEmpty
       else if is_terminal (last sample_open_turn) then BoundaryClosed else BoundaryOpen (se_turn_id (last sample_open_turn)))"
    by blast+
  have "last sample_open_turn = sample_event ''x'' 1 (ToolCallEvent sample_tool_call)" "sample_open_turn \<noteq> []"
    by (simp_all add: sample_open_turn_def)
  then have "ha_boundary a = BoundaryOpen ''turn''" by (simp add: p(3)) (simp add: sample_event_def is_terminal_def)
  moreover have "map uo_call_id (ha_unresolved a) = [''call'']" unfolding p(1) o operation_at_def by simp
  moreover have "ha_settled_steps a = []" unfolding p(2) o st operation_at_def by (simp add: List.map_filter_def)
  ultimately show ?thesis using a by (intro exI [of _ a] conjI)
qed

section \<open>Payloads\<close>

text \<open>The traversal of the payloads terminates and accepts exactly the bounded ones: checking the
  payloads with the explicit stack succeeds if and only if they have at most 65536 values in all
  and none is nested more than 64 deep; the limits on widths and on the stack never reject more.\<close>

theorem payload_check_iff:
  "scan_values (rev (map (\<lambda>v. (v, 0)) payloads)) 0 = Ok () \<longleftrightarrow>
     sum_list (map node_count payloads) \<le> 65536 \<and> list_all (\<lambda>v. nesting v \<le> 64) payloads"
proof -
  have "stack_nodes (rev (map (\<lambda>v. (v, 0)) payloads)) = sum_list (map node_count payloads)"
    by (simp add: rev_map [symmetric] comp_def sum_list_rev)
  then show ?thesis by (simp add: scan_values_iff list_all_iff)
qed

section \<open>Snapshots\<close>

text \<open>C32: Snapshots captured along a growing history succeed each other: a snapshot captured from a
  later image of the same budget, which charges no less, and a history that extends the first
  passes every check the stores make of a successor, with the settled steps of the first as a
  prefix and a cursor that does not move back; and each captured snapshot verifies against its
  own evidence.\<close>

theorem captures_succeed_each_other:
  assumes "capture codec expected compatibility payloads budget history = Ok s"
    and "capture codec (sn_revision s) compatibility payloads' budget' (history @ events) = Ok s'"
    and "image_chain (Some budget) (Some budget')"
    and "\<forall>r. amount (br_charged (cp_report budget)) r \<le> amount (br_charged (cp_report budget')) r"
  shows "validate_snapshot_successor codec s' (Some s) = Ok () \<and>
    verify_evidence codec s (br_identity (cp_report budget)) (sn_revision s) compatibility budget history = Ok () \<and>
    verify_evidence codec s' (br_identity (cp_report budget')) (sn_revision s') compatibility budget' (history @ events) = Ok ()"
  using captures_succeed [OF assms] capture_verifies [OF assms(1)] capture_verifies [OF assms(2)] by blast

definition sample_task_turn :: "unit session_event list" where
  "sample_task_turn = [sample_event ''u'' 0 (UserMessage ''go''),
     sample_event ''x'' 1 (TaskRunReportEvent sample_turn_report), sample_event ''y'' 2 (Done DoneCompleted None)]"

definition sample_task_image :: budget_checkpoint where
  "sample_task_image = ledger_image (le_task sample_lease) (Some (cursor_of (last sample_task_turn))) 3 sample_settled"

definition sample_codec :: "unit task_codec" where
  "sample_codec = \<lparr>tkc_encode = (\<lambda>_. ''{}''), tkc_decode = (\<lambda>_. None)\<rparr>"

definition sample_compatibility :: task_compatibility where
  "sample_compatibility = \<lparr>tcm_agent_revision = ''agent'', tcm_policy_revision = ''x'', tcm_tool_revisions = [],
     tcm_payload_schemas = []\<rparr>"

definition sample_snapshot :: "unit task_snapshot" where
  "sample_snapshot = \<lparr>sn_version = SnapshotV1, sn_revision = 1, sn_identity = sample_identity,
     sn_compatibility = sample_compatibility, sn_cursor = None,
     sn_budget = \<lparr>tbr_revision = 1, tbr_charged = default_amounts\<rparr>, sn_phase = PhCreated, sn_settled_steps = [],
     sn_payloads = []\<rparr>"

definition sample_next_snapshot :: "unit task_snapshot" where
  "sample_next_snapshot = sample_snapshot\<lparr>sn_revision := 2,
     sn_cursor := Some (cursor_of (last sample_task_turn)),
     sn_budget := \<lparr>tbr_revision = 3, tbr_charged = default_amounts\<rparr>, sn_phase := PhCompleted\<rparr>"

lemma sample_snapshot_valid: "validate_snapshot sample_codec sample_snapshot = Ok ()"
  by (simp add: validate_snapshot_def sample_snapshot_def sample_compatibility_def sample_codec_def sample_identity_def
      sample_texts MAX_TASK_STEPS_def MAX_TASK_SNAPSHOT_BYTES_def inconsistent_stop_def bad_question_def)

lemma sample_base_verified: "verify_checkpoint_history sample_base ([] :: unit session_event list) = Ok ()"
  using sample_verified by (simp add: verify_history_def sample_lease_def)

lemma sample_capture: "capture sample_codec 0 sample_compatibility [] sample_base ([] :: unit session_event list) = Ok sample_snapshot"
proof -
  have "assess_task_history sample_identity ([] :: unit session_event list) =
      Ok \<lparr>ha_boundary = BoundaryEmpty, ha_settled_steps = [], ha_unresolved = []\<rparr>"
    by (simp add: assess_task_history_def sample_identity_def sample_texts assessment_of_def scan_start_def
        List.map_filter_def MAX_TASK_HISTORY_EVENTS_def)
  moreover have "checked_add 0 1 = Some (1 :: u64)" by (simp add: checked_add_def)
  moreover have "br_charged (cp_report sample_base) = default_amounts"
    by (simp add: sample_base_def ledger_image_def snapshot_def default_state_def)
  ultimately show ?thesis
    using sample_snapshot_valid sample_base_verified
    by (simp add: capture_def sample_base_facts requires_recovery_def history_phase_def sample_snapshot_def)
qed

lemma sample_report_run:
  "tr_budget sample_turn_report = (snapshot (le_task sample_lease) sample_settled)\<lparr>br_run :=
     br_run (tr_budget sample_turn_report)\<rparr>"
  "\<exists>r. br_run (tr_budget sample_turn_report) = Some r \<and> rr_turn_id r = Some ''turn'' \<and>
     mt_confirmed (rr_metrics r) = default_counts"
  by (simp_all add: sample_turn_report_def default_metrics_def)

lemma sample_report_step:
  "\<exists>h. scan_event sample_identity (1, sample_event ''x'' 1 (TaskRunReportEvent sample_turn_report)) sample_opened = Ok h \<and>
     h = sample_opened\<lparr>hs_event_ids := [''x'', ''u''], hs_report_seen := True\<rparr>"
proof -
  obtain r where r: "br_run (tr_budget sample_turn_report) = Some r" "rr_turn_id r = Some ''turn''"
    "mt_confirmed (rr_metrics r) = default_counts" using sample_report_run(2) by blast
  have "id_session_id (br_identity (tr_budget sample_turn_report)) = ''session''"
    by (simp add: sample_turn_report_def snapshot_def sample_lease_task) (simp add: sample_identity_def)
  then show ?thesis
    using r
    by (simp add: scan_event_def scan_address_def scan_turn_def scan_kind_def sample_event_def is_user_def
        sample_texts sample_opened_def scan_start_def sample_identity_def)
qed

lemma sample_done_step:
  "scan_event sample_identity (2, sample_event ''y'' 2 (Done DoneCompleted None))
     (sample_opened\<lparr>hs_event_ids := [''x'', ''u''], hs_report_seen := True\<rparr>) =
   Ok (sample_opened\<lparr>hs_event_ids := [''y'', ''x'', ''u''], hs_report_seen := True, hs_closed := True\<rparr>)"
  by (simp add: scan_event_def scan_address_def scan_turn_def scan_kind_def sample_event_def is_user_def
      sample_texts sample_opened_def scan_start_def is_terminal_def) (simp add: sample_identity_def)

lemma sample_task_assessment:
  "assess_task_history sample_identity sample_task_turn =
     Ok \<lparr>ha_boundary = BoundaryClosed, ha_settled_steps = [], ha_unresolved = []\<rparr>"
proof -
  have "for_each (scan_event sample_identity) (enumerate 0 sample_task_turn) scan_start =
      Ok (sample_opened\<lparr>hs_event_ids := [''y'', ''x'', ''u''], hs_report_seen := True, hs_closed := True\<rparr>)"
    using sample_open_step sample_report_step sample_done_step
    by (simp add: sample_task_turn_def numeral_2_eq_2)
  moreover have "length sample_task_turn = 3" by (simp add: sample_task_turn_def)
  ultimately show ?thesis
    by (simp add: assess_task_history_def MAX_TASK_HISTORY_EVENTS_def sample_texts assessment_of_def
        sample_opened_def scan_start_def List.map_filter_def) (simp add: sample_identity_def sample_texts)
qed

lemma sample_task_image_facts:
  "cp_revision sample_task_image = 3" "cp_grants sample_task_image = []" "cp_recoveries sample_task_image = []"
  "is_quiescent sample_task_image" "br_identity (cp_report sample_task_image) = sample_identity"
  "br_limits (cp_report sample_task_image) = sample_limits"
  "br_charged (cp_report sample_task_image) = default_amounts"
  "cp_anchor sample_task_image = Some (cursor_of (last sample_task_turn))"
  by (simp_all add: sample_task_image_def ledger_image_def sample_settled_eq default_state_def is_quiescent_def
      snapshot_def sample_lease_task)

lemma sample_task_image_valid: "validate sample_task_image = Ok ()"
proof (rule validate_empty_audit)
  have "ledger_inv sample_limits Soft sample_settled"
    using inv_tick [OF restore_inv [OF sample_reopen], of 25]
    by (simp add: sample_settled_eq sample_reopened_def sample_budget_def default_state_def
        tick_def Let_def ledger_inv_defs pend_sum_def)
  then show "image_inv sample_task_image"
    unfolding sample_task_image_def
    by (intro image_of_ledger) (simp_all add: sample_lease_task anchor_ok_def sample_task_turn_def cursor_of_def
        sample_event_def sample_identity_def identity_blank_def is_blank_def is_white_space3_def sample_settled_eq)
qed (simp_all add: sample_task_image_def ledger_image_def sample_settled_eq default_state_def)

lemma sample_task_verified: "verify_checkpoint_history sample_task_image sample_task_turn = Ok ()"
proof -
  have "validate_addresses sample_task_turn sample_identity 0 = Ok ()"
    by (simp add: validate_addresses_Ok addressed_def sample_task_turn_def sample_event_def sample_identity_def
        checked_add_def is_blank_def is_white_space3_def less_Suc_eq)
  moreover have "validate_closed_tail sample_task_turn (cp_report sample_task_image) = Ok ()"
    by (simp add: validate_closed_tail_def last_two_def sample_task_turn_def sample_event_def sample_turn_report_def
        sample_task_image_def ledger_image_def snapshot_def sample_settled_eq default_state_def default_metrics_def
        default_counts_def is_terminal_def dispositions_agree_def)
  moreover have "sample_task_turn \<noteq> []" by (simp add: sample_task_turn_def)
  ultimately show ?thesis
    using sample_task_image_valid
    by (simp add: verify_checkpoint_history_def boundary_report_def sample_task_image_facts)
qed

lemma sample_task_chain: "image_chain (Some sample_base) (Some sample_task_image)"
proof -
  have "checked_add 2 1 = Some (3 :: u64)" by (simp add: checked_add_def)
  moreover have "br_limits (cp_report sample_claim) = sample_limits"
    by (simp add: sample_claim_facts sample_base_def ledger_image_def snapshot_def sample_budget_def)
  ultimately have "validate_transition sample_task_image (Some sample_claim) = Ok ()"
    using sample_task_image_valid sample_claim_valid sample_claim_facts(3)
    by (simp add: validate_transition_def validate_successor_def validate_recovery_transition_def
        sample_task_image_facts sample_base_facts sample_claim_def tightened_by_eq_iff)
  then show ?thesis using sample_claim_transition by (blast intro: chain_refl chain_step)
qed

lemma sample_next_valid: "validate_snapshot sample_codec sample_next_snapshot = Ok ()"
  by (simp add: validate_snapshot_def sample_next_snapshot_def sample_snapshot_def sample_compatibility_def
      sample_codec_def sample_identity_def sample_texts MAX_TASK_STEPS_def MAX_TASK_SNAPSHOT_BYTES_def
      inconsistent_stop_def bad_question_def sample_task_turn_def cursor_of_def sample_event_def)

lemma sample_next_capture:
  "capture sample_codec (sn_revision sample_snapshot) sample_compatibility [] sample_task_image ([] @ sample_task_turn) =
     Ok sample_next_snapshot"
proof -
  have "history_phase sample_task_turn = Ok PhCompleted"
    by (simp add: history_phase_def sample_task_turn_def sample_event_def)
  moreover have "checked_add 1 1 = Some (2 :: u64)" by (simp add: checked_add_def)
  ultimately show ?thesis
    using sample_task_assessment sample_task_verified sample_next_valid
    by (simp add: capture_def sample_task_image_facts requires_recovery_def sample_next_snapshot_def sample_snapshot_def)
qed

theorem captures_succeed_each_other_witness:
  "validate_snapshot_successor sample_codec sample_next_snapshot (Some sample_snapshot) = Ok () \<and>
   sn_phase sample_snapshot = PhCreated \<and> sn_phase sample_next_snapshot = PhCompleted"
proof -
  have "\<forall>r. amount (br_charged (cp_report sample_base)) r \<le> amount (br_charged (cp_report sample_task_image)) r"
    by (simp add: sample_task_image_facts) (simp add: sample_base_def ledger_image_def snapshot_def default_state_def)
  with captures_succeed_each_other [OF sample_capture sample_next_capture sample_task_chain]
  show ?thesis by (simp add: sample_next_snapshot_def sample_snapshot_def)
qed

section \<open>The in-process store\<close>

text \<open>The in-process store keeps one line of snapshots per task: after a write is accepted and any
  further operations of any clients, the store holds at most its capacity of tasks, the task still
  has the written snapshot or a later one with no less charged and no settled step lost, and no
  other snapshot that expects the same revision is accepted any more.\<close>

theorem memory_store_is_linear:
  assumes "memory_store_new n = Ok s" and "task_store_run (memory_store codec) s t"
    and "memory_compare_exchange codec expected sn t = (Ok c, t')" and "task_store_run (memory_store codec) t' u"
  shows "length (mst_values u) \<le> n \<and>
    (\<exists>sn'. memory_view u (id_task_id (sn_identity sn)) = Some sn' \<and> (sn' = sn \<or> later_snapshot sn sn')) \<and>
    (\<forall>sn' c' u'. memory_compare_exchange codec expected sn' u = (Ok c', u') \<longrightarrow>
       id_task_id (sn_identity sn') = id_task_id (sn_identity sn) \<longrightarrow> sn' = sn)"
proof -
  have x: "tst_compare_exchange (memory_store codec) = memory_compare_exchange codec" by (simp add: memory_store_def)
  have s: "memory_ok s \<and> mst_max_tasks s = n"
    using assms(1) by (auto simp: memory_store_new_def memory_ok_def memory_view_def split: if_splits)
  have "task_store_run (memory_store codec) s t'"
    using tasks_exchange [OF assms(2), of expected sn] assms(3) by (simp add: x)
  then have "memory_ok t' \<and> mst_max_tasks t' = n" using memory_ok_run s by metis
  then have "memory_ok u \<and> mst_max_tasks u = n" using memory_ok_run [OF assms(4)] by simp
  moreover have "memory_view t' (id_task_id (sn_identity sn)) = Some sn"
    using memory.exchange_Ok [of codec expected sn t c t'] assms(3) by (simp add: x)
  note snapshot_chain_from [OF memory.run_chain [OF assms(4)] this]
  moreover have "sn' = sn" if "memory_compare_exchange codec expected sn' u = (Ok c', u')"
    "id_task_id (sn_identity sn') = id_task_id (sn_identity sn)" for sn' c' u'
  proof (rule memory.writers_conflict [of codec expected sn t c t' u sn' c' u'])
    show "sn_revision sn' = sn_revision sn"
      using memory_exchange_revision [OF assms(3)] memory_exchange_revision [OF that(1)] by simp
  qed (use assms(3,4) that in \<open>simp_all add: x\<close>)
  ultimately show ?thesis by (simp add: memory_ok_def)
qed

theorem memory_store_is_linear_witness:
  "\<exists>t. memory_view t ''task'' = Some sample_snapshot \<and> length (mst_values t) \<le> 1"
proof -
  let ?s = "\<lparr>mst_max_tasks = 1, mst_values = [], mst_poisoned = False\<rparr> :: unit memory_store"
  have new: "memory_store_new 1 = Ok ?s" by (simp add: memory_store_new_def)
  have "checked_add 0 1 = Some (1 :: u64)" by (simp add: checked_add_def)
  then have "memory_checks sample_codec 0 sample_snapshot ?s = Ok Applied"
    using sample_snapshot_valid
    by (simp add: memory_checks_def validate_snapshot_successor_def) (simp add: sample_snapshot_def)
  then obtain t where t: "memory_compare_exchange sample_codec 0 sample_snapshot ?s = (Ok Applied, t)"
    "memory_view t ''task'' = Some sample_snapshot"
    by (auto simp: memory_compare_exchange_def memory_view_def sample_snapshot_def sample_identity_def)
  from memory_store_is_linear [OF new tasks_refl t(1) tasks_refl] t(2) show ?thesis by blast
qed

section \<open>Continuing a task\<close>

lemma check_cancelled_Ok [simp]: "check_cancelled cells w = Ok u \<longleftrightarrow> \<not> ca_requested cells w"
  by (simp add: check_cancelled_def)

text \<open>The services \<open>prepare_turn\<close> calls, each in the world the one before it left.\<close>

lemma prepare_turn_Ok:
  assumes "prepare_turn config cells request now now' i w = (Ok (sn, turn), w')"
  obtains budget history history' w1 w2 w3 w4 w5 w6 where
    "\<not> ca_requested cells w"
    "tst_load (cc_states config) (cc_identity config) w = (Ok (Some sn), w1)"
    "task_message (cc_render config) sn (trq_intent request) = Ok (tq_message turn)"
    "cs_load (cc_budgets config) (cc_identity config) w1 = (Ok (Some budget), w2)"
    "cc_session_load config (id_session_id (cc_identity config)) w2 = (Ok history, w3)"
    "verify_evidence (cc_codec config) sn (cc_identity config) (trq_expected_revision request)
       (trq_compatibility request) budget history = Ok ()"
    "cc_policy config sn request w3 = (Ok (), w4)" "\<not> ca_requested cells w4"
    "acquire (cc_budgets config) \<lparr>cx_identity = cc_identity config, cx_revision = cp_revision budget,
       cx_confirmed_anchor = cp_anchor budget, cx_host_limits = trq_host_limits request\<rparr> now now' i w4 = (Ok (tq_lease turn), w5)"
    "cc_session_load config (id_session_id (cc_identity config)) w5 = (Ok history', w6)"
    "verify_history (tq_lease turn) history' = Ok ()"
    "tst_load (cc_states config) (cc_identity config) w6 = (Ok (Some sn), w')" "\<not> ca_requested cells w'"
    "tq_session_id turn = id_session_id (cc_identity config)" "tq_agent_key turn = id_agent_key (cc_identity config)"
    "tq_run_limits turn = trq_run_limits request"
  using assms by (clarsimp simp: prepare_turn_def check_cancelled_def Let_def)

lemma claim_not_quiescent:
  assumes "execution_claim i cp = Ok claim"
  shows "\<not> is_quiescent claim"
proof -
  have "\<exists>x. claim = x\<lparr>cp_recovery_frozen := True, cp_execution_id := Some i\<rparr>"
    using execution_claim_Ok [OF assms] by blast
  then show ?thesis by (auto simp: is_quiescent_def)
qed

lemma prepare_ignores_start:
  "prepare_turn (config\<lparr>cc_start_turn := start\<rparr>) cells request now now' i w = prepare_turn config cells request now now' i w"
  by (simp add: prepare_turn_def)

lemma await_Err:
  "await m id k = (Err e, s) \<longleftrightarrow> m = (Err e, s) \<or> (\<exists>a t. m = (Ok a, t) \<and> k a t = (Err e, s))"
  by (cases m; cases "fst m") auto

text \<open>C33: A turn runs only on verified evidence. When the coordinator executes a request, it called its
  services one after the other, each in the world the one before it left, and this is what they
  answered: the state store gave a snapshot whose phase takes the message; the budget store gave a
  checkpoint and the session its history, and the snapshot's evidence verified against these two,
  at the revision and under the contracts the request names; the policy authorised the request; the
  lease was acquired on the very revision and anchor that were verified; the history loaded again
  after that claim matches the lease's base; and the state store still held the same snapshot. No
  cancellation was requested at the start, before the claim or right before the turn. Only then the
  turn is driven, with that lease, that message and the request's run limits, in the world these
  calls left, and the state is published after it, whatever its outcome.\<close>

theorem turns_run_on_verified_evidence:
  assumes "execute_task config cells request now now' i w = (Ok result, w')"
  shows "\<exists>sn turn budget history history' w1 w2 w3 w4 w5 w6 w7.
    \<not> ca_requested cells w \<and>
    tst_load (cc_states config) (cc_identity config) w = (Ok (Some sn), w1) \<and>
    task_message (cc_render config) sn (trq_intent request) = Ok (tq_message turn) \<and>
    cs_load (cc_budgets config) (cc_identity config) w1 = (Ok (Some budget), w2) \<and>
    cc_session_load config (id_session_id (cc_identity config)) w2 = (Ok history, w3) \<and>
    verify_evidence (cc_codec config) sn (cc_identity config) (trq_expected_revision request)
      (trq_compatibility request) budget history = Ok () \<and>
    cc_policy config sn request w3 = (Ok (), w4) \<and> \<not> ca_requested cells w4 \<and>
    acquire (cc_budgets config) \<lparr>cx_identity = cc_identity config, cx_revision = cp_revision budget,
      cx_confirmed_anchor = cp_anchor budget, cx_host_limits = trq_host_limits request\<rparr> now now' i w4 = (Ok (tq_lease turn), w5) \<and>
    is_quiescent (le_base (tq_lease turn)) \<and> \<not> is_quiescent (le_claim (tq_lease turn)) \<and>
    cp_revision (le_base (tq_lease turn)) = cp_revision budget \<and> cp_anchor (le_base (tq_lease turn)) = cp_anchor budget \<and>
    cc_session_load config (id_session_id (cc_identity config)) w5 = (Ok history', w6) \<and>
    verify_checkpoint_history (le_base (tq_lease turn)) history' = Ok () \<and>
    tst_load (cc_states config) (cc_identity config) w6 = (Ok (Some sn), w7) \<and> \<not> ca_requested cells w7 \<and>
    tq_run_limits turn = trq_run_limits request \<and>
    trr_turn result = fst (drive_turn config cells turn w7) \<and>
    (trr_state result, w') = publish config sn (snd (drive_turn config cells turn w7))"
proof -
  obtain sn turn w7 where p: "prepare_turn config cells request now now' i w = (Ok (sn, turn), w7)"
    and r: "trr_turn result = fst (drive_turn config cells turn w7)"
      "(trr_state result, w') = publish config sn (snd (drive_turn config cells turn w7))"
    using assms by (auto simp: execute_task_def case_prod_beta Let_def)
  from p obtain budget history history' w1 w2 w3 w4 w5 w6 where
    l: "\<not> ca_requested cells w" "tst_load (cc_states config) (cc_identity config) w = (Ok (Some sn), w1)"
      "task_message (cc_render config) sn (trq_intent request) = Ok (tq_message turn)"
      "cs_load (cc_budgets config) (cc_identity config) w1 = (Ok (Some budget), w2)"
      "cc_session_load config (id_session_id (cc_identity config)) w2 = (Ok history, w3)"
      "verify_evidence (cc_codec config) sn (cc_identity config) (trq_expected_revision request)
         (trq_compatibility request) budget history = Ok ()"
      "cc_policy config sn request w3 = (Ok (), w4)" "\<not> ca_requested cells w4"
    and a: "acquire (cc_budgets config) \<lparr>cx_identity = cc_identity config, cx_revision = cp_revision budget,
       cx_confirmed_anchor = cp_anchor budget, cx_host_limits = trq_host_limits request\<rparr> now now' i w4 = (Ok (tq_lease turn), w5)"
    and h: "cc_session_load config (id_session_id (cc_identity config)) w5 = (Ok history', w6)"
      "verify_history (tq_lease turn) history' = Ok ()"
      "tst_load (cc_states config) (cc_identity config) w6 = (Ok (Some sn), w7)" "\<not> ca_requested cells w7"
    and m: "tq_run_limits turn = trq_run_limits request"
    by (rule prepare_turn_Ok)
  obtain task where q: "is_quiescent (le_base (tq_lease turn))"
    and c: "execution_claim i (le_base (tq_lease turn)) = Ok (le_claim (tq_lease turn))"
    and t: "restore_checkpoint (le_base (tq_lease turn)) \<lparr>cx_identity = cc_identity config, cx_revision = cp_revision budget,
       cx_confirmed_anchor = cp_anchor budget, cx_host_limits = trq_host_limits request\<rparr> now = Ok task"
    using a by (rule acquire_Ok) blast
  have "cp_revision (le_base (tq_lease turn)) = cp_revision budget" "cp_anchor (le_base (tq_lease turn)) = cp_anchor budget"
    using t by (simp_all add: restore_checkpoint_def)
  with l a q claim_not_quiescent [OF c] h(1) h(2) [unfolded verify_history_def] h(3,4) m r show ?thesis
    by blast
qed

definition sample_coordinator :: "budget_checkpoint \<Rightarrow> unit session_event list \<Rightarrow> (unit, unit, unit, unit, unit, unit) coordinator_config" where
  "sample_coordinator budget history = \<lparr>cc_identity = sample_identity, cc_start_turn = (\<lambda>_ w. (Ok (), w)),
     cc_cancel_turn = (\<lambda>_ w. w), cc_wait_turn = (\<lambda>_ w. (Ok (), w)), cc_session_load = (\<lambda>_ w. (Ok history, w)),
     cc_budgets = \<lparr>cs_load = (\<lambda>_ w. (Ok (Some budget), w)), cs_compare_exchange = (\<lambda>_ _ w. (Ok Committed, w)),
       cs_compare_exchange_guarded = default_guarded\<rparr>,
     cc_states = \<lparr>tst_load = (\<lambda>_ w. (Ok (Some sample_snapshot), w)), tst_compare_exchange = (\<lambda>_ _ w. (Ok Applied, w))\<rparr>,
     cc_policy = (\<lambda>_ _ w. (Ok (), w)), cc_reducer = (\<lambda>_ _. Ok []), cc_codec = sample_codec, cc_render = (\<lambda>_. ''{}'')\<rparr>"

definition sample_cells :: "(unit, unit) cancellation_cells" where
  "sample_cells = \<lparr>ca_requested = (\<lambda>_. False), ca_turn = (\<lambda>_. None), ca_request = id, ca_set_turn = (\<lambda>_. id)\<rparr>"

definition sample_resume :: "task_intent \<Rightarrow> task_resume_request" where
  "sample_resume intent = \<lparr>trq_expected_revision = 1, trq_compatibility = sample_compatibility,
     trq_host_limits = sample_limits, trq_run_limits = sample_limits, trq_intent = intent\<rparr>"

lemma sample_unit_acquire:
  "acquire (cc_budgets (sample_coordinator sample_base [])) sample_context 20 21 ''run'' () = (Ok sample_lease, ())"
proof -
  have "locked (report_op sample_reopened 21) sample_reopened =
      (Ok (snapshot sample_reopened ((tb_state sample_reopened)\<lparr>st_last_clock := 21\<rparr>)),
       sample_reopened\<lparr>tb_state := (tb_state sample_reopened)\<lparr>st_last_clock := 21\<rparr>\<rparr>)"
    by (simp add: locked_def report_op_def tick_def sample_reopened_def sample_budget_def
        default_state_def Let_def)
  moreover have "st_stop (tb_state sample_reopened) = None"
    by (simp add: sample_reopened_def default_state_def)
  ultimately show ?thesis
    using sample_base_valid sample_reopen sample_execution_claim
    by (simp add: acquire_def sample_coordinator_def sample_base_facts sample_lease_def
        sample_claim_facts snapshot_def)
qed

lemma sample_phase: "sn_phase sample_snapshot = PhCreated"
  by (simp add: sample_snapshot_def)

lemma sample_task_evidence:
  "verify_evidence sample_codec sample_snapshot sample_identity 1 sample_compatibility sample_base
     ([] :: unit session_event list) = Ok ()"
  using capture_verifies [OF sample_capture] by (simp add: sample_base_facts) (simp add: sample_snapshot_def)

lemma sample_prepare:
  "\<exists>turn. prepare_turn (sample_coordinator sample_base []) sample_cells (sample_resume (IntentStart ''go'')) 20 21 ''run'' () =
     (Ok (sample_snapshot, turn), ())"
proof -
  have m: "task_message (\<lambda>_. ''{}'') sample_snapshot (IntentStart ''go'') = Ok ''go''"
    by (simp add: task_message_def sample_snapshot_def is_blank_def is_white_space3_def)
  have c: "\<lparr>cx_identity = sample_identity, cx_revision = 1, cx_confirmed_anchor = None, cx_host_limits = sample_limits\<rparr> =
      sample_context" by (simp add: sample_context_def)
  have v: "verify_history sample_lease ([] :: unit session_event list) = Ok ()" using sample_verified .
  show ?thesis
    using sample_unit_acquire m c v sample_task_evidence
    by (simp add: prepare_turn_def sample_coordinator_def sample_cells_def sample_resume_def sample_base_facts)
qed

theorem turns_run_on_verified_evidence_witness:
  "\<exists>sn (turn :: turn_request). task_message (\<lambda>_. ''{}'') (sn :: unit task_snapshot) (IntentStart ''go'') = Ok (tq_message turn) \<and>
     is_quiescent (le_base (tq_lease turn))"
proof -
  let ?c = "sample_coordinator sample_base []" and ?r = "sample_resume (IntentStart ''go'')"
  obtain turn where "prepare_turn ?c sample_cells ?r 20 21 ''run'' () = (Ok (sample_snapshot, turn), ())"
    using sample_prepare by blast
  then have "\<exists>result w'. execute_task ?c sample_cells ?r 20 21 ''run'' () = (Ok result, w')"
    by (simp add: execute_task_def Let_def case_prod_beta)
  then obtain result w' where "execute_task ?c sample_cells ?r 20 21 ''run'' () = (Ok result, w')" by blast
  from turns_run_on_verified_evidence [OF this] have
    "\<exists>(sn :: unit task_snapshot) (turn :: turn_request). task_message (cc_render ?c) sn (trq_intent ?r) = Ok (tq_message turn) \<and> is_quiescent (le_base (tq_lease turn))"
    by (elim exE conjE) (intro exI conjI)
  then show ?thesis by (simp add: sample_coordinator_def sample_resume_def)
qed

text \<open>A refused request starts no turn: when execution ends with an error, it ends with the same
  error and the same world whatever starting a turn would do.\<close>

theorem refused_requests_start_nothing:
  assumes "execute_task config cells request now now' i w = (Err e, w')"
  shows "execute_task (config\<lparr>cc_start_turn := start\<rparr>) cells request now now' i w = (Err e, w')"
proof -
  have "prepare_turn config cells request now now' i w = (Err e, w')"
    using assms by (auto simp: execute_task_def await_Err case_prod_beta Let_def)
  then show ?thesis by (simp add: execute_task_def prepare_ignores_start)
qed

theorem refused_requests_start_nothing_witness:
  "execute_task ((sample_coordinator sample_base [])\<lparr>cc_start_turn := (\<lambda>_ w. (Panic, w))\<rparr>) sample_cells
     (sample_resume (IntentContinue ''go'')) 20 21 ''run'' () = (Err CeInvalidIntent, ())"
proof (rule refused_requests_start_nothing)
  show "execute_task (sample_coordinator sample_base []) sample_cells (sample_resume (IntentContinue ''go'')) 20 21 ''run'' () =
      (Err CeInvalidIntent, ())"
    by (simp add: execute_task_def prepare_turn_def sample_coordinator_def sample_cells_def sample_resume_def
        check_cancelled_def task_message_def reject_if_def sample_phase)
qed

text \<open>A published snapshot can be continued: when publication succeeds, the candidate is what a
  loaded budget image and history capture, one revision after the previous snapshot and with the
  reducer's payloads; the store accepted exactly it; and at its revision it verifies against that
  evidence, as the next continuation will require.\<close>

theorem published_snapshots_verify:
  assumes "publish config previous w = (Ok candidate, w')"
  shows "\<exists>budget history w1 c. is_quiescent budget \<and>
    capture (cc_codec config) (sn_revision previous) (sn_compatibility previous) (sn_payloads candidate) budget history =
      Ok candidate \<and>
    cc_reducer config previous history = Ok (sn_payloads candidate) \<and>
    unat (sn_revision candidate) = unat (sn_revision previous) + 1 \<and>
    tst_compare_exchange (cc_states config) (sn_revision previous) candidate w1 = (Ok c, w') \<and>
    verify_evidence (cc_codec config) candidate (br_identity (cp_report budget)) (sn_revision candidate)
      (sn_compatibility previous) budget history = Ok ()"
proof -
  obtain budget history payload w1 c where cap: "capture (cc_codec config) (sn_revision previous)
      (sn_compatibility previous) payload budget history = Ok candidate"
    and "cc_reducer config previous history = Ok payload"
    and "tst_compare_exchange (cc_states config) (sn_revision previous) candidate w1 = (Ok c, w')"
    using assms by (auto simp: publish_def)
  moreover note f = capture_Ok [OF cap]
  moreover have "sn_payloads candidate = payload" "unat (sn_revision candidate) = unat (sn_revision previous) + 1"
    using f by (simp_all add: checked_add_Some_iff)
  ultimately show ?thesis using capture_verifies [OF cap]
    by (intro exI [of _ budget] exI [of _ history] exI [of _ w1] exI [of _ c]) simp
qed

theorem published_snapshots_verify_witness:
  "\<exists>budget history. is_quiescent budget \<and>
     capture sample_codec 1 sample_compatibility [] budget (history :: unit session_event list) = Ok sample_next_snapshot"
proof -
  let ?c = "sample_coordinator sample_task_image sample_task_turn"
  have sn: "sn_revision sample_snapshot = 1" "sn_compatibility sample_snapshot = sample_compatibility"
    "sn_payloads sample_next_snapshot = []"
    by (simp_all add: sample_snapshot_def sample_next_snapshot_def)
  have "publish ?c sample_snapshot () = (Ok sample_next_snapshot, ())"
    using sample_next_capture sample_task_verified sample_task_image_facts(4)
    by (simp add: publish_def publish_evidence_def sample_coordinator_def requires_recovery_def sn)
  from published_snapshots_verify [OF this]
  have "\<exists>budget (history :: unit session_event list). is_quiescent budget \<and> capture (cc_codec ?c) (sn_revision sample_snapshot)
      (sn_compatibility sample_snapshot) (sn_payloads sample_next_snapshot) budget history = Ok sample_next_snapshot"
    by (elim exE conjE) (intro exI conjI)
  then show ?thesis by (simp add: sn) (simp add: sample_coordinator_def)
qed

end
