(* ===== verification/ToolContracts.thy ===== *)
theory ToolContracts
  imports LlmContracts
begin

text \<open>
  The contracts of controlled tool execution, \<open>crates/tools/tool/src/lib.rs\<close>: metadata and
  requests, the canonical records of a call, the evidence of a finished execution, and the failures
  that close a turn. The traits are parameters of the theories that call them.
\<close>

section \<open>Tools\<close>

definition MAX_TOOL_NAME_BYTES :: usize where
  "MAX_TOOL_NAME_BYTES = 256"

definition MAX_TOOL_ARGUMENT_BYTES :: usize where
  "MAX_TOOL_ARGUMENT_BYTES = 1048576"

definition MAX_TOOL_TURN_FAILURES :: usize where
  "MAX_TOOL_TURN_FAILURES = 16"

record 'v tool_schema =
  tsc_name :: string
  tsc_description :: string
  tsc_parameters :: 'v

datatype approval_requirement = NoApproval | ApprovalRequired string

fun approval_key :: "approval_requirement \<Rightarrow> string option" where
  "approval_key NoApproval = None"
| "approval_key (ApprovalRequired key) = Some key"

record 'v tool_metadata =
  tm_description :: string
  tm_input_schema :: 'v
  tm_timeout_ceiling :: "duration option"
  tm_output_ceiling_bytes :: "usize option"
  tm_approval :: approval_requirement
  tm_effect :: tool_effect_contract

definition tool_metadata_new :: "string \<Rightarrow> 'v \<Rightarrow> 'v tool_metadata" where
  "tool_metadata_new description input_schema =
     \<lparr>tm_description = description, tm_input_schema = input_schema, tm_timeout_ceiling = None,
      tm_output_ceiling_bytes = None, tm_approval = NoApproval, tm_effect = default_effect_contract\<rparr>"

definition with_timeout_ceiling :: "duration \<Rightarrow> 'v tool_metadata \<Rightarrow> 'v tool_metadata" where
  "with_timeout_ceiling timeout m = m\<lparr>tm_timeout_ceiling := Some timeout\<rparr>"

definition with_output_ceiling :: "usize \<Rightarrow> 'v tool_metadata \<Rightarrow> 'v tool_metadata" where
  "with_output_ceiling bytes m = m\<lparr>tm_output_ceiling_bytes := Some bytes\<rparr>"

definition with_approval :: "approval_requirement \<Rightarrow> 'v tool_metadata \<Rightarrow> 'v tool_metadata" where
  "with_approval approval m = m\<lparr>tm_approval := approval\<rparr>"

definition with_effect :: "tool_effect \<Rightarrow> string \<Rightarrow> 'v tool_metadata \<Rightarrow> 'v tool_metadata" where
  "with_effect effect revision m = m\<lparr>tm_effect := \<lparr>ec_effect = effect, ec_revision = revision\<rparr>\<rparr>"

record 'v tool_body_request =
  br_call_id :: string
  br_operation :: "tool_operation option"
  br_arguments :: 'v

record tool_diagnostic =
  dg_code :: string
  dg_message :: string
  dg_retryable :: bool

datatype tool_body_error = ToolBodyError tool_diagnostic
datatype tool_denial = ToolDenial tool_diagnostic
datatype tool_guard_error = ToolGuardError tool_diagnostic
datatype tool_authorization_error = ToolAuthorizationError tool_diagnostic

datatype tool_authorization_decision = AuthApproved | AuthDenied tool_denial

type_synonym tool_caller = string

section \<open>Canonical records\<close>

datatype 'v tool_record = TrCall "'v tool_call" | TrResult tool_result

fun tool_session_event_kind :: "'v tool_record \<Rightarrow> 'v session_event_kind" where
  "tool_session_event_kind (TrCall call) = ToolCallEvent call"
| "tool_session_event_kind (TrResult result) = ToolResultEvent result"

datatype invalid_tool_execution =
  CallIdMismatch | CallEventMismatch | ResultEventMismatch | DifferentSession | DifferentTurn
| ReversedSequence

record 'v tool_execution =
  te_call :: "'v tool_call"
  te_result :: tool_result
  te_call_event :: "'v session_event"
  te_result_event :: "'v session_event"

definition tool_execution_new ::
    "'v tool_call \<Rightarrow> tool_result \<Rightarrow> 'v session_event \<Rightarrow> 'v session_event
       \<Rightarrow> ('v tool_execution, invalid_tool_execution) outcome" where
  "tool_execution_new call result call_event result_event =
     (if tl_id call \<noteq> tres_call_id result then Err CallIdMismatch
      else if se_kind call_event \<noteq> ToolCallEvent call then Err CallEventMismatch
      else if se_kind result_event \<noteq> ToolResultEvent result then Err ResultEventMismatch
      else if se_session_id call_event \<noteq> se_session_id result_event then Err DifferentSession
      else if se_turn_id call_event \<noteq> se_turn_id result_event then Err DifferentTurn
      else if se_seq call_event \<ge> se_seq result_event then Err ReversedSequence
      else Ok \<lparr>te_call = call, te_result = result, te_call_event = call_event,
        te_result_event = result_event\<rparr>)"

section \<open>Errors\<close>

datatype tool_finish_mode = ToolGraceful | ToolCancel

datatype tool_retry_error =
  ReInvalidEvidence | ReLegacyCall | ReCompleted | ReNeedsReview | ReNotLatestAttempt
| ReBindingChanged | ReConsumed

datatype tool_preflight_error =
  PfRetry tool_retry_error | PfEmptyName | PfNameTooLong usize usize
| PfArgumentsTooLarge usize usize

datatype tool_record_stage = ToolStageCall | ToolStageResult

datatype 'v tool_record_error =
  TreSession "'v session_runtime_error" | TreRecorderPanicked | TreIdentityMismatch "'v session_event"

record 'v tool_closure_failure =
  tcf_call :: "'v tool_call"
  tcf_result :: "tool_result option"
  tcf_stage :: tool_record_stage
  tcf_source :: "'v tool_record_error"

definition call_error :: "'v tool_call \<Rightarrow> 'v tool_record_error \<Rightarrow> 'v tool_closure_failure" where
  "call_error call source =
     \<lparr>tcf_call = call, tcf_result = None, tcf_stage = ToolStageCall, tcf_source = source\<rparr>"

definition result_error ::
    "'v tool_call \<Rightarrow> tool_result \<Rightarrow> 'v tool_record_error \<Rightarrow> 'v tool_closure_failure" where
  "result_error call result source =
     \<lparr>tcf_call = call, tcf_result = Some result, tcf_stage = ToolStageResult, tcf_source = source\<rparr>"

definition tool_source_error :: "'v tool_closure_failure \<Rightarrow> 'v session_runtime_error option" where
  "tool_source_error f = (case tcf_source f of
       TreSession error \<Rightarrow> Some error
     | TreRecorderPanicked \<Rightarrow> None
     | TreIdentityMismatch _ \<Rightarrow> None)"

datatype 'v tool_runtime_error =
  TrBudget budget_error
| TrStopped
| TrTurnClosed
| TrOverloaded
| TrPreflight tool_preflight_error
| TrCancelled "'v tool_execution"
| TrRecording "'v tool_closure_failure"
| TrInternal string string

fun cancelled_execution :: "'v tool_runtime_error \<Rightarrow> 'v tool_execution option" where
  "cancelled_execution (TrCancelled execution) = Some execution"
| "cancelled_execution _ = None"

section \<open>The failures of a turn\<close>

record 'v tool_turn_failure =
  ttf_failures :: "'v tool_runtime_error list"
  ttf_omitted :: usize

definition is_tool_closure_failure :: "'v tool_runtime_error \<Rightarrow> bool" where
  "is_tool_closure_failure error \<longleftrightarrow>
     (case error of TrRecording _ \<Rightarrow> True | TrInternal _ _ \<Rightarrow> True | _ \<Rightarrow> False)"

text \<open>The error is the unit type \<open>InvalidToolTurnFailure\<close>.\<close>

definition tool_bounded_failures ::
    "'v tool_runtime_error list \<Rightarrow> usize \<Rightarrow> ('v tool_turn_failure option, unit) outcome" where
  "tool_bounded_failures failures omitted =
     (if list_ex (\<lambda>failure. \<not> is_tool_closure_failure failure) failures then Err ()
      else if failures = [] then (if omitted = 0 then Ok None else Err ())
      else Ok (Some \<lparr>ttf_failures = take MAX_TOOL_TURN_FAILURES failures,
        ttf_omitted = usize_saturating_add omitted (length failures - MAX_TOOL_TURN_FAILURES)\<rparr>))"

definition tool_failures_from :: "'v tool_runtime_error list \<Rightarrow> ('v tool_turn_failure option, unit) outcome" where
  "tool_failures_from failures = tool_bounded_failures failures 0"

definition tool_failure_count :: "'v tool_turn_failure \<Rightarrow> usize" where
  "tool_failure_count f = usize_saturating_add (length (ttf_failures f)) (ttf_omitted f)"

lemma tool_bounded_failures_count:
  assumes "tool_bounded_failures failures omitted = Ok (Some f)"
  shows "tool_failure_count f = usize_saturating_add (length failures) omitted"
  using assms
  by (auto simp: tool_bounded_failures_def tool_failure_count_def usize_saturating_add_def
    MAX_TOOL_TURN_FAILURES_def split: if_splits)

text \<open>
  The evidence of an execution is complete: the call and its result, in that order and in one turn
  of one Session.
\<close>

lemma tool_execution_new_Ok:
  "tool_execution_new call result call_event result_event = Ok e \<longleftrightarrow>
     tl_id call = tres_call_id result \<and> se_kind call_event = ToolCallEvent call \<and>
     se_kind result_event = ToolResultEvent result \<and>
     se_session_id call_event = se_session_id result_event \<and>
     se_turn_id call_event = se_turn_id result_event \<and> se_seq call_event < se_seq result_event \<and>
     e = \<lparr>te_call = call, te_result = result, te_call_event = call_event, te_result_event = result_event\<rparr>"
  by (auto simp: tool_execution_new_def)

lemma tool_execution_new_neq_Panic [simp]: "tool_execution_new call result ce re \<noteq> Panic"
  by (simp add: tool_execution_new_def)

end
