(* ===== verification/ToolRecovery.thy ===== *)
theory ToolRecovery
  imports ToolContracts
begin

text \<open>
  Conservative planning of retries, \<open>crates/tools/tool/src/recovery.rs\<close>: the scan of a Session's
  history for the evidence of a tool call, its classification, the plan of one more attempt, and the
  single-use latch its clones share. The chunks in which \<open>serde_json\<close> writes a history are a
  parameter; the latches are an explicit store.
\<close>

section \<open>Checks\<close>

datatype tool_recovery_status = RsCompleted | RsNotExecuted | RsOutcomeUnknown

record 'v tool_recovery_assessment =
  ras_call :: "'v tool_call"
  ras_result :: "tool_result option"
  ras_status :: tool_recovery_status

type_synonym 'a evidenced = "('a, tool_retry_error) outcome"

definition text_valid :: "string \<Rightarrow> bool" where
  "text_valid s \<longleftrightarrow> \<not> is_blank s \<and> length s \<le> 1024"

definition validate_tool_contract :: "tool_effect_contract \<Rightarrow> unit evidenced" where
  "validate_tool_contract contract =
     (if \<not> text_valid (ec_revision contract) then Err ReInvalidEvidence else Ok ())"

definition validate_review :: "tool_retry_review \<Rightarrow> unit evidenced" where
  "validate_review review =
     (if \<not> text_valid (rv_actor review) \<or> \<not> text_valid (rv_evidence review)
      then Err ReInvalidEvidence else Ok ())"

definition validate_operation :: "tool_operation \<Rightarrow> unit evidenced" where
  "validate_operation op =
     and_then (validate_tool_contract (op_contract op)) (\<lambda>_.
     if \<not> text_valid (op_task_id op) \<or> \<not> text_valid (op_key op) then Err ReInvalidEvidence
     else (case op_retry op of
       None \<Rightarrow> Ok ()
     | Some retry \<Rightarrow>
         if \<not> text_valid (ra_call_id retry) \<or> \<not> text_valid (ra_event_id retry)
         then Err ReInvalidEvidence
         else (case ra_review retry of None \<Rightarrow> Ok () | Some review \<Rightarrow> validate_review review)))"

section \<open>The evidence of a history\<close>

text \<open>
  \<open>HistoryLimit\<close> counts down the bytes of the chunks \<open>serde_json::to_writer\<close> writes; the
  serialiser itself (its chunks, or none when it fails) is a parameter.
\<close>

definition history_limit_write :: "usize \<Rightarrow> usize \<Rightarrow> usize option" where
  "history_limit_write remaining bytes = (if bytes \<le> remaining then Some (remaining - bytes) else None)"

fun write_chunks :: "usize list \<Rightarrow> usize \<Rightarrow> usize option" where
  "write_chunks [] remaining = Some remaining"
| "write_chunks (c # cs) remaining =
     (case history_limit_write remaining c of None \<Rightarrow> None | Some rest \<Rightarrow> write_chunks cs rest)"

type_synonym 'v history_writer = "'v session_event list \<Rightarrow> usize list option"

definition HISTORY_BYTES :: usize where
  "HISTORY_BYTES = 16 * 1024 * 1024"

definition history_fits :: "'v history_writer \<Rightarrow> 'v session_event list \<Rightarrow> bool" where
  "history_fits to_writer history \<longleftrightarrow>
     (case to_writer history of
        None \<Rightarrow> False
      | Some chunks \<Rightarrow> write_chunks chunks HISTORY_BYTES \<noteq> None)"

record 'v call_evidence =
  ce_call :: "'v tool_call"
  ce_event :: "'v session_event"
  ce_result :: "tool_result option"

type_synonym 'v calls = "(string, 'v call_evidence) btree_map"
type_synonym 'v operations = "task_id \<times> string \<rightharpoonup> 'v tool_call \<times> 'v session_event"

text \<open>How an attempt fits the latest attempt of its operation.\<close>

definition check_binding :: "'v tool_call \<Rightarrow> tool_operation \<Rightarrow> 'v operations \<Rightarrow> unit evidenced" where
  "check_binding call op operations =
     (case operations (op_task_id op, op_key op) of
        Some (old, old_event) \<Rightarrow>
          if tl_name old \<noteq> tl_name call \<or> tl_arguments old \<noteq> tl_arguments call
          then Err ReBindingChanged
          else (case tl_operation old of
            None \<Rightarrow> Panic
          | Some old_op \<Rightarrow>
              if op_contract old_op \<noteq> op_contract op then Err ReBindingChanged
              else (case op_retry op of
                None \<Rightarrow> Err ReInvalidEvidence
              | Some r \<Rightarrow>
                  if ra_call_id r \<noteq> tl_id old \<or> ra_event_id r \<noteq> se_event_id old_event
                  then Err ReInvalidEvidence else Ok ()))
      | None \<Rightarrow> if op_retry op \<noteq> None then Err ReInvalidEvidence else Ok ())"

definition evidence_call ::
    "'v tool_call \<Rightarrow> 'v session_event \<Rightarrow> 'v calls \<times> 'v operations \<Rightarrow> ('v calls \<times> 'v operations) evidenced" where
  "evidence_call call event = (\<lambda>(calls, operations).
     if \<not> text_valid (tl_id call) \<or> tl_name call = [] \<or> length (tl_name call) > MAX_TOOL_NAME_BYTES
        \<or> map_of calls (tl_id call) \<noteq> None
     then Err ReInvalidEvidence
     else
       and_then (case tl_operation call of
           None \<Rightarrow> Ok operations
         | Some op \<Rightarrow>
             and_then (validate_operation op) (\<lambda>_.
             and_then (check_binding call op operations) (\<lambda>_.
             Ok (operations((op_task_id op, op_key op) \<mapsto> (call, event)))))) (\<lambda>operations.
       Ok (bt_insert (tl_id call) \<lparr>ce_call = call, ce_event = event, ce_result = None\<rparr> calls, operations)))"

definition evidence_result ::
    "tool_result \<Rightarrow> 'v session_event \<Rightarrow> 'v calls \<times> 'v operations \<Rightarrow> ('v calls \<times> 'v operations) evidenced" where
  "evidence_result result event = (\<lambda>(calls, operations).
     (case map_of calls (tres_call_id result) of
        None \<Rightarrow> Err ReInvalidEvidence
      | Some ce \<Rightarrow>
          if se_turn_id (ce_event ce) \<noteq> se_turn_id event \<or> ce_result ce \<noteq> None
          then Err ReInvalidEvidence
          else Ok (bt_modify (tres_call_id result) (\<lambda>ce. ce\<lparr>ce_result := Some result\<rparr>) calls, operations)))"

definition evidence_step ::
    "'v session_event \<Rightarrow> 'v calls \<times> 'v operations \<Rightarrow> ('v calls \<times> 'v operations) evidenced" where
  "evidence_step event s =
     (case se_kind event of
        ToolCallEvent call \<Rightarrow> evidence_call call event s
      | ToolResultEvent result \<Rightarrow> evidence_result result event s
      | _ \<Rightarrow> Ok s)"

fun outcome_succeeded :: "tool_recorded_outcome \<Rightarrow> bool" where
  "outcome_succeeded (ToolSucceeded _) = True"
| "outcome_succeeded (ToolFailed _ _ _ _) = False"

text \<open>Another attempt of the same operation whose recorded result succeeded.\<close>

definition completed_attempt :: "'v tool_call \<Rightarrow> tool_operation \<Rightarrow> 'v call_evidence \<Rightarrow> bool" where
  "completed_attempt call op ce \<longleftrightarrow>
     tl_id (ce_call ce) \<noteq> tl_id call \<and>
     (case tl_operation (ce_call ce) of
        None \<Rightarrow> False
      | Some p \<Rightarrow> op_task_id p = op_task_id op \<and> op_key p = op_key op) \<and>
     (case ce_result ce of None \<Rightarrow> False | Some r \<Rightarrow> outcome_succeeded (tres_outcome r))"

definition select_evidence ::
    "string \<Rightarrow> 'v calls \<times> 'v operations \<Rightarrow> 'v call_evidence evidenced" where
  "select_evidence call_id = (\<lambda>(calls, operations).
     and_then (ok_or (map_of calls call_id) ReInvalidEvidence) (\<lambda>ce.
     (case tl_operation (ce_call ce) of
        None \<Rightarrow> Ok ce
      | Some op \<Rightarrow>
          if (case operations (op_task_id op, op_key op) of
                None \<Rightarrow> False
              | Some (latest, _) \<Rightarrow> tl_id latest \<noteq> call_id)
          then Err ReNotLatestAttempt
          else if list_ex (\<lambda>(_, other). completed_attempt (ce_call ce) op other) calls then Err ReCompleted
          else Ok ce)))"

definition scan_evidence :: "'v session_event list \<Rightarrow> ('v calls \<times> 'v operations) evidenced" where
  "scan_evidence history = for_each evidence_step history ([], Map.empty)"

definition tool_evidence ::
    "'v history_writer \<Rightarrow> 'v session_event list \<Rightarrow> string \<Rightarrow> 'v call_evidence evidenced" where
  "tool_evidence to_writer history call_id =
     (if history = [] \<or> length history > 100000 \<or> \<not> text_valid call_id then Err ReInvalidEvidence
      else if \<not> history_fits to_writer history then Err ReInvalidEvidence
      else and_then (map_err (\<lambda>_. ReInvalidEvidence)
          (validate_physical_log (se_session_id (hd history)) history)) (\<lambda>_.
        and_then (scan_evidence history) (select_evidence call_id)))"

section \<open>Inspection\<close>

fun executed_category :: "tool_failure_category \<Rightarrow> bool" where
  "executed_category TcUnavailable = False"
| "executed_category TcInvalidArguments = False"
| "executed_category TcDenied = False"
| "executed_category TcGuardFault = False"
| "executed_category TcApprovalUnavailable = False"
| "executed_category TcApprovalDenied = False"
| "executed_category TcApprovalFault = False"
| "executed_category _ = True"

fun recovery_status :: "tool_recorded_outcome option \<Rightarrow> tool_recovery_status" where
  "recovery_status (Some (ToolSucceeded _)) = RsCompleted"
| "recovery_status (Some (ToolFailed category _ _ _)) =
     (if executed_category category then RsOutcomeUnknown else RsNotExecuted)"
| "recovery_status None = RsOutcomeUnknown"

definition inspect_tool_recovery ::
    "'v history_writer \<Rightarrow> 'v session_event list \<Rightarrow> string \<Rightarrow> 'v tool_recovery_assessment evidenced" where
  "inspect_tool_recovery to_writer history call_id =
     and_then (tool_evidence to_writer history call_id) (\<lambda>ce.
     Ok \<lparr>ras_call = ce_call ce, ras_result = ce_result ce,
       ras_status = recovery_status (map_option tres_outcome (ce_result ce))\<rparr>)"

section \<open>Plans\<close>

text \<open>
  A plan names its latch: \<open>Arc::new (AtomicBool::new (false))\<close> adds a latch to the store, a
  clone of the plan names the same latch, and \<open>PartialEq\<close> compares the latches.
\<close>

type_synonym latches = "bool list"

record 'v tool_retry_plan =
  rp_source :: "'v tool_call"
  rp_session :: session_id
  rp_source_event :: event_id
  rp_review :: "tool_retry_review option"
  rp_consumed :: nat

definition retry_plan_eq :: "'v tool_retry_plan \<Rightarrow> 'v tool_retry_plan \<Rightarrow> bool" where
  "retry_plan_eq p q \<longleftrightarrow> rp_consumed p = rp_consumed q"

definition review_says :: "tool_review_outcome \<Rightarrow> tool_retry_review option \<Rightarrow> bool" where
  "review_says verdict review \<longleftrightarrow> (case review of None \<Rightarrow> False | Some r \<Rightarrow> rv_outcome r = verdict)"

definition prepare_tool_retry ::
    "'v history_writer \<Rightarrow> 'v session_event list \<Rightarrow> string \<Rightarrow> tool_retry_review option \<Rightarrow> latches
       \<Rightarrow> 'v tool_retry_plan evidenced \<times> latches" where
  "prepare_tool_retry to_writer history call_id review latches =
     (let checked =
        and_then (case review of None \<Rightarrow> Ok () | Some r \<Rightarrow> validate_review r) (\<lambda>_.
        and_then (inspect_tool_recovery to_writer history call_id) (\<lambda>assessment.
        if ras_status assessment = RsCompleted \<or> review_says ReviewCompleted review then Err ReCompleted
        else
          and_then (ok_or (tl_operation (ras_call assessment)) ReLegacyCall) (\<lambda>op.
          if ras_status assessment \<noteq> RsNotExecuted \<and> \<not> review_says NotExecuted review \<and>
             \<not> (ec_effect (op_contract op) = ReadOnly \<or> ec_effect (op_contract op) = Idempotent)
          then Err ReNeedsReview
          else
            and_then (tool_evidence to_writer history call_id) (\<lambda>ce.
            Ok \<lparr>rp_source = ras_call assessment, rp_session = se_session_id (ce_event ce),
              rp_source_event = se_event_id (ce_event ce), rp_review = review,
              rp_consumed = length latches\<rparr>))))
      in (checked, if is_ok checked then latches @ [False] else latches))"

definition take_operation ::
    "'v tool_retry_plan \<Rightarrow> session_id \<Rightarrow> task_id \<Rightarrow> string \<Rightarrow> 'v \<Rightarrow> tool_effect_contract \<Rightarrow> latches
       \<Rightarrow> tool_operation evidenced \<times> latches" where
  "take_operation plan session task name arguments contract latches =
     (case tl_operation (rp_source plan) of
        None \<Rightarrow> (Err ReLegacyCall, latches)
      | Some op \<Rightarrow>
          if rp_session plan \<noteq> session \<or> op_task_id op \<noteq> task \<or> tl_name (rp_source plan) \<noteq> name
             \<or> tl_arguments (rp_source plan) \<noteq> arguments \<or> op_contract op \<noteq> contract
          then (Err ReBindingChanged, latches)
          else if latches ! rp_consumed plan then (Err ReConsumed, latches)
          else
            (Ok (op\<lparr>op_retry := Some \<lparr>ra_call_id = tl_id (rp_source plan),
                ra_event_id = rp_source_event plan, ra_review = rp_review plan\<rparr>\<rparr>),
             latches[rp_consumed plan := True]))"

end
