(* ===== verification/ToolRecoveryInv.thy ===== *)
theory ToolRecoveryInv
  imports ToolRecovery
begin

text \<open>
  What the scan of \<open>tool_evidence\<close> accepts: the attempts of an operation form a chain in which each
  retry names its predecessor, every call has its own id, every result answers an earlier call of
  its turn, and no call has two results.
\<close>

section \<open>Calls, results and attempts of a history\<close>

fun call_of :: "'v session_event \<Rightarrow> ('v tool_call \<times> 'v session_event) list" where
  "call_of e = (case se_kind e of ToolCallEvent call \<Rightarrow> [(call, e)] | _ \<Rightarrow> [])"

fun result_of :: "'v session_event \<Rightarrow> tool_result list" where
  "result_of e = (case se_kind e of ToolResultEvent result \<Rightarrow> [result] | _ \<Rightarrow> [])"

declare call_of.simps [simp del] result_of.simps [simp del]

definition history_calls :: "'v session_event list \<Rightarrow> ('v tool_call \<times> 'v session_event) list" where
  "history_calls history = concat (map call_of history)"

definition history_results :: "'v session_event list \<Rightarrow> tool_result list" where
  "history_results history = concat (map result_of history)"

definition operation_key :: "'v tool_call \<Rightarrow> (task_id \<times> string) option" where
  "operation_key call = map_option (\<lambda>op. (op_task_id op, op_key op)) (tl_operation call)"

definition attempts ::
    "task_id \<times> string \<Rightarrow> 'v session_event list \<Rightarrow> ('v tool_call \<times> 'v session_event) list" where
  "attempts k history = filter (\<lambda>(call, _). operation_key call = Some k) (history_calls history)"

definition recorded_result :: "'v session_event list \<Rightarrow> string \<Rightarrow> tool_result option" where
  "recorded_result history i = find (\<lambda>r. tres_call_id r = i) (history_results history)"

definition call_retry :: "'v tool_call \<Rightarrow> tool_retry_audit option" where
  "call_retry call = (case tl_operation call of None \<Rightarrow> None | Some op \<Rightarrow> op_retry op)"

definition retries :: "'v tool_call \<times> 'v session_event \<Rightarrow> 'v tool_call \<times> 'v session_event \<Rightarrow> bool" where
  "retries old new \<longleftrightarrow>
     tl_name (fst old) = tl_name (fst new) \<and> tl_arguments (fst old) = tl_arguments (fst new) \<and>
     map_option op_contract (tl_operation (fst old)) = map_option op_contract (tl_operation (fst new)) \<and>
     (case call_retry (fst new) of
        None \<Rightarrow> False
      | Some r \<Rightarrow> ra_call_id r = tl_id (fst old) \<and> ra_event_id r = se_event_id (snd old))"

definition attempt_chain :: "('v tool_call \<times> 'v session_event) list \<Rightarrow> bool" where
  "attempt_chain xs \<longleftrightarrow> successively retries xs \<and> (xs \<noteq> [] \<longrightarrow> call_retry (fst (hd xs)) = None)"

definition call_valid :: "'v tool_call \<Rightarrow> bool" where
  "call_valid call \<longleftrightarrow> text_valid (tl_id call) \<and> tl_name call \<noteq> [] \<and> length (tl_name call) \<le> MAX_TOOL_NAME_BYTES \<and>
     (case tl_operation call of None \<Rightarrow> True | Some op \<Rightarrow> validate_operation op = Ok ())"

text \<open>Every result answers an earlier call of its turn.\<close>

definition tool_results_answer :: "'v session_event list \<Rightarrow> bool" where
  "tool_results_answer history \<longleftrightarrow>
     (\<forall>n < length history. \<forall>r \<in> set (result_of (history ! n)).
        \<exists>(c, e) \<in> set (history_calls (take n history)).
          tl_id c = tres_call_id r \<and> se_turn_id e = se_turn_id (history ! n))"

definition tool_history :: "'v session_event list \<Rightarrow> bool" where
  "tool_history history \<longleftrightarrow>
     (\<forall>(c, e) \<in> set (history_calls history). call_valid c) \<and>
     distinct (map (tl_id \<circ> fst) (history_calls history)) \<and>
     (\<forall>k. attempt_chain (attempts k history)) \<and>
     distinct (map tres_call_id (history_results history)) \<and> tool_results_answer history"

lemma history_calls_Nil [simp]: "history_calls [] = []"
  by (simp add: history_calls_def)

lemma history_results_Nil [simp]: "history_results [] = []"
  by (simp add: history_results_def)

lemma history_calls_snoc [simp]: "history_calls (h @ [e]) = history_calls h @ call_of e"
  by (simp add: history_calls_def)

lemma history_results_snoc [simp]: "history_results (h @ [e]) = history_results h @ result_of e"
  by (simp add: history_results_def)

lemma attempts_snoc:
  "attempts k (h @ [e]) = attempts k h @ filter (\<lambda>(call, _). operation_key call = Some k) (call_of e)"
  by (simp add: attempts_def)

lemma set_call_of: "(c, e') \<in> set (call_of e) \<longleftrightarrow> se_kind e = ToolCallEvent c \<and> e' = e"
  by (auto simp: call_of.simps split: session_event_kind.splits)

lemma set_history_calls: "(c, e) \<in> set (history_calls h) \<longleftrightarrow> e \<in> set h \<and> se_kind e = ToolCallEvent c"
  by (auto simp: history_calls_def set_call_of)

lemma set_result_of: "r \<in> set (result_of e) \<longleftrightarrow> se_kind e = ToolResultEvent r"
  by (auto simp: result_of.simps split: session_event_kind.splits)

lemma set_tool_results: "r \<in> set (history_results h) \<longleftrightarrow> (\<exists>e \<in> set h. se_kind e = ToolResultEvent r)"
  by (auto simp: history_results_def set_result_of)

lemma call_id_mem: "(c, e) \<in> set (history_calls h) \<Longrightarrow> tl_id c \<in> tl_id ` fst ` set (history_calls h)"
  by force

lemma attempts_Nil [simp]: "attempts k [] = []"
  by (simp add: attempts_def)

lemma set_attempts:
  "(c, e) \<in> set (attempts k h) \<longleftrightarrow> e \<in> set h \<and> se_kind e = ToolCallEvent c \<and> operation_key c = Some k"
  by (auto simp: attempts_def set_history_calls)

lemma tool_results_answer_snoc:
  "tool_results_answer (h @ [e]) \<longleftrightarrow>
     tool_results_answer h \<and> (\<forall>r \<in> set (result_of e). \<exists>(c, e') \<in> set (history_calls h).
       tl_id c = tres_call_id r \<and> se_turn_id e' = se_turn_id e)"
  by (auto simp: tool_results_answer_def nth_append less_Suc_eq)

section \<open>What a step accepts\<close>

definition step_accepts :: "'v session_event list \<Rightarrow> 'v session_event \<Rightarrow> bool" where
  "step_accepts h e \<longleftrightarrow>
     (\<forall>(c, _) \<in> set (call_of e). call_valid c \<and> tl_id c \<notin> tl_id ` fst ` set (history_calls h) \<and>
        (\<forall>k. operation_key c = Some k \<longrightarrow>
           (if attempts k h = [] then call_retry c = None else retries (last (attempts k h)) (c, e)))) \<and>
     (\<forall>r \<in> set (result_of e). tres_call_id r \<notin> tres_call_id ` set (history_results h) \<and>
        (\<exists>(c, e') \<in> set (history_calls h). tl_id c = tres_call_id r \<and> se_turn_id e' = se_turn_id e))"

lemma attempt_chain_snoc:
  "attempt_chain (xs @ [x]) \<longleftrightarrow>
     attempt_chain xs \<and> (if xs = [] then call_retry (fst x) = None else retries (last xs) x)"
  by (auto simp: attempt_chain_def successively_append_iff)

lemma attempt_chain_Nil [simp]: "attempt_chain []"
  by (simp add: attempt_chain_def)

lemma attempt_chain_single [simp]: "attempt_chain [x] \<longleftrightarrow> call_retry (fst x) = None"
  by (simp add: attempt_chain_def)

lemma tool_history_snoc: "tool_history (h @ [e]) \<longleftrightarrow> tool_history h \<and> step_accepts h e"
proof (cases "se_kind e")
  case (ToolCallEvent c)
  then have co: "call_of e = [(c, e)]" and ro: "result_of e = []"
    by (auto simp: call_of.simps result_of.simps)
  have "attempt_chain (attempts k (h @ [e])) \<longleftrightarrow> attempt_chain (attempts k h) \<and>
      (operation_key c = Some k \<longrightarrow>
         (if attempts k h = [] then call_retry c = None else retries (last (attempts k h)) (c, e)))" for k
    by (simp add: attempts_snoc co attempt_chain_snoc)
  then have m1: "(\<forall>k. attempt_chain (attempts k (h @ [e]))) \<longleftrightarrow>
      (\<forall>k. attempt_chain (attempts k h)) \<and> (\<forall>k. operation_key c = Some k \<longrightarrow>
         (if attempts k h = [] then call_retry c = None else retries (last (attempts k h)) (c, e)))"
    by (simp only: all_conj_distrib)
  have m2: "tool_results_answer (h @ [e]) = tool_results_answer h" by (simp add: tool_results_answer_snoc ro)
  have m3: "(\<forall>(c', e') \<in> set (history_calls (h @ [e])). call_valid c') \<longleftrightarrow>
      (\<forall>(c', e') \<in> set (history_calls h). call_valid c') \<and> call_valid c"
    by (auto simp: co)
  have m4: "distinct (map (tl_id \<circ> fst) (history_calls (h @ [e]))) \<longleftrightarrow>
      distinct (map (tl_id \<circ> fst) (history_calls h)) \<and> tl_id c \<notin> tl_id ` fst ` set (history_calls h)"
    by (auto simp: co image_image)
  have m5: "history_results (h @ [e]) = history_results h" by (simp add: ro)
  have m6: "step_accepts h e \<longleftrightarrow> call_valid c \<and> tl_id c \<notin> tl_id ` fst ` set (history_calls h) \<and>
      (\<forall>k. operation_key c = Some k \<longrightarrow>
         (if attempts k h = [] then call_retry c = None else retries (last (attempts k h)) (c, e)))"
    by (simp add: step_accepts_def co ro)
  show ?thesis
    unfolding tool_history_def m1 m2 m3 m4 m5 m6
    by (rule iffI; elim conjE; intro conjI; assumption)
next
  case (ToolResultEvent r)
  then have "call_of e = []" and "result_of e = [r]"
    by (auto simp: call_of.simps result_of.simps)
  then show ?thesis
    by (auto simp: tool_history_def step_accepts_def attempts_snoc tool_results_answer_snoc)
qed (simp_all add: tool_history_def step_accepts_def attempts_snoc tool_results_answer_snoc call_of.simps result_of.simps)

section \<open>The state of the scan\<close>

definition scan_state :: "'v session_event list \<Rightarrow> 'v calls \<times> 'v operations \<Rightarrow> bool" where
  "scan_state h = (\<lambda>(calls, operations).
     bt_wf calls \<and>
     (\<forall>i ce. map_of calls i = Some ce \<longleftrightarrow>
        (ce_call ce, ce_event ce) \<in> set (history_calls h) \<and> tl_id (ce_call ce) = i \<and>
        ce_result ce = recorded_result h i) \<and>
     operations = (\<lambda>k. if attempts k h = [] then None else Some (last (attempts k h))))"

lemma scan_state_Nil [simp]: "scan_state [] ([], Map.empty)"
  by (simp add: scan_state_def)

lemma recorded_result_None: "recorded_result h i = None \<longleftrightarrow> i \<notin> tres_call_id ` set (history_results h)"
  by (auto simp: recorded_result_def find_None_iff)

lemma recorded_result_snoc:
  "recorded_result (h @ [e]) i = (case recorded_result h i of
     Some r \<Rightarrow> Some r | None \<Rightarrow> find (\<lambda>r. tres_call_id r = i) (result_of e))"
proof -
  have "find P (xs @ ys) = (case find P xs of Some x \<Rightarrow> Some x | None \<Rightarrow> find P ys)" for P and xs ys :: "tool_result list"
    by (induction xs) auto
  then show ?thesis by (simp add: recorded_result_def)
qed

lemma attempt_operation:
  assumes "attempts k h \<noteq> []"
  shows "operation_key (fst (last (attempts k h))) = Some k"
proof -
  obtain c e where l: "last (attempts k h) = (c, e)" by (cases "last (attempts k h)")
  with last_in_set [OF assms] show ?thesis by (simp add: set_attempts)
qed

text \<open>The check of the binding is the chain's link.\<close>

lemma check_binding_Ok:
  assumes op: "tl_operation c = Some op" and k: "k = (op_task_id op, op_key op)"
    and ops: "operations = (\<lambda>k. if attempts k h = [] then None else Some (last (attempts k h)))"
  shows "check_binding c op operations = Ok () \<longleftrightarrow>
      (if attempts k h = [] then call_retry c = None else retries (last (attempts k h)) (c, e))"
proof (cases "attempts k h = []")
  case True
  then show ?thesis using op k by (auto simp: check_binding_def ops call_retry_def)
next
  case False
  obtain old ev where l: "last (attempts k h) = (old, ev)" by (cases "last (attempts k h)")
  obtain p where p: "tl_operation old = Some p"
    using attempt_operation [OF False] l by (auto simp: operation_key_def)
  show ?thesis
    using False op k l p
    by (auto simp: check_binding_def ops retries_def call_retry_def split: option.splits)
qed

lemma check_binding_neq_Panic:
  assumes ops: "operations = (\<lambda>k. if attempts k h = [] then None else Some (last (attempts k h)))"
  shows "check_binding c op operations \<noteq> Panic"
proof (cases "attempts (op_task_id op, op_key op) h = []")
  case False
  obtain old ev where l: "last (attempts (op_task_id op, op_key op) h) = (old, ev)"
    by (cases "last (attempts (op_task_id op, op_key op) h)")
  obtain p where "tl_operation old = Some p"
    using attempt_operation [OF False] l by (auto simp: operation_key_def)
  then show ?thesis using False l by (auto simp: check_binding_def ops split: option.splits)
qed (simp add: check_binding_def ops)

lemma validate_operation_neq_Panic [simp]: "validate_operation op \<noteq> Panic"
  by (auto simp: validate_operation_def validate_tool_contract_def validate_review_def and_then_eq_Panic
    split: option.splits if_splits)


lemma id_without_call:
  assumes "tool_history h" and "i \<notin> tl_id ` fst ` set (history_calls h)"
  shows "recorded_result h i = None"
proof (rule ccontr)
  assume "recorded_result h i \<noteq> None"
  then obtain r where r: "r \<in> set (history_results h)" "tres_call_id r = i"
    by (auto simp: recorded_result_None)
  then obtain e where e: "e \<in> set h" "se_kind e = ToolResultEvent r" by (auto simp: set_tool_results)
  then obtain n where n: "n < length h" "h ! n = e" by (auto simp: in_set_conv_nth)
  have "r \<in> set (result_of (h ! n))" using n e by (simp add: set_result_of)
  moreover have "tool_results_answer h" using assms(1) by (simp add: tool_history_def)
  ultimately obtain c e' where "(c, e') \<in> set (history_calls (take n h))" "tl_id c = i"
    using n(1) r(2) unfolding tool_results_answer_def by blast
  then have "(c, e') \<in> set (history_calls h)"
    by (simp add: set_history_calls) (blast dest: in_set_takeD)
  with \<open>tl_id c = i\<close> assms(2) show False by force
qed

lemma distinct_calls:
  assumes "tool_history h" and "x \<in> set (history_calls h)" and "y \<in> set (history_calls h)"
    and "tl_id (fst x) = tl_id (fst y)"
  shows "x = y"
  using assms by (auto simp: tool_history_def distinct_map inj_on_def)

lemma scan_state_call:
  assumes "scan_state h (calls, operations)"
  shows "map_of calls i = None \<longleftrightarrow> i \<notin> tl_id ` fst ` set (history_calls h)"
proof -
  have iff: "map_of calls i = Some ce \<longleftrightarrow>
      (ce_call ce, ce_event ce) \<in> set (history_calls h) \<and> tl_id (ce_call ce) = i \<and> ce_result ce = recorded_result h i" for ce
    using assms by (simp add: scan_state_def)
  show ?thesis
  proof
    assume none: "map_of calls i = None"
    show "i \<notin> tl_id ` fst ` set (history_calls h)"
    proof
      assume "i \<in> tl_id ` fst ` set (history_calls h)"
      then obtain c e where "(c, e) \<in> set (history_calls h)" "tl_id c = i" by auto
      then show False
        using iff [of "\<lparr>ce_call = c, ce_event = e, ce_result = recorded_result h i\<rparr>"] none by simp
    qed
  next
    assume "i \<notin> tl_id ` fst ` set (history_calls h)"
    moreover have "i \<in> tl_id ` fst ` set (history_calls h)" if "map_of calls i = Some ce" for ce
      using that iff [of ce] by (metis fst_conv imageI)
    ultimately show "map_of calls i = None" by (cases "map_of calls i") auto
  qed
qed

text \<open>A step succeeds exactly when the event fits the history before it.\<close>

lemma evidence_step_accepts:
  assumes "scan_state h s"
  shows "(\<exists>s'. evidence_step e s = Ok s') \<longleftrightarrow> step_accepts h e"
proof (cases "se_kind e")
  case (ToolCallEvent c)
  obtain calls operations where s: "s = (calls, operations)" by (cases s)
  have ops: "operations = (\<lambda>k. if attempts k h = [] then None else Some (last (attempts k h)))"
    using assms s by (simp add: scan_state_def)
  have co: "call_of e = [(c, e)]" "result_of e = []"
    using ToolCallEvent by (auto simp: call_of.simps result_of.simps)
  show ?thesis
  proof (cases "tl_operation c")
    case None
    then show ?thesis
      using ToolCallEvent
      by (auto simp: s evidence_step_def evidence_call_def step_accepts_def co call_valid_def operation_key_def
        scan_state_call [OF assms [unfolded s]] simp del: not_None_eq)
  next
    case (Some op)
    note link = check_binding_Ok [OF Some refl ops, where e = e]
    have "(\<exists>s'. evidence_step e s = Ok s') \<longleftrightarrow>
        text_valid (tl_id c) \<and> tl_name c \<noteq> [] \<and> length (tl_name c) \<le> MAX_TOOL_NAME_BYTES \<and>
        map_of calls (tl_id c) = None \<and> validate_operation op = Ok () \<and> check_binding c op operations = Ok ()"
      using ToolCallEvent Some by (auto simp: s evidence_step_def evidence_call_def simp del: not_None_eq)
    also have "\<dots> \<longleftrightarrow> step_accepts h e"
      by (simp add: step_accepts_def co call_valid_def operation_key_def Some link conj_ac
        scan_state_call [OF assms [unfolded s]])
    finally show ?thesis .
  qed
next
  case (ToolResultEvent r)
  obtain calls operations where s: "s = (calls, operations)" by (cases s)
  have co: "call_of e = []" "result_of e = [r]"
    using ToolResultEvent by (auto simp: call_of.simps result_of.simps)
  have iff: "map_of calls i = Some ce \<longleftrightarrow>
      (ce_call ce, ce_event ce) \<in> set (history_calls h) \<and> tl_id (ce_call ce) = i \<and> ce_result ce = recorded_result h i" for i ce
    using assms s by (simp add: scan_state_def)
  have "(\<exists>s'. evidence_step e s = Ok s') \<longleftrightarrow>
      (\<exists>ce. map_of calls (tres_call_id r) = Some ce \<and> se_turn_id (ce_event ce) = se_turn_id e \<and> ce_result ce = None)"
    using ToolResultEvent by (auto simp: s evidence_step_def evidence_result_def split: option.splits)
  also have "\<dots> \<longleftrightarrow> step_accepts h e"
  proof
    assume "\<exists>ce. map_of calls (tres_call_id r) = Some ce \<and> se_turn_id (ce_event ce) = se_turn_id e \<and> ce_result ce = None"
    then obtain ce where "map_of calls (tres_call_id r) = Some ce" "se_turn_id (ce_event ce) = se_turn_id e"
      "ce_result ce = None" by blast
    then show "step_accepts h e"
      using recorded_result_None [of h "tres_call_id r"] by (force simp: step_accepts_def co iff)
  next
    assume a: "step_accepts h e"
    then obtain c e' where c: "(c, e') \<in> set (history_calls h)" "tl_id c = tres_call_id r" "se_turn_id e' = se_turn_id e"
      by (auto simp: step_accepts_def co)
    have "recorded_result h (tres_call_id r) = None"
      using a by (simp add: recorded_result_None step_accepts_def co)
    with c show "\<exists>ce. map_of calls (tres_call_id r) = Some ce \<and> se_turn_id (ce_event ce) = se_turn_id e \<and> ce_result ce = None"
      by (intro exI [of _ "\<lparr>ce_call = c, ce_event = e', ce_result = None\<rparr>"]) (simp add: iff)
  qed
  finally show ?thesis .
qed (simp_all add: evidence_step_def step_accepts_def call_of.simps result_of.simps)

lemma evidence_step_neq_Panic:
  assumes "scan_state h s"
  shows "evidence_step e s \<noteq> Panic"
proof -
  obtain calls operations where s: "s = (calls, operations)" by (cases s)
  have ops: "operations = (\<lambda>k. if attempts k h = [] then None else Some (last (attempts k h)))"
    using assms s by (simp add: scan_state_def)
  show ?thesis
    by (auto simp: s evidence_step_def evidence_call_def evidence_result_def and_then_eq_Panic
      check_binding_neq_Panic [OF ops] split: session_event_kind.splits option.splits)
qed


lemma quiet_event:
  assumes "call_of e = []" and "result_of e = []"
  shows "scan_state (h @ [e]) s = scan_state h s"
proof -
  have c: "history_calls (h @ [e]) = history_calls h" by (simp add: assms)
  have r: "recorded_result (h @ [e]) = recorded_result h"
    by (rule ext) (simp add: recorded_result_def assms)
  have a: "attempts k (h @ [e]) = attempts k h" for k by (simp add: attempts_snoc assms)
  show ?thesis unfolding scan_state_def c r a ..
qed

lemma evidence_step_state:
  assumes h: "tool_history h" and sc: "scan_state h s" and step: "evidence_step e s = Ok s'"
  shows "scan_state (h @ [e]) s'"
proof -
  obtain calls operations where s: "s = (calls, operations)" by (cases s)
  have acc: "step_accepts h e" using evidence_step_accepts [OF sc, of e] step by blast
  have wf: "bt_wf calls" and iff: "map_of calls i = Some ce \<longleftrightarrow>
      (ce_call ce, ce_event ce) \<in> set (history_calls h) \<and> tl_id (ce_call ce) = i \<and> ce_result ce = recorded_result h i"
    and ops: "operations = (\<lambda>k. if attempts k h = [] then None else Some (last (attempts k h)))" for i ce
    using sc s by (simp_all add: scan_state_def)
  show ?thesis
  proof (cases "se_kind e")
    case (ToolCallEvent c)
    have co: "call_of e = [(c, e)]" "result_of e = []"
      using ToolCallEvent by (auto simp: call_of.simps result_of.simps)
    obtain operations' where s': "s' = (bt_insert (tl_id c) \<lparr>ce_call = c, ce_event = e, ce_result = None\<rparr> calls, operations')"
      and o': "operations' = (case tl_operation c of None \<Rightarrow> operations
        | Some op \<Rightarrow> operations((op_task_id op, op_key op) \<mapsto> (c, e)))"
      using step ToolCallEvent
      by (cases "tl_operation c") (auto simp: s evidence_step_def evidence_call_def split: if_splits)
    have new: "tl_id c \<notin> tl_id ` fst ` set (history_calls h)" using acc by (simp add: step_accepts_def co)
    have none: "recorded_result h (tl_id c) = None" by (rule id_without_call [OF h new])
    have rr: "recorded_result (h @ [e]) i = recorded_result h i" for i
      by (simp add: recorded_result_snoc co split: option.splits)
    have "map_of (fst s') i = Some ce \<longleftrightarrow> (ce_call ce, ce_event ce) \<in> set (history_calls (h @ [e])) \<and>
        tl_id (ce_call ce) = i \<and> ce_result ce = recorded_result (h @ [e]) i" for i ce
    proof (cases "i = tl_id c")
      case True
      have "(ce_call ce, ce_event ce) \<notin> set (history_calls h)" if "tl_id (ce_call ce) = tl_id c"
        using new that call_id_mem by metis
      then show ?thesis using True by (cases ce) (auto simp: s' rr none co)
    next
      case False
      then show ?thesis by (auto simp: s' rr co iff)
    qed
    moreover have "operations' = (\<lambda>k. if attempts k (h @ [e]) = [] then None else Some (last (attempts k (h @ [e]))))"
      by (cases "tl_operation c") (auto simp: o' ops attempts_snoc co fun_eq_iff operation_key_def)
    ultimately show ?thesis using wf by (simp add: scan_state_def s')
  next
    case (ToolResultEvent r)
    have co: "call_of e = []" "result_of e = [r]"
      using ToolResultEvent by (auto simp: call_of.simps result_of.simps)
    have s': "s' = (bt_modify (tres_call_id r) (\<lambda>ce. ce\<lparr>ce_result := Some r\<rparr>) calls, operations)"
      using step ToolResultEvent
      by (auto simp: s evidence_step_def evidence_result_def split: option.splits if_splits)
    have at: "attempts k (h @ [e]) = attempts k h" for k by (simp add: attempts_snoc co)
    have none: "recorded_result h (tres_call_id r) = None"
      using acc by (simp add: recorded_result_None step_accepts_def co)
    have rr: "recorded_result (h @ [e]) i = (if i = tres_call_id r then Some r else recorded_result h i)" for i
      by (simp add: recorded_result_snoc co none split: option.splits)
    have "map_of (fst s') i = Some ce \<longleftrightarrow> (ce_call ce, ce_event ce) \<in> set (history_calls (h @ [e])) \<and>
        tl_id (ce_call ce) = i \<and> ce_result ce = recorded_result (h @ [e]) i" for i ce
    proof (cases "i = tres_call_id r")
      case True
      have "map_of (fst s') i = Some ce \<longleftrightarrow> (\<exists>d. map_of calls i = Some d \<and> ce = d\<lparr>ce_result := Some r\<rparr>)"
        using True by (auto simp: s')
      also have "\<dots> \<longleftrightarrow> map_of calls i = Some (ce\<lparr>ce_result := None\<rparr>) \<and> ce_result ce = Some r"
      proof
        assume "\<exists>d. map_of calls i = Some d \<and> ce = d\<lparr>ce_result := Some r\<rparr>"
        then show "map_of calls i = Some (ce\<lparr>ce_result := None\<rparr>) \<and> ce_result ce = Some r"
          using True by (auto simp: iff none)
      next
        assume "map_of calls i = Some (ce\<lparr>ce_result := None\<rparr>) \<and> ce_result ce = Some r"
        then show "\<exists>d. map_of calls i = Some d \<and> ce = d\<lparr>ce_result := Some r\<rparr>"
          by (intro exI [of _ "ce\<lparr>ce_result := None\<rparr>"]) (cases ce, simp)
      qed
      finally show ?thesis using True by (simp add: iff rr co none)
    next
      case False
      then show ?thesis by (simp add: s' rr co iff)
    qed
    moreover have "operations = (\<lambda>k. if attempts k (h @ [e]) = [] then None else Some (last (attempts k (h @ [e]))))"
      unfolding at by (rule ops)
    ultimately show ?thesis using wf by (simp add: scan_state_def s')
  qed (use sc step quiet_event [of e h s] in \<open>simp_all add: evidence_step_def call_of.simps result_of.simps\<close>)
qed

section \<open>The histories the scan accepts\<close>

lemma scan_evidence_snoc: "scan_evidence (h @ [e]) = and_then (scan_evidence h) (evidence_step e)"
proof -
  have "for_each evidence_step [e] x = evidence_step e x" for x by (cases "evidence_step e x") auto
  then have "for_each evidence_step [e] = evidence_step e" by (rule ext)
  then show ?thesis by (simp only: scan_evidence_def for_each_append)
qed

lemma scan_evidence_Ok: "scan_evidence h = Ok s \<Longrightarrow> tool_history h \<and> scan_state h s"
proof (induction h arbitrary: s rule: rev_induct)
  case Nil
  then show ?case by (auto simp: scan_evidence_def tool_history_def tool_results_answer_def)
next
  case (snoc e h)
  then obtain t where t: "scan_evidence h = Ok t" "evidence_step e t = Ok s"
    by (auto simp: scan_evidence_snoc)
  have h: "tool_history h" and st: "scan_state h t" using snoc.IH [OF t(1)] by auto
  have "step_accepts h e" using evidence_step_accepts [OF st, of e] t(2) by blast
  then show ?case using h evidence_step_state [OF h st t(2)] by (simp add: tool_history_snoc)
qed

lemma scan_evidence_iff: "(\<exists>s. scan_evidence h = Ok s) \<longleftrightarrow> tool_history h"
proof
  show "tool_history h \<Longrightarrow> \<exists>s. scan_evidence h = Ok s"
  proof (induction h rule: rev_induct)
    case Nil
    then show ?case by (simp add: scan_evidence_def)
  next
    case (snoc e h)
    then obtain t where t: "scan_evidence h = Ok t" by (auto simp: tool_history_snoc)
    then have "scan_state h t" using scan_evidence_Ok [OF t] by simp
    then show ?case
      using snoc.prems t evidence_step_accepts [of h t e] by (simp add: scan_evidence_snoc tool_history_snoc)
  qed
qed (use scan_evidence_Ok in blast)

lemma scan_evidence_neq_Panic: "scan_evidence h \<noteq> Panic"
proof (induction h rule: rev_induct)
  case (snoc e h)
  then show ?case
    using scan_evidence_Ok [of h] evidence_step_neq_Panic [of h _ e]
    by (auto simp: scan_evidence_snoc and_then_eq_Panic)
qed (simp add: scan_evidence_def)

section \<open>The evidence of one call\<close>

definition succeeded_call :: "'v session_event list \<Rightarrow> 'v tool_call \<Rightarrow> bool" where
  "succeeded_call h c \<longleftrightarrow> (case recorded_result h (tl_id c) of
     None \<Rightarrow> False | Some r \<Rightarrow> outcome_succeeded (tres_outcome r))"

text \<open>The latest attempt of its operation, no other attempt of which succeeded.\<close>

definition latest_attempt :: "'v session_event list \<Rightarrow> 'v tool_call \<times> 'v session_event \<Rightarrow> bool" where
  "latest_attempt h a \<longleftrightarrow>
     (\<forall>k. operation_key (fst a) = Some k \<longrightarrow>
        last (attempts k h) = a \<and>
        (\<forall>b \<in> set (attempts k h). tl_id (fst b) \<noteq> tl_id (fst a) \<longrightarrow> \<not> succeeded_call h (fst b)))"

definition evidence_of :: "'v session_event list \<Rightarrow> string \<Rightarrow> 'v call_evidence \<Rightarrow> bool" where
  "evidence_of h i ce \<longleftrightarrow>
     (ce_call ce, ce_event ce) \<in> set (history_calls h) \<and> tl_id (ce_call ce) = i \<and>
     ce_result ce = recorded_result h i \<and> latest_attempt h (ce_call ce, ce_event ce)"

lemma latest_attempt_iff:
  assumes h: "tool_history h" and a: "a \<in> set (history_calls h)" and k: "operation_key (fst a) = Some k"
  shows "last (attempts k h) = a \<longleftrightarrow> tl_id (fst (last (attempts k h))) = tl_id (fst a)"
proof -
  obtain c e where ce: "a = (c, e)" by (cases a)
  have "a \<in> set (attempts k h)" using a k unfolding ce by (simp add: attempts_def)
  then have "attempts k h \<noteq> []" by auto
  then have "last (attempts k h) \<in> set (history_calls h)"
    using last_in_set subsetD [OF filter_is_subset] by (metis attempts_def)
  then show ?thesis using distinct_calls [OF h _ a] by metis
qed

lemma completed_attempts:
  assumes sc: "scan_state h (calls, operations)" and op: "tl_operation c = Some op"
    and k: "k = (op_task_id op, op_key op)"
  shows "list_ex (\<lambda>(_, other). completed_attempt c op other) calls \<longleftrightarrow>
      (\<exists>b \<in> set (attempts k h). tl_id (fst b) \<noteq> tl_id c \<and> succeeded_call h (fst b))"
proof -
  have wf: "bt_wf calls" and iff: "map_of calls i = Some ce \<longleftrightarrow>
      (ce_call ce, ce_event ce) \<in> set (history_calls h) \<and> tl_id (ce_call ce) = i \<and> ce_result ce = recorded_result h i" for i ce
    using sc by (simp_all add: scan_state_def)
  have key: "operation_key d = Some k \<longleftrightarrow> (case tl_operation d of None \<Rightarrow> False
      | Some p \<Rightarrow> op_task_id p = op_task_id op \<and> op_key p = op_key op)" for d :: "'a tool_call"
    by (cases "tl_operation d") (auto simp: operation_key_def k)
  have "list_ex (\<lambda>(_, other). completed_attempt c op other) calls \<longleftrightarrow>
      (\<exists>i ce. map_of calls i = Some ce \<and> completed_attempt c op ce)"
    using map_of_eq_Some_iff [OF bt_wf_distinct [OF wf]] by (fastforce simp: list_ex_iff)
  also have "\<dots> \<longleftrightarrow> (\<exists>ce. (ce_call ce, ce_event ce) \<in> set (history_calls h) \<and>
      ce_result ce = recorded_result h (tl_id (ce_call ce)) \<and> completed_attempt c op ce)"
    by (auto simp: iff)
  also have "\<dots> \<longleftrightarrow> (\<exists>b \<in> set (attempts k h). tl_id (fst b) \<noteq> tl_id c \<and> succeeded_call h (fst b))"
  proof
    assume "\<exists>ce. (ce_call ce, ce_event ce) \<in> set (history_calls h) \<and>
      ce_result ce = recorded_result h (tl_id (ce_call ce)) \<and> completed_attempt c op ce"
    then obtain ce where ce: "(ce_call ce, ce_event ce) \<in> set (history_calls h)"
      "ce_result ce = recorded_result h (tl_id (ce_call ce))" "completed_attempt c op ce" by blast
    then have "(ce_call ce, ce_event ce) \<in> set (attempts k h)"
      by (simp add: attempts_def key completed_attempt_def)
    moreover have "tl_id (ce_call ce) \<noteq> tl_id c" "succeeded_call h (ce_call ce)"
      using ce by (simp_all add: completed_attempt_def succeeded_call_def)
    ultimately show "\<exists>b \<in> set (attempts k h). tl_id (fst b) \<noteq> tl_id c \<and> succeeded_call h (fst b)"
      by (intro bexI [of _ "(ce_call ce, ce_event ce)"]) auto
  next
    assume "\<exists>b \<in> set (attempts k h). tl_id (fst b) \<noteq> tl_id c \<and> succeeded_call h (fst b)"
    then obtain d e where b: "(d, e) \<in> set (attempts k h)" "tl_id d \<noteq> tl_id c" "succeeded_call h d" by auto
    let ?ce = "\<lparr>ce_call = d, ce_event = e, ce_result = recorded_result h (tl_id d)\<rparr>"
    have "(d, e) \<in> set (history_calls h)" "operation_key d = Some k" using b(1) by (auto simp: attempts_def)
    then show "\<exists>ce. (ce_call ce, ce_event ce) \<in> set (history_calls h) \<and>
      ce_result ce = recorded_result h (tl_id (ce_call ce)) \<and> completed_attempt c op ce"
      using b key [of d] by (intro exI [of _ ?ce]) (simp add: completed_attempt_def succeeded_call_def)
  qed
  finally show ?thesis .
qed

lemma select_evidence_iff:
  assumes h: "tool_history h" and sc: "scan_state h s"
  shows "select_evidence i s = Ok ce \<longleftrightarrow> evidence_of h i ce"
proof -
  obtain calls operations where s: "s = (calls, operations)" by (cases s)
  have iff: "map_of calls i = Some ce \<longleftrightarrow>
      (ce_call ce, ce_event ce) \<in> set (history_calls h) \<and> tl_id (ce_call ce) = i \<and> ce_result ce = recorded_result h i"
    and ops: "operations = (\<lambda>k. if attempts k h = [] then None else Some (last (attempts k h)))"
    using sc s by (simp_all add: scan_state_def)
  let ?a = "(ce_call ce, ce_event ce)"
  show ?thesis
  proof (cases "map_of calls i = Some ce")
    case False
    moreover have "select_evidence i s = Ok ce \<Longrightarrow> map_of calls i = Some ce"
      by (auto simp: select_evidence_def s split: option.splits if_splits)
    ultimately show ?thesis using iff by (auto simp: evidence_of_def)
  next
    case True
    then have a: "?a \<in> set (history_calls h)" "tl_id (ce_call ce) = i" using iff by auto
    show ?thesis
    proof (cases "tl_operation (ce_call ce)")
      case None
      then show ?thesis using True iff
        by (auto simp: select_evidence_def s evidence_of_def latest_attempt_def operation_key_def)
    next
      case (Some op)
      let ?k = "(op_task_id op, op_key op)"
      have k: "operation_key (fst ?a) = Some ?k" using Some by (simp add: operation_key_def)
      have mem: "?a \<in> set (attempts ?k h)" using a k by (simp add: attempts_def)
      then have ne: "attempts ?k h \<noteq> []" by auto
      have "select_evidence i s = Ok ce \<longleftrightarrow> tl_id (fst (last (attempts ?k h))) = i \<and>
          \<not> list_ex (\<lambda>(_, other). completed_attempt (ce_call ce) op other) calls"
        using True Some ne by (auto simp: select_evidence_def s ops split: prod.splits)
      also have "\<dots> \<longleftrightarrow> latest_attempt h ?a"
        using latest_attempt_iff [OF h a(1) k] k a(2)
        by (auto simp: completed_attempts [OF sc [unfolded s] Some refl] latest_attempt_def)
      finally show ?thesis using True iff by (simp add: evidence_of_def)
    qed
  qed
qed


section \<open>Evidence and plans\<close>

lemma tool_evidence_iff:
  "tool_evidence wr h i = Ok ce \<longleftrightarrow>
     h \<noteq> [] \<and> length h \<le> 100000 \<and> text_valid i \<and> history_fits wr h \<and>
     physical_log (se_session_id (hd h)) h \<and> tool_history h \<and> evidence_of h i ce"
proof -
  have "(\<exists>s. scan_evidence h = Ok s \<and> select_evidence i s = Ok ce) \<longleftrightarrow> tool_history h \<and> evidence_of h i ce"
    using scan_evidence_Ok [of h] scan_evidence_iff [of h] select_evidence_iff [of h] by blast
  then show ?thesis
    by (auto simp: tool_evidence_def validate_physical_log_Ok)
qed

lemma select_evidence_neq_Panic [simp]: "select_evidence i s \<noteq> Panic"
  by (auto simp: select_evidence_def and_then_eq_Panic split: prod.splits option.splits)

lemma tool_evidence_neq_Panic [simp]: "tool_evidence wr h i \<noteq> Panic"
  by (auto simp: tool_evidence_def and_then_eq_Panic scan_evidence_neq_Panic)

lemma inspect_iff:
  "inspect_tool_recovery wr h i = Ok a \<longleftrightarrow>
     (\<exists>ce. tool_evidence wr h i = Ok ce \<and>
        a = \<lparr>ras_call = ce_call ce, ras_result = ce_result ce,
             ras_status = recovery_status (map_option tres_outcome (ce_result ce))\<rparr>)"
  by (auto simp: inspect_tool_recovery_def)

lemma prepare_iff:
  "prepare_tool_retry wr h i review latches = (Ok plan, latches') \<longleftrightarrow>
     (\<exists>ce op. (case review of None \<Rightarrow> True | Some r \<Rightarrow> validate_review r = Ok ()) \<and>
        tool_evidence wr h i = Ok ce \<and> tl_operation (ce_call ce) = Some op \<and>
        recovery_status (map_option tres_outcome (ce_result ce)) \<noteq> RsCompleted \<and>
        \<not> review_says ReviewCompleted review \<and>
        (recovery_status (map_option tres_outcome (ce_result ce)) = RsNotExecuted \<or> review_says NotExecuted review \<or>
         ec_effect (op_contract op) = ReadOnly \<or> ec_effect (op_contract op) = Idempotent) \<and>
        plan = \<lparr>rp_source = ce_call ce, rp_session = se_session_id (ce_event ce),
          rp_source_event = se_event_id (ce_event ce), rp_review = review, rp_consumed = length latches\<rparr> \<and>
        latches' = latches @ [False])"
proof (cases "case review of None \<Rightarrow> Ok () | Some r \<Rightarrow> validate_review r")
  case review: (Ok u)
  show ?thesis
  proof (cases "tool_evidence wr h i")
    case evidence: (Ok ce)
    show ?thesis
    proof (cases "tl_operation (ce_call ce)")
      case None
      then show ?thesis
        by (auto simp: prepare_tool_retry_def inspect_tool_recovery_def Let_def review evidence)
    next
      case (Some op)
      let ?plan = "\<lparr>rp_source = ce_call ce, rp_session = se_session_id (ce_event ce),
          rp_source_event = se_event_id (ce_event ce), rp_review = review, rp_consumed = length latches\<rparr>"
      let ?st = "recovery_status (map_option tres_outcome (ce_result ce))"
      have "prepare_tool_retry wr h i review latches = (Ok plan, latches') \<longleftrightarrow>
          ?st \<noteq> RsCompleted \<and> \<not> review_says ReviewCompleted review \<and>
          (?st = RsNotExecuted \<or> review_says NotExecuted review \<or>
           ec_effect (op_contract op) = ReadOnly \<or> ec_effect (op_contract op) = Idempotent) \<and>
          plan = ?plan \<and> latches' = latches @ [False]"
        by (simp add: prepare_tool_retry_def inspect_tool_recovery_def Let_def review evidence Some eq_commute [of plan]
          eq_commute [of latches'])
      moreover have "(case review of None \<Rightarrow> True | Some r \<Rightarrow> validate_review r = Ok ())"
        using review by (simp split: option.splits)
      ultimately show ?thesis using evidence Some by simp
    qed
  qed (auto simp: prepare_tool_retry_def inspect_tool_recovery_def Let_def review)
qed (auto simp: prepare_tool_retry_def Let_def split: option.splits)

lemma prepare_latches:
  "prepare_tool_retry wr h i review latches = (r, latches') \<Longrightarrow>
     latches' = (if is_ok r then latches @ [False] else latches)"
  by (auto simp: prepare_tool_retry_def Let_def)

lemma take_iff:
  "take_operation plan session task name arguments contract latches = (Ok op', latches') \<longleftrightarrow>
     (\<exists>op. tl_operation (rp_source plan) = Some op \<and> rp_session plan = session \<and> op_task_id op = task \<and>
        tl_name (rp_source plan) = name \<and> tl_arguments (rp_source plan) = arguments \<and> op_contract op = contract \<and>
        \<not> latches ! rp_consumed plan \<and>
        op' = op\<lparr>op_retry := Some \<lparr>ra_call_id = tl_id (rp_source plan), ra_event_id = rp_source_event plan,
          ra_review = rp_review plan\<rparr>\<rparr> \<and>
        latches' = latches[rp_consumed plan := True])"
  by (auto simp: take_operation_def split: option.splits if_splits)

lemma take_refused:
  "take_operation plan session task name arguments contract latches = (r, latches') \<Longrightarrow> \<not> is_ok r \<Longrightarrow> latches' = latches"
  by (auto simp: take_operation_def split: option.splits if_splits)

end
