(* ===== verification/ToolProps.thy ===== *)
theory ToolProps
  imports ToolRecoveryInv
begin

text \<open>
  The properties of the recovery of tool calls: what the scan of a history accepts, when one more
  attempt may be planned, how often a plan is used, and that the attempt it admits is accepted by
  the next inspection.
\<close>

section \<open>Plans\<close>

text \<open>
  A host's plans: each is prepared from a history, and each of its clones may be taken any number of
  times, in any order.
\<close>

inductive retry_reach ::
    "'v history_writer \<Rightarrow> 'v tool_retry_plan list \<Rightarrow> latches \<Rightarrow> ('v tool_retry_plan \<times> tool_operation) list \<Rightarrow> bool"
  for wr where
  retry_start: "retry_reach wr [] [] []"
| retry_prepare:
    "retry_reach wr plans latches taken \<Longrightarrow> prepare_tool_retry wr h i review latches = (r, latches') \<Longrightarrow>
     retry_reach wr (case r of Ok plan \<Rightarrow> plans @ [plan] | _ \<Rightarrow> plans) latches' taken"
| retry_take:
    "retry_reach wr plans latches taken \<Longrightarrow> plan \<in> set plans \<Longrightarrow>
     take_operation plan session task name arguments contract latches = (r, latches') \<Longrightarrow>
     retry_reach wr plans latches' (case r of Ok op \<Rightarrow> taken @ [(plan, op)] | _ \<Rightarrow> taken)"

definition plan_audit :: "'v tool_retry_plan \<Rightarrow> tool_retry_audit" where
  "plan_audit plan = \<lparr>ra_call_id = tl_id (rp_source plan), ra_event_id = rp_source_event plan, ra_review = rp_review plan\<rparr>"

definition latches_mark_taken ::
    "'v tool_retry_plan list \<Rightarrow> latches \<Rightarrow> ('v tool_retry_plan \<times> tool_operation) list \<Rightarrow> bool" where
  "latches_mark_taken plans latches taken \<longleftrightarrow>
     (\<forall>p \<in> set plans. rp_consumed p < length latches) \<and> distinct (map rp_consumed plans) \<and>
     fst ` set taken \<subseteq> set plans \<and> distinct (map fst taken) \<and>
     (\<forall>p \<in> set plans. latches ! rp_consumed p \<longleftrightarrow> p \<in> fst ` set taken) \<and>
     (\<forall>(p, op) \<in> set taken. op_retry op = Some (plan_audit p))"

lemma retry_prepare_marks:
  assumes inv: "latches_mark_taken plans latches taken"
    and prepare: "prepare_tool_retry wr h i review latches = (r, latches')"
  shows "latches_mark_taken (case r of Ok plan \<Rightarrow> plans @ [plan] | _ \<Rightarrow> plans) latches' taken"
proof (cases r)
  case (Ok plan)
  then have p: "rp_consumed plan = length latches" and l: "latches' = latches @ [False]"
    using prepare by (auto simp: prepare_iff)
  have below: "rp_consumed p < length latches" if "p \<in> set plans" for p
    using inv that by (simp add: latches_mark_taken_def)
  then have fresh: "rp_consumed plan \<notin> rp_consumed ` set plans" using p by fastforce
  then have "plan \<notin> set plans" by blast
  then have "plan \<notin> fst ` set taken" using inv by (auto simp: latches_mark_taken_def)
  moreover have "\<forall>q \<in> set (plans @ [plan]). rp_consumed q < length latches'"
    using below by (auto simp: p l less_SucI)
  moreover have "latches' ! rp_consumed q \<longleftrightarrow> q \<in> fst ` set taken" if "q \<in> set plans" for q
    using inv below [OF that] that by (simp add: latches_mark_taken_def l nth_append)
  moreover have "\<not> latches' ! rp_consumed plan" by (simp add: l p)
  ultimately show ?thesis
    using inv fresh unfolding Ok latches_mark_taken_def by auto
qed (use inv prepare_latches [OF prepare] in simp_all)

lemma retry_take_marks:
  assumes inv: "latches_mark_taken plans latches taken" and p: "plan \<in> set plans"
    and take: "take_operation plan session task name arguments contract latches = (r, latches')"
  shows "latches_mark_taken plans latches' (case r of Ok op \<Rightarrow> taken @ [(plan, op)] | _ \<Rightarrow> taken)"
proof (cases r)
  case (Ok op)
  then have t: "\<not> latches ! rp_consumed plan" "latches' = latches[rp_consumed plan := True]"
    "op_retry op = Some (plan_audit plan)"
    using take by (auto simp: take_iff plan_audit_def)
  have below: "rp_consumed plan < length latches" and dist: "distinct (map rp_consumed plans)"
    using inv p by (simp_all add: latches_mark_taken_def)
  have new: "plan \<notin> fst ` set taken" using inv p t(1) by (simp add: latches_mark_taken_def)
  have idem: "rp_consumed q = rp_consumed plan \<longleftrightarrow> q = plan" if "q \<in> set plans" for q
    using dist p that by (auto simp: distinct_map inj_on_def)
  have "latches' ! rp_consumed q \<longleftrightarrow> q \<in> fst ` set (taken @ [(plan, op)])" if "q \<in> set plans" for q
    using inv below that idem [OF that] by (auto simp: t(2) nth_list_update latches_mark_taken_def)
  with inv p new t show ?thesis by (simp add: Ok latches_mark_taken_def)
qed (use inv take_refused [OF take] in simp_all)

lemma reach_marks_taken: "retry_reach wr plans latches taken \<Longrightarrow> latches_mark_taken plans latches taken"
proof (induction rule: retry_reach.induct)
  case retry_start
  then show ?case by (simp add: latches_mark_taken_def)
next
  case (retry_prepare plans latches taken h i review r latches')
  then show ?case by (blast intro: retry_prepare_marks)
next
  case (retry_take plans latches taken plan session task name arguments contract r latches')
  then show ?case by (blast intro: retry_take_marks)
qed

text \<open>What a prepared plan rests on: the evidence of its source.\<close>

definition prepared ::
    "'v session_event list \<Rightarrow> string \<Rightarrow> tool_retry_review option \<Rightarrow> 'v tool_retry_plan \<Rightarrow> 'v call_evidence
       \<Rightarrow> tool_operation \<Rightarrow> bool" where
  "prepared h i review plan ce op \<longleftrightarrow>
     (case review of None \<Rightarrow> True | Some r \<Rightarrow> validate_review r = Ok ()) \<and>
     tl_operation (ce_call ce) = Some op \<and> tl_id (ce_call ce) = i \<and> ce_result ce = recorded_result h i \<and>
     (ce_call ce, ce_event ce) \<in> set (attempts (op_task_id op, op_key op) h) \<and>
     last (attempts (op_task_id op, op_key op) h) = (ce_call ce, ce_event ce) \<and>
     (\<forall>a \<in> set (attempts (op_task_id op, op_key op) h). \<not> succeeded_call h (fst a)) \<and>
     (recovery_status (map_option tres_outcome (ce_result ce)) = RsNotExecuted \<or> review_says NotExecuted review \<or>
       ec_effect (op_contract op) = ReadOnly \<or> ec_effect (op_contract op) = Idempotent) \<and>
     \<not> review_says ReviewCompleted review \<and>
     rp_source plan = ce_call ce \<and> rp_session plan = se_session_id (ce_event ce) \<and>
     rp_source_event plan = se_event_id (ce_event ce) \<and> rp_review plan = review"

lemma prepare_prepared:
  assumes "prepare_tool_retry wr h i review latches = (Ok plan, latches')"
  shows "\<exists>ce op. prepared h i review plan ce op \<and> tool_evidence wr h i = Ok ce"
proof -
  from assms obtain ce op where review: "case review of None \<Rightarrow> True | Some r \<Rightarrow> validate_review r = Ok ()"
    and ev: "tool_evidence wr h i = Ok ce" and op: "tl_operation (ce_call ce) = Some op"
    and unfinished: "recovery_status (map_option tres_outcome (ce_result ce)) \<noteq> RsCompleted"
    and just: "recovery_status (map_option tres_outcome (ce_result ce)) = RsNotExecuted \<or> review_says NotExecuted review \<or>
       ec_effect (op_contract op) = ReadOnly \<or> ec_effect (op_contract op) = Idempotent"
      "\<not> review_says ReviewCompleted review"
    and plan: "rp_source plan = ce_call ce" "rp_session plan = se_session_id (ce_event ce)"
      "rp_source_event plan = se_event_id (ce_event ce)" "rp_review plan = review"
    unfolding prepare_iff by auto
  have e: "evidence_of h i ce" using ev by (simp add: tool_evidence_iff)
  let ?k = "(op_task_id op, op_key op)"
  have k: "operation_key (ce_call ce) = Some ?k" using op by (simp add: operation_key_def)
  have last: "last (attempts ?k h) = (ce_call ce, ce_event ce)" "tl_id (ce_call ce) = i"
      "ce_result ce = recorded_result h i" "(ce_call ce, ce_event ce) \<in> set (attempts ?k h)"
    and others: "\<forall>b \<in> set (attempts ?k h). tl_id (fst b) \<noteq> i \<longrightarrow> \<not> succeeded_call h (fst b)"
    using e k by (auto simp: evidence_of_def latest_attempt_def attempts_def)
  have "\<not> succeeded_call h (fst a)" if "a \<in> set (attempts ?k h)" for a
  proof (cases "tl_id (fst a) = i")
    case True
    then show ?thesis
      using unfinished last(3) by (auto simp: succeeded_call_def split: option.splits elim: outcome_succeeded.elims)
  qed (use others that in blast)
  then show ?thesis
    using review ev op just plan last by (intro exI [of _ ce] exI [of _ op]) (simp add: prepared_def)
qed

lemma validate_operation_retry:
  assumes "validate_operation op = Ok ()" and "text_valid (ra_call_id r)" and "text_valid (ra_event_id r)"
    and "case ra_review r of None \<Rightarrow> True | Some v \<Rightarrow> validate_review v = Ok ()"
  shows "validate_operation (op\<lparr>op_retry := Some r\<rparr>) = Ok ()"
  using assms by (auto simp: validate_operation_def split: option.splits if_splits)

lemma tool_evidence_not_latest:
  assumes h: "tool_history h" and log: "h \<noteq> []" "length h \<le> 100000" "text_valid i" "history_fits wr h"
      "physical_log (se_session_id (hd h)) h"
    and mem: "(c, e) \<in> set (attempts k h)" and i: "tl_id c = i"
    and later: "tl_id (fst (last (attempts k h))) \<noteq> i"
  shows "tool_evidence wr h i = Err ReNotLatestAttempt"
proof -
  obtain s where s: "scan_evidence h = Ok s" using h scan_evidence_iff by blast
  obtain calls operations where co: "s = (calls, operations)" by (cases s)
  have ops: "operations k = (if attempts k h = [] then None else Some (last (attempts k h)))"
    and iff: "map_of calls i = Some ce \<longleftrightarrow>
      (ce_call ce, ce_event ce) \<in> set (history_calls h) \<and> tl_id (ce_call ce) = i \<and> ce_result ce = recorded_result h i" for ce
    using scan_evidence_Ok [OF s] co by (simp_all add: scan_state_def)
  have c: "(c, e) \<in> set (history_calls h)" and k: "operation_key c = Some k" using mem by (auto simp: attempts_def)
  then obtain op where op: "tl_operation c = Some op" "k = (op_task_id op, op_key op)" by (auto simp: operation_key_def)
  have "map_of calls i = Some \<lparr>ce_call = c, ce_event = e, ce_result = recorded_result h i\<rparr>" using c i by (simp add: iff)
  moreover have "attempts k h \<noteq> []" using mem by auto
  ultimately have "select_evidence i s = Err ReNotLatestAttempt"
    using op ops later by (auto simp: select_evidence_def co split: prod.splits)
  then show ?thesis using log s by (simp add: tool_evidence_def validate_physical_log_Ok [of _ _ "()", THEN iffD2])
qed

section \<open>A history with an interrupted attempt\<close>

definition retry_contract :: tool_effect_contract where
  "retry_contract = \<lparr>ec_effect = ReadOnly, ec_revision = ''r1''\<rparr>"

definition retry_operation :: tool_operation where
  "retry_operation = \<lparr>op_task_id = ''task'', op_key = ''key'', op_contract = retry_contract, op_retry = None\<rparr>"

definition retry_event :: "event_id \<Rightarrow> u64 \<Rightarrow> nat session_event_kind \<Rightarrow> nat session_event" where
  "retry_event i seq kind = \<lparr>se_event_id = i, se_session_id = ''s'', se_turn_id = ''t'', se_generation_id = None,
     se_message_id = None, se_seq = seq, se_kind = kind\<rparr>"

definition retry_call :: "string \<Rightarrow> tool_operation \<Rightarrow> nat tool_call" where
  "retry_call i op = \<lparr>tl_operation = Some op, tl_action = None, tl_id = i, tl_name = ''read'', tl_arguments = 7\<rparr>"

definition retry_history :: "nat session_event list" where
  "retry_history = [retry_event ''e0'' 0 (ToolCallEvent (retry_call ''a'' retry_operation)),
     retry_event ''e1'' 1 (ToolResultEvent \<lparr>tres_call_id = ''a'', tres_outcome = ToolFailed TcTimeout ''late'' ''timed out'' True\<rparr>)]"

definition retry_plan :: "nat tool_retry_plan" where
  "retry_plan = \<lparr>rp_source = retry_call ''a'' retry_operation, rp_session = ''s'', rp_source_event = ''e0'',
     rp_review = None, rp_consumed = 0\<rparr>"

definition retried_operation :: tool_operation where
  "retried_operation = retry_operation\<lparr>op_retry := Some \<lparr>ra_call_id = ''a'', ra_event_id = ''e0'', ra_review = None\<rparr>\<rparr>"

definition retry_writer :: "nat history_writer" where
  "retry_writer history = Some (map (\<lambda>_. 100) history)"

lemma retry_evidence:
  "tool_evidence retry_writer retry_history ''a'' = Ok \<lparr>ce_call = retry_call ''a'' retry_operation,
     ce_event = retry_event ''e0'' 0 (ToolCallEvent (retry_call ''a'' retry_operation)),
     ce_result = Some \<lparr>tres_call_id = ''a'', tres_outcome = ToolFailed TcTimeout ''late'' ''timed out'' True\<rparr>\<rparr>"
proof -
  have "history_fits retry_writer retry_history"
    by (simp add: history_fits_def retry_writer_def retry_history_def history_limit_write_def HISTORY_BYTES_def)
  moreover have "validate_physical_log (se_session_id (hd retry_history)) retry_history = Ok ()" by code_simp
  moreover have "and_then (scan_evidence retry_history) (select_evidence ''a'') = Ok \<lparr>ce_call = retry_call ''a'' retry_operation,
     ce_event = retry_event ''e0'' 0 (ToolCallEvent (retry_call ''a'' retry_operation)),
     ce_result = Some \<lparr>tres_call_id = ''a'', tres_outcome = ToolFailed TcTimeout ''late'' ''timed out'' True\<rparr>\<rparr>"
    by code_simp
  moreover have "text_valid ''a''" by code_simp
  ultimately show ?thesis by (simp add: tool_evidence_def retry_history_def)
qed

lemma retry_prepared: "prepare_tool_retry retry_writer retry_history ''a'' None [] = (Ok retry_plan, [False])"
  unfolding prepare_iff
  by (intro exI conjI) (rule retry_evidence | simp add: retry_call_def retry_operation_def retry_contract_def retry_plan_def
    review_says_def retry_event_def)+

lemma retry_taken:
  "take_operation retry_plan ''s'' ''task'' ''read'' 7 retry_contract [False] = (Ok retried_operation, [True])"
  by code_simp

section \<open>Properties\<close>

text \<open>C26: the scan of a history accepts exactly the coherent histories, and its evidence is what they
  record. A call is evidenced if and only if the history is a nonempty physical log within the limits
  in which every call is valid and has its own id, the attempts of each operation form a chain with
  one name, arguments and contract where each retry names the attempt before it, every result
  answers an earlier call of its turn and no call has two; and the call is the latest attempt of its
  operation, no other attempt of which has succeeded.
\<close>

theorem evidence_accepts_iff:
  "tool_evidence wr h i = Ok ce \<longleftrightarrow>
     h \<noteq> [] \<and> length h \<le> 100000 \<and> text_valid i \<and> history_fits wr h \<and>
     physical_log (se_session_id (hd h)) h \<and> tool_history h \<and> evidence_of h i ce"
  by (rule tool_evidence_iff)

text \<open>C27: a retry is planned only on evidence. When a plan is prepared, no attempt of its operation has
  a recorded success, its source is the latest attempt, and the operation was not executed: either it
  may be repeated by its contract, or its recorded failure precedes the body, or the host's valid
  review says so; and no review says that it completed.
\<close>

theorem retries_are_justified:
  assumes "prepare_tool_retry wr h i review latches = (Ok plan, latches')"
  shows "\<exists>op e k. tl_operation (rp_source plan) = Some op \<and> k = (op_task_id op, op_key op) \<and>
    tl_id (rp_source plan) = i \<and> se_event_id e = rp_source_event plan \<and>
    last (attempts k h) = (rp_source plan, e) \<and>
    (\<forall>a \<in> set (attempts k h). \<not> succeeded_call h (fst a)) \<and>
    (ec_effect (op_contract op) \<in> {ReadOnly, Idempotent} \<or>
     (\<exists>category code message retryable. map_option tres_outcome (recorded_result h i) =
        Some (ToolFailed category code message retryable) \<and> \<not> executed_category category) \<or>
     (\<exists>r. review = Some r \<and> rv_outcome r = NotExecuted \<and> validate_review r = Ok ())) \<and>
    \<not> review_says ReviewCompleted review"
proof -
  obtain ce op where "prepared h i review plan ce op" using prepare_prepared [OF assms] by blast
  note source = this [unfolded prepared_def]
  have "\<exists>category code message retryable. map_option tres_outcome (recorded_result h i) =
      Some (ToolFailed category code message retryable) \<and> \<not> executed_category category"
    if "recovery_status (map_option tres_outcome (ce_result ce)) = RsNotExecuted"
    using that source by (auto elim!: recovery_status.elims split: if_splits)
  moreover have "\<exists>r. review = Some r \<and> rv_outcome r = NotExecuted \<and> validate_review r = Ok ()"
    if "review_says NotExecuted review"
    using that source by (auto simp: review_says_def split: option.splits)
  ultimately show ?thesis
    using source by (intro exI [of _ op] exI [of _ "ce_event ce"] exI [of _ "(op_task_id op, op_key op)"] conjI) auto
qed

theorem retries_are_justified_witness:
  "\<exists>op e k. tl_operation (rp_source retry_plan) = Some op \<and> k = (op_task_id op, op_key op) \<and>
    tl_id (rp_source retry_plan) = ''a'' \<and> se_event_id e = rp_source_event retry_plan \<and>
    last (attempts k retry_history) = (rp_source retry_plan, e)"
  using retries_are_justified [OF retry_prepared] by blast

text \<open>a plan is used once. However plans are prepared and their clones taken, no plan is taken
  twice, and the operation a take admits carries the audit of its plan.
\<close>

theorem plans_are_used_once:
  assumes "retry_reach wr plans latches taken"
  shows "distinct (map fst taken) \<and> distinct (map rp_consumed plans) \<and>
    (\<forall>(plan, op) \<in> set taken. plan \<in> set plans \<and> op_retry op = Some (plan_audit plan))"
  using reach_marks_taken [OF assms] by (auto simp: latches_mark_taken_def)

theorem plans_are_used_once_witness:
  "distinct (map fst [(retry_plan, retried_operation)]) \<and> op_retry retried_operation = Some (plan_audit retry_plan)"
proof -
  have "retry_reach retry_writer [retry_plan] [False] []"
    using retry_reach.retry_prepare [OF retry_reach.retry_start retry_prepared] by simp
  from retry_reach.retry_take [OF this _ retry_taken]
  have "retry_reach retry_writer [retry_plan] [True] [(retry_plan, retried_operation)]" by simp
  from plans_are_used_once [OF this] show ?thesis by simp
qed

text \<open>a retry extends the chain. The call recorded for an operation taken from a plan is accepted
  by the next inspection of the history that ends with it, as an attempt with unknown outcome, and
  the attempt it repeats can no longer be planned.
\<close>

theorem taken_retries_extend_the_history:
  assumes plan: "prepare_tool_retry wr h i review latches = (Ok plan, latches')"
    and take: "take_operation plan session task name arguments contract latches2 = (Ok op, latches3)"
    and new: "se_kind e = ToolCallEvent call" "tl_operation call = Some op" "tl_name call = name"
      "tl_arguments call = arguments" "text_valid (tl_id call)"
      "\<forall>(c, _) \<in> set (history_calls h). tl_id c \<noteq> tl_id call"
    and log: "physical_log session (h @ [e])" "length h < 100000" "history_fits wr (h @ [e])"
      "text_valid (rp_source_event plan)"
  shows "inspect_tool_recovery wr (h @ [e]) (tl_id call) =
      Ok \<lparr>ras_call = call, ras_result = None, ras_status = RsOutcomeUnknown\<rparr> \<and>
    inspect_tool_recovery wr (h @ [e]) i = Err ReNotLatestAttempt"
proof -
  obtain ce op0 where p: "prepared h i review plan ce op0" and ev: "tool_evidence wr h i = Ok ce"
    using prepare_prepared [OF plan] by blast
  note source = p [unfolded prepared_def]
  let ?k = "(op_task_id op0, op_key op0)"
  have h: "tool_history h" and hi: "h \<noteq> []" "text_valid i" using ev by (simp_all add: tool_evidence_iff)
  from take source have op: "op = op0\<lparr>op_retry := Some (plan_audit plan)\<rparr>"
    and same: "name = tl_name (ce_call ce)" "arguments = tl_arguments (ce_call ce)"
    by (auto simp: take_iff plan_audit_def)
  have co: "call_of e = [(call, e)]" "result_of e = []" using new(1) by (simp_all add: call_of.simps result_of.simps)
  have key: "operation_key call = Some ?k" by (simp add: operation_key_def new(2) op)
  have mem: "(ce_call ce, ce_event ce) \<in> set (attempts ?k h)" using source by blast
  then have ne: "attempts ?k h \<noteq> []" by auto
  have "call_valid (ce_call ce)" using h mem by (auto simp: tool_history_def attempts_def)
  then have "call_valid call"
    using source hi log(4) same
    by (auto simp: call_valid_def new op plan_audit_def intro!: validate_operation_retry)
  moreover have "retries (ce_call ce, ce_event ce) (call, e)"
    using source by (simp add: retries_def new same op call_retry_def plan_audit_def)
  ultimately have acc: "step_accepts h e"
    using new(6) key ne source by (auto simp: step_accepts_def co)
  then have h2: "tool_history (h @ [e])" using h by (simp add: tool_history_snoc)
  have log2: "physical_log (se_session_id (hd (h @ [e]))) (h @ [e])"
    using log(1) hi by (auto simp: physical_log_def hd_conv_nth nth_append)
  have fresh: "tl_id call \<notin> tl_id ` fst ` set (history_calls h)" using new(6) by auto
  have at: "attempts ?k (h @ [e]) = attempts ?k h @ [(call, e)]" by (simp add: attempts_snoc co key)
  have same_success: "succeeded_call (h @ [e]) c = succeeded_call h c" for c
    by (simp add: succeeded_call_def recorded_result_snoc co split: option.splits)
  have "evidence_of (h @ [e]) (tl_id call) \<lparr>ce_call = call, ce_event = e, ce_result = None\<rparr>"
    using source key id_without_call [OF h fresh] same_success
    by (auto simp: evidence_of_def latest_attempt_def at co recorded_result_snoc)
  then have "tool_evidence wr (h @ [e]) (tl_id call) = Ok \<lparr>ce_call = call, ce_event = e, ce_result = None\<rparr>"
    using log(2,3) new(5) log2 h2 by (simp add: tool_evidence_iff)
  then have "inspect_tool_recovery wr (h @ [e]) (tl_id call) =
      Ok \<lparr>ras_call = call, ras_result = None, ras_status = RsOutcomeUnknown\<rparr>"
    by (simp add: inspect_tool_recovery_def)
  moreover have "tool_evidence wr (h @ [e]) i = Err ReNotLatestAttempt"
  proof (rule tool_evidence_not_latest [OF h2])
    show "(ce_call ce, ce_event ce) \<in> set (attempts ?k (h @ [e]))" using mem by (simp add: at)
    show "tl_id (fst (last (attempts ?k (h @ [e])))) \<noteq> i"
    proof -
      have "(ce_call ce, ce_event ce) \<in> set (history_calls h)" using mem by (simp add: attempts_def)
      then have "tl_id (ce_call ce) \<noteq> tl_id call" using new(6) by blast
      then show ?thesis using source by (simp add: at)
    qed
  qed (use log log2 hi source in auto)
  then have "inspect_tool_recovery wr (h @ [e]) i = Err ReNotLatestAttempt"
    by (simp add: inspect_tool_recovery_def)
  ultimately show ?thesis ..
qed


definition retry_next :: "nat session_event" where
  "retry_next = retry_event ''e2'' 2 (ToolCallEvent (retry_call ''b'' retried_operation))"

theorem taken_retries_extend_the_history_witness:
  "inspect_tool_recovery retry_writer (retry_history @ [retry_next]) ''b'' =
      Ok \<lparr>ras_call = retry_call ''b'' retried_operation, ras_result = None, ras_status = RsOutcomeUnknown\<rparr> \<and>
   inspect_tool_recovery retry_writer (retry_history @ [retry_next]) ''a'' = Err ReNotLatestAttempt"
proof -
  have call: "se_kind retry_next = ToolCallEvent (retry_call ''b'' retried_operation)"
    "tl_operation (retry_call ''b'' retried_operation) = Some retried_operation"
    "tl_name (retry_call ''b'' retried_operation) = ''read''" "tl_arguments (retry_call ''b'' retried_operation) = 7"
    "tl_id (retry_call ''b'' retried_operation) = ''b''"
    by (simp_all add: retry_next_def retry_event_def retry_call_def)
  have valid: "text_valid ''b''" "text_valid (rp_source_event retry_plan)" by code_simp+
  have fresh: "\<forall>(c, _) \<in> set (history_calls retry_history). tl_id c \<noteq> tl_id (retry_call ''b'' retried_operation)"
    by (simp add: history_calls_def call_of.simps retry_history_def retry_event_def retry_call_def)
  have "validate_physical_log ''s'' (retry_history @ [retry_next]) = Ok ()" by code_simp
  then have log: "physical_log ''s'' (retry_history @ [retry_next])" by (simp add: validate_physical_log_Ok)
  have "history_fits retry_writer (retry_history @ [retry_next])"
    by (simp add: history_fits_def retry_writer_def retry_history_def history_limit_write_def HISTORY_BYTES_def)
  moreover have "length retry_history < 100000" by (simp add: retry_history_def)
  ultimately show ?thesis
    using taken_retries_extend_the_history [OF retry_prepared retry_taken call(1-4) _ fresh log] call(5) valid by simp
qed

end
