(* ===== verification/TextBounds.thy ===== *)
theory TextBounds
  imports Jsonl
begin

text \<open>
  Where a string may be cut: a string is the list of the bytes of its UTF-8 encoding, and
  \<open>str::is_char_boundary\<close> looks at one byte.
\<close>

definition is_char_boundary :: "string \<Rightarrow> nat \<Rightarrow> bool" where
  "is_char_boundary s i \<longleftrightarrow>
     i = 0 \<or> i = length s \<or> (i < length s \<and> \<not> continuation (of_char (s ! i)))"

text \<open>The greatest boundary at or below an index, found by stepping back.\<close>

fun boundary_below :: "string \<Rightarrow> nat \<Rightarrow> nat" where
  "boundary_below s 0 = 0"
| "boundary_below s (Suc n) = (if \<not> is_char_boundary s (Suc n) then boundary_below s n else Suc n)"

lemma is_char_boundary_ends [simp]: "is_char_boundary s 0" "is_char_boundary s (length s)"
  by (simp_all add: is_char_boundary_def)

lemma boundary_below_le: "boundary_below s n \<le> n"
  by (induction n) auto

lemma boundary_below_boundary: "is_char_boundary s (boundary_below s n)"
  by (induction n) auto

lemma boundary_below_greatest: "m \<le> n \<Longrightarrow> is_char_boundary s m \<Longrightarrow> m \<le> boundary_below s n"
proof (induction n)
  case (Suc n)
  then show ?case by (cases "m = Suc n") auto
qed simp

lemma boundary_below_id: "is_char_boundary s n \<Longrightarrow> boundary_below s n = n"
  using boundary_below_greatest [of n n s] boundary_below_le [of s n] by simp

section \<open>Valid text\<close>

text \<open>A valid sequence starts with one character of at most four bytes.\<close>

lemma utf8_first:
  assumes "utf8_bytes bs" and "bs \<noteq> []"
  shows "\<exists>k. 0 < k \<and> k \<le> 4 \<and> k \<le> length bs \<and> utf8_bytes (drop k bs) \<and> \<not> continuation (bs ! 0) \<and>
    (\<forall>j. 0 < j \<longrightarrow> j < k \<longrightarrow> continuation (bs ! j))"
proof -
  obtain a rest where bs: "bs = a # rest" using assms(2) by (cases bs) auto
  show ?thesis
  proof (cases "a < 128")
    case True
    then show ?thesis using assms(1) by (intro exI [of _ 1]) (auto simp: bs continuation_def)
  next
    case a1: False
    show ?thesis
    proof (cases "194 \<le> a \<and> a \<le> 223")
      case True
      then obtain b cs where "rest = b # cs" "continuation b" "utf8_bytes cs"
        using assms(1) a1 by (auto simp: bs split: list.splits)
      then show ?thesis using True
        by (intro exI [of _ 2]) (auto simp: bs continuation_def less_Suc_eq nth_Cons')
    next
      case a2: False
      show ?thesis
      proof (cases "224 \<le> a \<and> a \<le> 239")
        case True
        then obtain b c ds where "rest = b # c # ds" "continuation b" "continuation c" "utf8_bytes ds"
          using assms(1) a1 a2 by (auto simp: bs split: list.splits)
        then show ?thesis using True
          by (intro exI [of _ 3]) (auto simp: bs continuation_def less_Suc_eq nth_Cons' numeral_3_eq_3)
      next
        case a3: False
        then have a4: "240 \<le> a \<and> a \<le> 244" using assms(1) a1 a2 by (auto simp: bs split: if_splits)
        then obtain b c d es where "rest = b # c # d # es" "continuation b" "continuation c" "continuation d" "utf8_bytes es"
          using assms(1) a1 a2 a3 by (auto simp: bs split: list.splits)
        then show ?thesis using a4
          by (intro exI [of _ 4]) (auto simp: bs continuation_def less_Suc_eq nth_Cons' eval_nat_numeral)
      qed
    qed
  qed
qed

lemma utf8_next:
  "utf8_bytes bs \<Longrightarrow> i < length bs \<Longrightarrow> \<not> continuation (bs ! i) \<Longrightarrow>
     \<exists>j. i < j \<and> j \<le> i + 4 \<and> j \<le> length bs \<and> (j < length bs \<longrightarrow> \<not> continuation (bs ! j))"
proof (induction "length bs" arbitrary: bs i rule: less_induct)
  case less
  then have "bs \<noteq> []" by auto
  from utf8_first [OF less.prems(1) this] obtain k where
    k: "0 < k" "k \<le> 4" "k \<le> length bs" "utf8_bytes (drop k bs)" "\<forall>j. 0 < j \<longrightarrow> j < k \<longrightarrow> continuation (bs ! j)" by blast
  show ?case
  proof (cases "i = 0")
    case True
    have "\<not> continuation (bs ! k)" if "k < length bs"
      using utf8_first [OF k(4)] that k(3) by (auto simp: nth_drop)
    then show ?thesis using True k by (intro exI [of _ k]) auto
  next
    case False
    then have ge: "k \<le> i" using k(5) less.prems(3) by (meson not_le_imp_less not_gr0)
    have "\<exists>j. i - k < j \<and> j \<le> i - k + 4 \<and> j \<le> length (drop k bs) \<and> (j < length (drop k bs) \<longrightarrow> \<not> continuation (drop k bs ! j))"
      using less.prems k ge \<open>bs \<noteq> []\<close> by (intro less.hyps [OF _ k(4)]) auto
    then obtain j where "i - k < j" "j \<le> i - k + 4" "j \<le> length bs - k" "j < length bs - k \<longrightarrow> \<not> continuation (bs ! (k + j))"
      using k(3) by auto
    then show ?thesis using ge k(3) by (intro exI [of _ "k + j"]) auto
  qed
qed

lemma next_boundary:
  assumes "valid_utf8 s" and "i < length s" and "is_char_boundary s i"
  shows "\<exists>j. i < j \<and> j \<le> i + 4 \<and> j \<le> length s \<and> is_char_boundary s j"
proof -
  have "\<not> continuation (map of_char s ! i)"
  proof (cases "i = 0")
    case True
    have "map of_char s \<noteq> ([] :: nat list)" using assms(2) by auto
    from utf8_first [OF _ this] assms(1) True show ?thesis by (auto simp: valid_utf8_def)
  qed (use assms in \<open>auto simp: is_char_boundary_def\<close>)
  then obtain j where "i < j" "j \<le> i + 4" "j \<le> length s" "j < length s \<longrightarrow> \<not> continuation (map of_char s ! j)"
    using utf8_next [of "map of_char s" i] assms(1,2) by (auto simp: valid_utf8_def)
  then show ?thesis by (intro exI [of _ j]) (auto simp: is_char_boundary_def)
qed

end
