(* ===== verification/ToolRuntime.thy ===== *)
theory ToolRuntime
  imports ToolRecovery ModelRuntime PluginKernel OrderedSets TextBounds
begin

text \<open>
  The tool runtime, \<open>crates/tools/runtime/src/lib.rs\<close>: what its factory freezes, its control state with
  admission, completion and lifecycle, and the checks of a call before it is admitted. Tools, guards
  and authorizers are the handles of the plugin registry; \<open>serde_json\<close> and \<open>jsonschema\<close> are parameters.
\<close>

section \<open>Configuration\<close>

definition DEFAULT_TOOL_TIMEOUT :: duration where
  "DEFAULT_TOOL_TIMEOUT = 30 * 1000000000"

definition DEFAULT_TOOL_OUTPUT_BYTES :: usize where
  "DEFAULT_TOOL_OUTPUT_BYTES = 64 * 1024"

definition MAX_TOOL_DIAGNOSTIC_BYTES :: usize where
  "MAX_TOOL_DIAGNOSTIC_BYTES = 1024"

definition DEFAULT_MAX_IN_FLIGHT :: usize where
  "DEFAULT_MAX_IN_FLIGHT = 1024"

definition MAX_TOOL_LIFECYCLE_FAILURES :: usize where
  "MAX_TOOL_LIFECYCLE_FAILURES = 32"

datatype grant_spec = GrantNamed "string btree_set" | GrantAll

record tool_plugin =
  tp_grants :: "(string, grant_spec) btree_map"
  tp_default_timeout :: duration
  tp_max_output_bytes :: usize
  tp_max_in_flight :: usize

definition tool_plugin_new :: tool_plugin where
  "tool_plugin_new = \<lparr>tp_grants = [], tp_default_timeout = DEFAULT_TOOL_TIMEOUT,
     tp_max_output_bytes = DEFAULT_TOOL_OUTPUT_BYTES, tp_max_in_flight = DEFAULT_MAX_IN_FLIGHT\<rparr>"

definition grant_all :: "plugin_id \<Rightarrow> tool_plugin \<Rightarrow> tool_plugin" where
  "grant_all owner p = p\<lparr>tp_grants := bt_insert owner GrantAll (tp_grants p)\<rparr>"

definition grant_tool :: "plugin_id \<Rightarrow> string \<Rightarrow> tool_plugin \<Rightarrow> tool_plugin" where
  "grant_tool owner tool p =
     p\<lparr>tp_grants := bt_entry owner (GrantNamed [])
         (\<lambda>g. case g of GrantAll \<Rightarrow> GrantAll | GrantNamed keys \<Rightarrow> GrantNamed (bs_insert tool keys)) (tp_grants p)\<rparr>"

section \<open>What the factory freezes\<close>

text \<open>The schema compiler: its errors are displayed, its panics caught.\<close>

record 'v tool_ops =
  to_metadata :: "handle \<Rightarrow> ('v tool_metadata, unit) outcome"
  to_meta_validate :: "'v \<Rightarrow> (unit, string) outcome"
  to_compile :: "'v \<Rightarrow> ('v \<Rightarrow> (unit, string) outcome, string) outcome"
  to_value_chunks :: "'v \<Rightarrow> (usize list, string) outcome"

record 'v tool_entry =
  en_tool :: handle
  en_metadata :: "'v tool_metadata"
  en_validator :: "'v \<Rightarrow> (unit, string) outcome"

definition caught :: "('a, 'e) outcome \<Rightarrow> string \<Rightarrow> ('e \<Rightarrow> string) \<Rightarrow> ('a, string) outcome" where
  "caught r panicked text_of = (case r of Ok a \<Rightarrow> Ok a | Err e \<Rightarrow> Err (text_of e) | Panic \<Rightarrow> Err panicked)"

definition validate_local_schema :: "'v tool_ops \<Rightarrow> string \<Rightarrow> 'v \<Rightarrow> (unit, string) outcome" where
  "validate_local_schema ops key schema =
     caught (to_meta_validate ops schema) (''Tool `'' @ key @ ''` schema meta-validation panicked'')
       (\<lambda>e. ''Tool `'' @ key @ ''` schema is not valid Draft 2020-12: '' @ e)"

definition freeze_tool ::
    "'v tool_ops \<Rightarrow> (string, handle) btree_map \<Rightarrow> keyed_binding \<Rightarrow> (string, 'v tool_entry) btree_map
       \<Rightarrow> ((string, 'v tool_entry) btree_map, string) outcome" where
  "freeze_tool ops authorizers binding tools =
     (let key = kb_key binding in
      if key = [] \<or> length key > MAX_TOOL_NAME_BYTES
      then Err (''Tool `'' @ key @ ''` from plugin `'' @ kb_owner binding @ ''` has an invalid registration key'')
      else
        and_then (caught (to_metadata ops (kb_value binding))
          (''Tool `'' @ key @ ''` from plugin `'' @ kb_owner binding @ ''` panicked while providing metadata'') (\<lambda>_. []))
          (\<lambda>metadata.
        and_then (validate_local_schema ops key (tm_input_schema metadata)) (\<lambda>_.
        (case approval_key (tm_approval metadata) of
           Some authorizer \<Rightarrow>
             if map_of authorizers authorizer = None
             then Err (''Tool `'' @ key @ ''` requires missing authorizer `'' @ authorizer @ ''`'')
             else and_then (caught (to_compile ops (tm_input_schema metadata))
                 (''Tool `'' @ key @ ''` schema compiler panicked'')
                 (\<lambda>e. ''Tool `'' @ key @ ''` schema cannot be compiled: '' @ e)) (\<lambda>validator.
               Ok (bt_insert key \<lparr>en_tool = kb_value binding, en_metadata = metadata, en_validator = validator\<rparr> tools))
         | None \<Rightarrow> and_then (caught (to_compile ops (tm_input_schema metadata))
                 (''Tool `'' @ key @ ''` schema compiler panicked'')
                 (\<lambda>e. ''Tool `'' @ key @ ''` schema cannot be compiled: '' @ e)) (\<lambda>validator.
               Ok (bt_insert key \<lparr>en_tool = kb_value binding, en_metadata = metadata, en_validator = validator\<rparr> tools))))))"

definition freeze_tools ::
    "'v tool_ops \<Rightarrow> keyed_binding list \<Rightarrow> (string, handle) btree_map
       \<Rightarrow> ((string, 'v tool_entry) btree_map, string) outcome" where
  "freeze_tools ops bindings authorizers = for_each (freeze_tool ops authorizers) bindings []"

definition freeze_guards :: "ordinal_binding list \<Rightarrow> handle list" where
  "freeze_guards bindings = map ob_value (sort_key ob_ordinal bindings)"

definition freeze_authorizers :: "keyed_binding list \<Rightarrow> (string, handle) btree_map" where
  "freeze_authorizers bindings = bt_collect (map (\<lambda>b. (kb_key b, kb_value b)) bindings)"

definition expand_grant ::
    "(string, 'v tool_entry) btree_map \<Rightarrow> string \<times> grant_spec \<Rightarrow> (string, string btree_set) btree_map
       \<Rightarrow> ((string, string btree_set) btree_map, string) outcome" where
  "expand_grant tools = (\<lambda>(owner, grant) grants.
     (case grant of
        GrantAll \<Rightarrow> Ok (bt_insert owner (bs_collect (map fst tools)) grants)
      | GrantNamed keys \<Rightarrow>
          (case find (\<lambda>key. map_of tools key = None) keys of
             Some missing \<Rightarrow>
               Err (''ToolRuntime grant for owner `'' @ owner @ ''` references missing Tool `'' @ missing @ ''`'')
           | None \<Rightarrow> Ok (bt_insert owner keys grants))))"

definition expand_grants ::
    "(string, grant_spec) btree_map \<Rightarrow> (string, 'v tool_entry) btree_map
       \<Rightarrow> ((string, string btree_set) btree_map, string) outcome" where
  "expand_grants configured tools = for_each (expand_grant tools) configured []"

record 'v tool_runtime_state =
  trs_tools :: "(string, 'v tool_entry) btree_map"
  trs_guards :: "handle list"
  trs_authorizers :: "(string, handle) btree_map"
  trs_grants :: "(string, string btree_set) btree_map"
  trs_default_timeout :: duration
  trs_max_output_bytes :: usize
  trs_max_in_flight :: usize

text \<open>
  The factory; its arguments are whether the executor's clock can hold the default timeout, what the
  registry shows it, and the error of finding an executor.
\<close>

definition tool_runtime_construct ::
    "'v tool_ops \<Rightarrow> tool_plugin \<Rightarrow> bool \<Rightarrow> keyed_binding list option \<Rightarrow> ordinal_binding list option
       \<Rightarrow> keyed_binding list option \<Rightarrow> string option \<Rightarrow> ('v tool_runtime_state, string) outcome" where
  "tool_runtime_construct ops p in_range tools guards authorizers executor_error =
     (if tp_max_in_flight p = 0 then Err ''canonical ToolRuntime max_in_flight must be greater than zero''
      else if \<not> in_range then Err ''canonical ToolRuntime default timeout exceeds the executor clock range''
      else
        and_then (ok_or tools ''Tool bindings are hidden from the ToolRuntime factory'') (\<lambda>tool_bindings.
        and_then (ok_or guards ''Tool guard bindings are hidden from the ToolRuntime factory'') (\<lambda>guard_bindings.
        and_then (ok_or authorizers ''Tool authorizer bindings are hidden from the ToolRuntime factory'')
          (\<lambda>authorizer_bindings.
        (case executor_error of
           Some e \<Rightarrow> Err (''ToolRuntime requires a Tokio executor: '' @ e)
         | None \<Rightarrow>
             let authorizers = freeze_authorizers authorizer_bindings in
             and_then (freeze_tools ops tool_bindings authorizers) (\<lambda>tools.
             and_then (expand_grants (tp_grants p) tools) (\<lambda>grants.
             Ok \<lparr>trs_tools = tools, trs_guards = freeze_guards guard_bindings, trs_authorizers = authorizers,
               trs_grants = grants, trs_default_timeout = tp_default_timeout p,
               trs_max_output_bytes = tp_max_output_bytes p, trs_max_in_flight = tp_max_in_flight p\<rparr>)))))))"

section \<open>Control\<close>

datatype tool_lifecycle = ToolConstructed | ToolRunning | ToolStopping | ToolStopped

record 'v tool_failure_ledger =
  tfl_failures :: "'v tool_runtime_error list"
  tfl_omitted :: usize

definition tool_ledger_default :: "'v tool_failure_ledger" where
  "tool_ledger_default = \<lparr>tfl_failures = [], tfl_omitted = 0\<rparr>"

definition tool_ledger_record :: "'v tool_runtime_error \<Rightarrow> 'v tool_failure_ledger \<Rightarrow> 'v tool_failure_ledger" where
  "tool_ledger_record failure l =
     (if length (tfl_failures l) < MAX_TOOL_LIFECYCLE_FAILURES then l\<lparr>tfl_failures := tfl_failures l @ [failure]\<rparr>
      else l\<lparr>tfl_omitted := usize_saturating_add (tfl_omitted l) 1\<rparr>)"

definition tool_ledger_is_empty :: "'v tool_failure_ledger \<Rightarrow> bool" where
  "tool_ledger_is_empty l \<longleftrightarrow> tfl_failures l = [] \<and> tfl_omitted l = 0"

definition tool_ledger_total :: "'v tool_failure_ledger \<Rightarrow> usize" where
  "tool_ledger_total l = usize_saturating_add (length (tfl_failures l)) (tfl_omitted l)"

text \<open>
  A job is the state of its cancellation token, which the turn's map shares: the turn keeps the
  numbers of its jobs.
\<close>

record 'v tool_control =
  tlc_lifecycle :: tool_lifecycle
  tlc_next_turn_id :: u64
  tlc_next_job_id :: u64
  tlc_jobs :: "(u64, bool) btree_map"
  tlc_unacknowledged :: "(u64, 'v tool_failure_ledger) btree_map"

definition tool_control_new :: "'v tool_control" where
  "tool_control_new = \<lparr>tlc_lifecycle = ToolConstructed, tlc_next_turn_id = 0, tlc_next_job_id = 0, tlc_jobs = [],
     tlc_unacknowledged = []\<rparr>"

record 'v tool_turn_control =
  ttc_open :: bool
  ttc_jobs :: "u64 list"
  ttc_failures :: "'v tool_failure_ledger"

definition tool_turn_control_new :: "'v tool_turn_control" where
  "tool_turn_control_new = \<lparr>ttc_open = True, ttc_jobs = [], ttc_failures = tool_ledger_default\<rparr>"

definition tool_start :: "'v tool_control \<Rightarrow> (unit, string) outcome \<times> 'v tool_control" where
  "tool_start c =
     (if tlc_lifecycle c \<noteq> ToolConstructed then (Err ''ToolRuntime lifecycle start was repeated'', c)
      else (Ok (), c\<lparr>tlc_lifecycle := ToolRunning\<rparr>))"

text \<open>The three parts of \<open>stop\<close>; the first returns whether it has to wait for the jobs.\<close>

definition tool_stop_begin :: "'v tool_control \<Rightarrow> bool \<times> 'v tool_control" where
  "tool_stop_begin c =
     (if tlc_lifecycle c = ToolStopped then (False, c)
      else (True, c\<lparr>tlc_lifecycle := ToolStopping, tlc_jobs := map (\<lambda>(i, _). (i, True)) (tlc_jobs c)\<rparr>))"

definition tool_stop_ready :: "'v tool_control \<Rightarrow> bool" where
  "tool_stop_ready c \<longleftrightarrow> tlc_jobs c = []"

text \<open>The error carries the count the message of the source displays.\<close>

definition tool_stop_end :: "'v tool_control \<Rightarrow> (unit, usize) outcome \<times> 'v tool_control" where
  "tool_stop_end c =
     (let failures = tlc_unacknowledged c;
          c = c\<lparr>tlc_lifecycle := ToolStopped, tlc_unacknowledged := []\<rparr> in
      (if failures = [] then Ok ()
       else Err (fold (\<lambda>(_, l) count. usize_saturating_add count (tool_ledger_total l)) failures 0), c))"

definition tool_complete_job ::
    "u64 \<Rightarrow> u64 \<Rightarrow> 'v tool_runtime_error option \<Rightarrow> 'v tool_control \<Rightarrow> 'v tool_turn_control
       \<Rightarrow> (bool \<times> bool) \<times> 'v tool_control \<times> 'v tool_turn_control" where
  "tool_complete_job turn_id job_id failure c t =
     (let (c, t) = (case failure of
              None \<Rightarrow> (c, t)
            | Some failure \<Rightarrow>
                (c\<lparr>tlc_unacknowledged := bt_entry turn_id tool_ledger_default (tool_ledger_record failure) (tlc_unacknowledged c)\<rparr>,
                 t\<lparr>ttc_failures := tool_ledger_record failure (ttc_failures t)\<rparr>));
          c = c\<lparr>tlc_jobs := bt_remove job_id (tlc_jobs c)\<rparr>;
          t = t\<lparr>ttc_jobs := removeAll job_id (ttc_jobs t)\<rparr> in
      ((tlc_jobs c = [], ttc_jobs t = []), c, t))"

definition tool_acknowledge_turn :: "u64 \<Rightarrow> 'v tool_control \<Rightarrow> 'v tool_control" where
  "tool_acknowledge_turn turn_id c = c\<lparr>tlc_unacknowledged := bt_remove turn_id (tlc_unacknowledged c)\<rparr>"

text \<open>\<open>TurnState::finish\<close>: closing admission, and its result once the turn's jobs are gone.\<close>

definition tool_finish_begin ::
    "tool_finish_mode \<Rightarrow> 'v tool_control \<Rightarrow> 'v tool_turn_control \<Rightarrow> 'v tool_control \<times> 'v tool_turn_control" where
  "tool_finish_begin mode c t =
     (c\<lparr>tlc_jobs := (if mode = ToolCancel
          then map (\<lambda>(i, cancelled). (i, cancelled \<or> i \<in> set (ttc_jobs t))) (tlc_jobs c) else tlc_jobs c)\<rparr>,
      t\<lparr>ttc_open := False\<rparr>)"

definition tool_finish_ready :: "'v tool_turn_control \<Rightarrow> bool" where
  "tool_finish_ready t \<longleftrightarrow> ttc_jobs t = []"

text \<open>
  The two \<open>expect\<close>s panic when the ledger is not what they say. The argument is the error of
  finishing a run the turn owns, displayed.
\<close>

definition tool_turn_result :: "'v tool_failure_ledger \<Rightarrow> (unit, 'v tool_turn_failure) outcome" where
  "tool_turn_result l =
     (if tool_ledger_is_empty l then Ok ()
      else (case tool_bounded_failures (tfl_failures l) (tfl_omitted l) of
          Ok (Some f) \<Rightarrow> Err f
        | _ \<Rightarrow> Panic))"

definition tool_finish_end ::
    "u64 \<Rightarrow> string option \<Rightarrow> 'v tool_control \<Rightarrow> 'v tool_turn_control
       \<Rightarrow> (unit, 'v tool_turn_failure) outcome \<times> 'v tool_control \<times> 'v tool_turn_control" where
  "tool_finish_end turn_id budget_error c t =
     (let l = (case budget_error of
              None \<Rightarrow> ttc_failures t
            | Some message \<Rightarrow> tool_ledger_record (TrInternal ''tool_budget_finish_failed'' message) (ttc_failures t)) in
      (tool_turn_result l, tool_acknowledge_turn turn_id c, t\<lparr>ttc_failures := tool_ledger_default\<rparr>))"

section \<open>Turns\<close>

text \<open>
  The operations on budgets and the clock are those of \<open>model_env\<close>, with what only tools use: the
  result of \<open>expire\<close>, the execution time, and the identity and turn of a scope.
\<close>

record ('b, 'r, 'w) tool_env =
  tn_budget :: "('b, 'r, 'w) model_env"
  tn_expire :: "'b \<Rightarrow> 'w \<Rightarrow> (unit, budget_error) outcome \<times> 'w"
  tn_record_tool_time :: "'b \<Rightarrow> duration \<Rightarrow> 'w \<Rightarrow> 'w"
  tn_identity :: "'b \<Rightarrow> budget_identity"
  tn_turn_id :: "'b \<Rightarrow> 'w \<Rightarrow> (turn_id option, budget_error) outcome \<times> 'w"

record ('b, 'v) tool_turn =
  tt_id :: u64
  tt_caller :: tool_caller
  tt_budget :: 'b
  tt_explicit_budget :: bool
  tt_granted :: "string btree_set"
  tt_schemas :: "'v tool_schema list"

definition visible_schemas :: "(string, 'v tool_entry) btree_map \<Rightarrow> string btree_set \<Rightarrow> 'v tool_schema list" where
  "visible_schemas tools keys =
     List.map_filter (\<lambda>key. map_option (\<lambda>entry. \<lparr>tsc_name = key, tsc_description = tm_description (en_metadata entry),
       tsc_parameters = tm_input_schema (en_metadata entry)\<rparr>) (map_of tools key)) keys"

text \<open>
  The budget of a turn: a scope that must name its turn, or a run of its own (an argument).
\<close>

definition tool_turn_budget ::
    "('b, 'r, 'w) tool_env \<Rightarrow> ('w \<Rightarrow> ('b, budget_error) outcome \<times> 'w) \<Rightarrow> 'b option \<Rightarrow> 'w
       \<Rightarrow> ('b, budget_error) outcome \<times> 'w" where
  "tool_turn_budget env own_run supplied w =
     (case supplied of
        None \<Rightarrow> own_run w
      | Some b \<Rightarrow>
          (case me_check_active (tn_budget env) b w of
             (Err e, w) \<Rightarrow> (Err e, w)
           | (Panic, w) \<Rightarrow> (Panic, w)
           | (Ok _, w) \<Rightarrow>
               (case tn_turn_id env b w of
                  (Err e, w) \<Rightarrow> (Err e, w)
                | (Panic, w) \<Rightarrow> (Panic, w)
                | (Ok None, w) \<Rightarrow> (Err IdentityMismatch, me_stop_with (tn_budget env) b StopIdentityMismatch w)
                | (Ok (Some _), w) \<Rightarrow> (Ok b, w))))"

definition tool_turn_id :: "'v tool_control \<Rightarrow> (u64, 'v tool_runtime_error) outcome \<times> 'v tool_control" where
  "tool_turn_id c =
     (if tlc_lifecycle c \<noteq> ToolRunning then (Err TrStopped, c)
      else (case checked_add (tlc_next_turn_id c) 1 of
          None \<Rightarrow> (Err (TrInternal ''tool_turn_id_exhausted'' ''Tool turn ID space is exhausted''), c)
        | Some next \<Rightarrow> (Ok (tlc_next_turn_id c), c\<lparr>tlc_next_turn_id := next\<rparr>)))"

definition tool_bind_turn ::
    "('b, 'r, 'w) tool_env \<Rightarrow> 'v tool_runtime_state \<Rightarrow> ('w \<Rightarrow> ('b, budget_error) outcome \<times> 'w) \<Rightarrow> bool
       \<Rightarrow> tool_caller \<Rightarrow> 'b option \<Rightarrow> 'v tool_control \<Rightarrow> 'w
       \<Rightarrow> (('b, 'v) tool_turn \<times> 'v tool_turn_control, 'v tool_runtime_error) outcome \<times> 'v tool_control \<times> 'w" where
  "tool_bind_turn env rs own_run cancelled caller supplied c w =
     (if cancelled then (Err TrTurnClosed, c, w)
      else
        (case tool_turn_budget env own_run supplied w of
           (Err e, w) \<Rightarrow> (Err (TrBudget e), c, w)
         | (Panic, w) \<Rightarrow> (Panic, c, w)
         | (Ok b, w) \<Rightarrow>
             (case tool_turn_id c of
                (Err e, c) \<Rightarrow> (Err e, c, w)
              | (Panic, c) \<Rightarrow> (Panic, c, w)
              | (Ok turn_id, c) \<Rightarrow>
                  let keys = (case map_of (trs_grants rs) caller of None \<Rightarrow> [] | Some keys \<Rightarrow> keys) in
                  (Ok (\<lparr>tt_id = turn_id, tt_caller = caller, tt_budget = b, tt_explicit_budget = (supplied \<noteq> None),
                     tt_granted = keys, tt_schemas = visible_schemas (trs_tools rs) keys\<rparr>,
                     tool_turn_control_new), c, w))))"

section \<open>The budget of a job\<close>

record 'r tool_job_budget =
  tjb_reservation :: "'r option"
  tjb_started :: bool
  tjb_output_bytes :: usage_value

definition tool_job_budget_new :: "'r \<Rightarrow> 'r tool_job_budget" where
  "tool_job_budget_new reservation =
     \<lparr>tjb_reservation = Some reservation, tjb_started = False, tjb_output_bytes = Unknown\<rparr>"

definition tool_job_start ::
    "('b, 'r, 'w) tool_env \<Rightarrow> 'r tool_job_budget \<Rightarrow> 'w \<Rightarrow> (unit, budget_error) outcome \<times> 'r tool_job_budget \<times> 'w" where
  "tool_job_start env jb w =
     (case tjb_reservation jb of
        None \<Rightarrow> (Panic, jb, w)
      | Some reservation \<Rightarrow>
          (case me_mark_started (tn_budget env) reservation w of
             (Ok _, w) \<Rightarrow> (Ok (), jb\<lparr>tjb_started := True\<rparr>, w)
           | (r, w) \<Rightarrow> (r, jb, w)))"

definition tool_job_settle ::
    "('b, 'r, 'w) tool_env \<Rightarrow> 'r tool_job_budget \<Rightarrow> 'w \<Rightarrow> (unit, budget_error) outcome \<times> 'r tool_job_budget \<times> 'w" where
  "tool_job_settle env jb w =
     (case tjb_reservation jb of
        None \<Rightarrow> (Ok (), jb, w)
      | Some reservation \<Rightarrow>
          let (r, w) = (if tjb_started jb
                then me_settle (tn_budget env) reservation
                       \<lparr>usg_input_tokens = Actual 0, usg_output_tokens = Actual 0, usg_tool_output_bytes = tjb_output_bytes jb\<rparr> w
                else me_cancel_before_start (tn_budget env) reservation w) in
          (r, jb\<lparr>tjb_reservation := None\<rparr>, w))"

section \<open>Admission\<close>

definition tool_request :: "usize \<Rightarrow> budget_request" where
  "tool_request output_limit =
     new_request (default_amounts\<lparr>tool_calls := 1, tool_output_bytes := of_nat output_limit\<rparr>)"

definition tool_admit ::
    "('b, 'r, 'w) tool_env \<Rightarrow> 'v tool_runtime_state \<Rightarrow> 'b \<Rightarrow> usize \<Rightarrow> 'v tool_control \<Rightarrow> 'v tool_turn_control \<Rightarrow> 'w
       \<Rightarrow> (u64 \<times> 'r tool_job_budget, 'v tool_runtime_error) outcome \<times> 'v tool_control \<times> 'v tool_turn_control \<times> 'w" where
  "tool_admit env rs b output_limit c t w =
     (if tlc_lifecycle c \<noteq> ToolRunning then (Err TrStopped, c, t, w)
      else if length (tlc_jobs c) \<ge> trs_max_in_flight rs then (Err TrOverloaded, c, t, w)
      else if \<not> ttc_open t then (Err TrStopped, c, t, w)
      else
        let job_id = tlc_next_job_id c in
        (case checked_add job_id 1 of
           None \<Rightarrow> (Err TrOverloaded, c, t, w)
         | Some next_job_id \<Rightarrow>
             (case me_reserve (tn_budget env) b (tool_request output_limit) w of
                (Err e, w) \<Rightarrow> (Err (TrBudget e), c, t, w)
              | (Panic, w) \<Rightarrow> (Panic, c, t, w)
              | (Ok reservation, w) \<Rightarrow>
                  (Ok (job_id, tool_job_budget_new reservation),
                   c\<lparr>tlc_next_job_id := next_job_id, tlc_jobs := bt_insert job_id False (tlc_jobs c)\<rparr>,
                   t\<lparr>ttc_jobs := ttc_jobs t @ [job_id]\<rparr>, w))))"

text \<open>The ends of a driver: the guard's completion, and its drop when the driver unwound.\<close>

definition tool_guard_complete ::
    "('b, 'r, 'w) tool_env \<Rightarrow> u64 \<Rightarrow> u64 \<Rightarrow> 'r tool_job_budget \<Rightarrow> ('v tool_execution, 'v tool_runtime_error) outcome
       \<Rightarrow> 'v tool_control \<Rightarrow> 'v tool_turn_control \<Rightarrow> 'w \<Rightarrow> (bool \<times> bool) \<times> 'v tool_control \<times> 'v tool_turn_control \<times> 'w" where
  "tool_guard_complete env turn_id job_id jb result c t w =
     (let (_, jb, w) = tool_job_settle env jb w;
          failure = (case result of Err e \<Rightarrow> if is_tool_closure_failure e then Some e else None | _ \<Rightarrow> None);
          (drained, c, t) = tool_complete_job turn_id job_id failure c t in
      (drained, c, t, w))"

definition tool_guard_drop ::
    "('b, 'r, 'w) tool_env \<Rightarrow> u64 \<Rightarrow> u64 \<Rightarrow> string \<Rightarrow> 'r tool_job_budget
       \<Rightarrow> 'v tool_control \<Rightarrow> 'v tool_turn_control \<Rightarrow> 'w \<Rightarrow> (bool \<times> bool) \<times> 'v tool_control \<times> 'v tool_turn_control \<times> 'w" where
  "tool_guard_drop env turn_id job_id job_text jb c t w =
     (let (_, jb, w) = tool_job_settle env jb w;
          (drained, c, t) = tool_complete_job turn_id job_id (Some (TrInternal ''tool_driver_unwound''
            (''Tool operation '' @ job_text @ '' unwound before canonical closure''))) c t in
      (drained, c, t, w))"

section \<open>The checks of a call\<close>

text \<open>The loop of \<open>bounded_text\<close> steps back to a boundary.\<close>

definition bounded_text :: "string \<Rightarrow> usize \<Rightarrow> string" where
  "bounded_text s bound =
     (if length s \<le> bound then s else take (boundary_below s (min bound (length s))) s)"

definition serialized_len :: "'v tool_ops \<Rightarrow> 'v \<Rightarrow> (usize, string) outcome" where
  "serialized_len ops v =
     and_then (to_value_chunks ops v) (\<lambda>chunks. Ok (fold (\<lambda>n bytes. usize_saturating_add bytes n) chunks 0))"

definition min_option :: "nat \<Rightarrow> nat option \<Rightarrow> nat" where
  "min_option a b = (case b of None \<Rightarrow> a | Some b \<Rightarrow> min a b)"

definition tool_timeout :: "duration \<Rightarrow> 'v tool_entry option \<Rightarrow> duration option \<Rightarrow> duration" where
  "tool_timeout runtime tool requested =
     min_option (min_option runtime (Option.bind tool (\<lambda>entry. tm_timeout_ceiling (en_metadata entry)))) requested"

definition tool_output_limit :: "usize \<Rightarrow> 'v tool_entry option \<Rightarrow> usize option \<Rightarrow> usize" where
  "tool_output_limit runtime tool requested =
     min_option (min_option runtime (Option.bind tool (\<lambda>entry. tm_output_ceiling_bytes (en_metadata entry)))) requested"

record 'v tool_call_options =
  tco_retry :: "'v tool_retry_plan option"
  tco_action :: "action_context option"
  tco_timeout :: "duration option"
  tco_max_output_bytes :: "usize option"

record ('v, 'r) tool_admission =
  tad_job_id :: u64
  tad_call :: "'v tool_call"
  tad_budget :: "'r tool_job_budget"
  tad_deadline :: duration
  tad_budget_deadline :: "duration option"
  tad_output_limit :: usize

definition tool_contract :: "'v tool_runtime_state \<Rightarrow> string \<Rightarrow> tool_effect_contract" where
  "tool_contract rs name =
     (case map_of (trs_tools rs) name of
        None \<Rightarrow> default_effect_contract | Some entry \<Rightarrow> tm_effect (en_metadata entry))"

definition tool_arguments_checked ::
    "'v tool_ops \<Rightarrow> string \<Rightarrow> 'v \<Rightarrow> (unit, 'v tool_runtime_error) outcome" where
  "tool_arguments_checked ops name arguments =
     (if name = [] then Err (TrPreflight PfEmptyName)
      else if length name > MAX_TOOL_NAME_BYTES
      then Err (TrPreflight (PfNameTooLong (length name) MAX_TOOL_NAME_BYTES))
      else
        and_then (map_err (\<lambda>e. TrInternal ''tool_arguments_serialization'' (bounded_text e MAX_TOOL_DIAGNOSTIC_BYTES))
          (serialized_len ops arguments)) (\<lambda>argument_bytes.
        if argument_bytes > MAX_TOOL_ARGUMENT_BYTES
        then Err (TrPreflight (PfArgumentsTooLarge argument_bytes MAX_TOOL_ARGUMENT_BYTES))
        else Ok ()))"

text \<open>The operation of a call: a retry's, which uses up its plan, or a new one.\<close>

definition tool_call_operation ::
    "budget_identity \<Rightarrow> tool_effect_contract \<Rightarrow> string \<Rightarrow> string \<Rightarrow> 'v \<Rightarrow> 'v tool_retry_plan option \<Rightarrow> latches
       \<Rightarrow> tool_operation evidenced \<times> latches" where
  "tool_call_operation identity contract key_uuid name arguments retry latches =
     (case retry of
        Some plan \<Rightarrow> take_operation plan (id_session_id identity) (id_task_id identity) name arguments contract latches
      | None \<Rightarrow> (Ok \<lparr>op_task_id = id_task_id identity, op_key = ''operation_'' @ key_uuid, op_contract = contract,
          op_retry = None\<rparr>, latches))"

text \<open>
  \<open>TurnState::call\<close> up to the spawn of its driver. The \<open>expect\<close> panics when the clock cannot hold
  the deadline; the two fresh identifiers are arguments.
\<close>

definition tool_call_admit ::
    "('b, 'r, 'w) tool_env \<Rightarrow> 'v tool_ops \<Rightarrow> 'v tool_runtime_state \<Rightarrow> ('b, 'v) tool_turn \<Rightarrow> ('w \<Rightarrow> bool) \<Rightarrow> string \<Rightarrow> string
       \<Rightarrow> string \<Rightarrow> 'v \<Rightarrow> 'v tool_call_options \<Rightarrow> latches \<Rightarrow> 'v tool_control \<Rightarrow> 'v tool_turn_control \<Rightarrow> 'w
       \<Rightarrow> (('v, 'r) tool_admission, 'v tool_runtime_error) outcome \<times> latches \<times> 'v tool_control \<times> 'v tool_turn_control \<times> 'w" where
  "tool_call_admit env ops rs turn cancelled key_uuid call_uuid name arguments options latches c t w =
     (let scope = tt_budget turn; identity = tn_identity env scope; contract = tool_contract rs name in
      (case tool_arguments_checked ops name arguments of
         Err e \<Rightarrow> (Err e, latches, c, t, w)
       | Panic \<Rightarrow> (Panic, latches, c, t, w)
       | Ok _ \<Rightarrow>
           if cancelled w then (Err TrTurnClosed, latches, c, t, w)
           else if tt_explicit_budget turn \<and> (case tco_action options of None \<Rightarrow> False
               | Some action \<Rightarrow> dx_task_id (ax_decision action) \<noteq> id_task_id identity)
           then (Err (TrBudget IdentityMismatch), latches, c, t, me_stop_with (tn_budget env) scope StopIdentityMismatch w)
           else
             (case validate_tool_contract contract of
                Err e \<Rightarrow> (Err (TrPreflight (PfRetry e)), latches, c, t, w)
              | Panic \<Rightarrow> (Panic, latches, c, t, w)
              | Ok _ \<Rightarrow>
                  (case tool_call_operation identity contract key_uuid name arguments (tco_retry options) latches of
                     (Err e, latches) \<Rightarrow> (Err (TrPreflight (PfRetry e)), latches, c, t, w)
                   | (Panic, latches) \<Rightarrow> (Panic, latches, c, t, w)
                   | (Ok operation, latches) \<Rightarrow>
                       (case me_remaining_time (tn_budget env) scope w of
                          (Err e, w) \<Rightarrow> (Err (TrBudget e), latches, c, t, w)
                        | (Panic, w) \<Rightarrow> (Panic, latches, c, t, w)
                        | (Ok remaining, w) \<Rightarrow>
                            let now = me_now (tn_budget env) w; entry = map_of (trs_tools rs) name;
                                timeout = tool_timeout (trs_default_timeout rs) entry (tco_timeout options);
                                output_limit = tool_output_limit (trs_max_output_bytes rs) entry (tco_max_output_bytes options) in
                            (case instant_add (tn_budget env) now timeout of
                               None \<Rightarrow> (Panic, latches, c, t, w)
                             | Some deadline \<Rightarrow>
                                 (case tool_admit env rs scope output_limit c t w of
                                    (Err e, c, t, w) \<Rightarrow> (Err e, latches, c, t, w)
                                  | (Panic, c, t, w) \<Rightarrow> (Panic, latches, c, t, w)
                                  | (Ok (job_id, jb), c, t, w) \<Rightarrow>
                                      (Ok \<lparr>tad_job_id = job_id,
                                         tad_call = \<lparr>tl_operation = Some operation, tl_action = tco_action options,
                                           tl_id = ''toolcall_'' @ call_uuid, tl_name = name, tl_arguments = arguments\<rparr>,
                                         tad_budget = jb, tad_deadline = deadline,
                                         tad_budget_deadline = instant_add (tn_budget env) now remaining,
                                         tad_output_limit = output_limit\<rparr>, latches, c, t, w))))))))"

text \<open>An executor that rejects the driver drops it, and its guard completes the job.\<close>

definition tool_spawn_rejected ::
    "('b, 'r, 'w) tool_env \<Rightarrow> ('b, 'v) tool_turn \<Rightarrow> string \<Rightarrow> ('v, 'r) tool_admission
       \<Rightarrow> 'v tool_control \<Rightarrow> 'v tool_turn_control \<Rightarrow> 'w
       \<Rightarrow> ('v tool_execution, 'v tool_runtime_error) outcome \<times> 'v tool_control \<times> 'v tool_turn_control \<times> 'w" where
  "tool_spawn_rejected env turn job_text a c t w =
     (let (_, c, t, w) = tool_guard_drop env (tt_id turn) (tad_job_id a) job_text (tad_budget a) c t w in
      (Err (TrInternal ''tool_spawn_failed'' ''ToolRuntime executor rejected an admitted operation''), c, t, w))"

end
