(* ===== verification/ToolTurns.thy ===== *)
theory ToolTurns
  imports ToolRuntime
begin

text \<open>
  The tool runtime and its turns as one system: every section under the locks is a step, and the
  world may change between two of them. The invariant ties each job to the turn that admitted it,
  bounds the jobs in flight, and ties the failures the runtime keeps to those its turns have not returned.
\<close>

section \<open>Steps\<close>

type_synonym ('v, 'w) tool_system = "'v tool_control \<times> (u64 \<Rightarrow> 'v tool_turn_control option) \<times> 'w"

inductive tool_step ::
    "('b, 'r, 'w) tool_env \<Rightarrow> 'v tool_runtime_state \<Rightarrow> ('v, 'w) tool_system \<Rightarrow> ('v, 'w) tool_system \<Rightarrow> bool"
  for env :: "('b, 'r, 'w) tool_env" and rs :: "'v tool_runtime_state" where
  start: "tool_start c = (r, c') \<Longrightarrow> tool_step env rs (c, T, w) (c', T, w)"
| bind: "tool_bind_turn env rs own_run cancelled caller supplied c w = (Ok (turn, t), c', w') \<Longrightarrow>
    tool_step env rs (c, T, w) (c', T(tt_id turn \<mapsto> t), w')"
| admit: "T i = Some t \<Longrightarrow>
    tool_call_admit env ops rs turn cancelled key_uuid call_uuid name arguments options latches c t w
      = (r, latches', c', t', w') \<Longrightarrow>
    tool_step env rs (c, T, w) (c', T(i \<mapsto> t'), w')"
| complete: "T i = Some t \<Longrightarrow> j \<in> set (ttc_jobs t) \<Longrightarrow>
    tool_guard_complete env i j jb result c t w = (d, c', t', w') \<Longrightarrow>
    tool_step env rs (c, T, w) (c', T(i \<mapsto> t'), w')"
| unwind: "T i = Some t \<Longrightarrow> j \<in> set (ttc_jobs t) \<Longrightarrow>
    tool_guard_drop env i j job_text jb c t w = (d, c', t', w') \<Longrightarrow>
    tool_step env rs (c, T, w) (c', T(i \<mapsto> t'), w')"
| finish_begin: "T i = Some t \<Longrightarrow> tool_finish_begin mode c t = (c', t') \<Longrightarrow>
    tool_step env rs (c, T, w) (c', T(i \<mapsto> t'), w)"
| finish_end: "T i = Some t \<Longrightarrow> \<not> ttc_open t \<Longrightarrow> tool_finish_ready t \<Longrightarrow>
    tool_finish_end i budget_error c t = (f, c', t') \<Longrightarrow>
    tool_step env rs (c, T, w) (c', T(i \<mapsto> t'), w)"
| stop_begin: "tool_stop_begin c = (b, c') \<Longrightarrow> tool_step env rs (c, T, w) (c', T, w)"
| stop_end: "tlc_lifecycle c = ToolStopping \<Longrightarrow> tool_stop_ready c \<Longrightarrow> tool_stop_end c = (e, c') \<Longrightarrow>
    tool_step env rs (c, T, w) (c', T, w)"
| world: "tool_step env rs (c, T, w) (c, T, w')"

inductive_cases tool_stepE: "tool_step env rs (c, T, w) s"

inductive tool_reach ::
    "('b, 'r, 'w) tool_env \<Rightarrow> 'v tool_runtime_state \<Rightarrow> ('v, 'w) tool_system \<Rightarrow> bool"
  for env :: "('b, 'r, 'w) tool_env" and rs :: "'v tool_runtime_state" where
  initial: "tool_reach env rs (tool_control_new, Map.empty, w)"
| step: "tool_reach env rs s \<Longrightarrow> tool_step env rs s s' \<Longrightarrow> tool_reach env rs s'"

section \<open>Who owns a job\<close>

text \<open>The sets a map names part a set among the keys below a bound.\<close>

definition parts :: "'a set \<Rightarrow> 'k::linorder \<Rightarrow> ('k \<Rightarrow> 'a set option) \<Rightarrow> bool" where
  "parts J n P \<longleftrightarrow>
     (\<forall>i X. P i = Some X \<longrightarrow> i < n \<and> X \<subseteq> J) \<and>
     (\<forall>i j X Y. P i = Some X \<longrightarrow> P j = Some Y \<longrightarrow> i \<noteq> j \<longrightarrow> X \<inter> Y = {}) \<and>
     (\<forall>k \<in> J. \<exists>i X. P i = Some X \<and> k \<in> X)"

lemma parts_subset: "parts J n P \<Longrightarrow> P i = Some X \<Longrightarrow> X \<subseteq> J"
  unfolding parts_def by blast

lemma parts_below: "parts J n P \<Longrightarrow> P i = Some X \<Longrightarrow> i < n"
  unfolding parts_def by blast

lemma parts_owner: "parts J n P \<Longrightarrow> k \<in> J \<Longrightarrow> \<exists>i X. P i = Some X \<and> k \<in> X"
  by (simp add: parts_def)

lemma parts_update:
  assumes p: "parts J n P" and i: "P i = Some X" and apart: "Y \<inter> (J - X) = {}"
  shows "parts ((J - X) \<union> Y) n (P(i \<mapsto> Y))"
proof -
  have others: "Z \<subseteq> J - X" if "P j = Some Z" "j \<noteq> i" for j Z using p i that unfolding parts_def by blast
  show ?thesis
    unfolding parts_def
  proof (intro conjI allI impI ballI)
    fix j Z assume j: "(P(i \<mapsto> Y)) j = Some Z"
    show "j < n" using j parts_below [OF p i] parts_below [OF p, of j Z] by (cases "j = i") auto
    show "Z \<subseteq> (J - X) \<union> Y" using j others [of j Z] by (cases "j = i") auto
  next
    fix a b A B assume ab: "(P(i \<mapsto> Y)) a = Some A" "(P(i \<mapsto> Y)) b = Some B" "a \<noteq> b"
    consider "a = i" | "b = i" | "a \<noteq> i" "b \<noteq> i" by blast
    then show "A \<inter> B = {}"
    proof cases
      case 1
      then show ?thesis using ab others [of b B] apart by auto
    next
      case 2
      then show ?thesis using ab others [of a A] apart by auto
    next
      case 3
      then have "P a = Some A" "P b = Some B" using ab by auto
      then show ?thesis using p ab(3) unfolding parts_def by blast
    qed
  next
    fix k assume k: "k \<in> (J - X) \<union> Y"
    show "\<exists>a A. (P(i \<mapsto> Y)) a = Some A \<and> k \<in> A"
    proof (cases "k \<in> Y")
      case True
      then show ?thesis by (intro exI [of _ i] exI [of _ Y]) simp
    next
      case False
      with k have r: "k \<in> J" "k \<notin> X" by blast+
      from parts_owner [OF p r(1)] obtain a A where a: "P a = Some A" "k \<in> A" by blast
      with r i have "a \<noteq> i" by auto
      with a show ?thesis by (intro exI [of _ a] exI [of _ A]) simp
    qed
  qed
qed

lemma parts_new:
  assumes p: "parts J n P" and m: "n < m"
  shows "parts J m (P(n \<mapsto> {}))"
proof -
  have none: "P n = None" using parts_below [OF p, of n] by (cases "P n") auto
  have "a < m" if "(P(n \<mapsto> {})) a = Some A" for a A
    using that m parts_below [OF p, of a A] by (cases "a = n") auto
  moreover have "A \<subseteq> J" if "(P(n \<mapsto> {})) a = Some A" for a A
    using that parts_subset [OF p, of a A] by (cases "a = n") auto
  moreover have "A \<inter> B = {}" if "(P(n \<mapsto> {})) a = Some A" "(P(n \<mapsto> {})) b = Some B" "a \<noteq> b" for a b A B
  proof (cases "a = n \<or> b = n")
    case False
    then have "P a = Some A" "P b = Some B" using that by auto
    then show ?thesis using p that(3) unfolding parts_def by blast
  qed (use that in auto)
  moreover have "\<exists>a A. (P(n \<mapsto> {})) a = Some A \<and> k \<in> A" if k: "k \<in> J" for k
  proof -
    from parts_owner [OF p k] obtain a A where a: "P a = Some A" "k \<in> A" by blast
    with none have "a \<noteq> n" by auto
    with a show ?thesis by (intro exI [of _ a] exI [of _ A]) simp
  qed
  ultimately show ?thesis unfolding parts_def by blast
qed

section \<open>Invariant\<close>

definition turn_jobs :: "(u64 \<Rightarrow> 'v tool_turn_control option) \<Rightarrow> u64 \<Rightarrow> u64 set option" where
  "turn_jobs T i = map_option (\<lambda>t. set (ttc_jobs t)) (T i)"

lemma turn_jobs_update: "turn_jobs (T(i \<mapsto> t)) = (turn_jobs T)(i \<mapsto> set (ttc_jobs t))"
  by (auto simp: turn_jobs_def fun_eq_iff)

lemma turn_jobs_same: "T i = Some t \<Longrightarrow> set (ttc_jobs t') = set (ttc_jobs t) \<Longrightarrow> turn_jobs (T(i \<mapsto> t')) = turn_jobs T"
  by (auto simp: turn_jobs_def fun_eq_iff)

definition tool_ledger_ok :: "'v tool_failure_ledger \<Rightarrow> bool" where
  "tool_ledger_ok l \<longleftrightarrow> list_all is_tool_closure_failure (tfl_failures l) \<and>
     length (tfl_failures l) \<le> MAX_TOOL_LIFECYCLE_FAILURES \<and>
     (tfl_omitted l \<noteq> 0 \<longrightarrow> length (tfl_failures l) = MAX_TOOL_LIFECYCLE_FAILURES)"

definition failures_accounted :: "'v tool_control \<Rightarrow> (u64 \<Rightarrow> 'v tool_turn_control option) \<Rightarrow> bool" where
  "failures_accounted c T \<longleftrightarrow>
     (\<forall>i t. T i = Some t \<longrightarrow> tool_ledger_ok (ttc_failures t)) \<and>
     (tlc_lifecycle c \<noteq> ToolStopped \<longrightarrow>
       (\<forall>i. map_of (tlc_unacknowledged c) i =
          (case T i of None \<Rightarrow> None
           | Some t \<Rightarrow> if tool_ledger_is_empty (ttc_failures t) then None else Some (ttc_failures t))))"

text \<open>The jobs of a runtime: numbered below the next number, at most as many as may be in flight.\<close>

definition jobs_bounded :: "'v tool_runtime_state \<Rightarrow> 'v tool_control \<Rightarrow> bool" where
  "jobs_bounded rs c \<longleftrightarrow> bt_wf (tlc_jobs c) \<and> (\<forall>i \<in> fst ` set (tlc_jobs c). i < tlc_next_job_id c) \<and>
     length (tlc_jobs c) \<le> trs_max_in_flight rs \<and>
     (tlc_lifecycle c = ToolConstructed \<or> tlc_lifecycle c = ToolStopped \<longrightarrow> tlc_jobs c = []) \<and>
     (tlc_lifecycle c = ToolStopping \<longrightarrow> (\<forall>(_, cancelled) \<in> set (tlc_jobs c). cancelled))"

definition tool_system_inv :: "'v tool_runtime_state \<Rightarrow> ('v, 'w) tool_system \<Rightarrow> bool" where
  "tool_system_inv rs s \<longleftrightarrow> (case s of (c, T, w) \<Rightarrow>
     jobs_bounded rs c \<and> parts (fst ` set (tlc_jobs c)) (tlc_next_turn_id c) (turn_jobs T) \<and> failures_accounted c T \<and>
     (tlc_lifecycle c = ToolConstructed \<longrightarrow> T = Map.empty))"

lemma tool_ledger_ok_default [simp]: "tool_ledger_ok tool_ledger_default"
  by (simp add: tool_ledger_ok_def tool_ledger_default_def)

lemma tool_ledger_empty_default [simp]: "tool_ledger_is_empty tool_ledger_default"
  by (simp add: tool_ledger_is_empty_def tool_ledger_default_def)

lemma tool_ledger_empty_iff: "tool_ledger_is_empty l \<longleftrightarrow> l = tool_ledger_default"
  by (cases l) (auto simp: tool_ledger_is_empty_def tool_ledger_default_def)

lemma tool_ledger_record_ok: "tool_ledger_ok l \<Longrightarrow> is_tool_closure_failure e \<Longrightarrow> tool_ledger_ok (tool_ledger_record e l)"
  by (auto simp: tool_ledger_ok_def tool_ledger_record_def)

lemma tool_ledger_record_not_empty [simp]: "\<not> tool_ledger_is_empty (tool_ledger_record e l)"
  by (auto simp: tool_ledger_is_empty_def tool_ledger_record_def usize_saturating_add_def MAX_TOOL_LIFECYCLE_FAILURES_def
    usize_max_def)

section \<open>Preservation\<close>

lemma system_keep:
  assumes inv: "tool_system_inv rs (c, T, w)" and c': "c' = c \<or> c' = c\<lparr>tlc_next_turn_id := tlc_next_turn_id c\<rparr>"
  shows "tool_system_inv rs (c', T, w')"
  using assms by (auto simp: tool_system_inv_def)

lemma tool_admit_shape:
  assumes "tool_admit env rs b output_limit c t w = (r, c', t', w')"
  shows "(\<not> is_ok r \<and> c' = c \<and> t' = t) \<or>
    (\<exists>n. is_ok r \<and> tlc_lifecycle c = ToolRunning \<and> length (tlc_jobs c) < trs_max_in_flight rs \<and> ttc_open t \<and>
       checked_add (tlc_next_job_id c) 1 = Some n \<and>
       c' = c\<lparr>tlc_next_job_id := n, tlc_jobs := bt_insert (tlc_next_job_id c) False (tlc_jobs c)\<rparr> \<and>
       t' = t\<lparr>ttc_jobs := ttc_jobs t @ [tlc_next_job_id c]\<rparr>)"
  using assms by (auto simp: tool_admit_def Let_def split: if_splits option.splits outcome.splits prod.splits)

lemma system_admitted:
  assumes inv: "tool_system_inv rs (c, T, w)" and t: "T i = Some t"
    and a: "tool_admit env rs b output_limit c t w1 = (r, c', t', w')"
  shows "tool_system_inv rs (c', T(i \<mapsto> t'), w'')"
  using tool_admit_shape [OF a]
proof (elim disjE exE conjE)
  assume "c' = c" "t' = t"
  with inv t show ?thesis by (simp add: tool_system_inv_def fun_upd_idem)
next
  fix n assume run: "tlc_lifecycle c = ToolRunning" and room: "length (tlc_jobs c) < trs_max_in_flight rs"
    and n: "checked_add (tlc_next_job_id c) 1 = Some n"
    and c': "c' = c\<lparr>tlc_next_job_id := n, tlc_jobs := bt_insert (tlc_next_job_id c) False (tlc_jobs c)\<rparr>"
    and t': "t' = t\<lparr>ttc_jobs := ttc_jobs t @ [tlc_next_job_id c]\<rparr>"
  let ?J = "fst ` set (tlc_jobs c)" and ?k = "tlc_next_job_id c"
  have jb: "jobs_bounded rs c" and pt: "parts ?J (tlc_next_turn_id c) (turn_jobs T)" and acc: "failures_accounted c T"
    using inv by (auto simp: tool_system_inv_def)
  have new: "?k \<notin> ?J" and below: "\<forall>i \<in> ?J. i < ?k" using jb by (auto simp: jobs_bounded_def)
  have lt: "?k < n" using n by (simp add: checked_add_Some_iff word_less_nat_alt)
  have mine: "turn_jobs T i = Some (set (ttc_jobs t))" using t by (simp add: turn_jobs_def)
  have "parts ((?J - set (ttc_jobs t)) \<union> set (ttc_jobs t')) (tlc_next_turn_id c) ((turn_jobs T)(i \<mapsto> set (ttc_jobs t')))"
    by (rule parts_update [OF pt mine]) (use new parts_subset [OF pt mine] in \<open>auto simp: t'\<close>)
  moreover have "(?J - set (ttc_jobs t)) \<union> set (ttc_jobs t') = fst ` set (tlc_jobs c')"
    using parts_subset [OF pt mine] by (auto simp: t' c')
  ultimately have "parts (fst ` set (tlc_jobs c')) (tlc_next_turn_id c') (turn_jobs (T(i \<mapsto> t')))"
    by (simp add: turn_jobs_update c')
  moreover have "jobs_bounded rs c'"
    using jb below lt room run new by (auto simp: jobs_bounded_def c' length_bt_insert_fresh dest: less_trans)
  moreover have "failures_accounted c' (T(i \<mapsto> t'))" using acc t by (auto simp: failures_accounted_def c' t')
  ultimately show ?thesis using run by (simp add: tool_system_inv_def c')
qed

lemma system_completed:
  assumes inv: "tool_system_inv rs (c, T, w)" and t: "T i = Some t" and j: "j \<in> set (ttc_jobs t)"
    and closure: "\<And>e. failure = Some e \<Longrightarrow> is_tool_closure_failure e"
    and r: "tool_complete_job i j failure c t = (d, c', t')"
  shows "tool_system_inv rs (c', T(i \<mapsto> t'), w')"
proof -
  let ?J = "fst ` set (tlc_jobs c)"
  have jb: "jobs_bounded rs c" and pt: "parts ?J (tlc_next_turn_id c) (turn_jobs T)" and acc: "failures_accounted c T"
    and cons: "tlc_lifecycle c = ToolConstructed \<longrightarrow> T = Map.empty" using inv by (auto simp: tool_system_inv_def)
  have c': "tlc_jobs c' = bt_remove j (tlc_jobs c)" "ttc_jobs t' = removeAll j (ttc_jobs t)"
    "tlc_lifecycle c' = tlc_lifecycle c" "tlc_next_turn_id c' = tlc_next_turn_id c" "tlc_next_job_id c' = tlc_next_job_id c"
    using r by (auto simp: tool_complete_job_def Let_def split: option.splits)
  have mine: "turn_jobs T i = Some (set (ttc_jobs t))" using t by (simp add: turn_jobs_def)
  have "parts ((?J - set (ttc_jobs t)) \<union> set (ttc_jobs t')) (tlc_next_turn_id c) ((turn_jobs T)(i \<mapsto> set (ttc_jobs t')))"
    by (rule parts_update [OF pt mine]) (auto simp: c')
  moreover have "(?J - set (ttc_jobs t)) \<union> set (ttc_jobs t') = fst ` set (tlc_jobs c')"
    using parts_subset [OF pt mine] j by (auto simp: c')
  ultimately have "parts (fst ` set (tlc_jobs c')) (tlc_next_turn_id c') (turn_jobs (T(i \<mapsto> t')))"
    by (simp add: turn_jobs_update c')
  moreover have "length (bt_remove j (tlc_jobs c)) \<le> length (tlc_jobs c)" by (simp add: bt_remove_def)
  then have "jobs_bounded rs c'"
    using jb by (auto simp: jobs_bounded_def c')
  moreover have "failures_accounted c' (T(i \<mapsto> t'))"
  proof (cases failure)
    case None
    then have "tlc_unacknowledged c' = tlc_unacknowledged c" "ttc_failures t' = ttc_failures t"
      using r by (auto simp: tool_complete_job_def)
    then show ?thesis using acc t c' by (auto simp: failures_accounted_def)
  next
    case (Some e)
    have f: "tlc_unacknowledged c' = bt_entry i tool_ledger_default (tool_ledger_record e) (tlc_unacknowledged c)"
      "ttc_failures t' = tool_ledger_record e (ttc_failures t)"
      using r Some by (auto simp: tool_complete_job_def)
    have "tool_ledger_ok (ttc_failures t)" using acc t by (simp add: failures_accounted_def)
    then have "tool_ledger_ok (tool_ledger_record e (ttc_failures t))" using closure [OF Some] by (rule tool_ledger_record_ok)
    moreover have "(case map_of (tlc_unacknowledged c) i of None \<Rightarrow> tool_ledger_default | Some l \<Rightarrow> l) = ttc_failures t"
      if "tlc_lifecycle c \<noteq> ToolStopped"
      using acc t that by (auto simp: failures_accounted_def tool_ledger_empty_iff)
    ultimately show ?thesis
      using acc t c' by (auto simp: failures_accounted_def f bt_entry_def)
  qed
  ultimately show ?thesis using c' cons t by (auto simp: tool_system_inv_def)
qed

lemma system_cancels:
  assumes inv: "tool_system_inv rs (c, T, w)"
    and c': "c' = c\<lparr>tlc_lifecycle := l, tlc_jobs := map (\<lambda>(i, b). (i, g i b)) (tlc_jobs c)\<rparr>"
    and l: "l = tlc_lifecycle c \<or> (l = ToolStopping \<and> tlc_lifecycle c \<noteq> ToolStopped \<and> (\<forall>i b. g i b))"
    and keep: "\<And>i b. b \<Longrightarrow> g i b"
  shows "tool_system_inv rs (c', T, w')"
proof -
  have keys: "fst ` set (tlc_jobs c') = fst ` set (tlc_jobs c)" "bt_keys (tlc_jobs c') = bt_keys (tlc_jobs c)"
    by (force simp: c' image_iff) (simp add: c' comp_def split_def)
  have jb: "jobs_bounded rs c" using inv by (simp add: tool_system_inv_def)
  have "bt_wf (tlc_jobs c')" using jb keys(2) by (simp add: jobs_bounded_def bt_wf_def)
  moreover have "\<forall>(_, b) \<in> set (tlc_jobs c'). b" if "l = ToolStopping"
    using l keep jb that by (fastforce simp: jobs_bounded_def c')
  ultimately have "jobs_bounded rs c'"
    using jb keys(1) l by (auto simp: jobs_bounded_def c')
  moreover have "failures_accounted c' T" using inv l by (auto simp: tool_system_inv_def failures_accounted_def c')
  moreover have "parts (fst ` set (tlc_jobs c')) (tlc_next_turn_id c') (turn_jobs T)"
    unfolding keys(1) using inv by (simp add: tool_system_inv_def c')
  ultimately show ?thesis using inv l by (auto simp: tool_system_inv_def c')
qed

lemma system_turn_update:
  assumes inv: "tool_system_inv rs (c, T, w)" and t: "T i = Some t" and jobs: "ttc_jobs t' = ttc_jobs t"
    and f: "ttc_failures t' = ttc_failures t"
  shows "tool_system_inv rs (c, T(i \<mapsto> t'), w')"
  using inv t turn_jobs_same [of T i t t', OF t] jobs f by (auto simp: tool_system_inv_def failures_accounted_def)

lemma system_finished:
  assumes inv: "tool_system_inv rs (c, T, w)" and t: "T i = Some t"
    and r: "tool_finish_end i budget_error c t = (f, c', t')"
  shows "tool_system_inv rs (c', T(i \<mapsto> t'), w')"
proof -
  have c': "c' = c\<lparr>tlc_unacknowledged := bt_remove i (tlc_unacknowledged c)\<rparr>" "t' = t\<lparr>ttc_failures := tool_ledger_default\<rparr>"
    using r by (auto simp: tool_finish_end_def tool_acknowledge_turn_def Let_def)
  have "failures_accounted c' (T(i \<mapsto> t'))"
    using inv by (auto simp: tool_system_inv_def failures_accounted_def c')
  then show ?thesis
    using inv t turn_jobs_same [of T i t t', OF t] by (auto simp: tool_system_inv_def jobs_bounded_def c')
qed

lemma system_bound:
  assumes inv: "tool_system_inv rs (c, T, w)"
    and r: "tool_bind_turn env rs own_run cancelled caller supplied c w = (Ok (turn, t), c', w')"
  shows "tool_system_inv rs (c', T(tt_id turn \<mapsto> t), w'')"
proof -
  obtain n where n: "tlc_lifecycle c = ToolRunning" "checked_add (tlc_next_turn_id c) 1 = Some n"
    and i: "tt_id turn = tlc_next_turn_id c" "t = tool_turn_control_new" and c': "c' = c\<lparr>tlc_next_turn_id := n\<rparr>"
    using r by (auto simp: tool_bind_turn_def tool_turn_id_def Let_def split: if_splits outcome.splits prod.splits option.splits)
  have lt: "tlc_next_turn_id c < n" using n(2) by (simp add: checked_add_Some_iff word_less_nat_alt)
  have pt: "parts (fst ` set (tlc_jobs c)) (tlc_next_turn_id c) (turn_jobs T)" using inv by (simp add: tool_system_inv_def)
  have none: "T (tlc_next_turn_id c) = None"
    using parts_below [OF pt, of "tlc_next_turn_id c"] by (cases "T (tlc_next_turn_id c)") (auto simp: turn_jobs_def)
  have "parts (fst ` set (tlc_jobs c)) n (turn_jobs (T(tt_id turn \<mapsto> t)))"
    using parts_new [OF pt lt] by (simp add: turn_jobs_update i tool_turn_control_new_def)
  moreover have "failures_accounted c' (T(tt_id turn \<mapsto> t))"
    using inv none
    by (auto simp: tool_system_inv_def failures_accounted_def c' i tool_turn_control_new_def)
  ultimately show ?thesis using inv n(1) by (auto simp: tool_system_inv_def jobs_bounded_def c')
qed


lemma tool_system_stop_end:
  assumes inv: "tool_system_inv rs (c, T, w)" and ready: "tool_stop_ready c" and r: "tool_stop_end c = (e, c')"
  shows "tool_system_inv rs (c', T, w')"
proof -
  have c': "c' = c\<lparr>tlc_lifecycle := ToolStopped, tlc_unacknowledged := []\<rparr>" using r by (simp add: tool_stop_end_def Let_def)
  show ?thesis
    using inv ready by (auto simp: tool_system_inv_def jobs_bounded_def failures_accounted_def tool_stop_ready_def c')
qed

lemma settle_complete:
  assumes "tool_guard_complete env i j jb result c t w = (d, c', t', w')"
  shows "\<exists>failure. tool_complete_job i j failure c t = (d, c', t') \<and> (\<forall>e. failure = Some e \<longrightarrow> is_tool_closure_failure e)"
  using assms
  by (auto simp: tool_guard_complete_def Let_def split: prod.splits outcome.splits if_splits
    intro: exI [of _ None] exI [of _ "Some e" for e])

lemma settle_drop:
  assumes "tool_guard_drop env i j job_text jb c t w = (d, c', t', w')"
  shows "\<exists>failure. tool_complete_job i j failure c t = (d, c', t') \<and> (\<forall>e. failure = Some e \<longrightarrow> is_tool_closure_failure e)"
proof -
  let ?f = "Some (TrInternal ''tool_driver_unwound'' (''Tool operation '' @ job_text @ '' unwound before canonical closure''))"
  have "tool_complete_job i j ?f c t = (d, c', t')"
    using assms by (auto simp: tool_guard_drop_def Let_def split: prod.splits)
  then show ?thesis by (intro exI [of _ ?f]) (simp add: is_tool_closure_failure_def)
qed

lemma tool_call_admit_runs:
  assumes "tool_call_admit env ops rs turn cancelled key_uuid call_uuid name arguments options latches c t w = (r, latches', c', t', w')"
  shows "(c' = c \<and> t' = t) \<or>
    (\<exists>output_limit w1 a. tool_admit env rs (tt_budget turn) output_limit c t w1 = (a, c', t', w'))"
  using assms
  by (auto simp: tool_call_admit_def Let_def split: outcome.splits if_splits prod.splits option.splits)

lemma tool_step_inv:
  assumes "tool_step env rs s s'" "tool_system_inv rs s"
  shows "tool_system_inv rs s'"
  using assms
proof (induction rule: tool_step.induct)
  case (start c r c' T w)
  then show ?case
    by (auto simp: tool_start_def tool_system_inv_def jobs_bounded_def failures_accounted_def split: if_splits)
next
  case (bind own_run cancelled caller supplied c w turn t c' w' T)
  then show ?case by (blast intro: system_bound)
next
  case (admit T i t ops turn cancelled key_uuid call_uuid name arguments options latches c w r latches' c' t' w')
  from tool_call_admit_runs [OF admit.hyps(2)] show ?case
  proof (elim disjE exE conjE)
    assume "c' = c" "t' = t"
    then show ?thesis using admit by (simp add: tool_system_inv_def fun_upd_idem)
  qed (blast intro: system_admitted [OF admit.prems admit.hyps(1)])
next
  case (complete T i t j jb result c w d c' t' w')
  from settle_complete [OF complete.hyps(3)] obtain failure where
    "tool_complete_job i j failure c t = (d, c', t')" "\<And>e. failure = Some e \<Longrightarrow> is_tool_closure_failure e" by blast
  then show ?case by (rule system_completed [OF complete.prems complete.hyps(1,2), rotated])
next
  case (unwind T i t j job_text jb c w d c' t' w')
  from settle_drop [OF unwind.hyps(3)] obtain failure where
    "tool_complete_job i j failure c t = (d, c', t')" "\<And>e. failure = Some e \<Longrightarrow> is_tool_closure_failure e" by blast
  then show ?case by (rule system_completed [OF unwind.prems unwind.hyps(1,2), rotated])
next
  case (finish_begin T i t mode c c' t' w)
  let ?g = "\<lambda>j b. b \<or> (mode = ToolCancel \<and> j \<in> set (ttc_jobs t))"
  have c': "c' = c\<lparr>tlc_lifecycle := tlc_lifecycle c, tlc_jobs := map (\<lambda>(j, b). (j, ?g j b)) (tlc_jobs c)\<rparr>"
    "t' = t\<lparr>ttc_open := False\<rparr>"
    using finish_begin.hyps by (auto simp: tool_finish_begin_def)
  have "tool_system_inv rs (c', T, w)" by (rule system_cancels [OF finish_begin.prems c'(1)]) auto
  then show ?case by (rule system_turn_update) (use finish_begin.hyps c'(2) in auto)
next
  case (finish_end T i t budget_error c f c' t' w)
  then show ?case by (blast intro: system_finished)
next
  case (stop_begin c b c' T w)
  show ?case
  proof (cases "tlc_lifecycle c = ToolStopped")
    case False
    then have c': "c' = c\<lparr>tlc_lifecycle := ToolStopping, tlc_jobs := map (\<lambda>(j, b). (j, True)) (tlc_jobs c)\<rparr>"
      using stop_begin.hyps by (simp add: tool_stop_begin_def)
    show ?thesis by (rule system_cancels [OF stop_begin.prems c']) (use False in auto)
  qed (use stop_begin in \<open>simp add: tool_stop_begin_def\<close>)
next
  case (stop_end c e c' T w)
  then show ?case by (blast intro: tool_system_stop_end)
next
  case (world c T w w')
  then show ?case by (simp add: tool_system_inv_def)
qed

lemma reachable_tool_inv: "tool_reach env rs s \<Longrightarrow> tool_system_inv rs s"
proof (induction rule: tool_reach.induct)
  case (initial w)
  then show ?case
    by (simp add: tool_system_inv_def jobs_bounded_def parts_def turn_jobs_def failures_accounted_def tool_control_new_def)
next
  case (step s s')
  then show ?case by (blast intro: tool_step_inv)
qed

text \<open>The result of a turn never panics on a ledger of closure failures.\<close>

lemma tool_ledger_ok_empty: "tool_ledger_ok l \<Longrightarrow> tool_ledger_is_empty l \<longleftrightarrow> tfl_failures l = []"
  by (auto simp: tool_ledger_ok_def tool_ledger_is_empty_def MAX_TOOL_LIFECYCLE_FAILURES_def)

lemma tool_turn_result_cases:
  assumes "tool_ledger_ok l"
  shows "tool_turn_result l = (if tfl_failures l = [] then Ok () else
      Err \<lparr>ttf_failures = take MAX_TOOL_TURN_FAILURES (tfl_failures l),
        ttf_omitted = usize_saturating_add (tfl_omitted l) (length (tfl_failures l) - MAX_TOOL_TURN_FAILURES)\<rparr>)"
proof -
  have "list_all is_tool_closure_failure (tfl_failures l)" using assms by (simp add: tool_ledger_ok_def)
  then have "\<not> list_ex (\<lambda>e. \<not> is_tool_closure_failure e) (tfl_failures l)" by (auto simp: list_all_iff list_ex_iff)
  then show ?thesis
    using tool_ledger_ok_empty [OF assms] by (simp add: tool_turn_result_def tool_bounded_failures_def)
qed

end
