(* ===== verification/ToolOperation.thy ===== *)
theory ToolOperation
  imports ToolRuntime
begin

text \<open>
  The driver of one tool operation, \<open>run_operation\<close> and \<open>resolve_semantic\<close> of
  \<open>crates/tools/runtime/src/lib.rs\<close>: the recording of the call, the checks, guards and approval before
  the body, the body under its deadlines, the settlement of the budget and the recording of the result.

  A future is the call that creates it and the output of the poll that ends it; \<open>Panic\<close> is a panic of
  either. A driver runs between the steps of others. Where it awaits, the schedule says at which polls
  the future is ready, and the branches of the biased \<open>select!\<close> are tried in their order at each
  poll. A driver whose schedule ends first is still waiting, which is the value \<open>None\<close>. The append of
  a record is awaited outside every \<open>select!\<close>: no deadline and no cancellation discards it once it
  has begun, so an append that never answers, the value \<open>None\<close> of \<open>ov_append\<close>, holds its driver for
  good.
\<close>

section \<open>Drivers\<close>

record ('a, 'w) tool_future =
  fu_start :: "'w \<Rightarrow> bool \<times> 'w"
  fu_output :: "'w \<Rightarrow> 'a \<times> 'w"

text \<open>
  The history of an operation is kept beside its state: what it asked of its surroundings and what
  they answered. A record has the recorder's own answer, and whether the runtime took it for a commit.
\<close>

datatype 'v tool_event =
  ToolRecorded "'v tool_record" "('v session_event, 'v session_runtime_error) outcome" bool
| GuardAnswered handle "(tool_denial option, tool_guard_error) outcome"
| AuthorizerAnswered handle "(tool_authorization_decision, tool_authorization_error) outcome"
| BudgetStarted
| BodyEntered handle "'v tool_body_request"

record ('b, 'v, 'r, 'w) tool_driver =
  ov_env :: "('b, 'r, 'w) tool_env"
  ov_runtime :: "'v tool_runtime_state"
  ov_turn :: "('b, 'v) tool_turn"
  ov_deadline :: duration
  ov_budget_deadline :: "duration option"
  ov_output_limit :: usize
  ov_others :: "'w \<Rightarrow> 'w"
  ov_parent_cancelled :: "'w \<Rightarrow> bool"
  ov_token_cancelled :: "'w \<Rightarrow> bool"
  ov_append :: "'v tool_record \<Rightarrow> 'w \<Rightarrow> (('v session_event, 'v session_runtime_error) outcome \<times> 'w) option"
  ov_guard :: "handle \<Rightarrow> 'v tool_call \<Rightarrow> ((tool_denial option, tool_guard_error) outcome, 'w) tool_future"
  ov_authorize :: "handle \<Rightarrow> 'v tool_call \<Rightarrow> ((tool_authorization_decision, tool_authorization_error) outcome, 'w) tool_future"
  ov_execute :: "handle \<Rightarrow> 'v tool_body_request \<Rightarrow> ((string, tool_body_error) outcome, 'w) tool_future"

record ('v, 'r, 'w) tool_driver_state =
  os_budget :: "'r tool_job_budget"
  os_world :: 'w
  os_history :: "'v tool_event list"

definition tool_scope :: "('b, 'v, 'r, 'w) tool_driver \<Rightarrow> 'b" where
  "tool_scope d = tt_budget (ov_turn d)"

definition combined_cancelled :: "('b, 'v, 'r, 'w) tool_driver \<Rightarrow> 'w \<Rightarrow> bool" where
  "combined_cancelled d w \<longleftrightarrow> ov_parent_cancelled d w \<or> ov_token_cancelled d w"

definition tool_note :: "'v tool_event \<Rightarrow> ('v, 'r, 'w) tool_driver_state \<Rightarrow> ('v, 'r, 'w) tool_driver_state" where
  "tool_note e s = s\<lparr>os_history := os_history s @ [e]\<rparr>"

definition tool_now :: "('b, 'v, 'r, 'w) tool_driver \<Rightarrow> ('v, 'r, 'w) tool_driver_state \<Rightarrow> duration" where
  "tool_now d s = me_now (tn_budget (ov_env d)) (os_world s)"

section \<open>Resolutions\<close>

record semantic_resolution =
  sm_outcome :: tool_recorded_outcome
  sm_cancelled :: bool
  sm_budget_error :: "budget_error option"

definition sem_success :: "string \<Rightarrow> semantic_resolution" where
  "sem_success out = \<lparr>sm_outcome = ToolSucceeded out, sm_cancelled = False, sm_budget_error = None\<rparr>"

definition sem_failure :: "tool_failure_category \<Rightarrow> string \<Rightarrow> string \<Rightarrow> bool \<Rightarrow> semantic_resolution" where
  "sem_failure category code message retryable =
     \<lparr>sm_outcome = ToolFailed category (bounded_text code MAX_TOOL_DIAGNOSTIC_BYTES)
        (bounded_text message MAX_TOOL_DIAGNOSTIC_BYTES) retryable,
      sm_cancelled = False, sm_budget_error = None\<rparr>"

definition sem_cancelled :: semantic_resolution where
  "sem_cancelled = (sem_failure TcCancelled ''tool_cancelled'' ''Tool operation was cancelled'' False)\<lparr>sm_cancelled := True\<rparr>"

definition sem_timeout :: semantic_resolution where
  "sem_timeout = sem_failure TcTimeout ''tool_timeout'' ''Tool operation exceeded its deadline'' True"

definition sem_budget :: "budget_error \<Rightarrow> semantic_resolution" where
  "sem_budget error =
     (sem_failure TcBudget ''tool_budget_stopped'' (budget_error_text error) False)\<lparr>sm_budget_error := Some error\<rparr>"

section \<open>Interruptions and waits\<close>

text \<open>\<open>budget.expire().err().unwrap_or(\<dots>)\<close>\<close>

definition expire_budget ::
    "('b, 'v, 'r, 'w) tool_driver \<Rightarrow> ('v, 'r, 'w) tool_driver_state \<Rightarrow> budget_error \<times> ('v, 'r, 'w) tool_driver_state" where
  "expire_budget d s =
     (let (r, w) = tn_expire (ov_env d) (tool_scope d) (os_world s) in
      (case r of Err e \<Rightarrow> e | _ \<Rightarrow> budget_error.Stopped ActiveTime, s\<lparr>os_world := w\<rparr>))"

definition budget_deadline_passed :: "('b, 'v, 'r, 'w) tool_driver \<Rightarrow> ('v, 'r, 'w) tool_driver_state \<Rightarrow> bool" where
  "budget_deadline_passed d s \<longleftrightarrow>
     (case ov_budget_deadline d of None \<Rightarrow> False | Some deadline \<Rightarrow> tool_now d s \<ge> deadline)"

datatype tool_stop = TsBudget budget_error | TsCancelled | TsTimeout

fun stop_resolution :: "tool_stop \<Rightarrow> semantic_resolution" where
  "stop_resolution (TsBudget e) = sem_budget e"
| "stop_resolution TsCancelled = sem_cancelled"
| "stop_resolution TsTimeout = sem_timeout"

text \<open>
  The order of \<open>interruption\<close> and of the branches of \<open>await_control\<close>'s \<open>select!\<close>: \<open>stopped\<close> is
  ready when \<open>check_active\<close> fails.
\<close>

definition tool_interruption ::
    "('b, 'v, 'r, 'w) tool_driver \<Rightarrow> ('v, 'r, 'w) tool_driver_state
       \<Rightarrow> tool_stop option \<times> ('v, 'r, 'w) tool_driver_state" where
  "tool_interruption d s =
     (let (active, w) = me_check_active (tn_budget (ov_env d)) (tool_scope d) (os_world s); s = s\<lparr>os_world := w\<rparr> in
      (case active of
         Err e \<Rightarrow> (Some (TsBudget e), s)
       | _ \<Rightarrow>
           if budget_deadline_passed d s then let (e, s) = expire_budget d s in (Some (TsBudget e), s)
           else if combined_cancelled d (os_world s) then (Some TsCancelled, s)
           else if tool_now d s \<ge> ov_deadline d then (Some TsTimeout, s)
           else (None, s)))"

definition tool_pause :: "('b, 'v, 'r, 'w) tool_driver \<Rightarrow> ('v, 'r, 'w) tool_driver_state \<Rightarrow> ('v, 'r, 'w) tool_driver_state" where
  "tool_pause d s = s\<lparr>os_world := ov_others d (os_world s)\<rparr>"

fun await_control ::
    "('b, 'v, 'r, 'w) tool_driver \<Rightarrow> ('w \<Rightarrow> 'a \<times> 'w) \<Rightarrow> bool list \<Rightarrow> ('v, 'r, 'w) tool_driver_state
       \<Rightarrow> (('a, tool_stop) sum \<times> bool list \<times> ('v, 'r, 'w) tool_driver_state) option" where
  "await_control d out [] s = None"
| "await_control d out (ready # polls) s =
     (case tool_interruption d (tool_pause d s) of
        (Some stop, s) \<Rightarrow> Some (Inr stop, polls, s)
      | (None, s) \<Rightarrow>
          if ready then let (a, w) = out (os_world s) in Some (Inl a, polls, s\<lparr>os_world := w\<rparr>)
          else await_control d out polls s)"

text \<open>A call under \<open>catch_unwind\<close> and then its future: a panic of either is the outcome \<open>Panic\<close>.\<close>

definition run_future ::
    "('b, 'v, 'r, 'w) tool_driver \<Rightarrow> (('a, 'e) outcome, 'w) tool_future \<Rightarrow> bool list \<Rightarrow> ('v, 'r, 'w) tool_driver_state
       \<Rightarrow> ((('a, 'e) outcome, tool_stop) sum \<times> bool list \<times> ('v, 'r, 'w) tool_driver_state) option" where
  "run_future d f polls s =
     (let (started, w) = fu_start f (os_world s); s = s\<lparr>os_world := w\<rparr> in
      if started then await_control d (fu_output f) polls s else Some (Inl Panic, polls, s))"

section \<open>Before the body\<close>

definition tool_unavailable :: semantic_resolution where
  "tool_unavailable = sem_failure TcUnavailable ''tool_unavailable'' ''Tool is unavailable to this caller'' False"

text \<open>What ends an operation, or that it may go on.\<close>

type_synonym ('v, 'r, 'w) tool_progress =
  "(semantic_resolution option \<times> bool list \<times> ('v, 'r, 'w) tool_driver_state) option"

definition guard_answer :: "(tool_denial option, tool_guard_error) outcome \<Rightarrow> semantic_resolution option" where
  "guard_answer r = (case r of
       Panic \<Rightarrow> Some (sem_failure TcGuardFault ''tool_guard_panicked'' ''Tool guard panicked'' False)
     | Err (ToolGuardError g) \<Rightarrow> Some (sem_failure TcGuardFault (dg_code g) (dg_message g) (dg_retryable g))
     | Ok (Some (ToolDenial g)) \<Rightarrow> Some (sem_failure TcDenied (dg_code g) (dg_message g) (dg_retryable g))
     | Ok None \<Rightarrow> None)"

fun run_guards ::
    "('b, 'v, 'r, 'w) tool_driver \<Rightarrow> 'v tool_call \<Rightarrow> handle list \<Rightarrow> bool list \<Rightarrow> ('v, 'r, 'w) tool_driver_state
       \<Rightarrow> ('v, 'r, 'w) tool_progress" where
  "run_guards d call [] polls s = Some (None, polls, s)"
| "run_guards d call (g # guards) polls s =
     (case run_future d (ov_guard d g call) polls s of
        None \<Rightarrow> None
      | Some (Inr stop, polls, s) \<Rightarrow> Some (Some (stop_resolution stop), polls, s)
      | Some (Inl r, polls, s) \<Rightarrow>
          (case guard_answer r of
             Some resolution \<Rightarrow> Some (Some resolution, polls, tool_note (GuardAnswered g r) s)
           | None \<Rightarrow> run_guards d call guards polls (tool_note (GuardAnswered g r) s)))"

definition authorizer_answer ::
    "(tool_authorization_decision, tool_authorization_error) outcome \<Rightarrow> semantic_resolution option" where
  "authorizer_answer r = (case r of
       Panic \<Rightarrow> Some (sem_failure TcApprovalFault ''tool_authorizer_panicked'' ''Tool authorizer panicked'' False)
     | Err (ToolAuthorizationError g) \<Rightarrow> Some (sem_failure TcApprovalFault (dg_code g) (dg_message g) (dg_retryable g))
     | Ok (AuthDenied (ToolDenial g)) \<Rightarrow> Some (sem_failure TcApprovalDenied (dg_code g) (dg_message g) (dg_retryable g))
     | Ok AuthApproved \<Rightarrow> None)"

definition run_approval ::
    "('b, 'v, 'r, 'w) tool_driver \<Rightarrow> 'v tool_call \<Rightarrow> 'v tool_entry \<Rightarrow> bool list \<Rightarrow> ('v, 'r, 'w) tool_driver_state
       \<Rightarrow> ('v, 'r, 'w) tool_progress" where
  "run_approval d call entry polls s =
     (case approval_key (tm_approval (en_metadata entry)) of
        None \<Rightarrow> Some (None, polls, s)
      | Some key \<Rightarrow>
          (case map_of (trs_authorizers (ov_runtime d)) key of
             None \<Rightarrow> Some (Some (sem_failure TcApprovalUnavailable ''tool_approval_unavailable''
                 ''Required Tool authorizer is unavailable'' False), polls, s)
           | Some authorizer \<Rightarrow>
               (case run_future d (ov_authorize d authorizer call) polls s of
                  None \<Rightarrow> None
                | Some (Inr stop, polls, s) \<Rightarrow> Some (Some (stop_resolution stop), polls, s)
                | Some (Inl r, polls, s) \<Rightarrow>
                    Some (authorizer_answer r, polls, tool_note (AuthorizerAnswered authorizer r) s))))"

definition arguments_answer :: "(unit, string) outcome \<Rightarrow> semantic_resolution option" where
  "arguments_answer r = (case r of
       Panic \<Rightarrow> Some (sem_failure TcInvalidArguments ''tool_arguments_validation_fault''
          ''Tool argument validation failed internally'' False)
     | Err e \<Rightarrow> Some (sem_failure TcInvalidArguments ''tool_arguments_invalid'' e False)
     | Ok _ \<Rightarrow> None)"

text \<open>Is the call interrupted at this point?\<close>

definition check_point ::
    "('b, 'v, 'r, 'w) tool_driver \<Rightarrow> ('v, 'r, 'w) tool_driver_state
       \<Rightarrow> semantic_resolution option \<times> ('v, 'r, 'w) tool_driver_state" where
  "check_point d s = (let (stop, s) = tool_interruption d s in (map_option stop_resolution stop, s))"

text \<open>
  \<open>resolve_semantic\<close> up to the start of the budget: the entry of the tool the call may run, or the
  resolution that ends it.
\<close>

definition find_tool ::
    "('b, 'v, 'r, 'w) tool_driver \<Rightarrow> 'v tool_call \<Rightarrow> ('v tool_entry, semantic_resolution) outcome" where
  "find_tool d call =
     (if tl_name call \<notin> set (tt_granted (ov_turn d)) then Err tool_unavailable
      else
        (case map_of (trs_tools (ov_runtime d)) (tl_name call) of
           None \<Rightarrow> Err tool_unavailable
         | Some entry \<Rightarrow>
             (case arguments_answer (en_validator entry (tl_arguments call)) of
                Some resolution \<Rightarrow> Err resolution
              | None \<Rightarrow> Ok entry)))"

definition before_body ::
    "('b, 'v, 'r, 'w) tool_driver \<Rightarrow> 'v tool_call \<Rightarrow> 'v tool_entry \<Rightarrow> bool list \<Rightarrow> ('v, 'r, 'w) tool_driver_state
       \<Rightarrow> ('v, 'r, 'w) tool_progress" where
  "before_body d call entry polls s =
     (case check_point d s of
        (Some resolution, s) \<Rightarrow> Some (Some resolution, polls, s)
      | (None, s) \<Rightarrow>
          (case run_guards d call (trs_guards (ov_runtime d)) polls s of
             None \<Rightarrow> None
           | Some (Some resolution, polls, s) \<Rightarrow> Some (Some resolution, polls, s)
           | Some (None, polls, s) \<Rightarrow>
               (case run_approval d call entry polls s of
                  None \<Rightarrow> None
                | Some (Some resolution, polls, s) \<Rightarrow> Some (Some resolution, polls, s)
                | Some (None, polls, s) \<Rightarrow>
                    let (resolution, s) = check_point d s in Some (resolution, polls, s))))"

section \<open>The body\<close>

definition body_request :: "'v tool_call \<Rightarrow> 'v tool_body_request" where
  "body_request call = \<lparr>br_call_id = tl_id call, br_operation = tl_operation call, br_arguments = tl_arguments call\<rparr>"

definition observe_output :: "usize \<Rightarrow> ('v, 'r, 'w) tool_driver_state \<Rightarrow> ('v, 'r, 'w) tool_driver_state" where
  "observe_output bytes s = s\<lparr>os_budget := (os_budget s)\<lparr>tjb_output_bytes := Actual (of_nat bytes)\<rparr>\<rparr>"

definition body_answer ::
    "('b, 'v, 'r, 'w) tool_driver \<Rightarrow> (string, tool_body_error) outcome \<Rightarrow> ('v, 'r, 'w) tool_driver_state
       \<Rightarrow> semantic_resolution \<times> ('v, 'r, 'w) tool_driver_state" where
  "body_answer d r s = (case r of
       Panic \<Rightarrow> (sem_failure TcBodyPanic ''tool_body_panicked'' ''Tool body panicked'' False, s)
     | Err (ToolBodyError g) \<Rightarrow> (sem_failure TcBodyFailure (dg_code g) (dg_message g) (dg_retryable g), s)
     | Ok out \<Rightarrow>
         (if length out > ov_output_limit d
          then sem_failure TcOutputLimit ''tool_output_limit'' ''Tool output exceeded the configured byte limit'' False
          else sem_success out, observe_output (length out) s))"

text \<open>\<open>ToolExecutionTimer\<close> is dropped on every way out of the body.\<close>

definition record_execution ::
    "('b, 'v, 'r, 'w) tool_driver \<Rightarrow> duration \<Rightarrow> ('v, 'r, 'w) tool_driver_state \<Rightarrow> ('v, 'r, 'w) tool_driver_state" where
  "record_execution d started s =
     s\<lparr>os_world := tn_record_tool_time (ov_env d) (tool_scope d) (tool_now d s - started) (os_world s)\<rparr>"

definition run_body ::
    "('b, 'v, 'r, 'w) tool_driver \<Rightarrow> 'v tool_call \<Rightarrow> 'v tool_entry \<Rightarrow> bool list \<Rightarrow> ('v, 'r, 'w) tool_driver_state
       \<Rightarrow> (semantic_resolution \<times> ('v, 'r, 'w) tool_driver_state) option" where
  "run_body d call entry polls s =
     (let started = tool_now d s; s = tool_note (BodyEntered (en_tool entry) (body_request call)) s in
      (case run_future d (ov_execute d (en_tool entry) (body_request call)) polls s of
         None \<Rightarrow> None
       | Some (Inr stop, _, s) \<Rightarrow> Some (stop_resolution stop, record_execution d started s)
       | Some (Inl r, _, s) \<Rightarrow> let (resolution, s) = body_answer d r s in Some (resolution, record_execution d started s)))"

definition tool_start_budget ::
    "('b, 'v, 'r, 'w) tool_driver \<Rightarrow> ('v, 'r, 'w) tool_driver_state
       \<Rightarrow> (unit, budget_error) outcome \<times> ('v, 'r, 'w) tool_driver_state" where
  "tool_start_budget d s =
     (let (r, jb, w) = tool_job_start (ov_env d) (os_budget s) (os_world s); s = s\<lparr>os_budget := jb, os_world := w\<rparr> in
      (r, if r = Ok () then tool_note BudgetStarted s else s))"

text \<open>The outcome \<open>Panic\<close> is the \<open>expect\<close> of an unsettled operation.\<close>

definition resolve_semantic ::
    "('b, 'v, 'r, 'w) tool_driver \<Rightarrow> 'v tool_call \<Rightarrow> bool list \<Rightarrow> ('v, 'r, 'w) tool_driver_state
       \<Rightarrow> ((semantic_resolution, unit) outcome \<times> ('v, 'r, 'w) tool_driver_state) option" where
  "resolve_semantic d call polls s =
     (case check_point d s of
        (Some resolution, s) \<Rightarrow> Some (Ok resolution, s)
      | (None, s) \<Rightarrow>
          (case find_tool d call of
             Err resolution \<Rightarrow> Some (Ok resolution, s)
           | Panic \<Rightarrow> Some (Panic, s)
           | Ok entry \<Rightarrow>
               (case before_body d call entry polls s of
                  None \<Rightarrow> None
                | Some (Some resolution, _, s) \<Rightarrow> Some (Ok resolution, s)
                | Some (None, polls, s) \<Rightarrow>
                    (case tool_start_budget d s of
                       (Err e, s) \<Rightarrow> Some (Ok (sem_budget e), s)
                     | (Panic, s) \<Rightarrow> Some (Panic, s)
                     | (Ok _, s) \<Rightarrow>
                         (case run_body d call entry polls s of
                            None \<Rightarrow> None
                          | Some (resolution, s) \<Rightarrow> Some (Ok resolution, s))))))"

section \<open>Recording\<close>

definition foreign_event ::
    "('b, 'v, 'r, 'w) tool_driver \<Rightarrow> 'v session_event \<Rightarrow> 'w \<Rightarrow> bool \<times> 'w" where
  "foreign_event d event w =
     (if \<not> tt_explicit_budget (ov_turn d) then (False, w)
      else if se_session_id event \<noteq> id_session_id (tn_identity (ov_env d) (tool_scope d)) then (True, w)
      else
        let (turn, w) = tn_turn_id (ov_env d) (tool_scope d) w in
        ((case turn of Ok (Some i) \<Rightarrow> i \<noteq> se_turn_id event | _ \<Rightarrow> True), w))"

definition tool_record_kind :: "'v tool_record \<Rightarrow> budget_event_kind" where
  "tool_record_kind record = (case record of TrCall _ \<Rightarrow> EkToolCall | TrResult _ \<Rightarrow> EkToolResult)"

definition tool_append ::
    "('b, 'v, 'r, 'w) tool_driver \<Rightarrow> 'v tool_record \<Rightarrow> ('v, 'r, 'w) tool_driver_state
       \<Rightarrow> (('v session_event, 'v tool_record_error) outcome \<times> ('v, 'r, 'w) tool_driver_state) option" where
  "tool_append d record s =
     (case ov_append d record (ov_others d (os_world s)) of
        None \<Rightarrow> None
      | Some (appended, w) \<Rightarrow>
          let (r, w) = (case appended of
                  Err e \<Rightarrow> (Err (TreSession e), w)
                | Panic \<Rightarrow> (Err TreRecorderPanicked, w)
                | Ok event \<Rightarrow>
                    let (foreign, w) = foreign_event d event w in
                    if foreign then (Err (TreIdentityMismatch event), me_stop_with (tn_budget (ov_env d)) (tool_scope d) StopIdentityMismatch w)
                    else (Ok event, w));
              w = me_record_evidence (tn_budget (ov_env d)) (tool_scope d) (tool_record_kind record) (is_ok r) w in
          Some (r, tool_note (ToolRecorded record appended (is_ok r)) (s\<lparr>os_world := w\<rparr>)))"

definition tool_finish_budget ::
    "('b, 'v, 'r, 'w) tool_driver \<Rightarrow> ('v, 'r, 'w) tool_driver_state
       \<Rightarrow> (unit, budget_error) outcome \<times> ('v, 'r, 'w) tool_driver_state" where
  "tool_finish_budget d s =
     (let (r, jb, w) = tool_job_settle (ov_env d) (os_budget s) (os_world s) in (r, s\<lparr>os_budget := jb, os_world := w\<rparr>))"

section \<open>The operation\<close>

fun invalid_execution_text :: "invalid_tool_execution \<Rightarrow> string" where
  "invalid_execution_text CallIdMismatch = ''ToolCall and ToolResult call IDs differ''"
| "invalid_execution_text CallEventMismatch = ''committed call event does not contain the supplied ToolCall''"
| "invalid_execution_text ResultEventMismatch = ''committed result event does not contain the supplied ToolResult''"
| "invalid_execution_text DifferentSession = ''committed Tool events belong to different Sessions''"
| "invalid_execution_text DifferentTurn = ''committed Tool events belong to different turns''"
| "invalid_execution_text ReversedSequence = ''committed ToolResult does not follow its ToolCall''"

definition operation_output ::
    "semantic_resolution \<Rightarrow> ('v tool_execution, invalid_tool_execution) outcome
       \<Rightarrow> ('v tool_execution, 'v tool_runtime_error) outcome" where
  "operation_output semantic evidence =
     (case evidence of
        Err e \<Rightarrow> Err (TrInternal ''tool_record_evidence_invalid''
          (bounded_text (invalid_execution_text e) MAX_TOOL_DIAGNOSTIC_BYTES))
      | Panic \<Rightarrow> Panic
      | Ok execution \<Rightarrow>
          (case sm_budget_error semantic of
             Some e \<Rightarrow> Err (TrBudget e)
           | None \<Rightarrow> if sm_cancelled semantic then Err (TrCancelled execution) else Ok execution))"

text \<open>The part of \<open>run_operation\<close> after the resolution.\<close>

definition close_operation ::
    "('b, 'v, 'r, 'w) tool_driver \<Rightarrow> 'v tool_call \<Rightarrow> 'v session_event \<Rightarrow> semantic_resolution \<Rightarrow> ('v, 'r, 'w) tool_driver_state
       \<Rightarrow> (('v tool_execution, 'v tool_runtime_error) outcome \<times> ('v, 'r, 'w) tool_driver_state) option" where
  "close_operation d call call_event semantic s =
     (let (settled, s) = tool_finish_budget d s in
      (case settled of
         Panic \<Rightarrow> Some (Panic, s)
       | _ \<Rightarrow>
           let semantic = (case settled of Err e \<Rightarrow> sem_budget e | _ \<Rightarrow> semantic);
               result = \<lparr>tres_call_id = tl_id call, tres_outcome = sm_outcome semantic\<rparr> in
           (case tool_append d (TrResult result) s of
              None \<Rightarrow> None
            | Some (Err source, s) \<Rightarrow> Some (Err (TrRecording (result_error call result source)), s)
            | Some (Panic, s) \<Rightarrow> Some (Panic, s)
            | Some (Ok result_event, s) \<Rightarrow>
                Some (operation_output semantic (tool_execution_new call result call_event result_event), s))))"

definition run_operation ::
    "('b, 'v, 'r, 'w) tool_driver \<Rightarrow> 'v tool_call \<Rightarrow> bool list \<Rightarrow> ('v, 'r, 'w) tool_driver_state
       \<Rightarrow> (('v tool_execution, 'v tool_runtime_error) outcome \<times> ('v, 'r, 'w) tool_driver_state) option" where
  "run_operation d call polls s =
     (case tool_append d (TrCall call) s of
        None \<Rightarrow> None
      | Some (Err source, s) \<Rightarrow>
          let (_, s) = tool_finish_budget d s in Some (Err (TrRecording (call_error call source)), s)
      | Some (Panic, s) \<Rightarrow> Some (Panic, s)
      | Some (Ok call_event, s) \<Rightarrow>
          (case resolve_semantic d call polls s of
             None \<Rightarrow> None
           | Some (Ok semantic, s) \<Rightarrow> close_operation d call call_event semantic s
           | Some (_, s) \<Rightarrow> Some (Panic, s)))"

text \<open>The driver's task: its guard completes with the outcome, or is dropped by the unwinding.\<close>

definition tool_driver_end ::
    "('b, 'v, 'r, 'w) tool_driver \<Rightarrow> u64 \<Rightarrow> string \<Rightarrow> ('v tool_execution, 'v tool_runtime_error) outcome
       \<Rightarrow> ('v, 'r, 'w) tool_driver_state \<Rightarrow> 'v tool_control \<Rightarrow> 'v tool_turn_control
       \<Rightarrow> ('v tool_execution, 'v tool_runtime_error) outcome \<times> (bool \<times> bool) \<times> 'v tool_control \<times> 'v tool_turn_control \<times> 'w" where
  "tool_driver_end d job_id job_text r s c t =
     (if r = Panic
      then (Err (TrInternal ''tool_driver_lost'' (''Tool operation '' @ job_text @ '' ended without a completion report'')),
            tool_guard_drop (ov_env d) (tt_id (ov_turn d)) job_id job_text (os_budget s) c t (os_world s))
      else (r, tool_guard_complete (ov_env d) (tt_id (ov_turn d)) job_id (os_budget s) r c t (os_world s)))"

text \<open>The driver of an admitted call.\<close>

definition tool_initial :: "('v, 'r) tool_admission \<Rightarrow> 'w \<Rightarrow> ('v, 'r, 'w) tool_driver_state" where
  "tool_initial a w = \<lparr>os_budget = tad_budget a, os_world = w, os_history = []\<rparr>"

end
