(* ===== verification/ToolOperationInv.thy ===== *)
theory ToolOperationInv
  imports ToolOperation
begin

text \<open>
  What the steps of a tool operation leave in its history, how its result relates to what ran, and
  that an operation ends once its clock has passed its deadline.
\<close>

section \<open>Waits\<close>

text \<open>Steps that leave neither a trace nor a change of the job's budget.\<close>

definition tool_quiet :: "('v, 'r, 'w) tool_driver_state \<Rightarrow> ('v, 'r, 'w) tool_driver_state \<Rightarrow> bool" where
  "tool_quiet s s' \<longleftrightarrow> os_history s' = os_history s \<and> os_budget s' = os_budget s"

lemma tool_quiet_refl [simp]: "tool_quiet s s"
  by (simp add: tool_quiet_def)

lemma tool_quiet_trans: "tool_quiet s t \<Longrightarrow> tool_quiet t u \<Longrightarrow> tool_quiet s u"
  by (simp add: tool_quiet_def)

lemma tool_quiet_world [simp]: "tool_quiet s (t\<lparr>os_world := w\<rparr>) = tool_quiet s t"
  by (simp add: tool_quiet_def)

lemma interruption_quiet: "tool_interruption d s = (r, s') \<Longrightarrow> tool_quiet s s'"
  by (auto simp: tool_interruption_def expire_budget_def Let_def tool_quiet_def split: prod.splits outcome.splits if_splits)

lemma check_point_quiet: "check_point d s = (r, s') \<Longrightarrow> tool_quiet s s'"
  by (auto simp: check_point_def Let_def split: prod.splits dest: interruption_quiet)

lemma await_control_quiet: "await_control d out polls s = Some (r, rest, s') \<Longrightarrow> tool_quiet s s'"
proof (induction polls arbitrary: s)
  case (Cons ready polls)
  obtain i s1 where i: "tool_interruption d (tool_pause d s) = (i, s1)" by fastforce
  have q: "tool_quiet s s1" using interruption_quiet [OF i] by (simp add: tool_quiet_def tool_pause_def)
  show ?case
  proof (cases i)
    case None
    show ?thesis
    proof (cases ready)
      case False
      then show ?thesis using Cons i None q tool_quiet_trans by auto
    qed (use Cons.prems i None q in \<open>auto split: prod.splits\<close>)
  qed (use Cons.prems i q in auto)
qed simp

lemma run_future_quiet: "run_future d f polls s = Some (r, rest, s') \<Longrightarrow> tool_quiet s s'"
proof -
  assume a: "run_future d f polls s = Some (r, rest, s')"
  obtain started w where f: "fu_start f (os_world s) = (started, w)" by fastforce
  show ?thesis
    using a f await_control_quiet [of d "fu_output f" polls "s\<lparr>os_world := w\<rparr>" r rest s']
    by (auto simp: run_future_def tool_quiet_def Let_def split: if_splits)
qed

section \<open>Before the body\<close>

lemma run_guards_Cons:
  assumes f: "run_future d (ov_guard d g call) polls s = Some (a, p, s1)"
  shows "run_guards d call (g # guards) polls s =
    (case a of
       Inr stop \<Rightarrow> Some (Some (stop_resolution stop), p, s1)
     | Inl x \<Rightarrow> (case guard_answer x of
         Some resolution \<Rightarrow> Some (Some resolution, p, tool_note (GuardAnswered g x) s1)
       | None \<Rightarrow> run_guards d call guards p (tool_note (GuardAnswered g x) s1)))"
  using f by (simp split: sum.split)

lemma run_guards_waits: "run_future d (ov_guard d g call) polls s = None \<Longrightarrow> run_guards d call (g # guards) polls s = None"
  by simp

declare run_guards.simps(2) [simp del]

text \<open>A trace of checks alone: what guards and an authorizer answered.\<close>

definition no_body :: "'v tool_event list \<Rightarrow> bool" where
  "no_body trace \<longleftrightarrow> (\<forall>e \<in> set trace. case e of GuardAnswered _ _ \<Rightarrow> True | AuthorizerAnswered _ _ \<Rightarrow> True | _ \<Rightarrow> False)"

lemma no_body_append [simp]: "no_body (a @ b) \<longleftrightarrow> no_body a \<and> no_body b"
  by (auto simp: no_body_def)

lemma no_body_simps [simp]:
  "no_body []" "no_body (GuardAnswered g x # t) = no_body t" "no_body (AuthorizerAnswered a y # t) = no_body t"
  by (simp_all add: no_body_def)

lemma guard_answer_None: "guard_answer r = None \<longleftrightarrow> r = Ok None"
  by (auto simp: guard_answer_def split: outcome.splits option.splits tool_denial.splits tool_guard_error.splits)

lemma authorizer_answer_None: "authorizer_answer r = None \<longleftrightarrow> r = Ok AuthApproved"
  by (auto simp: authorizer_answer_def
    split: outcome.splits tool_authorization_decision.splits tool_denial.splits tool_authorization_error.splits)

text \<open>Every guard of a list answered that it has no objection.\<close>

abbreviation guards_trace :: "handle list \<Rightarrow> 'v tool_event list" where
  "guards_trace guards \<equiv> map (\<lambda>g. GuardAnswered g (Ok None)) guards"

lemma no_body_guards [simp]: "no_body (guards_trace guards)"
  by (simp add: no_body_def)

lemma run_guards_history:
  assumes "run_guards d call guards polls s = Some (r, rest, s')"
  shows "os_budget s' = os_budget s \<and>
    (\<exists>trace. no_body trace \<and> os_history s' = os_history s @ trace \<and> (r = None \<longrightarrow> trace = guards_trace guards))"
  using assms
proof (induction guards arbitrary: polls s)
  case (Cons g guards)
  have "run_future d (ov_guard d g call) polls s \<noteq> None"
    using Cons.prems run_guards_waits [of d g call polls s guards] by (metis option.distinct(1))
  then obtain a p s1 where f: "run_future d (ov_guard d g call) polls s = Some (a, p, s1)"
    by (metis not_None_eq prod_cases3)
  have q: "os_history s1 = os_history s" "os_budget s1 = os_budget s"
    using run_future_quiet [OF f] by (simp_all add: tool_quiet_def)
  note step = Cons.prems [unfolded run_guards_Cons [OF f]]
  show ?case
  proof (cases a)
    case (Inr stop)
    then have "r = Some (stop_resolution stop) \<and> s' = s1" using step by auto
    then show ?thesis using q by (intro conjI exI [of _ "[]"]) simp_all
  next
    case (Inl x)
    show ?thesis
    proof (cases "guard_answer x")
      case (Some resolution)
      then have "r = Some resolution \<and> s' = tool_note (GuardAnswered g x) s1" using step Inl by auto
      then show ?thesis using q by (intro conjI exI [of _ "[GuardAnswered g x]"]) (simp_all add: tool_note_def)
    next
      case None
      then have x: "x = Ok None" by (simp add: guard_answer_None)
      have "run_guards d call guards p (tool_note (GuardAnswered g x) s1) = Some (r, rest, s')"
        using step Inl None by simp
      from Cons.IH [OF this] obtain trace where "no_body trace" "os_budget s' = os_budget s"
        "os_history s' = os_history s @ GuardAnswered g x # trace" "r = None \<longrightarrow> trace = guards_trace guards"
        using q by (auto simp: tool_note_def)
      then show ?thesis using x by (intro conjI exI [of _ "GuardAnswered g x # trace"]) simp_all
    qed
  qed
qed simp

definition approval_trace :: "('b, 'v, 'r, 'w) tool_driver \<Rightarrow> 'v tool_entry \<Rightarrow> 'v tool_event list" where
  "approval_trace d entry = (case approval_key (tm_approval (en_metadata entry)) of
     None \<Rightarrow> []
   | Some key \<Rightarrow> (case map_of (trs_authorizers (ov_runtime d)) key of
       None \<Rightarrow> [] | Some authorizer \<Rightarrow> [AuthorizerAnswered authorizer (Ok AuthApproved)]))"

definition approval_possible :: "('b, 'v, 'r, 'w) tool_driver \<Rightarrow> 'v tool_entry \<Rightarrow> bool" where
  "approval_possible d entry \<longleftrightarrow> (case approval_key (tm_approval (en_metadata entry)) of
     None \<Rightarrow> True | Some key \<Rightarrow> map_of (trs_authorizers (ov_runtime d)) key \<noteq> None)"

lemma no_body_approval [simp]: "no_body (approval_trace d entry)"
  by (auto simp: approval_trace_def split: option.splits)

lemma run_approval_history:
  assumes "run_approval d call entry polls s = Some (r, rest, s')"
  shows "os_budget s' = os_budget s \<and>
    (\<exists>trace. no_body trace \<and> os_history s' = os_history s @ trace \<and>
      (r = None \<longrightarrow> approval_possible d entry \<and> trace = approval_trace d entry))"
proof (cases "approval_key (tm_approval (en_metadata entry))")
  case None
  then show ?thesis using assms by (auto simp: run_approval_def approval_possible_def approval_trace_def)
next
  case key: (Some key)
  show ?thesis
  proof (cases "map_of (trs_authorizers (ov_runtime d)) key")
    case None
    then show ?thesis using assms key by (auto simp: run_approval_def intro!: exI [of _ "[]"])
  next
    case (Some authorizer)
    then obtain a p s1 where f: "run_future d (ov_authorize d authorizer call) polls s = Some (a, p, s1)"
      using assms key by (auto simp: run_approval_def split: option.splits)
    have q: "os_history s1 = os_history s" "os_budget s1 = os_budget s"
      using run_future_quiet [OF f] by (simp_all add: tool_quiet_def)
    show ?thesis
    proof (cases a)
      case (Inl x)
      then have r: "r = authorizer_answer x" "s' = tool_note (AuthorizerAnswered authorizer x) s1"
        using assms key Some f by (simp_all add: run_approval_def)
      then show ?thesis
        using key Some q
        by (intro conjI exI [of _ "[AuthorizerAnswered authorizer x]"])
          (auto simp: approval_possible_def approval_trace_def tool_note_def authorizer_answer_None)
    next
      case (Inr stop)
      then have "r = Some (stop_resolution stop)" "s' = s1" using assms key Some f by (simp_all add: run_approval_def)
      then show ?thesis using q by (intro conjI exI [of _ "[]"]) simp_all
    qed
  qed
qed

text \<open>The trace of checks that succeed: no guard objects, and the authorizer, if any, approves.\<close>

definition checks_trace :: "('b, 'v, 'r, 'w) tool_driver \<Rightarrow> 'v tool_entry \<Rightarrow> 'v tool_event list" where
  "checks_trace d entry = guards_trace (trs_guards (ov_runtime d)) @ approval_trace d entry"

lemma before_body_history:
  assumes "before_body d call entry polls s = Some (r, rest, s')"
  shows "os_budget s' = os_budget s \<and>
    (\<exists>trace. os_history s' = os_history s @ trace \<and> no_body trace \<and>
      (r = None \<longrightarrow> trace = checks_trace d entry \<and> approval_possible d entry))"
proof -
  obtain c1 s1 where c1: "check_point d s = (c1, s1)" by fastforce
  note q1 = check_point_quiet [OF c1]
  show ?thesis
  proof (cases c1)
    case (Some resolution)
    then show ?thesis
      using assms c1 q1 by (intro conjI exI [of _ "[]"]) (auto simp: before_body_def tool_quiet_def)
  next
    case None
    then obtain g p2 s2 where g: "run_guards d call (trs_guards (ov_runtime d)) polls s1 = Some (g, p2, s2)"
      using assms c1 by (auto simp: before_body_def split: option.splits)
    from run_guards_history [OF g] obtain t1 where G: "os_budget s2 = os_budget s1" "no_body t1"
      "os_history s2 = os_history s1 @ t1" "g = None \<longrightarrow> t1 = guards_trace (trs_guards (ov_runtime d))" by blast
    show ?thesis
    proof (cases g)
      case (Some resolution)
      then show ?thesis
        using assms c1 None g q1 G by (intro conjI exI [of _ t1]) (auto simp: before_body_def tool_quiet_def)
    next
      case gn: None
      then obtain a p3 s3 where a: "run_approval d call entry p2 s2 = Some (a, p3, s3)"
        using assms c1 None g by (auto simp: before_body_def split: option.splits)
      from run_approval_history [OF a] obtain t2 where A: "os_budget s3 = os_budget s2" "no_body t2"
        "os_history s3 = os_history s2 @ t2" "a = None \<longrightarrow> approval_possible d entry \<and> t2 = approval_trace d entry" by blast
      obtain c2 s4 where c2: "check_point d s3 = (c2, s4)" by fastforce
      note q2 = check_point_quiet [OF c2]
      show ?thesis
      proof (cases a)
        case (Some resolution)
        then have "r = Some resolution" "s' = s3" using assms c1 None g gn a by (auto simp: before_body_def)
        then show ?thesis using q1 G A by (intro conjI exI [of _ "t1 @ t2"]) (simp_all add: tool_quiet_def)
      next
        case an: None
        then have "r = c2" "s' = s4" using assms c1 None g gn a c2 by (auto simp: before_body_def)
        then show ?thesis
          using q1 q2 G A gn an
          by (intro conjI exI [of _ "t1 @ t2"]) (simp_all add: tool_quiet_def checks_trace_def)
      qed
    qed
  qed
qed

section \<open>Resolutions\<close>

text \<open>The categories of failure that stop an operation before its body.\<close>

definition before_category :: "tool_failure_category \<Rightarrow> bool" where
  "before_category c \<longleftrightarrow> \<not> executed_category c"

fun outcome_before :: "tool_recorded_outcome \<Rightarrow> bool" where
  "outcome_before (ToolSucceeded _) = False"
| "outcome_before (ToolFailed c _ _ _) = (\<not> executed_category c)"

lemma outcome_before_iff: "recovery_status (Some out) = RsNotExecuted \<longleftrightarrow> outcome_before out"
  by (cases out) auto

lemma stop_outcome [simp]: "\<not> outcome_before (sm_outcome (stop_resolution stop))"
  "\<not> outcome_succeeded (sm_outcome (stop_resolution stop))"
  by (cases stop; simp add: sem_budget_def sem_cancelled_def sem_timeout_def sem_failure_def)+

lemma budget_outcome [simp]: "\<not> outcome_before (sm_outcome (sem_budget e))" "\<not> outcome_succeeded (sm_outcome (sem_budget e))"
  by (simp_all add: sem_budget_def sem_failure_def)

lemma failure_outcome [simp]: "sm_outcome (sem_failure c code message retryable) =
    ToolFailed c (bounded_text code MAX_TOOL_DIAGNOSTIC_BYTES) (bounded_text message MAX_TOOL_DIAGNOSTIC_BYTES) retryable"
  by (simp add: sem_failure_def)

lemma guard_answer_fails: "guard_answer r = Some resolution \<Longrightarrow> \<not> outcome_succeeded (sm_outcome resolution)"
  by (auto simp: guard_answer_def split: outcome.splits option.splits tool_denial.splits tool_guard_error.splits)

lemma authorizer_answer_fails: "authorizer_answer r = Some resolution \<Longrightarrow> \<not> outcome_succeeded (sm_outcome resolution)"
  by (auto simp: authorizer_answer_def
    split: outcome.splits tool_authorization_decision.splits tool_denial.splits tool_authorization_error.splits)

lemma check_point_fails: "check_point d s = (Some resolution, s') \<Longrightarrow> \<not> outcome_succeeded (sm_outcome resolution)"
  by (auto simp: check_point_def Let_def split: prod.splits)

lemma run_guards_fails:
  "run_guards d call guards polls s = Some (Some resolution, rest, s') \<Longrightarrow> \<not> outcome_succeeded (sm_outcome resolution)"
proof (induction guards arbitrary: polls s)
  case (Cons g guards)
  have "run_future d (ov_guard d g call) polls s \<noteq> None"
    using Cons.prems run_guards_waits [of d g call polls s guards] by (metis option.distinct(1))
  then obtain a p s1 where f: "run_future d (ov_guard d g call) polls s = Some (a, p, s1)"
    by (metis not_None_eq prod_cases3)
  note step = Cons.prems [unfolded run_guards_Cons [OF f]]
  show ?case
  proof (cases a)
    case (Inl x)
    then show ?thesis using step Cons.IH guard_answer_fails [of x] by (cases "guard_answer x") auto
  qed (use step in auto)
qed simp

lemma run_approval_fails:
  "run_approval d call entry polls s = Some (Some resolution, rest, s') \<Longrightarrow> \<not> outcome_succeeded (sm_outcome resolution)"
  by (auto simp: run_approval_def split: option.splits sum.splits dest: authorizer_answer_fails)

lemma before_body_fails:
  "before_body d call entry polls s = Some (Some resolution, rest, s') \<Longrightarrow> \<not> outcome_succeeded (sm_outcome resolution)"
  by (auto simp: before_body_def Let_def split: option.splits prod.splits
    dest: check_point_fails run_guards_fails run_approval_fails)

lemma find_tool_Ok:
  "find_tool d call = Ok entry \<longleftrightarrow> tl_name call \<in> set (tt_granted (ov_turn d)) \<and>
     map_of (trs_tools (ov_runtime d)) (tl_name call) = Some entry \<and> (\<exists>u. en_validator entry (tl_arguments call) = Ok u)"
  by (auto simp: find_tool_def arguments_answer_def split: option.splits outcome.splits)

lemma find_tool_neq_Panic [simp]: "find_tool d call \<noteq> Panic"
  by (auto simp: find_tool_def split: option.splits)

lemma find_tool_fails: "find_tool d call = Err resolution \<Longrightarrow> \<not> outcome_succeeded (sm_outcome resolution)"
  by (auto simp: find_tool_def arguments_answer_def tool_unavailable_def split: if_splits option.splits outcome.splits)

text \<open>What the body leaves: its output is recorded only within the limit.\<close>

lemma run_body_history:
  assumes "run_body d call entry polls s = Some (resolution, s')"
  shows "os_history s' = os_history s @ [BodyEntered (en_tool entry) (body_request call)] \<and>
    tjb_reservation (os_budget s') = tjb_reservation (os_budget s) \<and> tjb_started (os_budget s') = tjb_started (os_budget s) \<and>
    \<not> outcome_before (sm_outcome resolution) \<and>
    (\<forall>out. sm_outcome resolution = ToolSucceeded out \<longrightarrow> length out \<le> ov_output_limit d \<and>
       tjb_output_bytes (os_budget s') = Actual (of_nat (length out)))"
proof -
  let ?s = "tool_note (BodyEntered (en_tool entry) (body_request call)) s"
  obtain a p s1 where f: "run_future d (ov_execute d (en_tool entry) (body_request call)) polls ?s = Some (a, p, s1)"
    using assms by (auto simp: run_body_def Let_def split: option.splits)
  note q = run_future_quiet [OF f]
  show ?thesis
  proof (cases a)
    case (Inr stop)
    then have r: "resolution = stop_resolution stop" "s' = record_execution d (tool_now d s) s1"
      using assms f by (auto simp: run_body_def Let_def tool_now_def tool_note_def)
    have "sm_outcome (stop_resolution stop) \<noteq> ToolSucceeded out" for out
      using stop_outcome(2) [of stop] by fastforce
    then show ?thesis using q by (auto simp: r tool_quiet_def tool_note_def record_execution_def)
  next
    case (Inl x)
    obtain res s2 where b: "body_answer d x s1 = (res, s2)" by fastforce
    have r: "resolution = res" "s' = record_execution d (tool_now d s) s2"
      using assms f Inl b by (auto simp: run_body_def Let_def tool_now_def tool_note_def)
    show ?thesis
      using q b
      by (auto simp: r body_answer_def tool_quiet_def tool_note_def record_execution_def observe_output_def sem_success_def
        split: outcome.splits tool_body_error.splits if_splits)
  qed
qed

text \<open>The whole resolution: the body is entered only after every check, and its result says whether it was.\<close>

definition body_allowed :: "('b, 'v, 'r, 'w) tool_driver \<Rightarrow> 'v tool_call \<Rightarrow> 'v tool_entry \<Rightarrow> bool" where
  "body_allowed d call entry \<longleftrightarrow> tl_name call \<in> set (tt_granted (ov_turn d)) \<and>
     map_of (trs_tools (ov_runtime d)) (tl_name call) = Some entry \<and>
     (\<exists>u. en_validator entry (tl_arguments call) = Ok u) \<and> approval_possible d entry"

definition body_trace :: "('b, 'v, 'r, 'w) tool_driver \<Rightarrow> 'v tool_call \<Rightarrow> 'v tool_entry \<Rightarrow> 'v tool_event list" where
  "body_trace d call entry = checks_trace d entry @ [BudgetStarted, BodyEntered (en_tool entry) (body_request call)]"

definition resolved_as ::
    "('b, 'v, 'r, 'w) tool_driver \<Rightarrow> 'v tool_call \<Rightarrow> semantic_resolution \<Rightarrow> 'v tool_event list \<Rightarrow> bool" where
  "resolved_as d call resolution trace \<longleftrightarrow>
     (no_body trace \<and> \<not> outcome_succeeded (sm_outcome resolution)) \<or>
     (\<exists>entry. body_allowed d call entry \<and> trace = body_trace d call entry \<and> \<not> outcome_before (sm_outcome resolution) \<and>
        (\<forall>out. sm_outcome resolution = ToolSucceeded out \<longrightarrow> length out \<le> ov_output_limit d))"

lemma resolve_semantic_history:
  assumes "resolve_semantic d call polls s = Some (Ok resolution, s')"
  shows "\<exists>trace. os_history s' = os_history s @ trace \<and> resolved_as d call resolution trace \<and>
    tjb_reservation (os_budget s') = tjb_reservation (os_budget s)"
proof -
  obtain c1 s1 where c1: "check_point d s = (c1, s1)" by fastforce
  note q1 = check_point_quiet [OF c1]
  have early: ?thesis if "tool_quiet s s'" "\<not> outcome_succeeded (sm_outcome resolution)"
    using that by (intro exI [of _ "[]"]) (simp add: tool_quiet_def resolved_as_def)
  show ?thesis
  proof (cases c1)
    case (Some r)
    then show ?thesis
      using assms c1 q1 early check_point_fails [of d s r s1] by (auto simp: resolve_semantic_def)
  next
    case None
    show ?thesis
    proof (cases "find_tool d call")
      case (Err r)
      then show ?thesis using assms c1 None q1 early find_tool_fails [OF Err] by (auto simp: resolve_semantic_def)
    next
      case Panic
      then show ?thesis by simp
    next
      case (Ok entry)
      note F = Ok [unfolded find_tool_Ok]
      obtain b p2 s2 where b: "before_body d call entry polls s1 = Some (b, p2, s2)"
        using assms c1 None Ok by (auto simp: resolve_semantic_def split: option.splits)
      from before_body_history [OF b] obtain trace where B: "os_budget s2 = os_budget s1"
        "os_history s2 = os_history s1 @ trace" "no_body trace"
        "b = None \<longrightarrow> trace = checks_trace d entry \<and> approval_possible d entry" by blast
      show ?thesis
      proof (cases b)
        case (Some r)
        then have "resolution = r" "s' = s2" using assms c1 None Ok b by (auto simp: resolve_semantic_def)
        then show ?thesis
          using B q1 before_body_fails [of d call entry polls s1 r p2 s2] b Some
          by (intro exI [of _ trace]) (auto simp: resolved_as_def tool_quiet_def)
      next
        case bn: None
        obtain st s3 where st: "tool_start_budget d s2 = (st, s3)" by fastforce
        show ?thesis
        proof (cases st)
          case (Err e)
          then have r: "resolution = sem_budget e" "s' = s3" using assms c1 None Ok b bn st by (auto simp: resolve_semantic_def)
          have "os_history s3 = os_history s2" "tjb_reservation (os_budget s3) = tjb_reservation (os_budget s2)"
            using st Err by (auto simp: tool_start_budget_def tool_job_start_def Let_def split: option.splits prod.splits outcome.splits)
          then show ?thesis
            using B q1 r by (intro exI [of _ trace]) (auto simp: resolved_as_def tool_quiet_def)
        next
          case Panic
          then show ?thesis using assms c1 None Ok b bn st by (auto simp: resolve_semantic_def)
        next
          case (Ok u)
          then have s3: "os_history s3 = os_history s2 @ [BudgetStarted]" "tjb_reservation (os_budget s3) = tjb_reservation (os_budget s2)"
            using st by (auto simp: tool_start_budget_def tool_job_start_def tool_note_def Let_def
              split: option.splits prod.splits outcome.splits)
          have body: "run_body d call entry p2 s3 = Some (resolution, s')"
            using assms c1 None \<open>find_tool d call = Ok entry\<close> b bn st Ok
            by (auto simp: resolve_semantic_def split: option.splits)
          note R = run_body_history [OF body]
          have "body_allowed d call entry" using F B(4) bn by (simp add: body_allowed_def)
          moreover have "os_history s' = os_history s @ body_trace d call entry"
            using R s3 B q1 bn by (simp add: body_trace_def tool_quiet_def)
          ultimately show ?thesis
            using R s3 B q1 by (intro exI [of _ "body_trace d call entry"]) (auto simp: resolved_as_def tool_quiet_def)
        qed
      qed
    qed
  qed
qed


section \<open>The whole operation\<close>

lemma resolved_as_budget: "resolved_as d call resolution trace \<Longrightarrow> resolved_as d call (sem_budget e) trace"
proof -
  have "sm_outcome (sem_budget e) \<noteq> ToolSucceeded out" for out
    using budget_outcome(2) [of e] by fastforce
  then show "resolved_as d call resolution trace \<Longrightarrow> resolved_as d call (sem_budget e) trace"
    by (auto simp: resolved_as_def)
qed

text \<open>A record is committed only when the recorder itself answered with its event.\<close>

lemma tool_append_history:
  assumes "tool_append d record s = Some (r, s')"
  shows "\<exists>answer. os_history s' = os_history s @ [ToolRecorded record answer (is_ok r)] \<and> os_budget s' = os_budget s \<and>
    r \<noteq> Panic \<and> (\<forall>event. r = Ok event \<longrightarrow> answer = Ok event)"
  using assms
  by (auto simp: tool_append_def tool_note_def Let_def split: prod.splits outcome.splits if_splits option.splits)

lemma finish_budget_history: "tool_finish_budget d s = (r, s') \<Longrightarrow> os_history s' = os_history s"
  by (auto simp: tool_finish_budget_def Let_def split: prod.splits)

lemma operation_output_cases:
  assumes "operation_output semantic (tool_execution_new call result call_event result_event) = r"
  shows "(\<exists>execution. tool_execution_new call result call_event result_event = Ok execution \<and>
      (r = Ok execution \<and> \<not> sm_cancelled semantic \<and> sm_budget_error semantic = None \<or>
       r = Err (TrCancelled execution) \<and> sm_cancelled semantic \<and> sm_budget_error semantic = None \<or>
       (\<exists>e. sm_budget_error semantic = Some e \<and> r = Err (TrBudget e)))) \<or>
    (\<exists>text. r = Err (TrInternal ''tool_record_evidence_invalid'' text))"
  using assms tool_execution_new_neq_Panic [of call result call_event result_event]
  by (cases "tool_execution_new call result call_event result_event")
    (auto simp: operation_output_def split: option.splits if_splits)

text \<open>One call record, then what the resolution leaves, then one result record.\<close>

definition operation_closed ::
    "'v tool_call \<Rightarrow> semantic_resolution \<Rightarrow> 'v session_event \<Rightarrow> tool_result
       \<Rightarrow> ('v session_event, 'v session_runtime_error) outcome \<Rightarrow> bool
       \<Rightarrow> ('v tool_execution, 'v tool_runtime_error) outcome \<Rightarrow> bool" where
  "operation_closed call semantic call_event result answer ok r \<longleftrightarrow>
     result = \<lparr>tres_call_id = tl_id call, tres_outcome = sm_outcome semantic\<rparr> \<and>
     (if ok
      then is_ok answer \<and>
       ((\<exists>execution. te_call execution = call \<and> te_result execution = result \<and>
          te_call_event execution = call_event \<and> answer = Ok (te_result_event execution) \<and>
          tool_execution_new call result (te_call_event execution) (te_result_event execution) = Ok execution \<and>
          (r = Ok execution \<and> \<not> sm_cancelled semantic \<and> sm_budget_error semantic = None \<or>
           r = Err (TrCancelled execution) \<and> sm_cancelled semantic)) \<or>
        (\<exists>e. sm_budget_error semantic = Some e \<and> r = Err (TrBudget e)) \<or>
        (\<exists>text. r = Err (TrInternal ''tool_record_evidence_invalid'' text)))
      else (\<exists>source. r = Err (TrRecording (result_error call result source))))"

lemma close_operation_history:
  assumes "close_operation d call call_event semantic s = Some (r, s')" and "r \<noteq> Panic"
  shows "\<exists>semantic' result answer ok. (semantic' = semantic \<or> (\<exists>e. semantic' = sem_budget e)) \<and>
    os_history s' = os_history s @ [ToolRecorded (TrResult result) answer ok] \<and>
    operation_closed call semantic' call_event result answer ok r"
proof -
  obtain settled s1 where st: "tool_finish_budget d s = (settled, s1)" by fastforce
  note h1 = finish_budget_history [OF st]
  let ?sem = "case settled of Err e \<Rightarrow> sem_budget e | _ \<Rightarrow> semantic"
  let ?result = "\<lparr>tres_call_id = tl_id call, tres_outcome = sm_outcome ?sem\<rparr>"
  have ns: "settled \<noteq> Panic" using assms st by (auto simp: close_operation_def)
  then obtain a s2 where ap: "tool_append d (TrResult ?result) s1 = Some (a, s2)"
    using assms(1) st by (auto simp: close_operation_def Let_def split: outcome.splits option.splits)
  from tool_append_history [OF ap] obtain answer where
    A: "os_history s2 = os_history s1 @ [ToolRecorded (TrResult ?result) answer (is_ok a)]" "a \<noteq> Panic"
      "\<And>event. a = Ok event \<Longrightarrow> answer = Ok event" by blast
  have s': "s' = s2" "r = (case a of Err source \<Rightarrow> Err (TrRecording (result_error call ?result source))
      | Panic \<Rightarrow> Panic | Ok result_event \<Rightarrow> operation_output ?sem (tool_execution_new call ?result call_event result_event))"
    using assms(1) st ns ap by (auto simp: close_operation_def Let_def split: outcome.splits)
  have sem: "?sem = semantic \<or> (\<exists>e. ?sem = sem_budget e)" using ns by (cases settled) auto
  have "operation_closed call ?sem call_event ?result answer (is_ok a) r"
  proof (cases a)
    case (Ok result_event)
    then have r: "operation_output ?sem (tool_execution_new call ?result call_event result_event) = r" using s' by simp
    have ok: "is_ok a" and ans: "answer = outcome.Ok result_event" using Ok A(3) by simp_all
    from operation_output_cases [OF r] show ?thesis
      unfolding operation_closed_def if_P [OF ok] ans
      by (elim disjE exE conjE) (auto simp: tool_execution_new_Ok)
  qed (use s' A in \<open>auto simp: operation_closed_def\<close>)
  then show ?thesis using A h1 s' sem
    by (intro exI [of _ ?sem] exI [of _ ?result] exI [of _ answer] exI [of _ "is_ok a"]) simp
qed

lemma run_operation_history:
  assumes "run_operation d call polls s = Some (r, s')" and "r \<noteq> Panic"
  shows "(\<exists>asked source. os_history s' = os_history s @ [ToolRecorded (TrCall call) asked False] \<and>
      r = Err (TrRecording (call_error call source))) \<or>
    (\<exists>call_event semantic trace result answer ok.
      os_history s' = os_history s @ ToolRecorded (TrCall call) (Ok call_event) True # trace @
        [ToolRecorded (TrResult result) answer ok] \<and>
      resolved_as d call semantic trace \<and> operation_closed call semantic call_event result answer ok r)"
proof -
  obtain a s1 where ap: "tool_append d (TrCall call) s = Some (a, s1)"
    using assms(1) by (auto simp: run_operation_def split: option.splits)
  from tool_append_history [OF ap] obtain asked where
    A: "os_history s1 = os_history s @ [ToolRecorded (TrCall call) asked (is_ok a)]" "a \<noteq> Panic"
      "\<And>event. a = Ok event \<Longrightarrow> asked = Ok event" by blast
  show ?thesis
  proof (cases a)
    case (Err source)
    then show ?thesis
      using assms ap A(1) by (auto simp: run_operation_def Let_def split: prod.splits dest: finish_budget_history)
  next
    case Panic
    then show ?thesis using A by simp
  next
    case (Ok call_event)
    obtain res s2 where rs: "resolve_semantic d call polls s1 = Some (res, s2)"
      using assms ap Ok by (auto simp: run_operation_def split: option.splits)
    obtain semantic where sem: "res = outcome.Ok semantic"
      using assms ap Ok rs by (cases res) (auto simp: run_operation_def)
    have cl: "close_operation d call call_event semantic s2 = Some (r, s')"
      using assms ap Ok rs sem by (auto simp: run_operation_def)
    from resolve_semantic_history [OF rs [unfolded sem]] obtain trace where
      T: "os_history s2 = os_history s1 @ trace" "resolved_as d call semantic trace" by blast
    from close_operation_history [OF cl assms(2)] obtain semantic' result answer ok where
      C: "semantic' = semantic \<or> (\<exists>e. semantic' = sem_budget e)"
        "os_history s' = os_history s2 @ [ToolRecorded (TrResult result) answer ok]"
        "operation_closed call semantic' call_event result answer ok r"
      by blast
    have "resolved_as d call semantic' trace" using C(1) T(2) resolved_as_budget by blast
    then show ?thesis
      using A(1) A(3) [OF Ok] T C Ok
      by (intro disjI2 exI [of _ call_event] exI [of _ semantic'] exI [of _ trace] exI [of _ result]
        exI [of _ answer] exI [of _ ok]) simp
  qed
qed

end
