(* ===== verification/ToolLaws.thy ===== *)
theory ToolLaws
  imports ToolOperationInv ModelLaws
begin

text \<open>
  The contracts between the tool runtime and a budget, as locales: its operations do not move the
  clock back, and only an accepted reservation charges a tool call. The runtime's side is proved
  inside them: an operation whose clock advances at every poll ends, and a call is charged exactly
  when it is admitted. The ledger's operations on one run interpret both.
\<close>

section \<open>The clock\<close>

text \<open>
  What a driver needs of its surroundings: the clock advances whenever others run, no call of the
  recorder, a guard, an authorizer or a tool moves it back, and the recorder answers.
\<close>

definition future_forward :: "('b, 'r, 'w) tool_env \<Rightarrow> ('a, 'w) tool_future \<Rightarrow> bool" where
  "future_forward env f \<longleftrightarrow>
     (\<forall>w. me_now (tn_budget env) w \<le> me_now (tn_budget env) (snd (fu_start f w))) \<and>
     (\<forall>w. me_now (tn_budget env) w \<le> me_now (tn_budget env) (snd (fu_output f w)))"

definition clock_runs :: "('b, 'v, 'r, 'w) tool_driver \<Rightarrow> bool" where
  "clock_runs d \<longleftrightarrow>
     (\<forall>w. me_now (tn_budget (ov_env d)) w < me_now (tn_budget (ov_env d)) (ov_others d w)) \<and>
     (\<forall>r w a w'. ov_append d r w = Some (a, w') \<longrightarrow> me_now (tn_budget (ov_env d)) w \<le> me_now (tn_budget (ov_env d)) w') \<and>
     (\<forall>g call. future_forward (ov_env d) (ov_guard d g call)) \<and>
     (\<forall>a call. future_forward (ov_env d) (ov_authorize d a call)) \<and>
     (\<forall>t request. future_forward (ov_env d) (ov_execute d t request))"

definition recorder_answers :: "('b, 'v, 'r, 'w) tool_driver \<Rightarrow> bool" where
  "recorder_answers d \<longleftrightarrow> (\<forall>record w. ov_append d record w \<noteq> None)"

text \<open>Polls enough to reach the deadline.\<close>

definition enough :: "('b, 'v, 'r, 'w) tool_driver \<Rightarrow> bool list \<Rightarrow> ('v, 'r, 'w) tool_driver_state \<Rightarrow> bool" where
  "enough d polls s \<longleftrightarrow> ov_deadline d - tool_now d s < length polls"

locale tool_clock_laws =
  fixes env :: "('b, 'r, 'w) tool_env"
  assumes check_clock: "me_check_active (tn_budget env) scope w = (u, w') \<Longrightarrow>
      me_now (tn_budget env) w \<le> me_now (tn_budget env) w'"
    and start_clock: "me_mark_started (tn_budget env) reservation w = (u, w') \<Longrightarrow>
      me_now (tn_budget env) w \<le> me_now (tn_budget env) w'"
    and stop_clock: "me_now (tn_budget env) w \<le> me_now (tn_budget env) (me_stop_with (tn_budget env) scope reason w)"
    and evidence_clock: "me_now (tn_budget env) w \<le>
      me_now (tn_budget env) (me_record_evidence (tn_budget env) scope kind confirmed w)"
    and turn_clock: "tn_turn_id env scope w = (t, w') \<Longrightarrow> me_now (tn_budget env) w \<le> me_now (tn_budget env) w'"
begin

lemma enough_later: "enough d polls s \<Longrightarrow> tool_now d s \<le> tool_now d s' \<Longrightarrow> enough d polls s'"
  by (simp add: enough_def)

lemma interruption_forward:
  assumes "ov_env d = env" and "tool_interruption d s = (None, s')"
  shows "tool_now d s \<le> tool_now d s' \<and> tool_now d s' < ov_deadline d"
  using assms check_clock [of "tool_scope d" "os_world s"]
  by (auto simp: tool_interruption_def tool_now_def Let_def split: prod.splits outcome.splits if_splits)

lemma check_point_forward:
  "ov_env d = env \<Longrightarrow> check_point d s = (None, s') \<Longrightarrow> tool_now d s \<le> tool_now d s'"
  using interruption_forward [of d s s'] by (auto simp: check_point_def Let_def split: prod.splits)

lemma await_control_ends:
  assumes env: "ov_env d = env" and clock: "clock_runs d" and out: "\<And>w. me_now (tn_budget env) w \<le> me_now (tn_budget env) (snd (out w))"
  shows "enough d polls s \<Longrightarrow> \<exists>r rest s'. await_control d out polls s = Some (r, rest, s') \<and> (isl r \<longrightarrow> enough d rest s')"
proof (induction polls arbitrary: s)
  case Nil
  then show ?case by (simp add: enough_def)
next
  case (Cons ready polls)
  have tick: "tool_now d s < tool_now d (tool_pause d s)"
    using clock env by (auto simp: clock_runs_def tool_now_def tool_pause_def)
  obtain i s1 where i: "tool_interruption d (tool_pause d s) = (i, s1)" by fastforce
  show ?case
  proof (cases i)
    case (Some stop)
    then show ?thesis using i by simp
  next
    case None
    with i have "tool_interruption d (tool_pause d s) = (None, s1)" by simp
    from interruption_forward [OF env this] tick have now: "tool_now d s < tool_now d s1" "tool_now d s1 < ov_deadline d"
      by simp_all
    then have more: "enough d polls s1" using Cons.prems by (simp add: enough_def)
    show ?thesis
    proof (cases ready)
      case False
      then show ?thesis using i None Cons.IH [OF more] by simp
    next
      case True
      obtain a w where a: "out (os_world s1) = (a, w)" by fastforce
      have "tool_now d s1 \<le> tool_now d (s1\<lparr>os_world := w\<rparr>)" using out [of "os_world s1"] a env by (simp add: tool_now_def)
      then show ?thesis using i None True a enough_later [OF more] by simp
    qed
  qed
qed

lemma run_future_ends:
  assumes env: "ov_env d = env" and "clock_runs d" and "future_forward env f" and "enough d polls s"
  shows "\<exists>r rest s'. run_future d f polls s = Some (r, rest, s') \<and> (isl r \<longrightarrow> enough d rest s')"
proof -
  obtain started w where f: "fu_start f (os_world s) = (started, w)" by fastforce
  have "tool_now d s \<le> tool_now d (s\<lparr>os_world := w\<rparr>)"
    using assms(3) f env by (auto simp: future_forward_def tool_now_def dest: spec [of _ "os_world s"])
  then have e: "enough d polls (s\<lparr>os_world := w\<rparr>)" by (rule enough_later [OF assms(4)])
  show ?thesis
  proof (cases started)
    case True
    have "\<And>w. me_now (tn_budget env) w \<le> me_now (tn_budget env) (snd (fu_output f w))"
      using assms(3) by (simp add: future_forward_def)
    from await_control_ends [OF env assms(2) this e] show ?thesis using f True by (simp add: run_future_def)
  qed (use f e in \<open>simp add: run_future_def\<close>)
qed

lemma run_guards_ends:
  assumes env: "ov_env d = env" and clock: "clock_runs d"
  shows "enough d polls s \<Longrightarrow>
    \<exists>r rest s'. run_guards d call guards polls s = Some (r, rest, s') \<and> (r = None \<longrightarrow> enough d rest s')"
proof (induction guards arbitrary: polls s)
  case (Cons g guards)
  have "future_forward env (ov_guard d g call)" using clock env by (auto simp: clock_runs_def)
  from run_future_ends [OF env clock this Cons.prems] obtain a p s1 where
    f: "run_future d (ov_guard d g call) polls s = Some (a, p, s1)" and e: "isl a \<longrightarrow> enough d p s1" by blast
  show ?case
  proof (cases a)
    case (Inl x)
    have "enough d p (tool_note (GuardAnswered g x) s1)" using e Inl by (simp add: enough_def tool_now_def tool_note_def)
    from Cons.IH [OF this] show ?thesis
      unfolding run_guards_Cons [OF f] using Inl by (cases "guard_answer x") auto
  qed (unfold run_guards_Cons [OF f], simp)
qed simp

lemma run_approval_ends:
  assumes env: "ov_env d = env" and clock: "clock_runs d" and "enough d polls s"
  shows "\<exists>r rest s'. run_approval d call entry polls s = Some (r, rest, s') \<and> (r = None \<longrightarrow> enough d rest s')"
proof (cases "approval_key (tm_approval (en_metadata entry))")
  case None
  then show ?thesis using assms by (simp add: run_approval_def)
next
  case key: (Some key)
  show ?thesis
  proof (cases "map_of (trs_authorizers (ov_runtime d)) key")
    case None
    then show ?thesis using key by (simp add: run_approval_def)
  next
    case (Some authorizer)
    have "future_forward env (ov_authorize d authorizer call)" using clock env by (auto simp: clock_runs_def)
    from run_future_ends [OF env clock this assms(3)] obtain a p s1 where
      f: "run_future d (ov_authorize d authorizer call) polls s = Some (a, p, s1)" and e: "isl a \<longrightarrow> enough d p s1" by blast
    show ?thesis
    proof (cases a)
      case (Inl x)
      then show ?thesis using key Some f e
        by (cases "authorizer_answer x") (auto simp: run_approval_def enough_def tool_now_def tool_note_def)
    qed (use key Some f in \<open>simp add: run_approval_def\<close>)
  qed
qed

lemma before_body_ends:
  assumes env: "ov_env d = env" and clock: "clock_runs d" and "enough d polls s"
  shows "\<exists>r rest s'. before_body d call entry polls s = Some (r, rest, s') \<and> (r = None \<longrightarrow> enough d rest s')"
proof -
  obtain c1 s1 where c1: "check_point d s = (c1, s1)" by fastforce
  show ?thesis
  proof (cases c1)
    case (Some resolution)
    then show ?thesis using c1 by (simp add: before_body_def)
  next
    case None
    then have "enough d polls s1" using enough_later [OF assms(3) check_point_forward [OF env]] c1 by simp
    from run_guards_ends [OF env clock this] obtain g p2 s2 where
      g: "run_guards d call (trs_guards (ov_runtime d)) polls s1 = Some (g, p2, s2)" "g = None \<longrightarrow> enough d p2 s2" by blast
    show ?thesis
    proof (cases g)
      case (Some resolution)
      then show ?thesis using c1 None g by (simp add: before_body_def)
    next
      case gn: None
      with g have "enough d p2 s2" by simp
      from run_approval_ends [OF env clock this] obtain a p3 s3 where
        a: "run_approval d call entry p2 s2 = Some (a, p3, s3)" "a = None \<longrightarrow> enough d p3 s3" by blast
      obtain c2 s4 where c2: "check_point d s3 = (c2, s4)" by fastforce
      have "c2 = None \<Longrightarrow> a = None \<Longrightarrow> enough d p3 s4"
        using enough_later [OF _ check_point_forward [OF env, of s3 s4]] a c2 by simp
      then show ?thesis using c1 None g gn a c2 by (cases a) (simp_all add: before_body_def)
    qed
  qed
qed

lemma resolve_semantic_ends:
  assumes env: "ov_env d = env" and clock: "clock_runs d" and "enough d polls s"
  shows "\<exists>r s'. resolve_semantic d call polls s = Some (r, s')"
proof -
  obtain c1 s1 where c1: "check_point d s = (c1, s1)" by fastforce
  show ?thesis
  proof (cases c1)
    case (Some resolution)
    then show ?thesis using c1 by (simp add: resolve_semantic_def)
  next
    case None
    then have e1: "enough d polls s1" using enough_later [OF assms(3) check_point_forward [OF env]] c1 by simp
    show ?thesis
    proof (cases "find_tool d call")
      case (Ok entry)
      from before_body_ends [OF env clock e1] obtain b p2 s2 where
        b: "before_body d call entry polls s1 = Some (b, p2, s2)" "b = None \<longrightarrow> enough d p2 s2" by blast
      show ?thesis
      proof (cases b)
        case (Some resolution)
        then show ?thesis using c1 None Ok b by (simp add: resolve_semantic_def)
      next
        case bn: None
        obtain st s3 where st: "tool_start_budget d s2 = (st, s3)" by fastforce
        show ?thesis
        proof (cases st)
          case ok: (Ok u)
          have "tool_now d s2 \<le> tool_now d s3"
            using st ok env start_clock
            by (auto simp: tool_start_budget_def tool_job_start_def tool_now_def tool_note_def Let_def
              split: option.splits prod.splits outcome.splits)
          then have "enough d p2 (tool_note (BodyEntered (en_tool entry) (body_request call)) s3)"
            using b bn by (auto simp: enough_def tool_now_def tool_note_def)
          moreover have "future_forward env (ov_execute d (en_tool entry) (body_request call))"
            using clock env by (auto simp: clock_runs_def)
          ultimately obtain a p s4 where
            "run_future d (ov_execute d (en_tool entry) (body_request call)) p2
              (tool_note (BodyEntered (en_tool entry) (body_request call)) s3) = Some (a, p, s4)"
            using run_future_ends [OF env clock] by blast
          then have "run_body d call entry p2 s3 \<noteq> None"
            by (simp add: run_body_def Let_def split: sum.splits prod.splits)
          then show ?thesis using c1 None Ok b bn st ok by (auto simp: resolve_semantic_def)
        qed (use c1 None Ok b bn st in \<open>simp_all add: resolve_semantic_def\<close>)
      qed
    qed (use c1 None in \<open>simp_all add: resolve_semantic_def\<close>)
  qed
qed

lemma tool_append_forward:
  assumes env: "ov_env d = env" and clock: "clock_runs d" and a: "tool_append d record s = Some (r, s')"
  shows "tool_now d s \<le> tool_now d s'"
proof -
  let ?now = "me_now (tn_budget env)"
  let ?w0 = "ov_others d (os_world s)"
  obtain x w1 where x: "ov_append d record ?w0 = Some (x, w1)"
    using a by (auto simp: tool_append_def split: option.splits)
  have n1: "?now (os_world s) \<le> ?now w1"
  proof -
    have "?now (os_world s) \<le> ?now ?w0" using clock env by (auto simp: clock_runs_def less_imp_le)
    also have "\<dots> \<le> ?now w1" using clock env x unfolding clock_runs_def by blast
    finally show ?thesis .
  qed
  have foreign: "?now w1 \<le> ?now w2" if "foreign_event d event w1 = (b, w2)" for event b w2
    using that env turn_clock [of "tool_scope d" w1]
    by (auto simp: foreign_event_def Let_def split: if_splits prod.splits)
  obtain r2 w2 where r2: "(case x of
              Err e \<Rightarrow> (Err (TreSession e), w1)
            | Panic \<Rightarrow> (Err TreRecorderPanicked, w1)
            | Ok event \<Rightarrow>
                let (foreign, w) = foreign_event d event w1 in
                if foreign then (Err (TreIdentityMismatch event), me_stop_with (tn_budget (ov_env d)) (tool_scope d) StopIdentityMismatch w)
                else (Ok event, w)) = (r2, w2)" by fastforce
  have n2: "?now w1 \<le> ?now w2"
  proof (cases x)
    case (Ok event)
    obtain b w3 where f: "foreign_event d event w1 = (b, w3)" by fastforce
    have "?now w3 \<le> ?now w2" using r2 Ok f env stop_clock [of w3 "tool_scope d" StopIdentityMismatch] by (auto split: if_splits)
    then show ?thesis using foreign [OF f] by simp
  qed (use r2 in auto)
  have "s' = tool_note (ToolRecorded record x (is_ok r2)) (s\<lparr>os_world :=
      me_record_evidence (tn_budget (ov_env d)) (tool_scope d) (tool_record_kind record) (is_ok r2) w2\<rparr>)"
    using a x r2 by (auto simp: tool_append_def Let_def)
  then show ?thesis
    using n1 n2 env evidence_clock [of w2 "tool_scope d" "tool_record_kind record" "is_ok r2"]
    by (simp add: tool_now_def tool_note_def)
qed

lemma tool_append_answers:
  assumes "recorder_answers d"
  shows "tool_append d record s \<noteq> None"
proof -
  obtain answer w where "ov_append d record (ov_others d (os_world s)) = Some (answer, w)"
    using assms unfolding recorder_answers_def by (metis not_None_eq surj_pair)
  then show ?thesis by (simp add: tool_append_def Let_def split: prod.split)
qed

text \<open>An operation whose schedule reaches its deadline ends.\<close>

lemma run_operation_ends:
  assumes env: "ov_env d = env" and clock: "clock_runs d" and rec: "recorder_answers d" and e: "enough d polls s"
  shows "\<exists>r s'. run_operation d call polls s = Some (r, s')"
proof -
  obtain a s1 where a: "tool_append d (TrCall call) s = Some (a, s1)" using tool_append_answers [OF rec] by fastforce
  show ?thesis
  proof (cases a)
    case (Ok call_event)
    have "enough d polls s1" by (rule enough_later [OF e tool_append_forward [OF env clock a]])
    from resolve_semantic_ends [OF env clock this, of call] obtain r s2 where
      r: "resolve_semantic d call polls s1 = Some (r, s2)" by blast
    have "close_operation d call call_event semantic s2 \<noteq> None" for semantic
      by (simp add: close_operation_def Let_def tool_append_answers [OF rec] split: prod.split outcome.split option.split)
    then show ?thesis using a Ok r by (cases r) (auto simp: run_operation_def)
  qed (use a in \<open>simp_all add: run_operation_def split: prod.splits\<close>)
qed

end

section \<open>Charges\<close>

text \<open>Where a call is refused, and where its admission begins.\<close>

lemma tool_call_admit_cases:
  assumes "tool_call_admit env ops rs turn cancelled key_uuid call_uuid name arguments options latches c t w = (r, latches', c', t', w')"
  shows "(\<not> is_ok r \<and> c' = c \<and> t' = t \<and> w' = w) \<or>
    (\<not> is_ok r \<and> c' = c \<and> t' = t \<and> w' = me_stop_with (tn_budget env) (tt_budget turn) StopIdentityMismatch w) \<or>
    (\<exists>d. \<not> is_ok r \<and> c' = c \<and> t' = t \<and> me_remaining_time (tn_budget env) (tt_budget turn) w = (d, w')) \<or>
    (\<exists>remaining w1 a. me_remaining_time (tn_budget env) (tt_budget turn) w = (Ok remaining, w1) \<and>
       tool_admit env rs (tt_budget turn) (tool_output_limit (trs_max_output_bytes rs) (map_of (trs_tools rs) name)
         (tco_max_output_bytes options)) c t w1 = (a, c', t', w') \<and> is_ok a = is_ok r)"
proof (cases "tool_arguments_checked ops name arguments")
  case args: (Ok u)
  let ?id = "tn_identity env (tt_budget turn)"
  show ?thesis
  proof (cases "cancelled w \<or> (tt_explicit_budget turn \<and> (case tco_action options of None \<Rightarrow> False
               | Some action \<Rightarrow> dx_task_id (ax_decision action) \<noteq> id_task_id ?id))")
    case True
    then show ?thesis using assms args by (auto simp: tool_call_admit_def Let_def split: if_splits)
  next
    case False
    then have open_call: "\<not> cancelled w" "\<not> (tt_explicit_budget turn \<and> (case tco_action options of None \<Rightarrow> False
               | Some action \<Rightarrow> dx_task_id (ax_decision action) \<noteq> id_task_id ?id))" by blast+
    show ?thesis
    proof (cases "validate_tool_contract (tool_contract rs name)")
      case contract: (Ok v)
      obtain o1 l1 where o1: "tool_call_operation ?id (tool_contract rs name) key_uuid name arguments (tco_retry options) latches
          = (o1, l1)" by fastforce
      obtain d w1 where d: "me_remaining_time (tn_budget env) (tt_budget turn) w = (d, w1)" by fastforce
      note eq = assms [unfolded tool_call_admit_def Let_def args contract o1 outcome.case prod.case if_not_P [OF open_call(1)]
        if_not_P [OF open_call(2)]]
      show ?thesis
      proof (cases "\<exists>op remaining. o1 = Ok op \<and> d = Ok remaining")
        case False
        then show ?thesis using eq d by (cases o1; cases d) auto
      next
        case True
        then obtain op remaining where od: "o1 = Ok op" "d = Ok remaining" by blast
        obtain a c1 t1 w2 where a: "tool_admit env rs (tt_budget turn)
            (tool_output_limit (trs_max_output_bytes rs) (map_of (trs_tools rs) name) (tco_max_output_bytes options)) c t w1
            = (a, c1, t1, w2)" by (metis prod_cases4)
        show ?thesis
        proof (cases "instant_add (tn_budget env) (me_now (tn_budget env) w1) (tool_timeout (trs_default_timeout rs)
            (map_of (trs_tools rs) name) (tco_timeout options))")
          case None
          then show ?thesis using eq d od by auto
        next
          case (Some deadline)
          then have "c' = c1 \<and> t' = t1 \<and> w' = w2 \<and> is_ok a = is_ok r"
            using eq d od a by (cases a) auto
          then show ?thesis using d od a by blast
        qed
      qed
    qed (use assms args open_call in \<open>auto simp: tool_call_admit_def Let_def\<close>)
  qed
qed (use assms in \<open>auto simp: tool_call_admit_def Let_def\<close>)

locale tool_charge_laws =
  fixes env :: "('b, 'r, 'w) tool_env" and charged_calls :: "'w \<Rightarrow> u64"
  assumes remaining_keeps: "me_remaining_time (tn_budget env) scope w = (d, w') \<Longrightarrow> charged_calls w' = charged_calls w"
    and stop_keeps: "charged_calls (me_stop_with (tn_budget env) scope reason w) = charged_calls w"
    and reserve_counts: "me_reserve (tn_budget env) scope request w = (r, w') \<Longrightarrow>
      charged_calls w' = charged_calls w + (if is_ok r then tool_calls (req_amounts request) else 0)"
begin

lemma tool_admit_counts:
  assumes "tool_admit env rs b output_limit c t w = (r, c', t', w')"
  shows "charged_calls w' = charged_calls w + (if is_ok r then 1 else 0) \<and> (\<not> is_ok r \<longrightarrow> c' = c \<and> t' = t)"
  using assms reserve_counts [of b "tool_request output_limit" w]
  by (auto simp: tool_admit_def Let_def tool_request_def new_request_def split: if_splits option.splits outcome.splits prod.splits)

text \<open>A call is charged exactly when it is admitted, and a refused one leaves no job.\<close>

lemma tool_call_counts:
  assumes "tool_call_admit env ops rs turn cancelled key_uuid call_uuid name arguments options latches c t w = (r, latches', c', t', w')"
  shows "charged_calls w' = charged_calls w + (if is_ok r then 1 else 0) \<and> (\<not> is_ok r \<longrightarrow> c' = c \<and> t' = t)"
  using tool_call_admit_cases [OF assms]
proof (elim disjE exE conjE)
  fix d
  assume "\<not> is_ok r" "c' = c" "t' = t" "me_remaining_time (tn_budget env) (tt_budget turn) w = (d, w')"
  then show ?thesis using remaining_keeps by simp
next
  fix remaining w1 a
  assume rem: "me_remaining_time (tn_budget env) (tt_budget turn) w = (Ok remaining, w1)"
    and ad: "tool_admit env rs (tt_budget turn) (tool_output_limit (trs_max_output_bytes rs) (map_of (trs_tools rs) name)
      (tco_max_output_bytes options)) c t w1 = (a, c', t', w')" and ok: "is_ok a = is_ok r"
  show ?thesis using remaining_keeps [OF rem] tool_admit_counts [OF ad] ok by simp
qed (simp_all add: stop_keeps)

end

section \<open>The ledger\<close>

definition ledger_tool_env ::
    "budget_limits \<Rightarrow> token_budget_mode \<Rightarrow> duration \<Rightarrow> budget_identity \<Rightarrow> (u64, u64 \<times> u64, duration \<times> ledger_state) tool_env" where
  "ledger_tool_env limits mode instant_max identity =
     \<lparr>tn_budget = ledger_env limits mode instant_max,
      tn_expire = (\<lambda>i. on_ledger (\<lambda>now. expire limits now i)),
      tn_record_tool_time = (\<lambda>i execution w. snd (on_ledger (\<lambda>_. metrics_op i (record_tool_time execution)) w)),
      tn_identity = (\<lambda>_. identity),
      tn_turn_id = (\<lambda>i. on_ledger (\<lambda>_. turn_id_op i))\<rparr>"

definition charged_tool_calls :: "duration \<times> ledger_state \<Rightarrow> u64" where
  "charged_tool_calls w = tool_calls (st_charged (snd w))"

lemma tool_calls_add_attempts:
  "tool_calls (add_attempts q all_resources a) = tool_calls a + tool_calls q"
  using amount_add_attempts [of q a BudgetVocab.ToolCalls] by simp

lemma reserve_charges_calls:
  assumes "reserve limits mode now i request st = (r, st')"
  shows "tool_calls (st_charged st') =
    tool_calls (st_charged st) + (if is_ok r then tool_calls (req_amounts request) else 0)"
proof -
  let ?t = "tick limits now st"
  have fit: "st_charged u = st_charged ?t" if "reserve_fit limits request all_resources ?t = (x, u)" for x u
    using reserve_fit_charged [of limits request all_resources ?t] that by simp
  have alloc: "st_charged v = st_charged u" if "allocate_id u = (x, v)" for x u v
    using that by (auto simp: allocate_id_def insert_stop_def split: option.splits)
  show ?thesis
    using assms
    by (auto simp: reserve_def on_run_def Let_def fold_reserve_one tool_calls_add_attempts
      split: outcome.splits prod.splits dest!: fit alloc)
qed

lemma on_ledger_clock: "on_ledger f w = (r, w') \<Longrightarrow> fst w' = fst w"
  by (auto simp: on_ledger_def split: prod.splits)

lemma on_ledger_clock_snd [simp]: "fst (snd (on_ledger f w)) = fst w"
  by (simp add: on_ledger_def split: prod.splits)

interpretation ledger_clock: tool_clock_laws "ledger_tool_env limits mode instant_max identity"
  by unfold_locales (auto simp: ledger_tool_env_def ledger_env_def dest: on_ledger_clock split: prod.splits)

interpretation ledger_charge: tool_charge_laws "ledger_tool_env limits mode instant_max identity" charged_tool_calls
proof
  fix scope w d w'
  assume "me_remaining_time (tn_budget (ledger_tool_env limits mode instant_max identity)) scope w = (d, w')"
  then show "charged_tool_calls w' = charged_tool_calls w"
    by (auto simp: ledger_tool_env_def ledger_env_def on_ledger_def charged_tool_calls_def split: prod.splits dest: remaining_time_charged)
next
  fix scope reason w
  show "charged_tool_calls (me_stop_with (tn_budget (ledger_tool_env limits mode instant_max identity)) scope reason w) = charged_tool_calls w"
    by (auto simp: ledger_tool_env_def ledger_env_def on_ledger_def charged_tool_calls_def split: prod.splits dest: stop_with_charged)
next
  fix scope request w r w'
  assume "me_reserve (tn_budget (ledger_tool_env limits mode instant_max identity)) scope request w = (r, w')"
  then show "charged_tool_calls w' = charged_tool_calls w + (if is_ok r then tool_calls (req_amounts request) else 0)"
    by (auto simp: ledger_tool_env_def ledger_env_def on_ledger_def charged_tool_calls_def split: prod.splits outcome.splits
      dest!: reserve_charges_calls)
qed

end
