(* ===== verification/ToolCallProps.thy ===== *)
theory ToolCallProps
  imports ToolTurns ToolLaws ToolProps CallProps
begin

text \<open>
  The properties of the tool runtime: what must precede a tool's body, what the records of an
  operation say about it, that operations end, what calls charge, who owns the jobs and where their
  failures go.
\<close>

section \<open>A runtime with one tool\<close>

definition tool_sample_env :: "(nat, nat, nat) tool_env" where
  "tool_sample_env =
     \<lparr>tn_budget = \<lparr>me_now = (\<lambda>w. w), me_instant_max = 1000, me_check_active = (\<lambda>_ w. (Ok (), w)),
        me_remaining_time = (\<lambda>_ w. (Ok 50, w)), me_expire = (\<lambda>_ w. w), me_stop_with = (\<lambda>_ _ w. w),
        me_record_model_timing = (\<lambda>_ _ _ w. w), me_record_evidence = (\<lambda>_ _ _ w. w),
        me_reserve = (\<lambda>_ _ w. (Ok 0, w)), me_mark_started = (\<lambda>_ w. (Ok (), w)),
        me_settle = (\<lambda>_ _ w. (Ok (), w)), me_cancel_before_start = (\<lambda>_ w. (Ok (), w))\<rparr>,
      tn_expire = (\<lambda>_ w. (Ok (), w)), tn_record_tool_time = (\<lambda>_ _ w. w), tn_identity = (\<lambda>_. sample_identity),
      tn_turn_id = (\<lambda>_ w. (Ok (Some ''t''), w))\<rparr>"

definition tool_sample_entry :: "nat tool_entry" where
  "tool_sample_entry = \<lparr>en_tool = 5, en_metadata = with_approval (ApprovalRequired ''k'') (tool_metadata_new ''reads'' 0),
     en_validator = (\<lambda>v. if v \<le> 9 then Ok () else Err ''too large'')\<rparr>"

definition tool_sample_runtime :: "nat tool_runtime_state" where
  "tool_sample_runtime = \<lparr>trs_tools = [(''read'', tool_sample_entry)], trs_guards = [3], trs_authorizers = [(''k'', 4)],
     trs_grants = [(''agent'', [''read''])], trs_default_timeout = 20, trs_max_output_bytes = 8, trs_max_in_flight = 2\<rparr>"

definition tool_sample_turn :: "(nat, nat) tool_turn" where
  "tool_sample_turn = \<lparr>tt_id = 0, tt_caller = ''agent'', tt_budget = 1, tt_explicit_budget = False, tt_granted = [''read''],
     tt_schemas = []\<rparr>"

definition tool_sample_future :: "'a \<Rightarrow> ('a, nat) tool_future" where
  "tool_sample_future a = \<lparr>fu_start = (\<lambda>w. (True, w)), fu_output = (\<lambda>w. (a, w))\<rparr>"

definition tool_sample_driver :: "(nat, nat, nat, nat) tool_driver" where
  "tool_sample_driver =
     \<lparr>ov_env = tool_sample_env, ov_runtime = tool_sample_runtime, ov_turn = tool_sample_turn, ov_deadline = 20,
      ov_budget_deadline = Some 50, ov_output_limit = 8, ov_others = Suc, ov_parent_cancelled = (\<lambda>_. False),
      ov_token_cancelled = (\<lambda>_. False),
      ov_append = (\<lambda>rec w. Some (Ok (retry_event ''e'' (of_nat w) (tool_session_event_kind rec)), w)),
      ov_guard = (\<lambda>_ _. tool_sample_future (Ok None)),
      ov_authorize = (\<lambda>_ _. tool_sample_future (Ok AuthApproved)),
      ov_execute = (\<lambda>_ _. tool_sample_future (Ok ''out''))\<rparr>"

definition tool_sample_state :: "(nat, nat, nat) tool_driver_state" where
  "tool_sample_state = \<lparr>os_budget = tool_job_budget_new 0, os_world = 1, os_history = []\<rparr>"

definition tool_sample_call :: "nat tool_call" where
  "tool_sample_call = retry_call ''a'' retry_operation"

definition tool_sample_result :: tool_result where
  "tool_sample_result = \<lparr>tres_call_id = ''a'', tres_outcome = ToolSucceeded ''out''\<rparr>"

definition tool_sample_execution :: "nat tool_execution" where
  "tool_sample_execution = \<lparr>te_call = tool_sample_call, te_result = tool_sample_result,
     te_call_event = retry_event ''e'' 2 (ToolCallEvent tool_sample_call),
     te_result_event = retry_event ''e'' 8 (ToolResultEvent tool_sample_result)\<rparr>"

definition tool_sample_history :: "nat tool_event list" where
  "tool_sample_history = [ToolRecorded (TrCall tool_sample_call) (Ok (te_call_event tool_sample_execution)) True,
     GuardAnswered 3 (Ok None), AuthorizerAnswered 4 (Ok AuthApproved), BudgetStarted,
     BodyEntered 5 (body_request tool_sample_call),
     ToolRecorded (TrResult tool_sample_result) (Ok (te_result_event tool_sample_execution)) True]"

lemma tool_sample_run:
  "run_operation tool_sample_driver tool_sample_call [False, True, True, False, True] tool_sample_state =
     Some (Ok tool_sample_execution,
       \<lparr>os_budget = \<lparr>tjb_reservation = None, tjb_started = True, tjb_output_bytes = Actual 3\<rparr>, os_world = 8,
        os_history = tool_sample_history\<rparr>)"
  by code_simp

text \<open>The driver over the ledger of \<open>sample_running\<close>; others let a tick pass.\<close>

definition tool_ledger_driver :: "(u64, nat, u64 \<times> u64, duration \<times> ledger_state) tool_driver" where
  "tool_ledger_driver =
     \<lparr>ov_env = ledger_tool_env sample_limits Soft 1000 sample_identity, ov_runtime = tool_sample_runtime,
      ov_turn = \<lparr>tt_id = 0, tt_caller = ''agent'', tt_budget = 1, tt_explicit_budget = False, tt_granted = [''read''],
        tt_schemas = []\<rparr>,
      ov_deadline = 20, ov_budget_deadline = Some 50, ov_output_limit = 8, ov_others = (\<lambda>(now, st). (now + 1, st)),
      ov_parent_cancelled = (\<lambda>_. False), ov_token_cancelled = (\<lambda>_. False),
      ov_append = (\<lambda>rec w. Some (Ok (retry_event ''e'' (of_nat (fst w)) (tool_session_event_kind rec)), w)),
      ov_guard = (\<lambda>_ _. \<lparr>fu_start = (\<lambda>w. (True, w)), fu_output = (\<lambda>w. (Ok None, w))\<rparr>),
      ov_authorize = (\<lambda>_ _. \<lparr>fu_start = (\<lambda>w. (True, w)), fu_output = (\<lambda>w. (Ok AuthApproved, w))\<rparr>),
      ov_execute = (\<lambda>_ _. \<lparr>fu_start = (\<lambda>w. (True, w)), fu_output = (\<lambda>w. (Ok ''out'', w))\<rparr>)\<rparr>"

section \<open>Operations\<close>

lemma resolved_with_body:
  assumes "resolved_as d call semantic trace" and "BodyEntered tool request \<in> set trace"
  shows "\<exists>entry. body_allowed d call entry \<and> trace = body_trace d call entry \<and> tool = en_tool entry \<and> request = body_request call"
proof -
  have "\<not> no_body trace" using assms(2) by (auto simp: no_body_def intro!: bexI [of _ "BodyEntered tool request"])
  then obtain entry where e: "body_allowed d call entry" "trace = body_trace d call entry"
    using assms(1) by (auto simp: resolved_as_def)
  have "BodyEntered tool request \<notin> set (checks_trace d entry)"
    by (auto simp: checks_trace_def approval_trace_def split: option.splits)
  with e assms(2) show ?thesis by (auto simp: body_trace_def)
qed

lemma resolved_without_body:
  "resolved_as d call semantic trace \<Longrightarrow> outcome_before (sm_outcome semantic) \<Longrightarrow> BodyEntered tool request \<notin> set trace"
  by (auto simp: resolved_as_def no_body_def)

lemma resolved_success:
  "resolved_as d call semantic trace \<Longrightarrow> sm_outcome semantic = ToolSucceeded out \<Longrightarrow>
     length out \<le> ov_output_limit d \<and> (\<exists>tool. BodyEntered tool (body_request call) \<in> set trace)"
  by (auto simp: resolved_as_def body_trace_def)

text \<open>The approval a tool asks for is the answer of the authorizer registered under its key.\<close>

definition approval_given :: "('b, 'v, 'r, 'w) tool_driver \<Rightarrow> 'v tool_entry \<Rightarrow> 'v tool_event list \<Rightarrow> bool" where
  "approval_given d entry approvals \<longleftrightarrow>
     (case tm_approval (en_metadata entry) of
        NoApproval \<Rightarrow> approvals = []
      | ApprovalRequired key \<Rightarrow> (\<exists>authorizer. map_of (trs_authorizers (ov_runtime d)) key = Some authorizer \<and>
          approvals = [AuthorizerAnswered authorizer (Ok AuthApproved)]))"

lemma approval_given_trace: "approval_possible d entry \<Longrightarrow> approval_given d entry (approval_trace d entry)"
  by (auto simp: approval_possible_def approval_given_def approval_trace_def
    split: approval_requirement.splits option.splits)

text \<open>C21: in an operation whose driver ends without a panic, a tool's body runs only when everything allows it: its turn was granted the tool, the arguments
  pass the tool's own validator, the recorder answered the call's record with its event, every guard
  of the runtime was asked, in order, and answered that it has no objection, the authorizer of the
  approval the tool asks for answered that it approves, and the charge of the call had started. Then
  the body is entered once, with exactly the call that was recorded, and one result is recorded.
\<close>

theorem tools_run_only_when_allowed:
  assumes "run_operation d call polls s = Some (r, s')" and "r \<noteq> Panic" and "os_history s = []"
    and "BodyEntered tool request \<in> set (os_history s')"
  shows "\<exists>entry call_event approvals result answer ok. tl_name call \<in> set (tt_granted (ov_turn d)) \<and>
    map_of (trs_tools (ov_runtime d)) (tl_name call) = Some entry \<and> is_ok (en_validator entry (tl_arguments call)) \<and>
    approval_given d entry approvals \<and> tool = en_tool entry \<and> request = body_request call \<and>
    os_history s' = ToolRecorded (TrCall call) (Ok call_event) True #
      map (\<lambda>g. GuardAnswered g (Ok None)) (trs_guards (ov_runtime d)) @ approvals @
      [BudgetStarted, BodyEntered tool request, ToolRecorded (TrResult result) answer ok]"
  using run_operation_history [OF assms(1,2)]
proof (elim disjE exE conjE)
  fix call_event semantic trace result answer ok
  assume h: "os_history s' = os_history s @ ToolRecorded (TrCall call) (Ok call_event) True # trace @
      [ToolRecorded (TrResult result) answer ok]"
    and rs: "resolved_as d call semantic trace"
  have "BodyEntered tool request \<in> set trace" using h assms(3,4) by auto
  from resolved_with_body [OF rs this] obtain entry where e:
    "body_allowed d call entry" "trace = body_trace d call entry" "tool = en_tool entry" "request = body_request call" by blast
  then have "approval_given d entry (approval_trace d entry)" by (simp add: body_allowed_def approval_given_trace)
  then show ?thesis
    using h e assms(3)
    by (intro exI [of _ entry] exI [of _ call_event] exI [of _ "approval_trace d entry"] exI [of _ result]
      exI [of _ answer] exI [of _ ok]) (auto simp: body_allowed_def body_trace_def checks_trace_def)
qed (use assms in auto)

theorem tools_run_only_when_allowed_witness:
  "\<exists>entry. map_of (trs_tools tool_sample_runtime) ''read'' = Some entry \<and> is_ok (en_validator entry 7) \<and> 5 = en_tool entry \<and>
     AuthorizerAnswered 4 (Ok AuthApproved) \<in> set tool_sample_history"
proof -
  have "BodyEntered 5 (body_request tool_sample_call) \<in> set tool_sample_history" by (simp add: tool_sample_history_def)
  with tools_run_only_when_allowed [OF tool_sample_run, of 5 "body_request tool_sample_call"] show ?thesis
    by (auto simp: tool_sample_state_def tool_sample_driver_def tool_sample_call_def retry_call_def tool_sample_history_def)
qed

text \<open>C22: the records of an operation whose driver ends without a panic tell what ran. Either not even the call could be recorded, and
  the error carries the call and its source; or one call record is followed by one result record for
  the same call. A result whose recovery status is "not executed" means the body was never entered, a
  success means it was, with an output within the limit; the caller receives an execution only
  when the recorder answered both records with the events it carries, and otherwise an error; an
  uncommitted result comes back in its error.
\<close>

theorem tool_results_tell_what_ran:
  assumes "run_operation d call polls s = Some (r, s')" and "r \<noteq> Panic" and "os_history s = []"
  shows "(\<exists>asked source. os_history s' = [ToolRecorded (TrCall call) asked False] \<and>
      r = Err (TrRecording (call_error call source))) \<or>
    (\<exists>call_event trace result answer ok.
      os_history s' = ToolRecorded (TrCall call) (Ok call_event) True # trace @ [ToolRecorded (TrResult result) answer ok] \<and>
      tres_call_id result = tl_id call \<and>
      (recovery_status (Some (tres_outcome result)) = RsNotExecuted \<longrightarrow> (\<forall>tool. BodyEntered tool (body_request call) \<notin> set trace)) \<and>
      (\<forall>out. tres_outcome result = ToolSucceeded out \<longrightarrow>
        length out \<le> ov_output_limit d \<and> (\<exists>tool. BodyEntered tool (body_request call) \<in> set trace)) \<and>
      (ok \<longrightarrow> is_ok answer) \<and>
      (\<not> ok \<longrightarrow> (\<exists>source. r = Err (TrRecording (result_error call result source)))) \<and>
      (\<forall>execution. r = Ok execution \<or> r = Err (TrCancelled execution) \<longrightarrow> ok \<and> te_call execution = call \<and> te_result execution = result \<and>
        te_call_event execution = call_event \<and> answer = Ok (te_result_event execution) \<and>
        tool_execution_new call result (te_call_event execution) (te_result_event execution) = Ok execution))"
  using run_operation_history [OF assms(1,2)]
proof (elim disjE exE conjE)
  fix call_event semantic trace result answer ok
  assume h: "os_history s' = os_history s @ ToolRecorded (TrCall call) (Ok call_event) True # trace @
      [ToolRecorded (TrResult result) answer ok]"
    and rs: "resolved_as d call semantic trace" and closed: "operation_closed call semantic call_event result answer ok r"
  have result: "tres_call_id result = tl_id call" "tres_outcome result = sm_outcome semantic"
    using closed by (simp_all add: operation_closed_def)
  have "\<forall>tool. BodyEntered tool (body_request call) \<notin> set trace" if "recovery_status (Some (tres_outcome result)) = RsNotExecuted"
    using that resolved_without_body [OF rs] by (simp add: outcome_before_iff result(2))
  moreover have "length out \<le> ov_output_limit d \<and> (\<exists>tool. BodyEntered tool (body_request call) \<in> set trace)"
    if "tres_outcome result = ToolSucceeded out" for out
    using that resolved_success [OF rs, of out] by (simp add: result(2))
  moreover have "ok \<longrightarrow> is_ok answer" using closed by (simp add: operation_closed_def)
  moreover have "\<exists>source. r = Err (TrRecording (result_error call result source))" if "\<not> ok"
    using closed that by (auto simp: operation_closed_def)
  moreover have "ok \<and> te_call execution = call \<and> te_result execution = result \<and>
      te_call_event execution = call_event \<and> answer = Ok (te_result_event execution) \<and>
      tool_execution_new call result (te_call_event execution) (te_result_event execution) = Ok execution"
    if "r = Ok execution \<or> r = Err (TrCancelled execution)" for execution
    using closed that by (cases ok) (auto simp: operation_closed_def)
  moreover have "os_history s' = ToolRecorded (TrCall call) (Ok call_event) True # trace @ [ToolRecorded (TrResult result) answer ok]"
    using h assms(3) by simp
  ultimately show ?thesis using result(1) by blast
qed (use assms in auto)

theorem tool_results_tell_what_ran_witness:
  "\<exists>call_event trace answer. tool_sample_history = ToolRecorded (TrCall tool_sample_call) (Ok call_event) True # trace @
       [ToolRecorded (TrResult tool_sample_result) answer True] \<and>
     (\<exists>tool. BodyEntered tool (body_request tool_sample_call) \<in> set trace)"
  using tool_results_tell_what_ran [OF tool_sample_run]
  by (auto simp: tool_sample_state_def tool_sample_history_def tool_sample_result_def)

text \<open>C23: only the recorder can hold an operation beyond its deadline. Over a ledger, an operation
  between whose polls the clock advances, whose recorder answers every append, which no deadline of
  the runtime bounds, and whose recorder, guards, authorizer and tool do not turn the clock back,
  comes to a result once it has been polled more often than its deadline is ticks away, whether or
  not the futures of its guards, its authorizer and its tool ever become ready.
\<close>

theorem tool_operations_end:
  assumes "ov_env d = ledger_tool_env limits mode instant_max identity" and "clock_runs d"
    and "recorder_answers d" and "enough d polls s"
  shows "\<exists>r s'. run_operation d call polls s = Some (r, s')"
  by (rule ledger_clock.run_operation_ends [OF assms])

text \<open>The same operation with a recorder that never answers is held by its first record.\<close>

definition tool_held_driver :: "(u64, nat, u64 \<times> u64, duration \<times> ledger_state) tool_driver" where
  "tool_held_driver = tool_ledger_driver\<lparr>ov_append := \<lambda>_ _. None\<rparr>"

theorem tool_operations_end_witness:
  "(\<exists>r s'. run_operation tool_ledger_driver tool_sample_call (replicate 13 False)
     \<lparr>os_budget = tool_job_budget_new (1, 1), os_world = (8, sample_running), os_history = []\<rparr> = Some (r, s')) \<and>
   run_operation tool_held_driver tool_sample_call (replicate 13 False)
     \<lparr>os_budget = tool_job_budget_new (1, 1), os_world = (8, sample_running), os_history = []\<rparr> = None"
proof
  show "\<exists>r s'. run_operation tool_ledger_driver tool_sample_call (replicate 13 False)
     \<lparr>os_budget = tool_job_budget_new (1, 1), os_world = (8, sample_running), os_history = []\<rparr> = Some (r, s')"
    by (rule tool_operations_end [of _ sample_limits Soft 1000 sample_identity])
      (auto simp: tool_ledger_driver_def clock_runs_def recorder_answers_def future_forward_def enough_def tool_now_def
        ledger_tool_env_def ledger_env_def)
qed (simp add: run_operation_def tool_append_def tool_held_driver_def)

definition tool_ledger_turn :: "(u64, nat) tool_turn" where
  "tool_ledger_turn = \<lparr>tt_id = 0, tt_caller = ''agent'', tt_budget = 1, tt_explicit_budget = False, tt_granted = [''read''],
     tt_schemas = []\<rparr>"

text \<open>The runtime started, a turn bound, and a call admitted.\<close>

definition tool_sample_ops :: "nat tool_ops" where
  "tool_sample_ops = \<lparr>to_metadata = (\<lambda>_. Err ()), to_meta_validate = (\<lambda>_. Ok ()), to_compile = (\<lambda>_. Ok (\<lambda>_. Ok ())),
     to_value_chunks = (\<lambda>_. Ok [1])\<rparr>"

definition tool_sample_options :: "nat tool_call_options" where
  "tool_sample_options = \<lparr>tco_retry = None, tco_action = None, tco_timeout = None, tco_max_output_bytes = None\<rparr>"

definition tool_sample_bound :: "nat tool_control" where
  "tool_sample_bound = tool_control_new\<lparr>tlc_lifecycle := ToolRunning, tlc_next_turn_id := 1\<rparr>"

definition tool_sample_busy :: "nat tool_control" where
  "tool_sample_busy = tool_sample_bound\<lparr>tlc_next_job_id := 1, tlc_jobs := [(0, False)]\<rparr>"

definition tool_sample_jobs :: "nat tool_turn_control" where
  "tool_sample_jobs = tool_turn_control_new\<lparr>ttc_jobs := [0]\<rparr>"

lemma tool_sample_checks:
  "tool_arguments_checked tool_sample_ops ''read'' 7 = Ok ()"
  "validate_tool_contract (tool_contract tool_sample_runtime ''read'') = Ok ()"
  by (simp add: tool_arguments_checked_def tool_sample_ops_def serialized_len_def usize_saturating_add_def usize_max_def
      MAX_TOOL_NAME_BYTES_def MAX_TOOL_ARGUMENT_BYTES_def) code_simp

lemma tool_sample_limits:
  "tool_timeout (trs_default_timeout tool_sample_runtime) (map_of (trs_tools tool_sample_runtime) ''read'') (tco_timeout tool_sample_options) = 20"
  "tool_output_limit (trs_max_output_bytes tool_sample_runtime) (map_of (trs_tools tool_sample_runtime) ''read'')
     (tco_max_output_bytes tool_sample_options) = 8"
  "tco_retry tool_sample_options = None" "tco_action tool_sample_options = None"
  by code_simp+

lemma tool_sample_bind:
  "tool_bind_turn tool_sample_env tool_sample_runtime (\<lambda>w. (Ok 1, w)) False ''agent'' None
     (tool_control_new\<lparr>tlc_lifecycle := ToolRunning\<rparr>) 1 =
   (Ok (tool_sample_turn\<lparr>tt_schemas := [\<lparr>tsc_name = ''read'', tsc_description = ''reads'', tsc_parameters = 0\<rparr>]\<rparr>,
      tool_turn_control_new), tool_sample_bound, 1)"
  by code_simp

lemma tool_sample_admits:
  "\<exists>a. tool_call_admit tool_sample_env tool_sample_ops tool_sample_runtime tool_sample_turn (\<lambda>_. False) ''k'' ''u'' ''read'' 7
     tool_sample_options [] tool_sample_bound tool_turn_control_new 1 = (Ok a, [], tool_sample_busy, tool_sample_jobs, 1)"
  by (simp add: tool_call_admit_def tool_sample_checks tool_sample_limits Let_def tool_call_operation_def
      tool_sample_env_def instant_add_def)
    (simp add: tool_admit_def tool_sample_turn_def tool_sample_runtime_def tool_sample_bound_def
      tool_control_new_def tool_turn_control_new_def checked_add_def tool_sample_busy_def tool_sample_jobs_def)

definition tool_sample_turns :: "u64 \<Rightarrow> nat tool_turn_control option" where
  "tool_sample_turns = [0 \<mapsto> tool_sample_jobs]"

lemma tool_sample_reach: "tool_reach tool_sample_env tool_sample_runtime (tool_sample_busy, tool_sample_turns, 1)"
proof -
  have "tool_reach tool_sample_env tool_sample_runtime (tool_control_new\<lparr>tlc_lifecycle := ToolRunning\<rparr>, Map.empty, 1)"
    by (rule tool_reach.step [OF tool_reach.initial tool_step.start [where r = "Ok ()"]]) (simp add: tool_start_def tool_control_new_def)
  from tool_reach.step [OF this tool_step.bind [OF tool_sample_bind]]
  have bound: "tool_reach tool_sample_env tool_sample_runtime (tool_sample_bound, [0 \<mapsto> tool_turn_control_new], 1)"
    by (simp add: tool_sample_turn_def)
  from tool_sample_admits obtain a where
    ad: "tool_call_admit tool_sample_env tool_sample_ops tool_sample_runtime tool_sample_turn (\<lambda>_. False) ''k'' ''u'' ''read'' 7
      tool_sample_options [] tool_sample_bound tool_turn_control_new 1 = (Ok a, [], tool_sample_busy, tool_sample_jobs, 1)" by blast
  have t: "[0 \<mapsto> tool_turn_control_new] (0 :: u64) = Some (tool_turn_control_new :: nat tool_turn_control)" by simp
  from tool_step.admit [of "[0 \<mapsto> tool_turn_control_new]", OF t ad] have
    "tool_step tool_sample_env tool_sample_runtime (tool_sample_bound, [0 \<mapsto> tool_turn_control_new], 1)
      (tool_sample_busy, [0 \<mapsto> tool_turn_control_new, 0 \<mapsto> tool_sample_jobs], 1)" .
  from tool_reach.step [OF bound this] show ?thesis by (simp add: tool_sample_turns_def)
qed

section \<open>Turns\<close>

text \<open>a call is charged exactly once, when it is admitted: over a task's ledger an admitted call adds one
  tool call to the charged amounts, and a call that is refused for any reason adds none and leaves
  the jobs of its runtime and of its turn as they were.
\<close>

theorem tool_calls_are_charged_once:
  assumes "tool_call_admit (ledger_tool_env limits mode instant_max identity) ops rs turn cancelled key_uuid call_uuid name arguments
      options latches c t w = (r, latches', c', t', w')"
  shows "charged_tool_calls w' = charged_tool_calls w + (if is_ok r then 1 else 0) \<and> (\<not> is_ok r \<longrightarrow> c' = c \<and> t' = t)"
  by (rule ledger_charge.tool_call_counts [OF assms])

theorem tool_calls_are_charged_once_witness:
  "charged_tool_calls (snd (snd (snd (snd (tool_call_admit (ledger_tool_env sample_limits Soft 1000 sample_identity) tool_sample_ops
      tool_sample_runtime (tool_ledger_turn :: (u64, nat) tool_turn) (\<lambda>_. False) ''k'' ''u'' ''read'' 7 tool_sample_options []
      tool_sample_bound tool_turn_control_new (8, sample_running)))))) = charged_tool_calls (8, sample_running) + 1"
proof -
  let ?g = "tool_call_admit (ledger_tool_env sample_limits Soft 1000 sample_identity) tool_sample_ops tool_sample_runtime
      (tool_ledger_turn :: (u64, nat) tool_turn) (\<lambda>_. False) ''k'' ''u'' ''read'' 7 tool_sample_options []
      tool_sample_bound tool_turn_control_new (8, sample_running)"
  define request where "request = tool_request 8"
  define s where "s = sample_running\<lparr>st_active_time := 2, st_last_clock := 8,
      st_run := map_option (\<lambda>run. run\<lparr>rs_report := (rs_report run)\<lparr>rr_active_time := 2\<rparr>\<rparr>) (st_run sample_running)\<rparr>"
  have d: "remaining_time sample_limits 8 1 sample_running = (Ok 98, s)"
    unfolding s_def by (simp add: sample_running_eq remaining_time_def dur_sub_def sample_eval)
  have "is_ok (fst (reserve sample_limits Soft 8 1 request s))"
    unfolding s_def request_def tool_request_def
    by (simp add: sample_running_eq estimate_request_def with_token_evidence_def sample_eval)
  then obtain k u where r: "reserve sample_limits Soft 8 1 request s = (Ok k, u)"
    by (cases "reserve sample_limits Soft 8 1 request s") (auto simp: is_ok_iff)
  have ok: "is_ok (fst ?g)"
    using d r
    by (simp add: tool_call_admit_def tool_sample_checks tool_sample_limits Let_def tool_call_operation_def
      tool_ledger_turn_def ledger_tool_env_def ledger_env_def on_ledger_def instant_add_def)
      (simp add: tool_admit_def tool_sample_runtime_def tool_sample_bound_def tool_control_new_def
      tool_turn_control_new_def checked_add_def request_def [symmetric] Let_def)
  obtain r l c t w where g: "?g = (r, l, c, t, w)" by (metis prod_cases5)
  from tool_calls_are_charged_once [OF g] ok show ?thesis unfolding g by simp
qed

text \<open>C24: every job belongs to exactly one turn, whatever the runtime's turns, drivers and stops do in any
  order: at most the configured number of jobs is in flight, each is one job of one turn, a stopping
  runtime has cancelled all of them and a stopped one has none.
\<close>

theorem tool_jobs_belong_to_turns:
  assumes "tool_reach env rs (c, T, w)"
  shows "length (tlc_jobs c) \<le> trs_max_in_flight rs \<and>
    (\<forall>j \<in> fst ` set (tlc_jobs c). \<exists>!i. \<exists>t. T i = Some t \<and> j \<in> set (ttc_jobs t)) \<and>
    (\<forall>i t. T i = Some t \<longrightarrow> set (ttc_jobs t) \<subseteq> fst ` set (tlc_jobs c)) \<and>
    (tlc_lifecycle c = ToolStopping \<longrightarrow> (\<forall>(_, cancelled) \<in> set (tlc_jobs c). cancelled)) \<and>
    (tlc_lifecycle c = ToolStopped \<longrightarrow> tlc_jobs c = [])"
proof -
  note inv = reachable_tool_inv [OF assms, unfolded tool_system_inv_def prod.case]
  then have p: "parts (fst ` set (tlc_jobs c)) (tlc_next_turn_id c) (turn_jobs T)" by blast
  have at: "turn_jobs T i = Some (set (ttc_jobs t))" if "T i = Some t" for i t using that by (simp add: turn_jobs_def)
  have one: "\<exists>!i. \<exists>t. T i = Some t \<and> j \<in> set (ttc_jobs t)" if "j \<in> fst ` set (tlc_jobs c)" for j
  proof -
    from parts_owner [OF p that] obtain i t where "T i = Some t" "j \<in> set (ttc_jobs t)" by (auto simp: turn_jobs_def)
    moreover have "i' = i" if "T i' = Some t'" "j \<in> set (ttc_jobs t')" for i' t'
      using p at [OF that(1)] at [OF \<open>T i = Some t\<close>] that(2) \<open>j \<in> set (ttc_jobs t)\<close> unfolding parts_def by blast
    ultimately show ?thesis by blast
  qed
  have sub: "set (ttc_jobs t) \<subseteq> fst ` set (tlc_jobs c)" if "T i = Some t" for i t by (rule parts_subset [OF p at [OF that]])
  from inv have "jobs_bounded rs c" by blast
  then show ?thesis using one sub by (simp add: jobs_bounded_def)
qed

theorem tool_jobs_belong_to_turns_witness: "\<exists>!i. \<exists>t. tool_sample_turns i = Some t \<and> 0 \<in> set (ttc_jobs t)"
  using tool_jobs_belong_to_turns [OF tool_sample_reach] by (simp add: tool_sample_busy_def)







end
