(* ===== verification/ContextProjection.thy ===== *)
theory ContextProjection
  imports SessionLog Jsonl ModelProtocol OrderedSets
begin

text \<open>
  The projection of a physical Session log to a conversation, \<open>crates/context/context/src/lib.rs\<close>.
  Each turn becomes groups of messages, or the log is refused. A \<open>HashMap\<close> or \<open>HashSet\<close> whose order
  the code does not observe is an ordered one. What \<open>serde_json\<close> writes is a parameter: the sizes
  of the chunks of an event, and the text of an outcome.
\<close>

section \<open>Vocabulary\<close>

datatype legacy_reply_policy = LegacyReject | LegacyOmit

record projection_config =
  pc_legacy_replies :: legacy_reply_policy
  pc_max_events :: usize
  pc_max_input_bytes :: usize
  pc_max_messages :: usize

definition default_projection_config :: projection_config where
  "default_projection_config = \<lparr>pc_legacy_replies = LegacyReject, pc_max_events = 100000,
     pc_max_input_bytes = 16 * 1024 * 1024, pc_max_messages = 50000\<rparr>"

datatype projected_turn_state = PtCompleted | PtWaitingForInput | PtCheckpointed | PtFailed | PtCancelled | PtOpen

datatype projection_group_kind = GroupUser | GroupAssistant | GroupToolExchange

record 'v projection_group =
  pg_turn_id :: turn_id
  pg_kind :: projection_group_kind
  pg_source_events :: "event_id list"
  pg_messages :: "'v model_message list"

datatype omission_reason = OmAudit | OmModelAudit | OmStreamDelta | OmUnsuccessfulReply

record omitted_event =
  oe_event_id :: event_id
  oe_seq :: u64
  oe_reason :: omission_reason

record projected_turn =
  ptn_turn_id :: turn_id
  ptn_state :: projected_turn_state
  ptn_terminal_event :: "event_id option"
  ptn_missing_complete_reply :: bool

record 'v conversation_projection =
  cv_algorithm_version :: u16
  cv_session_id :: session_id
  cv_source_tail :: "event_id option"
  cv_source_event_count :: usize
  cv_config :: projection_config
  cv_groups :: "'v projection_group list"
  cv_turns :: "projected_turn list"
  cv_omitted :: "omitted_event list"

definition projection_messages :: "'v conversation_projection \<Rightarrow> 'v model_message list" where
  "projection_messages p = concat (map pg_messages (cv_groups p))"

datatype projection_error =
    PjPhysical physical_log_error
  | PjInvalidConfig
  | PjLimit string
  | PjMalformed event_id string
  | PjUnconfirmed turn_id
  | PjMissingReply turn_id

type_synonym 'a projected = "('a, projection_error) outcome"

definition malformed :: "'v session_event \<Rightarrow> string \<Rightarrow> projection_error" where
  "malformed event reason = PjMalformed (se_event_id event) reason"

section \<open>Sizes\<close>

definition count_bytes_write :: "usize \<Rightarrow> usize \<Rightarrow> usize option" where
  "count_bytes_write remaining bytes = (if bytes \<le> remaining then Some (remaining - bytes) else None)"

fun count_bytes :: "usize list \<Rightarrow> usize \<Rightarrow> usize option" where
  "count_bytes [] remaining = Some remaining"
| "count_bytes (c # cs) remaining =
     (case count_bytes_write remaining c of None \<Rightarrow> None | Some rest \<Rightarrow> count_bytes cs rest)"

text \<open>What \<open>serde_json\<close> writes: the chunks of an event, or its failure, and the text of an outcome.\<close>

record 'v projection_ops =
  po_event_chunks :: "'v session_event \<Rightarrow> usize list option"
  po_outcome_text :: "tool_recorded_outcome \<Rightarrow> string"

definition count_event :: "'v projection_ops \<Rightarrow> 'v session_event \<Rightarrow> usize \<Rightarrow> usize projected" where
  "count_event ops event remaining =
     (case po_event_chunks ops event of
        None \<Rightarrow> Err (PjLimit ''input bytes'')
      | Some chunks \<Rightarrow> ok_or (count_bytes chunks remaining) (PjLimit ''input bytes''))"

section \<open>The scan of a turn\<close>

record 'v turn_scan =
  tu_user :: "'v session_event option"
  tu_complete :: "'v session_event option"
  tu_terminal :: "event_id option"
  tu_state :: projected_turn_state
  tu_calls :: "('v session_event \<times> 'v tool_call \<times> 'v session_event option) list"
  tu_call_index :: "(string, nat) btree_map"
  tu_model_calls :: "(model_call_id, bool) btree_map"
  tu_message_ids :: "message_id btree_set"
  tu_omitted :: "omitted_event list"

fun is_work_after_reply :: "'v session_event_kind \<Rightarrow> bool" where
  "is_work_after_reply (UserMessage _) = True"
| "is_work_after_reply (AssistantDelta _) = True"
| "is_work_after_reply (ModelRequestEvent _) = True"
| "is_work_after_reply (ModelResultEvent _) = True"
| "is_work_after_reply (ToolCallEvent _) = True"
| "is_work_after_reply (ToolResultEvent _) = True"
| "is_work_after_reply _ = False"

fun is_work_before_user :: "'v session_event_kind \<Rightarrow> bool" where
  "is_work_before_user (AssistantMessage _ _) = True"
| "is_work_before_user (AssistantDelta _) = True"
| "is_work_before_user (ToolCallEvent _) = True"
| "is_work_before_user (ModelRequestEvent _) = True"
| "is_work_before_user _ = False"

fun done_state :: "done_status \<Rightarrow> projected_turn_state" where
  "done_state DoneCompleted = PtCompleted"
| "done_state DoneWaitingForInput = PtWaitingForInput"
| "done_state DoneCheckpointed = PtCheckpointed"
| "done_state DoneCancelled = PtCancelled"

definition scan_reply :: "'v session_event \<Rightarrow> 'v turn_scan \<Rightarrow> 'v turn_scan projected" where
  "scan_reply event t =
     (case se_message_id event of
        None \<Rightarrow> Err (malformed event ''complete reply lacks MessageId'')
      | Some i \<Rightarrow>
          if is_blank i \<or> i \<in> set (tu_message_ids t) \<or> tu_complete t \<noteq> None
          then Err (malformed event ''duplicate complete reply or MessageId'')
          else Ok (t\<lparr>tu_message_ids := bs_insert i (tu_message_ids t), tu_complete := Some event\<rparr>))"

definition scan_tool_call :: "'v session_event \<Rightarrow> 'v tool_call \<Rightarrow> 'v turn_scan \<Rightarrow> 'v turn_scan projected" where
  "scan_tool_call event call t =
     (if is_blank (tl_id call) \<or> is_blank (tl_name call) \<or> map_of (tu_call_index t) (tl_id call) \<noteq> None
      then Err (malformed event ''empty or duplicate tool call identity'')
      else Ok (t\<lparr>tu_call_index := bt_insert (tl_id call) (length (tu_calls t)) (tu_call_index t),
                tu_calls := tu_calls t @ [(event, call, None)]\<rparr>))"

text \<open>\<open>calls[index]\<close> panics beyond the list.\<close>

definition scan_tool_result :: "'v session_event \<Rightarrow> tool_result \<Rightarrow> 'v turn_scan \<Rightarrow> 'v turn_scan projected" where
  "scan_tool_result event result t =
     (case map_of (tu_call_index t) (tres_call_id result) of
        None \<Rightarrow> Err (malformed event ''orphan or cross-Turn tool result'')
      | Some index \<Rightarrow>
          if index \<ge> length (tu_calls t) then Panic
          else (case tu_calls t ! index of (e, call, stored) \<Rightarrow>
            if stored \<noteq> None then Err (malformed event ''duplicate tool result'')
            else Ok (t\<lparr>tu_calls := (tu_calls t)[index := (e, call, Some event)]\<rparr>)))"

definition scan_model_request :: "'v session_event \<Rightarrow> model_call_id \<Rightarrow> 'v turn_scan \<Rightarrow> 'v turn_scan projected" where
  "scan_model_request event i t =
     (if is_blank i \<or> map_of (tu_model_calls t) i \<noteq> None
      then Err (malformed event ''empty or duplicate model call'')
      else Ok (t\<lparr>tu_model_calls := bt_insert i False (tu_model_calls t)\<rparr>))"

definition scan_model_result :: "'v session_event \<Rightarrow> model_call_id \<Rightarrow> 'v turn_scan \<Rightarrow> 'v turn_scan projected" where
  "scan_model_result event i t =
     (case map_of (tu_model_calls t) i of
        None \<Rightarrow> Err (malformed event ''orphan or cross-Turn model result'')
      | Some finished \<Rightarrow>
          if finished then Err (malformed event ''duplicate model result'')
          else Ok (t\<lparr>tu_model_calls := bt_insert i True (tu_model_calls t)\<rparr>))"

text \<open>The \<open>match\<close> on an event's kind, and the reason for which it omits the event.\<close>

definition scan_kind :: "'v session_event \<Rightarrow> 'v turn_scan \<Rightarrow> ('v turn_scan \<times> omission_reason option) projected" where
  "scan_kind event t =
     (case se_kind event of
        UserMessage _ \<Rightarrow>
          if tu_user t \<noteq> None then Err (malformed event ''multiple user messages in a Turn'')
          else Ok (t\<lparr>tu_user := Some event\<rparr>, None)
      | AssistantMessage _ _ \<Rightarrow> and_then (scan_reply event t) (\<lambda>t. Ok (t, None))
      | AssistantDelta _ \<Rightarrow> Ok (t, Some OmStreamDelta)
      | ToolCallEvent call \<Rightarrow> and_then (scan_tool_call event call t) (\<lambda>t. Ok (t, None))
      | ToolResultEvent result \<Rightarrow> and_then (scan_tool_result event result t) (\<lambda>t. Ok (t, None))
      | ModelRequestEvent request \<Rightarrow>
          and_then (scan_model_request event (mq_call_id request) t) (\<lambda>t. Ok (t, Some OmModelAudit))
      | ModelResultEvent result \<Rightarrow>
          and_then (scan_model_result event (ms_call_id result) t) (\<lambda>t. Ok (t, Some OmModelAudit))
      | Done status _ \<Rightarrow>
          Ok (t\<lparr>tu_state := done_state status, tu_terminal := Some (se_event_id event)\<rparr>, Some OmAudit)
      | ErrorEvent _ _ _ \<Rightarrow> Ok (t\<lparr>tu_state := PtFailed, tu_terminal := Some (se_event_id event)\<rparr>, Some OmAudit)
      | _ \<Rightarrow> Ok (t, Some OmAudit))"

definition omit :: "'v session_event \<Rightarrow> omission_reason \<Rightarrow> omitted_event" where
  "omit event reason = \<lparr>oe_event_id = se_event_id event, oe_seq = se_seq event, oe_reason = reason\<rparr>"

definition scan_turn_event :: "'v session_event \<Rightarrow> 'v turn_scan \<Rightarrow> 'v turn_scan projected" where
  "scan_turn_event event t =
     (if is_blank (se_event_id event) then Err (malformed event ''empty event ID'')
      else if tu_terminal t \<noteq> None then Err (malformed event ''event follows terminal'')
      else if tu_complete t \<noteq> None \<and> is_work_after_reply (se_kind event)
      then Err (malformed event ''conversation work follows complete reply'')
      else
        and_then (scan_kind event t) (\<lambda>(t, omitted).
        if tu_user t = None \<and> is_work_before_user (se_kind event)
        then Err (malformed event ''conversation work precedes user message'')
        else Ok (case omitted of None \<Rightarrow> t | Some reason \<Rightarrow> t\<lparr>tu_omitted := tu_omitted t @ [omit event reason]\<rparr>)))"

section \<open>The groups of a turn\<close>

definition turn_successful :: "projected_turn_state \<Rightarrow> bool" where
  "turn_successful state \<longleftrightarrow> state = PtCompleted \<or> state = PtWaitingForInput \<or> state = PtCheckpointed"

text \<open>The conditions under which a scanned turn has unconfirmed work.\<close>

definition is_user_kind :: "'v session_event_kind \<Rightarrow> bool" where
  "is_user_kind kind \<longleftrightarrow> (case kind of UserMessage _ \<Rightarrow> True | _ \<Rightarrow> False)"

definition turn_unconfirmed :: "'v session_event list \<Rightarrow> 'v turn_scan \<Rightarrow> bool" where
  "turn_unconfirmed events t \<longleftrightarrow>
     list_ex (\<lambda>(_, _, result). result = None) (tu_calls t) \<or>
     list_ex (\<lambda>(_, finished). \<not> finished) (tu_model_calls t) \<or>
     tu_state t = PtOpen \<and> list_ex (\<lambda>e. \<not> is_user_kind (se_kind e)) events"

definition push_group ::
    "projection_config \<Rightarrow> 'v projection_group \<Rightarrow> 'v projection_group list \<times> usize
       \<Rightarrow> ('v projection_group list \<times> usize) projected" where
  "push_group config g = (\<lambda>(groups, count).
     and_then (ok_or (usize_checked_add count (length (pg_messages g))) (PjLimit ''messages'')) (\<lambda>count.
     if count > pc_max_messages config then Err (PjLimit ''messages'')
     else Ok (groups @ [g], count)))"

definition user_group :: "turn_id \<Rightarrow> 'v session_event \<Rightarrow> 'v projection_group projected" where
  "user_group turn event =
     (case se_kind event of
        UserMessage content \<Rightarrow> Ok \<lparr>pg_turn_id = turn, pg_kind = GroupUser, pg_source_events = [se_event_id event],
          pg_messages = [User content]\<rparr>
      | _ \<Rightarrow> Panic)"

definition tool_exchange ::
    "'v projection_ops \<Rightarrow> turn_id \<Rightarrow> 'v session_event \<times> 'v tool_call \<times> 'v session_event option
       \<Rightarrow> 'v projection_group projected" where
  "tool_exchange ops turn = (\<lambda>(event, call, result).
     (case result of
        None \<Rightarrow> Panic
      | Some result \<Rightarrow>
          (case se_kind result of
             ToolResultEvent answer \<Rightarrow>
               (case provider_tool_call_id_new (''jw_tool_'' @ decimal (unat (se_seq event))) of
                  Ok i \<Rightarrow>
                    Ok \<lparr>pg_turn_id = turn, pg_kind = GroupToolExchange,
                      pg_source_events = [se_event_id event, se_event_id result],
                      pg_messages = [Assistant None [\<lparr>tc_id = i, tc_name = tl_name call, tc_arguments = tl_arguments call\<rparr>],
                        Tool i (po_outcome_text ops (tres_outcome answer))]\<rparr>
                | _ \<Rightarrow> Panic)
           | _ \<Rightarrow> Panic)))"

definition reply_group :: "turn_id \<Rightarrow> 'v session_event \<Rightarrow> 'v projection_group projected" where
  "reply_group turn event =
     (case se_kind event of
        AssistantMessage _ content \<Rightarrow> Ok \<lparr>pg_turn_id = turn, pg_kind = GroupAssistant,
          pg_source_events = [se_event_id event], pg_messages = [Assistant (Some content) []]\<rparr>
      | _ \<Rightarrow> Panic)"

definition push_with ::
    "projection_config \<Rightarrow> ('x \<Rightarrow> 'v projection_group projected) \<Rightarrow> 'x \<Rightarrow> 'v projection_group list \<times> usize
       \<Rightarrow> ('v projection_group list \<times> usize) projected" where
  "push_with config build x s = and_then (build x) (\<lambda>g. push_group config g s)"

definition option_list :: "'a option \<Rightarrow> 'a list" where
  "option_list x = (case x of None \<Rightarrow> [] | Some a \<Rightarrow> [a])"

record 'v projecting =
  pj_groups :: "'v projection_group list"
  pj_turns :: "projected_turn list"
  pj_omitted :: "omitted_event list"
  pj_message_ids :: "message_id btree_set"
  pj_count :: usize

definition turn_scan_new :: "message_id btree_set \<Rightarrow> 'v turn_scan" where
  "turn_scan_new ids = \<lparr>tu_user = None, tu_complete = None, tu_terminal = None, tu_state = PtOpen, tu_calls = [],
     tu_call_index = [], tu_model_calls = [], tu_message_ids = ids, tu_omitted = []\<rparr>"

text \<open>
  The rest of \<open>project_turn\<close>: the user's message, the exchanges in the order of their calls, and
  the reply of a successful turn.
\<close>

definition finish_turn ::
    "'v projection_ops \<Rightarrow> projection_config \<Rightarrow> turn_id \<Rightarrow> 'v session_event list \<Rightarrow> 'v turn_scan \<Rightarrow> 'v projecting
       \<Rightarrow> 'v projecting projected" where
  "finish_turn ops config turn events t p =
     (if turn_unconfirmed events t then Err (PjUnconfirmed turn)
      else
        let successful = turn_successful (tu_state t); missing = successful \<and> tu_complete t = None in
        if missing \<and> pc_legacy_replies config = LegacyReject then Err (PjMissingReply turn)
        else
          and_then (for_each (push_with config (user_group turn)) (option_list (tu_user t)) (pj_groups p, pj_count p)) (\<lambda>s.
          and_then (for_each (push_with config (tool_exchange ops turn)) (tu_calls t) s) (\<lambda>s.
          and_then (for_each (push_with config (reply_group turn)) (if successful then option_list (tu_complete t) else []) s)
            (\<lambda>(groups, count).
          Ok (p\<lparr>pj_groups := groups, pj_count := count, pj_message_ids := tu_message_ids t,
            pj_omitted := pj_omitted p @ tu_omitted t @
              (if successful then [] else map (\<lambda>e. omit e OmUnsuccessfulReply) (option_list (tu_complete t))),
            pj_turns := pj_turns p @ [\<lparr>ptn_turn_id = turn, ptn_state = tu_state t, ptn_terminal_event = tu_terminal t,
              ptn_missing_complete_reply = missing\<rparr>]\<rparr>)))))"

definition project_turn ::
    "'v projection_ops \<Rightarrow> projection_config \<Rightarrow> 'v session_event list \<Rightarrow> 'v projecting \<Rightarrow> 'v projecting projected" where
  "project_turn ops config events p =
     (case events of
        [] \<Rightarrow> Panic
      | first # _ \<Rightarrow>
          and_then (for_each scan_turn_event events (turn_scan_new (pj_message_ids p))) (\<lambda>t.
          finish_turn ops config (se_turn_id first) events t p))"

section \<open>Projection\<close>

text \<open>The \<open>while\<close> loop: each round takes the longest run of events of one turn.\<close>

function project_turns ::
    "'v projection_ops \<Rightarrow> projection_config \<Rightarrow> turn_id btree_set \<Rightarrow> 'v session_event list \<Rightarrow> 'v projecting
       \<Rightarrow> 'v projecting projected" where
  "project_turns ops config seen [] p = Ok p"
| "project_turns ops config seen (e # es) p =
     (let turn = se_turn_id e; same = (\<lambda>x. se_turn_id x = turn) in
      if is_blank turn \<or> turn \<in> set seen then Err (malformed e ''empty or noncontiguous Turn identity'')
      else
        and_then (project_turn ops config (takeWhile same (e # es)) p) (\<lambda>p.
        if dropWhile same (e # es) \<noteq> [] \<and> pj_turns p = [] then Panic
        else if dropWhile same (e # es) \<noteq> [] \<and> ptn_state (last (pj_turns p)) = PtOpen
        then Err (PjUnconfirmed turn)
        else project_turns ops config (bs_insert turn seen) (dropWhile same (e # es)) p))"
  by pat_completeness auto
termination
  by (relation "measure (\<lambda>(ops, config, seen, events, p). length events)")
    (auto simp: le_imp_less_Suc length_dropWhile_le)

definition project ::
    "'v projection_ops \<Rightarrow> session_id \<Rightarrow> 'v session_event list \<Rightarrow> projection_config \<Rightarrow> 'v conversation_projection projected" where
  "project ops session events config =
     (if is_blank session \<or> pc_max_events config = 0 \<or> pc_max_input_bytes config = 0 \<or> pc_max_messages config = 0
      then Err PjInvalidConfig
      else if length events > pc_max_events config then Err (PjLimit ''events'')
      else
        and_then (for_each (count_event ops) events (pc_max_input_bytes config)) (\<lambda>_.
        and_then (map_err PjPhysical (validate_physical_log session events)) (\<lambda>_.
        and_then (project_turns ops config [] events
            \<lparr>pj_groups = [], pj_turns = [], pj_omitted = [], pj_message_ids = [], pj_count = 0\<rparr>) (\<lambda>p.
        Ok \<lparr>cv_algorithm_version = 1, cv_session_id = session,
          cv_source_tail = (if events = [] then None else Some (se_event_id (last events))),
          cv_source_event_count = length events, cv_config = config, cv_groups = pj_groups p,
          cv_turns = pj_turns p, cv_omitted = sort_key oe_seq (pj_omitted p)\<rparr>))))"

end
