(* ===== verification/ContextBuilder.thy ===== *)
theory ContextBuilder
  imports ContextProjection
begin

text \<open>
  The bounded selection of whole turns, \<open>crates/context/context/src/builder.rs\<close>: the heuristic
  counter, the checks of an input, and the loop that drops the oldest unpinned turn until the request
  fits its window. The host's token counter is a parameter, as are the bytes \<open>serde_json\<close> writes.
\<close>

section \<open>Vocabulary\<close>

record context_target =
  ct_model :: string
  ct_template_revision :: string

record context_token_breakdown =
  tb_system :: u64
  tb_messages :: u64
  tb_constraint :: u64
  tb_template :: u64

definition breakdown_total :: "context_token_breakdown \<Rightarrow> u64 option" where
  "breakdown_total b =
     Option.bind (checked_add (tb_system b) (tb_messages b)) (\<lambda>t.
     Option.bind (checked_add t (tb_constraint b)) (\<lambda>t. checked_add t (tb_template b)))"

record context_token_count =
  cc_target :: context_target
  cc_method :: string
  cc_evidence :: token_bound_evidence
  cc_tokens :: context_token_breakdown

type_synonym context_count_error = string

type_synonym 'v context_token_counter =
  "context_target \<Rightarrow> 'v generation_request \<Rightarrow> (context_token_count, context_count_error) outcome"

record context_budget =
  cb_window_tokens :: u64
  cb_output_reserve :: u64
  cb_output_evidence :: token_bound_evidence
  cb_safety_margin :: u64
  cb_mode :: token_budget_mode

record context_build_limits =
  cl_max_input_bytes :: usize
  cl_max_groups :: usize
  cl_max_messages :: usize
  cl_max_count_calls :: usize

definition default_context_limits :: context_build_limits where
  "default_context_limits = \<lparr>cl_max_input_bytes = 16 * 1024 * 1024, cl_max_groups = 4096, cl_max_messages = 8192,
     cl_max_count_calls = 128\<rparr>"

record 'v context_build_input =
  ci_history :: "'v conversation_projection"
  ci_system :: "string list"
  ci_current :: "'v model_message list"
  ci_constraint :: "'v generation_constraint"
  ci_pinned_turns :: "turn_id list"
  ci_state_version :: "string option"
  ci_target :: context_target
  ci_budget :: context_budget
  ci_limits :: context_build_limits

record context_turn_selection =
  tsel_turn :: turn_id
  tsel_source_events :: "event_id list"
  tsel_retained :: bool
  tsel_protected :: bool

record context_count_attempt =
  ca_removed_turns :: usize
  ca_count :: context_token_count
  ca_total_reserved :: u64

record context_build_report =
  cr_algorithm_version :: u16
  cr_projection_version :: u16
  cr_session_id :: session_id
  cr_source_tail :: "event_id option"
  cr_source_event_count :: usize
  cr_state_version :: "string option"
  cr_target :: context_target
  cr_budget :: context_budget
  cr_limits :: context_build_limits
  cr_system_messages :: usize
  cr_current_messages :: usize
  cr_turns :: "context_turn_selection list"
  cr_attempts :: "context_count_attempt list"

record 'v built_context =
  bc_request :: "'v generation_request"
  bc_report :: context_build_report

datatype context_build_error =
    CbInvalid string
  | CbLimit string
  | CbShape model_protocol_error
  | CbCounter context_count_error
  | CbUnverifiedCount
  | CbOverflow
  | CbDoesNotFit context_build_report
  | CbCountLimit context_build_report

section \<open>The heuristic counter\<close>

text \<open>The chunks \<open>serde_json\<close> writes for a message, a constraint and an input, or its failure.\<close>

record 'v context_ops =
  xo_json :: "'v json_ops"
  xo_message_chunks :: "'v model_message \<Rightarrow> usize list option"
  xo_constraint_chunks :: "'v generation_constraint \<Rightarrow> usize list option"
  xo_input_chunks :: "'v context_build_input \<Rightarrow> usize list option"

definition heuristic :: "usize list option \<Rightarrow> (u64, context_count_error) outcome" where
  "heuristic chunks =
     (case Option.bind chunks (\<lambda>cs. count_bytes cs usize_max) of
        None \<Rightarrow> Err ''serialization limit''
      | Some remaining \<Rightarrow> Ok (of_nat ((usize_max - remaining + 3) div 4)))"

fun is_system :: "'v model_message \<Rightarrow> bool" where
  "is_system (System _) = True"
| "is_system _ = False"

definition count_message ::
    "'v context_ops \<Rightarrow> 'v model_message \<Rightarrow> context_token_breakdown \<Rightarrow> (context_token_breakdown, context_count_error) outcome" where
  "count_message ops message tokens =
     and_then (heuristic (xo_message_chunks ops message)) (\<lambda>count.
     if is_system message
     then and_then (ok_or (checked_add (tb_system tokens) count) ''token overflow'') (\<lambda>n. Ok (tokens\<lparr>tb_system := n\<rparr>))
     else and_then (ok_or (checked_add (tb_messages tokens) count) ''token overflow'') (\<lambda>n. Ok (tokens\<lparr>tb_messages := n\<rparr>)))"

definition heuristic_counter :: "'v context_ops \<Rightarrow> u64 \<Rightarrow> 'v context_token_counter" where
  "heuristic_counter ops template_tokens target request =
     and_then (for_each (count_message ops) (rg_messages request)
       \<lparr>tb_system = 0, tb_messages = 0, tb_constraint = 0, tb_template = template_tokens\<rparr>) (\<lambda>tokens.
     and_then (heuristic (xo_constraint_chunks ops (rg_constraint request))) (\<lambda>count.
     Ok \<lparr>cc_target = target, cc_method = ''serialized-utf8-ceil-div4-v1'', cc_evidence = Estimate,
       cc_tokens = tokens\<lparr>tb_constraint := count\<rparr>\<rparr>))"

section \<open>The checks of an input\<close>

type_synonym context_check = "(unit, context_build_error) outcome"

definition check_configuration :: "'v context_build_input \<Rightarrow> context_check" where
  "check_configuration inp =
     (let limits = ci_limits inp; budget = ci_budget inp in
      if cl_max_input_bytes limits = 0 \<or> cl_max_groups limits = 0 \<or> cl_max_messages limits = 0 \<or>
         cl_max_count_calls limits = 0 \<or> cb_window_tokens budget = 0 \<or> cb_output_reserve budget = 0 \<or>
         is_blank (ct_model (ci_target inp)) \<or> is_blank (ct_template_revision (ci_target inp))
      then Err (CbInvalid ''zero limit or blank target'')
      else if cb_mode budget = Hard \<and> cb_output_evidence budget \<noteq> VerifiedUpperBound then Err CbUnverifiedCount
      else if length (cv_groups (ci_history inp)) > cl_max_groups limits \<or> length (cv_turns (ci_history inp)) > cl_max_groups limits
      then Err (CbLimit ''groups'')
      else Ok ())"

definition check_sizes :: "'v context_ops \<Rightarrow> 'v context_build_input \<Rightarrow> context_check" where
  "check_sizes ops inp =
     (case Option.bind (xo_input_chunks ops inp) (\<lambda>cs. count_bytes cs (cl_max_input_bytes (ci_limits inp))) of
        None \<Rightarrow> Err (CbLimit ''input bytes'')
      | Some _ \<Rightarrow>
          and_then (ok_or (usize_checked_add (length (ci_system inp)) (length (ci_current inp))) CbOverflow) (\<lambda>start.
          and_then (for_each (\<lambda>g sum. ok_or (usize_checked_add sum (length (pg_messages g))) CbOverflow)
            (cv_groups (ci_history inp)) start) (\<lambda>message_count.
          if message_count > cl_max_messages (ci_limits inp) then Err (CbLimit ''messages'') else Ok ())))"

fun starts_with_user :: "'v model_message list \<Rightarrow> bool" where
  "starts_with_user (User _ # _) = True"
| "starts_with_user _ = False"

definition check_current :: "'v context_ops \<Rightarrow> 'v context_build_input \<Rightarrow> context_check" where
  "check_current ops inp =
     (if cv_algorithm_version (ci_history inp) \<noteq> 1 then Err (CbInvalid ''unsupported projection version'')
      else if \<not> starts_with_user (ci_current inp) \<or> list_ex is_system (ci_current inp)
      then Err (CbInvalid ''current context must start with user and contain no system'')
      else map_err CbShape (validate_shape (xo_json ops) \<lparr>rg_messages = ci_current inp, rg_constraint = TextOutput\<rparr>))"

definition check_turn_step :: "projected_turn \<Rightarrow> turn_id list \<Rightarrow> (turn_id list, context_build_error) outcome" where
  "check_turn_step turn turns =
     (if is_blank (ptn_turn_id turn) \<or> ptn_turn_id turn \<in> set turns \<or> ptn_state turn = PtOpen
      then Err (CbInvalid ''duplicate, blank or open historical turn'')
      else Ok (ptn_turn_id turn # turns))"

fun valid_group :: "projection_group_kind \<Rightarrow> 'v model_message list \<Rightarrow> bool" where
  "valid_group GroupUser [User _] = True"
| "valid_group GroupAssistant [Assistant (Some _) calls] = (calls = [])"
| "valid_group GroupToolExchange [Assistant _ calls, Tool call_id _] =
     (case calls of [call] \<Rightarrow> tc_id call = call_id | _ \<Rightarrow> False)"
| "valid_group _ _ = False"

text \<open>\<open>Iterator::position\<close>\<close>

fun position :: "('a \<Rightarrow> bool) \<Rightarrow> 'a list \<Rightarrow> nat option" where
  "position P [] = None"
| "position P (x # xs) = (if P x then Some 0 else map_option Suc (position P xs))"

definition check_group_step ::
    "projected_turn list \<Rightarrow> 'v projection_group \<Rightarrow> nat \<Rightarrow> (nat, context_build_error) outcome" where
  "check_group_step turns g last_index =
     (case position (\<lambda>turn. ptn_turn_id turn = pg_turn_id g) turns of
        None \<Rightarrow> Err (CbInvalid ''unknown group turn'')
      | Some index \<Rightarrow>
          if index < last_index \<or> pg_source_events g = [] then Err (CbInvalid ''unordered or unsourced group'')
          else if \<not> valid_group (pg_kind g) (pg_messages g) then Err (CbInvalid ''invalid projection group shape'')
          else Ok index)"

definition check_history :: "'v context_build_input \<Rightarrow> context_check" where
  "check_history inp =
     and_then (for_each check_turn_step (cv_turns (ci_history inp)) []) (\<lambda>turns.
     if \<not> distinct (ci_pinned_turns inp) \<or> list_ex (\<lambda>pin. pin \<notin> set turns) (ci_pinned_turns inp)
     then Err (CbInvalid ''duplicate or unknown pinned turn'')
     else and_then (for_each (check_group_step (cv_turns (ci_history inp))) (cv_groups (ci_history inp)) 0) (\<lambda>_. Ok ()))"

definition validate_input :: "'v context_ops \<Rightarrow> 'v context_build_input \<Rightarrow> context_check" where
  "validate_input ops inp =
     and_then (check_configuration inp) (\<lambda>_.
     and_then (check_sizes ops inp) (\<lambda>_.
     and_then (check_current ops inp) (\<lambda>_. check_history inp)))"

section \<open>Building\<close>

definition turn_selection :: "'v context_build_input \<Rightarrow> projected_turn \<Rightarrow> context_turn_selection" where
  "turn_selection inp turn =
     \<lparr>tsel_turn = ptn_turn_id turn,
      tsel_source_events = concat (map pg_source_events (filter (\<lambda>g. pg_turn_id g = ptn_turn_id turn) (cv_groups (ci_history inp)))),
      tsel_retained = True, tsel_protected = ptn_turn_id turn \<in> set (ci_pinned_turns inp)\<rparr>"

definition report_new :: "'v context_build_input \<Rightarrow> context_build_report" where
  "report_new inp =
     (let history = ci_history inp in
      \<lparr>cr_algorithm_version = 1, cr_projection_version = cv_algorithm_version history, cr_session_id = cv_session_id history,
       cr_source_tail = cv_source_tail history, cr_source_event_count = cv_source_event_count history,
       cr_state_version = ci_state_version inp, cr_target = ci_target inp, cr_budget = ci_budget inp,
       cr_limits = ci_limits inp, cr_system_messages = length (ci_system inp), cr_current_messages = length (ci_current inp),
       cr_turns = map (turn_selection inp) (cv_turns history), cr_attempts = []\<rparr>)"

definition assemble :: "'v context_build_input \<Rightarrow> context_turn_selection list \<Rightarrow> 'v generation_request" where
  "assemble inp turns =
     (let retained = map tsel_turn (filter tsel_retained turns) in
      \<lparr>rg_messages = map System (ci_system inp) @
         concat (map pg_messages (filter (\<lambda>g. pg_turn_id g \<in> set retained) (cv_groups (ci_history inp)))) @ ci_current inp,
       rg_constraint = ci_constraint inp\<rparr>)"

definition removable :: "context_turn_selection \<Rightarrow> bool" where
  "removable turn \<longleftrightarrow> tsel_retained turn \<and> \<not> tsel_protected turn"

text \<open>One count of the complete candidate, and its total with the reserve.\<close>

definition count_candidate ::
    "'v context_token_counter \<Rightarrow> 'v context_build_input \<Rightarrow> u64 \<Rightarrow> 'v generation_request
       \<Rightarrow> (context_token_count \<times> u64, context_build_error) outcome" where
  "count_candidate counter inp held request =
     and_then (map_err CbCounter (counter (ci_target inp) request)) (\<lambda>count.
     if cc_target count \<noteq> ci_target inp \<or> is_blank (cc_method count) \<or>
        cb_mode (ci_budget inp) = Hard \<and> cc_evidence count \<noteq> VerifiedUpperBound
     then Err CbUnverifiedCount
     else
       and_then (ok_or (breakdown_total (cc_tokens count)) CbOverflow) (\<lambda>input_tokens.
       if input_tokens = 0 then Err (CbInvalid ''zero input count'')
       else and_then (ok_or (checked_add input_tokens held) CbOverflow) (\<lambda>total_reserved. Ok (count, total_reserved))))"

lemma position_Some:
  "position P xs = Some i \<Longrightarrow> i < length xs \<and> P (xs ! i) \<and> (\<forall>j < i. \<not> P (xs ! j))"
proof (induction xs arbitrary: i)
  case (Cons x xs)
  show ?case
  proof (cases "P x")
    case False
    then obtain j where "position P xs = Some j" "i = Suc j" using Cons.prems by auto
    with Cons.IH False show ?thesis by (auto simp: less_Suc_eq_0_disj)
  qed (use Cons.prems in auto)
qed simp

lemma removable_decreases:
  assumes "position removable turns = Some i"
  shows "length (filter removable (turns[i := (turns ! i)\<lparr>tsel_retained := False\<rparr>])) < length (filter removable turns)"
proof -
  have i: "i < length turns" "removable (turns ! i)" using position_Some [OF assms] by simp_all
  have "turns = take i turns @ turns ! i # drop (Suc i) turns" using i(1) by (rule id_take_nth_drop)
  then have "filter removable turns = filter removable (take i turns) @ turns ! i # filter removable (drop (Suc i) turns)"
    using i(2) by (metis filter.simps(2) filter_append)
  then show ?thesis using i(1) by (simp add: upd_conv_take_nth_drop removable_def)
qed

function build_loop ::
    "'v context_ops \<Rightarrow> 'v context_token_counter \<Rightarrow> 'v context_build_input \<Rightarrow> u64 \<Rightarrow> 'v generation_request
       \<Rightarrow> context_build_report \<Rightarrow> usize \<Rightarrow> ('v built_context, context_build_error) outcome" where
  "build_loop ops counter inp held request report removed =
     and_then (count_candidate counter inp held request) (\<lambda>(count, total_reserved).
     let report = report\<lparr>cr_attempts := cr_attempts report @
           [\<lparr>ca_removed_turns = removed, ca_count = count, ca_total_reserved = total_reserved\<rparr>]\<rparr> in
     if total_reserved \<le> cb_window_tokens (ci_budget inp) then Ok \<lparr>bc_request = request, bc_report = report\<rparr>
     else
       (case position removable (cr_turns report) of
          None \<Rightarrow> Err (CbDoesNotFit report)
        | Some index \<Rightarrow>
            if length (cr_attempts report) = cl_max_count_calls (ci_limits inp) then Err (CbCountLimit report)
            else
              let report = report\<lparr>cr_turns := (cr_turns report)[index := (cr_turns report ! index)\<lparr>tsel_retained := False\<rparr>]\<rparr>;
                  request = assemble inp (cr_turns report) in
              and_then (map_err CbShape (validate_shape (xo_json ops) request)) (\<lambda>_.
              build_loop ops counter inp held request report (removed + 1))))"
  by pat_completeness auto
termination
  by (relation "measure (\<lambda>(ops, counter, inp, held, request, report, removed). length (filter removable (cr_turns report)))")
    (auto simp: removable_decreases)

declare build_loop.simps [simp del]

definition build ::
    "'v context_ops \<Rightarrow> 'v context_token_counter \<Rightarrow> 'v context_build_input \<Rightarrow> ('v built_context, context_build_error) outcome" where
  "build ops counter inp =
     and_then (validate_input ops inp) (\<lambda>_.
     let report = report_new inp in
     and_then (ok_or (checked_add (cb_output_reserve (ci_budget inp)) (cb_safety_margin (ci_budget inp))) CbOverflow) (\<lambda>held.
     let request = assemble inp (cr_turns report) in
     and_then (map_err CbShape (validate_shape (xo_json ops) request)) (\<lambda>_.
     build_loop ops counter inp held request report 0)))"

end
