(* ===== verification/ContextProjectionInv.thy ===== *)
theory ContextProjectionInv
  imports ContextProjection "HOL-Library.Multiset"
begin

text \<open>
  What a projection keeps of a log: the invariant of the scan of a turn, the shape of the groups, and
  where every event goes.
\<close>

section \<open>The scan\<close>

text \<open>What the scan stores: events of the turn in their places, calls under their names.\<close>

definition scan_ok :: "'v session_event set \<Rightarrow> 'v turn_scan \<Rightarrow> bool" where
  "scan_ok E t \<longleftrightarrow>
     (\<forall>e. tu_user t = Some e \<longrightarrow> is_user_kind (se_kind e)) \<and>
     (\<forall>e. tu_complete t = Some e \<longrightarrow> (\<exists>v content. se_kind e = AssistantMessage v content)) \<and>
     (\<forall>(e, c, r) \<in> set (tu_calls t). e \<in> E \<and> se_kind e = ToolCallEvent c \<and> \<not> is_blank (tl_name c) \<and>
        (\<forall>x. r = Some x \<longrightarrow> (\<exists>a. se_kind x = ToolResultEvent a \<and> tres_call_id a = tl_id c))) \<and>
     (\<forall>i n. map_of (tu_call_index t) i = Some n \<longrightarrow>
        n < length (tu_calls t) \<and> tl_id (fst (snd (tu_calls t ! n))) = i)"

lemma scan_ok_user_kind: "scan_ok E t \<Longrightarrow> tu_user t = Some e \<Longrightarrow> is_user_kind (se_kind e)"
  unfolding scan_ok_def by (drule conjunct1) simp

lemma scan_ok_complete_kind:
  "scan_ok E t \<Longrightarrow> tu_complete t = Some e \<Longrightarrow> \<exists>v content. se_kind e = AssistantMessage v content"
  unfolding scan_ok_def by (drule conjunct2, drule conjunct1) simp

lemma scan_ok_call:
  "scan_ok E t \<Longrightarrow> (e, c, r) \<in> set (tu_calls t) \<Longrightarrow> e \<in> E \<and> se_kind e = ToolCallEvent c \<and> \<not> is_blank (tl_name c) \<and>
     (\<forall>x. r = Some x \<longrightarrow> (\<exists>a. se_kind x = ToolResultEvent a \<and> tres_call_id a = tl_id c))"
  unfolding scan_ok_def by (drule conjunct2, drule conjunct2, drule conjunct1, drule (1) bspec) simp

lemma scan_ok_new [simp]: "scan_ok E (turn_scan_new ids)"
  by (simp add: scan_ok_def turn_scan_new_def)

lemma scan_ok_omit [simp]: "scan_ok E (t\<lparr>tu_omitted := xs\<rparr>) = scan_ok E t"
  by (simp add: scan_ok_def)

lemma scan_ok_user: "scan_ok E t \<Longrightarrow> is_user_kind (se_kind e) \<Longrightarrow> scan_ok E (t\<lparr>tu_user := Some e\<rparr>)"
  by (simp add: scan_ok_def)

lemma scan_reply_ok:
  "scan_ok E t \<Longrightarrow> se_kind e = AssistantMessage v content \<Longrightarrow> scan_reply e t = Ok t' \<Longrightarrow> scan_ok E t'"
proof -
  assume ok: "scan_ok E t" and k: "se_kind e = AssistantMessage v content" and s: "scan_reply e t = Ok t'"
  from s obtain ids where "t' = t\<lparr>tu_message_ids := ids, tu_complete := Some e\<rparr>"
    by (auto simp: scan_reply_def split: option.splits if_splits)
  then show "scan_ok E t'" using ok k by (simp add: scan_ok_def)
qed

lemma scan_tool_call_ok:
  assumes "scan_ok E t" and "e \<in> E" and "se_kind e = ToolCallEvent c" and "scan_tool_call e c t = Ok t'"
  shows "scan_ok E t'"
proof -
  have t': "t' = t\<lparr>tu_call_index := bt_insert (tl_id c) (length (tu_calls t)) (tu_call_index t),
      tu_calls := tu_calls t @ [(e, c, None)]\<rparr>" and n: "\<not> is_blank (tl_name c)"
    using assms(4) by (auto simp: scan_tool_call_def split: if_splits)
  show ?thesis
    using assms(1-3) n unfolding t' scan_ok_def by (auto simp: map_of_bt_insert nth_append less_Suc_eq split: if_splits)
qed

lemma scan_tool_result_ok:
  assumes ok: "scan_ok E t" and k: "se_kind e = ToolResultEvent a" and s: "scan_tool_result e a t = Ok t'"
  shows "scan_ok E t'"
proof -
  obtain n where n: "map_of (tu_call_index t) (tres_call_id a) = Some n" "n < length (tu_calls t)"
    using s by (auto simp: scan_tool_result_def split: option.splits if_splits)
  obtain e0 c r where c: "tu_calls t ! n = (e0, c, r)" by (metis prod_cases3)
  have t': "t' = t\<lparr>tu_calls := (tu_calls t)[n := (e0, c, Some e)]\<rparr>"
    using s n c by (auto simp: scan_tool_result_def split: if_splits)
  have i: "tl_id c = tres_call_id a" using ok n(1) c unfolding scan_ok_def by fastforce
  have m: "(e0, c, r) \<in> set (tu_calls t)" using n(2) c nth_mem by metis
  have keep: "fst (snd ((tu_calls t)[n := (e0, c, Some e)] ! k)) = fst (snd (tu_calls t ! k))" for k
    using c n(2) by (cases "k = n") simp_all
  have "\<forall>(e1, c1, r1) \<in> set ((tu_calls t)[n := (e0, c, Some e)]). e1 \<in> E \<and> se_kind e1 = ToolCallEvent c1 \<and>
      \<not> is_blank (tl_name c1) \<and> (\<forall>x. r1 = Some x \<longrightarrow> (\<exists>a. se_kind x = ToolResultEvent a \<and> tres_call_id a = tl_id c1))"
  proof (rule ballI)
    fix y assume "y \<in> set ((tu_calls t)[n := (e0, c, Some e)])"
    then have "y = (e0, c, Some e) \<or> y \<in> set (tu_calls t)" using set_update_subset_insert by fast
    then show "case y of (e1, c1, r1) \<Rightarrow> e1 \<in> E \<and> se_kind e1 = ToolCallEvent c1 \<and>
      \<not> is_blank (tl_name c1) \<and> (\<forall>x. r1 = Some x \<longrightarrow> (\<exists>a. se_kind x = ToolResultEvent a \<and> tres_call_id a = tl_id c1))"
      using ok m i k by (auto simp: scan_ok_def)
  qed
  then show ?thesis using ok keep unfolding t' scan_ok_def by simp
qed

lemma scan_model_ok [simp]: "scan_ok E (t\<lparr>tu_model_calls := m\<rparr>) = scan_ok E t"
  by (simp add: scan_ok_def)

lemma scan_state_ok [simp]: "scan_ok E (t\<lparr>tu_state := st, tu_terminal := x\<rparr>) = scan_ok E t"
  by (simp add: scan_ok_def)

lemma scan_kind_ok:
  assumes "scan_ok E t" and "e \<in> E" and "scan_kind e t = Ok (t', om)"
  shows "scan_ok E t'"
  using assms
  by (cases "se_kind e")
    (auto simp: scan_kind_def scan_model_request_def scan_model_result_def is_user_kind_def
      intro: scan_ok_user scan_reply_ok scan_tool_call_ok scan_tool_result_ok split: if_splits option.splits)

lemma scan_turn_event_ok:
  assumes "scan_ok E t" and "e \<in> E" and "scan_turn_event e t = Ok t'"
  shows "scan_ok E t'"
proof -
  obtain t1 om where s: "scan_kind e t = Ok (t1, om)" and t': "t' = (case om of None \<Rightarrow> t1
      | Some reason \<Rightarrow> t1\<lparr>tu_omitted := tu_omitted t1 @ [omit e reason]\<rparr>)"
    using assms(3) by (auto simp: scan_turn_event_def split: if_splits)
  from scan_kind_ok [OF assms(1,2) s] show ?thesis unfolding t' by (cases om) simp_all
qed

lemma scan_events_ok: "for_each scan_turn_event events (turn_scan_new ids) = Ok t \<Longrightarrow> scan_ok (set events) t"
  by (erule for_each_inv) (auto intro: scan_turn_event_ok)

lemma scan_tool_result_neq_Panic:
  assumes "scan_ok E t"
  shows "scan_tool_result e a t \<noteq> Panic"
proof (cases "map_of (tu_call_index t) (tres_call_id a)")
  case (Some n)
  then have "n < length (tu_calls t)" using assms by (simp add: scan_ok_def)
  then show ?thesis using Some by (simp add: scan_tool_result_def split: prod.split)
qed (simp add: scan_tool_result_def)

lemma scan_part_neq_Panic [simp]:
  "scan_reply e t \<noteq> Panic" "scan_tool_call e c t \<noteq> Panic" "scan_model_request e i t \<noteq> Panic" "scan_model_result e i t \<noteq> Panic"
  by (simp_all add: scan_reply_def scan_tool_call_def scan_model_request_def scan_model_result_def split: option.split)

lemma scan_kind_neq_Panic:
  assumes "scan_ok E t"
  shows "scan_kind e t \<noteq> Panic"
  using scan_tool_result_neq_Panic [OF assms, of e]
  by (cases "se_kind e") (auto simp: scan_kind_def and_then_eq_Panic)

lemma scan_events_neq_Panic: "set es \<subseteq> E \<Longrightarrow> scan_ok E t \<Longrightarrow> for_each scan_turn_event es t \<noteq> Panic"
proof (induction es arbitrary: t)
  case (Cons e es)
  have "scan_turn_event e t \<noteq> Panic"
    using scan_kind_neq_Panic [OF Cons.prems(2)]
    by (auto simp: scan_turn_event_def and_then_eq_Panic split: if_splits)
  moreover have "for_each scan_turn_event es t' \<noteq> Panic" if "scan_turn_event e t = Ok t'" for t'
    using Cons scan_turn_event_ok [OF Cons.prems(2) _ that] by simp
  ultimately show ?case by (auto simp: and_then_eq_Panic)
qed simp

section \<open>Where events go\<close>

definition call_events :: "'v session_event \<times> 'v tool_call \<times> 'v session_event option \<Rightarrow> event_id list" where
  "call_events = (\<lambda>(e, c, r). se_event_id e # map se_event_id (option_list r))"

definition scan_account :: "'v turn_scan \<Rightarrow> event_id multiset" where
  "scan_account t = mset (map se_event_id (option_list (tu_user t))) + mset (map se_event_id (option_list (tu_complete t))) +
     mset (concat (map call_events (tu_calls t))) + mset (map oe_event_id (tu_omitted t))"

lemma option_list_simps [simp]: "option_list None = []" "option_list (Some x) = [x]"
  by (simp_all add: option_list_def)

lemma mset_concat_update:
  assumes "n < length xs"
  shows "mset (concat (map f (xs[n := y]))) + mset (f (xs ! n)) = mset (concat (map f xs)) + mset (f y)"
proof -
  have "xs = take n xs @ xs ! n # drop (Suc n) xs" using assms by (rule id_take_nth_drop)
  then have "concat (map f xs) = concat (map f (take n xs)) @ f (xs ! n) @ concat (map f (drop (Suc n) xs))"
    by (metis concat.simps(2) concat_append list.simps(9) map_append)
  then show ?thesis using assms by (simp add: upd_conv_take_nth_drop)
qed

lemma scan_tool_result_account:
  assumes "scan_tool_result e a t = Ok t'"
  shows "scan_account t' = add_mset (se_event_id e) (scan_account t)"
proof -
  obtain n where n: "map_of (tu_call_index t) (tres_call_id a) = Some n" "n < length (tu_calls t)"
    using assms by (auto simp: scan_tool_result_def split: option.splits if_splits)
  obtain e0 c r where c: "tu_calls t ! n = (e0, c, r)" by (metis prod_cases3)
  have r: "r = None" and t': "t' = t\<lparr>tu_calls := (tu_calls t)[n := (e0, c, Some e)]\<rparr>"
    using assms n c by (auto simp: scan_tool_result_def split: if_splits)
  from mset_concat_update [OF n(2), of call_events "(e0, c, Some e)"]
  have "mset (concat (map call_events ((tu_calls t)[n := (e0, c, Some e)]))) =
      add_mset (se_event_id e) (mset (concat (map call_events (tu_calls t))))"
    by (simp add: c r call_events_def)
  then show ?thesis by (simp add: t' scan_account_def)
qed

lemma scan_kind_account:
  assumes "scan_kind e t = Ok (t', om)"
  shows "add_mset (se_event_id e) (scan_account t) =
    scan_account t' + mset (map (\<lambda>_. se_event_id e) (option_list om))"
proof (cases "\<exists>a. se_kind e = ToolResultEvent a")
  case True
  then show ?thesis using assms by (auto simp: scan_kind_def scan_tool_result_account)
next
  case False
  then show ?thesis
    using assms
    by (cases "se_kind e")
      (auto simp: scan_kind_def scan_reply_def scan_tool_call_def scan_model_request_def scan_model_result_def
        scan_account_def call_events_def split: if_splits option.splits)
qed

lemma scan_turn_event_account:
  assumes "scan_turn_event e t = Ok t'"
  shows "scan_account t' = add_mset (se_event_id e) (scan_account t)"
proof -
  obtain t1 om where s: "scan_kind e t = Ok (t1, om)" and t': "t' = (case om of None \<Rightarrow> t1
      | Some reason \<Rightarrow> t1\<lparr>tu_omitted := tu_omitted t1 @ [omit e reason]\<rparr>)"
    using assms by (auto simp: scan_turn_event_def split: if_splits)
  from scan_kind_account [OF s] show ?thesis
    unfolding t' by (cases om) (auto simp: scan_account_def omit_def)
qed

lemma scan_events_account:
  "for_each scan_turn_event es t = Ok t' \<Longrightarrow> scan_account t' = scan_account t + mset (map se_event_id es)"
proof (induction es arbitrary: t)
  case (Cons e es)
  then obtain u where "scan_turn_event e t = Ok u" "for_each scan_turn_event es u = Ok t'" by auto
  with Cons.IH [of u] show ?case by (simp add: scan_turn_event_account)
qed simp

section \<open>The groups of a turn\<close>

lemma push_group_Ok: "push_group config g s = Ok s' \<Longrightarrow> fst s' = fst s @ [g]"
  by (auto simp: push_group_def split: prod.splits if_splits)

lemma push_group_neq_Panic [simp]: "push_group config g s \<noteq> Panic"
  by (auto simp: push_group_def and_then_eq_Panic split: prod.splits)

lemma push_with_Ok: "push_with config build x s = Ok u \<longleftrightarrow> (\<exists>g. build x = Ok g \<and> push_group config g s = Ok u)"
  by (auto simp: push_with_def)

lemma pushes_Ok:
  assumes "for_each (push_with config build) xs s = Ok s'"
  shows "\<exists>new. list_all2 (\<lambda>x g. build x = Ok g) xs new \<and> fst s' = fst s @ new"
  using assms
proof (induction xs arbitrary: s)
  case (Cons x xs)
  then obtain g u where g: "build x = Ok g" "push_group config g s = Ok u" "for_each (push_with config build) xs u = Ok s'"
    by (auto simp: push_with_Ok simp del: split_paired_Ex)
  from Cons.IH [OF g(3)] obtain new where "list_all2 (\<lambda>x g. build x = Ok g) xs new" "fst s' = fst u @ new" by blast
  then show ?case using g push_group_Ok [OF g(2)] by (intro exI [of _ "g # new"]) simp
qed simp

lemma pushes_neq_Panic:
  "(\<And>x. x \<in> set xs \<Longrightarrow> build x \<noteq> Panic) \<Longrightarrow> for_each (push_with config build) xs s \<noteq> Panic"
  by (rule for_each_no_panic) (auto simp: push_with_def and_then_eq_Panic)

text \<open>The messages of a group: a question, a reply, or one call of the log with its result.\<close>

definition group_from :: "'v session_event set \<Rightarrow> turn_id \<Rightarrow> 'v projection_group \<Rightarrow> bool" where
  "group_from E turn g \<longleftrightarrow> pg_turn_id g = turn \<and> pg_source_events g \<noteq> [] \<and>
     (case pg_kind g of
        GroupUser \<Rightarrow> \<exists>content. pg_messages g = [User content]
      | GroupAssistant \<Rightarrow> \<exists>content. pg_messages g = [Assistant (Some content) []]
      | GroupToolExchange \<Rightarrow> \<exists>e \<in> E. \<exists>c i out. se_kind e = ToolCallEvent c \<and> \<not> is_blank (tl_name c) \<and>
          pg_messages g = [Assistant None [\<lparr>tc_id = i, tc_name = tl_name c, tc_arguments = tl_arguments c\<rparr>], Tool i out])"

lemma user_group_Ok:
  "user_group turn e = Ok g \<Longrightarrow> group_from E turn g \<and> pg_source_events g = [se_event_id e]"
  by (auto simp: user_group_def group_from_def split: session_event_kind.splits)

lemma reply_group_Ok:
  "reply_group turn e = Ok g \<Longrightarrow> group_from E turn g \<and> pg_source_events g = [se_event_id e]"
  by (auto simp: reply_group_def group_from_def split: session_event_kind.splits)

lemma tool_exchange_Ok:
  assumes "tool_exchange ops turn (e, c, r) = Ok g" and "e \<in> E" and "se_kind e = ToolCallEvent c" and "\<not> is_blank (tl_name c)"
  shows "group_from E turn g \<and> pg_source_events g = call_events (e, c, r)"
proof -
  obtain x i out where "r = Some x" and "pg_turn_id g = turn" and "pg_kind g = GroupToolExchange" and
    "pg_source_events g = [se_event_id e, se_event_id x]" and
    "pg_messages g = [Assistant None [\<lparr>tc_id = i, tc_name = tl_name c, tc_arguments = tl_arguments c\<rparr>], Tool i out]"
    using assms(1) by (auto simp: tool_exchange_def split: option.splits session_event_kind.splits outcome.splits)
  then show ?thesis
    using assms(2-4) by (simp add: group_from_def call_events_def) blast
qed

lemma jw_tool_not_blank [simp]: "\<not> is_blank (''jw_tool_'' @ s)"
  by (simp add: is_blank_def is_white_space3_def)

lemma tool_exchange_neq_Panic:
  assumes "se_kind x = ToolResultEvent a"
  shows "tool_exchange ops turn (e, c, Some x) \<noteq> Panic"
  using assms by (simp add: tool_exchange_def provider_tool_call_id_new_def del: append.simps)

lemma list_all2_sources:
  "list_all2 (\<lambda>x g. build x = Ok g) xs new \<Longrightarrow> (\<And>x g. x \<in> set xs \<Longrightarrow> build x = Ok g \<Longrightarrow> P g \<and> pg_source_events g = f x) \<Longrightarrow>
     list_all P new \<and> map pg_source_events new = map f xs"
  by (induction xs new rule: list_all2_induct) auto

definition project_account :: "'v projecting \<Rightarrow> event_id multiset" where
  "project_account p = mset (concat (map pg_source_events (pj_groups p))) + mset (map oe_event_id (pj_omitted p))"

text \<open>A turn adds its groups, its record, and the events of its scan.\<close>

lemma finish_turn_Ok:
  assumes fin: "finish_turn ops config turn events t p = Ok p'" and ok: "scan_ok E t"
  shows "\<exists>new missing. pj_groups p' = pj_groups p @ new \<and> list_all (group_from E turn) new \<and>
    pj_turns p' = pj_turns p @ [\<lparr>ptn_turn_id = turn, ptn_state = tu_state t, ptn_terminal_event = tu_terminal t,
      ptn_missing_complete_reply = missing\<rparr>] \<and>
    project_account p' = project_account p + scan_account t"
proof -
  let ?success = "turn_successful (tu_state t)"
  let ?reply = "if ?success then option_list (tu_complete t) else []"
  obtain s1 s2 gs n where
    s1: "for_each (push_with config (user_group turn)) (option_list (tu_user t)) (pj_groups p, pj_count p) = Ok s1" and
    s2: "for_each (push_with config (tool_exchange ops turn)) (tu_calls t) s1 = Ok s2" and
    s3: "for_each (push_with config (reply_group turn)) ?reply s2 = Ok (gs, n)" and
    p': "p' = p\<lparr>pj_groups := gs, pj_count := n, pj_message_ids := tu_message_ids t,
      pj_omitted := pj_omitted p @ tu_omitted t @
        (if ?success then [] else map (\<lambda>e. omit e OmUnsuccessfulReply) (option_list (tu_complete t))),
      pj_turns := pj_turns p @ [\<lparr>ptn_turn_id = turn, ptn_state = tu_state t, ptn_terminal_event = tu_terminal t,
        ptn_missing_complete_reply = ?success \<and> tu_complete t = None\<rparr>]\<rparr>"
    using fin by (auto simp: finish_turn_def Let_def split: if_splits)
  from pushes_Ok [OF s1] obtain g1 where g1: "list_all2 (\<lambda>x g. user_group turn x = Ok g) (option_list (tu_user t)) g1"
    "fst s1 = pj_groups p @ g1" by auto
  from pushes_Ok [OF s2] obtain g2 where g2: "list_all2 (\<lambda>x g. tool_exchange ops turn x = Ok g) (tu_calls t) g2"
    "fst s2 = fst s1 @ g2" by auto
  from pushes_Ok [OF s3] obtain g3 where g3: "list_all2 (\<lambda>x g. reply_group turn x = Ok g) ?reply g3" "gs = fst s2 @ g3" by auto
  have u: "list_all (group_from E turn) g1 \<and> map pg_source_events g1 = map (\<lambda>e. [se_event_id e]) (option_list (tu_user t))"
    by (rule list_all2_sources [OF g1(1)]) (rule user_group_Ok)
  have r: "list_all (group_from E turn) g3 \<and> map pg_source_events g3 = map (\<lambda>e. [se_event_id e]) ?reply"
    by (rule list_all2_sources [OF g3(1)]) (rule reply_group_Ok)
  have c: "list_all (group_from E turn) g2 \<and> map pg_source_events g2 = map call_events (tu_calls t)"
  proof (rule list_all2_sources [OF g2(1)])
    fix x g assume x: "x \<in> set (tu_calls t)" "tool_exchange ops turn x = Ok g"
    obtain e call res where e: "x = (e, call, res)" by (metis prod_cases3)
    with x scan_ok_call [OF ok] have "e \<in> E" "se_kind e = ToolCallEvent call" "\<not> is_blank (tl_name call)" by blast+
    from tool_exchange_Ok [OF x(2) [unfolded e] this] show "group_from E turn g \<and> pg_source_events g = call_events x"
      by (simp add: e)
  qed
  have "project_account p' = project_account p + scan_account t"
    using u c r by (cases ?success) (auto simp: p' g3(2) g2(2) g1(2) project_account_def scan_account_def omit_def comp_def)
  then show ?thesis
    using u c r by (intro exI [of _ "g1 @ g2 @ g3"]) (simp add: p' g3(2) g2(2) g1(2))
qed

lemma scan_ok_groups:
  assumes "scan_ok E t"
  shows "tu_user t = Some e \<Longrightarrow> user_group turn e \<noteq> Panic" and "tu_complete t = Some e \<Longrightarrow> reply_group turn e \<noteq> Panic"
proof -
  show "user_group turn e \<noteq> Panic" if "tu_user t = Some e"
  proof -
    show ?thesis using scan_ok_user_kind [OF assms that] by (cases "se_kind e") (simp_all add: user_group_def is_user_kind_def)
  qed
  show "reply_group turn e \<noteq> Panic" if "tu_complete t = Some e"
  proof -
    obtain v content where "se_kind e = AssistantMessage v content" using scan_ok_complete_kind [OF assms] \<open>tu_complete t = Some e\<close> by blast
    then show ?thesis by (simp add: reply_group_def)
  qed
qed

lemma option_list_iff [simp]: "x \<in> set (option_list y) \<longleftrightarrow> y = Some x"
  by (cases y) auto

lemma finish_turn_neq_Panic:
  assumes ok: "scan_ok E t"
  shows "finish_turn ops config turn events t p \<noteq> Panic"
proof (cases "turn_unconfirmed events t")
  case False
  have u: "for_each (push_with config (user_group turn)) (option_list (tu_user t)) s \<noteq> Panic" for s
    by (rule pushes_neq_Panic)
      (use scan_ok_groups(1) [OF ok] in simp)
  have c: "for_each (push_with config (tool_exchange ops turn)) (tu_calls t) s \<noteq> Panic" for s
  proof (rule pushes_neq_Panic)
    fix x assume x: "x \<in> set (tu_calls t)"
    obtain e call res where e: "x = (e, call, res)" by (metis prod_cases3)
    have "res \<noteq> None" using False x by (auto simp: turn_unconfirmed_def list_ex_iff e)
    then obtain y where y: "res = Some y" by blast
    then obtain a where "se_kind y = ToolResultEvent a" using scan_ok_call [OF ok, of e call res] x e by blast
    then show "tool_exchange ops turn x \<noteq> Panic" unfolding e y by (rule tool_exchange_neq_Panic)
  qed
  have r: "for_each (push_with config (reply_group turn)) (if b then option_list (tu_complete t) else []) s \<noteq> Panic" for s b
    by (rule pushes_neq_Panic)
      (use scan_ok_groups(2) [OF ok] in \<open>auto split: if_splits\<close>)
  show ?thesis
    using False u c r by (auto simp: finish_turn_def Let_def and_then_eq_Panic split: prod.splits)
qed (simp add: finish_turn_def)

lemma project_turn_Ok:
  assumes "project_turn ops config (e # es) p = Ok p'"
  shows "\<exists>new tn. pj_groups p' = pj_groups p @ new \<and> list_all (group_from (set (e # es)) (se_turn_id e)) new \<and>
    pj_turns p' = pj_turns p @ [tn] \<and> ptn_turn_id tn = se_turn_id e \<and>
    project_account p' = project_account p + mset (map se_event_id (e # es))"
proof -
  obtain t where t: "for_each scan_turn_event (e # es) (turn_scan_new (pj_message_ids p)) = Ok t"
    "finish_turn ops config (se_turn_id e) (e # es) t p = Ok p'"
    using assms by (auto simp: project_turn_def)
  have "scan_account t = mset (map se_event_id (e # es))"
    using scan_events_account [OF t(1)] by (simp add: scan_account_def turn_scan_new_def)
  then show ?thesis using finish_turn_Ok [OF t(2) scan_events_ok [OF t(1)]] by auto
qed

lemma project_turn_neq_Panic: "project_turn ops config (e # es) p \<noteq> Panic"
  using scan_events_neq_Panic [of "e # es" "set (e # es)" "turn_scan_new (pj_message_ids p)"]
  by (auto simp: project_turn_def and_then_eq_Panic simp del: for_each.simps
    dest: scan_events_ok finish_turn_neq_Panic [of _ _ ops config "se_turn_id e" "e # es" p])

section \<open>The turns of a log\<close>

lemma group_from_mono: "group_from E turn g \<Longrightarrow> E \<subseteq> F \<Longrightarrow> group_from F turn g"
  unfolding group_from_def by (cases "pg_kind g") (auto dest: subsetD)

definition turn_groups :: "'v session_event set \<Rightarrow> projected_turn \<Rightarrow> 'v projection_group list \<Rightarrow> bool" where
  "turn_groups E tn gs \<longleftrightarrow> list_all (group_from E (ptn_turn_id tn)) gs"

lemma turn_groups_mono: "turn_groups E tn gs \<Longrightarrow> E \<subseteq> F \<Longrightarrow> turn_groups F tn gs"
  by (auto simp: turn_groups_def list_all_iff intro: group_from_mono)

text \<open>What a log adds: a block of groups for each of its turns, in order.\<close>

definition turns_added ::
    "'v session_event set \<Rightarrow> turn_id set \<Rightarrow> 'v projecting \<Rightarrow> 'v projecting \<Rightarrow> projected_turn list \<Rightarrow> 'v projection_group list list \<Rightarrow> bool" where
  "turns_added E seen p p' turns gss \<longleftrightarrow>
     pj_turns p' = pj_turns p @ turns \<and> pj_groups p' = pj_groups p @ concat gss \<and> list_all2 (turn_groups E) turns gss \<and>
     distinct (map ptn_turn_id turns) \<and> (\<forall>tn \<in> set turns. \<not> is_blank (ptn_turn_id tn) \<and> ptn_turn_id tn \<notin> seen) \<and>
     (\<forall>tn \<in> set (butlast turns). ptn_state tn \<noteq> PtOpen)"

lemma turns_added_Cons:
  assumes "turns_added F (insert (ptn_turn_id tn) seen) p1 p' turns gss" and "F \<subseteq> E" and "turn_groups E tn new" and
    "pj_turns p1 = pj_turns p @ [tn]" and "pj_groups p1 = pj_groups p @ new" and "\<not> is_blank (ptn_turn_id tn)" and
    "ptn_turn_id tn \<notin> seen" and "turns \<noteq> [] \<Longrightarrow> ptn_state tn \<noteq> PtOpen"
  shows "turns_added E seen p p' (tn # turns) (new # gss)"
proof -
  have "list_all2 (turn_groups E) turns gss"
    using assms(1,2) by (auto simp: turns_added_def elim!: list_all2_mono intro: turn_groups_mono)
  then show ?thesis using assms by (auto simp: turns_added_def)
qed

lemma project_turns_Ok:
  "project_turns ops config seen events p = Ok p' \<Longrightarrow>
     project_account p' = project_account p + mset (map se_event_id events) \<and>
     (\<exists>turns gss. turns_added (set events) (set seen) p p' turns gss \<and> (events = [] \<longrightarrow> turns = []))"
proof (induction ops config seen events p rule: project_turns.induct)
  case (1 ops config seen p)
  then show ?case by (auto simp: turns_added_def intro!: exI [of _ "[]"])
next
  case (2 ops config seen e es p)
  let ?same = "\<lambda>x. se_turn_id x = se_turn_id e"
  let ?rest = "dropWhile ?same (e # es)"
  have first: "takeWhile ?same (e # es) = e # takeWhile ?same es" by simp
  obtain p1 where turn: "\<not> is_blank (se_turn_id e)" "se_turn_id e \<notin> set seen"
    and p1: "project_turn ops config (e # takeWhile ?same es) p = Ok p1"
    and open_last: "?rest \<noteq> [] \<longrightarrow> pj_turns p1 \<noteq> [] \<and> ptn_state (last (pj_turns p1)) \<noteq> PtOpen"
    and rest: "project_turns ops config (bs_insert (se_turn_id e) seen) ?rest p1 = Ok p'"
    using "2.prems" by (auto simp: Let_def split: if_splits)
  from project_turn_Ok [OF p1] obtain new tn where
    n: "pj_groups p1 = pj_groups p @ new" "list_all (group_from (set (e # takeWhile ?same es)) (se_turn_id e)) new"
      "pj_turns p1 = pj_turns p @ [tn]" "ptn_turn_id tn = se_turn_id e"
      "project_account p1 = project_account p + mset (map se_event_id (e # takeWhile ?same es))" by blast
  from "2.IH" [OF refl refl, of p1] turn rest open_last
  have ih: "project_account p' = project_account p1 + mset (map se_event_id ?rest) \<and>
      (\<exists>turns gss. turns_added (set ?rest) (set (bs_insert (se_turn_id e) seen)) p1 p' turns gss \<and> (?rest = [] \<longrightarrow> turns = []))"
    by auto
  then obtain turns gss where t: "turns_added (set ?rest) (insert (ptn_turn_id tn) (set seen)) p1 p' turns gss" "?rest = [] \<longrightarrow> turns = []"
    using n(4) by auto
  have "turn_groups (set (e # es)) tn new"
    using n(2,4) set_takeWhileD by (fastforce simp: turn_groups_def list_all_iff intro: group_from_mono)
  moreover have "set ?rest \<subseteq> set (e # es)" using set_dropWhileD by fast
  ultimately have "turns_added (set (e # es)) (set seen) p p' (tn # turns) (new # gss)"
    using t n turn open_last by (intro turns_added_Cons [OF t(1)]) auto
  moreover have "mset (map se_event_id (e # es)) =
      mset (map se_event_id (e # takeWhile ?same es)) + mset (map se_event_id ?rest)"
    by (metis first map_append mset_append takeWhile_dropWhile_id)
  ultimately show ?case using ih n(5) by (auto simp: ac_simps)
qed

lemma project_turns_neq_Panic: "project_turns ops config seen events p \<noteq> Panic"
proof (induction ops config seen events p rule: project_turns.induct)
  case (2 ops config seen e es p)
  let ?same = "\<lambda>x. se_turn_id x = se_turn_id e"
  have first: "takeWhile ?same (e # es) = e # takeWhile ?same es" by simp
  show ?case
  proof
    assume "project_turns ops config seen (e # es) p = Panic"
    then obtain p1 where p1: "project_turn ops config (takeWhile ?same (e # es)) p = Ok p1"
      and n: "\<not> (is_blank (se_turn_id e) \<or> se_turn_id e \<in> set seen)"
      and s: "pj_turns p1 = [] \<or> project_turns ops config (bs_insert (se_turn_id e) seen) (dropWhile ?same (e # es)) p1 = Panic \<and>
        \<not> (dropWhile ?same (e # es) \<noteq> [] \<and> pj_turns p1 = []) \<and>
        \<not> (dropWhile ?same (e # es) \<noteq> [] \<and> ptn_state (last (pj_turns p1)) = PtOpen)"
      using project_turn_neq_Panic [of ops config e "takeWhile ?same es" p]
      by (auto simp: Let_def and_then_eq_Panic simp del: dropWhile.simps split: if_splits)
    from project_turn_Ok [OF p1 [unfolded first]] have "pj_turns p1 \<noteq> []" by auto
    then show False using s "2.IH" [OF refl refl n, of p1] by blast
  qed
qed simp

lemma project_Ok:
  assumes "project ops session events config = Ok p"
  shows "mset (map se_event_id events) =
      mset (concat (map pg_source_events (cv_groups p))) + mset (map oe_event_id (cv_omitted p))"
    and "\<exists>gss. cv_groups p = concat gss \<and> list_all2 (turn_groups (set events)) (cv_turns p) gss"
    and "distinct (map ptn_turn_id (cv_turns p))" and "tn \<in> set (cv_turns p) \<Longrightarrow> \<not> is_blank (ptn_turn_id tn)"
    and "tn \<in> set (butlast (cv_turns p)) \<Longrightarrow> ptn_state tn \<noteq> PtOpen"
    and "cv_algorithm_version p = 1"
proof -
  let ?start = "\<lparr>pj_groups = [], pj_turns = [], pj_omitted = [], pj_message_ids = [], pj_count = 0\<rparr> :: 'a projecting"
  obtain q where q: "project_turns ops config [] events ?start = Ok q" and
    p: "cv_groups p = pj_groups q" "cv_turns p = pj_turns q" "cv_omitted p = sort_key oe_seq (pj_omitted q)"
      "cv_algorithm_version p = 1"
    using assms by (auto simp: project_def split: if_splits)
  note Q = project_turns_Ok [OF q]
  then show "mset (map se_event_id events) =
      mset (concat (map pg_source_events (cv_groups p))) + mset (map oe_event_id (cv_omitted p))"
    by (simp add: project_account_def p)
  from Q obtain turns gss where t: "turns_added (set events) (set []) ?start q turns gss" by blast
  then show "\<exists>gss. cv_groups p = concat gss \<and> list_all2 (turn_groups (set events)) (cv_turns p) gss"
    by (auto simp: turns_added_def p)
  from t show "distinct (map ptn_turn_id (cv_turns p))" "tn \<in> set (cv_turns p) \<Longrightarrow> \<not> is_blank (ptn_turn_id tn)"
    "tn \<in> set (butlast (cv_turns p)) \<Longrightarrow> ptn_state tn \<noteq> PtOpen"
    by (auto simp: turns_added_def p)
qed (use assms in \<open>auto simp: project_def split: if_splits\<close>)

lemma project_neq_Panic: "project ops session events config \<noteq> Panic"
proof -
  have "for_each (count_event ops) events n \<noteq> Panic" for n
    by (rule for_each_no_panic) (simp add: count_event_def split: option.split)
  then show ?thesis
    using project_turns_neq_Panic [of ops config "[]" events] by (auto simp: project_def and_then_eq_Panic)
qed

section \<open>The conversation\<close>

text \<open>A block of groups leaves no call without its result.\<close>

lemma group_messages_scan:
  assumes "group_from E turn g" and "\<And>e c. e \<in> E \<Longrightarrow> se_kind e = ToolCallEvent c \<Longrightarrow> js_is_object js (tl_arguments c)"
  shows "for_each (message_step js) (enumerate n (pg_messages g)) [] = Ok []"
proof (cases "pg_kind g")
  case GroupToolExchange
  then obtain e c i out where "e \<in> E" "se_kind e = ToolCallEvent c" "\<not> is_blank (tl_name c)"
    "pg_messages g = [Assistant None [\<lparr>tc_id = i, tc_name = tl_name c, tc_arguments = tl_arguments c\<rparr>], Tool i out]"
    using assms(1) by (auto simp: group_from_def)
  then show ?thesis
    using assms(2) by (simp add: message_step_def validate_assistant_def assistant_call_step_def validate_name_def)
qed (use assms(1) in \<open>auto simp: group_from_def message_step_def validate_assistant_def\<close>)

lemma messages_scan:
  assumes "list_all (\<lambda>g. \<exists>turn. group_from E turn g) gs"
    and "\<And>e c. e \<in> E \<Longrightarrow> se_kind e = ToolCallEvent c \<Longrightarrow> js_is_object js (tl_arguments c)"
  shows "for_each (message_step js) (enumerate n (concat (map pg_messages gs))) [] = Ok []"
  using assms(1)
proof (induction gs arbitrary: n)
  case (Cons g gs)
  then obtain turn where "group_from E turn g" by auto
  from group_messages_scan [OF this assms(2)] Cons show ?case
    by (simp add: enumerate_append_eq for_each_append)
qed simp

lemma blocks_groups: "list_all2 (turn_groups E) turns gss \<Longrightarrow> list_all (\<lambda>g. \<exists>turn. group_from E turn g) (concat gss)"
  by (induction turns gss rule: list_all2_induct) (auto simp: turn_groups_def list_all_iff)

end
