(* ===== verification/ContextBuilderInv.thy ===== *)
theory ContextBuilderInv
  imports ContextBuilder ContextProjectionInv
begin

text \<open>
  The builder's loop as a search: it drops turns in one order only, so its candidates are numbered,
  and it returns the first that fits. What its checks ask of a history is what a projection gives.
\<close>

section \<open>Dropping the oldest turns\<close>

text \<open>The first \<open>n\<close> turns that are not protected, dropped.\<close>

fun retire :: "nat \<Rightarrow> context_turn_selection list \<Rightarrow> context_turn_selection list" where
  "retire 0 turns = turns"
| "retire (Suc n) [] = []"
| "retire (Suc n) (turn # turns) =
     (if tsel_protected turn then turn # retire (Suc n) turns else turn\<lparr>tsel_retained := False\<rparr> # retire n turns)"

definition droppable :: "context_turn_selection list \<Rightarrow> nat" where
  "droppable turns = length (filter (\<lambda>turn. \<not> tsel_protected turn) turns)"

lemma retire_Nil [simp]: "retire n [] = []"
  by (cases n) auto

lemma position_retire:
  "list_all tsel_retained turns \<Longrightarrow>
    position removable (retire n turns) = None \<longleftrightarrow> droppable turns \<le> n"
proof (induction n turns rule: retire.induct)
  case (1 turns)
  then show ?case by (induction turns) (auto simp: removable_def droppable_def)
qed (auto simp: removable_def droppable_def)

lemma retire_Suc:
  "list_all tsel_retained turns \<Longrightarrow> position removable (retire n turns) = Some i \<Longrightarrow>
     (retire n turns)[i := (retire n turns ! i)\<lparr>tsel_retained := False\<rparr>] = retire (Suc n) turns"
proof (induction n turns arbitrary: i rule: retire.induct)
  case (1 turns)
  then show ?case
  proof (induction turns arbitrary: i)
    case (Cons turn turns)
    show ?case
    proof (cases "tsel_protected turn")
      case True
      then have "\<not> removable turn" by (simp add: removable_def)
      then obtain j where "position removable turns = Some j" "i = Suc j" using Cons.prems by auto
      with Cons True show ?thesis by simp
    next
      case False
      then have "removable turn" using Cons.prems by (simp add: removable_def)
      then have "i = 0" using Cons.prems by simp
      with False show ?thesis by simp
    qed
  qed simp
next
  case (3 n turn turns)
  show ?case
  proof (cases "tsel_protected turn")
    case True
    then have "\<not> removable turn" by (simp add: removable_def)
    then obtain j where "position removable (retire (Suc n) turns) = Some j" "i = Suc j"
      using "3.prems" True by auto
    with 3 True show ?thesis by simp
  next
    case False
    have "\<not> removable (turn\<lparr>tsel_retained := False\<rparr>)" by (simp add: removable_def)
    then obtain j where "position removable (retire n turns) = Some j" "i = Suc j"
      using "3.prems" False by auto
    with 3 False show ?thesis by simp
  qed
qed simp

lemma retire_protected:
  "list_all tsel_retained turns \<Longrightarrow> turn \<in> set (retire n turns) \<Longrightarrow> tsel_protected turn \<Longrightarrow> tsel_retained turn"
  by (induction n turns rule: retire.induct) (auto simp: list_all_iff split: if_splits)

lemma retire_oldest_first:
  "list_all tsel_retained turns \<Longrightarrow> i < j \<Longrightarrow> j < length turns \<Longrightarrow> \<not> tsel_retained (retire n turns ! j) \<Longrightarrow>
     tsel_retained (retire n turns ! i) \<Longrightarrow> tsel_protected (retire n turns ! i)"
proof (induction n turns arbitrary: i j rule: retire.induct)
  case (1 turns)
  then show ?case by (simp add: list_all_length)
next
  case (3 n turn turns)
  obtain k where k: "j = Suc k" using "3.prems" by (cases j) auto
  show ?case
  proof (cases i)
    case 0
    then show ?thesis using "3.prems" by (auto split: if_splits)
  next
    case (Suc i')
    then show ?thesis using 3 k by (cases "tsel_protected turn") auto
  qed
qed simp

lemma length_retire [simp]: "length (retire n turns) = length turns"
  by (induction n turns rule: retire.induct) auto

lemma retire_turns [simp]: "map tsel_turn (retire n turns) = map tsel_turn turns"
  by (induction n turns rule: retire.induct) auto

section \<open>The candidates\<close>

definition first_turns :: "'v context_build_input \<Rightarrow> context_turn_selection list" where
  "first_turns inp = map (turn_selection inp) (cv_turns (ci_history inp))"

definition candidate :: "'v context_build_input \<Rightarrow> nat \<Rightarrow> 'v generation_request" where
  "candidate inp n = assemble inp (retire n (first_turns inp))"

lemma first_turns_retained [simp]: "list_all tsel_retained (first_turns inp)"
  by (simp add: first_turns_def list_all_iff turn_selection_def)

text \<open>The size of a candidate as the host's counter has it, with the reserve for the answer.\<close>

definition candidate_total :: "'v context_token_counter \<Rightarrow> 'v context_build_input \<Rightarrow> u64 \<Rightarrow> nat \<Rightarrow> u64 option" where
  "candidate_total counter inp held n =
     (case count_candidate counter inp held (candidate inp n) of Ok (_, tot) \<Rightarrow> Some tot | _ \<Rightarrow> None)"

definition candidate_fits :: "'v context_token_counter \<Rightarrow> 'v context_build_input \<Rightarrow> u64 \<Rightarrow> nat \<Rightarrow> bool" where
  "candidate_fits counter inp held n \<longleftrightarrow>
     (case candidate_total counter inp held n of None \<Rightarrow> False | Some tot \<Rightarrow> tot \<le> cb_window_tokens (ci_budget inp))"

definition candidate_exceeds :: "'v context_token_counter \<Rightarrow> 'v context_build_input \<Rightarrow> u64 \<Rightarrow> nat \<Rightarrow> bool" where
  "candidate_exceeds counter inp held n \<longleftrightarrow>
     (case candidate_total counter inp held n of None \<Rightarrow> False | Some tot \<Rightarrow> tot > cb_window_tokens (ci_budget inp))"

text \<open>What a run of the loop from candidate \<open>n\<close> returns, by the first candidate that fits.\<close>

definition built_at ::
    "'v context_ops \<Rightarrow> 'v context_token_counter \<Rightarrow> 'v context_build_input \<Rightarrow> u64 \<Rightarrow> nat \<Rightarrow> 'v built_context \<Rightarrow> nat \<Rightarrow> bool" where
  "built_at ops counter inp held n built k \<longleftrightarrow>
     n \<le> k \<and> (\<forall>j. n \<le> j \<and> j < k \<longrightarrow> candidate_exceeds counter inp held j) \<and> candidate_fits counter inp held k \<and>
     bc_request built = candidate inp k \<and> cr_turns (bc_report built) = retire k (first_turns inp) \<and>
     length (cr_attempts (bc_report built)) = Suc k \<and> k < cl_max_count_calls (ci_limits inp) \<and>
     validate_shape (xo_json ops) (candidate inp k) = Ok ()"

definition refused_at ::
    "'v context_token_counter \<Rightarrow> 'v context_build_input \<Rightarrow> u64 \<Rightarrow> nat \<Rightarrow> context_build_error \<Rightarrow> bool" where
  "refused_at counter inp held n e \<longleftrightarrow>
     (case e of
        CbDoesNotFit report \<Rightarrow> \<forall>j. n \<le> j \<and> j \<le> droppable (first_turns inp) \<longrightarrow> candidate_exceeds counter inp held j
      | CbCountLimit report \<Rightarrow> \<forall>j. n \<le> j \<and> j < cl_max_count_calls (ci_limits inp) \<longrightarrow> candidate_exceeds counter inp held j
      | _ \<Rightarrow> True)"

definition checking_error :: "context_build_error \<Rightarrow> bool" where
  "checking_error e \<longleftrightarrow> (\<forall>report. e \<noteq> CbDoesNotFit report \<and> e \<noteq> CbCountLimit report)"

lemma checking_error_simps [simp]:
  "checking_error (CbInvalid a)" "checking_error (CbLimit a)" "checking_error (CbShape p)" "checking_error (CbCounter a)"
  "checking_error CbUnverifiedCount" "checking_error CbOverflow" "\<not> checking_error (CbDoesNotFit report)"
  "\<not> checking_error (CbCountLimit report)"
  by (simp_all add: checking_error_def)

lemma checking_error_refused: "checking_error e \<Longrightarrow> refused_at counter inp held n e"
  by (cases e) (simp_all add: refused_at_def)

lemma map_err_Err: "map_err f m = Err e \<Longrightarrow> \<exists>x. e = f x"
  by (cases m) auto

lemma for_each_Err: "for_each f xs s = Err e \<Longrightarrow> \<exists>x u. f x u = Err e"
  by (induction xs arbitrary: s) (auto simp: and_then_eq_Err)

lemma count_candidate_errors: "count_candidate counter inp held request = Err e \<Longrightarrow> checking_error e"
  by (auto simp: count_candidate_def and_then_eq_Err split: if_splits dest!: map_err_Err)

lemma validate_input_errors: "validate_input ops inp = Err e \<Longrightarrow> checking_error e"
  by (auto simp: validate_input_def check_configuration_def check_sizes_def check_current_def check_history_def
    check_turn_step_def check_group_step_def and_then_eq_Err Let_def
    split: if_splits option.splits dest!: map_err_Err for_each_Err)

lemma less_or_at: "n \<le> j \<Longrightarrow> (Suc n \<le> j \<Longrightarrow> P j) \<Longrightarrow> P n \<Longrightarrow> P j"
  by (cases "n = j") auto

lemma build_loop_finds:
  assumes "length (cr_attempts report) = n" and "cr_turns report = retire n (first_turns inp)" and
    "n < cl_max_count_calls (ci_limits inp)" and "validate_shape (xo_json ops) (candidate inp n) = Ok ()" and
    "build_loop ops counter inp held (candidate inp n) report n = r"
  shows "(case r of Ok built \<Rightarrow> \<exists>k. built_at ops counter inp held n built k | Err e \<Rightarrow> refused_at counter inp held n e | Panic \<Rightarrow> True)"
  using assms
proof (induction "droppable (first_turns inp) - n" arbitrary: n report r rule: less_induct)
  case less
  show ?case
  proof (cases "count_candidate counter inp held (candidate inp n)")
    case (Ok ct)
    obtain count tot where ct: "ct = (count, tot)" by (cases ct)
    have t: "candidate_total counter inp held n = Some tot" using Ok by (simp add: candidate_total_def ct)
    let ?report = "report\<lparr>cr_attempts := cr_attempts report @
           [\<lparr>ca_removed_turns = n, ca_count = count, ca_total_reserved = tot\<rparr>]\<rparr>"
    note step = less.prems(5) [symmetric, unfolded build_loop.simps [of ops counter inp held "candidate inp n" report n] Ok ct
      and_then.simps prod.case Let_def]
    show ?thesis
    proof (cases "tot \<le> cb_window_tokens (ci_budget inp)")
      case True
      then have "r = outcome.Ok \<lparr>bc_request = candidate inp n, bc_report = ?report\<rparr>" using step by simp
      then show ?thesis
        using less.prems t True by (auto simp: built_at_def candidate_fits_def intro!: exI [of _ n])
    next
      case False
      then have over: "candidate_exceeds counter inp held n" using t by (simp add: candidate_exceeds_def)
      show ?thesis
      proof (cases "position removable (retire n (first_turns inp))")
        case None
        then have "r = Err (CbDoesNotFit ?report)" using step False less.prems(2) by simp
        moreover have "droppable (first_turns inp) \<le> n" using None by (simp add: position_retire)
        ultimately show ?thesis using over by (auto simp: refused_at_def elim: less_or_at)
      next
        case (Some i)
        then have left: "n < droppable (first_turns inp)"
          using position_retire [OF first_turns_retained, of n inp] by fastforce
        show ?thesis
        proof (cases "Suc n = cl_max_count_calls (ci_limits inp)")
          case True
          then have "r = Err (CbCountLimit ?report)" using step False Some less.prems(1,2) by simp
          then show ?thesis using over True by (auto simp: refused_at_def elim: less_or_at)
        next
          case more: False
          let ?next = "?report\<lparr>cr_turns := retire (Suc n) (first_turns inp)\<rparr>"
          have r: "r = and_then (map_err CbShape (validate_shape (xo_json ops) (candidate inp (Suc n)))) (\<lambda>_.
              build_loop ops counter inp held (candidate inp (Suc n)) ?next (Suc n))"
            using step False Some more less.prems(1,2) retire_Suc [OF first_turns_retained Some]
            by (simp add: candidate_def)
          show ?thesis
          proof (cases "validate_shape (xo_json ops) (candidate inp (Suc n))")
            case valid: (Ok u)
            have "case r of outcome.Ok built \<Rightarrow> \<exists>k. built_at ops counter inp held (Suc n) built k
              | Err e \<Rightarrow> refused_at counter inp held (Suc n) e | Panic \<Rightarrow> True"
            proof (rule less.hyps [of "Suc n" ?next])
              show "build_loop ops counter inp held (candidate inp (Suc n)) ?next (Suc n) = r" using r valid by simp
            qed (use left more less.prems(1,3) valid in simp_all)
            then show ?thesis
            proof (cases r)
              case built: (Ok built)
              with \<open>case r of outcome.Ok built \<Rightarrow> _ built | Err e \<Rightarrow> _ e | Panic \<Rightarrow> True\<close>
              obtain k where "built_at ops counter inp held (Suc n) built k" by auto
              then have "built_at ops counter inp held n built k" using over unfolding built_at_def by (metis Suc_leD less_or_at)
              then show ?thesis using built by auto
            next
              case (Err e)
              with \<open>case r of outcome.Ok built \<Rightarrow> _ built | Err e \<Rightarrow> _ e | Panic \<Rightarrow> True\<close>
              have "refused_at counter inp held (Suc n) e" by simp
              then have "refused_at counter inp held n e" using over
                by (cases e) (auto simp: refused_at_def elim: less_or_at)
              then show ?thesis using Err by simp
            qed simp
          qed (use r in \<open>simp_all add: refused_at_def\<close>)
        qed
      qed
    qed
  next
    case (Err e)
    then have "r = Err e" using less.prems(5) by (subst (asm) build_loop.simps) simp
    then show ?thesis using checking_error_refused [OF count_candidate_errors [OF Err]] by simp
  next
    case Panic
    then have "r = outcome.Panic" using less.prems(5) by (subst (asm) build_loop.simps) simp
    then show ?thesis by simp
  qed
qed

lemma build_cases:
  assumes "build ops counter inp = r" and "\<And>e. r = Err e \<Longrightarrow> \<not> checking_error e" and "r \<noteq> Panic"
  obtains held where "checked_add (cb_output_reserve (ci_budget inp)) (cb_safety_margin (ci_budget inp)) = Some held"
    "validate_input ops inp = Ok ()" "validate_shape (xo_json ops) (candidate inp 0) = Ok ()"
    "build_loop ops counter inp held (candidate inp 0) (report_new inp) 0 = r"
proof (cases "validate_input ops inp")
  case (Ok u)
  have c: "assemble inp (cr_turns (report_new inp)) = candidate inp 0"
    by (simp add: candidate_def report_new_def first_turns_def Let_def)
  note eq = assms(1) [unfolded build_def Ok and_then.simps Let_def c]
  show ?thesis
  proof (cases "checked_add (cb_output_reserve (ci_budget inp)) (cb_safety_margin (ci_budget inp))")
    case None
    then show ?thesis using eq assms(2) by auto
  next
    case (Some held)
    then show ?thesis
      using eq Ok assms(2,3) that by (cases "validate_shape (xo_json ops) (candidate inp 0)") auto
  qed
next
  case (Err e)
  then have "r = Err e" using assms(1) by (simp add: build_def)
  then show ?thesis using assms(2) validate_input_errors [OF Err] by blast
next
  case Panic
  then show ?thesis using assms(1,3) by (simp add: build_def)
qed

lemma build_result:
  assumes "build ops counter inp = r" and "\<And>e. r = Err e \<Longrightarrow> \<not> checking_error e" and "r \<noteq> Panic"
  obtains held where "checked_add (cb_output_reserve (ci_budget inp)) (cb_safety_margin (ci_budget inp)) = Some held"
    "validate_input ops inp = Ok ()"
    "case r of Ok built \<Rightarrow> \<exists>k. built_at ops counter inp held 0 built k | Err e \<Rightarrow> refused_at counter inp held 0 e | Panic \<Rightarrow> True"
proof -
  from build_cases [OF assms] obtain held where
    held: "checked_add (cb_output_reserve (ci_budget inp)) (cb_safety_margin (ci_budget inp)) = Some held"
    and valid: "validate_input ops inp = Ok ()" "validate_shape (xo_json ops) (candidate inp 0) = Ok ()"
    and run: "build_loop ops counter inp held (candidate inp 0) (report_new inp) 0 = r" by blast
  have "cl_max_count_calls (ci_limits inp) \<noteq> 0"
    using valid(1) by (auto simp: validate_input_def check_configuration_def Let_def split: if_splits)
  then have "case r of Ok built \<Rightarrow> \<exists>k. built_at ops counter inp held 0 built k | Err e \<Rightarrow> refused_at counter inp held 0 e | Panic \<Rightarrow> True"
    by (intro build_loop_finds [OF _ _ _ valid(2) run]) (simp_all add: report_new_def first_turns_def Let_def)
  with held valid(1) show ?thesis by (rule that)
qed

section \<open>The specification of a context\<close>

text \<open>
  What a host asks of a context, without the builder: which turns are kept when the \<open>n\<close> oldest
  turns outside the pins are left out, the request they give, and the tokens it takes, which are the
  four parts of the host's count, the reserve for the answer and the safety margin.
\<close>

fun kept_turns :: "turn_id list \<Rightarrow> nat \<Rightarrow> turn_id list \<Rightarrow> turn_id list" where
  "kept_turns pins n [] = []"
| "kept_turns pins n (turn # turns) =
     (if turn \<in> set pins then turn # kept_turns pins n turns
      else (case n of 0 \<Rightarrow> turn # kept_turns pins 0 turns | Suc m \<Rightarrow> kept_turns pins m turns))"

definition context_request :: "'v context_build_input \<Rightarrow> nat \<Rightarrow> 'v generation_request" where
  "context_request inp n =
     \<lparr>rg_messages = map System (ci_system inp) @
        concat (map pg_messages (filter (\<lambda>g. pg_turn_id g \<in>
          set (kept_turns (ci_pinned_turns inp) n (map ptn_turn_id (cv_turns (ci_history inp))))) (cv_groups (ci_history inp)))) @
        ci_current inp,
      rg_constraint = ci_constraint inp\<rparr>"

definition takes_tokens :: "'v context_token_counter \<Rightarrow> 'v context_build_input \<Rightarrow> 'v generation_request \<Rightarrow> nat \<Rightarrow> bool" where
  "takes_tokens counter inp request tokens \<longleftrightarrow>
     (\<exists>count. counter (ci_target inp) request = Ok count \<and>
        tokens = unat (tb_system (cc_tokens count)) + unat (tb_messages (cc_tokens count)) +
          unat (tb_constraint (cc_tokens count)) + unat (tb_template (cc_tokens count)) +
          unat (cb_output_reserve (ci_budget inp)) + unat (cb_safety_margin (ci_budget inp)))"

lemma kept_retired:
  "list_all tsel_retained ts \<Longrightarrow> \<forall>t \<in> set ts. tsel_protected t = (tsel_turn t \<in> set pins) \<Longrightarrow>
     map tsel_turn (filter tsel_retained (retire n ts)) = kept_turns pins n (map tsel_turn ts)"
proof (induction n ts rule: retire.induct)
  case (1 turns)
  then show ?case by (induction turns) auto
qed auto

lemma retire_pins:
  "\<forall>t \<in> set ts. tsel_protected t = (tsel_turn t \<in> set pins) \<Longrightarrow> t \<in> set (retire n ts) \<Longrightarrow>
     tsel_protected t = (tsel_turn t \<in> set pins)"
  by (induction n ts rule: retire.induct) (auto split: if_splits)

lemma first_turns_pins: "\<forall>t \<in> set (first_turns inp). tsel_protected t = (tsel_turn t \<in> set (ci_pinned_turns inp))"
  by (auto simp: first_turns_def turn_selection_def)

lemma first_turns_ids: "map tsel_turn (first_turns inp) = map ptn_turn_id (cv_turns (ci_history inp))"
  by (simp add: first_turns_def turn_selection_def)

lemma candidate_request: "candidate inp n = context_request inp n"
proof -
  have "map tsel_turn (filter tsel_retained (retire n (first_turns inp))) =
      kept_turns (ci_pinned_turns inp) n (map ptn_turn_id (cv_turns (ci_history inp)))"
    unfolding first_turns_ids [symmetric] by (rule kept_retired [OF first_turns_retained first_turns_pins])
  then show ?thesis unfolding candidate_def assemble_def context_request_def Let_def by simp
qed

lemma candidate_takes:
  assumes "checked_add (cb_output_reserve (ci_budget inp)) (cb_safety_margin (ci_budget inp)) = Some held"
    and "candidate_total counter inp held n = Some tot"
  shows "takes_tokens counter inp (context_request inp n) (unat tot)"
proof -
  obtain count where c: "count_candidate counter inp held (candidate inp n) = Ok (count, tot)"
    using assms(2) by (auto simp: candidate_total_def split: outcome.splits prod.splits)
  then obtain sum where k: "counter (ci_target inp) (candidate inp n) = Ok count" and
    t: "breakdown_total (cc_tokens count) = Some sum" "checked_add sum held = Some tot"
    by (auto simp: count_candidate_def and_then_eq_Ok map_err_eq_Ok ok_or_eq_Ok split: if_splits)
  have "unat sum = unat (tb_system (cc_tokens count)) + unat (tb_messages (cc_tokens count)) +
      unat (tb_constraint (cc_tokens count)) + unat (tb_template (cc_tokens count))"
    using t(1) by (auto simp: breakdown_total_def bind_eq_Some_conv checked_add_Some_iff)
  then show ?thesis
    using k t(2) assms(1) unfolding takes_tokens_def candidate_request [symmetric]
    by (intro exI [of _ count]) (simp add: checked_add_Some_iff)
qed

lemma candidate_fits_spec:
  assumes "checked_add (cb_output_reserve (ci_budget inp)) (cb_safety_margin (ci_budget inp)) = Some held"
    and "candidate_fits counter inp held n"
  shows "\<exists>tokens \<le> unat (cb_window_tokens (ci_budget inp)). takes_tokens counter inp (context_request inp n) tokens"
  using assms(2) candidate_takes [OF assms(1)]
  by (auto simp: candidate_fits_def word_le_nat_alt split: option.splits)

lemma candidate_exceeds_spec:
  assumes "checked_add (cb_output_reserve (ci_budget inp)) (cb_safety_margin (ci_budget inp)) = Some held"
    and "candidate_exceeds counter inp held n"
  shows "\<exists>tokens > unat (cb_window_tokens (ci_budget inp)). takes_tokens counter inp (context_request inp n) tokens"
  using assms(2) candidate_takes [OF assms(1)]
  by (auto simp: candidate_exceeds_def word_less_nat_alt split: option.splits)

lemma validated_pins:
  "validate_input ops inp = Ok () \<Longrightarrow> set (ci_pinned_turns inp) \<subseteq> ptn_turn_id ` set (cv_turns (ci_history inp))"
proof -
  have turns: "set ts \<subseteq> set us \<union> ptn_turn_id ` set xs" if "for_each check_turn_step xs us = Ok ts" for xs us ts
    using that by (induction xs arbitrary: us) (fastforce simp: check_turn_step_def and_then_eq_Ok split: if_splits)+
  assume "validate_input ops inp = Ok ()"
  then have "check_history inp = Ok ()" by (simp add: validate_input_def and_then_eq_Ok)
  then obtain ts where "for_each check_turn_step (cv_turns (ci_history inp)) [] = Ok ts"
    "\<forall>pin \<in> set (ci_pinned_turns inp). pin \<in> set ts"
    by (auto simp: check_history_def and_then_eq_Ok list_ex_iff split: if_splits)
  with turns [of "cv_turns (ci_history inp)" "[]" ts] show ?thesis by auto
qed

end
