(* ===== verification/ContextContent.thy ===== *)
theory ContextContent
  imports TextBounds OrderedSets ModelProtocol EventVocab
begin

text \<open>
  Bounded views of tools and of their results, \<open>crates/context/context/src/views.rs\<close> and
  \<open>content.rs\<close>: the selection of visible tools, the host's in-memory content store with its
  scopes, expiry and pages, and the projection of a result to a preview and a reference. A lock of
  the store that no panic can poison is always acquired.
\<close>

datatype view_error = VeInvalid | VeLimit | VeUnauthorized | VeUnavailable | VeConflict | VeCursor | VePoisoned

type_synonym 'a viewed = "('a, view_error) outcome"

section \<open>Visible tools\<close>

type_synonym 'v tool_selector = "'v model_tool_definition list \<Rightarrow> string list viewed"

record grouped_tool_selector =
  gs_names :: "string btree_set option"
  gs_groups :: "(string, string btree_set) btree_map"
  gs_active_groups :: "string btree_set"

definition active_group_step ::
    "grouped_tool_selector \<Rightarrow> string \<Rightarrow> string btree_set \<Rightarrow> string btree_set viewed" where
  "active_group_step s name selected =
     (case map_of (gs_groups s) name of
        None \<Rightarrow> Err VeUnauthorized
      | Some members \<Rightarrow> Ok (fold bs_insert members selected))"

definition grouped_select :: "grouped_tool_selector \<Rightarrow> 'v tool_selector" where
  "grouped_select s authorized =
     (if gs_names s = None \<and> gs_active_groups s = [] then Ok (map td_name authorized)
      else for_each (active_group_step s) (gs_active_groups s) (case gs_names s of None \<Rightarrow> [] | Some names \<Rightarrow> names))"

record tool_view_limits =
  vl_max_catalog :: usize
  vl_max_visible :: usize
  vl_max_input_bytes :: usize

definition default_view_limits :: tool_view_limits where
  "default_view_limits = \<lparr>vl_max_catalog = 1024, vl_max_visible = 64, vl_max_input_bytes = 4 * 1024 * 1024\<rparr>"

record 'v tool_view =
  vw_algorithm_version :: u16
  vw_tools :: "'v model_tool_definition list"
  vw_excluded :: "string list"

text \<open>The argument says whether the catalog \<open>serde_json\<close> writes fits the given number of bytes.\<close>

definition select_tool_view ::
    "'v json_ops \<Rightarrow> ('v model_tool_definition list \<Rightarrow> usize \<Rightarrow> bool) \<Rightarrow> 'v model_tool_definition list
       \<Rightarrow> 'v tool_selector \<Rightarrow> tool_view_limits \<Rightarrow> 'v tool_view viewed" where
  "select_tool_view js catalog_fits authorized selector limits =
     (if vl_max_catalog limits = 0 \<or> vl_max_visible limits = 0 \<or> vl_max_input_bytes limits = 0 then Err VeInvalid
      else if length authorized > vl_max_catalog limits then Err VeLimit
      else if \<not> catalog_fits authorized (vl_max_input_bytes limits) then Err VeLimit
      else
        and_then (if authorized = [] then Ok ()
                  else map_err (\<lambda>_. VeInvalid)
                    (validate_shape js \<lparr>rg_messages = [User []], rg_constraint = NativeTools authorized Auto\<rparr>)) (\<lambda>_.
        let sorted = sort_key td_name authorized in
        and_then (selector sorted) (\<lambda>selected.
        if length selected > vl_max_visible limits then Err VeLimit
        else
          let names = bs_collect selected in
          if length names \<noteq> length selected \<or>
             list_ex (\<lambda>name. \<not> list_ex (\<lambda>t. td_name t = name) sorted) names
          then Err VeUnauthorized
          else Ok \<lparr>vw_algorithm_version = 1, vw_tools = filter (\<lambda>t. td_name t \<in> set names) sorted,
                   vw_excluded = map td_name (filter (\<lambda>t. td_name t \<notin> set names) sorted)\<rparr>)))"

section \<open>The content store\<close>

record content_scope =
  sc_session_id :: session_id
  sc_task_id :: task_id
  sc_expires_at_ms :: u64

record content_reference =
  rf_store_id :: string
  rf_source_event :: event_id
  rf_scope :: content_scope
  rf_total_bytes :: usize

record content_page =
  pa_text :: string
  pa_next_offset :: "usize option"
  pa_total_bytes :: usize

record content_store_config =
  cf_store_id :: string
  cf_max_entries :: usize
  cf_max_bytes :: usize
  cf_max_content_bytes :: usize
  cf_max_page_bytes :: usize
  cf_max_ttl_ms :: u64

record content_entry =
  ce_reference :: content_reference
  ce_text :: string

type_synonym content_store = "(string, content_entry) btree_map"

definition store_id_char :: "char \<Rightarrow> bool" where
  "store_id_char c \<longleftrightarrow> (let b = of_char c :: nat in
     48 \<le> b \<and> b \<le> 57 \<or> 65 \<le> b \<and> b \<le> 90 \<or> 97 \<le> b \<and> b \<le> 122 \<or> b = 45 \<or> b = 95)"

definition memory_store_new :: "content_store_config \<Rightarrow> content_store viewed" where
  "memory_store_new config =
     (if cf_store_id config = [] \<or> length (cf_store_id config) > 64 \<or> \<not> list_all store_id_char (cf_store_id config) \<or>
         cf_max_entries config = 0 \<or> cf_max_bytes config = 0 \<or> cf_max_content_bytes config = 0 \<or>
         cf_max_page_bytes config = 0 \<or> cf_max_ttl_ms config = 0
      then Err VeInvalid else Ok [])"

text \<open>\<open>retain\<close> of the entries that have not expired.\<close>

definition purge_expired :: "u64 \<Rightarrow> content_store \<Rightarrow> content_store" where
  "purge_expired now_ms entries = filter (\<lambda>(_, e). sc_expires_at_ms (rf_scope (ce_reference e)) > now_ms) entries"

definition valid_scope :: "content_scope \<Rightarrow> u64 \<Rightarrow> bool" where
  "valid_scope scope now \<longleftrightarrow> \<not> is_blank (sc_session_id scope) \<and> \<not> is_blank (sc_task_id scope) \<and>
     length (sc_session_id scope) \<le> 1024 \<and> length (sc_task_id scope) \<le> 1024 \<and> sc_expires_at_ms scope > now"

definition put ::
    "content_store_config \<Rightarrow> content_scope \<Rightarrow> event_id \<Rightarrow> string \<Rightarrow> u64 \<Rightarrow> content_store \<Rightarrow> content_reference viewed \<times> content_store" where
  "put config scope source content now_ms entries =
     (if \<not> valid_scope scope now_ms \<or> sc_expires_at_ms scope - now_ms > cf_max_ttl_ms config \<or> is_blank source \<or>
         length source > 1024
      then (Err VeInvalid, entries)
      else if length content > cf_max_content_bytes config then (Err VeLimit, entries)
      else
        let reference = \<lparr>rf_store_id = cf_store_id config, rf_source_event = source, rf_scope = scope,
              rf_total_bytes = length content\<rparr>;
            entries = purge_expired now_ms entries in
        (case map_of entries source of
           Some entry \<Rightarrow>
             if ce_reference entry = reference \<and> ce_text entry = content then (Ok reference, entries)
             else (Err VeConflict, entries)
         | None \<Rightarrow>
             (case for_each (\<lambda>e sum. ok_or (usize_checked_add sum (length (ce_text e))) VeLimit) (bt_values entries)
                 (length content) of
                Ok bytes \<Rightarrow>
                  if length entries \<ge> cf_max_entries config \<or> bytes > cf_max_bytes config then (Err VeLimit, entries)
                  else (Ok reference, bt_insert source \<lparr>ce_reference = reference, ce_text = content\<rparr> entries)
              | Err e \<Rightarrow> (Err e, entries)
              | Panic \<Rightarrow> (Panic, entries))))"

definition boundary :: "string \<Rightarrow> usize \<Rightarrow> usize" where
  "boundary content bytes = boundary_below content (min bytes (length content))"

definition read_page ::
    "content_store_config \<Rightarrow> content_reference \<Rightarrow> content_scope \<Rightarrow> u64 \<Rightarrow> usize \<Rightarrow> usize \<Rightarrow> content_store \<Rightarrow> content_page viewed" where
  "read_page config reference scope now_ms offset max_bytes entries =
     (if \<not> valid_scope scope now_ms \<or> rf_scope reference \<noteq> scope \<or> rf_store_id reference \<noteq> cf_store_id config
      then Err VeUnavailable
      else if max_bytes = 0 \<or> max_bytes > cf_max_page_bytes config then Err VeLimit
      else
        (case map_of entries (rf_source_event reference) of
           None \<Rightarrow> Err VeUnavailable
         | Some entry \<Rightarrow>
             if ce_reference entry \<noteq> reference then Err VeUnavailable
             else if offset > length (ce_text entry) \<or> \<not> is_char_boundary (ce_text entry) offset then Err VeCursor
             else
               let bound = boundary (ce_text entry) (min (usize_saturating_add offset max_bytes) (length (ce_text entry))) in
               if bound = offset \<and> offset < length (ce_text entry) then Err VeCursor
               else Ok \<lparr>pa_text = drop offset (take bound (ce_text entry)),
                        pa_next_offset = (if bound < length (ce_text entry) then Some bound else None),
                        pa_total_bytes = length (ce_text entry)\<rparr>))"

section \<open>Views of results\<close>

datatype result_selection = Inline | PrefixBytes usize

type_synonym tool_result_policy = "string \<Rightarrow> result_selection viewed"

definition bounded_policy :: "usize \<Rightarrow> usize \<Rightarrow> tool_result_policy" where
  "bounded_policy inline_bytes preview_bytes content =
     (if inline_bytes = 0 \<or> preview_bytes > inline_bytes then Err VeInvalid
      else Ok (if length content \<le> inline_bytes then Inline else PrefixBytes preview_bytes))"

record tool_content_view =
  tv_text :: string
  tv_total_bytes :: usize
  tv_truncated :: bool
  tv_reference :: "content_reference option"

datatype tool_outcome_view =
    ViewSucceeded tool_content_view
  | ViewFailed tool_failure_category string tool_content_view bool

record tool_result_view =
  rw_algorithm_version :: u16
  rw_source_event :: event_id
  rw_outcome :: tool_outcome_view

fun outcome_text :: "tool_recorded_outcome \<Rightarrow> string" where
  "outcome_text (ToolSucceeded out) = out"
| "outcome_text (ToolFailed _ _ message _) = message"

fun outcome_view :: "tool_recorded_outcome \<Rightarrow> tool_content_view \<Rightarrow> tool_outcome_view" where
  "outcome_view (ToolSucceeded _) content = ViewSucceeded content"
| "outcome_view (ToolFailed category code _ retryable) content = ViewFailed category code content retryable"

text \<open>The store is the \<open>put\<close> of any \<open>ContentStore\<close>.\<close>

definition project_tool_result ::
    "tool_recorded_outcome \<Rightarrow> event_id \<Rightarrow> content_scope \<Rightarrow> u64 \<Rightarrow> tool_result_policy
       \<Rightarrow> (content_scope \<Rightarrow> event_id \<Rightarrow> string \<Rightarrow> u64 \<Rightarrow> 's \<Rightarrow> content_reference viewed \<times> 's) \<Rightarrow> usize \<Rightarrow> 's
       \<Rightarrow> tool_result_view viewed \<times> 's" where
  "project_tool_result result source scope now_ms policy store max_preview_bytes s =
     (if max_preview_bytes = 0 \<or> \<not> valid_scope scope now_ms \<or> is_blank source then (Err VeInvalid, s)
      else
        let content = outcome_text result in
        (case policy content of
           Err e \<Rightarrow> (Err e, s)
         | Panic \<Rightarrow> (Panic, s)
         | Ok selection \<Rightarrow>
             let bytes = (case selection of Inline \<Rightarrow> length content | PrefixBytes n \<Rightarrow> min n (length content)) in
             if bytes > max_preview_bytes then (Err VeLimit, s)
             else
               let bound = boundary content bytes; truncated = bound < length content;
                   view = (\<lambda>reference. \<lparr>rw_algorithm_version = 1, rw_source_event = source,
                     rw_outcome = outcome_view result \<lparr>tv_text = take bound content, tv_total_bytes = length content,
                       tv_truncated = truncated, tv_reference = reference\<rparr>\<rparr>) in
               if \<not> truncated then (Ok (view None), s)
               else
                 (case store scope source content now_ms s of
                    (Err e, s) \<Rightarrow> (Err e, s)
                  | (Panic, s) \<Rightarrow> (Panic, s)
                  | (Ok reference, s) \<Rightarrow>
                      if rf_scope reference \<noteq> scope \<or> rf_source_event reference \<noteq> source \<or>
                         rf_total_bytes reference \<noteq> length content \<or> rf_store_id reference = []
                      then (Err VeConflict, s) else (Ok (view (Some reference)), s))))"

end
