(* ===== verification/ContextProps.thy ===== *)
theory ContextProps
  imports ContextBuilderInv ContextContent
begin

text \<open>
  What the context crate promises: a projection accounts for every event of the log and reads as a
  conversation, the builder returns the first candidate that fits, and pages reassemble stored text.
\<close>

section \<open>Projections\<close>

lemma position_first:
  "n < length xs \<Longrightarrow> P (xs ! n) \<Longrightarrow> (\<And>j. j < n \<Longrightarrow> \<not> P (xs ! j)) \<Longrightarrow> position P xs = Some n"
proof (induction xs arbitrary: n)
  case (Cons x xs)
  show ?case
  proof (cases n)
    case (Suc m)
    have "position P xs = Some m"
    proof (rule Cons.IH)
      show "\<not> P (xs ! j)" if "j < m" for j using Cons.prems(3) [of "Suc j"] Suc that by simp
    qed (use Cons.prems Suc in simp_all)
    moreover have "\<not> P x" using Cons.prems(3) [of 0] Suc by simp
    ultimately show ?thesis using Suc by simp
  qed (use Cons.prems in simp)
qed simp

lemma position_turn:
  assumes "distinct (map ptn_turn_id turns)" and "n < length turns"
  shows "position (\<lambda>turn. ptn_turn_id turn = ptn_turn_id (turns ! n)) turns = Some n"
proof (rule position_first [OF assms(2) refl])
  fix j
  assume "j < n"
  then show "ptn_turn_id (turns ! j) \<noteq> ptn_turn_id (turns ! n)"
    using nth_eq_iff_index_eq [OF assms(1), of j n] assms(2) by simp
qed

lemma valid_group_from: "group_from E turn g \<Longrightarrow> valid_group (pg_kind g) (pg_messages g)"
  by (cases "pg_kind g") (auto simp: group_from_def)

lemma check_turn_groups:
  assumes "distinct (map ptn_turn_id turns)" and "n < length turns"
  shows "turn_groups E (turns ! n) gs \<Longrightarrow> l \<le> n \<Longrightarrow> \<exists>l'. for_each (check_group_step turns) gs l = Ok l' \<and> l' \<le> n"
proof (induction gs arbitrary: l)
  case (Cons g gs)
  then have g: "group_from E (ptn_turn_id (turns ! n)) g" and gs: "turn_groups E (turns ! n) gs"
    by (simp_all add: turn_groups_def)
  then have "check_group_step turns g l = Ok n"
    using position_turn [OF assms] valid_group_from [OF g] Cons.prems(2) by (simp add: check_group_step_def group_from_def)
  with Cons.IH [OF gs, of n] show ?case by simp
qed simp

lemma check_groups:
  assumes "distinct (map ptn_turn_id (pre @ ts))" and "list_all2 (turn_groups E) ts gss"
  shows "l \<le> length pre \<Longrightarrow> \<exists>l'. for_each (check_group_step (pre @ ts)) (concat gss) l = Ok l'"
  using assms(2,1)
proof (induction ts gss arbitrary: pre l rule: list_all2_induct)
  case (Cons t ts gs gss)
  from check_turn_groups [OF Cons.prems(2), of "length pre" E gs l] Cons.hyps Cons.prems
  obtain m where m: "for_each (check_group_step (pre @ t # ts)) gs l = Ok m" "m \<le> length pre" by auto
  from Cons.IH [of m "pre @ [t]"] m Cons.prems show ?case by (auto simp: for_each_append)
qed simp

lemma check_turns:
  "distinct (map ptn_turn_id ts) \<Longrightarrow> set (map ptn_turn_id ts) \<inter> set ids = {} \<Longrightarrow>
     (\<And>t. t \<in> set ts \<Longrightarrow> \<not> is_blank (ptn_turn_id t) \<and> ptn_state t \<noteq> PtOpen) \<Longrightarrow>
     for_each check_turn_step ts ids = Ok (rev (map ptn_turn_id ts) @ ids)"
  by (induction ts arbitrary: ids) (auto simp: check_turn_step_def)

text \<open>C34: A projection loses nothing: every event of the log is, exactly once, either a source of one
  group of messages or an omitted event with its reason.\<close>

theorem projections_lose_nothing:
  assumes "project ops session events config = Ok p"
  shows "mset (map se_event_id events) =
      mset (concat (map pg_source_events (cv_groups p)) @ map oe_event_id (cv_omitted p)) \<and>
    distinct (concat (map pg_source_events (cv_groups p)) @ map oe_event_id (cv_omitted p))"
proof -
  have m: "mset (map se_event_id events) =
      mset (concat (map pg_source_events (cv_groups p)) @ map oe_event_id (cv_omitted p))"
    using project_Ok(1) [OF assms] by simp
  obtain u where "validate_physical_log session events = Ok u"
    using assms by (auto simp: project_def split: if_splits elim: map_err.elims)
  then have "distinct (map se_event_id events)" by (simp add: validate_physical_log_Ok physical_log_def)
  with m show ?thesis by (metis mset_eq_imp_distinct_iff)
qed

definition context_sample_ops :: "unit projection_ops" where
  "context_sample_ops = \<lparr>po_event_chunks = (\<lambda>_. Some [1]), po_outcome_text = (\<lambda>_. ''r'')\<rparr>"

definition context_sample_config :: projection_config where
  "context_sample_config = \<lparr>pc_legacy_replies = LegacyReject, pc_max_events = 8, pc_max_input_bytes = 8, pc_max_messages = 8\<rparr>"

definition context_sample_event :: "string \<Rightarrow> u64 \<Rightarrow> unit session_event_kind \<Rightarrow> unit session_event" where
  "context_sample_event i seq kind = \<lparr>se_event_id = i, se_session_id = ''s'', se_turn_id = ''t'',
     se_generation_id = None, se_message_id = Some ''m'', se_seq = seq, se_kind = kind\<rparr>"

definition context_sample_log :: "unit session_event list" where
  "context_sample_log =
     [context_sample_event ''a'' 0 (UserMessage ''hi''),
      context_sample_event ''b'' 1 (ToolCallEvent
        \<lparr>tl_operation = None, tl_action = None, tl_id = ''c'', tl_name = ''n'', tl_arguments = ()\<rparr>),
      context_sample_event ''d'' 2 (ToolResultEvent \<lparr>tres_call_id = ''c'', tres_outcome = ToolSucceeded ''r''\<rparr>),
      context_sample_event ''e'' 3 (AssistantMessage AssistantV1 ''ok''),
      context_sample_event ''f'' 4 (Done DoneCompleted None)]"

definition context_sample_projection :: "unit conversation_projection" where
  "context_sample_projection =
     \<lparr>cv_algorithm_version = 1, cv_session_id = ''s'', cv_source_tail = Some ''f'', cv_source_event_count = 5,
      cv_config = context_sample_config,
      cv_groups =
        [\<lparr>pg_turn_id = ''t'', pg_kind = GroupUser, pg_source_events = [''a''], pg_messages = [User ''hi'']\<rparr>,
         \<lparr>pg_turn_id = ''t'', pg_kind = GroupToolExchange, pg_source_events = [''b'', ''d''],
          pg_messages = [Assistant None [\<lparr>tc_id = ''jw_tool_1'', tc_name = ''n'', tc_arguments = ()\<rparr>], Tool ''jw_tool_1'' ''r'']\<rparr>,
         \<lparr>pg_turn_id = ''t'', pg_kind = GroupAssistant, pg_source_events = [''e''], pg_messages = [Assistant (Some ''ok'') []]\<rparr>],
      cv_turns = [\<lparr>ptn_turn_id = ''t'', ptn_state = PtCompleted, ptn_terminal_event = Some ''f'',
        ptn_missing_complete_reply = False\<rparr>],
      cv_omitted = [\<lparr>oe_event_id = ''f'', oe_seq = 4, oe_reason = OmAudit\<rparr>]\<rparr>"

lemma usize_sum_code [code]:
  "usize_checked_add a b = (if int a + int b \<le> 2 ^ 64 - 1 then Some (a + b) else None)"
  by (simp add: usize_checked_add_def usize_max_def)

lemma context_sample_projects:
  "project context_sample_ops ''s'' context_sample_log context_sample_config = Ok context_sample_projection"
  by code_simp

lemma projections_lose_nothing_witness:
  "mset (map se_event_id context_sample_log) =
      mset (concat (map pg_source_events (cv_groups context_sample_projection)) @
        map oe_event_id (cv_omitted context_sample_projection)) \<and>
    distinct (concat (map pg_source_events (cv_groups context_sample_projection)) @
      map oe_event_id (cv_omitted context_sample_projection))"
  by (rule projections_lose_nothing [OF context_sample_projects])

text \<open>C35: A projection that has a message passes the check of a model request's messages: every tool
  call is answered before the next message and every result has its call, once the recorded
  arguments are objects.\<close>

theorem projections_are_conversations:
  assumes "project ops session events config = Ok p" and "projection_messages p \<noteq> []"
    and "\<And>e c. e \<in> set events \<Longrightarrow> se_kind e = ToolCallEvent c \<Longrightarrow> js_is_object js (tl_arguments c)"
  shows "validate_messages js (projection_messages p) = Ok ()"
proof -
  obtain gss where "cv_groups p = concat gss" "list_all2 (turn_groups (set events)) (cv_turns p) gss"
    using project_Ok(2) [OF assms(1)] by blast
  then have "for_each (message_step js) (enumerate 0 (projection_messages p)) [] = Ok []"
    unfolding projection_messages_def using assms(3) by (metis messages_scan blocks_groups)
  with assms(2) show ?thesis by (simp add: validate_messages_def)
qed

definition context_sample_json :: "unit json_ops" where
  "context_sample_json = \<lparr>js_is_object = (\<lambda>_. True), js_is_boolean = (\<lambda>_. False), js_from_str = (\<lambda>_. None)\<rparr>"

lemma projections_are_conversations_witness:
  "validate_messages context_sample_json (projection_messages context_sample_projection) = Ok ()"
  by (rule projections_are_conversations [OF context_sample_projects])
    (simp_all add: projection_messages_def context_sample_projection_def context_sample_json_def)

text \<open>Projecting never panics, for any log and any configuration: no index and no match of
  \<open>project_turn\<close> that the code takes for unreachable is reached.\<close>

theorem projecting_never_panics: "project ops session events config \<noteq> Panic"
  by (rule project_neq_Panic)

text \<open>The history a projection returns is one the builder takes: when its last turn is closed,
  the checks of its turns and groups pass with every duplicate-free choice of pins among its turns.\<close>

theorem projections_are_buildable:
  assumes "project ops session events config = Ok p"
    and "cv_turns p \<noteq> [] \<Longrightarrow> ptn_state (last (cv_turns p)) \<noteq> PtOpen"
    and "ci_history inp = p" and "distinct (ci_pinned_turns inp)"
    and "set (ci_pinned_turns inp) \<subseteq> ptn_turn_id ` set (cv_turns p)"
  shows "check_history inp = Ok ()"
proof -
  note P = project_Ok [OF assms(1)]
  have "ptn_state t \<noteq> PtOpen" if "t \<in> set (cv_turns p)" for t
  proof (cases "t \<in> set (butlast (cv_turns p))")
    case False
    with that have "t = last (cv_turns p)" by (metis append_butlast_last_id empty_iff empty_set in_set_conv_decomp
      rotate1.simps(2) set_ConsD set_rotate1)
    moreover have "cv_turns p \<noteq> []" using that by auto
    ultimately show ?thesis using assms(2) by simp
  qed (rule P(5))
  with P(3,4) have turns: "for_each check_turn_step (cv_turns p) [] = Ok (rev (map ptn_turn_id (cv_turns p)))"
    by (subst check_turns) auto
  obtain gss where "cv_groups p = concat gss" "list_all2 (turn_groups (set events)) (cv_turns p) gss" using P(2) by blast
  then obtain l where "for_each (check_group_step (cv_turns p)) (cv_groups p) 0 = Ok l"
    using check_groups [of "[]" "cv_turns p" "set events" gss 0] P(3) by auto
  with turns show ?thesis using assms(3-5) by (auto simp: check_history_def list_ex_iff)
qed

definition context_sample_target :: context_target where
  "context_sample_target = \<lparr>ct_model = ''m'', ct_template_revision = ''r''\<rparr>"

definition context_sample_budget :: "u64 \<Rightarrow> context_budget" where
  "context_sample_budget window = \<lparr>cb_window_tokens = window, cb_output_reserve = 2, cb_output_evidence = VerifiedUpperBound,
     cb_safety_margin = 1, cb_mode = Hard\<rparr>"

definition context_sample_input :: "unit conversation_projection \<Rightarrow> u64 \<Rightarrow> turn_id list \<Rightarrow> unit context_build_input" where
  "context_sample_input history window pins = \<lparr>ci_history = history, ci_system = [''s''], ci_current = [User ''now''],
     ci_constraint = TextOutput, ci_pinned_turns = pins, ci_state_version = None, ci_target = context_sample_target,
     ci_budget = context_sample_budget window,
     ci_limits = \<lparr>cl_max_input_bytes = 8, cl_max_groups = 8, cl_max_messages = 8, cl_max_count_calls = 4\<rparr>\<rparr>"

lemma projections_are_buildable_witness:
  "check_history (context_sample_input context_sample_projection 9 [''t'']) = Ok ()"
  by (rule projections_are_buildable [OF context_sample_projects])
    (simp_all add: context_sample_input_def context_sample_projection_def)

section \<open>Built contexts\<close>

text \<open>C36: What \<open>build\<close> returns is the largest candidate that fits. The candidates are numbered by how
  many of the oldest turns outside the pins they leave out; the request is the candidate of some
  number, the tokens the host counts for it, in its four parts, and the output reserve and the safety
  margin fit the window together, for every candidate that leaves out fewer turns they exceed the
  window, and the request passes the shape check.\<close>

theorem built_contexts_are_largest:
  assumes "build ops counter inp = Ok built"
  shows "\<exists>k. bc_request built = context_request inp k \<and>
    (\<exists>tokens \<le> unat (cb_window_tokens (ci_budget inp)). takes_tokens counter inp (context_request inp k) tokens) \<and>
    (\<forall>j < k. \<exists>tokens > unat (cb_window_tokens (ci_budget inp)). takes_tokens counter inp (context_request inp j) tokens) \<and>
    k < cl_max_count_calls (ci_limits inp) \<and> validate_shape (xo_json ops) (bc_request built) = Ok ()"
proof -
  obtain held where h: "checked_add (cb_output_reserve (ci_budget inp)) (cb_safety_margin (ci_budget inp)) = Some held"
    and r: "case outcome.Ok built of Ok built \<Rightarrow> \<exists>k. built_at ops counter inp held 0 built k
      | Err e \<Rightarrow> refused_at counter inp held 0 e | Panic \<Rightarrow> True"
    by (rule build_result [OF assms]) auto
  from r obtain k where k: "built_at ops counter inp held 0 built k" by auto
  then have "\<forall>j < k. \<exists>tokens > unat (cb_window_tokens (ci_budget inp)). takes_tokens counter inp (context_request inp j) tokens"
    using candidate_exceeds_spec [OF h] by (simp add: built_at_def)
  moreover have "\<exists>tokens \<le> unat (cb_window_tokens (ci_budget inp)). takes_tokens counter inp (context_request inp k) tokens"
    using candidate_fits_spec [OF h] k by (simp add: built_at_def)
  ultimately show ?thesis using k by (intro exI [of _ k]) (simp add: built_at_def candidate_request)
qed

text \<open>The count of a host that takes a token for each message.\<close>

definition context_sample_counter :: "unit context_token_counter" where
  "context_sample_counter target request = Ok \<lparr>cc_target = target, cc_method = ''messages'', cc_evidence = VerifiedUpperBound,
     cc_tokens = \<lparr>tb_system = 0, tb_messages = of_nat (length (rg_messages request)), tb_constraint = 0, tb_template = 0\<rparr>\<rparr>"

definition context_sample_build_ops :: "unit context_ops" where
  "context_sample_build_ops = \<lparr>xo_json = context_sample_json, xo_message_chunks = (\<lambda>_. Some [1]),
     xo_constraint_chunks = (\<lambda>_. Some [1]), xo_input_chunks = (\<lambda>_. Some [4])\<rparr>"

text \<open>A window of six leaves three tokens, so the old turn goes; one of nine holds everything.\<close>

definition context_sample_built :: "u64 \<Rightarrow> unit built_context" where
  "context_sample_built window =
     (case build context_sample_build_ops context_sample_counter (context_sample_input context_sample_projection window []) of
        Ok built \<Rightarrow> built)"

lemma context_sample_builds:
  "build context_sample_build_ops context_sample_counter (context_sample_input context_sample_projection 6 []) =
     Ok (context_sample_built 6)"
  by code_simp

lemma built_contexts_are_largest_witness:
  "\<exists>k. bc_request (context_sample_built 6) = context_request (context_sample_input context_sample_projection 6 []) k \<and>
    (\<exists>tokens \<le> 6. takes_tokens context_sample_counter (context_sample_input context_sample_projection 6 [])
      (context_request (context_sample_input context_sample_projection 6 []) k) tokens)"
proof -
  have window: "unat (cb_window_tokens (ci_budget (context_sample_input context_sample_projection 6 []))) = 6"
    by (simp add: context_sample_input_def context_sample_budget_def)
  from built_contexts_are_largest [OF context_sample_builds] show ?thesis unfolding window by blast
qed

text \<open>C37: A built context leaves out whole turns, oldest first, and never one the host pinned. Its
  messages are the system's, those of every group of a retained turn in the order of the history, and
  the current ones. The report lists every turn of the history in order and marks as protected
  exactly the turns the host pinned; each of these is a turn of the history, is retained, and the
  messages of its groups are in the request; and before a turn left out every retained one is pinned.\<close>

theorem built_contexts_keep_pins:
  assumes "build ops counter inp = Ok built"
  shows "rg_messages (bc_request built) = map System (ci_system inp) @
      concat (map pg_messages (filter (\<lambda>g. \<exists>t \<in> set (cr_turns (bc_report built)). tsel_turn t = pg_turn_id g \<and> tsel_retained t)
        (cv_groups (ci_history inp)))) @ ci_current inp \<and>
    map tsel_turn (cr_turns (bc_report built)) = map ptn_turn_id (cv_turns (ci_history inp)) \<and>
    (\<forall>t \<in> set (cr_turns (bc_report built)). tsel_protected t \<longleftrightarrow> tsel_turn t \<in> set (ci_pinned_turns inp)) \<and>
    (\<forall>pin \<in> set (ci_pinned_turns inp). \<exists>t \<in> set (cr_turns (bc_report built)). tsel_turn t = pin \<and> tsel_retained t) \<and>
    (\<forall>t \<in> set (cr_turns (bc_report built)). tsel_turn t \<in> set (ci_pinned_turns inp) \<longrightarrow> tsel_retained t) \<and>
    (\<forall>g \<in> set (cv_groups (ci_history inp)). pg_turn_id g \<in> set (ci_pinned_turns inp) \<longrightarrow>
      set (pg_messages g) \<subseteq> set (rg_messages (bc_request built))) \<and>
    (\<forall>i j. i < j \<and> j < length (cr_turns (bc_report built)) \<and> \<not> tsel_retained (cr_turns (bc_report built) ! j) \<and>
      tsel_retained (cr_turns (bc_report built) ! i) \<longrightarrow> tsel_turn (cr_turns (bc_report built) ! i) \<in> set (ci_pinned_turns inp))"
proof -
  obtain held where valid: "validate_input ops inp = Ok ()"
    and r: "case outcome.Ok built of Ok built \<Rightarrow> \<exists>k. built_at ops counter inp held 0 built k
      | Err e \<Rightarrow> refused_at counter inp held 0 e | Panic \<Rightarrow> True"
    by (rule build_result [OF assms]) auto
  from r obtain k where k: "bc_request built = candidate inp k" "cr_turns (bc_report built) = retire k (first_turns inp)"
    by (auto simp: built_at_def)
  let ?turns = "retire k (first_turns inp)"
  let ?kept = "\<lambda>g. \<exists>t \<in> set ?turns. tsel_turn t = pg_turn_id g \<and> tsel_retained t"
  have msgs: "rg_messages (candidate inp k) = map System (ci_system inp) @
      concat (map pg_messages (filter ?kept (cv_groups (ci_history inp)))) @ ci_current inp"
    unfolding candidate_def assemble_def Let_def
    by (simp, intro arg_cong [where f = concat] arg_cong [where f = "map pg_messages"] filter_cong refl) force
  have ids: "map tsel_turn ?turns = map ptn_turn_id (cv_turns (ci_history inp))" by (simp add: first_turns_ids)
  have pins: "tsel_protected t = (tsel_turn t \<in> set (ci_pinned_turns inp))" if "t \<in> set ?turns" for t
    using retire_pins [OF first_turns_pins that] .
  have keep: "tsel_retained t" if "t \<in> set ?turns" "tsel_turn t \<in> set (ci_pinned_turns inp)" for t
    using retire_protected [OF first_turns_retained that(1)] pins [OF that(1)] that(2) by simp
  have there: "\<exists>t \<in> set ?turns. tsel_turn t = pin \<and> tsel_retained t" if "pin \<in> set (ci_pinned_turns inp)" for pin
  proof -
    have "pin \<in> set (map tsel_turn ?turns)" unfolding ids using validated_pins [OF valid] that by auto
    then obtain t where "t \<in> set ?turns" "tsel_turn t = pin" unfolding set_map by blast
    with keep [of t] that show ?thesis by blast
  qed
  have "set (pg_messages g) \<subseteq> set (rg_messages (candidate inp k))"
    if "g \<in> set (cv_groups (ci_history inp))" "pg_turn_id g \<in> set (ci_pinned_turns inp)" for g
    using there [OF that(2)] that(1) unfolding msgs by auto
  moreover have "tsel_turn (?turns ! i) \<in> set (ci_pinned_turns inp)"
    if "i < j" "j < length ?turns" "\<not> tsel_retained (?turns ! j)" "tsel_retained (?turns ! i)" for i j
    using retire_oldest_first [OF first_turns_retained that(1) _ that(3,4)] that(1,2) pins [of "?turns ! i"] by simp
  ultimately show ?thesis unfolding k(1,2) using msgs ids pins keep there by blast
qed

text \<open>Two old turns, of which the oldest is pinned: in a window of six only that one can stay.\<close>

definition context_pinned_projection :: "unit conversation_projection" where
  "context_pinned_projection = context_sample_projection\<lparr>
     cv_turns := [\<lparr>ptn_turn_id = ''t'', ptn_state = PtCompleted, ptn_terminal_event = Some ''f'', ptn_missing_complete_reply = False\<rparr>,
       \<lparr>ptn_turn_id = ''u'', ptn_state = PtCompleted, ptn_terminal_event = Some ''g'', ptn_missing_complete_reply = False\<rparr>],
     cv_groups :=
       [\<lparr>pg_turn_id = ''t'', pg_kind = GroupUser, pg_source_events = [''a''], pg_messages = [User ''old'']\<rparr>,
        \<lparr>pg_turn_id = ''u'', pg_kind = GroupUser, pg_source_events = [''b''], pg_messages = [User ''newer'']\<rparr>]\<rparr>"

definition context_pinned_built :: "unit built_context" where
  "context_pinned_built =
     (case build context_sample_build_ops context_sample_counter (context_sample_input context_pinned_projection 6 [''t'']) of
        Ok built \<Rightarrow> built)"

lemma context_pinned_builds:
  "build context_sample_build_ops context_sample_counter (context_sample_input context_pinned_projection 6 [''t'']) =
     Ok context_pinned_built"
  by code_simp

lemma built_contexts_keep_pins_witness:
  "(\<exists>t \<in> set (cr_turns (bc_report context_pinned_built)). tsel_turn t = ''t'' \<and> tsel_retained t) \<and>
   User ''old'' \<in> set (rg_messages (bc_request context_pinned_built)) \<and>
   length (rg_messages (bc_request context_pinned_built)) = 3"
proof -
  have "length (rg_messages (bc_request context_pinned_built)) = 3" by code_simp
  with built_contexts_keep_pins [OF context_pinned_builds] show ?thesis
    by (simp add: context_sample_input_def context_pinned_projection_def)
qed

text \<open>A refusal for size is real. When \<open>build\<close> answers that nothing fits, every candidate exceeds
  the window, down to the one that keeps the pinned turns only; when it answers that its counting
  calls are used up, every candidate it could count exceeds it.\<close>

theorem refused_contexts_exceed:
  assumes "build ops counter inp = Err e" and "e = CbDoesNotFit report \<or> e = CbCountLimit report"
    and "j < (if e = CbDoesNotFit report then Suc (droppable (first_turns inp)) else cl_max_count_calls (ci_limits inp))"
  shows "\<exists>tokens > unat (cb_window_tokens (ci_budget inp)). takes_tokens counter inp (context_request inp j) tokens"
proof -
  obtain held where h: "checked_add (cb_output_reserve (ci_budget inp)) (cb_safety_margin (ci_budget inp)) = Some held"
    and r: "case Err e of Ok built \<Rightarrow> \<exists>k. built_at ops counter inp held 0 built k
      | Err e \<Rightarrow> refused_at counter inp held 0 e | Panic \<Rightarrow> True"
    by (rule build_result [OF assms(1)]) (use assms(2) in auto)
  from r have "candidate_exceeds counter inp held j" using assms(2,3) by (auto simp: refused_at_def)
  then show ?thesis by (rule candidate_exceeds_spec [OF h])
qed

definition context_sample_refused :: context_build_report where
  "context_sample_refused =
     (case build context_sample_build_ops context_sample_counter (context_sample_input context_sample_projection 6 [''t'']) of
        Err (CbDoesNotFit report) \<Rightarrow> report)"

lemma context_sample_refuses:
  "build context_sample_build_ops context_sample_counter (context_sample_input context_sample_projection 6 [''t'']) =
     Err (CbDoesNotFit context_sample_refused)"
  by code_simp

lemma refused_contexts_exceed_witness:
  "\<exists>tokens > 6. takes_tokens context_sample_counter (context_sample_input context_sample_projection 6 [''t''])
    (context_request (context_sample_input context_sample_projection 6 [''t'']) 0) tokens"
proof -
  have window: "unat (cb_window_tokens (ci_budget (context_sample_input context_sample_projection 6 [''t'']))) = 6"
    by (simp add: context_sample_input_def context_sample_budget_def)
  from refused_contexts_exceed [OF context_sample_refuses, of context_sample_refused 0] show ?thesis
    unfolding window by simp
qed

section \<open>Stored content\<close>

text \<open>Reading a text page by page, each from the offset the last one gave, and a host's later puts.\<close>

fun read_pages ::
    "content_store_config \<Rightarrow> content_reference \<Rightarrow> content_scope \<Rightarrow> u64 \<Rightarrow> usize \<Rightarrow> content_store \<Rightarrow> nat \<Rightarrow> usize \<Rightarrow> string viewed" where
  "read_pages config reference scope now max_bytes entries 0 offset = Err VeCursor"
| "read_pages config reference scope now max_bytes entries (Suc n) offset =
     and_then (read_page config reference scope now offset max_bytes entries) (\<lambda>page.
     (case pa_next_offset page of
        None \<Rightarrow> Ok (pa_text page)
      | Some following \<Rightarrow>
          and_then (read_pages config reference scope now max_bytes entries n following) (\<lambda>rest. Ok (pa_text page @ rest))))"

definition put_later ::
    "content_store_config \<Rightarrow> content_scope \<times> event_id \<times> string \<times> u64 \<Rightarrow> content_store \<Rightarrow> content_store" where
  "put_later config = (\<lambda>(scope, source, content, now) entries. snd (put config scope source content now entries))"

lemma map_of_purge:
  "map_of entries k = Some e \<Longrightarrow> now < sc_expires_at_ms (rf_scope (ce_reference e)) \<Longrightarrow>
     map_of (purge_expired now entries) k = Some e"
  unfolding purge_expired_def by (induction entries) (auto split: if_splits)

lemma put_keeps:
  assumes "map_of entries k = Some e" and "now < sc_expires_at_ms (rf_scope (ce_reference e))"
  shows "map_of (snd (put config scope source content now entries)) k = Some e"
proof -
  have p: "map_of (purge_expired now entries) k = Some e" using assms by (rule map_of_purge)
  then have "map_of (purge_expired now entries) source = None \<Longrightarrow> source \<noteq> k" by auto
  with p assms(1) show ?thesis by (auto simp: put_def Let_def split: option.splits outcome.splits)
qed

lemma puts_keep:
  "map_of entries k = Some e \<Longrightarrow> list_all (\<lambda>(_, _, _, now). now < sc_expires_at_ms (rf_scope (ce_reference e))) puts \<Longrightarrow>
     map_of (fold (put_later config) puts entries) k = Some e"
  by (induction puts arbitrary: entries) (auto simp: put_later_def intro: put_keeps)

lemma put_stores:
  assumes "put config scope source content now entries = (Ok reference, entries')"
  shows "\<exists>e. map_of entries' source = Some e \<and> ce_reference e = reference \<and> ce_text e = content"
    and "rf_scope reference = scope" and "rf_store_id reference = cf_store_id config" and "rf_source_event reference = source"
    and "\<And>now'. now' < sc_expires_at_ms scope \<Longrightarrow> valid_scope scope now'"
proof -
  have r: "reference = \<lparr>rf_store_id = cf_store_id config, rf_source_event = source, rf_scope = scope, rf_total_bytes = length content\<rparr>"
    and v: "valid_scope scope now"
    using assms by (auto simp: put_def Let_def split: if_splits option.splits outcome.splits)
  show "\<exists>e. map_of entries' source = Some e \<and> ce_reference e = reference \<and> ce_text e = content"
    using assms by (auto simp: put_def Let_def split: if_splits option.splits outcome.splits)
  show "rf_scope reference = scope" "rf_store_id reference = cf_store_id config" "rf_source_event reference = source"
    by (simp_all add: r)
  show "valid_scope scope now'" if "now' < sc_expires_at_ms scope" for now' using v that by (simp add: valid_scope_def)
qed

lemma boundary_at: "n \<le> length s \<Longrightarrow> boundary s n = boundary_below s n"
  by (simp add: boundary_def)

text \<open>A page starts where it is asked to and ends at a later boundary, no further than its size.\<close>

lemma read_page_step:
  assumes "map_of entries (rf_source_event reference) = Some e" and "ce_reference e = reference" and "ce_text e = content"
    and "valid_scope scope now" and "rf_scope reference = scope" and "rf_store_id reference = cf_store_id config"
    and "4 \<le> max_bytes" and "max_bytes \<le> cf_max_page_bytes config" and "valid_utf8 content" and "length content \<le> usize_max"
    and "offset \<le> length content" and "is_char_boundary content offset"
  obtains bound where "offset \<le> bound" "offset < length content \<longrightarrow> offset < bound" "bound \<le> length content"
    "is_char_boundary content bound" "bound \<le> offset + max_bytes"
    "read_page config reference scope now offset max_bytes entries = Ok \<lparr>pa_text = drop offset (take bound content),
       pa_next_offset = (if bound < length content then Some bound else None), pa_total_bytes = length content\<rparr>"
proof
  let ?limit = "min (usize_saturating_add offset max_bytes) (length content)"
  let ?bound = "boundary content ?limit"
  have le: "?limit \<le> length content" by simp
  have l: "?limit = min (offset + max_bytes) (length content)"
    using assms(10) by (simp add: usize_saturating_add_def min_def)
  note bound = boundary_at [OF le]
  show b: "offset \<le> ?bound" unfolding bound
    using assms(11,12) by (intro boundary_below_greatest) (simp_all add: l)
  have less: "offset < ?bound" if short: "offset < length content"
  proof -
    obtain j where j: "offset < j" "j \<le> offset + 4" "j \<le> length content" "is_char_boundary content j"
      using next_boundary [OF assms(9) short assms(12)] by blast
    have "j \<le> ?bound" unfolding bound using j assms(7) by (intro boundary_below_greatest) (simp_all add: l)
    with j show ?thesis by simp
  qed
  show "offset < length content \<longrightarrow> offset < ?bound" using less by blast
  show "?bound \<le> length content" "?bound \<le> offset + max_bytes"
    unfolding bound using boundary_below_le [of content ?limit] by (simp_all add: l)
  show "is_char_boundary content ?bound" unfolding bound by (rule boundary_below_boundary)
  show "read_page config reference scope now offset max_bytes entries = Ok \<lparr>pa_text = drop offset (take ?bound content),
       pa_next_offset = (if ?bound < length content then Some ?bound else None), pa_total_bytes = length content\<rparr>"
  proof -
    have "\<not> (?bound = offset \<and> offset < length content)" using less by fastforce
    then show ?thesis using assms(1-8,11,12) unfolding read_page_def Let_def by simp
  qed
qed

lemma read_pages_rest:
  assumes "map_of entries (rf_source_event reference) = Some e" and "ce_reference e = reference" and "ce_text e = content"
    and "valid_scope scope now" and "rf_scope reference = scope" and "rf_store_id reference = cf_store_id config"
    and "4 \<le> max_bytes" and "max_bytes \<le> cf_max_page_bytes config" and "valid_utf8 content" and "length content \<le> usize_max"
  shows "offset \<le> length content \<Longrightarrow> is_char_boundary content offset \<Longrightarrow> length content - offset < n \<Longrightarrow>
     read_pages config reference scope now max_bytes entries n offset = Ok (drop offset content)"
proof (induction n arbitrary: offset)
  case (Suc n)
  obtain bound where b: "offset \<le> bound" "offset < length content \<longrightarrow> offset < bound" "bound \<le> length content"
    "is_char_boundary content bound" "bound \<le> offset + max_bytes"
    and page: "read_page config reference scope now offset max_bytes entries = Ok \<lparr>pa_text = drop offset (take bound content),
       pa_next_offset = (if bound < length content then Some bound else None), pa_total_bytes = length content\<rparr>"
    by (rule read_page_step [OF assms Suc.prems(1,2)])
  show ?case
  proof (cases "bound < length content")
    case True
    then have "read_pages config reference scope now max_bytes entries n bound = Ok (drop bound content)"
      using b Suc.prems by (intro Suc.IH) auto
    moreover have "drop offset (take bound content) @ drop bound content = drop offset content"
      using b(1,3) by (metis append_take_drop_id drop_append diff_is_0_eq drop_0 length_take min.absorb2)
    ultimately show ?thesis using True by (simp add: page)
  next
    case False
    with b(3) show ?thesis by (simp add: page)
  qed
qed simp

text \<open>C38: A stored text is read back whole. After a \<open>put\<close> that succeeds and any later ones made before
  the scope expires, reading page by page from the start, before the scope expires too and with pages
  of at least four bytes and at most the store's own page limit, returns the text after at most as
  many pages as it has bytes and one.\<close>

theorem stored_content_reads_back:
  assumes "put config scope source content now entries = (Ok reference, entries')"
    and "valid_utf8 content" and "length content \<le> usize_max"
    and "list_all (\<lambda>(_, _, _, t). t < sc_expires_at_ms scope) later" and "now' < sc_expires_at_ms scope"
    and "4 \<le> max_bytes" and "max_bytes \<le> cf_max_page_bytes config"
  shows "read_pages config reference scope now' max_bytes (fold (put_later config) later entries') (Suc (length content)) 0 =
    Ok content"
proof -
  note P = put_stores [OF assms(1)]
  obtain e where e: "map_of entries' source = Some e" "ce_reference e = reference" "ce_text e = content" using P(1) by blast
  have "map_of (fold (put_later config) later entries') (rf_source_event reference) = Some e"
    unfolding P(4) using assms(4) P(2) e by (intro puts_keep) auto
  from read_pages_rest [OF this e(2,3) P(5) [OF assms(5)] P(2,3) assms(6,7,2,3), of 0 "Suc (length content)"] show ?thesis
    by (simp del: read_pages.simps)
qed

definition context_sample_store :: content_store_config where
  "context_sample_store = \<lparr>cf_store_id = ''s'', cf_max_entries = 2, cf_max_bytes = 16, cf_max_content_bytes = 8,
     cf_max_page_bytes = 4, cf_max_ttl_ms = 10\<rparr>"

definition context_sample_scope :: content_scope where
  "context_sample_scope = \<lparr>sc_session_id = ''a'', sc_task_id = ''b'', sc_expires_at_ms = 9\<rparr>"

definition context_sample_reference :: content_reference where
  "context_sample_reference = \<lparr>rf_store_id = ''s'', rf_source_event = ''e'', rf_scope = context_sample_scope, rf_total_bytes = 6\<rparr>"

definition context_sample_text :: string where
  "context_sample_text = ''abc'' @ [CHR 0xC3, CHR 0xA9] @ ''d''"

lemma context_sample_puts:
  "put context_sample_store context_sample_scope ''e'' context_sample_text 1 [] =
     (Ok context_sample_reference, [(''e'', \<lparr>ce_reference = context_sample_reference, ce_text = context_sample_text\<rparr>)])"
  by code_simp

lemma stored_content_reads_back_witness:
  "read_pages context_sample_store context_sample_reference context_sample_scope 5 4
     (fold (put_later context_sample_store) [(context_sample_scope, ''f'', ''x'', 3)]
       [(''e'', \<lparr>ce_reference = context_sample_reference, ce_text = context_sample_text\<rparr>)]) (Suc (length context_sample_text)) 0 =
     Ok context_sample_text"
proof (rule stored_content_reads_back [OF context_sample_puts])
  show "valid_utf8 context_sample_text" by code_simp
  show "length context_sample_text \<le> usize_max" by (simp add: context_sample_text_def usize_max_def)
qed (simp_all add: context_sample_scope_def context_sample_store_def)

end
