(* ===== verification/OpenAiWire.thy ===== *)
theory OpenAiWire
  imports LlmContracts ModelRuntime Jsonl
begin

text \<open>
  The OpenAI-compatible provider, \<open>crates/llm/openai/src\<close>: the request it writes and the response it
  reads (\<open>wire.rs\<close>), the decoder of server-sent events (\<open>sse.rs\<close>), and the configuration, the
  requests, the bodies and the streams of \<open>lib.rs\<close>. Deserialising a text to the wire's structs is \<open>serde_json\<close>'s, a parameter, as are the
  HTTP client's requests and chunks.
\<close>

section \<open>Configuration\<close>

text \<open>\<open>str::trim\<close>: a white space character never starts inside another character's bytes.\<close>

definition trim :: "string \<Rightarrow> string" where
  "trim s =
     (let t = drop (last (filter (\<lambda>i. is_blank (take i s)) [0..<Suc (length s)])) s in
      take (hd (filter (\<lambda>i. is_blank (drop i t)) [0..<Suc (length t)])) t)"

text \<open>What the code uses of \<open>reqwest::Url\<close>.\<close>

record 'u url_ops =
  uo_parse :: "string \<Rightarrow> 'u option"
  uo_scheme :: "'u \<Rightarrow> string"
  uo_host :: "'u \<Rightarrow> string option"
  uo_text :: "'u \<Rightarrow> string"

record 'u openai_config =
  oc_base_url :: 'u
  oc_model :: string
  oc_api_key :: "string option"
  oc_request_timeout :: duration
  oc_connect_timeout :: duration
  oc_use_system_proxy :: bool
  oc_capabilities :: model_capabilities
  oc_stream_usage :: bool

datatype openai_config_error = OeInvalidBaseUrl | OeEmptyModel | OeZeroRequestTimeout | OeZeroConnectTimeout

type_synonym 'a configured = "('a, openai_config_error) outcome"

text \<open>Durations count nanoseconds; the built-in address is parsed with \<open>expect\<close>.\<close>

definition openai_default :: "'u url_ops \<Rightarrow> 'u openai_config configured" where
  "openai_default ops =
     (case uo_parse ops ''http://127.0.0.1:8000/v1'' of
        None \<Rightarrow> Panic
      | Some url \<Rightarrow> Ok \<lparr>oc_base_url = url, oc_model = ''default'', oc_api_key = None,
          oc_request_timeout = 600 * 1000000000, oc_connect_timeout = 10 * 1000000000, oc_use_system_proxy = False,
          oc_capabilities = text_only\<lparr>mc_token_usage := Supported\<rparr>, oc_stream_usage = False\<rparr>)"

definition validate_base_url :: "'u url_ops \<Rightarrow> string \<Rightarrow> 'u configured" where
  "validate_base_url ops base_url =
     and_then (ok_or (uo_parse ops (trim base_url)) OeInvalidBaseUrl) (\<lambda>parsed.
     if uo_scheme ops parsed \<notin> {''http'', ''https''} \<or> uo_host ops parsed = None then Err OeInvalidBaseUrl else Ok parsed)"

definition validate_model :: "string \<Rightarrow> string configured" where
  "validate_model model = (let model = trim model in if model = [] then Err OeEmptyModel else Ok model)"

definition openai_config_new :: "'u url_ops \<Rightarrow> string \<Rightarrow> string \<Rightarrow> 'u openai_config configured" where
  "openai_config_new ops base_url model =
     and_then (validate_base_url ops base_url) (\<lambda>url.
     and_then (validate_model model) (\<lambda>model.
     and_then (openai_default ops) (\<lambda>config. Ok (config\<lparr>oc_base_url := url, oc_model := model\<rparr>))))"

definition with_api_key :: "string option \<Rightarrow> 'u openai_config \<Rightarrow> 'u openai_config" where
  "with_api_key key config = config\<lparr>oc_api_key := key\<rparr>"

definition with_base_url :: "'u url_ops \<Rightarrow> string \<Rightarrow> 'u openai_config \<Rightarrow> 'u openai_config configured" where
  "with_base_url ops base_url config =
     and_then (validate_base_url ops base_url) (\<lambda>url. Ok (config\<lparr>oc_base_url := url\<rparr>))"

definition with_model :: "string \<Rightarrow> 'u openai_config \<Rightarrow> 'u openai_config configured" where
  "with_model model config = and_then (validate_model model) (\<lambda>model. Ok (config\<lparr>oc_model := model\<rparr>))"

definition with_request_timeout :: "duration \<Rightarrow> 'u openai_config \<Rightarrow> 'u openai_config configured" where
  "with_request_timeout timeout config =
     (if timeout = 0 then Err OeZeroRequestTimeout else Ok (config\<lparr>oc_request_timeout := timeout\<rparr>))"

definition with_connect_timeout :: "duration \<Rightarrow> 'u openai_config \<Rightarrow> 'u openai_config configured" where
  "with_connect_timeout timeout config =
     (if timeout = 0 then Err OeZeroConnectTimeout else Ok (config\<lparr>oc_connect_timeout := timeout\<rparr>))"

definition with_system_proxy :: "bool \<Rightarrow> 'u openai_config \<Rightarrow> 'u openai_config" where
  "with_system_proxy used config = config\<lparr>oc_use_system_proxy := used\<rparr>"

definition with_native_tools :: "generation_support \<Rightarrow> 'u openai_config \<Rightarrow> 'u openai_config" where
  "with_native_tools support config =
     config\<lparr>oc_capabilities := (oc_capabilities config)\<lparr>mc_native_tools := support\<rparr>\<rparr>"

definition with_json_schema :: "generation_support \<Rightarrow> 'u openai_config \<Rightarrow> 'u openai_config" where
  "with_json_schema support config =
     config\<lparr>oc_capabilities := (oc_capabilities config)\<lparr>mc_json_schema := support\<rparr>\<rparr>"

definition with_stream_usage :: "bool \<Rightarrow> 'u openai_config \<Rightarrow> 'u openai_config" where
  "with_stream_usage enabled config = config\<lparr>oc_stream_usage := enabled\<rparr>"

section \<open>The wire\<close>

text \<open>The JSON the \<open>json!\<close> macro builds around values of \<open>serde_json\<close>.\<close>

datatype 'v wire_json =
    WireNull
  | WireBool bool
  | WireNumber nat
  | WireString string
  | WireArray "'v wire_json list"
  | WireObject "(string \<times> 'v wire_json) list"
  | WireValue 'v

definition wire_option :: "string option \<Rightarrow> 'v wire_json" where
  "wire_option s = (case s of None \<Rightarrow> WireNull | Some s \<Rightarrow> WireString s)"

definition wire_tool_call :: "('v \<Rightarrow> string) \<Rightarrow> 'v model_tool_call \<Rightarrow> 'v wire_json" where
  "wire_tool_call to_text call =
     WireObject [(''id'', WireString (tc_id call)), (''type'', WireString ''function''),
       (''function'', WireObject [(''name'', WireString (tc_name call)), (''arguments'', WireString (to_text (tc_arguments call)))])]"

definition wire_message :: "('v \<Rightarrow> string) \<Rightarrow> 'v model_message \<Rightarrow> 'v wire_json" where
  "wire_message to_text message =
     (case message of
        System content \<Rightarrow> WireObject [(''role'', WireString ''system''), (''content'', WireString content)]
      | User content \<Rightarrow> WireObject [(''role'', WireString ''user''), (''content'', WireString content)]
      | Assistant content calls \<Rightarrow>
          WireObject ([(''role'', WireString ''assistant''), (''content'', wire_option content)] @
            (if calls = [] then [] else [(''tool_calls'', WireArray (map (wire_tool_call to_text) calls))]))
      | Tool call_id content \<Rightarrow>
          WireObject [(''role'', WireString ''tool''), (''tool_call_id'', WireString call_id), (''content'', WireString content)])"

definition wire_tool :: "'v model_tool_definition \<Rightarrow> 'v wire_json" where
  "wire_tool tool = WireObject [(''type'', WireString ''function''), (''function'',
     WireObject [(''name'', WireString (td_name tool)), (''description'', WireString (td_description tool)),
       (''parameters'', WireValue (td_parameters tool))])]"

definition wire_choice :: "tool_choice \<Rightarrow> 'v wire_json" where
  "wire_choice choice =
     (case choice of
        Auto \<Rightarrow> WireString ''auto''
      | Required \<Rightarrow> WireString ''required''
      | Named name \<Rightarrow> WireObject [(''type'', WireString ''function''), (''function'', WireObject [(''name'', WireString name)])])"

definition wire_constraint :: "'v generation_constraint \<Rightarrow> (string \<times> 'v wire_json) list" where
  "wire_constraint constraint =
     (case constraint of
        TextOutput \<Rightarrow> []
      | NativeTools tools choice \<Rightarrow> [(''tools'', WireArray (map wire_tool tools)), (''tool_choice'', wire_choice choice)]
      | JsonSchema name schema \<Rightarrow>
          [(''response_format'', WireObject [(''type'', WireString ''json_schema''), (''json_schema'',
             WireObject [(''name'', WireString name), (''schema'', WireValue schema), (''strict'', WireBool False)])])])"

definition wire_request ::
    "('v \<Rightarrow> string) \<Rightarrow> string \<Rightarrow> 'v generation_request \<Rightarrow> u32 option \<Rightarrow> bool \<Rightarrow> bool \<Rightarrow> 'v wire_json" where
  "wire_request to_text model request max_tokens streamed stream_usage =
     WireObject ([(''model'', WireString model), (''messages'', WireArray (map (wire_message to_text) (rg_messages request))),
         (''stream'', WireBool streamed)] @
       (case max_tokens of None \<Rightarrow> [] | Some n \<Rightarrow> [(''max_tokens'', WireNumber (unat n))]) @
       (if streamed \<and> stream_usage then [(''stream_options'', WireObject [(''include_usage'', WireBool True)])] else []) @
       wire_constraint (rg_constraint request))"

record wire_usage =
  wu_prompt_tokens :: "u64 option"
  wu_completion_tokens :: "u64 option"
  wu_total_tokens :: "u64 option"

definition wire_usage_default :: wire_usage where
  "wire_usage_default = \<lparr>wu_prompt_tokens = None, wu_completion_tokens = None, wu_total_tokens = None\<rparr>"

definition usage_from_wire :: "wire_usage \<Rightarrow> token_usage" where
  "usage_from_wire u =
     \<lparr>tk_input_tokens = wu_prompt_tokens u, tk_output_tokens = wu_completion_tokens u, tk_total_tokens = wu_total_tokens u\<rparr>"

definition wire_reason :: "string option \<Rightarrow> finish_reason" where
  "wire_reason reason =
     (case reason of
        None \<Rightarrow> UnknownFinish
      | Some code \<Rightarrow>
          if code = ''stop'' then Stop
          else if code = ''tool_calls'' then finish_reason.ToolCalls
          else if code = ''length'' then Length
          else if code = ''content_filter'' then ContentFiltered
          else Other code)"

definition invalid :: "string \<Rightarrow> llm_error" where
  "invalid message = LeStreamParse message"

text \<open>A response, as its structs are deserialised; of a \<open>function_call\<close> only its presence matters.\<close>

record wire_call =
  wl_id :: string
  wl_kind :: string
  wl_name :: string
  wl_arguments :: string

record wire_message_in =
  wm_role :: "string option"
  wm_content :: "string option"
  wm_tool_calls :: "wire_call list option"
  wm_function_call :: bool

record wire_response_choice =
  wc_index :: u32
  wc_message :: wire_message_in
  wc_finish_reason :: "string option"

record wire_response =
  wr_choices :: "wire_response_choice list"
  wr_usage :: "wire_usage option"

definition some_other :: "string option \<Rightarrow> string \<Rightarrow> bool" where
  "some_other x y \<longleftrightarrow> (case x of None \<Rightarrow> False | Some s \<Rightarrow> s \<noteq> y)"

definition decode_call ::
    "nat \<times> wire_call \<Rightarrow> generation_accumulator \<Rightarrow> (generation_accumulator, llm_error) outcome" where
  "decode_call = (\<lambda>(index, call) acc.
     if wl_kind call \<noteq> ''function'' then Err (invalid ''unsupported tool-call kind'')
     else if index \<ge> 2 ^ 32 then Err (LeProtocol OutputLimitExceeded)
     else map_err LeProtocol (push (ToolCallDelta (of_nat index) (Some (wl_id call)) (Some (wl_name call)) (wl_arguments call)) acc))"

definition decode_response ::
    "'v json_ops \<Rightarrow> wire_response option \<Rightarrow> generation_limits \<Rightarrow> ('v generation_response, llm_error) outcome" where
  "decode_response js payload limits =
     and_then (ok_or payload (invalid ''invalid completion JSON'')) (\<lambda>payload.
     (case wr_choices payload of
        [choice] \<Rightarrow>
          let message = wc_message choice in
          if wc_index choice \<noteq> 0 \<or> some_other (wm_role message) ''assistant'' \<or> wm_function_call message
          then Err (invalid ''unsupported completion choice or message'')
          else
            and_then (case wm_content message of
                None \<Rightarrow> Ok (accumulator_new limits)
              | Some content \<Rightarrow> map_err LeProtocol (push (TextDelta content) (accumulator_new limits))) (\<lambda>acc.
            and_then (for_each decode_call (enumerate 0 (case wm_tool_calls message of None \<Rightarrow> [] | Some calls \<Rightarrow> calls)) acc) (\<lambda>acc.
            map_err LeProtocol (accumulator_response js acc (wire_reason (wc_finish_reason choice))
              (usage_from_wire (case wr_usage payload of None \<Rightarrow> wire_usage_default | Some u \<Rightarrow> u)))))
      | _ \<Rightarrow> Err (invalid ''exactly one completion choice is required'')))"

section \<open>Server-sent events\<close>

record wire_delta_call =
  wd_index :: u32
  wd_id :: "string option"
  wd_kind :: "string option"
  wd_name :: "string option"
  wd_arguments :: "string option"

record wire_delta =
  we_role :: "string option"
  we_content :: "string option"
  we_tool_calls :: "wire_delta_call list option"
  we_function_call :: bool

record wire_chunk_choice =
  wk_index :: u32
  wk_delta :: wire_delta
  wk_finish_reason :: "string option"

record wire_chunk =
  wh_choices :: "wire_chunk_choice list"
  wh_usage :: "wire_usage option"

record sse_decoder =
  ss_line :: string
  ss_data :: "string list"
  ss_accumulator :: generation_accumulator
  ss_reason :: "finish_reason option"
  ss_usage :: token_usage
  ss_finished :: bool
  ss_bytes :: usize
  ss_bound :: usize

definition sse_new :: "generation_limits \<Rightarrow> sse_decoder" where
  "sse_new limits = \<lparr>ss_line = [], ss_data = [], ss_accumulator = accumulator_new limits, ss_reason = None,
     ss_usage = \<lparr>tk_input_tokens = None, tk_output_tokens = None, tk_total_tokens = None\<rparr>, ss_finished = False,
     ss_bytes = 0, ss_bound = gl_max_output_bytes limits\<rparr>"

text \<open>A decoder and the events of the current call; after an error the caller drops both.\<close>

type_synonym 'v sse_state = "sse_decoder \<times> 'v generation_stream_event list"

definition sse_emit :: "generation_delta \<Rightarrow> 'v sse_state \<Rightarrow> ('v sse_state, llm_error) outcome" where
  "sse_emit delta = (\<lambda>(d, events).
     and_then (map_err LeProtocol (push delta (ss_accumulator d))) (\<lambda>acc.
     Ok (d\<lparr>ss_accumulator := acc\<rparr>, events @ [StreamDelta delta])))"

definition sse_tool_call :: "wire_delta_call \<Rightarrow> 'v sse_state \<Rightarrow> ('v sse_state, llm_error) outcome" where
  "sse_tool_call call s =
     (if some_other (wd_kind call) ''function'' then Err (invalid ''unsupported streamed tool kind'')
      else sse_emit (ToolCallDelta (wd_index call) (wd_id call) (wd_name call) (unwrap_or_empty (wd_arguments call))) s)"

definition sse_choice :: "wire_chunk_choice \<Rightarrow> 'v sse_state \<Rightarrow> ('v sse_state, llm_error) outcome" where
  "sse_choice choice s =
     (let delta = wk_delta choice in
      if wk_index choice \<noteq> 0 \<or> ss_reason (fst s) \<noteq> None then Err (invalid ''invalid or post-terminal stream choice'')
      else if some_other (we_role delta) ''assistant'' \<or> we_function_call delta then Err (invalid ''unsupported streamed message'')
      else
        and_then (case we_content delta of None \<Rightarrow> Ok s | Some content \<Rightarrow> sse_emit (TextDelta content) s) (\<lambda>s.
        and_then (for_each sse_tool_call (case we_tool_calls delta of None \<Rightarrow> [] | Some calls \<Rightarrow> calls) s) (\<lambda>(d, events).
        Ok (case wk_finish_reason choice of
              None \<Rightarrow> d
            | Some reason \<Rightarrow> d\<lparr>ss_reason := Some (wire_reason (Some reason))\<rparr>, events))))"

text \<open>\<open>join("\n")\<close>, and \<open>data.trim() == "[DONE]"\<close>: the marker between white space.\<close>

fun join_lines :: "string list \<Rightarrow> string" where
  "join_lines [] = []"
| "join_lines [s] = s"
| "join_lines (s # ss) = s @ CHR 0x0A # join_lines ss"

definition done_marker :: string where
  "done_marker = ''[DONE]''"

definition is_done_marker :: "string \<Rightarrow> bool" where
  "is_done_marker data \<longleftrightarrow>
     list_ex (\<lambda>i. is_blank (take i data) \<and> take (length done_marker) (drop i data) = done_marker \<and>
       is_blank (drop (i + length done_marker) data)) [0..<Suc (length data)]"

definition sse_dispatch ::
    "'v json_ops \<Rightarrow> (string \<Rightarrow> wire_chunk option) \<Rightarrow> 'v sse_state \<Rightarrow> ('v sse_state, llm_error) outcome" where
  "sse_dispatch js parse = (\<lambda>(d, events).
     if ss_data d = [] then Ok (d, events)
     else
       let data = join_lines (ss_data d); d = d\<lparr>ss_data := []\<rparr> in
       if is_blank data then Ok (d, events)
       else if is_done_marker data
       then
         and_then (ok_or (ss_reason d) (LeProtocol MissingStreamTerminal)) (\<lambda>reason.
         and_then (map_err LeProtocol (accumulator_response js (ss_accumulator d) reason (ss_usage d))) (\<lambda>response.
         Ok (d\<lparr>ss_finished := True\<rparr>, events @ [StreamFinished response])))
       else
         and_then (ok_or (parse data) (invalid ''invalid SSE JSON'')) (\<lambda>chunk.
         let d = (case wh_usage chunk of None \<Rightarrow> d | Some u \<Rightarrow> d\<lparr>ss_usage := usage_from_wire u\<rparr>) in
         if length (wh_choices chunk) > 1 then Err (invalid ''multiple stream choices are unsupported'')
         else for_each sse_choice (wh_choices chunk) (d, events)))"

definition trim_end_matches :: "char \<Rightarrow> string \<Rightarrow> string" where
  "trim_end_matches c s = rev (dropWhile (\<lambda>x. x = c) (rev s))"

definition sse_line ::
    "'v json_ops \<Rightarrow> (string \<Rightarrow> wire_chunk option) \<Rightarrow> string \<Rightarrow> 'v sse_state \<Rightarrow> ('v sse_state, llm_error) outcome" where
  "sse_line js parse line = (\<lambda>(d, events).
     if \<not> valid_utf8 line then Err (invalid ''invalid UTF-8 in SSE'')
     else
       let line = trim_end_matches (CHR 0x0D) line in
       if line = [] then sse_dispatch js parse (d, events)
       else (case strip_prefix ''data:'' line of
           Some data \<Rightarrow>
             Ok (d\<lparr>ss_data := ss_data d @ [case strip_prefix '' '' data of None \<Rightarrow> data | Some rest \<Rightarrow> rest]\<rparr>, events)
         | None \<Rightarrow> Ok (d, events)))"

text \<open>The loop over the bytes: once the stream is finished, the rest of the call's bytes is skipped.\<close>

definition sse_byte ::
    "'v json_ops \<Rightarrow> (string \<Rightarrow> wire_chunk option) \<Rightarrow> char \<Rightarrow> 'v sse_state \<Rightarrow> ('v sse_state, llm_error) outcome" where
  "sse_byte js parse byte = (\<lambda>(d, events).
     if ss_finished d then Ok (d, events)
     else if byte \<noteq> CHR 0x0A then Ok (d\<lparr>ss_line := ss_line d @ [byte]\<rparr>, events)
     else sse_line js parse (ss_line d) (d\<lparr>ss_line := []\<rparr>, events))"

definition sse_push ::
    "'v json_ops \<Rightarrow> (string \<Rightarrow> wire_chunk option) \<Rightarrow> string \<Rightarrow> sse_decoder \<Rightarrow> ('v sse_state, llm_error) outcome" where
  "sse_push js parse bytes d =
     and_then (ok_or (usize_checked_add (ss_bytes d) (length bytes)) (LeProtocol OutputLimitExceeded)) (\<lambda>n.
     if n > ss_bound d then Err (LeProtocol OutputLimitExceeded)
     else for_each (sse_byte js parse) bytes (d\<lparr>ss_bytes := n\<rparr>, []))"

section \<open>Requests, bodies and streams\<close>

text \<open>The HTTP client: the answer to a \<open>POST\<close>, whose body is a list of chunks, and its errors.\<close>

datatype reqwest_error = ReqwestTimeout | ReqwestError string

fun classify_reqwest_error :: "reqwest_error \<Rightarrow> llm_error" where
  "classify_reqwest_error ReqwestTimeout = LeTimeout"
| "classify_reqwest_error (ReqwestError message) = LeAdapter message"

type_synonym body_chunk = "(string, reqwest_error) outcome"

record http_response =
  hr_status :: u16
  hr_chunks :: "body_chunk list"

record 'v http_post =
  hp_endpoint :: string
  hp_payload :: "'v wire_json"
  hp_timeout :: "duration option"
  hp_bearer :: "string option"

definition read_body_step :: "usize \<Rightarrow> body_chunk \<Rightarrow> string \<Rightarrow> (string, llm_error) outcome" where
  "read_body_step bound chunk body =
     and_then (map_err classify_reqwest_error chunk) (\<lambda>chunk.
     if usize_saturating_add (length body) (length chunk) > bound then Err (LeProtocol OutputLimitExceeded)
     else Ok (body @ chunk))"

definition read_body :: "body_chunk list \<Rightarrow> usize \<Rightarrow> (string, llm_error) outcome" where
  "read_body chunks bound = for_each (read_body_step bound) chunks []"

definition openai_endpoint :: "'u url_ops \<Rightarrow> 'u openai_config \<Rightarrow> string" where
  "openai_endpoint ops config = trim_end_matches (CHR ''/'') (uo_text ops (oc_base_url config)) @ ''/chat/completions''"

text \<open>Besides the URLs: \<open>serde_json\<close>, \<open>send\<close> and \<open>from_utf8_lossy\<close>.\<close>

record ('u, 'v) openai_ops =
  pp_urls :: "'u url_ops"
  pp_json :: "'v json_ops"
  pp_to_text :: "'v \<Rightarrow> string"
  pp_parse_response :: "string \<Rightarrow> wire_response option"
  pp_parse_chunk :: "string \<Rightarrow> wire_chunk option"
  pp_send :: "'v http_post \<Rightarrow> (http_response, reqwest_error) outcome"
  pp_lossy :: "string \<Rightarrow> string"

definition openai_request ::
    "('u, 'v) openai_ops \<Rightarrow> 'u openai_config \<Rightarrow> 'v generation_request \<Rightarrow> bool \<Rightarrow> generation_options
       \<Rightarrow> (body_chunk list, llm_error) outcome" where
  "openai_request ops config inp streamed opts =
     and_then (map_err LeProtocol (preflight (pp_json ops) inp (oc_capabilities config) (if streamed then Stream else Complete))) (\<lambda>_.
     let payload = wire_request (pp_to_text ops) (oc_model config) inp (go_max_tokens opts) streamed (oc_stream_usage config) in
     and_then (map_err classify_reqwest_error (pp_send ops \<lparr>hp_endpoint = openai_endpoint (pp_urls ops) config,
         hp_payload = payload, hp_timeout = go_timeout opts, hp_bearer = oc_api_key config\<rparr>)) (\<lambda>response.
     if hr_status response < 200 \<or> hr_status response > 299
     then and_then (read_body (hr_chunks response) (gl_max_output_bytes (go_limits opts))) (\<lambda>body.
       Err (LeUpstream (hr_status response) (pp_lossy ops body)))
     else Ok (hr_chunks response)))"

definition finishes_well :: "finish_reason \<Rightarrow> bool" where
  "finishes_well reason \<longleftrightarrow> reason = Stop \<or> reason = finish_reason.ToolCalls"

text \<open>\<open>generate\<close>; the flag says that the call's cancellation is seen before its response.\<close>

definition openai_generate ::
    "('u, 'v) openai_ops \<Rightarrow> 'u openai_config \<Rightarrow> 'v generation_request \<Rightarrow> generation_options \<Rightarrow> bool
       \<Rightarrow> ('v generation_response, llm_error) outcome" where
  "openai_generate ops config inp opts cancelled =
     (if cancelled then Err LeCancelled
      else
        and_then (openai_request ops config inp False opts) (\<lambda>chunks.
        and_then (read_body chunks (gl_max_output_bytes (go_limits opts))) (\<lambda>bytes.
        and_then (decode_response (pp_json ops) (pp_parse_response ops bytes) (go_limits opts)) (\<lambda>response.
        if finishes_well (rs_finish_reason response)
        then and_then (map_err LeProtocol (validate_shape_for (pp_json ops) inp response)) (\<lambda>_. Ok response)
        else Ok response))))"

text \<open>
  The rounds of the stream's loop. For each round the list says whether the wait for the next chunk
  is cancelled, and at each yield whether the call is cancelled by then; a stream whose list ends is
  one the host no longer polls.
\<close>

definition stream_yield ::
    "'v json_ops \<Rightarrow> 'v generation_request \<Rightarrow> 'v generation_stream_event \<Rightarrow> (unit, llm_error) outcome" where
  "stream_yield js request event =
     (case event of
        StreamFinished response \<Rightarrow>
          if finishes_well (rs_finish_reason response)
          then map_err LeProtocol (validate_shape_for js request response) else Ok ()
      | StreamDelta _ \<Rightarrow> Ok ())"

fun yield_events ::
    "'v json_ops \<Rightarrow> 'v generation_request \<Rightarrow> bool list \<Rightarrow> 'v generation_stream_event list
       \<Rightarrow> ('v generation_stream_event, llm_error) outcome list \<times> bool" where
  "yield_events js request cancelled [] = ([], True)"
| "yield_events js request cancelled (event # events) =
     (case cancelled of
        True # _ \<Rightarrow> ([Err LeCancelled], False)
      | _ \<Rightarrow>
          (case stream_yield js request event of
             Ok _ \<Rightarrow> (let (out, going) = yield_events js request (tl cancelled) events in (Ok event # out, going))
           | Err e \<Rightarrow> ([Err e], False)
           | Panic \<Rightarrow> ([Panic], False)))"

datatype stream_wait = WaitCancelled | WaitChunk "bool list"

fun openai_rounds ::
    "'v json_ops \<Rightarrow> (string \<Rightarrow> wire_chunk option) \<Rightarrow> 'v generation_request \<Rightarrow> stream_wait list \<Rightarrow> body_chunk list
       \<Rightarrow> sse_decoder \<Rightarrow> ('v generation_stream_event, llm_error) outcome list" where
  "openai_rounds js parse request [] chunks d = []"
| "openai_rounds js parse request (WaitCancelled # waits) chunks d = [Err LeCancelled]"
| "openai_rounds js parse request (WaitChunk cancelled # waits) [] d = [Err (LeProtocol MissingStreamTerminal)]"
| "openai_rounds js parse request (WaitChunk cancelled # waits) (chunk # chunks) d =
     (case and_then (map_err classify_reqwest_error chunk) (\<lambda>bytes. sse_push js parse bytes d) of
        Err e \<Rightarrow> [Err e]
      | Panic \<Rightarrow> [Panic]
      | Ok (d, events) \<Rightarrow>
          let (out, going) = yield_events js request cancelled events in
          if \<not> going then out
          else if ss_finished d then out
          else out @ openai_rounds js parse request waits chunks d)"

definition openai_stream ::
    "('u, 'v) openai_ops \<Rightarrow> 'u openai_config \<Rightarrow> 'v generation_request \<Rightarrow> generation_options \<Rightarrow> bool \<Rightarrow> stream_wait list
       \<Rightarrow> ('v generation_stream_event, llm_error) outcome list" where
  "openai_stream ops config inp opts cancelled waits =
     (if cancelled then [Err LeCancelled]
      else
        (case openai_request ops config inp True opts of
           Err e \<Rightarrow> [Err e]
         | Panic \<Rightarrow> [Panic]
         | Ok chunks \<Rightarrow> openai_rounds (pp_json ops) (pp_parse_chunk ops) inp waits chunks (sse_new (go_limits opts))))"

end
