(* ===== verification/OpenAiProps.thy ===== *)
theory OpenAiProps
  imports OpenAiWire
begin

text \<open>
  What the OpenAI-compatible provider promises of a stream: the same events for every way the
  transport cuts its bytes, and items that end with the response their deltas add up to.
\<close>

section \<open>Chunks\<close>

text \<open>A step that neither reads the counts of \<open>push\<close> nor the events before it.\<close>

definition framed :: "('v sse_state \<Rightarrow> ('v sse_state, llm_error) outcome) \<Rightarrow> bool" where
  "framed f \<longleftrightarrow> (\<forall>d n m events. f (d\<lparr>ss_bytes := n, ss_bound := m\<rparr>, events) =
     and_then (f (d, [])) (\<lambda>(d', new). Ok (d'\<lparr>ss_bytes := n, ss_bound := m\<rparr>, events @ new)))"

lemma framedD:
  "framed f \<Longrightarrow> f (d\<lparr>ss_bytes := n, ss_bound := m\<rparr>, events) =
     and_then (f (d, [])) (\<lambda>(d', new). Ok (d'\<lparr>ss_bytes := n, ss_bound := m\<rparr>, events @ new))"
  by (simp add: framed_def)

lemma sse_decoder_id [simp]: "d\<lparr>ss_bytes := ss_bytes d, ss_bound := ss_bound d\<rparr> = d"
  by (cases d) simp

text \<open>The counts and the other fields are updated in any order.\<close>

lemma sse_counts_commute:
  "d\<lparr>ss_bytes := n, ss_bound := m, ss_line := x\<rparr> = d\<lparr>ss_line := x, ss_bytes := n, ss_bound := m\<rparr>"
  "d\<lparr>ss_bytes := n, ss_bound := m, ss_data := y\<rparr> = d\<lparr>ss_data := y, ss_bytes := n, ss_bound := m\<rparr>"
  "d\<lparr>ss_bytes := n, ss_bound := m, ss_usage := z\<rparr> = d\<lparr>ss_usage := z, ss_bytes := n, ss_bound := m\<rparr>"
  "d\<lparr>ss_bound := m, ss_bytes := n\<rparr> = d\<lparr>ss_bytes := n, ss_bound := m\<rparr>"
  by (cases d; simp)+

lemma framed_events:
  assumes "framed f"
  shows "f (d, events) = and_then (f (d, [])) (\<lambda>(d', new). Ok (d'\<lparr>ss_bytes := ss_bytes d, ss_bound := ss_bound d\<rparr>, events @ new))"
  using framedD [OF assms, where d = d and n = "ss_bytes d" and m = "ss_bound d" and events = events] by simp

lemma framed_keeps:
  assumes "framed f" and "f (d, events) = Ok (d', new)"
  shows "ss_bytes d' = ss_bytes d" and "ss_bound d' = ss_bound d"
  using assms by (auto simp: framed_events [OF assms(1), where d = d and events = events] and_then_eq_Ok)

lemma framed_Ok: "(\<And>d n m. h (d\<lparr>ss_bytes := n, ss_bound := m\<rparr>) = (h d)\<lparr>ss_bytes := n, ss_bound := m\<rparr>) \<Longrightarrow>
    framed (\<lambda>(d, events). Ok (h d, events))"
  by (simp add: framed_def)

lemma framed_and_then:
  assumes f: "framed f" and g: "framed g"
  shows "framed (\<lambda>s. and_then (f s) g)"
  unfolding framed_def
proof (intro allI)
  fix d n m events
  show "and_then (f (d\<lparr>ss_bytes := n, ss_bound := m\<rparr>, events)) g =
      and_then (and_then (f (d, [])) g) (\<lambda>(d', new). Ok (d'\<lparr>ss_bytes := n, ss_bound := m\<rparr>, events @ new))"
  proof (cases "f (d, [])")
    case (Ok s)
    obtain d1 new1 where s: "s = (d1, new1)" by (cases s)
    show ?thesis
      unfolding framedD [OF f] Ok s using framedD [OF g, where d = d1 and n = n and m = m and events = "events @ new1"] framed_events [OF g, where d = d1 and events = new1]
      by (cases "g (d1, [])") auto
  qed (simp_all add: framedD [OF f])
qed

lemma framed_for_each: "(\<And>x. x \<in> set xs \<Longrightarrow> framed (f x)) \<Longrightarrow> framed (for_each f xs)"
proof (induction xs)
  case (Cons x xs)
  then have "framed (\<lambda>s. and_then (f x s) (for_each f xs))" by (intro framed_and_then) auto
  then show ?case by (simp add: framed_def)
qed (simp add: framed_def)

lemma framed_fixed_if: "framed f \<Longrightarrow> framed g \<Longrightarrow> framed (\<lambda>s. if b then f s else g s)"
  by (cases b) (simp_all add: framed_def)

lemma framed_if:
  assumes "\<And>d n m. P (d\<lparr>ss_bytes := n, ss_bound := m\<rparr>) = P d" and "framed f" and "framed g"
  shows "framed (\<lambda>s. if P (fst s) then f s else g s)"
  using assms by (simp add: framed_def)

lemma framed_Err [simp]: "framed (\<lambda>s. Err e)"
  by (simp add: framed_def)

lemma framed_id [simp]: "framed (\<lambda>s. Ok s)"
  by (simp add: framed_def)

lemma framed_emit: "framed (sse_emit delta)"
  unfolding framed_def
proof (intro allI)
  fix d :: sse_decoder and n m and events :: "'a generation_stream_event list"
  show "sse_emit delta (d\<lparr>ss_bytes := n, ss_bound := m\<rparr>, events) =
      and_then (sse_emit delta (d, [])) (\<lambda>(d', new). Ok (d'\<lparr>ss_bytes := n, ss_bound := m\<rparr>, events @ new))"
    by (cases "push delta (ss_accumulator d)") (simp_all add: sse_emit_def)
qed

lemma framed_tool_call: "framed (sse_tool_call call)"
proof (cases "some_other (wd_kind call) ''function''")
  case False
  then have "sse_tool_call call = (sse_emit (ToolCallDelta (wd_index call) (wd_id call) (wd_name call)
      (unwrap_or_empty (wd_arguments call))) :: 'a sse_state \<Rightarrow> _)"
    by (simp add: fun_eq_iff sse_tool_call_def)
  then show ?thesis using framed_emit by metis
qed (simp add: sse_tool_call_def [abs_def])

lemma framed_choice: "framed (sse_choice choice)"
proof -
  let ?text = "\<lambda>s. case we_content (wk_delta choice) of None \<Rightarrow> outcome.Ok s | Some content \<Rightarrow> sse_emit (TextDelta content) s"
  let ?calls = "for_each sse_tool_call (case we_tool_calls (wk_delta choice) of None \<Rightarrow> [] | Some calls \<Rightarrow> calls)"
  let ?reason = "\<lambda>(d, events). outcome.Ok (case wk_finish_reason choice of None \<Rightarrow> d
      | Some reason \<Rightarrow> d\<lparr>ss_reason := Some (wire_reason (Some reason))\<rparr>, events)"
  have "framed ?text" using framed_emit by (cases "we_content (wk_delta choice)") simp_all
  moreover have "framed (\<lambda>s. and_then (?calls s) ?reason)"
    by (intro framed_and_then framed_for_each framed_tool_call framed_Ok) (simp split: option.split)
  ultimately have "framed (\<lambda>s. and_then (?text s) (\<lambda>s. and_then (?calls s) ?reason))" by (rule framed_and_then)
  then have "framed (\<lambda>s. if wk_index choice \<noteq> 0 \<or> ss_reason (fst s) \<noteq> None
      then Err (invalid ''invalid or post-terminal stream choice'')
      else if some_other (we_role (wk_delta choice)) ''assistant'' \<or> we_function_call (wk_delta choice)
      then Err (invalid ''unsupported streamed message'')
      else and_then (?text s) (\<lambda>s. and_then (?calls s) ?reason))"
    by (intro framed_if framed_fixed_if framed_Err) simp_all
  then show ?thesis by (simp only: sse_choice_def [abs_def] Let_def)
qed

lemma framed_choices: "framed (for_each sse_choice choices)"
  by (intro framed_for_each framed_choice)

lemma framed_dispatch: "framed (sse_dispatch js parse)"
  unfolding framed_def
proof (intro allI)
  fix d :: sse_decoder and n m and events :: "'a generation_stream_event list"
  let ?data = "join_lines (ss_data d)"
  let ?frame = "\<lambda>(d' :: sse_decoder, new). outcome.Ok (d'\<lparr>ss_bytes := n, ss_bound := m\<rparr>, events @ new)"
  let ?set = "\<lambda>d :: sse_decoder. d\<lparr>ss_bytes := n, ss_bound := m\<rparr>"
  show "sse_dispatch js parse (?set d, events) = and_then (sse_dispatch js parse (d, [])) ?frame"
  proof (cases "ss_data d = [] \<or> is_blank ?data")
    case True
    then show ?thesis by (auto simp: sse_dispatch_def Let_def)
  next
    case data: False
    show ?thesis
    proof (cases "is_done_marker ?data")
      case True
      then show ?thesis using data
        by (cases "ss_reason d"; cases "accumulator_response js (ss_accumulator d) (the (ss_reason d)) (ss_usage d)")
          (simp_all add: sse_dispatch_def Let_def)
    next
      case False
      show ?thesis
      proof (cases "parse ?data")
        case (Some chunk)
        let ?next = "\<lambda>d. case wh_usage chunk of None \<Rightarrow> d\<lparr>ss_data := []\<rparr>
            | Some u \<Rightarrow> d\<lparr>ss_data := [], ss_usage := usage_from_wire u\<rparr>"
        have "for_each sse_choice (wh_choices chunk) (?next (?set d), events) =
            and_then (for_each sse_choice (wh_choices chunk) (?next d, [])) ?frame"
          using framedD [OF framed_choices [where choices = "wh_choices chunk"], where d = "?next d" and n = n and m = m and events = events] by (cases "wh_usage chunk") (simp_all add: sse_counts_commute)
        then show ?thesis using data False Some by (cases "wh_usage chunk") (simp_all add: sse_dispatch_def Let_def)
      qed (use data False in \<open>simp add: sse_dispatch_def Let_def\<close>)
    qed
  qed
qed

lemma framed_line: "framed (sse_line js parse line)"
  using framed_dispatch [of js parse] unfolding sse_line_def Let_def by (simp add: framed_def split: option.split)

lemma framed_byte: "framed (sse_byte js parse byte)"
  unfolding framed_def
proof (intro allI)
  fix d :: sse_decoder and n m and events :: "'a generation_stream_event list"
  show "sse_byte js parse byte (d\<lparr>ss_bytes := n, ss_bound := m\<rparr>, events) =
      and_then (sse_byte js parse byte (d, [])) (\<lambda>(d', new). Ok (d'\<lparr>ss_bytes := n, ss_bound := m\<rparr>, events @ new))"
    using framedD [OF framed_line [where js = js and parse = parse and line = "ss_line d"], where d = "d\<lparr>ss_line := []\<rparr>" and n = n and m = m and events = events] by (simp add: sse_byte_def sse_counts_commute)
qed

lemma framed_bytes: "framed (for_each (sse_byte js parse) bytes)"
  by (intro framed_for_each framed_byte)

text \<open>Pushing the chunks of a body one after the other.\<close>

fun sse_chunks ::
    "'v json_ops \<Rightarrow> (string \<Rightarrow> wire_chunk option) \<Rightarrow> string list \<Rightarrow> sse_decoder \<Rightarrow> ('v sse_state, llm_error) outcome" where
  "sse_chunks js parse [] d = Ok (d, [])"
| "sse_chunks js parse (chunk # chunks) d =
     and_then (sse_push js parse chunk d) (\<lambda>(d, events).
     and_then (sse_chunks js parse chunks d) (\<lambda>(d, extra). Ok (d, events @ extra)))"

lemma sse_push_Ok:
  "sse_push js parse bytes d = Ok r \<longleftrightarrow> ss_bytes d + length bytes \<le> usize_max \<and> ss_bytes d + length bytes \<le> ss_bound d \<and>
     for_each (sse_byte js parse) bytes (d\<lparr>ss_bytes := ss_bytes d + length bytes\<rparr>, []) = Ok r"
  by (auto simp: sse_push_def usize_checked_add_def)

lemma sse_push_counts:
  assumes "sse_push js parse bytes d = Ok (d', events)"
  shows "ss_bytes d' = ss_bytes d + length bytes" and "ss_bound d' = ss_bound d"
proof -
  have run: "for_each (sse_byte js parse) bytes (d\<lparr>ss_bytes := ss_bytes d + length bytes\<rparr>, []) = Ok (d', events)"
    using assms by (simp add: sse_push_Ok)
  show "ss_bytes d' = ss_bytes d + length bytes" "ss_bound d' = ss_bound d"
    using framed_keeps [OF framed_bytes run] by simp_all
qed

lemma sse_push_append:
  "sse_push js parse (a @ b) d = Ok (d2, events) \<longleftrightarrow>
     (\<exists>d1 new extra. sse_push js parse a d = Ok (d1, new) \<and> sse_push js parse b d1 = Ok (d2, extra) \<and> events = new @ extra)"
  (is "?l \<longleftrightarrow> ?r")
proof -
  let ?n = "ss_bytes d + length a" and ?m = "ss_bytes d + length a + length b" and ?step = "for_each (sse_byte js parse)"
  have frame: "?step bs (d'\<lparr>ss_bytes := k\<rparr>, es) = and_then (?step bs (d', [])) (\<lambda>(x, new). Ok (x\<lparr>ss_bytes := k, ss_bound := ss_bound d'\<rparr>, es @ new))"
    for bs d' k es
  proof -
    have "d'\<lparr>ss_bytes := k\<rparr> = d'\<lparr>ss_bytes := k, ss_bound := ss_bound d'\<rparr>" by (cases d') simp
    then show ?thesis using framedD [OF framed_bytes [where js = js and parse = parse and bytes = bs], where d = d' and n = k and m = "ss_bound d'" and events = es] by simp
  qed
  have a: "?step a (d\<lparr>ss_bytes := k\<rparr>, []) = and_then (?step a (d, [])) (\<lambda>(x, new). Ok (x\<lparr>ss_bytes := k, ss_bound := ss_bound d\<rparr>, new))" for k
    using frame [where bs = a and d' = d and k = k and es = "[]"] by simp
  show ?thesis
  proof (cases "?step a (d, [])")
    case (Ok s)
    obtain x new where s: "s = (x, new)" by (cases s)
    have b: "?step b (x\<lparr>ss_bytes := k, ss_bound := l\<rparr>, es) =
        and_then (?step b (x, [])) (\<lambda>(y, extra). Ok (y\<lparr>ss_bytes := k, ss_bound := l\<rparr>, es @ extra))" for k l es
      by (rule framedD [OF framed_bytes])
    show ?thesis
      by (cases "?step b (x, [])") (auto simp: sse_push_Ok for_each_append a Ok s b sse_counts_commute add.assoc and_then_eq_Ok)
  qed (auto simp: sse_push_Ok for_each_append a and_then_eq_Ok)
qed

lemma sse_chunks_concat:
  "ss_bytes d \<le> ss_bound d \<Longrightarrow> ss_bytes d \<le> usize_max \<Longrightarrow>
     sse_chunks js parse chunks d = Ok r \<longleftrightarrow> sse_push js parse (concat chunks) d = Ok r"
proof (induction chunks arbitrary: d r)
  case Nil
  have "d\<lparr>ss_bytes := ss_bytes d\<rparr> = d" by (cases d) simp
  with Nil show ?case by (auto simp: sse_push_Ok)
next
  case (Cons chunk chunks)
  obtain d2 events where r: "r = (d2, events)" by (cases r)
  have ih: "sse_chunks js parse chunks d1 = Ok q \<longleftrightarrow> sse_push js parse (concat chunks) d1 = Ok q"
    if "sse_push js parse chunk d = Ok (d1, new)" for d1 new q
  proof (rule Cons.IH)
    show "ss_bytes d1 \<le> ss_bound d1" "ss_bytes d1 \<le> usize_max"
      using that sse_push_counts [OF that] by (simp_all add: sse_push_Ok)
  qed
  show ?case unfolding r concat.simps sse_push_append
    by (auto simp: and_then_eq_Ok ih dest: ih)
qed

text \<open>C39: How the transport cuts a body does not matter: pushing its chunks one after the other ends
  with the same decoder and the same events as pushing all its bytes at once, and succeeds exactly
  when that does; lines, \<open>data\<close> fields and characters may be split anywhere.\<close>

theorem decoding_ignores_chunks:
  "sse_chunks js parse chunks (sse_new limits) = Ok r \<longleftrightarrow> sse_push js parse (concat chunks) (sse_new limits) = Ok r"
  by (rule sse_chunks_concat) (simp_all add: sse_new_def)

section \<open>Streams\<close>

text \<open>The events since an accumulator are the deltas that led from it to the decoder's.\<close>

definition deltas_since :: "generation_accumulator \<Rightarrow> 'v sse_state \<Rightarrow> bool" where
  "deltas_since acc s \<longleftrightarrow> \<not> ss_finished (fst s) \<and>
     (\<exists>ds. for_each push ds acc = Ok (ss_accumulator (fst s)) \<and> snd s = map StreamDelta ds)"

definition ends_with_total :: "'v json_ops \<Rightarrow> generation_accumulator \<Rightarrow> 'v sse_state \<Rightarrow> bool" where
  "ends_with_total js acc s \<longleftrightarrow> ss_finished (fst s) \<and>
     (\<exists>ds r. for_each push ds acc = Ok (ss_accumulator (fst s)) \<and> snd s = map StreamDelta ds @ [StreamFinished r] \<and>
       verify_terminal js (ss_accumulator (fst s)) r = Ok ())"

lemma deltas_since_emit:
  assumes "deltas_since acc s" and "sse_emit delta s = Ok s'"
  shows "deltas_since acc s'"
proof -
  obtain ds where ds: "for_each push ds acc = Ok (ss_accumulator (fst s))" "snd s = map StreamDelta ds" "\<not> ss_finished (fst s)"
    using assms(1) by (auto simp: deltas_since_def)
  from assms(2) obtain acc' where "push delta (ss_accumulator (fst s)) = Ok acc'"
    "s' = ((fst s)\<lparr>ss_accumulator := acc'\<rparr>, snd s @ [StreamDelta delta])"
    by (cases "push delta (ss_accumulator (fst s))") (auto simp: sse_emit_def split: prod.splits)
  with ds have "for_each push (ds @ [delta]) acc = Ok (ss_accumulator (fst s'))" "snd s' = map StreamDelta (ds @ [delta])"
    "\<not> ss_finished (fst s')"
    by (simp_all add: for_each_append)
  then show ?thesis unfolding deltas_since_def by blast
qed

lemma deltas_since_tool_call: "deltas_since acc s \<Longrightarrow> sse_tool_call call s = Ok s' \<Longrightarrow> deltas_since acc s'"
  by (auto simp: sse_tool_call_def intro: deltas_since_emit split: if_splits)

lemma deltas_since_calls: "deltas_since acc s \<Longrightarrow> for_each sse_tool_call calls s = Ok s' \<Longrightarrow> deltas_since acc s'"
  by (erule for_each_inv) (auto intro: deltas_since_tool_call)

lemma deltas_since_choice:
  assumes "deltas_since acc s" and "sse_choice choice s = Ok s'"
  shows "deltas_since acc s'"
proof -
  from assms(2) obtain s1 d events where
    s1: "(case we_content (wk_delta choice) of None \<Rightarrow> Ok s | Some content \<Rightarrow> sse_emit (TextDelta content) s) = Ok s1"
    and s2: "for_each sse_tool_call (case we_tool_calls (wk_delta choice) of None \<Rightarrow> [] | Some calls \<Rightarrow> calls) s1 = Ok (d, events)"
    and s': "s' = (case wk_finish_reason choice of None \<Rightarrow> d | Some reason \<Rightarrow> d\<lparr>ss_reason := Some (wire_reason (Some reason))\<rparr>, events)"
    by (auto simp: sse_choice_def Let_def and_then_eq_Ok split: if_splits)
  have "deltas_since acc s1" using assms(1) s1 by (auto intro: deltas_since_emit split: option.splits)
  from deltas_since_calls [OF this s2] show ?thesis
    by (auto simp: s' deltas_since_def split: option.splits)
qed

lemma deltas_since_choices: "deltas_since acc s \<Longrightarrow> for_each sse_choice choices s = Ok s' \<Longrightarrow> deltas_since acc s'"
  by (erule for_each_inv) (auto intro: deltas_since_choice)

lemma verify_own_total:
  assumes "accumulator_response js acc reason usage = Ok r"
  shows "verify_terminal js acc r = Ok ()"
proof -
  have "rs_finish_reason r = reason" "rs_usage r = usage"
    using assms by (auto simp: accumulator_response_def Let_def and_then_eq_Ok)
  with assms show ?thesis by (simp add: verify_terminal_def)
qed

lemma dispatch_sound:
  assumes open_at: "deltas_since acc s" and step: "sse_dispatch js parse s = Ok s'"
  shows "deltas_since acc s' \<or> ends_with_total js acc s'"
proof -
  obtain d events where s: "s = (d, events)" by (cases s)
  let ?data = "join_lines (ss_data d)"
  show ?thesis
  proof (cases "ss_data d = [] \<or> is_blank ?data")
    case True
    then have "s' = (d, events) \<or> s' = (d\<lparr>ss_data := []\<rparr>, events)"
      using step by (cases "ss_data d = []") (simp_all add: s sse_dispatch_def)
    then show ?thesis using open_at by (auto simp: s deltas_since_def)
  next
    case data: False
    show ?thesis
    proof (cases "is_done_marker ?data")
      case True
      then obtain reason r where "accumulator_response js (ss_accumulator d) reason (ss_usage d) = Ok r"
        "s' = (d\<lparr>ss_data := [], ss_finished := True\<rparr>, events @ [StreamFinished r])"
        using step data by (auto simp: s sse_dispatch_def Let_def and_then_eq_Ok)
      then show ?thesis using open_at by (auto simp: s deltas_since_def ends_with_total_def intro: verify_own_total)
    next
      case False
      then obtain chunk :: wire_chunk where step': "for_each sse_choice (wh_choices chunk)
          (case wh_usage chunk of None \<Rightarrow> d\<lparr>ss_data := []\<rparr> | Some u \<Rightarrow> d\<lparr>ss_data := [], ss_usage := usage_from_wire u\<rparr>, events) = Ok s'"
        using step data by (auto simp: s sse_dispatch_def Let_def and_then_eq_Ok split: if_splits)
      have "deltas_since acc (case wh_usage chunk of None \<Rightarrow> d\<lparr>ss_data := []\<rparr>
          | Some u \<Rightarrow> d\<lparr>ss_data := [], ss_usage := usage_from_wire u\<rparr>, events)"
        using open_at by (simp add: s deltas_since_def split: option.split)
      from deltas_since_choices [OF this step'] show ?thesis ..
    qed
  qed
qed

lemma line_sound:
  assumes "deltas_since acc s" and "sse_line js parse line s = Ok s'"
  shows "deltas_since acc s' \<or> ends_with_total js acc s'"
  using assms dispatch_sound [OF assms(1)]
  by (cases s) (auto simp: sse_line_def Let_def deltas_since_def split: if_splits option.splits)

lemma byte_sound:
  assumes "deltas_since acc s \<or> ends_with_total js acc s" and "sse_byte js parse byte s = Ok s'"
  shows "deltas_since acc s' \<or> ends_with_total js acc s'"
proof (cases "ss_finished (fst s)")
  case True
  then show ?thesis using assms by (cases s) (auto simp: sse_byte_def)
next
  case False
  obtain d events where s: "s = (d, events)" by (cases s)
  have d: "deltas_since acc (d, events)" using assms(1) False by (auto simp: s ends_with_total_def)
  then have "deltas_since acc (d\<lparr>ss_line := x\<rparr>, events)" for x by (simp add: deltas_since_def)
  then show ?thesis
    using assms(2) False line_sound [of acc "(d\<lparr>ss_line := []\<rparr>, events)" js parse "ss_line d" s']
    by (auto simp: s sse_byte_def split: if_splits)
qed

text \<open>What one \<open>push\<close> adds to a decoder that has not finished.\<close>

lemma push_sound:
  assumes "sse_push js parse bytes d = Ok s" and "\<not> ss_finished d"
  shows "deltas_since (ss_accumulator d) s \<or> ends_with_total js (ss_accumulator d) s"
proof -
  have "for_each (sse_byte js parse) bytes (d\<lparr>ss_bytes := ss_bytes d + length bytes\<rparr>, []) = Ok s"
    using assms(1) by (simp add: sse_push_Ok)
  then show ?thesis
  proof (rule for_each_inv)
    have "for_each push [] (ss_accumulator d) = outcome.Ok (ss_accumulator d)" by simp
    then show "deltas_since (ss_accumulator d) (d\<lparr>ss_bytes := ss_bytes d + length bytes\<rparr>, []) \<or>
        ends_with_total js (ss_accumulator d) (d\<lparr>ss_bytes := ss_bytes d + length bytes\<rparr>, [])"
      using assms(2) by (auto simp: deltas_since_def intro!: exI [of _ "[]"])
  next
    fix byte u v
    assume "deltas_since (ss_accumulator d) u \<or> ends_with_total js (ss_accumulator d) u" and "sse_byte js parse byte u = Ok v"
    then show "deltas_since (ss_accumulator d) v \<or> ends_with_total js (ss_accumulator d) v" by (rule byte_sound)
  qed
qed

text \<open>The items of a stream from an accumulator: deltas it takes, then at most one item that ends them.\<close>

definition stream_items ::
    "'v json_ops \<Rightarrow> 'v generation_request \<Rightarrow> generation_accumulator \<Rightarrow> ('v generation_stream_event, llm_error) outcome list \<Rightarrow> bool" where
  "stream_items js request acc items \<longleftrightarrow>
     (\<exists>ds ending total. items = map (\<lambda>d. Ok (StreamDelta d)) ds @ ending \<and> for_each push ds acc = Ok total \<and>
       (ending = [] \<or> (\<exists>e. ending = [Err e]) \<or> ending = [Panic] \<or>
        (\<exists>r. ending = [Ok (StreamFinished r)] \<and> verify_terminal js total r = Ok () \<and>
          (finishes_well (rs_finish_reason r) \<longrightarrow> validate_shape_for js request r = Ok ()))))"

lemma stream_items_delta:
  assumes "stream_items js request acc' items" and "push d acc = Ok acc'"
  shows "stream_items js request acc (Ok (StreamDelta d) # items)"
proof -
  from assms(1) obtain ds ending total where "items = map (\<lambda>d. Ok (StreamDelta d)) ds @ ending"
    "for_each push ds acc' = Ok total"
    "ending = [] \<or> (\<exists>e. ending = [Err e]) \<or> ending = [Panic] \<or>
        (\<exists>r. ending = [Ok (StreamFinished r)] \<and> verify_terminal js total r = Ok () \<and>
          (finishes_well (rs_finish_reason r) \<longrightarrow> validate_shape_for js request r = Ok ()))"
    unfolding stream_items_def by blast
  with assms(2) show ?thesis unfolding stream_items_def
    by (intro exI [of _ "d # ds"] exI [of _ ending] exI [of _ total]) simp
qed

lemma stream_items_ends [simp]:
  "stream_items js request acc []" "stream_items js request acc [Err e]" "stream_items js request acc [Panic]"
proof -
  have "stream_items js request acc ending" if "ending = [] \<or> (\<exists>e. ending = [Err e]) \<or> ending = [Panic]" for ending
    unfolding stream_items_def using that
    by (intro exI [of _ "[]"] exI [of _ ending] exI [of _ acc]) auto
  then show "stream_items js request acc []" "stream_items js request acc [Err e]" "stream_items js request acc [Panic]"
    by blast+
qed

lemma stream_items_finished:
  assumes "verify_terminal js acc r = Ok ()" and "stream_yield js request (StreamFinished r) = Ok ()"
  shows "stream_items js request acc [Ok (StreamFinished r)]"
proof -
  have "finishes_well (rs_finish_reason r) \<longrightarrow> validate_shape_for js request r = Ok ()"
    using assms(2) by (auto simp: stream_yield_def split: if_splits)
  with assms(1) show ?thesis unfolding stream_items_def
    by (intro exI [of _ "[]"] exI [of _ "[Ok (StreamFinished r)]"] exI [of _ acc]) auto
qed

text \<open>The yields of one round, followed by the items of the rest of the stream.\<close>

lemma yield_deltas:
  assumes "for_each push ds acc = Ok acc'" and "stream_items js request acc' later"
  shows "yield_events js request cancelled (map StreamDelta ds) = (out, going) \<Longrightarrow>
    stream_items js request acc (if going then out @ later else out)"
  using assms
proof (induction ds arbitrary: acc cancelled out going)
  case (Cons d ds)
  then obtain acc1 where p: "push d acc = Ok acc1" "for_each push ds acc1 = Ok acc'" by auto
  show ?case
  proof (cases "\<exists>cs. cancelled = True # cs")
    case False
    obtain out' going' where y: "yield_events js request (tl cancelled) (map StreamDelta ds) = (out', going')"
      by (cases "yield_events js request (tl cancelled) (map StreamDelta ds)")
    then have "(out, going) = (Ok (StreamDelta d) # out', going')"
      using Cons.prems(1) False by (auto simp: stream_yield_def Let_def split: list.splits bool.splits)
    then show ?thesis
      using stream_items_delta [OF Cons.IH [OF y p(2) Cons.prems(3)] p(1)] by (cases going') simp_all
  qed (use Cons.prems in auto)
qed auto

lemma yield_total:
  assumes "for_each push ds acc = Ok acc'" and "verify_terminal js acc' r = Ok ()"
  shows "yield_events js request cancelled (map StreamDelta ds @ [StreamFinished r]) = (out, going) \<Longrightarrow>
    stream_items js request acc out"
  using assms
proof (induction ds arbitrary: acc cancelled out going)
  case Nil
  then show ?case
    by (cases "stream_yield js request (StreamFinished r)")
      (auto simp: stream_items_finished Let_def split: list.splits bool.splits)
next
  case (Cons d ds)
  then obtain acc1 where p: "push d acc = Ok acc1" "for_each push ds acc1 = Ok acc'" by auto
  show ?case
  proof (cases "\<exists>cs. cancelled = True # cs")
    case False
    obtain out' going' where y: "yield_events js request (tl cancelled) (map StreamDelta ds @ [StreamFinished r]) = (out', going')"
      by (cases "yield_events js request (tl cancelled) (map StreamDelta ds @ [StreamFinished r])")
    then have "out = Ok (StreamDelta d) # out'"
      using Cons.prems(1) False by (auto simp: stream_yield_def Let_def split: list.splits bool.splits)
    then show ?thesis using stream_items_delta [OF Cons.IH [OF y p(2) Cons.prems(3)] p(1)] by simp
  qed (use Cons.prems in auto)
qed

lemma openai_rounds_items:
  "\<not> ss_finished d \<Longrightarrow> stream_items js request (ss_accumulator d) (openai_rounds js parse request waits chunks d)"
proof (induction js parse request waits chunks d rule: openai_rounds.induct)
  case (4 js parse request cancelled waits chunk chunks d)
  show ?case
  proof (cases "\<exists>bytes d' events. chunk = outcome.Ok bytes \<and> sse_push js parse bytes d = outcome.Ok (d', events)")
    case True
    then obtain bytes d' events where c: "chunk = outcome.Ok bytes" "sse_push js parse bytes d = outcome.Ok (d', events)" by blast
    obtain out going where y: "yield_events js request cancelled events = (out, going)" by (cases "yield_events js request cancelled events")
    from push_sound [OF c(2) "4.prems"] show ?thesis
    proof
      assume "deltas_since (ss_accumulator d) (d', events)"
      then obtain ds where ds: "\<not> ss_finished d'" "for_each push ds (ss_accumulator d) = outcome.Ok (ss_accumulator d')"
        "events = map StreamDelta ds" by (auto simp: deltas_since_def)
      have "going \<Longrightarrow> stream_items js request (ss_accumulator d') (openai_rounds js parse request waits chunks d')"
        using "4.IH" c y ds(1) by simp
      then show ?thesis
        using yield_deltas [OF ds(2), of js request "if going then openai_rounds js parse request waits chunks d' else []" cancelled out going] c y ds
        by (cases going) auto
    next
      assume "ends_with_total js (ss_accumulator d) (d', events)"
      then obtain ds r where ds: "ss_finished d'" "for_each push ds (ss_accumulator d) = outcome.Ok (ss_accumulator d')"
        "events = map StreamDelta ds @ [StreamFinished r]" "verify_terminal js (ss_accumulator d') r = outcome.Ok ()"
        by (auto simp: ends_with_total_def)
      then show ?thesis using yield_total [OF ds(2,4)] c y by auto
    qed
  next
    case False
    then show ?thesis
      by (cases chunk; cases "sse_push js parse (case chunk of outcome.Ok bytes \<Rightarrow> bytes | _ \<Rightarrow> []) d") auto
  qed
qed simp_all

text \<open>C40: The items of a stream, for any answer of the server and any cancellation: the deltas are ones
  the host's accumulator takes in order, at most one further item ends them, and when that is the
  finished response it is what the accumulated deltas add up to, and answers the request when it
  finished well.\<close>

theorem streams_end_with_their_total:
  "\<exists>ds ending total. openai_stream ops config inp opts cancelled waits = map (\<lambda>d. Ok (StreamDelta d)) ds @ ending \<and>
     for_each push ds (accumulator_new (go_limits opts)) = Ok total \<and>
     (ending = [] \<or> (\<exists>e. ending = [Err e]) \<or> ending = [Panic] \<or>
      (\<exists>r. ending = [Ok (StreamFinished r)] \<and> verify_terminal (pp_json ops) total r = Ok () \<and>
        (if finishes_well (rs_finish_reason r) then validate_shape_for (pp_json ops) inp r = Ok () else True)))"
proof -
  have "stream_items (pp_json ops) inp (accumulator_new (go_limits opts)) (openai_stream ops config inp opts cancelled waits)"
    using openai_rounds_items [of "sse_new (go_limits opts)" "pp_json ops" inp "pp_parse_chunk ops" waits]
    by (auto simp: openai_stream_def sse_new_def split: outcome.split)
  then show ?thesis by (simp only: stream_items_def if_bool_eq_conj simp_thms)
qed

end
