(* ===== verification/Spec2Isabelle.thy ===== *)
theory Spec2Isabelle
  imports StoreProps SessionProps ModelProps CallProps PluginKernelProps TaskProps ToolProps ToolCallProps
    ContextProps OpenAiProps
begin

text \<open>
  A verification development for Jingwei, an agent runtime in Rust (\<open>src/crates\<close>).

  \<^bold>\<open>The program.\<close> A host registers plugins; the plugin kernel composes them and starts the
  services they provide. A turn of an agent runs over those services: the Session runtime gives
  it an exclusive turn and appends its events to a canonical log, the model and tool runtimes
  execute calls, and every attempt, token and byte is charged to a task's budget ledger. Between
  turns a ledger exists only as a checkpoint image in a store; a lease claims the image for one
  execution, and a task coordinator continues a task only when snapshot, image and log agree.

  \<^bold>\<open>Theories and code.\<close> Definitions carry the source's names in snake case; a definition whose
  body is one stretch of a long function is named after what it does.
    \<^item> \<open>Prelude\<close>, \<open>OrderedSets\<close>: outcomes (\<open>Ok\<close>, \<open>Err\<close>, \<open>Panic\<close>), \<open>for\<close> loops that may leave
      with an error, checked words, \<open>Duration\<close>, blank text, \<open>BTreeMap\<close> and \<open>BTreeSet\<close>.
    \<^item> \<open>BudgetVocab\<close>, \<open>BudgetRecords\<close>: \<open>core/core/src/budget.rs\<close> and the records of
      \<open>core/budget\<close>. \<open>Ledger\<close>: the operations of \<open>core/budget/src/lib.rs\<close> over the state
      record \<open>ledger_state\<close>, one definition per method, guards included. \<open>Checkpoint\<close>:
      \<open>checkpoint.rs\<close>, \<open>grant.rs\<close> and \<open>recovery.rs\<close>. \<open>Execution\<close>: leases, grants and
      recovery over a store. \<open>FileStore\<close>: \<open>budget/file/src/lib.rs\<close>.
    \<^item> \<open>ModelProtocol\<close>, \<open>EventVocab\<close>, \<open>SessionLog\<close>: messages, streams, events and the
      physical log (\<open>core/core/src/model.rs\<close>, \<open>event.rs\<close>, \<open>session/session/src/lib.rs\<close>).
      \<open>SessionCoordinator\<close>: \<open>session/runtime/src/coordinator.rs\<close>, the mailbox of commands, turns,
      appends and settlement; \<open>Jsonl\<close>: \<open>session/jsonl/src/lib.rs\<close> over the bytes of its files.
    \<^item> \<open>LlmContracts\<close>, \<open>ModelScheduler\<close>, \<open>ModelRuntime\<close>: \<open>llm/llm/src\<close> and \<open>llm/runtime/src\<close>:
      the slots and the queue of jobs, and the drivers of complete and streamed calls.
      \<open>OpenAiWire\<close>: \<open>llm/openai/src\<close>, requests, server-sent events and streams.
    \<^item> \<open>ToolContracts\<close>, \<open>ToolRecovery\<close>, \<open>TextBounds\<close>, \<open>ToolRuntime\<close>, \<open>ToolOperation\<close>:
      \<open>tools/tool/src\<close> and \<open>tools/runtime/src/lib.rs\<close>: records and closure failures, retry plans,
      turns and jobs, and the driver of one operation through guards, authorizer and body.
    \<^item> \<open>ContextProjection\<close>, \<open>ContextBuilder\<close>, \<open>ContextContent\<close>: \<open>context/context/src\<close>: the
      projection of a log to a conversation, the bounded selection of turns, stored content.
    \<^item> \<open>PluginVocab\<close>, \<open>PluginGraph\<close>, \<open>PluginCompose\<close>, \<open>PluginKernel\<close>: \<open>plugin/plugin/src\<close>:
      the dependency graph, the composition, and mounting, activation, rollback and shutdown.
    \<^item> \<open>TaskHistory\<close>, \<open>TaskState\<close>, \<open>TaskStore\<close>, \<open>TaskRuntime\<close>: \<open>task/state/src\<close> and
      \<open>task/runtime/src/lib.rs\<close>.

  \<^bold>\<open>Lemmas.\<close> \<open>LedgerInv\<close>, \<open>LedgerOps\<close> and \<open>LedgerSteps\<close> hold the ledger's invariant, what each
  operation does (over the locale \<open>ledger_op\<close>) and the step relation of all of them, sealing included;
  \<open>LedgerProps\<close> the limits and exact accounting that follow. \<open>CheckpointInv\<close> and \<open>CheckpointProps\<close> characterise valid images and
  show that sealing and restoring keep the accounts. \<open>ExecutionInv\<close>, \<open>StoreLaws\<close>,
  \<open>FileStoreInv\<close>, \<open>ExecutionProps\<close> and \<open>StoreProps\<close> state the contract of checkpoint storage as
  the locales \<open>cas_laws\<close> and \<open>checkpoint_laws\<close>, interpret them on the file store under every
  fault, and derive exclusive leases, linear histories, grants applied once and recoveries that
  refund nothing. \<open>SessionCoordinatorInv\<close>, \<open>SessionLaws\<close>,
  \<open>JsonlInv\<close> and \<open>SessionProps\<close> do the same for the Session: the locale
  \<open>session_persistence_laws\<close>, interpreted on the JSONL files under every fault, gives events that
  survive and settlements that are the turn. \<open>ModelProps\<close> gives the message checks and the stream accumulator as
  declarative descriptions. \<open>GraphSearch\<close>, \<open>Components\<close>, \<open>TopologicalOrder\<close>, \<open>PluginResolve\<close>
  and \<open>PluginComposeInv\<close> prove the two graph algorithms (Kahn's order; strongly connected
  components by two searches, over the locale \<open>graph_search\<close>) and the fixpoint of the
  composition; \<open>PluginKernelInv\<close> and \<open>Activation\<close> the registry's invariants and the traces of
  starts and stops. \<open>TaskHistoryInv\<close>, \<open>TaskStateInv\<close> and \<open>TaskStoreLaws\<close> prove that the history
  scan computes a positional description of open calls, that captures succeed each other, and the
  contract \<open>task_store_laws\<close>, interpreted on the in-process store. \<open>ModelSchedulerInv\<close>,
  \<open>ModelTurns\<close>, \<open>ModelDriverInv\<close>, \<open>ModelLaws\<close> (the locale \<open>model_budget_laws\<close>) and \<open>CallProps\<close>
  hold the slots, what a call records, returns and charges, and when it ends; \<open>ToolRecoveryInv\<close>,
  \<open>ToolOperationInv\<close>, \<open>ToolTurns\<close>, \<open>ToolLaws\<close> (\<open>tool_clock_laws\<close>, \<open>tool_charge_laws\<close>),
  \<open>ToolProps\<close> and \<open>ToolCallProps\<close> the same for tools, with retries; the ledger's operations on one
  run interpret the three budget locales. \<open>ContextProjectionInv\<close>, \<open>ContextBuilderInv\<close> and
  \<open>ContextProps\<close> show that projections lose nothing and that a built context is the largest that
  fits, against a description of the request and its tokens that does not mention the builder;
  \<open>OpenAiProps\<close> that decoding ignores chunks and that streams end with their total. The theories with \<open>Props\<close> in
  their names hold the properties and their witnesses.

  \<^bold>\<open>Conventions.\<close> Machine integers are words of their width; a panic is a value. An awaited
  operation is a function from a state to a result and a new state; whatever other clients do
  meanwhile is in the state a later call meets, and theorems about runs of a store quantify over
  every sequence of its operations. The file store meets the outcomes of the operating system in
  a plan of faults, so a theorem over all states covers every fault. \<open>serde_json\<close>, clocks, new
  identifiers and the host's services are parameters.
  The driver of a model call runs over a schedule of the branches its waits take, that of a tool
  operation over a schedule of polls; both return \<open>None\<close> when the schedule ends first. The append
  of a recorder, which no deadline or cancellation discards, may answer \<open>None\<close>: it never ends. The
  histories of the drivers hold what a recorder, a guard or an authorizer itself answered, so that
  the properties speak of these answers and not of what the driver made of them.

  \<^bold>\<open>Bounds and fuel.\<close> The two recursive graph searches carry fuel, one unit per node at the
  depth of the recursion; \<open>GraphSearch\<close> shows that the number of nodes is enough, so the
  searches always return. Kahn's loop, the composition's fixpoint and the traversal of payloads
  are total functions with measures: the degrees that are left, the capabilities that are not
  bound, and the 65536 values a traversal may visit.

  \<^bold>\<open>Not modelled.\<close> Formatting of errors, serde's field handling, the scheduling of async tasks
  and notifications (a wait is its condition or a schedule), the HTTP client, JSON text and schema
  compilation, and the crates the manifest lists as not modelled: the task file store, whose log and
  faults are those of the budget file store, the agent's prompts and bodies, and the assembly of plugins.
\<close>

end
